(* ===== verification/Prelude.thy ===== *)
theory Prelude
  imports Complex_Main
begin

text \<open>
  Shared vocabulary of the development.

  \<^item> Python strings are lists of Unicode code points (\<open>str\<close>); \<open>lit\<close> turns an ASCII
    literal into one. \<open>strip\<close>, \<open>split_ws\<close> and \<open>join_sp\<close> are \<open>str.strip()\<close>,
    \<open>str.split()\<close> and \<open>" ".join\<close>.
  \<^item> An operation that may raise returns a sum, \<open>Inl\<close> the exception; \<open>andthen\<close> sequences.
  \<^item> A database table is the list of its rows. \<open>tupdate\<close> and \<open>rowcount\<close> are SQL's
    \<open>UPDATE ... WHERE\<close> and the number of rows it matched, \<open>List.find\<close> a scalar \<open>SELECT\<close>.
  \<^item> SQL's three-valued logic (\<open>tri\<close>): \<open>None\<close> is SQL's NULL truth value, and a CHECK
    constraint is violated only by \<open>Some False\<close>.
  \<^item> A \<open>datetime\<close> is the number of microseconds since the epoch, in UTC.
\<close>

named_theorems table_simps
named_theorems sql_simps

section \<open>Exceptions\<close>

datatype exc =
    ValueError string
  | KeyError string
  | PermissionError string
  | RuntimeError string
  | IntegrityError string
  | IdempotencyConflictError
  | MediaQuotaExceededError string
  | MediaQuotaExceeded string
  | MediaAuthorizationError
  | MediaLeaseStateError string
  | SpeechQuotaExceededError string
  | SpeechHmacReadinessError string
  | SpeechLeaseStateError string
  | SpeechAdmissionError string
  | OverflowError string
  | TypeError string

definition andthen :: "'e + 'a \<Rightarrow> ('a \<Rightarrow> 'e + 'b) \<Rightarrow> 'e + 'b" where
  "andthen m k = (case m of Inl e \<Rightarrow> Inl e | Inr x \<Rightarrow> k x)"

definition require :: "bool \<Rightarrow> 'e \<Rightarrow> 'e + unit" where
  "require b e = (if b then Inr () else Inl e)"

lemma andthen_Inl [simp]: "andthen (Inl e) k = Inl e"
  by (simp add: andthen_def)

lemma andthen_Inr [simp]: "andthen (Inr x) k = k x"
  by (simp add: andthen_def)

lemma require_True [simp]: "require True e = Inr ()"
  by (simp add: require_def)

lemma require_False [simp]: "require False e = Inl e"
  by (simp add: require_def)

lemma require_Inr_iff [simp]: "require b e = Inr u \<longleftrightarrow> b"
  by (simp add: require_def)

lemma andthen_Inr_iff: "andthen m k = Inr y \<longleftrightarrow> (\<exists>x. m = Inr x \<and> k x = Inr y)"
  by (cases m) auto

lemma andthen_Inl_iff:
  "andthen m k = Inl e \<longleftrightarrow> m = Inl e \<or> (\<exists>x. m = Inr x \<and> k x = Inl e)"
  by (cases m) auto

lemma andthen_require: "andthen (require b e) k = (if b then k () else Inl e)"
  by (simp add: require_def)

text \<open>A sequence of checks, each with the exception it raises: the first that fails wins.\<close>

fun require_all :: "(bool \<times> 'e) list \<Rightarrow> 'e + unit" where
  "require_all [] = Inr ()"
| "require_all ((b, e) # cs) = (if b then require_all cs else Inl e)"

lemma require_all_Inr_iff [simp]: "require_all cs = Inr u \<longleftrightarrow> list_all fst cs"
  by (induction cs rule: require_all.induct) (auto simp: require_all.simps(2))

declare require_all.simps(2) [simp del]

lemma require_all_Inl_iff [simp]:
  "require_all ((b, e) # cs) = Inl x \<longleftrightarrow> (if b then require_all cs = Inl x else e = x)"
  by (simp add: require_all.simps(2))

lemma require_all_append:
  "require_all (cs @ ds) = andthen (require_all cs) (\<lambda>_. require_all ds)"
  by (induction cs rule: require_all.induct) (auto simp: require_all.simps(2))

lemma require_all_cases:
  "require_all cs = Inr () \<or> (\<exists>e. require_all cs = Inl e \<and> (False, e) \<in> set cs)"
  by (induction cs rule: require_all.induct) (auto simp: require_all.simps(2))

section \<open>Times\<close>

text \<open>\<open>round(us / 1000)\<close>, halves to the even neighbour.\<close>

definition round_ms :: "int \<Rightarrow> int" where
  "round_ms us = (let q = us div 1000; r = us mod 1000 in
     if r < 500 \<or> r = 500 \<and> even q then q else q + 1)"

section \<open>Strings\<close>

type_synonym str = "nat list"
type_synonym datetime = int

definition lit :: "string \<Rightarrow> str" where
  "lit s = map of_char s"

lemma lit_Nil [simp]: "lit [] = []"
  by (simp add: lit_def)

lemma length_lit [simp]: "length (lit s) = length s"
  by (simp add: lit_def)

lemma lit_append: "lit (s @ t) = lit s @ lit t"
  by (simp add: lit_def)

lemma lit_eq_iff [simp]: "lit s = lit t \<longleftrightarrow> s = t"
  by (simp add: lit_def inj_map_eq_map inj_on_def)

lemma lit_eq_Nil [simp]: "lit s = [] \<longleftrightarrow> s = []" "[] = lit s \<longleftrightarrow> s = []"
  by (auto simp: lit_def)

text \<open>The white space of \<open>str.isspace\<close>: \<open>strip\<close> and \<open>split\<close> use exactly these.\<close>

definition py_isspace :: "nat \<Rightarrow> bool" where
  "py_isspace c \<longleftrightarrow>
     (9 \<le> c \<and> c \<le> 13) \<or> (28 \<le> c \<and> c \<le> 32) \<or> c = 133 \<or> c = 160 \<or> c = 5760 \<or>
     (8192 \<le> c \<and> c \<le> 8202) \<or> c = 8232 \<or> c = 8233 \<or> c = 8239 \<or> c = 8287 \<or> c = 12288"

definition strip :: "str \<Rightarrow> str" where
  "strip s = rev (dropWhile py_isspace (rev (dropWhile py_isspace s)))"

definition blank :: "str \<Rightarrow> bool" where
  "blank s \<longleftrightarrow> strip s = []"

text \<open>Comparisons with large numbers are evaluated on integers.\<close>

lemma py_isspace_code [code]:
  "py_isspace c \<longleftrightarrow> (let i = int c in
     if i \<le> 160 then (9 \<le> i \<and> i \<le> 13) \<or> (28 \<le> i \<and> i \<le> 32) \<or> i = 133 \<or> i = 160
     else i = 5760 \<or> (8192 \<le> i \<and> i \<le> 8202) \<or> i = 8232 \<or> i = 8233 \<or> i = 8239 \<or> i = 8287 \<or> i = 12288)"
  by (auto simp: py_isspace_def Let_def)

lemma strip_Nil [simp]: "strip [] = []"
  by (simp add: strip_def)

lemma strip_eq_Nil_iff: "strip s = [] \<longleftrightarrow> (\<forall>c \<in> set s. py_isspace c)"
proof -
  have "strip s = [] \<longleftrightarrow> (\<forall>c \<in> set (dropWhile py_isspace s). py_isspace c)"
    by (auto simp: strip_def)
  also have "\<dots> \<longleftrightarrow> (\<forall>c \<in> set s. py_isspace c)"
    by (induction s) auto
  finally show ?thesis .
qed

lemma blank_iff [code]: "blank s \<longleftrightarrow> list_all py_isspace s"
  by (simp add: blank_def strip_eq_Nil_iff list_all_iff)

lemma blank_Nil [simp]: "blank []"
  by (simp add: blank_def)

lemma blankD: "\<not> blank s \<Longrightarrow> s \<noteq> []"
  by auto

lemma hd_strip: "strip s \<noteq> [] \<Longrightarrow> \<not> py_isspace (hd (strip s))"
proof -
  assume ne: "strip s \<noteq> []"
  let ?t = "dropWhile py_isspace s"
  have "?t \<noteq> []" using ne by (metis strip_def rev.simps(1) dropWhile.simps(1))
  then have h: "\<not> py_isspace (hd ?t)" by (rule hd_dropWhile)
  obtain zs where zs: "?t = strip s @ zs"
    by (metis strip_def rev_append rev_rev_ident takeWhile_dropWhile_id)
  have "hd ?t = hd (strip s)"
    by (subst zs) (simp add: ne)
  with h show ?thesis by simp
qed

lemma strip_idem [simp]: "strip (strip s) = strip s"
proof (cases "strip s = []")
  case False
  have "rev (strip s) = dropWhile py_isspace (rev (dropWhile py_isspace s))"
    by (simp add: strip_def)
  then have nl: "\<not> py_isspace (hd (rev (strip s)))"
    using False hd_dropWhile by (metis rev_is_Nil_conv)
  have id: "dropWhile py_isspace t = t" if "t \<noteq> []" "\<not> py_isspace (hd t)" for t
    using that by (cases t) auto
  show ?thesis
    using False nl id[OF False hd_strip[OF False]] id[of "rev (strip s)"]
    by (simp add: strip_def[of "strip s"])
qed simp

text \<open>\<open>str.split()\<close>: the maximal runs of non-space characters.\<close>

function split_ws :: "str \<Rightarrow> str list" where
  "split_ws s =
     (case dropWhile py_isspace s of
        [] \<Rightarrow> []
      | c # cs \<Rightarrow> (c # takeWhile (\<lambda>x. \<not> py_isspace x) cs)
                   # split_ws (dropWhile (\<lambda>x. \<not> py_isspace x) cs))"
  by pat_completeness auto
termination
proof (relation "measure length", simp)
  fix s c cs
  assume "dropWhile py_isspace s = c # cs"
  then have "length (c # cs) \<le> length s" by (metis length_dropWhile_le)
  moreover have "length (dropWhile (\<lambda>x. \<not> py_isspace x) cs) \<le> length cs"
    by (rule length_dropWhile_le)
  ultimately show "(dropWhile (\<lambda>x. \<not> py_isspace x) cs, s) \<in> measure length" by simp
qed

declare split_ws.simps [simp del]

fun join_sp :: "str list \<Rightarrow> str" where
  "join_sp [] = []"
| "join_sp [w] = w"
| "join_sp (w # ws) = w @ 32 # join_sp ws"

section \<open>Tables\<close>

definition tupdate :: "('r \<Rightarrow> bool) \<Rightarrow> ('r \<Rightarrow> 'r) \<Rightarrow> 'r list \<Rightarrow> 'r list" where
  "tupdate P f rows = map (\<lambda>r. if P r then f r else r) rows"

definition rowcount :: "('r \<Rightarrow> bool) \<Rightarrow> 'r list \<Rightarrow> nat" where
  "rowcount P rows = length (filter P rows)"

definition unique_key :: "('r \<Rightarrow> 'k) \<Rightarrow> 'r list \<Rightarrow> bool" where
  "unique_key k rows \<longleftrightarrow> distinct (map k rows)"

lemma find_SomeD: "List.find P xs = Some x \<Longrightarrow> x \<in> set xs \<and> P x"
  by (auto simp: find_Some_iff)

lemma find_NoneD: "List.find P xs = None \<Longrightarrow> x \<in> set xs \<Longrightarrow> \<not> P x"
  by (auto simp: find_None_iff)

lemma tupdate_Nil [simp]: "tupdate P f [] = []"
  by (simp add: tupdate_def)

lemma tupdate_Cons [table_simps]:
  "tupdate P f (r # rs) = (if P r then f r else r) # tupdate P f rs"
  by (simp add: tupdate_def)

lemma length_tupdate [simp]: "length (tupdate P f rows) = length rows"
  by (simp add: tupdate_def)

lemma set_tupdate: "set (tupdate P f rows) = f ` {r \<in> set rows. P r} \<union> {r \<in> set rows. \<not> P r}"
  by (auto simp: tupdate_def)

lemma tupdate_id: "(\<And>r. r \<in> set rows \<Longrightarrow> \<not> P r) \<Longrightarrow> tupdate P f rows = rows"
  by (simp add: tupdate_def map_idI)

lemma rowcount_0_iff: "rowcount P rows = 0 \<longleftrightarrow> (\<forall>r \<in> set rows. \<not> P r)"
  by (simp add: rowcount_def filter_empty_conv)

lemma rowcount_pos_iff: "0 < rowcount P rows \<longleftrightarrow> (\<exists>r \<in> set rows. P r)"
  using rowcount_0_iff[of P rows] by auto

lemma map_tupdate_key: "(\<And>r. k (f r) = k r) \<Longrightarrow> map k (tupdate P f rows) = map k rows"
  by (simp add: tupdate_def)

lemma unique_key_tupdate: "(\<And>r. k (f r) = k r) \<Longrightarrow> unique_key k (tupdate P f rows) = unique_key k rows"
  by (simp add: unique_key_def map_tupdate_key)

lemma unique_key_append1:
  "unique_key k (rows @ [r]) \<longleftrightarrow> unique_key k rows \<and> k r \<notin> k ` set rows"
  by (auto simp: unique_key_def)

lemma unique_key_Cons:
  "unique_key k (r # rows) \<longleftrightarrow> k r \<notin> k ` set rows \<and> unique_key k rows"
  by (simp add: unique_key_def)

lemma unique_keyD:
  "unique_key k rows \<Longrightarrow> r \<in> set rows \<Longrightarrow> r' \<in> set rows \<Longrightarrow> k r = k r' \<Longrightarrow> r = r'"
  unfolding unique_key_def by (metis distinct_map inj_onD)

lemma find_unique:
  assumes "unique_key k rows" and "r \<in> set rows" and "P r" and "\<And>x. P x \<Longrightarrow> k x = k r"
  shows "List.find P rows = Some r"
proof (cases "List.find P rows")
  case None
  then show ?thesis using assms(2,3) by (simp add: find_None_iff)
next
  case (Some x)
  then have "x \<in> set rows" and "P x" by (auto dest: find_SomeD)
  then have "x = r" using unique_keyD[OF assms(1)] assms(2,4) by blast
  with Some show ?thesis by simp
qed

lemma rowcount_tupdate:
  "(\<And>r. P (f r) = P r) \<Longrightarrow> rowcount P (tupdate Q f rows) = rowcount P rows"
  by (induction rows) (auto simp: rowcount_def tupdate_Cons)

lemma rowcount_append1: "rowcount P (rows @ [r]) = rowcount P rows + (if P r then 1 else 0)"
  by (simp add: rowcount_def)

lemma rowcount_unique:
  "unique_key k rows \<Longrightarrow> (\<And>x. P x \<Longrightarrow> k x = a) \<Longrightarrow> rowcount P rows \<le> 1"
proof (induction rows)
  case (Cons r rows)
  show ?case
  proof (cases "P r")
    case True
    then have "rowcount P rows = 0"
      using Cons.prems by (auto simp: rowcount_0_iff unique_key_Cons)
    with True show ?thesis by (simp add: rowcount_def)
  next
    case False
    with Cons show ?thesis by (auto simp: rowcount_def unique_key_Cons)
  qed
qed (simp add: rowcount_def)

text \<open>An UPDATE by primary key replaces exactly one row.\<close>

lemma tupdate_by_key:
  assumes "unique_key k rows" and "r \<in> set rows"
  obtains xs ys where "rows = xs @ r # ys"
    and "\<And>r'. k r' = k r \<Longrightarrow> tupdate (\<lambda>x. k x = k r') (\<lambda>_. r') rows = xs @ r' # ys"
proof -
  obtain xs ys where rows: "rows = xs @ r # ys" using split_list[OF assms(2)] by blast
  have "k r \<notin> k ` (set xs \<union> set ys)" using assms(1) by (auto simp: rows unique_key_def)
  then have ne: "\<forall>x \<in> set xs \<union> set ys. k x \<noteq> k r" by (metis imageI)
  have "tupdate (\<lambda>x. k x = k r') (\<lambda>_. r') rows = xs @ r' # ys" if "k r' = k r" for r'
  proof -
    have "map (\<lambda>x. if k x = k r' then r' else x) zs = zs" if "set zs \<subseteq> set xs \<union> set ys" for zs
      by (rule map_idI) (use ne that \<open>k r' = k r\<close> in auto)
    then show ?thesis using that by (simp add: rows tupdate_def)
  qed
  with rows show ?thesis by (rule that)
qed

section \<open>SQL truth values\<close>

type_synonym tri = "bool option"

fun sql_not :: "tri \<Rightarrow> tri" where
  "sql_not (Some b) = Some (\<not> b)"
| "sql_not None = None"

fun sql_and :: "tri \<Rightarrow> tri \<Rightarrow> tri" where
  "sql_and (Some False) _ = Some False"
| "sql_and _ (Some False) = Some False"
| "sql_and (Some True) (Some True) = Some True"
| "sql_and _ _ = None"

fun sql_or :: "tri \<Rightarrow> tri \<Rightarrow> tri" where
  "sql_or (Some True) _ = Some True"
| "sql_or _ (Some True) = Some True"
| "sql_or (Some False) (Some False) = Some False"
| "sql_or _ _ = None"

definition is_null :: "'a option \<Rightarrow> tri" where
  "is_null c = Some (c = None)"

definition is_not_null :: "'a option \<Rightarrow> tri" where
  "is_not_null c = Some (c \<noteq> None)"

definition sql_cmp :: "('a \<Rightarrow> bool) \<Rightarrow> 'a option \<Rightarrow> tri" where
  "sql_cmp p c = map_option p c"

definition sql_check :: "tri \<Rightarrow> bool" where
  "sql_check t \<longleftrightarrow> t \<noteq> Some False"

lemma sql_and_Some [sql_simps]: "sql_and (Some a) (Some b) = Some (a \<and> b)"
  by (cases a; cases b) auto

lemma sql_or_Some [sql_simps]: "sql_or (Some a) (Some b) = Some (a \<or> b)"
  by (cases a; cases b) auto

lemma sql_and_True [sql_simps]: "sql_and (Some True) t = t" "sql_and t (Some True) = t"
  by (cases t; cases "the t"; simp)+

declare is_null_def [sql_simps] is_not_null_def [sql_simps]

lemma sql_check_Some [simp]: "sql_check (Some b) = b"
  by (simp add: sql_check_def)

lemma sql_check_None [simp]: "sql_check None"
  by (simp add: sql_check_def)

lemma sql_check_and: "sql_check (sql_and a b) \<longleftrightarrow> sql_check a \<and> sql_check b"
  by (cases "(a, b)" rule: sql_and.cases) (auto simp: sql_check_def)

lemma sql_cmp_None [simp]: "sql_cmp p None = None"
  by (simp add: sql_cmp_def)

lemma sql_cmp_Some [simp]: "sql_cmp p (Some x) = Some (p x)"
  by (simp add: sql_cmp_def)

lemma is_null_simps [simp]: "is_null None = Some True" "is_null (Some y) = Some False"
  by (simp_all add: is_null_def)

declare sql_and_Some [simp] sql_or_Some [simp]

lemma sql_null_or_check [simp]:
  "sql_check (sql_or (is_null x) (sql_cmp p x)) \<longleftrightarrow> (\<forall>y. x = Some y \<longrightarrow> p y)"
  by (cases x) (auto simp: sql_simps)

end
