(* ===== verification/Interfaces.thy ===== *)
theory Interfaces
  imports Prelude
begin

text \<open>
  The contracts that several components share, as locales. Each is interpreted on the model's own
  operations in the theory that provides them.

  \<^item> \<open>invariant_system\<close>: a step relation that keeps an invariant.
  \<^item> \<open>fenced_operation\<close>: an operation guarded by a single-use token (a lease generation, an owner
    token): success spends the token, and a spent token is refused for ever.
  \<^item> \<open>event_log\<close>: an append-only log per session, numbered without gaps, replay-safe on event ids.
\<close>

locale invariant_system =
  fixes inv :: "'s \<Rightarrow> bool"
    and step :: "'s \<Rightarrow> 's \<Rightarrow> bool"
  assumes step_inv: "inv s \<Longrightarrow> step s s' \<Longrightarrow> inv s'"
begin

lemma steps_inv:
  assumes "step\<^sup>*\<^sup>* s s'" and "inv s"
  shows "inv s'"
  using assms by (induction rule: rtranclp_induct) (auto intro: step_inv)

lemma steps_measure:
  assumes "step\<^sup>*\<^sup>* s s'" and "inv s"
    and "\<And>a. R a a" and "\<And>a b c. R a b \<Longrightarrow> R b c \<Longrightarrow> R a c"
    and "\<And>a b. inv a \<Longrightarrow> step a b \<Longrightarrow> R a b"
  shows "R s s'"
  using assms(1)
proof (induction rule: rtranclp_induct)
  case base
  show ?case by (rule assms(3))
next
  case (step y z)
  have "inv y" using steps_inv[OF step(1) assms(2)] .
  then show ?case using assms(4)[OF step(3) assms(5)[OF _ step(2)]] by blast
qed

end

locale fenced_operation = invariant_system inv step
  for inv :: "'s \<Rightarrow> bool" and step :: "'s \<Rightarrow> 's \<Rightarrow> bool" +
  fixes spent :: "'t \<Rightarrow> 's \<Rightarrow> bool"
    and exec :: "'t \<Rightarrow> 's \<Rightarrow> 's option"
  assumes exec_step: "exec t s = Some s' \<Longrightarrow> step s s'"
    and exec_spends: "inv s \<Longrightarrow> exec t s = Some s' \<Longrightarrow> spent t s'"
    and spent_stable: "inv s \<Longrightarrow> step s s' \<Longrightarrow> spent t s \<Longrightarrow> spent t s'"
    and spent_refused: "inv s \<Longrightarrow> spent t s \<Longrightarrow> exec t s = None"
begin

lemma spent_stable_steps:
  assumes "step\<^sup>*\<^sup>* s s'" and "inv s" and "spent t s"
  shows "spent t s'"
  using assms(1)
proof (induction rule: rtranclp_induct)
  case (step y z)
  show ?case by (rule spent_stable[OF steps_inv[OF step(1) assms(2)] step(2,3)])
qed (rule assms(3))

lemma exec_once:
  assumes "inv s" and "exec t s = Some s'" and "step\<^sup>*\<^sup>* s' s''"
  shows "exec t s'' = None"
proof -
  have i: "inv s'" using assms(1) exec_step[OF assms(2)] by (rule step_inv)
  have "spent t s''"
    by (rule spent_stable_steps[OF assms(3) i exec_spends[OF assms(1,2)]])
  then show ?thesis using spent_refused[OF steps_inv[OF assms(3) i]] by blast
qed

end

text \<open>
  The log: \<open>log\<close> reads a session's events in order, \<open>append\<close> is given the session, the content
  and an optional event id, and returns the new store with the stored event, or nothing when it
  raises. \<open>known\<close> says that the store already holds the event and appends nothing.
\<close>

locale event_log =
  fixes inv :: "'s \<Rightarrow> bool"
    and log :: "'sid \<Rightarrow> 's \<Rightarrow> 'e list"
    and append :: "'sid \<Rightarrow> 'c \<Rightarrow> 'id option \<Rightarrow> 's \<Rightarrow> ('s \<times> 'e) option"
    and seqno :: "'e \<Rightarrow> int"
    and known :: "'sid \<Rightarrow> 'c \<Rightarrow> 'id option \<Rightarrow> 's \<Rightarrow> bool"
  assumes append_inv: "inv s \<Longrightarrow> append i c e s = Some (s', x) \<Longrightarrow> inv s'"
    and append_new: "inv s \<Longrightarrow> \<not> known i c e s \<Longrightarrow> append i c e s = Some (s', x) \<Longrightarrow>
      log i s' = log i s @ [x] \<and> seqno x = int (length (log i s)) + 1"
    and append_known: "inv s \<Longrightarrow> known i c e s \<Longrightarrow> append i c e s = Some (s', x) \<Longrightarrow> s' = s"
    and append_other: "inv s \<Longrightarrow> append i c e s = Some (s', x) \<Longrightarrow> j \<noteq> i \<Longrightarrow> log j s' = log j s"
begin

definition numbered :: "'sid \<Rightarrow> 's \<Rightarrow> bool" where
  "numbered i s \<longleftrightarrow> map seqno (log i s) = map int [1..<Suc (length (log i s))]"

lemma append_cases:
  assumes "inv s" and "append i c e s = Some (s', x)"
  obtains (same) "log j s' = log j s"
  | (grown) "log j s' = log j s @ [x]" "seqno x = int (length (log j s)) + 1"
  using append_new[OF assms(1) _ assms(2)] append_known[OF assms(1) _ assms(2)]
    append_other[OF assms] by metis

lemma append_numbered:
  assumes "inv s" and "append i c e s = Some (s', x)" and "numbered j s"
  shows "numbered j s'"
  using assms(1,2)
proof (cases rule: append_cases[where j = j])
  case same
  then show ?thesis using assms(3) by (simp add: numbered_def)
next
  case grown
  then show ?thesis using assms(3) by (simp add: numbered_def)
qed

text \<open>A run of appends, any of which may have raised and left the store as it was.\<close>

definition appends :: "'s \<Rightarrow> 's \<Rightarrow> bool" where
  "appends s s' \<longleftrightarrow> (\<exists>i c e x. append i c e s = Some (s', x))"

lemma appends_inv:
  assumes "appends\<^sup>*\<^sup>* s s'" and "inv s"
  shows "inv s'"
  using assms by (induction rule: rtranclp_induct) (auto simp: appends_def intro: append_inv)

lemma appends_numbered:
  assumes "appends\<^sup>*\<^sup>* s s'" and "inv s" and "numbered j s"
  shows "numbered j s'"
  using assms(1)
proof (induction rule: rtranclp_induct)
  case (step t u)
  then show ?case
    using appends_inv[OF step.hyps(1) assms(2)] append_numbered unfolding appends_def by blast
qed (rule assms(3))

lemma appends_prefix:
  assumes "appends\<^sup>*\<^sup>* s s'" and "inv s"
  shows "\<exists>es. log j s' = log j s @ es"
  using assms(1)
proof (induction rule: rtranclp_induct)
  case (step t u)
  obtain i c e x where a: "append i c e t = Some (u, x)"
    using step.hyps(2) unfolding appends_def by blast
  obtain es where es: "log j t = log j s @ es" using step.IH by blast
  show ?case using appends_inv[OF step.hyps(1) assms(2)] a
    by (cases rule: append_cases[where j = j]) (auto simp: es)
qed simp

end

end
