(* ===== verification/ScanContract.thy ===== *)
theory ScanContract
  imports Prelude
begin

text \<open>
  The frozen malware-scan contract, \<^verbatim>\<open>contracts/media_scan.py\<close>: scan results, rejection codes,
  which codes go with which result, the default code of a result, the SQL CHECK constraint
  generated from the same table, and the scanner's audit snapshot. The verdict of a scanner and
  its mapping to public codes is \<^verbatim>\<open>media_core/ports.py\<close>; the normalisation of legacy scan rows
  is \<^verbatim>\<open>domain/evidence_facts.py\<close>.
\<close>

section \<open>Results and rejection codes\<close>

datatype scan_result_kind = Clean | Malicious | Oversize | Timeout | Unavailable | Error

datatype scan_rejection_code =
    Malware_Signature_Detected
  | Payload_Too_Large
  | Deadline_Exceeded
  | Daemon_Unavailable
  | Daemon_Error
  | Legacy_Unknown_Unclassified

fun kind_value :: "scan_result_kind \<Rightarrow> string" where
  "kind_value Clean = ''clean''"
| "kind_value Malicious = ''malicious''"
| "kind_value Oversize = ''oversize''"
| "kind_value Timeout = ''timeout''"
| "kind_value Unavailable = ''unavailable''"
| "kind_value Error = ''error''"

fun code_value :: "scan_rejection_code \<Rightarrow> string" where
  "code_value Malware_Signature_Detected = ''malware_signature_detected''"
| "code_value Payload_Too_Large = ''payload_too_large''"
| "code_value Deadline_Exceeded = ''deadline_exceeded''"
| "code_value Daemon_Unavailable = ''daemon_unavailable''"
| "code_value Daemon_Error = ''daemon_error''"
| "code_value Legacy_Unknown_Unclassified = ''legacy_unknown_unclassified''"

text \<open>The members in declaration order, and \<open>ScanResultKind(value)\<close>.\<close>

definition all_kinds :: "scan_result_kind list" where
  "all_kinds = [Clean, Malicious, Oversize, Timeout, Unavailable, Error]"

definition kind_of_value :: "string \<Rightarrow> exc + scan_result_kind" where
  "kind_of_value v = (case List.find (\<lambda>k. kind_value k = v) all_kinds of
     None \<Rightarrow> Inl (ValueError ''not a valid ScanResultKind'') | Some k \<Rightarrow> Inr k)"

fun SCAN_RESULT_REJECTION_CODES :: "scan_result_kind \<Rightarrow> scan_rejection_code option list" where
  "SCAN_RESULT_REJECTION_CODES Clean = [None]"
| "SCAN_RESULT_REJECTION_CODES Malicious = [Some Malware_Signature_Detected]"
| "SCAN_RESULT_REJECTION_CODES Oversize = [Some Payload_Too_Large]"
| "SCAN_RESULT_REJECTION_CODES Timeout = [Some Deadline_Exceeded]"
| "SCAN_RESULT_REJECTION_CODES Unavailable = [Some Daemon_Unavailable]"
| "SCAN_RESULT_REJECTION_CODES Error = [Some Daemon_Error, Some Legacy_Unknown_Unclassified]"

fun DEFAULT_SCAN_REJECTION_CODES :: "scan_result_kind \<Rightarrow> scan_rejection_code option" where
  "DEFAULT_SCAN_REJECTION_CODES Malicious = Some Malware_Signature_Detected"
| "DEFAULT_SCAN_REJECTION_CODES Oversize = Some Payload_Too_Large"
| "DEFAULT_SCAN_REJECTION_CODES Timeout = Some Deadline_Exceeded"
| "DEFAULT_SCAN_REJECTION_CODES Unavailable = Some Daemon_Unavailable"
| "DEFAULT_SCAN_REJECTION_CODES Error = Some Daemon_Error"
| "DEFAULT_SCAN_REJECTION_CODES Clean = None"

definition default_scan_rejection_code :: "scan_result_kind \<Rightarrow> exc + scan_rejection_code" where
  "default_scan_rejection_code result = (case DEFAULT_SCAN_REJECTION_CODES result of
     None \<Rightarrow> Inl (ValueError (kind_value result @ '' scan result has no default rejection code''))
   | Some c \<Rightarrow> Inr c)"

lemma kind_value_inject [simp]: "kind_value a = kind_value b \<longleftrightarrow> a = b"
  by (cases a; cases b) auto

lemma code_value_inject [simp]: "code_value a = code_value b \<longleftrightarrow> a = b"
  by (cases a; cases b) auto

lemma set_all_kinds [simp]: "set all_kinds = UNIV"
proof -
  have "k \<in> set all_kinds" for k by (cases k) (auto simp: all_kinds_def)
  then show ?thesis by auto
qed

lemma kind_of_value_kind_value [simp]: "kind_of_value (kind_value k) = Inr k"
  by (cases k) (auto simp: kind_of_value_def all_kinds_def)

lemma kind_of_value_Inr_iff: "kind_of_value v = Inr k \<longleftrightarrow> v = kind_value k"
proof
  assume "kind_of_value v = Inr k"
  then show "v = kind_value k"
    by (auto simp: kind_of_value_def dest!: find_SomeD split: option.splits)
qed simp

lemma default_code_allowed:
  "default_scan_rejection_code k = Inr c \<Longrightarrow> Some c \<in> set (SCAN_RESULT_REJECTION_CODES k)"
  by (cases k) (auto simp: default_scan_rejection_code_def)

lemma default_code_total: "k \<noteq> Clean \<Longrightarrow> \<exists>c. default_scan_rejection_code k = Inr c"
  by (cases k) (auto simp: default_scan_rejection_code_def)

section \<open>The CHECK constraint generated from the table\<close>

text \<open>
  \<open>_result_rejection_code_check_sql\<close> joins one clause per result with OR. The model evaluates the
  predicate it builds, on a row's two columns, in SQL's three-valued logic. \<open>scan_result\<close> is a NOT
  NULL column, \<open>rejection_code\<close> is nullable.
\<close>

definition rejection_predicate :: "scan_rejection_code option list \<Rightarrow> string option \<Rightarrow> tri" where
  "rejection_predicate codes rejection_code =
     (case List.map_filter (\<lambda>c. c) codes of
        [] \<Rightarrow> is_null rejection_code
      | [c] \<Rightarrow> sql_cmp (\<lambda>v. v = code_value c) rejection_code
      | cs \<Rightarrow> sql_cmp (\<lambda>v. v \<in> set (map code_value cs)) rejection_code)"

definition result_rejection_code_clause ::
  "string \<Rightarrow> string option \<Rightarrow> scan_result_kind \<Rightarrow> tri" where
  "result_rejection_code_clause scan_result rejection_code k =
     sql_and (Some (scan_result = kind_value k))
       (rejection_predicate (SCAN_RESULT_REJECTION_CODES k) rejection_code)"

definition result_rejection_code_check :: "string \<Rightarrow> string option \<Rightarrow> tri" where
  "result_rejection_code_check scan_result rejection_code =
     fold (\<lambda>k acc. sql_or acc (result_rejection_code_clause scan_result rejection_code k))
       all_kinds (Some False)"

lemma rejection_predicate_Some:
  "rejection_predicate (SCAN_RESULT_REJECTION_CODES k) (Some (code_value c)) =
     Some (Some c \<in> set (SCAN_RESULT_REJECTION_CODES k))"
  by (cases k; cases c) (auto simp: rejection_predicate_def List.map_filter_def is_null_def)

lemma result_check_Some:
  "result_rejection_code_check (kind_value k) (Some (code_value c)) =
     Some (Some c \<in> set (SCAN_RESULT_REJECTION_CODES k))"
  by (simp add: result_rejection_code_check_def result_rejection_code_clause_def
      rejection_predicate_Some all_kinds_def sql_simps del: kind_value.simps)
    (cases k; simp)

lemma result_check_NULL:
  "result_rejection_code_check (kind_value k) None = (if k = Clean then Some True else None)"
  by (cases k) (simp_all add: result_rejection_code_check_def result_rejection_code_clause_def
      rejection_predicate_def all_kinds_def List.map_filter_def is_null_def)

section \<open>Audit snapshot and scanner verdict\<close>

record audit_snapshot =
  sn_scanner_backend :: str
  sn_definitions_version :: str
  sn_definitions_fresh_at :: datetime
  sn_definitions_age_seconds :: int
  sn_max_bytes :: int
  sn_max_concurrent_scans :: int
  sn_deadline_ms :: int
  sn_socket_timeout_ms :: int

text \<open>
  \<open>MediaScanAuditSnapshot.__post_init__\<close>. A model \<open>datetime\<close> is an instant, so the check that
  \<open>definitions_fresh_at\<close> carries a time zone always passes here.
\<close>

definition audit_snapshot_checks :: "audit_snapshot \<Rightarrow> (bool \<times> exc) list" where
  "audit_snapshot_checks s =
     [(\<not> blank (sn_scanner_backend s), ValueError ''scanner_backend must not be blank''),
      (\<not> blank (sn_definitions_version s), ValueError ''definitions_version must not be blank''),
      (0 \<le> sn_definitions_age_seconds s, ValueError ''definitions_age_seconds must be non-negative''),
      (0 < sn_max_bytes s, ValueError ''max_bytes must be positive''),
      (0 < sn_max_concurrent_scans s, ValueError ''max_concurrent_scans must be positive''),
      (0 < sn_deadline_ms s, ValueError ''deadline_ms must be positive''),
      (0 < sn_socket_timeout_ms s, ValueError ''socket_timeout_ms must be positive'')]"

definition make_audit_snapshot :: "audit_snapshot \<Rightarrow> exc + audit_snapshot" where
  "make_audit_snapshot s = andthen (require_all (audit_snapshot_checks s)) (\<lambda>_. Inr s)"

text \<open>\<open>MalwareScanStatus\<close>: the scan results and \<open>unknown\<close>.\<close>

datatype scan_status = Known scan_result_kind | Unknown

record scan_verdict =
  vd_status :: scan_status
  vd_engine :: str
  vd_signature_version :: "str option"

definition make_scan_verdict :: "scan_verdict \<Rightarrow> exc + scan_verdict" where
  "make_scan_verdict v = andthen (require_all
     [(\<not> blank (vd_engine v), ValueError ''malware scanner engine must not be blank''),
      (case vd_signature_version v of None \<Rightarrow> True | Some s \<Rightarrow> \<not> blank s,
        ValueError ''signature version must not be blank'')]) (\<lambda>_. Inr v)"

fun malware_rejection_code :: "scan_status \<Rightarrow> string option" where
  "malware_rejection_code (Known Clean) = None"
| "malware_rejection_code (Known Malicious) = Some ''media_malware_detected''"
| "malware_rejection_code (Known Unavailable) = Some ''media_scan_unavailable''"
| "malware_rejection_code (Known Oversize) = Some ''media_scan_failed''"
| "malware_rejection_code (Known Timeout) = Some ''media_scan_timeout''"
| "malware_rejection_code (Known Error) = Some ''media_scan_failed''"
| "malware_rejection_code Unknown = Some ''media_scan_unknown''"

text \<open>\<open>ScanResultKind.ERROR if status == "unknown" else ScanResultKind(status)\<close>.\<close>

fun result_of_status :: "scan_status \<Rightarrow> scan_result_kind" where
  "result_of_status Unknown = Error"
| "result_of_status (Known k) = k"

lemma malware_rejection_code_None_iff: "malware_rejection_code s = None \<longleftrightarrow> s = Known Clean"
  by (cases s rule: malware_rejection_code.cases) auto

section \<open>Legacy rows\<close>

record legacy_projection =
  lp_attempt_id :: str
  lp_scan_result :: string
  lp_clean_receipt_id :: "str option"
  lp_safe_fact_count :: nat

text \<open>
  \<open>normalize_legacy_scan_projection\<close>. \<open>lower\<close> is \<open>str.lower\<close>; the result column is compared
  with ASCII literals after \<open>strip().lower()\<close>.
\<close>

definition legacy_unknown_result :: "str \<Rightarrow> string" where
  "legacy_unknown_result code =
     (if code = lit ''daemon_unavailable'' then ''unavailable''
      else if code = lit ''deadline_exceeded'' then ''timeout''
      else if code = lit ''payload_too_large'' then ''oversize''
      else if code = lit ''malware_signature_detected'' then ''malicious''
      else if code = lit ''daemon_error'' then ''error''
      else if code = lit ''legacy_unknown_unclassified'' then ''error''
      else ''error'')"

definition legacy_known_result :: "str \<Rightarrow> string" where
  "legacy_known_result v =
     (case List.find (\<lambda>k. v = lit (kind_value k))
             [Clean, Malicious, Oversize, Timeout, Unavailable, Error] of
        Some k \<Rightarrow> kind_value k | None \<Rightarrow> ''error'')"

definition normalize_legacy_scan_projection ::
  "(str \<Rightarrow> str) \<Rightarrow> str option \<Rightarrow> str option \<Rightarrow> str \<Rightarrow> str option \<Rightarrow> legacy_projection" where
  "normalize_legacy_scan_projection lower scan_result rejection_code attempt_id clean_receipt_id =
     (let normalized = lower (strip (case scan_result of None \<Rightarrow> [] | Some s \<Rightarrow> s));
          code = lower (strip (case rejection_code of None \<Rightarrow> [] | Some s \<Rightarrow> s));
          result = (if normalized = lit ''unknown'' then legacy_unknown_result code
                    else legacy_known_result normalized);
          receipt = (case clean_receipt_id of
                       None \<Rightarrow> None
                     | Some r \<Rightarrow> if r \<noteq> [] \<and> result = ''clean'' then Some (strip r) else None)
      in \<lparr>lp_attempt_id = attempt_id, lp_scan_result = result, lp_clean_receipt_id = receipt,
          lp_safe_fact_count = (if receipt \<noteq> None then 1 else 0)\<rparr>)"

lemma legacy_unknown_not_clean: "legacy_unknown_result code \<noteq> ''clean''"
  by (simp add: legacy_unknown_result_def)

lemma legacy_unknown_kind: "\<exists>k. legacy_unknown_result code = kind_value k \<and> k \<noteq> Clean"
  unfolding legacy_unknown_result_def
  by (auto intro: exI[of _ Unavailable] exI[of _ Timeout] exI[of _ Oversize]
      exI[of _ Malicious] exI[of _ Error])

lemma legacy_known_kind: "\<exists>k. legacy_known_result v = kind_value k"
  by (cases "List.find (\<lambda>k. v = lit (kind_value k))
       [Clean, Malicious, Oversize, Timeout, Unavailable, Error]")
    (auto simp only: legacy_known_result_def option.case intro: exI[of _ Error] kind_value.simps(6)[symmetric])

lemma legacy_known_clean_iff: "legacy_known_result v = ''clean'' \<longleftrightarrow> v = lit ''clean''"
  by (auto simp: legacy_known_result_def split: option.splits if_splits)

end
