(* ===== verification/MediaModels.thy ===== *)
theory MediaModels
  imports ScanContract
begin

text \<open>
  The frozen dataclasses of \<^verbatim>\<open>media_core/models.py\<close> with their \<open>__post_init__\<close> validation, and the
  byte limits of \<^verbatim>\<open>media_core/limits.py\<close>. A \<open>make_\<close> function is the constructor: it returns the
  (completed) value or the first exception the validation raises. SHA-256 is a parameter, a
  function from a string to its hexadecimal digest.
\<close>

section \<open>Scan attempts\<close>

record scan_attempt =
  at_attempt_id :: str
  at_artifact_sha256 :: str
  at_content_type :: str
  at_scanner_backend :: str
  at_definitions_version :: str
  at_definitions_fresh_at :: datetime
  at_definitions_age_seconds :: int
  at_max_bytes :: int
  at_max_concurrent_scans :: int
  at_deadline_ms :: int
  at_socket_timeout_ms :: int
  at_scan_result :: scan_result_kind
  at_rejection_code :: "scan_rejection_code option"
  at_rejection_detail :: "str option"
  at_started_at :: datetime
  at_finished_at :: datetime
  at_idempotency_key :: str

definition non_blank_check :: "str \<Rightarrow> string \<Rightarrow> bool \<times> exc" where
  "non_blank_check v field_name = (\<not> blank v, ValueError (field_name @ '' must not be blank''))"

text \<open>\<open>_validate_scan_snapshot\<close>, shared by attempts and receipts.\<close>

definition scan_snapshot_checks ::
  "str \<Rightarrow> int \<Rightarrow> int \<Rightarrow> int \<Rightarrow> int \<Rightarrow> int \<Rightarrow> (bool \<times> exc) list" where
  "scan_snapshot_checks definitions_version definitions_age_seconds max_bytes
     max_concurrent_scans deadline_ms socket_timeout_ms =
     [non_blank_check definitions_version ''definitions_version'',
      (0 \<le> definitions_age_seconds, ValueError ''definitions_age_seconds must be non-negative''),
      (0 < max_bytes, ValueError ''max_bytes must be positive''),
      (0 < max_concurrent_scans, ValueError ''max_concurrent_scans must be positive''),
      (0 < deadline_ms, ValueError ''deadline_ms must be positive''),
      (0 < socket_timeout_ms, ValueError ''socket_timeout_ms must be positive'')]"

definition scan_attempt_checks :: "scan_attempt \<Rightarrow> (bool \<times> exc) list" where
  "scan_attempt_checks a =
     [non_blank_check (at_attempt_id a) ''attempt_id'',
      non_blank_check (at_artifact_sha256 a) ''artifact_sha256'',
      non_blank_check (at_content_type a) ''content_type'',
      non_blank_check (at_scanner_backend a) ''scanner_backend'',
      non_blank_check (at_idempotency_key a) ''idempotency_key'',
      (length (at_artifact_sha256 a) = 64, ValueError ''artifact_sha256 must contain 64 characters'')]
     @ scan_snapshot_checks (at_definitions_version a) (at_definitions_age_seconds a)
         (at_max_bytes a) (at_max_concurrent_scans a) (at_deadline_ms a) (at_socket_timeout_ms a)
     @ [(at_started_at a \<le> at_finished_at a, ValueError ''finished_at must not precede started_at''),
        (at_rejection_code a \<in> set (SCAN_RESULT_REJECTION_CODES (at_scan_result a)),
           ValueError (''rejection_code is invalid for scan_result '' @ kind_value (at_scan_result a))),
        (\<not> (at_scan_result a = Clean \<and> at_rejection_detail a \<noteq> None),
           ValueError ''clean scan attempt cannot carry rejection detail'')]"

definition make_scan_attempt :: "scan_attempt \<Rightarrow> exc + scan_attempt" where
  "make_scan_attempt a = andthen (require_all (scan_attempt_checks a)) (\<lambda>_. Inr a)"

definition valid_scan_attempt :: "scan_attempt \<Rightarrow> bool" where
  "valid_scan_attempt a \<longleftrightarrow> make_scan_attempt a = Inr a"

lemma make_scan_attempt_Inr: "make_scan_attempt a = Inr b \<Longrightarrow> b = a \<and> valid_scan_attempt a"
  by (auto simp: make_scan_attempt_def valid_scan_attempt_def andthen_Inr_iff)

lemma valid_scan_attempt_iff: "valid_scan_attempt a \<longleftrightarrow> list_all fst (scan_attempt_checks a)"
  by (auto simp: valid_scan_attempt_def make_scan_attempt_def andthen_Inr_iff)

lemma valid_scan_attemptD:
  assumes "valid_scan_attempt a"
  shows "at_rejection_code a \<in> set (SCAN_RESULT_REJECTION_CODES (at_scan_result a))"
    and "at_scan_result a = Clean \<Longrightarrow> at_rejection_detail a = None"
    and "length (at_artifact_sha256 a) = 64"
    and "0 \<le> at_definitions_age_seconds a" "0 < at_max_bytes a" "0 < at_max_concurrent_scans a"
      "0 < at_deadline_ms a" "0 < at_socket_timeout_ms a"
  using assms
  by (auto simp: valid_scan_attempt_iff scan_attempt_checks_def scan_snapshot_checks_def
      non_blank_check_def)

lemma valid_clean_attempt_code:
  "valid_scan_attempt a \<Longrightarrow> at_scan_result a = Clean \<longleftrightarrow> at_rejection_code a = None"
  using valid_scan_attemptD(1)[of a] by (cases "at_scan_result a") auto

section \<open>Clean receipts\<close>

record clean_receipt =
  rc_receipt_id :: str
  rc_attempt_id :: str
  rc_artifact_sha256 :: str
  rc_receipt_hash :: str
  rc_scanner_backend :: str
  rc_definitions_version :: str
  rc_definitions_fresh_at :: datetime
  rc_definitions_age_seconds :: int
  rc_max_bytes :: int
  rc_max_concurrent_scans :: int
  rc_deadline_ms :: int
  rc_socket_timeout_ms :: int
  rc_quarantine_path :: str
  rc_quarantine_expires_at :: datetime
  rc_created_at :: datetime

definition clean_receipt_checks :: "clean_receipt \<Rightarrow> (bool \<times> exc) list" where
  "clean_receipt_checks r =
     [non_blank_check (rc_receipt_id r) ''receipt_id'',
      non_blank_check (rc_attempt_id r) ''attempt_id'',
      non_blank_check (rc_artifact_sha256 r) ''artifact_sha256'',
      non_blank_check (rc_receipt_hash r) ''receipt_hash'',
      non_blank_check (rc_scanner_backend r) ''scanner_backend'',
      non_blank_check (rc_quarantine_path r) ''quarantine_path'',
      (length (rc_artifact_sha256 r) = 64 \<and> length (rc_receipt_hash r) = 64,
         ValueError ''receipt hashes must contain 64 characters'')]
     @ scan_snapshot_checks (rc_definitions_version r) (rc_definitions_age_seconds r)
         (rc_max_bytes r) (rc_max_concurrent_scans r) (rc_deadline_ms r) (rc_socket_timeout_ms r)
     @ [(rc_created_at r < rc_quarantine_expires_at r,
           ValueError ''quarantine_expires_at must follow created_at'')]"

definition make_clean_receipt :: "clean_receipt \<Rightarrow> exc + clean_receipt" where
  "make_clean_receipt r = andthen (require_all (clean_receipt_checks r)) (\<lambda>_. Inr r)"

definition receipt_from_attempt ::
  "scan_attempt \<Rightarrow> str \<Rightarrow> str \<Rightarrow> str \<Rightarrow> datetime \<Rightarrow> datetime \<Rightarrow> exc + clean_receipt" where
  "receipt_from_attempt attempt receipt_id receipt_hash quarantine_path quarantine_expires_at created_at =
     (if at_scan_result attempt \<noteq> Clean
      then Inl (ValueError ''clean receipt requires a clean scan attempt'')
      else make_clean_receipt
        \<lparr>rc_receipt_id = receipt_id,
         rc_attempt_id = at_attempt_id attempt,
         rc_artifact_sha256 = at_artifact_sha256 attempt,
         rc_receipt_hash = receipt_hash,
         rc_scanner_backend = at_scanner_backend attempt,
         rc_definitions_version = at_definitions_version attempt,
         rc_definitions_fresh_at = at_definitions_fresh_at attempt,
         rc_definitions_age_seconds = at_definitions_age_seconds attempt,
         rc_max_bytes = at_max_bytes attempt,
         rc_max_concurrent_scans = at_max_concurrent_scans attempt,
         rc_deadline_ms = at_deadline_ms attempt,
         rc_socket_timeout_ms = at_socket_timeout_ms attempt,
         rc_quarantine_path = quarantine_path,
         rc_quarantine_expires_at = quarantine_expires_at,
         rc_created_at = created_at\<rparr>)"

lemma make_clean_receipt_Inr: "make_clean_receipt r = Inr s \<longleftrightarrow> s = r \<and> list_all fst (clean_receipt_checks r)"
  by (auto simp: make_clean_receipt_def andthen_Inr_iff)

lemma receipt_from_attempt_Inr:
  assumes "receipt_from_attempt a i h q e c = Inr r"
  shows "at_scan_result a = Clean" "rc_receipt_id r = i" "rc_receipt_hash r = h"
    "rc_attempt_id r = at_attempt_id a" "rc_artifact_sha256 r = at_artifact_sha256 a"
    "rc_quarantine_path r = q" "rc_quarantine_expires_at r = e" "rc_created_at r = c" "c < e"
  using assms
  by (auto simp: receipt_from_attempt_def make_clean_receipt_Inr clean_receipt_checks_def
      split: if_splits)

section \<open>Pending clean receipts\<close>

datatype publication_status = PsPending | PsPublishing | PsPublished | PsFailed

record pending_receipt =
  pc_receipt_id :: str
  pc_attempt_id :: str
  pc_artifact_sha256 :: str
  pc_receipt_hash :: str
  pc_spool_token :: str
  pc_spool_byte_size :: int
  pc_spool_sha256 :: str
  pc_spool_expires_at :: datetime
  pc_quarantine_expires_at :: datetime
  pc_created_at :: datetime
  pc_formal_artifact_id :: str
  pc_publication_status :: publication_status
  pc_publication_owner :: "str option"
  pc_publication_lease_expires_at :: "datetime option"
  pc_publication_version :: int
  pc_published_at :: "datetime option"
  pc_publication_failure :: "str option"
  pc_updated_at :: "datetime option"

definition is_lower_hex :: "nat \<Rightarrow> bool" where
  "is_lower_hex c \<longleftrightarrow> (48 \<le> c \<and> c \<le> 57) \<or> (97 \<le> c \<and> c \<le> 102)"

definition formal_artifact_id_from_receipt :: "(str \<Rightarrow> str) \<Rightarrow> str \<Rightarrow> str \<Rightarrow> exc + str" where
  "formal_artifact_id_from_receipt sha256 receipt_id receipt_hash =
     andthen (require_all
       [non_blank_check receipt_id ''receipt_id'',
        non_blank_check receipt_hash ''receipt_hash'',
        (length receipt_hash = 64, ValueError ''receipt_hash must contain 64 characters'')])
     (\<lambda>_. Inr (take 32 (sha256 (receipt_id @ lit '':'' @ receipt_hash))))"

definition publication_fields_checks :: "pending_receipt \<Rightarrow> (bool \<times> exc) list" where
  "publication_fields_checks p =
     [(0 \<le> pc_publication_version p, ValueError ''publication_version must be non-negative''),
      (if pc_publication_status p = PsPublishing
       then (case pc_publication_owner p of None \<Rightarrow> False | Some w \<Rightarrow> w \<noteq> [])
              \<and> pc_publication_lease_expires_at p \<noteq> None
       else True, ValueError ''publishing pending receipt requires an owner and lease''),
      (pc_publication_status p = PsPublishing
         \<or> (pc_publication_owner p = None \<and> pc_publication_lease_expires_at p = None),
       ValueError ''only publishing pending receipts may carry an owner lease''),
      (\<not> (pc_publication_status p = PsPublished \<and> pc_published_at p = None),
       ValueError ''published pending receipt requires published_at''),
      (\<not> (pc_publication_status p \<noteq> PsPublished \<and> pc_published_at p \<noteq> None),
       ValueError ''published_at is only valid for published pending receipts''),
      (case pc_publication_failure p of None \<Rightarrow> True | Some f \<Rightarrow> \<not> blank f,
       ValueError ''publication_failure must not be blank'')]"

definition pending_receipt_checks :: "pending_receipt \<Rightarrow> (bool \<times> exc) list" where
  "pending_receipt_checks p =
     [non_blank_check (pc_receipt_id p) ''receipt_id'',
      non_blank_check (pc_attempt_id p) ''attempt_id'',
      non_blank_check (pc_artifact_sha256 p) ''artifact_sha256'',
      non_blank_check (pc_receipt_hash p) ''receipt_hash'',
      non_blank_check (pc_spool_token p) ''spool_token'',
      non_blank_check (pc_spool_sha256 p) ''spool_sha256'',
      non_blank_check (pc_formal_artifact_id p) ''formal_artifact_id'',
      (length (pc_artifact_sha256 p) = 64 \<and> length (pc_receipt_hash p) = 64
         \<and> length (pc_spool_sha256 p) = 64,
       ValueError ''pending receipt hashes must contain 64 characters''),
      (length (pc_formal_artifact_id p) = 32 \<and> list_all is_lower_hex (pc_formal_artifact_id p),
       ValueError ''formal_artifact_id must be 32 lowercase hex characters''),
      (0 \<le> pc_spool_byte_size p, ValueError ''pending receipt spool_byte_size must be non-negative''),
      (pc_created_at p < pc_spool_expires_at p,
       ValueError ''pending receipt spool_expires_at must follow created_at''),
      (pc_created_at p < pc_quarantine_expires_at p,
       ValueError ''pending receipt quarantine_expires_at must follow created_at'')]
     @ publication_fields_checks p"

definition make_pending_receipt :: "(str \<Rightarrow> str) \<Rightarrow> pending_receipt \<Rightarrow> exc + pending_receipt" where
  "make_pending_receipt sha256 p =
     andthen (if pc_formal_artifact_id p = []
              then andthen (formal_artifact_id_from_receipt sha256 (pc_receipt_id p) (pc_receipt_hash p))
                     (\<lambda>i. Inr (p\<lparr>pc_formal_artifact_id := i\<rparr>))
              else Inr p)
     (\<lambda>p1. let p2 = (if pc_updated_at p1 = None
                     then p1\<lparr>pc_updated_at := Some (pc_created_at p1)\<rparr> else p1)
           in andthen (require_all (pending_receipt_checks p2)) (\<lambda>_. Inr p2))"

definition valid_pending :: "pending_receipt \<Rightarrow> bool" where
  "valid_pending p \<longleftrightarrow> list_all fst (pending_receipt_checks p) \<and> pc_updated_at p \<noteq> None"

lemma make_pending_receipt_valid:
  assumes "make_pending_receipt sha256 p = Inr q"
  shows "valid_pending q"
proof -
  obtain p1 where
    q: "(let p2 = (if pc_updated_at p1 = None
                   then p1\<lparr>pc_updated_at := Some (pc_created_at p1)\<rparr> else p1)
         in andthen (require_all (pending_receipt_checks p2)) (\<lambda>_. Inr p2)) = Inr q"
    using assms unfolding make_pending_receipt_def andthen_Inr_iff by blast
  define p2 where
    "p2 = (if pc_updated_at p1 = None then p1\<lparr>pc_updated_at := Some (pc_created_at p1)\<rparr> else p1)"
  have "andthen (require_all (pending_receipt_checks p2)) (\<lambda>_. Inr p2) = Inr q"
    using q unfolding p2_def Let_def .
  then have "q = p2" and "list_all fst (pending_receipt_checks p2)"
    unfolding andthen_Inr_iff require_all_Inr_iff by blast+
  moreover have "pc_updated_at p2 \<noteq> None" by (simp add: p2_def)
  ultimately show ?thesis by (simp add: valid_pending_def)
qed

text \<open>A valid pending receipt is rebuilt unchanged: reading a stored row back does not raise.\<close>

lemma make_pending_receipt_id:
  assumes "valid_pending p"
  shows "make_pending_receipt sha256 p = Inr p"
proof -
  have "\<not> blank (pc_formal_artifact_id p)"
    using assms by (simp add: valid_pending_def pending_receipt_checks_def non_blank_check_def)
  then have "pc_formal_artifact_id p \<noteq> []" by (rule blankD)
  moreover have "require_all (pending_receipt_checks p) = Inr ()" and "pc_updated_at p \<noteq> None"
    using assms by (simp_all add: valid_pending_def)
  ultimately show ?thesis by (simp only: make_pending_receipt_def Let_def andthen_Inr if_False)
qed

section \<open>Reservations, leases, staged objects, results\<close>

datatype json_scalar = JStr str | JInt int | JFloat rat | JBool bool | JNull

type_synonym attributes = "(str \<times> json_scalar) list"

record media_reservation_request =
  rq_owner_id :: str
  rq_session_id :: str
  rq_idempotency_key :: str
  rq_fingerprint :: str

record media_lease =
  ml_reservation_id :: str
  ml_media_item_id :: str
  ml_owner_id :: str
  ml_session_id :: str
  ml_slot :: nat
  ml_idempotency_key :: str
  ml_fingerprint :: str

record staged_object =
  st_media_item_id :: str
  st_reservation_id :: str
  st_opaque_object_key :: str
  st_manifest_id :: str

record ingested_result =
  ir_evidence_id :: str
  ir_media_item_id :: str
  ir_artifact_ref :: str
  ir_media_type :: str
  ir_normalized_sha256 :: str
  ir_byte_size :: int
  ir_learner_explanation :: str
  ir_attributes :: attributes

record finalize_request =
  fr_lease :: media_lease
  fr_staged_media_item_id :: str
  fr_opaque_object_key :: str
  fr_manifest_id :: str
  fr_media_type :: str
  fr_normalized_sha256 :: str
  fr_normalized_byte_size :: int
  fr_learner_explanation :: str
  fr_attributes :: attributes

datatype reference_action = MARK_REFERENCED | ABORT_STAGED | NOOP

record reference_intent =
  in_staged :: staged_object
  in_action :: reference_action

record finalize_outcome =
  fo_result :: ingested_result
  fo_intent :: reference_intent
  fo_evidence_visible :: bool

section \<open>Byte limits\<close>

definition MiB :: int where "MiB = 1024 * 1024"
definition MAX_MEDIA_ITEMS_PER_SESSION :: nat where "MAX_MEDIA_ITEMS_PER_SESSION = 4"
definition MAX_SOURCE_BYTES :: int where "MAX_SOURCE_BYTES = 10 * MiB"
definition MAX_CANONICAL_MESSAGE_BYTES :: int where "MAX_CANONICAL_MESSAGE_BYTES = 10 * MiB"
definition MAX_DISTINCT_NORMALIZED_BYTES :: int where "MAX_DISTINCT_NORMALIZED_BYTES = 20 * MiB"

definition source_byte_limit_check :: "int \<Rightarrow> int \<Rightarrow> exc + unit" where
  "source_byte_limit_check max_bytes byte_size =
     require (byte_size \<le> max_bytes) (MediaQuotaExceeded ''media source exceeds limit'')"

definition canonical_message_byte_limit_check :: "int \<Rightarrow> int \<Rightarrow> exc + unit" where
  "canonical_message_byte_limit_check max_bytes byte_size =
     require (byte_size \<le> max_bytes) (MediaQuotaExceeded ''canonical media message exceeds limit'')"

end
