(* ===== verification/Schema.thy ===== *)
theory Schema
  imports MediaModels
begin

text \<open>
  The tables of \<^verbatim>\<open>persistence/models.py\<close>: one record per mapped class, its columns as fields
  (nullable columns as options, closed text domains as datatypes), and its CHECK constraints as
  SQL truth values. \<open>db\<close> is the database, each table the list of its rows in insertion order.
  Column widths (\<open>String(n)\<close>) are not modelled. \<open>checks_ok\<close> holds when no constraint is false,
  which is SQL's rule: a constraint that evaluates to NULL is satisfied.
\<close>

definition checks_ok :: "tri list \<Rightarrow> bool" where
  "checks_ok ts \<longleftrightarrow> list_all sql_check ts"

lemma checks_ok_Nil [simp]: "checks_ok []"
  by (simp add: checks_ok_def)

lemma checks_ok_Cons [simp]: "checks_ok (t # ts) \<longleftrightarrow> sql_check t \<and> checks_ok ts"
  by (simp add: checks_ok_def)

section \<open>Sessions, evidence, answers, audit events, reviews, principals\<close>

text \<open>
  JSON documents the code stores without looking inside (\<open>review_result_json\<close>, audit payloads)
  are values of \<open>json\<close>.
\<close>

datatype json = Scalar json_scalar | Arr "json list" | Obj "(str \<times> json) list"

record session_row =
  ls_session_id :: str
  ls_owner_user_id :: str
  ls_status :: str
  ls_adapter_mode :: str
  ls_domain :: str
  ls_title :: str
  ls_goal :: str
  ls_expected_output :: "str option"
  ls_planned_minutes :: "int option"
  ls_conversation_id :: str
  ls_runtime_mode :: str
  ls_review_result_json :: "json option"
  ls_goal_conversation_synced_at :: "datetime option"
  ls_version :: int
  ls_created_at :: datetime
  ls_updated_at :: datetime

record evidence_row =
  ev_evidence_id :: str
  ev_session_id :: str
  ev_evidence_type :: str
  ev_content_hash :: str
  ev_text_content :: "str option"
  ev_source_url :: "str option"
  ev_metadata_json :: attributes
  ev_conversation_synced_at :: "datetime option"
  ev_created_at :: datetime
  ev_artifact_id :: "str option"

record answer_row =
  an_session_id :: str
  an_question_id :: str
  an_answer :: str
  an_version :: int
  an_conversation_synced_at :: "datetime option"
  an_created_at :: datetime
  an_updated_at :: datetime

record audit_event_row =
  ae_event_id :: str
  ae_session_id :: str
  ae_sequence :: int
  ae_type :: str
  ae_actor :: str
  ae_payload_json :: json
  ae_source_openhands_event_id :: "str option"
  ae_created_at :: datetime

record review_row =
  rv_review_id :: str
  rv_session_id :: str
  rv_conversation_id :: str
  rv_review_status :: str
  rv_score :: "int option"
  rv_result_json :: "json option"
  rv_native_event_count :: int
  rv_source_openhands_event_id :: "str option"
  rv_created_at :: datetime

record principal_row =
  vp_principal_id :: str
  vp_issuer :: str
  vp_subject :: str
  vp_active :: bool
  vp_created_at :: datetime
  vp_state_changed_at :: datetime

record security_event_row =
  se_id :: str
  se_request_id :: str
  se_principal_id :: "str option"
  se_token_fingerprint :: "str option"
  se_outcome :: str
  se_reason_category :: str
  se_occurred_at :: datetime

section \<open>Media reservations and artifacts\<close>

datatype reservation_status = RsActive | RsPendingReference | RsCompleted | RsRejected | RsExpired

datatype completion_mode = Adopted | Follower | Direct_Reuse

record reservation_row =
  mr_reservation_id :: str
  mr_media_item_id :: str
  mr_owner_id :: str
  mr_session_id :: str
  mr_idempotency_key :: str
  mr_fingerprint :: str
  mr_slot :: nat
  mr_status :: reservation_status
  mr_active :: "bool option"
  mr_expires_at :: datetime
  mr_canonical_artifact_id :: "str option"
  mr_evidence_id :: "str option"
  mr_intent_action :: "reference_action option"
  mr_completion_mode :: "completion_mode option"
  mr_staged_object_key :: "str option"
  mr_staged_manifest_id :: "str option"
  mr_media_type :: "str option"
  mr_normalized_sha256 :: "str option"
  mr_normalized_byte_size :: "int option"
  mr_learner_explanation :: "str option"
  mr_attributes_json :: "attributes option"
  mr_result_json :: "ingested_result option"
  mr_rejection_reason :: "str option"
  mr_created_at :: datetime
  mr_updated_at :: datetime

text \<open>\<open>_MEDIA_RESERVATION_DURABLE_FACTS_NULL\<close> and \<open>_MEDIA_RESERVATION_DURABLE_FACTS_PRESENT\<close>:
  conjunctions of IS (NOT) NULL tests; \<open>none_as_null\<close> stores Python's None as SQL NULL, so a
  stored document is never the text \<open>null\<close>.\<close>

definition durable_facts_null :: "reservation_row \<Rightarrow> bool" where
  "durable_facts_null r \<longleftrightarrow>
     mr_canonical_artifact_id r = None \<and> mr_evidence_id r = None \<and>
     mr_staged_object_key r = None \<and> mr_staged_manifest_id r = None \<and>
     mr_media_type r = None \<and> mr_normalized_sha256 r = None \<and>
     mr_normalized_byte_size r = None \<and> mr_learner_explanation r = None \<and>
     mr_attributes_json r = None \<and> mr_result_json r = None"

definition durable_facts_present :: "reservation_row \<Rightarrow> bool" where
  "durable_facts_present r \<longleftrightarrow>
     mr_canonical_artifact_id r \<noteq> None \<and> mr_evidence_id r \<noteq> None \<and>
     mr_staged_object_key r \<noteq> None \<and> mr_staged_manifest_id r \<noteq> None \<and>
     mr_media_type r \<noteq> None \<and> mr_normalized_sha256 r \<noteq> None \<and>
     (case mr_normalized_byte_size r of None \<Rightarrow> False | Some n \<Rightarrow> 0 \<le> n) \<and>
     mr_learner_explanation r \<noteq> None \<and>
     mr_attributes_json r \<noteq> None \<and> mr_result_json r \<noteq> None"

definition reservation_payload_matrix :: "reservation_row \<Rightarrow> bool" where
  "reservation_payload_matrix r \<longleftrightarrow>
     (mr_status r = RsActive \<and> mr_active r = Some True \<and> mr_completion_mode r = None
        \<and> mr_intent_action r = None \<and> durable_facts_null r)
   \<or> (mr_status r = RsPendingReference \<and> mr_active r = Some True \<and> mr_completion_mode r = None
        \<and> mr_intent_action r \<noteq> None
        \<and> (mr_intent_action r = Some MARK_REFERENCED \<or> mr_intent_action r = Some ABORT_STAGED)
        \<and> durable_facts_present r)
   \<or> (mr_status r = RsCompleted \<and> mr_active r = None \<and> mr_completion_mode r \<noteq> None
        \<and> mr_intent_action r \<noteq> None \<and> durable_facts_present r)
   \<or> ((mr_status r = RsRejected \<or> mr_status r = RsExpired) \<and> mr_active r = None
        \<and> mr_completion_mode r = None \<and> mr_intent_action r = None \<and> durable_facts_null r)"

definition reservation_checks :: "reservation_row \<Rightarrow> tri list" where
  "reservation_checks r =
     [sql_or (is_null (mr_intent_action r))
        (sql_cmp (\<lambda>a. a = MARK_REFERENCED \<or> a = ABORT_STAGED) (mr_intent_action r)),
      Some ((mr_status r \<in> {RsActive, RsPendingReference} \<and> mr_active r = Some True)
         \<or> (mr_status r \<in> {RsCompleted, RsRejected, RsExpired} \<and> mr_active r = None)),
      sql_or
        (sql_and (Some (mr_status r = RsCompleted))
          (sql_or
            (sql_and (sql_cmp (\<lambda>m. m = Adopted) (mr_completion_mode r))
                     (sql_cmp (\<lambda>a. a = MARK_REFERENCED) (mr_intent_action r)))
            (sql_and (sql_cmp (\<lambda>m. m = Follower \<or> m = Direct_Reuse) (mr_completion_mode r))
                     (sql_cmp (\<lambda>a. a = ABORT_STAGED) (mr_intent_action r)))))
        (sql_and (Some (mr_status r \<noteq> RsCompleted)) (is_null (mr_completion_mode r))),
      Some (reservation_payload_matrix r)]"

datatype artifact_state = ArPendingReference | ArReferenced

record artifact_row =
  ma_media_item_id :: str
  ma_owner_id :: str
  ma_creator_reservation_id :: "str option"
  ma_opaque_object_key :: str
  ma_manifest_id :: str
  ma_media_type :: str
  ma_normalized_sha256 :: str
  ma_normalized_byte_size :: int
  ma_state :: artifact_state
  ma_created_at :: datetime

definition artifact_checks :: "artifact_row \<Rightarrow> tri list" where
  "artifact_checks a = [Some (0 \<le> ma_normalized_byte_size a)]"

section \<open>Scan attempts and receipts\<close>

text \<open>
  The rows of \<open>scan_attempts\<close>, \<open>clean_receipts\<close> and \<open>pending_clean_receipts\<close> have the columns
  of the dataclasses, with enum members stored by value; the dataclass records serve as rows.
\<close>

definition resource_snapshot_check :: "int \<Rightarrow> int \<Rightarrow> int \<Rightarrow> int \<Rightarrow> int \<Rightarrow> tri" where
  "resource_snapshot_check age max_bytes max_scans deadline_ms socket_timeout_ms =
     Some (0 \<le> age \<and> 0 < max_bytes \<and> 0 < max_scans \<and> 0 < deadline_ms \<and> 0 < socket_timeout_ms)"

definition attempt_checks :: "scan_attempt \<Rightarrow> tri list" where
  "attempt_checks a =
     [result_rejection_code_check (kind_value (at_scan_result a))
        (map_option code_value (at_rejection_code a)),
      sql_or (Some (kind_value (at_scan_result a) \<noteq> ''clean'')) (is_null (at_rejection_detail a)),
      resource_snapshot_check (at_definitions_age_seconds a) (at_max_bytes a)
        (at_max_concurrent_scans a) (at_deadline_ms a) (at_socket_timeout_ms a)]"

definition clean_receipt_row_checks :: "clean_receipt \<Rightarrow> tri list" where
  "clean_receipt_row_checks r =
     [resource_snapshot_check (rc_definitions_age_seconds r) (rc_max_bytes r)
        (rc_max_concurrent_scans r) (rc_deadline_ms r) (rc_socket_timeout_ms r)]"

definition pending_row_checks :: "pending_receipt \<Rightarrow> tri list" where
  "pending_row_checks p =
     [Some (0 \<le> pc_publication_version p),
      Some ((pc_publication_status p = PsPublishing \<and> pc_publication_owner p \<noteq> None
              \<and> pc_publication_lease_expires_at p \<noteq> None \<and> pc_published_at p = None)
          \<or> (pc_publication_status p \<noteq> PsPublishing \<and> pc_publication_owner p = None
              \<and> pc_publication_lease_expires_at p = None)),
      Some ((pc_publication_status p = PsPublished \<and> pc_published_at p \<noteq> None)
          \<or> (pc_publication_status p \<noteq> PsPublished \<and> pc_published_at p = None))]"

section \<open>Speech requests and resource slots\<close>

datatype speech_state =
    Admitted | Uploading | Scanning | Inspecting | Dispatching
  | Succeeded | Failed_Terminal | Cancelled | Ambiguous

record speech_row =
  sp_request_id :: str
  sp_session_id :: str
  sp_owner_user_id :: str
  sp_idempotency_key_hash :: str
  sp_hmac_key_version :: str
  sp_request_fingerprint :: "str option"
  sp_state :: speech_state
  sp_media_type :: "str option"
  sp_byte_size :: "int option"
  sp_duration_ms :: "int option"
  sp_provider :: string
  sp_model :: string
  sp_provider_attempts :: int
  sp_lease_owner :: "str option"
  sp_lease_generation :: int
  sp_lease_expires_at :: "datetime option"
  sp_provider_dispatched_at :: "datetime option"
  sp_outcome_code :: "string option"
  sp_latency_ms :: "int option"
  sp_created_at :: datetime
  sp_updated_at :: datetime
  sp_completed_at :: "datetime option"

text \<open>The outcome codes, the same eighteen in the CHECK constraint and in the repository.\<close>

definition speech_outcome_codes :: "string list" where
  "speech_outcome_codes =
     [''invalid_audio'', ''audio_too_large'', ''audio_too_long'', ''unsupported_audio_format'',
      ''malware_detected'', ''scan_unavailable'', ''inspection_failed'', ''client_cancelled'',
      ''transcription_timeout'', ''transcription_rate_limited'',
      ''transcription_provider_unavailable'', ''transcription_no_speech'',
      ''transcription_failed'', ''transcription_ambiguous'', ''lease_expired_pre_dispatch'',
      ''lease_expired_post_dispatch'', ''shutdown'', ''upload_failed'']"

definition active_speech_states :: "speech_state list" where
  "active_speech_states = [Admitted, Uploading, Scanning, Inspecting, Dispatching]"

definition terminal_speech_states :: "speech_state list" where
  "terminal_speech_states = [Succeeded, Failed_Terminal, Cancelled, Ambiguous]"

definition lease_terminal_matrix :: "speech_row \<Rightarrow> tri" where
  "lease_terminal_matrix r = Some
     ((sp_state r \<in> set active_speech_states \<and> sp_lease_owner r \<noteq> None
         \<and> sp_lease_expires_at r \<noteq> None \<and> sp_completed_at r = None)
    \<or> (sp_state r \<in> set terminal_speech_states \<and> sp_lease_owner r = None
         \<and> sp_lease_expires_at r = None \<and> sp_completed_at r \<noteq> None))"

definition dispatch_matrix :: "speech_row \<Rightarrow> tri" where
  "dispatch_matrix r = Some
     ((sp_state r \<in> {Admitted, Uploading, Scanning, Inspecting, Cancelled}
         \<and> sp_provider_dispatched_at r = None \<and> sp_provider_attempts r = 0)
    \<or> (sp_state r \<in> {Dispatching, Succeeded, Ambiguous}
         \<and> sp_provider_dispatched_at r \<noteq> None \<and> sp_provider_attempts r = 1)
    \<or> (sp_state r = Failed_Terminal
         \<and> ((sp_provider_dispatched_at r = None \<and> sp_provider_attempts r = 0)
          \<or> (sp_provider_dispatched_at r \<noteq> None \<and> sp_provider_attempts r = 1))))"

definition outcome_matrix :: "speech_row \<Rightarrow> tri" where
  "outcome_matrix r =
     sql_or
       (Some (sp_state r = Succeeded \<and> sp_outcome_code r = None \<and> sp_latency_ms r \<noteq> None))
       (sql_or
         (sql_and (Some (sp_state r \<in> {Failed_Terminal, Cancelled, Ambiguous}))
           (sql_cmp (\<lambda>c. c \<in> set speech_outcome_codes) (sp_outcome_code r)))
         (Some (sp_state r \<in> set active_speech_states
            \<and> sp_outcome_code r = None \<and> sp_latency_ms r = None)))"

definition speech_checks :: "speech_row \<Rightarrow> tri list" where
  "speech_checks r =
     [Some (length (sp_idempotency_key_hash r) = 64),
      Some (\<not> list_all (\<lambda>c. c = 32) (sp_hmac_key_version r)),
      sql_or (is_null (sp_request_fingerprint r))
        (sql_cmp (\<lambda>f. length f = 64) (sp_request_fingerprint r)),
      Some (sp_provider r = ''dashscope'' \<and> sp_model r = ''qwen3-asr-flash''),
      Some (0 \<le> sp_provider_attempts r \<and> sp_provider_attempts r \<le> 1),
      Some (0 < sp_lease_generation r),
      sql_or (is_null (sp_byte_size r)) (sql_cmp (\<lambda>n. 0 < n) (sp_byte_size r)),
      sql_or (is_null (sp_duration_ms r)) (sql_cmp (\<lambda>n. 0 < n) (sp_duration_ms r)),
      sql_or (is_null (sp_latency_ms r)) (sql_cmp (\<lambda>n. 0 \<le> n) (sp_latency_ms r)),
      lease_terminal_matrix r,
      dispatch_matrix r,
      outcome_matrix r]"

datatype resource_kind = Scan_Kind | Asr_Kind
datatype work_kind = Image_Work | Speech_Work

record slot_row =
  sl_resource_kind :: resource_kind
  sl_slot_number :: nat
  sl_lease_owner_token :: "str option"
  sl_work_kind :: "work_kind option"
  sl_work_id :: "str option"
  sl_config_generation :: int
  sl_enabled :: bool
  sl_lease_generation :: int
  sl_lease_expires_at :: "datetime option"

definition slot_checks :: "slot_row \<Rightarrow> tri list" where
  "slot_checks s =
     [Some (0 < sl_config_generation s \<and> 0 \<le> sl_lease_generation s),
      Some ((sl_lease_owner_token s = None \<and> sl_work_kind s = None \<and> sl_work_id s = None
              \<and> sl_lease_expires_at s = None)
          \<or> (sl_lease_owner_token s \<noteq> None \<and> sl_work_kind s \<noteq> None \<and> sl_work_id s \<noteq> None
              \<and> sl_lease_expires_at s \<noteq> None \<and> 0 < sl_lease_generation s))]"

section \<open>The database\<close>

record db =
  t_sessions :: "session_row list"
  t_evidence :: "evidence_row list"
  t_answers :: "answer_row list"
  t_audit_events :: "audit_event_row list"
  t_reviews :: "review_row list"
  t_principals :: "principal_row list"
  t_security_events :: "security_event_row list"
  t_reservations :: "reservation_row list"
  t_artifacts :: "artifact_row list"
  t_attempts :: "scan_attempt list"
  t_receipts :: "clean_receipt list"
  t_pending :: "pending_receipt list"
  t_speech :: "speech_row list"
  t_slots :: "slot_row list"

definition empty_db :: db where
  "empty_db = \<lparr>t_sessions = [], t_evidence = [], t_answers = [], t_audit_events = [],
     t_reviews = [], t_principals = [], t_security_events = [], t_reservations = [],
     t_artifacts = [], t_attempts = [], t_receipts = [], t_pending = [], t_speech = [],
     t_slots = []\<rparr>"

definition find_session :: "str \<Rightarrow> db \<Rightarrow> session_row option" where
  "find_session session_id d = List.find (\<lambda>s. ls_session_id s = session_id) (t_sessions d)"

lemma find_session_SomeD:
  "find_session i d = Some s \<Longrightarrow> s \<in> set (t_sessions d) \<and> ls_session_id s = i"
  by (auto simp: find_session_def dest: find_SomeD)

section \<open>What the constraints admit\<close>

lemma active_terminal_disjoint [simp]:
  "s \<in> set terminal_speech_states \<longleftrightarrow> s \<notin> set active_speech_states"
  by (cases s) (auto simp: active_speech_states_def terminal_speech_states_def)

lemma outcome_matrix_check:
  "sql_check (outcome_matrix r) \<longleftrightarrow>
     (case sp_state r of
        Succeeded \<Rightarrow> sp_outcome_code r = None \<and> sp_latency_ms r \<noteq> None
      | s \<Rightarrow> if s \<in> set active_speech_states
             then sp_outcome_code r = None \<and> sp_latency_ms r = None
             else (\<forall>c. sp_outcome_code r = Some c \<longrightarrow> c \<in> set speech_outcome_codes))"
  by (cases "sp_state r"; cases "sp_outcome_code r"; cases "sp_latency_ms r")
    (simp_all add: outcome_matrix_def active_speech_states_def sql_simps)

section \<open>A session for examples\<close>

definition sample_session :: session_row where
  "sample_session = \<lparr>ls_session_id = lit ''s1'', ls_owner_user_id = lit ''u1'', ls_status = lit ''active'',
     ls_adapter_mode = lit ''real'', ls_domain = lit ''general'', ls_title = lit ''t'', ls_goal = lit ''g'',
     ls_expected_output = None, ls_planned_minutes = None, ls_conversation_id = lit ''c1'',
     ls_runtime_mode = lit ''openhands'', ls_review_result_json = None,
     ls_goal_conversation_synced_at = None, ls_version = 1, ls_created_at = 0, ls_updated_at = 0\<rparr>"

end
