(* ===== verification/SpeechRequests.thy ===== *)
theory SpeechRequests
  imports Schema Interfaces
begin

text \<open>
  The durable state machine of speech transcription requests: \<open>SqlSpeechRequestRepository\<close> of
  \<^verbatim>\<open>persistence/repositories.py\<close>. Every operation takes the database and returns an exception or
  the new database with the operation's result; an exception leaves the database as it was (the
  unit of work rolls back). A row is updated only through the compare-and-swap on
  (request id, lease owner, lease generation) held by a token. \<open>hmac\<close> (key, message to
  hexadecimal digest), the UUID parser's verdict \<open>uuid_ok\<close>, the fresh request id and the clock
  are parameters. Locks, timeouts and advisory locks do not change rows and are not modelled.
\<close>

section \<open>Tokens, configuration, arguments\<close>

record speech_token =
  tk_request_id :: str
  tk_owner_user_id :: str
  tk_session_id :: str
  tk_lease_owner :: str
  tk_lease_generation :: int
  tk_lease_expires_at :: datetime

record speech_repo =
  sc_active_version :: "str option"
  sc_keys :: "(str \<times> str) list"
  sc_max_session_requests :: nat
  sc_max_owner_hour_requests :: nat

record admit_args =
  ad_owner_user_id :: str
  ad_session_id :: str
  ad_idempotency_key :: str
  ad_request_fingerprint :: "str option"
  ad_lease_owner :: str
  ad_lease_seconds :: int

record transition_args =
  ta_media_type :: "str option"
  ta_byte_size :: "int option"
  ta_duration_ms :: "int option"
  ta_request_fingerprint :: "str option"
  ta_lease_seconds :: int

definition seconds :: "int \<Rightarrow> datetime" where
  "seconds n = n * 1000000"

definition make_speech_repo ::
  "str option \<Rightarrow> (str \<times> str) list \<Rightarrow> nat \<Rightarrow> nat \<Rightarrow> exc + speech_repo" where
  "make_speech_repo active keys max_session max_owner_hour =
     andthen (require_all
       [(case active of None \<Rightarrow> True | Some v \<Rightarrow> \<not> blank v,
          ValueError ''active HMAC key version must not be blank''),
        (case active of None \<Rightarrow> True | Some v \<Rightarrow> v \<in> fst ` set keys,
          ValueError ''active HMAC key material is unavailable''),
        (\<forall>(version, key) \<in> set keys. \<not> blank version \<and> key \<noteq> [],
          ValueError ''HMAC keyring entries must be non-empty'')])
     (\<lambda>_. Inr \<lparr>sc_active_version = active, sc_keys = keys,
        sc_max_session_requests = max_session, sc_max_owner_hour_requests = max_owner_hour\<rparr>)"

section \<open>Fingerprint validation\<close>

definition ascii_space :: "nat \<Rightarrow> bool" where
  "ascii_space c \<longleftrightarrow> (9 \<le> c \<and> c \<le> 13) \<or> c = 32"

definition is_hex :: "nat \<Rightarrow> bool" where
  "is_hex c \<longleftrightarrow> (48 \<le> c \<and> c \<le> 57) \<or> (65 \<le> c \<and> c \<le> 70) \<or> (97 \<le> c \<and> c \<le> 102)"

lemma is_hex_code [code]:
  "is_hex c \<longleftrightarrow> (let i = int c in (48 \<le> i \<and> i \<le> 57) \<or> (65 \<le> i \<and> i \<le> 70) \<or> (97 \<le> i \<and> i \<le> 102))"
  by (auto simp: is_hex_def Let_def)

text \<open>\<open>bytes.fromhex\<close> accepts pairs of hexadecimal digits, with ASCII white space between pairs.\<close>

fun fromhex_ok :: "str \<Rightarrow> bool" where
  "fromhex_ok [] = True"
| "fromhex_ok [c] = ascii_space c"
| "fromhex_ok (c # d # cs) =
     (if ascii_space c then fromhex_ok (d # cs) else is_hex c \<and> is_hex d \<and> fromhex_ok cs)"

definition validate_request_fingerprint :: "str \<Rightarrow> exc + unit" where
  "validate_request_fingerprint f = require_all
     [(length f = 64, ValueError ''request fingerprint must be a SHA-256 hex digest''),
      (fromhex_ok f, ValueError ''request fingerprint must be a SHA-256 hex digest'')]"

section \<open>Compare and swap\<close>

definition token_of_row :: "speech_row \<Rightarrow> exc + speech_token" where
  "token_of_row r = (case (sp_lease_owner r, sp_lease_expires_at r) of
     (Some w, Some e) \<Rightarrow> Inr \<lparr>tk_request_id = sp_request_id r, tk_owner_user_id = sp_owner_user_id r,
        tk_session_id = sp_session_id r, tk_lease_owner = w,
        tk_lease_generation = sp_lease_generation r, tk_lease_expires_at = e\<rparr>
   | _ \<Rightarrow> Inl (SpeechLeaseStateError ''speech request has no active lease''))"

definition cas_match :: "speech_token \<Rightarrow> speech_row \<Rightarrow> bool" where
  "cas_match token r \<longleftrightarrow>
     sp_request_id r = tk_request_id token \<and>
     sp_lease_owner r = Some (tk_lease_owner token) \<and>
     sp_lease_generation r = tk_lease_generation token"

definition cas_row :: "speech_token \<Rightarrow> db \<Rightarrow> speech_row option" where
  "cas_row token d = List.find (cas_match token) (t_speech d)"

text \<open>The UPDATE: the database checks every row it changes; the result says whether one row matched.\<close>

definition cas_update :: "speech_token \<Rightarrow> (speech_row \<Rightarrow> speech_row) \<Rightarrow> db \<Rightarrow> exc + db \<times> bool" where
  "cas_update token values d =
     (if \<forall>r \<in> set (t_speech d). cas_match token r \<longrightarrow> checks_ok (speech_checks (values r))
      then Inr (d\<lparr>t_speech := tupdate (cas_match token) values (t_speech d)\<rparr>,
                rowcount (cas_match token) (t_speech d) = 1)
      else Inl (IntegrityError ''CHECK constraint failed''))"

definition next_token :: "speech_token \<Rightarrow> datetime \<Rightarrow> speech_token" where
  "next_token token expires =
     token\<lparr>tk_lease_generation := tk_lease_generation token + 1, tk_lease_expires_at := expires\<rparr>"

section \<open>Operations\<close>

definition insert_speech :: "speech_row \<Rightarrow> db \<Rightarrow> exc + db" where
  "insert_speech r d = andthen (require_all
     [(sp_request_id r \<notin> sp_request_id ` set (t_speech d), IntegrityError ''UNIQUE constraint failed''),
      (list_all (\<lambda>x. (sp_owner_user_id x, sp_session_id x, sp_hmac_key_version x, sp_idempotency_key_hash x)
          \<noteq> (sp_owner_user_id r, sp_session_id r, sp_hmac_key_version r, sp_idempotency_key_hash r))
         (t_speech d), IntegrityError ''UNIQUE constraint failed''),
      (find_session (sp_session_id r) d \<noteq> None, IntegrityError ''FOREIGN KEY constraint failed''),
      (checks_ok (speech_checks r), IntegrityError ''CHECK constraint failed'')])
     (\<lambda>_. Inr (d\<lparr>t_speech := t_speech d @ [r]\<rparr>))"

fun find_duplicate ::
  "(str \<Rightarrow> str \<Rightarrow> str) \<Rightarrow> (str \<times> str) list \<Rightarrow> str \<Rightarrow> str \<Rightarrow> str \<Rightarrow> db \<Rightarrow> speech_row option" where
  "find_duplicate hmac [] owner_user_id session_id idempotency_key d = None"
| "find_duplicate hmac ((version, key) # ks) owner_user_id session_id idempotency_key d =
     (case List.find (\<lambda>r. sp_owner_user_id r = owner_user_id \<and> sp_session_id r = session_id
              \<and> sp_hmac_key_version r = version
              \<and> sp_idempotency_key_hash r = hmac key idempotency_key) (t_speech d) of
        Some row \<Rightarrow> Some row
      | None \<Rightarrow> find_duplicate hmac ks owner_user_id session_id idempotency_key d)"

definition raise_duplicate :: "speech_row \<Rightarrow> str option \<Rightarrow> exc" where
  "raise_duplicate row request_fingerprint =
     (if sp_state row \<in> set active_speech_states \<and> request_fingerprint = None
      then SpeechAdmissionError ''transcription_in_progress''
      else if sp_request_fingerprint row \<noteq> request_fingerprint
      then SpeechAdmissionError ''idempotency_conflict''
      else if sp_state row \<in> set active_speech_states
      then SpeechAdmissionError ''transcription_in_progress''
      else SpeechAdmissionError ''transcription_result_unavailable'')"

definition session_request_count :: "str \<Rightarrow> db \<Rightarrow> nat" where
  "session_request_count session_id d = rowcount (\<lambda>r. sp_session_id r = session_id) (t_speech d)"

definition owner_hour_count :: "str \<Rightarrow> datetime \<Rightarrow> db \<Rightarrow> nat" where
  "owner_hour_count owner now d =
     rowcount (\<lambda>r. sp_owner_user_id r = owner \<and> now - seconds 3600 \<le> sp_created_at r) (t_speech d)"

definition admitted_row ::
  "(str \<Rightarrow> str \<Rightarrow> str) \<Rightarrow> str \<Rightarrow> str \<Rightarrow> str \<Rightarrow> admit_args \<Rightarrow> datetime \<Rightarrow> speech_row" where
  "admitted_row hmac version key request_id a now =
     \<lparr>sp_request_id = request_id, sp_session_id = ad_session_id a,
      sp_owner_user_id = ad_owner_user_id a,
      sp_idempotency_key_hash = hmac key (ad_idempotency_key a), sp_hmac_key_version = version,
      sp_request_fingerprint = ad_request_fingerprint a, sp_state = Admitted,
      sp_media_type = None, sp_byte_size = None, sp_duration_ms = None,
      sp_provider = ''dashscope'', sp_model = ''qwen3-asr-flash'', sp_provider_attempts = 0,
      sp_lease_owner = Some (ad_lease_owner a), sp_lease_generation = 1,
      sp_lease_expires_at = Some (now + seconds (ad_lease_seconds a)),
      sp_provider_dispatched_at = None, sp_outcome_code = None, sp_latency_ms = None,
      sp_created_at = now, sp_updated_at = now, sp_completed_at = None\<rparr>"

definition admit ::
  "(str \<Rightarrow> str \<Rightarrow> str) \<Rightarrow> (str \<Rightarrow> bool) \<Rightarrow> speech_repo \<Rightarrow> str \<Rightarrow> admit_args \<Rightarrow> datetime \<Rightarrow> db
     \<Rightarrow> exc + db \<times> speech_token" where
  "admit hmac uuid_ok repo fresh a now d =
     (case sc_active_version repo of
        None \<Rightarrow> Inl (SpeechHmacReadinessError ''speech HMAC keyring is not configured'')
      | Some active \<Rightarrow>
        andthen (require (uuid_ok (ad_idempotency_key a))
                  (ValueError ''badly formed hexadecimal UUID string''))
        (\<lambda>_. andthen (case ad_request_fingerprint a of None \<Rightarrow> Inr ()
                      | Some f \<Rightarrow> validate_request_fingerprint f)
        (\<lambda>_. andthen (require (\<not> blank (ad_lease_owner a) \<and> 0 < ad_lease_seconds a)
                       (ValueError ''speech lease must be bounded and owned''))
        (\<lambda>_. andthen (require (case find_session (ad_session_id a) d of None \<Rightarrow> False
                         | Some s \<Rightarrow> ls_owner_user_id s = ad_owner_user_id a)
                       (SpeechAdmissionError ''transcription_failed''))
        (\<lambda>_. case find_duplicate hmac (sc_keys repo) (ad_owner_user_id a) (ad_session_id a)
                     (ad_idempotency_key a) d of
               Some row \<Rightarrow> Inl (raise_duplicate row (ad_request_fingerprint a))
             | None \<Rightarrow>
               andthen (require (session_request_count (ad_session_id a) d < sc_max_session_requests repo)
                         (SpeechQuotaExceededError ''speech session lifetime quota exceeded''))
               (\<lambda>_. andthen (require (owner_hour_count (ad_owner_user_id a) now d
                                       < sc_max_owner_hour_requests repo)
                         (SpeechQuotaExceededError ''speech owner rolling quota exceeded''))
               (\<lambda>_. case map_of (sc_keys repo) active of
                      None \<Rightarrow> Inl (KeyError ''active HMAC key'')
                    | Some key \<Rightarrow>
                      let row = admitted_row hmac active key fresh a now
                      in andthen (insert_speech row d) (\<lambda>d'.
                         andthen (token_of_row row) (\<lambda>token. Inr (d', token)))))
        )))))"

fun next_speech_state :: "speech_state \<Rightarrow> speech_state option" where
  "next_speech_state Admitted = Some Uploading"
| "next_speech_state Uploading = Some Scanning"
| "next_speech_state Scanning = Some Inspecting"
| "next_speech_state _ = None"

definition transition_values ::
  "speech_token \<Rightarrow> speech_state \<Rightarrow> transition_args \<Rightarrow> datetime \<Rightarrow> speech_row \<Rightarrow> speech_row" where
  "transition_values token state a now r =
     r\<lparr>sp_state := state,
       sp_lease_generation := tk_lease_generation token + 1,
       sp_lease_expires_at := Some (now + seconds (ta_lease_seconds a)),
       sp_updated_at := now,
       sp_media_type := (if ta_media_type a \<noteq> None then ta_media_type a else sp_media_type r),
       sp_byte_size := (if ta_byte_size a \<noteq> None then ta_byte_size a else sp_byte_size r),
       sp_duration_ms := (if ta_duration_ms a \<noteq> None then ta_duration_ms a else sp_duration_ms r),
       sp_request_fingerprint :=
         (if ta_request_fingerprint a \<noteq> None then ta_request_fingerprint a
          else sp_request_fingerprint r)\<rparr>"

definition fingerprint_guard ::
  "speech_state \<Rightarrow> str option \<Rightarrow> str option \<Rightarrow> exc + unit" where
  "fingerprint_guard state stored given =
     (if state = Scanning
      then require_all
        [(\<not> (given = None \<and> stored = None),
            SpeechLeaseStateError ''scanning requires a bound request fingerprint''),
         (given = None \<or> stored = None \<or> stored = given,
            SpeechLeaseStateError ''request fingerprint is already bound'')]
      else require (given = None)
        (SpeechLeaseStateError ''request fingerprint may only bind before scanning''))"

definition transition ::
  "speech_token \<Rightarrow> speech_state \<Rightarrow> transition_args \<Rightarrow> datetime \<Rightarrow> db \<Rightarrow> exc + db \<times> speech_token" where
  "transition token state a now d =
     andthen (require (state \<in> {Uploading, Scanning, Inspecting})
       (SpeechLeaseStateError ''transition target is not an active business state''))
     (\<lambda>_. case cas_row token d of
        None \<Rightarrow> Inl (SpeechLeaseStateError ''speech transition is stale or illegal'')
      | Some row \<Rightarrow>
        andthen (require (next_speech_state (sp_state row) = Some state)
          (SpeechLeaseStateError ''speech transition is stale or illegal''))
        (\<lambda>_. andthen (case ta_request_fingerprint a of None \<Rightarrow> Inr ()
                      | Some f \<Rightarrow> validate_request_fingerprint f)
        (\<lambda>_. andthen (fingerprint_guard state (sp_request_fingerprint row) (ta_request_fingerprint a))
        (\<lambda>_. andthen (cas_update token (transition_values token state a now) d)
        (\<lambda>(d', won). if \<not> won then Inl (SpeechLeaseStateError ''speech transition lost its lease'')
           else Inr (d', next_token token (now + seconds (ta_lease_seconds a))))))))"

definition dispatch_values :: "speech_token \<Rightarrow> int \<Rightarrow> datetime \<Rightarrow> speech_row \<Rightarrow> speech_row" where
  "dispatch_values token lease_seconds now r =
     r\<lparr>sp_state := Dispatching, sp_provider_attempts := 1, sp_provider_dispatched_at := Some now,
       sp_lease_generation := tk_lease_generation token + 1,
       sp_lease_expires_at := Some (now + seconds lease_seconds), sp_updated_at := now\<rparr>"

definition mark_dispatching ::
  "speech_token \<Rightarrow> int \<Rightarrow> datetime \<Rightarrow> db \<Rightarrow> exc + db \<times> speech_token" where
  "mark_dispatching token lease_seconds now d =
     (case cas_row token d of
        None \<Rightarrow> Inl (SpeechLeaseStateError ''only inspected audio may be dispatched'')
      | Some row \<Rightarrow>
        andthen (require (sp_state row = Inspecting)
          (SpeechLeaseStateError ''only inspected audio may be dispatched''))
        (\<lambda>_. andthen (cas_update token (dispatch_values token lease_seconds now) d)
        (\<lambda>(d', won). if \<not> won then Inl (SpeechLeaseStateError ''speech dispatch lost its lease'')
           else Inr (d', next_token token (now + seconds lease_seconds)))))"

definition finalize_values ::
  "speech_token \<Rightarrow> speech_state \<Rightarrow> string option \<Rightarrow> int option \<Rightarrow> datetime \<Rightarrow> speech_row \<Rightarrow> speech_row"
  where
  "finalize_values token state outcome_code latency_ms now r =
     r\<lparr>sp_state := state, sp_lease_owner := None,
       sp_lease_generation := tk_lease_generation token + 1, sp_lease_expires_at := None,
       sp_outcome_code := outcome_code, sp_latency_ms := latency_ms,
       sp_completed_at := Some now, sp_updated_at := now\<rparr>"

definition finalize_guard ::
  "bool \<Rightarrow> speech_state \<Rightarrow> string option \<Rightarrow> int option \<Rightarrow> exc + unit" where
  "finalize_guard dispatched state outcome_code latency_ms =
     andthen
       (if state = Succeeded
        then require (dispatched \<and> outcome_code = None \<and> latency_ms \<noteq> None)
               (SpeechLeaseStateError ''succeeded metadata is inconsistent'')
        else require (outcome_code \<in> Some ` set speech_outcome_codes)
               (SpeechLeaseStateError ''terminal failure outcome is not bounded''))
     (\<lambda>_. require_all
       [(\<not> (state = Cancelled \<and> dispatched),
           SpeechLeaseStateError ''post-dispatch cancellation is ambiguous''),
        (\<not> (state = Ambiguous \<and> \<not> dispatched),
           SpeechLeaseStateError ''pre-dispatch work cannot be ambiguous'')])"

definition finalize ::
  "speech_token \<Rightarrow> speech_state \<Rightarrow> string option \<Rightarrow> int option \<Rightarrow> datetime \<Rightarrow> db \<Rightarrow> exc + db \<times> bool" where
  "finalize token state outcome_code latency_ms now d =
     andthen (require (state \<in> set terminal_speech_states)
       (SpeechLeaseStateError ''speech final state is not terminal''))
     (\<lambda>_. case cas_row token d of
        None \<Rightarrow> Inr (d, False)
      | Some row \<Rightarrow>
        andthen (finalize_guard (sp_provider_dispatched_at row \<noteq> None) state outcome_code latency_ms)
        (\<lambda>_. cas_update token (finalize_values token state outcome_code latency_ms now) d))"

definition lease_expired :: "datetime \<Rightarrow> speech_row \<Rightarrow> bool" where
  "lease_expired now r \<longleftrightarrow> sp_state r \<in> set active_speech_states \<and>
     (case sp_lease_expires_at r of None \<Rightarrow> False | Some e \<Rightarrow> e \<le> now)"

fun recover_rows :: "datetime \<Rightarrow> speech_row list \<Rightarrow> nat \<Rightarrow> db \<Rightarrow> exc + db \<times> nat" where
  "recover_rows now [] recovered d = Inr (d, recovered)"
| "recover_rows now (row # rows) recovered d =
     (if sp_lease_owner row = None \<or> sp_lease_expires_at row = None
      then recover_rows now rows recovered d
      else andthen (token_of_row row) (\<lambda>token.
        let dispatched = sp_provider_dispatched_at row \<noteq> None;
            state = (if dispatched then Ambiguous else Failed_Terminal);
            outcome = (if dispatched then ''lease_expired_post_dispatch''
                       else ''lease_expired_pre_dispatch'')
        in andthen (finalize token state (Some outcome) None now d) (\<lambda>(d', done').
             recover_rows now rows (if done' then recovered + 1 else recovered) d')))"

definition recover_expired :: "datetime \<Rightarrow> db \<Rightarrow> exc + db \<times> nat" where
  "recover_expired now d = recover_rows now (filter (lease_expired now) (t_speech d)) 0 d"

definition assert_hmac_readiness :: "speech_repo \<Rightarrow> db \<Rightarrow> exc + unit" where
  "assert_hmac_readiness repo d =
     (case sc_active_version repo of
        None \<Rightarrow> Inl (SpeechHmacReadinessError ''speech HMAC keyring is not configured'')
      | Some _ \<Rightarrow> require (set (map sp_hmac_key_version (t_speech d)) \<subseteq> fst ` set (sc_keys repo))
          (SpeechHmacReadinessError ''speech HMAC key material is unavailable for retained metadata''))"

section \<open>Branches\<close>

lemma cas_row_SomeD:
  "cas_row token d = Some r \<Longrightarrow> r \<in> set (t_speech d) \<and> cas_match token r"
  by (auto simp: cas_row_def dest: find_SomeD)

lemma cas_row_None: "cas_row token d = None \<longleftrightarrow> (\<forall>r \<in> set (t_speech d). \<not> cas_match token r)"
  by (auto simp: cas_row_def find_None_iff)

lemma cas_update_Inr:
  assumes "cas_update token f d = Inr (d', won)"
  shows "d' = d\<lparr>t_speech := tupdate (cas_match token) f (t_speech d)\<rparr>"
    and "\<And>r. r \<in> set (t_speech d) \<Longrightarrow> cas_match token r \<Longrightarrow> checks_ok (speech_checks (f r))"
    and "won \<longleftrightarrow> rowcount (cas_match token) (t_speech d) = 1"
  using assms by (auto simp: cas_update_def split: if_splits)

lemma insert_speech_Inr:
  assumes "insert_speech r d = Inr d'"
  shows "d' = d\<lparr>t_speech := t_speech d @ [r]\<rparr>" and "checks_ok (speech_checks r)"
    and "sp_request_id r \<notin> sp_request_id ` set (t_speech d)"
    and "find_session (sp_session_id r) d \<noteq> None"
  using assms by (auto simp: insert_speech_def andthen_Inr_iff)

lemma token_of_row_Inr:
  "token_of_row r = Inr t \<longleftrightarrow>
     sp_lease_owner r = Some (tk_lease_owner t) \<and> sp_lease_expires_at r = Some (tk_lease_expires_at t)
     \<and> tk_request_id t = sp_request_id r \<and> tk_owner_user_id t = sp_owner_user_id r
     \<and> tk_session_id t = sp_session_id r \<and> tk_lease_generation t = sp_lease_generation r"
  by (cases t) (auto simp: token_of_row_def split: option.splits)

lemma transition_Inr:
  assumes "transition token state a now d = Inr (d', t')"
  obtains row where "cas_row token d = Some row" "next_speech_state (sp_state row) = Some state"
    "state \<in> {Uploading, Scanning, Inspecting}"
    "fingerprint_guard state (sp_request_fingerprint row) (ta_request_fingerprint a) = Inr ()"
    "cas_update token (transition_values token state a now) d = Inr (d', True)"
    "t' = next_token token (now + seconds (ta_lease_seconds a))"
  using assms
  by (auto simp: transition_def andthen_Inr_iff split: option.splits if_splits)

lemma mark_dispatching_Inr:
  assumes "mark_dispatching token n now d = Inr (d', t')"
  obtains row where "cas_row token d = Some row" "sp_state row = Inspecting"
    "cas_update token (dispatch_values token n now) d = Inr (d', True)"
    "t' = next_token token (now + seconds n)"
  using assms
  by (auto simp: mark_dispatching_def andthen_Inr_iff split: option.splits if_splits)

lemma finalize_Inr:
  assumes "finalize token state oc lat now d = Inr (d', b)"
  obtains (stale) "cas_row token d = None" "d' = d" "\<not> b"
  | (found) row where "cas_row token d = Some row" "state \<in> set terminal_speech_states"
    "finalize_guard (sp_provider_dispatched_at row \<noteq> None) state oc lat = Inr ()"
    "cas_update token (finalize_values token state oc lat now) d = Inr (d', b)"
  using assms
  by (auto simp: finalize_def andthen_Inr_iff split: option.splits)

lemma admit_Inr:
  assumes "admit hmac uuid_ok repo fresh a now d = Inr (d', t)"
  obtains version key row where "sc_active_version repo = Some version"
    "map_of (sc_keys repo) version = Some key" "row = admitted_row hmac version key fresh a now"
    "find_duplicate hmac (sc_keys repo) (ad_owner_user_id a) (ad_session_id a) (ad_idempotency_key a) d = None"
    "session_request_count (ad_session_id a) d < sc_max_session_requests repo"
    "owner_hour_count (ad_owner_user_id a) now d < sc_max_owner_hour_requests repo"
    "\<exists>s. find_session (ad_session_id a) d = Some s \<and> ls_owner_user_id s = ad_owner_user_id a"
    "insert_speech row d = Inr d'" "token_of_row row = Inr t"
  using assms
  by (auto simp: admit_def andthen_Inr_iff Let_def split: option.splits)

section \<open>The invariant of the table\<close>

text \<open>
  Every row satisfies the CHECK constraints, request ids are unique, and a row that ended without
  success has an outcome code (which the constraint alone does not say: see \<open>outcome_matrix_check\<close>).
\<close>

definition outcome_bound :: "speech_row \<Rightarrow> bool" where
  "outcome_bound r \<longleftrightarrow>
     (sp_state r \<in> {Failed_Terminal, Cancelled, Ambiguous} \<longrightarrow>
        (\<exists>c \<in> set speech_outcome_codes. sp_outcome_code r = Some c))"

definition speech_row_ok :: "speech_row \<Rightarrow> bool" where
  "speech_row_ok r \<longleftrightarrow> checks_ok (speech_checks r) \<and> outcome_bound r"

definition speech_inv :: "db \<Rightarrow> bool" where
  "speech_inv d \<longleftrightarrow> list_all speech_row_ok (t_speech d) \<and> unique_key sp_request_id (t_speech d)"

lemma speech_invD:
  "speech_inv d \<Longrightarrow> r \<in> set (t_speech d) \<Longrightarrow> speech_row_ok r"
  by (simp add: speech_inv_def list_all_iff)

lemma cas_match_unique:
  "speech_inv d \<Longrightarrow> rowcount (cas_match token) (t_speech d) \<le> 1"
  by (rule rowcount_unique [where k = sp_request_id])
    (auto simp: speech_inv_def cas_match_def)

lemma cas_row_eq:
  assumes "speech_inv d" and "cas_row token d = Some row" and "r \<in> set (t_speech d)"
    and "cas_match token r"
  shows "r = row"
proof -
  have "row \<in> set (t_speech d)" and "cas_match token row"
    using cas_row_SomeD[OF assms(2)] by auto
  then show ?thesis
    using assms unique_keyD[of sp_request_id "t_speech d" r row]
    by (auto simp: speech_inv_def cas_match_def)
qed

lemma speech_row_lease:
  assumes "speech_row_ok r"
  shows "sp_state r \<in> set active_speech_states \<longleftrightarrow> sp_lease_owner r \<noteq> None"
    and "sp_lease_expires_at r = None \<longleftrightarrow> sp_lease_owner r = None"
    and "sp_completed_at r \<noteq> None \<longleftrightarrow> sp_lease_owner r = None"
  using assms
  by (auto simp: speech_row_ok_def speech_checks_def lease_terminal_matrix_def)

lemma speech_row_dispatch:
  assumes "speech_row_ok r"
  shows "sp_provider_dispatched_at r \<noteq> None \<longleftrightarrow> sp_provider_attempts r = 1"
    and "sp_state r \<in> {Admitted, Uploading, Scanning, Inspecting, Cancelled} \<Longrightarrow>
           sp_provider_dispatched_at r = None"
    and "sp_state r \<in> {Dispatching, Succeeded, Ambiguous} \<Longrightarrow> sp_provider_dispatched_at r \<noteq> None"
  using assms
  by (auto simp: speech_row_ok_def speech_checks_def dispatch_matrix_def)

lemma admitted_row_ok:
  "checks_ok (speech_checks (admitted_row hmac v k i a now)) \<Longrightarrow>
   speech_row_ok (admitted_row hmac v k i a now)"
  by (simp add: speech_row_ok_def outcome_bound_def admitted_row_def)

lemma cas_update_inv:
  assumes inv: "speech_inv d" and upd: "cas_update token f d = Inr (d', won)"
    and id: "\<And>r. sp_request_id (f r) = sp_request_id r"
    and bound: "\<And>r. r \<in> set (t_speech d) \<Longrightarrow> cas_match token r \<Longrightarrow> outcome_bound (f r)"
  shows "speech_inv d'"
proof -
  note u = cas_update_Inr[OF upd]
  have "speech_row_ok r'" if "r' \<in> set (t_speech d')" for r'
    using that u(2) bound speech_invD[OF inv]
    by (auto simp: u(1) set_tupdate speech_row_ok_def)
  moreover have "unique_key sp_request_id (t_speech d')"
    using inv by (simp add: u(1) speech_inv_def unique_key_tupdate id)
  ultimately show ?thesis by (simp add: speech_inv_def list_all_iff)
qed

lemma admit_inv:
  assumes "speech_inv d" and "admit hmac uuid_ok repo fresh a now d = Inr (d', t)"
  shows "speech_inv d'"
  using assms(2)
proof (rule admit_Inr)
  fix version key row
  assume row: "row = admitted_row hmac version key fresh a now" and ins: "insert_speech row d = Inr d'"
  note i = insert_speech_Inr[OF ins]
  have "speech_row_ok row" using i(2) admitted_row_ok by (simp add: row)
  then show ?thesis
    using assms(1) i(3) by (simp add: i(1) speech_inv_def unique_key_append1)
qed

lemma transition_inv:
  assumes "speech_inv d" and "transition token state a now d = Inr (d', t')"
  shows "speech_inv d'"
  using assms(2)
proof (rule transition_Inr)
  assume st: "state \<in> {Uploading, Scanning, Inspecting}"
    and u: "cas_update token (transition_values token state a now) d = Inr (d', True)"
  show ?thesis
    using st by (intro cas_update_inv[OF assms(1) u]) (auto simp: transition_values_def outcome_bound_def)
qed

lemma mark_dispatching_inv:
  assumes "speech_inv d" and "mark_dispatching token n now d = Inr (d', t')"
  shows "speech_inv d'"
  using assms(2)
proof (rule mark_dispatching_Inr)
  assume u: "cas_update token (dispatch_values token n now) d = Inr (d', True)"
  show ?thesis
    by (intro cas_update_inv[OF assms(1) u]) (auto simp: dispatch_values_def outcome_bound_def)
qed

lemma finalize_inv:
  assumes "speech_inv d" and "finalize token state oc lat now d = Inr (d', b)"
  shows "speech_inv d'"
  using assms(2)
proof (cases rule: finalize_Inr)
  case stale
  then show ?thesis using assms(1) by simp
next
  case (found row)
  then show ?thesis
    by (intro cas_update_inv[OF assms(1) found(4)])
      (auto simp: finalize_values_def outcome_bound_def finalize_guard_def andthen_Inr_iff
        split: if_splits)
qed

section \<open>How a row evolves\<close>

text \<open>
  The state graph, and the relation between a row before and after any operation: identity columns
  never change, the lease generation grows with every change, a bound fingerprint and a recorded
  dispatch are kept, states follow the graph, and a finished row never changes again.
\<close>

inductive speech_next :: "speech_state \<Rightarrow> speech_state \<Rightarrow> bool" where
  advance: "next_speech_state s = Some s' \<Longrightarrow> speech_next s s'"
| dispatch: "speech_next Inspecting Dispatching"
| fail: "s \<in> set active_speech_states \<Longrightarrow> speech_next s Failed_Terminal"
| cancel: "s \<in> set active_speech_states \<Longrightarrow> s \<noteq> Dispatching \<Longrightarrow> speech_next s Cancelled"
| succeed: "speech_next Dispatching Succeeded"
| ambiguous: "speech_next Dispatching Ambiguous"

inductive_simps speech_next_Dispatching: "speech_next s Dispatching"
inductive_cases speech_nextE: "speech_next s s'"

lemma speech_next_active: "speech_next s s' \<Longrightarrow> s \<in> set active_speech_states"
  by (erule speech_nextE) (auto simp: active_speech_states_def elim: next_speech_state.elims)

lemma speech_next_star_terminal:
  assumes "speech_next\<^sup>*\<^sup>* s s'" and "s \<in> set terminal_speech_states"
  shows "s' = s"
  using assms(1)
proof (cases rule: converse_rtranclpE)
  case (step y)
  then show ?thesis using assms(2) speech_next_active by simp
qed simp

definition evolves :: "speech_row \<Rightarrow> speech_row \<Rightarrow> bool" where
  "evolves r r' \<longleftrightarrow>
     sp_request_id r' = sp_request_id r \<and> sp_session_id r' = sp_session_id r \<and>
     sp_owner_user_id r' = sp_owner_user_id r \<and>
     sp_idempotency_key_hash r' = sp_idempotency_key_hash r \<and>
     sp_hmac_key_version r' = sp_hmac_key_version r \<and> sp_created_at r' = sp_created_at r \<and>
     speech_next\<^sup>*\<^sup>* (sp_state r) (sp_state r') \<and>
     sp_lease_generation r \<le> sp_lease_generation r' \<and>
     (sp_lease_generation r = sp_lease_generation r' \<longrightarrow> r' = r) \<and>
     (sp_state r \<in> set terminal_speech_states \<longrightarrow> r' = r) \<and>
     (sp_provider_dispatched_at r \<noteq> None \<longrightarrow>
        sp_provider_dispatched_at r' = sp_provider_dispatched_at r) \<and>
     (sp_request_fingerprint r \<noteq> None \<longrightarrow> sp_request_fingerprint r' = sp_request_fingerprint r)"

lemma evolves_refl [simp]: "evolves r r"
  by (simp add: evolves_def)

lemma evolves_trans:
  assumes ab: "evolves a b" and bc: "evolves b c"
  shows "evolves a c"
proof -
  have gen: "sp_lease_generation a = sp_lease_generation c \<longrightarrow> c = a"
  proof
    assume "sp_lease_generation a = sp_lease_generation c"
    moreover have "sp_lease_generation a \<le> sp_lease_generation b"
      and "sp_lease_generation b \<le> sp_lease_generation c"
      using ab bc unfolding evolves_def by blast+
    ultimately have "sp_lease_generation a = sp_lease_generation b"
      and "sp_lease_generation b = sp_lease_generation c" by simp_all
    then have "b = a" and "c = b" using ab bc unfolding evolves_def by blast+
    then show "c = a" by simp
  qed
  have stop: "sp_state a \<in> set terminal_speech_states \<longrightarrow> c = a"
    using ab bc by (metis evolves_def)
  have path: "speech_next\<^sup>*\<^sup>* (sp_state a) (sp_state c)"
    using ab bc unfolding evolves_def by (meson rtranclp_trans)
  have disp: "sp_provider_dispatched_at a \<noteq> None \<longrightarrow>
      sp_provider_dispatched_at c = sp_provider_dispatched_at a"
    and fpr: "sp_request_fingerprint a \<noteq> None \<longrightarrow> sp_request_fingerprint c = sp_request_fingerprint a"
    using ab bc unfolding evolves_def by metis+
  have le: "sp_lease_generation a \<le> sp_lease_generation c"
    using ab bc unfolding evolves_def by linarith
  have ids: "sp_request_id c = sp_request_id a" "sp_session_id c = sp_session_id a"
    "sp_owner_user_id c = sp_owner_user_id a" "sp_idempotency_key_hash c = sp_idempotency_key_hash a"
    "sp_hmac_key_version c = sp_hmac_key_version a" "sp_created_at c = sp_created_at a"
    using ab bc unfolding evolves_def by metis+
  show ?thesis
    unfolding evolves_def using ids path le gen stop disp fpr by blast
qed

definition db_evolves :: "db \<Rightarrow> db \<Rightarrow> bool" where
  "db_evolves d d' \<longleftrightarrow> (\<forall>r \<in> set (t_speech d). \<exists>r' \<in> set (t_speech d'). evolves r r')"

lemma db_evolves_refl [simp]: "db_evolves d d"
  unfolding db_evolves_def using evolves_refl by blast

lemma db_evolves_trans: "db_evolves a b \<Longrightarrow> db_evolves b c \<Longrightarrow> db_evolves a c"
  unfolding db_evolves_def by (metis evolves_trans)

lemma cas_update_evolves:
  assumes inv: "speech_inv d" and row: "cas_row token d = Some row"
    and upd: "cas_update token f d = Inr (d', won)" and ev: "evolves row (f row)"
  shows "db_evolves d d'"
  unfolding db_evolves_def
proof
  fix r assume r: "r \<in> set (t_speech d)"
  show "\<exists>r' \<in> set (t_speech d'). evolves r r'"
  proof (cases "cas_match token r")
    case True
    then have "r = row" using cas_row_eq[OF inv row r] by simp
    with True r ev show ?thesis
      by (auto simp: cas_update_Inr(1)[OF upd] set_tupdate)
  next
    case False
    with r show ?thesis
      by (intro bexI[of _ r]) (auto simp: cas_update_Inr(1)[OF upd] set_tupdate)
  qed
qed

lemma cas_row_gen: "cas_row token d = Some row \<Longrightarrow> sp_lease_generation row = tk_lease_generation token"
  by (auto simp: cas_match_def dest: cas_row_SomeD)

lemma cas_row_active:
  assumes "speech_inv d" and "cas_row token d = Some row"
  shows "sp_state row \<in> set active_speech_states"
  using speech_row_lease(1) speech_invD[OF assms(1)] cas_row_SomeD[OF assms(2)]
  by (auto simp: cas_match_def)

lemma transition_evolves:
  assumes inv: "speech_inv d" and tr: "transition token state a now d = Inr (d', t')"
  shows "db_evolves d d'"
  using tr
proof (rule transition_Inr)
  fix row
  assume row: "cas_row token d = Some row" and nx: "next_speech_state (sp_state row) = Some state"
    and fp: "fingerprint_guard state (sp_request_fingerprint row) (ta_request_fingerprint a) = Inr ()"
    and u: "cas_update token (transition_values token state a now) d = Inr (d', True)"
  have "evolves row (transition_values token state a now row)"
    using nx fp cas_row_gen[OF row] cas_row_active[OF inv row]
    by (auto simp: evolves_def transition_values_def fingerprint_guard_def
        intro: r_into_rtranclp speech_next.advance split: if_splits)
  then show ?thesis by (rule cas_update_evolves[OF inv row u])
qed

lemma mark_dispatching_evolves:
  assumes inv: "speech_inv d" and md: "mark_dispatching token n now d = Inr (d', t')"
  shows "db_evolves d d'"
  using md
proof (rule mark_dispatching_Inr)
  fix row
  assume row: "cas_row token d = Some row" and st: "sp_state row = Inspecting"
    and u: "cas_update token (dispatch_values token n now) d = Inr (d', True)"
  have "sp_provider_dispatched_at row = None"
    using speech_row_dispatch(2)[OF speech_invD[OF inv]] cas_row_SomeD[OF row] st by simp
  then have "evolves row (dispatch_values token n now row)"
    using st cas_row_gen[OF row] cas_row_active[OF inv row]
    by (auto simp: evolves_def dispatch_values_def intro: r_into_rtranclp speech_next.dispatch)
  then show ?thesis by (rule cas_update_evolves[OF inv row u])
qed

lemma finalize_guard_next:
  assumes "finalize_guard dispatched state oc lat = Inr ()" and "state \<in> set terminal_speech_states"
    and "s \<in> set active_speech_states" and "dispatched \<longleftrightarrow> s = Dispatching"
  shows "speech_next s state"
  using assms
  by (cases state)
    (auto simp: finalize_guard_def andthen_Inr_iff active_speech_states_def
      intro: speech_next.intros split: if_splits)

lemma active_dispatched_iff:
  assumes "speech_row_ok r" and "sp_state r \<in> set active_speech_states"
  shows "sp_provider_dispatched_at r \<noteq> None \<longleftrightarrow> sp_state r = Dispatching"
  using speech_row_dispatch(2,3)[OF assms(1)] assms(2) by (auto simp: active_speech_states_def)

lemma finalize_evolves:
  assumes inv: "speech_inv d" and fin: "finalize token state oc lat now d = Inr (d', b)"
  shows "db_evolves d d'"
  using fin
proof (cases rule: finalize_Inr)
  case (found row)
  have ok: "speech_row_ok row" using speech_invD[OF inv] cas_row_SomeD[OF found(1)] by blast
  have "speech_next (sp_state row) state"
    using finalize_guard_next[OF found(3,2) cas_row_active[OF inv found(1)]]
      active_dispatched_iff[OF ok cas_row_active[OF inv found(1)]] by simp
  then have "evolves row (finalize_values token state oc lat now row)"
    using cas_row_gen[OF found(1)] cas_row_active[OF inv found(1)]
    by (auto simp: evolves_def finalize_values_def)
  then show ?thesis by (rule cas_update_evolves[OF inv found(1,4)])
qed simp

lemma admit_evolves:
  assumes "admit hmac uuid_ok repo fresh a now d = Inr (d', t)"
  shows "db_evolves d d'"
  using assms
proof (rule admit_Inr)
  fix row assume "insert_speech row d = Inr d'"
  from insert_speech_Inr(1)[OF this] have "set (t_speech d) \<subseteq> set (t_speech d')" by auto
  then show ?thesis unfolding db_evolves_def using evolves_refl by blast
qed

section \<open>The constraints are never tripped by an operation that passes its guards\<close>

lemma finalize_checks:
  assumes ok: "speech_row_ok r" and act: "sp_state r \<in> set active_speech_states"
    and g: "finalize_guard (sp_provider_dispatched_at r \<noteq> None) state oc lat = Inr ()"
    and st: "state \<in> set terminal_speech_states"
    and gen: "tk_lease_generation token = sp_lease_generation r"
    and lat: "\<And>n. lat = Some n \<Longrightarrow> 0 \<le> n"
  shows "checks_ok (speech_checks (finalize_values token state oc lat now r))"
proof -
  have gpos: "0 < sp_lease_generation r" and rest:
    "length (sp_idempotency_key_hash r) = 64" "\<not> list_all (\<lambda>c. c = 32) (sp_hmac_key_version r)"
    "sp_provider r = ''dashscope'' \<and> sp_model r = ''qwen3-asr-flash''"
    "0 \<le> sp_provider_attempts r \<and> sp_provider_attempts r \<le> 1"
    using ok by (simp_all add: speech_row_ok_def speech_checks_def)
  have nulls: "\<And>f. sp_request_fingerprint r = Some f \<Longrightarrow> length f = 64"
    "\<And>n. sp_byte_size r = Some n \<Longrightarrow> 0 < n" "\<And>n. sp_duration_ms r = Some n \<Longrightarrow> 0 < n"
    using ok by (auto simp: speech_row_ok_def speech_checks_def)
  have disp: "sp_provider_dispatched_at r \<noteq> None \<longleftrightarrow> sp_provider_attempts r = 1"
    "sp_provider_dispatched_at r = None \<longleftrightarrow> sp_provider_attempts r = 0"
    using ok by (auto simp: speech_row_ok_def speech_checks_def dispatch_matrix_def)
  show ?thesis
    using rest gpos gen nulls disp g st lat
    by (cases state)
      (auto simp: speech_checks_def finalize_values_def lease_terminal_matrix_def
        dispatch_matrix_def outcome_matrix_check finalize_guard_def andthen_Inr_iff
        active_speech_states_def terminal_speech_states_def split: if_splits)
qed

lemma transition_checks:
  assumes ok: "speech_row_ok r" and st: "next_speech_state (sp_state r) = Some state"
    and gen: "tk_lease_generation token = sp_lease_generation r"
    and own: "sp_lease_owner r \<noteq> None"
    and size: "\<And>n. ta_byte_size a = Some n \<Longrightarrow> 0 < n" and dur: "\<And>n. ta_duration_ms a = Some n \<Longrightarrow> 0 < n"
    and fp: "\<And>f. ta_request_fingerprint a = Some f \<Longrightarrow> length f = 64"
  shows "checks_ok (speech_checks (transition_values token state a now r))"
  using assms
  by (cases "sp_state r")
    (auto simp: speech_row_ok_def speech_checks_def transition_values_def lease_terminal_matrix_def
      dispatch_matrix_def outcome_matrix_check active_speech_states_def)

lemma dispatch_checks:
  assumes "speech_row_ok r" and "sp_state r = Inspecting" and "sp_lease_owner r \<noteq> None"
    and "tk_lease_generation token = sp_lease_generation r"
  shows "checks_ok (speech_checks (dispatch_values token n now r))"
  using assms
  by (auto simp: speech_row_ok_def speech_checks_def dispatch_values_def lease_terminal_matrix_def
      dispatch_matrix_def outcome_matrix_check active_speech_states_def)

text \<open>Under the invariant a matching token selects exactly one row, and the update rewrites it.\<close>

lemma cas_update_found:
  assumes inv: "speech_inv d" and row: "cas_row token d = Some row"
    and ok: "checks_ok (speech_checks (f row))"
  shows "cas_update token f d =
    Inr (d\<lparr>t_speech := map (\<lambda>r. if r = row then f row else r) (t_speech d)\<rparr>, True)"
proof -
  have row': "row \<in> set (t_speech d)" "cas_match token row" using cas_row_SomeD[OF row] by auto
  have iff: "cas_match token r \<longleftrightarrow> r = row" if "r \<in> set (t_speech d)" for r
    using cas_row_eq[OF inv row that] row'(2) by blast
  have "rowcount (cas_match token) (t_speech d) = 1"
    using cas_match_unique[OF inv, of token] row' rowcount_pos_iff[of "cas_match token" "t_speech d"]
    by fastforce
  moreover have "tupdate (cas_match token) f (t_speech d) =
      map (\<lambda>r. if r = row then f row else r) (t_speech d)"
    unfolding tupdate_def by (rule map_cong) (auto simp: iff)
  ultimately show ?thesis using iff ok by (auto simp: cas_update_def)
qed

lemma transition_no_integrity:
  assumes inv: "speech_inv d"
    and size: "\<And>n. ta_byte_size a = Some n \<Longrightarrow> 0 < n" and dur: "\<And>n. ta_duration_ms a = Some n \<Longrightarrow> 0 < n"
  shows "transition t s a now d \<noteq> Inl (IntegrityError m)"
proof
  assume bad: "transition t s a now d = Inl (IntegrityError m)"
  then obtain row where row: "cas_row t d = Some row"
    by (auto simp: transition_def andthen_require split: if_splits option.splits)
  note m = cas_row_SomeD[OF row]
  have fpv: "validate_request_fingerprint f \<noteq> Inl (IntegrityError m)" for f
    by (auto simp: validate_request_fingerprint_def)
  have fg: "fingerprint_guard s x y \<noteq> Inl (IntegrityError m)" for x y
    by (auto simp: fingerprint_guard_def require_def)
  obtain g: "next_speech_state (sp_state row) = Some s"
    and f: "\<And>f. ta_request_fingerprint a = Some f \<Longrightarrow> length f = 64"
    and c: "cas_update t (transition_values t s a now) d = Inl (IntegrityError m) \<or>
      (\<exists>d'. cas_update t (transition_values t s a now) d = Inr (d', False))"
    using bad fpv fg
    by (auto simp: transition_def row andthen_Inl_iff andthen_require validate_request_fingerprint_def
        split: if_splits option.splits)
  have "checks_ok (speech_checks (transition_values t s a now row))"
    using transition_checks[OF speech_invD[OF inv] g _ _ size dur f] m by (auto simp: cas_match_def)
  then show False using cas_update_found[OF inv row, of "transition_values t s a now"] c by simp
qed

lemma dispatch_no_integrity:
  assumes inv: "speech_inv d"
  shows "mark_dispatching t n now d \<noteq> Inl (IntegrityError m)"
proof
  assume bad: "mark_dispatching t n now d = Inl (IntegrityError m)"
  then obtain row where row: "cas_row t d = Some row" and st: "sp_state row = Inspecting"
    and c: "cas_update t (dispatch_values t n now) d = Inl (IntegrityError m) \<or>
      (\<exists>d'. cas_update t (dispatch_values t n now) d = Inr (d', False))"
    by (auto simp: mark_dispatching_def andthen_require andthen_Inl_iff split: if_splits option.splits)
  note m = cas_row_SomeD[OF row]
  have "checks_ok (speech_checks (dispatch_values t n now row))"
    using dispatch_checks[OF speech_invD[OF inv] st] m by (auto simp: cas_match_def)
  then show False using cas_update_found[OF inv row, of "dispatch_values t n now"] c by simp
qed

lemma finalize_no_integrity:
  assumes inv: "speech_inv d" and lat: "\<And>n. lat = Some n \<Longrightarrow> 0 \<le> n"
  shows "finalize t s oc lat now d \<noteq> Inl (IntegrityError m)"
proof
  assume bad: "finalize t s oc lat now d = Inl (IntegrityError m)"
  then obtain row where row: "cas_row t d = Some row" and st: "s \<in> set terminal_speech_states"
    by (auto simp: finalize_def andthen_require split: if_splits option.splits)
  have g: "finalize_guard (sp_provider_dispatched_at row \<noteq> None) s oc lat \<noteq> Inl (IntegrityError m)"
    by (auto simp: finalize_guard_def require_def andthen_Inl_iff)
  obtain gi: "finalize_guard (sp_provider_dispatched_at row \<noteq> None) s oc lat = Inr ()"
    and c: "cas_update t (finalize_values t s oc lat now) d = Inl (IntegrityError m)"
    using bad st g by (auto simp: finalize_def row andthen_Inl_iff)
  note m = cas_row_SomeD[OF row]
  have ok: "speech_row_ok row" using speech_invD[OF inv] m by blast
  have "checks_ok (speech_checks (finalize_values t s oc lat now row))"
    using finalize_checks[OF ok _ gi st _ lat] m speech_row_lease(1)[OF ok] by (auto simp: cas_match_def)
  then show False using cas_update_found[OF inv row, of "finalize_values t s oc lat now"] c by simp
qed

section \<open>Recovery of expired leases\<close>

definition recovered_row :: "datetime \<Rightarrow> speech_row \<Rightarrow> speech_row" where
  "recovered_row now r =
     r\<lparr>sp_state := (if sp_provider_dispatched_at r \<noteq> None then Ambiguous else Failed_Terminal),
       sp_lease_owner := None, sp_lease_generation := sp_lease_generation r + 1,
       sp_lease_expires_at := None,
       sp_outcome_code := Some (if sp_provider_dispatched_at r \<noteq> None
          then ''lease_expired_post_dispatch'' else ''lease_expired_pre_dispatch''),
       sp_latency_ms := None, sp_completed_at := Some now, sp_updated_at := now\<rparr>"

lemma recovered_row_id: "sp_request_id (recovered_row now r) = sp_request_id r"
  by (simp add: recovered_row_def)

lemma recover_one:
  assumes inv: "speech_inv d" and r: "row \<in> set (t_speech d)"
    and act: "sp_state row \<in> set active_speech_states"
  shows "\<exists>token. token_of_row row = Inr token \<and>
    finalize token (if sp_provider_dispatched_at row \<noteq> None then Ambiguous else Failed_Terminal)
      (Some (if sp_provider_dispatched_at row \<noteq> None then ''lease_expired_post_dispatch''
             else ''lease_expired_pre_dispatch'')) None now d =
    Inr (d\<lparr>t_speech := map (\<lambda>x. if x = row then recovered_row now row else x) (t_speech d)\<rparr>, True)"
proof -
  have ok: "speech_row_ok row" using inv r by (rule speech_invD)
  obtain w e where we: "sp_lease_owner row = Some w" "sp_lease_expires_at row = Some e"
    using speech_row_lease(1,2)[OF ok] act by auto
  define token where "token = \<lparr>tk_request_id = sp_request_id row, tk_owner_user_id = sp_owner_user_id row,
    tk_session_id = sp_session_id row, tk_lease_owner = w,
    tk_lease_generation = sp_lease_generation row, tk_lease_expires_at = e\<rparr>"
  have tok: "token_of_row row = Inr token" by (simp add: token_of_row_def token_def we)
  have m: "cas_match token row" by (simp add: cas_match_def token_def we)
  have row: "cas_row token d = Some row"
    unfolding cas_row_def using inv r m
    by (intro find_unique[where k = sp_request_id]) (auto simp: speech_inv_def cas_match_def)
  define st where "st = (if sp_provider_dispatched_at row \<noteq> None then Ambiguous else Failed_Terminal)"
  define oc where "oc = Some (if sp_provider_dispatched_at row \<noteq> None
    then ''lease_expired_post_dispatch'' else ''lease_expired_pre_dispatch'')"
  have st: "st \<in> set terminal_speech_states" by (simp add: st_def terminal_speech_states_def)
  have g: "finalize_guard (sp_provider_dispatched_at row \<noteq> None) st oc None = Inr ()"
    by (simp add: finalize_guard_def speech_outcome_codes_def st_def oc_def)
  have "checks_ok (speech_checks (finalize_values token st oc None now row))"
    by (rule finalize_checks[OF ok act g st]) (auto simp: token_def)
  moreover have "finalize_values token st oc None now row = recovered_row now row"
    by (simp add: finalize_values_def recovered_row_def token_def st_def oc_def)
  ultimately have "cas_update token (finalize_values token st oc None now) d =
      Inr (d\<lparr>t_speech := map (\<lambda>x. if x = row then recovered_row now row else x) (t_speech d)\<rparr>, True)"
    using cas_update_found[OF inv row, of "finalize_values token st oc None now"] by (simp only:)
  then have "finalize token st oc None now d =
      Inr (d\<lparr>t_speech := map (\<lambda>x. if x = row then recovered_row now row else x) (t_speech d)\<rparr>, True)"
    unfolding finalize_def row option.case g andthen_Inr by (simp only: st require_True andthen_Inr)
  then show ?thesis using tok unfolding st_def oc_def by (intro exI[of _ token] conjI)
qed

lemma recover_rows_eq:
  assumes "speech_inv d" and "set rows \<subseteq> set (t_speech d)" and "distinct (map sp_request_id rows)"
    and "\<And>r. r \<in> set rows \<Longrightarrow> sp_state r \<in> set active_speech_states"
  shows "recover_rows now rows n d =
    Inr (d\<lparr>t_speech := map (\<lambda>r. if r \<in> set rows then recovered_row now r else r) (t_speech d)\<rparr>,
         n + length rows)"
  using assms
proof (induction rows arbitrary: d n)
  case (Cons row rows)
  let ?d1 = "d\<lparr>t_speech := map (\<lambda>x. if x = row then recovered_row now row else x) (t_speech d)\<rparr>"
  have row: "row \<in> set (t_speech d)" and act: "sp_state row \<in> set active_speech_states"
    using Cons.prems by auto
  obtain token where tok: "token_of_row row = Inr token" and
    fin: "finalize token (if sp_provider_dispatched_at row \<noteq> None then Ambiguous else Failed_Terminal)
      (Some (if sp_provider_dispatched_at row \<noteq> None then ''lease_expired_post_dispatch''
             else ''lease_expired_pre_dispatch'')) None now d = Inr (?d1, True)"
    using recover_one[OF Cons.prems(1) row act] by blast
  have inv1: "speech_inv ?d1" by (rule finalize_inv[OF Cons.prems(1) fin])
  have notin: "row \<notin> set rows" "recovered_row now row \<notin> set rows"
    using Cons.prems(3) recovered_row_id[of now row] by (metis distinct.simps(2) image_eqI list.set_map list.simps(9))+
  have sub: "set rows \<subseteq> set (t_speech ?d1)"
    using Cons.prems(2) notin by force
  have rec: "recover_rows now rows (n + 1) ?d1 =
      Inr (?d1\<lparr>t_speech := map (\<lambda>r. if r \<in> set rows then recovered_row now r else r) (t_speech ?d1)\<rparr>,
           n + 1 + length rows)"
    using Cons.prems(3,4) by (intro Cons.IH[OF inv1 sub]) auto
  have maps: "map (\<lambda>r. if r \<in> set rows then recovered_row now r else r) (t_speech ?d1) =
      map (\<lambda>r. if r \<in> set (row # rows) then recovered_row now r else r) (t_speech d)"
    using notin by auto
  have lease: "\<not> (sp_lease_owner row = None \<or> sp_lease_expires_at row = None)"
    using tok by (auto simp: token_of_row_Inr)
  have "recover_rows now (row # rows) n d = recover_rows now rows (n + 1) ?d1"
    unfolding recover_rows.simps if_not_P[OF lease] tok andthen_Inr Let_def fin by simp
  also have "\<dots> = Inr (d\<lparr>t_speech :=
      map (\<lambda>r. if r \<in> set (row # rows) then recovered_row now r else r) (t_speech d)\<rparr>,
      n + length (row # rows))"
    unfolding rec maps by simp
  finally show ?case .
qed simp

lemma recover_expired_eq:
  assumes "speech_inv d"
  shows "recover_expired now d =
    Inr (d\<lparr>t_speech := map (\<lambda>r. if lease_expired now r then recovered_row now r else r) (t_speech d)\<rparr>,
         rowcount (lease_expired now) (t_speech d))"
proof -
  have "distinct (map sp_request_id (filter (lease_expired now) (t_speech d)))"
    using assms by (simp add: speech_inv_def unique_key_def distinct_map_filter)
  moreover have "map (\<lambda>r. if r \<in> set (filter (lease_expired now) (t_speech d)) then recovered_row now r else r)
      (t_speech d) = map (\<lambda>r. if lease_expired now r then recovered_row now r else r) (t_speech d)"
    by (rule map_cong) auto
  ultimately show ?thesis
    unfolding recover_expired_def rowcount_def
    by (subst recover_rows_eq[OF assms]) (auto simp: lease_expired_def)
qed

lemma recover_rows_steps:
  assumes "recover_rows now rows n d = Inr (d', n')" and "speech_inv d"
  shows "speech_inv d' \<and> db_evolves d d'"
  using assms
proof (induction rows arbitrary: n d)
  case (Cons row rows)
  show ?case
  proof (cases "sp_lease_owner row = None \<or> sp_lease_expires_at row = None")
    case True
    then show ?thesis using Cons by auto
  next
    case False
    obtain token s oc x where fin: "finalize token s oc None now d = Inr x"
      and rest: "(case x of (d1, won) \<Rightarrow>
        recover_rows now rows (if won then n + 1 else n) d1) = Inr (d', n')"
      using Cons.prems(1)
      unfolding recover_rows.simps if_not_P[OF False] Let_def andthen_Inr_iff by blast
    obtain d1 b where x: "x = (d1, b)" by (cases x)
    note fin = fin[unfolded x] and rest = rest[unfolded x prod.case]
    have "speech_inv d1" and "db_evolves d d1"
      using finalize_inv[OF Cons.prems(2) fin] finalize_evolves[OF Cons.prems(2) fin] by auto
    then show ?thesis using Cons.IH rest db_evolves_trans by blast
  qed
qed simp

section \<open>Steps and reachable databases\<close>

inductive speech_step ::
  "(str \<Rightarrow> str \<Rightarrow> str) \<Rightarrow> (str \<Rightarrow> bool) \<Rightarrow> speech_repo \<Rightarrow> db \<Rightarrow> db \<Rightarrow> bool"
  for hmac uuid_ok repo where
  step_admit: "admit hmac uuid_ok repo fresh a now d = Inr (d', t) \<Longrightarrow> speech_step hmac uuid_ok repo d d'"
| step_transition: "transition t s ta now d = Inr (d', t') \<Longrightarrow> speech_step hmac uuid_ok repo d d'"
| step_dispatch: "mark_dispatching t n now d = Inr (d', t') \<Longrightarrow> speech_step hmac uuid_ok repo d d'"
| step_finalize: "finalize t s oc lat now d = Inr (d', b) \<Longrightarrow> speech_step hmac uuid_ok repo d d'"
| step_recover: "recover_expired now d = Inr (d', n) \<Longrightarrow> speech_step hmac uuid_ok repo d d'"

inductive_cases speech_stepE: "speech_step hmac uuid_ok repo d d'"

definition speech_reachable ::
  "(str \<Rightarrow> str \<Rightarrow> str) \<Rightarrow> (str \<Rightarrow> bool) \<Rightarrow> speech_repo \<Rightarrow> db \<Rightarrow> bool" where
  "speech_reachable hmac uuid_ok repo d \<longleftrightarrow>
     (\<exists>d0. t_speech d0 = [] \<and> (speech_step hmac uuid_ok repo)\<^sup>*\<^sup>* d0 d)"

lemma speech_step_inv: "speech_step hmac uuid_ok repo d d' \<Longrightarrow> speech_inv d \<Longrightarrow> speech_inv d'"
  by (erule speech_stepE)
    (auto intro: admit_inv transition_inv mark_dispatching_inv finalize_inv
      simp: recover_expired_def dest: recover_rows_steps)

lemma speech_step_evolves: "speech_step hmac uuid_ok repo d d' \<Longrightarrow> speech_inv d \<Longrightarrow> db_evolves d d'"
  by (erule speech_stepE)
    (auto intro: admit_evolves transition_evolves mark_dispatching_evolves finalize_evolves
      simp: recover_expired_def dest: recover_rows_steps)

lemma speech_inv_empty: "t_speech d = [] \<Longrightarrow> speech_inv d"
  by (simp add: speech_inv_def unique_key_def)

interpretation speech_sys: invariant_system speech_inv "speech_step hmac uuid_ok repo"
  for hmac uuid_ok repo
  by unfold_locales (blast intro: speech_step_inv)

lemma speech_reachable_inv: "speech_reachable hmac uuid_ok repo d \<Longrightarrow> speech_inv d"
  unfolding speech_reachable_def using speech_sys.steps_inv speech_inv_empty by blast

lemma speech_steps_evolve:
  assumes "(speech_step hmac uuid_ok repo)\<^sup>*\<^sup>* d d'" and "speech_inv d"
  shows "db_evolves d d'"
  using assms
  by (rule speech_sys.steps_measure[where R = db_evolves])
    (auto intro: db_evolves_trans speech_step_evolves)

section \<open>Tokens are single-use\<close>

definition speech_spent :: "speech_token \<Rightarrow> db \<Rightarrow> bool" where
  "speech_spent t d \<longleftrightarrow> (\<exists>r \<in> set (t_speech d). sp_request_id r = tk_request_id t
     \<and> tk_lease_generation t < sp_lease_generation r)"

lemma spent_cas_row:
  assumes "speech_inv d" and "speech_spent t d"
  shows "cas_row t d = None"
  using assms unique_keyD[of sp_request_id "t_speech d"]
  by (fastforce simp: cas_row_None speech_spent_def speech_inv_def cas_match_def)

lemma spent_evolves: "db_evolves d d' \<Longrightarrow> speech_spent t d \<Longrightarrow> speech_spent t d'"
  unfolding db_evolves_def speech_spent_def evolves_def by fastforce

lemma cas_update_spends:
  assumes "cas_update t f d = Inr (d', b)" and "cas_row t d = Some row"
    and "sp_request_id (f row) = sp_request_id row"
    and "sp_lease_generation (f row) = tk_lease_generation t + 1"
  shows "speech_spent t d'"
proof -
  have "row \<in> set (t_speech d)" "cas_match t row" using cas_row_SomeD[OF assms(2)] by auto
  then have "f row \<in> set (t_speech d')" and "sp_request_id row = tk_request_id t"
    by (auto simp: cas_update_Inr(1)[OF assms(1)] set_tupdate cas_match_def)
  then show ?thesis unfolding speech_spent_def using assms(3,4) by (intro bexI[of _ "f row"]) auto
qed

definition try_transition ::
  "speech_state \<Rightarrow> transition_args \<Rightarrow> datetime \<Rightarrow> speech_token \<Rightarrow> db \<Rightarrow> db option" where
  "try_transition s a now t d = (case transition t s a now d of Inl _ \<Rightarrow> None | Inr (d', _) \<Rightarrow> Some d')"

definition try_dispatch :: "int \<Rightarrow> datetime \<Rightarrow> speech_token \<Rightarrow> db \<Rightarrow> db option" where
  "try_dispatch n now t d = (case mark_dispatching t n now d of Inl _ \<Rightarrow> None | Inr (d', _) \<Rightarrow> Some d')"

definition try_finalize ::
  "speech_state \<Rightarrow> string option \<Rightarrow> int option \<Rightarrow> datetime \<Rightarrow> speech_token \<Rightarrow> db \<Rightarrow> db option" where
  "try_finalize s oc lat now t d =
     (case finalize t s oc lat now d of Inr (d', True) \<Rightarrow> Some d' | _ \<Rightarrow> None)"

lemma try_transition_Some:
  "try_transition s a now t d = Some d' \<longleftrightarrow> (\<exists>t'. transition t s a now d = Inr (d', t'))"
  by (auto simp: try_transition_def split: sum.splits prod.splits)

lemma try_dispatch_Some:
  "try_dispatch n now t d = Some d' \<longleftrightarrow> (\<exists>t'. mark_dispatching t n now d = Inr (d', t'))"
  by (auto simp: try_dispatch_def split: sum.splits prod.splits)

lemma try_finalize_Some:
  "try_finalize s oc lat now t d = Some d' \<longleftrightarrow> finalize t s oc lat now d = Inr (d', True)"
  by (auto simp: try_finalize_def split: sum.splits prod.splits bool.splits)

lemma transition_spends: "transition t s a now d = Inr (d', t') \<Longrightarrow> speech_spent t d'"
  by (erule transition_Inr, erule cas_update_spends) (auto simp: transition_values_def)

lemma dispatch_spends: "mark_dispatching t n now d = Inr (d', t') \<Longrightarrow> speech_spent t d'"
  by (erule mark_dispatching_Inr, erule cas_update_spends) (auto simp: dispatch_values_def)

lemma finalize_spends: "finalize t s oc lat now d = Inr (d', True) \<Longrightarrow> speech_spent t d'"
  by (erule finalize_Inr, simp, erule cas_update_spends) (auto simp: finalize_values_def)

lemma refused_transition: "cas_row t d = None \<Longrightarrow> try_transition s a now t d = None"
  by (simp add: try_transition_def transition_def andthen_def require_def)

lemma refused_dispatch: "cas_row t d = None \<Longrightarrow> try_dispatch n now t d = None"
  by (simp add: try_dispatch_def mark_dispatching_def)

lemma refused_finalize: "cas_row t d = None \<Longrightarrow> try_finalize s oc lat now t d = None"
  by (simp add: try_finalize_def finalize_def andthen_def require_def)

interpretation transition_fence:
  fenced_operation speech_inv "speech_step hmac uuid_ok repo" speech_spent "try_transition s a now"
  for hmac uuid_ok repo s a now
  by unfold_locales
    (auto simp: try_transition_Some intro: step_transition transition_spends refused_transition
      spent_cas_row dest: speech_step_evolves intro: spent_evolves)

interpretation dispatch_fence:
  fenced_operation speech_inv "speech_step hmac uuid_ok repo" speech_spent "try_dispatch n now"
  for hmac uuid_ok repo n now
  by unfold_locales
    (auto simp: try_dispatch_Some intro: step_dispatch dispatch_spends refused_dispatch
      spent_cas_row dest: speech_step_evolves intro: spent_evolves)

interpretation finalize_fence:
  fenced_operation speech_inv "speech_step hmac uuid_ok repo" speech_spent "try_finalize s oc lat now"
  for hmac uuid_ok repo s oc lat now
  by unfold_locales
    (auto simp: try_finalize_Some intro: step_finalize finalize_spends refused_finalize
      spent_cas_row dest: speech_step_evolves intro: spent_evolves)

section \<open>Duplicates and quotas\<close>

lemma find_duplicate_None:
  "find_duplicate hmac keys own sid ik d = None \<longleftrightarrow>
     (\<forall>(v, k) \<in> set keys. \<forall>r \<in> set (t_speech d).
        \<not> (sp_owner_user_id r = own \<and> sp_session_id r = sid \<and> sp_hmac_key_version r = v
           \<and> sp_idempotency_key_hash r = hmac k ik))"
  by (induction keys) (auto simp: find_None_iff split: option.splits)

lemma find_duplicate_SomeD:
  "find_duplicate hmac keys own sid ik d = Some r \<Longrightarrow> r \<in> set (t_speech d)"
  by (induction keys) (auto dest: find_SomeD split: option.splits)

lemma admit_duplicate_found:
  assumes adm: "admit hmac uuid_ok repo fresh a now d = Inr (d1, t)"
    and ev: "db_evolves d1 d2"
    and same: "ad_owner_user_id b = ad_owner_user_id a" "ad_session_id b = ad_session_id a"
      "ad_idempotency_key b = ad_idempotency_key a"
  shows "\<exists>r \<in> set (t_speech d2). find_duplicate hmac (sc_keys repo) (ad_owner_user_id b)
    (ad_session_id b) (ad_idempotency_key b) d2 = Some r"
proof -
  obtain v k row where v: "map_of (sc_keys repo) v = Some k"
    and row: "row = admitted_row hmac v k fresh a now" and ins: "insert_speech row d = Inr d1"
    using adm by (rule admit_Inr)
  have "row \<in> set (t_speech d1)" by (simp add: insert_speech_Inr(1)[OF ins])
  then obtain r' where r': "r' \<in> set (t_speech d2)" "evolves row r'"
    using ev unfolding db_evolves_def by blast
  have "sp_owner_user_id r' = ad_owner_user_id a" "sp_session_id r' = ad_session_id a"
    "sp_hmac_key_version r' = v" "sp_idempotency_key_hash r' = hmac k (ad_idempotency_key a)"
    using r'(2) by (simp_all add: evolves_def row admitted_row_def)
  then have "find_duplicate hmac (sc_keys repo) (ad_owner_user_id b) (ad_session_id b)
      (ad_idempotency_key b) d2 \<noteq> None"
    using r'(1) map_of_SomeD[OF v] by (auto simp: find_duplicate_None same simp del: not_None_eq)
  then show ?thesis using find_duplicate_SomeD by fastforce
qed

lemma admit_duplicate_refused:
  assumes adm: "admit hmac uuid_ok repo fresh a now d = Inr (d1, t)"
    and ev: "db_evolves d1 d2"
    and same: "ad_owner_user_id b = ad_owner_user_id a" "ad_session_id b = ad_session_id a"
      "ad_idempotency_key b = ad_idempotency_key a"
  shows "\<exists>e. admit hmac uuid_ok repo fresh' b now' d2 = Inl e"
proof (rule ccontr)
  assume "\<not> ?thesis"
  then obtain d3 t3 where "admit hmac uuid_ok repo fresh' b now' d2 = Inr (d3, t3)"
    by (metis sum.exhaust surj_pair)
  then have "find_duplicate hmac (sc_keys repo) (ad_owner_user_id b) (ad_session_id b)
      (ad_idempotency_key b) d2 = None"
    by (rule admit_Inr)
  then show False using admit_duplicate_found[OF adm ev same] by force
qed

lemma cas_update_count:
  assumes "cas_update t f d = Inr (d', b)" and "\<And>r. sp_session_id (f r) = sp_session_id r"
  shows "session_request_count i d' = session_request_count i d"
  by (simp add: cas_update_Inr(1)[OF assms(1)] session_request_count_def rowcount_tupdate assms(2))

lemma finalize_count:
  assumes "finalize t s oc lat now d = Inr (d', b)"
  shows "session_request_count i d' = session_request_count i d"
  using assms
  by (cases rule: finalize_Inr) (auto simp: finalize_values_def dest: cas_update_count[where i = i])

lemma transition_count:
  "transition t s ta now d = Inr (d', t') \<Longrightarrow> session_request_count i d' = session_request_count i d"
  by (erule transition_Inr, erule cas_update_count) (simp add: transition_values_def)

lemma dispatch_count:
  "mark_dispatching t n now d = Inr (d', t') \<Longrightarrow> session_request_count i d' = session_request_count i d"
  by (erule mark_dispatching_Inr, erule cas_update_count) (simp add: dispatch_values_def)

lemma recover_count:
  assumes "speech_inv d" and "recover_expired now d = Inr (d', n)"
  shows "session_request_count i d' = session_request_count i d"
proof -
  have "d' = d\<lparr>t_speech := tupdate (lease_expired now) (recovered_row now) (t_speech d)\<rparr>"
    using assms(2) by (simp add: recover_expired_eq[OF assms(1)] tupdate_def)
  then show ?thesis by (simp add: session_request_count_def rowcount_tupdate recovered_row_def)
qed

lemma admit_count_le:
  assumes "admit hmac uuid_ok repo fresh a now d = Inr (d', t)"
    and "session_request_count i d \<le> sc_max_session_requests repo"
  shows "session_request_count i d' \<le> sc_max_session_requests repo"
  using assms(1)
proof (rule admit_Inr)
  fix v k row
  assume row: "row = admitted_row hmac v k fresh a now" and ins: "insert_speech row d = Inr d'"
    and q: "session_request_count (ad_session_id a) d < sc_max_session_requests repo"
  show ?thesis
    using q assms(2)
    by (auto simp: insert_speech_Inr(1)[OF ins] session_request_count_def rowcount_append1 row
        admitted_row_def)
qed

lemma speech_step_count:
  "speech_step hmac uuid_ok repo d d' \<Longrightarrow> speech_inv d \<Longrightarrow>
   session_request_count i d \<le> sc_max_session_requests repo \<Longrightarrow>
   session_request_count i d' \<le> sc_max_session_requests repo"
  by (erule speech_stepE)
    (simp_all add: transition_count dispatch_count finalize_count recover_count admit_count_le)

section \<open>A sample run\<close>

definition sample_hmac :: "str \<Rightarrow> str \<Rightarrow> str" where
  "sample_hmac key message = replicate 64 97"

definition sample_repo :: speech_repo where
  "sample_repo = \<lparr>sc_active_version = Some (lit ''v1''), sc_keys = [(lit ''v1'', lit ''secret'')],
     sc_max_session_requests = 20, sc_max_owner_hour_requests = 30\<rparr>"

definition sample_db :: db where
  "sample_db = empty_db\<lparr>t_sessions := [sample_session]\<rparr>"

definition sample_admit :: admit_args where
  "sample_admit = \<lparr>ad_owner_user_id = lit ''u1'', ad_session_id = lit ''s1'',
     ad_idempotency_key = lit ''k1'', ad_request_fingerprint = None,
     ad_lease_owner = lit ''worker'', ad_lease_seconds = 120\<rparr>"

definition no_metadata :: transition_args where
  "no_metadata = \<lparr>ta_media_type = None, ta_byte_size = None, ta_duration_ms = None,
     ta_request_fingerprint = None, ta_lease_seconds = 120\<rparr>"

definition scan_metadata :: transition_args where
  "scan_metadata = no_metadata\<lparr>ta_byte_size := Some 1000,
     ta_request_fingerprint := Some (replicate 64 97)\<rparr>"

definition sample_token :: "int \<Rightarrow> datetime \<Rightarrow> speech_token" where
  "sample_token generation start = \<lparr>tk_request_id = lit ''r1'', tk_owner_user_id = lit ''u1'',
     tk_session_id = lit ''s1'', tk_lease_owner = lit ''worker'',
     tk_lease_generation = generation, tk_lease_expires_at = start + seconds 120\<rparr>"

definition sample_row1 :: speech_row where
  "sample_row1 = admitted_row sample_hmac (lit ''v1'') (lit ''secret'') (lit ''r1'') sample_admit 0"

definition sample_row2 :: speech_row where
  "sample_row2 = transition_values (sample_token 1 0) Uploading no_metadata 1 sample_row1"

definition sample_row3 :: speech_row where
  "sample_row3 = transition_values (sample_token 2 1) Scanning scan_metadata 2 sample_row2"

definition sample_row4 :: speech_row where
  "sample_row4 = transition_values (sample_token 3 2) Inspecting no_metadata 3 sample_row3"

definition sample_row5 :: speech_row where
  "sample_row5 = dispatch_values (sample_token 4 3) 120 4 sample_row4"

definition sample_row6 :: speech_row where
  "sample_row6 = finalize_values (sample_token 5 4) Succeeded None (Some 900) 5 sample_row5"

definition sample_with :: "speech_row \<Rightarrow> db" where
  "sample_with r = sample_db\<lparr>t_speech := [r]\<rparr>"

lemma sample_admitted:
  "admit sample_hmac (\<lambda>_. True) sample_repo (lit ''r1'') sample_admit 0 sample_db =
     Inr (sample_with sample_row1, sample_token 1 0)"
  by code_simp

lemma sample_uploading:
  "transition (sample_token 1 0) Uploading no_metadata 1 (sample_with sample_row1) =
     Inr (sample_with sample_row2, sample_token 2 1)"
  by code_simp

lemma sample_scanning:
  "transition (sample_token 2 1) Scanning scan_metadata 2 (sample_with sample_row2) =
     Inr (sample_with sample_row3, sample_token 3 2)"
  by code_simp

lemma sample_inspecting:
  "transition (sample_token 3 2) Inspecting no_metadata 3 (sample_with sample_row3) =
     Inr (sample_with sample_row4, sample_token 4 3)"
  by code_simp

lemma sample_dispatching:
  "mark_dispatching (sample_token 4 3) 120 4 (sample_with sample_row4) =
     Inr (sample_with sample_row5, sample_token 5 4)"
  by code_simp

lemma sample_succeeded:
  "finalize (sample_token 5 4) Succeeded None (Some 900) 5 (sample_with sample_row5) =
     Inr (sample_with sample_row6, True)"
  by code_simp

lemmas sample_steps =
  step_admit[OF sample_admitted] step_transition[OF sample_uploading]
  step_transition[OF sample_scanning] step_transition[OF sample_inspecting]
  step_dispatch[OF sample_dispatching] step_finalize[OF sample_succeeded]

lemma sample_empty: "t_speech sample_db = []"
  by (simp add: sample_db_def empty_db_def)

lemma reachable_step:
  "speech_reachable hmac uuid_ok repo d \<Longrightarrow> speech_step hmac uuid_ok repo d d' \<Longrightarrow>
   speech_reachable hmac uuid_ok repo d'"
  unfolding speech_reachable_def by (meson rtranclp.rtrancl_into_rtrancl)

lemma reachable_steps:
  assumes "(speech_step hmac uuid_ok repo)\<^sup>*\<^sup>* d d'" and "speech_reachable hmac uuid_ok repo d"
  shows "speech_reachable hmac uuid_ok repo d'"
  using assms by (induction rule: rtranclp_induct) (auto intro: reachable_step)

lemma sample_reachable0: "speech_reachable sample_hmac (\<lambda>_. True) sample_repo sample_db"
  unfolding speech_reachable_def using sample_empty by blast

lemmas sample_reachable1 = reachable_step[OF sample_reachable0 sample_steps(1)]
lemmas sample_reachable2 = reachable_step[OF sample_reachable1 sample_steps(2)]
lemmas sample_reachable3 = reachable_step[OF sample_reachable2 sample_steps(3)]
lemmas sample_reachable4 = reachable_step[OF sample_reachable3 sample_steps(4)]
lemmas sample_reachable5 = reachable_step[OF sample_reachable4 sample_steps(5)]

lemma sample_rest:
  "(speech_step sample_hmac (\<lambda>_. True) sample_repo)\<^sup>*\<^sup>* (sample_with sample_row5) (sample_with sample_row6)"
  "(speech_step sample_hmac (\<lambda>_. True) sample_repo)\<^sup>*\<^sup>* (sample_with sample_row2) (sample_with sample_row4)"
  "(speech_step sample_hmac (\<lambda>_. True) sample_repo)\<^sup>*\<^sup>* (sample_with sample_row1) (sample_with sample_row3)"
  using sample_steps(2-6)[of sample_hmac "\<lambda>_. True" sample_repo]
  by (meson converse_rtranclp_into_rtranclp rtranclp.rtrancl_refl)+

section \<open>Properties\<close>

text \<open>
  C6. In every database the repository can produce from an empty request table, each row satisfies
  all CHECK constraints, has a bounded outcome code exactly when it ended without success, owns a
  lease exactly while its state is active, was dispatched exactly when its one provider attempt was
  spent, and is the only row with its request id.
\<close>

theorem reachable_rows_ok:
  assumes "speech_reachable hmac uuid_ok repo d" and "r \<in> set (t_speech d)"
  shows "checks_ok (speech_checks r)
    \<and> (sp_state r \<in> {Failed_Terminal, Cancelled, Ambiguous} \<longleftrightarrow> sp_outcome_code r \<noteq> None)
    \<and> (\<forall>c. sp_outcome_code r = Some c \<longrightarrow> c \<in> set speech_outcome_codes)
    \<and> (sp_state r \<in> set active_speech_states \<longleftrightarrow> sp_lease_owner r \<noteq> None)
    \<and> (sp_provider_dispatched_at r \<noteq> None \<longleftrightarrow> sp_provider_attempts r = 1)
    \<and> (\<forall>q \<in> set (t_speech d). sp_request_id q = sp_request_id r \<longrightarrow> q = r)"
proof -
  note inv = speech_reachable_inv[OF assms(1)]
  note ok = speech_invD[OF inv assms(2)]
  have c: "checks_ok (speech_checks r)" and b: "outcome_bound r"
    using ok by (simp_all add: speech_row_ok_def)
  have "sql_check (outcome_matrix r)" using c by (simp add: speech_checks_def)
  then have "sp_state r \<in> {Failed_Terminal, Cancelled, Ambiguous} \<longleftrightarrow> sp_outcome_code r \<noteq> None"
    and "\<forall>c. sp_outcome_code r = Some c \<longrightarrow> c \<in> set speech_outcome_codes"
    using b by (cases "sp_state r"; auto simp: outcome_matrix_check outcome_bound_def
        active_speech_states_def)+
  then show ?thesis
    using c speech_row_lease(1)[OF ok] speech_row_dispatch(1)[OF ok] inv assms(2)
      unique_keyD[of sp_request_id "t_speech d" _ r]
    by (auto simp: speech_inv_def)
qed

lemma reachable_rows_ok_witness: "checks_ok (speech_checks sample_row5)"
  using reachable_rows_ok[OF sample_reachable5, of sample_row5] by (simp add: sample_with_def)

text \<open>
  C7. Whatever sequence of repository operations follows, a request row is never deleted and only
  evolves: its identity columns are kept, its state moves along the edges of the state graph, its
  lease generation never decreases and is increased by every change, a bound fingerprint and a
  recorded dispatch time are never rewritten, and a row in a terminal state never changes again.
\<close>

theorem request_history:
  assumes "speech_reachable hmac uuid_ok repo d" and "(speech_step hmac uuid_ok repo)\<^sup>*\<^sup>* d d'"
    and "r \<in> set (t_speech d)"
  shows "\<exists>r' \<in> set (t_speech d').
     sp_request_id r' = sp_request_id r \<and> sp_owner_user_id r' = sp_owner_user_id r \<and>
     sp_session_id r' = sp_session_id r \<and> sp_idempotency_key_hash r' = sp_idempotency_key_hash r \<and>
     speech_next\<^sup>*\<^sup>* (sp_state r) (sp_state r') \<and>
     sp_lease_generation r \<le> sp_lease_generation r' \<and>
     (sp_lease_generation r = sp_lease_generation r' \<longrightarrow> r' = r) \<and>
     (sp_state r \<in> set terminal_speech_states \<longrightarrow> r' = r) \<and>
     (sp_provider_dispatched_at r \<noteq> None \<longrightarrow>
        sp_provider_dispatched_at r' = sp_provider_dispatched_at r) \<and>
     (sp_request_fingerprint r \<noteq> None \<longrightarrow> sp_request_fingerprint r' = sp_request_fingerprint r)"
  using speech_steps_evolve[OF assms(2) speech_reachable_inv[OF assms(1)]] assms(3)
  unfolding db_evolves_def evolves_def by blast

lemma request_history_witness: "sp_provider_dispatched_at sample_row6 = Some 4"
proof -
  have "sample_row5 \<in> set (t_speech (sample_with sample_row5))" by (simp add: sample_with_def)
  from request_history[OF sample_reachable5 sample_rest(1) this] show ?thesis
    by (simp add: sample_with_def sample_row5_def dispatch_values_def)
qed

text \<open>
  C8. The provider is dispatched at most once per request: after one successful
  \<open>mark_dispatching\<close>, whatever operations follow, \<open>mark_dispatching\<close> is refused with every
  token of that request, and the row keeps the first dispatch time and exactly one attempt.
\<close>

theorem dispatched_at_most_once:
  assumes "speech_reachable hmac uuid_ok repo d"
    and first: "mark_dispatching token n now d = Inr (d1, token1)"
    and "(speech_step hmac uuid_ok repo)\<^sup>*\<^sup>* d1 d2"
    and same: "tk_request_id other = tk_request_id token"
  shows "mark_dispatching other m later d2 =
           Inl (SpeechLeaseStateError ''only inspected audio may be dispatched'')
       \<and> (\<exists>r \<in> set (t_speech d2). sp_request_id r = tk_request_id token
            \<and> sp_provider_dispatched_at r = Some now \<and> sp_provider_attempts r = 1)"
  using first
proof (rule mark_dispatching_Inr)
  fix row
  assume row: "cas_row token d = Some row"
    and u: "cas_update token (dispatch_values token n now) d = Inr (d1, True)"
  let ?row1 = "dispatch_values token n now row"
  have reach1: "speech_reachable hmac uuid_ok repo d1"
    using assms(1) step_dispatch[OF first] by (rule reachable_step)
  have id: "sp_request_id row = tk_request_id token" and "?row1 \<in> set (t_speech d1)"
    using cas_row_SomeD[OF row] by (auto simp: cas_update_Inr(1)[OF u] set_tupdate cas_match_def)
  then obtain r where r: "r \<in> set (t_speech d2)" "evolves ?row1 r"
    using speech_steps_evolve[OF assms(3) speech_reachable_inv[OF reach1]]
    unfolding db_evolves_def by blast
  have inv2: "speech_inv d2"
    using reachable_steps[OF assms(3) reach1] by (rule speech_reachable_inv)
  have facts: "sp_request_id r = tk_request_id token" "sp_provider_dispatched_at r = Some now"
    using r(2) id by (simp_all add: evolves_def dispatch_values_def)
  then have "sp_provider_attempts r = 1" and ni: "sp_state r \<noteq> Inspecting"
    using speech_row_dispatch(1,2)[OF speech_invD[OF inv2 r(1)]] by auto
  moreover have "cas_row other d2 = Some q \<Longrightarrow> sp_state q \<noteq> Inspecting" for q
    using cas_row_SomeD[of other d2 q] unique_keyD[of sp_request_id "t_speech d2" q r] inv2 r(1)
      facts(1) same ni
    by (auto simp: speech_inv_def cas_match_def)
  ultimately show ?thesis
    using r(1) facts
    by (auto simp: mark_dispatching_def andthen_Inl_iff require_def split: option.splits)
qed

lemma dispatched_at_most_once_witness:
  "mark_dispatching (sample_token 6 5) 120 6 (sample_with sample_row6) =
     Inl (SpeechLeaseStateError ''only inspected audio may be dispatched'')"
  using dispatched_at_most_once[OF sample_reachable4 sample_dispatching sample_rest(1),
      of "sample_token 6 5" 120 6]
  by (simp add: sample_token_def)

text \<open>
  C9. \<open>recover_expired\<close> always succeeds and is complete: it reports exactly the number of active
  requests whose lease has run out, none is left, each of them ends ambiguous if it had been
  dispatched and failed otherwise, with the matching outcome code, and every other row is untouched.
\<close>

theorem recovery_complete:
  assumes "speech_reachable hmac uuid_ok repo d"
  shows "\<exists>d'. recover_expired now d = Inr (d', rowcount (lease_expired now) (t_speech d))
    \<and> (\<forall>r \<in> set (t_speech d'). \<not> lease_expired now r)
    \<and> (\<forall>r \<in> set (t_speech d).
         if lease_expired now r
         then (\<exists>r' \<in> set (t_speech d'). sp_request_id r' = sp_request_id r
                \<and> sp_completed_at r' = Some now
                \<and> (if sp_provider_dispatched_at r \<noteq> None
                   then sp_state r' = Ambiguous
                     \<and> sp_outcome_code r' = Some ''lease_expired_post_dispatch''
                   else sp_state r' = Failed_Terminal
                     \<and> sp_outcome_code r' = Some ''lease_expired_pre_dispatch''))
         else r \<in> set (t_speech d'))"
proof -
  let ?f = "\<lambda>r. if lease_expired now r then recovered_row now r else r"
  let ?d = "d\<lparr>t_speech := map ?f (t_speech d)\<rparr>"
  have "\<not> lease_expired now (recovered_row now r)" for r
    by (simp add: lease_expired_def recovered_row_def)
  then have none: "\<forall>r \<in> set (t_speech ?d). \<not> lease_expired now r" by auto
  have mem: "?f r \<in> set (t_speech ?d)" if "r \<in> set (t_speech d)" for r using that by simp
  have "if lease_expired now r
      then \<exists>r' \<in> set (t_speech ?d). sp_request_id r' = sp_request_id r
        \<and> sp_completed_at r' = Some now
        \<and> (if sp_provider_dispatched_at r \<noteq> None
           then sp_state r' = Ambiguous \<and> sp_outcome_code r' = Some ''lease_expired_post_dispatch''
           else sp_state r' = Failed_Terminal \<and> sp_outcome_code r' = Some ''lease_expired_pre_dispatch'')
      else r \<in> set (t_speech ?d)" if r: "r \<in> set (t_speech d)" for r
  proof (cases "lease_expired now r")
    case True
    then show ?thesis
      using mem[OF r] by (simp only: if_True, intro bexI[of _ "recovered_row now r"])
        (simp_all add: recovered_row_def)
  qed (use mem[OF r] in simp)
  then show ?thesis
    using none recover_expired_eq[OF speech_reachable_inv[OF assms], of now] by blast
qed

lemma recovery_complete_witness:
  "\<exists>d'. recover_expired (seconds 500) (sample_with sample_row5) =
     Inr (d', rowcount (lease_expired (seconds 500)) [sample_row5])"
  using recovery_complete[OF sample_reachable5, of "seconds 500"] by (auto simp: sample_with_def)

text \<open>
  C11. A lease token is single-use: once a transition, a dispatch or an applied finalisation has
  consumed it, no operation accepts it again, in any later state of the table. A stale
  \<open>finalize\<close> changes nothing.
\<close>

theorem token_single_use:
  assumes "speech_reachable hmac uuid_ok repo d"
    and "(\<exists>s a now t'. transition t s a now d = Inr (d1, t'))
       \<or> (\<exists>n now t'. mark_dispatching t n now d = Inr (d1, t'))
       \<or> (\<exists>s oc lat now. finalize t s oc lat now d = Inr (d1, True))"
    and "(speech_step hmac uuid_ok repo)\<^sup>*\<^sup>* d1 d2"
  shows "(\<forall>s a now. \<exists>e. transition t s a now d2 = Inl e)
       \<and> (\<forall>n now. \<exists>e. mark_dispatching t n now d2 = Inl e)
       \<and> (\<forall>s oc lat now. s \<in> set terminal_speech_states \<longrightarrow> finalize t s oc lat now d2 = Inr (d2, False))"
proof -
  have "speech_spent t d1" and "speech_step hmac uuid_ok repo d d1"
    using assms(2) transition_spends dispatch_spends finalize_spends
      step_transition step_dispatch step_finalize by metis+
  note spent = this(1) and inv1 = speech_step_inv[OF this(2) speech_reachable_inv[OF assms(1)]]
  have "cas_row t d2 = None"
    using finalize_fence.spent_stable_steps[OF assms(3) inv1 spent]
      speech_sys.steps_inv[OF assms(3) inv1] spent_cas_row by blast
  then show ?thesis
    by (auto simp: transition_def mark_dispatching_def finalize_def andthen_def require_def)
qed

lemma token_single_use_witness:
  "\<exists>e. mark_dispatching (sample_token 1 0) 120 9 (sample_with sample_row4) = Inl e"
  using token_single_use[OF sample_reachable1 _ sample_rest(2)] sample_uploading by blast

text \<open>
  Admission is idempotent per owner, session and key: once a key has been admitted, every later
  admission with the same key is refused, whatever its other arguments and whatever happened to the
  request, as long as the keyring keeps the key that hashed it; well-formed duplicates are answered
  from the stored row.
\<close>

theorem admit_idempotent:
  assumes "speech_reachable hmac uuid_ok repo d" and "admit hmac uuid_ok repo fresh a now d = Inr (d1, t)"
    and "(speech_step hmac uuid_ok repo)\<^sup>*\<^sup>* d1 d2"
    and "ad_owner_user_id b = ad_owner_user_id a" "ad_session_id b = ad_session_id a"
      "ad_idempotency_key b = ad_idempotency_key a"
  shows "(\<exists>e. admit hmac uuid_ok repo fresh' b now' d2 = Inl e)
       \<and> (\<exists>r \<in> set (t_speech d2).
            find_duplicate hmac (sc_keys repo) (ad_owner_user_id b) (ad_session_id b)
              (ad_idempotency_key b) d2 = Some r)"
proof -
  have reach1: "speech_reachable hmac uuid_ok repo d1"
    using assms(1) step_admit[OF assms(2)] by (rule reachable_step)
  have ev: "db_evolves d1 d2"
    using speech_steps_evolve[OF assms(3) speech_reachable_inv[OF reach1]] .
  show ?thesis
    using admit_duplicate_refused[OF assms(2) ev assms(4-6)]
      admit_duplicate_found[OF assms(2) ev assms(4-6)] by blast
qed

lemma admit_idempotent_witness:
  "\<exists>e. admit sample_hmac (\<lambda>_. True) sample_repo (lit ''r2'') sample_admit 7 (sample_with sample_row3) = Inl e"
  using admit_idempotent[OF sample_reachable0 sample_admitted sample_rest(3) refl refl refl] by blast

text \<open>
  C12. The lifetime quota of a session holds in every reachable database: no sequence of operations
  leaves a session with more request rows than \<open>max_session_requests\<close>.
\<close>

theorem session_quota_invariant:
  assumes "speech_reachable hmac uuid_ok repo d"
  shows "session_request_count session_id d \<le> sc_max_session_requests repo"
proof -
  obtain d0 where d0: "t_speech d0 = []" "(speech_step hmac uuid_ok repo)\<^sup>*\<^sup>* d0 d"
    using assms unfolding speech_reachable_def by blast
  let ?inv = "\<lambda>d. session_request_count session_id d \<le> sc_max_session_requests repo"
  have "speech_inv d \<and> ?inv d"
    using d0(2)
  proof (induction rule: rtranclp_induct)
    case base
    show ?case using d0(1) speech_inv_empty by (simp add: session_request_count_def rowcount_def)
  next
    case (step x y)
    then show ?case using speech_step_inv[OF step(2)] speech_step_count[OF step(2)] by blast
  qed
  then show ?thesis ..
qed

lemma session_quota_invariant_witness:
  "session_request_count (lit ''s1'') (sample_with sample_row5) \<le> 20"
  using session_quota_invariant[OF sample_reachable5] by (simp add: sample_repo_def)

text \<open>No CHECK constraint is ever tripped by a guarded operation: on a reachable database a
  \<open>mark_dispatching\<close> or a \<open>finalize\<close> with a non-negative latency never ends in an
  \<open>IntegrityError\<close>, nor does a \<open>transition\<close> with positive sizes.
\<close>

theorem guards_imply_constraints:
  assumes "speech_reachable hmac uuid_ok repo d"
    and "\<And>n. lat = Some n \<Longrightarrow> 0 \<le> n"
    and "\<And>n. ta_byte_size a = Some n \<Longrightarrow> 0 < n" and "\<And>n. ta_duration_ms a = Some n \<Longrightarrow> 0 < n"
  shows "mark_dispatching t n now d \<noteq> Inl (IntegrityError m)
       \<and> finalize t s oc lat now d \<noteq> Inl (IntegrityError m)
       \<and> transition t s' a now d \<noteq> Inl (IntegrityError m)"
  using speech_reachable_inv[OF assms(1)] assms(2-4)
  by (intro conjI) (blast dest: dispatch_no_integrity finalize_no_integrity transition_no_integrity)+

lemma guards_imply_constraints_witness:
  "finalize (sample_token 5 4) Succeeded None (Some 900) 5 (sample_with sample_row5)
     \<noteq> Inl (IntegrityError ''CHECK constraint failed'')"
  using guards_imply_constraints[OF sample_reachable5, of "Some 900" no_metadata] by (simp add: no_metadata_def)

text \<open>The outcome constraint of the table is weaker than the repository's own rule: a row that ended
  failed, cancelled or ambiguous with a NULL \<open>outcome_code\<close> passes the CHECK, since the
  membership test is then NULL, while \<open>finalize\<close> refuses to write it.
\<close>

theorem null_outcome_admitted_by_check:
  assumes "sp_state r \<in> {Failed_Terminal, Cancelled, Ambiguous}" and "sp_outcome_code r = None"
  shows "sql_check (outcome_matrix r)
       \<and> (\<exists>e. finalize_guard dispatched (sp_state r) (sp_outcome_code r) latency = Inl e)"
  using assms
  by (cases "sp_state r")
    (auto simp: outcome_matrix_check active_speech_states_def finalize_guard_def require_def andthen_def)

lemma null_outcome_admitted_by_check_witness:
  "sql_check (outcome_matrix (sample_row5\<lparr>sp_state := Ambiguous\<rparr>))"
proof -
  have "sp_outcome_code sample_row5 = None"
    by (simp add: sample_row5_def sample_row4_def sample_row3_def sample_row2_def sample_row1_def
        dispatch_values_def transition_values_def admitted_row_def)
  then show ?thesis
    using null_outcome_admitted_by_check[of "sample_row5\<lparr>sp_state := Ambiguous\<rparr>"] by simp
qed

end
