(* ===== verification/ResourceSlots.thy ===== *)
theory ResourceSlots
  imports Schema Interfaces
begin

text \<open>
  The shared scanner and recogniser slots: \<open>SqlResourceSlotRepository\<close> of
  \<^verbatim>\<open>persistence/repositories.py\<close>, and its users in \<^verbatim>\<open>media_application.py\<close>
  (\<open>ResourceSlotController\<close>, \<open>SlotBoundMalwareScanner\<close>) with the upload's cancellation gate.
  A slot is leased until a time; its lease generation grows with every claim, and a lease is given
  back only by its owner token and generation. The fresh tokens and the clocks are parameters.
\<close>

section \<open>The repository\<close>

record slot_lease =
  lz_resource_kind :: resource_kind
  lz_slot_number :: nat
  lz_owner_token :: str
  lz_generation :: int

definition resource_kind_of :: "string \<Rightarrow> exc + resource_kind" where
  "resource_kind_of s =
     (if s = ''scan'' then Inr Scan_Kind else if s = ''asr'' then Inr Asr_Kind
      else Inl (ValueError ''resource kind must be scan or asr''))"

definition work_kind_of :: "string \<Rightarrow> work_kind option" where
  "work_kind_of s =
     (if s = ''image'' then Some Image_Work else if s = ''speech'' then Some Speech_Work else None)"

definition slot_key :: "slot_row \<Rightarrow> resource_kind \<times> nat" where
  "slot_key r = (sl_resource_kind r, sl_slot_number r)"

definition flush_slots :: "slot_row list \<Rightarrow> db \<Rightarrow> exc + db" where
  "flush_slots rows d =
     (if list_all (\<lambda>r. checks_ok (slot_checks r)) rows then Inr (d\<lparr>t_slots := rows\<rparr>)
      else Inl (IntegrityError ''CHECK constraint failed''))"

definition new_slot :: "resource_kind \<Rightarrow> int \<Rightarrow> nat \<Rightarrow> slot_row" where
  "new_slot kind config_generation n =
     \<lparr>sl_resource_kind = kind, sl_slot_number = n, sl_lease_owner_token = None,
      sl_work_kind = None, sl_work_id = None, sl_config_generation = config_generation,
      sl_enabled = True, sl_lease_generation = 0, sl_lease_expires_at = None\<rparr>"

definition reconciled_row :: "int \<Rightarrow> int \<Rightarrow> slot_row \<Rightarrow> slot_row" where
  "reconciled_row configured_count config_generation r =
     r\<lparr>sl_enabled := int (sl_slot_number r) < configured_count,
       sl_config_generation := config_generation\<rparr>"

definition missing_slots :: "resource_kind \<Rightarrow> int \<Rightarrow> slot_row list \<Rightarrow> nat list" where
  "missing_slots kind configured_count rows =
     filter (\<lambda>n. (kind, n) \<notin> slot_key ` set rows) [0..<nat configured_count]"

definition reconcile :: "string \<Rightarrow> int \<Rightarrow> int \<Rightarrow> db \<Rightarrow> exc + db" where
  "reconcile resource_kind configured_count config_generation d =
     andthen (resource_kind_of resource_kind) (\<lambda>kind.
     andthen (require (0 \<le> configured_count \<and> 0 < config_generation)
       (ValueError ''resource slot configuration is invalid'')) (\<lambda>_.
     flush_slots
       (tupdate (\<lambda>r. sl_resource_kind r = kind) (reconciled_row configured_count config_generation)
          (t_slots d)
        @ map (new_slot kind config_generation) (missing_slots kind configured_count (t_slots d))) d))"

definition cleared :: "slot_row \<Rightarrow> slot_row" where
  "cleared r = r\<lparr>sl_lease_owner_token := None, sl_work_kind := None, sl_work_id := None,
     sl_lease_expires_at := None\<rparr>"

definition slot_expired :: "datetime \<Rightarrow> slot_row \<Rightarrow> bool" where
  "slot_expired now r \<longleftrightarrow> sl_lease_owner_token r \<noteq> None \<and>
     (case sl_lease_expires_at r of None \<Rightarrow> False | Some e \<Rightarrow> e \<le> now)"

definition expire_slots :: "resource_kind \<Rightarrow> datetime \<Rightarrow> slot_row list \<Rightarrow> slot_row list" where
  "expire_slots kind now rows =
     tupdate (\<lambda>r. sl_resource_kind r = kind \<and> slot_expired now r) cleared rows"

definition slot_free :: "resource_kind \<Rightarrow> slot_row \<Rightarrow> bool" where
  "slot_free kind r \<longleftrightarrow> sl_resource_kind r = kind \<and> sl_enabled r \<and> sl_lease_owner_token r = None"

definition first_free :: "resource_kind \<Rightarrow> slot_row list \<Rightarrow> slot_row option" where
  "first_free kind rows =
     (case sort_key sl_slot_number (filter (slot_free kind) rows) of [] \<Rightarrow> None | r # _ \<Rightarrow> Some r)"

definition claimed_row :: "str \<Rightarrow> work_kind \<Rightarrow> str \<Rightarrow> datetime \<Rightarrow> slot_row \<Rightarrow> slot_row" where
  "claimed_row token kind work_id expires r =
     r\<lparr>sl_lease_owner_token := Some token, sl_work_kind := Some kind, sl_work_id := Some work_id,
       sl_lease_generation := sl_lease_generation r + 1, sl_lease_expires_at := Some expires\<rparr>"

definition lease_of :: "str \<Rightarrow> slot_row \<Rightarrow> slot_lease" where
  "lease_of token r = \<lparr>lz_resource_kind = sl_resource_kind r, lz_slot_number = sl_slot_number r,
     lz_owner_token = token, lz_generation = sl_lease_generation r + 1\<rparr>"

definition claim ::
  "string \<Rightarrow> string \<Rightarrow> str \<Rightarrow> int \<Rightarrow> str \<Rightarrow> datetime \<Rightarrow> db \<Rightarrow> exc + db \<times> slot_lease option" where
  "claim resource_kind work_kind work_id lease_seconds token now d =
     andthen (resource_kind_of resource_kind) (\<lambda>kind.
     case work_kind_of work_kind of
       None \<Rightarrow> Inl (ValueError ''resource slot work metadata is invalid'')
     | Some work \<Rightarrow>
       andthen (require (work_id \<noteq> [] \<and> 0 < lease_seconds)
         (ValueError ''resource slot work metadata is invalid'')) (\<lambda>_.
       let rows = expire_slots kind now (t_slots d)
       in case first_free kind rows of
            None \<Rightarrow> andthen (flush_slots rows d) (\<lambda>d'. Inr (d', None))
          | Some r \<Rightarrow>
            andthen (flush_slots
              (tupdate (\<lambda>x. slot_key x = slot_key r)
                 (claimed_row token work work_id (now + lease_seconds * 1000000)) rows) d)
            (\<lambda>d'. Inr (d', Some (lease_of token r)))))"

definition lease_match :: "slot_lease \<Rightarrow> slot_row \<Rightarrow> bool" where
  "lease_match lease r \<longleftrightarrow> slot_key r = (lz_resource_kind lease, lz_slot_number lease)
     \<and> sl_lease_owner_token r = Some (lz_owner_token lease)
     \<and> sl_lease_generation r = lz_generation lease"

definition release :: "slot_lease \<Rightarrow> db \<Rightarrow> db \<times> bool" where
  "release lease d =
     (d\<lparr>t_slots := tupdate (lease_match lease) cleared (t_slots d)\<rparr>,
      rowcount (lease_match lease) (t_slots d) = 1)"

section \<open>The invariant of the slots\<close>

definition slot_inv :: "db \<Rightarrow> bool" where
  "slot_inv d \<longleftrightarrow> list_all (\<lambda>r. checks_ok (slot_checks r)) (t_slots d)
     \<and> unique_key slot_key (t_slots d)"

lemma cleared_key [simp]: "slot_key (cleared r) = slot_key r"
  by (simp add: cleared_def slot_key_def)

lemma claimed_key [simp]: "slot_key (claimed_row t w i e r) = slot_key r"
  by (simp add: claimed_row_def slot_key_def)

lemma reconciled_key [simp]: "slot_key (reconciled_row c g r) = slot_key r"
  by (simp add: reconciled_row_def slot_key_def)

lemma cleared_checks: "checks_ok (slot_checks r) \<Longrightarrow> checks_ok (slot_checks (cleared r))"
  by (auto simp: slot_checks_def cleared_def)

lemma claimed_checks: "checks_ok (slot_checks r) \<Longrightarrow> checks_ok (slot_checks (claimed_row t w i e r))"
  by (auto simp: slot_checks_def claimed_row_def)

lemma reconciled_checks:
  "checks_ok (slot_checks r) \<Longrightarrow> 0 < g \<Longrightarrow> checks_ok (slot_checks (reconciled_row c g r))"
  by (auto simp: slot_checks_def reconciled_row_def)

lemma new_slot_checks: "0 < g \<Longrightarrow> checks_ok (slot_checks (new_slot k g n))"
  by (auto simp: slot_checks_def new_slot_def)

lemma flush_slots_ok:
  "list_all (\<lambda>r. checks_ok (slot_checks r)) rows \<Longrightarrow> flush_slots rows d = Inr (d\<lparr>t_slots := rows\<rparr>)"
  by (simp add: flush_slots_def)

lemma tupdate_checks:
  assumes "list_all P rows" and "\<And>r. P r \<Longrightarrow> Q r \<Longrightarrow> P (f r)"
  shows "list_all P (tupdate Q f rows)"
  using assms by (auto simp: list_all_iff set_tupdate)

lemma first_free_SomeD:
  assumes "first_free kind rows = Some r"
  shows "r \<in> set rows" and "slot_free kind r"
    and "\<And>x. x \<in> set rows \<Longrightarrow> slot_free kind x \<Longrightarrow> sl_slot_number r \<le> sl_slot_number x"
proof -
  let ?s = "sort_key sl_slot_number (filter (slot_free kind) rows)"
  obtain rest where s: "?s = r # rest"
    using assms by (auto simp: first_free_def split: list.splits)
  have set: "set ?s = {x \<in> set rows. slot_free kind x}" by auto
  then show "r \<in> set rows" and "slot_free kind r" using s by auto
  have "sorted (map sl_slot_number (r # rest))" using sorted_sort_key by (metis s)
  then show "sl_slot_number r \<le> sl_slot_number x" if "x \<in> set rows" "slot_free kind x" for x
    using that set s by auto
qed

lemma first_free_None: "first_free kind rows = None \<longleftrightarrow> (\<forall>r \<in> set rows. \<not> slot_free kind r)"
proof -
  have "first_free kind rows = None \<longleftrightarrow> sort_key sl_slot_number (filter (slot_free kind) rows) = []"
    by (auto simp: first_free_def split: list.splits)
  also have "\<dots> \<longleftrightarrow> set (sort_key sl_slot_number (filter (slot_free kind) rows)) = {}"
    by (simp only: set_empty)
  also have "\<dots> \<longleftrightarrow> (\<forall>r \<in> set rows. \<not> slot_free kind r)" by auto
  finally show ?thesis .
qed

lemma new_slots_unique:
  assumes "unique_key slot_key rows"
  shows "unique_key slot_key
    (tupdate P (reconciled_row c g) rows @ map (new_slot kind g) (missing_slots kind c rows))"
proof -
  have keys: "map slot_key (tupdate P (reconciled_row c g) rows) = map slot_key rows"
    by (simp add: tupdate_def o_def if_distrib cong: if_cong)
  have new: "map slot_key (map (new_slot kind g) ns) = map (Pair kind) ns" for ns
    by (simp add: o_def slot_key_def new_slot_def)
  have "set (map slot_key rows) \<inter> set (map (Pair kind) (missing_slots kind c rows)) = {}"
    by (auto simp: missing_slots_def)
  moreover have "distinct (map (Pair kind) (missing_slots kind c rows))"
    by (simp add: missing_slots_def distinct_map inj_on_def)
  ultimately show ?thesis
    using assms unfolding unique_key_def map_append keys new by auto
qed

lemma expire_slots_inv:
  assumes "list_all (\<lambda>r. checks_ok (slot_checks r)) rows" and "unique_key slot_key rows"
  shows "list_all (\<lambda>r. checks_ok (slot_checks r)) (expire_slots kind now rows)"
    and "unique_key slot_key (expire_slots kind now rows)"
  using assms by (auto simp: expire_slots_def unique_key_tupdate intro: tupdate_checks cleared_checks)

lemma claimed_slots_inv:
  assumes "list_all (\<lambda>r. checks_ok (slot_checks r)) rows" and "unique_key slot_key rows"
  shows "list_all (\<lambda>r. checks_ok (slot_checks r)) (tupdate P (claimed_row t w i e) rows)"
    and "unique_key slot_key (tupdate P (claimed_row t w i e) rows)"
  using assms by (auto simp: unique_key_tupdate intro: tupdate_checks claimed_checks)

text \<open>Under the invariant no flush fails, so the operations have these results.\<close>

lemma claim_result:
  assumes "slot_inv d" and "resource_kind_of resource_kind = Inr kind" and "work_kind_of work_kind = Some work"
    and "work_id \<noteq> []" and "0 < lease_seconds"
  shows "claim resource_kind work_kind work_id lease_seconds token now d =
    (let rows = expire_slots kind now (t_slots d)
     in case first_free kind rows of
          None \<Rightarrow> Inr (d\<lparr>t_slots := rows\<rparr>, None)
        | Some r \<Rightarrow> Inr (d\<lparr>t_slots := tupdate (\<lambda>x. slot_key x = slot_key r)
              (claimed_row token work work_id (now + lease_seconds * 1000000)) rows\<rparr>,
            Some (lease_of token r)))"
  using assms expire_slots_inv[of "t_slots d" kind now]
  by (simp add: claim_def slot_inv_def Let_def flush_slots_ok claimed_slots_inv(1) split: option.split)

lemma claim_Inr:
  assumes "slot_inv d"
    and "claim resource_kind work_kind work_id lease_seconds token now d = Inr (d', out)"
  obtains (none) kind where "resource_kind_of resource_kind = Inr kind" "out = None"
      "d' = d\<lparr>t_slots := expire_slots kind now (t_slots d)\<rparr>"
      "\<forall>r \<in> set (expire_slots kind now (t_slots d)). \<not> slot_free kind r"
  | (slot) kind work r where "resource_kind_of resource_kind = Inr kind"
      "out = Some (lease_of token r)" "0 < lease_seconds"
      "d' = d\<lparr>t_slots := tupdate (\<lambda>x. slot_key x = slot_key r)
         (claimed_row token work work_id (now + lease_seconds * 1000000))
         (expire_slots kind now (t_slots d))\<rparr>"
      "first_free kind (expire_slots kind now (t_slots d)) = Some r"
proof -
  obtain kind work where g: "resource_kind_of resource_kind = Inr kind" "work_kind_of work_kind = Some work"
    "work_id \<noteq> []" "0 < lease_seconds"
    using assms(2) by (auto simp: claim_def andthen_Inr_iff split: option.splits)
  show ?thesis
    using assms(2) g unfolding claim_result[OF assms(1) g] Let_def
    by (auto split: option.splits intro: none slot simp: first_free_None)
qed

lemma claim_inv:
  assumes "slot_inv d" and "claim k w i n t now d = Inr (d', out)"
  shows "slot_inv d'"
  using assms
proof (cases rule: claim_Inr)
  case (none kind)
  then show ?thesis using assms(1) expire_slots_inv by (simp add: slot_inv_def)
next
  case (slot kind work r)
  then show ?thesis
    using assms(1) expire_slots_inv claimed_slots_inv by (simp add: slot_inv_def)
qed

lemma reconcile_Inr:
  assumes "reconcile resource_kind c g d = Inr d'"
  obtains kind where "resource_kind_of resource_kind = Inr kind" "0 \<le> c" "0 < g"
    "d' = d\<lparr>t_slots := tupdate (\<lambda>r. sl_resource_kind r = kind) (reconciled_row c g) (t_slots d)
        @ map (new_slot kind g) (missing_slots kind c (t_slots d))\<rparr>"
  using assms by (auto simp: reconcile_def andthen_Inr_iff flush_slots_def split: if_splits)

lemma reconcile_inv:
  assumes "slot_inv d" and "reconcile k c g d = Inr d'"
  shows "slot_inv d'"
  using assms(2)
proof (rule reconcile_Inr)
  fix kind
  assume g: "0 < g" and d': "d' = d\<lparr>t_slots := tupdate (\<lambda>r. sl_resource_kind r = kind)
    (reconciled_row c g) (t_slots d) @ map (new_slot kind g) (missing_slots kind c (t_slots d))\<rparr>"
  have "list_all (\<lambda>r. checks_ok (slot_checks r))
      (tupdate (\<lambda>r. sl_resource_kind r = kind) (reconciled_row c g) (t_slots d))"
    using assms(1) g by (auto simp: slot_inv_def intro: tupdate_checks reconciled_checks)
  then show ?thesis
    using assms(1) g new_slots_unique
    by (auto simp: d' slot_inv_def list_all_iff new_slot_checks)
qed

lemma release_inv: "slot_inv d \<Longrightarrow> release lease d = (d', b) \<Longrightarrow> slot_inv d'"
  using tupdate_checks[where P = "\<lambda>r. checks_ok (slot_checks r)" and f = cleared] cleared_checks
  by (auto simp: release_def slot_inv_def unique_key_tupdate)

section \<open>Steps, and leases that cannot come back\<close>

inductive slot_step :: "db \<Rightarrow> db \<Rightarrow> bool" where
  step_reconcile: "reconcile k c g d = Inr d' \<Longrightarrow> slot_step d d'"
| step_claim: "claim k w i n t now d = Inr (d', out) \<Longrightarrow> slot_step d d'"
| step_release: "release lease d = (d', b) \<Longrightarrow> slot_step d d'"

inductive_cases slot_stepE: "slot_step d d'"

lemma slot_step_inv: "slot_inv d \<Longrightarrow> slot_step d d' \<Longrightarrow> slot_inv d'"
  by (erule slot_stepE) (auto intro: reconcile_inv claim_inv release_inv)

definition slot_evolves :: "slot_row \<Rightarrow> slot_row \<Rightarrow> bool" where
  "slot_evolves r r' \<longleftrightarrow> slot_key r' = slot_key r
     \<and> (sl_lease_generation r < sl_lease_generation r'
      \<or> sl_lease_generation r' = sl_lease_generation r
        \<and> (sl_lease_owner_token r' = sl_lease_owner_token r \<or> sl_lease_owner_token r' = None))"

definition slots_evolve :: "slot_row list \<Rightarrow> slot_row list \<Rightarrow> bool" where
  "slots_evolve rows rows' \<longleftrightarrow> (\<forall>r \<in> set rows. \<exists>r' \<in> set rows'. slot_evolves r r')"

lemma slot_evolves_trans: "slot_evolves a b \<Longrightarrow> slot_evolves b c \<Longrightarrow> slot_evolves a c"
  unfolding slot_evolves_def by force

lemma slots_evolve_trans: "slots_evolve a b \<Longrightarrow> slots_evolve b c \<Longrightarrow> slots_evolve a c"
  unfolding slots_evolve_def by (metis slot_evolves_trans)

lemma slots_evolve_tupdate:
  assumes "\<And>r. r \<in> set rows \<Longrightarrow> P r \<Longrightarrow> slot_evolves r (f r)"
  shows "slots_evolve rows (tupdate P f rows)"
proof -
  have "slot_evolves r r" for r by (simp add: slot_evolves_def)
  then have "\<exists>r' \<in> set (tupdate P f rows). slot_evolves r r'" if "r \<in> set rows" for r
    using that assms by (cases "P r") (auto simp: set_tupdate)
  then show ?thesis by (simp add: slots_evolve_def)
qed

lemma slots_evolve_append: "slots_evolve rows rows' \<Longrightarrow> slots_evolve rows (rows' @ extra)"
  unfolding slots_evolve_def by auto

lemma cleared_evolves: "slot_evolves r (cleared r)"
  by (simp add: slot_evolves_def cleared_def slot_key_def)

lemma claimed_evolves: "slot_evolves r (claimed_row t w i e r)"
  by (simp add: slot_evolves_def claimed_row_def slot_key_def)

lemma expire_evolves: "slots_evolve rows (expire_slots kind now rows)"
  unfolding expire_slots_def by (rule slots_evolve_tupdate) (rule cleared_evolves)

lemma claim_evolves:
  assumes "slot_inv d" and "claim k w i n t now d = Inr (d', out)"
  shows "slots_evolve (t_slots d) (t_slots d')"
  using assms
proof (cases rule: claim_Inr)
  case (none kind)
  then show ?thesis using expire_evolves by simp
next
  case (slot kind work r)
  then show ?thesis
    using slots_evolve_trans[OF expire_evolves slots_evolve_tupdate] claimed_evolves by simp
qed

lemma slot_step_evolves: "slot_inv d \<Longrightarrow> slot_step d d' \<Longrightarrow> slots_evolve (t_slots d) (t_slots d')"
  by (erule slot_stepE)
    (auto elim!: reconcile_Inr intro: claim_evolves
      simp: release_def slot_evolves_def reconciled_row_def slot_key_def cleared_def
      intro!: slots_evolve_append slots_evolve_tupdate)

definition lease_spent :: "slot_lease \<Rightarrow> db \<Rightarrow> bool" where
  "lease_spent lease d \<longleftrightarrow> (\<exists>r \<in> set (t_slots d).
     slot_key r = (lz_resource_kind lease, lz_slot_number lease)
     \<and> (lz_generation lease < sl_lease_generation r
      \<or> lz_generation lease = sl_lease_generation r
        \<and> sl_lease_owner_token r \<noteq> Some (lz_owner_token lease)))"

definition lease_live :: "slot_lease \<Rightarrow> db \<Rightarrow> bool" where
  "lease_live lease d \<longleftrightarrow> (\<exists>r \<in> set (t_slots d). lease_match lease r)"

lemma spent_stays: "slots_evolve (t_slots d) (t_slots d') \<Longrightarrow> lease_spent lease d \<Longrightarrow> lease_spent lease d'"
  unfolding slots_evolve_def lease_spent_def slot_evolves_def by fastforce

lemma spent_not_live:
  assumes "slot_inv d" and "lease_spent lease d"
  shows "\<not> lease_live lease d"
proof
  assume "lease_live lease d"
  then obtain r where r: "r \<in> set (t_slots d)" "lease_match lease r" unfolding lease_live_def by blast
  obtain q where q: "q \<in> set (t_slots d)" "slot_key q = (lz_resource_kind lease, lz_slot_number lease)"
    "lz_generation lease < sl_lease_generation q \<or> lz_generation lease = sl_lease_generation q
        \<and> sl_lease_owner_token q \<noteq> Some (lz_owner_token lease)"
    using assms(2) unfolding lease_spent_def by blast
  have "q = r"
    using unique_keyD[of slot_key "t_slots d" q r] assms(1) q r by (auto simp: slot_inv_def lease_match_def)
  then show False using q r by (auto simp: lease_match_def)
qed

lemma release_iff_live: "slot_inv d \<Longrightarrow> snd (release lease d) \<longleftrightarrow> lease_live lease d"
proof -
  assume inv: "slot_inv d"
  have "rowcount (lease_match lease) (t_slots d) \<le> 1"
    by (rule rowcount_unique[where k = slot_key]) (use inv in \<open>auto simp: slot_inv_def lease_match_def\<close>)
  then show ?thesis
    using rowcount_pos_iff[of "lease_match lease" "t_slots d"]
    by (force simp: release_def lease_live_def)
qed

lemma release_spends:
  assumes "lease_live lease d" and "release lease d = (d', b)"
  shows "lease_spent lease d'"
proof -
  obtain r where r: "r \<in> set (t_slots d)" "lease_match lease r"
    using assms(1) unfolding lease_live_def by blast
  then have "cleared r \<in> set (t_slots d')"
    using assms(2) by (auto simp: release_def set_tupdate)
  then show ?thesis
    using r(2) by (auto simp: lease_spent_def lease_match_def cleared_def slot_key_def intro!: bexI[of _ "cleared r"])
qed

definition try_release :: "slot_lease \<Rightarrow> db \<Rightarrow> db option" where
  "try_release lease d = (let (d', released) = release lease d in if released then Some d' else None)"

lemma try_release_Some: "try_release lease d = Some d' \<longleftrightarrow> release lease d = (d', True)"
  by (auto simp: try_release_def split: prod.splits)

lemma try_release_dead: "slot_inv d \<Longrightarrow> lease_spent lease d \<Longrightarrow> try_release lease d = None"
  using spent_not_live[of d lease] release_iff_live[of d lease]
  by (auto simp: try_release_def split: prod.splits)

lemma try_release_spends: "slot_inv d \<Longrightarrow> try_release lease d = Some d' \<Longrightarrow> lease_spent lease d'"
  using release_iff_live[of d lease] release_spends by (auto simp: try_release_Some)

interpretation release_fence: fenced_operation slot_inv slot_step lease_spent try_release
  by unfold_locales
    (auto simp: try_release_Some try_release_dead try_release_spends intro: slot_step_inv step_release
      spent_stays slot_step_evolves release_spends)

section \<open>What a reconcile does\<close>

lemma reconcile_succeeds:
  assumes "slot_inv d" and "resource_kind_of k = Inr kind" and "0 \<le> c" and "0 < g"
  shows "\<exists>d'. reconcile k c g d = Inr d' \<and>
    t_slots d' = tupdate (\<lambda>r. sl_resource_kind r = kind) (reconciled_row c g) (t_slots d)
      @ map (new_slot kind g) (missing_slots kind c (t_slots d))"
proof -
  have "list_all (\<lambda>r. checks_ok (slot_checks r))
      (tupdate (\<lambda>r. sl_resource_kind r = kind) (reconciled_row c g) (t_slots d))"
    using assms(1,4) by (auto simp: slot_inv_def intro: tupdate_checks reconciled_checks)
  then show ?thesis
    using assms(2-4) by (auto simp: reconcile_def list_all_iff flush_slots_def new_slot_checks)
qed

lemma tupdate_source:
  "r \<in> set (tupdate P f rows) \<Longrightarrow> \<exists>q \<in> set rows. r = (if P q then f q else q)"
  unfolding tupdate_def set_map by blast

lemma reconciled_generation:
  assumes "r \<in> set (tupdate (\<lambda>r. sl_resource_kind r = kind) (reconciled_row c g) rows
      @ map (new_slot kind g) ns)" and "sl_resource_kind r = kind"
  shows "sl_config_generation r = g"
proof (cases "r \<in> set (tupdate (\<lambda>r. sl_resource_kind r = kind) (reconciled_row c g) rows)")
  case True
  obtain q where "r = (if sl_resource_kind q = kind then reconciled_row c g q else q)"
    using tupdate_source[OF True] by blast
  then show ?thesis using assms(2) by (simp add: reconciled_row_def split: if_splits)
next
  case False
  then obtain n where "r = new_slot kind g n" using assms(1) by auto
  then show ?thesis by (simp add: new_slot_def)
qed

lemma reconciled_old_enabled:
  assumes "r \<in> set (tupdate (\<lambda>r. sl_resource_kind r = kind) (reconciled_row c g) rows)"
    and "slot_key r = (kind, n)"
  shows "sl_enabled r \<longleftrightarrow> int n < c"
proof -
  obtain q where "r = (if sl_resource_kind q = kind then reconciled_row c g q else q)"
    using tupdate_source[OF assms(1)] by blast
  then show ?thesis using assms(2) by (simp add: reconciled_row_def slot_key_def split: if_splits)
qed

lemma reconciled_old_keys:
  "slot_key ` set (tupdate (\<lambda>r. sl_resource_kind r = kind) (reconciled_row c g) rows) = slot_key ` set rows"
  unfolding tupdate_def set_map image_image by (rule image_cong) simp_all

lemma new_slot_facts: "slot_key (new_slot kind g m) = (kind, m)" "sl_enabled (new_slot kind g m)"
  "\<not> lease_match lease (new_slot kind g m)"
  by (simp_all add: slot_key_def new_slot_def lease_match_def)

lemma reconciled_enabled:
  assumes d': "t_slots d' = tupdate (\<lambda>r. sl_resource_kind r = kind) (reconciled_row c g) (t_slots d)
    @ map (new_slot kind g) (missing_slots kind c (t_slots d))"
  shows "{n. \<exists>r \<in> set (t_slots d'). slot_key r = (kind, n) \<and> sl_enabled r} = {0..<nat c}"
proof -
  let ?old = "tupdate (\<lambda>r. sl_resource_kind r = kind) (reconciled_row c g) (t_slots d)"
  have "(\<exists>r \<in> set (t_slots d'). slot_key r = (kind, n) \<and> sl_enabled r) \<longleftrightarrow> int n < c" for n
  proof (cases "(kind, n) \<in> slot_key ` set (t_slots d)")
    case True
    then have "\<exists>r \<in> set ?old. slot_key r = (kind, n)" by (metis imageE reconciled_old_keys)
    moreover have "n \<notin> set (missing_slots kind c (t_slots d))" using True by (simp add: missing_slots_def)
    ultimately show ?thesis
      using reconciled_old_enabled[of _ kind c g "t_slots d" n] by (auto simp: d' new_slot_facts)
  next
    case False
    then have "\<forall>r \<in> set ?old. slot_key r \<noteq> (kind, n)" by (metis imageI reconciled_old_keys)
    then have "(\<exists>r \<in> set (t_slots d'). slot_key r = (kind, n) \<and> sl_enabled r)
        \<longleftrightarrow> n \<in> set (missing_slots kind c (t_slots d))"
      by (auto simp: d' new_slot_facts bex_Un)
    also have "\<dots> \<longleftrightarrow> int n < c" using False by (auto simp: missing_slots_def)
    finally show ?thesis .
  qed
  then show ?thesis by auto
qed

lemma reconciled_live:
  assumes d': "t_slots d' = tupdate (\<lambda>r. sl_resource_kind r = kind) (reconciled_row c g) (t_slots d)
    @ map (new_slot kind g) ns"
  shows "lease_live lease d' \<longleftrightarrow> lease_live lease d"
proof -
  let ?old = "tupdate (\<lambda>r. sl_resource_kind r = kind) (reconciled_row c g) (t_slots d)"
  have "lease_match lease (if P then reconciled_row c g r else r) = lease_match lease r" for r P
    by (simp add: lease_match_def reconciled_row_def slot_key_def)
  then have "(\<exists>r \<in> set ?old. lease_match lease r) \<longleftrightarrow> (\<exists>r \<in> set (t_slots d). lease_match lease r)"
    by (simp only: tupdate_def set_map bex_simps)
  then show ?thesis by (auto simp: lease_live_def d' bex_Un new_slot_facts)
qed

section \<open>What a claim does\<close>

lemma expire_keeps_unexpired:
  "r \<in> set rows \<Longrightarrow> \<not> slot_expired now r \<Longrightarrow> r \<in> set (expire_slots kind now rows)"
  by (auto simp: expire_slots_def set_tupdate)

lemma expire_source:
  assumes "q \<in> set (expire_slots kind now rows)"
  shows "\<exists>r \<in> set rows. slot_key q = slot_key r \<and> sl_enabled q = sl_enabled r
    \<and> sl_lease_generation q = sl_lease_generation r
    \<and> (q = r \<or> slot_expired now r \<and> sl_lease_owner_token q = None)"
proof -
  from assms consider "q \<in> set rows" | r where "r \<in> set rows" "slot_expired now r" "q = cleared r"
    by (auto simp: expire_slots_def set_tupdate)
  then show ?thesis
    by cases (fastforce simp: cleared_def slot_key_def)+
qed

lemma expire_free_iff:
  "(\<forall>x \<in> set (expire_slots kind now rows). P (sl_slot_number x) \<longrightarrow> \<not> slot_free kind x) \<longleftrightarrow>
   (\<forall>r \<in> set rows. sl_resource_kind r = kind \<and> sl_enabled r \<and> P (sl_slot_number r) \<longrightarrow>
      sl_lease_owner_token r \<noteq> None \<and> \<not> slot_expired now r)"
proof -
  let ?f = "\<lambda>r. if sl_resource_kind r = kind \<and> slot_expired now r then cleared r else r"
  have "slot_free kind (?f r) \<longleftrightarrow> sl_resource_kind r = kind \<and> sl_enabled r
      \<and> (sl_lease_owner_token r = None \<or> slot_expired now r)" for r
    by (auto simp: slot_free_def cleared_def)
  note free = this
  have num: "sl_slot_number (?f r) = sl_slot_number r" for r by (simp add: cleared_def)
  show ?thesis
    unfolding expire_slots_def tupdate_def set_map ball_simps(9) num free by auto
qed

lemma claimed_source:
  assumes "first_free kind (expire_slots kind now (t_slots d)) = Some r"
  shows "\<exists>q \<in> set (t_slots d). slot_key q = (kind, sl_slot_number r) \<and> sl_enabled q
    \<and> (sl_lease_owner_token q = None \<or> slot_expired now q)
    \<and> sl_lease_generation r = sl_lease_generation q"
proof -
  note ff = first_free_SomeD[OF assms]
  obtain s where s: "s \<in> set (t_slots d)" "slot_key r = slot_key s" "sl_enabled r = sl_enabled s"
    "sl_lease_generation r = sl_lease_generation s" "r = s \<or> slot_expired now s"
    using expire_source[OF ff(1)] by blast
  moreover have "slot_key r = (kind, sl_slot_number r)" using ff(2) by (simp add: slot_free_def slot_key_def)
  ultimately show ?thesis using ff(2) by (intro bexI[of _ s]) (auto simp: slot_free_def)
qed

lemma claimed_keeps:
  assumes inv: "slot_inv d" and ff: "first_free kind (expire_slots kind now (t_slots d)) = Some r"
    and q: "q \<in> set (t_slots d)" "sl_lease_owner_token q \<noteq> None" "\<not> slot_expired now q"
  shows "q \<in> set (tupdate (\<lambda>x. slot_key x = slot_key r) f (expire_slots kind now (t_slots d)))"
proof -
  let ?rows = "expire_slots kind now (t_slots d)"
  have m: "q \<in> set ?rows" using expire_keeps_unexpired q by blast
  have "unique_key slot_key ?rows" using inv expire_slots_inv by (simp add: slot_inv_def)
  then have "slot_key q \<noteq> slot_key r"
    using unique_keyD[of slot_key ?rows q r] m first_free_SomeD(1,2)[OF ff] q(2) by (auto simp: slot_free_def)
  then show ?thesis using m by (simp add: set_tupdate)
qed

lemma claim_spends_earlier:
  assumes inv: "slot_inv d" and c: "claim k w i n t now d = Inr (d', Some lease)"
    and old: "lease_live old d"
    and same: "lz_resource_kind old = lz_resource_kind lease" "lz_slot_number old = lz_slot_number lease"
  shows "lease_spent old d'" and "lz_generation old < lz_generation lease"
proof -
  obtain kind work r where out: "lease = lease_of t r"
    and d': "d' = d\<lparr>t_slots := tupdate (\<lambda>x. slot_key x = slot_key r)
       (claimed_row t work i (now + n * 1000000)) (expire_slots kind now (t_slots d))\<rparr>"
    and ff: "first_free kind (expire_slots kind now (t_slots d)) = Some r"
    using c inv by (auto elim: claim_Inr)
  obtain q where q: "q \<in> set (t_slots d)" "lease_match old q" using old unfolding lease_live_def by blast
  obtain s where s: "s \<in> set (t_slots d)" "slot_key r = slot_key s"
    "sl_lease_generation r = sl_lease_generation s"
    using expire_source[OF first_free_SomeD(1)[OF ff]] by blast
  have "q = s"
    using unique_keyD[of slot_key "t_slots d" q s] inv q s(1,2) same out
    by (auto simp: slot_inv_def lease_match_def lease_of_def slot_key_def)
  then show gen: "lz_generation old < lz_generation lease"
    using q(2) s(3) by (simp add: lease_match_def out lease_of_def)
  let ?r' = "claimed_row t work i (now + n * 1000000) r"
  have "?r' \<in> set (t_slots d')"
    using first_free_SomeD(1)[OF ff] by (auto simp: d' set_tupdate)
  then show "lease_spent old d'"
    using gen same by (auto simp: lease_spent_def out lease_of_def claimed_row_def slot_key_def
        intro!: bexI[of _ ?r'])
qed

lemma claim_gives_live:
  assumes inv: "slot_inv d" and c: "claim k w i n t now d = Inr (d', Some lease)"
  shows "lease_live lease d'"
proof -
  obtain kind work r where out: "lease = lease_of t r"
    and d': "d' = d\<lparr>t_slots := tupdate (\<lambda>x. slot_key x = slot_key r)
       (claimed_row t work i (now + n * 1000000)) (expire_slots kind now (t_slots d))\<rparr>"
    and ff: "first_free kind (expire_slots kind now (t_slots d)) = Some r"
    using c inv by (auto elim: claim_Inr)
  let ?r' = "claimed_row t work i (now + n * 1000000) r"
  have "?r' \<in> set (t_slots d')"
    using first_free_SomeD(1)[OF ff] by (auto simp: d' set_tupdate)
  then show ?thesis
    by (auto simp: lease_live_def lease_match_def out lease_of_def claimed_row_def slot_key_def
        intro!: bexI[of _ ?r'])
qed

section \<open>The controller and the bound scanner\<close>

text \<open>
  One round of the controller's loop: the readings of \<open>monotonic()\<close> (in microseconds) at the loop
  test, after the claim and before the sleep, what other workers did to the database meanwhile, the
  wall clock and the token of the claim. A list of rounds that ends before the loop does gives
  \<open>None\<close>.
\<close>

record claim_round =
  cr_entry :: int
  cr_after :: int
  cr_remaining :: int
  cr_others :: "db \<Rightarrow> db"
  cr_now :: datetime
  cr_token :: str

fun controller_claim ::
  "string \<Rightarrow> str \<Rightarrow> int \<Rightarrow> int \<Rightarrow> claim_round list \<Rightarrow> db \<Rightarrow> (db \<times> (exc + slot_lease option)) option" where
  "controller_claim work_kind work_id lease_seconds deadline [] d = None"
| "controller_claim work_kind work_id lease_seconds deadline (c # cs) d =
     (if \<not> cr_entry c < deadline then Some (d, Inr None)
      else let d1 = cr_others c d in
        case claim ''scan'' work_kind work_id lease_seconds (cr_token c) (cr_now c) d1 of
          Inl e \<Rightarrow> Some (d1, Inl e)
        | Inr (d2, Some lease) \<Rightarrow>
            if deadline \<le> cr_after c then Some (fst (release lease d2), Inr None)
            else Some (d2, Inr (Some lease))
        | Inr (d2, None) \<Rightarrow>
            if deadline - cr_remaining c \<le> 0 then Some (d2, Inr None)
            else controller_claim work_kind work_id lease_seconds deadline cs d2)"

definition make_slot_bound_scanner :: "string \<Rightarrow> exc + string" where
  "make_slot_bound_scanner work_kind =
     andthen (require (work_kind \<in> {''image'', ''speech''}) (ValueError ''scan work kind is invalid''))
       (\<lambda>_. Inr work_kind)"

definition max_duration_us :: "audit_snapshot \<Rightarrow> int" where
  "max_duration_us snapshot = 2 * (sn_deadline_ms snapshot * 1000) + 2 * 1000000"

definition local_verdict :: "scan_result_kind \<Rightarrow> audit_snapshot \<Rightarrow> exc + scan_verdict" where
  "local_verdict k snapshot = make_scan_verdict
     \<lparr>vd_status = Known k, vd_engine = sn_scanner_backend snapshot, vd_signature_version = None\<rparr>"

definition slot_bound_scan ::
  "audit_snapshot \<Rightarrow> string \<Rightarrow> str \<Rightarrow> int \<Rightarrow> int \<Rightarrow> claim_round list \<Rightarrow> (db \<Rightarrow> db \<times> (exc + scan_verdict))
     \<Rightarrow> db \<Rightarrow> (db \<times> (exc + scan_verdict)) option" where
  "slot_bound_scan snapshot work_kind work_id lease_seconds started rounds scanner d =
     (let deadline = started + sn_deadline_ms snapshot * 1000
      in case controller_claim work_kind work_id lease_seconds deadline rounds d of
           None \<Rightarrow> None
         | Some (d1, Inl e) \<Rightarrow> Some (d1, Inl e)
         | Some (d1, Inr None) \<Rightarrow> Some (d1, local_verdict Timeout snapshot)
         | Some (d1, Inr (Some lease)) \<Rightarrow>
             let (d2, outcome) = scanner d1; (d3, released) = release lease d2
             in Some (d3, case outcome of
                  Inl e \<Rightarrow> Inl e
                | Inr verdict \<Rightarrow> if released then Inr verdict else local_verdict Error snapshot))"

lemma controller_claim_returns:
  assumes "\<exists>c \<in> set rounds. deadline \<le> cr_entry c"
  shows "controller_claim w i n deadline rounds d \<noteq> None"
  using assms
  by (induction rounds arbitrary: d) (auto simp: Let_def split: sum.splits option.splits prod.splits)

text \<open>A lease that the controller hands out is live, and the deadline had not passed.\<close>

lemma controller_claim_live:
  assumes "controller_claim w i n deadline rounds d = Some (d', Inr (Some lease))"
    and "slot_inv d" and "\<And>c x. c \<in> set rounds \<Longrightarrow> slot_inv x \<Longrightarrow> slot_inv (cr_others c x)"
  shows "slot_inv d' \<and> lease_live lease d' \<and> lz_owner_token lease \<in> cr_token ` set rounds
    \<and> (\<exists>c \<in> set rounds. cr_entry c < deadline \<and> cr_after c < deadline)"
  using assms
proof (induction w i n deadline rounds d rule: controller_claim.induct)
  case (2 w i n deadline c cs d)
  let ?d1 = "cr_others c d"
  have inv1: "slot_inv ?d1" using 2 by simp
  have go: "cr_entry c < deadline" using 2(2) by (auto split: if_splits)
  obtain d2 out where cl: "claim ''scan'' w i n (cr_token c) (cr_now c) ?d1 = Inr (d2, out)"
    using 2(2) go by (cases "claim ''scan'' w i n (cr_token c) (cr_now c) ?d1") (auto simp: Let_def)
  have inv2: "slot_inv d2" by (rule claim_inv[OF inv1 cl])
  show ?case
  proof (cases out)
    case None
    then have "controller_claim w i n deadline cs d2 = Some (d', Inr (Some lease))"
      and "\<not> deadline - cr_remaining c \<le> 0"
      using 2(2) go cl by (auto simp: Let_def split: if_splits)
    then show ?thesis
      using 2(1)[of ?d1 "(d2, None)" d2 None] go cl None inv2 2(4) by auto
  next
    case (Some l)
    then have l: "l = lease" "d2 = d'" "cr_after c < deadline"
      using 2(2) go cl by (auto simp: Let_def split: if_splits)
    have "lz_owner_token lease = cr_token c"
      using cl inv1 unfolding Some l by (auto elim!: claim_Inr simp: lease_of_def)
    then show ?thesis
      using claim_gives_live[OF inv1 cl[unfolded Some]] inv2 l go by auto
  qed
qed simp

section \<open>The cancellation gate of an upload\<close>

text \<open>
  \<open>ThreadSafeMediaCancellationGate\<close>: each method runs under the lock, so it is one atomic step.
  An action takes the gate's caller state and either raises or returns.
\<close>

record gate =
  gt_cancelled :: bool
  gt_committed :: bool

datatype 'e gate_error = MediaUploadCancelled | Raised 'e

definition new_gate :: gate where
  "new_gate = \<lparr>gt_cancelled = False, gt_committed = False\<rparr>"

definition gate_cancel :: "gate \<Rightarrow> gate \<times> bool" where
  "gate_cancel g = (if gt_committed g then (g, False) else (g\<lparr>gt_cancelled := True\<rparr>, True))"

definition check_active :: "gate \<Rightarrow> 'e gate_error + unit" where
  "check_active g = (if gt_cancelled g then Inl MediaUploadCancelled else Inr ())"

definition run_if_active :: "('e + 'a) \<Rightarrow> gate \<Rightarrow> gate \<times> ('e gate_error + 'a)" where
  "run_if_active action g =
     (if gt_cancelled g then (g, Inl MediaUploadCancelled)
      else (g, case action of Inl e \<Rightarrow> Inl (Raised e) | Inr x \<Rightarrow> Inr x))"

definition run_commit :: "('e + 'a) \<Rightarrow> gate \<Rightarrow> gate \<times> ('e gate_error + 'a)" where
  "run_commit action g =
     (if gt_cancelled g then (g, Inl MediaUploadCancelled)
      else case action of
        Inl e \<Rightarrow> (g, Inl (Raised e))
      | Inr x \<Rightarrow> (g\<lparr>gt_committed := True\<rparr>, Inr x))"

datatype gate_call = Cancel_Call | Check_Call | Active_Call bool | Commit_Call bool

text \<open>A call with the outcome of its action (does it return?), and what the caller sees: whether the
  action ran, and whether a cancellation was accepted.\<close>

fun gate_run :: "gate_call \<Rightarrow> gate \<Rightarrow> gate \<times> bool" where
  "gate_run Cancel_Call g = gate_cancel g"
| "gate_run Check_Call g = (g, \<not> isl (check_active g :: unit gate_error + unit))"
| "gate_run (Active_Call ok) g =
     (let (g', r) = run_if_active (if ok then Inr () else Inl ()) g in (g', r \<noteq> Inl MediaUploadCancelled))"
| "gate_run (Commit_Call ok) g =
     (let (g', r) = run_commit (if ok then Inr () else Inl ()) g in (g', r = Inr ()))"

definition gate_inv :: "gate \<Rightarrow> bool" where
  "gate_inv g \<longleftrightarrow> \<not> (gt_cancelled g \<and> gt_committed g)"

inductive gate_step :: "gate \<Rightarrow> gate \<Rightarrow> bool" where
  call: "gate_run c g = (g', b) \<Longrightarrow> gate_step g g'"

inductive_cases gate_stepE: "gate_step g g'"

lemma gate_run_flags:
  assumes "gate_run c g = (g', b)" and "gate_inv g"
  shows "gate_inv g'" and "gt_cancelled g \<Longrightarrow> g' = g" and "gt_committed g \<Longrightarrow> g' = g"
  using assms
  by (cases c; auto simp: gate_cancel_def run_if_active_def run_commit_def gate_inv_def
      split: if_splits)+

interpretation gate_sys: invariant_system gate_inv gate_step
  by unfold_locales (auto elim!: gate_stepE dest: gate_run_flags(1))

section \<open>Nothing leaks when the deadline passes\<close>

definition held_by :: "str set \<Rightarrow> db \<Rightarrow> bool" where
  "held_by T d \<longleftrightarrow> (\<exists>r \<in> set (t_slots d). \<exists>t \<in> T. sl_lease_owner_token r = Some t)"

lemma expire_not_held:
  assumes "\<not> held_by T d" and "q \<in> set (expire_slots kind now (t_slots d))" and "t \<in> T"
  shows "sl_lease_owner_token q \<noteq> Some t"
  using expire_source[OF assms(2)] assms(1,3) by (auto simp: held_by_def)

lemma claim_none_not_held:
  assumes "slot_inv d" and "claim k w i n t now d = Inr (d', None)" and "\<not> held_by T d"
  shows "\<not> held_by T d'"
  using assms(1,2)
proof (cases rule: claim_Inr)
  case (none kind)
  then show ?thesis using expire_not_held[OF assms(3)] by (auto simp: held_by_def)
qed simp

lemma claim_release_not_held:
  assumes inv: "slot_inv d" and c: "claim k w i n t now d = Inr (d', Some lease)" and nh: "\<not> held_by T d"
  shows "\<not> held_by T (fst (release lease d'))"
proof -
  obtain kind work r where out: "lease = lease_of t r"
    and d': "d' = d\<lparr>t_slots := tupdate (\<lambda>x. slot_key x = slot_key r)
       (claimed_row t work i (now + n * 1000000)) (expire_slots kind now (t_slots d))\<rparr>"
    and ff: "first_free kind (expire_slots kind now (t_slots d)) = Some r"
    using c inv by (auto elim: claim_Inr)
  let ?rows = "expire_slots kind now (t_slots d)" and ?f = "claimed_row t work i (now + n * 1000000)"
  have uniq: "unique_key slot_key ?rows" using inv expire_slots_inv by (simp add: slot_inv_def)
  have match: "lease_match lease (?f q)" if "q \<in> set ?rows" "slot_key q = slot_key r" for q
  proof -
    have "q = r" using unique_keyD[OF uniq that(1) first_free_SomeD(1)[OF ff] that(2)] .
    then show ?thesis by (simp add: lease_match_def out lease_of_def claimed_row_def slot_key_def)
  qed
  have "sl_lease_owner_token x \<noteq> Some u" if x: "x \<in> set (t_slots (fst (release lease d')))" and u: "u \<in> T" for x u
  proof -
    from x consider y where "x = cleared y" | "x \<in> set (t_slots d')" "\<not> lease_match lease x"
      by (auto simp: release_def set_tupdate)
    then show ?thesis
    proof cases
      case 1
      then show ?thesis by (simp add: cleared_def)
    next
      case 2
      then have "x \<in> set ?rows" using match by (auto simp: d' set_tupdate)
      then show ?thesis using expire_not_held[OF nh _ u] by blast
    qed
  qed
  then show ?thesis by (auto simp: held_by_def)
qed

section \<open>Properties\<close>

definition sample_slots :: db where
  "sample_slots = empty_db\<lparr>t_slots := [new_slot Scan_Kind 1 0, new_slot Scan_Kind 1 1]\<rparr>"

definition sample_held :: db where
  "sample_held = empty_db\<lparr>t_slots :=
     [claimed_row (lit ''t1'') Image_Work (lit ''w1'') 60000000 (new_slot Scan_Kind 1 0), new_slot Scan_Kind 1 1]\<rparr>"

definition sample_lease :: slot_lease where
  "sample_lease = \<lparr>lz_resource_kind = Scan_Kind, lz_slot_number = 0, lz_owner_token = lit ''t1'', lz_generation = 1\<rparr>"

definition sample_reclaimed :: db where
  "sample_reclaimed = empty_db\<lparr>t_slots :=
     [claimed_row (lit ''t2'') Speech_Work (lit ''w2'') 160000000
        (cleared (claimed_row (lit ''t1'') Image_Work (lit ''w1'') 60000000 (new_slot Scan_Kind 1 0))),
      new_slot Scan_Kind 1 1]\<rparr>"

lemma sample_slots_inv: "slot_inv sample_slots" "slot_inv sample_held"
  by code_simp+

lemma sample_claim:
  "claim ''scan'' ''image'' (lit ''w1'') 60 (lit ''t1'') 0 sample_slots = Inr (sample_held, Some sample_lease)"
  by code_simp

lemma sample_reclaim:
  "claim ''scan'' ''speech'' (lit ''w2'') 60 (lit ''t2'') 100000000 sample_held
     = Inr (sample_reclaimed, Some (sample_lease\<lparr>lz_owner_token := lit ''t2'', lz_generation := 2\<rparr>))"
  by code_simp

lemma sample_release: "snd (release sample_lease sample_held)"
  by code_simp

lemma release_dead: "\<not> lease_live lease d \<Longrightarrow> release lease d = (d, False)"
proof -
  assume "\<not> lease_live lease d"
  then have no: "\<And>r. r \<in> set (t_slots d) \<Longrightarrow> \<not> lease_match lease r"
    unfolding lease_live_def by blast
  have "tupdate (lease_match lease) cleared (t_slots d) = t_slots d"
    unfolding tupdate_def by (rule map_idI) (simp add: no)
  moreover have "filter (lease_match lease) (t_slots d) = []" using no by (simp add: filter_empty_conv)
  ultimately show ?thesis by (simp add: release_def rowcount_def)
qed

text \<open>
  C14. \<open>reconcile\<close> with a valid configuration always succeeds and leaves exactly the slots
  \<open>0 .. configured_count - 1\<close> of that kind enabled, all with the new configuration generation;
  slots it disables keep their lease, so exactly the leases that were live stay live.
\<close>

theorem reconcile_exact:
  assumes "slot_inv d" and "resource_kind_of k = Inr kind" and "0 \<le> c" and "0 < g"
  shows "\<exists>d'. reconcile k c g d = Inr d'
    \<and> {n. \<exists>r \<in> set (t_slots d'). slot_key r = (kind, n) \<and> sl_enabled r} = {0..<nat c}
    \<and> (\<forall>r \<in> set (t_slots d'). sl_resource_kind r = kind \<longrightarrow> sl_config_generation r = g)
    \<and> (\<forall>lease. lease_live lease d' \<longleftrightarrow> lease_live lease d)"
proof -
  obtain d' where d': "reconcile k c g d = Inr d'"
      "t_slots d' = tupdate (\<lambda>r. sl_resource_kind r = kind) (reconciled_row c g) (t_slots d)
         @ map (new_slot kind g) (missing_slots kind c (t_slots d))"
    using reconcile_succeeds[OF assms] by blast
  have "\<forall>r \<in> set (t_slots d'). sl_resource_kind r = kind \<longrightarrow> sl_config_generation r = g"
    using reconciled_generation unfolding d'(2) by blast
  then show ?thesis
    using d'(1) reconciled_enabled[OF d'(2)] reconciled_live[OF d'(2)] by auto
qed

lemma reconcile_exact_witness: "\<exists>d'. reconcile ''scan'' 1 2 sample_held = Inr d' \<and> lease_live sample_lease d'"
  using reconcile_exact[OF sample_slots_inv(2), of "''scan''" Scan_Kind 1 2] sample_release
    release_iff_live[OF sample_slots_inv(2)]
  by (auto simp: resource_kind_of_def)

text \<open>
  A claim takes the lowest enabled slot of the kind that is free or whose lease has expired, and
  returns no slot exactly when every enabled slot of the kind is held by an unexpired lease; it never
  touches a slot that another worker holds with an unexpired lease.
\<close>

theorem claim_correct:
  assumes "slot_inv d" and "resource_kind_of k = Inr kind" and "work_kind_of w = Some work"
    and "i \<noteq> []" and "0 < n"
  shows "\<exists>d' out. claim k w i n token now d = Inr (d', out)
    \<and> (out = None \<longleftrightarrow> (\<forall>r \<in> set (t_slots d). sl_resource_kind r = kind \<and> sl_enabled r \<longrightarrow>
          sl_lease_owner_token r \<noteq> None \<and> \<not> slot_expired now r))
    \<and> (\<forall>lease. out = Some lease \<longrightarrow> lease_live lease d' \<and> lz_owner_token lease = token
          \<and> (\<exists>r \<in> set (t_slots d). slot_key r = (kind, lz_slot_number lease) \<and> sl_enabled r
               \<and> (sl_lease_owner_token r = None \<or> slot_expired now r)
               \<and> lz_generation lease = sl_lease_generation r + 1)
          \<and> (\<forall>r \<in> set (t_slots d). sl_resource_kind r = kind \<and> sl_enabled r
               \<and> sl_slot_number r < lz_slot_number lease \<longrightarrow>
               sl_lease_owner_token r \<noteq> None \<and> \<not> slot_expired now r))
    \<and> (\<forall>r \<in> set (t_slots d). sl_lease_owner_token r \<noteq> None \<and> \<not> slot_expired now r \<longrightarrow>
          r \<in> set (t_slots d'))"
proof -
  let ?rows = "expire_slots kind now (t_slots d)"
  have busy: "(\<forall>x \<in> set ?rows. P (sl_slot_number x) \<longrightarrow> \<not> slot_free kind x) \<longleftrightarrow>
      (\<forall>r \<in> set (t_slots d). sl_resource_kind r = kind \<and> sl_enabled r \<and> P (sl_slot_number r) \<longrightarrow>
          sl_lease_owner_token r \<noteq> None \<and> \<not> slot_expired now r)" for P
    by (simp add: expire_free_iff)
  show ?thesis
  proof (cases "first_free kind ?rows")
    case None
    then have "claim k w i n token now d = Inr (d\<lparr>t_slots := ?rows\<rparr>, None)"
      by (simp add: claim_result[OF assms] Let_def)
    then show ?thesis
      using None[unfolded first_free_None] busy[of "\<lambda>_. True"]
        expire_keeps_unexpired[of _ "t_slots d" now kind]
      by simp
  next
    case (Some r)
    note ff = first_free_SomeD[OF Some]
    let ?d = "d\<lparr>t_slots := tupdate (\<lambda>x. slot_key x = slot_key r)
       (claimed_row token work i (now + n * 1000000)) ?rows\<rparr>"
    have c: "claim k w i n token now d = Inr (?d, Some (lease_of token r))"
      using Some by (simp add: claim_result[OF assms] Let_def)
    have "\<forall>x \<in> set ?rows. sl_slot_number x < sl_slot_number r \<longrightarrow> \<not> slot_free kind x"
      using ff(3) by fastforce
    note lower = this[unfolded busy[of "\<lambda>m. m < sl_slot_number r"]]
    have "\<not> (\<forall>q \<in> set (t_slots d). sl_resource_kind q = kind \<and> sl_enabled q \<longrightarrow>
          sl_lease_owner_token q \<noteq> None \<and> \<not> slot_expired now q)"
      using busy[of "\<lambda>_. True"] ff(1,2) by auto
    then show ?thesis
      using c claim_gives_live[OF assms(1) c] lower claimed_source[OF Some] claimed_keeps[OF assms(1) Some]
      by (simp add: lease_of_def)
  qed
qed

lemma claim_correct_witness:
  "\<exists>d' lease. claim ''scan'' ''speech'' (lit ''w2'') 60 (lit ''t2'') 5 sample_held = Inr (d', Some lease)"
  using claim_correct[OF sample_slots_inv(2), of "''scan''" Scan_Kind "''speech''" Speech_Work "lit ''w2''" 60 "lit ''t2''" 5]
  by (auto simp: resource_kind_of_def work_kind_of_def sample_held_def new_slot_def)

text \<open>
  C16. A slot lease is fenced. Once it has been given back, or its slot has been claimed again after
  it expired, \<open>release\<close> with it reports False and changes nothing, whatever happens in between;
  so an overdue holder can never free the slot of its successor.
\<close>

theorem slot_lease_fenced:
  assumes "slot_inv d" and "lease_live lease d"
    and "release lease d = (d1, b)
       \<or> (\<exists>k w i n t now new'. claim k w i n t now d = Inr (d1, Some new')
            \<and> lz_resource_kind new' = lz_resource_kind lease \<and> lz_slot_number new' = lz_slot_number lease)"
    and "slot_step\<^sup>*\<^sup>* d1 d2"
  shows "release lease d2 = (d2, False)"
proof -
  have "lease_spent lease d1" and "slot_step d d1"
    using assms(1-3) release_spends claim_spends_earlier(1) step_release step_claim by metis+
  then have "lease_spent lease d2" and "slot_inv d2"
    using release_fence.spent_stable_steps[OF assms(4)] release_fence.steps_inv[OF assms(4)]
      slot_step_inv[OF assms(1)] by blast+
  then show ?thesis using spent_not_live release_dead by blast
qed

lemma slot_lease_fenced_witness: "release sample_lease sample_reclaimed = (sample_reclaimed, False)"
proof -
  have live: "lease_live sample_lease sample_held"
    using sample_release release_iff_live[OF sample_slots_inv(2)] by blast
  show ?thesis
    using slot_lease_fenced[OF sample_slots_inv(2) live disjI2 rtranclp.rtrancl_refl] sample_reclaim
    by (fastforce simp: sample_lease_def)
qed

text \<open>
  C10. The controller's claim loop returns as soon as the clock reaches the deadline, and when it
  returns without a lease none of the tokens it used holds a slot: a slot won too late is given back.
\<close>

theorem controller_claim_leaks_nothing:
  assumes "\<exists>c \<in> set rounds. deadline \<le> cr_entry c"
    and "slot_inv d" and "\<not> held_by (cr_token ` set rounds) d"
    and "\<And>c x. c \<in> set rounds \<Longrightarrow> slot_inv x \<Longrightarrow> \<not> held_by (cr_token ` set rounds) x \<Longrightarrow>
           slot_inv (cr_others c x) \<and> \<not> held_by (cr_token ` set rounds) (cr_others c x)"
  shows "\<exists>d' r. controller_claim w i n deadline rounds d = Some (d', r)
    \<and> ((\<forall>lease. r \<noteq> Inr (Some lease)) \<longrightarrow> \<not> held_by (cr_token ` set rounds) d')"
proof -
  obtain d' r where res: "controller_claim w i n deadline rounds d = Some (d', r)"
    using controller_claim_returns[OF assms(1)] by (metis not_Some_eq surj_pair)
  have "\<not> held_by T d'" if "controller_claim w i n deadline cs d = Some (d', r)"
    and "\<forall>lease. r \<noteq> Inr (Some lease)" and "slot_inv d" and "\<not> held_by T d"
    and "\<And>c x. c \<in> set cs \<Longrightarrow> slot_inv x \<Longrightarrow> \<not> held_by T x \<Longrightarrow>
           slot_inv (cr_others c x) \<and> \<not> held_by T (cr_others c x)" for cs T
    using that
  proof (induction cs arbitrary: d)
    case (Cons c cs)
    have env: "slot_inv (cr_others c d)" "\<not> held_by T (cr_others c d)" using Cons.prems by auto
    show ?case
      using Cons.prems Cons.IH claim_inv[OF env(1)] claim_none_not_held[OF env(1) _ env(2)]
        claim_release_not_held[OF env(1) _ env(2)] env
      by (auto simp: Let_def split: if_splits sum.splits prod.splits option.splits)
  qed simp
  from this[OF res _ assms(2-4)] show ?thesis using res by auto
qed

definition late_round :: claim_round where
  "late_round = \<lparr>cr_entry = 5, cr_after = 12, cr_remaining = 12, cr_others = (\<lambda>d. d), cr_now = 0, cr_token = lit ''t1''\<rparr>"

lemma controller_claim_leaks_nothing_witness:
  "\<exists>d' r. controller_claim ''image'' (lit ''w1'') 60 10 [late_round, late_round\<lparr>cr_entry := 13\<rparr>] sample_slots = Some (d', r)
    \<and> ((\<forall>lease. r \<noteq> Inr (Some lease)) \<longrightarrow> \<not> held_by {lit ''t1''} d')"
proof -
  have toks: "cr_token ` set [late_round, late_round\<lparr>cr_entry := 13\<rparr>] = {lit ''t1''}"
    by (simp add: late_round_def)
  have free: "\<not> held_by {lit ''t1''} sample_slots"
    by (auto simp: held_by_def sample_slots_def new_slot_def)
  show ?thesis
    using sample_slots_inv(1) free
    by (intro controller_claim_leaks_nothing[of "[late_round, late_round\<lparr>cr_entry := 13\<rparr>]" 10 sample_slots
          "''image''" "lit ''w1''" 60, unfolded toks])
      (auto simp: late_round_def)
qed

text \<open>
  C18. The slot-bound scanner passes a clean verdict on only when the scanner itself said clean and
  the lease was still live when the scan ended, so no other worker had been given the slot during
  the scan; afterwards the lease is spent.
\<close>

theorem clean_verdict_held_slot:
  assumes "slot_bound_scan snapshot w i n started rounds scanner d = Some (d', Inr verdict)"
    and "vd_status verdict = Known Clean"
    and "slot_inv d" and "\<And>c x. c \<in> set rounds \<Longrightarrow> slot_inv x \<Longrightarrow> slot_inv (cr_others c x)"
    and "\<And>x. slot_inv x \<Longrightarrow> slot_inv (fst (scanner x))"
  shows "\<exists>lease d1 d2. lease_live lease d1 \<and> scanner d1 = (d2, Inr verdict) \<and> lease_live lease d2
    \<and> d' = fst (release lease d2) \<and> lease_spent lease d'"
proof -
  have local: "local_verdict k snapshot \<noteq> Inr verdict" if "k \<noteq> Clean" for k
    using assms(2) that by (auto simp: local_verdict_def make_scan_verdict_def andthen_Inr_iff)
  obtain d1 lease where cc: "controller_claim w i n (started + sn_deadline_ms snapshot * 1000) rounds d
      = Some (d1, Inr (Some lease))"
    and res: "(let (d2, outcome) = scanner d1; (d3, released) = release lease d2
       in Some (d3, case outcome of Inl e \<Rightarrow> Inl e
          | Inr v \<Rightarrow> if released then Inr v else local_verdict Error snapshot)) = Some (d', Inr verdict)"
    using assms(1) local[of Timeout]
    by (auto simp: slot_bound_scan_def Let_def split: option.splits sum.splits prod.splits)
  note live = controller_claim_live[OF cc assms(3,4)]
  obtain d2 outcome where sc: "scanner d1 = (d2, outcome)" by (cases "scanner d1")
  have inv2: "slot_inv d2" using assms(5)[of d1] live sc by simp
  obtain b where rel: "release lease d2 = (d', b)" and out: "outcome = Inr verdict" and b: "b"
    using res sc local[of Error] by (auto split: prod.splits sum.splits if_splits)
  have "lease_live lease d2" using release_iff_live[OF inv2, of lease] rel b by simp
  then show ?thesis using live sc rel out release_spends by force
qed

definition sample_snapshot :: audit_snapshot where
  "sample_snapshot = \<lparr>sn_scanner_backend = lit ''clamd'', sn_definitions_version = lit ''1'',
     sn_definitions_fresh_at = 0, sn_definitions_age_seconds = 0, sn_max_bytes = 1,
     sn_max_concurrent_scans = 1, sn_deadline_ms = 1000, sn_socket_timeout_ms = 1\<rparr>"

definition clean_scanner :: "db \<Rightarrow> db \<times> (exc + scan_verdict)" where
  "clean_scanner d = (d, Inr \<lparr>vd_status = Known Clean, vd_engine = lit ''clamd'', vd_signature_version = None\<rparr>)"

lemma sample_scan:
  "slot_bound_scan sample_snapshot ''image'' (lit ''w1'') 60 0 [late_round] clean_scanner sample_slots
     = Some (fst (release sample_lease sample_held),
         Inr \<lparr>vd_status = Known Clean, vd_engine = lit ''clamd'', vd_signature_version = None\<rparr>)"
proof -
  have "sn_deadline_ms sample_snapshot = 1000" by (simp add: sample_snapshot_def)
  moreover obtain x where "release sample_lease sample_held = (x, True)"
    using sample_release by (metis prod.collapse)
  ultimately show ?thesis
    using sample_claim by (simp add: slot_bound_scan_def late_round_def clean_scanner_def)
qed

lemma clean_verdict_held_slot_witness:
  "\<exists>lease d1. lease_live lease d1 \<and> snd (clean_scanner d1) \<noteq> Inl (RuntimeError ''scan'')"
  using clean_verdict_held_slot[OF sample_scan _ sample_slots_inv(1)]
  by (fastforce simp: late_round_def clean_scanner_def)

text \<open>
  C16. The cancellation gate decides between cancelling and committing exactly once: from a new gate,
  whatever calls happen, after an accepted \<open>cancel\<close> no action runs any more, and after a commit
  \<open>cancel\<close> is refused for ever.
\<close>

theorem gate_decides_once:
  assumes "gate_step\<^sup>*\<^sup>* new_gate g"
  shows "\<not> (gt_cancelled g \<and> gt_committed g)
    \<and> (\<forall>g1 g2. gate_cancel g = (g1, True) \<and> gate_step\<^sup>*\<^sup>* g1 g2 \<longrightarrow>
         run_commit action g2 = (g2, Inl MediaUploadCancelled)
         \<and> run_if_active action g2 = (g2, Inl MediaUploadCancelled))
    \<and> (\<forall>g1 g2 x. run_commit (Inr x :: 'e + 'a) g = (g1, Inr x) \<and> gate_step\<^sup>*\<^sup>* g1 g2 \<longrightarrow>
         gate_cancel g2 = (g2, False))"
proof -
  have inv: "gate_inv g"
    using gate_sys.steps_inv[OF assms] by (simp add: gate_inv_def new_gate_def)
  have stuck: "g2 = g1" if "gate_step\<^sup>*\<^sup>* g1 g2" "gate_inv g1" "gt_cancelled g1 \<or> gt_committed g1" for g1 g2
    using that by (induction rule: rtranclp_induct) (auto elim!: gate_stepE dest: gate_run_flags(2,3))
  have c: "gate_inv g1 \<and> gt_cancelled g1" if "gate_cancel g = (g1, True)" for g1
    using that inv by (auto simp: gate_cancel_def gate_inv_def split: if_splits)
  have k: "gate_inv g1 \<and> gt_committed g1" if "run_commit (Inr x :: 'e + 'a) g = (g1, Inr x)" for g1 x
    using that inv by (auto simp: run_commit_def gate_inv_def split: if_splits)
  have "run_commit action g2 = (g2, Inl MediaUploadCancelled)
      \<and> run_if_active action g2 = (g2, Inl MediaUploadCancelled)"
    if "gate_cancel g = (g1, True)" "gate_step\<^sup>*\<^sup>* g1 g2" for g1 g2
    using stuck[OF that(2)] c[OF that(1)] by (simp add: run_commit_def run_if_active_def)
  moreover have "gate_cancel g2 = (g2, False)"
    if "run_commit (Inr x :: 'e + 'a) g = (g1, Inr x)" "gate_step\<^sup>*\<^sup>* g1 g2" for g1 g2 x
    using stuck[OF that(2)] k[OF that(1)] by (simp add: gate_cancel_def)
  ultimately show ?thesis using inv by (auto simp: gate_inv_def)
qed

lemma gate_decides_once_witness:
  "run_commit (Inr () :: unit + unit) (new_gate\<lparr>gt_cancelled := True\<rparr>)
     = (new_gate\<lparr>gt_cancelled := True\<rparr>, Inl MediaUploadCancelled)"
  using gate_decides_once[OF rtranclp.rtrancl_refl, of "Inr () :: unit + unit"]
  by (auto simp: gate_cancel_def new_gate_def)

end
