(* ===== verification/AuditLog.thy ===== *)
theory AuditLog
  imports Schema Interfaces "HOL-Library.Multiset"
begin

text \<open>
  The audit log of a session: the runtime's \<open>Event\<close> and the two stores of
  \<^verbatim>\<open>runtime/audit_projection.py\<close> (\<open>InMemoryAuditProjectionStore\<close>) and
  \<^verbatim>\<open>persistence/audit_projection.py\<close> (\<open>PersistentAuditProjectionStore\<close>), the second over
  \<open>SqlAuditEventRepository\<close> of \<^verbatim>\<open>persistence/repositories.py\<close>. Both are instances of the interface
  \<open>event_log\<close>. The fresh event id and the clock are parameters; \<open>createdAt\<close> is kept as the
  instant its ISO text denotes.
\<close>

section \<open>Events\<close>

datatype event_type =
    Session_Created | Goal_Submitted | Session_Started | Session_Paused | Session_Ended
  | Evidence_Submitted | Question_Asked | Answer_Submitted | Verification_Requested
  | Verification_Completed | Score_Calculated | Review_Completed | Proof_Record_Requested
  | Proof_Record_Completed | Error_Occurred

datatype actor = User | Agent | Tool | System

fun event_type_value :: "event_type \<Rightarrow> string" where
  "event_type_value Session_Created = ''session.created''"
| "event_type_value Goal_Submitted = ''goal.submitted''"
| "event_type_value Session_Started = ''session.started''"
| "event_type_value Session_Paused = ''session.paused''"
| "event_type_value Session_Ended = ''session.ended''"
| "event_type_value Evidence_Submitted = ''evidence.submitted''"
| "event_type_value Question_Asked = ''question.asked''"
| "event_type_value Answer_Submitted = ''answer.submitted''"
| "event_type_value Verification_Requested = ''verification.requested''"
| "event_type_value Verification_Completed = ''verification.completed''"
| "event_type_value Score_Calculated = ''score.calculated''"
| "event_type_value Review_Completed = ''review.completed''"
| "event_type_value Proof_Record_Requested = ''proof.record.requested''"
| "event_type_value Proof_Record_Completed = ''proof.record.completed''"
| "event_type_value Error_Occurred = ''error.occurred''"

definition all_event_types :: "event_type list" where
  "all_event_types =
     [Session_Created, Goal_Submitted, Session_Started, Session_Paused, Session_Ended,
      Evidence_Submitted, Question_Asked, Answer_Submitted, Verification_Requested,
      Verification_Completed, Score_Calculated, Review_Completed, Proof_Record_Requested,
      Proof_Record_Completed, Error_Occurred]"

fun actor_value :: "actor \<Rightarrow> string" where
  "actor_value User = ''user''"
| "actor_value Agent = ''agent''"
| "actor_value Tool = ''tool''"
| "actor_value System = ''system''"

definition all_actors :: "actor list" where
  "all_actors = [User, Agent, Tool, System]"

type_synonym payload = "(str \<times> json) list"

record event =
  ve_id :: str
  ve_sessionId :: str
  ve_type :: event_type
  ve_sequence :: int
  ve_createdAt :: datetime
  ve_actor :: actor
  ve_payload :: payload

definition source_key :: str where
  "source_key = lit ''sourceOpenHandsEventId''"

text \<open>\<open>event_id or f"evt_..."\<close>: an absent or empty id is replaced by the fresh one.\<close>

definition event_id_or :: "str option \<Rightarrow> str \<Rightarrow> str" where
  "event_id_or event_id fresh = (case event_id of None \<Rightarrow> fresh | Some e \<Rightarrow> if e = [] then fresh else e)"

section \<open>The in-memory store\<close>

text \<open>\<open>defaultdict(list)\<close>: a session without events has the empty list.\<close>

type_synonym memory_log = "str \<Rightarrow> event list"

definition next_sequence :: "str \<Rightarrow> memory_log \<Rightarrow> int" where
  "next_sequence session_id st = int (length (st session_id)) + 1"

definition memory_append ::
  "str \<Rightarrow> event_type \<Rightarrow> actor \<Rightarrow> payload \<Rightarrow> str option \<Rightarrow> str \<Rightarrow> datetime \<Rightarrow> memory_log \<Rightarrow> memory_log \<times> event" where
  "memory_append session_id ty actor payload event_id fresh now st =
     (case (case event_id of None \<Rightarrow> None
            | Some e \<Rightarrow> List.find (\<lambda>x. ve_id x = e) (st session_id)) of
        Some existing \<Rightarrow> (st, existing)
      | None \<Rightarrow>
        let event = \<lparr>ve_id = event_id_or event_id fresh, ve_sessionId = session_id, ve_type = ty,
              ve_sequence = next_sequence session_id st, ve_createdAt = now, ve_actor = actor,
              ve_payload = payload\<rparr>
        in (st(session_id := st session_id @ [event]), event))"

definition push :: "event \<Rightarrow> memory_log \<Rightarrow> memory_log" where
  "push e st = st(ve_sessionId e := st (ve_sessionId e) @ [e])"

definition append_event :: "event \<Rightarrow> memory_log \<Rightarrow> memory_log \<times> event" where
  "append_event event st =
     (let stored = event\<lparr>ve_sequence := next_sequence (ve_sessionId event) st\<rparr>
      in (push stored st, stored))"

text \<open>\<open>append_many\<close>: first number every event, then append them.\<close>

fun number_events :: "memory_log \<Rightarrow> (str \<rightharpoonup> int) \<Rightarrow> event list \<Rightarrow> event list" where
  "number_events st next_sequences [] = []"
| "number_events st next_sequences (event # events) =
     (let n = (case next_sequences (ve_sessionId event) of
                 None \<Rightarrow> next_sequence (ve_sessionId event) st | Some n \<Rightarrow> n)
      in event\<lparr>ve_sequence := n\<rparr>
         # number_events st (next_sequences(ve_sessionId event \<mapsto> n + 1)) events)"

definition append_many :: "event list \<Rightarrow> memory_log \<Rightarrow> memory_log \<times> event list" where
  "append_many events st =
     (let prepared = number_events st Map.empty events
      in (fold push prepared st, prepared))"

definition memory_get_by_type :: "str \<Rightarrow> event_type \<Rightarrow> memory_log \<Rightarrow> event list" where
  "memory_get_by_type session_id ty st = filter (\<lambda>e. ve_type e = ty) (st session_id)"

definition memory_latest :: "str \<Rightarrow> memory_log \<Rightarrow> event option" where
  "memory_latest session_id st =
     (if st session_id = [] then None else Some (last (st session_id)))"

definition memory_count :: "str \<Rightarrow> memory_log \<Rightarrow> nat" where
  "memory_count session_id st = length (st session_id)"

definition memory_has_source_event :: "str \<Rightarrow> str \<Rightarrow> memory_log \<Rightarrow> bool" where
  "memory_has_source_event session_id source_event_id st \<longleftrightarrow>
     list_ex (\<lambda>e. map_of (ve_payload e) source_key = Some (Scalar (JStr source_event_id)))
       (st session_id)"

section \<open>The SQL repository\<close>

definition session_events :: "str \<Rightarrow> db \<Rightarrow> audit_event_row list" where
  "session_events session_id d = filter (\<lambda>e. ae_session_id e = session_id) (t_audit_events d)"

definition by_source :: "str \<Rightarrow> str \<Rightarrow> db \<Rightarrow> audit_event_row option" where
  "by_source session_id source d =
     List.find (\<lambda>e. ae_session_id e = session_id \<and> ae_source_openhands_event_id e = Some source)
       (t_audit_events d)"

definition latest_sequence :: "str \<Rightarrow> db \<Rightarrow> int option" where
  "latest_sequence session_id d =
     (case map ae_sequence (session_events session_id d) of
        [] \<Rightarrow> None | n # ns \<Rightarrow> Some (fold max ns n))"

text \<open>The flush: the primary key, the two unique constraints (a NULL source never collides) and
  the foreign key to the session.\<close>

definition insert_audit_event :: "audit_event_row \<Rightarrow> db \<Rightarrow> exc + db" where
  "insert_audit_event e d =
     (if (\<exists>x \<in> set (t_audit_events d). ae_event_id x = ae_event_id e
            \<or> ae_session_id x = ae_session_id e
              \<and> (ae_sequence x = ae_sequence e
                \<or> ae_source_openhands_event_id e \<noteq> None
                  \<and> ae_source_openhands_event_id x = ae_source_openhands_event_id e))
      then Inl (IntegrityError ''UNIQUE constraint failed'')
      else if find_session (ae_session_id e) d = None
      then Inl (IntegrityError ''FOREIGN KEY constraint failed'')
      else Inr (d\<lparr>t_audit_events := t_audit_events d @ [e]\<rparr>))"

definition audit_append ::
  "str \<Rightarrow> str \<Rightarrow> str \<Rightarrow> json \<Rightarrow> str option \<Rightarrow> str option \<Rightarrow> str \<Rightarrow> datetime \<Rightarrow> db
    \<Rightarrow> exc + db \<times> audit_event_row" where
  "audit_append session_id event_type actor payload source event_id fresh now d =
     (case (case event_id of None \<Rightarrow> None
            | Some e \<Rightarrow> List.find (\<lambda>x. ae_event_id x = e) (t_audit_events d)) of
        Some existing \<Rightarrow> Inr (d, existing)
      | None \<Rightarrow>
        (case (case source of None \<Rightarrow> None | Some s \<Rightarrow> by_source session_id s d) of
           Some existing \<Rightarrow> Inr (d, existing)
         | None \<Rightarrow>
           let model = \<lparr>ae_event_id = event_id_or event_id fresh, ae_session_id = session_id,
                 ae_sequence = (case latest_sequence session_id d of None \<Rightarrow> 0 | Some n \<Rightarrow> n) + 1,
                 ae_type = event_type, ae_actor = actor, ae_payload_json = payload,
                 ae_source_openhands_event_id = source, ae_created_at = now\<rparr>
           in andthen (insert_audit_event model d) (\<lambda>d'. Inr (d', model))))"

definition audit_list :: "str \<Rightarrow> db \<Rightarrow> audit_event_row list" where
  "audit_list session_id d = sort_key ae_sequence (session_events session_id d)"

definition audit_latest :: "str \<Rightarrow> db \<Rightarrow> audit_event_row option" where
  "audit_latest session_id d =
     (case sort_key (\<lambda>e. - ae_sequence e) (session_events session_id d) of
        [] \<Rightarrow> None | e # _ \<Rightarrow> Some e)"

definition audit_has_source_event :: "str \<Rightarrow> str \<Rightarrow> db \<Rightarrow> bool" where
  "audit_has_source_event session_id source d \<longleftrightarrow> by_source session_id source d \<noteq> None"

section \<open>The persistent store\<close>

text \<open>\<open>_runtime_event\<close>: \<open>Event\<close> refuses a type or an actor outside its literals.\<close>

definition event_type_of :: "str \<Rightarrow> exc + event_type" where
  "event_type_of s = (case List.find (\<lambda>t. lit (event_type_value t) = s) all_event_types of
     None \<Rightarrow> Inl (ValueError ''type'') | Some t \<Rightarrow> Inr t)"

definition actor_of :: "str \<Rightarrow> exc + actor" where
  "actor_of s = (case List.find (\<lambda>a. lit (actor_value a) = s) all_actors of
     None \<Rightarrow> Inl (ValueError ''actor'') | Some a \<Rightarrow> Inr a)"

definition payload_of :: "json \<Rightarrow> exc + payload" where
  "payload_of j = (case j of Obj p \<Rightarrow> Inr p | _ \<Rightarrow> Inl (ValueError ''payload''))"

definition runtime_event :: "audit_event_row \<Rightarrow> exc + event" where
  "runtime_event stored =
     andthen (event_type_of (ae_type stored)) (\<lambda>ty.
     andthen (actor_of (ae_actor stored)) (\<lambda>actor.
     andthen (payload_of (ae_payload_json stored)) (\<lambda>payload.
     Inr \<lparr>ve_id = ae_event_id stored, ve_sessionId = ae_session_id stored, ve_type = ty,
       ve_sequence = ae_sequence stored, ve_createdAt = ae_created_at stored, ve_actor = actor,
       ve_payload = payload\<rparr>)))"

fun runtime_events :: "audit_event_row list \<Rightarrow> exc + event list" where
  "runtime_events [] = Inr []"
| "runtime_events (e # es) =
     andthen (runtime_event e) (\<lambda>x. andthen (runtime_events es) (\<lambda>xs. Inr (x # xs)))"

definition payload_source :: "payload \<Rightarrow> str option" where
  "payload_source payload = (case map_of payload source_key of
     Some (Scalar (JStr s)) \<Rightarrow> Some s | _ \<Rightarrow> None)"

text \<open>The event is built after the commit, so a failure there leaves the new row in place.\<close>

definition persistent_append ::
  "str \<Rightarrow> event_type \<Rightarrow> actor \<Rightarrow> payload \<Rightarrow> str option \<Rightarrow> str \<Rightarrow> datetime \<Rightarrow> db \<Rightarrow> db \<times> (exc + event)" where
  "persistent_append session_id ty actor payload event_id fresh now d =
     (case audit_append session_id (lit (event_type_value ty)) (lit (actor_value actor)) (Obj payload)
             (payload_source payload) event_id fresh now d of
        Inl e \<Rightarrow> (d, Inl e)
      | Inr (d', stored) \<Rightarrow> (d', runtime_event stored))"

definition persistent_list :: "str \<Rightarrow> db \<Rightarrow> exc + event list" where
  "persistent_list session_id d = runtime_events (audit_list session_id d)"

definition persistent_latest :: "str \<Rightarrow> db \<Rightarrow> exc + event option" where
  "persistent_latest session_id d = (case audit_latest session_id d of
     None \<Rightarrow> Inr None | Some e \<Rightarrow> andthen (runtime_event e) (\<lambda>x. Inr (Some x)))"

definition persistent_get_by_type :: "str \<Rightarrow> event_type \<Rightarrow> db \<Rightarrow> exc + event list" where
  "persistent_get_by_type session_id ty d =
     andthen (persistent_list session_id d) (\<lambda>es. Inr (filter (\<lambda>e. ve_type e = ty) es))"

definition persistent_count :: "str \<Rightarrow> db \<Rightarrow> exc + nat" where
  "persistent_count session_id d =
     andthen (persistent_list session_id d) (\<lambda>es. Inr (length es))"

section \<open>The invariant of the SQL log\<close>

definition audit_inv :: "db \<Rightarrow> bool" where
  "audit_inv d \<longleftrightarrow> unique_key ae_event_id (t_audit_events d)
     \<and> (\<forall>i. map ae_sequence (session_events i d) = map int [1..<Suc (length (session_events i d))])
     \<and> unique_key (\<lambda>e. (ae_session_id e, ae_source_openhands_event_id e))
         (filter (\<lambda>e. ae_source_openhands_event_id e \<noteq> None) (t_audit_events d))
     \<and> (\<forall>e \<in> set (t_audit_events d). find_session (ae_session_id e) d \<noteq> None)"

lemma find_session_audit [simp]: "find_session i (d\<lparr>t_audit_events := es\<rparr>) = find_session i d"
  by (simp add: find_session_def)

lemma session_events_insert:
  "session_events i (d\<lparr>t_audit_events := t_audit_events d @ [e]\<rparr>) =
     (if ae_session_id e = i then session_events i d @ [e] else session_events i d)"
  by (simp add: session_events_def)

lemma set_session_events: "e \<in> set (session_events i d) \<longleftrightarrow> e \<in> set (t_audit_events d) \<and> ae_session_id e = i"
  by (auto simp: session_events_def)

lemma fold_max_last:
  assumes "sorted (n # ns)"
  shows "fold max ns n = last (n # ns)"
  using assms by (induction ns arbitrary: n) (auto simp: max_def)

lemma sorted_ints: "sorted (map int [1..<Suc n])"
  by (induction n) (auto simp: sorted_append)

lemma latest_sequence_inv:
  assumes "audit_inv d"
  shows "(case latest_sequence i d of None \<Rightarrow> 0 | Some n \<Rightarrow> n) = int (length (session_events i d))"
proof -
  let ?n = "length (session_events i d)"
  have m: "map ae_sequence (session_events i d) = map int [1..<Suc ?n]"
    using assms by (simp only: audit_inv_def)
  show ?thesis
  proof (cases "map ae_sequence (session_events i d)")
    case Nil
    then show ?thesis by (simp add: latest_sequence_def)
  next
    case (Cons n ns)
    then have "fold max ns n = last (map int [1..<Suc ?n])"
      using fold_max_last[of n ns] sorted_ints[of ?n] unfolding m by simp
    moreover have "?n \<noteq> 0" using Cons by auto
    ultimately show ?thesis using Cons by (simp add: latest_sequence_def last_map)
  qed
qed

lemma sequence_in_range:
  assumes "audit_inv d" and "x \<in> set (t_audit_events d)"
  shows "1 \<le> ae_sequence x \<and> ae_sequence x \<le> int (length (session_events (ae_session_id x) d))"
proof -
  let ?es = "session_events (ae_session_id x) d"
  have "ae_sequence x \<in> set (map ae_sequence ?es)" using assms(2) by (simp add: set_session_events)
  moreover have "map ae_sequence ?es = map int [1..<Suc (length ?es)]"
    using assms(1) by (simp only: audit_inv_def)
  ultimately have "ae_sequence x \<in> set (map int [1..<Suc (length ?es)])" by (simp only:)
  then show ?thesis by auto
qed

lemma audit_list_inv: "audit_inv d \<Longrightarrow> audit_list i d = session_events i d"
  unfolding audit_list_def
  by (rule sort_key_id_if_sorted) (simp only: audit_inv_def sorted_ints)

lemma insert_audit_event_inv:
  assumes "audit_inv d" and "insert_audit_event e d = Inr d'"
    and "ae_sequence e = int (length (session_events (ae_session_id e) d)) + 1"
  shows "audit_inv d'" and "d' = d\<lparr>t_audit_events := t_audit_events d @ [e]\<rparr>"
    and "audit_list i d' = audit_list i d @ (if ae_session_id e = i then [e] else [])"
proof -
  have d': "d' = d\<lparr>t_audit_events := t_audit_events d @ [e]\<rparr>"
    and new: "ae_event_id e \<notin> ae_event_id ` set (t_audit_events d)"
      "find_session (ae_session_id e) d \<noteq> None"
    and src: "\<And>x. x \<in> set (t_audit_events d) \<Longrightarrow> ae_session_id x = ae_session_id e \<Longrightarrow>
      ae_source_openhands_event_id e \<noteq> None \<Longrightarrow>
      ae_source_openhands_event_id x \<noteq> ae_source_openhands_event_id e"
    using assms(2) by (auto simp: insert_audit_event_def split: if_splits)
  have seq: "map ae_sequence (session_events i d') = map int [1..<Suc (length (session_events i d'))]" for i
  proof -
    have "map ae_sequence (session_events i d) = map int [1..<Suc (length (session_events i d))]"
      using assms(1) by (simp only: audit_inv_def)
    then show ?thesis
      using assms(3) unfolding d' session_events_insert
      by (cases "ae_session_id e = i") (simp_all del: upt_Suc add: upt_Suc_append)
  qed
  show inv: "audit_inv d'"
    unfolding audit_inv_def
  proof (intro conjI allI)
    show "unique_key ae_event_id (t_audit_events d')"
      using assms(1) new by (simp add: d' audit_inv_def unique_key_append1)
    show "unique_key (\<lambda>e. (ae_session_id e, ae_source_openhands_event_id e))
        (filter (\<lambda>e. ae_source_openhands_event_id e \<noteq> None) (t_audit_events d'))"
      using assms(1) src by (auto simp: d' audit_inv_def unique_key_append1)
    show "\<forall>e \<in> set (t_audit_events d'). find_session (ae_session_id e) d' \<noteq> None"
      using assms(1) new by (auto simp: d' audit_inv_def)
  qed (rule seq)
  show "d' = d\<lparr>t_audit_events := t_audit_events d @ [e]\<rparr>" by (rule d')
  show "audit_list i d' = audit_list i d @ (if ae_session_id e = i then [e] else [])"
    unfolding audit_list_inv[OF assms(1)] audit_list_inv[OF inv] unfolding d' session_events_insert
    by simp
qed

section \<open>What an append does\<close>

text \<open>The event a call replays: by its id, anywhere, or by its source, in the session.\<close>

definition replayed :: "str \<Rightarrow> str option \<Rightarrow> str option \<Rightarrow> db \<Rightarrow> audit_event_row option" where
  "replayed session_id source event_id d =
     (case (case event_id of None \<Rightarrow> None
            | Some e \<Rightarrow> List.find (\<lambda>x. ae_event_id x = e) (t_audit_events d)) of
        Some x \<Rightarrow> Some x
      | None \<Rightarrow> (case source of None \<Rightarrow> None | Some s \<Rightarrow> by_source session_id s d))"

lemma audit_append_replayed:
  "replayed i src eid d = Some x \<Longrightarrow> audit_append i ty actor p src eid fresh now d = Inr (d, x)"
  by (auto simp: audit_append_def replayed_def split: option.splits)

definition new_event ::
  "str \<Rightarrow> str \<Rightarrow> str \<Rightarrow> json \<Rightarrow> str option \<Rightarrow> str option \<Rightarrow> str \<Rightarrow> datetime \<Rightarrow> db \<Rightarrow> audit_event_row" where
  "new_event i ty actor p src eid fresh now d =
     \<lparr>ae_event_id = event_id_or eid fresh, ae_session_id = i,
      ae_sequence = int (length (session_events i d)) + 1, ae_type = ty, ae_actor = actor,
      ae_payload_json = p, ae_source_openhands_event_id = src, ae_created_at = now\<rparr>"

lemma audit_append_fresh:
  "audit_inv d \<Longrightarrow> replayed i src eid d = None \<Longrightarrow> audit_append i ty actor p src eid fresh now d =
     andthen (insert_audit_event (new_event i ty actor p src eid fresh now d) d)
       (\<lambda>d'. Inr (d', new_event i ty actor p src eid fresh now d))"
  by (simp add: audit_append_def replayed_def new_event_def latest_sequence_inv Let_def
      split: option.splits)

lemma audit_append_cases:
  assumes "audit_inv d" and "audit_append i ty actor p src eid fresh now d = Inr (d', x)"
  obtains (replay) "replayed i src eid d = Some x" "d' = d"
  | (new) "replayed i src eid d = None" "x = new_event i ty actor p src eid fresh now d"
      "insert_audit_event x d = Inr d'"
proof (cases "replayed i src eid d")
  case None
  let ?e = "new_event i ty actor p src eid fresh now d"
  have "andthen (insert_audit_event ?e d) (\<lambda>d'. Inr (d', ?e)) = Inr (d', x)"
    using assms(2) unfolding audit_append_fresh[OF assms(1) None] .
  then have x: "x = ?e" and "insert_audit_event ?e d = Inr d'"
    by (cases "insert_audit_event ?e d"; simp)+
  then have "insert_audit_event x d = Inr d'" by (simp only:)
  then show ?thesis using None x new by blast
next
  case (Some y)
  have "Inr (d, y) = (Inr (d', x) :: exc + db \<times> audit_event_row)"
    using assms(2) unfolding audit_append_replayed[OF Some] .
  then have "d' = d" and "y = x" by simp_all
  then show ?thesis using Some replay by blast
qed

lemma new_event_fields [simp]:
  "ae_session_id (new_event i ty actor p src eid fresh now d) = i"
  "ae_sequence (new_event i ty actor p src eid fresh now d) = int (length (session_events i d)) + 1"
  by (simp_all add: new_event_def)

lemma audit_append_inv:
  assumes "audit_inv d" and "audit_append i ty actor p src eid fresh now d = Inr (d', x)"
  shows "audit_inv d'"
  using assms(1,2) by (cases rule: audit_append_cases) (auto intro: insert_audit_event_inv(1) assms(1))

definition try_audit_append ::
  "str \<Rightarrow> str \<times> str \<times> json \<times> str option \<times> str \<times> datetime \<Rightarrow> str option \<Rightarrow> db \<Rightarrow> (db \<times> audit_event_row) option" where
  "try_audit_append i c event_id d = (case c of (ty, actor, p, src, fresh, now) \<Rightarrow>
     case audit_append i ty actor p src event_id fresh now d of Inl _ \<Rightarrow> None | Inr r \<Rightarrow> Some r)"

definition audit_known ::
  "str \<Rightarrow> str \<times> str \<times> json \<times> str option \<times> str \<times> datetime \<Rightarrow> str option \<Rightarrow> db \<Rightarrow> bool" where
  "audit_known i c event_id d = (case c of (ty, actor, p, src, fresh, now) \<Rightarrow>
     replayed i src event_id d \<noteq> None)"

lemma try_audit_append_Some:
  "try_audit_append i (ty, actor, p, src, fresh, now) eid d = Some (d', x)
    \<longleftrightarrow> audit_append i ty actor p src eid fresh now d = Inr (d', x)"
  by (auto simp: try_audit_append_def split: sum.splits)

interpretation sql_log: event_log audit_inv audit_list try_audit_append ae_sequence audit_known
proof
  fix s s' :: db and i e and c :: "str \<times> str \<times> json \<times> str option \<times> str \<times> datetime" and x
  assume inv: "audit_inv s" and app: "try_audit_append i c e s = Some (s', x)"
  obtain ty actor p src fresh now where c: "c = (ty, actor, p, src, fresh, now)" by (cases c)
  note a = app[unfolded c try_audit_append_Some]
  show "audit_inv s'" using inv a by (rule audit_append_inv)
  show "s' = s" if "audit_known i c e s"
    using that a unfolding c by (auto simp: audit_known_def audit_append_replayed)
  show "audit_list i s' = audit_list i s @ [x] \<and> ae_sequence x = int (length (audit_list i s)) + 1"
    if "\<not> audit_known i c e s"
    using inv a
  proof (cases rule: audit_append_cases)
    case replay
    then show ?thesis using that by (simp add: c audit_known_def)
  next
    case new
    have seq: "ae_sequence x = int (length (session_events (ae_session_id x) s)) + 1"
      and i: "ae_session_id x = i" using new(2) by simp_all
    show ?thesis
      using insert_audit_event_inv(3)[OF inv new(3) seq, of i] seq i
      by (simp add: audit_list_inv[OF inv])
  qed
  show "audit_list j s' = audit_list j s" if "j \<noteq> i" for j
    using inv a
  proof (cases rule: audit_append_cases)
    case new
    have seq: "ae_sequence x = int (length (session_events (ae_session_id x) s)) + 1"
      and i: "ae_session_id x = i" using new(2) by simp_all
    show ?thesis using insert_audit_event_inv(3)[OF inv new(3) seq, of j] that i by simp
  qed simp
qed

section \<open>The in-memory log\<close>

definition memory_inv :: "memory_log \<Rightarrow> bool" where
  "memory_inv st \<longleftrightarrow> (\<forall>i. map ve_sequence (st i) = map int [1..<Suc (length (st i))]
     \<and> list_all (\<lambda>e. ve_sessionId e = i) (st i))"

definition try_memory_append ::
  "str \<Rightarrow> event_type \<times> actor \<times> payload \<times> str \<times> datetime \<Rightarrow> str option \<Rightarrow> memory_log \<Rightarrow> (memory_log \<times> event) option" where
  "try_memory_append i c event_id st =
     (case c of (ty, actor, p, fresh, now) \<Rightarrow> Some (memory_append i ty actor p event_id fresh now st))"

definition memory_known ::
  "str \<Rightarrow> event_type \<times> actor \<times> payload \<times> str \<times> datetime \<Rightarrow> str option \<Rightarrow> memory_log \<Rightarrow> bool" where
  "memory_known i c event_id st \<longleftrightarrow> (\<exists>e. event_id = Some e \<and> e \<in> ve_id ` set (st i))"

lemma find_id_None: "List.find (\<lambda>x. f x = e) xs = None \<longleftrightarrow> e \<notin> f ` set xs"
  by (auto simp: find_None_iff)

lemma memory_append_cases:
  assumes "memory_append i ty actor p eid fresh now st = (st', x)"
  obtains (replay) e where "eid = Some e" "List.find (\<lambda>x. ve_id x = e) (st i) = Some x" "st' = st"
  | (new) "\<not> memory_known i c eid st" "st' = st(i := st i @ [x])"
      "x = \<lparr>ve_id = event_id_or eid fresh, ve_sessionId = i, ve_type = ty,
         ve_sequence = next_sequence i st, ve_createdAt = now, ve_actor = actor, ve_payload = p\<rparr>"
proof (cases "case eid of None \<Rightarrow> None | Some e \<Rightarrow> List.find (\<lambda>x. ve_id x = e) (st i)")
  case None
  let ?x = "\<lparr>ve_id = event_id_or eid fresh, ve_sessionId = i, ve_type = ty,
    ve_sequence = next_sequence i st, ve_createdAt = now, ve_actor = actor, ve_payload = p\<rparr>"
  have "\<not> memory_known i c eid st"
    using None by (auto simp: memory_known_def find_id_None split: option.splits)
  moreover have "memory_append i ty actor p eid fresh now st = (st(i := st i @ [?x]), ?x)"
    by (simp add: memory_append_def None Let_def)
  then have "x = ?x" and "st' = st(i := st i @ [?x])" using assms by simp_all
  ultimately show ?thesis using new by blast
next
  case (Some y)
  then obtain e where e: "eid = Some e" "List.find (\<lambda>x. ve_id x = e) (st i) = Some y"
    by (auto split: option.splits)
  then have "memory_append i ty actor p eid fresh now st = (st, y)" by (simp add: memory_append_def)
  then have "y = x" and "st' = st" using assms by simp_all
  then show ?thesis using replay e by blast
qed

lemma memory_inv_append:
  assumes "memory_inv st" and "ve_sequence x = next_sequence i st" and "ve_sessionId x = i"
  shows "memory_inv (st(i := st i @ [x]))"
proof -
  have "map ve_sequence (st j) = map int [1..<Suc (length (st j))]" for j
    using assms(1) by (simp only: memory_inv_def)
  then show ?thesis
    using assms unfolding memory_inv_def
    by (simp add: next_sequence_def list_all_iff del: upt_Suc) (simp add: upt_Suc_append)
qed

lemma memory_known_find:
  "memory_known i c eid st \<longleftrightarrow> (\<exists>e y. eid = Some e \<and> List.find (\<lambda>x. ve_id x = e) (st i) = Some y)"
  using find_id_None[of ve_id "the eid" "st i"]
  by (cases eid) (simp_all add: memory_known_def flip: not_None_eq)

interpretation memory: event_log memory_inv "\<lambda>i st. st i" try_memory_append ve_sequence memory_known
proof
  fix s s' :: memory_log and i j e and c :: "event_type \<times> actor \<times> payload \<times> str \<times> datetime" and x
  assume inv: "memory_inv s" and app: "try_memory_append i c e s = Some (s', x)"
  obtain ty actor p fresh now where c: "c = (ty, actor, p, fresh, now)" by (cases c)
  have a: "memory_append i ty actor p e fresh now s = (s', x)"
    using app by (simp add: c try_memory_append_def)
  show "memory_inv s'"
    using a by (cases rule: memory_append_cases) (use inv memory_inv_append[of s x i] in simp_all)
  show "s' = s" if "memory_known i c e s"
    using a by (cases rule: memory_append_cases[where c = c]) (use that in simp_all)
  show "s' i = s i @ [x] \<and> ve_sequence x = int (length (s i)) + 1" if "\<not> memory_known i c e s"
    using a
  proof (cases rule: memory_append_cases[where c = c])
    case (replay e)
    then show ?thesis using that memory_known_find by blast
  qed (simp add: next_sequence_def)
  show "s' j = s j" if "j \<noteq> i"
    using a by (cases rule: memory_append_cases) (use that in simp_all)
qed

text \<open>The reference for \<open>append_many\<close>: one \<open>append_event\<close> after the other.\<close>

fun append_events :: "event list \<Rightarrow> memory_log \<Rightarrow> memory_log \<times> event list" where
  "append_events [] st = (st, [])"
| "append_events (e # es) st =
     (let (st1, x) = append_event e st; (st2, xs) = append_events es st1 in (st2, x # xs))"

lemma number_events_append:
  assumes "\<And>i. (case ns i of None \<Rightarrow> next_sequence i st | Some n \<Rightarrow> n) = next_sequence i cur"
  shows "(fold push (number_events st ns es) cur, number_events st ns es) = append_events es cur"
  using assms
proof (induction es arbitrary: ns cur)
  case (Cons e es)
  let ?e = "e\<lparr>ve_sequence := next_sequence (ve_sessionId e) cur\<rparr>"
  let ?ns = "ns(ve_sessionId e \<mapsto> next_sequence (ve_sessionId e) cur + 1)"
  have "(case ?ns i of None \<Rightarrow> next_sequence i st | Some n \<Rightarrow> n) = next_sequence i (push ?e cur)" for i
    using Cons.prems[of i] by (simp add: next_sequence_def push_def)
  then have "append_events es (push ?e cur) =
      (fold push (number_events st ?ns es) (push ?e cur), number_events st ?ns es)"
    by (rule Cons.IH[symmetric])
  then show ?case by (simp add: Cons.prems append_event_def Let_def)
qed simp

text \<open>C35.
  \<open>append_many\<close> numbers a batch, over any mixture of sessions, exactly as appending its events one
  after the other would, and leaves the same store.\<close>

theorem append_many_sequential: "append_many es st = append_events es st"
  unfolding append_many_def Let_def by (rule number_events_append) simp

section \<open>Properties of the SQL log\<close>

lemma audit_latest_inv:
  assumes "audit_inv d"
  shows "audit_latest i d = (if session_events i d = [] then None else Some (last (session_events i d)))"
proof -
  let ?es = "session_events i d"
  have m: "map ae_sequence ?es = map int [1..<Suc (length ?es)]"
    using assms by (simp only: audit_inv_def)
  have "sort_key (\<lambda>e. - ae_sequence e) ?es = rev ?es"
  proof (rule sort_key_inj_key_eq)
    show "mset ?es = mset (rev ?es)" by simp
    have "distinct (map ae_sequence ?es)" unfolding m by (simp add: distinct_map)
    then show "inj_on (\<lambda>e. - ae_sequence e) (set ?es)" by (simp add: distinct_map inj_on_def)
    have "sorted (map ae_sequence ?es)" unfolding m by (rule sorted_ints)
    then show "sorted (map (\<lambda>e. - ae_sequence e) (rev ?es))"
      by (simp add: sorted_wrt_map sorted_wrt_rev)
  qed
  then show ?thesis by (cases ?es rule: rev_cases) (simp_all add: audit_latest_def)
qed

inductive audit_step :: "db \<Rightarrow> db \<Rightarrow> bool" where
  audit_stepI: "audit_append i ty actor p src eid fresh now d = Inr (d', x) \<Longrightarrow> audit_step d d'"

lemma audit_step_iff: "audit_step = sql_log.appends"
proof (intro ext iffI)
  fix d d'
  assume "audit_step d d'"
  then show "sql_log.appends d d'"
    by cases (metis sql_log.appends_def try_audit_append_Some)
next
  fix d d'
  assume "sql_log.appends d d'"
  then obtain i c e x where a: "try_audit_append i c e d = Some (d', x)"
    unfolding sql_log.appends_def by blast
  obtain ty actor p src fresh now where "c = (ty, actor, p, src, fresh, now)" by (cases c)
  then show "audit_step d d'" using a by (auto simp: try_audit_append_Some intro: audit_stepI)
qed

text \<open>C31.
  Over any run of appends a session's log only grows at its end: what was listed before stays
  where it is, and the sequence numbers are always 1, 2, 3 and so on without a gap. \<open>latest\<close> is the last
  entry of the list.\<close>

theorem audit_log_append_only:
  assumes "audit_inv d" and "audit_step\<^sup>*\<^sup>* d d'"
  shows "(\<exists>es. audit_list i d' = audit_list i d @ es)
    \<and> map ae_sequence (audit_list i d') = map int [1..<Suc (length (audit_list i d'))]
    \<and> audit_latest i d' = (if audit_list i d' = [] then None else Some (last (audit_list i d')))"
proof -
  have run: "sql_log.appends\<^sup>*\<^sup>* d d'" using assms(2) by (simp only: audit_step_iff)
  have inv: "audit_inv d'" by (rule sql_log.appends_inv[OF run assms(1)])
  show ?thesis
    using sql_log.appends_prefix[OF run assms(1), of i] audit_latest_inv[OF inv, of i] inv
    unfolding audit_list_inv[OF inv] audit_inv_def by blast
qed

lemma append_insert_ok:
  assumes "audit_inv d" and "replayed i src eid d = None"
    and "find_session i d \<noteq> None" and "fresh \<notin> ae_event_id ` set (t_audit_events d)"
  shows "insert_audit_event (new_event i ty actor p src eid fresh now d) d =
    Inr (d\<lparr>t_audit_events := t_audit_events d @ [new_event i ty actor p src eid fresh now d]\<rparr>)"
proof -
  let ?e = "new_event i ty actor p src eid fresh now d"
  have id: "ae_event_id ?e \<notin> ae_event_id ` set (t_audit_events d)"
    using assms(2,4) by (auto simp: new_event_def event_id_or_def replayed_def find_id_None split: option.splits)
  have src: "ae_source_openhands_event_id x \<noteq> src" if "x \<in> set (t_audit_events d)" "ae_session_id x = i" "src \<noteq> None" for x
    using assms(2) that by (auto simp: replayed_def by_source_def find_None_iff split: option.splits)
  have seq: "ae_sequence x \<noteq> ae_sequence ?e" if "x \<in> set (t_audit_events d)" "ae_session_id x = i" for x
    using sequence_in_range[OF assms(1) that(1)] that(2) by simp
  have "ae_source_openhands_event_id ?e = src" by (simp add: new_event_def)
  then have "\<not> (\<exists>x \<in> set (t_audit_events d). ae_event_id x = ae_event_id ?e
            \<or> ae_session_id x = ae_session_id ?e
              \<and> (ae_sequence x = ae_sequence ?e
                \<or> ae_source_openhands_event_id ?e \<noteq> None
                  \<and> ae_source_openhands_event_id x = ae_source_openhands_event_id ?e))"
    using id src seq unfolding new_event_fields(1) by (metis imageI)
  then show ?thesis using assms(3) by (simp add: insert_audit_event_def del: new_event_fields(2))
qed

text \<open>What an append does in an existing session when the fresh id is really fresh: an event with the
  given id (in any session), or else one of this session with the given source, is returned again
  and nothing is written; otherwise exactly one event is written, at the end of the session's list, with
  the next sequence number, the given id (or the fresh one) and the given content. It never
  raises.\<close>

theorem audit_append_correct:
  assumes "audit_inv d" and "find_session i d \<noteq> None" and "fresh \<notin> ae_event_id ` set (t_audit_events d)"
  shows "\<exists>d' e. audit_append i ty actor p src eid fresh now d = Inr (d', e) \<and> audit_inv d' \<and>
    (case replayed i src eid d of
       Some e0 \<Rightarrow> e = e0 \<and> d' = d
     | None \<Rightarrow> audit_list i d' = audit_list i d @ [e] \<and> ae_sequence e = int (length (audit_list i d)) + 1
         \<and> ae_event_id e = event_id_or eid fresh \<and> ae_session_id e = i \<and> ae_type e = ty \<and> ae_actor e = actor
         \<and> ae_payload_json e = p \<and> ae_source_openhands_event_id e = src \<and> ae_created_at e = now)"
proof (cases "replayed i src eid d")
  case None
  let ?e = "new_event i ty actor p src eid fresh now d"
  let ?d = "d\<lparr>t_audit_events := t_audit_events d @ [?e]\<rparr>"
  note ins = append_insert_ok[OF assms(1) None assms(2,3), of ty actor p now]
  have seq: "ae_sequence ?e = int (length (session_events (ae_session_id ?e) d)) + 1" by simp
  have "audit_append i ty actor p src eid fresh now d = Inr (?d, ?e)"
    unfolding audit_append_fresh[OF assms(1) None] ins by simp
  moreover have "audit_inv ?d" "audit_list i ?d = audit_list i d @ [?e]"
    using insert_audit_event_inv(1)[OF assms(1) ins seq] insert_audit_event_inv(3)[OF assms(1) ins seq, of i]
    by simp_all
  ultimately show ?thesis by (simp add: None audit_list_inv[OF assms(1)]) (simp add: new_event_def)
next
  case (Some e0)
  then show ?thesis using assms(1) audit_append_replayed[OF Some] by simp
qed

section \<open>The SQL store refines the in-memory store\<close>

text \<open>A database represents an in-memory store when every session lists the same events.\<close>

definition represents :: "db \<Rightarrow> memory_log \<Rightarrow> bool" where
  "represents d st \<longleftrightarrow> (\<forall>i. persistent_list i d = Inr (st i))"

lemma runtime_events_append:
  "runtime_events (xs @ ys) =
     andthen (runtime_events xs) (\<lambda>as. andthen (runtime_events ys) (\<lambda>bs. Inr (as @ bs)))"
  by (induction xs) (simp_all add: andthen_def split: sum.splits)

lemma runtime_events_Inr: "runtime_events xs = Inr ys \<longleftrightarrow> list_all2 (\<lambda>x y. runtime_event x = Inr y) xs ys"
proof (induction xs arbitrary: ys)
  case (Cons x xs)
  show ?case by (cases ys) (auto simp: andthen_Inr_iff Cons.IH)
qed auto

lemma runtime_event_fields:
  "runtime_event x = Inr y \<Longrightarrow> ve_id y = ae_event_id x \<and> ve_sequence y = ae_sequence x"
  unfolding runtime_event_def andthen_Inr_iff by fastforce

lemma event_type_value_of [simp]: "event_type_of (lit (event_type_value ty)) = Inr ty"
  by (cases ty) (simp_all add: event_type_of_def all_event_types_def)

lemma actor_value_of [simp]: "actor_of (lit (actor_value a)) = Inr a"
  by (cases a) (simp_all add: actor_of_def all_actors_def)

lemma represents_find:
  assumes "audit_inv d" and "represents d st"
    and "x \<in> set (t_audit_events d)" and "ae_session_id x = i"
  shows "\<exists>y. runtime_event x = Inr y \<and> List.find (\<lambda>z. ve_id z = ae_event_id x) (st i) = Some y"
proof -
  let ?es = "session_events i d"
  have all: "list_all2 (\<lambda>x y. runtime_event x = Inr y) ?es (st i)"
    using assms(2) unfolding represents_def persistent_list_def audit_list_inv[OF assms(1)] runtime_events_Inr
    by blast
  have x: "x \<in> set ?es" using assms(3,4) by (simp add: set_session_events)
  then obtain n where n: "n < length ?es" "?es ! n = x" unfolding in_set_conv_nth by blast
  define y where "y = st i ! n"
  have y: "y \<in> set (st i)" "runtime_event x = Inr y"
    using all n by (auto simp: list_all2_conv_all_nth y_def)
  have "map ae_event_id ?es = map ve_id (st i)"
    using all by (induction rule: list_all2_induct) (auto dest: runtime_event_fields)
  moreover have "unique_key ae_event_id ?es"
    using assms(1) by (simp add: audit_inv_def unique_key_def session_events_def distinct_map_filter)
  ultimately have "unique_key ve_id (st i)" by (simp add: unique_key_def)
  then have "List.find (\<lambda>z. ve_id z = ve_id y) (st i) = Some y"
    using y(1) by (rule find_unique) simp_all
  moreover have "ve_id y = ae_event_id x" using runtime_event_fields[OF y(2)] by (rule conjunct1)
  ultimately show ?thesis using y(2) by simp
qed

lemma represents_ids:
  assumes "audit_inv d" and "represents d st"
  shows "ve_id ` set (st i) \<subseteq> ae_event_id ` set (t_audit_events d)"
proof -
  have "list_all2 (\<lambda>x y. runtime_event x = Inr y) (session_events i d) (st i)"
    using assms(2) unfolding represents_def persistent_list_def audit_list_inv[OF assms(1)] runtime_events_Inr
    by blast
  then have "map ae_event_id (session_events i d) = map ve_id (st i)"
    by (induction rule: list_all2_induct) (simp_all add: runtime_event_fields)
  then have "ve_id ` set (st i) = ae_event_id ` set (session_events i d)" by (metis list.set_map)
  then show ?thesis by (auto simp: set_session_events)
qed

text \<open>The SQL store refines the in-memory one. If a database represents an in-memory store, the session
  exists, the fresh id is unused, the given id (if any) is not the id of another session's event
  and the payload's source has not been recorded for the session, then an append in either store returns
  the same event and the resulting database represents the resulting store. Those last two conditions are
  where the implementations part: only the SQL store looks an id up across sessions and
  an event up by its source.\<close>

theorem persistent_refines_memory:
  assumes "audit_inv d" and "represents d st" and "find_session i d \<noteq> None"
    and "fresh \<notin> ae_event_id ` set (t_audit_events d)"
    and "\<forall>x \<in> set (t_audit_events d). eid = Some (ae_event_id x) \<longrightarrow> ae_session_id x = i"
    and "\<forall>s. payload_source p = Some s \<longrightarrow> by_source i s d = None"
  shows "\<exists>d' x. persistent_append i ty actor p eid fresh now d = (d', Inr x) \<and> audit_inv d'
    \<and> represents d' (fst (memory_append i ty actor p eid fresh now st))
    \<and> snd (memory_append i ty actor p eid fresh now st) = x"
proof (cases "replayed i (payload_source p) eid d")
  case (Some e0)
  have e0: "e0 \<in> set (t_audit_events d)" "eid = Some (ae_event_id e0)"
    using Some assms(6) by (auto simp: replayed_def split: option.splits dest: find_SomeD)
  then have "ae_session_id e0 = i" using assms(5) by blast
  then obtain y where y: "runtime_event e0 = Inr y"
    "List.find (\<lambda>z. ve_id z = ae_event_id e0) (st i) = Some y"
    using represents_find[OF assms(1,2) e0(1)] by blast
  have "memory_append i ty actor p eid fresh now st = (st, y)" by (simp add: memory_append_def e0(2) y(2))
  moreover have "persistent_append i ty actor p eid fresh now d = (d, Inr y)"
    by (simp add: persistent_append_def audit_append_replayed[OF Some] y(1))
  ultimately show ?thesis using assms(1,2) by simp
next
  case None
  let ?row = "new_event i (lit (event_type_value ty)) (lit (actor_value actor)) (Obj p)
    (payload_source p) eid fresh now d"
  let ?d = "d\<lparr>t_audit_events := t_audit_events d @ [?row]\<rparr>"
  let ?x = "\<lparr>ve_id = event_id_or eid fresh, ve_sessionId = i, ve_type = ty,
    ve_sequence = next_sequence i st, ve_createdAt = now, ve_actor = actor, ve_payload = p\<rparr>"
  have all: "list_all2 (\<lambda>x y. runtime_event x = Inr y) (session_events j d) (st j)" for j
    using assms(2) unfolding represents_def persistent_list_def audit_list_inv[OF assms(1)] runtime_events_Inr
    by blast
  note ins = append_insert_ok[OF assms(1) None assms(3,4), of "lit (event_type_value ty)" "lit (actor_value actor)" "Obj p" now]
  have seq: "ae_sequence ?row = int (length (session_events (ae_session_id ?row) d)) + 1" by simp
  have inv: "audit_inv ?d" by (rule insert_audit_event_inv(1)[OF assms(1) ins seq])
  have row: "runtime_event ?row = Inr ?x"
    by (simp add: runtime_event_def new_event_def payload_of_def next_sequence_def
        list_all2_lengthD[OF all[of i]])
  have ids: "ve_id ` set (st i) \<subseteq> ae_event_id ` set (t_audit_events d)"
    using represents_ids[OF assms(1,2)] .
  have "eid = None \<or> the eid \<notin> ve_id ` set (st i)"
    using None ids by (auto simp: replayed_def find_id_None split: option.splits)
  then have mem: "memory_append i ty actor p eid fresh now st = (st(i := st i @ [?x]), ?x)"
    by (auto simp: memory_append_def Let_def find_id_None[THEN iffD2] split: option.split)
  have per: "persistent_append i ty actor p eid fresh now d = (?d, Inr ?x)"
    unfolding persistent_append_def audit_append_fresh[OF assms(1) None] ins by (simp add: row)
  have "list_all2 (\<lambda>x y. runtime_event x = Inr y) (session_events j ?d) ((st(i := st i @ [?x])) j)" for j
    using all[of j] row unfolding session_events_insert
    by (cases "j = i") (auto simp del: new_event_fields(2) intro!: list_all2_appendI)
  then have "represents ?d (st(i := st i @ [?x]))"
    unfolding represents_def persistent_list_def audit_list_inv[OF inv] runtime_events_Inr by blast
  then show ?thesis using per mem inv by simp
qed

section \<open>Witnesses\<close>

definition audit_db :: db where
  "audit_db = empty_db\<lparr>t_sessions := [sample_session]\<rparr>"

lemma audit_db_inv: "audit_inv audit_db"
  by (simp add: audit_inv_def audit_db_def empty_db_def session_events_def unique_key_def)

lemma audit_db_session: "find_session (lit ''s1'') audit_db \<noteq> None"
  by (simp add: find_session_def audit_db_def empty_db_def sample_session_def)

lemma audit_db_step: "audit_step\<^sup>*\<^sup>* audit_db
  (audit_db\<lparr>t_audit_events := [new_event (lit ''s1'') (lit ''goal.submitted'') (lit ''user'') (Obj []) None None
     (lit ''evt_1'') 5 audit_db]\<rparr>)"
proof (rule r_into_rtranclp, rule audit_stepI)
  show "audit_append (lit ''s1'') (lit ''goal.submitted'') (lit ''user'') (Obj []) None None (lit ''evt_1'') 5 audit_db
    = Inr (audit_db\<lparr>t_audit_events := [new_event (lit ''s1'') (lit ''goal.submitted'') (lit ''user'') (Obj [])
        None None (lit ''evt_1'') 5 audit_db]\<rparr>,
      new_event (lit ''s1'') (lit ''goal.submitted'') (lit ''user'') (Obj []) None None (lit ''evt_1'') 5 audit_db)"
    using audit_db_session
    by (simp add: audit_append_def insert_audit_event_def latest_sequence_def session_events_def new_event_def
        audit_db_def empty_db_def Let_def)
qed

lemma audit_log_append_only_witness: "\<exists>d'. t_audit_events d' \<noteq> [] \<and>
  (\<exists>es. audit_list (lit ''s1'') d' = audit_list (lit ''s1'') audit_db @ es)"
proof -
  let ?d = "audit_db\<lparr>t_audit_events := [new_event (lit ''s1'') (lit ''goal.submitted'')
      (lit ''user'') (Obj []) None None (lit ''evt_1'') 5 audit_db]\<rparr>"
  have "\<exists>es. audit_list (lit ''s1'') ?d = audit_list (lit ''s1'') audit_db @ es"
    using audit_log_append_only[OF audit_db_inv audit_db_step, of "lit ''s1''"] by (rule conjunct1)
  moreover have "t_audit_events ?d \<noteq> []" by simp
  ultimately show ?thesis by blast
qed

lemma audit_append_correct_witness: "\<exists>d' e.
  audit_append (lit ''s1'') (lit ''goal.submitted'') (lit ''user'') (Obj []) None None (lit ''evt_1'') 5 audit_db
    = Inr (d', e) \<and> audit_list (lit ''s1'') d' = audit_list (lit ''s1'') audit_db @ [e]"
proof -
  have "replayed (lit ''s1'') None None audit_db = None" by (simp add: replayed_def)
  then show ?thesis
    using audit_append_correct[OF audit_db_inv audit_db_session, of "lit ''evt_1''" "lit ''goal.submitted''"
        "lit ''user''" "Obj []" None None 5]
    by (auto simp: audit_db_def empty_db_def)
qed

lemma persistent_refines_memory_witness: "\<exists>d' x.
  persistent_append (lit ''s1'') Goal_Submitted User [] None (lit ''evt_1'') 5 audit_db = (d', Inr x)
  \<and> represents d' (fst (memory_append (lit ''s1'') Goal_Submitted User [] None (lit ''evt_1'') 5 (\<lambda>_. [])))"
proof -
  have "represents audit_db (\<lambda>_. [])"
    by (simp add: represents_def persistent_list_def audit_list_def session_events_def audit_db_def empty_db_def)
  moreover have "lit ''evt_1'' \<notin> ae_event_id ` set (t_audit_events audit_db)"
    by (simp add: audit_db_def empty_db_def)
  moreover have "payload_source [] = None" by (simp add: payload_source_def)
  ultimately show ?thesis
    using persistent_refines_memory[OF audit_db_inv _ audit_db_session, of "\<lambda>_. []" "lit ''evt_1''" None "[]"
        Goal_Submitted User 5] by auto
qed

end
