(* ===== verification/ScanAudit.thy ===== *)
theory ScanAudit
  imports Schema Interfaces "HOL-Library.List_Lexorder" "HOL-Library.Product_Lexorder"
begin

text \<open>
  \<open>MediaScanAuditRepository\<close> of \<^verbatim>\<open>persistence/audit_projection.py\<close>: scan attempts, pending clean
  receipts with their publication lease, and genuine clean receipts. Reading a row back runs the
  dataclass validation again (\<open>_scan_attempt\<close>, \<open>_pending_clean_receipt\<close>, \<open>_clean_receipt\<close>).
  SHA-256, which only a pending receipt without a formal id needs, is a parameter.
\<close>

section \<open>Inserts\<close>

definition insert_attempt :: "scan_attempt \<Rightarrow> db \<Rightarrow> exc + db" where
  "insert_attempt a d =
     andthen (require_all
       [(at_attempt_id a \<notin> at_attempt_id ` set (t_attempts d), IntegrityError ''PRIMARY KEY''),
        (at_idempotency_key a \<notin> at_idempotency_key ` set (t_attempts d),
         IntegrityError ''UNIQUE idempotency_key''),
        (checks_ok (attempt_checks a), IntegrityError ''CHECK constraint failed'')])
     (\<lambda>_. Inr (d\<lparr>t_attempts := t_attempts d @ [a]\<rparr>))"

definition insert_pending :: "pending_receipt \<Rightarrow> db \<Rightarrow> exc + db" where
  "insert_pending p d =
     andthen (require_all
       [(pc_receipt_id p \<notin> pc_receipt_id ` set (t_pending d), IntegrityError ''PRIMARY KEY''),
        (pc_attempt_id p \<notin> pc_attempt_id ` set (t_pending d), IntegrityError ''UNIQUE attempt_id''),
        (pc_receipt_hash p \<notin> pc_receipt_hash ` set (t_pending d), IntegrityError ''UNIQUE receipt_hash''),
        (pc_attempt_id p \<in> at_attempt_id ` set (t_attempts d), IntegrityError ''FOREIGN KEY''),
        (pc_updated_at p \<noteq> None, IntegrityError ''NOT NULL''),
        (checks_ok (pending_row_checks p), IntegrityError ''CHECK constraint failed'')])
     (\<lambda>_. Inr (d\<lparr>t_pending := t_pending d @ [p]\<rparr>))"

definition insert_receipt :: "clean_receipt \<Rightarrow> db \<Rightarrow> exc + db" where
  "insert_receipt r d =
     andthen (require_all
       [(rc_receipt_id r \<notin> rc_receipt_id ` set (t_receipts d), IntegrityError ''PRIMARY KEY''),
        (rc_attempt_id r \<notin> rc_attempt_id ` set (t_receipts d), IntegrityError ''UNIQUE attempt_id''),
        (rc_receipt_hash r \<notin> rc_receipt_hash ` set (t_receipts d), IntegrityError ''UNIQUE receipt_hash''),
        (rc_attempt_id r \<in> at_attempt_id ` set (t_attempts d), IntegrityError ''FOREIGN KEY''),
        (checks_ok (clean_receipt_row_checks r), IntegrityError ''CHECK constraint failed'')])
     (\<lambda>_. Inr (d\<lparr>t_receipts := t_receipts d @ [r]\<rparr>))"

definition find_attempt :: "str \<Rightarrow> db \<Rightarrow> scan_attempt option" where
  "find_attempt attempt_id d = List.find (\<lambda>a. at_attempt_id a = attempt_id) (t_attempts d)"

definition find_pending :: "str \<Rightarrow> db \<Rightarrow> pending_receipt option" where
  "find_pending receipt_id d = List.find (\<lambda>p. pc_receipt_id p = receipt_id) (t_pending d)"

definition find_receipt :: "str \<Rightarrow> db \<Rightarrow> clean_receipt option" where
  "find_receipt receipt_id d = List.find (\<lambda>r. rc_receipt_id r = receipt_id) (t_receipts d)"

section \<open>Identities\<close>

text \<open>What a replayed record must agree on: for an attempt everything but the two clock readings.\<close>

definition same_scan_attempt_identity :: "scan_attempt \<Rightarrow> scan_attempt \<Rightarrow> bool" where
  "same_scan_attempt_identity l r \<longleftrightarrow>
     at_attempt_id l = at_attempt_id r \<and> at_artifact_sha256 l = at_artifact_sha256 r
     \<and> at_content_type l = at_content_type r \<and> at_scanner_backend l = at_scanner_backend r
     \<and> at_definitions_version l = at_definitions_version r
     \<and> at_definitions_fresh_at l = at_definitions_fresh_at r
     \<and> at_definitions_age_seconds l = at_definitions_age_seconds r
     \<and> at_max_bytes l = at_max_bytes r \<and> at_max_concurrent_scans l = at_max_concurrent_scans r
     \<and> at_deadline_ms l = at_deadline_ms r \<and> at_socket_timeout_ms l = at_socket_timeout_ms r
     \<and> at_scan_result l = at_scan_result r \<and> at_rejection_code l = at_rejection_code r
     \<and> at_rejection_detail l = at_rejection_detail r \<and> at_idempotency_key l = at_idempotency_key r"

definition same_pending_identity :: "pending_receipt \<Rightarrow> pending_receipt \<Rightarrow> bool" where
  "same_pending_identity l r \<longleftrightarrow>
     pc_receipt_id l = pc_receipt_id r \<and> pc_attempt_id l = pc_attempt_id r
     \<and> pc_artifact_sha256 l = pc_artifact_sha256 r \<and> pc_receipt_hash l = pc_receipt_hash r
     \<and> pc_formal_artifact_id l = pc_formal_artifact_id r"

definition same_clean_receipt_identity :: "clean_receipt \<Rightarrow> clean_receipt \<Rightarrow> bool" where
  "same_clean_receipt_identity l r \<longleftrightarrow>
     rc_receipt_id l = rc_receipt_id r \<and> rc_attempt_id l = rc_attempt_id r
     \<and> rc_artifact_sha256 l = rc_artifact_sha256 r \<and> rc_receipt_hash l = rc_receipt_hash r
     \<and> rc_scanner_backend l = rc_scanner_backend r
     \<and> rc_definitions_version l = rc_definitions_version r
     \<and> rc_definitions_fresh_at l = rc_definitions_fresh_at r
     \<and> rc_definitions_age_seconds l = rc_definitions_age_seconds r
     \<and> rc_max_bytes l = rc_max_bytes r \<and> rc_max_concurrent_scans l = rc_max_concurrent_scans r
     \<and> rc_deadline_ms l = rc_deadline_ms r \<and> rc_socket_timeout_ms l = rc_socket_timeout_ms r
     \<and> rc_quarantine_path l = rc_quarantine_path r
     \<and> rc_quarantine_expires_at l = rc_quarantine_expires_at r"

section \<open>Recording\<close>

definition record_attempt :: "scan_attempt \<Rightarrow> db \<Rightarrow> exc + db \<times> scan_attempt" where
  "record_attempt attempt d =
     (case insert_attempt attempt d of
        Inr d' \<Rightarrow> Inr (d', attempt)
      | Inl _ \<Rightarrow>
        (case List.find (\<lambda>a. at_idempotency_key a = at_idempotency_key attempt) (t_attempts d) of
           None \<Rightarrow> Inl (IntegrityError ''idempotency key belongs to a different scan attempt'')
         | Some existing \<Rightarrow>
           andthen (make_scan_attempt existing) (\<lambda>stored.
           if same_scan_attempt_identity stored attempt then Inr (d, stored)
           else Inl (IntegrityError ''idempotency key belongs to a different scan attempt''))))"

definition record_pending_clean_receipt ::
  "(str \<Rightarrow> str) \<Rightarrow> pending_receipt \<Rightarrow> db \<Rightarrow> exc + db \<times> pending_receipt" where
  "record_pending_clean_receipt sha256 pending d =
     (case find_attempt (pc_attempt_id pending) d of
        None \<Rightarrow> Inl (IntegrityError ''pending clean receipt requires a persisted clean scan attempt'')
      | Some attempt \<Rightarrow>
        if at_scan_result attempt \<noteq> Clean
        then Inl (IntegrityError ''pending clean receipt requires a persisted clean scan attempt'')
        else if at_artifact_sha256 attempt \<noteq> pc_artifact_sha256 pending
        then Inl (IntegrityError ''pending clean receipt snapshot differs from its scan attempt'')
        else
          case insert_pending pending d of
            Inr d' \<Rightarrow> Inr (d', pending)
          | Inl _ \<Rightarrow>
            (case List.find (\<lambda>p. pc_attempt_id p = pc_attempt_id pending) (t_pending d) of
               None \<Rightarrow> Inl (IntegrityError ''scan attempt already has a different pending clean receipt'')
             | Some existing \<Rightarrow>
               andthen (make_pending_receipt sha256 existing) (\<lambda>stored.
               if same_pending_identity stored pending then Inr (d, stored)
               else Inl (IntegrityError ''scan attempt already has a different pending clean receipt''))))"

text \<open>\<open>expected_snapshot\<close> and \<open>receipt_snapshot\<close>: the nine fields a receipt shares with its attempt.\<close>

definition snapshot_matches :: "clean_receipt \<Rightarrow> scan_attempt \<Rightarrow> bool" where
  "snapshot_matches r a \<longleftrightarrow>
     rc_artifact_sha256 r = at_artifact_sha256 a \<and> rc_scanner_backend r = at_scanner_backend a
     \<and> rc_definitions_version r = at_definitions_version a
     \<and> rc_definitions_fresh_at r = at_definitions_fresh_at a
     \<and> rc_definitions_age_seconds r = at_definitions_age_seconds a
     \<and> rc_max_bytes r = at_max_bytes a \<and> rc_max_concurrent_scans r = at_max_concurrent_scans a
     \<and> rc_deadline_ms r = at_deadline_ms a \<and> rc_socket_timeout_ms r = at_socket_timeout_ms a"

definition receipt_guard ::
  "(str \<Rightarrow> str) \<Rightarrow> clean_receipt \<Rightarrow> db \<Rightarrow> exc + pending_receipt \<times> scan_attempt" where
  "receipt_guard sha256 receipt d =
     (case find_pending (rc_receipt_id receipt) d of
        None \<Rightarrow> Inl (IntegrityError ''active clean receipt requires a pending clean receipt'')
      | Some pending_model \<Rightarrow>
        andthen (make_pending_receipt sha256 pending_model) (\<lambda>pending.
        if pc_attempt_id pending \<noteq> rc_attempt_id receipt
           \<or> pc_artifact_sha256 pending \<noteq> rc_artifact_sha256 receipt
           \<or> pc_receipt_hash pending \<noteq> rc_receipt_hash receipt
        then Inl (IntegrityError ''active clean receipt differs from pending clean receipt'')
        else
          case find_attempt (rc_attempt_id receipt) d of
            None \<Rightarrow> Inl (IntegrityError ''clean receipt requires a persisted clean scan attempt'')
          | Some attempt_model \<Rightarrow>
            if at_scan_result attempt_model \<noteq> Clean
            then Inl (IntegrityError ''clean receipt requires a persisted clean scan attempt'')
            else
              andthen (make_scan_attempt attempt_model) (\<lambda>attempt.
              if snapshot_matches receipt attempt then Inr (pending, attempt)
              else Inl (IntegrityError ''clean receipt snapshot differs from its scan attempt''))))"

definition record_clean_receipt ::
  "(str \<Rightarrow> str) \<Rightarrow> clean_receipt \<Rightarrow> db \<Rightarrow> exc + db \<times> clean_receipt" where
  "record_clean_receipt sha256 receipt d =
     andthen (receipt_guard sha256 receipt d) (\<lambda>(pending, attempt).
     andthen (receipt_from_attempt attempt (rc_receipt_id receipt) (rc_receipt_hash receipt)
       (rc_quarantine_path receipt) (rc_quarantine_expires_at receipt) (pc_created_at pending)) (\<lambda>stable.
     case insert_receipt stable d of
       Inr d' \<Rightarrow> Inr (d', stable)
     | Inl _ \<Rightarrow>
       (case List.find (\<lambda>r. rc_attempt_id r = rc_attempt_id receipt) (t_receipts d) of
          None \<Rightarrow> Inl (IntegrityError ''scan attempt already has a different clean receipt'')
        | Some existing \<Rightarrow>
          andthen (make_clean_receipt existing) (\<lambda>stored.
          if same_clean_receipt_identity stored stable then Inr (d, stored)
          else Inl (IntegrityError ''scan attempt already has a different clean receipt'')))))"

section \<open>The publication lease\<close>

text \<open>An UPDATE of \<open>pending_clean_receipts\<close> fails when a changed row violates a CHECK.\<close>

definition update_pending ::
  "(pending_receipt \<Rightarrow> bool) \<Rightarrow> (pending_receipt \<Rightarrow> pending_receipt) \<Rightarrow> db \<Rightarrow> exc + db \<times> nat" where
  "update_pending P f d =
     (if list_all (\<lambda>p. P p \<longrightarrow> checks_ok (pending_row_checks (f p))) (t_pending d)
      then Inr (d\<lparr>t_pending := tupdate P f (t_pending d)\<rparr>, rowcount P (t_pending d))
      else Inl (IntegrityError ''CHECK constraint failed''))"

definition read_pending :: "(str \<Rightarrow> str) \<Rightarrow> str \<Rightarrow> db \<Rightarrow> exc + pending_receipt option" where
  "read_pending sha256 receipt_id d =
     (case find_pending receipt_id d of
        None \<Rightarrow> Inr None
      | Some p \<Rightarrow> andthen (make_pending_receipt sha256 p) (\<lambda>q. Inr (Some q)))"

definition publication_args_ok :: "str \<Rightarrow> datetime \<Rightarrow> datetime \<Rightarrow> exc + unit" where
  "publication_args_ok owner_token now lease_expires_at =
     require_all
       [(\<not> blank owner_token, ValueError ''publication owner token must not be blank''),
        (now < lease_expires_at, ValueError ''publication lease must expire after now'')]"

definition claimable :: "str \<Rightarrow> datetime \<Rightarrow> pending_receipt \<Rightarrow> bool" where
  "claimable receipt_id now p \<longleftrightarrow> pc_receipt_id p = receipt_id \<and>
     (pc_publication_status p = PsPending \<or> pc_publication_status p = PsFailed
      \<or> pc_publication_status p = PsPublishing
        \<and> (case pc_publication_lease_expires_at p of None \<Rightarrow> False | Some e \<Rightarrow> e \<le> now))"

definition claim_values :: "str \<Rightarrow> datetime \<Rightarrow> datetime \<Rightarrow> pending_receipt \<Rightarrow> pending_receipt" where
  "claim_values owner_token lease_expires_at now p =
     p\<lparr>pc_publication_status := PsPublishing, pc_publication_owner := Some owner_token,
       pc_publication_lease_expires_at := Some lease_expires_at,
       pc_publication_version := pc_publication_version p + 1,
       pc_publication_failure := None, pc_updated_at := Some now\<rparr>"

text \<open>The claim: whether it was acquired, and the row as it is now (None if there is no such row).\<close>

definition claim_pending_clean_publication ::
  "(str \<Rightarrow> str) \<Rightarrow> str \<Rightarrow> str \<Rightarrow> datetime \<Rightarrow> datetime \<Rightarrow> db
    \<Rightarrow> exc + db \<times> (bool \<times> pending_receipt) option" where
  "claim_pending_clean_publication sha256 receipt_id owner_token now lease_expires_at d =
     andthen (publication_args_ok owner_token now lease_expires_at) (\<lambda>_.
     andthen (update_pending (claimable receipt_id now) (claim_values owner_token lease_expires_at now) d)
       (\<lambda>(d', n).
     andthen (read_pending sha256 receipt_id d') (\<lambda>out.
     Inr (d', map_option (\<lambda>p. (0 < n, p)) out))))"

definition owns_publication :: "str \<Rightarrow> str \<Rightarrow> pending_receipt \<Rightarrow> bool" where
  "owns_publication receipt_id owner_token p \<longleftrightarrow> pc_receipt_id p = receipt_id
     \<and> pc_publication_status p = PsPublishing \<and> pc_publication_owner p = Some owner_token"

definition refresh_values :: "datetime \<Rightarrow> datetime \<Rightarrow> pending_receipt \<Rightarrow> pending_receipt" where
  "refresh_values lease_expires_at now p =
     p\<lparr>pc_publication_lease_expires_at := Some lease_expires_at,
       pc_publication_version := pc_publication_version p + 1, pc_updated_at := Some now\<rparr>"

definition refresh_pending_clean_publication_lease ::
  "(str \<Rightarrow> str) \<Rightarrow> str \<Rightarrow> str \<Rightarrow> datetime \<Rightarrow> datetime \<Rightarrow> db \<Rightarrow> exc + db \<times> pending_receipt option" where
  "refresh_pending_clean_publication_lease sha256 receipt_id owner_token now lease_expires_at d =
     andthen (publication_args_ok owner_token now lease_expires_at) (\<lambda>_.
     andthen (update_pending (owns_publication receipt_id owner_token) (refresh_values lease_expires_at now) d)
       (\<lambda>(d', n).
     if n = 0 then Inr (d', None)
     else andthen (read_pending sha256 receipt_id d') (\<lambda>out. Inr (d', out))))"

definition published_values :: "datetime \<Rightarrow> pending_receipt \<Rightarrow> pending_receipt" where
  "published_values now p =
     p\<lparr>pc_publication_status := PsPublished, pc_publication_owner := None,
       pc_publication_lease_expires_at := None,
       pc_publication_version := pc_publication_version p + 1,
       pc_published_at := Some now, pc_publication_failure := None, pc_updated_at := Some now\<rparr>"

definition mark_published ::
  "(str \<Rightarrow> str) \<Rightarrow> str \<Rightarrow> str \<Rightarrow> str \<Rightarrow> datetime \<Rightarrow> db \<Rightarrow> exc + db \<times> pending_receipt" where
  "mark_published sha256 receipt_id owner_token formal_artifact_id now d =
     andthen (update_pending
       (\<lambda>p. owns_publication receipt_id owner_token p \<and> pc_formal_artifact_id p = formal_artifact_id)
       (published_values now) d) (\<lambda>(d', n).
     andthen (read_pending sha256 receipt_id d') (\<lambda>out.
     case out of
       None \<Rightarrow> Inl (IntegrityError ''published clean receipt requires a pending clean receipt'')
     | Some stored \<Rightarrow>
       if 0 < n then Inr (d', stored)
       else if pc_publication_status stored = PsPublished \<and> pc_formal_artifact_id stored = formal_artifact_id
       then Inr (d', stored)
       else Inl (IntegrityError ''pending clean receipt publication owner changed'')))"

text \<open>\<open>(reason or type(reason).__name__)[:128]\<close>: the type of an empty reason is \<open>str\<close>.\<close>

definition failure_text :: "str \<Rightarrow> str" where
  "failure_text reason = take 128 (if reason = [] then lit ''str'' else reason)"

definition failed_values :: "str \<Rightarrow> datetime \<Rightarrow> pending_receipt \<Rightarrow> pending_receipt" where
  "failed_values reason now p =
     p\<lparr>pc_publication_status := PsFailed, pc_publication_owner := None,
       pc_publication_lease_expires_at := None,
       pc_publication_version := pc_publication_version p + 1,
       pc_publication_failure := Some (failure_text reason), pc_updated_at := Some now\<rparr>"

definition mark_failed :: "str \<Rightarrow> str \<Rightarrow> datetime \<Rightarrow> str \<Rightarrow> db \<Rightarrow> exc + db \<times> bool" where
  "mark_failed receipt_id owner_token now reason d =
     andthen (update_pending (owns_publication receipt_id owner_token) (failed_values reason now) d)
       (\<lambda>(d', n). Inr (d', 0 < n))"

section \<open>Queries and deletion\<close>

fun read_all :: "(str \<Rightarrow> str) \<Rightarrow> pending_receipt list \<Rightarrow> exc + pending_receipt list" where
  "read_all sha256 [] = Inr []"
| "read_all sha256 (p # ps) =
     andthen (make_pending_receipt sha256 p) (\<lambda>q. andthen (read_all sha256 ps) (\<lambda>qs. Inr (q # qs)))"

definition find_pending_clean_receipt ::
  "(str \<Rightarrow> str) \<Rightarrow> str \<Rightarrow> db \<Rightarrow> exc + (scan_attempt \<times> pending_receipt) option" where
  "find_pending_clean_receipt sha256 idempotency_key d =
     (case List.find (\<lambda>(a, p). pc_attempt_id p = at_attempt_id a \<and> at_idempotency_key a = idempotency_key)
             (List.product (t_attempts d) (t_pending d)) of
        None \<Rightarrow> Inr None
      | Some (a, p) \<Rightarrow>
        andthen (make_scan_attempt a) (\<lambda>attempt.
        andthen (make_pending_receipt sha256 p) (\<lambda>pending. Inr (Some (attempt, pending)))))"

definition expired_unclaimed :: "datetime \<Rightarrow> db \<Rightarrow> pending_receipt \<Rightarrow> bool" where
  "expired_unclaimed now d p \<longleftrightarrow> pc_spool_expires_at p \<le> now
     \<and> find_receipt (pc_receipt_id p) d = None
     \<and> (pc_publication_status p = PsPending \<or> pc_publication_status p = PsFailed)"

definition list_expired_pending_clean_receipts ::
  "(str \<Rightarrow> str) \<Rightarrow> datetime \<Rightarrow> int \<Rightarrow> db \<Rightarrow> exc + pending_receipt list" where
  "list_expired_pending_clean_receipts sha256 now limit d =
     (if limit \<le> 0 then Inr []
      else read_all sha256 (take (nat limit)
        (sort_key (\<lambda>p. (pc_created_at p, pc_receipt_id p)) (filter (expired_unclaimed now d) (t_pending d)))))"

definition delete_pending_clean_receipt :: "str \<Rightarrow> db \<Rightarrow> db \<times> bool" where
  "delete_pending_clean_receipt receipt_id d =
     (if find_receipt receipt_id d \<noteq> None then (d, False)
      else if find_pending receipt_id d = None then (d, False)
      else (d\<lparr>t_pending := filter (\<lambda>p. pc_receipt_id p \<noteq> receipt_id) (t_pending d)\<rparr>, True))"

section \<open>The invariant of the scan tables\<close>

definition pending_backed :: "db \<Rightarrow> pending_receipt \<Rightarrow> bool" where
  "pending_backed d p \<longleftrightarrow> (\<exists>a \<in> set (t_attempts d). at_attempt_id a = pc_attempt_id p
     \<and> at_scan_result a = Clean \<and> at_artifact_sha256 a = pc_artifact_sha256 p)"

definition pending_fixed :: "pending_receipt \<Rightarrow> str \<times> str \<times> str \<times> str \<times> str \<times> datetime" where
  "pending_fixed p = (pc_receipt_id p, pc_attempt_id p, pc_artifact_sha256 p, pc_receipt_hash p,
     pc_formal_artifact_id p, pc_created_at p)"

definition receipt_backed :: "db \<Rightarrow> clean_receipt \<Rightarrow> bool" where
  "receipt_backed d r \<longleftrightarrow>
     (\<exists>a \<in> set (t_attempts d). at_attempt_id a = rc_attempt_id r \<and> at_scan_result a = Clean
        \<and> snapshot_matches r a)
   \<and> (\<exists>p \<in> set (t_pending d). pc_receipt_id p = rc_receipt_id r \<and> pc_attempt_id p = rc_attempt_id r
        \<and> pc_artifact_sha256 p = rc_artifact_sha256 r \<and> pc_receipt_hash p = rc_receipt_hash r
        \<and> pc_created_at p = rc_created_at r)"

definition scan_inv :: "db \<Rightarrow> bool" where
  "scan_inv d \<longleftrightarrow>
     unique_key at_attempt_id (t_attempts d) \<and> unique_key at_idempotency_key (t_attempts d)
   \<and> list_all valid_scan_attempt (t_attempts d)
   \<and> unique_key pc_receipt_id (t_pending d) \<and> unique_key pc_attempt_id (t_pending d)
   \<and> list_all valid_pending (t_pending d) \<and> list_all (pending_backed d) (t_pending d)
   \<and> unique_key rc_receipt_id (t_receipts d) \<and> unique_key rc_attempt_id (t_receipts d)
   \<and> list_all (receipt_backed d) (t_receipts d)"

lemma scan_invD:
  assumes "scan_inv d"
  shows "unique_key at_attempt_id (t_attempts d)" "unique_key at_idempotency_key (t_attempts d)"
    "\<And>a. a \<in> set (t_attempts d) \<Longrightarrow> valid_scan_attempt a"
    "unique_key pc_receipt_id (t_pending d)" "unique_key pc_attempt_id (t_pending d)"
    "\<And>p. p \<in> set (t_pending d) \<Longrightarrow> valid_pending p"
    "\<And>p. p \<in> set (t_pending d) \<Longrightarrow> pending_backed d p"
    "unique_key rc_receipt_id (t_receipts d)" "unique_key rc_attempt_id (t_receipts d)"
    "\<And>r. r \<in> set (t_receipts d) \<Longrightarrow> receipt_backed d r"
  using assms by (simp_all add: scan_inv_def list_all_iff)

lemma valid_pending_fields:
  assumes "valid_pending p"
  shows "0 \<le> pc_publication_version p"
    and "pc_publication_status p = PsPublishing \<Longrightarrow> pc_publication_owner p \<noteq> None \<and> pc_publication_lease_expires_at p \<noteq> None"
    and "pc_publication_status p \<noteq> PsPublishing \<Longrightarrow> pc_publication_owner p = None \<and> pc_publication_lease_expires_at p = None"
    and "pc_published_at p = None \<longleftrightarrow> pc_publication_status p \<noteq> PsPublished"
    and "pc_updated_at p \<noteq> None"
  using assms
  by (auto simp: valid_pending_def pending_receipt_checks_def publication_fields_checks_def split: option.splits if_splits)

lemma valid_pending_checks:
  assumes "valid_pending p"
  shows "checks_ok (pending_row_checks p)"
  using valid_pending_fields[OF assms]
  by (cases "pc_publication_status p") (simp_all add: pending_row_checks_def)

definition receipt_facts_checks :: "pending_receipt \<Rightarrow> (bool \<times> exc) list" where
  "receipt_facts_checks p = take 12 (pending_receipt_checks p)"

lemma valid_pending_split:
  "valid_pending p \<longleftrightarrow> list_all fst (receipt_facts_checks p) \<and> list_all fst (publication_fields_checks p)
     \<and> pc_updated_at p \<noteq> None"
  by (simp add: valid_pending_def receipt_facts_checks_def pending_receipt_checks_def conj_assoc)

lemma valid_claimed:
  assumes "valid_pending p" and "\<not> blank owner" and "pc_publication_status p \<noteq> PsPublished"
  shows "valid_pending (claim_values owner lease now p)"
proof -
  have "receipt_facts_checks (claim_values owner lease now p) = receipt_facts_checks p"
    by (simp add: receipt_facts_checks_def pending_receipt_checks_def claim_values_def)
  then show ?thesis
    using assms valid_pending_fields[OF assms(1)] blankD[OF assms(2)]
    by (simp add: valid_pending_split publication_fields_checks_def claim_values_def)
qed

lemma valid_refreshed:
  assumes "valid_pending p" and "pc_publication_status p = PsPublishing"
  shows "valid_pending (refresh_values lease now p)"
proof -
  have "receipt_facts_checks (refresh_values lease now p) = receipt_facts_checks p"
    by (simp add: receipt_facts_checks_def pending_receipt_checks_def refresh_values_def)
  then show ?thesis
    using assms valid_pending_fields[OF assms(1)]
    by (simp add: valid_pending_split publication_fields_checks_def refresh_values_def)
qed

lemma valid_published:
  assumes "valid_pending p"
  shows "valid_pending (published_values now p)"
proof -
  have "receipt_facts_checks (published_values now p) = receipt_facts_checks p"
    by (simp add: receipt_facts_checks_def pending_receipt_checks_def published_values_def)
  then show ?thesis
    using assms valid_pending_fields[OF assms(1)]
    by (simp add: valid_pending_split publication_fields_checks_def published_values_def)
qed

lemma valid_failed:
  assumes "valid_pending p" and "pc_publication_status p = PsPublishing"
  shows "valid_pending (failed_values reason now p) \<longleftrightarrow> \<not> blank (failure_text reason)"
proof -
  have "receipt_facts_checks (failed_values reason now p) = receipt_facts_checks p"
    by (simp add: receipt_facts_checks_def pending_receipt_checks_def failed_values_def)
  then show ?thesis
    using assms valid_pending_fields[OF assms(1)]
    by (simp add: valid_pending_split publication_fields_checks_def failed_values_def)
qed

text \<open>The CHECKs admit what the dataclass refuses: a failure text of white space.\<close>

lemma failed_checks:
  assumes "valid_pending p" and "pc_publication_status p = PsPublishing"
  shows "checks_ok (pending_row_checks (failed_values reason now p))"
  using valid_pending_fields[OF assms(1)] assms(2) by (simp add: pending_row_checks_def failed_values_def)

lemma fixed_updates [simp]:
  "pending_fixed (claim_values owner lease now p) = pending_fixed p"
  "pending_fixed (refresh_values lease now p) = pending_fixed p"
  "pending_fixed (published_values now p) = pending_fixed p"
  "pending_fixed (failed_values reason now p) = pending_fixed p"
  by (simp_all add: pending_fixed_def claim_values_def refresh_values_def published_values_def failed_values_def)

lemma update_pending_ok:
  assumes "\<And>p. p \<in> set (t_pending d) \<Longrightarrow> P p \<Longrightarrow> valid_pending (f p)"
  shows "update_pending P f d = Inr (d\<lparr>t_pending := tupdate P f (t_pending d)\<rparr>, rowcount P (t_pending d))"
  using assms valid_pending_checks by (simp add: update_pending_def list_all_iff)

lemma pending_attempt_fixed:
  assumes "map pending_fixed ps = map pending_fixed qs" and "p \<in> set ps"
  obtains q where "q \<in> set qs" "pending_fixed q = pending_fixed p"
proof -
  have "pending_fixed p \<in> set (map pending_fixed qs)" using assms by (metis image_eqI list.set_map)
  then show ?thesis using that by auto
qed

lemma scan_inv_pending:
  assumes inv: "scan_inv d" and fixed: "map pending_fixed ps = map pending_fixed (t_pending d)"
    and valid: "\<And>p. p \<in> set ps \<Longrightarrow> valid_pending p"
  shows "scan_inv (d\<lparr>t_pending := ps\<rparr>)"
proof -
  have proj: "map (\<lambda>p. g (pending_fixed p)) ps = map (\<lambda>p. g (pending_fixed p)) (t_pending d)" for g :: "_ \<Rightarrow> str"
    using arg_cong[OF fixed, of "map g"] by (simp add: o_def)
  have keys: "unique_key pc_receipt_id ps" "unique_key pc_attempt_id ps"
    using scan_invD(4,5)[OF inv] proj[of fst] proj[of "fst \<circ> snd"]
    by (simp_all add: unique_key_def pending_fixed_def)
  have backed: "pending_backed (d\<lparr>t_pending := ps\<rparr>) p" if "p \<in> set ps" for p
  proof -
    obtain q where q: "q \<in> set (t_pending d)" "pending_fixed q = pending_fixed p"
      using fixed \<open>p \<in> set ps\<close> by (rule pending_attempt_fixed)
    show ?thesis using scan_invD(7)[OF inv q(1)] q(2) by (simp add: pending_backed_def pending_fixed_def)
  qed
  have receipts: "receipt_backed (d\<lparr>t_pending := ps\<rparr>) r" if "r \<in> set (t_receipts d)" for r
  proof -
    have b: "receipt_backed d r" using scan_invD(10)[OF inv that] .
    then obtain p where p: "p \<in> set (t_pending d)" "pc_receipt_id p = rc_receipt_id r"
      "pc_attempt_id p = rc_attempt_id r" "pc_artifact_sha256 p = rc_artifact_sha256 r"
      "pc_receipt_hash p = rc_receipt_hash r" "pc_created_at p = rc_created_at r"
      unfolding receipt_backed_def by blast
    obtain q where "q \<in> set ps" "pending_fixed q = pending_fixed p"
      using fixed[symmetric] p(1) by (rule pending_attempt_fixed)
    then show ?thesis using b p(2-) by (auto simp: receipt_backed_def pending_fixed_def)
  qed
  show ?thesis
    using scan_invD[OF inv] keys valid backed receipts by (simp add: scan_inv_def list_all_iff)
qed

section \<open>Steps\<close>

inductive scan_step for sha256 :: "str \<Rightarrow> str" where
  step_attempt: "valid_scan_attempt a \<Longrightarrow> record_attempt a d = Inr (d', b) \<Longrightarrow> scan_step sha256 d d'"
| step_pending: "valid_pending p \<Longrightarrow> record_pending_clean_receipt sha256 p d = Inr (d', q) \<Longrightarrow> scan_step sha256 d d'"
| step_receipt: "record_clean_receipt sha256 r d = Inr (d', s) \<Longrightarrow> scan_step sha256 d d'"
| step_claim_publication:
    "claim_pending_clean_publication sha256 i owner now lease d = Inr (d', c) \<Longrightarrow> scan_step sha256 d d'"
| step_refresh: "refresh_pending_clean_publication_lease sha256 i owner now lease d = Inr (d', q) \<Longrightarrow> scan_step sha256 d d'"
| step_published: "mark_published sha256 i owner formal now d = Inr (d', q) \<Longrightarrow> scan_step sha256 d d'"
| step_failed: "\<not> blank (failure_text reason) \<Longrightarrow> mark_failed i owner now reason d = Inr (d', b) \<Longrightarrow> scan_step sha256 d d'"
| step_delete: "delete_pending_clean_receipt i d = (d', b) \<Longrightarrow> scan_step sha256 d d'"

inductive_cases scan_stepE: "scan_step sha256 d d'"

definition pending_evolves :: "pending_receipt \<Rightarrow> pending_receipt \<Rightarrow> bool" where
  "pending_evolves p q \<longleftrightarrow> pending_fixed q = pending_fixed p
     \<and> (q = p \<or> pc_publication_status p \<noteq> PsPublished \<and> pc_publication_version p < pc_publication_version q)"

lemma pending_evolves_refl [simp]: "pending_evolves p p"
  by (simp add: pending_evolves_def)

lemma pending_kept [intro]: "p \<in> set ps \<Longrightarrow> \<exists>q \<in> set ps. pending_evolves p q"
  by (rule bexI[of _ p]) simp_all

lemma pending_evolves_trans: "pending_evolves a b \<Longrightarrow> pending_evolves b c \<Longrightarrow> pending_evolves a c"
  unfolding pending_evolves_def by force

lemma evolves_updates:
  "pc_publication_status p \<noteq> PsPublished \<Longrightarrow> pending_evolves p (claim_values owner lease now p)"
  "pc_publication_status p \<noteq> PsPublished \<Longrightarrow> pending_evolves p (refresh_values lease now p)"
  "pc_publication_status p \<noteq> PsPublished \<Longrightarrow> pending_evolves p (published_values now p)"
  "pc_publication_status p \<noteq> PsPublished \<Longrightarrow> pending_evolves p (failed_values reason now p)"
  by (simp_all add: pending_evolves_def)
    (simp_all add: claim_values_def refresh_values_def published_values_def failed_values_def)

text \<open>What one step does to the three tables.\<close>

definition scan_grows :: "db \<Rightarrow> db \<Rightarrow> bool" where
  "scan_grows d d' \<longleftrightarrow> (\<exists>as. t_attempts d' = t_attempts d @ as) \<and> (\<exists>rs. t_receipts d' = t_receipts d @ rs)
     \<and> (\<forall>p \<in> set (t_pending d). find_receipt (pc_receipt_id p) d \<noteq> None \<longrightarrow>
          (\<exists>q \<in> set (t_pending d'). pending_evolves p q))"

lemma scan_grows_refl: "scan_grows d d"
  by (auto simp: scan_grows_def)

lemma find_append: "List.find P xs \<noteq> None \<Longrightarrow> List.find P (xs @ ys) \<noteq> None"
  by (auto simp: find_None_iff)

lemma scan_grows_trans:
  assumes "scan_grows a b" and "scan_grows b c"
  shows "scan_grows a c"
proof -
  have "\<exists>q \<in> set (t_pending c). pending_evolves p q"
    if p: "p \<in> set (t_pending a)" "find_receipt (pc_receipt_id p) a \<noteq> None" for p
  proof -
    obtain q where q: "q \<in> set (t_pending b)" "pending_evolves p q"
      using assms(1) p unfolding scan_grows_def by blast
    have "pc_receipt_id q = pc_receipt_id p" using q(2) by (simp add: pending_evolves_def pending_fixed_def)
    moreover have "find_receipt (pc_receipt_id p) b \<noteq> None"
      using assms(1) p(2) find_append unfolding scan_grows_def find_receipt_def by metis
    ultimately obtain r where "r \<in> set (t_pending c)" "pending_evolves q r"
      using assms(2) q(1) unfolding scan_grows_def by metis
    then show ?thesis using q(2) pending_evolves_trans by blast
  qed
  moreover have "\<exists>as. t_attempts c = t_attempts a @ as" "\<exists>rs. t_receipts c = t_receipts a @ rs"
    using assms unfolding scan_grows_def by (metis append.assoc)+
  ultimately show ?thesis by (simp add: scan_grows_def)
qed

definition scan_step_ok :: "db \<Rightarrow> db \<Rightarrow> bool" where
  "scan_step_ok d d' \<longleftrightarrow> scan_inv d' \<and> scan_grows d d'"

text \<open>An UPDATE that keeps the fixed columns and advances the rows it touches.\<close>

lemma pending_updated:
  assumes inv: "scan_inv d"
    and f: "\<And>p. p \<in> set (t_pending d) \<Longrightarrow> P p \<Longrightarrow> valid_pending (f p) \<and> pending_evolves p (f p)"
  shows "update_pending P f d = Inr (d\<lparr>t_pending := tupdate P f (t_pending d)\<rparr>, rowcount P (t_pending d))"
    and "scan_step_ok d (d\<lparr>t_pending := tupdate P f (t_pending d)\<rparr>)"
proof -
  show "update_pending P f d = Inr (d\<lparr>t_pending := tupdate P f (t_pending d)\<rparr>, rowcount P (t_pending d))"
    using f by (intro update_pending_ok) blast
  let ?ps = "tupdate P f (t_pending d)"
  have "map pending_fixed ?ps = map pending_fixed (t_pending d)"
    using f by (auto simp: tupdate_def pending_evolves_def)
  moreover have "valid_pending p" if "p \<in> set ?ps" for p
    using that f scan_invD(6)[OF inv] by (auto simp: set_tupdate)
  ultimately have "scan_inv (d\<lparr>t_pending := ?ps\<rparr>)" by (rule scan_inv_pending[OF inv])
  moreover have "\<exists>q \<in> set ?ps. pending_evolves p q" if "p \<in> set (t_pending d)" for p
    using that f by (cases "P p") (auto simp: set_tupdate intro: bexI[of _ "f p"] bexI[of _ p])
  ultimately show "scan_step_ok d (d\<lparr>t_pending := ?ps\<rparr>)"
    by (simp add: scan_step_ok_def scan_grows_def)
qed

lemma claim_update:
  assumes "scan_inv d" and "\<not> blank owner"
  shows "update_pending (claimable i now) (claim_values owner lease now) d
      = Inr (d\<lparr>t_pending := tupdate (claimable i now) (claim_values owner lease now) (t_pending d)\<rparr>,
         rowcount (claimable i now) (t_pending d))"
    and "scan_step_ok d (d\<lparr>t_pending := tupdate (claimable i now) (claim_values owner lease now) (t_pending d)\<rparr>)"
proof -
  have "valid_pending (claim_values owner lease now p) \<and> pending_evolves p (claim_values owner lease now p)"
    if "p \<in> set (t_pending d)" "claimable i now p" for p
  proof -
    have "pc_publication_status p \<noteq> PsPublished" using that(2) by (auto simp: claimable_def)
    then show ?thesis
      using valid_claimed[OF scan_invD(6)[OF assms(1) that(1)] assms(2)] evolves_updates(1) by blast
  qed
  note u = pending_updated[OF assms(1) this]
  show "update_pending (claimable i now) (claim_values owner lease now) d
      = Inr (d\<lparr>t_pending := tupdate (claimable i now) (claim_values owner lease now) (t_pending d)\<rparr>,
         rowcount (claimable i now) (t_pending d))"
    by (rule u(1))
  show "scan_step_ok d (d\<lparr>t_pending := tupdate (claimable i now) (claim_values owner lease now) (t_pending d)\<rparr>)"
    by (rule u(2))
qed

lemma owned_update:
  assumes "scan_inv d"
    and "\<And>p. valid_pending p \<Longrightarrow> pc_publication_status p = PsPublishing \<Longrightarrow> valid_pending (f p) \<and> pending_evolves p (f p)"
    and "\<And>p. P p \<Longrightarrow> owns_publication i owner p"
  shows "update_pending P f d = Inr (d\<lparr>t_pending := tupdate P f (t_pending d)\<rparr>, rowcount P (t_pending d))"
    and "scan_step_ok d (d\<lparr>t_pending := tupdate P f (t_pending d)\<rparr>)"
proof -
  have f: "valid_pending (f p) \<and> pending_evolves p (f p)" if "p \<in> set (t_pending d)" "P p" for p
    using assms(2)[OF scan_invD(6)[OF assms(1) that(1)]] assms(3)[OF that(2)]
    by (simp add: owns_publication_def)
  show "update_pending P f d = Inr (d\<lparr>t_pending := tupdate P f (t_pending d)\<rparr>, rowcount P (t_pending d))"
    using f by (rule pending_updated(1)[OF assms(1)])
  show "scan_step_ok d (d\<lparr>t_pending := tupdate P f (t_pending d)\<rparr>)"
    using f by (rule pending_updated(2)[OF assms(1)])
qed

lemma refresh_ok: "valid_pending p \<Longrightarrow> pc_publication_status p = PsPublishing \<Longrightarrow>
    valid_pending (refresh_values lease now p) \<and> pending_evolves p (refresh_values lease now p)"
  and publish_ok: "valid_pending p \<Longrightarrow> pc_publication_status p = PsPublishing \<Longrightarrow>
    valid_pending (published_values now p) \<and> pending_evolves p (published_values now p)"
  and fail_ok: "valid_pending p \<Longrightarrow> pc_publication_status p = PsPublishing \<Longrightarrow> \<not> blank (failure_text reason) \<Longrightarrow>
    valid_pending (failed_values reason now p) \<and> pending_evolves p (failed_values reason now p)"
  by (simp_all add: valid_refreshed valid_published valid_failed evolves_updates)

section \<open>Every operation keeps the invariant\<close>

lemma insert_attempt_ok:
  assumes "scan_inv d" and "valid_scan_attempt a" and "insert_attempt a d = Inr d'"
  shows "scan_step_ok d d'"
proof -
  have d': "d' = d\<lparr>t_attempts := t_attempts d @ [a]\<rparr>"
    and new: "at_attempt_id a \<notin> at_attempt_id ` set (t_attempts d)"
      "at_idempotency_key a \<notin> at_idempotency_key ` set (t_attempts d)"
    using assms(3) by (simp_all add: insert_attempt_def andthen_Inr_iff)
  have "pending_backed d' p" if "pending_backed d p" for p
    using that by (auto simp: pending_backed_def d')
  moreover have "receipt_backed d' r" if "receipt_backed d r" for r
    using that by (auto simp: receipt_backed_def d')
  ultimately show ?thesis
    using assms(1,2) new
    by (auto simp: scan_step_ok_def scan_inv_def scan_grows_def d' unique_key_append1 list_all_iff)
qed

lemma record_attempt_ok:
  assumes "scan_inv d" and "valid_scan_attempt a" and "record_attempt a d = Inr (d', b)"
  shows "scan_step_ok d d'"
proof (cases "insert_attempt a d")
  case (Inl e)
  then have "d' = d" using assms(3)
    by (auto simp: record_attempt_def andthen_Inr_iff split: option.splits if_splits)
  then show ?thesis using assms(1) by (simp add: scan_step_ok_def scan_grows_refl)
next
  case (Inr e)
  then show ?thesis using assms insert_attempt_ok by (simp add: record_attempt_def)
qed

lemma insert_pending_ok:
  assumes "scan_inv d" and "valid_pending p" and "insert_pending p d = Inr d'" and "pending_backed d p"
  shows "scan_step_ok d d'"
proof -
  have d': "d' = d\<lparr>t_pending := t_pending d @ [p]\<rparr>"
    and new: "pc_receipt_id p \<notin> pc_receipt_id ` set (t_pending d)"
      "pc_attempt_id p \<notin> pc_attempt_id ` set (t_pending d)"
    using assms(3) by (simp_all add: insert_pending_def andthen_Inr_iff)
  have "pending_backed d' q = pending_backed d q" for q
    by (simp add: pending_backed_def d')
  moreover have "receipt_backed d' r" if "receipt_backed d r" for r
    using that by (auto simp: receipt_backed_def d')
  ultimately show ?thesis
    using assms(1,2,4) new unfolding scan_step_ok_def scan_inv_def scan_grows_def
    by (auto simp: d' unique_key_append1 list_all_iff intro: pending_evolves_refl)
qed

lemma record_pending_Inr:
  assumes "record_pending_clean_receipt sha256 p d = Inr (d', q)"
  obtains (inserted) "insert_pending p d = Inr d'" "pending_backed d p" "q = p"
  | (replay) x where "d' = d" "x \<in> set (t_pending d)" "make_pending_receipt sha256 x = Inr q"
      "same_pending_identity q p"
proof -
  obtain a where a: "find_attempt (pc_attempt_id p) d = Some a" "at_scan_result a = Clean"
      "at_artifact_sha256 a = pc_artifact_sha256 p"
    using assms by (auto simp: record_pending_clean_receipt_def split: option.splits if_splits)
  then have backed: "pending_backed d p"
    unfolding pending_backed_def find_attempt_def by (auto dest: find_SomeD)
  show ?thesis
  proof (cases "insert_pending p d")
    case (Inl e)
    then obtain x where "List.find (\<lambda>x. pc_attempt_id x = pc_attempt_id p) (t_pending d) = Some x"
      "make_pending_receipt sha256 x = Inr q" "same_pending_identity q p" "d' = d"
      using assms a
      by (auto simp: record_pending_clean_receipt_def andthen_Inr_iff split: option.splits if_splits)
    then show ?thesis using replay by (auto dest: find_SomeD)
  next
    case (Inr e)
    then have "e = d'" and "q = p" using assms a by (simp_all add: record_pending_clean_receipt_def)
    then show ?thesis using Inr backed inserted by simp
  qed
qed

lemma find_attemptD: "find_attempt i d = Some a \<Longrightarrow> a \<in> set (t_attempts d) \<and> at_attempt_id a = i"
  by (auto simp: find_attempt_def dest: find_SomeD)

lemma find_pendingD: "find_pending i d = Some p \<Longrightarrow> p \<in> set (t_pending d) \<and> pc_receipt_id p = i"
  by (auto simp: find_pending_def dest: find_SomeD)

text \<open>Under the invariant a stored row is read back unchanged.\<close>

lemma read_back:
  assumes "scan_inv d"
  shows "p \<in> set (t_pending d) \<Longrightarrow> make_pending_receipt sha256 p = Inr p"
    and "a \<in> set (t_attempts d) \<Longrightarrow> make_scan_attempt a = Inr a"
    and "read_pending sha256 i d = Inr (find_pending i d)"
  using make_pending_receipt_id[OF scan_invD(6)[OF assms]] scan_invD(3)[OF assms] find_pendingD[of i d]
  by (auto simp: valid_scan_attempt_def read_pending_def split: option.split)

lemma receipt_guard_Inr:
  assumes "scan_inv d" and "receipt_guard sha256 r d = Inr (p, a)"
  shows "p \<in> set (t_pending d)" "pc_receipt_id p = rc_receipt_id r" "pc_attempt_id p = rc_attempt_id r"
    "pc_artifact_sha256 p = rc_artifact_sha256 r" "pc_receipt_hash p = rc_receipt_hash r"
    "a \<in> set (t_attempts d)" "at_attempt_id a = rc_attempt_id r" "at_scan_result a = Clean" "snapshot_matches r a"
proof -
  obtain x where x: "find_pending (rc_receipt_id r) d = Some x"
    using assms(2) by (auto simp: receipt_guard_def split: option.splits)
  note x' = find_pendingD[OF x] read_back(1)[OF assms(1), of x sha256]
  have g: "p = x" "pc_attempt_id x = rc_attempt_id r" "pc_artifact_sha256 x = rc_artifact_sha256 r"
      "pc_receipt_hash x = rc_receipt_hash r"
    and b: "\<exists>y. find_attempt (rc_attempt_id r) d = Some y \<and> at_scan_result y = Clean \<and>
      make_scan_attempt y = Inr a \<and> snapshot_matches r a"
    using assms(2) x x' by (auto simp: receipt_guard_def andthen_Inr_iff split: option.splits if_splits)
  show "p \<in> set (t_pending d)" "pc_receipt_id p = rc_receipt_id r" "pc_attempt_id p = rc_attempt_id r"
    "pc_artifact_sha256 p = rc_artifact_sha256 r" "pc_receipt_hash p = rc_receipt_hash r"
    using g x' by simp_all
  obtain y where y: "find_attempt (rc_attempt_id r) d = Some y" "at_scan_result y = Clean"
      "make_scan_attempt y = Inr a" "snapshot_matches r a" using b by blast
  have "a = y" using make_scan_attempt_Inr[OF y(3)] by simp
  then show "a \<in> set (t_attempts d)" "at_attempt_id a = rc_attempt_id r" "at_scan_result a = Clean"
    "snapshot_matches r a" using find_attemptD[OF y(1)] y(2,4) by simp_all
qed

lemma from_attempt_snapshot: "receipt_from_attempt a i h q e c = Inr r \<Longrightarrow> snapshot_matches r a"
  by (auto simp: receipt_from_attempt_def make_clean_receipt_Inr snapshot_matches_def split: if_splits)

lemma record_receipt_Inr:
  assumes "record_clean_receipt sha256 r d = Inr (d', s)"
  obtains p a stable where "receipt_guard sha256 r d = Inr (p, a)"
    "receipt_from_attempt a (rc_receipt_id r) (rc_receipt_hash r) (rc_quarantine_path r)
       (rc_quarantine_expires_at r) (pc_created_at p) = Inr stable"
    "insert_receipt stable d = Inr d' \<and> s = stable \<or> d' = d"
proof -
  obtain p a where g: "receipt_guard sha256 r d = Inr (p, a)"
    using assms by (auto simp: record_clean_receipt_def andthen_Inr_iff)
  then obtain stable where st: "receipt_from_attempt a (rc_receipt_id r) (rc_receipt_hash r)
      (rc_quarantine_path r) (rc_quarantine_expires_at r) (pc_created_at p) = Inr stable"
    using assms by (auto simp: record_clean_receipt_def andthen_Inr_iff)
  have "insert_receipt stable d = Inr d' \<and> s = stable \<or> d' = d"
    using assms g st by (auto simp: record_clean_receipt_def andthen_Inr_iff split: sum.splits option.splits if_splits)
  with g st show ?thesis by (rule that)
qed

lemma insert_receipt_ok:
  assumes "scan_inv d" and "insert_receipt r d = Inr d'" and "receipt_backed d r"
  shows "scan_step_ok d d'"
proof -
  have d': "d' = d\<lparr>t_receipts := t_receipts d @ [r]\<rparr>"
    and new: "rc_receipt_id r \<notin> rc_receipt_id ` set (t_receipts d)"
      "rc_attempt_id r \<notin> rc_attempt_id ` set (t_receipts d)"
    using assms(2) by (simp_all add: insert_receipt_def andthen_Inr_iff)
  have "pending_backed d' q = pending_backed d q" for q by (simp add: pending_backed_def d')
  moreover have "receipt_backed d' q = receipt_backed d q" for q by (simp add: receipt_backed_def d')
  ultimately show ?thesis
    using assms(1,3) new unfolding scan_step_ok_def scan_inv_def scan_grows_def
    by (auto simp: d' unique_key_append1 list_all_iff)
qed

lemma record_receipt_ok:
  assumes "scan_inv d" and "record_clean_receipt sha256 r d = Inr (d', s)"
  shows "scan_step_ok d d'"
  using assms(2)
proof (rule record_receipt_Inr)
  fix p a stable
  assume g: "receipt_guard sha256 r d = Inr (p, a)"
    and st: "receipt_from_attempt a (rc_receipt_id r) (rc_receipt_hash r) (rc_quarantine_path r)
       (rc_quarantine_expires_at r) (pc_created_at p) = Inr stable"
    and out: "insert_receipt stable d = Inr d' \<and> s = stable \<or> d' = d"
  note guard = receipt_guard_Inr[OF assms(1) g] and fields = receipt_from_attempt_Inr[OF st]
  have "receipt_backed d stable"
    unfolding receipt_backed_def
  proof (intro conjI bexI)
    show "at_attempt_id a = rc_attempt_id stable" "at_scan_result a = Clean" "snapshot_matches stable a"
      using fields(4) guard(8) from_attempt_snapshot[OF st] by simp_all
    show "pc_receipt_id p = rc_receipt_id stable" "pc_attempt_id p = rc_attempt_id stable"
      "pc_artifact_sha256 p = rc_artifact_sha256 stable" "pc_receipt_hash p = rc_receipt_hash stable"
      "pc_created_at p = rc_created_at stable"
      using fields guard by (simp_all add: snapshot_matches_def)
  qed (use guard in simp_all)
  then show ?thesis
    using out insert_receipt_ok[OF assms(1)] assms(1) by (auto simp: scan_step_ok_def scan_grows_refl)
qed

lemma delete_ok:
  assumes "scan_inv d" and "delete_pending_clean_receipt i d = (d', b)"
  shows "scan_step_ok d d'"
proof (cases "find_receipt i d \<noteq> None \<or> find_pending i d = None")
  case True
  then have "d' = d" using assms(2) by (auto simp: delete_pending_clean_receipt_def split: if_splits)
  then show ?thesis using assms(1) by (simp add: scan_step_ok_def scan_grows_refl)
next
  case False
  let ?ps = "filter (\<lambda>p. pc_receipt_id p \<noteq> i) (t_pending d)"
  have d': "d' = d\<lparr>t_pending := ?ps\<rparr>"
    using False assms(2) by (auto simp: delete_pending_clean_receipt_def)
  have noreceipt: "rc_receipt_id r \<noteq> i" if "r \<in> set (t_receipts d)" for r
    using False that by (auto simp: find_receipt_def find_None_iff)
  have "pending_backed d' p = pending_backed d p" for p by (simp add: pending_backed_def d')
  moreover have "receipt_backed d' r" if "receipt_backed d r" "r \<in> set (t_receipts d)" for r
    using that(1) noreceipt[OF that(2)] by (auto simp: receipt_backed_def d')
  moreover have "unique_key pc_receipt_id ?ps" "unique_key pc_attempt_id ?ps"
    using scan_invD(4,5)[OF assms(1)] by (simp_all add: unique_key_def distinct_map_filter)
  moreover have "\<exists>q \<in> set ?ps. pending_evolves p q"
    if "p \<in> set (t_pending d)" "find_receipt (pc_receipt_id p) d \<noteq> None" for p
    using that False by (intro pending_kept) auto
  ultimately show ?thesis
    using assms(1) unfolding scan_step_ok_def scan_inv_def scan_grows_def
    by (simp add: d' list_all_iff)
qed

lemma scan_step_ok:
  assumes "scan_inv d" and "scan_step sha256 d d'"
  shows "scan_step_ok d d'"
  using assms(2)
proof cases
  case (step_attempt a b)
  then show ?thesis using record_attempt_ok[OF assms(1)] by blast
next
  case (step_pending p q)
  from step_pending(2) show ?thesis
  proof (cases rule: record_pending_Inr)
    case inserted
    then show ?thesis using insert_pending_ok[OF assms(1) step_pending(1)] by blast
  next
    case (replay x)
    then show ?thesis using assms(1) by (simp add: scan_step_ok_def scan_grows_refl)
  qed
next
  case (step_receipt r s)
  then show ?thesis using record_receipt_ok[OF assms(1)] by blast
next
  case (step_claim_publication i owner now lease c)
  then have "\<not> blank owner" and "\<exists>n. update_pending (claimable i now) (claim_values owner lease now) d = Inr (d', n)"
    by (auto simp: claim_pending_clean_publication_def andthen_Inr_iff publication_args_ok_def)
  then show ?thesis using claim_update[OF assms(1), of owner i now lease] by auto
next
  case (step_refresh i owner now lease q)
  then have "\<exists>n. update_pending (owns_publication i owner) (refresh_values lease now) d = Inr (d', n)"
    by (auto simp: refresh_pending_clean_publication_lease_def andthen_Inr_iff split: if_splits)
  then show ?thesis
    using owned_update[where P = "owns_publication i owner" and i = i and owner = owner, OF assms(1) refresh_ok]
    by auto
next
  case (step_published i owner formal now q)
  then have "\<exists>n. update_pending (\<lambda>p. owns_publication i owner p \<and> pc_formal_artifact_id p = formal)
      (published_values now) d = Inr (d', n)"
    by (auto simp: mark_published_def andthen_Inr_iff split: if_splits option.splits)
  then show ?thesis
    using owned_update[where P = "\<lambda>p. owns_publication i owner p \<and> pc_formal_artifact_id p = formal"
        and i = i and owner = owner, OF assms(1) publish_ok] by auto
next
  case (step_failed reason i owner now b)
  then have "\<exists>n. update_pending (owns_publication i owner) (failed_values reason now) d = Inr (d', n)"
    by (auto simp: mark_failed_def andthen_Inr_iff)
  then show ?thesis
    using owned_update[where P = "owns_publication i owner" and i = i and owner = owner,
        OF assms(1) fail_ok[OF _ _ step_failed(1)]] by auto
next
  case (step_delete i b)
  then show ?thesis using delete_ok[OF assms(1)] by blast
qed

interpretation scan_tables: invariant_system scan_inv "scan_step sha256" for sha256
  by unfold_locales (use scan_step_ok in \<open>auto simp: scan_step_ok_def\<close>)

lemma scan_steps_grow:
  assumes "(scan_step sha256)\<^sup>*\<^sup>* d d'" and "scan_inv d"
  shows "scan_grows d d'"
  using scan_tables.steps_measure[OF assms, of scan_grows] scan_grows_refl scan_grows_trans scan_step_ok
  by (auto simp: scan_step_ok_def)

section \<open>Properties\<close>

text \<open>C36.
  In every database reached from a consistent one, a clean receipt is backed by the row of a clean
  scan attempt with the same digest and the same scanner snapshot, and by the pending receipt with its
  id, hash and creation time; no attempt or receipt row is ever changed or removed; and a pending
  row is kept with its identity from the moment its clean receipt is recorded, and is final once it is
  published as well. Before that it may be deleted, published or not. The operations are those
  of the store, with a reason that is not blank where a publication is marked as failed.\<close>

theorem receipt_provenance:
  assumes "scan_inv d" and "(scan_step sha256)\<^sup>*\<^sup>* d d'"
  shows "(\<forall>r \<in> set (t_receipts d').
      (\<exists>a \<in> set (t_attempts d'). at_attempt_id a = rc_attempt_id r \<and> at_scan_result a = Clean \<and> snapshot_matches r a)
      \<and> (\<exists>p \<in> set (t_pending d'). pc_receipt_id p = rc_receipt_id r \<and> pc_receipt_hash p = rc_receipt_hash r
          \<and> pc_created_at p = rc_created_at r))
    \<and> (\<exists>as. t_attempts d' = t_attempts d @ as) \<and> (\<exists>rs. t_receipts d' = t_receipts d @ rs)
    \<and> (\<forall>p \<in> set (t_pending d). find_receipt (pc_receipt_id p) d \<noteq> None \<longrightarrow>
          (\<exists>q \<in> set (t_pending d'). pending_fixed q = pending_fixed p
             \<and> (pc_publication_status p = PsPublished \<longrightarrow> q = p)))"
proof (intro conjI ballI impI)
  have grows: "scan_grows d d'" by (rule scan_steps_grow[OF assms(2,1)])
  show "\<exists>as. t_attempts d' = t_attempts d @ as" "\<exists>rs. t_receipts d' = t_receipts d @ rs"
    using grows unfolding scan_grows_def by blast+
  show "\<exists>q \<in> set (t_pending d'). pending_fixed q = pending_fixed p \<and> (pc_publication_status p = PsPublished \<longrightarrow> q = p)"
    if "p \<in> set (t_pending d)" "find_receipt (pc_receipt_id p) d \<noteq> None" for p
    using grows that unfolding scan_grows_def pending_evolves_def by metis
  fix r assume "r \<in> set (t_receipts d')"
  then have "receipt_backed d' r"
    using scan_invD(10)[OF scan_tables.steps_inv[OF assms(2,1)]] by blast
  then show "\<exists>a \<in> set (t_attempts d'). at_attempt_id a = rc_attempt_id r \<and> at_scan_result a = Clean \<and> snapshot_matches r a"
    and "\<exists>p \<in> set (t_pending d'). pc_receipt_id p = rc_receipt_id r \<and> pc_receipt_hash p = rc_receipt_hash r
          \<and> pc_created_at p = rc_created_at r"
    unfolding receipt_backed_def by blast+
qed

lemma same_attempt_trans:
  "same_scan_attempt_identity a b \<Longrightarrow> same_scan_attempt_identity b c \<Longrightarrow> same_scan_attempt_identity a c"
  by (simp add: same_scan_attempt_identity_def)

lemma record_attempt_stored:
  assumes "record_attempt a d = Inr (d', b)"
  shows "b \<in> set (t_attempts d')" "same_scan_attempt_identity b a"
proof -
  have "b \<in> set (t_attempts d') \<and> same_scan_attempt_identity b a"
  proof (cases "insert_attempt a d")
    case (Inl e)
    then obtain x where "List.find (\<lambda>x. at_idempotency_key x = at_idempotency_key a) (t_attempts d) = Some x"
      "make_scan_attempt x = Inr b" "same_scan_attempt_identity b a" "d' = d"
      using assms by (auto simp: record_attempt_def andthen_Inr_iff split: option.splits if_splits)
    then show ?thesis using make_scan_attempt_Inr[of x b] by (auto dest: find_SomeD)
  next
    case (Inr e)
    then have "e = d'" "b = a" using assms by (simp_all add: record_attempt_def)
    moreover have "e = d\<lparr>t_attempts := t_attempts d @ [a]\<rparr>"
      using Inr by (simp add: insert_attempt_def andthen_Inr_iff)
    ultimately show ?thesis by (auto simp: same_scan_attempt_identity_def)
  qed
  then show "b \<in> set (t_attempts d')" "same_scan_attempt_identity b a" by simp_all
qed

text \<open>Recording an attempt is replay safe: after it has been recorded, whatever operations follow, recording
  again an attempt that agrees on everything but the clock returns the stored row and changes
  nothing.\<close>

theorem attempt_replay:
  assumes "scan_inv d" and "valid_scan_attempt a" and "record_attempt a d = Inr (d1, b)"
    and "(scan_step sha256)\<^sup>*\<^sup>* d1 d2" and "same_scan_attempt_identity a a2"
  shows "record_attempt a2 d2 = Inr (d2, b)"
proof -
  have inv1: "scan_inv d1" using record_attempt_ok[OF assms(1-3)] by (simp add: scan_step_ok_def)
  have inv2: "scan_inv d2" by (rule scan_tables.steps_inv[OF assms(4) inv1])
  have b: "b \<in> set (t_attempts d2)"
    using record_attempt_stored(1)[OF assms(3)] scan_steps_grow[OF assms(4) inv1]
    by (auto simp: scan_grows_def)
  have same: "same_scan_attempt_identity b a2"
    using record_attempt_stored(2)[OF assms(3)] assms(5) by (rule same_attempt_trans)
  have "List.find (\<lambda>x. at_idempotency_key x = at_idempotency_key a2) (t_attempts d2) = Some b"
    using scan_invD(2)[OF inv2] b same by (auto simp: same_scan_attempt_identity_def intro: find_unique)
  moreover have "at_idempotency_key a2 \<in> at_idempotency_key ` set (t_attempts d2)"
    using b same by (metis imageI same_scan_attempt_identity_def)
  then have "insert_attempt a2 d2 \<noteq> Inr x" for x by (auto simp: insert_attempt_def andthen_Inr_iff)
  then have "\<exists>e. insert_attempt a2 d2 = Inl e" by (metis sum.exhaust)
  ultimately show ?thesis using read_back(2)[OF inv2 b] same by (auto simp: record_attempt_def)
qed

lemma find_pending_update:
  assumes "scan_inv d" and "find_pending i d = Some p" and "\<And>x. P x \<Longrightarrow> pc_receipt_id x = i"
    and "\<And>x. pc_receipt_id (f x) = pc_receipt_id x"
  shows "find_pending i (d\<lparr>t_pending := tupdate P f (t_pending d)\<rparr>) = Some (if P p then f p else p)"
    and "0 < rowcount P (t_pending d) \<longleftrightarrow> P p"
    and "\<not> P p \<Longrightarrow> d\<lparr>t_pending := tupdate P f (t_pending d)\<rparr> = d"
proof -
  note p = find_pendingD[OF assms(2)]
  have only: "x = p" if "x \<in> set (t_pending d)" "P x" for x
    using unique_keyD[OF scan_invD(4)[OF assms(1)] that(1)] assms(3)[OF that(2)] p by simp
  let ?q = "if P p then f p else p"
  have "?q \<in> set (tupdate P f (t_pending d))" using p by (auto simp: set_tupdate)
  moreover have "unique_key pc_receipt_id (tupdate P f (t_pending d))"
    using scan_invD(4)[OF assms(1)] assms(4) by (simp add: unique_key_tupdate)
  ultimately show "find_pending i (d\<lparr>t_pending := tupdate P f (t_pending d)\<rparr>) = Some ?q"
    using p assms(4) by (auto simp: find_pending_def intro!: find_unique[where k = pc_receipt_id])
  show "0 < rowcount P (t_pending d) \<longleftrightarrow> P p" using only p unfolding rowcount_pos_iff by blast
  show "d\<lparr>t_pending := tupdate P f (t_pending d)\<rparr> = d" if "\<not> P p"
    using only that by (subst tupdate_id) auto
qed

lemma find_pending_none:
  assumes "find_pending i d = None" and "\<And>x. P x \<Longrightarrow> pc_receipt_id x = i"
  shows "d\<lparr>t_pending := tupdate P f (t_pending d)\<rparr> = d"
  using assms by (subst tupdate_id) (auto simp: find_pending_def find_None_iff)

lemma publication_args [simp]: "\<not> blank owner \<Longrightarrow> now < lease \<Longrightarrow> publication_args_ok owner now lease = Inr ()"
  by (simp add: publication_args_ok_def require_all.simps(2))

text \<open>A publication claim never raises on consistent tables and is exclusive: it is acquired exactly when the
  receipt is pending or failed, or its publisher's lease has run out, and then the row belongs to the
  claimer under a new version; otherwise nothing is written and the current row is
  returned. Other rows are never touched.\<close>

theorem claim_exclusive:
  assumes "scan_inv d" and "\<not> blank owner" and "now < lease"
  shows "\<exists>d'. claim_pending_clean_publication sha256 i owner now lease d =
      Inr (d', map_option (\<lambda>p. if claimable i now p then (True, claim_values owner lease now p) else (False, p))
        (find_pending i d))
    \<and> scan_inv d'
    \<and> find_pending i d' = map_option (\<lambda>p. if claimable i now p then claim_values owner lease now p else p) (find_pending i d)
    \<and> (\<forall>p. find_pending i d = Some p \<longrightarrow> \<not> claimable i now p \<longrightarrow> d' = d)
    \<and> filter (\<lambda>p. pc_receipt_id p \<noteq> i) (t_pending d') = filter (\<lambda>p. pc_receipt_id p \<noteq> i) (t_pending d)"
proof -
  let ?P = "claimable i now" and ?f = "claim_values owner lease now"
  let ?d = "d\<lparr>t_pending := tupdate ?P ?f (t_pending d)\<rparr>"
  have P: "pc_receipt_id x = i" if "?P x" for x using that by (simp add: claimable_def)
  have f: "pc_receipt_id (?f x) = pc_receipt_id x" for x by (simp add: claim_values_def)
  note upd = claim_update[OF assms(1,2), of i now lease]
  have inv: "scan_inv ?d" using upd(2) by (simp add: scan_step_ok_def)
  have claim: "claim_pending_clean_publication sha256 i owner now lease d =
      Inr (?d, map_option (Pair (0 < rowcount ?P (t_pending d))) (find_pending i ?d))"
    using assms(2,3) by (simp add: claim_pending_clean_publication_def upd(1) read_back(3)[OF inv])
  have others: "filter (\<lambda>p. pc_receipt_id p \<noteq> i) (tupdate ?P ?f ps) = filter (\<lambda>p. pc_receipt_id p \<noteq> i) ps" for ps
    by (induction ps) (auto simp: tupdate_Cons claimable_def f)
  show ?thesis
  proof (cases "find_pending i d")
    case None
    then show ?thesis
      using claim find_pending_none[OF None P] assms(1) by auto
  next
    case (Some p)
    note u = find_pending_update[OF assms(1) Some P f]
    show ?thesis
      using claim inv u others by (intro exI[of _ ?d]) (auto simp: Some)
  qed
qed

text \<open>Only the publisher that holds the row can act on it: for any other owner token a refresh finds nothing, a
  failure report changes nothing, and a publication is refused unless the receipt is already
  published under the same formal id, in which case it is merely read.\<close>

theorem only_owner_publishes:
  assumes "scan_inv d" and "find_pending i d = Some p" and "\<not> owns_publication i owner p"
    and "\<not> blank owner" and "now < lease"
  shows "refresh_pending_clean_publication_lease sha256 i owner now lease d = Inr (d, None)
    \<and> mark_failed i owner now reason d = Inr (d, False)
    \<and> mark_published sha256 i owner formal now d =
        (if pc_publication_status p = PsPublished \<and> pc_formal_artifact_id p = formal then Inr (d, p)
         else Inl (IntegrityError ''pending clean receipt publication owner changed''))"
proof -
  have none: "update_pending P f d = Inr (d, 0)" if "\<And>x. P x \<Longrightarrow> owns_publication i owner x" for P f
  proof -
    have "\<not> P x" if "x \<in> set (t_pending d)" for x
      using unique_keyD[OF scan_invD(4)[OF assms(1)] that, of p] find_pendingD[OF assms(2)] assms(3)
        \<open>\<And>x. P x \<Longrightarrow> owns_publication i owner x\<close> by (auto simp: owns_publication_def)
    then show ?thesis by (simp add: update_pending_def list_all_iff tupdate_id rowcount_0_iff)
  qed
  have n1: "update_pending (owns_publication i owner) f d = Inr (d, 0)" for f
    by (rule none) simp
  have n2: "update_pending (\<lambda>p. owns_publication i owner p \<and> pc_formal_artifact_id p = formal) f d = Inr (d, 0)" for f
    by (rule none) simp
  show ?thesis
    using assms(4,5) read_back(3)[OF assms(1), of sha256 i]
    by (simp add: refresh_pending_clean_publication_lease_def mark_failed_def mark_published_def n1 n2
        assms(2))
qed

section \<open>Witnesses\<close>

text \<open>A clean attempt, its pending receipt, and the tables that hold them.\<close>

definition hash64 :: str where
  "hash64 = replicate 64 97"

definition sample_attempt :: scan_attempt where
  "sample_attempt = \<lparr>at_attempt_id = lit ''a1'', at_artifact_sha256 = hash64, at_content_type = lit ''image/png'',
     at_scanner_backend = lit ''clamd'', at_definitions_version = lit ''1'', at_definitions_fresh_at = 0,
     at_definitions_age_seconds = 0, at_max_bytes = 1, at_max_concurrent_scans = 1, at_deadline_ms = 1,
     at_socket_timeout_ms = 1, at_scan_result = Clean, at_rejection_code = None, at_rejection_detail = None,
     at_started_at = 0, at_finished_at = 0, at_idempotency_key = lit ''k1''\<rparr>"

definition sample_pending :: pending_receipt where
  "sample_pending = \<lparr>pc_receipt_id = lit ''r1'', pc_attempt_id = lit ''a1'', pc_artifact_sha256 = hash64,
     pc_receipt_hash = hash64, pc_spool_token = lit ''t1'', pc_spool_byte_size = 1, pc_spool_sha256 = hash64,
     pc_spool_expires_at = 10, pc_quarantine_expires_at = 10, pc_created_at = 0,
     pc_formal_artifact_id = replicate 32 97, pc_publication_status = PsPending, pc_publication_owner = None,
     pc_publication_lease_expires_at = None, pc_publication_version = 0, pc_published_at = None,
     pc_publication_failure = None, pc_updated_at = Some 0\<rparr>"

definition scan_db :: db where
  "scan_db = empty_db\<lparr>t_attempts := [sample_attempt], t_pending := [sample_pending]\<rparr>"

lemma not_blank_samples: "\<not> blank hash64" "\<not> blank (replicate 32 97)"
  "c \<noteq> [] \<Longrightarrow> \<not> py_isspace (of_char (hd c)) \<Longrightarrow> \<not> blank (lit c)"
  by (simp_all add: blank_iff hash64_def py_isspace_def list_all_iff)
    (auto simp: lit_def intro: list.set_sel(1))

lemma sample_attempt_valid: "valid_scan_attempt sample_attempt"
  by (simp add: valid_scan_attempt_iff scan_attempt_checks_def scan_snapshot_checks_def non_blank_check_def
      sample_attempt_def not_blank_samples) (simp add: hash64_def not_blank_samples(3) py_isspace_def)

lemma sample_pending_valid: "valid_pending sample_pending"
  by (simp add: valid_pending_def pending_receipt_checks_def publication_fields_checks_def non_blank_check_def
      sample_pending_def not_blank_samples) (simp add: hash64_def not_blank_samples(3) py_isspace_def is_lower_hex_def list_all_iff)

lemma scan_db_inv: "scan_inv scan_db"
  using sample_attempt_valid sample_pending_valid
  by (simp add: scan_inv_def scan_db_def empty_db_def unique_key_def pending_backed_def)
    (simp add: sample_attempt_def sample_pending_def)

lemma scan_db_find: "find_pending (lit ''r1'') scan_db = Some sample_pending"
  by (simp add: find_pending_def scan_db_def) (simp add: sample_pending_def)

definition sample_receipt :: clean_receipt where
  "sample_receipt = \<lparr>rc_receipt_id = lit ''r1'', rc_attempt_id = lit ''a1'', rc_artifact_sha256 = hash64,
     rc_receipt_hash = hash64, rc_scanner_backend = lit ''clamd'', rc_definitions_version = lit ''1'',
     rc_definitions_fresh_at = 0, rc_definitions_age_seconds = 0, rc_max_bytes = 1, rc_max_concurrent_scans = 1,
     rc_deadline_ms = 1, rc_socket_timeout_ms = 1, rc_quarantine_path = lit ''q1'', rc_quarantine_expires_at = 10,
     rc_created_at = 0\<rparr>"

definition receipt_db :: db where
  "receipt_db = scan_db\<lparr>t_receipts := [sample_receipt]\<rparr>"

lemma receipt_db_inv: "scan_inv receipt_db"
proof -
  have p: "pending_backed receipt_db p = pending_backed scan_db p" for p
    by (simp add: pending_backed_def receipt_db_def)
  have "receipt_backed receipt_db sample_receipt"
    by (simp add: receipt_backed_def receipt_db_def scan_db_def snapshot_matches_def)
      (simp add: sample_attempt_def sample_pending_def sample_receipt_def)
  then show ?thesis
    using scan_db_inv unfolding scan_inv_def p by (simp add: receipt_db_def unique_key_def)
qed

text \<open>The step deletes nothing: the pending row has its receipt.\<close>

lemma receipt_db_step: "(scan_step (\<lambda>s. s))\<^sup>*\<^sup>* receipt_db receipt_db"
proof (rule r_into_rtranclp, rule step_delete)
  show "delete_pending_clean_receipt (lit ''r1'') receipt_db = (receipt_db, False)"
    by (simp add: delete_pending_clean_receipt_def find_receipt_def receipt_db_def sample_receipt_def)
qed

lemma receipt_provenance_witness:
  "\<exists>q \<in> set (t_pending receipt_db). pc_receipt_hash q = rc_receipt_hash sample_receipt"
proof -
  have "sample_receipt \<in> set (t_receipts receipt_db)" by (simp add: receipt_db_def)
  then show ?thesis using receipt_provenance[OF receipt_db_inv receipt_db_step] by blast
qed

lemma attempt_replay_witness: "record_attempt (sample_attempt\<lparr>at_finished_at := 7\<rparr>) scan_db = Inr (scan_db, sample_attempt)"
proof -
  have "insert_attempt sample_attempt scan_db = Inl (IntegrityError ''PRIMARY KEY'')"
    by (simp add: insert_attempt_def require_all.simps(2) scan_db_def)
  moreover have "make_scan_attempt sample_attempt = Inr sample_attempt"
    using sample_attempt_valid by (simp add: valid_scan_attempt_def)
  ultimately have "record_attempt sample_attempt scan_db = Inr (scan_db, sample_attempt)"
    by (simp add: record_attempt_def scan_db_def same_scan_attempt_identity_def)
  then show ?thesis
    using attempt_replay[OF scan_db_inv sample_attempt_valid _ rtranclp.rtrancl_refl,
        of scan_db sample_attempt "sample_attempt\<lparr>at_finished_at := 7\<rparr>"]
    by (simp add: same_scan_attempt_identity_def)
qed

lemma claim_exclusive_witness: "\<exists>d'. claim_pending_clean_publication (\<lambda>s. s) (lit ''r1'') (lit ''w'') 1 5 scan_db =
  Inr (d', Some (True, claim_values (lit ''w'') 5 1 sample_pending))"
proof -
  have "\<not> blank (lit ''w'')" by (rule not_blank_samples(3)) (simp_all add: py_isspace_def)
  moreover have "claimable (lit ''r1'') 1 sample_pending" by (simp add: claimable_def sample_pending_def)
  ultimately show ?thesis
    using claim_exclusive[OF scan_db_inv, of "lit ''w''" 1 5 "\<lambda>s. s" "lit ''r1''"] by (auto simp: scan_db_find)
qed

lemma only_owner_publishes_witness: "mark_published (\<lambda>s. s) (lit ''r1'') (lit ''w'') (lit ''f'') 1 scan_db =
  Inl (IntegrityError ''pending clean receipt publication owner changed'')"
proof -
  have "\<not> blank (lit ''w'')" by (rule not_blank_samples(3)) (simp_all add: py_isspace_def)
  then show ?thesis
    using only_owner_publishes[OF scan_db_inv scan_db_find, of "lit ''w''" 1 5 "\<lambda>s. s" "[]" "lit ''f''"]
    by (simp add: owns_publication_def sample_pending_def)
qed

end
