(* ===== verification/SessionRepos.thy ===== *)
theory SessionRepos
  imports Schema Interfaces "HOL-Library.List_Lexorder" "HOL-Library.Product_Lexorder"
begin

text \<open>
  The product tables of \<^verbatim>\<open>persistence/repositories.py\<close>: sessions, evidence, answers, reviews,
  verified principals and the security audit, with its sink (\<^verbatim>\<open>persistence/security_audit.py\<close>) and the
  validations of \<^verbatim>\<open>runtime/security_audit.py\<close>. A repository returns the row it read or wrote; the
  \<open>Stored...\<close> models have the columns of the rows, except that stored evidence has no artifact id.
  The clock is a parameter.
\<close>

section \<open>Sessions\<close>

definition session_create :: "session_row \<Rightarrow> db \<Rightarrow> exc + db \<times> session_row" where
  "session_create s d =
     andthen (require_all
       [(ls_session_id s \<notin> ls_session_id ` set (t_sessions d), IntegrityError ''PRIMARY KEY''),
        (ls_conversation_id s \<notin> ls_conversation_id ` set (t_sessions d),
         IntegrityError ''UNIQUE conversation_id'')])
     (\<lambda>_. Inr (d\<lparr>t_sessions := t_sessions d @ [s]\<rparr>, s))"

definition get_owned :: "str \<Rightarrow> str \<Rightarrow> db \<Rightarrow> session_row option" where
  "get_owned session_id owner_user_id d =
     List.find (\<lambda>s. ls_session_id s = session_id \<and> ls_owner_user_id s = owner_user_id) (t_sessions d)"

definition status_match :: "str \<Rightarrow> int \<Rightarrow> session_row \<Rightarrow> bool" where
  "status_match session_id expected_version s \<longleftrightarrow> ls_session_id s = session_id
     \<and> ls_status s \<noteq> lit ''reviewed'' \<and> ls_version s = expected_version"

definition update_status :: "str \<Rightarrow> str \<Rightarrow> int \<Rightarrow> datetime \<Rightarrow> db \<Rightarrow> db \<times> bool" where
  "update_status session_id status expected_version now d =
     (d\<lparr>t_sessions := tupdate (status_match session_id expected_version)
          (\<lambda>s. s\<lparr>ls_status := status, ls_version := ls_version s + 1, ls_updated_at := now\<rparr>) (t_sessions d)\<rparr>,
      0 < rowcount (status_match session_id expected_version) (t_sessions d))"

definition set_conversation :: "str \<Rightarrow> str \<Rightarrow> str \<Rightarrow> datetime \<Rightarrow> db \<Rightarrow> exc + db" where
  "set_conversation session_id conversation_id runtime_mode now d =
     (let rows = tupdate (\<lambda>s. ls_session_id s = session_id)
           (\<lambda>s. s\<lparr>ls_conversation_id := conversation_id, ls_runtime_mode := runtime_mode, ls_updated_at := now\<rparr>)
           (t_sessions d)
      in if unique_key ls_conversation_id rows then Inr (d\<lparr>t_sessions := rows\<rparr>)
         else Inl (IntegrityError ''UNIQUE conversation_id''))"

definition mark_goal_synced :: "str \<Rightarrow> datetime \<Rightarrow> db \<Rightarrow> db" where
  "mark_goal_synced session_id synced_at d =
     d\<lparr>t_sessions := tupdate (\<lambda>s. ls_session_id s = session_id)
       (\<lambda>s. s\<lparr>ls_goal_conversation_synced_at := Some synced_at, ls_updated_at := synced_at\<rparr>) (t_sessions d)\<rparr>"

definition list_recoverable :: "db \<Rightarrow> session_row list" where
  "list_recoverable d =
     sort_key (\<lambda>s. (ls_created_at s, ls_session_id s))
       (filter (\<lambda>s. ls_status s \<noteq> lit ''reviewed'' \<and> ls_status s \<noteq> lit ''failed'') (t_sessions d))"

section \<open>Evidence\<close>

record stored_evidence =
  se_evidence_id :: str
  se_session_id :: str
  se_evidence_type :: str
  se_content_hash :: str
  se_text_content :: "str option"
  se_source_url :: "str option"
  se_metadata :: attributes
  se_conversation_synced_at :: "datetime option"
  se_created_at :: datetime

definition stored_evidence_of :: "evidence_row \<Rightarrow> stored_evidence" where
  "stored_evidence_of e =
     \<lparr>se_evidence_id = ev_evidence_id e, se_session_id = ev_session_id e,
      se_evidence_type = ev_evidence_type e, se_content_hash = ev_content_hash e,
      se_text_content = ev_text_content e, se_source_url = ev_source_url e,
      se_metadata = ev_metadata_json e, se_conversation_synced_at = ev_conversation_synced_at e,
      se_created_at = ev_created_at e\<rparr>"

definition evidence_row_of :: "stored_evidence \<Rightarrow> evidence_row" where
  "evidence_row_of e =
     \<lparr>ev_evidence_id = se_evidence_id e, ev_session_id = se_session_id e,
      ev_evidence_type = se_evidence_type e, ev_content_hash = se_content_hash e,
      ev_text_content = se_text_content e, ev_source_url = se_source_url e,
      ev_metadata_json = se_metadata e, ev_conversation_synced_at = se_conversation_synced_at e,
      ev_created_at = se_created_at e, ev_artifact_id = None\<rparr>"

definition evidence_add :: "stored_evidence \<Rightarrow> db \<Rightarrow> exc + db \<times> stored_evidence" where
  "evidence_add e d =
     andthen (require_all
       [(se_evidence_id e \<notin> ev_evidence_id ` set (t_evidence d), IntegrityError ''PRIMARY KEY''),
        (find_session (se_session_id e) d \<noteq> None, IntegrityError ''FOREIGN KEY'')])
     (\<lambda>_. Inr (d\<lparr>t_evidence := t_evidence d @ [evidence_row_of e]\<rparr>, e))"

definition evidence_get :: "str \<Rightarrow> str \<Rightarrow> db \<Rightarrow> stored_evidence option" where
  "evidence_get session_id evidence_id d =
     map_option stored_evidence_of
       (List.find (\<lambda>e. ev_session_id e = session_id \<and> ev_evidence_id e = evidence_id) (t_evidence d))"

definition evidence_list :: "str \<Rightarrow> db \<Rightarrow> stored_evidence list" where
  "evidence_list session_id d =
     map stored_evidence_of (sort_key (\<lambda>e. (ev_created_at e, ev_evidence_id e))
       (filter (\<lambda>e. ev_session_id e = session_id) (t_evidence d)))"

definition evidence_mark_synced :: "str \<Rightarrow> str \<Rightarrow> datetime \<Rightarrow> db \<Rightarrow> db" where
  "evidence_mark_synced session_id evidence_id synced_at d =
     d\<lparr>t_evidence := tupdate (\<lambda>e. ev_session_id e = session_id \<and> ev_evidence_id e = evidence_id)
       (\<lambda>e. e\<lparr>ev_conversation_synced_at := Some synced_at\<rparr>) (t_evidence d)\<rparr>"

section \<open>The media facts of a message\<close>

record media_message_facts =
  mm_evidence_id :: str
  mm_receipt_id :: str
  mm_attempt_id :: str
  mm_scan_result :: string
  mm_artifact_ref :: str
  mm_artifact_sha256 :: str
  mm_opaque_object_key :: str
  mm_media_type :: str
  mm_normalized_sha256 :: str
  mm_byte_size :: int
  mm_width :: int
  mm_height :: int

text \<open>\<open>_positive_dimension\<close>: \<open>int(value)\<close> of a float truncates towards zero.\<close>

definition positive_dimension :: "json_scalar option \<Rightarrow> exc + int" where
  "positive_dimension v =
     (case v of
        Some (JInt n) \<Rightarrow> if 0 < n then Inr n else Inl (KeyError ''media dimensions are unavailable'')
      | Some (JFloat x) \<Rightarrow>
          (let n = (if 0 \<le> x then \<lfloor>x\<rfloor> else \<lceil>x\<rceil>)
           in if of_int n = x \<and> 0 < n then Inr n else Inl (KeyError ''media dimensions are unavailable''))
      | _ \<Rightarrow> Inl (KeyError ''media dimensions are unavailable''))"

text \<open>A left outer join keeps the left row with NULLs when nothing matches.\<close>

definition matches :: "('r \<Rightarrow> bool) \<Rightarrow> 'r list \<Rightarrow> 'r option list" where
  "matches P rows = (case filter P rows of [] \<Rightarrow> [None] | rs \<Rightarrow> map Some rs)"

definition joined :: "'a option \<Rightarrow> ('a \<Rightarrow> 'r \<Rightarrow> bool) \<Rightarrow> 'r list \<Rightarrow> 'r option list" where
  "joined l on rows = (case l of None \<Rightarrow> [None] | Some x \<Rightarrow> matches (on x) rows)"

definition stable_scan_key :: "session_row \<Rightarrow> reservation_row \<Rightarrow> str" where
  "stable_scan_key s r =
     ls_session_id s @ lit '':'' @ mr_idempotency_key r @ lit '':'' @ mr_fingerprint r"

type_synonym media_join = "session_row \<times> evidence_row option \<times> artifact_row option
  \<times> reservation_row option \<times> scan_attempt option \<times> clean_receipt option"

definition media_join_rows :: "str \<Rightarrow> str \<Rightarrow> db \<Rightarrow> media_join list" where
  "media_join_rows session_id evidence_id d =
     [(s, e, a, r, t, c).
        s \<leftarrow> filter (\<lambda>s. ls_session_id s = session_id) (t_sessions d),
        e \<leftarrow> matches (\<lambda>e. ev_session_id e = ls_session_id s \<and> ev_evidence_id e = evidence_id) (t_evidence d),
        a \<leftarrow> joined e (\<lambda>e a. ev_artifact_id e = Some (ma_media_item_id a)) (t_artifacts d),
        r \<leftarrow> joined e (\<lambda>e r. mr_session_id r = ev_session_id e \<and> mr_evidence_id r = Some (ev_evidence_id e)
               \<and> mr_status r = RsCompleted) (t_reservations d),
        t \<leftarrow> joined r (\<lambda>r t. at_idempotency_key t = stable_scan_key s r) (t_attempts d),
        c \<leftarrow> joined t (\<lambda>t c. rc_attempt_id c = at_attempt_id t) (t_receipts d)]"

definition media_facts_of :: "str \<Rightarrow> media_join \<Rightarrow> exc + media_message_facts" where
  "media_facts_of verified_user_id row = (case row of (s, e, a, r, t, c) \<Rightarrow>
     if ls_owner_user_id s \<noteq> verified_user_id
     then Inl (PermissionError ''verified identity does not own session'')
     else case e of None \<Rightarrow> Inl (KeyError ''evidence is unavailable'')
     | Some e \<Rightarrow>
     if ev_artifact_id e = None then Inl (KeyError ''evidence has no media artifact'')
     else case a of None \<Rightarrow> Inl (KeyError ''media artifact is unavailable'')
     | Some a \<Rightarrow>
     if ma_state a \<noteq> ArReferenced then Inl (KeyError ''media artifact is not consumable'')
     else case r of None \<Rightarrow> Inl (KeyError ''clean receipt reservation is unavailable'')
     | Some r \<Rightarrow>
     case t of None \<Rightarrow> Inl (KeyError ''clean receipt is unavailable'')
     | Some t \<Rightarrow>
     if at_scan_result t \<noteq> Clean then Inl (KeyError ''clean receipt is unavailable'')
     else case c of None \<Rightarrow> Inl (KeyError ''clean receipt is unavailable'')
     | Some c \<Rightarrow>
     let attributes = (case mr_attributes_json r of None \<Rightarrow> [] | Some as \<Rightarrow> as)
     in andthen (positive_dimension (map_of attributes (lit ''width''))) (\<lambda>width.
        andthen (positive_dimension (map_of attributes (lit ''height''))) (\<lambda>height.
        Inr \<lparr>mm_evidence_id = ev_evidence_id e, mm_receipt_id = rc_receipt_id c,
          mm_attempt_id = at_attempt_id t, mm_scan_result = kind_value (at_scan_result t),
          mm_artifact_ref = lit ''focusproof-artifact://'' @ ma_media_item_id a,
          mm_artifact_sha256 = at_artifact_sha256 t, mm_opaque_object_key = ma_opaque_object_key a,
          mm_media_type = ma_media_type a, mm_normalized_sha256 = ma_normalized_sha256 a,
          mm_byte_size = ma_normalized_byte_size a, mm_width = width, mm_height = height\<rparr>)))"

text \<open>\<open>one_or_none()\<close>: no row is None, more than one raises.\<close>

definition get_media_message_artifact ::
  "str \<Rightarrow> str \<Rightarrow> str \<Rightarrow> db \<Rightarrow> exc + media_message_facts" where
  "get_media_message_artifact verified_user_id session_id evidence_id d =
     (case media_join_rows session_id evidence_id d of
        [] \<Rightarrow> Inl (KeyError ''session is unavailable'')
      | [row] \<Rightarrow> media_facts_of verified_user_id row
      | _ \<Rightarrow> Inl (RuntimeError ''MultipleResultsFound''))"

section \<open>Answers\<close>

definition answer_key :: "answer_row \<Rightarrow> str \<times> str" where
  "answer_key a = (an_session_id a, an_question_id a)"

definition answer_get :: "str \<Rightarrow> str \<Rightarrow> db \<Rightarrow> answer_row option" where
  "answer_get session_id question_id d = List.find (\<lambda>a. answer_key a = (session_id, question_id)) (t_answers d)"

definition answer_upsert :: "str \<Rightarrow> str \<Rightarrow> str \<Rightarrow> datetime \<Rightarrow> db \<Rightarrow> exc + db \<times> answer_row" where
  "answer_upsert session_id question_id answer now d =
     (case answer_get session_id question_id d of
        None \<Rightarrow>
          let a = \<lparr>an_session_id = session_id, an_question_id = question_id, an_answer = answer,
                an_version = 1, an_conversation_synced_at = None, an_created_at = now, an_updated_at = now\<rparr>
          in if find_session session_id d = None then Inl (IntegrityError ''FOREIGN KEY'')
             else Inr (d\<lparr>t_answers := t_answers d @ [a]\<rparr>, a)
      | Some a \<Rightarrow>
          if an_answer a \<noteq> answer
          then let b = a\<lparr>an_answer := answer, an_version := an_version a + 1,
                  an_conversation_synced_at := None, an_updated_at := now\<rparr>
               in Inr (d\<lparr>t_answers := tupdate (\<lambda>x. answer_key x = answer_key a) (\<lambda>_. b) (t_answers d)\<rparr>, b)
          else Inr (d, a))"

definition answer_list :: "str \<Rightarrow> db \<Rightarrow> answer_row list" where
  "answer_list session_id d =
     sort_key (\<lambda>a. (an_created_at a, an_question_id a)) (filter (\<lambda>a. an_session_id a = session_id) (t_answers d))"

text \<open>The column's \<open>onupdate\<close> also moves \<open>updated_at\<close>.\<close>

definition answer_mark_synced :: "str \<Rightarrow> str \<Rightarrow> int \<Rightarrow> datetime \<Rightarrow> datetime \<Rightarrow> db \<Rightarrow> db" where
  "answer_mark_synced session_id question_id version synced_at now d =
     d\<lparr>t_answers := tupdate (\<lambda>a. answer_key a = (session_id, question_id) \<and> an_version a = version)
       (\<lambda>a. a\<lparr>an_conversation_synced_at := Some synced_at, an_updated_at := now\<rparr>) (t_answers d)\<rparr>"

section \<open>Reviews\<close>

definition reviewed_status :: "str \<Rightarrow> str" where
  "reviewed_status review_status =
     (if review_status = lit ''completed'' then lit ''reviewed'' else review_status)"

definition review_row_ok :: "review_row \<Rightarrow> db \<Rightarrow> exc + unit" where
  "review_row_ok r d =
     require_all
       [(rv_review_id r \<notin> rv_review_id ` set (t_reviews d), IntegrityError ''PRIMARY KEY''),
        (\<not> (rv_source_openhands_event_id r \<noteq> None \<and>
            (\<exists>x \<in> set (t_reviews d). rv_session_id x = rv_session_id r
               \<and> rv_source_openhands_event_id x = rv_source_openhands_event_id r)),
         IntegrityError ''UNIQUE session source''),
        (find_session (rv_session_id r) d \<noteq> None, IntegrityError ''FOREIGN KEY'')]"

definition add_from_native_event :: "review_row \<Rightarrow> datetime \<Rightarrow> db \<Rightarrow> exc + db \<times> review_row" where
  "add_from_native_event r now d =
     (case (case rv_source_openhands_event_id r of None \<Rightarrow> None
            | Some s \<Rightarrow> List.find (\<lambda>x. rv_session_id x = rv_session_id r
                \<and> rv_source_openhands_event_id x = Some s) (t_reviews d)) of
        Some existing \<Rightarrow> Inr (d, existing)
      | None \<Rightarrow>
        andthen (review_row_ok r d) (\<lambda>_.
        Inr (d\<lparr>t_reviews := t_reviews d @ [r],
               t_sessions := tupdate (\<lambda>s. ls_session_id s = rv_session_id r \<and> ls_status s \<noteq> lit ''reviewed'')
                 (\<lambda>s. s\<lparr>ls_review_result_json := rv_result_json r,
                        ls_status := reviewed_status (rv_review_status r), ls_updated_at := now,
                        ls_version := ls_version s + 1\<rparr>) (t_sessions d)\<rparr>, r)))"

definition review_list :: "str \<Rightarrow> db \<Rightarrow> review_row list" where
  "review_list session_id d =
     sort_key (\<lambda>r. (rv_created_at r, rv_review_id r)) (filter (\<lambda>r. rv_session_id r = session_id) (t_reviews d))"

section \<open>Principals\<close>

definition principal_add :: "principal_row \<Rightarrow> db \<Rightarrow> exc + db \<times> principal_row" where
  "principal_add p d =
     andthen (require_all
       [(vp_principal_id p \<notin> vp_principal_id ` set (t_principals d), IntegrityError ''PRIMARY KEY''),
        ((vp_issuer p, vp_subject p) \<notin> (\<lambda>x. (vp_issuer x, vp_subject x)) ` set (t_principals d),
         IntegrityError ''UNIQUE issuer subject'')])
     (\<lambda>_. Inr (d\<lparr>t_principals := t_principals d @ [p]\<rparr>, p))"

definition principal_get_exact :: "str \<Rightarrow> str \<Rightarrow> db \<Rightarrow> principal_row option" where
  "principal_get_exact issuer subject d =
     List.find (\<lambda>p. vp_issuer p = issuer \<and> vp_subject p = subject) (t_principals d)"

definition principal_set_active :: "str \<Rightarrow> bool \<Rightarrow> datetime \<Rightarrow> db \<Rightarrow> db \<times> bool" where
  "principal_set_active principal_id active now d =
     (let P = (\<lambda>p. vp_principal_id p = principal_id \<and> vp_active p \<noteq> active)
      in (d\<lparr>t_principals := tupdate P (\<lambda>p. p\<lparr>vp_active := active, vp_state_changed_at := now\<rparr>) (t_principals d)\<rparr>,
          0 < rowcount P (t_principals d)))"

section \<open>The security audit\<close>

definition MIN_SECURITY_AUDIT_RETENTION_SECONDS :: int where "MIN_SECURITY_AUDIT_RETENTION_SECONDS = 60"
definition MAX_SECURITY_AUDIT_RETENTION_SECONDS :: int where
  "MAX_SECURITY_AUDIT_RETENTION_SECONDS = 90 * 24 * 60 * 60"
definition SECURITY_AUDIT_RETENTION_BATCH_SIZE :: nat where "SECURITY_AUDIT_RETENTION_BATCH_SIZE = 64"

definition validate_security_audit_retention_seconds :: "int \<Rightarrow> exc + int" where
  "validate_security_audit_retention_seconds v =
     (if v < MIN_SECURITY_AUDIT_RETENTION_SECONDS
      then Inl (ValueError ''security audit retention interval is too short'')
      else if MAX_SECURITY_AUDIT_RETENTION_SECONDS < v
      then Inl (ValueError ''security audit retention interval is too long'')
      else Inr v)"

text \<open>The length of a string's UTF-8 encoding.\<close>

definition utf8_length :: "str \<Rightarrow> nat" where
  "utf8_length s = sum_list (map (\<lambda>c. if c < 128 then 1 else if c < 2048 then 2 else if c < 65536 then 3 else 4) s)"

definition validate_security_audit_hmac_key :: "str \<Rightarrow> exc + str" where
  "validate_security_audit_hmac_key v =
     (if v = [] \<or> v \<noteq> strip v then Inl (ValueError ''security audit HMAC key must be exact and non-empty'')
      else if utf8_length v < 32 then Inl (ValueError ''security audit HMAC key is too weak'')
      else Inr v)"

text \<open>\<open>authorization.partition(" ")\<close>, and the token text when the header carries one.\<close>

definition bearer_token :: "str option \<Rightarrow> str option" where
  "bearer_token authorization =
     (case authorization of None \<Rightarrow> None
      | Some h \<Rightarrow>
        (let scheme = takeWhile (\<lambda>c. c \<noteq> 32) h; rest = dropWhile (\<lambda>c. c \<noteq> 32) h
         in if scheme \<noteq> lit ''Bearer'' \<or> rest = [] \<or> blank (tl rest) then None else Some (tl rest)))"

definition invalid_authorization_reason :: "str option \<Rightarrow> string" where
  "invalid_authorization_reason authorization =
     (if bearer_token authorization = None then ''missing_credentials'' else ''invalid_credentials'')"

definition security_add :: "security_event_row \<Rightarrow> db \<Rightarrow> exc + db" where
  "security_add e d =
     andthen (require_all
       [(se_id e \<notin> se_id ` set (t_security_events d), IntegrityError ''PRIMARY KEY''),
        (se_request_id e \<notin> se_request_id ` set (t_security_events d), IntegrityError ''UNIQUE request_id'')])
     (\<lambda>_. Inr (d\<lparr>t_security_events := t_security_events d @ [e]\<rparr>))"

definition expired_ids :: "datetime \<Rightarrow> nat \<Rightarrow> db \<Rightarrow> str list" where
  "expired_ids cutoff limit d =
     map se_id (take limit (sort_key (\<lambda>e. (se_occurred_at e, se_id e))
       (filter (\<lambda>e. se_occurred_at e < cutoff) (t_security_events d))))"

definition security_delete_expired :: "datetime \<Rightarrow> nat \<Rightarrow> db \<Rightarrow> db \<times> nat" where
  "security_delete_expired cutoff limit d =
     (let ids = expired_ids cutoff limit d
      in if ids = [] then (d, 0)
         else (d\<lparr>t_security_events := filter (\<lambda>e. se_id e \<notin> set ids) (t_security_events d)\<rparr>,
               rowcount (\<lambda>e. se_id e \<in> set ids) (t_security_events d)))"

definition sink_record :: "int \<Rightarrow> security_event_row \<Rightarrow> db \<Rightarrow> exc + db" where
  "sink_record retention_seconds e d =
     andthen (security_add e d) (\<lambda>d'.
     Inr (fst (security_delete_expired (se_occurred_at e - retention_seconds * 1000000)
       SECURITY_AUDIT_RETENTION_BATCH_SIZE d')))"

definition sink_sweep_expired :: "int \<Rightarrow> datetime \<Rightarrow> db \<Rightarrow> db \<times> nat" where
  "sink_sweep_expired retention_seconds now d =
     security_delete_expired (now - retention_seconds * 1000000) SECURITY_AUDIT_RETENTION_BATCH_SIZE d"

section \<open>Session steps\<close>

definition session_inv :: "db \<Rightarrow> bool" where
  "session_inv d \<longleftrightarrow> unique_key ls_session_id (t_sessions d) \<and> unique_key ls_conversation_id (t_sessions d)"

inductive session_step :: "db \<Rightarrow> db \<Rightarrow> bool" where
  step_create: "session_create s d = Inr (d', s') \<Longrightarrow> session_step d d'"
| step_status: "update_status i status v now d = (d', b) \<Longrightarrow> session_step d d'"
| step_conversation: "set_conversation i c m now d = Inr d' \<Longrightarrow> session_step d d'"
| step_goal: "session_step d (mark_goal_synced i t d)"
| step_review: "add_from_native_event r now d = Inr (d', r') \<Longrightarrow> session_step d d'"

inductive_cases session_stepE: "session_step d d'"

text \<open>What any step leaves of a session.\<close>

definition session_evolves :: "session_row \<Rightarrow> session_row \<Rightarrow> bool" where
  "session_evolves s s' \<longleftrightarrow> ls_session_id s' = ls_session_id s \<and> ls_owner_user_id s' = ls_owner_user_id s
     \<and> ls_goal s' = ls_goal s \<and> ls_version s \<le> ls_version s'
     \<and> (ls_status s = lit ''reviewed'' \<longrightarrow> ls_status s' = lit ''reviewed''
          \<and> ls_review_result_json s' = ls_review_result_json s \<and> ls_version s' = ls_version s)"

definition sessions_evolve :: "session_row list \<Rightarrow> session_row list \<Rightarrow> bool" where
  "sessions_evolve xs ys \<longleftrightarrow> (\<forall>s \<in> set xs. \<exists>s' \<in> set ys. session_evolves s s')"

lemma session_evolves_refl [simp]: "session_evolves s s"
  by (simp add: session_evolves_def)

lemma session_evolves_trans: "session_evolves a b \<Longrightarrow> session_evolves b c \<Longrightarrow> session_evolves a c"
  unfolding session_evolves_def by (intro conjI impI; elim conjE; simp)

lemma sessions_evolve_refl [simp]: "sessions_evolve xs xs"
  unfolding sessions_evolve_def by (blast intro: session_evolves_refl)

lemma sessions_evolve_trans: "sessions_evolve a b \<Longrightarrow> sessions_evolve b c \<Longrightarrow> sessions_evolve a c"
  unfolding sessions_evolve_def by (blast intro: session_evolves_trans)

lemma sessions_evolve_tupdate:
  assumes "\<And>s. s \<in> set xs \<Longrightarrow> P s \<Longrightarrow> session_evolves s (f s)"
  shows "sessions_evolve xs (tupdate P f xs)"
proof -
  have "\<exists>s' \<in> set (tupdate P f xs). session_evolves s s'" if "s \<in> set xs" for s
    using that assms by (cases "P s") (auto simp: set_tupdate intro: bexI[of _ "f s"] bexI[of _ s])
  then show ?thesis by (simp add: sessions_evolve_def)
qed

lemma session_step_evolves:
  assumes "session_step d d'"
  shows "sessions_evolve (t_sessions d) (t_sessions d')"
  using assms
proof cases
  case (step_create s s')
  then show ?thesis
    by (auto simp: session_create_def andthen_Inr_iff sessions_evolve_def intro: session_evolves_refl)
next
  case (step_status i status v now b)
  then show ?thesis
    by (auto simp: update_status_def status_match_def session_evolves_def intro!: sessions_evolve_tupdate)
next
  case (step_conversation i c m now)
  then show ?thesis
    by (auto simp: set_conversation_def Let_def session_evolves_def split: if_splits intro!: sessions_evolve_tupdate)
next
  case (step_goal i t)
  then show ?thesis
    by (auto simp: mark_goal_synced_def session_evolves_def intro!: sessions_evolve_tupdate)
next
  case (step_review r now r')
  then show ?thesis
    by (auto simp: add_from_native_event_def andthen_Inr_iff session_evolves_def split: option.splits
        intro!: sessions_evolve_tupdate)
qed

lemma session_step_inv:
  assumes "session_inv d" and "session_step d d'"
  shows "session_inv d'"
  using assms(2)
proof cases
  case (step_create s s')
  then show ?thesis
    using assms(1) by (auto simp: session_create_def andthen_Inr_iff session_inv_def unique_key_append1)
next
  case (step_status i status v now b)
  then show ?thesis using assms(1) by (auto simp: update_status_def session_inv_def unique_key_tupdate)
next
  case (step_conversation i c m now)
  then show ?thesis
    using assms(1) by (auto simp: set_conversation_def Let_def session_inv_def unique_key_tupdate split: if_splits)
next
  case (step_goal i t)
  then show ?thesis using assms(1) by (auto simp: mark_goal_synced_def session_inv_def unique_key_tupdate)
next
  case (step_review r now r')
  then show ?thesis
    using assms(1)
    by (auto simp: add_from_native_event_def andthen_Inr_iff session_inv_def unique_key_tupdate split: option.splits)
qed

text \<open>The optimistic lock of \<open>update_status\<close> is a fenced operation: the expected version is the token.\<close>

definition version_spent :: "str \<times> int \<times> str \<times> datetime \<Rightarrow> db \<Rightarrow> bool" where
  "version_spent t d = (case t of (i, v, _, _) \<Rightarrow> \<exists>s \<in> set (t_sessions d). ls_session_id s = i \<and> v < ls_version s)"

definition try_update_status :: "str \<times> int \<times> str \<times> datetime \<Rightarrow> db \<Rightarrow> db option" where
  "try_update_status t d = (case t of (i, v, status, now) \<Rightarrow>
     let (d', ok) = update_status i status v now d in if ok then Some d' else None)"

lemma try_update_status_Some:
  "try_update_status (i, v, status, now) d = Some d' \<longleftrightarrow> update_status i status v now d = (d', True)"
  by (auto simp: try_update_status_def split: prod.splits)

lemma update_status_spends:
  assumes "update_status i status v now d = (d', True)"
  shows "version_spent (i, v, status', now') d'"
proof -
  obtain s where s: "s \<in> set (t_sessions d)" "status_match i v s"
    using assms by (auto simp: update_status_def rowcount_pos_iff)
  let ?s = "s\<lparr>ls_status := status, ls_version := ls_version s + 1, ls_updated_at := now\<rparr>"
  have "?s \<in> set (t_sessions d')" using assms s by (auto simp: update_status_def set_tupdate)
  then show ?thesis using s(2) by (auto simp: version_spent_def status_match_def intro!: bexI[of _ ?s])
qed

lemma spent_version_refused:
  assumes "session_inv d" and "version_spent (i, v, status, now) d"
  shows "\<not> snd (update_status i status v now d)"
proof -
  obtain s where s: "s \<in> set (t_sessions d)" "ls_session_id s = i" "v < ls_version s"
    using assms(2) by (auto simp: version_spent_def)
  have "\<not> status_match i v x" if "x \<in> set (t_sessions d)" for x
    using unique_keyD[of ls_session_id "t_sessions d" x s] that s assms(1)
    by (auto simp: session_inv_def status_match_def)
  then show ?thesis by (auto simp: update_status_def rowcount_pos_iff)
qed

lemma spent_version_stays:
  "session_step d d' \<Longrightarrow> version_spent t d \<Longrightarrow> version_spent t d'"
  using session_step_evolves[of d d']
  by (cases t) (force simp: version_spent_def sessions_evolve_def session_evolves_def)

interpretation status_fence: fenced_operation session_inv session_step version_spent try_update_status
proof
  fix s s' :: db and t :: "str \<times> int \<times> str \<times> datetime"
  show "session_inv s \<Longrightarrow> session_step s s' \<Longrightarrow> session_inv s'" by (rule session_step_inv)
  obtain i v status now where t: "t = (i, v, status, now)" by (cases t)
  show "session_step s s'" if "try_update_status t s = Some s'"
    using that unfolding t try_update_status_Some by (rule step_status)
  show "version_spent t s'" if "try_update_status t s = Some s'"
    using that unfolding t try_update_status_Some by (rule update_status_spends)
  show "version_spent t s'" if "session_step s s'" "version_spent t s"
    using that by (rule spent_version_stays)
  show "try_update_status t s = None" if "session_inv s" "version_spent t s"
    using spent_version_refused[OF that(1), of i v status now] that(2) unfolding t
    by (auto simp: try_update_status_def split: prod.splits)
qed

text \<open>The version of a session is a fence: once a status update with an expected version has
  succeeded, no later update that expects this version succeeds, whatever session
  operations come in between.\<close>

theorem status_update_once:
  assumes "session_inv d" and "update_status i status v now d = (d1, True)" and "session_step\<^sup>*\<^sup>* d1 d2"
  shows "\<not> snd (update_status i status' v now' d2)"
proof -
  have inv1: "session_inv d1" by (rule session_step_inv[OF assms(1) step_status[OF assms(2)]])
  have "version_spent (i, v, status', now') d2"
    by (rule status_fence.spent_stable_steps[OF assms(3) inv1 update_status_spends[OF assms(2)]])
  then show ?thesis by (rule spent_version_refused[OF status_fence.steps_inv[OF assms(3) inv1]])
qed

text \<open>A reviewed session is final: no session, review or synchronisation operation, in any order,
  changes its status, its review result, its version, its owner or its goal, or removes it.\<close>

theorem reviewed_is_final:
  assumes "session_inv d" and "s \<in> set (t_sessions d)" and "ls_status s = lit ''reviewed''"
    and "session_step\<^sup>*\<^sup>* d d'"
  shows "\<exists>s'. find_session (ls_session_id s) d' = Some s' \<and> ls_status s' = lit ''reviewed''
    \<and> ls_review_result_json s' = ls_review_result_json s \<and> ls_version s' = ls_version s
    \<and> ls_owner_user_id s' = ls_owner_user_id s \<and> ls_goal s' = ls_goal s"
proof -
  have "sessions_evolve (t_sessions d) (t_sessions d')"
    by (rule status_fence.steps_measure[OF assms(4,1)])
      (auto intro: sessions_evolve_trans session_step_evolves)
  then obtain s' where s': "s' \<in> set (t_sessions d')" "session_evolves s s'"
    using assms(2) unfolding sessions_evolve_def by blast
  have "unique_key ls_session_id (t_sessions d')"
    using status_fence.steps_inv[OF assms(4,1)] by (simp add: session_inv_def)
  then have "find_session (ls_session_id s) d' = Some s'"
    using s' unfolding find_session_def
    by (intro find_unique[where k = ls_session_id]) (auto simp: session_evolves_def)
  then show ?thesis using s'(2) assms(3) by (simp add: session_evolves_def)
qed

section \<open>Media facts\<close>

lemma positive_dimension_Inr: "positive_dimension v = Inr n \<Longrightarrow> 0 < n"
  by (auto simp: positive_dimension_def Let_def split: option.splits json_scalar.splits if_splits)

lemma set_matches: "Some x \<in> set (matches P rows) \<Longrightarrow> x \<in> set rows \<and> P x"
proof -
  assume "Some x \<in> set (matches P rows)"
  then have "x \<in> set (filter P rows)"
    by (cases "filter P rows") (auto simp: matches_def simp del: set_filter)
  then show ?thesis by simp
qed

lemma set_joined: "Some x \<in> set (joined l on rows) \<Longrightarrow> \<exists>y. l = Some y \<and> x \<in> set rows \<and> on y x"
  by (auto simp: joined_def dest: set_matches split: option.splits)

lemma media_facts_Inr:
  assumes "media_facts_of user (s, e, a, r, t, c) = Inr f"
  obtains e' a' r' t' c' width height where "e = Some e'" "a = Some a'" "r = Some r'" "t = Some t'" "c = Some c'"
    "ls_owner_user_id s = user" "ma_state a' = ArReferenced" "at_scan_result t' = Clean" "0 < width" "0 < height"
    "f = \<lparr>mm_evidence_id = ev_evidence_id e', mm_receipt_id = rc_receipt_id c',
        mm_attempt_id = at_attempt_id t', mm_scan_result = kind_value (at_scan_result t'),
        mm_artifact_ref = lit ''focusproof-artifact://'' @ ma_media_item_id a',
        mm_artifact_sha256 = at_artifact_sha256 t', mm_opaque_object_key = ma_opaque_object_key a',
        mm_media_type = ma_media_type a', mm_normalized_sha256 = ma_normalized_sha256 a',
        mm_byte_size = ma_normalized_byte_size a', mm_width = width, mm_height = height\<rparr>"
proof -
  obtain e' a' r' t' c' where some: "e = Some e'" "a = Some a'" "r = Some r'" "t = Some t'" "c = Some c'"
    and own: "ls_owner_user_id s = user" "ev_artifact_id e' \<noteq> None" "ma_state a' = ArReferenced"
      "at_scan_result t' = Clean"
    using assms by (auto simp: media_facts_of_def Let_def split: if_splits option.splits)
  let ?as = "case mr_attributes_json r' of None \<Rightarrow> [] | Some as \<Rightarrow> as"
  let ?f = "\<lambda>width height. \<lparr>mm_evidence_id = ev_evidence_id e', mm_receipt_id = rc_receipt_id c',
        mm_attempt_id = at_attempt_id t', mm_scan_result = kind_value (at_scan_result t'),
        mm_artifact_ref = lit ''focusproof-artifact://'' @ ma_media_item_id a',
        mm_artifact_sha256 = at_artifact_sha256 t', mm_opaque_object_key = ma_opaque_object_key a',
        mm_media_type = ma_media_type a', mm_normalized_sha256 = ma_normalized_sha256 a',
        mm_byte_size = ma_normalized_byte_size a', mm_width = width, mm_height = height\<rparr>"
  have "andthen (positive_dimension (map_of ?as (lit ''width''))) (\<lambda>width.
      andthen (positive_dimension (map_of ?as (lit ''height''))) (\<lambda>height. Inr (?f width height))) = Inr f"
    using assms own by (simp add: some media_facts_of_def Let_def)
  then obtain width height where "0 < width" "0 < height" "f = ?f width height"
    unfolding andthen_Inr_iff using positive_dimension_Inr by blast
  with some own(1,3,4) show ?thesis by (rule that)
qed

lemma media_facts_source:
  assumes "get_media_message_artifact user i eid d = Inr f"
  shows "\<exists>s e a r t c. s \<in> set (t_sessions d) \<and> ls_session_id s = i \<and> ls_owner_user_id s = user
    \<and> e \<in> set (t_evidence d) \<and> ev_session_id e = i \<and> ev_evidence_id e = eid
    \<and> a \<in> set (t_artifacts d) \<and> ev_artifact_id e = Some (ma_media_item_id a) \<and> ma_state a = ArReferenced
    \<and> r \<in> set (t_reservations d) \<and> mr_session_id r = i \<and> mr_evidence_id r = Some eid \<and> mr_status r = RsCompleted
    \<and> t \<in> set (t_attempts d) \<and> at_scan_result t = Clean \<and> at_idempotency_key t = stable_scan_key s r
    \<and> c \<in> set (t_receipts d) \<and> rc_attempt_id c = at_attempt_id t
    \<and> mm_evidence_id f = eid \<and> mm_receipt_id f = rc_receipt_id c \<and> mm_attempt_id f = at_attempt_id t
    \<and> mm_opaque_object_key f = ma_opaque_object_key a \<and> mm_byte_size f = ma_normalized_byte_size a
    \<and> mm_media_type f = ma_media_type a \<and> mm_normalized_sha256 f = ma_normalized_sha256 a
    \<and> mm_artifact_ref f = lit ''focusproof-artifact://'' @ ma_media_item_id a
    \<and> 0 < mm_width f \<and> 0 < mm_height f"
proof -
  obtain row where row: "media_join_rows i eid d = [row]" "media_facts_of user row = Inr f"
    using assms by (auto simp: get_media_message_artifact_def split: list.splits)
  obtain s e a r t c where [simp]: "row = (s, e, a, r, t, c)" by (cases row)
  have mem: "(s, e, a, r, t, c) \<in> set (media_join_rows i eid d)" using row(1) by simp
  from row(2)[simplified] show ?thesis
  proof (rule media_facts_Inr)
    fix e' a' r' t' c' width height
    assume some: "e = Some e'" "a = Some a'" "r = Some r'" "t = Some t'" "c = Some c'"
      and facts: "ls_owner_user_id s = user" "ma_state a' = ArReferenced" "at_scan_result t' = Clean"
        "0 < width" "0 < height"
        "f = \<lparr>mm_evidence_id = ev_evidence_id e', mm_receipt_id = rc_receipt_id c',
          mm_attempt_id = at_attempt_id t', mm_scan_result = kind_value (at_scan_result t'),
          mm_artifact_ref = lit ''focusproof-artifact://'' @ ma_media_item_id a',
          mm_artifact_sha256 = at_artifact_sha256 t', mm_opaque_object_key = ma_opaque_object_key a',
          mm_media_type = ma_media_type a', mm_normalized_sha256 = ma_normalized_sha256 a',
          mm_byte_size = ma_normalized_byte_size a', mm_width = width, mm_height = height\<rparr>"
    have "s \<in> set (t_sessions d) \<and> ls_session_id s = i"
      and "Some e' \<in> set (matches (\<lambda>e. ev_session_id e = ls_session_id s \<and> ev_evidence_id e = eid) (t_evidence d))"
      and "Some a' \<in> set (joined (Some e') (\<lambda>e a. ev_artifact_id e = Some (ma_media_item_id a)) (t_artifacts d))"
      and "Some r' \<in> set (joined (Some e') (\<lambda>e r. mr_session_id r = ev_session_id e
          \<and> mr_evidence_id r = Some (ev_evidence_id e) \<and> mr_status r = RsCompleted) (t_reservations d))"
      and "Some t' \<in> set (joined (Some r') (\<lambda>r t. at_idempotency_key t = stable_scan_key s r) (t_attempts d))"
      and "Some c' \<in> set (joined (Some t') (\<lambda>t c. rc_attempt_id c = at_attempt_id t) (t_receipts d))"
      using mem unfolding media_join_rows_def some by auto
    note parts = this(1) set_matches[OF this(2)] this(3-6)[THEN set_joined]
    show ?thesis
      by (rule exI[of _ s], rule exI[of _ e'], rule exI[of _ a'], rule exI[of _ r'], rule exI[of _ t'],
          rule exI[of _ c']) (use parts facts in simp)
  qed
qed

text \<open>Media facts are given out only to the owner of the session, for evidence of that session whose
  artifact is referenced, and only behind the completed reservation of this evidence, a clean scan attempt
  under its stable key, and a receipt of that attempt; the dimensions are positive.\<close>

theorem media_facts_provenance:
  assumes "get_media_message_artifact user i eid d = Inr f"
  shows "\<exists>s e a r t c. s \<in> set (t_sessions d) \<and> ls_session_id s = i \<and> ls_owner_user_id s = user
    \<and> e \<in> set (t_evidence d) \<and> ev_session_id e = i \<and> ev_evidence_id e = eid
    \<and> a \<in> set (t_artifacts d) \<and> ev_artifact_id e = Some (ma_media_item_id a) \<and> ma_state a = ArReferenced
    \<and> r \<in> set (t_reservations d) \<and> mr_session_id r = i \<and> mr_evidence_id r = Some eid \<and> mr_status r = RsCompleted
    \<and> t \<in> set (t_attempts d) \<and> at_scan_result t = Clean \<and> at_idempotency_key t = stable_scan_key s r
    \<and> c \<in> set (t_receipts d) \<and> rc_attempt_id c = at_attempt_id t
    \<and> mm_evidence_id f = eid \<and> mm_receipt_id f = rc_receipt_id c \<and> mm_attempt_id f = at_attempt_id t
    \<and> mm_opaque_object_key f = ma_opaque_object_key a \<and> mm_byte_size f = ma_normalized_byte_size a
    \<and> mm_media_type f = ma_media_type a \<and> mm_normalized_sha256 f = ma_normalized_sha256 a
    \<and> mm_artifact_ref f = lit ''focusproof-artifact://'' @ ma_media_item_id a
    \<and> 0 < mm_width f \<and> 0 < mm_height f"
  by (rule media_facts_source[OF assms])

section \<open>Retention of the security audit\<close>

lemma expired_ids_old: "x \<in> set (expired_ids cutoff limit d) \<Longrightarrow>
    \<exists>e \<in> set (t_security_events d). se_id e = x \<and> se_occurred_at e < cutoff"
  by (auto simp: expired_ids_def dest!: in_set_takeD)

lemma length_removed:
  assumes "unique_key k rows" and "length ids \<le> n"
  shows "length rows \<le> length (filter (\<lambda>e. k e \<notin> set ids) rows) + n"
proof -
  have "length (filter (\<lambda>e. k e \<in> set ids) rows) = card (k ` set (filter (\<lambda>e. k e \<in> set ids) rows))"
    using assms(1) distinct_card[of "map k (filter (\<lambda>e. k e \<in> set ids) rows)"]
    by (simp add: unique_key_def distinct_map_filter)
  also have "\<dots> \<le> card (set ids)" by (rule card_mono) auto
  also have "\<dots> \<le> n" using assms(2) card_length[of ids] by simp
  finally show ?thesis using sum_length_filter_compl[of "\<lambda>e. k e \<in> set ids" rows] by simp
qed

text \<open>Recording a security event keeps the new event, and retention only ever removes events
  older than the retention interval, at most 64 at a time.\<close>

theorem sink_record_retention:
  assumes "unique_key se_id (t_security_events d)" and "0 \<le> retention" and "sink_record retention e d = Inr d'"
  shows "e \<in> set (t_security_events d')
    \<and> (\<forall>x \<in> set (t_security_events d). x \<notin> set (t_security_events d') \<longrightarrow>
         se_occurred_at x < se_occurred_at e - retention * 1000000)
    \<and> length (t_security_events d) + 1 \<le> length (t_security_events d') + 64"
proof -
  let ?d1 = "d\<lparr>t_security_events := t_security_events d @ [e]\<rparr>"
  let ?cut = "se_occurred_at e - retention * 1000000"
  let ?ids = "expired_ids ?cut 64 ?d1"
  let ?rows = "t_security_events d @ [e]"
  have add: "security_add e d = Inr ?d1" and fresh: "se_id e \<notin> se_id ` set (t_security_events d)"
    and d': "d' = fst (security_delete_expired ?cut SECURITY_AUDIT_RETENTION_BATCH_SIZE ?d1)"
    using assms(3) by (auto simp: sink_record_def security_add_def andthen_Inr_iff)
  then have rows: "t_security_events d' = filter (\<lambda>x. se_id x \<notin> set ?ids) ?rows"
    by (simp add: security_delete_expired_def SECURITY_AUDIT_RETENTION_BATCH_SIZE_def Let_def)
  have uniq: "unique_key se_id ?rows" using assms(1) fresh by (simp add: unique_key_append1)
  have old: "se_occurred_at x < ?cut" if x: "x \<in> set ?rows" and ids: "se_id x \<in> set ?ids" for x
  proof -
    have "\<exists>y \<in> set ?rows. se_id y = se_id x \<and> se_occurred_at y < ?cut"
      using expired_ids_old[OF ids] by simp
    then obtain y where "y \<in> set ?rows" "se_id y = se_id x" "se_occurred_at y < ?cut" by blast
    then show ?thesis using unique_keyD[OF uniq, of y x] x by simp
  qed
  have "se_id e \<notin> set ?ids" using old[of e] assms(2) by auto
  moreover have "length ?ids \<le> 64" by (simp add: expired_ids_def)
  then have "length ?rows \<le> length (t_security_events d') + 64"
    unfolding rows using uniq by (intro length_removed) simp_all
  ultimately show ?thesis using old by (auto simp: rows)
qed

section \<open>Witnesses\<close>

definition session_db :: db where
  "session_db = empty_db\<lparr>t_sessions := [sample_session]\<rparr>"

lemma session_db_inv: "session_inv session_db"
  by (simp add: session_inv_def session_db_def empty_db_def unique_key_def)

definition started_db :: db where
  "started_db = empty_db\<lparr>t_sessions := [sample_session\<lparr>ls_status := lit ''paused'', ls_version := 2, ls_updated_at := 7\<rparr>]\<rparr>"

lemma session_db_update: "update_status (lit ''s1'') (lit ''paused'') 1 7 session_db = (started_db, True)"
  by (simp add: update_status_def status_match_def session_db_def started_db_def empty_db_def sample_session_def
      tupdate_Cons rowcount_def)

lemma started_db_step: "session_step\<^sup>*\<^sup>* started_db (mark_goal_synced (lit ''s1'') 9 started_db)"
  by (rule r_into_rtranclp) (rule step_goal)

lemma status_update_once_witness:
  "\<not> snd (update_status (lit ''s1'') (lit ''active'') 1 9 (mark_goal_synced (lit ''s1'') 9 started_db))"
  by (rule status_update_once[OF session_db_inv session_db_update started_db_step])

definition reviewed_session :: session_row where
  "reviewed_session = sample_session\<lparr>ls_status := lit ''reviewed''\<rparr>"

lemma reviewed_is_final_witness: "\<exists>s'. find_session (lit ''s1'')
    (mark_goal_synced (lit ''s1'') 9 (empty_db\<lparr>t_sessions := [reviewed_session]\<rparr>)) = Some s'
  \<and> ls_status s' = lit ''reviewed''"
proof -
  let ?d = "empty_db\<lparr>t_sessions := [reviewed_session]\<rparr>"
  have "session_inv ?d" by (simp add: session_inv_def unique_key_def)
  moreover have "session_step\<^sup>*\<^sup>* ?d (mark_goal_synced (lit ''s1'') 9 ?d)"
    by (rule r_into_rtranclp) (rule step_goal)
  moreover have "ls_session_id reviewed_session = lit ''s1''" "ls_status reviewed_session = lit ''reviewed''"
    by (simp_all add: reviewed_session_def sample_session_def)
  ultimately show ?thesis using reviewed_is_final[of ?d reviewed_session] by auto
qed

definition sample_event :: "string \<Rightarrow> datetime \<Rightarrow> security_event_row" where
  "sample_event i t = \<lparr>se_id = lit i, se_request_id = lit i, se_principal_id = None, se_token_fingerprint = None,
     se_outcome = lit ''success'', se_reason_category = lit ''success'', se_occurred_at = t\<rparr>"

lemma sink_record_retention_witness: "\<exists>d'. sink_record 60 (sample_event ''b'' 100000000)
    (empty_db\<lparr>t_security_events := [sample_event ''a'' 0]\<rparr>) = Inr d' \<and> sample_event ''b'' 100000000 \<in> set (t_security_events d')"
proof -
  let ?d = "empty_db\<lparr>t_security_events := [sample_event ''a'' 0]\<rparr>"
  have "unique_key se_id (t_security_events ?d)" by (simp add: unique_key_def)
  moreover obtain d' where d': "sink_record 60 (sample_event ''b'' 100000000) ?d = Inr d'"
    by (simp add: sink_record_def security_add_def require_all.simps(2) sample_event_def)
  ultimately show ?thesis using sink_record_retention[of ?d 60] by auto
qed

text \<open>One image, ingested and referenced.\<close>

definition media_db :: db where
  "media_db = empty_db\<lparr>
     t_sessions := [sample_session],
     t_evidence := [\<lparr>ev_evidence_id = lit ''e1'', ev_session_id = lit ''s1'', ev_evidence_type = lit ''image'',
       ev_content_hash = [], ev_text_content = None, ev_source_url = None, ev_metadata_json = [],
       ev_conversation_synced_at = None, ev_created_at = 0, ev_artifact_id = Some (lit ''m1'')\<rparr>],
     t_artifacts := [\<lparr>ma_media_item_id = lit ''m1'', ma_owner_id = lit ''u1'', ma_creator_reservation_id = None,
       ma_opaque_object_key = lit ''o1'', ma_manifest_id = lit ''mf1'', ma_media_type = lit ''image/png'',
       ma_normalized_sha256 = lit ''h'', ma_normalized_byte_size = 3, ma_state = ArReferenced, ma_created_at = 0\<rparr>],
     t_reservations := [\<lparr>mr_reservation_id = lit ''v1'', mr_media_item_id = lit ''m1'', mr_owner_id = lit ''u1'',
       mr_session_id = lit ''s1'', mr_idempotency_key = lit ''k'', mr_fingerprint = lit ''f'', mr_slot = 0,
       mr_status = RsCompleted, mr_active = None, mr_expires_at = 0, mr_canonical_artifact_id = None,
       mr_evidence_id = Some (lit ''e1''), mr_intent_action = None, mr_completion_mode = None,
       mr_staged_object_key = None, mr_staged_manifest_id = None, mr_media_type = None,
       mr_normalized_sha256 = None, mr_normalized_byte_size = None, mr_learner_explanation = None,
       mr_attributes_json = Some [(lit ''width'', JInt 2), (lit ''height'', JFloat 3)],
       mr_result_json = None, mr_rejection_reason = None, mr_created_at = 0, mr_updated_at = 0\<rparr>],
     t_attempts := [\<lparr>at_attempt_id = lit ''a1'', at_artifact_sha256 = [], at_content_type = [],
       at_scanner_backend = [], at_definitions_version = [], at_definitions_fresh_at = 0,
       at_definitions_age_seconds = 0, at_max_bytes = 1, at_max_concurrent_scans = 1, at_deadline_ms = 1,
       at_socket_timeout_ms = 1, at_scan_result = Clean, at_rejection_code = None, at_rejection_detail = None,
       at_started_at = 0, at_finished_at = 0, at_idempotency_key = lit ''s1:k:f''\<rparr>],
     t_receipts := [\<lparr>rc_receipt_id = lit ''r1'', rc_attempt_id = lit ''a1'', rc_artifact_sha256 = [],
       rc_receipt_hash = [], rc_scanner_backend = [], rc_definitions_version = [], rc_definitions_fresh_at = 0,
       rc_definitions_age_seconds = 0, rc_max_bytes = 1, rc_max_concurrent_scans = 1, rc_deadline_ms = 1,
       rc_socket_timeout_ms = 1, rc_quarantine_path = [], rc_quarantine_expires_at = 1, rc_created_at = 0\<rparr>]\<rparr>"

lemma media_db_facts: "\<exists>f. get_media_message_artifact (lit ''u1'') (lit ''s1'') (lit ''e1'') media_db = Inr f \<and> mm_height f = 3"
  by (simp add: get_media_message_artifact_def media_join_rows_def media_db_def empty_db_def sample_session_def
      matches_def joined_def stable_scan_key_def media_facts_of_def positive_dimension_def flip: lit_append)

lemma media_facts_provenance_witness:
  "\<exists>f. get_media_message_artifact (lit ''u1'') (lit ''s1'') (lit ''e1'') media_db = Inr f \<and> 0 < mm_height f"
  using media_db_facts media_facts_provenance[of "lit ''u1''" "lit ''s1''" "lit ''e1''" media_db] by blast

end
