(* ===== verification/MediaTransactions.thy ===== *)
theory MediaTransactions
  imports Schema Interfaces "HOL-Library.List_Lexorder" "HOL-Library.Product_Lexorder"
begin

text \<open>
  Media reservations, artifacts and their quotas: \<open>SqlMediaTransactionRepository\<close> of
  \<^verbatim>\<open>persistence/repositories.py\<close>. A reservation goes from \<open>RsActive\<close> to
  \<open>RsPendingReference\<close> or straight to \<open>RsCompleted\<close>; an artifact is shared by all reservations
  of an owner with the same normalised digest and is pending until its object is marked referenced.

  Every operation takes the database and returns an exception or the new database with the result.
  Fresh identifiers and the clock are parameters. A write checks the CHECK constraints of its row
  (the flush); locks are not modelled. \<open>finalize_media\<close> takes the artifacts that other transactions
  of the owner commit between its lookup and its insertion (\<open>late\<close>), so the branch that recovers
  from a lost race is modelled too.
\<close>

section \<open>Configuration and helpers\<close>

record media_repo =
  mt_max_items :: nat
  mt_max_distinct_bytes :: int
  mt_lease_seconds :: int

definition lock_owned_session :: "str \<Rightarrow> str \<Rightarrow> db \<Rightarrow> exc + session_row" where
  "lock_owned_session owner_id session_id d =
     (case find_session session_id d of
        None \<Rightarrow> Inl MediaAuthorizationError
      | Some s \<Rightarrow> if ls_owner_user_id s = owner_id then Inr s else Inl MediaAuthorizationError)"

definition find_reservation :: "str \<Rightarrow> str \<Rightarrow> str \<Rightarrow> db \<Rightarrow> reservation_row option" where
  "find_reservation owner_id session_id idempotency_key d =
     List.find (\<lambda>r. mr_owner_id r = owner_id \<and> mr_session_id r = session_id
                  \<and> mr_idempotency_key r = idempotency_key) (t_reservations d)"

definition reservation_by_id :: "str \<Rightarrow> db \<Rightarrow> reservation_row option" where
  "reservation_by_id i d = List.find (\<lambda>r. mr_reservation_id r = i) (t_reservations d)"

definition find_artifact :: "str \<Rightarrow> str \<Rightarrow> db \<Rightarrow> artifact_row option" where
  "find_artifact owner_id sha d =
     List.find (\<lambda>a. ma_owner_id a = owner_id \<and> ma_normalized_sha256 a = sha) (t_artifacts d)"

definition canonical_artifact :: "reservation_row \<Rightarrow> db \<Rightarrow> artifact_row option" where
  "canonical_artifact r d =
     List.find (\<lambda>a. mr_canonical_artifact_id r = Some (ma_media_item_id a)) (t_artifacts d)"

definition require_artifact :: "reservation_row \<Rightarrow> db \<Rightarrow> exc + artifact_row" where
  "require_artifact r d = (case canonical_artifact r d of
     None \<Rightarrow> Inl (MediaLeaseStateError ''canonical media artifact is unavailable'') | Some a \<Rightarrow> Inr a)"

definition lease_of_row :: "reservation_row \<Rightarrow> media_lease" where
  "lease_of_row r = \<lparr>ml_reservation_id = mr_reservation_id r, ml_media_item_id = mr_media_item_id r,
     ml_owner_id = mr_owner_id r, ml_session_id = mr_session_id r, ml_slot = mr_slot r,
     ml_idempotency_key = mr_idempotency_key r, ml_fingerprint = mr_fingerprint r\<rparr>"

definition check_fingerprint :: "reservation_row \<Rightarrow> str \<Rightarrow> exc + unit" where
  "check_fingerprint r fingerprint = require (mr_fingerprint r = fingerprint) IdempotencyConflictError"

definition check_lease :: "reservation_row \<Rightarrow> media_lease \<Rightarrow> exc + unit" where
  "check_lease r lease =
     require (lease_of_row r = lease) (MediaLeaseStateError ''media lease does not match'')"

definition check_staged_identity :: "reservation_row \<Rightarrow> finalize_request \<Rightarrow> exc + unit" where
  "check_staged_identity r q =
     require (fr_staged_media_item_id q = ml_media_item_id (fr_lease q)
            \<and> ml_media_item_id (fr_lease q) = mr_media_item_id r)
       (MediaLeaseStateError ''staged media item does not match lease'')"

definition check_canonical :: "artifact_row \<Rightarrow> finalize_request \<Rightarrow> exc + unit" where
  "check_canonical a q =
     require (ma_media_type a = fr_media_type q \<and> ma_normalized_byte_size a = fr_normalized_byte_size q)
       (MediaLeaseStateError ''canonical media facts conflict'')"

definition occupied :: "reservation_row \<Rightarrow> bool" where
  "occupied r \<longleftrightarrow> mr_status r \<in> {RsActive, RsPendingReference}"

definition evidence_count :: "str \<Rightarrow> db \<Rightarrow> nat" where
  "evidence_count session_id d =
     rowcount (\<lambda>e. ev_session_id e = session_id \<and> ev_artifact_id e \<noteq> None) (t_evidence d)"

definition pending_count :: "str \<Rightarrow> db \<Rightarrow> nat" where
  "pending_count session_id d =
     rowcount (\<lambda>r. mr_session_id r = session_id \<and> occupied r) (t_reservations d)"

definition result_of :: "ingested_result option \<Rightarrow> exc + ingested_result" where
  "result_of v = (case v of None \<Rightarrow> Inl (MediaLeaseStateError ''media result is unavailable'')
                          | Some r \<Rightarrow> Inr r)"

definition staged_of :: "reservation_row \<Rightarrow> exc + staged_object" where
  "staged_of r = (case (mr_staged_object_key r, mr_staged_manifest_id r) of
     (Some k, Some m) \<Rightarrow> Inr \<lparr>st_media_item_id = mr_media_item_id r, st_reservation_id = mr_reservation_id r,
        st_opaque_object_key = k, st_manifest_id = m\<rparr>
   | _ \<Rightarrow> Inl (MediaLeaseStateError ''staged media intent is unavailable''))"

definition outcome_of ::
  "reservation_row \<Rightarrow> reference_action option \<Rightarrow> bool option \<Rightarrow> exc + finalize_outcome" where
  "outcome_of r action visible =
     (case (if action \<noteq> None then action else mr_intent_action r) of
        None \<Rightarrow> Inl (MediaLeaseStateError ''media reference intent is unavailable'')
      | Some act \<Rightarrow>
        andthen (result_of (mr_result_json r)) (\<lambda>res. andthen (staged_of r) (\<lambda>st.
          Inr \<lparr>fo_result = res, fo_intent = \<lparr>in_staged = st, in_action = act\<rparr>,
               fo_evidence_visible = (case visible of None \<Rightarrow> mr_status r = RsCompleted | Some v \<Rightarrow> v)\<rparr>)))"

section \<open>Quota on distinct bytes\<close>

definition evidence_artifacts :: "str \<Rightarrow> db \<Rightarrow> str set" where
  "evidence_artifacts session_id d =
     set (List.map_filter ev_artifact_id (filter (\<lambda>e. ev_session_id e = session_id) (t_evidence d)))"

definition pending_artifacts :: "str \<Rightarrow> db \<Rightarrow> str set" where
  "pending_artifacts session_id d =
     set (List.map_filter mr_canonical_artifact_id
       (filter (\<lambda>r. mr_session_id r = session_id \<and> mr_status r = RsPendingReference) (t_reservations d)))"

definition artifact_ids :: "str \<Rightarrow> db \<Rightarrow> str set" where
  "artifact_ids session_id d = evidence_artifacts session_id d \<union> pending_artifacts session_id d"

definition bytes_of :: "str set \<Rightarrow> artifact_row list \<Rightarrow> int" where
  "bytes_of ids rows = sum_list (map ma_normalized_byte_size (filter (\<lambda>a. ma_media_item_id a \<in> ids) rows))"

definition check_distinct_quota ::
  "media_repo \<Rightarrow> str \<Rightarrow> artifact_row option \<Rightarrow> int \<Rightarrow> db \<Rightarrow> exc + unit" where
  "check_distinct_quota repo session_id artifact new_size d =
     (let ids = artifact_ids session_id d;
          used = bytes_of ids (t_artifacts d);
          delta = (case artifact of
                     None \<Rightarrow> new_size
                   | Some a \<Rightarrow> if ma_media_item_id a \<in> ids then 0 else ma_normalized_byte_size a)
      in require (used + delta \<le> mt_max_distinct_bytes repo)
           (MediaQuotaExceededError ''distinct media byte quota exceeded''))"

section \<open>Transitions and writes\<close>

fun allowed_transition :: "reservation_status \<Rightarrow> reservation_status list" where
  "allowed_transition RsActive = [RsPendingReference, RsCompleted, RsRejected, RsExpired]"
| "allowed_transition RsPendingReference = [RsCompleted]"
| "allowed_transition _ = []"

definition transition_reservation ::
  "reservation_status \<Rightarrow> datetime \<Rightarrow> reservation_row \<Rightarrow> exc + reservation_row" where
  "transition_reservation status now r =
     (if status \<in> set (allowed_transition (mr_status r))
      then Inr (r\<lparr>mr_status := status,
                  mr_active := (if status = RsPendingReference then Some True else None),
                  mr_updated_at := now\<rparr>)
      else Inl (MediaLeaseStateError ''invalid media reservation transition''))"

definition transition_artifact :: "artifact_state \<Rightarrow> artifact_row \<Rightarrow> exc + artifact_row" where
  "transition_artifact state a =
     (if ma_state a = state then Inr a
      else if ma_state a \<noteq> ArPendingReference \<or> state \<noteq> ArReferenced
      then Inl (MediaLeaseStateError ''invalid media artifact transition'')
      else Inr (a\<lparr>ma_state := state\<rparr>))"

definition save_reservation :: "reservation_row \<Rightarrow> db \<Rightarrow> exc + db" where
  "save_reservation r d =
     (if checks_ok (reservation_checks r)
      then Inr (d\<lparr>t_reservations :=
        tupdate (\<lambda>x. mr_reservation_id x = mr_reservation_id r) (\<lambda>_. r) (t_reservations d)\<rparr>)
      else Inl (IntegrityError ''CHECK constraint failed''))"

definition save_artifact :: "artifact_row \<Rightarrow> db \<Rightarrow> db" where
  "save_artifact a d =
     d\<lparr>t_artifacts := tupdate (\<lambda>x. ma_media_item_id x = ma_media_item_id a) (\<lambda>_. a) (t_artifacts d)\<rparr>"

definition slot_of_session :: "reservation_row \<Rightarrow> str \<times> str \<times> nat" where
  "slot_of_session r = (mr_owner_id r, mr_session_id r, mr_slot r)"

definition key_of :: "reservation_row \<Rightarrow> str \<times> str \<times> str" where
  "key_of r = (mr_owner_id r, mr_session_id r, mr_idempotency_key r)"

definition insert_reservation :: "reservation_row \<Rightarrow> db \<Rightarrow> exc + db" where
  "insert_reservation r d = andthen (require_all
     [(mr_reservation_id r \<notin> mr_reservation_id ` set (t_reservations d), IntegrityError ''PRIMARY KEY''),
      (key_of r \<notin> key_of ` set (t_reservations d), IntegrityError ''UNIQUE owner session key''),
      (slot_of_session r \<notin> slot_of_session ` set (filter (\<lambda>x. mr_active x = Some True) (t_reservations d)),
         IntegrityError ''UNIQUE active slot''),
      (checks_ok (reservation_checks r), IntegrityError ''CHECK constraint failed'')])
     (\<lambda>_. Inr (d\<lparr>t_reservations := t_reservations d @ [r]\<rparr>))"

definition insert_artifact :: "artifact_row \<Rightarrow> db \<Rightarrow> exc + db" where
  "insert_artifact a d = andthen (require_all
     [(ma_media_item_id a \<notin> ma_media_item_id ` set (t_artifacts d), IntegrityError ''PRIMARY KEY''),
      ((ma_owner_id a, ma_normalized_sha256 a) \<notin>
         (\<lambda>x. (ma_owner_id x, ma_normalized_sha256 x)) ` set (t_artifacts d),
         IntegrityError ''UNIQUE owner hash''),
      (ma_opaque_object_key a \<notin> ma_opaque_object_key ` set (t_artifacts d),
         IntegrityError ''UNIQUE object key''),
      (checks_ok (artifact_checks a), IntegrityError ''CHECK constraint failed'')])
     (\<lambda>_. Inr (d\<lparr>t_artifacts := t_artifacts d @ [a]\<rparr>))"

definition evidence_of_result ::
  "ingested_result \<Rightarrow> reservation_row \<Rightarrow> artifact_row \<Rightarrow> datetime \<Rightarrow> evidence_row" where
  "evidence_of_result res r a now =
     \<lparr>ev_evidence_id = ir_evidence_id res, ev_session_id = mr_session_id r,
      ev_evidence_type = ir_media_type res, ev_content_hash = ir_normalized_sha256 res,
      ev_text_content = Some (ir_learner_explanation res), ev_source_url = None,
      ev_metadata_json = ir_attributes res, ev_conversation_synced_at = None,
      ev_created_at = now, ev_artifact_id = Some (ma_media_item_id a)\<rparr>"

definition insert_evidence :: "evidence_row \<Rightarrow> db \<Rightarrow> exc + db" where
  "insert_evidence e d =
     andthen (require (ev_evidence_id e \<notin> ev_evidence_id ` set (t_evidence d))
       (IntegrityError ''PRIMARY KEY''))
     (\<lambda>_. Inr (d\<lparr>t_evidence := t_evidence d @ [e]\<rparr>))"

definition complete_reservation ::
  "completion_mode \<Rightarrow> artifact_row \<Rightarrow> datetime \<Rightarrow> reservation_row \<Rightarrow> db \<Rightarrow> exc + reservation_row \<times> db" where
  "complete_reservation mode artifact now r d =
     (if mr_status r = RsCompleted then Inr (r, d)
      else andthen (transition_reservation RsCompleted now r) (\<lambda>r1.
        let r2 = r1\<lparr>mr_completion_mode := Some mode\<rparr> in
        andthen (if \<exists>e \<in> set (t_evidence d). Some (ev_evidence_id e) = mr_evidence_id r2 then Inr d
                 else andthen (result_of (mr_result_json r2)) (\<lambda>res.
                        insert_evidence (evidence_of_result res r2 artifact now) d)) (\<lambda>d1.
        andthen (save_reservation r2 d1) (\<lambda>d2. Inr (r2, d2)))))"

section \<open>Reserve\<close>

definition expired_active :: "str \<Rightarrow> str \<Rightarrow> datetime \<Rightarrow> reservation_row \<Rightarrow> bool" where
  "expired_active owner_id session_id now r \<longleftrightarrow>
     mr_owner_id r = owner_id \<and> mr_session_id r = session_id \<and> mr_status r = RsActive
     \<and> mr_expires_at r \<le> now"

definition expire_reservations :: "str \<Rightarrow> str \<Rightarrow> datetime \<Rightarrow> db \<Rightarrow> db" where
  "expire_reservations owner_id session_id now d =
     d\<lparr>t_reservations := tupdate (expired_active owner_id session_id now)
        (\<lambda>r. case transition_reservation RsExpired now r of Inl _ \<Rightarrow> r | Inr r' \<Rightarrow> r')
        (t_reservations d)\<rparr>"

definition replay_reservation :: "reservation_row \<Rightarrow> str \<Rightarrow> exc + media_lease" where
  "replay_reservation existing fingerprint =
     andthen (check_fingerprint existing fingerprint) (\<lambda>_.
     andthen (require (occupied existing) (MediaLeaseStateError ''idempotency key is terminal'')) (\<lambda>_.
     Inr (lease_of_row existing)))"

definition new_reservation ::
  "media_repo \<Rightarrow> media_reservation_request \<Rightarrow> str \<Rightarrow> str \<Rightarrow> nat \<Rightarrow> datetime \<Rightarrow> reservation_row" where
  "new_reservation repo q reservation_id media_item_id slot now =
     \<lparr>mr_reservation_id = reservation_id, mr_media_item_id = media_item_id,
      mr_owner_id = rq_owner_id q, mr_session_id = rq_session_id q,
      mr_idempotency_key = rq_idempotency_key q, mr_fingerprint = rq_fingerprint q,
      mr_slot = slot, mr_status = RsActive, mr_active = Some True,
      mr_expires_at = now + mt_lease_seconds repo * 1000000,
      mr_canonical_artifact_id = None, mr_evidence_id = None, mr_intent_action = None,
      mr_completion_mode = None, mr_staged_object_key = None, mr_staged_manifest_id = None,
      mr_media_type = None, mr_normalized_sha256 = None, mr_normalized_byte_size = None,
      mr_learner_explanation = None, mr_attributes_json = None, mr_result_json = None,
      mr_rejection_reason = None, mr_created_at = now, mr_updated_at = now\<rparr>"

definition free_slot :: "media_repo \<Rightarrow> str \<Rightarrow> db \<Rightarrow> nat option" where
  "free_slot repo session_id d =
     List.find (\<lambda>i. i \<notin> mr_slot ` set (filter (\<lambda>r. mr_session_id r = session_id \<and> occupied r) (t_reservations d)))
       [0..<mt_max_items repo]"

definition reserve ::
  "media_repo \<Rightarrow> media_reservation_request \<Rightarrow> str \<Rightarrow> str \<Rightarrow> datetime \<Rightarrow> db \<Rightarrow> exc + db \<times> media_lease" where
  "reserve repo q fresh_reservation fresh_media now d0 =
     andthen (lock_owned_session (rq_owner_id q) (rq_session_id q) d0) (\<lambda>_.
     let d = expire_reservations (rq_owner_id q) (rq_session_id q) now d0 in
     case find_reservation (rq_owner_id q) (rq_session_id q) (rq_idempotency_key q) d of
       Some existing \<Rightarrow>
         andthen (replay_reservation existing (rq_fingerprint q)) (\<lambda>lease. Inr (d, lease))
     | None \<Rightarrow>
         andthen (require (evidence_count (rq_session_id q) d + pending_count (rq_session_id q) d + 1
                            \<le> mt_max_items repo)
           (MediaQuotaExceededError ''media item quota exceeded'')) (\<lambda>_.
         case free_slot repo (rq_session_id q) d of
           None \<Rightarrow> Inl (RuntimeError ''StopIteration'')
         | Some slot \<Rightarrow>
           let r = new_reservation repo q fresh_reservation fresh_media slot now in
           (case insert_reservation r d of
              Inr d' \<Rightarrow> Inr (d', lease_of_row r)
            | Inl e \<Rightarrow>
              (case find_reservation (rq_owner_id q) (rq_session_id q) (rq_idempotency_key q) d of
                 None \<Rightarrow> Inl e
               | Some existing \<Rightarrow>
                 andthen (check_fingerprint existing (rq_fingerprint q)) (\<lambda>_.
                   if occupied existing then Inr (d, lease_of_row existing) else Inl e)))))"

section \<open>Finalize and replay\<close>

definition replay_locked ::
  "reservation_row \<Rightarrow> datetime \<Rightarrow> db \<Rightarrow> exc + db \<times> finalize_outcome option" where
  "replay_locked r now d =
     (case mr_status r of
        RsPendingReference \<Rightarrow>
          andthen (require_artifact r d) (\<lambda>artifact.
            if mr_intent_action r = Some ABORT_STAGED \<and> ma_state artifact = ArReferenced
            then andthen (complete_reservation Follower artifact now r d) (\<lambda>(r', d').
                   andthen (outcome_of r' (Some NOOP) (Some True)) (\<lambda>out. Inr (d', Some out)))
            else andthen (outcome_of r None None) (\<lambda>out. Inr (d, Some out)))
      | RsCompleted \<Rightarrow>
          andthen (outcome_of r
            (Some (if mr_completion_mode r = Some Direct_Reuse then ABORT_STAGED else NOOP)) (Some True))
            (\<lambda>out. Inr (d, Some out))
      | _ \<Rightarrow> Inr (d, None))"

definition find_idempotent_outcome ::
  "str \<Rightarrow> str \<Rightarrow> str \<Rightarrow> str \<Rightarrow> datetime \<Rightarrow> db \<Rightarrow> exc + db \<times> finalize_outcome option" where
  "find_idempotent_outcome owner_id session_id idempotency_key fingerprint now d =
     andthen (lock_owned_session owner_id session_id d) (\<lambda>_.
     case find_reservation owner_id session_id idempotency_key d of
       None \<Rightarrow> Inr (d, None)
     | Some r \<Rightarrow> andthen (check_fingerprint r fingerprint) (\<lambda>_. replay_locked r now d))"

definition pending_result :: "artifact_row \<Rightarrow> finalize_request \<Rightarrow> str \<Rightarrow> ingested_result" where
  "pending_result a q evidence_id =
     \<lparr>ir_evidence_id = evidence_id, ir_media_item_id = ma_media_item_id a,
      ir_artifact_ref = lit ''focusproof-artifact://'' @ ma_media_item_id a,
      ir_media_type = ma_media_type a, ir_normalized_sha256 = ma_normalized_sha256 a,
      ir_byte_size = ma_normalized_byte_size a,
      ir_learner_explanation = fr_learner_explanation q, ir_attributes = fr_attributes q\<rparr>"

definition store_pending_facts ::
  "artifact_row \<Rightarrow> finalize_request \<Rightarrow> str \<Rightarrow> reservation_row \<Rightarrow> reservation_row" where
  "store_pending_facts a q fresh_evidence r =
     (let evidence_id = (case mr_evidence_id r of Some i \<Rightarrow> if i \<noteq> [] then i else fresh_evidence
                                                | None \<Rightarrow> fresh_evidence)
      in r\<lparr>mr_canonical_artifact_id := Some (ma_media_item_id a),
           mr_evidence_id := Some evidence_id,
           mr_staged_object_key := Some (fr_opaque_object_key q),
           mr_staged_manifest_id := Some (fr_manifest_id q),
           mr_media_type := Some (fr_media_type q),
           mr_normalized_sha256 := Some (fr_normalized_sha256 q),
           mr_normalized_byte_size := Some (fr_normalized_byte_size q),
           mr_learner_explanation := Some (fr_learner_explanation q),
           mr_attributes_json := Some (fr_attributes q),
           mr_result_json := Some (pending_result a q evidence_id)\<rparr>)"

definition candidate_artifact :: "reservation_row \<Rightarrow> finalize_request \<Rightarrow> datetime \<Rightarrow> artifact_row" where
  "candidate_artifact r q now =
     \<lparr>ma_media_item_id = fr_staged_media_item_id q, ma_owner_id = mr_owner_id r,
      ma_creator_reservation_id = Some (mr_reservation_id r),
      ma_opaque_object_key = fr_opaque_object_key q, ma_manifest_id = fr_manifest_id q,
      ma_media_type = fr_media_type q, ma_normalized_sha256 = fr_normalized_sha256 q,
      ma_normalized_byte_size = fr_normalized_byte_size q, ma_state = ArPendingReference,
      ma_created_at = now\<rparr>"

text \<open>The end of both branches of \<open>finalize\<close>: facts, intent, and the reservation's next status.\<close>

definition settle ::
  "artifact_row \<Rightarrow> reference_action \<Rightarrow> finalize_request \<Rightarrow> str \<Rightarrow> datetime \<Rightarrow> reservation_row \<Rightarrow> db
     \<Rightarrow> exc + db \<times> finalize_outcome" where
  "settle artifact action q fresh_evidence now r d =
     (let r1 = store_pending_facts artifact q fresh_evidence r in
      if ma_state artifact = ArReferenced
      then andthen (complete_reservation Direct_Reuse artifact now
                      (r1\<lparr>mr_intent_action := Some ABORT_STAGED\<rparr>) d) (\<lambda>(r2, d').
             andthen (outcome_of r2 (Some ABORT_STAGED) (Some True)) (\<lambda>out. Inr (d', out)))
      else andthen (transition_reservation RsPendingReference now
                      (r1\<lparr>mr_intent_action := Some action\<rparr>)) (\<lambda>r2.
             andthen (save_reservation r2 d) (\<lambda>d'.
             andthen (outcome_of r2 None None) (\<lambda>out. Inr (d', out)))))"

definition replay_finalize ::
  "reservation_row \<Rightarrow> finalize_request \<Rightarrow> datetime \<Rightarrow> db \<Rightarrow> exc + db \<times> finalize_outcome" where
  "replay_finalize r q now d =
     andthen (require (mr_status r \<in> {RsPendingReference, RsCompleted})
       (MediaLeaseStateError ''media lease is not active'')) (\<lambda>_.
     andthen (replay_locked r now d) (\<lambda>(d', out).
       case out of
         None \<Rightarrow> Inl (MediaLeaseStateError ''media lease is not active'')
       | Some outcome \<Rightarrow>
         if mr_status r = RsPendingReference \<and> in_action (fo_intent outcome) = MARK_REFERENCED
         then Inr (d', \<lparr>fo_result = fo_result outcome,
                fo_intent = \<lparr>in_staged = \<lparr>st_media_item_id = fr_staged_media_item_id q,
                               st_reservation_id = ml_reservation_id (fr_lease q),
                               st_opaque_object_key = fr_opaque_object_key q,
                               st_manifest_id = fr_manifest_id q\<rparr>,
                             in_action = ABORT_STAGED\<rparr>,
                fo_evidence_visible = False\<rparr>)
         else Inr (d', outcome)))"

definition finalize_media ::
  "media_repo \<Rightarrow> finalize_request \<Rightarrow> str \<Rightarrow> artifact_row list \<Rightarrow> datetime \<Rightarrow> db
     \<Rightarrow> exc + db \<times> finalize_outcome" where
  "finalize_media repo q fresh_evidence late now d =
     andthen (lock_owned_session (ml_owner_id (fr_lease q)) (ml_session_id (fr_lease q)) d) (\<lambda>_.
     case reservation_by_id (ml_reservation_id (fr_lease q)) d of
       None \<Rightarrow> Inl (MediaLeaseStateError ''media lease is not active'')
     | Some r \<Rightarrow>
       andthen (check_lease r (fr_lease q)) (\<lambda>_.
       andthen (check_staged_identity r q) (\<lambda>_.
       if mr_status r \<noteq> RsActive then replay_finalize r q now d
       else
       andthen (require (\<not> mr_expires_at r \<le> now) (MediaLeaseStateError ''media lease expired'')) (\<lambda>_.
       andthen (require (evidence_count (mr_session_id r) d + pending_count (mr_session_id r) d
                          \<le> mt_max_items repo) (MediaQuotaExceededError ''media item quota exceeded'')) (\<lambda>_.
       case find_artifact (mr_owner_id r) (fr_normalized_sha256 q) d of
         Some artifact \<Rightarrow>
           andthen (check_canonical artifact q) (\<lambda>_.
           andthen (check_distinct_quota repo (mr_session_id r) (Some artifact) (fr_normalized_byte_size q) d) (\<lambda>_.
           settle artifact ABORT_STAGED q fresh_evidence now r d))
       | None \<Rightarrow>
           andthen (check_distinct_quota repo (mr_session_id r) None (fr_normalized_byte_size q) d) (\<lambda>_.
           let candidate = candidate_artifact r q now;
               d1 = d\<lparr>t_artifacts := t_artifacts d @ late\<rparr> in
           (case insert_artifact candidate d1 of
              Inr d2 \<Rightarrow> settle candidate MARK_REFERENCED q fresh_evidence now r d2
            | Inl e \<Rightarrow>
              (case find_artifact (mr_owner_id r) (fr_normalized_sha256 q) d1 of
                 None \<Rightarrow> Inl e
               | Some artifact \<Rightarrow>
                 andthen (check_canonical artifact q) (\<lambda>_.
                 settle artifact ABORT_STAGED q fresh_evidence now r d1)))))))))"

section \<open>Confirm, list, reject\<close>

definition confirm_reference ::
  "reference_intent \<Rightarrow> datetime \<Rightarrow> db \<Rightarrow> exc + db \<times> ingested_result" where
  "confirm_reference intent now d =
     (case reservation_by_id (st_reservation_id (in_staged intent)) d of
        None \<Rightarrow> Inl (MediaLeaseStateError ''media reference intent is unavailable'')
      | Some r \<Rightarrow>
        andthen (lock_owned_session (mr_owner_id r) (mr_session_id r) d) (\<lambda>_.
        andthen (if mr_intent_action r \<noteq> Some MARK_REFERENCED
                 then Inl (MediaLeaseStateError ''media reference intent does not match'')
                 else andthen (staged_of r) (\<lambda>st.
                   require (st = in_staged intent \<and> in_action intent = MARK_REFERENCED)
                     (MediaLeaseStateError ''media reference intent does not match''))) (\<lambda>_.
        if mr_status r = RsCompleted
        then andthen (result_of (mr_result_json r)) (\<lambda>res. Inr (d, res))
        else andthen (require (mr_status r = RsPendingReference)
               (MediaLeaseStateError ''media reference intent is not pending'')) (\<lambda>_.
          case canonical_artifact r d of
            None \<Rightarrow> Inl (MediaLeaseStateError ''media artifact is unavailable'')
          | Some artifact \<Rightarrow>
            andthen (transition_artifact ArReferenced artifact) (\<lambda>artifact'.
            andthen (complete_reservation Adopted artifact' now r (save_artifact artifact' d)) (\<lambda>(r', d').
            andthen (result_of (mr_result_json r')) (\<lambda>res. Inr (d', res))))))))"

fun collect_results :: "('a \<Rightarrow> exc + 'b) \<Rightarrow> 'a list \<Rightarrow> exc + 'b list" where
  "collect_results f [] = Inr []"
| "collect_results f (x # xs) =
     andthen (f x) (\<lambda>y. andthen (collect_results f xs) (\<lambda>ys. Inr (y # ys)))"

definition list_pending_reference_outcomes :: "int \<Rightarrow> db \<Rightarrow> exc + finalize_outcome list" where
  "list_pending_reference_outcomes limit d =
     andthen (require (\<not> (limit < 1 \<or> limit > 100))
       (ValueError ''pending reference limit must be between 1 and 100'')) (\<lambda>_.
     collect_results (\<lambda>r. outcome_of r None None)
       (take (nat limit) (sort_key (\<lambda>r. (mr_created_at r, mr_reservation_id r))
         (filter (\<lambda>r. mr_status r = RsPendingReference \<and> mr_intent_action r = Some MARK_REFERENCED)
           (t_reservations d)))))"

definition reject :: "media_lease \<Rightarrow> str \<Rightarrow> datetime \<Rightarrow> db \<Rightarrow> exc + db" where
  "reject lease reason now d =
     andthen (lock_owned_session (ml_owner_id lease) (ml_session_id lease) d) (\<lambda>_.
     case reservation_by_id (ml_reservation_id lease) d of
       None \<Rightarrow> Inr d
     | Some r \<Rightarrow>
       andthen (check_lease r lease) (\<lambda>_.
       if mr_status r \<noteq> RsActive then Inr d
       else andthen (transition_reservation (if mr_expires_at r \<le> now then RsExpired else RsRejected) now r)
         (\<lambda>r'. save_reservation (r'\<lparr>mr_rejection_reason := Some (take 128 reason)\<rparr>) d)))"

section \<open>The invariant\<close>

text \<open>
  A pending or completed reservation is backed by an artifact of its owner with the same facts, and
  by a result that names its evidence; the artifact of a completed reservation is referenced.
\<close>

definition facts_in :: "artifact_row \<Rightarrow> reservation_row \<Rightarrow> bool" where
  "facts_in a r \<longleftrightarrow> mr_canonical_artifact_id r = Some (ma_media_item_id a)
     \<and> ma_owner_id a = mr_owner_id r
     \<and> mr_normalized_sha256 r = Some (ma_normalized_sha256 a)
     \<and> mr_normalized_byte_size r = Some (ma_normalized_byte_size a)
     \<and> (\<exists>res. mr_result_json r = Some res \<and> mr_evidence_id r = Some (ir_evidence_id res)
          \<and> ir_media_item_id res = ma_media_item_id a
          \<and> ir_normalized_sha256 res = ma_normalized_sha256 a
          \<and> ir_byte_size res = ma_normalized_byte_size a)"

definition backed :: "artifact_row list \<Rightarrow> reservation_row \<Rightarrow> bool" where
  "backed arts r \<longleftrightarrow> (mr_status r \<in> {RsPendingReference, RsCompleted} \<longrightarrow>
     (\<exists>a \<in> set arts. facts_in a r \<and> (mr_status r = RsCompleted \<longrightarrow> ma_state a = ArReferenced)))"

definition res_ok :: "media_repo \<Rightarrow> artifact_row list \<Rightarrow> reservation_row \<Rightarrow> bool" where
  "res_ok repo arts r \<longleftrightarrow> checks_ok (reservation_checks r) \<and> mr_slot r < mt_max_items repo \<and> backed arts r"

definition evidence_ok :: "artifact_row list \<Rightarrow> evidence_row \<Rightarrow> bool" where
  "evidence_ok arts e \<longleftrightarrow> (\<forall>i. ev_artifact_id e = Some i \<longrightarrow>
     (\<exists>a \<in> set arts. ma_media_item_id a = i \<and> ma_state a = ArReferenced))"

text \<open>Media evidence was stored by a completed reservation of its session.\<close>

definition completed_by :: "reservation_row list \<Rightarrow> evidence_row \<Rightarrow> bool" where
  "completed_by rs e \<longleftrightarrow> (\<forall>i. ev_artifact_id e = Some i \<longrightarrow>
     (\<exists>r \<in> set rs. mr_status r = RsCompleted \<and> mr_session_id r = ev_session_id e
        \<and> mr_evidence_id r = Some (ev_evidence_id e) \<and> mr_canonical_artifact_id r = Some i))"

definition artifacts_ok :: "artifact_row list \<Rightarrow> bool" where
  "artifacts_ok arts \<longleftrightarrow> unique_key ma_media_item_id arts
     \<and> unique_key (\<lambda>a. (ma_owner_id a, ma_normalized_sha256 a)) arts
     \<and> list_all (\<lambda>a. checks_ok (artifact_checks a)) arts"

definition media_inv :: "media_repo \<Rightarrow> db \<Rightarrow> bool" where
  "media_inv repo d \<longleftrightarrow>
     list_all (res_ok repo (t_artifacts d)) (t_reservations d)
     \<and> unique_key mr_reservation_id (t_reservations d)
     \<and> unique_key key_of (t_reservations d)
     \<and> unique_key slot_of_session (filter (\<lambda>r. mr_active r = Some True) (t_reservations d))
     \<and> artifacts_ok (t_artifacts d)
     \<and> list_all (evidence_ok (t_artifacts d)) (t_evidence d)
     \<and> unique_key ev_evidence_id (t_evidence d)
     \<and> (\<forall>sid. evidence_count sid d + pending_count sid d \<le> mt_max_items repo)
     \<and> (\<forall>sid. bytes_of (artifact_ids sid d) (t_artifacts d) \<le> mt_max_distinct_bytes repo)
     \<and> list_all (completed_by (t_reservations d)) (t_evidence d)"

lemma media_invD:
  assumes "media_inv repo d"
  shows "r \<in> set (t_reservations d) \<Longrightarrow> res_ok repo (t_artifacts d) r"
    and "unique_key mr_reservation_id (t_reservations d)"
    and "unique_key key_of (t_reservations d)"
    and "unique_key slot_of_session (filter (\<lambda>r. mr_active r = Some True) (t_reservations d))"
    and "artifacts_ok (t_artifacts d)"
    and "e \<in> set (t_evidence d) \<Longrightarrow> evidence_ok (t_artifacts d) e"
    and "unique_key ev_evidence_id (t_evidence d)"
    and "evidence_count sid d + pending_count sid d \<le> mt_max_items repo"
    and "bytes_of (artifact_ids sid d) (t_artifacts d) \<le> mt_max_distinct_bytes repo"
    and "e \<in> set (t_evidence d) \<Longrightarrow> completed_by (t_reservations d) e"
  using assms by (auto simp: media_inv_def list_all_iff)

text \<open>What the CHECK constraints say of a row's status.\<close>

lemma reservation_status_checks:
  assumes "checks_ok (reservation_checks r)"
  shows "mr_active r = Some True \<longleftrightarrow> occupied r"
    and "mr_status r \<in> {RsPendingReference, RsCompleted} \<Longrightarrow> durable_facts_present r"
    and "mr_status r = RsActive \<Longrightarrow> durable_facts_null r \<and> mr_intent_action r = None \<and> mr_completion_mode r = None"
    and "mr_status r \<in> {RsRejected, RsExpired} \<Longrightarrow> durable_facts_null r"
    and "mr_completion_mode r \<noteq> None \<longleftrightarrow> mr_status r = RsCompleted"
  using assms
  by (auto simp: reservation_checks_def reservation_payload_matrix_def occupied_def)

section \<open>Bytes and identifiers\<close>

lemma bytes_of_Nil [simp]: "bytes_of ids [] = 0"
  by (simp add: bytes_of_def)

lemma bytes_of_append [simp]: "bytes_of ids (xs @ ys) = bytes_of ids xs + bytes_of ids ys"
  by (simp add: bytes_of_def)

lemma bytes_of_Cons:
  "bytes_of ids (a # rows) =
     (if ma_media_item_id a \<in> ids then ma_normalized_byte_size a else 0) + bytes_of ids rows"
  by (simp add: bytes_of_def)

lemma bytes_of_mono:
  assumes "ids \<subseteq> ids'" and "list_all (\<lambda>a. 0 \<le> ma_normalized_byte_size a) rows"
  shows "bytes_of ids rows \<le> bytes_of ids' rows"
  using assms(2) by (induction rows) (use assms(1) in \<open>auto simp: bytes_of_Cons\<close>)

lemma bytes_of_absent:
  "\<forall>a \<in> set rows. ma_media_item_id a \<notin> ids \<Longrightarrow> bytes_of ids rows = 0"
  by (induction rows) (auto simp: bytes_of_Cons)

lemma bytes_of_insert_absent:
  "i \<notin> ma_media_item_id ` set rows \<Longrightarrow> bytes_of (insert i ids) rows = bytes_of ids rows"
  by (induction rows) (auto simp: bytes_of_Cons)

lemma bytes_of_insert:
  assumes "unique_key ma_media_item_id rows" and "a \<in> set rows"
  shows "bytes_of (insert (ma_media_item_id a) ids) rows =
    bytes_of ids rows + (if ma_media_item_id a \<in> ids then 0 else ma_normalized_byte_size a)"
  using assms
proof (induction rows)
  case (Cons x rows)
  show ?case
  proof (cases "x = a")
    case True
    then show ?thesis
      using Cons.prems(1)
      by (simp add: bytes_of_Cons unique_key_Cons bytes_of_insert_absent)
  next
    case False
    then have "a \<in> set rows" and "ma_media_item_id x \<noteq> ma_media_item_id a"
      using Cons.prems by (auto simp: unique_key_Cons)
    then show ?thesis
      using Cons by (auto simp: bytes_of_Cons unique_key_Cons)
  qed
qed simp

lemma bytes_of_map:
  "(\<And>a. ma_media_item_id (f a) = ma_media_item_id a) \<Longrightarrow>
   (\<And>a. ma_normalized_byte_size (f a) = ma_normalized_byte_size a) \<Longrightarrow>
   bytes_of ids (map f rows) = bytes_of ids rows"
  by (induction rows) (simp_all add: bytes_of_Cons)

lemma artifacts_nonneg: "artifacts_ok arts \<Longrightarrow> list_all (\<lambda>a. 0 \<le> ma_normalized_byte_size a) arts"
  by (auto simp: artifacts_ok_def artifact_checks_def list_all_iff)

lemma mem_map_filter: "y \<in> set (List.map_filter f xs) \<longleftrightarrow> (\<exists>x \<in> set xs. f x = Some y)"
  by (force simp: List.map_filter_def)

lemma evidence_artifacts_iff:
  "i \<in> evidence_artifacts sid d \<longleftrightarrow> (\<exists>e \<in> set (t_evidence d). ev_session_id e = sid \<and> ev_artifact_id e = Some i)"
  by (auto simp: evidence_artifacts_def mem_map_filter)

lemma pending_artifacts_iff:
  "i \<in> pending_artifacts sid d \<longleftrightarrow> (\<exists>r \<in> set (t_reservations d). mr_session_id r = sid
     \<and> mr_status r = RsPendingReference \<and> mr_canonical_artifact_id r = Some i)"
  by (auto simp: pending_artifacts_def mem_map_filter)

lemma artifact_ids_known:
  assumes "media_inv repo d"
  shows "artifact_ids sid d \<subseteq> ma_media_item_id ` set (t_artifacts d)"
proof
  fix i
  assume "i \<in> artifact_ids sid d"
  then consider e where "e \<in> set (t_evidence d)" "ev_artifact_id e = Some i"
    | r where "r \<in> set (t_reservations d)" "mr_status r = RsPendingReference" "mr_canonical_artifact_id r = Some i"
    by (auto simp: artifact_ids_def evidence_artifacts_iff pending_artifacts_iff)
  then show "i \<in> ma_media_item_id ` set (t_artifacts d)"
  proof cases
    case 1
    then show ?thesis using media_invD(6)[OF assms 1(1)] by (auto simp: evidence_ok_def)
  next
    case 2
    then show ?thesis using media_invD(1)[OF assms 2(1)] by (auto simp: res_ok_def backed_def facts_in_def)
  qed
qed

section \<open>Replacing one reservation\<close>

definition refine_artifacts :: "(artifact_row \<Rightarrow> artifact_row) \<Rightarrow> bool" where
  "refine_artifacts f \<longleftrightarrow> (\<forall>a. f a = a \<or> f a = a\<lparr>ma_state := ArReferenced\<rparr>)"

lemma refine_artifacts_fields:
  assumes "refine_artifacts f"
  shows "ma_media_item_id (f a) = ma_media_item_id a" "ma_owner_id (f a) = ma_owner_id a"
    "ma_normalized_sha256 (f a) = ma_normalized_sha256 a" "ma_media_type (f a) = ma_media_type a"
    "ma_normalized_byte_size (f a) = ma_normalized_byte_size a" "ma_opaque_object_key (f a) = ma_opaque_object_key a"
    "ma_state a = ArReferenced \<Longrightarrow> ma_state (f a) = ArReferenced"
proof -
  have d: "f a = a \<or> f a = a\<lparr>ma_state := ArReferenced\<rparr>" using assms by (simp add: refine_artifacts_def)
  show "ma_media_item_id (f a) = ma_media_item_id a" "ma_owner_id (f a) = ma_owner_id a"
    "ma_normalized_sha256 (f a) = ma_normalized_sha256 a" "ma_media_type (f a) = ma_media_type a"
    "ma_normalized_byte_size (f a) = ma_normalized_byte_size a" "ma_opaque_object_key (f a) = ma_opaque_object_key a"
    "ma_state a = ArReferenced \<Longrightarrow> ma_state (f a) = ArReferenced"
    by (rule disjE[OF d]; simp)+
qed

lemma facts_in_refined: "refine_artifacts f \<Longrightarrow> facts_in (f a) r = facts_in a r"
  by (simp add: facts_in_def refine_artifacts_fields)

lemma backed_mono: "refine_artifacts f \<Longrightarrow> backed arts r \<Longrightarrow> backed (map f arts) r"
  using refine_artifacts_fields(7)[of f] facts_in_refined[of f] unfolding backed_def by fastforce

lemma evidence_ok_mono: "refine_artifacts f \<Longrightarrow> evidence_ok arts e \<Longrightarrow> evidence_ok (map f arts) e"
  using refine_artifacts_fields[of f] unfolding evidence_ok_def by (metis imageI list.set_map)

lemma artifacts_ok_map:
  assumes "refine_artifacts f" and "artifacts_ok arts"
  shows "artifacts_ok (map f arts)"
  using assms(2)
  by (simp add: artifacts_ok_def unique_key_def list_all_iff artifact_checks_def o_def
      refine_artifacts_fields[OF assms(1)])

lemma backed_append: "backed arts r \<Longrightarrow> backed (arts @ more_arts) r"
  unfolding backed_def by fastforce

lemma evidence_ok_append: "evidence_ok arts e \<Longrightarrow> evidence_ok (arts @ more_arts) e"
  unfolding evidence_ok_def by fastforce

lemma completed_by_mono:
  "completed_by rs e \<Longrightarrow> (\<And>r. r \<in> set rs \<Longrightarrow> mr_status r = RsCompleted \<Longrightarrow> r \<in> set rs') \<Longrightarrow> completed_by rs' e"
  unfolding completed_by_def by blast

lemma replace_inv:
  assumes inv: "media_inv repo d"
    and res: "t_reservations d = xs @ r # ys" "t_reservations d' = xs @ r' # ys"
    and same: "mr_reservation_id r' = mr_reservation_id r" "key_of r' = key_of r" "mr_slot r' = mr_slot r"
    and occ: "occupied r' \<Longrightarrow> occupied r" and going: "mr_status r \<noteq> RsCompleted"
    and arts: "t_artifacts d' = map f (t_artifacts d)" "refine_artifacts f"
    and ok: "checks_ok (reservation_checks r')" "backed (t_artifacts d') r'"
    and ev: "t_evidence d' = t_evidence d @ new" "unique_key ev_evidence_id (t_evidence d')"
      "\<And>e. e \<in> set new \<Longrightarrow> ev_session_id e = mr_session_id r \<and> evidence_ok (t_artifacts d') e
         \<and> (\<exists>i \<in> extra. ev_artifact_id e = Some i) \<and> completed_by [r'] e"
    and cnt: "length new + (if occupied r' then 1 else 0) \<le> (if occupied r then 1 else (0::nat))"
    and pend: "mr_status r' = RsPendingReference \<Longrightarrow> \<exists>i \<in> extra. mr_canonical_artifact_id r' = Some i"
    and bytes: "bytes_of (artifact_ids (mr_session_id r) d \<union> extra) (t_artifacts d) \<le> mt_max_distinct_bytes repo"
  shows "media_inv repo d'"
proof -
  note I = media_invD[OF inv]
  note F = refine_artifacts_fields[OF arts(2)]
  have sess: "mr_session_id r' = mr_session_id r" "mr_owner_id r' = mr_owner_id r"
    using same(2) by (simp_all add: key_of_def)
  have slotk: "slot_of_session r' = slot_of_session r" by (simp add: slot_of_session_def sess same(3))
  have rows: "res_ok repo (t_artifacts d) x" if "x \<in> set xs \<union> set ys \<union> {r}" for x
    using I(1)[of x] that by (auto simp: res(1))
  have A: "list_all (res_ok repo (t_artifacts d')) (t_reservations d')"
    using rows rows[of r] ok same(3)
    by (auto simp: res(2) list_all_iff res_ok_def arts(1) intro: backed_mono[OF arts(2)])
  have B: "unique_key mr_reservation_id (t_reservations d')" "unique_key key_of (t_reservations d')"
    using I(2,3) by (simp_all add: res unique_key_def same)
  have act: "mr_active r' = Some True \<longleftrightarrow> occupied r'" "mr_active r = Some True \<longleftrightarrow> occupied r"
    using reservation_status_checks(1)[OF ok(1)] reservation_status_checks(1)[of r] rows[of r]
    by (auto simp: res_ok_def)
  have C: "unique_key slot_of_session (filter (\<lambda>r. mr_active r = Some True) (t_reservations d'))"
    using I(4) occ unfolding res unique_key_def
    by (cases "occupied r'"; cases "occupied r"; simp add: act slotk)
  have D: "artifacts_ok (t_artifacts d')"
    unfolding arts(1) by (rule artifacts_ok_map[OF arts(2) I(5)])
  have E: "list_all (evidence_ok (t_artifacts d')) (t_evidence d')"
    using I(6) ev(3) by (auto simp: list_all_iff ev(1) arts(1) intro: evidence_ok_mono[OF arts(2)])
  have G: "evidence_count sid d' + pending_count sid d' \<le> mt_max_items repo" for sid
  proof -
    have "evidence_count sid d' + pending_count sid d' \<le> evidence_count sid d + pending_count sid d"
    proof (cases "sid = mr_session_id r")
      case True
      have "evidence_count sid d' \<le> evidence_count sid d + length new"
        by (simp add: evidence_count_def ev(1) rowcount_def)
      moreover have "pending_count sid d' + (if occupied r then 1 else 0) =
          pending_count sid d + (if occupied r' then 1 else 0)"
        by (simp add: pending_count_def res rowcount_def sess True)
      ultimately show ?thesis using cnt by auto
    next
      case False
      have "filter (\<lambda>e. ev_session_id e = sid \<and> ev_artifact_id e \<noteq> None) new = []"
        using ev(3) False by (auto simp: filter_empty_conv)
      then have "evidence_count sid d' = evidence_count sid d"
        by (simp add: evidence_count_def ev(1) rowcount_def)
      moreover have "pending_count sid d' = pending_count sid d"
        using False by (simp add: pending_count_def res rowcount_def sess)
      ultimately show ?thesis by simp
    qed
    then show ?thesis using I(8)[of sid] by simp
  qed
  have H: "bytes_of (artifact_ids sid d') (t_artifacts d') \<le> mt_max_distinct_bytes repo" for sid
  proof -
    let ?e = "if sid = mr_session_id r then extra else {}"
    have "artifact_ids sid d' \<subseteq> artifact_ids sid d \<union> ?e"
      using ev(3) pend
      by (fastforce simp: artifact_ids_def evidence_artifacts_iff pending_artifacts_iff ev(1) res sess)
    then have "bytes_of (artifact_ids sid d') (t_artifacts d') \<le> bytes_of (artifact_ids sid d \<union> ?e) (t_artifacts d)"
      unfolding arts(1) bytes_of_map[OF F(1,5)] by (rule bytes_of_mono[OF _ artifacts_nonneg[OF I(5)]])
    also have "\<dots> \<le> mt_max_distinct_bytes repo"
      using bytes I(9)[of sid] by (cases "sid = mr_session_id r") auto
    finally show ?thesis .
  qed
  have K: "list_all (completed_by (t_reservations d')) (t_evidence d')"
  proof -
    have "completed_by (t_reservations d') e" if "e \<in> set (t_evidence d)" for e
      by (rule completed_by_mono[OF I(10)[OF that]]) (use going in \<open>auto simp: res\<close>)
    moreover have "completed_by (t_reservations d') e" if "e \<in> set new" for e
      by (rule completed_by_mono[of "[r']"]) (use ev(3)[OF that] in \<open>auto simp: res\<close>)
    ultimately show ?thesis by (auto simp: list_all_iff ev(1))
  qed
  show ?thesis
    unfolding media_inv_def using A B C D E ev(2) G H K by blast
qed

section \<open>The invariant through the operations\<close>

lemma occupied_simps [simp]:
  "mr_status r = RsActive \<Longrightarrow> occupied r" "mr_status r = RsPendingReference \<Longrightarrow> occupied r"
  "mr_status r = RsCompleted \<Longrightarrow> \<not> occupied r" "mr_status r = RsRejected \<Longrightarrow> \<not> occupied r"
  "mr_status r = RsExpired \<Longrightarrow> \<not> occupied r"
  by (simp_all add: occupied_def)

lemma transition_reservation_Inr:
  "transition_reservation status now r = Inr r' \<longleftrightarrow> status \<in> set (allowed_transition (mr_status r))
     \<and> r' = r\<lparr>mr_status := status, mr_active := (if status = RsPendingReference then Some True else None),
              mr_updated_at := now\<rparr>"
  by (auto simp: transition_reservation_def)

lemma closed_checks:
  assumes "checks_ok (reservation_checks r)" and "mr_status r = RsActive"
    and "status \<in> {RsExpired, RsRejected}"
  shows "checks_ok (reservation_checks (r\<lparr>mr_status := status, mr_active := None, mr_updated_at := now\<rparr>))"
    and "checks_ok (reservation_checks (r\<lparr>mr_status := status, mr_active := None, mr_updated_at := now,
           mr_rejection_reason := reason\<rparr>))"
  using assms reservation_status_checks(3)[OF assms(1,2)]
  by (auto simp: reservation_checks_def reservation_payload_matrix_def durable_facts_null_def)

definition expired_row :: "datetime \<Rightarrow> reservation_row \<Rightarrow> reservation_row" where
  "expired_row now r = r\<lparr>mr_status := RsExpired, mr_active := None, mr_updated_at := now\<rparr>"

lemma expire_reservations_eq:
  "expire_reservations own sid now d =
     d\<lparr>t_reservations := tupdate (expired_active own sid now) (expired_row now) (t_reservations d)\<rparr>"
proof -
  have "(case transition_reservation RsExpired now r of Inl _ \<Rightarrow> r | Inr r' \<Rightarrow> r') = expired_row now r"
    if "expired_active own sid now r" for r
    using that by (simp add: transition_reservation_def expired_row_def expired_active_def)
  then show ?thesis
    by (simp add: expire_reservations_def tupdate_def cong: if_cong)
qed

lemma filter_map_same:
  assumes "\<And>x. x \<in> set xs \<Longrightarrow> P (f x) \<Longrightarrow> f x = x"
  shows "filter P (map f xs) = filter (\<lambda>x. P (f x)) xs"
  using assms by (induction xs) auto

lemma distinct_map_filter_le:
  "(\<And>x. x \<in> set xs \<Longrightarrow> P x \<Longrightarrow> Q x) \<Longrightarrow> distinct (map k (filter Q xs)) \<Longrightarrow> distinct (map k (filter P xs))"
  by (induction xs) (auto split: if_splits)

lemma rowcount_tupdate_le:
  "(\<And>r. P r \<Longrightarrow> \<not> Q (f r)) \<Longrightarrow> rowcount Q (tupdate P f rows) \<le> rowcount Q rows"
  by (induction rows) (auto simp: rowcount_def tupdate_Cons)

lemma expire_inv:
  assumes inv: "media_inv repo d"
  shows "media_inv repo (expire_reservations own sid now d)"
proof -
  let ?P = "expired_active own sid now" and ?f = "expired_row now"
  let ?d = "d\<lparr>t_reservations := tupdate ?P ?f (t_reservations d)\<rparr>"
  note I = media_invD[OF inv]
  have A: "res_ok repo (t_artifacts d) (?f r)" if "r \<in> set (t_reservations d)" "?P r" for r
    using I(1)[OF that(1)] that(2) closed_checks(1)[of r RsExpired now]
    by (auto simp: res_ok_def expired_row_def expired_active_def backed_def)
  have B: "mr_reservation_id (?f r) = mr_reservation_id r" "key_of (?f r) = key_of r" for r
    by (simp_all add: expired_row_def key_of_def)
  have off: "mr_active (?f r) \<noteq> Some True" for r by (simp add: expired_row_def)
  have "filter (\<lambda>r. mr_active r = Some True) (tupdate ?P ?f (t_reservations d)) =
      filter (\<lambda>r. mr_active (if ?P r then ?f r else r) = Some True) (t_reservations d)"
    unfolding tupdate_def by (rule filter_map_same) (use off in \<open>auto split: if_splits\<close>)
  then have C: "unique_key slot_of_session (filter (\<lambda>r. mr_active r = Some True) (tupdate ?P ?f (t_reservations d)))"
    using I(4) off unfolding unique_key_def
    by (simp only:) (erule distinct_map_filter_le[rotated], simp split: if_splits)
  have D: "pending_count s ?d \<le> pending_count s d" for s
    unfolding pending_count_def
    by (simp add: rowcount_tupdate_le expired_row_def)
  have E: "artifact_ids s ?d \<subseteq> artifact_ids s d" for s
    by (auto simp: artifact_ids_def evidence_artifacts_iff pending_artifacts_iff set_tupdate expired_row_def)
  have F: "bytes_of (artifact_ids s ?d) (t_artifacts d) \<le> mt_max_distinct_bytes repo" for s
    using bytes_of_mono[OF E artifacts_nonneg[OF I(5)], of s] I(9)[of s] by linarith
  have G: "evidence_count s ?d + pending_count s ?d \<le> mt_max_items repo" for s
    using D[of s] I(8)[of s] by (simp add: evidence_count_def)
  have K: "completed_by (tupdate ?P ?f (t_reservations d)) e" if "e \<in> set (t_evidence d)" for e
    by (rule completed_by_mono[OF I(10)[OF that]]) (auto simp: set_tupdate expired_active_def)
  show ?thesis
    unfolding expire_reservations_eq media_inv_def
    using A I(1-7) B C F G K
    by (simp add: list_all_iff set_tupdate unique_key_tupdate) blast
qed

lemma insert_reservation_Inr:
  "insert_reservation r d = Inr d' \<longleftrightarrow>
     mr_reservation_id r \<notin> mr_reservation_id ` set (t_reservations d)
     \<and> key_of r \<notin> key_of ` set (t_reservations d)
     \<and> slot_of_session r \<notin> slot_of_session ` set (filter (\<lambda>x. mr_active x = Some True) (t_reservations d))
     \<and> checks_ok (reservation_checks r) \<and> d' = d\<lparr>t_reservations := t_reservations d @ [r]\<rparr>"
  unfolding insert_reservation_def andthen_Inr_iff by auto

lemma insert_reservation_inv:
  assumes inv: "media_inv repo d" and ins: "insert_reservation r d = Inr d'"
    and new: "mr_status r = RsActive" "mr_slot r < mt_max_items repo"
    and cnt: "evidence_count (mr_session_id r) d + pending_count (mr_session_id r) d + 1 \<le> mt_max_items repo"
  shows "media_inv repo d'"
proof -
  note I = media_invD[OF inv]
  have d': "d' = d\<lparr>t_reservations := t_reservations d @ [r]\<rparr>"
    and fresh: "mr_reservation_id r \<notin> mr_reservation_id ` set (t_reservations d)"
      "key_of r \<notin> key_of ` set (t_reservations d)"
      "slot_of_session r \<notin> slot_of_session ` set (filter (\<lambda>x. mr_active x = Some True) (t_reservations d))"
    and ok: "checks_ok (reservation_checks r)"
    using ins by (simp_all add: insert_reservation_Inr)
  have A: "res_ok repo (t_artifacts d) r" using ok new by (simp add: res_ok_def backed_def)
  have B: "artifact_ids s d' = artifact_ids s d" for s
    using new by (auto simp: d' artifact_ids_def evidence_artifacts_iff pending_artifacts_iff)
  have C: "evidence_count s d' + pending_count s d' \<le> mt_max_items repo" for s
    using I(8)[of s] cnt
    by (auto simp: d' evidence_count_def pending_count_def rowcount_append1)
  have K: "completed_by (t_reservations d @ [r]) e" if "e \<in> set (t_evidence d)" for e
    by (rule completed_by_mono[OF I(10)[OF that]]) simp
  show ?thesis
    using A I fresh C K
    unfolding media_inv_def
    by (simp add: list_all_iff unique_key_append1 B) (auto simp: d' unique_key_append1)
qed

lemma free_slot_Some:
  "free_slot repo sid d = Some n \<Longrightarrow> n < mt_max_items repo
     \<and> (\<forall>r \<in> set (t_reservations d). mr_session_id r = sid \<longrightarrow> occupied r \<longrightarrow> mr_slot r \<noteq> n)"
  by (auto simp: free_slot_def dest!: find_SomeD)

lemma find_upt_lowest: "List.find P [0..<k] = Some n \<Longrightarrow> m < n \<Longrightarrow> \<not> P m"
  by (auto simp: find_Some_iff)

lemma free_slot_lowest:
  "free_slot repo sid d = Some n \<Longrightarrow> m < n \<Longrightarrow>
   \<exists>r \<in> set (t_reservations d). mr_session_id r = sid \<and> occupied r \<and> mr_slot r = m"
  unfolding free_slot_def by (drule (1) find_upt_lowest) auto

text \<open>While the quota has room there is a free slot, so \<open>next(...)\<close> always finds one.\<close>

lemma free_slot_exists:
  assumes "pending_count sid d < mt_max_items repo"
  shows "\<exists>n. free_slot repo sid d = Some n"
proof (rule ccontr)
  assume full: "\<not> ?thesis"
  let ?used = "mr_slot ` set (filter (\<lambda>r. mr_session_id r = sid \<and> occupied r) (t_reservations d))"
  have "free_slot repo sid d = None" using full by (metis option.exhaust)
  then have "{0..<mt_max_items repo} \<subseteq> ?used"
    by (auto simp: free_slot_def find_None_iff)
  then have "card {0..<mt_max_items repo} \<le> card ?used" by (rule card_mono[rotated]) simp
  also have "\<dots> \<le> length (filter (\<lambda>r. mr_session_id r = sid \<and> occupied r) (t_reservations d))"
    using card_length[of "map mr_slot (filter (\<lambda>r. mr_session_id r = sid \<and> occupied r) (t_reservations d))"]
    unfolding set_map length_map .
  finally show False using assms by (simp add: pending_count_def rowcount_def)
qed

lemma reserve_Inr:
  assumes "reserve repo q i m now d0 = Inr (d', lease)"
  obtains (replay) r where "d' = expire_reservations (rq_owner_id q) (rq_session_id q) now d0"
      "r \<in> set (t_reservations d')" "occupied r" "mr_fingerprint r = rq_fingerprint q"
      "key_of r = (rq_owner_id q, rq_session_id q, rq_idempotency_key q)" "lease = lease_of_row r"
  | (fresh) slot r where "r = new_reservation repo q i m slot now"
      "insert_reservation r (expire_reservations (rq_owner_id q) (rq_session_id q) now d0) = Inr d'"
      "slot < mt_max_items repo" "lease = lease_of_row r"
      "evidence_count (rq_session_id q) (expire_reservations (rq_owner_id q) (rq_session_id q) now d0)
         + pending_count (rq_session_id q) (expire_reservations (rq_owner_id q) (rq_session_id q) now d0) + 1
         \<le> mt_max_items repo"
proof -
  let ?d = "expire_reservations (rq_owner_id q) (rq_session_id q) now d0"
  let ?find = "find_reservation (rq_owner_id q) (rq_session_id q) (rq_idempotency_key q) ?d"
  have key: "r \<in> set (t_reservations ?d) \<and> key_of r = (rq_owner_id q, rq_session_id q, rq_idempotency_key q)"
    if "?find = Some r" for r
    using that by (auto simp: find_reservation_def key_of_def dest: find_SomeD)
  show ?thesis
  proof (cases ?find)
    case (Some r)
    then have "d' = ?d" "occupied r" "mr_fingerprint r = rq_fingerprint q" "lease = lease_of_row r"
      using assms
      by (auto simp: reserve_def andthen_Inr_iff replay_reservation_def check_fingerprint_def)
    then show ?thesis using key[OF Some] replay by blast
  next
    case None
    then obtain slot where "free_slot repo (rq_session_id q) ?d = Some slot"
      and "insert_reservation (new_reservation repo q i m slot now) ?d = Inr d'"
      and "lease = lease_of_row (new_reservation repo q i m slot now)"
      and "evidence_count (rq_session_id q) ?d + pending_count (rq_session_id q) ?d + 1 \<le> mt_max_items repo"
      using assms
      by (auto simp: reserve_def andthen_Inr_iff Let_def split: option.splits sum.splits)
    then show ?thesis using fresh free_slot_Some by blast
  qed
qed

lemma reserve_row:
  assumes "reserve repo q i m now d0 = Inr (d', lease)"
  shows "\<exists>r \<in> set (t_reservations d'). lease = lease_of_row r \<and> occupied r
    \<and> key_of r = (rq_owner_id q, rq_session_id q, rq_idempotency_key q) \<and> mr_fingerprint r = rq_fingerprint q"
  using assms
proof (cases rule: reserve_Inr)
  case (replay r)
  then show ?thesis by blast
next
  case (fresh slot r)
  have "r \<in> set (t_reservations d')" using fresh(2) by (simp add: insert_reservation_Inr)
  then show ?thesis
    by (rule bexI[rotated]) (simp add: fresh(4) fresh(1) new_reservation_def key_of_def)
qed

lemma reserve_inv:
  assumes inv: "media_inv repo d" and "reserve repo q i m now d = Inr (d', lease)"
  shows "media_inv repo d'"
  using assms(2)
proof (cases rule: reserve_Inr)
  case (replay r)
  then show ?thesis using expire_inv[OF inv] by simp
next
  case (fresh slot r)
  show ?thesis
    by (rule insert_reservation_inv[OF expire_inv[OF inv] fresh(2)])
      (use fresh(3,5) in \<open>simp_all add: fresh(1) new_reservation_def\<close>)
qed

lemma reservation_by_id_Some:
  "reservation_by_id i d = Some r \<Longrightarrow> r \<in> set (t_reservations d) \<and> mr_reservation_id r = i"
  by (auto simp: reservation_by_id_def dest: find_SomeD)

lemma save_reservation_split:
  assumes uniq: "unique_key mr_reservation_id (t_reservations d)" and r: "r \<in> set (t_reservations d)"
    and id: "mr_reservation_id r' = mr_reservation_id r" and save: "save_reservation r' d = Inr d'"
  obtains xs ys where "t_reservations d = xs @ r # ys" "t_reservations d' = xs @ r' # ys"
    "checks_ok (reservation_checks r')" "t_artifacts d' = t_artifacts d" "t_evidence d' = t_evidence d"
    "t_sessions d' = t_sessions d"
proof (rule tupdate_by_key[OF uniq r])
  fix xs ys
  assume xs: "t_reservations d = xs @ r # ys"
    and upd: "\<And>q. mr_reservation_id q = mr_reservation_id r \<Longrightarrow>
      tupdate (\<lambda>x. mr_reservation_id x = mr_reservation_id q) (\<lambda>_. q) (t_reservations d) = xs @ q # ys"
  have "checks_ok (reservation_checks r')" and d': "d' = d\<lparr>t_reservations :=
      tupdate (\<lambda>x. mr_reservation_id x = mr_reservation_id r') (\<lambda>_. r') (t_reservations d)\<rparr>"
    using save by (auto simp: save_reservation_def split: if_splits)
  then show thesis by (intro that[OF xs]) (simp_all add: upd[OF id])
qed

lemma reject_inv:
  assumes inv: "media_inv repo d" and rej: "reject lease reason now d = Inr d'"
  shows "media_inv repo d'"
proof -
  consider "d' = d"
    | r r' where "r \<in> set (t_reservations d)" "mr_status r = RsActive"
      "r' = r\<lparr>mr_status := (if mr_expires_at r \<le> now then RsExpired else RsRejected), mr_active := None,
          mr_updated_at := now, mr_rejection_reason := Some (take 128 reason)\<rparr>"
      "save_reservation r' d = Inr d'"
    using rej by (auto simp: reject_def andthen_Inr_iff transition_reservation_Inr
        dest!: reservation_by_id_Some split: option.splits if_splits)
  then show ?thesis
  proof cases
    case 1
    then show ?thesis using inv by simp
  next
    case (2 r r')
    note I = media_invD[OF inv]
    have id: "mr_reservation_id r' = mr_reservation_id r" by (simp add: 2(3))
    obtain xs ys where x: "t_reservations d = xs @ r # ys" "t_reservations d' = xs @ r' # ys"
      "checks_ok (reservation_checks r')" "t_artifacts d' = t_artifacts d" "t_evidence d' = t_evidence d"
      by (rule save_reservation_split[OF I(2) 2(1) id 2(4)])
    show ?thesis
      by (rule replace_inv[OF inv x(1,2), where f = "\<lambda>a. a" and new = "[]" and extra = "{}"])
        (use x(3-) 2(1-3) I(7) I(9)[of "mr_session_id r"] in
          \<open>simp_all add: refine_artifacts_def backed_def key_of_def split: if_splits\<close>)
  qed
qed

section \<open>Completing a reservation\<close>

lemma facts_in_update [simp]:
  "facts_in a (r\<lparr>mr_status := st\<rparr>) = facts_in a r"
  "facts_in a (r\<lparr>mr_active := ac\<rparr>) = facts_in a r"
  "facts_in a (r\<lparr>mr_updated_at := t\<rparr>) = facts_in a r"
  "facts_in a (r\<lparr>mr_completion_mode := m\<rparr>) = facts_in a r"
  "facts_in a (r\<lparr>mr_intent_action := i\<rparr>) = facts_in a r"
  by (simp_all add: facts_in_def)

lemma complete_reservation_Inr:
  assumes "complete_reservation mode a now r d = Inr (r2, d')" and "mr_status r \<noteq> RsCompleted"
  obtains new where "mr_status r \<in> {RsActive, RsPendingReference}"
    "r2 = r\<lparr>mr_status := RsCompleted, mr_active := None, mr_updated_at := now, mr_completion_mode := Some mode\<rparr>"
    "new = [] \<or> (\<exists>res. mr_result_json r = Some res \<and> new = [evidence_of_result res r2 a now]
        \<and> ir_evidence_id res \<notin> ev_evidence_id ` set (t_evidence d))"
    "save_reservation r2 (d\<lparr>t_evidence := t_evidence d @ new\<rparr>) = Inr d'"
    "\<exists>e \<in> set (t_evidence d @ new). Some (ev_evidence_id e) = mr_evidence_id r \<or> new \<noteq> []"
proof -
  have st: "mr_status r \<in> {RsActive, RsPendingReference}" and
    r2: "r2 = r\<lparr>mr_status := RsCompleted, mr_active := None, mr_updated_at := now, mr_completion_mode := Some mode\<rparr>"
    using assms by (auto simp: complete_reservation_def andthen_Inr_iff Let_def transition_reservation_Inr
        elim: allowed_transition.elims split: if_splits) (cases "mr_status r"; auto)+
  show ?thesis
  proof (cases "\<exists>e \<in> set (t_evidence d). Some (ev_evidence_id e) = mr_evidence_id r")
    case True
    then have "save_reservation r2 d = Inr d'"
      using assms by (auto simp: complete_reservation_def andthen_Inr_iff Let_def transition_reservation_Inr)
    then show ?thesis using that[of "[]"] st r2 True by auto
  next
    case False
    then obtain res where "mr_result_json r = Some res"
      "ir_evidence_id res \<notin> ev_evidence_id ` set (t_evidence d)"
      "save_reservation r2 (d\<lparr>t_evidence := t_evidence d @ [evidence_of_result res r2 a now]\<rparr>) = Inr d'"
      using assms
      by (auto simp: complete_reservation_def andthen_Inr_iff Let_def transition_reservation_Inr result_of_def
          insert_evidence_def evidence_of_result_def split: option.splits if_splits)
    then show ?thesis using that[of "[evidence_of_result res r2 a now]"] st r2 by auto
  qed
qed

text \<open>
  The common step of the three ways to complete: the stored row \<open>r0\<close>, the row in memory \<open>r\<close>
  (its facts perhaps just stored), and an artifact that is referenced in the resulting database.
\<close>

lemma complete_inv:
  assumes inv: "media_inv repo d"
    and r0: "r0 \<in> set (t_reservations d)" "occupied r0"
    and same: "mr_reservation_id r = mr_reservation_id r0" "key_of r = key_of r0" "mr_slot r = mr_slot r0"
    and d0: "d0 = d\<lparr>t_artifacts := map f (t_artifacts d)\<rparr>" "refine_artifacts f"
    and a: "a \<in> set (t_artifacts d0)" "ma_state a = ArReferenced" "facts_in a r"
    and c: "complete_reservation mode a now r d0 = Inr (r2, d')" and st: "mr_status r \<noteq> RsCompleted"
    and bytes: "bytes_of (insert (ma_media_item_id a) (artifact_ids (mr_session_id r0) d)) (t_artifacts d)
       \<le> mt_max_distinct_bytes repo"
  shows "media_inv repo d'"
  using c st
proof (rule complete_reservation_Inr)
  fix new
  assume r2: "r2 = r\<lparr>mr_status := RsCompleted, mr_active := None, mr_updated_at := now, mr_completion_mode := Some mode\<rparr>"
    and new: "new = [] \<or> (\<exists>res. mr_result_json r = Some res \<and> new = [evidence_of_result res r2 a now]
        \<and> ir_evidence_id res \<notin> ev_evidence_id ` set (t_evidence d0))"
    and save: "save_reservation r2 (d0\<lparr>t_evidence := t_evidence d0 @ new\<rparr>) = Inr d'"
  note I = media_invD[OF inv]
  have id: "mr_reservation_id r2 = mr_reservation_id r0" by (simp add: r2 same)
  have sess: "mr_session_id r = mr_session_id r0" using same(2) by (simp add: key_of_def)
  obtain xs ys where x: "t_reservations d = xs @ r0 # ys" "t_reservations d' = xs @ r2 # ys"
    "checks_ok (reservation_checks r2)" "t_artifacts d' = map f (t_artifacts d)" "t_evidence d' = t_evidence d @ new"
    by (rule save_reservation_split[OF _ _ id save]) (use I(2) r0(1) in \<open>simp_all add: d0(1)\<close>)
  have uniq: "unique_key ev_evidence_id (t_evidence d')"
    using I(7) new by (auto simp: x(5) d0(1) unique_key_append1 evidence_of_result_def)
  have a': "a \<in> set (t_artifacts d')" using a(1) by (simp add: x(4) d0(1))
  show ?thesis
  proof (rule replace_inv[OF inv x(1,2) id _ _ _ _ x(4) d0(2) x(3) _ x(5) uniq, where extra = "{ma_media_item_id a}"])
    show "key_of r2 = key_of r0" using same(2) by (simp add: r2 key_of_def)
    show "mr_slot r2 = mr_slot r0" by (simp add: r2 same(3))
    show "backed (t_artifacts d') r2" using a' a(2,3) by (auto simp: backed_def r2)
    show "length new + (if occupied r2 then 1 else 0) \<le> (if occupied r0 then 1 else (0::nat))"
      using new r0(2) by (auto simp: r2)
    show "ev_session_id e = mr_session_id r0 \<and> evidence_ok (t_artifacts d') e
        \<and> (\<exists>i \<in> {ma_media_item_id a}. ev_artifact_id e = Some i) \<and> completed_by [r2] e" if "e \<in> set new" for e
      using new that a' a(2,3) sess by (auto simp: evidence_of_result_def evidence_ok_def r2 completed_by_def facts_in_def)
    show "bytes_of (artifact_ids (mr_session_id r0) d \<union> {ma_media_item_id a}) (t_artifacts d)
        \<le> mt_max_distinct_bytes repo" using bytes by simp
  qed (use r0(2) in \<open>auto simp: r2\<close>)
qed

section \<open>Finalize, replay and confirm keep the invariant\<close>

lemma insert_artifact_Inr:
  "insert_artifact a d = Inr d' \<longleftrightarrow>
     ma_media_item_id a \<notin> ma_media_item_id ` set (t_artifacts d)
     \<and> (ma_owner_id a, ma_normalized_sha256 a) \<notin> (\<lambda>x. (ma_owner_id x, ma_normalized_sha256 x)) ` set (t_artifacts d)
     \<and> ma_opaque_object_key a \<notin> ma_opaque_object_key ` set (t_artifacts d)
     \<and> 0 \<le> ma_normalized_byte_size a \<and> d' = d\<lparr>t_artifacts := t_artifacts d @ [a]\<rparr>"
  unfolding insert_artifact_def andthen_Inr_iff by (auto simp: artifact_checks_def)

lemma artifact_ids_artifacts [simp]: "artifact_ids sid (d\<lparr>t_artifacts := x\<rparr>) = artifact_ids sid d"
  by (simp add: artifact_ids_def evidence_artifacts_def pending_artifacts_def)

lemma append_artifacts_inv:
  assumes inv: "media_inv repo d" and ok: "artifacts_ok (t_artifacts d @ late)"
  shows "media_inv repo (d\<lparr>t_artifacts := t_artifacts d @ late\<rparr>)"
    and "bytes_of (artifact_ids sid d) late = 0"
proof -
  note I = media_invD[OF inv]
  let ?d = "d\<lparr>t_artifacts := t_artifacts d @ late\<rparr>"
  have new: "\<forall>a \<in> set late. ma_media_item_id a \<notin> ma_media_item_id ` set (t_artifacts d)"
    using ok by (auto simp: artifacts_ok_def unique_key_def)
  have Z: "bytes_of (artifact_ids sid d) late = 0" for sid
    using artifact_ids_known[OF inv, of sid] new by (intro bytes_of_absent) blast
  then show "bytes_of (artifact_ids sid d) late = 0" .
  have B: "bytes_of (artifact_ids sid ?d) (t_artifacts ?d) \<le> mt_max_distinct_bytes repo" for sid
    using I(9)[of sid] by (simp add: Z)
  have C: "list_all (res_ok repo (t_artifacts ?d)) (t_reservations d)"
    using I(1) by (auto simp: list_all_iff res_ok_def intro: backed_append)
  have D: "list_all (evidence_ok (t_artifacts ?d)) (t_evidence d)"
    using I(6) by (auto simp: list_all_iff intro: evidence_ok_append)
  have E: "evidence_count sid ?d = evidence_count sid d" "pending_count sid ?d = pending_count sid d" for sid
    by (simp_all add: evidence_count_def pending_count_def)
  show "media_inv repo ?d"
    unfolding media_inv_def using ok B C D I(2,3,4,7,8,10) E by (simp add: list_all_iff)
qed

lemma insert_artifact_ok:
  assumes "media_inv repo d" and "insert_artifact a d = Inr d'"
  shows "artifacts_ok (t_artifacts d @ [a])" and "d' = d\<lparr>t_artifacts := t_artifacts d @ [a]\<rparr>"
  using media_invD(5)[OF assms(1)] assms(2)
  by (simp_all add: insert_artifact_Inr artifacts_ok_def unique_key_append1 artifact_checks_def)

lemma stored_facts:
  assumes "ma_owner_id a = mr_owner_id r" and "ma_normalized_sha256 a = fr_normalized_sha256 q"
    and "ma_normalized_byte_size a = fr_normalized_byte_size q"
  shows "facts_in a (store_pending_facts a q i r)"
  using assms by (simp add: facts_in_def store_pending_facts_def pending_result_def Let_def)

lemma stored_same:
  "mr_reservation_id (store_pending_facts a q i r) = mr_reservation_id r"
  "key_of (store_pending_facts a q i r) = key_of r" "mr_slot (store_pending_facts a q i r) = mr_slot r"
  "mr_status (store_pending_facts a q i r) = mr_status r"
  "mr_owner_id (store_pending_facts a q i r) = mr_owner_id r"
  "mr_session_id (store_pending_facts a q i r) = mr_session_id r"
  "mr_idempotency_key (store_pending_facts a q i r) = mr_idempotency_key r"
  by (simp_all add: store_pending_facts_def Let_def key_of_def)

lemma settle_inv:
  assumes inv: "media_inv repo d" and r: "r \<in> set (t_reservations d)" "mr_status r = RsActive"
    and a: "a \<in> set (t_artifacts d)" "ma_owner_id a = mr_owner_id r"
      "ma_normalized_sha256 a = fr_normalized_sha256 q" "ma_normalized_byte_size a = fr_normalized_byte_size q"
    and bytes: "bytes_of (insert (ma_media_item_id a) (artifact_ids (mr_session_id r) d)) (t_artifacts d)
       \<le> mt_max_distinct_bytes repo"
    and s: "settle a action q i now r d = Inr (d', out)"
  shows "media_inv repo d'"
proof (cases "ma_state a = ArReferenced")
  case True
  then obtain r2 where c: "complete_reservation Direct_Reuse a now
      (store_pending_facts a q i r\<lparr>mr_intent_action := Some ABORT_STAGED\<rparr>) d = Inr (r2, d')"
    using s by (auto simp: settle_def Let_def andthen_Inr_iff)
  have f: "facts_in a (store_pending_facts a q i r\<lparr>mr_intent_action := Some ABORT_STAGED\<rparr>)"
    using stored_facts[OF a(2-4)] by simp
  have "key_of (store_pending_facts a q i r\<lparr>mr_intent_action := Some ABORT_STAGED\<rparr>) = key_of r"
    by (simp add: key_of_def stored_same)
  then show ?thesis
    by (intro complete_inv[OF inv r(1) _ _ _ _ _ _ _ True f c, where f = "\<lambda>a. a"])
      (use r a bytes in \<open>simp_all add: stored_same refine_artifacts_def\<close>)
next
  case False
  let ?r2 = "store_pending_facts a q i r\<lparr>mr_intent_action := Some action, mr_status := RsPendingReference,
      mr_active := Some True, mr_updated_at := now\<rparr>"
  have save: "save_reservation ?r2 d = Inr d'"
    using s False r(2) by (auto simp: settle_def Let_def andthen_Inr_iff transition_reservation_Inr stored_same)
  note I = media_invD[OF inv]
  have id: "mr_reservation_id ?r2 = mr_reservation_id r" by (simp add: stored_same)
  obtain xs ys where x: "t_reservations d = xs @ r # ys" "t_reservations d' = xs @ ?r2 # ys"
    "checks_ok (reservation_checks ?r2)" "t_artifacts d' = t_artifacts d" "t_evidence d' = t_evidence d"
    by (rule save_reservation_split[OF I(2) r(1) id save])
  have f: "facts_in a ?r2" using stored_facts[OF a(2-4)] by (simp add: facts_in_def)
  then have can: "mr_canonical_artifact_id ?r2 = Some (ma_media_item_id a)" by (simp add: facts_in_def)
  show ?thesis
  proof (rule replace_inv[OF inv x(1,2) id _ _ _ _ _ _ x(3), where f = "\<lambda>a. a" and new = "[]"
        and extra = "{ma_media_item_id a}"])
    show "key_of ?r2 = key_of r" by (simp add: key_of_def stored_same)
    show "mr_slot ?r2 = mr_slot r" by (simp add: stored_same)
    show "backed (t_artifacts d') ?r2" using f a(1) by (auto simp: backed_def x(4))
    show "\<exists>i \<in> {ma_media_item_id a}. mr_canonical_artifact_id ?r2 = Some i" using can by simp
    show "bytes_of (artifact_ids (mr_session_id r) d \<union> {ma_media_item_id a}) (t_artifacts d)
        \<le> mt_max_distinct_bytes repo" using bytes by simp
  qed (use x r I(7) in \<open>simp_all add: refine_artifacts_def\<close>)
qed

lemma canonical_Some:
  "canonical_artifact r d = Some a \<Longrightarrow> a \<in> set (t_artifacts d) \<and> mr_canonical_artifact_id r = Some (ma_media_item_id a)"
  by (auto simp: canonical_artifact_def dest: find_SomeD)

lemma canonical_facts:
  assumes inv: "media_inv repo d" and r: "r \<in> set (t_reservations d)" "mr_status r = RsPendingReference"
    and a: "canonical_artifact r d = Some a"
  shows "facts_in a r" and "ma_media_item_id a \<in> artifact_ids (mr_session_id r) d"
proof -
  note c = canonical_Some[OF a]
  obtain b where b: "b \<in> set (t_artifacts d)" "facts_in b r"
    using media_invD(1)[OF inv r(1)] r(2) by (auto simp: res_ok_def backed_def)
  then have "ma_media_item_id b = ma_media_item_id a" using c by (simp add: facts_in_def)
  then have "b = a"
    using unique_keyD[of ma_media_item_id "t_artifacts d" b a] media_invD(5)[OF inv] b(1) c
    by (simp add: artifacts_ok_def)
  then show "facts_in a r" using b(2) by simp
  show "ma_media_item_id a \<in> artifact_ids (mr_session_id r) d"
    using c r by (auto simp: artifact_ids_def pending_artifacts_iff)
qed

lemma replay_locked_inv:
  assumes inv: "media_inv repo d" and r: "r \<in> set (t_reservations d)"
    and p: "replay_locked r now d = Inr (d', out)"
  shows "media_inv repo d'"
proof (cases "mr_status r = RsPendingReference \<and> (\<exists>a. canonical_artifact r d = Some a
    \<and> mr_intent_action r = Some ABORT_STAGED \<and> ma_state a = ArReferenced)")
  case True
  then obtain a where a: "canonical_artifact r d = Some a" "ma_state a = ArReferenced"
    and st: "mr_status r = RsPendingReference" by blast
  then obtain r2 where c: "complete_reservation Follower a now r d = Inr (r2, d')"
    using p True by (auto simp: replay_locked_def require_artifact_def andthen_Inr_iff)
  note f = canonical_facts[OF inv r st a(1)]
  show ?thesis
    by (rule complete_inv[OF inv r _ _ _ _ _ _ _ a(2) f(1) c, where f = "\<lambda>a. a"])
      (use st canonical_Some[OF a(1)] f(2) media_invD(9)[OF inv, of "mr_session_id r"] in
        \<open>simp_all add: refine_artifacts_def insert_absorb\<close>)
next
  case False
  then have "d' = d"
    using p by (auto simp: replay_locked_def require_artifact_def andthen_Inr_iff
        split: reservation_status.splits option.splits if_splits)
  then show ?thesis using inv by simp
qed

lemma find_idempotent_inv:
  assumes "media_inv repo d" and "find_idempotent_outcome own sid k fp now d = Inr (d', out)"
  shows "media_inv repo d'"
  using assms
  by (auto simp: find_idempotent_outcome_def andthen_Inr_iff find_reservation_def
      intro: replay_locked_inv dest!: find_SomeD split: option.splits)

lemma confirm_inv:
  assumes inv: "media_inv repo d" and c: "confirm_reference intent now d = Inr (d', res)"
  shows "media_inv repo d'"
proof -
  obtain r where r: "r \<in> set (t_reservations d)" "reservation_by_id (st_reservation_id (in_staged intent)) d = Some r"
    using c by (auto simp: confirm_reference_def andthen_Inr_iff dest: reservation_by_id_Some split: option.splits)
  show ?thesis
  proof (cases "mr_status r = RsCompleted")
    case True
    then have "d' = d" using c r by (auto simp: confirm_reference_def andthen_Inr_iff split: if_splits)
    then show ?thesis using inv by simp
  next
    case False
    then obtain a a' r2 where st: "mr_status r = RsPendingReference"
      and a: "canonical_artifact r d = Some a" "transition_artifact ArReferenced a = Inr a'"
      and cr: "complete_reservation Adopted a' now r (save_artifact a' d) = Inr (r2, d')"
      using c r by (auto simp: confirm_reference_def andthen_Inr_iff split: if_splits option.splits)
    have a': "a' = a\<lparr>ma_state := ArReferenced\<rparr>" "ma_media_item_id a' = ma_media_item_id a"
      using a(2) by (auto simp: transition_artifact_def split: if_splits)
    note f = canonical_facts[OF inv r(1) st a(1)] and ca = canonical_Some[OF a(1)]
    let ?f = "\<lambda>x. if ma_media_item_id x = ma_media_item_id a' then a' else x"
    let ?g = "\<lambda>x. if x = a then a\<lparr>ma_state := ArReferenced\<rparr> else x"
    have "?f x = ?g x" if "x \<in> set (t_artifacts d)" for x
      using unique_keyD[of ma_media_item_id "t_artifacts d" x a] media_invD(5)[OF inv] that ca
      by (auto simp: artifacts_ok_def a')
    then have map: "map ?f (t_artifacts d) = map ?g (t_artifacts d)" by simp
    have save: "save_artifact a' d = d\<lparr>t_artifacts := map ?g (t_artifacts d)\<rparr>"
      unfolding save_artifact_def tupdate_def map ..
    have mem: "a' \<in> set (t_artifacts (save_artifact a' d))"
      unfolding save using ca by (auto simp: a'(1) intro!: image_eqI[of _ _ a])
    have fi: "facts_in a' r" using f(1) by (simp add: facts_in_def a'(1))
    show ?thesis
      by (rule complete_inv[OF inv r(1) _ _ _ _ save _ mem _ fi cr])
        (use st ca f(2) media_invD(9)[OF inv, of "mr_session_id r"] in
          \<open>simp_all add: refine_artifacts_def insert_absorb a'\<close>)
  qed
qed

lemma replay_finalize_inv:
  assumes "media_inv repo d" and "r \<in> set (t_reservations d)" and "replay_finalize r q now d = Inr (d', out)"
  shows "media_inv repo d'"
proof -
  obtain o' where "replay_locked r now d = Inr (d', o')"
    using assms(3) by (auto simp: replay_finalize_def andthen_Inr_iff split: option.splits if_splits)
  then show ?thesis by (rule replay_locked_inv[OF assms(1,2)])
qed

lemma find_artifact_Some:
  "find_artifact own sha d = Some a \<Longrightarrow> a \<in> set (t_artifacts d) \<and> ma_owner_id a = own \<and> ma_normalized_sha256 a = sha"
  by (auto simp: find_artifact_def dest: find_SomeD)

lemma finalize_media_Inr:
  assumes "finalize_media repo q i late now d = Inr (d', out)"
  obtains (replay) r where "r \<in> set (t_reservations d)" "lease_of_row r = fr_lease q" "replay_finalize r q now d = Inr (d', out)" "mr_status r \<noteq> RsActive"
  | (shared) r a where "r \<in> set (t_reservations d)" "lease_of_row r = fr_lease q" "mr_status r = RsActive" "now < mr_expires_at r"
      "find_artifact (mr_owner_id r) (fr_normalized_sha256 q) d = Some a" "check_canonical a q = Inr ()"
      "check_distinct_quota repo (mr_session_id r) (Some a) (fr_normalized_byte_size q) d = Inr ()"
      "settle a ABORT_STAGED q i now r d = Inr (d', out)"
  | (created) r d2 where "r \<in> set (t_reservations d)" "lease_of_row r = fr_lease q" "mr_status r = RsActive" "now < mr_expires_at r"
      "find_artifact (mr_owner_id r) (fr_normalized_sha256 q) d = None"
      "check_distinct_quota repo (mr_session_id r) None (fr_normalized_byte_size q) d = Inr ()"
      "insert_artifact (candidate_artifact r q now) (d\<lparr>t_artifacts := t_artifacts d @ late\<rparr>) = Inr d2"
      "settle (candidate_artifact r q now) MARK_REFERENCED q i now r d2 = Inr (d', out)"
  | (raced) r a where "r \<in> set (t_reservations d)" "lease_of_row r = fr_lease q" "mr_status r = RsActive" "now < mr_expires_at r"
      "find_artifact (mr_owner_id r) (fr_normalized_sha256 q) d = None"
      "check_distinct_quota repo (mr_session_id r) None (fr_normalized_byte_size q) d = Inr ()"
      "find_artifact (mr_owner_id r) (fr_normalized_sha256 q) (d\<lparr>t_artifacts := t_artifacts d @ late\<rparr>) = Some a"
      "check_canonical a q = Inr ()"
      "settle a ABORT_STAGED q i now r (d\<lparr>t_artifacts := t_artifacts d @ late\<rparr>) = Inr (d', out)"
proof -
  obtain r where r: "reservation_by_id (ml_reservation_id (fr_lease q)) d = Some r"
    and l: "lease_of_row r = fr_lease q"
    and g: "mr_status r \<noteq> RsActive \<longrightarrow> replay_finalize r q now d = Inr (d', out)"
    using assms by (auto simp: finalize_media_def andthen_Inr_iff check_lease_def split: option.splits if_splits)
  note m = reservation_by_id_Some[OF r]
  show ?thesis
  proof (cases "mr_status r = RsActive")
    case False
    then show ?thesis using g l m replay by blast
  next
    case act: True
    then have ex: "now < mr_expires_at r"
      using assms r by (auto simp: finalize_media_def andthen_Inr_iff)
    show ?thesis
    proof (cases "find_artifact (mr_owner_id r) (fr_normalized_sha256 q) d")
      case (Some a)
      then show ?thesis
        using assms r act ex l m shared[of r a] by (auto simp: finalize_media_def andthen_Inr_iff)
    next
      case None
      let ?d1 = "d\<lparr>t_artifacts := t_artifacts d @ late\<rparr>"
      have q: "check_distinct_quota repo (mr_session_id r) None (fr_normalized_byte_size q) d = Inr ()"
        and run: "(case insert_artifact (candidate_artifact r q now) ?d1 of
            Inr d2 \<Rightarrow> settle (candidate_artifact r q now) MARK_REFERENCED q i now r d2
          | Inl e \<Rightarrow> (case find_artifact (mr_owner_id r) (fr_normalized_sha256 q) ?d1 of
              None \<Rightarrow> Inl e
            | Some a \<Rightarrow> andthen (check_canonical a q) (\<lambda>_. settle a ABORT_STAGED q i now r ?d1))) = Inr (d', out)"
        using assms r act None by (simp_all add: finalize_media_def andthen_Inr_iff Let_def)
      show ?thesis
      proof (cases "insert_artifact (candidate_artifact r q now) ?d1")
        case (Inr d2)
        then show ?thesis using run by (intro created[OF conjunct1[OF m] l act ex None q]) simp_all
      next
        case (Inl e)
        then obtain a where "find_artifact (mr_owner_id r) (fr_normalized_sha256 q) ?d1 = Some a"
            "check_canonical a q = Inr ()" "settle a ABORT_STAGED q i now r ?d1 = Inr (d', out)"
          using run by (auto simp: andthen_Inr_iff split: option.splits)
        then show ?thesis by (rule raced[OF conjunct1[OF m] l act ex None q])
      qed
    qed
  qed
qed

lemma quota_bytes:
  assumes inv: "media_inv repo d" and a: "a \<in> set (t_artifacts d)"
    and q: "check_distinct_quota repo sid (Some a) n d = Inr ()"
  shows "bytes_of (insert (ma_media_item_id a) (artifact_ids sid d)) (t_artifacts d) \<le> mt_max_distinct_bytes repo"
  using q bytes_of_insert[OF _ a, of "artifact_ids sid d"] media_invD(5)[OF inv]
  by (auto simp: check_distinct_quota_def Let_def artifacts_ok_def split: if_splits)

lemma quota_bytes_new:
  assumes inv: "media_inv repo d" and ok: "artifacts_ok (t_artifacts d @ late)" and a: "a \<in> set late"
    and q: "check_distinct_quota repo sid None (ma_normalized_byte_size a) d = Inr ()"
  shows "bytes_of (insert (ma_media_item_id a) (artifact_ids sid d)) (t_artifacts d @ late) \<le> mt_max_distinct_bytes repo"
proof -
  have "ma_media_item_id a \<notin> ma_media_item_id ` set (t_artifacts d)"
    using ok a by (auto simp: artifacts_ok_def unique_key_def)
  then have "ma_media_item_id a \<notin> artifact_ids sid d" using artifact_ids_known[OF inv] by blast
  then show ?thesis
    using q bytes_of_insert[of "t_artifacts d @ late" a "artifact_ids sid d"] ok a
      append_artifacts_inv(2)[OF inv ok, of sid]
    by (simp add: check_distinct_quota_def Let_def artifacts_ok_def)
qed

lemma finalize_media_inv:
  assumes inv: "media_inv repo d" and late: "artifacts_ok (t_artifacts d @ late)"
    and fin: "finalize_media repo q i late now d = Inr (d', out)"
  shows "media_inv repo d'"
  using fin
proof (cases rule: finalize_media_Inr)
  case (replay r)
  then show ?thesis using replay_finalize_inv[OF inv] by blast
next
  case (shared r a)
  note fa = find_artifact_Some[OF shared(5)]
  show ?thesis
    by (rule settle_inv[OF inv shared(1,3) _ _ _ _ quota_bytes[OF inv _ shared(7)] shared(8)])
      (use fa shared(6) in \<open>simp_all add: check_canonical_def\<close>)
next
  case (created r d2)
  let ?a = "candidate_artifact r q now" and ?d1 = "d\<lparr>t_artifacts := t_artifacts d @ late\<rparr>"
  note inv1 = append_artifacts_inv(1)[OF inv late]
  note ins = insert_artifact_ok[OF inv1 created(7)]
  have ok2: "artifacts_ok (t_artifacts d @ (late @ [?a]))" using ins(1) by simp
  have d2: "d2 = d\<lparr>t_artifacts := t_artifacts d @ (late @ [?a])\<rparr>" using ins(2) by simp
  have c: "ma_owner_id ?a = mr_owner_id r" "ma_normalized_sha256 ?a = fr_normalized_sha256 q"
    "ma_normalized_byte_size ?a = fr_normalized_byte_size q"
    by (simp_all add: candidate_artifact_def)
  have bytes: "bytes_of (insert (ma_media_item_id ?a) (artifact_ids (mr_session_id r) d2)) (t_artifacts d2)
      \<le> mt_max_distinct_bytes repo"
    using quota_bytes_new[OF inv ok2, of ?a "mr_session_id r"] created(6) by (simp add: c d2)
  show ?thesis
    by (rule settle_inv[OF append_artifacts_inv(1)[OF inv ok2, folded d2] _ created(3) _ c bytes created(8)])
      (simp_all add: d2 created(1))
next
  case (raced r a)
  let ?d1 = "d\<lparr>t_artifacts := t_artifacts d @ late\<rparr>"
  note fa = find_artifact_Some[OF raced(7)]
  have size: "ma_normalized_byte_size a = fr_normalized_byte_size q"
    using raced(8) by (simp add: check_canonical_def)
  have "a \<in> set late"
    using fa raced(5) by (auto simp: find_artifact_def find_None_iff)
  then have bytes: "bytes_of (insert (ma_media_item_id a) (artifact_ids (mr_session_id r) ?d1)) (t_artifacts ?d1)
      \<le> mt_max_distinct_bytes repo"
    using quota_bytes_new[OF inv late, of a "mr_session_id r"] raced(6) by (simp add: size)
  show ?thesis
    by (rule settle_inv[OF append_artifacts_inv(1)[OF inv late] _ raced(3) _ _ _ size bytes raced(9)])
      (use fa raced(1) in simp_all)
qed

section \<open>Steps\<close>

inductive media_step :: "media_repo \<Rightarrow> db \<Rightarrow> db \<Rightarrow> bool" for repo where
  step_reserve: "reserve repo q i m now d = Inr (d', lease) \<Longrightarrow> media_step repo d d'"
| step_replay: "find_idempotent_outcome own sid k fp now d = Inr (d', out) \<Longrightarrow> media_step repo d d'"
| step_finalize: "finalize_media repo q i late now d = Inr (d', out) \<Longrightarrow>
    artifacts_ok (t_artifacts d @ late) \<Longrightarrow> media_step repo d d'"
| step_confirm: "confirm_reference intent now d = Inr (d', res) \<Longrightarrow> media_step repo d d'"
| step_reject: "reject lease reason now d = Inr d' \<Longrightarrow> media_step repo d d'"

inductive_cases media_stepE: "media_step repo d d'"

definition media_reachable :: "media_repo \<Rightarrow> db \<Rightarrow> bool" where
  "media_reachable repo d \<longleftrightarrow> (\<exists>d0. t_reservations d0 = [] \<and> t_artifacts d0 = [] \<and> t_evidence d0 = []
     \<and> (media_step repo)\<^sup>*\<^sup>* d0 d)"

lemma media_step_inv: "media_inv repo d \<Longrightarrow> media_step repo d d' \<Longrightarrow> media_inv repo d'"
  by (erule media_stepE)
    (auto intro: reserve_inv find_idempotent_inv finalize_media_inv confirm_inv reject_inv)

interpretation media_sys: invariant_system "media_inv repo" "media_step repo" for repo
  by unfold_locales (rule media_step_inv)

lemma media_inv_empty:
  "0 \<le> mt_max_distinct_bytes repo \<Longrightarrow> t_reservations d = [] \<Longrightarrow> t_artifacts d = [] \<Longrightarrow> t_evidence d = [] \<Longrightarrow>
   media_inv repo d"
  by (simp add: media_inv_def unique_key_def artifacts_ok_def evidence_count_def pending_count_def rowcount_def)

lemma media_reachable_inv:
  "media_reachable repo d \<Longrightarrow> 0 \<le> mt_max_distinct_bytes repo \<Longrightarrow> media_inv repo d"
  unfolding media_reachable_def using media_sys.steps_inv media_inv_empty by blast

section \<open>How a reservation evolves\<close>

definition same_facts :: "reservation_row \<Rightarrow> reservation_row \<Rightarrow> bool" where
  "same_facts r r' \<longleftrightarrow> mr_canonical_artifact_id r' = mr_canonical_artifact_id r
     \<and> mr_evidence_id r' = mr_evidence_id r \<and> mr_result_json r' = mr_result_json r
     \<and> mr_staged_object_key r' = mr_staged_object_key r \<and> mr_staged_manifest_id r' = mr_staged_manifest_id r
     \<and> mr_intent_action r' = mr_intent_action r"

definition res_evolves :: "reservation_row \<Rightarrow> reservation_row \<Rightarrow> bool" where
  "res_evolves r r' \<longleftrightarrow> lease_of_row r' = lease_of_row r \<and>
     (r' = r
      \<or> mr_status r = RsActive \<and> mr_status r' \<noteq> RsActive
      \<or> mr_status r = RsPendingReference \<and> mr_status r' = RsCompleted \<and> same_facts r r')"

definition rows_evolve :: "reservation_row list \<Rightarrow> reservation_row list \<Rightarrow> bool" where
  "rows_evolve rows rows' \<longleftrightarrow> (\<forall>r \<in> set rows. \<exists>r' \<in> set rows'. res_evolves r r')"

lemma res_evolves_refl [simp]: "res_evolves r r"
  by (simp add: res_evolves_def)

lemma res_evolves_trans: "res_evolves a b \<Longrightarrow> res_evolves b c \<Longrightarrow> res_evolves a c"
  unfolding res_evolves_def by auto

lemma rows_evolve_trans: "rows_evolve a b \<Longrightarrow> rows_evolve b c \<Longrightarrow> rows_evolve a c"
  unfolding rows_evolve_def by (metis res_evolves_trans)

lemma rows_evolve_refl [simp]: "rows_evolve a a"
  unfolding rows_evolve_def using res_evolves_refl by blast

lemma rows_evolve_replace: "res_evolves r r' \<Longrightarrow> rows_evolve (xs @ r # ys) (xs @ r' # ys)"
  unfolding rows_evolve_def by (metis Un_iff res_evolves_refl set_ConsD list.set_intros set_append)

lemma rows_evolve_append: "rows_evolve xs (xs @ ys)"
  unfolding rows_evolve_def by (metis Un_iff res_evolves_refl set_append)

lemma expire_rows_evolve: "rows_evolve (t_reservations d) (t_reservations (expire_reservations own sid now d))"
proof -
  have e: "res_evolves r (expired_row now r)" if "expired_active own sid now r" for r
    using that by (simp add: res_evolves_def expired_row_def lease_of_row_def expired_active_def)
  show ?thesis
    unfolding rows_evolve_def
  proof
    fix r
    assume "r \<in> set (t_reservations d)"
    then show "\<exists>r' \<in> set (t_reservations (expire_reservations own sid now d)). res_evolves r r'"
      using e[of r] res_evolves_refl[of r]
      by (cases "expired_active own sid now r")
        (auto simp: expire_reservations_eq set_tupdate bex_Un simp del: res_evolves_refl)
  qed
qed

lemma save_evolves:
  assumes "unique_key mr_reservation_id (t_reservations d)" and "r \<in> set (t_reservations d)"
    and "save_reservation r' d = Inr d'" and "res_evolves r r'"
  shows "rows_evolve (t_reservations d) (t_reservations d')"
proof -
  have "mr_reservation_id r' = mr_reservation_id r"
    using assms(4) by (simp add: res_evolves_def lease_of_row_def)
  then show ?thesis
    using save_reservation_split[OF assms(1,2) _ assms(3)] rows_evolve_replace[OF assms(4)] by metis
qed

lemma complete_evolves:
  assumes "unique_key mr_reservation_id (t_reservations d)" and "r0 \<in> set (t_reservations d)"
    and "complete_reservation mode a now r d = Inr (r2, d')" and "mr_status r \<noteq> RsCompleted"
    and "lease_of_row r = lease_of_row r0" and "mr_status r0 = mr_status r"
    and "mr_status r = RsPendingReference \<Longrightarrow> r = r0"
  shows "rows_evolve (t_reservations d) (t_reservations d')" and "same_facts r r2" and "mr_status r2 = RsCompleted"
proof -
  obtain new where st: "mr_status r \<in> {RsActive, RsPendingReference}"
    and r2: "r2 = r\<lparr>mr_status := RsCompleted, mr_active := None, mr_updated_at := now, mr_completion_mode := Some mode\<rparr>"
    and save: "save_reservation r2 (d\<lparr>t_evidence := t_evidence d @ new\<rparr>) = Inr d'"
    using assms(3,4) by (rule complete_reservation_Inr)
  have "lease_of_row r2 = lease_of_row r" by (simp add: r2 lease_of_row_def)
  then have "res_evolves r0 r2"
    using st assms(5-7) by (auto simp: res_evolves_def r2 same_facts_def)
  then show "rows_evolve (t_reservations d) (t_reservations d')"
    using save_evolves[OF _ _ save] assms(1,2) by simp
  show "same_facts r r2" "mr_status r2 = RsCompleted" by (simp_all add: r2 same_facts_def)
qed

lemma settle_evolves:
  assumes "unique_key mr_reservation_id (t_reservations d)" and "r \<in> set (t_reservations d)" "mr_status r = RsActive"
    and s: "settle a action q i now r d = Inr (d', out)"
  shows "rows_evolve (t_reservations d) (t_reservations d')"
proof (cases "ma_state a = ArReferenced")
  case True
  then obtain r2 where c: "complete_reservation Direct_Reuse a now
      (store_pending_facts a q i r\<lparr>mr_intent_action := Some ABORT_STAGED\<rparr>) d = Inr (r2, d')"
    using s by (auto simp: settle_def Let_def andthen_Inr_iff)
  show ?thesis
    by (rule complete_evolves(1)[OF assms(1,2) c])
      (use assms(3) in \<open>simp_all add: stored_same, simp_all add: lease_of_row_def store_pending_facts_def Let_def\<close>)
next
  case False
  let ?r2 = "store_pending_facts a q i r\<lparr>mr_intent_action := Some action, mr_status := RsPendingReference,
      mr_active := Some True, mr_updated_at := now\<rparr>"
  have save: "save_reservation ?r2 d = Inr d'"
    using s False assms(3) by (auto simp: settle_def Let_def andthen_Inr_iff transition_reservation_Inr stored_same)
  have "res_evolves r ?r2"
    using assms(3) by (simp add: res_evolves_def lease_of_row_def store_pending_facts_def Let_def)
  then show ?thesis using save_evolves[OF assms(1,2) save] by simp
qed

lemma replay_locked_evolves:
  assumes "unique_key mr_reservation_id (t_reservations d)" and "r \<in> set (t_reservations d)"
    and p: "replay_locked r now d = Inr (d', out)"
  shows "rows_evolve (t_reservations d) (t_reservations d')"
proof (cases "d' = d")
  case False
  then obtain a r2 where st: "mr_status r = RsPendingReference"
    and c: "complete_reservation Follower a now r d = Inr (r2, d')"
    using p by (auto simp: replay_locked_def require_artifact_def andthen_Inr_iff
        split: reservation_status.splits option.splits if_splits)
  show ?thesis by (rule complete_evolves(1)[OF assms(1,2) c]) (simp_all add: st)
qed simp

lemma media_step_evolves:
  assumes inv: "media_inv repo d" and s: "media_step repo d d'"
  shows "rows_evolve (t_reservations d) (t_reservations d')"
proof -
  note uniq = media_invD(2)[OF inv]
  show ?thesis
    using s
  proof (cases rule: media_step.cases)
    case (step_reserve q i m now lease)
    from this show ?thesis
    proof (cases rule: reserve_Inr)
      case (replay r)
      then show ?thesis using expire_rows_evolve by simp
    next
      case (fresh slot r)
      let ?e = "expire_reservations (rq_owner_id q) (rq_session_id q) now d"
      have "rows_evolve (t_reservations ?e) (t_reservations d')"
        using fresh(2) by (auto simp: insert_reservation_Inr intro: rows_evolve_append)
      then show ?thesis using expire_rows_evolve rows_evolve_trans by blast
    qed
  next
    case (step_replay own sid k fp now out)
    then show ?thesis
      using replay_locked_evolves[OF uniq]
      by (auto simp: find_idempotent_outcome_def andthen_Inr_iff find_reservation_def
          dest!: find_SomeD split: option.splits)
  next
    case (step_finalize q i late now out)
    from step_finalize(1) show ?thesis
    proof (cases rule: finalize_media_Inr)
      case (replay r)
      then obtain o' where "replay_locked r now d = Inr (d', o')"
        by (auto simp: replay_finalize_def andthen_Inr_iff split: option.splits if_splits)
      then show ?thesis using replay_locked_evolves[OF uniq replay(1)] by blast
    next
      case (shared r a)
      then show ?thesis using settle_evolves[OF uniq] by blast
    next
      case (created r d2)
      have "t_reservations d2 = t_reservations d" using created(7) by (simp add: insert_artifact_Inr)
      then show ?thesis using settle_evolves[of d2 r] created uniq by simp
    next
      case (raced r a)
      then show ?thesis using settle_evolves[OF _ _ raced(3) raced(9)] uniq by simp
    qed
  next
    case (step_confirm intent now res)
    show ?thesis
    proof (cases "d' = d")
      case False
      then obtain r a' r2 where r: "r \<in> set (t_reservations d)" and st: "mr_status r = RsPendingReference"
        and cr: "complete_reservation Adopted a' now r (save_artifact a' d) = Inr (r2, d')"
        using step_confirm
        by (auto simp: confirm_reference_def andthen_Inr_iff dest!: reservation_by_id_Some
            split: if_splits option.splits)
      have "rows_evolve (t_reservations (save_artifact a' d)) (t_reservations d')"
        by (rule complete_evolves(1)[OF _ _ cr]) (use uniq r st in \<open>simp_all add: save_artifact_def\<close>)
      then show ?thesis by (simp add: save_artifact_def)
    qed simp
  next
    case (step_reject lease reason now)
    show ?thesis
    proof (cases "d' = d")
      case False
      then obtain r where r: "r \<in> set (t_reservations d)" "mr_status r = RsActive"
        and save: "save_reservation (r\<lparr>mr_status := (if mr_expires_at r \<le> now then RsExpired else RsRejected),
           mr_active := None, mr_updated_at := now, mr_rejection_reason := Some (take 128 reason)\<rparr>) d = Inr d'"
        using step_reject by (auto simp: reject_def andthen_Inr_iff transition_reservation_Inr
          dest!: reservation_by_id_Some split: option.splits if_splits)
      then show ?thesis
        by (intro save_evolves[OF uniq r(1) save]) (auto simp: res_evolves_def lease_of_row_def split: if_splits)
    qed simp
  qed
qed

lemma media_steps_evolve:
  assumes "(media_step repo)\<^sup>*\<^sup>* d d'" and "media_inv repo d"
  shows "rows_evolve (t_reservations d) (t_reservations d')"
  using assms
  by (rule media_sys.steps_measure[where R = "\<lambda>a b. rows_evolve (t_reservations a) (t_reservations b)"])
    (auto intro: rows_evolve_trans media_step_evolves)

lemma staged_of_update [simp]:
  "staged_of (r\<lparr>mr_status := st\<rparr>) = staged_of r"
  "staged_of (r\<lparr>mr_active := ac\<rparr>) = staged_of r"
  "staged_of (r\<lparr>mr_updated_at := t\<rparr>) = staged_of r"
  "staged_of (r\<lparr>mr_completion_mode := m\<rparr>) = staged_of r"
  by (simp_all add: staged_of_def split: option.split)

section \<open>Completion and replay never fail on a well-formed table\<close>

lemma completed_checks:
  assumes "checks_ok (reservation_checks r)" and "mr_status r = RsPendingReference"
    and "mr_intent_action r = Some (if mode = Adopted then MARK_REFERENCED else ABORT_STAGED)"
  shows "checks_ok (reservation_checks (r\<lparr>mr_status := RsCompleted, mr_active := None,
    mr_updated_at := now, mr_completion_mode := Some mode\<rparr>))"
  using assms reservation_status_checks(2)[OF assms(1)]
  by (cases mode) (auto simp: reservation_checks_def reservation_payload_matrix_def durable_facts_present_def)

lemma complete_succeeds:
  assumes "res_ok repo arts r" and "mr_status r = RsPendingReference"
    and "mr_intent_action r = Some (if mode = Adopted then MARK_REFERENCED else ABORT_STAGED)"
  shows "\<exists>d'. complete_reservation mode a now r d = Inr (r\<lparr>mr_status := RsCompleted, mr_active := None,
    mr_updated_at := now, mr_completion_mode := Some mode\<rparr>, d')"
proof -
  let ?r2 = "r\<lparr>mr_status := RsCompleted, mr_active := None, mr_updated_at := now, mr_completion_mode := Some mode\<rparr>"
  obtain res where res: "mr_result_json r = Some res" "mr_evidence_id r = Some (ir_evidence_id res)"
    using assms(1,2) by (auto simp: res_ok_def backed_def facts_in_def)
  have ck: "checks_ok (reservation_checks ?r2)"
    using completed_checks[OF _ assms(2,3)] assms(1) by (simp add: res_ok_def)
  show ?thesis
  proof (cases "\<exists>e \<in> set (t_evidence d). Some (ev_evidence_id e) = mr_evidence_id r")
    case True
    then show ?thesis
      using ck assms(2) by (simp add: complete_reservation_def transition_reservation_def save_reservation_def Let_def)
  next
    case False
    then have "ir_evidence_id res \<notin> ev_evidence_id ` set (t_evidence d)" using res(2) by auto
    then show ?thesis
      using False ck assms(2) res
      by (simp add: complete_reservation_def transition_reservation_def save_reservation_def Let_def
          result_of_def insert_evidence_def evidence_of_result_def)
  qed
qed

lemma staged_present:
  assumes "res_ok repo arts r" and "mr_status r \<in> {RsPendingReference, RsCompleted}"
  shows "\<exists>st. staged_of r = Inr st" and "\<exists>act. mr_intent_action r = Some act"
    and "mr_status r = RsPendingReference \<Longrightarrow> mr_intent_action r \<in> {Some MARK_REFERENCED, Some ABORT_STAGED}"
  using assms reservation_status_checks(2)[of r]
  by (auto simp: res_ok_def durable_facts_present_def staged_of_def reservation_checks_def reservation_payload_matrix_def)

lemma outcome_present:
  assumes "res_ok repo arts r" and "mr_status r \<in> {RsPendingReference, RsCompleted}"
  shows "\<exists>out. outcome_of r action visible = Inr out \<and> mr_result_json r = Some (fo_result out)"
proof -
  obtain st act where s: "staged_of r = Inr st" "mr_intent_action r = Some act"
    using staged_present[OF assms] by blast
  obtain res where "mr_result_json r = Some res"
    using assms by (auto simp: res_ok_def backed_def facts_in_def)
  then show ?thesis using s by (cases action) (simp_all add: outcome_of_def result_of_def)
qed

lemma replay_locked_succeeds:
  assumes inv: "media_inv repo d" and r: "r \<in> set (t_reservations d)"
    and st: "mr_status r \<in> {RsPendingReference, RsCompleted}"
  shows "\<exists>d' out. replay_locked r now d = Inr (d', Some out) \<and> mr_result_json r = Some (fo_result out)"
proof -
  note ok = media_invD(1)[OF inv r]
  show ?thesis
  proof (cases "mr_status r = RsCompleted")
    case True
    then show ?thesis
      using outcome_present[OF ok st, of "Some (if mr_completion_mode r = Some Direct_Reuse then ABORT_STAGED else NOOP)" "Some True"]
      by (auto simp: replay_locked_def)
  next
    case False
    then have st: "mr_status r = RsPendingReference" using assms(3) by simp
    obtain b where "b \<in> set (t_artifacts d)" "mr_canonical_artifact_id r = Some (ma_media_item_id b)"
      using ok st by (auto simp: res_ok_def backed_def facts_in_def)
    then have "canonical_artifact r d \<noteq> None"
      unfolding canonical_artifact_def find_None_iff by blast
    then obtain a where a: "canonical_artifact r d = Some a" by blast
    show ?thesis
    proof (cases "mr_intent_action r = Some ABORT_STAGED \<and> ma_state a = ArReferenced")
      case True
      let ?r2 = "r\<lparr>mr_status := RsCompleted, mr_active := None, mr_updated_at := now, mr_completion_mode := Some Follower\<rparr>"
      obtain d' where c: "complete_reservation Follower a now r d = Inr (?r2, d')"
        using complete_succeeds[OF ok st, of Follower a now d] True by auto
      obtain s where "staged_of r = Inr s" using staged_present(1)[OF ok] st by blast
      then have "staged_of ?r2 = Inr s" by simp
      moreover obtain res where "mr_result_json r = Some res"
        using ok st by (auto simp: res_ok_def backed_def facts_in_def)
      ultimately show ?thesis
        using a True c st by (simp add: replay_locked_def require_artifact_def outcome_of_def result_of_def)
    next
      case False
      then show ?thesis
        using outcome_present[OF ok, of None None] a st by (auto simp: replay_locked_def require_artifact_def)
    qed
  qed
qed

lemma settle_row:
  assumes "media_inv repo d" and "r \<in> set (t_reservations d)" and "mr_status r = RsActive"
    and s: "settle a action q i now r d = Inr (d', out)"
  shows "\<exists>r1 \<in> set (t_reservations d'). lease_of_row r1 = lease_of_row r
    \<and> mr_status r1 \<in> {RsPendingReference, RsCompleted} \<and> mr_result_json r1 = Some (fo_result out)"
proof -
  note uniq = media_invD(2)[OF assms(1)]
  have base: "lease_of_row (store_pending_facts a q i r) = lease_of_row r"
    by (simp add: lease_of_row_def store_pending_facts_def Let_def)
  have result: "mr_result_json x = Some (fo_result o')" if "outcome_of x y z = Inr o'" for x y z o'
    using that by (auto simp: outcome_of_def andthen_Inr_iff result_of_def split: option.splits)
  obtain r2 d1 where save: "save_reservation r2 d1 = Inr d'" and d1: "t_reservations d1 = t_reservations d"
    and r2: "lease_of_row r2 = lease_of_row r" "mr_status r2 \<in> {RsPendingReference, RsCompleted}"
      "mr_result_json r2 = Some (fo_result out)"
  proof (cases "ma_state a = ArReferenced")
    case True
    then obtain r2 where c: "complete_reservation Direct_Reuse a now
        (store_pending_facts a q i r\<lparr>mr_intent_action := Some ABORT_STAGED\<rparr>) d = Inr (r2, d')"
      and o': "outcome_of r2 (Some ABORT_STAGED) (Some True) = Inr out"
      using s by (auto simp: settle_def Let_def andthen_Inr_iff)
    from c obtain new where r2: "r2 = store_pending_facts a q i r\<lparr>mr_intent_action := Some ABORT_STAGED,
        mr_status := RsCompleted, mr_active := None, mr_updated_at := now, mr_completion_mode := Some Direct_Reuse\<rparr>"
      and save: "save_reservation r2 (d\<lparr>t_evidence := t_evidence d @ new\<rparr>) = Inr d'"
      by (rule complete_reservation_Inr) (use assms(3) in \<open>auto simp: stored_same\<close>)
    show thesis
      by (rule that[OF save]) (use r2 base result[OF o'] in \<open>simp_all add: lease_of_row_def\<close>)
  next
    case False
    let ?r2 = "store_pending_facts a q i r\<lparr>mr_intent_action := Some action, mr_status := RsPendingReference,
        mr_active := Some True, mr_updated_at := now\<rparr>"
    have save: "save_reservation ?r2 d = Inr d'" and o': "outcome_of ?r2 None None = Inr out"
      using s False assms(3) by (auto simp: settle_def Let_def andthen_Inr_iff transition_reservation_Inr stored_same)
    show thesis
      by (rule that[OF save refl]) (use base result[OF o'] in \<open>simp_all add: lease_of_row_def\<close>)
  qed
  have id: "mr_reservation_id r2 = mr_reservation_id r" using r2(1) by (simp add: lease_of_row_def)
  have "r2 \<in> set (t_reservations d')"
    by (rule save_reservation_split[OF _ _ id save]) (use d1 uniq assms(2) in simp_all)
  then show ?thesis using r2 by blast
qed

lemma replay_row:
  assumes inv: "media_inv repo d" and r: "r \<in> set (t_reservations d)"
    and p: "replay_locked r now d = Inr (d', Some out)"
  shows "\<exists>r1 \<in> set (t_reservations d'). lease_of_row r1 = lease_of_row r
    \<and> mr_status r1 \<in> {RsPendingReference, RsCompleted} \<and> mr_result_json r1 = Some (fo_result out)"
proof -
  have st: "mr_status r \<in> {RsPendingReference, RsCompleted}"
    using p by (auto simp: replay_locked_def split: reservation_status.splits)
  have res: "mr_result_json r = Some (fo_result out)"
    using replay_locked_succeeds[OF inv r st, of now] p by auto
  obtain r1 where r1: "r1 \<in> set (t_reservations d')" "res_evolves r r1"
    using replay_locked_evolves[OF media_invD(2)[OF inv] r p] r unfolding rows_evolve_def by blast
  then show ?thesis
    using st res by (intro bexI[of _ r1]) (auto simp: res_evolves_def same_facts_def)
qed

lemma finalized_row:
  assumes inv: "media_inv repo d" and fin: "finalize_media repo q i late now d = Inr (d1, out)"
    and late: "artifacts_ok (t_artifacts d @ late)"
  shows "\<exists>r1 \<in> set (t_reservations d1). lease_of_row r1 = fr_lease q
    \<and> mr_status r1 \<in> {RsPendingReference, RsCompleted} \<and> mr_result_json r1 = Some (fo_result out)"
proof -
  note inv1 = append_artifacts_inv(1)[OF inv late]
  from fin show ?thesis
  proof (cases rule: finalize_media_Inr)
    case (replay r)
    then obtain o' where p: "replay_locked r now d = Inr (d1, Some o')" and "fo_result out = fo_result o'"
      by (auto simp: replay_finalize_def andthen_Inr_iff split: option.splits if_splits)
    then show ?thesis using replay_row[OF inv replay(1) p] replay(2) by auto
  next
    case (shared r a)
    then show ?thesis using settle_row[OF inv shared(1,3,8)] by auto
  next
    case (created r d2)
    note ins = insert_artifact_ok[OF inv1 created(7)]
    have inv2: "media_inv repo d2"
      using append_artifacts_inv(1)[OF inv1 ins(1)] ins(2) by simp
    have "t_reservations d2 = t_reservations d" using ins(2) by simp
    then show ?thesis using settle_row[OF inv2 _ created(3,8)] created(1,2) by auto
  next
    case (raced r a)
    then show ?thesis using settle_row[OF inv1 _ raced(3,9)] by auto
  qed
qed

lemma confirmed_row:
  assumes inv: "media_inv repo d" and c: "confirm_reference intent now d = Inr (d1, res)"
  shows "\<exists>r1 s. r1 \<in> set (t_reservations d1) \<and> mr_status r1 = RsCompleted
    \<and> mr_reservation_id r1 = st_reservation_id (in_staged intent) \<and> mr_result_json r1 = Some res
    \<and> mr_intent_action r1 = Some MARK_REFERENCED \<and> staged_of r1 = Inr (in_staged intent)
    \<and> in_action intent = MARK_REFERENCED \<and> lock_owned_session (mr_owner_id r1) (mr_session_id r1) d = Inr s"
proof -
  obtain r s where r: "r \<in> set (t_reservations d)" "mr_reservation_id r = st_reservation_id (in_staged intent)"
    and rid: "reservation_by_id (st_reservation_id (in_staged intent)) d = Some r"
    and g: "mr_intent_action r = Some MARK_REFERENCED" "staged_of r = Inr (in_staged intent)"
      "in_action intent = MARK_REFERENCED" "lock_owned_session (mr_owner_id r) (mr_session_id r) d = Inr s"
    using c by (auto simp: confirm_reference_def andthen_Inr_iff dest: reservation_by_id_Some
        split: option.splits if_splits)
  show ?thesis
  proof (cases "mr_status r = RsCompleted")
    case True
    then have "d1 = d" "mr_result_json r = Some res"
      using c rid by (auto simp: confirm_reference_def andthen_Inr_iff result_of_def split: if_splits option.splits)
    then show ?thesis using r g True by blast
  next
    case False
    then obtain a' r2 where cr: "complete_reservation Adopted a' now r (save_artifact a' d) = Inr (r2, d1)"
      and rr: "mr_result_json r2 = Some res"
      using c rid
      by (auto simp: confirm_reference_def andthen_Inr_iff result_of_def split: if_splits option.splits)
    from cr False obtain new where
      r2: "r2 = r\<lparr>mr_status := RsCompleted, mr_active := None, mr_updated_at := now, mr_completion_mode := Some Adopted\<rparr>"
      and save: "save_reservation r2 (save_artifact a' d\<lparr>t_evidence := t_evidence (save_artifact a' d) @ new\<rparr>) = Inr d1"
      by (rule complete_reservation_Inr)
    have id: "mr_reservation_id r2 = mr_reservation_id r" by (simp add: r2)
    have "r2 \<in> set (t_reservations d1)"
      by (rule save_reservation_split[OF _ _ id save])
        (use media_invD(2)[OF inv] r(1) in \<open>simp_all add: save_artifact_def\<close>)
    then show ?thesis using r g rr by (intro exI[of _ r2] exI[of _ s]) (simp add: r2)
  qed
qed

section \<open>Sessions are untouched\<close>

lemma save_sessions: "save_reservation r d = Inr d' \<Longrightarrow> t_sessions d' = t_sessions d"
  by (auto simp: save_reservation_def split: if_splits)

lemma complete_sessions: "complete_reservation m a now r d = Inr (r', d') \<Longrightarrow> t_sessions d' = t_sessions d"
  by (auto simp: complete_reservation_def andthen_Inr_iff Let_def insert_evidence_def dest!: save_sessions split: if_splits)

lemma settle_sessions: "settle a act q i now r d = Inr (d', out) \<Longrightarrow> t_sessions d' = t_sessions d"
  by (auto simp: settle_def Let_def andthen_Inr_iff dest: save_sessions complete_sessions split: if_splits)

lemma replay_sessions: "replay_locked r now d = Inr (d', out) \<Longrightarrow> t_sessions d' = t_sessions d"
  by (auto simp: replay_locked_def require_artifact_def andthen_Inr_iff dest: complete_sessions
      split: reservation_status.splits option.splits if_splits)

lemma media_step_sessions:
  assumes "media_step repo d d'"
  shows "t_sessions d' = t_sessions d"
  using assms
proof (cases rule: media_step.cases)
  case (step_reserve q i m now lease)
  then show ?thesis
    by (cases rule: reserve_Inr) (auto simp: insert_reservation_Inr expire_reservations_eq)
next
  case (step_replay own sid k fp now out)
  then show ?thesis
    by (auto simp: find_idempotent_outcome_def andthen_Inr_iff dest: replay_sessions split: option.splits)
next
  case (step_finalize q i late now out)
  from step_finalize(1) show ?thesis
    by (cases rule: finalize_media_Inr)
      (auto simp: replay_finalize_def andthen_Inr_iff insert_artifact_Inr
        dest: settle_sessions replay_sessions split: option.splits if_splits)
next
  case (step_confirm intent now res)
  then show ?thesis
    by (auto simp: confirm_reference_def andthen_Inr_iff save_artifact_def dest!: complete_sessions
        split: if_splits option.splits)
next
  case (step_reject lease reason now)
  then show ?thesis
    by (auto simp: reject_def andthen_Inr_iff dest: save_sessions split: if_splits option.splits)
qed

lemma media_steps_sessions: "(media_step repo)\<^sup>*\<^sup>* d d' \<Longrightarrow> t_sessions d' = t_sessions d"
  by (induction rule: rtranclp_induct) (simp_all add: media_step_sessions)

lemma lock_same: "t_sessions d' = t_sessions d \<Longrightarrow> lock_owned_session o' s d' = lock_owned_session o' s d"
  by (simp add: lock_owned_session_def find_session_def)

section \<open>A sample run\<close>

definition sample_media_repo :: media_repo where
  "sample_media_repo = \<lparr>mt_max_items = 4, mt_max_distinct_bytes = 20971520, mt_lease_seconds = 900\<rparr>"

definition sample_request :: media_reservation_request where
  "sample_request = \<lparr>rq_owner_id = lit ''u1'', rq_session_id = lit ''s1'',
     rq_idempotency_key = lit ''k1'', rq_fingerprint = lit ''f1''\<rparr>"

definition sample_res1 :: reservation_row where
  "sample_res1 = new_reservation sample_media_repo sample_request (lit ''res_1'') (lit ''media_1'') 0 0"

definition sample_finalize :: finalize_request where
  "sample_finalize = \<lparr>fr_lease = lease_of_row sample_res1, fr_staged_media_item_id = lit ''media_1'',
     fr_opaque_object_key = lit ''obj'', fr_manifest_id = lit ''man'', fr_media_type = lit ''image/png'',
     fr_normalized_sha256 = lit ''aa'', fr_normalized_byte_size = 1000,
     fr_learner_explanation = lit ''x'', fr_attributes = []\<rparr>"

definition sample_artifact :: artifact_row where
  "sample_artifact = candidate_artifact sample_res1 sample_finalize 1"

definition sample_res2 :: reservation_row where
  "sample_res2 = store_pending_facts sample_artifact sample_finalize (lit ''ev_1'') sample_res1
     \<lparr>mr_intent_action := Some MARK_REFERENCED, mr_status := RsPendingReference, mr_active := Some True,
      mr_updated_at := 1\<rparr>"

definition sample_result :: ingested_result where
  "sample_result = pending_result sample_artifact sample_finalize (lit ''ev_1'')"

definition sample_outcome :: finalize_outcome where
  "sample_outcome = \<lparr>fo_result = sample_result,
     fo_intent = \<lparr>in_staged = \<lparr>st_media_item_id = lit ''media_1'', st_reservation_id = lit ''res_1'',
       st_opaque_object_key = lit ''obj'', st_manifest_id = lit ''man''\<rparr>, in_action = MARK_REFERENCED\<rparr>,
     fo_evidence_visible = False\<rparr>"

definition sample_res3 :: reservation_row where
  "sample_res3 = sample_res2\<lparr>mr_status := RsCompleted, mr_active := None, mr_updated_at := 2,
     mr_completion_mode := Some Adopted\<rparr>"

definition media_db0 :: db where
  "media_db0 = empty_db\<lparr>t_sessions := [sample_session]\<rparr>"

definition media_db1 :: db where
  "media_db1 = media_db0\<lparr>t_reservations := [sample_res1]\<rparr>"

definition media_db2 :: db where
  "media_db2 = media_db0\<lparr>t_reservations := [sample_res2], t_artifacts := [sample_artifact]\<rparr>"

definition media_db3 :: db where
  "media_db3 = media_db0\<lparr>t_reservations := [sample_res3],
     t_artifacts := [sample_artifact\<lparr>ma_state := ArReferenced\<rparr>],
     t_evidence := [evidence_of_result sample_result sample_res3 sample_artifact 2]\<rparr>"

lemma sample_reserved:
  "reserve sample_media_repo sample_request (lit ''res_1'') (lit ''media_1'') 0 media_db0
     = Inr (media_db1, lease_of_row sample_res1)"
  by code_simp

lemma sample_finalized:
  "finalize_media sample_media_repo sample_finalize (lit ''ev_1'') [] 1 media_db1 = Inr (media_db2, sample_outcome)"
  by code_simp

lemma sample_confirmed:
  "confirm_reference (fo_intent sample_outcome) 2 media_db2 = Inr (media_db3, sample_result)"
  by code_simp

lemma sample_media_steps:
  "media_step sample_media_repo media_db0 media_db1" "media_step sample_media_repo media_db1 media_db2"
  "media_step sample_media_repo media_db2 media_db3"
proof -
  have "artifacts_ok (t_artifacts media_db1 @ [])"
    by (simp add: media_db1_def media_db0_def empty_db_def artifacts_ok_def unique_key_def)
  then show "media_step sample_media_repo media_db1 media_db2"
    by (rule step_finalize[OF sample_finalized])
qed (rule step_reserve[OF sample_reserved], rule step_confirm[OF sample_confirmed])

lemma sample_media_rt:
  "(media_step sample_media_repo)\<^sup>*\<^sup>* media_db1 media_db2" "(media_step sample_media_repo)\<^sup>*\<^sup>* media_db2 media_db3"
  using sample_media_steps by blast+

lemma media_reachable_step: "media_reachable repo d \<Longrightarrow> media_step repo d d' \<Longrightarrow> media_reachable repo d'"
  unfolding media_reachable_def by (meson rtranclp.rtrancl_into_rtrancl)

lemma sample_media_reachable:
  "media_reachable sample_media_repo media_db0" "media_reachable sample_media_repo media_db1"
  "media_reachable sample_media_repo media_db2" "media_reachable sample_media_repo media_db3"
proof -
  show r0: "media_reachable sample_media_repo media_db0"
    unfolding media_reachable_def by (rule exI[of _ media_db0]) (simp add: media_db0_def empty_db_def)
  show r1: "media_reachable sample_media_repo media_db1"
    using media_reachable_step[OF r0 sample_media_steps(1)] .
  show r2: "media_reachable sample_media_repo media_db2"
    using media_reachable_step[OF r1 sample_media_steps(2)] .
  show "media_reachable sample_media_repo media_db3"
    using media_reachable_step[OF r2 sample_media_steps(3)] .
qed

lemma sample_media_repo_nonneg: "0 \<le> mt_max_distinct_bytes sample_media_repo"
  by (simp add: sample_media_repo_def)

section \<open>Properties\<close>

text \<open>
  C19. The media quotas hold in every reachable database, whatever the interleaving of operations
  and of lost insertion races: a session never has more visible media items and open reservations
  than \<open>max_items\<close>, open reservations of a session occupy pairwise different slots below
  \<open>max_items\<close>, and the distinct artifacts a session uses never exceed \<open>max_distinct_bytes\<close>.
\<close>

theorem media_quota_invariant:
  assumes "media_reachable repo d" and "0 \<le> mt_max_distinct_bytes repo"
  shows "evidence_count sid d + pending_count sid d \<le> mt_max_items repo
    \<and> bytes_of (artifact_ids sid d) (t_artifacts d) \<le> mt_max_distinct_bytes repo
    \<and> (\<forall>r \<in> set (t_reservations d). mr_slot r < mt_max_items repo)
    \<and> (\<forall>r \<in> set (t_reservations d). \<forall>q \<in> set (t_reservations d). occupied r \<and> occupied q
         \<and> slot_of_session r = slot_of_session q \<longrightarrow> r = q)"
proof -
  note I = media_invD[OF media_reachable_inv[OF assms]]
  have act: "mr_active r = Some True \<longleftrightarrow> occupied r" if "r \<in> set (t_reservations d)" for r
    using reservation_status_checks(1) I(1)[OF that] by (simp add: res_ok_def)
  have "r = q" if "r \<in> set (t_reservations d)" "q \<in> set (t_reservations d)" "occupied r" "occupied q"
    "slot_of_session r = slot_of_session q" for r q
    by (rule unique_keyD[OF I(4)]) (use that act in simp_all)
  then show ?thesis using I(1,8,9) by (auto simp: res_ok_def)
qed

lemma media_quota_invariant_witness: "evidence_count (lit ''s1'') media_db3 + pending_count (lit ''s1'') media_db3 \<le> 4"
  using media_quota_invariant[OF sample_media_reachable(4) sample_media_repo_nonneg]
  by (simp add: sample_media_repo_def)

text \<open>
  C20. No evidence before its object is referenced: in every reachable database the artifact that an evidence row names is
  referenced, and the row was stored by a completed reservation of its session, which names the same evidence and artifact and
  whose owner owns the artifact. A pending or completed reservation agrees with its artifact on owner, digest and size, the
  artifact of a completed one is referenced, and there is one artifact per owner and digest.
\<close>

theorem evidence_is_referenced:
  assumes "media_reachable repo d" and "0 \<le> mt_max_distinct_bytes repo"
  shows "(\<forall>e \<in> set (t_evidence d). \<forall>i. ev_artifact_id e = Some i \<longrightarrow>
        (\<exists>a \<in> set (t_artifacts d). \<exists>r \<in> set (t_reservations d). ma_media_item_id a = i \<and> ma_state a = ArReferenced
           \<and> mr_status r = RsCompleted \<and> mr_session_id r = ev_session_id e \<and> mr_owner_id r = ma_owner_id a
           \<and> mr_evidence_id r = Some (ev_evidence_id e) \<and> mr_canonical_artifact_id r = Some i))
    \<and> (\<forall>r \<in> set (t_reservations d). mr_status r \<in> {RsPendingReference, RsCompleted} \<longrightarrow>
        (\<exists>a \<in> set (t_artifacts d). mr_canonical_artifact_id r = Some (ma_media_item_id a)
           \<and> ma_owner_id a = mr_owner_id r \<and> mr_normalized_sha256 r = Some (ma_normalized_sha256 a)
           \<and> mr_normalized_byte_size r = Some (ma_normalized_byte_size a)
           \<and> (mr_status r = RsCompleted \<longrightarrow> ma_state a = ArReferenced)))
    \<and> (\<forall>a \<in> set (t_artifacts d). \<forall>b \<in> set (t_artifacts d). ma_owner_id a = ma_owner_id b
         \<and> ma_normalized_sha256 a = ma_normalized_sha256 b \<longrightarrow> a = b)"
proof -
  note I = media_invD[OF media_reachable_inv[OF assms]]
  have one: "a = b" if "a \<in> set (t_artifacts d)" "b \<in> set (t_artifacts d)" "ma_owner_id a = ma_owner_id b"
    "ma_normalized_sha256 a = ma_normalized_sha256 b" for a b
    using unique_keyD[of "\<lambda>a. (ma_owner_id a, ma_normalized_sha256 a)" "t_artifacts d" a b] I(5) that
    by (simp add: artifacts_ok_def)
  have owned: "\<exists>a \<in> set (t_artifacts d). \<exists>r \<in> set (t_reservations d). ma_media_item_id a = i \<and> ma_state a = ArReferenced
      \<and> mr_status r = RsCompleted \<and> mr_session_id r = ev_session_id e \<and> mr_owner_id r = ma_owner_id a
      \<and> mr_evidence_id r = Some (ev_evidence_id e) \<and> mr_canonical_artifact_id r = Some i"
    if e: "e \<in> set (t_evidence d)" "ev_artifact_id e = Some i" for e i
  proof -
    obtain r where r: "r \<in> set (t_reservations d)" "mr_status r = RsCompleted" "mr_session_id r = ev_session_id e"
        "mr_evidence_id r = Some (ev_evidence_id e)" "mr_canonical_artifact_id r = Some i"
      using I(10)[OF e(1)] e(2) by (auto simp: completed_by_def)
    then obtain a where "a \<in> set (t_artifacts d)" "facts_in a r" "ma_state a = ArReferenced"
      using I(1)[OF r(1)] by (auto simp: res_ok_def backed_def)
    then show ?thesis using r by (intro bexI[of _ a] bexI[of _ r]) (auto simp: facts_in_def)
  qed
  show ?thesis using one owned I(1) unfolding res_ok_def backed_def facts_in_def by blast
qed

lemma evidence_is_referenced_witness: "\<exists>a \<in> set (t_artifacts media_db3). ma_state a = ArReferenced"
proof -
  have "evidence_of_result sample_result sample_res3 sample_artifact 2 \<in> set (t_evidence media_db3)"
    by (simp add: media_db3_def)
  then show ?thesis
    using evidence_is_referenced[OF sample_media_reachable(4) sample_media_repo_nonneg]
    by (fastforce simp: evidence_of_result_def)
qed

text \<open>
  C21. A reservation is never deleted and its lease never changes. Its status only moves forward
  (active, then pending, then completed; or closed): a terminal row never changes again, and once
  facts are stored the artifact, evidence id, staged object, result and intent are final.
\<close>

theorem reservation_history:
  assumes "media_reachable repo d" and "0 \<le> mt_max_distinct_bytes repo"
    and "(media_step repo)\<^sup>*\<^sup>* d d'" and "r \<in> set (t_reservations d)"
  shows "\<exists>r' \<in> set (t_reservations d'). lease_of_row r' = lease_of_row r
    \<and> (mr_status r' = RsActive \<longrightarrow> mr_status r = RsActive)
    \<and> (mr_status r \<in> {RsCompleted, RsRejected, RsExpired} \<longrightarrow> r' = r)
    \<and> (mr_status r = RsPendingReference \<longrightarrow> mr_status r' \<in> {RsPendingReference, RsCompleted} \<and> same_facts r r')"
proof -
  obtain r' where "r' \<in> set (t_reservations d')" "res_evolves r r'"
    using media_steps_evolve[OF assms(3) media_reachable_inv[OF assms(1,2)]] assms(4)
    unfolding rows_evolve_def by blast
  then show ?thesis
    by (intro bexI[of _ r']) (auto simp: res_evolves_def same_facts_def)
qed

lemma reservation_history_witness:
  "\<exists>r' \<in> set (t_reservations media_db3). mr_status r' \<in> {RsPendingReference, RsCompleted} \<and> same_facts sample_res2 r'"
proof -
  have "sample_res2 \<in> set (t_reservations media_db2)" "mr_status sample_res2 = RsPendingReference"
    by (simp_all add: media_db2_def sample_res2_def)
  then show ?thesis
    using reservation_history[OF sample_media_reachable(3) sample_media_repo_nonneg
        sample_media_rt(2), of sample_res2] by blast
qed

text \<open>
  C26. \<open>reserve\<close> is idempotent per owner, session and key: after a first success, whatever
  follows, a repeated \<open>reserve\<close> never creates a second reservation; if it succeeds its
  fingerprint is the first one's and it returns the same lease.
\<close>

theorem reserve_idempotent:
  assumes "media_reachable repo d" and "0 \<le> mt_max_distinct_bytes repo"
    and first: "reserve repo q i m now d = Inr (d1, lease)" and steps: "(media_step repo)\<^sup>*\<^sup>* d1 d2"
    and same: "rq_owner_id q' = rq_owner_id q" "rq_session_id q' = rq_session_id q"
      "rq_idempotency_key q' = rq_idempotency_key q"
    and again: "reserve repo q' i' m' now' d2 = Inr (d3, lease')"
  shows "lease' = lease \<and> rq_fingerprint q' = rq_fingerprint q
    \<and> length (t_reservations d3) = length (t_reservations d2)"
proof -
  note inv = media_reachable_inv[OF assms(1,2)]
  note inv1 = reserve_inv[OF inv first]
  note inv3 = reserve_inv[OF media_sys.steps_inv[OF steps inv1] again]
  obtain r where r: "r \<in> set (t_reservations d1)" "lease = lease_of_row r"
    "key_of r = (rq_owner_id q, rq_session_id q, rq_idempotency_key q)" "mr_fingerprint r = rq_fingerprint q"
    using reserve_row[OF first] by blast
  obtain r' where r': "r' \<in> set (t_reservations d3)" "res_evolves r r'"
    using media_steps_evolve[OF rtranclp.rtrancl_into_rtrancl[OF steps step_reserve[OF again]] inv1] r(1)
    unfolding rows_evolve_def by blast
  have key': "key_of r' = key_of r" and lease_r': "lease_of_row r' = lease_of_row r"
    using r'(2) by (simp_all add: res_evolves_def lease_of_row_def key_of_def)
  then have fp: "mr_fingerprint r' = mr_fingerprint r" by (simp add: lease_of_row_def)
  from again show ?thesis
  proof (cases rule: reserve_Inr)
    case (replay x)
    have "x = r'"
      using unique_keyD[OF media_invD(3)[OF inv3] replay(2) r'(1)] replay(5) r(3) key' same by simp
    then have "lease' = lease" "rq_fingerprint q' = rq_fingerprint q"
      using replay(4,6) lease_r' fp r(2,4) by simp_all
    moreover have "length (t_reservations d3) = length (t_reservations d2)"
      by (simp add: replay(1) expire_reservations_eq)
    ultimately show ?thesis by blast
  next
    case (fresh slot x)
    obtain r2 where "r2 \<in> set (t_reservations d2)" "res_evolves r r2"
      using media_steps_evolve[OF steps inv1] r(1) unfolding rows_evolve_def by blast
    then obtain r3 where "r3 \<in> set (t_reservations (expire_reservations (rq_owner_id q') (rq_session_id q') now' d2))"
      "res_evolves r r3"
      using expire_rows_evolve res_evolves_trans unfolding rows_evolve_def by metis
    then have "key_of x \<in> key_of ` set (t_reservations (expire_reservations (rq_owner_id q') (rq_session_id q') now' d2))"
      using r(3) same
      by (auto simp: fresh(1) new_reservation_def key_of_def res_evolves_def lease_of_row_def intro!: image_eqI[of _ _ r3])
    then show ?thesis using fresh(2) by (simp add: insert_reservation_Inr)
  qed
qed

definition sample_again :: "exc + db \<times> media_lease" where
  "sample_again = reserve sample_media_repo sample_request (lit ''res_2'') (lit ''media_2'') 5 media_db2"

lemma sample_again_ok: "\<not> isl sample_again"
  by code_simp

lemma reserve_idempotent_witness:
  "snd (projr sample_again) = lease_of_row sample_res1 \<and> length (t_reservations (fst (projr sample_again))) = 1"
proof -
  have eq: "reserve sample_media_repo sample_request (lit ''res_2'') (lit ''media_2'') 5 media_db2
      = Inr (fst (projr sample_again), snd (projr sample_again))"
    using sample_again_ok unfolding sample_again_def
    by (cases "reserve sample_media_repo sample_request (lit ''res_2'') (lit ''media_2'') 5 media_db2") simp_all
  have "length (t_reservations media_db2) = 1" by (simp add: media_db2_def)
  then show ?thesis
    using reserve_idempotent[OF sample_media_reachable(1) sample_media_repo_nonneg sample_reserved
        sample_media_rt(1) refl refl refl eq] by argo
qed

text \<open>
  C22. A finalisation is never lost: once \<open>finalize_media\<close> has returned an outcome, whatever
  follows, asking for the outcome of the same key and fingerprint succeeds and carries the same
  result, and \<open>finalize_media\<close> itself only ever answers with the stored result.
\<close>

theorem finalized_outcome_replayable:
  assumes "media_reachable repo d" and "0 \<le> mt_max_distinct_bytes repo"
    and fin: "finalize_media repo q i late now d = Inr (d1, out)" and late: "artifacts_ok (t_artifacts d @ late)"
    and steps: "(media_step repo)\<^sup>*\<^sup>* d1 d2"
  shows "\<exists>d3 out'. find_idempotent_outcome (ml_owner_id (fr_lease q)) (ml_session_id (fr_lease q))
      (ml_idempotency_key (fr_lease q)) (ml_fingerprint (fr_lease q)) now' d2 = Inr (d3, Some out')
    \<and> fo_result out' = fo_result out"
proof -
  note inv = media_reachable_inv[OF assms(1,2)]
  note inv1 = finalize_media_inv[OF inv late fin] and inv2 = media_sys.steps_inv[OF steps finalize_media_inv[OF inv late fin]]
  obtain r1 where r1: "r1 \<in> set (t_reservations d1)" "lease_of_row r1 = fr_lease q"
    "mr_status r1 \<in> {RsPendingReference, RsCompleted}" "mr_result_json r1 = Some (fo_result out)"
    using finalized_row[OF inv fin late] by blast
  obtain r2 where r2: "r2 \<in> set (t_reservations d2)" "res_evolves r1 r2"
    using media_steps_evolve[OF steps inv1] r1(1) unfolding rows_evolve_def by blast
  have lease: "lease_of_row r2 = fr_lease q" and st: "mr_status r2 \<in> {RsPendingReference, RsCompleted}"
    and res: "mr_result_json r2 = Some (fo_result out)"
    using r2(2) r1(2-4) by (auto simp: res_evolves_def same_facts_def)
  have fields: "mr_owner_id r2 = ml_owner_id (fr_lease q)" "mr_session_id r2 = ml_session_id (fr_lease q)"
    "mr_idempotency_key r2 = ml_idempotency_key (fr_lease q)" "mr_fingerprint r2 = ml_fingerprint (fr_lease q)"
    by (simp_all add: lease[symmetric] lease_of_row_def)
  have find: "find_reservation (mr_owner_id r2) (mr_session_id r2) (mr_idempotency_key r2) d2 = Some r2"
    unfolding find_reservation_def
    by (rule find_unique[OF media_invD(3)[OF inv2] r2(1)]) (simp_all add: key_of_def)
  obtain s where "lock_owned_session (mr_owner_id r2) (mr_session_id r2) d = Inr s"
    using fin by (auto simp: finalize_media_def andthen_Inr_iff fields)
  then have lock: "lock_owned_session (mr_owner_id r2) (mr_session_id r2) d2 = Inr s"
    using lock_same[of d2 d] media_steps_sessions[OF steps] media_step_sessions[OF step_finalize[OF fin late]] by simp
  obtain d3 out' where "replay_locked r2 now' d2 = Inr (d3, Some out')" "mr_result_json r2 = Some (fo_result out')"
    using replay_locked_succeeds[OF inv2 r2(1) st] by blast
  then show ?thesis
    using lock find res by (simp add: find_idempotent_outcome_def check_fingerprint_def flip: fields)
qed

lemma finalized_outcome_replayable_witness:
  "\<exists>d3 out'. find_idempotent_outcome (lit ''u1'') (lit ''s1'') (lit ''k1'') (lit ''f1'') 9 media_db3 = Inr (d3, Some out')
    \<and> fo_result out' = sample_result"
proof -
  have "artifacts_ok (t_artifacts media_db1 @ [])"
    by (simp add: media_db1_def media_db0_def empty_db_def artifacts_ok_def unique_key_def)
  then show ?thesis
    using finalized_outcome_replayable[OF sample_media_reachable(2) sample_media_repo_nonneg sample_finalized _ sample_media_rt(2)]
    by (simp add: sample_finalize_def lease_of_row_def sample_res1_def new_reservation_def sample_request_def sample_outcome_def)
qed

text \<open>
  Confirming a reference is idempotent: after a success, whatever follows, confirming the same
  intent again succeeds, changes nothing and returns the same result.
\<close>

theorem confirm_idempotent:
  assumes "media_reachable repo d" and "0 \<le> mt_max_distinct_bytes repo"
    and c: "confirm_reference intent now d = Inr (d1, res)" and steps: "(media_step repo)\<^sup>*\<^sup>* d1 d2"
  shows "confirm_reference intent now' d2 = Inr (d2, res)"
proof -
  note inv = media_reachable_inv[OF assms(1,2)]
  note inv1 = confirm_inv[OF inv c] and inv2 = media_sys.steps_inv[OF steps confirm_inv[OF inv c]]
  obtain r1 s where r1: "r1 \<in> set (t_reservations d1)" "mr_status r1 = RsCompleted"
    "mr_reservation_id r1 = st_reservation_id (in_staged intent)" "mr_result_json r1 = Some res"
    "mr_intent_action r1 = Some MARK_REFERENCED" "staged_of r1 = Inr (in_staged intent)"
    "in_action intent = MARK_REFERENCED" "lock_owned_session (mr_owner_id r1) (mr_session_id r1) d = Inr s"
    using confirmed_row[OF inv c] by blast
  obtain r2 where r2: "r2 \<in> set (t_reservations d2)" "res_evolves r1 r2"
    using media_steps_evolve[OF steps inv1] r1(1) unfolding rows_evolve_def by blast
  then have eq: "r2 = r1" using r1(2) by (simp add: res_evolves_def)
  have find: "reservation_by_id (st_reservation_id (in_staged intent)) d2 = Some r1"
    unfolding reservation_by_id_def
    by (rule find_unique[OF media_invD(2)[OF inv2] r2(1)[unfolded eq]]) (simp_all add: r1(3))
  have "lock_owned_session (mr_owner_id r1) (mr_session_id r1) d2 = Inr s"
    using r1(8) lock_same[of d2 d] media_steps_sessions[OF steps] media_step_sessions[OF step_confirm[OF c]] by simp
  then show ?thesis
    using find r1 by (simp add: confirm_reference_def result_of_def)
qed

lemma confirm_idempotent_witness:
  "confirm_reference (fo_intent sample_outcome) 7 media_db3 = Inr (media_db3, sample_result)"
  by (rule confirm_idempotent[OF sample_media_reachable(3) sample_media_repo_nonneg sample_confirmed rtranclp.rtrancl_refl])

text \<open>
  C23. A reservation is refused only for a reason: for a session of the owner, a fresh key and fresh
  identifiers, \<open>reserve\<close> succeeds whenever the quota (after expiry) has room, with the lowest
  slot no open reservation of the session uses, and otherwise raises the quota error.
\<close>

theorem reserve_complete:
  assumes "media_reachable repo d0" and "0 \<le> mt_max_distinct_bytes repo"
    and "lock_owned_session (rq_owner_id q) (rq_session_id q) d0 = Inr s"
    and d: "d = expire_reservations (rq_owner_id q) (rq_session_id q) now d0"
    and "find_reservation (rq_owner_id q) (rq_session_id q) (rq_idempotency_key q) d0 = None"
    and "i \<notin> mr_reservation_id ` set (t_reservations d0)"
  shows "(if evidence_count (rq_session_id q) d + pending_count (rq_session_id q) d + 1 \<le> mt_max_items repo
     then \<exists>slot. reserve repo q i m now d0 = Inr (d\<lparr>t_reservations := t_reservations d @
              [new_reservation repo q i m slot now]\<rparr>, lease_of_row (new_reservation repo q i m slot now))
          \<and> slot < mt_max_items repo
          \<and> (\<forall>r \<in> set (t_reservations d). mr_session_id r = rq_session_id q \<and> occupied r \<longrightarrow> mr_slot r \<noteq> slot)
          \<and> (\<forall>n < slot. \<exists>r \<in> set (t_reservations d). mr_session_id r = rq_session_id q
               \<and> occupied r \<and> mr_slot r = n)
     else reserve repo q i m now d0 = Inl (MediaQuotaExceededError ''media item quota exceeded''))"
proof -
  have keys: "map key_of (t_reservations d) = map key_of (t_reservations d0)"
    "map mr_reservation_id (t_reservations d) = map mr_reservation_id (t_reservations d0)"
    by (simp_all add: d expire_reservations_eq tupdate_def expired_row_def key_of_def)
  have "(rq_owner_id q, rq_session_id q, rq_idempotency_key q) \<notin> set (map key_of (t_reservations d0))"
    using assms(5) by (auto simp: find_reservation_def find_None_iff key_of_def)
  then have nokey: "(rq_owner_id q, rq_session_id q, rq_idempotency_key q) \<notin> key_of ` set (t_reservations d)"
    using keys(1) by (metis list.set_map)
  then have none: "find_reservation (rq_owner_id q) (rq_session_id q) (rq_idempotency_key q) d = None"
    by (force simp: find_reservation_def find_None_iff key_of_def)
  have noid: "i \<notin> mr_reservation_id ` set (t_reservations d)"
    using assms(6) keys(2) by (metis list.set_map)
  show ?thesis
  proof (cases "evidence_count (rq_session_id q) d + pending_count (rq_session_id q) d + 1 \<le> mt_max_items repo")
    case True
    then obtain n where n: "free_slot repo (rq_session_id q) d = Some n"
      using free_slot_exists[of "rq_session_id q" d repo] by auto
    let ?r = "new_reservation repo q i m n now"
    have inv: "media_inv repo d"
      unfolding d by (rule expire_inv[OF media_reachable_inv[OF assms(1,2)]])
    have act: "occupied x" if "x \<in> set (t_reservations d)" "mr_active x = Some True" for x
      using media_invD(1)[OF inv that(1)] reservation_status_checks(1)[of x] that(2) by (simp add: res_ok_def)
    have "insert_reservation ?r d = Inr (d\<lparr>t_reservations := t_reservations d @ [?r]\<rparr>)"
      using nokey noid free_slot_Some[OF n] act
      by (auto simp: insert_reservation_Inr new_reservation_def key_of_def slot_of_session_def reservation_checks_def
          reservation_payload_matrix_def durable_facts_null_def)
    then have res: "reserve repo q i m now d0 = Inr (d\<lparr>t_reservations := t_reservations d @ [?r]\<rparr>, lease_of_row ?r)"
      using True assms(3) none n by (simp add: reserve_def d[symmetric] Let_def)
    show ?thesis using res free_slot_Some[OF n] free_slot_lowest[OF n] True by auto
  next
    case False
    then show ?thesis using assms(3) none by (simp add: reserve_def d[symmetric] Let_def)
  qed
qed

lemma reserve_complete_witness:
  "\<exists>d' lease. reserve sample_media_repo (sample_request\<lparr>rq_idempotency_key := lit ''k2''\<rparr>) (lit ''res_9'')
     (lit ''media_9'') 0 media_db0 = Inr (d', lease)"
  using reserve_complete[OF sample_media_reachable(1) sample_media_repo_nonneg _ refl,
      of "sample_request\<lparr>rq_idempotency_key := lit ''k2''\<rparr>" sample_session "lit ''res_9''" 0 "lit ''media_9''"]
  by (auto simp: media_db0_def empty_db_def find_reservation_def lock_owned_session_def find_session_def
      sample_session_def sample_request_def evidence_count_def pending_count_def rowcount_def
      expire_reservations_eq sample_media_repo_def split: if_splits)

end
