(* ===== verification/Scoring.thy ===== *)
theory Scoring
  imports Schema "HOL-Library.Multiset"
begin

text \<open>
  The deterministic review of \<^verbatim>\<open>domain/scoring.py\<close> with the types of \<^verbatim>\<open>domain/review.py\<close>,
  \<^verbatim>\<open>runtime/evidence.py\<close> and \<^verbatim>\<open>runtime/observations.py\<close>. The Unicode tables behind \<open>str.lower\<close>,
  \<open>str.casefold\<close>, \<open>unicodedata.normalize\<close>, \<open>str.isalnum\<close> and the regular expression classes are a
  parameter, a record of functions.

  Ratios are compared by cross multiplication. A quotient of two lengths below \<open>2 ^ 50\<close> compares
  with the doubles \<open>0.8\<close> and \<open>0.2\<close> as the exact rationals do: rounding is monotone, and two
  distinct such quotients are further apart than one unit in the last place.
\<close>

section \<open>Evidence, observations and results\<close>

record learning_goal =
  lg_domain :: str
  lg_title :: str
  lg_goal :: str
  lg_expectedOutput :: "str option"
  lg_plannedMinutes :: "int option"

record evidence =
  ei_evidenceId :: str
  ei_evidenceType :: str
  ei_contentHash :: str
  ei_textContent :: "str option"
  ei_sourceUrl :: "str option"
  ei_metadata :: "(str \<times> json) list"

datatype observation_status = Obs_Success | Obs_Failed | Obs_Inconclusive

record observation =
  ob_toolName :: str
  ob_status :: observation_status
  ob_sourceEventId :: "str option"
  ob_facts :: "(str \<times> json) list"
  ob_sourceRefs :: "str list"
  ob_error :: "str option"

datatype review_status =
    VerifiedLearning | LikelyLearning | WeakEvidence | NeedsMoreVerification
  | InsufficientEvidence | ContradictoryEvidence

datatype severity = Info | Warning | Error_Severity

record finding =
  fi_severity :: severity
  fi_message :: string
  fi_evidenceIds :: "str list"
  fi_observationRefs :: "str list"

record dimensions =
  di_goalClarity :: int
  di_evidenceSpecificity :: int
  di_goalAlignment :: int
  di_understanding :: int
  di_output :: int
  di_reflection :: int

record review_result =
  re_status :: review_status
  re_score :: int
  re_confidence :: rat
  re_dimensions :: dimensions
  re_findings :: "finding list"
  re_summary :: string
  re_nextStep :: string

section \<open>Unicode\<close>

record unicode =
  u_lower :: "str \<Rightarrow> str"
  u_casefold :: "str \<Rightarrow> str"
  u_nfkc :: "str \<Rightarrow> str"
  u_isalnum :: "nat \<Rightarrow> bool"
  u_word :: "nat \<Rightarrow> bool"
  u_letter :: "nat \<Rightarrow> bool"

text \<open>\<open>_CJK_CHARACTER_RE\<close>, a class of fixed ranges.\<close>

definition is_cjk :: "nat \<Rightarrow> bool" where
  "is_cjk c \<longleftrightarrow> (0x3400 \<le> c \<and> c \<le> 0x4dbf) \<or> (0x4e00 \<le> c \<and> c \<le> 0x9fff) \<or> (0xf900 \<le> c \<and> c \<le> 0xfaff)
     \<or> (0x3040 \<le> c \<and> c \<le> 0x30ff) \<or> (0xac00 \<le> c \<and> c \<le> 0xd7af)"

text \<open>The maximal runs of characters of a class: what \<open>findall\<close> of a greedy \<open>[...]+\<close> returns.\<close>

fun runs_from :: "(nat \<Rightarrow> bool) \<Rightarrow> str \<Rightarrow> str \<Rightarrow> str list" where
  "runs_from P w [] = (if w = [] then [] else [w])"
| "runs_from P w (c # cs) =
     (if P c then runs_from P (w @ [c]) cs else (if w = [] then [] else [w]) @ runs_from P [] cs)"

text \<open>\<open>phrase in text\<close>.\<close>

fun is_prefix :: "str \<Rightarrow> str \<Rightarrow> bool" where
  "is_prefix [] _ = True"
| "is_prefix (_ # _) [] = False"
| "is_prefix (a # as) (b # bs) = (a = b \<and> is_prefix as bs)"

fun contains :: "str \<Rightarrow> str \<Rightarrow> bool" where
  "contains phrase [] = (phrase = [])"
| "contains phrase (c # cs) = (is_prefix phrase (c # cs) \<or> contains phrase cs)"

definition GENERIC_PHRASES :: "str list" where
  "GENERIC_PHRASES = map lit
     [''learned many things'', ''studied a lot'', ''learned a lot'', ''many things'', ''??'']"

definition GOAL_STOP_WORDS :: "str list" where
  "GOAL_STOP_WORDS = map lit [''about'', ''explain'', ''learn'', ''understand'', ''using'', ''with'']"

section \<open>Text predicates\<close>

definition evidence_text :: "evidence \<Rightarrow> str" where
  "evidence_text e = strip (case ei_textContent e of None \<Rightarrow> [] | Some t \<Rightarrow> t)"

definition lexical_unit_count :: "unicode \<Rightarrow> str \<Rightarrow> nat" where
  "lexical_unit_count U text =
     (let cjk_count = length (filter is_cjk text)
      in if cjk_count = 0 then length (split_ws text)
         else cjk_count + length (runs_from (u_word U) [] (map (\<lambda>c. if is_cjk c then 32 else c) text)))"

definition has_generic_phrase :: "unicode \<Rightarrow> str \<Rightarrow> bool" where
  "has_generic_phrase U text \<longleftrightarrow> list_ex (\<lambda>p. contains p (u_lower U text)) GENERIC_PHRASES"

definition is_generic :: "unicode \<Rightarrow> str \<Rightarrow> bool" where
  "is_generic U text \<longleftrightarrow> lexical_unit_count U text < 9 \<or> has_generic_phrase U text"

definition has_specific_answer :: "unicode \<Rightarrow> str \<Rightarrow> bool" where
  "has_specific_answer U text \<longleftrightarrow> 5 \<le> lexical_unit_count U text \<and> \<not> has_generic_phrase U text"

definition meaningful_terms :: "unicode \<Rightarrow> str \<Rightarrow> str list" where
  "meaningful_terms U text =
     filter (\<lambda>t. t \<notin> set GOAL_STOP_WORDS)
       (filter (\<lambda>t. 4 \<le> length t) (runs_from (u_letter U) [] (u_lower U text)))"

definition normalized_copy_text :: "unicode \<Rightarrow> str \<Rightarrow> str" where
  "normalized_copy_text U text = filter (u_isalnum U) (u_casefold U (u_nfkc U text))"

text \<open>One unit per CJK character, one per run of other alphanumeric characters.\<close>

fun units_from :: "unicode \<Rightarrow> str \<Rightarrow> str \<Rightarrow> str list" where
  "units_from U w [] = (if w = [] then [] else [w])"
| "units_from U w (c # cs) =
     (if is_cjk c then (if w = [] then [] else [w]) @ [c] # units_from U [] cs
      else if u_isalnum U c then units_from U (w @ [c]) cs
      else (if w = [] then [] else [w]) @ units_from U [] cs)"

definition copy_comparison_units :: "unicode \<Rightarrow> str \<Rightarrow> str list" where
  "copy_comparison_units U text = units_from U [] (u_casefold U (u_nfkc U text))"

text \<open>\<open>sum((Counter(xs) & Counter(ys)).values())\<close>: for each key the smaller of its two counts.\<close>

definition shared_count :: "'a list \<Rightarrow> 'a list \<Rightarrow> nat" where
  "shared_count xs ys = sum_list (map (\<lambda>x. min (count_list xs x) (count_list ys x)) (remdups xs))"

definition near_copy_units :: "'a list \<Rightarrow> 'a list \<Rightarrow> bool" where
  "near_copy_units cs ss \<longleftrightarrow>
     (let shared = shared_count cs ss
      in 4 * length ss \<le> 5 * shared
         \<and> 5 * (length cs - shared) \<le> length cs
         \<and> 5 * (length ss - shared) \<le> length ss)"

definition is_near_copy :: "unicode \<Rightarrow> str \<Rightarrow> str \<Rightarrow> bool" where
  "is_near_copy U candidate source \<longleftrightarrow>
     (let c = normalized_copy_text U candidate; s = normalized_copy_text U source
      in if c = [] \<or> s = [] then False
         else if c = s then True
         else let cs = copy_comparison_units U candidate; ss = copy_comparison_units U source
              in if cs = [] \<or> ss = [] then False else near_copy_units cs ss)"

definition goal_text :: "learning_goal \<Rightarrow> str" where
  "goal_text g = lg_title g @ 32 # lg_goal g"

definition restates_goal :: "unicode \<Rightarrow> learning_goal \<Rightarrow> str \<Rightarrow> bool" where
  "restates_goal U g text \<longleftrightarrow> is_near_copy U text (lg_goal g) \<or> is_near_copy U text (goal_text g)"

definition has_novel_information :: "unicode \<Rightarrow> str \<Rightarrow> str \<Rightarrow> bool" where
  "has_novel_information U candidate source \<longleftrightarrow>
     (let cs = copy_comparison_units U candidate; ss = copy_comparison_units U source
      in cs \<noteq> [] \<and> length cs < 5 * (length cs - shared_count cs ss))"

definition has_basic_goal_association :: "unicode \<Rightarrow> learning_goal \<Rightarrow> str \<Rightarrow> bool" where
  "has_basic_goal_association U g text \<longleftrightarrow>
     (set (meaningful_terms U (goal_text g)) \<inter> set (meaningful_terms U text) \<noteq> {}
      \<or> 2 \<le> card (set (filter is_cjk (goal_text g)) \<inter> set (filter is_cjk text)))"

definition answer_adds_limited_support :: "unicode \<Rightarrow> learning_goal \<Rightarrow> str \<Rightarrow> bool" where
  "answer_adds_limited_support U g answer \<longleftrightarrow>
     has_specific_answer U answer \<and> \<not> restates_goal U g answer
     \<and> has_novel_information U answer (goal_text g) \<and> has_basic_goal_association U g answer"

definition is_specific_goal_aligned_text :: "unicode \<Rightarrow> learning_goal \<Rightarrow> evidence \<Rightarrow> bool" where
  "is_specific_goal_aligned_text U g e \<longleftrightarrow>
     \<not> is_generic U (evidence_text e) \<and> has_basic_goal_association U g (evidence_text e)"

section \<open>The score\<close>

definition score_dimensions :: "int \<Rightarrow> int \<Rightarrow> dimensions" where
  "score_dimensions score understanding =
     \<lparr>di_goalClarity = min 15 (max 5 (score div 8)), di_evidenceSpecificity = min 20 (max 0 (score div 4)),
      di_goalAlignment = min 20 (max 0 (score div 5)), di_understanding = min 25 understanding,
      di_output = min 10 (max 0 (score div 10)), di_reflection = min 10 (max 0 (score div 12))\<rparr>"

definition no_evidence_result :: review_result where
  "no_evidence_result =
     \<lparr>re_status = InsufficientEvidence, re_score = 15, re_confidence = 3 / 10,
      re_dimensions = score_dimensions 15 0,
      re_findings = [\<lparr>fi_severity = Warning, fi_message = ''No evidence was submitted.'',
        fi_evidenceIds = [], fi_observationRefs = []\<rparr>],
      re_summary = ''There is not enough learning evidence to review.'',
      re_nextStep = ''Submit concrete notes, outputs, or artifacts from the learning session.''\<rparr>"

definition copied_result :: "bool \<Rightarrow> str list \<Rightarrow> review_result" where
  "copied_result supported copied_ids =
     (let score = (if supported then 50 else 35)
      in \<lparr>re_status = WeakEvidence, re_score = score,
          re_confidence = (if supported then 55 / 100 else 45 / 100),
          re_dimensions = score_dimensions score (if supported then 10 else 4),
          re_findings = [\<lparr>fi_severity = Warning,
            fi_message = ''The submitted text restates the learning goal. A related, specific answer ''
              @ ''can provide limited support, but copied evidence cannot establish learning ''
              @ ''without a related, specific, independent output.'',
            fi_evidenceIds = copied_ids, fi_observationRefs = []\<rparr>],
          re_summary = ''Restating the learning goal is not independent evidence of learning.'',
          re_nextStep = ''Add a concrete explanation, worked example, reflection, or independent output.''\<rparr>)"

definition generic_result :: "str \<Rightarrow> review_result" where
  "generic_result first_id =
     \<lparr>re_status = WeakEvidence, re_score = 35, re_confidence = 45 / 100,
      re_dimensions = score_dimensions 35 4,
      re_findings = [\<lparr>fi_severity = Warning,
        fi_message = ''Evidence is generic and does not show specific concepts or outputs.'',
        fi_evidenceIds = [first_id], fi_observationRefs = []\<rparr>],
      re_summary = ''The submitted text is too broad to establish credible learning.'',
      re_nextStep = ''Add concrete concepts, examples, and explain what changed in your understanding.''\<rparr>"

definition detailed_result :: "bool \<Rightarrow> bool \<Rightarrow> bool \<Rightarrow> str list \<Rightarrow> str list \<Rightarrow> review_result" where
  "detailed_result aligned_text goal_alignment specific_answer ids tools =
     (let score = 45 + (if aligned_text then 12 else 0) + (if goal_alignment then 8 else 0)
            + (if specific_answer then 10 else 0);
          understanding = 8 + (if aligned_text then 6 else 0) + (if goal_alignment then 4 else 0)
            + (if specific_answer then 6 else 0);
          final_score = min score 82
      in \<lparr>re_status = (if 60 \<le> final_score then LikelyLearning else WeakEvidence),
          re_score = final_score,
          re_confidence = (if 60 \<le> final_score then 72 / 100 else 55 / 100),
          re_dimensions = score_dimensions final_score understanding,
          re_findings = [\<lparr>fi_severity = Info,
            fi_message = ''Evidence and learner explanation contain domain-neutral specific details.'',
            fi_evidenceIds = ids, fi_observationRefs = tools\<rparr>],
          re_summary = ''The session shows credible learning evidence with explainable details.'',
          re_nextStep = ''Preserve the evidence and add one reflection about what to practice next.''\<rparr>)"

definition text_items :: "evidence list \<Rightarrow> evidence list" where
  "text_items es = filter (\<lambda>e. ei_evidenceType e = lit ''text'') es"

definition copied_items :: "unicode \<Rightarrow> learning_goal \<Rightarrow> evidence list \<Rightarrow> evidence list" where
  "copied_items U g es = filter (\<lambda>e. restates_goal U g (evidence_text e)) (text_items es)"

text \<open>\<open>has_independent_aligned_specific_text\<close>, computed twice in the code.\<close>

definition has_specific_aligned_text :: "unicode \<Rightarrow> learning_goal \<Rightarrow> evidence list \<Rightarrow> bool" where
  "has_specific_aligned_text U g es \<longleftrightarrow>
     list_ex (\<lambda>e. ei_evidenceId e \<notin> ei_evidenceId ` set (copied_items U g es)
       \<and> is_specific_goal_aligned_text U g e) (text_items es)"

definition score_learning_session ::
  "unicode \<Rightarrow> learning_goal \<Rightarrow> evidence list \<Rightarrow> str list \<Rightarrow> observation list \<Rightarrow> review_result" where
  "score_learning_session U g es answers observations =
     (case es of
        [] \<Rightarrow> no_evidence_result
      | first # _ \<Rightarrow>
        let answer_text = join_sp answers;
            specific_answer = has_specific_answer U answer_text;
            copied = copied_items U g es;
            aligned_text = has_specific_aligned_text U g es
        in if copied \<noteq> [] \<and> \<not> aligned_text
           then copied_result (answer_adds_limited_support U g answer_text) (map ei_evidenceId copied)
           else
             let goal_alignment = aligned_text \<or> specific_answer \<and> has_basic_goal_association U g answer_text
             in if text_items es \<noteq> [] \<and> list_all (\<lambda>e. is_generic U (evidence_text e)) (text_items es)
                   \<and> \<not> specific_answer \<and> \<not> list_ex (\<lambda>ob. ob_status ob = Obs_Success) observations
                then generic_result (ei_evidenceId first)
                else detailed_result aligned_text goal_alignment specific_answer
                       (map ei_evidenceId es) (map ob_toolName observations))"

section \<open>Counting shared units\<close>

lemma shared_count_mset: "shared_count xs ys = size (mset xs \<inter># mset ys)"
proof -
  let ?m = "mset xs \<inter># mset ys"
  have "size ?m = (\<Sum>x \<in> set_mset ?m. count ?m x)" by (rule size_multiset_overloaded_eq)
  also have "\<dots> = (\<Sum>x \<in> set xs. count ?m x)"
    by (rule sum.mono_neutral_left) (auto simp: not_in_iff dest: in_diffD)
  also have "\<dots> = (\<Sum>x \<in> set xs. min (count_list xs x) (count_list ys x))"
    by (simp add: Multiset.count_mset)
  also have "\<dots> = shared_count xs ys"
    by (simp add: shared_count_def sum_list_distinct_conv_sum_set)
  finally show ?thesis by simp
qed

lemma shared_count_le: "shared_count xs ys \<le> length xs" "shared_count xs ys \<le> length ys"
  unfolding shared_count_mset
  by (metis size_mset size_mset_mono subset_mset.inf_le1, metis size_mset size_mset_mono subset_mset.inf_le2)

section \<open>Properties\<close>

text \<open>Two thresholds suffice.
  The near-copy test on units is exactly the two thresholds on shared words: at least four fifths of the source
  are shared, and at most a fifth of the candidate is new. Its third threshold, on the share of the source
  left out, never decides; and the test depends only on how often each unit occurs, not on the
  order of the words.\<close>

theorem near_copy_thresholds:
  "near_copy_units cs ss \<longleftrightarrow>
     4 * length ss \<le> 5 * size (mset cs \<inter># mset ss) \<and> 4 * length cs \<le> 5 * size (mset cs \<inter># mset ss)"
  using shared_count_le[of cs ss] unfolding near_copy_units_def Let_def shared_count_mset by auto

lemma score_cases:
  obtains (empty) "es = []" "score_learning_session U g es answers obs = no_evidence_result"
  | (copied) "es \<noteq> []" "copied_items U g es \<noteq> []" "\<not> has_specific_aligned_text U g es"
      "score_learning_session U g es answers obs = copied_result (answer_adds_limited_support U g (join_sp answers))
         (map ei_evidenceId (copied_items U g es))"
  | (generic) "es \<noteq> []" "\<not> has_specific_aligned_text U g es" "\<not> has_specific_answer U (join_sp answers)"
      "score_learning_session U g es answers obs = generic_result (ei_evidenceId (hd es))"
  | (detailed) "es \<noteq> []" "copied_items U g es = [] \<or> has_specific_aligned_text U g es"
      "score_learning_session U g es answers obs = detailed_result (has_specific_aligned_text U g es)
         (has_specific_aligned_text U g es
           \<or> has_specific_answer U (join_sp answers) \<and> has_basic_goal_association U g (join_sp answers))
         (has_specific_answer U (join_sp answers)) (map ei_evidenceId es) (map ob_toolName obs)"
proof (cases es)
  case Nil
  then show ?thesis using empty by (simp add: score_learning_session_def)
next
  case (Cons e rest)
  have ne: "es \<noteq> []" and hd: "hd es = e" by (simp_all add: Cons)
  let ?copy = "copied_items U g es \<noteq> [] \<and> \<not> has_specific_aligned_text U g es"
  let ?generic = "text_items es \<noteq> [] \<and> list_all (\<lambda>e. is_generic U (evidence_text e)) (text_items es)
    \<and> \<not> has_specific_answer U (join_sp answers) \<and> \<not> list_ex (\<lambda>ob. ob_status ob = Obs_Success) obs"
  have score: "score_learning_session U g es answers obs =
      (if ?copy then copied_result (answer_adds_limited_support U g (join_sp answers)) (map ei_evidenceId (copied_items U g es))
       else if ?generic then generic_result (ei_evidenceId (hd es))
       else detailed_result (has_specific_aligned_text U g es)
         (has_specific_aligned_text U g es
           \<or> has_specific_answer U (join_sp answers) \<and> has_basic_goal_association U g (join_sp answers))
         (has_specific_answer U (join_sp answers)) (map ei_evidenceId es) (map ob_toolName obs))"
    unfolding score_learning_session_def Let_def by (simp add: Cons)
  have no_text: "\<not> has_specific_aligned_text U g es" if ?generic
    using that by (auto simp: has_specific_aligned_text_def is_specific_goal_aligned_text_def list_all_iff list_ex_iff)
  consider "?copy" | "\<not> ?copy" "?generic" | "\<not> ?copy" "\<not> ?generic" by blast
  then show ?thesis
  proof cases
    case 1
    show ?thesis by (rule copied[OF ne _ _ score[unfolded if_P[OF 1]]]) (use 1 in simp_all)
  next
    case 2
    show ?thesis
      by (rule generic[OF ne no_text[OF 2(2)] _ score[unfolded if_not_P[OF 2(1)] if_P[OF 2(2)]]])
        (use 2(2) in simp)
  next
    case 3
    show ?thesis
      by (rule detailed[OF ne _ score[unfolded if_not_P[OF 3(1)] if_not_P[OF 3(2)]]]) (use 3(1) in blast)
  qed
qed

text \<open>C40.
  The verdict: a session is judged likely learning exactly when some submitted text is specific, related to the
  goal and not a restatement of it, or, when no text restates the goal, the answers are specific and
  related to the goal. In particular a goal handed back with any answers and any verification results
  is never enough; without evidence the verdict is insufficient evidence, and otherwise weak.\<close>

theorem verdict_iff:
  "re_status (score_learning_session U g es answers obs) =
     (if es = [] then InsufficientEvidence
      else if has_specific_aligned_text U g es
        \<or> copied_items U g es = [] \<and> has_specific_answer U (join_sp answers)
           \<and> has_basic_goal_association U g (join_sp answers)
      then LikelyLearning else WeakEvidence)"
  by (cases U g es answers obs rule: score_cases)
    (auto simp: no_evidence_result_def copied_result_def generic_result_def detailed_result_def Let_def)

text \<open>The scores: only eight values occur, none above 75, so the cap of 82 never acts; the verdict is likely
  learning exactly from 60 up; and every dimension is within its range.\<close>

theorem score_bounds:
  "let r = score_learning_session U g es answers obs; d = re_dimensions r in
     re_score r \<in> {15, 35, 45, 50, 55, 63, 65, 75}
     \<and> (re_status r = LikelyLearning \<longleftrightarrow> 60 \<le> re_score r)
     \<and> 5 \<le> di_goalClarity d \<and> di_goalClarity d \<le> 15
     \<and> 0 \<le> di_evidenceSpecificity d \<and> di_evidenceSpecificity d \<le> 20
     \<and> 0 \<le> di_goalAlignment d \<and> di_goalAlignment d \<le> 20
     \<and> 0 \<le> di_understanding d \<and> di_understanding d \<le> 25
     \<and> 0 \<le> di_output d \<and> di_output d \<le> 10 \<and> 0 \<le> di_reflection d \<and> di_reflection d \<le> 10"
  unfolding Let_def
  by (cases U g es answers obs rule: score_cases)
    (auto simp: no_evidence_result_def copied_result_def generic_result_def detailed_result_def
      score_dimensions_def Let_def)

section \<open>An example\<close>

text \<open>The tables restricted to ASCII, and a goal handed back as evidence.\<close>

definition ascii_lower :: "str \<Rightarrow> str" where
  "ascii_lower s = map (\<lambda>c. if 65 \<le> c \<and> c \<le> 90 then c + 32 else c) s"

definition ascii_letter :: "nat \<Rightarrow> bool" where
  "ascii_letter c \<longleftrightarrow> (65 \<le> c \<and> c \<le> 90) \<or> (97 \<le> c \<and> c \<le> 122)"

definition ascii_alnum :: "nat \<Rightarrow> bool" where
  "ascii_alnum c \<longleftrightarrow> ascii_letter c \<or> (48 \<le> c \<and> c \<le> 57)"

definition ascii :: unicode where
  "ascii = \<lparr>u_lower = ascii_lower, u_casefold = ascii_lower, u_nfkc = (\<lambda>s. s), u_isalnum = ascii_alnum,
     u_word = (\<lambda>c. ascii_alnum c \<or> c = 95), u_letter = ascii_letter\<rparr>"

lemma shuffled_goal_is_near_copy:
  "is_near_copy ascii (lit ''Trees! red black'') (lit ''red black trees'')"
  by (simp add: is_near_copy_def normalized_copy_text_def copy_comparison_units_def near_copy_units_def
      shared_count_def ascii_def ascii_lower_def ascii_alnum_def ascii_letter_def is_cjk_def lit_def)

end
