(* ===== verification/Narratives.thy ===== *)
theory Narratives
  imports Scoring
begin

text \<open>
  What turns verified observations into scoring input: \<^verbatim>\<open>domain/scoring_inputs.py\<close> (narratives and their
  projector), \<^verbatim>\<open>media_projection/visual_fact_identity.py\<close> (the stable identities of visual facts),
  \<^verbatim>\<open>media_projection/image_narrative_provider.py\<close> (the image provider and the completion policy) and the
  validated media facts of \<^verbatim>\<open>domain/evidence_facts.py\<close>. SHA-256 is a parameter that maps a string to the
  hexadecimal digest of its UTF-8 encoding.
\<close>

section \<open>Narratives\<close>

datatype narrative_status = Nar_Success | Nar_Failed | Nar_Inconclusive

record narrative =
  na_evidence_id :: str
  na_text :: str
  na_verification_status :: narrative_status
  na_consumed_fact_ids :: "str list"
  na_consumed_fact_text_digests :: "str list"
  na_source_observation_event_id :: str
  na_projection_id :: str

definition squeeze :: "str \<Rightarrow> str" where
  "squeeze s = join_sp (split_ws s)"

definition MAX_NARRATIVE_CHARS :: nat where "MAX_NARRATIVE_CHARS = 2000"

definition make_narrative :: "narrative \<Rightarrow> exc + narrative" where
  "make_narrative n =
     (let evidence_id = strip (na_evidence_id n); text = squeeze (na_text n)
      in andthen (require (evidence_id \<noteq> []) (ValueError ''evidence_id must not be empty'')) (\<lambda>_.
         andthen (require (\<not> (na_verification_status n = Nar_Success \<and> text = []))
           (ValueError ''successful narrative text must not be empty'')) (\<lambda>_.
         Inr (n\<lparr>na_evidence_id := evidence_id, na_text := take MAX_NARRATIVE_CHARS text\<rparr>))))"

type_synonym provider = "evidence \<Rightarrow> observation list \<Rightarrow> exc + narrative option"

text \<open>\<open>by_evidence_id[...] = projected\<close>: an equal narrative keeps its place, a new one goes last.\<close>

definition record_narrative :: "narrative \<Rightarrow> narrative list \<Rightarrow> exc + narrative list" where
  "record_narrative n ns =
     (case List.find (\<lambda>x. na_evidence_id x = na_evidence_id n) ns of
        None \<Rightarrow> Inr (ns @ [n])
      | Some existing \<Rightarrow> if existing = n then Inr ns else Inl (ValueError ''conflicting learning narrative''))"

fun run_providers :: "provider list \<Rightarrow> evidence \<Rightarrow> observation list \<Rightarrow> narrative list \<Rightarrow> exc + narrative list" where
  "run_providers [] e obs ns = Inr ns"
| "run_providers (p # ps) e obs ns =
     andthen (p e obs) (\<lambda>projected.
     andthen (case projected of None \<Rightarrow> Inr ns | Some n \<Rightarrow> record_narrative n ns) (run_providers ps e obs))"

fun project_from :: "provider list \<Rightarrow> evidence list \<Rightarrow> observation list \<Rightarrow> narrative list \<Rightarrow> exc + narrative list" where
  "project_from ps [] obs ns = Inr ns"
| "project_from ps (e # es) obs ns = andthen (run_providers ps e obs ns) (project_from ps es obs)"

definition project_all :: "provider list \<Rightarrow> evidence list \<Rightarrow> observation list \<Rightarrow> exc + narrative list" where
  "project_all ps es obs = project_from ps es obs []"

definition narrative_evidence :: "(str \<Rightarrow> str) \<Rightarrow> narrative \<Rightarrow> evidence" where
  "narrative_evidence sha256 n =
     \<lparr>ei_evidenceId = na_evidence_id n, ei_evidenceType = lit ''text'',
      ei_contentHash = lit ''sha256:narrative:'' @ sha256 (na_evidence_id n @ 10 # na_text n),
      ei_textContent = Some (na_text n), ei_sourceUrl = None,
      ei_metadata =
        [(lit ''narrativeSource'', Scalar (JStr (lit ''verified_learning_narrative''))),
         (lit ''verificationStatus'', Scalar (JStr (lit ''success'')))]
        @ (if na_consumed_fact_ids n = [] then []
           else [(lit ''consumedFactIds'', Arr (map (\<lambda>i. Scalar (JStr i)) (na_consumed_fact_ids n))),
                 (lit ''sourceObservationEventId'', Scalar (JStr (na_source_observation_event_id n))),
                 (lit ''narrativeProjectionId'', Scalar (JStr (na_projection_id n)))])\<rparr>"

definition narratives_as_evidence :: "(str \<Rightarrow> str) \<Rightarrow> evidence list \<Rightarrow> narrative list \<Rightarrow> evidence list" where
  "narratives_as_evidence sha256 es ns =
     es @ map (narrative_evidence sha256) (filter (\<lambda>n. na_verification_status n = Nar_Success) ns)"

section \<open>Identities of visual facts\<close>

record visual_fact =
  vf_index :: nat
  vf_normalized_text :: str
  vf_fact_id :: str
  vf_text_digest :: str

definition VISUAL_FACT_CAPABILITY :: str where "VISUAL_FACT_CAPABILITY = lit ''image''"
definition VISUAL_FACT_TOOL_NAME :: str where
  "VISUAL_FACT_TOOL_NAME = lit ''focusproof_media_evidence_verification''"

text \<open>The texts of a JSON array; anything that is not an array of them has none.\<close>

fun fact_text :: "json \<Rightarrow> str option" where
  "fact_text (Scalar (JStr s)) = (if blank s then None else Some (squeeze s))"
| "fact_text _ = None"

definition normalize_visual_fact_texts :: "json option \<Rightarrow> str list" where
  "normalize_visual_fact_texts v = (case v of Some (Arr js) \<Rightarrow> List.map_filter fact_text js | _ \<Rightarrow> [])"

function dec :: "nat \<Rightarrow> str" where
  "dec n = (if n < 10 then [48 + n] else dec (n div 10) @ [48 + n mod 10])"
  by pat_completeness auto
termination by (relation "measure (\<lambda>n. n)") auto

declare dec.simps [simp del]

definition strict_id :: "str \<Rightarrow> bool" where
  "strict_id s \<longleftrightarrow> s \<noteq> [] \<and> s = strip s"

definition identity_text :: "str \<Rightarrow> str \<Rightarrow> nat \<Rightarrow> str \<Rightarrow> str" where
  "identity_text evidence_id event_id i t = evidence_id @ 10 # event_id @ 10 # dec i @ 10 # t"

definition visual_fact_of :: "(str \<Rightarrow> str) \<Rightarrow> str \<Rightarrow> str \<Rightarrow> nat \<Rightarrow> str \<Rightarrow> visual_fact" where
  "visual_fact_of sha256 evidence_id event_id i t =
     \<lparr>vf_index = i, vf_normalized_text = t,
      vf_fact_id = lit ''fact_'' @ sha256 (identity_text evidence_id event_id i t),
      vf_text_digest = sha256 t\<rparr>"

definition derive_from_texts :: "(str \<Rightarrow> str) \<Rightarrow> str \<Rightarrow> str \<Rightarrow> str list \<Rightarrow> exc + visual_fact list" where
  "derive_from_texts sha256 evidence_id event_id texts =
     (if strict_id evidence_id \<and> strict_id event_id
      then Inr (map (\<lambda>(i, t). visual_fact_of sha256 evidence_id event_id i t) (zip [0..<length texts] texts))
      else Inl (ValueError ''visual fact identity anchors must be strict identifiers''))"

definition derive_visual_fact_identities ::
  "(str \<Rightarrow> str) \<Rightarrow> str \<Rightarrow> str \<Rightarrow> json option \<Rightarrow> exc + visual_fact list" where
  "derive_visual_fact_identities sha256 evidence_id event_id visual_facts =
     derive_from_texts sha256 evidence_id event_id (normalize_visual_fact_texts visual_facts)"

text \<open>\<open>sep.join(parts)\<close>.\<close>

fun join_with :: "str \<Rightarrow> str list \<Rightarrow> str" where
  "join_with sep [] = []"
| "join_with sep [w] = w"
| "join_with sep (w # ws) = w @ sep @ join_with sep ws"

definition derive_visual_projection_id :: "(str \<Rightarrow> str) \<Rightarrow> str \<Rightarrow> str \<Rightarrow> str list \<Rightarrow> exc + str" where
  "derive_visual_projection_id sha256 evidence_id event_id fact_ids =
     andthen (require (list_all (\<lambda>i. i \<noteq> []) fact_ids)
       (ValueError ''visual projection fact IDs must be non-empty strings'')) (\<lambda>_.
     Inr (lit ''projection_'' @ sha256 (evidence_id @ 10 # event_id @ 10 # join_with [10] fact_ids)))"

section \<open>The image provider\<close>

definition is_image :: "unicode \<Rightarrow> evidence \<Rightarrow> bool" where
  "is_image U e \<longleftrightarrow> is_prefix (lit ''image/'') (u_lower U (strip (ei_evidenceType e)))"

definition fact_string :: "json option \<Rightarrow> str option" where
  "fact_string v = (case v of Some (Scalar (JStr s)) \<Rightarrow> Some s | _ \<Rightarrow> None)"

definition image_observation :: "evidence \<Rightarrow> observation \<Rightarrow> bool" where
  "image_observation e ob \<longleftrightarrow> ob_status ob = Obs_Success \<and> ei_evidenceId e \<in> set (ob_sourceRefs ob)
     \<and> (ob_toolName ob = VISUAL_FACT_TOOL_NAME
        \<or> map_of (ob_facts ob) (lit ''capability'') = Some (Scalar (JStr VISUAL_FACT_CAPABILITY)))"

definition explanation_of :: "observation \<Rightarrow> str" where
  "explanation_of ob = (case fact_string (map_of (ob_facts ob) (lit ''learner_explanation'')) of
     None \<Rightarrow> [] | Some s \<Rightarrow> squeeze s)"

definition explained_narrative :: "evidence \<Rightarrow> str \<Rightarrow> narrative" where
  "explained_narrative e text =
     \<lparr>na_evidence_id = ei_evidenceId e, na_text = take MAX_NARRATIVE_CHARS text,
      na_verification_status = Nar_Success, na_consumed_fact_ids = [], na_consumed_fact_text_digests = [],
      na_source_observation_event_id = [], na_projection_id = []\<rparr>"

definition visual_text :: "str \<Rightarrow> visual_fact list \<Rightarrow> str" where
  "visual_text explanation facts =
     (if explanation = [] then [] else explanation @ [32])
     @ lit ''Verified visual facts: '' @ join_with (lit ''; '') (map vf_normalized_text facts)"

definition visual_narrative :: "(str \<Rightarrow> str) \<Rightarrow> evidence \<Rightarrow> str \<Rightarrow> str \<Rightarrow> visual_fact list \<Rightarrow> exc + narrative" where
  "visual_narrative sha256 e event_id explanation facts =
     andthen (derive_visual_projection_id sha256 (ei_evidenceId e) event_id (map vf_fact_id facts)) (\<lambda>projection_id.
     make_narrative
       \<lparr>na_evidence_id = ei_evidenceId e, na_text = take MAX_NARRATIVE_CHARS (visual_text explanation facts),
        na_verification_status = Nar_Success, na_consumed_fact_ids = map vf_fact_id facts,
        na_consumed_fact_text_digests = map vf_text_digest facts,
        na_source_observation_event_id = event_id, na_projection_id = projection_id\<rparr>)"

text \<open>The normalised texts, handed on as a sequence of strings.\<close>

definition texts_json :: "str list \<Rightarrow> json option" where
  "texts_json texts = Some (Arr (map (\<lambda>t. Scalar (JStr t)) texts))"

fun project_image :: "(str \<Rightarrow> str) \<Rightarrow> evidence \<Rightarrow> observation list \<Rightarrow> exc + narrative option" where
  "project_image sha256 e [] = Inr None"
| "project_image sha256 e (ob # obs) =
     (if \<not> image_observation e ob then project_image sha256 e obs
      else
        let explanation = explanation_of ob;
            texts = normalize_visual_fact_texts (map_of (ob_facts ob) (lit ''visual_facts''))
        in if texts = [] then
             (if explanation = [] then project_image sha256 e obs
              else andthen (make_narrative (explained_narrative e explanation)) (\<lambda>n. Inr (Some n)))
           else
             case ob_sourceEventId ob of
               None \<Rightarrow> project_image sha256 e obs
             | Some event_id \<Rightarrow>
               if event_id = [] then project_image sha256 e obs
               else andthen (derive_visual_fact_identities sha256 (ei_evidenceId e) event_id (texts_json texts)) (\<lambda>facts.
                    andthen (visual_narrative sha256 e event_id explanation facts) (\<lambda>n. Inr (Some n))))"

definition image_provider :: "unicode \<Rightarrow> (str \<Rightarrow> str) \<Rightarrow> provider" where
  "image_provider U sha256 e obs = (if is_image U e then project_image sha256 e obs else Inr None)"

text \<open>The completion policy: the images with a verification of at least three concrete facts.\<close>

definition concrete_facts :: "json option \<Rightarrow> nat" where
  "concrete_facts v = (case v of
     Some (Arr js) \<Rightarrow> length (filter (\<lambda>j. case j of Scalar (JStr s) \<Rightarrow> \<not> blank s | _ \<Rightarrow> False) js) | _ \<Rightarrow> 0)"

definition verifies_image :: "observation \<Rightarrow> bool" where
  "verifies_image ob \<longleftrightarrow> ob_status ob = Obs_Success
     \<and> map_of (ob_facts ob) (lit ''capability'') = Some (Scalar (JStr (lit ''image'')))
     \<and> 3 \<le> concrete_facts (map_of (ob_facts ob) (lit ''visual_facts''))"

text \<open>The images that an observation adds to the verified ones: those among its source references, if it counts at all.\<close>

definition verified_ids :: "str set \<Rightarrow> observation \<Rightarrow> str set" where
  "verified_ids M ob = (if verifies_image ob then M \<inter> set (ob_sourceRefs ob) else {})"

definition media_ids :: "unicode \<Rightarrow> evidence list \<Rightarrow> str set" where
  "media_ids U es = ei_evidenceId ` set (filter (is_image U) es)"

definition failure_reason :: "unicode \<Rightarrow> evidence list \<Rightarrow> observation list \<Rightarrow> string option" where
  "failure_reason U es obs =
     (if media_ids U es = {} then None
      else if fold (\<lambda>ob verified. verified \<union> verified_ids (media_ids U es) ob) obs {} = media_ids U es then None
      else Some ''Media evidence lacks at least three verified native visual facts.'')"

section \<open>Validated media facts\<close>

record media_facts =
  mf_evidence_id :: str
  mf_receipt_id :: str
  mf_attempt_id :: str
  mf_scan_result :: str
  mf_artifact_ref :: str
  mf_artifact_sha256 :: str
  mf_media_type :: str
  mf_normalized_sha256 :: str
  mf_byte_size :: int
  mf_width :: int
  mf_height :: int
  mf_learner_explanation :: str

definition remove_prefix :: "str \<Rightarrow> str \<Rightarrow> str" where
  "remove_prefix p s = (if is_prefix p s then drop (length p) s else s)"

definition sha256_check :: "str \<Rightarrow> string \<Rightarrow> bool \<times> exc" where
  "sha256_check v field_name =
     (length v = 64 \<and> list_all is_lower_hex v, ValueError (field_name @ '' must be a SHA-256 hex digest''))"

definition clean_media_facts :: "unicode \<Rightarrow> media_facts \<Rightarrow> media_facts" where
  "clean_media_facts U f =
     f\<lparr>mf_evidence_id := strip (mf_evidence_id f), mf_receipt_id := strip (mf_receipt_id f),
       mf_attempt_id := strip (mf_attempt_id f), mf_scan_result := u_lower U (strip (mf_scan_result f)),
       mf_artifact_ref := strip (mf_artifact_ref f),
       mf_artifact_sha256 := u_lower U (strip (remove_prefix (lit ''sha256:'') (mf_artifact_sha256 f))),
       mf_media_type := u_lower U (strip (mf_media_type f)),
       mf_normalized_sha256 := u_lower U (strip (remove_prefix (lit ''sha256:'') (mf_normalized_sha256 f))),
       mf_learner_explanation := squeeze (mf_learner_explanation f)\<rparr>"

definition media_facts_checks :: "media_facts \<Rightarrow> (bool \<times> exc) list" where
  "media_facts_checks f =
     [(mf_evidence_id f \<noteq> [], ValueError ''evidence_id must not be empty''),
      (mf_receipt_id f \<noteq> [], ValueError ''receipt_id must not be empty''),
      (mf_attempt_id f \<noteq> [], ValueError ''attempt_id must not be empty''),
      (mf_scan_result f = lit ''clean'', ValueError ''media evidence facts require a clean scan result''),
      (mf_artifact_ref f \<noteq> [], ValueError ''artifact_ref must not be empty''),
      sha256_check (mf_artifact_sha256 f) ''artifact_sha256'',
      (47 \<in> set (mf_media_type f), ValueError ''media_type must be a MIME type''),
      sha256_check (mf_normalized_sha256 f) ''normalized_sha256'',
      (0 < mf_byte_size f \<and> 0 < mf_width f \<and> 0 < mf_height f,
       ValueError ''media dimensions and byte size must be positive''),
      (mf_learner_explanation f \<noteq> [], ValueError ''learner_explanation must not be empty'')]"

definition make_media_facts :: "unicode \<Rightarrow> media_facts \<Rightarrow> exc + media_facts" where
  "make_media_facts U f =
     andthen (require_all (media_facts_checks (clean_media_facts U f))) (\<lambda>_. Inr (clean_media_facts U f))"

section \<open>White space\<close>

definition wordy :: "str list \<Rightarrow> bool" where
  "wordy ws \<longleftrightarrow> list_all (\<lambda>w. w \<noteq> [] \<and> list_all (\<lambda>c. \<not> py_isspace c) w) ws"

lemma dropWhile_space: "dropWhile py_isspace s = c # cs \<Longrightarrow> \<not> py_isspace c"
  by (metis hd_dropWhile list.distinct(1) list.sel(1))

lemma split_ws_wordy: "wordy (split_ws s)"
proof (induction s rule: split_ws.induct)
  case (1 s)
  show ?case
  proof (cases "dropWhile py_isspace s")
    case Nil
    then show ?thesis by (subst split_ws.simps) (simp add: wordy_def del: dropWhile_eq_Nil_conv)
  next
    case (Cons c cs)
    have "wordy (split_ws (dropWhile (\<lambda>x. \<not> py_isspace x) cs))" using 1[OF Cons] .
    moreover have "split_ws s = (c # takeWhile (\<lambda>x. \<not> py_isspace x) cs)
        # split_ws (dropWhile (\<lambda>x. \<not> py_isspace x) cs)"
      by (subst split_ws.simps) (simp add: Cons)
    moreover have "list_all (\<lambda>x. \<not> py_isspace x) (c # takeWhile (\<lambda>x. \<not> py_isspace x) cs)"
      using dropWhile_space[OF Cons] by (simp add: list_all_iff) (blast dest: set_takeWhileD)
    ultimately show ?thesis by (simp add: wordy_def)
  qed
qed

lemma split_ws_word:
  assumes "w \<noteq> []" and "list_all (\<lambda>c. \<not> py_isspace c) w" and "rest = [] \<or> py_isspace (hd rest)"
  shows "split_ws (w @ rest) = w # split_ws rest"
proof -
  obtain c cs where w: "w = c # cs" using assms(1) by (cases w) auto
  have c: "\<not> py_isspace c" using assms(2) by (simp add: w)
  then have drop: "dropWhile py_isspace (w @ rest) = c # cs @ rest" by (simp add: w)
  have "takeWhile (\<lambda>x. \<not> py_isspace x) (cs @ rest) = cs"
    using assms(2,3) by (cases rest) (auto simp: w takeWhile_append list_all_iff)
  moreover have "dropWhile (\<lambda>x. \<not> py_isspace x) (cs @ rest) = rest"
    using assms(2,3) by (cases rest) (auto simp: w dropWhile_append list_all_iff)
  ultimately show ?thesis by (subst split_ws.simps) (simp add: w c)
qed

lemma split_ws_space: "split_ws (32 # s) = split_ws s"
  by (subst (1 2) split_ws.simps) (simp add: py_isspace_def)

lemma split_join: "wordy ws \<Longrightarrow> split_ws (join_sp ws) = ws"
proof (induction ws rule: join_sp.induct)
  case 1
  show ?case by (simp add: split_ws.simps)
next
  case (2 w)
  then show ?case using split_ws_word[of w "[]"] by (simp add: wordy_def split_ws.simps[of "[]"])
next
  case (3 w v vs)
  then have "split_ws (w @ 32 # join_sp (v # vs)) = w # split_ws (32 # join_sp (v # vs))"
    by (intro split_ws_word) (simp_all add: wordy_def py_isspace_def)
  then show ?case using 3 by (simp add: split_ws_space wordy_def)
qed

lemma squeeze_idem [simp]: "squeeze (squeeze s) = squeeze s"
  by (simp add: squeeze_def split_join split_ws_wordy)

lemma split_ws_blank: "split_ws s = [] \<longleftrightarrow> blank s"
proof -
  have "dropWhile py_isspace s = [] \<longleftrightarrow> blank s" by (simp add: blank_iff list_all_iff)
  moreover have "split_ws s = [] \<longleftrightarrow> dropWhile py_isspace s = []"
    by (subst split_ws.simps) (simp del: dropWhile_eq_Nil_conv split: list.split)
  ultimately show ?thesis by simp
qed

lemma join_sp_Nil: "wordy ws \<Longrightarrow> join_sp ws = [] \<longleftrightarrow> ws = []"
  by (cases ws rule: join_sp.cases) (auto simp: wordy_def)

lemma squeeze_Nil [simp]: "squeeze s = [] \<longleftrightarrow> blank s"
  by (simp add: squeeze_def join_sp_Nil split_ws_wordy split_ws_blank)

lemma squeeze_not_blank [simp]: "blank (squeeze s) \<longleftrightarrow> blank s"
  by (metis squeeze_Nil squeeze_idem)

lemma set_join_sp: "c \<in> set (join_sp ws) \<Longrightarrow> c = 32 \<or> (\<exists>w \<in> set ws. c \<in> set w)"
  by (induction ws rule: join_sp.induct) auto

lemma squeeze_single_line: "10 \<notin> set (squeeze s)"
proof
  assume "10 \<in> set (squeeze s)"
  then obtain w where "w \<in> set (split_ws s)" "10 \<in> set w" unfolding squeeze_def using set_join_sp by fastforce
  then have "\<not> py_isspace 10" using split_ws_wordy[of s] by (auto simp: wordy_def list_all_iff)
  then show False by (simp add: py_isspace_def)
qed

section \<open>Decimal numerals\<close>

lemma dec_digits: "c \<in> set (dec n) \<Longrightarrow> 48 \<le> c \<and> c \<le> 57"
  by (induction n rule: dec.induct) (subst (asm) (2) dec.simps, auto split: if_splits)

lemma dec_inject: "dec m = dec n \<Longrightarrow> m = n"
proof (induction m arbitrary: n rule: dec.induct)
  case (1 m)
  have small: "dec k = [48 + k]" if "k < 10" for k using that by (simp add: dec.simps)
  have big: "dec k = dec (k div 10) @ [48 + k mod 10]" if "\<not> k < 10" for k
    using that by (subst dec.simps) simp
  have ne: "dec k \<noteq> []" for k by (subst dec.simps) simp
  show ?case
  proof (cases "m < 10"; cases "n < 10")
    assume "m < 10" "n < 10"
    then show ?thesis using 1(2) by (simp add: small)
  next
    assume "m < 10" "\<not> n < 10"
    then show ?thesis using 1(2) ne[of "n div 10"] by (simp add: small big)
  next
    assume "\<not> m < 10" "n < 10"
    then show ?thesis using 1(2) ne[of "m div 10"] by (simp add: small big)
  next
    assume big': "\<not> m < 10" "\<not> n < 10"
    then have "dec (m div 10) = dec (n div 10)" "m mod 10 = n mod 10" using 1(2) by (simp_all add: big)
    then have "m div 10 = n div 10" using 1(1)[OF big'(1)] by blast
    then show ?thesis using \<open>m mod 10 = n mod 10\<close> by (metis div_mult_mod_eq)
  qed
qed

section \<open>Properties\<close>

lemma append_sep_inject:
  assumes "x \<notin> set a" and "x \<notin> set b" and "a @ x # s = b @ x # t"
  shows "a = b \<and> s = t"
  using assms
proof (induction a arbitrary: b)
  case Nil
  then show ?case by (cases b) auto
next
  case (Cons c a)
  then show ?case by (cases b) auto
qed

lemma dec_single_line: "10 \<notin> set (dec n)"
  using dec_digits[of 10 n] by auto

text \<open>The text hashed for the identity of a visual fact determines the evidence, the observation, the position and the
  fact: with single-line identifiers no two facts share it, so equal fact ids mean equal facts
  or a collision of SHA-256.\<close>

theorem identity_text_injective:
  assumes "10 \<notin> set e" and "10 \<notin> set v" and "10 \<notin> set e'" and "10 \<notin> set v'"
    and "identity_text e v i t = identity_text e' v' i' t'"
  shows "e = e' \<and> v = v' \<and> i = i' \<and> t = t'"
proof -
  have 1: "e = e' \<and> v @ 10 # dec i @ 10 # t = v' @ 10 # dec i' @ 10 # t'"
    using assms(1,3,5) unfolding identity_text_def by (rule append_sep_inject)
  have 2: "v = v' \<and> dec i @ 10 # t = dec i' @ 10 # t'"
    by (rule append_sep_inject[OF assms(2,4) conjunct2[OF 1]])
  have 3: "dec i = dec i' \<and> t = t'"
    by (rule append_sep_inject[OF dec_single_line dec_single_line conjunct2[OF 2]])
  show ?thesis using 1 2 3 dec_inject[of i i'] by simp
qed

lemma identity_text_injective_witness:
  "identity_text (lit ''e1'') (lit ''v1'') 1 (lit ''a'') \<noteq> identity_text (lit ''e1'') (lit ''v1'') 11 (lit ''a'')"
proof
  assume eq: "identity_text (lit ''e1'') (lit ''v1'') 1 (lit ''a'') = identity_text (lit ''e1'') (lit ''v1'') 11 (lit ''a'')"
  have line: "10 \<notin> set (lit ''e1'')" "10 \<notin> set (lit ''v1'')" by (simp_all add: lit_def)
  have "(1::nat) = 11" using identity_text_injective[OF line line eq] by blast
  then show False by simp
qed

lemma verified_fold:
  "fold (\<lambda>ob verified. verified \<union> verified_ids M ob) obs V
     = V \<union> {i \<in> M. \<exists>ob \<in> set obs. verifies_image ob \<and> i \<in> set (ob_sourceRefs ob)}"
  by (induction obs arbitrary: V) (auto simp: verified_ids_def)

text \<open>A review may complete exactly when every image among the evidence is named by a successful image verification
  that lists at least three concrete visual facts.\<close>

theorem completion_policy_iff:
  "failure_reason U es obs = None \<longleftrightarrow>
     (\<forall>e \<in> set es. is_image U e \<longrightarrow> (\<exists>ob \<in> set obs. verifies_image ob \<and> ei_evidenceId e \<in> set (ob_sourceRefs ob)))"
proof -
  let ?V = "{i \<in> media_ids U es. \<exists>ob \<in> set obs. verifies_image ob \<and> i \<in> set (ob_sourceRefs ob)}"
  have "failure_reason U es obs = None \<longleftrightarrow> media_ids U es = {} \<or> ?V = media_ids U es"
    unfolding failure_reason_def verified_fold by simp
  also have "\<dots> \<longleftrightarrow> (\<forall>i \<in> media_ids U es. \<exists>ob \<in> set obs. verifies_image ob \<and> i \<in> set (ob_sourceRefs ob))"
    by blast
  also have "\<dots> \<longleftrightarrow> (\<forall>e \<in> set es. is_image U e \<longrightarrow> (\<exists>ob \<in> set obs. verifies_image ob \<and> ei_evidenceId e \<in> set (ob_sourceRefs ob)))"
    by (auto simp: media_ids_def)
  finally show ?thesis .
qed


definition sample_image :: evidence where
  "sample_image = \<lparr>ei_evidenceId = lit ''ev1'', ei_evidenceType = lit ''image/png'', ei_contentHash = lit ''h'',
     ei_textContent = None, ei_sourceUrl = None, ei_metadata = []\<rparr>"

definition sample_verification :: observation where
  "sample_verification =
     \<lparr>ob_toolName = VISUAL_FACT_TOOL_NAME, ob_status = Obs_Success, ob_sourceEventId = Some (lit ''o1''),
      ob_facts = [(lit ''capability'', Scalar (JStr (lit ''image''))),
        (lit ''visual_facts'', Arr (map (\<lambda>s. Scalar (JStr (lit s))) [''a tree'', ''a lake'', ''a hill'']))],
      ob_sourceRefs = [lit ''ev1''], ob_error = None\<rparr>"

theorem completion_policy_iff_witness: "failure_reason ascii [sample_image] [sample_verification] = None"
proof (rule completion_policy_iff[THEN iffD2, rule_format])
  show "\<exists>ob \<in> set [sample_verification]. verifies_image ob \<and> ei_evidenceId e \<in> set (ob_sourceRefs ob)"
    if "e \<in> set [sample_image]" for e
    using that
    by (simp add: sample_image_def sample_verification_def verifies_image_def concrete_facts_def lit_def blank_def strip_def
        py_isspace_def)
qed

end
