(* ===== verification/ReviewExtraction.thy ===== *)
theory ReviewExtraction
  imports Narratives AuditLog SessionRepos
begin

text \<open>
  \<^verbatim>\<open>openhands_runtime/result_extractor.py\<close>: how the native events of an agent conversation become a review. It
  puts together the audit log, the repositories, the narratives, the completion policies and the score. The native
  events are the SDK's; the model keeps what the extractor reads of them. A message carries the JSON value
  of its text (None when the text is not JSON). The redaction of URLs (\<^verbatim>\<open>url_redaction.py\<close>) is a parameter:
  what becomes of a source reference, and of the facts of a URL verification.
\<close>

section \<open>Native events\<close>

datatype verification_status = Vs_Success | Vs_Failed | Vs_Inconclusive | Vs_Unsupported

record verification_obs =
  vo_evidence_id :: str
  vo_capability :: str
  vo_status :: verification_status
  vo_facts :: "(str \<times> json) list"
  vo_weak_signals :: "str list"
  vo_source_refs :: "str list"
  vo_verifier_version :: str
  vo_safe_error_message :: "str option"

record legacy_obs =
  lo_evidence_type :: str
  lo_findings :: "str list"
  lo_weak_signals :: "str list"
  lo_source_refs :: "str list"

record learner_question =
  qu_question_id :: str
  qu_question :: str
  qu_reason :: str

datatype native_observation =
    Question_Obs learner_question
  | Draft_Obs bool
  | Verification_Obs verification_obs
  | Legacy_Obs legacy_obs
  | Other_Obs

datatype native_action =
    Learner_Input_Act str
  | Evidence_Reference_Act str
  | Other_Act

record action_event =
  ac_id :: str
  ac_tool_name :: str
  ac_tool_call_id :: str
  ac_action :: native_action

record observation_event =
  oe_id :: str
  oe_action_id :: str
  oe_tool_name :: str
  oe_tool_call_id :: str
  oe_observation :: native_observation

datatype native_event =
    Message_Event "json option"
  | Action_Event action_event
  | Observation_Event observation_event
  | Other_Event

record redaction =
  rd_source_ref :: "str \<Rightarrow> str"
  rd_url_facts :: "(str \<times> json) list \<Rightarrow> (str \<times> json) list"

section \<open>Positions\<close>

text \<open>Positions are integers, and \<open>-1\<close> stands for no position.\<close>

definition indexed :: "'a list \<Rightarrow> (int \<times> 'a) list" where
  "indexed xs = zip (map int [0..<length xs]) xs"

definition last_index :: "('a \<Rightarrow> bool) \<Rightarrow> (int \<times> 'a) list \<Rightarrow> int" where
  "last_index P ixs = fold (\<lambda>(i, x) latest. if P x then i else latest) ixs (-1)"

definition message_kind :: "json option \<Rightarrow> str option" where
  "message_kind payload = (case payload of
     Some (Obj fs) \<Rightarrow> (case map_of fs (lit ''kind'') of Some (Scalar (JStr s)) \<Rightarrow> Some s | _ \<Rightarrow> None)
   | _ \<Rightarrow> None)"

definition is_answer :: "native_event \<Rightarrow> bool" where
  "is_answer e = (case e of Message_Event p \<Rightarrow> message_kind p = Some (lit ''answer'') | _ \<Rightarrow> False)"

definition is_accepted_draft :: "native_event \<Rightarrow> bool" where
  "is_accepted_draft e = (case e of Observation_Event ev \<Rightarrow> oe_observation ev = Draft_Obs True | _ \<Rightarrow> False)"

definition last_answer_index :: "native_event list \<Rightarrow> int" where
  "last_answer_index evs = last_index is_answer (indexed evs)"

definition last_accepted_draft_index :: "native_event list \<Rightarrow> int \<Rightarrow> int" where
  "last_accepted_draft_index evs before_index =
     last_index is_accepted_draft (filter (\<lambda>(i, _). i < before_index) (indexed evs))"

section \<open>Observations\<close>

definition sanitize_source_refs :: "redaction \<Rightarrow> str list \<Rightarrow> str list" where
  "sanitize_source_refs R refs = map (rd_source_ref R) refs"

definition sanitize_verification_facts :: "redaction \<Rightarrow> str \<Rightarrow> (str \<times> json) list \<Rightarrow> (str \<times> json) list" where
  "sanitize_verification_facts R capability facts =
     (if capability \<noteq> lit ''url'' then facts else rd_url_facts R facts)"

definition jstr :: "str \<Rightarrow> json" where "jstr s = Scalar (JStr s)"
definition jint :: "int \<Rightarrow> json" where "jint n = Scalar (JInt n)"
definition jstrs :: "str list \<Rightarrow> json" where "jstrs ss = Arr (map jstr ss)"

text \<open>\<open>{**facts, "capability": ...}\<close>: the later keys win, so they come first in the association list.\<close>

definition verification_observation :: "redaction \<Rightarrow> observation_event \<Rightarrow> verification_obs \<Rightarrow> observation" where
  "verification_observation R ev v =
     \<lparr>ob_toolName = oe_tool_name ev,
      ob_status = (case vo_status v of Vs_Success \<Rightarrow> Obs_Success | Vs_Failed \<Rightarrow> Obs_Failed | _ \<Rightarrow> Obs_Inconclusive),
      ob_sourceEventId = Some (oe_id ev),
      ob_facts =
        [(lit ''capability'', jstr (vo_capability v)), (lit ''weak_signals'', jstrs (vo_weak_signals v)),
         (lit ''verifier_version'', jstr (vo_verifier_version v))]
        @ sanitize_verification_facts R (vo_capability v) (vo_facts v),
      ob_sourceRefs = sanitize_source_refs R (vo_source_refs v),
      ob_error = vo_safe_error_message v\<rparr>"

definition legacy_observation :: "redaction \<Rightarrow> observation_event \<Rightarrow> legacy_obs \<Rightarrow> observation" where
  "legacy_observation R ev l =
     \<lparr>ob_toolName = oe_tool_name ev, ob_status = Obs_Inconclusive, ob_sourceEventId = None,
      ob_facts =
        [(lit ''capability'', jstr (lit ''legacy'')), (lit ''evidence_type'', jstr (lo_evidence_type l)),
         (lit ''findings'', jstrs (lo_findings l)), (lit ''weak_signals'', jstrs (lo_weak_signals l)),
         (lit ''verifier_version'', jstr (lit ''legacy''))],
      ob_sourceRefs = sanitize_source_refs R (lo_source_refs l), ob_error = None\<rparr>"

definition native_to_observation :: "redaction \<Rightarrow> native_event \<Rightarrow> observation option" where
  "native_to_observation R e = (case e of
     Observation_Event ev \<Rightarrow>
       (case oe_observation ev of
          Legacy_Obs l \<Rightarrow> Some (legacy_observation R ev l)
        | Verification_Obs v \<Rightarrow> Some (verification_observation R ev v)
        | _ \<Rightarrow> None)
   | _ \<Rightarrow> None)"

definition focusproof_observations :: "redaction \<Rightarrow> native_event list \<Rightarrow> int \<Rightarrow> int \<Rightarrow> observation list" where
  "focusproof_observations R evs after_index before_index =
     List.map_filter (\<lambda>(i, e). if after_index < i \<and> i < before_index then native_to_observation R e else None)
       (indexed evs)"

section \<open>The lineage of narratives\<close>

record lineage_entry =
  le_evidence_id :: str
  le_projection_id :: str
  le_source_id :: str
  le_consumed :: "str list"
  le_digests :: "str list"

definition fact_json :: "str \<times> str \<Rightarrow> json" where
  "fact_json f = (case f of (fact_id, digest) \<Rightarrow>
     Obj [(lit ''factId'', jstr fact_id), (lit ''factType'', jstr (lit ''visual_text'')),
          (lit ''textDigest'', jstr digest),
          (lit ''redaction'', Obj [(lit ''textPersisted'', Scalar (JBool False))])])"

definition lineage_json :: "lineage_entry \<Rightarrow> json" where
  "lineage_json l =
     Obj [(lit ''evidenceId'', jstr (le_evidence_id l)), (lit ''projectionId'', jstr (le_projection_id l)),
          (lit ''sourceObservationEventId'', jstr (le_source_id l)),
          (lit ''consumedFactIds'', jstrs (le_consumed l)),
          (lit ''facts'', Arr (map fact_json (zip (le_consumed l) (le_digests l))))]"

definition lineage_entry_ok :: "narrative \<Rightarrow> bool" where
  "lineage_entry_ok n \<longleftrightarrow> strict_id (na_projection_id n) \<and> strict_id (na_source_observation_event_id n)
     \<and> strict_id (na_evidence_id n)
     \<and> length (na_consumed_fact_ids n) = length (na_consumed_fact_text_digests n)
     \<and> list_all strict_id (na_consumed_fact_ids n) \<and> list_all strict_id (na_consumed_fact_text_digests n)
     \<and> distinct (na_consumed_fact_ids n)"

definition lineage_entry_of :: "narrative \<Rightarrow> lineage_entry" where
  "lineage_entry_of n =
     \<lparr>le_evidence_id = na_evidence_id n, le_projection_id = na_projection_id n,
      le_source_id = na_source_observation_event_id n, le_consumed = na_consumed_fact_ids n,
      le_digests = na_consumed_fact_text_digests n\<rparr>"

text \<open>The loop: \<open>aggregate\<close> are the facts and \<open>pids\<close> the projections seen so far.\<close>

fun lineage_from :: "narrative list \<Rightarrow> str list \<Rightarrow> str list \<Rightarrow> exc + lineage_entry list" where
  "lineage_from [] aggregate pids = Inr []"
| "lineage_from (n # ns) aggregate pids =
     (if na_consumed_fact_ids n = [] \<and> na_consumed_fact_text_digests n = [] then lineage_from ns aggregate pids
      else
        andthen (require (lineage_entry_ok n) (ValueError ''narrative consumed fact lineage is invalid'')) (\<lambda>_.
        andthen (require (na_projection_id n \<notin> set pids \<and> set (na_consumed_fact_ids n) \<inter> set aggregate = {})
          (ValueError ''duplicate narrative lineage identifier'')) (\<lambda>_.
        andthen (lineage_from ns (aggregate @ na_consumed_fact_ids n) (pids @ [na_projection_id n])) (\<lambda>ls.
        Inr (lineage_entry_of n # ls)))))"

text \<open>\<open>sorted(aggregate)\<close>: strings are ordered by code points.\<close>

definition audited_lineage :: "narrative list \<Rightarrow> exc + lineage_entry list \<times> str list" where
  "audited_lineage ns =
     andthen (lineage_from ns [] []) (\<lambda>ls. Inr (ls, sort (concat (map le_consumed ls))))"

section \<open>What is persisted\<close>

record handle =
  hd_session_id :: str
  hd_conversation_hex :: str
  hd_conversation_text :: str
  hd_runtime_mode :: str

fun status_value :: "review_status \<Rightarrow> string" where
  "status_value VerifiedLearning = ''VerifiedLearning''"
| "status_value LikelyLearning = ''LikelyLearning''"
| "status_value WeakEvidence = ''WeakEvidence''"
| "status_value NeedsMoreVerification = ''NeedsMoreVerification''"
| "status_value InsufficientEvidence = ''InsufficientEvidence''"
| "status_value ContradictoryEvidence = ''ContradictoryEvidence''"

fun severity_value :: "severity \<Rightarrow> string" where
  "severity_value Info = ''info''"
| "severity_value Warning = ''warning''"
| "severity_value Error_Severity = ''error''"

definition finding_json :: "finding \<Rightarrow> json" where
  "finding_json f =
     Obj [(lit ''severity'', jstr (lit (severity_value (fi_severity f)))), (lit ''message'', jstr (lit (fi_message f))),
          (lit ''evidenceIds'', jstrs (fi_evidenceIds f)), (lit ''observationRefs'', jstrs (fi_observationRefs f))]"

definition dimensions_json :: "dimensions \<Rightarrow> json" where
  "dimensions_json d =
     Obj [(lit ''goalClarity'', jint (di_goalClarity d)), (lit ''evidenceSpecificity'', jint (di_evidenceSpecificity d)),
          (lit ''goalAlignment'', jint (di_goalAlignment d)), (lit ''understanding'', jint (di_understanding d)),
          (lit ''output'', jint (di_output d)), (lit ''reflection'', jint (di_reflection d))]"

definition review_json :: "review_result \<Rightarrow> json" where
  "review_json r =
     Obj [(lit ''status'', jstr (lit (status_value (re_status r)))), (lit ''score'', jint (re_score r)),
          (lit ''confidence'', Scalar (JFloat (re_confidence r))), (lit ''dimensions'', dimensions_json (re_dimensions r)),
          (lit ''findings'', Arr (map finding_json (re_findings r))), (lit ''summary'', jstr (lit (re_summary r))),
          (lit ''nextStep'', jstr (lit (re_nextStep r)))]"

definition score_payload ::
  "review_result \<Rightarrow> str list \<Rightarrow> str \<Rightarrow> lineage_entry list \<Rightarrow> str list \<Rightarrow> payload" where
  "score_payload review evidence_refs source lineage consumed =
     [(lit ''score'', jint (re_score review)), (lit ''confidence'', Scalar (JFloat (re_confidence review))),
      (lit ''status'', jstr (lit (status_value (re_status review)))),
      (lit ''dimensions'', dimensions_json (re_dimensions review)),
      (lit ''findings'', Arr (map finding_json (re_findings review))),
      (lit ''evidenceRefs'', jstrs evidence_refs), (lit ''sourceObservationEventId'', jstr source),
      (lit ''narrativeLineage'', Arr (map lineage_json lineage)), (lit ''consumedFactIds'', jstrs consumed)]"

definition review_payload :: "str \<Rightarrow> review_result \<Rightarrow> str \<Rightarrow> str \<Rightarrow> lineage_entry list \<Rightarrow> payload" where
  "review_payload review_id review score_event_id source lineage =
     [(lit ''reviewId'', jstr review_id), (lit ''summary'', jstr (lit (re_summary review))),
      (lit ''nextStep'', jstr (lit (re_nextStep review))), (lit ''scoreEventId'', jstr score_event_id),
      (lit ''sourceObservationEventId'', jstr source)]
     @ (if lineage = [] then []
        else [(lit ''narrativeProjectionIds'', jstrs (map le_projection_id lineage))])"

definition score_event_id :: "str \<Rightarrow> str" where "score_event_id source = lit ''evt_score_'' @ source"
definition review_event_id :: "str \<Rightarrow> str" where "review_event_id source = lit ''evt_review_'' @ source"

definition review_record ::
  "handle \<Rightarrow> str \<Rightarrow> str \<Rightarrow> string \<Rightarrow> int option \<Rightarrow> json option \<Rightarrow> nat \<Rightarrow> datetime \<Rightarrow> review_row" where
  "review_record h review_id source status score result native_event_count now =
     \<lparr>rv_review_id = review_id, rv_session_id = hd_session_id h, rv_conversation_id = hd_conversation_hex h,
      rv_review_status = lit status, rv_score = score, rv_result_json = result,
      rv_native_event_count = int native_event_count, rv_source_openhands_event_id = Some source,
      rv_created_at = now\<rparr>"

text \<open>One unit of work: the review, the score event and the review event, or nothing.\<close>

definition persist_completed_review ::
  "handle \<Rightarrow> str \<Rightarrow> nat \<Rightarrow> review_result \<Rightarrow> str list \<Rightarrow> lineage_entry list \<Rightarrow> str list \<Rightarrow> str \<Rightarrow> datetime
    \<Rightarrow> db \<Rightarrow> exc + db" where
  "persist_completed_review h source native_event_count review evidence_refs lineage consumed proposed_review_id now d =
     andthen (add_from_native_event (review_record h proposed_review_id source ''completed'' (Some (re_score review))
       (Some (review_json review)) native_event_count now) now d) (\<lambda>(d1, stored_review).
     andthen (audit_append (hd_session_id h) (lit ''score.calculated'') (lit ''system'')
       (Obj (score_payload review evidence_refs source lineage consumed)) None (Some (score_event_id source)) [] now d1)
       (\<lambda>(d2, stored_score).
     andthen (audit_append (hd_session_id h) (lit ''review.completed'') (lit ''system'')
       (Obj (review_payload (rv_review_id stored_review) review (ae_event_id stored_score) source lineage))
       None (Some (review_event_id source)) [] now d2)
       (\<lambda>(d3, _). Inr d3)))"

text \<open>Without a database the two events go to the in-memory log.\<close>

definition persist_in_memory ::
  "handle \<Rightarrow> str \<Rightarrow> review_result \<Rightarrow> str list \<Rightarrow> lineage_entry list \<Rightarrow> str list \<Rightarrow> str \<Rightarrow> datetime
    \<Rightarrow> memory_log \<Rightarrow> memory_log" where
  "persist_in_memory h source review evidence_refs lineage consumed proposed_review_id now st =
     (let (st1, score_event) = memory_append (hd_session_id h) Score_Calculated System
            (score_payload review evidence_refs source lineage consumed) (Some (score_event_id source)) [] now st
      in fst (memory_append (hd_session_id h) Review_Completed System
            (review_payload proposed_review_id review (ve_id score_event) source lineage)
            (Some (review_event_id source)) [] now st1))"

section \<open>Extraction\<close>

datatype runtime_review_status = Completed_Review | Awaiting_User | Failed_Review

record runtime_result =
  rr_session_id :: str
  rr_conversation_mode :: str
  rr_used :: bool
  rr_conversation_id :: str
  rr_native_events :: nat
  rr_messages :: nat
  rr_actions :: nat
  rr_observations :: nat
  rr_projected :: nat
  rr_status :: runtime_review_status
  rr_questions :: "json list"
  rr_review :: "review_result option"
  rr_error :: "string option"

definition runtime_result_of ::
  "handle \<Rightarrow> native_event list \<Rightarrow> event list \<Rightarrow> runtime_review_status \<Rightarrow> bool \<Rightarrow> json list
    \<Rightarrow> review_result option \<Rightarrow> string option \<Rightarrow> runtime_result" where
  "runtime_result_of h evs audit status used questions review error =
     \<lparr>rr_session_id = hd_session_id h,
      rr_conversation_mode = (if used then hd_runtime_mode h else lit ''failed''), rr_used = used,
      rr_conversation_id = hd_conversation_hex h, rr_native_events = length evs,
      rr_messages = length (filter (\<lambda>e. case e of Message_Event _ \<Rightarrow> True | _ \<Rightarrow> False) evs),
      rr_actions = length (filter (\<lambda>e. case e of Action_Event _ \<Rightarrow> True | _ \<Rightarrow> False) evs),
      rr_observations = length (filter (\<lambda>e. case e of Observation_Event _ \<Rightarrow> True | _ \<Rightarrow> False) evs),
      rr_projected = length (filter (\<lambda>e. map_of (ve_payload e) (lit ''sourceConversationId'')
        = Some (jstr (hd_conversation_text h))) audit),
      rr_status = status, rr_questions = questions, rr_review = review, rr_error = error\<rparr>"

record extractor =
  ex_unicode :: unicode
  ex_sha256 :: "str \<Rightarrow> str"
  ex_redaction :: redaction
  ex_providers :: "provider list"
  ex_policies :: "(evidence list \<Rightarrow> observation list \<Rightarrow> string option) list"

definition waiting_events :: "native_event list \<Rightarrow> (int \<times> observation_event \<times> learner_question) list" where
  "waiting_events evs =
     List.map_filter (\<lambda>(i, e). case e of
       Observation_Event ev \<Rightarrow> (case oe_observation ev of
          Question_Obs q \<Rightarrow> if last_answer_index evs < i then Some (i, ev, q) else None | _ \<Rightarrow> None)
     | _ \<Rightarrow> None) (indexed evs)"

definition draft_events :: "native_event list \<Rightarrow> (int \<times> observation_event) list" where
  "draft_events evs =
     List.map_filter (\<lambda>(i, e). case e of
       Observation_Event ev \<Rightarrow>
         if last_answer_index evs < i \<and> oe_observation ev = Draft_Obs True then Some (i, ev) else None
     | _ \<Rightarrow> None) (indexed evs)"

text \<open>\<open>{event.id: event ...}\<close>: of several events with one id the last stays.\<close>

definition action_by_id :: "native_event list \<Rightarrow> str \<Rightarrow> action_event option" where
  "action_by_id evs i =
     List.find (\<lambda>a. ac_id a = i)
       (rev (List.map_filter (\<lambda>e. case e of Action_Event a \<Rightarrow> Some a | _ \<Rightarrow> None) evs))"

definition observation_by_id :: "native_event list \<Rightarrow> str \<Rightarrow> observation_event option" where
  "observation_by_id evs i =
     List.find (\<lambda>ev. oe_id ev = i)
       (rev (List.map_filter (\<lambda>e. case e of Observation_Event ev \<Rightarrow> Some ev | _ \<Rightarrow> None) evs))"

definition question_json :: "native_event list \<Rightarrow> observation_event \<Rightarrow> learner_question \<Rightarrow> json" where
  "question_json evs ev q =
     Obj [(lit ''questionId'', jstr (qu_question_id q)), (lit ''status'', jstr (lit ''awaiting_user'')),
          (lit ''question'', jstr (qu_question q)), (lit ''reason'', jstr (qu_reason q)),
          (lit ''requestedEvidenceType'', jstr (case action_by_id evs (oe_action_id ev) of
             Some a \<Rightarrow> (case ac_action a of Learner_Input_Act t \<Rightarrow> t | _ \<Rightarrow> []) | None \<Rightarrow> []))]"

fun first_failure ::
  "(evidence list \<Rightarrow> observation list \<Rightarrow> string option) list \<Rightarrow> evidence list \<Rightarrow> observation list \<Rightarrow> string option" where
  "first_failure [] es obs = None"
| "first_failure (p # ps) es obs = (case p es obs of Some reason \<Rightarrow> Some reason | None \<Rightarrow> first_failure ps es obs)"

definition draft_observations :: "redaction \<Rightarrow> native_event list \<Rightarrow> int \<Rightarrow> observation list" where
  "draft_observations R evs draft_index =
     focusproof_observations R evs (last_accepted_draft_index evs draft_index) draft_index"

text \<open>The review of a draft: narratives, score and lineage.\<close>

definition review_draft ::
  "extractor \<Rightarrow> learning_goal \<Rightarrow> evidence list \<Rightarrow> str list \<Rightarrow> observation list
    \<Rightarrow> exc + review_result \<times> lineage_entry list \<times> str list" where
  "review_draft X goal es answers obs =
     andthen (project_all (ex_providers X) es obs) (\<lambda>ns.
     andthen (audited_lineage ns) (\<lambda>(lineage, consumed).
     Inr (score_learning_session (ex_unicode X) goal (narratives_as_evidence (ex_sha256 X) es ns) answers obs,
          lineage, consumed)))"

text \<open>The extractor over the database. The result lists the session's audit events after the commit.\<close>

definition with_audit ::
  "handle \<Rightarrow> db \<Rightarrow> (event list \<Rightarrow> runtime_result) \<Rightarrow> db \<times> (exc + runtime_result)" where
  "with_audit h d k = (d, andthen (persistent_list (hd_session_id h) d) (\<lambda>audit. Inr (k audit)))"

definition extract_managed ::
  "extractor \<Rightarrow> handle \<Rightarrow> native_event list \<Rightarrow> learning_goal \<Rightarrow> evidence list \<Rightarrow> str list \<Rightarrow> str \<Rightarrow> datetime
    \<Rightarrow> db \<Rightarrow> db \<times> (exc + runtime_result)" where
  "extract_managed X h evs goal es answers review_id now d =
     (let waiting = waiting_events evs; drafts = draft_events evs
      in if waiting \<noteq> [] \<and> (drafts = [] \<or> fst (last drafts) < fst (last waiting)) then
           (case last waiting of (_, ev, q) \<Rightarrow>
            let questions = [question_json evs ev q]
            in case add_from_native_event (review_record h review_id (oe_id ev) ''awaiting_user'' None
                      (Some (Obj [(lit ''agentQuestions'', Arr questions)])) (length evs) now) now d of
                 Inl e \<Rightarrow> (d, Inl e)
               | Inr (d', _) \<Rightarrow> with_audit h d' (\<lambda>audit. runtime_result_of h evs audit Awaiting_User True questions None None))
         else if drafts \<noteq> [] then
           (case last drafts of (draft_index, ev) \<Rightarrow>
            let obs = draft_observations (ex_redaction X) evs draft_index
            in case first_failure (ex_policies X) es obs of
                 Some reason \<Rightarrow> with_audit h d (\<lambda>audit. runtime_result_of h evs audit Failed_Review True [] None (Some reason))
               | None \<Rightarrow>
                 (case review_draft X goal es answers obs of
                    Inl e \<Rightarrow> (d, Inl e)
                  | Inr (review, lineage, consumed) \<Rightarrow>
                    (case persist_completed_review h (oe_id ev) (length evs) review (map ei_evidenceId es) lineage consumed
                            review_id now d of
                       Inl e \<Rightarrow> (d, Inl e)
                     | Inr d' \<Rightarrow>
                       with_audit h d' (\<lambda>audit. runtime_result_of h evs audit Completed_Review True [] (Some review) None))))
         else with_audit h d (\<lambda>audit. runtime_result_of h evs audit Failed_Review False [] None
                (Some ''OpenHands run produced neither learner input nor an accepted review draft'')))"

section \<open>Reading a completed review back\<close>

text \<open>\<open>_project_safe_completed_review_lineage\<close>: the product's own check of a completed review against
  the native events, and the projection of its lineage without any content.\<close>

record safe_entry =
  sf_projection_id :: str
  sf_source_id :: str
  sf_fact_ids :: "str list"

record completed_lineage =
  cl_projection_ids :: "str list"
  cl_source_ids :: "str list"
  cl_fact_ids :: "str list"
  cl_consumed :: "str list"
  cl_score :: str
  cl_review :: str
  cl_review_projections :: "str list"
  cl_lineage :: "safe_entry list"

definition strict_of :: "json option \<Rightarrow> str option" where
  "strict_of v = (case v of Some (Scalar (JStr s)) \<Rightarrow> if strict_id s then Some s else None | _ \<Rightarrow> None)"

fun strict_all :: "json list \<Rightarrow> str list option" where
  "strict_all [] = Some []"
| "strict_all (j # js) = (case strict_of (Some j) of None \<Rightarrow> None
     | Some s \<Rightarrow> map_option (Cons s) (strict_all js))"

definition strict_list_of :: "json option \<Rightarrow> str list option" where
  "strict_list_of v = (case v of Some (Arr js) \<Rightarrow> strict_all js | _ \<Rightarrow> None)"

definition list_of :: "json option \<Rightarrow> json list option" where
  "list_of v = (case v of Some (Arr js) \<Rightarrow> Some js | _ \<Rightarrow> None)"

definition fact_matches :: "json \<Rightarrow> visual_fact \<Rightarrow> bool" where
  "fact_matches f expected = (case f of
     Obj fs \<Rightarrow> set (map fst fs) = {lit ''factId'', lit ''factType'', lit ''textDigest'', lit ''redaction''}
       \<and> map_of fs (lit ''factId'') = Some (jstr (vf_fact_id expected))
       \<and> map_of fs (lit ''factType'') = Some (jstr (lit ''visual_text''))
       \<and> map_of fs (lit ''textDigest'') = Some (jstr (vf_text_digest expected))
       \<and> map_of fs (lit ''redaction'') = Some (Obj [(lit ''textPersisted'', Scalar (JBool False))])
   | _ \<Rightarrow> False)"

text \<open>The observation a lineage entry names, if it really is the verification it must be.\<close>

definition verified_source :: "native_event list \<Rightarrow> str \<Rightarrow> str \<Rightarrow> verification_obs option" where
  "verified_source evs source_id evidence_id =
     (case observation_by_id evs source_id of
        None \<Rightarrow> None
      | Some ev \<Rightarrow>
        (case (oe_observation ev, action_by_id evs (oe_action_id ev)) of
           (Verification_Obs v, Some a) \<Rightarrow>
             if vo_status v = Vs_Success \<and> vo_capability v = VISUAL_FACT_CAPABILITY
                \<and> vo_evidence_id v = evidence_id \<and> evidence_id \<in> set (vo_source_refs v)
                \<and> oe_tool_name ev = VISUAL_FACT_TOOL_NAME \<and> ac_tool_name a = oe_tool_name ev
                \<and> ac_tool_call_id a = oe_tool_call_id ev \<and> ac_action a = Evidence_Reference_Act evidence_id
             then Some v else None
         | _ \<Rightarrow> None))"

definition project_entry :: "(str \<Rightarrow> str) \<Rightarrow> native_event list \<Rightarrow> json \<Rightarrow> exc + safe_entry" where
  "project_entry sha256 evs item = (case item of
     Obj fs \<Rightarrow>
       (case (strict_of (map_of fs (lit ''projectionId'')), strict_of (map_of fs (lit ''sourceObservationEventId'')),
              strict_of (map_of fs (lit ''evidenceId'')), strict_list_of (map_of fs (lit ''consumedFactIds'')),
              list_of (map_of fs (lit ''facts''))) of
          (Some projection_id, Some source_id, Some evidence_id, Some consumed, Some facts) \<Rightarrow>
            if \<not> distinct consumed then Inl (ValueError ''completed review narrative lineage is invalid'')
            else
              (case verified_source evs source_id evidence_id of
                 None \<Rightarrow> Inl (ValueError ''completed review fact lineage is inconsistent'')
               | Some v \<Rightarrow>
                 andthen (derive_visual_fact_identities sha256 evidence_id source_id
                   (map_of (vo_facts v) (lit ''visual_facts''))) (\<lambda>expected.
                 andthen (require (expected \<noteq> [] \<and> length facts = length expected)
                   (ValueError ''completed review fact lineage is inconsistent'')) (\<lambda>_.
                 andthen (require (list_all2 fact_matches facts expected)
                   (ValueError ''completed review fact lineage is invalid'')) (\<lambda>_.
                 andthen (derive_visual_projection_id sha256 evidence_id source_id (map vf_fact_id expected))
                   (\<lambda>expected_projection_id.
                 andthen (require (map vf_fact_id expected = consumed \<and> projection_id = expected_projection_id)
                   (ValueError ''completed review fact lineage is inconsistent'')) (\<lambda>_.
                 Inr \<lparr>sf_projection_id = projection_id, sf_source_id = source_id, sf_fact_ids = consumed\<rparr>))))))
        | _ \<Rightarrow> Inl (ValueError ''completed review narrative lineage is invalid''))
   | _ \<Rightarrow> Inl (ValueError ''completed review narrative lineage is invalid''))"

text \<open>The loop, with the entries accepted so far.\<close>

definition duplicates :: "safe_entry list \<Rightarrow> safe_entry \<Rightarrow> bool" where
  "duplicates seen e \<longleftrightarrow> sf_projection_id e \<in> sf_projection_id ` set seen
     \<or> sf_source_id e \<in> sf_source_id ` set seen
     \<or> set (sf_fact_ids e) \<inter> set (concat (map sf_fact_ids seen)) \<noteq> {}"

fun project_entries :: "(str \<Rightarrow> str) \<Rightarrow> native_event list \<Rightarrow> json list \<Rightarrow> safe_entry list \<Rightarrow> exc + safe_entry list" where
  "project_entries sha256 evs [] seen = Inr seen"
| "project_entries sha256 evs (item # items) seen =
     andthen (project_entry sha256 evs item) (\<lambda>e.
     andthen (require (\<not> duplicates seen e)
       (ValueError ''completed review audit lineage contains duplicate identifiers'')) (\<lambda>_.
     project_entries sha256 evs items (seen @ [e])))"

definition completion_source :: "native_event list \<Rightarrow> str option" where
  "completion_source evs = (if draft_events evs = [] then None else Some (oe_id (snd (last (draft_events evs)))))"

definition project_lineage ::
  "(str \<Rightarrow> str) \<Rightarrow> event list \<Rightarrow> native_event list \<Rightarrow> exc + completed_lineage" where
  "project_lineage sha256 audit evs =
     (case (filter (\<lambda>e. ve_type e = Score_Calculated) audit, filter (\<lambda>e. ve_type e = Review_Completed) audit) of
        ([score], [review]) \<Rightarrow>
          (case completion_source evs of
             None \<Rightarrow> Inl (ValueError ''completed review audit lineage has no official completion source'')
           | Some source \<Rightarrow>
             (case (list_of (map_of (ve_payload score) (lit ''narrativeLineage'')),
                    strict_list_of (map_of (ve_payload score) (lit ''consumedFactIds'')),
                    strict_list_of (map_of (ve_payload review) (lit ''narrativeProjectionIds'')),
                    strict_of (map_of (ve_payload review) (lit ''scoreEventId''))) of
                (Some items, Some consumed, Some projections, Some review_score) \<Rightarrow>
                  andthen (require (items \<noteq> [] \<and> distinct consumed \<and> distinct projections
                      \<and> strict_of (map_of (ve_payload score) (lit ''sourceObservationEventId'')) = Some source
                      \<and> strict_of (map_of (ve_payload review) (lit ''sourceObservationEventId'')) = Some source
                      \<and> ve_id score = score_event_id source \<and> ve_id review = review_event_id source)
                    (ValueError ''completed review audit lineage is invalid'')) (\<lambda>_.
                  andthen (project_entries sha256 evs items []) (\<lambda>entries.
                  andthen (require (consumed = sort (concat (map sf_fact_ids entries))
                      \<and> review_score = ve_id score \<and> projections = map sf_projection_id entries)
                    (ValueError ''completed review audit lineage is inconsistent'')) (\<lambda>_.
                  Inr \<lparr>cl_projection_ids = map sf_projection_id entries, cl_source_ids = map sf_source_id entries,
                    cl_fact_ids = concat (map sf_fact_ids entries), cl_consumed = consumed, cl_score = ve_id score,
                    cl_review = ve_id review, cl_review_projections = projections, cl_lineage = entries\<rparr>)))
              | _ \<Rightarrow> Inl (ValueError ''completed review audit lineage is invalid'')))
      | _ \<Rightarrow> Inl (ValueError ''completed review audit lineage must have one score and review event''))"

section \<open>Positions and observations\<close>

lemma set_indexed: "(i, x) \<in> set (indexed xs) \<Longrightarrow> x \<in> set xs"
  by (auto simp: indexed_def dest: set_zip_rightD)

lemma set_map_filter: "y \<in> set (List.map_filter f xs) \<longleftrightarrow> (\<exists>x \<in> set xs. f x = Some y)"
  by (induction xs) (auto simp: List.map_filter_simps split: option.splits)

lemma focusproof_observation_source:
  assumes "ob \<in> set (focusproof_observations R evs a b)" and "ob_sourceEventId ob = Some src"
  obtains ev v where "Observation_Event ev \<in> set evs" "oe_observation ev = Verification_Obs v" "oe_id ev = src"
    "ob = verification_observation R ev v"
proof -
  obtain e where e: "e \<in> set evs" "native_to_observation R e = Some ob"
    using assms(1) by (auto simp: focusproof_observations_def set_map_filter dest: set_indexed split: if_splits)
  then show ?thesis
    using assms(2) that
    by (auto simp: native_to_observation_def legacy_observation_def verification_observation_def
        split: native_event.splits native_observation.splits)
qed

lemma find_rev_unique:
  assumes "distinct (map k xs)" and "x \<in> set xs"
  shows "List.find (\<lambda>y. k y = k x) (rev xs) = Some x"
proof (rule find_unique[where k = k])
  show "unique_key k (rev xs)" using assms(1) by (simp add: unique_key_def flip: rev_map)
qed (use assms(2) in auto)

definition native_actions :: "native_event list \<Rightarrow> action_event list" where
  "native_actions evs = List.map_filter (\<lambda>e. case e of Action_Event a \<Rightarrow> Some a | _ \<Rightarrow> None) evs"

definition native_observations :: "native_event list \<Rightarrow> observation_event list" where
  "native_observations evs = List.map_filter (\<lambda>e. case e of Observation_Event ev \<Rightarrow> Some ev | _ \<Rightarrow> None) evs"

lemma in_native_actions: "a \<in> set (native_actions evs) \<longleftrightarrow> Action_Event a \<in> set evs"
  by (induction evs) (auto simp: native_actions_def List.map_filter_simps split: native_event.splits)

lemma in_native_observations: "ev \<in> set (native_observations evs) \<longleftrightarrow> Observation_Event ev \<in> set evs"
  by (induction evs) (auto simp: native_observations_def List.map_filter_simps split: native_event.splits)

lemma by_id_unique:
  "distinct (map ac_id (native_actions evs)) \<Longrightarrow> Action_Event a \<in> set evs \<Longrightarrow> action_by_id evs (ac_id a) = Some a"
  "distinct (map oe_id (native_observations evs)) \<Longrightarrow> Observation_Event ev \<in> set evs \<Longrightarrow>
     observation_by_id evs (oe_id ev) = Some ev"
  unfolding action_by_id_def observation_by_id_def
  using find_rev_unique[of ac_id "native_actions evs" a] find_rev_unique[of oe_id "native_observations evs" ev]
  by (auto simp: in_native_actions in_native_observations simp flip: native_actions_def native_observations_def)

section \<open>What the image provider produces\<close>

lemma fact_text_squeezed: "fact_text j = Some t \<Longrightarrow> fact_text (Scalar (JStr t)) = Some t"
  by (cases j rule: fact_text.cases) (auto split: if_splits)

lemma normalize_idem: "normalize_visual_fact_texts (texts_json (normalize_visual_fact_texts v)) = normalize_visual_fact_texts v"
proof -
  have "List.map_filter fact_text (map (\<lambda>t. Scalar (JStr t)) ts) = ts"
    if "\<And>t. t \<in> set ts \<Longrightarrow> fact_text (Scalar (JStr t)) = Some t" for ts
    using that by (induction ts) (simp_all add: List.map_filter_simps)
  moreover have "fact_text (Scalar (JStr t)) = Some t" if "t \<in> set (normalize_visual_fact_texts v)" for t
    using that unfolding normalize_visual_fact_texts_def
    by (auto simp: set_map_filter fact_text_squeezed simp del: fact_text.simps split: option.splits json.splits)
  ultimately show ?thesis
    unfolding texts_json_def by (simp add: normalize_visual_fact_texts_def[of "Some _"])
qed

text \<open>A narrative with facts, and where they come from.\<close>

definition fact_narrative :: "(str \<Rightarrow> str) \<Rightarrow> evidence \<Rightarrow> observation \<Rightarrow> str \<Rightarrow> visual_fact list \<Rightarrow> narrative \<Rightarrow> bool" where
  "fact_narrative sha256 e ob src facts n \<longleftrightarrow> image_observation e ob \<and> ob_sourceEventId ob = Some src
     \<and> derive_visual_fact_identities sha256 (ei_evidenceId e) src (map_of (ob_facts ob) (lit ''visual_facts'')) = Inr facts
     \<and> derive_visual_projection_id sha256 (ei_evidenceId e) src (map vf_fact_id facts) = Inr (na_projection_id n)
     \<and> na_evidence_id n = ei_evidenceId e \<and> na_source_observation_event_id n = src
     \<and> na_consumed_fact_ids n = map vf_fact_id facts \<and> na_consumed_fact_text_digests n = map vf_text_digest facts"

lemma make_narrative_fields:
  assumes "make_narrative n = Inr m"
  shows "na_evidence_id m = strip (na_evidence_id n)" "na_consumed_fact_ids m = na_consumed_fact_ids n"
    "na_consumed_fact_text_digests m = na_consumed_fact_text_digests n"
    "na_source_observation_event_id m = na_source_observation_event_id n"
    "na_projection_id m = na_projection_id n"
  using assms by (auto simp: make_narrative_def Let_def andthen_Inr_iff)

lemma derive_strict: "derive_visual_fact_identities sha256 e v x = Inr facts \<Longrightarrow> strict_id e \<and> strict_id v"
  by (auto simp: derive_visual_fact_identities_def derive_from_texts_def split: if_splits)

lemma derive_normalized:
  "derive_visual_fact_identities sha256 e v (texts_json (normalize_visual_fact_texts x)) =
   derive_visual_fact_identities sha256 e v x"
  by (simp add: derive_visual_fact_identities_def normalize_idem)

lemma project_image_facts:
  assumes "project_image sha256 e obs = Inr (Some n)" and "na_consumed_fact_ids n \<noteq> []"
  shows "\<exists>ob \<in> set obs. \<exists>src facts. fact_narrative sha256 e ob src facts n"
  using assms(1)
proof (induction obs)
  case (Cons ob obs)
  let ?x = "map_of (ob_facts ob) (lit ''visual_facts'')"
  show ?case
  proof (cases "project_image sha256 e obs = Inr (Some n)")
    case True
    then show ?thesis using Cons.IH by auto
  next
    case False
    have img: "image_observation e ob" using Cons.prems False by (auto split: if_splits)
    have texts: "normalize_visual_fact_texts ?x \<noteq> []"
    proof
      assume "normalize_visual_fact_texts ?x = []"
      then have "make_narrative (explained_narrative e (explanation_of ob)) = Inr n"
        using Cons.prems False img by (auto simp: Let_def andthen_Inr_iff split: if_splits)
      then show False using assms(2) make_narrative_fields(2) by (simp add: explained_narrative_def)
    qed
    obtain src where src: "ob_sourceEventId ob = Some src" "src \<noteq> []"
      using Cons.prems False img texts by (auto simp: Let_def split: option.splits if_splits)
    then obtain facts where facts: "derive_visual_fact_identities sha256 (ei_evidenceId e) src ?x = Inr facts"
      and nar: "visual_narrative sha256 e src (explanation_of ob) facts = Inr n"
      using Cons.prems img texts by (auto simp: Let_def andthen_Inr_iff derive_normalized)
    obtain pid where pid: "derive_visual_projection_id sha256 (ei_evidenceId e) src (map vf_fact_id facts) = Inr pid"
      and make: "make_narrative
       \<lparr>na_evidence_id = ei_evidenceId e, na_text = take MAX_NARRATIVE_CHARS (visual_text (explanation_of ob) facts),
        na_verification_status = Nar_Success, na_consumed_fact_ids = map vf_fact_id facts,
        na_consumed_fact_text_digests = map vf_text_digest facts,
        na_source_observation_event_id = src, na_projection_id = pid\<rparr> = Inr n"
      using nar unfolding visual_narrative_def andthen_Inr_iff by blast
    have "strip (ei_evidenceId e) = ei_evidenceId e"
      using derive_strict[OF facts] by (simp add: strict_id_def)
    then have "fact_narrative sha256 e ob src facts n"
      using img src(1) facts pid make_narrative_fields[OF make] by (simp add: fact_narrative_def)
    then show ?thesis by auto
  qed
qed simp

section \<open>Where narratives come from\<close>

lemma record_narrative_Inr:
  assumes "record_narrative n ns = Inr ms"
  shows "set ms = insert n (set ns)" and "distinct (map na_evidence_id ns) \<Longrightarrow> distinct (map na_evidence_id ms)"
proof -
  let ?f = "List.find (\<lambda>x. na_evidence_id x = na_evidence_id n) ns"
  have "set ms = insert n (set ns) \<and> (distinct (map na_evidence_id ns) \<longrightarrow> distinct (map na_evidence_id ms))"
  proof (cases ?f)
    case None
    then have "na_evidence_id n \<notin> na_evidence_id ` set ns" by (simp add: find_id_None)
    then show ?thesis using assms None by (auto simp: record_narrative_def)
  next
    case (Some x)
    then show ?thesis using assms by (auto simp: record_narrative_def split: if_splits dest: find_SomeD)
  qed
  then show "set ms = insert n (set ns)" and "distinct (map na_evidence_id ns) \<Longrightarrow> distinct (map na_evidence_id ms)"
    by blast+
qed

lemma run_providers_Inr:
  assumes "run_providers ps e obs ns = Inr ms"
  shows "(\<forall>n \<in> set ms. n \<in> set ns \<or> (\<exists>p \<in> set ps. p e obs = Inr (Some n)))
    \<and> (distinct (map na_evidence_id ns) \<longrightarrow> distinct (map na_evidence_id ms))"
  using assms
proof (induction ps arbitrary: ns)
  case (Cons p ps)
  obtain out where out: "p e obs = Inr out" using Cons.prems by (auto simp: andthen_Inr_iff)
  show ?case
  proof (cases out)
    case None
    then have "run_providers ps e obs ns = Inr ms" using Cons.prems out by simp
    then show ?thesis using Cons.IH by auto
  next
    case (Some n)
    then obtain ks where ks: "record_narrative n ns = Inr ks" "run_providers ps e obs ks = Inr ms"
      using Cons.prems out by (auto simp: andthen_Inr_iff)
    show ?thesis using Cons.IH[OF ks(2)] record_narrative_Inr[OF ks(1)] out Some by auto
  qed
qed simp

lemma project_from_Inr:
  assumes "project_from ps es obs ns = Inr ms"
  shows "(\<forall>n \<in> set ms. n \<in> set ns \<or> (\<exists>p \<in> set ps. \<exists>e \<in> set es. p e obs = Inr (Some n)))
    \<and> (distinct (map na_evidence_id ns) \<longrightarrow> distinct (map na_evidence_id ms))"
  using assms
proof (induction es arbitrary: ns)
  case (Cons e es)
  then obtain ks where "run_providers ps e obs ns = Inr ks" "project_from ps es obs ks = Inr ms"
    by (auto simp: andthen_Inr_iff)
  then show ?case using Cons.IH[of ks] run_providers_Inr[of ps e obs ns ks] by auto
qed simp

lemma project_all_Inr:
  assumes "project_all ps es obs = Inr ns"
  shows "\<And>n. n \<in> set ns \<Longrightarrow> \<exists>p \<in> set ps. \<exists>e \<in> set es. p e obs = Inr (Some n)"
    and "distinct (map na_evidence_id ns)"
  using project_from_Inr[of ps es obs "[]" ns] assms by (auto simp: project_all_def)

end
