(* ===== verification/ReviewLineage.thy ===== *)
theory ReviewLineage
  imports ReviewExtraction
begin

text \<open>
  The lineage of a completed review survives its audit: what \<open>persist_completed_review\<close> writes,
  \<open>project_lineage\<close> reads back, and accepts exactly if each source is a verification by the media tool and there
  is no other review. Both functions model \<^verbatim>\<open>openhands_runtime/result_extractor.py\<close>.
\<close>

section \<open>The audited lineage\<close>

definition carries_facts :: "narrative \<Rightarrow> bool" where
  "carries_facts n \<longleftrightarrow> \<not> (na_consumed_fact_ids n = [] \<and> na_consumed_fact_text_digests n = [])"

lemma lineage_from_Inr:
  assumes "lineage_from ns agg pids = Inr ls"
  shows "ls = map lineage_entry_of (filter carries_facts ns)"
    and "\<forall>n \<in> set ns. carries_facts n \<longrightarrow> lineage_entry_ok n"
    and "distinct (map le_projection_id ls)" and "set (map le_projection_id ls) \<inter> set pids = {}"
    and "distinct (concat (map le_consumed ls))" and "set (concat (map le_consumed ls)) \<inter> set agg = {}"
proof -
  have "ls = map lineage_entry_of (filter carries_facts ns)
      \<and> (\<forall>n \<in> set ns. carries_facts n \<longrightarrow> lineage_entry_ok n)
      \<and> distinct (map le_projection_id ls) \<and> set (map le_projection_id ls) \<inter> set pids = {}
      \<and> distinct (concat (map le_consumed ls)) \<and> set (concat (map le_consumed ls)) \<inter> set agg = {}"
    using assms
  proof (induction ns arbitrary: agg pids ls)
    case (Cons n ns)
    show ?case
    proof (cases "carries_facts n")
      case False
      then have "lineage_from ns agg pids = Inr ls" using Cons.prems by (simp add: carries_facts_def)
      then show ?thesis using Cons.IH False by simp
    next
      case True
      obtain ks where ok: "lineage_entry_ok n"
        and new: "na_projection_id n \<notin> set pids" "set (na_consumed_fact_ids n) \<inter> set agg = {}"
        and rest: "lineage_from ns (agg @ na_consumed_fact_ids n) (pids @ [na_projection_id n]) = Inr ks"
        and ls: "ls = lineage_entry_of n # ks"
        using Cons.prems True by (auto simp: carries_facts_def andthen_Inr_iff split: if_splits)
      have "distinct (na_consumed_fact_ids n)" using ok by (simp add: lineage_entry_ok_def)
      moreover have "le_projection_id (lineage_entry_of n) = na_projection_id n"
        "le_consumed (lineage_entry_of n) = na_consumed_fact_ids n" by (simp_all add: lineage_entry_of_def)
      moreover note ih = Cons.IH[OF rest]
      have ks: "ks = map lineage_entry_of (filter carries_facts ns)" using ih by (rule conjunct1)
      ultimately show ?thesis
        using conjunct2[OF ih] new ok True unfolding ls
        by (simp add: ks[symmetric] Int_Un_distrib Int_Un_distrib2 disjoint_iff) blast
    qed
  qed simp
  then show "ls = map lineage_entry_of (filter carries_facts ns)"
    and "\<forall>n \<in> set ns. carries_facts n \<longrightarrow> lineage_entry_ok n"
    and "distinct (map le_projection_id ls)" and "set (map le_projection_id ls) \<inter> set pids = {}"
    and "distinct (concat (map le_consumed ls))" and "set (concat (map le_consumed ls)) \<inter> set agg = {}"
    by blast+
qed

lemma lineage_from_in:
  assumes "lineage_from ns agg pids = Inr ls" and "l \<in> set ls"
  obtains n where "n \<in> set ns" "carries_facts n" "lineage_entry_ok n" "l = lineage_entry_of n"
  using assms lineage_from_Inr(1,2)[OF assms(1)] by auto

section \<open>Strict values in JSON\<close>

lemma strict_of_jstr [simp]: "strict_id s \<Longrightarrow> strict_of (Some (jstr s)) = Some s"
  by (simp add: strict_of_def jstr_def)

lemma strict_all_jstrs [simp]: "list_all strict_id ss \<Longrightarrow> strict_all (map jstr ss) = Some ss"
  by (induction ss) simp_all

lemma strict_list_of_jstrs [simp]: "list_all strict_id ss \<Longrightarrow> strict_list_of (Some (jstrs ss)) = Some ss"
  by (simp add: strict_list_of_def jstrs_def)

lemma list_of_Arr [simp]: "list_of (Some (Arr js)) = Some js"
  by (simp add: list_of_def)

lemma dropWhile_id_iff: "dropWhile P xs = xs \<longleftrightarrow> xs = [] \<or> \<not> P (hd xs)"
  using length_dropWhile_le[of P "tl xs"] by (cases xs) auto

lemma last_strip: "strip s \<noteq> [] \<Longrightarrow> \<not> py_isspace (last (strip s))"
  unfolding strip_def last_rev by (rule hd_dropWhile) simp

lemma strict_id_ends: "strict_id s \<longleftrightarrow> s \<noteq> [] \<and> \<not> py_isspace (hd s) \<and> \<not> py_isspace (last s)"
proof
  assume "strict_id s"
  then show "s \<noteq> [] \<and> \<not> py_isspace (hd s) \<and> \<not> py_isspace (last s)"
    using hd_strip[of s] last_strip[of s] by (simp add: strict_id_def)
next
  assume s: "s \<noteq> [] \<and> \<not> py_isspace (hd s) \<and> \<not> py_isspace (last s)"
  then have "dropWhile py_isspace s = s" "dropWhile py_isspace (rev s) = rev s"
    by (simp_all add: dropWhile_id_iff hd_rev)
  then show "strict_id s" using s by (simp add: strict_id_def strip_def)
qed

lemma strict_id_prefix: "strict_id p \<Longrightarrow> strict_id s \<Longrightarrow> strict_id (p @ s)"
  by (simp add: strict_id_ends)

section \<open>One entry\<close>

definition safe_of :: "lineage_entry \<Rightarrow> safe_entry" where
  "safe_of l = \<lparr>sf_projection_id = le_projection_id l, sf_source_id = le_source_id l, sf_fact_ids = le_consumed l\<rparr>"

lemma fact_json_matches: "fact_matches (fact_json (vf_fact_id f, vf_text_digest f)) f"
  by (simp add: fact_matches_def fact_json_def lit_def insert_commute)

lemma facts_json_match:
  "list_all2 fact_matches (map fact_json (zip (map vf_fact_id facts) (map vf_text_digest facts))) facts"
  by (induction facts) (simp_all add: fact_json_matches)

lemma lineage_json_fields:
  assumes "lineage_json l = Obj fs"
  shows "map_of fs (lit ''evidenceId'') = Some (jstr (le_evidence_id l))"
    and "map_of fs (lit ''projectionId'') = Some (jstr (le_projection_id l))"
    and "map_of fs (lit ''sourceObservationEventId'') = Some (jstr (le_source_id l))"
    and "map_of fs (lit ''consumedFactIds'') = Some (jstrs (le_consumed l))"
    and "map_of fs (lit ''facts'') = Some (Arr (map fact_json (zip (le_consumed l) (le_digests l))))"
  using assms by (auto simp: lineage_json_def lit_def)

lemma project_entry_of_narrative:
  assumes fn: "fact_narrative sha256 e ob src facts n" and ok: "lineage_entry_ok n" and carries: "carries_facts n"
    and v: "verified_source evs src (ei_evidenceId e) = Some v"
      "map_of (ob_facts ob) (lit ''visual_facts'') = map_of (vo_facts v) (lit ''visual_facts'')"
  shows "project_entry sha256 evs (lineage_json (lineage_entry_of n)) = Inr (safe_of (lineage_entry_of n))"
proof -
  let ?l = "lineage_entry_of n"
  obtain fs where fs: "lineage_json ?l = Obj fs" by (simp add: lineage_json_def)
  note fields = lineage_json_fields[OF fs]
  have n: "na_evidence_id n = ei_evidenceId e" "na_source_observation_event_id n = src"
      "na_consumed_fact_ids n = map vf_fact_id facts" "na_consumed_fact_text_digests n = map vf_text_digest facts"
    and derived: "derive_visual_fact_identities sha256 (ei_evidenceId e) src (map_of (vo_facts v) (lit ''visual_facts''))
        = Inr facts"
      "derive_visual_projection_id sha256 (ei_evidenceId e) src (map vf_fact_id facts) = Inr (na_projection_id n)"
    using fn v(2) by (simp_all add: fact_narrative_def)
  have strict: "strict_id (na_projection_id n)" "strict_id src" "strict_id (ei_evidenceId e)"
      "list_all strict_id (map vf_fact_id facts)" "distinct (map vf_fact_id facts)"
    using ok by (simp_all add: lineage_entry_ok_def n)
  have l: "le_evidence_id ?l = ei_evidenceId e" "le_projection_id ?l = na_projection_id n" "le_source_id ?l = src"
      "le_consumed ?l = map vf_fact_id facts" "le_digests ?l = map vf_text_digest facts"
    by (simp_all add: lineage_entry_of_def n)
  have read: "strict_of (map_of fs (lit ''projectionId'')) = Some (na_projection_id n)"
      "strict_of (map_of fs (lit ''sourceObservationEventId'')) = Some src"
      "strict_of (map_of fs (lit ''evidenceId'')) = Some (ei_evidenceId e)"
      "strict_list_of (map_of fs (lit ''consumedFactIds'')) = Some (map vf_fact_id facts)"
      "list_of (map_of fs (lit ''facts'')) =
        Some (map fact_json (zip (map vf_fact_id facts) (map vf_text_digest facts)))"
    unfolding fields l using strict(1-4) by simp_all
  have "facts \<noteq> []" using carries by (auto simp: carries_facts_def n)
  then show ?thesis
    unfolding project_entry_def fs using strict(5) derived facts_json_match[of facts]
    by (simp add: read v(1) safe_of_def l)
qed

section \<open>The image provider and the source that is checked\<close>

text \<open>
  The image provider goes by the tool name or the capability of an observation and by its source references; the check of a
  completed review demands more of the source. Where it finds a source for an observation with a unique id, it is this observation.
\<close>

lemma verified_source_same:
  assumes "distinct (map oe_id (native_observations evs))" and "Observation_Event ev \<in> set evs"
    and "oe_observation ev = Verification_Obs v" and "verified_source evs (oe_id ev) i \<noteq> None"
  shows "verified_source evs (oe_id ev) i = Some v"
  using assms(3,4) by_id_unique(2)[OF assms(1,2)]
  by (auto simp: verified_source_def split: option.splits if_splits)

lemma verified_sourceD:
  assumes "verified_source evs src i = Some v"
  shows "vo_capability v = VISUAL_FACT_CAPABILITY" and "vo_evidence_id v = i"
  using assms by (auto simp: verified_source_def split: option.splits native_observation.splits if_splits)

lemma image_facts_kept:
  assumes "vo_capability v = VISUAL_FACT_CAPABILITY"
  shows "map_of (ob_facts (verification_observation R ev v)) (lit ''visual_facts'') = map_of (vo_facts v) (lit ''visual_facts'')"
  using assms
  by (simp add: verification_observation_def sanitize_verification_facts_def VISUAL_FACT_CAPABILITY_def lit_def)

lemma narrative_entry:
  assumes unique: "distinct (map oe_id (native_observations evs))"
    and ns: "project_all [image_provider U sha256] es (focusproof_observations R evs a b) = Inr ns"
    and n: "n \<in> set ns" "carries_facts n" "lineage_entry_ok n"
    and verified: "verified_source evs (na_source_observation_event_id n) (na_evidence_id n) \<noteq> None"
  shows "project_entry sha256 evs (lineage_json (lineage_entry_of n)) = Inr (safe_of (lineage_entry_of n))"
proof -
  let ?obs = "focusproof_observations R evs a b"
  obtain e where e: "e \<in> set es" "image_provider U sha256 e ?obs = Inr (Some n)"
    using project_all_Inr(1)[OF ns n(1)] by auto
  have "project_image sha256 e ?obs = Inr (Some n)"
    using e(2) by (simp add: image_provider_def split: if_splits)
  moreover have "na_consumed_fact_ids n \<noteq> []" using n(2,3) by (auto simp: carries_facts_def lineage_entry_ok_def)
  ultimately obtain ob src facts where ob: "ob \<in> set ?obs" and fn: "fact_narrative sha256 e ob src facts n"
    using project_image_facts by blast
  have img: "image_observation e ob" "ob_sourceEventId ob = Some src" using fn by (simp_all add: fact_narrative_def)
  obtain ev v where ev: "Observation_Event ev \<in> set evs" "oe_observation ev = Verification_Obs v" "oe_id ev = src"
    "ob = verification_observation R ev v"
    using focusproof_observation_source[OF ob img(2)] by blast
  have v: "verified_source evs src (ei_evidenceId e) = Some v"
    using verified_source_same[OF unique ev(1,2)] verified fn unfolding ev(3) by (auto simp: fact_narrative_def)
  have kept: "map_of (ob_facts ob) (lit ''visual_facts'') = map_of (vo_facts v) (lit ''visual_facts'')"
    unfolding ev(4) by (rule image_facts_kept[OF verified_sourceD(1)[OF v]])
  show ?thesis by (rule project_entry_of_narrative[OF fn n(3,2) v kept])
qed

section \<open>All entries\<close>

lemma project_entries_ok:
  assumes "\<And>l. l \<in> set ls \<Longrightarrow> project_entry sha256 evs (lineage_json l) = Inr (safe_of l)"
    and "distinct (map le_projection_id ls)" and "distinct (map le_source_id ls)"
    and "distinct (concat (map le_consumed ls))"
    and "\<And>l. l \<in> set ls \<Longrightarrow> \<not> duplicates seen (safe_of l)"
  shows "project_entries sha256 evs (map lineage_json ls) seen = Inr (seen @ map safe_of ls)"
  using assms
proof (induction ls arbitrary: seen)
  case (Cons l ls)
  have "\<not> duplicates (seen @ [safe_of l]) (safe_of k)" if k: "k \<in> set ls" for k
  proof -
    have "\<not> duplicates seen (safe_of k)" using Cons.prems(5) k by simp
    moreover have "le_projection_id k \<in> set (map le_projection_id ls)" "le_source_id k \<in> set (map le_source_id ls)"
      "set (le_consumed k) \<subseteq> set (concat (map le_consumed ls))"
      using k by auto
    moreover have "le_projection_id l \<notin> set (map le_projection_id ls)" "le_source_id l \<notin> set (map le_source_id ls)"
      "set (le_consumed l) \<inter> set (concat (map le_consumed ls)) = {}"
      using Cons.prems(2-4) by (simp_all del: set_map set_concat)
    ultimately have "\<not> duplicates seen (safe_of k)" "le_projection_id k \<noteq> le_projection_id l"
      "le_source_id k \<noteq> le_source_id l" "set (le_consumed k) \<inter> set (le_consumed l) = {}"
      by (metis, metis, metis, blast)
    then show ?thesis by (auto simp: duplicates_def safe_of_def)
  qed
  moreover have "distinct (map le_projection_id ls)" "distinct (map le_source_id ls)" "distinct (concat (map le_consumed ls))"
    using Cons.prems(2-4) by simp_all
  ultimately have ih: "project_entries sha256 evs (map lineage_json ls) (seen @ [safe_of l])
      = Inr ((seen @ [safe_of l]) @ map safe_of ls)"
    using Cons.IH[OF Cons.prems(1)] by simp
  have "project_entry sha256 evs (lineage_json l) = Inr (safe_of l)" "\<not> duplicates seen (safe_of l)"
    using Cons.prems(1,5) by simp_all
  then show ?case using ih by simp
qed simp

lemma sources_distinct:
  assumes "\<And>n. n \<in> set ns \<Longrightarrow> verified_source evs (na_source_observation_event_id n) (na_evidence_id n) \<noteq> None"
    and "distinct (map na_evidence_id ns)"
  shows "distinct (map na_source_observation_event_id ns)"
  using assms
proof (induction ns)
  case (Cons n ns)
  have "na_source_observation_event_id m \<noteq> na_source_observation_event_id n" if m: "m \<in> set ns" for m
  proof
    assume same: "na_source_observation_event_id m = na_source_observation_event_id n"
    obtain v w where "verified_source evs (na_source_observation_event_id n) (na_evidence_id n) = Some v"
      "verified_source evs (na_source_observation_event_id n) (na_evidence_id m) = Some w"
      using Cons.prems(1)[of n] Cons.prems(1)[of m] m same by auto
    then have "na_evidence_id n = na_evidence_id m"
      by (auto simp: verified_source_def split: option.splits native_observation.splits if_splits)
    then show False using Cons.prems(2) m by auto
  qed
  then show ?case using Cons by force
qed simp

lemma lineage_projects:
  assumes unique: "distinct (map oe_id (native_observations evs))"
    and ns: "project_all [image_provider U sha256] es (focusproof_observations R evs a b) = Inr ns"
    and ls: "lineage_from ns [] [] = Inr ls"
    and verified: "\<forall>l \<in> set ls. verified_source evs (le_source_id l) (le_evidence_id l) \<noteq> None"
  shows "project_entries sha256 evs (map lineage_json ls) [] = Inr (map safe_of ls)"
proof -
  let ?ms = "filter carries_facts ns"
  note from_ls = lineage_from_Inr[OF ls]
  have source: "verified_source evs (na_source_observation_event_id n) (na_evidence_id n) \<noteq> None" if "n \<in> set ?ms" for n
    using that verified unfolding from_ls(1) by (auto simp: lineage_entry_of_def)
  have entry: "project_entry sha256 evs (lineage_json l) = Inr (safe_of l)" if l: "l \<in> set ls" for l
  proof -
    obtain n where n: "n \<in> set ns" "carries_facts n" "lineage_entry_ok n" "l = lineage_entry_of n"
      by (rule lineage_from_in[OF ls l])
    then show ?thesis using narrative_entry[OF unique ns n(1-3)] source[of n] by simp
  qed
  have "distinct (map na_evidence_id ?ms)" using project_all_Inr(2)[OF ns] by (rule distinct_map_filter)
  with source have "distinct (map na_source_observation_event_id ?ms)" by (rule sources_distinct)
  moreover have "map le_source_id ls = map na_source_observation_event_id ?ms"
    unfolding from_ls(1) by (simp add: lineage_entry_of_def)
  ultimately have "distinct (map le_source_id ls)" by simp
  then show ?thesis
    using project_entries_ok[OF entry from_ls(3) _ from_ls(5), of "[]"] by (simp add: duplicates_def)
qed

section \<open>What an accepted lineage shows\<close>

lemma project_entry_verified:
  assumes "project_entry sha256 evs (lineage_json l) = Inr e"
  shows "verified_source evs (le_source_id l) (le_evidence_id l) \<noteq> None"
proof -
  obtain fs where fs: "lineage_json l = Obj fs" by (simp add: lineage_json_def)
  have strict: "strict_of (Some (jstr s)) = Some t \<Longrightarrow> t = s" for s t
    by (simp add: strict_of_def jstr_def split: if_splits)
  show ?thesis
    using assms unfolding project_entry_def fs json.case lineage_json_fields(1-3)[OF fs]
    by (auto split: option.splits if_splits dest!: strict)
qed

lemma project_entries_verified:
  "project_entries sha256 evs items seen = Inr es \<Longrightarrow> \<forall>item \<in> set items. \<exists>e. project_entry sha256 evs item = Inr e"
  by (induction items arbitrary: seen) (auto simp: andthen_Inr_iff)

lemma project_lineage_Inr:
  assumes "project_lineage sha256 audit evs = Inr c"
  obtains score completed items es where "filter (\<lambda>e. ve_type e = Score_Calculated) audit = [score]"
    "filter (\<lambda>e. ve_type e = Review_Completed) audit = [completed]"
    "list_of (map_of (ve_payload score) (lit ''narrativeLineage'')) = Some items" "items \<noteq> []"
    "project_entries sha256 evs items [] = Inr es"
  using assms by (auto simp: project_lineage_def andthen_Inr_iff split: list.splits option.splits)

section \<open>What is written\<close>

lemma find_session_tupdate:
  assumes "\<And>s. ls_session_id (f s) = ls_session_id s"
  shows "find_session i (d\<lparr>t_reviews := rs, t_sessions := tupdate P f (t_sessions d)\<rparr>) = None \<longleftrightarrow> find_session i d = None"
  using map_tupdate_key[of ls_session_id f P "t_sessions d", OF assms]
  by (simp add: find_session_def find_id_None flip: set_map)

lemma add_review_audit:
  assumes "add_from_native_event r now d = Inr (d1, x)"
  shows "t_audit_events d1 = t_audit_events d" and "find_session i d1 = None \<longleftrightarrow> find_session i d = None"
  using assms
  by (auto simp: add_from_native_event_def andthen_Inr_iff find_session_tupdate split: option.splits)

lemma add_review_log:
  assumes "add_from_native_event r now d = Inr (d1, x)"
  shows "audit_inv d1 \<longleftrightarrow> audit_inv d" and "persistent_list i d1 = persistent_list i d"
  using add_review_audit[OF assms]
  by (simp_all add: audit_inv_def persistent_list_def audit_list_def session_events_def)

lemma append_listed:
  assumes inv: "audit_inv d" and es: "persistent_list i d = Inr es"
    and app: "audit_append i (lit (event_type_value ty)) (lit (actor_value a)) (Obj p) None (Some k) fresh now d = Inr (d', x)"
    and k: "k \<noteq> []" "k \<notin> ae_event_id ` set (t_audit_events d)"
  shows "audit_inv d'" and "t_audit_events d' = t_audit_events d @ [x]" and "ae_event_id x = k"
    and "persistent_list i d' = Inr (es @ [\<lparr>ve_id = k, ve_sessionId = i, ve_type = ty,
      ve_sequence = int (length (session_events i d)) + 1, ve_createdAt = now, ve_actor = a, ve_payload = p\<rparr>])"
proof -
  have "replayed i None (Some k) d = None" using k(2) by (simp add: replayed_def find_id_None[THEN iffD2])
  then have "x = new_event i (lit (event_type_value ty)) (lit (actor_value a)) (Obj p) None (Some k) fresh now d
      \<and> insert_audit_event x d = Inr d'"
    by (rule_tac audit_append_cases[OF inv app]; simp)
  then have x: "x = new_event i (lit (event_type_value ty)) (lit (actor_value a)) (Obj p) None (Some k) fresh now d"
    and ins: "insert_audit_event x d = Inr d'" by (rule conjunct1, rule conjunct2)
  have seq: "ae_sequence x = int (length (session_events (ae_session_id x) d)) + 1" by (simp add: x)
  note after = insert_audit_event_inv[OF inv ins seq]
  show "audit_inv d'" by (rule after(1))
  show "t_audit_events d' = t_audit_events d @ [x]" by (subst after(2)) simp
  show "ae_event_id x = k" using k(1) by (simp add: x new_event_def event_id_or_def)
  show "persistent_list i d' = Inr (es @ [\<lparr>ve_id = k, ve_sessionId = i, ve_type = ty,
      ve_sequence = int (length (session_events i d)) + 1, ve_createdAt = now, ve_actor = a, ve_payload = p\<rparr>])"
    using es k(1) unfolding persistent_list_def after(3) runtime_events_append
    by (simp add: x runtime_event_def payload_of_def) (simp add: new_event_def event_id_or_def)
qed

lemma review_ids_differ: "score_event_id s \<noteq> review_event_id s" "score_event_id s \<noteq> []" "review_event_id s \<noteq> []"
  by (simp_all add: score_event_id_def review_event_id_def lit_def)

lemma andthen_pairE:
  assumes "andthen m (\<lambda>(x, y). k x y) = Inr z"
  obtains x y where "m = Inr (x, y)" "k x y = Inr z"
  using assms by (auto simp: andthen_Inr_iff)

lemma persist_listed:
  assumes inv: "audit_inv d" and es: "persistent_list (hd_session_id h) d = Inr es"
    and ids: "score_event_id source \<notin> ae_event_id ` set (t_audit_events d)"
      "review_event_id source \<notin> ae_event_id ` set (t_audit_events d)"
    and persisted: "persist_completed_review h source n review refs lineage consumed rid now d = Inr d'"
  obtains score completed r where "persistent_list (hd_session_id h) d' = Inr (es @ [score, completed])"
    "ve_type score = Score_Calculated" "ve_id score = score_event_id source"
    "ve_payload score = score_payload review refs source lineage consumed"
    "ve_type completed = Review_Completed" "ve_id completed = review_event_id source"
    "ve_payload completed = review_payload r review (score_event_id source) source lineage"
proof -
  let ?i = "hd_session_id h"
  obtain d1 r d2 x y where
    d1: "add_from_native_event (review_record h rid source ''completed'' (Some (re_score review))
      (Some (review_json review)) n now) now d = Inr (d1, r)"
    and d2: "audit_append ?i (lit ''score.calculated'') (lit ''system'') (Obj (score_payload review refs source lineage consumed))
      None (Some (score_event_id source)) [] now d1 = Inr (d2, x)"
    and d3: "audit_append ?i (lit ''review.completed'') (lit ''system'')
      (Obj (review_payload (rv_review_id r) review (ae_event_id x) source lineage)) None (Some (review_event_id source))
      [] now d2 = Inr (d', y)"
    using persisted unfolding persist_completed_review_def by (elim andthen_pairE) simp
  have inv1: "audit_inv d1" and es1: "persistent_list ?i d1 = Inr es"
    using add_review_log[OF d1] inv es by simp_all
  have ids1: "score_event_id source \<notin> ae_event_id ` set (t_audit_events d1)"
    "review_event_id source \<notin> ae_event_id ` set (t_audit_events d1)"
    using ids by (simp_all add: add_review_audit(1)[OF d1])
  note s = append_listed[where ty = Score_Calculated and a = System, simplified, OF inv1 es1 d2 review_ids_differ(2) ids1(1)]
  have id2: "review_event_id source \<notin> ae_event_id ` set (t_audit_events d2)"
    using ids1(2) review_ids_differ(1)[of source] s(3) by (auto simp: s(2))
  note r = append_listed[where ty = Review_Completed and a = System, simplified, OF s(1) s(4) d3 review_ids_differ(3) id2]
  show ?thesis using that r(4) by (simp add: s(3))
qed

section \<open>When a review completes\<close>

lemma first_failure_None: "first_failure ps es obs = None \<longleftrightarrow> (\<forall>p \<in> set ps. p es obs = None)"
  by (induction ps) (auto split: option.splits)

lemma with_audit_Inr: "with_audit h d k = (d', Inr r) \<Longrightarrow> d' = d \<and> (\<exists>audit. r = k audit)"
  by (auto simp: with_audit_def andthen_Inr_iff)

lemma status_of_result [simp]:
  "rr_status (runtime_result_of h evs audit st used qs rv err) = st"
  "rr_review (runtime_result_of h evs audit st used qs rv err) = rv"
  "rr_error (runtime_result_of h evs audit st used qs rv err) = err"
  by (simp_all add: runtime_result_of_def)

lemma draft_events_iff:
  "(i, ev) \<in> set (draft_events evs) \<longleftrightarrow> (i, Observation_Event ev) \<in> set (indexed evs)
     \<and> last_answer_index evs < i \<and> oe_observation ev = Draft_Obs True"
  unfolding draft_events_def set_map_filter
  by (auto split: native_event.splits if_splits intro!: bexI[of _ "(i, Observation_Event ev)"])

lemma waiting_events_iff:
  "(i, ev, q) \<in> set (waiting_events evs) \<longleftrightarrow> (i, Observation_Event ev) \<in> set (indexed evs)
     \<and> last_answer_index evs < i \<and> oe_observation ev = Question_Obs q"
  unfolding waiting_events_def set_map_filter
  by (auto split: native_event.splits native_observation.splits if_splits
      intro!: bexI[of _ "(i, Observation_Event ev)"])

lemma sorted_map_filter:
  assumes "sorted (map fst xs)" and "\<And>x y. x \<in> set xs \<Longrightarrow> f x = Some y \<Longrightarrow> g y = fst x"
  shows "sorted (map g (List.map_filter f xs))"
  using assms
proof (induction xs)
  case (Cons x xs)
  have "sorted (map g (List.map_filter f xs))" using Cons by simp
  moreover have "g y \<le> g z" if y: "f x = Some y" and z: "z \<in> set (List.map_filter f xs)" for y z
  proof -
    obtain u where u: "u \<in> set xs" "f u = Some z" using z by (auto simp: set_map_filter)
    have "g y = fst x" "g z = fst u" using Cons.prems(2) y u by simp_all
    then show ?thesis using Cons.prems(1) u(1) by simp
  qed
  ultimately show ?case by (auto simp: List.map_filter_simps split: option.splits)
qed (simp add: List.map_filter_simps)

lemma sorted_indexed: "sorted (map fst (indexed xs))"
  by (simp add: indexed_def sorted_wrt_map)

lemma waiting_last:
  assumes "w \<in> set (waiting_events evs)"
  shows "fst w \<le> fst (last (waiting_events evs))"
proof -
  have "sorted (map fst (waiting_events evs))"
    unfolding waiting_events_def
    by (rule sorted_map_filter[OF sorted_indexed])
      (auto split: native_event.splits native_observation.splits if_splits)
  moreover obtain ws u where "waiting_events evs = ws @ [u]" using assms by (cases "waiting_events evs" rule: rev_cases) auto
  ultimately show ?thesis using assms by (auto simp: sorted_append)
qed

lemma extract_failed:
  assumes "extract_managed X h evs goal es answers rid now d = (d', Inr res)" and "rr_status res = Failed_Review"
  shows "d' = d"
  using assms unfolding extract_managed_def Let_def
  by (auto split: if_splits prod.splits sum.splits option.splits dest!: with_audit_Inr)

lemma extract_completed:
  assumes "extract_managed X h evs goal es answers rid now d = (d', Inr res)" and "rr_status res = Completed_Review"
  obtains i ev review lineage consumed where "draft_events evs \<noteq> []" "last (draft_events evs) = (i, ev)"
    "waiting_events evs = [] \<or> fst (last (waiting_events evs)) \<le> i"
    "first_failure (ex_policies X) es (draft_observations (ex_redaction X) evs i) = None"
    "review_draft X goal es answers (draft_observations (ex_redaction X) evs i) = Inr (review, lineage, consumed)"
    "persist_completed_review h (oe_id ev) (length evs) review (map ei_evidenceId es) lineage consumed rid now d = Inr d'"
    "rr_review res = Some review"
proof -
  let ?w = "waiting_events evs" and ?ds = "draft_events evs"
  show ?thesis
  proof (cases "?w \<noteq> [] \<and> (?ds = [] \<or> fst (last ?ds) < fst (last ?w))")
    case True
    then have False
      using assms unfolding extract_managed_def Let_def
      by (auto split: prod.splits sum.splits dest!: with_audit_Inr)
    then show ?thesis by blast
  next
    case waiting: False
    show ?thesis
    proof (cases "?ds = []")
      case True
      then have False
        using assms waiting unfolding extract_managed_def Let_def by (auto dest!: with_audit_Inr)
      then show ?thesis by blast
    next
      case drafts: False
      obtain i ev where last: "last ?ds = (i, ev)" by force
      let ?obs = "draft_observations (ex_redaction X) evs i"
      have none: "first_failure (ex_policies X) es ?obs = None"
        using assms waiting drafts last unfolding extract_managed_def Let_def
        by (auto split: option.splits dest!: with_audit_Inr)
      obtain review lineage consumed where
        r: "review_draft X goal es answers ?obs = Inr (review, lineage, consumed)"
        using assms waiting drafts last none unfolding extract_managed_def Let_def
        by (auto split: sum.splits)
      obtain d1 where p: "persist_completed_review h (oe_id ev) (length evs) review (map ei_evidenceId es)
          lineage consumed rid now d = Inr d1"
        using assms waiting drafts last none r unfolding extract_managed_def Let_def
        by (auto split: sum.splits)
      have "d' = d1 \<and> rr_review res = Some review"
        using assms waiting drafts last none r p unfolding extract_managed_def Let_def
        by (auto dest!: with_audit_Inr)
      then show ?thesis
        using that[of i ev review lineage consumed] waiting drafts last none r p by auto
    qed
  qed
qed

text \<open>C37.
  An extraction that reports a completed review has one to report: an accepted draft after the learner's last answer
  and not before the last question asked since, every completion policy satisfied by the observations of that draft,
  and the score of exactly those observations. An extraction that reports a failed run has written nothing.\<close>

theorem review_completion:
  assumes "extract_managed X h evs goal es answers rid now d = (d', Inr res)"
  shows "(rr_status res = Failed_Review \<longrightarrow> d' = d)
    \<and> (rr_status res = Completed_Review \<longrightarrow>
        (\<exists>i ev ns. (i, Observation_Event ev) \<in> set (indexed evs) \<and> oe_observation ev = Draft_Obs True
          \<and> last_answer_index evs < i
          \<and> (\<forall>j ev' q. (j, Observation_Event ev') \<in> set (indexed evs) \<longrightarrow> oe_observation ev' = Question_Obs q \<longrightarrow> j \<le> i)
          \<and> (\<forall>p \<in> set (ex_policies X). p es (draft_observations (ex_redaction X) evs i) = None)
          \<and> project_all (ex_providers X) es (draft_observations (ex_redaction X) evs i) = Inr ns
          \<and> rr_review res = Some (score_learning_session (ex_unicode X) goal
              (narratives_as_evidence (ex_sha256 X) es ns) answers (draft_observations (ex_redaction X) evs i))))"
proof (intro conjI impI)
  assume "rr_status res = Failed_Review"
  then show "d' = d" using assms by (rule extract_failed[rotated])
next
  assume "rr_status res = Completed_Review"
  with assms obtain i ev review lineage consumed where
    last: "draft_events evs \<noteq> []" "last (draft_events evs) = (i, ev)"
    and waiting: "waiting_events evs = [] \<or> fst (last (waiting_events evs)) \<le> i"
    and policies: "first_failure (ex_policies X) es (draft_observations (ex_redaction X) evs i) = None"
    and draft: "review_draft X goal es answers (draft_observations (ex_redaction X) evs i) = Inr (review, lineage, consumed)"
    and review: "rr_review res = Some review"
    by (rule extract_completed)
  have "(i, ev) \<in> set (draft_events evs)" using last last_in_set[of "draft_events evs"] by simp
  then have ev: "(i, Observation_Event ev) \<in> set (indexed evs)" "oe_observation ev = Draft_Obs True"
      "last_answer_index evs < i" by (simp_all add: draft_events_iff)
  have questions: "j \<le> i" if "(j, Observation_Event ev') \<in> set (indexed evs)" "oe_observation ev' = Question_Obs q" for j ev' q
  proof (cases "last_answer_index evs < j")
    case True
    then have "(j, ev', q) \<in> set (waiting_events evs)" using that by (simp add: waiting_events_iff)
    then show ?thesis using waiting_last[of "(j, ev', q)" evs] waiting by auto
  qed (use ev(3) in simp)
  obtain ns where ns: "project_all (ex_providers X) es (draft_observations (ex_redaction X) evs i) = Inr ns"
    and score: "review = score_learning_session (ex_unicode X) goal
      (narratives_as_evidence (ex_sha256 X) es ns) answers (draft_observations (ex_redaction X) evs i)"
    using draft by (auto simp: review_draft_def andthen_Inr_iff)
  show "\<exists>i ev ns. (i, Observation_Event ev) \<in> set (indexed evs) \<and> oe_observation ev = Draft_Obs True
          \<and> last_answer_index evs < i
          \<and> (\<forall>j ev' q. (j, Observation_Event ev') \<in> set (indexed evs) \<longrightarrow> oe_observation ev' = Question_Obs q \<longrightarrow> j \<le> i)
          \<and> (\<forall>p \<in> set (ex_policies X). p es (draft_observations (ex_redaction X) evs i) = None)
          \<and> project_all (ex_providers X) es (draft_observations (ex_redaction X) evs i) = Inr ns
          \<and> rr_review res = Some (score_learning_session (ex_unicode X) goal
              (narratives_as_evidence (ex_sha256 X) es ns) answers (draft_observations (ex_redaction X) evs i))"
    using ev questions policies ns review score unfolding first_failure_None by blast
qed



section \<open>The round trip\<close>

lemma strict_score_id: "strict_id s \<Longrightarrow> strict_id (score_event_id s)"
  unfolding score_event_id_def by (rule strict_id_prefix) (simp_all add: strict_id_ends lit_def py_isspace_def)

lemma score_payload_fields:
  "map_of (score_payload review refs source lineage consumed) (lit ''narrativeLineage'') = Some (Arr (map lineage_json lineage))"
  "map_of (score_payload review refs source lineage consumed) (lit ''consumedFactIds'') = Some (jstrs consumed)"
  "map_of (score_payload review refs source lineage consumed) (lit ''sourceObservationEventId'') = Some (jstr source)"
  by (simp_all add: score_payload_def)

lemma review_payload_fields:
  "map_of (review_payload r review sid source lineage) (lit ''scoreEventId'') = Some (jstr sid)"
  "map_of (review_payload r review sid source lineage) (lit ''sourceObservationEventId'') = Some (jstr source)"
  "lineage \<noteq> [] \<Longrightarrow> map_of (review_payload r review sid source lineage) (lit ''narrativeProjectionIds'')
    = Some (jstrs (map le_projection_id lineage))"
  by (simp_all add: review_payload_def)

lemma project_lineage_written:
  assumes audit: "filter (\<lambda>e. ve_type e = Score_Calculated) audit = [score]"
      "filter (\<lambda>e. ve_type e = Review_Completed) audit = [completed]"
    and score: "ve_id score = score_event_id source" "ve_payload score = score_payload review refs source lineage consumed"
    and completed: "ve_id completed = review_event_id source"
      "ve_payload completed = review_payload r review (score_event_id source) source lineage"
    and source: "completion_source evs = Some source" "strict_id source"
    and lineage: "lineage_from ns [] [] = Inr lineage" "lineage \<noteq> []"
      "consumed = sort (concat (map le_consumed lineage))"
    and entries: "project_entries sha256 evs (map lineage_json lineage) [] = Inr (map safe_of lineage)"
  shows "\<exists>c. project_lineage sha256 audit evs = Inr c \<and> cl_consumed c = consumed
    \<and> cl_projection_ids c = map le_projection_id lineage \<and> cl_source_ids c = map le_source_id lineage
    \<and> cl_fact_ids c = concat (map le_consumed lineage)"
proof -
  note from_ls = lineage_from_Inr[OF lineage(1)]
  have safe: "map sf_projection_id (map safe_of lineage) = map le_projection_id lineage"
      "map sf_source_id (map safe_of lineage) = map le_source_id lineage"
      "map sf_fact_ids (map safe_of lineage) = map le_consumed lineage"
    by (simp_all add: safe_of_def)
  have ok: "strict_id (le_projection_id l)" "list_all strict_id (le_consumed l)" if l: "l \<in> set lineage" for l
  proof -
    obtain n where "lineage_entry_ok n" "l = lineage_entry_of n" using lineage_from_in[OF lineage(1) l] by metis
    then show "strict_id (le_projection_id l)" "list_all strict_id (le_consumed l)"
      by (simp_all add: lineage_entry_ok_def lineage_entry_of_def)
  qed
  have strict: "list_all strict_id consumed" "list_all strict_id (map le_projection_id lineage)"
    using ok unfolding lineage(3) list_all_iff set_sort set_concat set_map by blast+
  have distinct: "distinct consumed" unfolding lineage(3) using from_ls(5) by simp
  note fields = score_payload_fields review_payload_fields(1,2) review_payload_fields(3)[OF lineage(2)]
  have checks: "map lineage_json lineage \<noteq> [] \<and> distinct consumed \<and> distinct (map le_projection_id lineage)
      \<and> Some source = Some source \<and> Some source = Some source
      \<and> score_event_id source = score_event_id source \<and> review_event_id source = review_event_id source"
    using distinct from_ls(3) lineage(2) by simp
  have last: "consumed = sort (concat (map sf_fact_ids (map safe_of lineage))) \<and> score_event_id source = score_event_id source
      \<and> map le_projection_id lineage = map sf_projection_id (map safe_of lineage)"
    unfolding safe using lineage(3) by simp
  show ?thesis
    unfolding project_lineage_def audit source(1) list.case option.case prod.case score completed fields list_of_Arr
      strict_list_of_jstrs[OF strict(1)] strict_list_of_jstrs[OF strict(2)]
      strict_of_jstr[OF strict_score_id[OF source(2)]] strict_of_jstr[OF source(2)] andthen_require
    unfolding if_P[OF checks] entries andthen_Inr if_P[OF last] unfolding safe
    by simp
qed

lemma if_bothI: "(P \<Longrightarrow> A) \<Longrightarrow> (\<not> P \<Longrightarrow> B) \<Longrightarrow> if P then A else B"
  by simp

text \<open>C38.
  Take an extraction that completes with the image provider alone, over a readable audit log that does not have the ids of
  its two events yet, and native events whose observations have unique ids, that of the draft neither empty nor with
  white space around it. The log can be read again afterwards, and the
  product's own check of a completed review accepts it exactly if the log had no earlier score or review event, the
  lineage is not empty, and each of its sources is a successful verification by the media tool of the entry's evidence
  (\<open>verified_source\<close>), which the provider does not ask for. What it accepts has the same consumed facts, projections and
  sources that were written.\<close>

theorem completed_lineage_roundtrip:
  assumes "extract_managed X h evs goal es answers rid now d = (d', Inr res)" and "rr_status res = Completed_Review"
    and "ex_providers X = [image_provider (ex_unicode X) (ex_sha256 X)]"
    and "distinct (map oe_id (native_observations evs))"
    and "completion_source evs = Some source" and "strict_id source"
    and "review_draft X goal es answers (draft_observations (ex_redaction X) evs (fst (last (draft_events evs))))
      = Inr (review, lineage, consumed)"
    and "audit_inv d" and "persistent_list (hd_session_id h) d = Inr old"
    and "score_event_id source \<notin> ae_event_id ` set (t_audit_events d)"
    and "review_event_id source \<notin> ae_event_id ` set (t_audit_events d)"
  shows "\<exists>audit. persistent_list (hd_session_id h) d' = Inr audit \<and>
    (if (\<forall>e \<in> set old. ve_type e \<noteq> Score_Calculated \<and> ve_type e \<noteq> Review_Completed) \<and> lineage \<noteq> []
        \<and> (\<forall>l \<in> set lineage. verified_source evs (le_source_id l) (le_evidence_id l) \<noteq> None)
     then \<exists>c. project_lineage (ex_sha256 X) audit evs = Inr c
       \<and> cl_consumed c = consumed \<and> cl_projection_ids c = map le_projection_id lineage
       \<and> cl_source_ids c = map le_source_id lineage \<and> cl_fact_ids c = concat (map le_consumed lineage)
     else \<exists>e. project_lineage (ex_sha256 X) audit evs = Inl e)"
proof -
  obtain i ev review' lineage' consumed' where
    last: "last (draft_events evs) = (i, ev)" and drafts: "draft_events evs \<noteq> []"
    and draft: "review_draft X goal es answers (draft_observations (ex_redaction X) evs i) = Inr (review', lineage', consumed')"
    and written: "persist_completed_review h (oe_id ev) (length evs) review' (map ei_evidenceId es) lineage' consumed'
      rid now d = Inr d'"
    using assms(1,2) by (rule extract_completed)
  have same: "review' = review" "lineage' = lineage" "consumed' = consumed"
    using draft assms(7) by (simp_all add: last)
  have src: "oe_id ev = source" using assms(5) drafts by (simp add: completion_source_def last)
  let ?obs = "focusproof_observations (ex_redaction X) evs (last_accepted_draft_index evs i) i"
  obtain ns where ns: "project_all [image_provider (ex_unicode X) (ex_sha256 X)] es ?obs = Inr ns"
    and ls: "lineage_from ns [] [] = Inr lineage" and consumed: "consumed = sort (concat (map le_consumed lineage))"
    using draft unfolding review_draft_def same draft_observations_def assms(3)
    by (auto simp: andthen_Inr_iff audited_lineage_def)
  obtain score completed r where after: "persistent_list (hd_session_id h) d' = Inr (old @ [score, completed])"
    and score: "ve_type score = Score_Calculated" "ve_id score = score_event_id source"
      "ve_payload score = score_payload review (map ei_evidenceId es) source lineage consumed"
    and completed: "ve_type completed = Review_Completed" "ve_id completed = review_event_id source"
      "ve_payload completed = review_payload r review (score_event_id source) source lineage"
    using persist_listed[OF assms(8-11) written[unfolded src same]] by metis
  let ?audit = "old @ [score, completed]"
  let ?accepted = "(\<forall>e \<in> set old. ve_type e \<noteq> Score_Calculated \<and> ve_type e \<noteq> Review_Completed) \<and> lineage \<noteq> []
        \<and> (\<forall>l \<in> set lineage. verified_source evs (le_source_id l) (le_evidence_id l) \<noteq> None)"
  have filters: "filter (\<lambda>e. ve_type e = Score_Calculated) ?audit = filter (\<lambda>e. ve_type e = Score_Calculated) old @ [score]"
    "filter (\<lambda>e. ve_type e = Review_Completed) ?audit = filter (\<lambda>e. ve_type e = Review_Completed) old @ [completed]"
    by (simp_all add: score(1) completed(1))
  have accepted: "\<exists>c. project_lineage (ex_sha256 X) ?audit evs = Inr c
      \<and> cl_consumed c = consumed \<and> cl_projection_ids c = map le_projection_id lineage
      \<and> cl_source_ids c = map le_source_id lineage \<and> cl_fact_ids c = concat (map le_consumed lineage)" if ok: ?accepted
  proof -
    have "filter (\<lambda>e. ve_type e = Score_Calculated) old = []" "filter (\<lambda>e. ve_type e = Review_Completed) old = []"
      using ok by (auto simp: filter_empty_conv)
    then show ?thesis
      using project_lineage_written[OF _ _ score(2,3) completed(2,3) assms(5,6) ls _ consumed lineage_projects[OF assms(4) ns ls]]
        filters ok by simp
  qed
  have ?accepted if "project_lineage (ex_sha256 X) ?audit evs = Inr c" for c
    using that
  proof (rule project_lineage_Inr)
    fix score' completed' items entries
    assume one: "filter (\<lambda>e. ve_type e = Score_Calculated) ?audit = [score']"
        "filter (\<lambda>e. ve_type e = Review_Completed) ?audit = [completed']"
      and items: "list_of (map_of (ve_payload score') (lit ''narrativeLineage'')) = Some items" "items \<noteq> []"
      and entries: "project_entries (ex_sha256 X) evs items [] = Inr entries"
    have "\<forall>e \<in> set old. ve_type e \<noteq> Score_Calculated \<and> ve_type e \<noteq> Review_Completed" and score': "score' = score"
      using one unfolding filters by (simp_all add: filter_empty_conv)
    moreover have "items = map lineage_json lineage"
      using items(1) unfolding score' score(3) score_payload_fields by simp
    ultimately show ?accepted using items(2) project_entries_verified[OF entries] project_entry_verified by fastforce
  qed
  then have refused: "\<exists>e. project_lineage (ex_sha256 X) ?audit evs = Inl e" if "\<not> ?accepted"
    using that by (cases "project_lineage (ex_sha256 X) ?audit evs") blast+
  show ?thesis
  proof (rule exI[of _ ?audit], rule conjI[OF after])
    show "if ?accepted then \<exists>c. project_lineage (ex_sha256 X) ?audit evs = Inr c
        \<and> cl_consumed c = consumed \<and> cl_projection_ids c = map le_projection_id lineage
        \<and> cl_source_ids c = map le_source_id lineage \<and> cl_fact_ids c = concat (map le_consumed lineage)
      else \<exists>e. project_lineage (ex_sha256 X) ?audit evs = Inl e"
      using accepted refused by (rule if_bothI)
  qed
qed

section \<open>A review with one image\<close>

definition sample_sha :: "str \<Rightarrow> str" where "sample_sha s = lit ''h''"

definition sample_extractor :: extractor where
  "sample_extractor =
     \<lparr>ex_unicode = ascii, ex_sha256 = sample_sha, ex_redaction = \<lparr>rd_source_ref = (\<lambda>r. r), rd_url_facts = (\<lambda>f. f)\<rparr>,
      ex_providers = [image_provider ascii sample_sha], ex_policies = []\<rparr>"

definition sample_handle :: handle where
  "sample_handle = \<lparr>hd_session_id = lit ''s1'', hd_conversation_hex = lit ''c1'', hd_conversation_text = lit ''c1'',
     hd_runtime_mode = lit ''openhands-local-real''\<rparr>"

definition sample_goal :: learning_goal where
  "sample_goal = \<lparr>lg_domain = lit ''art'', lg_title = lit ''t'', lg_goal = lit ''draw a tree'',
     lg_expectedOutput = None, lg_plannedMinutes = None\<rparr>"

definition sample_native :: "native_event list" where
  "sample_native =
     [Action_Event \<lparr>ac_id = lit ''a1'', ac_tool_name = VISUAL_FACT_TOOL_NAME, ac_tool_call_id = lit ''k1'',
        ac_action = Evidence_Reference_Act (lit ''ev1'')\<rparr>,
      Observation_Event \<lparr>oe_id = lit ''o1'', oe_action_id = lit ''a1'', oe_tool_name = VISUAL_FACT_TOOL_NAME,
        oe_tool_call_id = lit ''k1'', oe_observation = Verification_Obs
          \<lparr>vo_evidence_id = lit ''ev1'', vo_capability = lit ''image'', vo_status = Vs_Success,
           vo_facts = [(lit ''visual_facts'', Arr [jstr (lit ''tree'')])], vo_weak_signals = [],
           vo_source_refs = [lit ''ev1''], vo_verifier_version = lit ''1'', vo_safe_error_message = None\<rparr>\<rparr>,
      Observation_Event \<lparr>oe_id = lit ''o2'', oe_action_id = lit ''a2'', oe_tool_name = lit ''draft'',
        oe_tool_call_id = lit ''k2'', oe_observation = Draft_Obs True\<rparr>]"

lemma sample_events:
  "last_answer_index sample_native = -1" "waiting_events sample_native = []"
  "draft_events sample_native = [(2, \<lparr>oe_id = lit ''o2'', oe_action_id = lit ''a2'', oe_tool_name = lit ''draft'',
     oe_tool_call_id = lit ''k2'', oe_observation = Draft_Obs True\<rparr>)]"
  "last_accepted_draft_index sample_native 2 = -1"
  by (simp_all add: last_answer_index_def waiting_events_def draft_events_def last_accepted_draft_index_def
      last_index_def indexed_def sample_native_def is_answer_def is_accepted_draft_def List.map_filter_simps upt_rec)

lemma sample_backed: "verified_source sample_native (lit ''o1'') (lit ''ev1'') \<noteq> None"
  "distinct (map oe_id (native_observations sample_native))"
  by (simp_all add: native_observations_def sample_native_def List.map_filter_simps
      verified_source_def observation_by_id_def action_by_id_def sample_image_def VISUAL_FACT_CAPABILITY_def)

definition sample_obs :: "observation list" where
  "sample_obs = [\<lparr>ob_toolName = VISUAL_FACT_TOOL_NAME, ob_status = Obs_Success, ob_sourceEventId = Some (lit ''o1''),
     ob_facts = [(lit ''capability'', jstr (lit ''image'')), (lit ''weak_signals'', jstrs []),
       (lit ''verifier_version'', jstr (lit ''1'')), (lit ''visual_facts'', Arr [jstr (lit ''tree'')])],
     ob_sourceRefs = [lit ''ev1''], ob_error = None\<rparr>]"

definition sample_narrative :: narrative where
  "sample_narrative = \<lparr>na_evidence_id = lit ''ev1'', na_text = lit ''Verified visual facts: tree'',
     na_verification_status = Nar_Success, na_consumed_fact_ids = [lit ''fact_h''],
     na_consumed_fact_text_digests = [lit ''h''], na_source_observation_event_id = lit ''o1'',
     na_projection_id = lit ''projection_h''\<rparr>"

definition sample_lineage :: "lineage_entry list" where
  "sample_lineage = [lineage_entry_of sample_narrative]"

lemma sample_draft_observations: "draft_observations (ex_redaction sample_extractor) sample_native 2 = sample_obs"
  by (simp add: draft_observations_def sample_events focusproof_observations_def sample_obs_def)
    (simp add: sample_native_def indexed_def upt_rec List.map_filter_simps native_to_observation_def
      verification_observation_def sanitize_verification_facts_def sanitize_source_refs_def sample_extractor_def)

lemma squeeze_words: "wordy ws \<Longrightarrow> squeeze (join_sp ws) = join_sp ws"
  by (simp add: squeeze_def split_join)

lemma squeeze_word: "squeeze (lit ''tree'') = lit ''tree''" "\<not> blank (lit ''tree'')"
  "squeeze (lit ''Verified visual facts: tree'') = lit ''Verified visual facts: tree''"
  using squeeze_words[of "[lit ''tree'']"] squeeze_words[of "[lit ''Verified'', lit ''visual'', lit ''facts:'', lit ''tree'']"]
  by (simp_all add: wordy_def lit_def py_isspace_def blank_iff)

lemma sample_strict: "strict_id (lit ''ev1'')" "strict_id (lit ''o1'')"
  by (simp_all add: strict_id_ends lit_def py_isspace_def)

lemma sample_texts: "normalize_visual_fact_texts (Some (Arr [jstr (lit ''tree'')])) = [lit ''tree'']"
  by (simp add: normalize_visual_fact_texts_def jstr_def List.map_filter_simps squeeze_word)

lemma sample_facts: "derive_visual_fact_identities sample_sha (lit ''ev1'') (lit ''o1'') (Some (Arr [jstr (lit ''tree'')])) =
    Inr [\<lparr>vf_index = 0, vf_normalized_text = lit ''tree'', vf_fact_id = lit ''fact_h'', vf_text_digest = lit ''h''\<rparr>]"
  unfolding derive_visual_fact_identities_def sample_texts
  by (simp add: derive_from_texts_def sample_strict visual_fact_of_def sample_sha_def lit_append[symmetric])

lemma sample_projection: "project_all [image_provider ascii sample_sha] [sample_image] sample_obs = Inr [sample_narrative]"
proof -
  let ?facts = "[\<lparr>vf_index = 0, vf_normalized_text = lit ''tree'', vf_fact_id = lit ''fact_h'', vf_text_digest = lit ''h''\<rparr>]"
  obtain ob where ob: "sample_obs = [ob]" "ob_sourceEventId ob = Some (lit ''o1'')"
    "map_of (ob_facts ob) (lit ''visual_facts'') = Some (Arr [jstr (lit ''tree'')])"
    "explanation_of ob = []" "image_observation sample_image ob"
    by (simp add: sample_obs_def explanation_of_def fact_string_def image_observation_def sample_image_def)
  have img: "is_image ascii sample_image" and id: "ei_evidenceId sample_image = lit ''ev1''"
    by (simp_all add: is_image_def sample_image_def ascii_def ascii_lower_def strip_def lit_def py_isspace_def is_prefix.simps)
  have pid: "derive_visual_projection_id sample_sha (lit ''ev1'') (lit ''o1'') (map vf_fact_id ?facts)
      = Inr (lit ''projection_h'')"
    by (simp add: derive_visual_projection_id_def sample_sha_def lit_append[symmetric])
  have ev1: "strip (lit ''ev1'') = lit ''ev1''" using sample_strict(1) by (simp add: strict_id_def)
  have t: "take MAX_NARRATIVE_CHARS (visual_text [] ?facts) = lit ''Verified visual facts: tree''"
    by (simp add: visual_text_def lit_append[symmetric] MAX_NARRATIVE_CHARS_def)
  have "visual_narrative sample_sha sample_image (lit ''o1'') [] ?facts = Inr sample_narrative"
    unfolding visual_narrative_def id pid andthen_Inr t
    by (simp add: make_narrative_def ev1 squeeze_word sample_narrative_def MAX_NARRATIVE_CHARS_def)
  then have "project_image sample_sha sample_image [ob] = Inr (Some sample_narrative)"
    using ob(2-5) sample_facts by (simp add: id sample_texts texts_json_def flip: jstr_def)
  then show ?thesis by (simp add: project_all_def record_narrative_def image_provider_def img ob(1))
qed

lemma sample_audited: "audited_lineage [sample_narrative] = Inr (sample_lineage, [lit ''fact_h''])"
proof -
  have "strict_id (lit ''fact_h'')" "strict_id (lit ''h'')" "strict_id (lit ''projection_h'')"
    by (simp_all add: strict_id_ends lit_def py_isspace_def)
  then show ?thesis
    using sample_strict
    by (simp add: audited_lineage_def lineage_entry_ok_def sample_lineage_def lineage_entry_of_def sample_narrative_def)
qed

lemma sample_review: "\<exists>review. review_draft sample_extractor sample_goal [sample_image] []
    (draft_observations (ex_redaction sample_extractor) sample_native (fst (last (draft_events sample_native))))
    = Inr (review, sample_lineage, [lit ''fact_h''])"
  by (simp add: sample_events sample_draft_observations review_draft_def)
    (simp add: sample_extractor_def sample_projection sample_audited)

lemma append_succeeds:
  assumes "audit_inv d" and "find_session i d \<noteq> None" and "k \<notin> ae_event_id ` set (t_audit_events d)"
    and "[] \<notin> ae_event_id ` set (t_audit_events d)"
  shows "audit_append i ty a p None (Some k) [] now d =
    Inr (d\<lparr>t_audit_events := t_audit_events d @ [new_event i ty a p None (Some k) [] now d]\<rparr>,
      new_event i ty a p None (Some k) [] now d)"
proof -
  have r: "replayed i None (Some k) d = None" using assms(3) by (simp add: replayed_def find_id_None[THEN iffD2])
  show ?thesis
    unfolding audit_append_fresh[OF assms(1) r] append_insert_ok[OF assms(1) r assms(2,4)] by simp
qed

lemma sample_completes: "\<exists>d' res. extract_managed sample_extractor sample_handle sample_native sample_goal [sample_image] []
    (lit ''rev_1'') 7 audit_db = (d', Inr res) \<and> rr_status res = Completed_Review"
proof -
  obtain review where review: "review_draft sample_extractor sample_goal [sample_image] []
      (draft_observations (ex_redaction sample_extractor) sample_native 2) = Inr (review, sample_lineage, [lit ''fact_h''])"
    using sample_review by (auto simp: sample_events)
  let ?src = "lit ''o2''" and ?i = "hd_session_id sample_handle"
  have "\<exists>d1 r. add_from_native_event (review_record sample_handle (lit ''rev_1'') ?src ''completed''
      (Some (re_score review)) (Some (review_json review)) 3 7) 7 audit_db = Inr (d1, r)"
    by (simp add: add_from_native_event_def review_record_def review_row_ok_def audit_db_def empty_db_def
        sample_handle_def find_session_def sample_session_def require_all.simps)
  then obtain d1 r where d1: "add_from_native_event (review_record sample_handle (lit ''rev_1'') ?src ''completed''
      (Some (re_score review)) (Some (review_json review)) 3 7) 7 audit_db = Inr (d1, r)" by blast
  have s: "find_session ?i audit_db \<noteq> None" using audit_db_session by (simp add: sample_handle_def)
  have inv1: "audit_inv d1" and session1: "find_session ?i d1 \<noteq> None" and none1: "t_audit_events d1 = []"
    using add_review_log(1)[OF d1] add_review_audit(1)[OF d1] add_review_audit(2)[OF d1, of ?i] audit_db_inv s
    by (simp_all add: audit_db_def empty_db_def)
  let ?p = "Obj (score_payload review [lit ''ev1''] ?src sample_lineage [lit ''fact_h''])"
  let ?x = "new_event ?i (lit ''score.calculated'') (lit ''system'') ?p None (Some (score_event_id ?src)) [] 7 d1"
  let ?d2 = "d1\<lparr>t_audit_events := [?x]\<rparr>"
  have a2: "audit_append ?i (lit ''score.calculated'') (lit ''system'') ?p None (Some (score_event_id ?src)) [] 7 d1 = Inr (?d2, ?x)"
    using append_succeeds[OF inv1 session1] by (simp add: none1)
  have inv2: "audit_inv ?d2" by (rule audit_append_inv[OF inv1 a2])
  have id2: "ae_event_id ?x = score_event_id ?src" by (simp add: new_event_def event_id_or_def review_ids_differ)
  obtain d3 y where a3: "audit_append ?i (lit ''review.completed'') (lit ''system'')
      (Obj (review_payload (rv_review_id r) review (score_event_id ?src) ?src sample_lineage)) None
      (Some (review_event_id ?src)) [] 7 ?d2 = Inr (d3, y)"
    using append_succeeds[OF inv2, of ?i "review_event_id ?src"] session1 review_ids_differ[of ?src] by (simp add: id2)
  have p: "persist_completed_review sample_handle ?src 3 review [lit ''ev1''] sample_lineage [lit ''fact_h''] (lit ''rev_1'') 7
      audit_db = Inr d3"
    unfolding persist_completed_review_def d1 andthen_Inr prod.case a2 id2 a3 by simp
  have none: "t_audit_events audit_db = []" by (simp add: audit_db_def empty_db_def)
  then have "persistent_list ?i audit_db = Inr []"
    by (simp add: persistent_list_def audit_list_def session_events_def)
  then obtain audit where "persistent_list ?i d3 = Inr audit"
    using persist_listed[OF audit_db_inv _ _ _ p] none by (metis empty_iff image_empty list.set(1))
  moreover have "length sample_native = 3" "ei_evidenceId sample_image = lit ''ev1''" "ex_policies sample_extractor = []"
    by (simp_all add: sample_native_def sample_image_def sample_extractor_def)
  ultimately show ?thesis
    by (simp add: extract_managed_def sample_events review p with_audit_def)
qed

lemma completed_lineage_roundtrip_witness: "\<exists>d' audit c. persistent_list (lit ''s1'') d' = Inr audit
  \<and> project_lineage sample_sha audit sample_native = Inr c \<and> cl_consumed c = [lit ''fact_h'']
  \<and> cl_projection_ids c = [lit ''projection_h''] \<and> cl_source_ids c = [lit ''o1'']"
proof -
  obtain d' res where run: "extract_managed sample_extractor sample_handle sample_native sample_goal [sample_image] []
      (lit ''rev_1'') 7 audit_db = (d', Inr res)" "rr_status res = Completed_Review"
    using sample_completes by blast
  obtain review where review: "review_draft sample_extractor sample_goal [sample_image] []
    (draft_observations (ex_redaction sample_extractor) sample_native (fst (last (draft_events sample_native))))
    = Inr (review, sample_lineage, [lit ''fact_h''])"
    using sample_review by blast
  have none: "t_audit_events audit_db = []" by (simp add: audit_db_def empty_db_def)
  have read: "persistent_list (hd_session_id sample_handle) audit_db = Inr []"
    by (simp add: persistent_list_def audit_list_def session_events_def none)
  have source: "completion_source sample_native = Some (lit ''o2'')" "strict_id (lit ''o2'')"
    by (simp_all add: completion_source_def sample_events strict_id_ends lit_def py_isspace_def)
  have provider: "ex_providers sample_extractor = [image_provider (ex_unicode sample_extractor) (ex_sha256 sample_extractor)]"
    by (simp add: sample_extractor_def)
  have ok: "(\<forall>e \<in> set []. ve_type e \<noteq> Score_Calculated \<and> ve_type e \<noteq> Review_Completed) \<and> sample_lineage \<noteq> []
      \<and> (\<forall>l \<in> set sample_lineage. verified_source sample_native (le_source_id l) (le_evidence_id l) \<noteq> None)"
    using sample_backed(1) by (simp add: sample_lineage_def lineage_entry_of_def sample_narrative_def)
  have "\<exists>audit c. persistent_list (hd_session_id sample_handle) d' = Inr audit
    \<and> project_lineage (ex_sha256 sample_extractor) audit sample_native = Inr c
    \<and> cl_consumed c = [lit ''fact_h''] \<and> cl_projection_ids c = map le_projection_id sample_lineage
    \<and> cl_source_ids c = map le_source_id sample_lineage"
    using completed_lineage_roundtrip[OF run provider sample_backed(2) source review audit_db_inv read]
    unfolding if_P[OF ok] none by auto
  then show ?thesis
    by (auto simp: sample_handle_def sample_extractor_def sample_lineage_def lineage_entry_of_def sample_narrative_def)
qed

lemma review_completion_witness: "\<exists>d' res i. extract_managed sample_extractor sample_handle sample_native sample_goal
    [sample_image] [] (lit ''rev_1'') 7 audit_db = (d', Inr res) \<and> rr_status res = Completed_Review
    \<and> last_answer_index sample_native < i"
proof -
  obtain d' res where run: "extract_managed sample_extractor sample_handle sample_native sample_goal [sample_image] []
      (lit ''rev_1'') 7 audit_db = (d', Inr res)" "rr_status res = Completed_Review"
    using sample_completes by blast
  then have "\<exists>i. last_answer_index sample_native < i" using review_completion[OF run(1)] by blast
  then show ?thesis using run by blast
qed


end
