(* ===== verification/Actions.thy ===== *)
theory Actions
  imports Prelude
begin

text \<open>
  Programs that change a state and may raise: an action takes a state to a state and either an exception or a value.
  The locale \<open>guarded_actions\<close> is the rely and guarantee reasoning that the services share: an invariant of a view of
  the state (the database) that every action keeps, and a preorder that says what no action, and no other
  request, takes away.
  The locale \<open>traced_actions\<close> is for the events that actions append to a trace.
\<close>

type_synonym ('s, 'e, 'a) action = "'s \<Rightarrow> 's \<times> ('e + 'a)"

definition ret :: "'a \<Rightarrow> ('s, 'e, 'a) action" where
  "ret x w = (w, Inr x)"

definition rethrow :: "'e \<Rightarrow> ('s, 'e, 'a) action" where
  "rethrow e w = (w, Inl e)"

definition bnd :: "('s, 'e, 'a) action \<Rightarrow> ('a \<Rightarrow> ('s, 'e, 'b) action) \<Rightarrow> ('s, 'e, 'b) action" where
  "bnd m k w = (case m w of (w', Inl e) \<Rightarrow> (w', Inl e) | (w', Inr x) \<Rightarrow> k x w')"

text \<open>\<open>try: m except ...: h\<close>, and \<open>try: m finally: f\<close>, where an exception of \<open>f\<close> replaces the outcome.\<close>

definition catching :: "('s, 'e, 'a) action \<Rightarrow> ('e \<Rightarrow> ('s, 'e, 'a) action) \<Rightarrow> ('s, 'e, 'a) action" where
  "catching m h w = (case m w of (w', Inl e) \<Rightarrow> h e w' | (w', Inr x) \<Rightarrow> (w', Inr x))"

definition finally_do :: "('s, 'e, 'a) action \<Rightarrow> ('s, 'e, unit) action \<Rightarrow> ('s, 'e, 'a) action" where
  "finally_do m f w = (case m w of (w', r) \<Rightarrow> (case f w' of (w'', Inl e) \<Rightarrow> (w'', Inl e) | (w'', Inr _) \<Rightarrow> (w'', r)))"

definition only_if :: "bool \<Rightarrow> ('s, 'e, unit) action \<Rightarrow> ('s, 'e, unit) action" where
  "only_if b m = (if b then m else ret ())"

definition option_do :: "'a option \<Rightarrow> ('a \<Rightarrow> ('s, 'e, unit) action) \<Rightarrow> ('s, 'e, unit) action" where
  "option_do v f = (case v of None \<Rightarrow> ret () | Some x \<Rightarrow> f x)"

text \<open>What becomes of a commit: an exception may leave the writes behind or not.\<close>

datatype tx_fault = Commits | Commit_Fails exc | Commit_Unknown exc

lemma bnd_run: "m w = (w1, Inr x) \<Longrightarrow> bnd m k w = k x w1" "m w = (w1, Inl e) \<Longrightarrow> bnd m k w = (w1, Inl e)"
  by (simp_all add: bnd_def)

lemma ret_run [simp]: "ret x w = (w, Inr x)"
  by (simp add: ret_def)

lemma rethrow_run [simp]: "rethrow e w = (w, Inl e)"
  by (simp add: rethrow_def)

lemma bnd_ret: "bnd (ret x) k = k x"
  by (rule ext) (simp add: bnd_def)

text \<open>Where a result comes from.\<close>

lemma bnd_result: "bnd m k w = (w', Inr y) \<Longrightarrow> \<exists>w1 x. m w = (w1, Inr x) \<and> k x w1 = (w', Inr y)"
  by (auto simp: bnd_def split: prod.splits sum.splits)

lemma finally_result: "finally_do m f w = (w', Inr y) \<Longrightarrow> \<exists>w1. m w = (w1, Inr y)"
  by (auto simp: finally_do_def split: prod.splits sum.splits)

locale guarded_actions =
  fixes view :: "'s \<Rightarrow> 'd"
    and inv :: "'d \<Rightarrow> bool"
    and keeps :: "'d \<Rightarrow> 'd \<Rightarrow> bool"
  assumes keeps_refl: "keeps d d"
    and keeps_trans: "keeps a b \<Longrightarrow> keeps b c \<Longrightarrow> keeps a c"
begin

definition stable :: "('d \<Rightarrow> bool) \<Rightarrow> bool" where
  "stable P \<longleftrightarrow> (\<forall>d d'. P d \<longrightarrow> keeps d d' \<longrightarrow> P d')"

text \<open>
  An action is safe from \<open>P\<close> with \<open>Q\<close> if, started under the invariant and \<open>P\<close>, it keeps the invariant and what must
  be kept, whatever it returns or raises, and a result satisfies \<open>Q\<close>.
\<close>

definition safe :: "('d \<Rightarrow> bool) \<Rightarrow> ('s, 'e, 'a) action \<Rightarrow> ('a \<Rightarrow> 'd \<Rightarrow> bool) \<Rightarrow> bool" where
  "safe P m Q \<longleftrightarrow> (\<forall>w w' r. inv (view w) \<longrightarrow> P (view w) \<longrightarrow> m w = (w', r) \<longrightarrow>
     inv (view w') \<and> keeps (view w) (view w') \<and> (\<forall>x. r = Inr x \<longrightarrow> Q x (view w')))"

lemma safeI:
  assumes "\<And>w w' r. inv (view w) \<Longrightarrow> P (view w) \<Longrightarrow> m w = (w', r) \<Longrightarrow>
     inv (view w') \<and> keeps (view w) (view w') \<and> (\<forall>x. r = Inr x \<longrightarrow> Q x (view w'))"
  shows "safe P m Q"
  using assms unfolding safe_def by blast

lemma safeD:
  assumes "safe P m Q" and "inv (view w)" and "P (view w)" and "m w = (w', r)"
  shows "inv (view w')" and "keeps (view w) (view w')" and "r = Inr x \<Longrightarrow> Q x (view w')"
  using assms unfolding safe_def by blast+

lemma stable_True [simp]: "stable (\<lambda>_. True)"
  by (simp add: stable_def)

lemma stable_conj [simp]: "stable P \<Longrightarrow> stable Q \<Longrightarrow> stable (\<lambda>d. P d \<and> Q d)"
  unfolding stable_def by blast

lemma stableD: "stable P \<Longrightarrow> P d \<Longrightarrow> keeps d d' \<Longrightarrow> P d'"
  unfolding stable_def by blast

lemma safe_mono:
  assumes "safe P m Q" and "\<And>d. P' d \<Longrightarrow> P d" and "\<And>x d. Q x d \<Longrightarrow> Q' x d"
  shows "safe P' m Q'"
  using assms unfolding safe_def by blast

text \<open>An action that leaves the view alone.\<close>

lemma safe_view:
  assumes "\<And>w. view (fst (m w)) = view w" and "\<And>w x. snd (m w) = Inr x \<Longrightarrow> P (view w) \<Longrightarrow> Q x (view w)"
  shows "safe P m Q"
proof (rule safeI)
  fix w w' r
  assume "inv (view w)" "P (view w)" and run: "m w = (w', r)"
  moreover have "view w' = view w" using assms(1)[of w] run by simp
  moreover have "Q x (view w)" if "r = Inr x" for x using assms(2)[of w x] run that \<open>P (view w)\<close> by simp
  ultimately show "inv (view w') \<and> keeps (view w) (view w') \<and> (\<forall>x. r = Inr x \<longrightarrow> Q x (view w'))"
    using keeps_refl by simp
qed

lemma safe_ret: "(\<And>d. P d \<Longrightarrow> Q x d) \<Longrightarrow> safe P (ret x) Q"
  by (rule safe_view) simp_all

lemma safe_rethrow: "safe P (rethrow e) Q"
  by (rule safe_view) simp_all

lemma safe_bnd:
  assumes m: "safe P m Q" and k: "\<And>x. safe (\<lambda>d. P d \<and> Q x d) (k x) R" and st: "stable P"
  shows "safe P (bnd m k) R"
proof (rule safeI)
  fix w w' r
  assume inv: "inv (view w)" and P: "P (view w)" and run: "bnd m k w = (w', r)"
  obtain w1 r1 where 1: "m w = (w1, r1)" by force
  note a = safeD[OF m inv P 1]
  show "inv (view w') \<and> keeps (view w) (view w') \<and> (\<forall>x. r = Inr x \<longrightarrow> R x (view w'))"
  proof (cases r1)
    case (Inl e)
    then show ?thesis using run 1 a(1,2) by (auto simp: bnd_def)
  next
    case (Inr x)
    then have 2: "k x w1 = (w', r)" using run 1 by (simp add: bnd_def)
    have "P (view w1) \<and> Q x (view w1)" using stableD[OF st P a(2)] a(3) Inr by simp
    note b = safeD[OF k a(1) this 2]
    show ?thesis using b keeps_trans[OF a(2) b(2)] by blast
  qed
qed

lemma safe_catching:
  assumes m: "safe P m Q" and h: "\<And>e. safe P (h e) Q" and st: "stable P"
  shows "safe P (catching m h) Q"
proof (rule safeI)
  fix w w' r
  assume inv: "inv (view w)" and P: "P (view w)" and run: "catching m h w = (w', r)"
  obtain w1 r1 where 1: "m w = (w1, r1)" by force
  note a = safeD[OF m inv P 1]
  show "inv (view w') \<and> keeps (view w) (view w') \<and> (\<forall>x. r = Inr x \<longrightarrow> Q x (view w'))"
  proof (cases r1)
    case (Inr x)
    then show ?thesis using run 1 a by (auto simp: catching_def)
  next
    case (Inl e)
    then have 2: "h e w1 = (w', r)" using run 1 by (simp add: catching_def)
    note b = safeD[OF h a(1) stableD[OF st P a(2)] 2]
    show ?thesis using b keeps_trans[OF a(2) b(2)] by blast
  qed
qed

lemma safe_finally:
  assumes m: "safe P m Q" and f: "safe P f (\<lambda>_ _. True)" and st: "stable P" "\<And>x. stable (Q x)"
  shows "safe P (finally_do m f) Q"
proof (rule safeI)
  fix w w' r
  assume inv: "inv (view w)" and P: "P (view w)" and run: "finally_do m f w = (w', r)"
  obtain w1 r1 where 1: "m w = (w1, r1)" by force
  note a = safeD[OF m inv P 1]
  obtain r2 where 2: "f w1 = (w', r2)" and r: "r = r1 \<or> (\<exists>e. r = Inl e)"
    using run 1 by (auto simp: finally_do_def split: prod.splits sum.splits)
  note b = safeD[OF f a(1) stableD[OF st(1) P a(2)] 2]
  have "Q x (view w')" if "r = Inr x" for x
    using that r a(3)[of x] b(2) stableD[OF st(2)] by blast
  then show "inv (view w') \<and> keeps (view w) (view w') \<and> (\<forall>x. r = Inr x \<longrightarrow> Q x (view w'))"
    using b keeps_trans[OF a(2) b(2)] by blast
qed

lemma safe_only_if: "safe P m (\<lambda>_ _. True) \<Longrightarrow> safe P (only_if b m) (\<lambda>_ _. True)"
  by (simp add: only_if_def safe_ret)

lemma safe_option_do: "(\<And>x. safe P (f x) (\<lambda>_ _. True)) \<Longrightarrow> safe P (option_do v f) (\<lambda>_ _. True)"
  by (simp add: option_do_def safe_ret split: option.split)

end

text \<open>
  The events that an action appends to a trace of the state: \<open>A r cs\<close> says which events may go with which outcome.
\<close>

locale traced_actions =
  fixes events :: "'s \<Rightarrow> 'c list"
begin

definition emits :: "('s, 'e, 'a) action \<Rightarrow> ('e + 'a \<Rightarrow> 'c list \<Rightarrow> bool) \<Rightarrow> bool" where
  "emits m A \<longleftrightarrow> (\<forall>w w' r. m w = (w', r) \<longrightarrow> (\<exists>cs. events w' = events w @ cs \<and> A r cs))"

definition quiet :: "('s, 'e, 'a) action \<Rightarrow> bool" where
  "quiet m \<longleftrightarrow> (\<forall>w. events (fst (m w)) = events w)"

lemma emitsD: "emits m A \<Longrightarrow> m w = (w', r) \<Longrightarrow> \<exists>cs. events w' = events w @ cs \<and> A r cs"
  unfolding emits_def by blast

lemma quietD: "quiet m \<Longrightarrow> m w = (w', r) \<Longrightarrow> events w' = events w"
  unfolding quiet_def by (metis fst_conv)

lemma emits_mono: "emits m A \<Longrightarrow> (\<And>r cs. A r cs \<Longrightarrow> B r cs) \<Longrightarrow> emits m B"
  unfolding emits_def by blast

lemma emits_quiet: "quiet m \<Longrightarrow> (\<And>r. A r []) \<Longrightarrow> emits m A"
  unfolding emits_def using quietD by fastforce

lemma emits_ret: "A (Inr x) [] \<Longrightarrow> emits (ret x) A"
  by (simp add: emits_def)

lemma emits_rethrow: "A (Inl e) [] \<Longrightarrow> emits (rethrow e) A"
  by (simp add: emits_def)

lemma emits_bnd:
  assumes "emits m A" and "\<And>x. emits (k x) (B x)"
    and "\<And>e cs. A (Inl e) cs \<Longrightarrow> C (Inl e) cs" and "\<And>x a r b. A (Inr x) a \<Longrightarrow> B x r b \<Longrightarrow> C r (a @ b)"
  shows "emits (bnd m k) C"
  unfolding emits_def
proof (intro allI impI)
  fix w w' r
  assume run: "bnd m k w = (w', r)"
  obtain w1 r1 where 1: "m w = (w1, r1)" by force
  obtain a where a: "events w1 = events w @ a" "A r1 a" using emitsD[OF assms(1) 1] by blast
  show "\<exists>cs. events w' = events w @ cs \<and> C r cs"
  proof (cases r1)
    case (Inl e)
    then show ?thesis using run 1 a assms(3) by (auto simp: bnd_def)
  next
    case (Inr x)
    then have "k x w1 = (w', r)" using run 1 by (simp add: bnd_def)
    then obtain b where "events w' = events w1 @ b" "B x r b" using emitsD[OF assms(2)] by blast
    then show ?thesis using a assms(4) Inr by auto
  qed
qed

lemma emits_quiet_bnd:
  assumes "quiet m" and "\<And>x. emits (k x) C" and "\<And>e. C (Inl e) []"
  shows "emits (bnd m k) C"
  by (rule emits_bnd[OF emits_quiet[where A = "\<lambda>_ cs. cs = []", OF assms(1)] assms(2)]) (simp_all add: assms(3))

lemma emits_catching:
  assumes "emits m A" and "\<And>e. emits (h e) (B e)"
    and "\<And>x cs. A (Inr x) cs \<Longrightarrow> C (Inr x) cs" and "\<And>e a r b. A (Inl e) a \<Longrightarrow> B e r b \<Longrightarrow> C r (a @ b)"
  shows "emits (catching m h) C"
  unfolding emits_def
proof (intro allI impI)
  fix w w' r
  assume run: "catching m h w = (w', r)"
  obtain w1 r1 where 1: "m w = (w1, r1)" by force
  obtain a where a: "events w1 = events w @ a" "A r1 a" using emitsD[OF assms(1) 1] by blast
  show "\<exists>cs. events w' = events w @ cs \<and> C r cs"
  proof (cases r1)
    case (Inr x)
    then show ?thesis using run 1 a assms(3) by (auto simp: catching_def)
  next
    case (Inl e)
    then have "h e w1 = (w', r)" using run 1 by (simp add: catching_def)
    then obtain b where "events w' = events w1 @ b" "B e r b" using emitsD[OF assms(2)] by blast
    then show ?thesis using a assms(4) Inl by auto
  qed
qed

text \<open>An outcome of \<open>try ... finally\<close> is that of the body if the cleanup raised nothing.\<close>

lemma emits_finally:
  assumes "emits m A" and "emits f B"
    and "\<And>e r a b. A r a \<Longrightarrow> B (Inl e) b \<Longrightarrow> C (Inl e) (a @ b)" and "\<And>r a b. A r a \<Longrightarrow> B (Inr ()) b \<Longrightarrow> C r (a @ b)"
  shows "emits (finally_do m f) C"
  unfolding emits_def
proof (intro allI impI)
  fix w w' r
  assume run: "finally_do m f w = (w', r)"
  obtain w1 r1 where 1: "m w = (w1, r1)" by force
  obtain r2 where 2: "f w1 = (w', r2)" and r: "case r2 of Inl e \<Rightarrow> r = Inl e | Inr _ \<Rightarrow> r = r1"
    using run 1 by (auto simp: finally_do_def split: prod.splits sum.splits)
  obtain a where a: "events w1 = events w @ a" "A r1 a" using emitsD[OF assms(1) 1] by blast
  obtain b where b: "events w' = events w1 @ b" "B r2 b" using emitsD[OF assms(2) 2] by blast
  have "C r (a @ b)" using a(2) b(2) r assms(3,4) by (cases r2) auto
  then show "\<exists>cs. events w' = events w @ cs \<and> C r cs" using a(1) b(1) by auto
qed

lemma quiet_ret: "quiet (ret x)" and quiet_rethrow: "quiet (rethrow e)"
  by (simp_all add: quiet_def)

lemma quiet_bnd: "quiet m \<Longrightarrow> (\<And>x. quiet (k x)) \<Longrightarrow> quiet (bnd m k)"
  unfolding quiet_def bnd_def by (auto split: prod.split sum.split) (metis fst_conv)+

lemma quiet_catching: "quiet m \<Longrightarrow> (\<And>e. quiet (h e)) \<Longrightarrow> quiet (catching m h)"
  unfolding quiet_def catching_def by (auto split: prod.split sum.split) (metis fst_conv)+

lemma quiet_finally: "quiet m \<Longrightarrow> quiet f \<Longrightarrow> quiet (finally_do m f)"
  unfolding quiet_def finally_do_def by (auto split: prod.split sum.split) (metis fst_conv)+

lemma quiet_if: "quiet m \<Longrightarrow> quiet m' \<Longrightarrow> quiet (if b then m else m')"
  by simp

lemma emits_if: "emits m A \<Longrightarrow> emits m' A \<Longrightarrow> emits (if b then m else m') A"
  by simp

end

end
