(* ===== verification/Ingestion.thy ===== *)
theory Ingestion
  imports Actions ScanAudit MediaTransactions ResourceSlots
begin

text \<open>
  \<^verbatim>\<open>media_core/ingestion.py\<close>: \<open>MediaIngestionService\<close>, which takes an upload from its reservation to visible
  evidence. It composes the reservation and the scan audit repositories with ports: the quarantine store,
  the scanner, the validator, the normaliser and the object store are arguments of the service, and the model
  keeps them as arbitrary functions on an external state, each of which may raise. A call is a function
  from the world to the world and either an exception or a result.

  Other requests run between the transactions of a call: \<open>sv_other n\<close> is what they did to the database
  before transaction \<open>n\<close>, \<open>sv_cancel n\<close> whether the upload was cancelled by then, and \<open>sv_fault n\<close> whether
  the commit fails, and if so whether its writes are in the database all the same.
\<close>

section \<open>Exceptions\<close>

text \<open>What the code asks of an exception that a port raises: its class name, whether \<open>except Exception\<close> and
  \<open>except ValueError\<close> catch it, whether it is a \<open>BaseExceptionGroup\<close>, and its \<open>retryable\<close> attribute.\<close>

record port_exception =
  px_name :: str
  px_exception :: bool
  px_value_error :: bool
  px_group :: bool
  px_retryable :: bool

datatype failure =
    Db_Failure exc
  | Malware_Detected
  | Scan_Unavailable
  | Scan_Timeout
  | Scan_Failed
  | Scan_Unknown
  | Quarantine_Mismatch
  | Validated_Mismatch
  | Normalized_Mismatch
  | Formal_Artifact_Missing
  | Post_Commit_Reference
  | Invalid_Reference_Outcome
  | Reference_Pending
  | Promotion_Pending
  | Upload_Cancelled
  | Port_Failure port_exception

text \<open>\<open>type(exc).__name__\<close>. The name of a class is an identifier: its beginning is never blank.\<close>

fun exc_name :: "exc \<Rightarrow> string" where
  "exc_name (ValueError _) = ''ValueError''"
| "exc_name (KeyError _) = ''KeyError''"
| "exc_name (PermissionError _) = ''PermissionError''"
| "exc_name (RuntimeError _) = ''RuntimeError''"
| "exc_name (IntegrityError _) = ''IntegrityError''"
| "exc_name IdempotencyConflictError = ''IdempotencyConflictError''"
| "exc_name (MediaQuotaExceededError _) = ''MediaQuotaExceededError''"
| "exc_name (MediaQuotaExceeded _) = ''MediaQuotaExceeded''"
| "exc_name MediaAuthorizationError = ''MediaAuthorizationError''"
| "exc_name (MediaLeaseStateError _) = ''MediaLeaseStateError''"
| "exc_name (SpeechQuotaExceededError _) = ''SpeechQuotaExceededError''"
| "exc_name (SpeechHmacReadinessError _) = ''SpeechHmacReadinessError''"
| "exc_name (SpeechLeaseStateError _) = ''SpeechLeaseStateError''"
| "exc_name (SpeechAdmissionError _) = ''SpeechAdmissionError''"
| "exc_name (OverflowError _) = ''OverflowError''"
| "exc_name (TypeError _) = ''TypeError''"

fun failure_name :: "failure \<Rightarrow> str" where
  "failure_name (Db_Failure e) = lit (exc_name e)"
| "failure_name Malware_Detected = lit ''MalwareDetectedError''"
| "failure_name Scan_Unavailable = lit ''MalwareScanUnavailableError''"
| "failure_name Scan_Timeout = lit ''MalwareScanTimeoutError''"
| "failure_name Scan_Failed = lit ''MalwareScanFailedError''"
| "failure_name Scan_Unknown = lit ''MalwareScanUnknownError''"
| "failure_name Quarantine_Mismatch = lit ''QuarantineMetadataMismatchError''"
| "failure_name Validated_Mismatch = lit ''ValidatedMetadataMismatchError''"
| "failure_name Normalized_Mismatch = lit ''ValueError''"
| "failure_name Formal_Artifact_Missing = lit ''ValueError''"
| "failure_name Post_Commit_Reference = lit ''PostCommitReferenceError''"
| "failure_name Invalid_Reference_Outcome = lit ''InvalidMediaReferenceOutcomeError''"
| "failure_name Reference_Pending = lit ''MediaReferencePendingError''"
| "failure_name Promotion_Pending = lit ''MediaPromotionPendingError''"
| "failure_name Upload_Cancelled = lit ''MediaUploadCancelled''"
| "failure_name (Port_Failure p) = (if blank (take 128 (px_name p)) then lit ''Exception'' else px_name p)"

text \<open>What \<open>except Exception\<close> and \<open>except ValueError\<close> catch; \<open>retryable\<close> is a class attribute.\<close>

fun is_exception :: "failure \<Rightarrow> bool" where
  "is_exception Upload_Cancelled = False"
| "is_exception (Port_Failure p) = px_exception p"
| "is_exception _ = True"

fun exc_is_value_error :: "exc \<Rightarrow> bool" where
  "exc_is_value_error (KeyError _) = False"
| "exc_is_value_error (PermissionError _) = False"
| "exc_is_value_error (RuntimeError _) = False"
| "exc_is_value_error (IntegrityError _) = False"
| "exc_is_value_error (SpeechHmacReadinessError _) = False"
| "exc_is_value_error (SpeechAdmissionError _) = False"
| "exc_is_value_error (OverflowError _) = False"
| "exc_is_value_error (TypeError _) = False"
| "exc_is_value_error _ = True"

fun is_value_error :: "failure \<Rightarrow> bool" where
  "is_value_error (Db_Failure e) = exc_is_value_error e"
| "is_value_error (Port_Failure p) = px_value_error p"
| "is_value_error f = (f \<in> {Malware_Detected, Quarantine_Mismatch, Validated_Mismatch, Normalized_Mismatch,
     Formal_Artifact_Missing, Invalid_Reference_Outcome})"

fun is_retryable :: "failure \<Rightarrow> bool" where
  "is_retryable Reference_Pending = True"
| "is_retryable Promotion_Pending = True"
| "is_retryable (Port_Failure p) = px_retryable p"
| "is_retryable _ = False"

text \<open>\<open>type(exc).__name__ in {"IntegrityError", "MediaLeaseStateError"}\<close>.\<close>

definition is_pending_conflict :: "failure \<Rightarrow> bool" where
  "is_pending_conflict f \<longleftrightarrow> failure_name f \<in> {lit ''IntegrityError'', lit ''MediaLeaseStateError''}"

section \<open>The service\<close>

type_synonym bytes = "nat list"
type_synonym writer = str

record quarantine =
  qo_quarantine_id :: str
  qo_receipt_id :: str
  qo_receipt_hash :: str
  qo_byte_size :: int
  qo_streaming_sha256 :: str
  qo_quarantine_expires_at :: datetime

record validated =
  vm_media_type :: str
  vm_byte_size :: int
  vm_source_sha256 :: str
  vm_attributes :: attributes

record normalized =
  no_handle :: str
  no_byte_size :: int
  no_normalized_sha256 :: str

type_synonym ('x, 'a) port = "'x \<Rightarrow> 'x \<times> (failure + 'a)"

record 'x service =
  sv_repo :: media_repo
  sv_source_limit :: int
  sv_message_limit :: int
  sv_sha256_text :: "str \<Rightarrow> str"
  sv_sha256_bytes :: "bytes \<Rightarrow> str"
  sv_uuid5 :: "str \<Rightarrow> str"
  sv_now :: "nat \<Rightarrow> datetime"
  sv_id :: "nat \<Rightarrow> nat \<Rightarrow> str"
  sv_other :: "nat \<Rightarrow> db \<Rightarrow> db"
  sv_late :: "nat \<Rightarrow> db \<Rightarrow> artifact_row list"
  sv_fault :: "nat \<Rightarrow> tx_fault"
  sv_cancel :: "nat \<Rightarrow> bool"
  sv_has_gate :: bool
  sv_has_lock :: bool
  sv_acquire :: "str \<Rightarrow> ('x, unit) port"
  sv_release :: "str \<Rightarrow> ('x, unit) port"
  sv_snapshot :: "'x \<Rightarrow> audit_snapshot"
  sv_create_spool :: "str \<Rightarrow> ('x, writer) port"
  sv_write :: "writer \<Rightarrow> bytes \<Rightarrow> ('x, unit) port"
  sv_finalize_writer :: "writer \<Rightarrow> ('x, quarantine) port"
  sv_abort_writer :: "writer \<Rightarrow> ('x, unit) port"
  sv_close_writer :: "writer \<Rightarrow> ('x, unit) port"
  sv_pending_receipt :: "quarantine \<Rightarrow> str \<Rightarrow> str \<Rightarrow> str \<Rightarrow> str \<Rightarrow> datetime \<Rightarrow> ('x, pending_receipt) port"
  sv_open_pending_spool :: "pending_receipt \<Rightarrow> ('x, quarantine) port"
  sv_open_formal :: "pending_receipt \<Rightarrow> ('x, quarantine option) port"
  sv_promote :: "quarantine \<Rightarrow> str \<Rightarrow> str \<Rightarrow> str \<Rightarrow> datetime \<Rightarrow> ('x, quarantine) port"
  sv_delete_object :: "quarantine \<Rightarrow> ('x, unit) port"
  sv_close_object :: "quarantine \<Rightarrow> ('x, unit) port"
  sv_scan :: "quarantine \<Rightarrow> int \<Rightarrow> str \<Rightarrow> ('x, scan_verdict) port"
  sv_validate :: "quarantine \<Rightarrow> int \<Rightarrow> str \<Rightarrow> str option \<Rightarrow> ('x, validated) port"
  sv_normalize :: "quarantine \<Rightarrow> validated \<Rightarrow> ('x, normalized) port"
  sv_read_normalized :: "normalized \<Rightarrow> ('x, bytes list) port"
  sv_rewind :: "normalized \<Rightarrow> ('x, unit) port"
  sv_close_normalized :: "normalized \<Rightarrow> ('x, unit) port"
  sv_stage :: "normalized \<Rightarrow> str \<Rightarrow> str \<Rightarrow> ('x, staged_object) port"
  sv_mark_referenced :: "staged_object \<Rightarrow> ('x, unit) port"
  sv_abort_staged :: "staged_object \<Rightarrow> ('x, unit) port"
  sv_report :: "failure list \<Rightarrow> 'x \<Rightarrow> 'x"

text \<open>The variables of \<open>ingest\<close> that its handlers read.\<close>

record locals =
  lv_writer :: "writer option"
  lv_writer_closed :: bool
  lv_spool :: "quarantine option"
  lv_quarantine :: "quarantine option"
  lv_normalized :: "normalized option"
  lv_staged :: "staged_object option"
  lv_committed :: "finalize_outcome option"

definition no_locals :: locals where
  "no_locals = \<lparr>lv_writer = None, lv_writer_closed = False, lv_spool = None, lv_quarantine = None,
     lv_normalized = None, lv_staged = None, lv_committed = None\<rparr>"

record 'x world =
  w_db :: db
  w_ext :: 'x
  w_gate :: gate
  w_tick :: nat
  w_cleanup :: "failure list"
  w_vars :: locals

text \<open>A raised exception carries the flag \<open>scan_rejection_committed\<close>.\<close>

type_synonym raised = "failure \<times> bool"
type_synonym ('x, 'a) act = "('x world, raised, 'a) action"

definition throw :: "failure \<Rightarrow> ('x, 'a) act" where
  "throw f = rethrow (f, False)"

definition port :: "('x, 'a) port \<Rightarrow> ('x, 'a) act" where
  "port p w = (case p (w_ext w) of (x, r) \<Rightarrow>
     (w\<lparr>w_ext := x\<rparr>, case r of Inl f \<Rightarrow> Inl (f, False) | Inr v \<Rightarrow> Inr v))"

definition pure :: "exc + 'a \<Rightarrow> ('x, 'a) act" where
  "pure r w = (w, case r of Inl e \<Rightarrow> Inl (Db_Failure e, False) | Inr v \<Rightarrow> Inr v)"

definition check :: "bool \<Rightarrow> failure \<Rightarrow> ('x, unit) act" where
  "check b f = (if b then ret () else throw f)"

definition assign :: "(locals \<Rightarrow> locals) \<Rightarrow> ('x, unit) act" where
  "assign u w = (w\<lparr>w_vars := u (w_vars w)\<rparr>, Inr ())"

definition vars :: "('x, locals) act" where
  "vars w = (w, Inr (w_vars w))"

definition clock :: "'x service \<Rightarrow> ('x, datetime) act" where
  "clock S w = (w\<lparr>w_tick := w_tick w + 1\<rparr>, Inr (sv_now S (w_tick w)))"

definition fresh_hex :: "'x service \<Rightarrow> ('x, str) act" where
  "fresh_hex S w = (w\<lparr>w_tick := w_tick w + 1\<rparr>, Inr (sv_id S (w_tick w) 0))"

text \<open>One unit of work. The body may call a port; its effect stays when the transaction does not.\<close>

definition unit_of_work ::
  "'x service \<Rightarrow> (nat \<Rightarrow> db \<Rightarrow> 'x \<Rightarrow> 'x \<times> (failure + db \<times> 'a)) \<Rightarrow> ('x, 'a) act" where
  "unit_of_work S body w =
     (let n = w_tick w; d = sv_other S n (w_db w); w0 = w\<lparr>w_tick := n + 1, w_db := d\<rparr> in
      case body n d (w_ext w) of
        (x, Inl f) \<Rightarrow> (w0\<lparr>w_ext := x\<rparr>, Inl (f, False))
      | (x, Inr (d', v)) \<Rightarrow>
        (case sv_fault S n of
           Commits \<Rightarrow> (w0\<lparr>w_ext := x, w_db := d'\<rparr>, Inr v)
         | Commit_Fails e \<Rightarrow> (w0\<lparr>w_ext := x\<rparr>, Inl (Db_Failure e, False))
         | Commit_Unknown e \<Rightarrow> (w0\<lparr>w_ext := x, w_db := d'\<rparr>, Inl (Db_Failure e, False))))"

definition transaction :: "'x service \<Rightarrow> (nat \<Rightarrow> db \<Rightarrow> exc + db \<times> 'a) \<Rightarrow> ('x, 'a) act" where
  "transaction S body = unit_of_work S (\<lambda>n d x. (x, case body n d of Inl e \<Rightarrow> Inl (Db_Failure e) | Inr r \<Rightarrow> Inr r))"

section \<open>Helpers of the service\<close>

definition scan_idempotency_key :: "media_reservation_request \<Rightarrow> str" where
  "scan_idempotency_key q = rq_session_id q @ lit '':'' @ rq_idempotency_key q @ lit '':'' @ rq_fingerprint q"

definition request_from_lease :: "media_lease \<Rightarrow> media_reservation_request" where
  "request_from_lease l = \<lparr>rq_owner_id = ml_owner_id l, rq_session_id = ml_session_id l,
     rq_idempotency_key = ml_idempotency_key l, rq_fingerprint = ml_fingerprint l\<rparr>"

definition gate_check :: "'x service \<Rightarrow> ('x, unit) act" where
  "gate_check S w =
     (if \<not> sv_has_gate S then (w, Inr ())
      else let g = (if sv_cancel S (w_tick w) then fst (gate_cancel (w_gate w)) else w_gate w);
               w' = w\<lparr>w_gate := g, w_tick := w_tick w + 1\<rparr>
           in case check_active g :: unit gate_error + unit of
                Inl _ \<Rightarrow> (w', Inl (Upload_Cancelled, False)) | Inr _ \<Rightarrow> (w', Inr ()))"

text \<open>\<open>cancellation_gate.run_commit(action)\<close>: the action runs under the gate's lock.\<close>

definition gate_commit :: "'x service \<Rightarrow> ('x, 'a) act \<Rightarrow> ('x, 'a) act" where
  "gate_commit S action w =
     (if \<not> sv_has_gate S then action w
      else let g = (if sv_cancel S (w_tick w) then fst (gate_cancel (w_gate w)) else w_gate w);
               w0 = w\<lparr>w_gate := g, w_tick := w_tick w + 1\<rparr>
           in if gt_cancelled g then (w0, Inl (Upload_Cancelled, False))
              else case action w0 of
                (w', Inl e) \<Rightarrow> (w', Inl e)
              | (w', Inr x) \<Rightarrow> (w'\<lparr>w_gate := fst (run_commit (Inr () :: unit + unit) (w_gate w'))\<rparr>, Inr x))"

definition run_session_publication :: "'x service \<Rightarrow> str \<Rightarrow> ('x, 'a) act \<Rightarrow> ('x, 'a) act" where
  "run_session_publication S session_id action =
     (if \<not> sv_has_lock S then action
      else bnd (port (sv_acquire S session_id)) (\<lambda>_. finally_do action (port (sv_release S session_id))))"

definition run_final_publication :: "'x service \<Rightarrow> str \<Rightarrow> ('x, 'a) act \<Rightarrow> ('x, 'a) act" where
  "run_final_publication S session_id action = run_session_publication S session_id (gate_commit S action)"

text \<open>\<open>_run_cleanup\<close> swallows and collects what \<open>except Exception\<close> catches.\<close>

definition run_cleanup :: "('x, 'a) act \<Rightarrow> ('x, unit) act" where
  "run_cleanup action w =
     (case action w of
        (w', Inr _) \<Rightarrow> (w', Inr ())
      | (w', Inl (f, b)) \<Rightarrow>
          if is_exception f then (w'\<lparr>w_cleanup := w_cleanup w' @ [f]\<rparr>, Inr ()) else (w', Inl (f, b)))"

definition publish_cleanup_errors :: "'x service \<Rightarrow> ('x, unit) act" where
  "publish_cleanup_errors S w =
     (w\<lparr>w_ext := (if w_cleanup w = [] then w_ext w else sv_report S (w_cleanup w) (w_ext w))\<rparr>, Inr ())"

section \<open>Transactions\<close>

definition find_replay :: "'x service \<Rightarrow> media_reservation_request \<Rightarrow> ('x, finalize_outcome option) act" where
  "find_replay S q = transaction S (\<lambda>n d.
     find_idempotent_outcome (rq_owner_id q) (rq_session_id q) (rq_idempotency_key q) (rq_fingerprint q) (sv_now S n) d)"

record intention =
  it_attempt :: scan_attempt
  it_pending :: pending_receipt

definition find_pending_clean_intention ::
  "'x service \<Rightarrow> media_reservation_request \<Rightarrow> ('x, intention option) act" where
  "find_pending_clean_intention S q = transaction S (\<lambda>n d.
     andthen (find_pending_clean_receipt (sv_sha256_text S) (scan_idempotency_key q) d) (\<lambda>found.
     Inr (d, map_option (\<lambda>(a, p). \<lparr>it_attempt = a, it_pending = p\<rparr>) found)))"

text \<open>\<open>_reserve\<close> and \<open>_finalize\<close> turn two kinds of exception into a retryable one.\<close>

definition pending_on_conflict :: "('x, 'a) act \<Rightarrow> ('x, 'a) act" where
  "pending_on_conflict m = catching m (\<lambda>(f, b).
     if is_exception f \<and> is_pending_conflict f then throw Reference_Pending else rethrow (f, b))"

definition reserve_media :: "'x service \<Rightarrow> media_reservation_request \<Rightarrow> ('x, media_lease) act" where
  "reserve_media S q = pending_on_conflict (transaction S (\<lambda>n d.
     reserve (sv_repo S) q (sv_id S n 0) (sv_id S n 1) (sv_now S n) d))"

definition finalize_step :: "'x service \<Rightarrow> finalize_request \<Rightarrow> ('x, finalize_outcome) act" where
  "finalize_step S q = pending_on_conflict (transaction S (\<lambda>n d.
     finalize_media (sv_repo S) q (sv_id S n 0) (sv_late S n d) (sv_now S n) d))"

definition confirm_step :: "'x service \<Rightarrow> reference_intent \<Rightarrow> ('x, ingested_result) act" where
  "confirm_step S intent = transaction S (\<lambda>n d. confirm_reference intent (sv_now S n) d)"

definition reject_step :: "'x service \<Rightarrow> media_lease \<Rightarrow> str \<Rightarrow> ('x, unit) act" where
  "reject_step S lease reason = transaction S (\<lambda>n d.
     andthen (reject lease reason (sv_now S n) d) (\<lambda>d'. Inr (d', ())))"

section \<open>Completing a reference\<close>

definition check_replay_outcome :: "finalize_outcome \<Rightarrow> ('x, unit) act" where
  "check_replay_outcome out =
     (let item = ir_media_item_id (fo_result out); staged_item = st_media_item_id (in_staged (fo_intent out)) in
      case in_action (fo_intent out) of
        MARK_REFERENCED \<Rightarrow> check (\<not> fo_evidence_visible out \<and> staged_item = item) Invalid_Reference_Outcome
      | ABORT_STAGED \<Rightarrow> check (item \<noteq> staged_item) Invalid_Reference_Outcome
      | NOOP \<Rightarrow> check (fo_evidence_visible out) Invalid_Reference_Outcome)"

definition check_fresh_outcome :: "finalize_outcome \<Rightarrow> staged_object \<Rightarrow> ('x, unit) act" where
  "check_fresh_outcome out staged =
     (let intended = in_staged (fo_intent out) in
      case in_action (fo_intent out) of
        MARK_REFERENCED \<Rightarrow> check (intended = staged \<and> \<not> fo_evidence_visible out
            \<and> ir_media_item_id (fo_result out) = st_media_item_id staged) Invalid_Reference_Outcome
      | ABORT_STAGED \<Rightarrow>
          if fo_evidence_visible out
          then check (st_media_item_id intended = st_media_item_id staged
            \<and> st_reservation_id intended = st_reservation_id staged) Invalid_Reference_Outcome
          else check (intended = staged) Invalid_Reference_Outcome
      | NOOP \<Rightarrow> check (fo_evidence_visible out \<and> ir_media_item_id (fo_result out) = st_media_item_id intended)
          Invalid_Reference_Outcome)"

definition same_completed_reference_fact :: "finalize_outcome \<Rightarrow> finalize_outcome \<Rightarrow> bool" where
  "same_completed_reference_fact expected replay \<longleftrightarrow>
     in_action (fo_intent expected) = MARK_REFERENCED \<and> fo_evidence_visible replay
     \<and> in_action (fo_intent replay) = NOOP \<and> in_staged (fo_intent replay) = in_staged (fo_intent expected)
     \<and> fo_result replay = fo_result expected
     \<and> ir_media_item_id (fo_result replay) = st_media_item_id (in_staged (fo_intent expected))"

definition find_completed_reference_result ::
  "'x service \<Rightarrow> finalize_outcome \<Rightarrow> media_reservation_request \<Rightarrow> ('x, ingested_result option) act" where
  "find_completed_reference_result S expected q = bnd (find_replay S q) (\<lambda>replay.
     ret (case replay of None \<Rightarrow> None
        | Some out \<Rightarrow> if same_completed_reference_fact expected out then Some (fo_result out) else None))"

text \<open>\<open>mark_referenced\<close> and \<open>confirm_reference\<close>, with the look at what is stored when either raises.\<close>

definition mark_and_confirm ::
  "'x service \<Rightarrow> finalize_outcome \<Rightarrow> media_reservation_request option \<Rightarrow> ('x, ingested_result) act" where
  "mark_and_confirm S out q =
     catching (bnd (port (sv_mark_referenced S (in_staged (fo_intent out)))) (\<lambda>_. confirm_step S (fo_intent out)))
       (\<lambda>(f, b). if \<not> is_exception f then rethrow (f, b)
         else case q of
           None \<Rightarrow> throw Post_Commit_Reference
         | Some request \<Rightarrow> bnd (find_completed_reference_result S out request) (\<lambda>completed.
             case completed of Some res \<Rightarrow> ret res | None \<Rightarrow> throw Post_Commit_Reference))"

definition complete_replay_reference_intent ::
  "'x service \<Rightarrow> finalize_outcome \<Rightarrow> media_reservation_request option \<Rightarrow> ('x, ingested_result) act" where
  "complete_replay_reference_intent S out q =
     bnd (check_replay_outcome out) (\<lambda>_.
     case in_action (fo_intent out) of
       MARK_REFERENCED \<Rightarrow> mark_and_confirm S out q
     | ABORT_STAGED \<Rightarrow>
         bnd (run_cleanup (port (sv_abort_staged S (in_staged (fo_intent out))))) (\<lambda>_.
         if \<not> fo_evidence_visible out then throw Reference_Pending else ret (fo_result out))
     | NOOP \<Rightarrow> ret (fo_result out))"

definition reconcile_pending_reference :: "'x service \<Rightarrow> media_lease \<Rightarrow> ('x, ingested_result) act" where
  "reconcile_pending_reference S lease =
     (let q = request_from_lease lease in
      bnd (find_replay S q) (\<lambda>replay. case replay of
        None \<Rightarrow> throw Reference_Pending
      | Some out \<Rightarrow>
          if in_action (fo_intent out) = MARK_REFERENCED
          then catching (complete_replay_reference_intent S out (Some q))
            (\<lambda>(f, b). if f = Post_Commit_Reference then throw Reference_Pending else rethrow (f, b))
          else if fo_evidence_visible out then ret (fo_result out) else throw Reference_Pending))"

definition complete_fresh_reference_intent ::
  "'x service \<Rightarrow> finalize_outcome \<Rightarrow> staged_object \<Rightarrow> media_lease \<Rightarrow> ('x, ingested_result) act" where
  "complete_fresh_reference_intent S out staged lease =
     bnd (check_fresh_outcome out staged) (\<lambda>_.
     case in_action (fo_intent out) of
       MARK_REFERENCED \<Rightarrow> mark_and_confirm S out (Some (request_from_lease lease))
     | ABORT_STAGED \<Rightarrow>
         bnd (run_cleanup (port (sv_abort_staged S staged))) (\<lambda>_.
         if \<not> fo_evidence_visible out then reconcile_pending_reference S lease else ret (fo_result out))
     | NOOP \<Rightarrow>
         bnd (run_cleanup (port (sv_abort_staged S staged))) (\<lambda>_.
         if \<not> fo_evidence_visible out then throw Reference_Pending else ret (fo_result out)))"

section \<open>Receiving and scanning\<close>

text \<open>The loop over the chunks: the limit is checked on the running size before a chunk is written. The iterable
  of an upload may raise instead of giving its next chunk.\<close>

type_synonym chunks = "(failure + bytes) list"

fun receive :: "'x service \<Rightarrow> writer \<Rightarrow> chunks \<Rightarrow> bytes \<Rightarrow> ('x, bytes) act" where
  "receive S w [] seen = ret seen"
| "receive S w (Inl f # chunks) seen = throw f"
| "receive S w (Inr chunk # chunks) seen =
     bnd (pure (source_byte_limit_check (sv_source_limit S) (int (length (seen @ chunk))))) (\<lambda>_.
     bnd (port (sv_write S w chunk)) (\<lambda>_. receive S w chunks (seen @ chunk)))"

text \<open>\<open>json.dumps\<close> of a string, and of the two fields hashed into a receipt.\<close>

definition hex_digit :: "nat \<Rightarrow> nat" where
  "hex_digit n = (if n < 10 then 48 + n else 87 + n)"

definition hex4 :: "nat \<Rightarrow> str" where
  "hex4 n = [hex_digit (n div 4096 mod 16), hex_digit (n div 256 mod 16), hex_digit (n div 16 mod 16),
     hex_digit (n mod 16)]"

definition json_char :: "nat \<Rightarrow> str" where
  "json_char c =
     (if c = 34 then [92, 34] else if c = 92 then [92, 92] else if c = 10 then [92, 110] else if c = 13 then [92, 114]
      else if c = 9 then [92, 116] else if c = 12 then [92, 102] else if c = 8 then [92, 98]
      else if 32 \<le> c \<and> c < 127 then [c]
      else if c < 65536 then [92, 117] @ hex4 c
      else [92, 117] @ hex4 (55296 + (c - 65536) div 1024) @ [92, 117] @ hex4 (56320 + (c - 65536) mod 1024))"

definition json_string :: "str \<Rightarrow> str" where
  "json_string s = [34] @ concat (map json_char s) @ [34]"

definition receipt_hash_text :: "str \<Rightarrow> str \<Rightarrow> str" where
  "receipt_hash_text attempt_id sha =
     lit ''{'' @ json_string (lit ''attempt_id'') @ lit '':'' @ json_string attempt_id @ lit '',''
     @ json_string (lit ''sha256'') @ lit '':'' @ json_string sha @ lit ''}''"

fun scan_error_code :: "scan_result_kind \<Rightarrow> string" where
  "scan_error_code Malicious = ''media_malware_detected''"
| "scan_error_code Oversize = ''media_scan_failed''"
| "scan_error_code Timeout = ''media_scan_timeout''"
| "scan_error_code Unavailable = ''media_scan_unavailable''"
| "scan_error_code Error = ''media_scan_failed''"
| "scan_error_code Clean = ''''"

text \<open>\<open>_SCAN_ERRORS\<close>.\<close>

definition scan_error :: "string \<Rightarrow> failure" where
  "scan_error code =
     (if code = ''media_malware_detected'' then Malware_Detected
      else if code = ''media_scan_unavailable'' then Scan_Unavailable
      else if code = ''media_scan_timeout'' then Scan_Timeout
      else if code = ''media_scan_failed'' then Scan_Failed
      else Scan_Unknown)"

text \<open>The verdict, with the detail recorded when the scanner raised.\<close>

definition scan_spool ::
  "'x service \<Rightarrow> audit_snapshot \<Rightarrow> quarantine \<Rightarrow> str \<Rightarrow> int \<Rightarrow> ('x, scan_verdict \<times> str option) act" where
  "scan_spool S snapshot spool sha nbytes =
     catching (bnd (port (sv_scan S spool nbytes sha)) (\<lambda>v. ret (v, None)))
       (\<lambda>(f, b). if \<not> is_exception f then rethrow (f, b)
         else bnd (pure (make_scan_verdict \<lparr>vd_status = Known Error, vd_engine = sn_scanner_backend snapshot,
                vd_signature_version = None\<rparr>)) (\<lambda>v.
              ret (v, Some (lit ''scanner exception before verdict''))))"

definition attempt_of_scan ::
  "'x service \<Rightarrow> audit_snapshot \<Rightarrow> str \<Rightarrow> str \<Rightarrow> str option \<Rightarrow> scan_verdict \<Rightarrow> str option \<Rightarrow> datetime \<Rightarrow> datetime
    \<Rightarrow> scan_rejection_code option \<Rightarrow> scan_attempt" where
  "attempt_of_scan S snapshot key sha declared verdict detail started finished code =
     \<lparr>at_attempt_id = sv_uuid5 S (lit ''focusproof:scan:'' @ key), at_artifact_sha256 = sha,
      at_content_type = (case declared of None \<Rightarrow> lit ''application/octet-stream''
        | Some t \<Rightarrow> if t = [] then lit ''application/octet-stream'' else t),
      at_scanner_backend = sn_scanner_backend snapshot, at_definitions_version = sn_definitions_version snapshot,
      at_definitions_fresh_at = sn_definitions_fresh_at snapshot,
      at_definitions_age_seconds = sn_definitions_age_seconds snapshot, at_max_bytes = sn_max_bytes snapshot,
      at_max_concurrent_scans = sn_max_concurrent_scans snapshot, at_deadline_ms = sn_deadline_ms snapshot,
      at_socket_timeout_ms = sn_socket_timeout_ms snapshot, at_scan_result = result_of_status (vd_status verdict),
      at_rejection_code = code,
      at_rejection_detail = (case detail of Some t \<Rightarrow> Some t
        | None \<Rightarrow> if vd_status verdict = Unknown then Some (lit ''legacy unknown scan result'') else None),
      at_started_at = started, at_finished_at = finished, at_idempotency_key = key\<rparr>"

text \<open>One transaction: the attempt, and either its pending receipt or the rejection of the reservation. The store
  builds the pending receipt with the constructor of \<^verbatim>\<open>media_core/models.py\<close>.\<close>

definition record_scan ::
  "'x service \<Rightarrow> media_lease \<Rightarrow> quarantine \<Rightarrow> str \<Rightarrow> str \<Rightarrow> scan_attempt \<Rightarrow> datetime
    \<Rightarrow> ('x, scan_attempt \<times> pending_receipt option) act" where
  "record_scan S lease spool key sha attempt finished = unit_of_work S (\<lambda>n d x.
     case record_attempt attempt d of
       Inl e \<Rightarrow> (x, Inl (Db_Failure e))
     | Inr (d1, stored) \<Rightarrow>
       if at_scan_result attempt = Clean then
         (case sv_pending_receipt S spool (sv_uuid5 S (lit ''focusproof:receipt:'' @ key)) (at_attempt_id stored) sha
                 (sv_sha256_text S (receipt_hash_text (at_attempt_id stored) sha)) finished x of
            (x', Inl f) \<Rightarrow> (x', Inl f)
          | (x', Inr pending) \<Rightarrow>
            (x', case andthen (make_pending_receipt (sv_sha256_text S) pending)
                        (\<lambda>p. record_pending_clean_receipt (sv_sha256_text S) p d1) of
               Inl e \<Rightarrow> Inl (Db_Failure e) | Inr (d2, p) \<Rightarrow> Inr (d2, (stored, Some p))))
       else (x, case reject lease (lit (scan_error_code (at_scan_result attempt))) (sv_now S n) d1 of
                  Inl e \<Rightarrow> Inl (Db_Failure e) | Inr d2 \<Rightarrow> Inr (d2, (stored, None))))"

definition accept_scan_verdict :: "scan_verdict \<Rightarrow> ('x, unit) act" where
  "accept_scan_verdict v = (case malware_rejection_code (vd_status v) of
     None \<Rightarrow> ret () | Some code \<Rightarrow> throw (scan_error code))"

definition snapshot_now :: "'x service \<Rightarrow> ('x, audit_snapshot) act" where
  "snapshot_now S w = (w, Inr (sv_snapshot S (w_ext w)))"

definition scan_and_record ::
  "'x service \<Rightarrow> media_lease \<Rightarrow> quarantine \<Rightarrow> str \<Rightarrow> int \<Rightarrow> str option \<Rightarrow> ('x, intention) act" where
  "scan_and_record S lease spool sha nbytes declared =
     bnd (clock S) (\<lambda>started.
     bnd (snapshot_now S) (\<lambda>snapshot.
     bnd (scan_spool S snapshot spool sha nbytes) (\<lambda>(verdict, detail).
     bnd (clock S) (\<lambda>finished.
     let result = result_of_status (vd_status verdict);
         key = scan_idempotency_key (request_from_lease lease) in
     bnd (if result = Clean then ret None
          else bnd (pure (default_scan_rejection_code result)) (\<lambda>c. ret (Some c))) (\<lambda>code.
     bnd (pure (make_scan_attempt (attempt_of_scan S snapshot key sha declared verdict detail started finished code)))
       (\<lambda>attempt.
     bnd (catching (record_scan S lease spool key sha attempt finished)
           (\<lambda>(f, b). if \<not> is_exception f then rethrow (f, b)
             else if result = Clean then
               (if failure_name f = lit ''IntegrityError'' then throw Promotion_Pending else rethrow (f, b))
             else rethrow (f, True))) (\<lambda>(stored, pending).
     case pending of
       None \<Rightarrow> rethrow (scan_error (scan_error_code result), True)
     | Some p \<Rightarrow>
         bnd (accept_scan_verdict verdict) (\<lambda>_. ret \<lparr>it_attempt = stored, it_pending = p\<rparr>))))))))"

section \<open>Publication\<close>

definition PUBLICATION_LEASE_SECONDS :: int where "PUBLICATION_LEASE_SECONDS = 30"

definition claim_publication :: "'x service \<Rightarrow> str \<Rightarrow> str \<Rightarrow> ('x, (bool \<times> pending_receipt) option) act" where
  "claim_publication S receipt_id owner =
     bnd (clock S) (\<lambda>now. transaction S (\<lambda>n d.
       claim_pending_clean_publication (sv_sha256_text S) receipt_id owner now
         (now + PUBLICATION_LEASE_SECONDS * 1000000) d))"

definition mark_publication_failed :: "'x service \<Rightarrow> str \<Rightarrow> str \<Rightarrow> str \<Rightarrow> ('x, unit) act" where
  "mark_publication_failed S receipt_id owner reason =
     catching (bnd (transaction S (\<lambda>n d. mark_failed receipt_id owner (sv_now S n) reason d)) (\<lambda>_. ret ()))
       (\<lambda>(f, b). if is_exception f then ret () else rethrow (f, b))"

definition publish_owned ::
  "'x service \<Rightarrow> str \<Rightarrow> str \<Rightarrow> quarantine option \<Rightarrow> ('x, quarantine) act" where
  "publish_owned S receipt_id owner spool =
     bnd (clock S) (\<lambda>now.
     bnd (transaction S (\<lambda>n d. refresh_pending_clean_publication_lease (sv_sha256_text S) receipt_id owner now
            (now + PUBLICATION_LEASE_SECONDS * 1000000) d)) (\<lambda>locked.
     case locked of
       None \<Rightarrow> throw Promotion_Pending
     | Some p \<Rightarrow>
       bnd (port (sv_open_formal S p)) (\<lambda>formal.
       bnd (case formal of
              Some q \<Rightarrow> ret q
            | None \<Rightarrow>
              bnd (case spool of Some s \<Rightarrow> ret s | None \<Rightarrow> port (sv_open_pending_spool S p)) (\<lambda>source.
              port (sv_promote S source (pc_receipt_id p) (pc_receipt_hash p) (pc_formal_artifact_id p)
                (pc_quarantine_expires_at p)))) (\<lambda>q.
       bnd (transaction S (\<lambda>n d. mark_published (sv_sha256_text S) (pc_receipt_id p) owner (qo_quarantine_id q)
              (sv_now S n) d)) (\<lambda>_. ret q)))))"

definition promote_pending_clean_receipt ::
  "'x service \<Rightarrow> intention \<Rightarrow> quarantine option \<Rightarrow> ('x, quarantine) act" where
  "promote_pending_clean_receipt S it spool =
     bnd (fresh_hex S) (\<lambda>hex.
     let owner = lit ''publication-'' @ hex; receipt_id = pc_receipt_id (it_pending it) in
     bnd (claim_publication S receipt_id owner) (\<lambda>claim. case claim of
       None \<Rightarrow> throw Promotion_Pending
     | Some (acquired, p) \<Rightarrow>
       if \<not> acquired then
         (if pc_publication_status p = PsPublished
          then bnd (port (sv_open_formal S p)) (\<lambda>promoted. case promoted of
                 Some q \<Rightarrow> ret q | None \<Rightarrow> throw Formal_Artifact_Missing)
          else throw Promotion_Pending)
       else
         catching (publish_owned S (pc_receipt_id p) owner spool)
           (\<lambda>(f, b). if \<not> is_exception f then rethrow (f, b)
             else if is_value_error f
             then bnd (mark_publication_failed S (pc_receipt_id p) owner (lit ''ValueError'')) (\<lambda>_. rethrow (f, b))
             else bnd (mark_publication_failed S (pc_receipt_id p) owner (failure_name f)) (\<lambda>_.
                  throw Promotion_Pending))))"

definition activate_clean_receipt :: "'x service \<Rightarrow> intention \<Rightarrow> quarantine \<Rightarrow> ('x, unit) act" where
  "activate_clean_receipt S it q =
     bnd (check (qo_receipt_id q = pc_receipt_id (it_pending it) \<and> qo_receipt_hash q = pc_receipt_hash (it_pending it)
            \<and> qo_streaming_sha256 q = at_artifact_sha256 (it_attempt it)) Quarantine_Mismatch) (\<lambda>_.
     transaction S (\<lambda>n d.
       andthen (receipt_from_attempt (it_attempt it) (pc_receipt_id (it_pending it)) (pc_receipt_hash (it_pending it))
         (qo_quarantine_id q) (qo_quarantine_expires_at q) (sv_now S n)) (\<lambda>receipt.
       andthen (record_clean_receipt (sv_sha256_text S) receipt d) (\<lambda>(d', _). Inr (d', ())))))"

section \<open>Validation and normalisation\<close>

definition validate_media ::
  "'x service \<Rightarrow> quarantine \<Rightarrow> str \<Rightarrow> int \<Rightarrow> str option \<Rightarrow> ('x, validated) act" where
  "validate_media S q sha nbytes declared =
     bnd (port (sv_validate S q nbytes sha declared)) (\<lambda>m.
     bnd (check (vm_byte_size m = nbytes \<and> vm_source_sha256 m = sha) Validated_Mismatch) (\<lambda>_. ret m))"

definition verify_normalized :: "'x service \<Rightarrow> normalized \<Rightarrow> ('x, str \<times> int) act" where
  "verify_normalized S m =
     bnd (port (sv_read_normalized S m)) (\<lambda>chunks.
     let content = concat chunks; digest = sv_sha256_bytes S content; n = int (length content) in
     bnd (check (no_normalized_sha256 m = digest \<and> no_byte_size m = n) Normalized_Mismatch) (\<lambda>_. ret (digest, n)))"

section \<open>Ingestion\<close>

definition replay_publication ::
  "'x service \<Rightarrow> media_reservation_request \<Rightarrow> finalize_outcome \<Rightarrow> ('x, ingested_result) act" where
  "replay_publication S q out =
     finally_do
       (bnd (gate_check S) (\<lambda>_. run_final_publication S (rq_session_id q) (complete_replay_reference_intent S out (Some q))))
       (publish_cleanup_errors S)"

text \<open>From the chunks to the recorded scan: the spool is in the variables, the facts are returned.\<close>

definition receive_and_scan ::
  "'x service \<Rightarrow> media_lease \<Rightarrow> chunks \<Rightarrow> str option \<Rightarrow> ('x, intention \<times> str \<times> int) act" where
  "receive_and_scan S lease chunks declared =
     bnd (port (sv_create_spool S (ml_reservation_id lease))) (\<lambda>w.
     bnd (assign (\<lambda>v. v\<lparr>lv_writer := Some w\<rparr>)) (\<lambda>_.
     bnd (receive S w chunks []) (\<lambda>content.
     let sha = sv_sha256_bytes S content; nbytes = int (length content) in
     bnd (port (sv_finalize_writer S w)) (\<lambda>spool.
     bnd (assign (\<lambda>v. v\<lparr>lv_spool := Some spool, lv_writer_closed := True\<rparr>)) (\<lambda>_.
     bnd (run_cleanup (port (sv_close_writer S w))) (\<lambda>_.
     bnd (check (qo_byte_size spool = nbytes \<and> qo_streaming_sha256 spool = sha) Quarantine_Mismatch) (\<lambda>_.
     bnd (scan_and_record S lease spool sha nbytes declared) (\<lambda>it. ret (it, sha, nbytes)))))))))"

definition obtain_intention ::
  "'x service \<Rightarrow> media_lease \<Rightarrow> chunks \<Rightarrow> str option \<Rightarrow> intention option \<Rightarrow> ('x, intention \<times> str \<times> int) act" where
  "obtain_intention S lease chunks declared pending_replay = (case pending_replay of
     None \<Rightarrow> receive_and_scan S lease chunks declared
   | Some it \<Rightarrow> ret (it, pc_artifact_sha256 (it_pending it), pc_spool_byte_size (it_pending it)))"

text \<open>A spool that is not the one the pending receipt names is thrown away before the promotion.\<close>

definition choose_spool :: "'x service \<Rightarrow> intention \<Rightarrow> ('x, quarantine option) act" where
  "choose_spool S it =
     bnd vars (\<lambda>v. case lv_spool v of
       None \<Rightarrow> ret None
     | Some spool \<Rightarrow>
       if qo_quarantine_id spool = pc_spool_token (it_pending it) then ret (Some spool)
       else bnd (run_cleanup (port (sv_delete_object S spool))) (\<lambda>_.
            bnd (run_cleanup (port (sv_close_object S spool))) (\<lambda>_.
            bnd (assign (\<lambda>v. v\<lparr>lv_spool := None\<rparr>)) (\<lambda>_. ret None))))"

definition promote_and_activate :: "'x service \<Rightarrow> intention \<Rightarrow> ('x, quarantine) act" where
  "promote_and_activate S it =
     bnd (choose_spool S it) (\<lambda>spool.
     bnd (promote_pending_clean_receipt S it spool) (\<lambda>q.
     bnd (assign (\<lambda>v. v\<lparr>lv_quarantine := Some q, lv_spool := None\<rparr>)) (\<lambda>_.
     bnd (catching (activate_clean_receipt S it q)
           (\<lambda>(f, b). if is_exception f then throw Promotion_Pending else rethrow (f, b))) (\<lambda>_. ret q))))"

definition finalize_request_of ::
  "media_lease \<Rightarrow> staged_object \<Rightarrow> validated \<Rightarrow> str \<Rightarrow> int \<Rightarrow> str \<Rightarrow> finalize_request" where
  "finalize_request_of lease staged m sha nbytes explanation =
     \<lparr>fr_lease = lease, fr_staged_media_item_id = st_media_item_id staged,
      fr_opaque_object_key = st_opaque_object_key staged, fr_manifest_id = st_manifest_id staged,
      fr_media_type = vm_media_type m, fr_normalized_sha256 = sha, fr_normalized_byte_size = nbytes,
      fr_learner_explanation = explanation, fr_attributes = vm_attributes m\<rparr>"

definition publish_sequence ::
  "'x service \<Rightarrow> media_lease \<Rightarrow> staged_object \<Rightarrow> finalize_request \<Rightarrow> ('x, ingested_result) act" where
  "publish_sequence S lease staged q =
     bnd (finalize_step S q) (\<lambda>out.
     bnd (assign (\<lambda>v. v\<lparr>lv_committed := Some out\<rparr>)) (\<lambda>_. complete_fresh_reference_intent S out staged lease))"

definition commit_sequence ::
  "'x service \<Rightarrow> str \<Rightarrow> media_lease \<Rightarrow> normalized \<Rightarrow> validated \<Rightarrow> str \<Rightarrow> int \<Rightarrow> str \<Rightarrow> ('x, ingested_result) act" where
  "commit_sequence S session_id lease media m sha nbytes explanation =
     bnd (port (sv_stage S media (ml_media_item_id lease) (ml_reservation_id lease))) (\<lambda>staged.
     bnd (assign (\<lambda>v. v\<lparr>lv_staged := Some staged\<rparr>)) (\<lambda>_.
     run_session_publication S session_id
       (publish_sequence S lease staged (finalize_request_of lease staged m sha nbytes explanation))))"

definition publish_quarantined ::
  "'x service \<Rightarrow> media_reservation_request \<Rightarrow> media_lease \<Rightarrow> quarantine \<Rightarrow> str \<Rightarrow> int \<Rightarrow> str option \<Rightarrow> str
    \<Rightarrow> ('x, ingested_result) act" where
  "publish_quarantined S q lease object sha nbytes declared explanation =
     bnd (gate_check S) (\<lambda>_.
     bnd (validate_media S object sha nbytes declared) (\<lambda>m.
     bnd (gate_check S) (\<lambda>_.
     bnd (port (sv_normalize S object m)) (\<lambda>media.
     bnd (assign (\<lambda>v. v\<lparr>lv_normalized := Some media\<rparr>)) (\<lambda>_.
     bnd (verify_normalized S media) (\<lambda>(nsha, nsize).
     bnd (pure (canonical_message_byte_limit_check (sv_message_limit S) nsize)) (\<lambda>_.
     bnd (gate_check S) (\<lambda>_.
     bnd (port (sv_rewind S media)) (\<lambda>_.
     gate_commit S (commit_sequence S (rq_session_id q) lease media m nsha nsize explanation))))))))))"

definition ingest_body ::
  "'x service \<Rightarrow> media_reservation_request \<Rightarrow> media_lease \<Rightarrow> chunks \<Rightarrow> str option \<Rightarrow> str \<Rightarrow> intention option
    \<Rightarrow> ('x, ingested_result) act" where
  "ingest_body S q lease chunks declared explanation pending_replay =
     bnd (obtain_intention S lease chunks declared pending_replay) (\<lambda>(it, sha, nbytes).
     bnd (gate_check S) (\<lambda>_.
     bnd (promote_and_activate S it) (\<lambda>object.
     publish_quarantined S q lease object sha nbytes declared explanation)))"

text \<open>The handler of \<open>ingest\<close>.\<close>

definition rejection_reason :: "failure \<Rightarrow> str" where
  "rejection_reason f =
     (if (case f of Port_Failure p \<Rightarrow> px_group p | _ \<Rightarrow> False) then lit ''media_scan_failed''
      else if failure_name f = lit ''CancelledError'' then lit ''media_scan_cancelled''
      else case f of
        Malware_Detected \<Rightarrow> lit ''media_malware_detected''
      | Scan_Unavailable \<Rightarrow> lit ''media_scan_unavailable''
      | Scan_Timeout \<Rightarrow> lit ''media_scan_timeout''
      | Scan_Failed \<Rightarrow> lit ''media_scan_failed''
      | Scan_Unknown \<Rightarrow> lit ''media_scan_unknown''
      | _ \<Rightarrow> failure_name f)"

definition handle_failure :: "'x service \<Rightarrow> media_lease \<Rightarrow> raised \<Rightarrow> ('x, 'a) act" where
  "handle_failure S lease e = (case e of (f, rejected) \<Rightarrow>
     bnd (only_if (is_retryable f) (assign (\<lambda>v. v\<lparr>lv_spool := None, lv_quarantine := None\<rparr>))) (\<lambda>_.
     bnd vars (\<lambda>v.
     bnd (only_if (lv_committed v = None)
       (bnd (option_do (lv_writer v) (\<lambda>w. only_if (lv_quarantine v = None \<and> \<not> is_retryable f)
              (run_cleanup (port (sv_abort_writer S w))))) (\<lambda>_.
        bnd (option_do (lv_staged v) (\<lambda>st. run_cleanup (port (sv_abort_staged S st)))) (\<lambda>_.
        only_if (\<not> rejected \<and> \<not> is_retryable f) (run_cleanup (reject_step S lease (rejection_reason f))))))) (\<lambda>_.
     rethrow e))))"

definition release_resources :: "'x service \<Rightarrow> ('x, unit) act" where
  "release_resources S =
     bnd vars (\<lambda>v.
     bnd (option_do (lv_writer v) (\<lambda>w. only_if (\<not> lv_writer_closed v) (run_cleanup (port (sv_close_writer S w))))) (\<lambda>_.
     bnd (option_do (lv_normalized v) (\<lambda>n. run_cleanup (port (sv_close_normalized S n)))) (\<lambda>_.
     bnd (option_do (lv_quarantine v) (\<lambda>q. run_cleanup (port (sv_close_object S q)))) (\<lambda>_.
     bnd (option_do (lv_spool v) (\<lambda>s. bnd (run_cleanup (port (sv_delete_object S s))) (\<lambda>_.
            run_cleanup (port (sv_close_object S s))))) (\<lambda>_.
     publish_cleanup_errors S)))))"

definition begin_call :: "('x, unit) act" where
  "begin_call w = (w\<lparr>w_cleanup := [], w_vars := no_locals\<rparr>, Inr ())"

definition ingest ::
  "'x service \<Rightarrow> media_reservation_request \<Rightarrow> chunks \<Rightarrow> str option \<Rightarrow> str \<Rightarrow> ('x, ingested_result) act" where
  "ingest S q chunks declared explanation =
     bnd begin_call (\<lambda>_.
     bnd (gate_check S) (\<lambda>_.
     bnd (find_replay S q) (\<lambda>replay. case replay of
       Some out \<Rightarrow> replay_publication S q out
     | None \<Rightarrow>
       bnd (find_pending_clean_intention S q) (\<lambda>pending_replay.
       bnd (catching (bnd (reserve_media S q) (\<lambda>lease. ret (Inl lease)))
             (\<lambda>(f, b). if f \<noteq> Reference_Pending then rethrow (f, b)
               else bnd (find_replay S q) (\<lambda>again. case again of
                 None \<Rightarrow> rethrow (f, b)
               | Some out \<Rightarrow> bnd (replay_publication S q out) (\<lambda>res. ret (Inr res))))) (\<lambda>step. case step of
         Inr res \<Rightarrow> ret res
       | Inl lease \<Rightarrow>
         finally_do
           (catching (ingest_body S q lease chunks declared explanation pending_replay) (handle_failure S lease))
           (release_resources S))))))"


end
