(* ===== verification/IngestionSafety.thy ===== *)
theory IngestionSafety
  imports Ingestion
begin

text \<open>
  What ingestion guarantees however it is interleaved with other requests: the media and scan invariants, and
  that no upload becomes evidence without a recorded clean scan and its receipt.
\<close>

section \<open>What the repositories leave alone\<close>

definition scan_same :: "db \<Rightarrow> db \<Rightarrow> bool" where
  "scan_same d d' \<longleftrightarrow> t_attempts d' = t_attempts d \<and> t_pending d' = t_pending d \<and> t_receipts d' = t_receipts d"

definition media_same :: "db \<Rightarrow> db \<Rightarrow> bool" where
  "media_same d d' \<longleftrightarrow> t_reservations d' = t_reservations d \<and> t_artifacts d' = t_artifacts d
     \<and> t_evidence d' = t_evidence d"

lemma scan_same_refl [simp]: "scan_same d d"
  by (simp add: scan_same_def)

lemma scan_same_trans: "scan_same a b \<Longrightarrow> scan_same b c \<Longrightarrow> scan_same a c"
  by (simp add: scan_same_def)

lemma scan_same_updates [simp]:
  "scan_same d (d'\<lparr>t_reservations := x\<rparr>) = scan_same d d'" "scan_same d (d'\<lparr>t_artifacts := y\<rparr>) = scan_same d d'"
  "scan_same d (d'\<lparr>t_evidence := z\<rparr>) = scan_same d d'" "scan_same (d\<lparr>t_artifacts := y\<rparr>) d' = scan_same d d'"
  by (simp_all add: scan_same_def)

lemma save_same: "save_reservation r d = Inr d' \<Longrightarrow> scan_same d d'"
  by (auto simp: save_reservation_def split: if_splits)

lemma complete_same: "complete_reservation m a now r d = Inr (r', d') \<Longrightarrow> scan_same d d'"
  by (auto simp: complete_reservation_def andthen_Inr_iff Let_def insert_evidence_def split: if_splits
      dest!: save_same intro: scan_same_trans[rotated])

lemma settle_same: "settle a act q i now r d = Inr (d', out) \<Longrightarrow> scan_same d d'"
  by (auto simp: settle_def andthen_Inr_iff Let_def split: if_splits dest: save_same complete_same)

lemma replay_locked_same: "replay_locked r now d = Inr (d', out) \<Longrightarrow> scan_same d d'"
  by (auto simp: replay_locked_def andthen_Inr_iff split: reservation_status.splits if_splits dest: complete_same)

lemma insert_reservation_same: "insert_reservation r d = Inr d' \<Longrightarrow> scan_same d d'"
  by (simp add: insert_reservation_Inr)

lemma expire_same: "scan_same d (expire_reservations own sid now d)"
  by (simp add: expire_reservations_def)

lemma reserve_same:
  assumes "reserve repo q i m now d = Inr (d', lease)"
  shows "scan_same d d'"
  using assms
proof (cases rule: reserve_Inr)
  case (fresh slot r)
  show ?thesis by (rule scan_same_trans[OF expire_same insert_reservation_same[OF fresh(2)]])
qed (simp add: expire_same)

lemma find_idempotent_same: "find_idempotent_outcome own sid k fp now d = Inr (d', out) \<Longrightarrow> scan_same d d'"
  by (auto simp: find_idempotent_outcome_def andthen_Inr_iff split: option.splits dest: replay_locked_same)

lemma confirm_same: "confirm_reference intent now d = Inr (d', res) \<Longrightarrow> scan_same d d'"
  by (auto simp: confirm_reference_def andthen_Inr_iff save_artifact_def split: option.splits if_splits
      dest!: complete_same)

lemma reject_same: "reject lease reason now d = Inr d' \<Longrightarrow> scan_same d d'"
  by (auto simp: reject_def andthen_Inr_iff split: option.splits if_splits dest: save_same)

lemma replay_finalize_same: "replay_finalize r q now d = Inr (d', out) \<Longrightarrow> scan_same d d'"
  by (auto simp: replay_finalize_def andthen_Inr_iff split: option.splits if_splits dest: replay_locked_same)

lemma finalize_same:
  assumes "finalize_media repo q i late now d = Inr (d', out)"
  shows "scan_same d d'"
  using assms
proof (cases rule: finalize_media_Inr)
  case (replay r)
  then show ?thesis by (blast intro: replay_finalize_same)
next
  case (shared r a)
  then show ?thesis by (blast intro: settle_same)
next
  case (created r d2)
  then show ?thesis using settle_same[OF created(8)] by (auto simp: insert_artifact_Inr)
next
  case (raced r a)
  then show ?thesis using settle_same[OF raced(9)] by simp
qed

lemma media_same_refl [simp]: "media_same d d"
  by (simp add: media_same_def)

lemma media_same_updates [simp]:
  "media_same d (d'\<lparr>t_attempts := x\<rparr>) = media_same d d'" "media_same d (d'\<lparr>t_pending := y\<rparr>) = media_same d d'"
  "media_same d (d'\<lparr>t_receipts := z\<rparr>) = media_same d d'"
  by (simp_all add: media_same_def)

lemma update_pending_media: "update_pending P f d = Inr (d', n) \<Longrightarrow> media_same d d'"
  by (auto simp: update_pending_def split: if_splits)

lemma insert_media:
  "insert_attempt a d = Inr d1 \<Longrightarrow> media_same d d1" "insert_pending p d = Inr d2 \<Longrightarrow> media_same d d2"
  "insert_receipt r d = Inr d3 \<Longrightarrow> media_same d d3"
  by (auto simp: insert_attempt_def insert_pending_def insert_receipt_def andthen_Inr_iff)

lemma record_attempt_media: "record_attempt a d = Inr (d', b) \<Longrightarrow> media_same d d'"
  by (auto simp: record_attempt_def andthen_Inr_iff split: sum.splits option.splits if_splits dest: insert_media)

lemma record_pending_media: "record_pending_clean_receipt sha p d = Inr (d', q) \<Longrightarrow> media_same d d'"
  by (auto simp: record_pending_clean_receipt_def andthen_Inr_iff split: sum.splits option.splits if_splits
      dest: insert_media)

lemma record_receipt_media: "record_clean_receipt sha r d = Inr (d', s) \<Longrightarrow> media_same d d'"
proof -
  assume "record_clean_receipt sha r d = Inr (d', s)"
  then obtain stable where "(case insert_receipt stable d of Inr d' \<Rightarrow> Inr (d', stable)
     | Inl _ \<Rightarrow> (case List.find (\<lambda>x. rc_attempt_id x = rc_attempt_id r) (t_receipts d) of
          None \<Rightarrow> Inl (IntegrityError ''scan attempt already has a different clean receipt'')
        | Some existing \<Rightarrow> andthen (make_clean_receipt existing) (\<lambda>stored.
          if same_clean_receipt_identity stored stable then Inr (d, stored)
          else Inl (IntegrityError ''scan attempt already has a different clean receipt'')))) = Inr (d', s)"
    by (auto simp: record_clean_receipt_def andthen_Inr_iff)
  then show ?thesis
    by (cases "insert_receipt stable d") (auto simp: andthen_Inr_iff split: option.splits if_splits dest: insert_media(3))
qed

lemma publication_media:
  "claim_pending_clean_publication sha i own now lease d = Inr (d1, c) \<Longrightarrow> media_same d d1"
  "refresh_pending_clean_publication_lease sha i own now lease d = Inr (d2, q) \<Longrightarrow> media_same d d2"
  "mark_published sha i own f now d = Inr (d3, p) \<Longrightarrow> media_same d d3"
  "mark_failed i own now reason d = Inr (d4, b) \<Longrightarrow> media_same d d4"
  by (auto simp: claim_pending_clean_publication_def refresh_pending_clean_publication_lease_def mark_published_def
      mark_failed_def andthen_Inr_iff split: if_splits option.splits dest: update_pending_media)

lemma media_inv_same: "media_same d d' \<Longrightarrow> media_inv repo d' = media_inv repo d"
  by (simp add: media_same_def media_inv_def evidence_count_def pending_count_def artifact_ids_def
      evidence_artifacts_def pending_artifacts_def)

lemma scan_inv_same: "scan_same d d' \<Longrightarrow> scan_inv d' = scan_inv d"
  by (simp add: scan_same_def scan_inv_def pending_backed_def[abs_def] receipt_backed_def[abs_def])

section \<open>Where finalised reservations come from\<close>

definition finalised :: "reservation_row \<Rightarrow> bool" where
  "finalised r \<longleftrightarrow> mr_status r \<in> {RsPendingReference, RsCompleted}"

text \<open>Every finalised row of the new database was finalised before, or is the one of a given lease.\<close>

definition finalised_from :: "media_lease set \<Rightarrow> db \<Rightarrow> db \<Rightarrow> bool" where
  "finalised_from K d d' \<longleftrightarrow> (\<forall>r' \<in> set (t_reservations d'). finalised r' \<longrightarrow>
     lease_of_row r' \<in> K \<or> (\<exists>r \<in> set (t_reservations d). finalised r \<and> lease_of_row r = lease_of_row r'))"

lemma finalised_from_same: "t_reservations d' = t_reservations d \<Longrightarrow> finalised_from K d d'"
  by (auto simp: finalised_from_def)

lemma save_rows: "save_reservation r d = Inr d' \<Longrightarrow> set (t_reservations d') \<subseteq> insert r (set (t_reservations d))"
  by (auto simp: save_reservation_def set_tupdate split: if_splits)

lemma complete_rows:
  assumes "complete_reservation m a now r d = Inr (r2, d')"
  shows "set (t_reservations d') \<subseteq> insert r2 (set (t_reservations d))" and "lease_of_row r2 = lease_of_row r"
  using assms
  by (auto simp: complete_reservation_def andthen_Inr_iff Let_def insert_evidence_def transition_reservation_def
      lease_of_row_def split: if_splits dest!: save_rows)

lemma settle_rows:
  assumes "settle a act q i now r d = Inr (d', out)"
  shows "\<exists>r2. set (t_reservations d') \<subseteq> insert r2 (set (t_reservations d)) \<and> lease_of_row r2 = lease_of_row r"
proof (cases "ma_state a = ArReferenced")
  case True
  then obtain r2 where "complete_reservation Direct_Reuse a now
      (store_pending_facts a q i r\<lparr>mr_intent_action := Some ABORT_STAGED\<rparr>) d = Inr (r2, d')"
    using assms by (auto simp: settle_def andthen_Inr_iff Let_def)
  note c = complete_rows[OF this]
  have "lease_of_row r2 = lease_of_row r" unfolding c(2) by (simp add: lease_of_row_def store_pending_facts_def Let_def)
  then show ?thesis using c(1) by blast
next
  case False
  then obtain r2 where "save_reservation r2 d = Inr d'" "lease_of_row r2 = lease_of_row r"
    using assms by (auto simp: settle_def andthen_Inr_iff Let_def transition_reservation_Inr lease_of_row_def
        store_pending_facts_def)
  then show ?thesis using save_rows by blast
qed

lemma replay_locked_from:
  assumes "replay_locked r now d = Inr (d', out)" and "r \<in> set (t_reservations d)"
  shows "finalised_from {} d d'"
proof (cases "d' = d")
  case False
  then obtain a r2 where "mr_status r = RsPendingReference" and c: "complete_reservation Follower a now r d = Inr (r2, d')"
    using assms(1) by (auto simp: replay_locked_def andthen_Inr_iff split: reservation_status.splits if_splits)
  then show ?thesis
    using complete_rows[OF c] assms(2) unfolding finalised_from_def finalised_def by fastforce
qed (simp add: finalised_from_same)

lemma find_idempotent_from:
  assumes "find_idempotent_outcome own sid k fp now d = Inr (d', out)"
  shows "finalised_from {} d d'"
  using assms
  by (auto simp: find_idempotent_outcome_def andthen_Inr_iff find_reservation_def finalised_from_same
      split: option.splits dest!: find_SomeD intro: replay_locked_from)

lemma reserve_from:
  assumes "reserve repo q i m now d = Inr (d', lease)"
  shows "finalised_from {} d d'"
proof -
  have e: "r \<in> set (t_reservations d)" if "r \<in> set (t_reservations (expire_reservations own sid now d))" "finalised r" for r own sid
    using that by (auto simp: expire_reservations_eq set_tupdate expired_row_def finalised_def)
  from assms show ?thesis
  proof (cases rule: reserve_Inr)
    case (replay r)
    then show ?thesis using e unfolding finalised_from_def by blast
  next
    case (fresh slot r)
    have "\<not> finalised r" by (simp add: fresh(1) new_reservation_def finalised_def)
    then show ?thesis using e fresh(2) unfolding finalised_from_def insert_reservation_Inr by fastforce
  qed
qed

lemma confirm_from:
  assumes "confirm_reference intent now d = Inr (d', res)"
  shows "finalised_from {} d d'"
proof (cases "d' = d")
  case False
  then obtain r a r2 where "r \<in> set (t_reservations d)" "mr_status r = RsPendingReference"
    and c: "complete_reservation Adopted a now r (save_artifact a d) = Inr (r2, d')"
    using assms
    by (auto simp: confirm_reference_def andthen_Inr_iff split: option.splits if_splits dest!: reservation_by_id_Some)
  then show ?thesis
    using complete_rows[OF c] unfolding finalised_from_def finalised_def save_artifact_def by fastforce
qed (simp add: finalised_from_same)

lemma reject_from:
  assumes "reject lease reason now d = Inr d'"
  shows "finalised_from {} d d'"
proof (cases "d' = d")
  case False
  then obtain r where "save_reservation r d = Inr d'" "\<not> finalised r"
    using assms
    by (auto simp: reject_def andthen_Inr_iff transition_reservation_Inr finalised_def split: option.splits if_splits)
  then show ?thesis using save_rows unfolding finalised_from_def by blast
qed (simp add: finalised_from_same)

lemma finalize_from:
  assumes "finalize_media repo q i late now d = Inr (d', out)"
  shows "finalised_from {fr_lease q} d d'"
  using assms
proof (cases rule: finalize_media_Inr)
  case (replay r)
  then obtain o' where p: "replay_locked r now d = Inr (d', o')"
    by (auto simp: replay_finalize_def andthen_Inr_iff split: option.splits if_splits)
  then show ?thesis using replay_locked_from[OF p replay(1)] by (auto simp: finalised_from_def)
next
  case (shared r a)
  then show ?thesis using settle_rows[OF shared(8)] unfolding finalised_from_def by fastforce
next
  case (created r d2)
  have "t_reservations d2 = t_reservations d" using created(7) by (simp add: insert_artifact_Inr)
  then show ?thesis using settle_rows[OF created(8)] created(2) unfolding finalised_from_def by fastforce
next
  case (raced r a)
  then show ?thesis using settle_rows[OF raced(9)] unfolding finalised_from_def by fastforce
qed

section \<open>The invariant of ingestion\<close>

text \<open>A clean scan is recorded under a key, with its receipt.\<close>

definition clean_scan :: "str \<Rightarrow> db \<Rightarrow> bool" where
  "clean_scan key d \<longleftrightarrow> list_ex (\<lambda>a. at_scan_result a = Clean \<and> at_idempotency_key a = key
     \<and> at_attempt_id a \<in> set (map rc_attempt_id (t_receipts d))) (t_attempts d)"

definition lease_key :: "media_lease \<Rightarrow> str" where
  "lease_key l = scan_idempotency_key (request_from_lease l)"

definition all_scanned :: "db \<Rightarrow> bool" where
  "all_scanned d \<longleftrightarrow> list_all (\<lambda>r. finalised r \<longrightarrow> clean_scan (lease_key (lease_of_row r)) d) (t_reservations d)"

definition ingest_inv :: "media_repo \<Rightarrow> db \<Rightarrow> bool" where
  "ingest_inv repo d \<longleftrightarrow> media_inv repo d \<and> scan_inv d \<and> all_scanned d"

text \<open>Scan attempts and receipts stay.\<close>

definition keeps_scans :: "db \<Rightarrow> db \<Rightarrow> bool" where
  "keeps_scans d d' \<longleftrightarrow> set (t_attempts d) \<subseteq> set (t_attempts d') \<and> set (t_receipts d) \<subseteq> set (t_receipts d')"

lemma keeps_scans_refl [simp]: "keeps_scans d d"
  by (simp add: keeps_scans_def)

lemma keeps_scans_trans: "keeps_scans a b \<Longrightarrow> keeps_scans b c \<Longrightarrow> keeps_scans a c"
  unfolding keeps_scans_def by blast

lemma keeps_scans_same: "scan_same d d' \<Longrightarrow> keeps_scans d d'"
  by (simp add: scan_same_def keeps_scans_def)

lemma keeps_scans_grows: "scan_grows d d' \<Longrightarrow> keeps_scans d d'"
  by (auto simp: scan_grows_def keeps_scans_def)

lemma clean_scan_kept: "clean_scan key d \<Longrightarrow> keeps_scans d d' \<Longrightarrow> clean_scan key d'"
  by (auto simp: clean_scan_def list_ex_iff keeps_scans_def)

lemma all_scanned_from:
  assumes "all_scanned d" and "keeps_scans d d'" and "finalised_from K d d'"
    and "\<And>l. l \<in> K \<Longrightarrow> clean_scan (lease_key l) d'"
  shows "all_scanned d'"
  using assms clean_scan_kept[OF _ assms(2)] unfolding all_scanned_def finalised_from_def list_all_iff by metis

text \<open>A media operation keeps the invariant when the reservation it finalises has been scanned.\<close>

lemma media_op_inv:
  assumes "ingest_inv repo d" and "media_step repo d d'" and "scan_same d d'" and "finalised_from K d d'"
    and "\<And>l. l \<in> K \<Longrightarrow> clean_scan (lease_key l) d"
  shows "ingest_inv repo d' \<and> keeps_scans d d'"
proof -
  have k: "keeps_scans d d'" by (rule keeps_scans_same[OF assms(3)])
  have "all_scanned d'"
    using assms(1,5) k clean_scan_kept unfolding ingest_inv_def
    by (intro all_scanned_from[OF _ k assms(4)]) blast+
  then show ?thesis
    using assms(1) media_step_inv[OF _ assms(2)] scan_inv_same[OF assms(3)] k by (simp add: ingest_inv_def)
qed

lemma scan_op_inv:
  assumes "ingest_inv repo d" and "scan_step sha d d'" and "media_same d d'"
  shows "ingest_inv repo d' \<and> keeps_scans d d'"
proof -
  have ok: "scan_inv d'" "keeps_scans d d'"
    using scan_step_ok[OF _ assms(2)] assms(1) keeps_scans_grows by (auto simp: ingest_inv_def scan_step_ok_def)
  have "finalised_from {} d d'" using assms(3) by (simp add: media_same_def finalised_from_same)
  then have "all_scanned d'" using all_scanned_from[OF _ ok(2), of "{}"] assms(1) by (simp add: ingest_inv_def)
  then show ?thesis using assms(1) ok media_inv_same[OF assms(3)] by (simp add: ingest_inv_def)
qed

section \<open>Safe actions\<close>

interpretation ingestion: guarded_actions "w_db :: 'x world \<Rightarrow> db" "ingest_inv repo" keeps_scans for repo
  by unfold_locales (auto intro: keeps_scans_trans)

lemma stable_clean_scan [simp]: "ingestion.stable (clean_scan key)"
  unfolding ingestion.stable_def using clean_scan_kept by blast

text \<open>
  The other requests keep the invariant and the scans, and the artifacts they insert while a finalisation runs
  are consistent with the table.
\<close>

definition env_ok :: "'x service \<Rightarrow> bool" where
  "env_ok S \<longleftrightarrow> (\<forall>n d. ingest_inv (sv_repo S) d \<longrightarrow>
     ingest_inv (sv_repo S) (sv_other S n d) \<and> keeps_scans d (sv_other S n d)
     \<and> artifacts_ok (t_artifacts d @ sv_late S n d))"

lemmas safe_bnd0 = ingestion.safe_bnd[where Q = "\<lambda>_ _. True", simplified]

lemma safe_any: "ingestion.safe repo P m Q \<Longrightarrow> ingestion.safe repo P m (\<lambda>_ _. True)"
  by (erule ingestion.safe_mono) simp_all

lemma safe_port: "ingestion.safe repo P (port p) (\<lambda>_ _. True)"
  by (rule ingestion.safe_view) (simp_all add: port_def split: prod.splits)

lemma safe_pure: "ingestion.safe repo P (pure r) (\<lambda>x _. r = Inr x)"
  by (rule ingestion.safe_view) (simp_all add: pure_def split: sum.splits)

lemma safe_check: "ingestion.safe repo P (check b f) (\<lambda>_ _. b)"
  by (rule ingestion.safe_view; cases b) (simp_all add: check_def throw_def)

lemma safe_throw: "ingestion.safe repo P (throw f) Q"
  unfolding throw_def by (rule ingestion.safe_rethrow)

lemma safe_assign: "ingestion.safe repo P (assign u) (\<lambda>_ _. True)"
  by (rule ingestion.safe_view) (simp_all add: assign_def)

lemma safe_vars: "ingestion.safe repo P vars (\<lambda>_ _. True)"
  by (rule ingestion.safe_view) (simp_all add: vars_def)

lemma safe_clock: "ingestion.safe repo P (clock S) (\<lambda>_ _. True)"
  by (rule ingestion.safe_view) (simp_all add: clock_def)

lemma safe_fresh_hex: "ingestion.safe repo P (fresh_hex S) (\<lambda>_ _. True)"
  by (rule ingestion.safe_view) (simp_all add: fresh_hex_def)

lemma safe_snapshot: "ingestion.safe repo P (snapshot_now S) (\<lambda>_ _. True)"
  by (rule ingestion.safe_view) (simp_all add: snapshot_now_def)

lemma safe_gate_check: "ingestion.safe repo P (gate_check S) (\<lambda>_ _. True)"
  by (rule ingestion.safe_view) (simp_all add: gate_check_def Let_def split: sum.splits)

lemma safe_begin: "ingestion.safe repo P begin_call (\<lambda>_ _. True)"
  by (rule ingestion.safe_view) (simp_all add: begin_call_def)

lemma safe_publish_errors: "ingestion.safe repo P (publish_cleanup_errors S) (\<lambda>_ _. True)"
  by (rule ingestion.safe_view) (simp_all add: publish_cleanup_errors_def)

lemma safe_run_cleanup:
  assumes "ingestion.safe repo P m Q"
  shows "ingestion.safe repo P (run_cleanup m) (\<lambda>_ _. True)"
proof (rule ingestion.safeI)
  fix w w' r
  assume inv: "ingest_inv repo (w_db w)" and P: "P (w_db w)" and run: "run_cleanup m w = (w', r)"
  obtain w1 r1 where 1: "m w = (w1, r1)" by force
  have "w_db w' = w_db w1" using run 1 by (auto simp: run_cleanup_def split: sum.splits prod.splits if_splits)
  then show "ingest_inv repo (w_db w') \<and> keeps_scans (w_db w) (w_db w') \<and> (\<forall>x. r = Inr x \<longrightarrow> True)"
    using ingestion.safeD(1,2)[OF assms inv P 1] by simp
qed

lemma safe_gate_commit:
  assumes "ingestion.safe repo P m Q"
  shows "ingestion.safe repo P (gate_commit S m) Q"
proof (rule ingestion.safeI)
  fix w w' r
  assume inv: "ingest_inv repo (w_db w)" and P: "P (w_db w)" and run: "gate_commit S m w = (w', r)"
  show "ingest_inv repo (w_db w') \<and> keeps_scans (w_db w) (w_db w') \<and> (\<forall>x. r = Inr x \<longrightarrow> Q x (w_db w'))"
  proof (cases "sv_has_gate S")
    case False
    then have "m w = (w', r)" using run by (simp add: gate_commit_def)
    then show ?thesis using ingestion.safeD[OF assms inv P] by blast
  next
    case True
    define w0 where "w0 = w\<lparr>w_gate := (if sv_cancel S (w_tick w) then fst (gate_cancel (w_gate w)) else w_gate w),
      w_tick := w_tick w + 1\<rparr>"
    have w0: "w_db w0 = w_db w" by (simp add: w0_def)
    have g: "gate_commit S m w = (if gt_cancelled (w_gate w0) then (w0, Inl (Upload_Cancelled, False))
      else case m w0 of (w', Inl e) \<Rightarrow> (w', Inl e)
        | (w', Inr x) \<Rightarrow> (w'\<lparr>w_gate := fst (run_commit (Inr () :: unit + unit) (w_gate w'))\<rparr>, Inr x))"
      using True by (simp add: gate_commit_def w0_def Let_def)
    obtain w1 r1 where 1: "m w0 = (w1, r1)" by force
    note a = ingestion.safeD[OF assms _ _ 1, unfolded w0, OF inv P]
    show ?thesis
      using run a inv w0 unfolding g 1 by (cases "gt_cancelled (w_gate w0)"; cases r1) auto
  qed
qed

lemma safe_session_publication:
  assumes "ingestion.safe repo P m Q" and "ingestion.stable P" and "\<And>x. ingestion.stable (Q x)"
  shows "ingestion.safe repo P (run_session_publication S i m) Q"
  unfolding run_session_publication_def
  using assms by (auto intro!: safe_bnd0 safe_port ingestion.safe_finally)

text \<open>Transactions: what a body must do on the database that it finds.\<close>

lemma safe_unit_of_work:
  assumes env: "env_ok S" and st: "ingestion.stable P" "\<And>x. ingestion.stable (Q x)"
    and body: "\<And>n d x x' d' v. ingest_inv (sv_repo S) d \<Longrightarrow> P d \<Longrightarrow> body n d x = (x', Inr (d', v)) \<Longrightarrow>
      ingest_inv (sv_repo S) d' \<and> keeps_scans d d' \<and> Q v d'"
  shows "ingestion.safe (sv_repo S) P (unit_of_work S body) Q"
proof (rule ingestion.safeI)
  fix w w' r
  assume inv: "ingest_inv (sv_repo S) (w_db w)" and P: "P (w_db w)" and run: "unit_of_work S body w = (w', r)"
  define d where "d = sv_other S (w_tick w) (w_db w)"
  have d: "ingest_inv (sv_repo S) d" "keeps_scans (w_db w) d" "P d"
    using env inv ingestion.stableD[OF st(1) P] by (auto simp: env_ok_def d_def)
  obtain x b where b: "body (w_tick w) d (w_ext w) = (x, b)" by force
  show "ingest_inv (sv_repo S) (w_db w') \<and> keeps_scans (w_db w) (w_db w') \<and> (\<forall>x. r = Inr x \<longrightarrow> Q x (w_db w'))"
  proof (cases b)
    case (Inl f)
    then show ?thesis using run b d(1,2) by (auto simp: unit_of_work_def Let_def d_def)
  next
    case (Inr dv)
    obtain d' v where dv: "dv = (d', v)" by force
    note after = body[OF d(1,3) b[unfolded Inr dv]]
    show ?thesis
      using run b d(1,2) after keeps_scans_trans[OF d(2)] unfolding Inr dv
      by (auto simp: unit_of_work_def Let_def d_def[symmetric] split: tx_fault.splits)
  qed
qed

lemma safe_transaction:
  assumes "env_ok S" and "ingestion.stable P" and "\<And>x. ingestion.stable (Q x)"
    and "\<And>n d d' v. ingest_inv (sv_repo S) d \<Longrightarrow> P d \<Longrightarrow> body n d = Inr (d', v) \<Longrightarrow>
      ingest_inv (sv_repo S) d' \<and> keeps_scans d d' \<and> Q v d'"
  shows "ingestion.safe (sv_repo S) P (transaction S body) Q"
  unfolding transaction_def
  by (rule safe_unit_of_work[OF assms(1-3)]) (use assms(4) in \<open>auto split: sum.splits\<close>)

section \<open>The transactions of a call\<close>

lemma safe_keep: "ingestion.safe repo P m (\<lambda>_ _. True) \<Longrightarrow> ingestion.stable P \<Longrightarrow> ingestion.safe repo P m (\<lambda>_. P)"
  unfolding ingestion.safe_def using ingestion.stableD by blast

lemma safe_pure0: "ingestion.safe repo P (pure r) (\<lambda>_ _. True)"
  by (rule safe_any[OF safe_pure])

lemma safe_check0: "ingestion.safe repo P (check b f) (\<lambda>_ _. True)"
  by (rule safe_any[OF safe_check])

lemma safe_ret0: "ingestion.safe repo P (ret x) (\<lambda>_ _. True)"
  by (rule ingestion.safe_ret) simp

lemmas safe_steps = safe_port safe_pure0 safe_check0 safe_ret0 safe_throw safe_assign safe_vars safe_clock safe_fresh_hex
  safe_snapshot safe_gate_check safe_begin safe_publish_errors ingestion.safe_rethrow

lemma replay_locked_finalised: "replay_locked r now d = Inr (d', Some out) \<Longrightarrow> finalised r"
  by (auto simp: replay_locked_def finalised_def split: reservation_status.splits)

lemma scanned_row:
  "all_scanned d \<Longrightarrow> r \<in> set (t_reservations d) \<Longrightarrow> finalised r \<Longrightarrow> clean_scan (lease_key (lease_of_row r)) d"
  by (simp add: all_scanned_def list_all_iff)

lemma find_replay_op:
  assumes "ingest_inv repo d"
    and "find_idempotent_outcome (rq_owner_id q) (rq_session_id q) (rq_idempotency_key q) (rq_fingerprint q) now d = Inr (d', out)"
  shows "ingest_inv repo d' \<and> keeps_scans d d' \<and> (out \<noteq> None \<longrightarrow> clean_scan (scan_idempotency_key q) d')"
proof -
  have op: "ingest_inv repo d' \<and> keeps_scans d d'"
    by (rule media_op_inv[OF assms(1) step_replay[OF assms(2)] find_idempotent_same[OF assms(2)]
        find_idempotent_from[OF assms(2)]]) simp
  have "clean_scan (scan_idempotency_key q) d" if out: "out = Some x" for x
  proof -
    obtain r where r: "find_reservation (rq_owner_id q) (rq_session_id q) (rq_idempotency_key q) d = Some r"
      and fp: "mr_fingerprint r = rq_fingerprint q" and p: "replay_locked r now d = Inr (d', Some x)"
      using assms(2) out by (auto simp: find_idempotent_outcome_def andthen_Inr_iff check_fingerprint_def split: option.splits)
    have row: "r \<in> set (t_reservations d)" "mr_session_id r = rq_session_id q" "mr_idempotency_key r = rq_idempotency_key q"
      using r by (auto simp: find_reservation_def dest: find_SomeD)
    have "lease_key (lease_of_row r) = scan_idempotency_key q"
      using row fp by (simp add: lease_key_def lease_of_row_def request_from_lease_def scan_idempotency_key_def)
    then show ?thesis
      using scanned_row[OF _ row(1) replay_locked_finalised[OF p]] assms(1) by (simp add: ingest_inv_def)
  qed
  then show ?thesis using op clean_scan_kept by blast
qed

lemma safe_find_replay:
  assumes "env_ok S" and "ingestion.stable P"
  shows "ingestion.safe (sv_repo S) P (find_replay S q) (\<lambda>out d. out \<noteq> None \<longrightarrow> clean_scan (scan_idempotency_key q) d)"
  unfolding find_replay_def
  by (rule safe_transaction[OF assms]) (auto simp: ingestion.stable_def intro: clean_scan_kept dest: find_replay_op)

text \<open>An attempt under the key of the request is stored.\<close>

definition attempt_stored :: "str \<Rightarrow> scan_attempt \<Rightarrow> db \<Rightarrow> bool" where
  "attempt_stored key a d \<longleftrightarrow> a \<in> set (t_attempts d) \<and> at_idempotency_key a = key"

lemma stable_attempt_stored [simp]: "ingestion.stable (attempt_stored key a)"
  by (auto simp: ingestion.stable_def attempt_stored_def keeps_scans_def)

lemma find_pending_op:
  assumes "find_pending_clean_receipt sha key d = Inr (Some (a, p))"
  shows "attempt_stored key a d"
proof -
  obtain x y where f: "List.find (\<lambda>(a, p). pc_attempt_id p = at_attempt_id a \<and> at_idempotency_key a = key)
      (List.product (t_attempts d) (t_pending d)) = Some (x, y)" and a: "make_scan_attempt x = Inr a"
    using assms by (auto simp: find_pending_clean_receipt_def andthen_Inr_iff split: option.splits)
  have "x \<in> set (t_attempts d)" "at_idempotency_key x = key"
    using find_SomeD[OF f] by auto
  moreover have "a = x" using make_scan_attempt_Inr[OF a] by simp
  ultimately show ?thesis by (simp add: attempt_stored_def)
qed

lemma safe_find_pending:
  assumes "env_ok S" and "ingestion.stable P"
  shows "ingestion.safe (sv_repo S) P (find_pending_clean_intention S q)
    (\<lambda>found d. \<forall>it. found = Some it \<longrightarrow> attempt_stored (scan_idempotency_key q) (it_attempt it) d)"
  unfolding find_pending_clean_intention_def
proof (rule safe_transaction[OF assms])
  show "ingestion.stable (\<lambda>d. \<forall>it. x = Some it \<longrightarrow> attempt_stored (scan_idempotency_key q) (it_attempt it) d)" for x
    using stable_attempt_stored unfolding ingestion.stable_def by blast
qed (auto simp: andthen_Inr_iff dest!: find_pending_op)

lemma safe_pending_on_conflict:
  assumes "ingestion.safe repo P m Q" and "ingestion.stable P"
  shows "ingestion.safe repo P (pending_on_conflict m) Q"
  unfolding pending_on_conflict_def
  by (rule ingestion.safe_catching[OF assms(1) _ assms(2)]) (simp add: safe_throw ingestion.safe_rethrow split: prod.split)

lemma reserve_op:
  assumes "ingest_inv repo d" and "reserve repo q i m now d = Inr (d', lease)"
  shows "ingest_inv repo d' \<and> keeps_scans d d' \<and> lease_key lease = scan_idempotency_key q"
proof -
  have "ingest_inv repo d' \<and> keeps_scans d d'"
    by (rule media_op_inv[OF assms(1) step_reserve[OF assms(2)] reserve_same[OF assms(2)] reserve_from[OF assms(2)]]) simp
  moreover have "lease_key lease = scan_idempotency_key q"
    using reserve_row[OF assms(2)]
    by (auto simp: lease_key_def lease_of_row_def request_from_lease_def scan_idempotency_key_def key_of_def)
  ultimately show ?thesis by simp
qed

lemma safe_reserve:
  assumes "env_ok S" and "ingestion.stable P"
  shows "ingestion.safe (sv_repo S) P (reserve_media S q) (\<lambda>lease _. lease_key lease = scan_idempotency_key q)"
  unfolding reserve_media_def
  by (rule safe_pending_on_conflict[OF safe_transaction[OF assms] assms(2)])
    (auto simp: ingestion.stable_def dest: reserve_op)

lemma safe_finalize:
  assumes "env_ok S" and "ingestion.stable P" and "\<And>d. P d \<Longrightarrow> clean_scan (lease_key (fr_lease q)) d"
  shows "ingestion.safe (sv_repo S) P (finalize_step S q) (\<lambda>_ _. True)"
  unfolding finalize_step_def
proof (rule safe_pending_on_conflict[OF safe_transaction[OF assms(1,2)] assms(2)])
  fix n d d' v
  assume inv: "ingest_inv (sv_repo S) d" and P: "P d"
    and run: "finalize_media (sv_repo S) q (sv_id S n 0) (sv_late S n d) (sv_now S n) d = Inr (d', v)"
  have "artifacts_ok (t_artifacts d @ sv_late S n d)"
    using assms(1) inv by (simp add: env_ok_def)
  then have "ingest_inv (sv_repo S) d' \<and> keeps_scans d d'"
    using media_op_inv[OF inv step_finalize[OF run] finalize_same[OF run] finalize_from[OF run]] assms(3)[OF P] by blast
  then show "ingest_inv (sv_repo S) d' \<and> keeps_scans d d' \<and> True" by simp
qed simp

lemma safe_confirm:
  assumes "env_ok S" and "ingestion.stable P"
  shows "ingestion.safe (sv_repo S) P (confirm_step S intent) (\<lambda>_ _. True)"
  unfolding confirm_step_def
proof (rule safe_transaction[OF assms])
  fix n d d' v
  assume "ingest_inv (sv_repo S) d" and run: "confirm_reference intent (sv_now S n) d = Inr (d', v)"
  then show "ingest_inv (sv_repo S) d' \<and> keeps_scans d d' \<and> True"
    using media_op_inv[OF _ step_confirm[OF run] confirm_same[OF run] confirm_from[OF run]] by simp
qed simp

lemma reject_op:
  assumes "ingest_inv repo d" and "reject lease reason now d = Inr d'"
  shows "ingest_inv repo d' \<and> keeps_scans d d'"
  using media_op_inv[OF assms(1) step_reject[OF assms(2)] reject_same[OF assms(2)] reject_from[OF assms(2)]] by simp

lemma safe_reject:
  assumes "env_ok S" and "ingestion.stable P"
  shows "ingestion.safe (sv_repo S) P (reject_step S lease reason) (\<lambda>_ _. True)"
  unfolding reject_step_def
  by (rule safe_transaction[OF assms]) (auto simp: andthen_Inr_iff dest: reject_op)

text \<open>A scan operation in a transaction.\<close>

lemma safe_scan_op:
  assumes "env_ok S" and "ingestion.stable P"
    and "\<And>n d d' v. body n d = Inr (d', v) \<Longrightarrow> scan_step (sv_sha256_text S) d d' \<and> media_same d d'"
  shows "ingestion.safe (sv_repo S) P (transaction S body) (\<lambda>_ _. True)"
proof (rule safe_transaction[OF assms(1,2)])
  fix n d d' v
  assume "ingest_inv (sv_repo S) d" and run: "body n d = Inr (d', v)"
  then show "ingest_inv (sv_repo S) d' \<and> keeps_scans d d' \<and> True"
    using scan_op_inv assms(3)[OF run] by blast
qed simp

lemma safe_claim:
  assumes "env_ok S" and "ingestion.stable P"
  shows "ingestion.safe (sv_repo S) P (claim_publication S i owner) (\<lambda>_ _. True)"
  unfolding claim_publication_def
proof (rule safe_bnd0[OF safe_clock _ assms(2)])
  show "ingestion.safe (sv_repo S) P (transaction S (\<lambda>n d. claim_pending_clean_publication (sv_sha256_text S) i owner x
      (x + PUBLICATION_LEASE_SECONDS * 1000000) d)) (\<lambda>_ _. True)" for x
    by (rule safe_scan_op[OF assms]) (simp add: step_claim_publication publication_media(1))
qed

lemma failure_name_visible: "\<not> blank (failure_text (failure_name f))" "\<not> blank (failure_text (lit ''ValueError''))"
proof -
  have "\<not> blank (failure_text (lit (exc_name e)))" for e
    by (cases e) (simp_all add: failure_text_def lit_def blank_iff py_isspace_def)
  then show "\<not> blank (failure_text (failure_name f))"
    by (cases f) (simp_all add: failure_text_def lit_def blank_iff py_isspace_def)
  show "\<not> blank (failure_text (lit ''ValueError''))" by (simp add: failure_text_def lit_def blank_iff py_isspace_def)
qed

lemma safe_mark_failed:
  assumes "env_ok S" and "ingestion.stable P" and "\<not> blank (failure_text reason)"
  shows "ingestion.safe (sv_repo S) P (mark_publication_failed S i owner reason) (\<lambda>_ _. True)"
  unfolding mark_publication_failed_def
proof (rule ingestion.safe_catching[OF safe_bnd0[OF safe_scan_op[OF assms(1,2)] _ assms(2)] _ assms(2)])
  show "scan_step (sv_sha256_text S) d d' \<and> media_same d d'"
    if "mark_failed i owner (sv_now S n) reason d = Inr (d', v)" for n d d' v
    using step_failed[OF assms(3) that] publication_media(4)[OF that] by simp
qed (simp_all add: safe_ret0 ingestion.safe_rethrow split: prod.split)

lemma safe_publish_owned:
  assumes "env_ok S" and "ingestion.stable P"
  shows "ingestion.safe (sv_repo S) P (publish_owned S i owner spool) (\<lambda>_ _. True)"
proof -
  have refresh: "ingestion.safe (sv_repo S) P (transaction S (\<lambda>n d. refresh_pending_clean_publication_lease
      (sv_sha256_text S) i owner t (t + PUBLICATION_LEASE_SECONDS * 1000000) d)) (\<lambda>_ _. True)" for t
    by (rule safe_scan_op[OF assms]) (simp add: step_refresh publication_media(2))
  have published: "ingestion.safe (sv_repo S) P (transaction S (\<lambda>n d. mark_published (sv_sha256_text S) j owner f
      (sv_now S n) d)) (\<lambda>_ _. True)" for j f
    by (rule safe_scan_op[OF assms]) (simp add: step_published publication_media(3))
  have spool: "ingestion.safe (sv_repo S) P (case spool of Some s \<Rightarrow> ret s | None \<Rightarrow> port (sv_open_pending_spool S p))
      (\<lambda>_ _. True)" for p
    by (simp add: safe_steps split: option.split)
  have source: "ingestion.safe (sv_repo S) P (case formal of Some q \<Rightarrow> ret q
      | None \<Rightarrow> bnd (case spool of Some s \<Rightarrow> ret s | None \<Rightarrow> port (sv_open_pending_spool S p)) (\<lambda>source.
        port (sv_promote S source (pc_receipt_id p) (pc_receipt_hash p) (pc_formal_artifact_id p)
          (pc_quarantine_expires_at p)))) (\<lambda>_ _. True)" for formal p
  proof (cases formal)
    case None
    show ?thesis unfolding None option.case by (rule safe_bnd0[OF spool safe_port assms(2)])
  qed (simp add: safe_steps)
  show ?thesis
    unfolding publish_owned_def
    by (rule safe_bnd0[OF safe_clock safe_bnd0[OF refresh _ assms(2)] assms(2)])
      (auto simp: safe_steps intro!: safe_bnd0 source published assms(2) split: option.split)
qed

lemma safe_promote:
  assumes "env_ok S" and "ingestion.stable P"
  shows "ingestion.safe (sv_repo S) P (promote_pending_clean_receipt S it spool) (\<lambda>_ _. True)"
proof -
  have formal: "ingestion.safe (sv_repo S) P (bnd (port (sv_open_formal S p)) (\<lambda>promoted. case promoted of
      Some q \<Rightarrow> ret q | None \<Rightarrow> throw Formal_Artifact_Missing)) (\<lambda>_ _. True)" for p
    by (rule safe_bnd0[OF safe_port _ assms(2)]) (simp add: safe_steps split: option.split)
  have failed: "ingestion.safe (sv_repo S) P (bnd (mark_publication_failed S i owner (lit ''ValueError'')) (\<lambda>_. rethrow e)) (\<lambda>_ _. True)"
      "ingestion.safe (sv_repo S) P (bnd (mark_publication_failed S i owner (failure_name f)) (\<lambda>_. throw Promotion_Pending)) (\<lambda>_ _. True)"
      for i owner e f
    using safe_bnd0[OF safe_mark_failed[OF assms failure_name_visible(2)] ingestion.safe_rethrow assms(2)]
      safe_bnd0[OF safe_mark_failed[OF assms failure_name_visible(1)] safe_throw assms(2)] by simp_all
  have owned: "ingestion.safe (sv_repo S) P (catching (publish_owned S i owner spool)
      (\<lambda>(f, b). if \<not> is_exception f then rethrow (f, b)
        else if is_value_error f
        then bnd (mark_publication_failed S i owner (lit ''ValueError'')) (\<lambda>_. rethrow (f, b))
        else bnd (mark_publication_failed S i owner (failure_name f)) (\<lambda>_. throw Promotion_Pending))) (\<lambda>_ _. True)" for i owner
    by (rule ingestion.safe_catching[OF safe_publish_owned[OF assms] _ assms(2)])
      (simp add: failed ingestion.safe_rethrow split: prod.split)
  show ?thesis
    unfolding promote_pending_clean_receipt_def Let_def
    by (rule safe_bnd0[OF safe_fresh_hex safe_bnd0[OF safe_claim[OF assms] _ assms(2)] assms(2)])
      (auto simp: safe_steps formal owned split: option.split)
qed

lemma record_scan_op:
  assumes inv: "ingest_inv repo d" and a: "valid_scan_attempt a" "record_attempt a d = Inr (d1, stored)"
  shows "ingest_inv repo d1 \<and> keeps_scans d d1 \<and> attempt_stored (at_idempotency_key a) stored d1"
  using scan_op_inv[OF inv step_attempt[OF a] record_attempt_media[OF a(2)]] record_attempt_stored[OF a(2)]
  by (simp add: attempt_stored_def same_scan_attempt_identity_def)

lemma record_pending_op:
  assumes inv: "ingest_inv repo d" and p: "make_pending_receipt sha p0 = Inr p"
    and r: "record_pending_clean_receipt sha p d = Inr (d', q)"
  shows "ingest_inv repo d' \<and> keeps_scans d d'"
  using scan_op_inv[OF inv step_pending[OF _ r] record_pending_media[OF r]] make_pending_receipt_valid[OF p] by simp

lemma safe_record_scan:
  assumes "env_ok S" and "ingestion.stable P" and a: "valid_scan_attempt a" and key: "at_idempotency_key a = key"
  shows "ingestion.safe (sv_repo S) P (record_scan S lease spool k sha a finished)
    (\<lambda>(stored, _) d. attempt_stored key stored d)"
  unfolding record_scan_def
proof (rule safe_unit_of_work[OF assms(1,2)])
  show "ingestion.stable ((\<lambda>(stored, _) d. attempt_stored key stored d) x)" for x :: "scan_attempt \<times> pending_receipt option"
    by (simp add: split_beta)
next
  fix n d x x' d' v
  assume inv: "ingest_inv (sv_repo S) d" and
    run: "(case record_attempt a d of
       Inl e \<Rightarrow> (x, Inl (Db_Failure e))
     | Inr (d1, stored) \<Rightarrow>
       if at_scan_result a = Clean then
         (case sv_pending_receipt S spool (sv_uuid5 S (lit ''focusproof:receipt:'' @ k)) (at_attempt_id stored) sha
                 (sv_sha256_text S (receipt_hash_text (at_attempt_id stored) sha)) finished x of
            (x', Inl f) \<Rightarrow> (x', Inl f)
          | (x', Inr pending) \<Rightarrow>
            (x', case andthen (make_pending_receipt (sv_sha256_text S) pending)
                        (\<lambda>p. record_pending_clean_receipt (sv_sha256_text S) p d1) of
               Inl e \<Rightarrow> Inl (Db_Failure e) | Inr (d2, p) \<Rightarrow> Inr (d2, (stored, Some p))))
       else (x, case reject lease (lit (scan_error_code (at_scan_result a))) (sv_now S n) d1 of
                  Inl e \<Rightarrow> Inl (Db_Failure e) | Inr d2 \<Rightarrow> Inr (d2, (stored, None)))) = (x', Inr (d', v))"
  obtain d1 stored where r: "record_attempt a d = Inr (d1, stored)"
    using run by (cases "record_attempt a d") (auto split: prod.splits)
  note 1 = record_scan_op[OF inv a r, unfolded key]
  have "fst v = stored \<and> ingest_inv (sv_repo S) d' \<and> keeps_scans d1 d'"
  proof (cases "at_scan_result a = Clean")
    case True
    obtain p0 p q where "make_pending_receipt (sv_sha256_text S) p0 = Inr p"
        "record_pending_clean_receipt (sv_sha256_text S) p d1 = Inr (d', q)" "v = (stored, Some q)"
      using run r True by (auto simp: andthen_def split: prod.splits sum.splits)
    then show ?thesis using record_pending_op[of "sv_repo S" d1] 1 by auto
  next
    case False
    then have "reject lease (lit (scan_error_code (at_scan_result a))) (sv_now S n) d1 = Inr d'" "v = (stored, None)"
      using run r by (auto split: prod.splits sum.splits)
    then show ?thesis using reject_op[of "sv_repo S" d1] 1 by auto
  qed
  then show "ingest_inv (sv_repo S) d' \<and> keeps_scans d d' \<and> (case v of (stored, _) \<Rightarrow> \<lambda>d. attempt_stored key stored d) d'"
    using 1 keeps_scans_trans[of d d1 d'] ingestion.stableD[OF stable_attempt_stored, of key stored d1 d'] by (cases v) simp
qed

lemma safe_scan_spool:
  assumes "ingestion.stable P"
  shows "ingestion.safe repo P (scan_spool S snapshot spool sha n) (\<lambda>_ _. True)"
proof -
  have h: "ingestion.safe repo P (bnd (pure r) (\<lambda>v. ret (v, x))) (\<lambda>_ _. True)" for r x
    by (rule safe_bnd0[OF safe_pure0 safe_ret0 assms])
  show ?thesis
    unfolding scan_spool_def
    by (rule ingestion.safe_catching[OF safe_bnd0[OF safe_port safe_ret0 assms] _ assms])
      (simp add: h ingestion.safe_rethrow split: prod.split)
qed

lemma safe_accept: "ingestion.safe repo P (accept_scan_verdict v) (\<lambda>_ _. True)"
  by (simp add: accept_scan_verdict_def safe_steps split: option.split)

lemma safe_scan_and_record:
  assumes "env_ok S" and "ingestion.stable P"
  shows "ingestion.safe (sv_repo S) P (scan_and_record S lease spool sha n declared)
    (\<lambda>it. attempt_stored (lease_key lease) (it_attempt it))"
proof -
  have code: "ingestion.safe (sv_repo S) P (if c = Clean then ret None
      else bnd (pure (default_scan_rejection_code c)) (\<lambda>c. ret (Some c))) (\<lambda>_ _. True)" for c
    by (simp add: safe_steps safe_bnd0[OF safe_pure0 safe_ret0 assms(2)])
  have last: "ingestion.safe (sv_repo S) (\<lambda>d. P d \<and> (case sp of (stored, _) \<Rightarrow> \<lambda>d. attempt_stored (lease_key lease) stored d) d)
      (case sp of (stored, pending) \<Rightarrow> case pending of
         None \<Rightarrow> rethrow e
       | Some p \<Rightarrow> bnd (accept_scan_verdict verdict) (\<lambda>_. ret \<lparr>it_attempt = stored, it_pending = p\<rparr>))
      (\<lambda>it. attempt_stored (lease_key lease) (it_attempt it))" for sp e verdict
  proof (cases sp)
    case (Pair stored pending)
    show ?thesis
    proof (cases pending)
      case (Some p)
      show ?thesis unfolding Pair Some
        by (simp, rule safe_bnd0[OF safe_accept ingestion.safe_ret]) (simp_all add: assms(2))
    qed (simp add: Pair ingestion.safe_rethrow)
  qed
  have recorded: "ingestion.safe (sv_repo S) (\<lambda>d. P d \<and> make_scan_attempt a0 = Inr a)
      (bnd (catching (record_scan S lease spool (scan_idempotency_key (request_from_lease lease)) sha a finished) h)
        (\<lambda>(stored, pending). case pending of
           None \<Rightarrow> rethrow e
         | Some p \<Rightarrow> bnd (accept_scan_verdict verdict) (\<lambda>_. ret \<lparr>it_attempt = stored, it_pending = p\<rparr>)))
      (\<lambda>it. attempt_stored (lease_key lease) (it_attempt it))"
    if key: "at_idempotency_key a0 = lease_key lease"
      and h: "\<And>x P Q. ingestion.safe (sv_repo S) P (h x) (Q :: _ \<Rightarrow> db \<Rightarrow> bool)" for a a0 finished h e verdict
  proof (cases "make_scan_attempt a0 = Inr a")
    case True
    then have "valid_scan_attempt a" "at_idempotency_key a = lease_key lease"
      using key make_scan_attempt_Inr[OF True] by (auto simp: valid_scan_attempt_def)
    then show ?thesis
      using True
      by simp (rule ingestion.safe_bnd[OF ingestion.safe_catching[OF safe_record_scan[OF assms] h assms(2)] last assms(2)])
  qed (simp add: ingestion.safe_def)
  show ?thesis
    unfolding scan_and_record_def Let_def split_beta
    apply (rule safe_bnd0[OF safe_clock _ assms(2)])
    apply (rule safe_bnd0[OF safe_snapshot _ assms(2)])
    apply (rule safe_bnd0[OF safe_scan_spool[OF assms(2)] _ assms(2)])
    apply (rule safe_bnd0[OF safe_clock _ assms(2)])
    apply (rule safe_bnd0[OF code _ assms(2)])
    apply (rule ingestion.safe_bnd[OF safe_pure _ assms(2)])
    apply (rule recorded[unfolded split_beta])
    apply (simp_all add: attempt_of_scan_def lease_key_def safe_throw ingestion.safe_rethrow)
    done
qed

section \<open>Activation: the receipt of a clean scan\<close>

lemma insert_receipt_row: "insert_receipt r d = Inr d' \<Longrightarrow> t_receipts d' = t_receipts d @ [r] \<and> t_attempts d' = t_attempts d"
  by (auto simp: insert_receipt_def andthen_Inr_iff)

lemma recorded_receipt:
  assumes "scan_inv d" and r: "record_clean_receipt sha r d = Inr (d', s)"
  shows "rc_attempt_id r \<in> set (map rc_attempt_id (t_receipts d'))
    \<and> (\<exists>a \<in> set (t_attempts d'). at_attempt_id a = rc_attempt_id r \<and> at_scan_result a = Clean)"
proof -
  obtain p a where g: "receipt_guard sha r d = Inr (p, a)"
    using r by (auto simp: record_clean_receipt_def andthen_Inr_iff)
  note guard = receipt_guard_Inr[OF assms(1) g]
  obtain stable where st: "receipt_from_attempt a (rc_receipt_id r) (rc_receipt_hash r)
      (rc_quarantine_path r) (rc_quarantine_expires_at r) (pc_created_at p) = Inr stable"
    using r g by (auto simp: record_clean_receipt_def andthen_Inr_iff)
  have same: "rc_attempt_id stable = rc_attempt_id r" using receipt_from_attempt_Inr[OF st] guard by simp
  show ?thesis
  proof (cases "insert_receipt stable d")
    case (Inl e)
    then obtain x where "List.find (\<lambda>x. rc_attempt_id x = rc_attempt_id r) (t_receipts d) = Some x" "d' = d"
      using r g st by (auto simp: record_clean_receipt_def andthen_Inr_iff split: option.splits if_splits)
    then have "x \<in> set (t_receipts d')" "rc_attempt_id x = rc_attempt_id r" by (auto dest: find_SomeD)
    then have "rc_attempt_id r \<in> set (map rc_attempt_id (t_receipts d'))" by (metis image_eqI list.set_map)
    then show ?thesis using guard \<open>d' = d\<close> by auto
  next
    case (Inr e)
    then have "e = d'" using r g st by (simp add: record_clean_receipt_def)
    then show ?thesis using insert_receipt_row[OF Inr] same guard by auto
  qed
qed

lemma activate_op:
  assumes inv: "ingest_inv repo d" and a: "attempt_stored key a d"
    and r: "receipt_from_attempt a i h q e c = Inr receipt" "record_clean_receipt sha receipt d = Inr (d', s)"
  shows "ingest_inv repo d' \<and> keeps_scans d d' \<and> clean_scan key d'"
proof -
  have op: "ingest_inv repo d' \<and> keeps_scans d d'"
    by (rule scan_op_inv[OF inv step_receipt[OF r(2)] record_receipt_media[OF r(2)]])
  obtain x where x: "x \<in> set (t_attempts d')" "at_attempt_id x = rc_attempt_id receipt" "at_scan_result x = Clean"
    and receipt: "rc_attempt_id receipt \<in> set (map rc_attempt_id (t_receipts d'))"
    using recorded_receipt[OF _ r(2)] inv by (auto simp: ingest_inv_def)
  have stored: "attempt_stored key a d'" using ingestion.stableD[OF stable_attempt_stored a] op by blast
  have "at_attempt_id a = at_attempt_id x" using receipt_from_attempt_Inr[OF r(1)] x(2) by simp
  then have "a = x"
    using unique_keyD[OF scan_invD(1)] op x(1) stored by (auto simp: ingest_inv_def attempt_stored_def)
  then have "clean_scan key d'"
    using stored x(2,3) receipt unfolding clean_scan_def list_ex_iff attempt_stored_def by auto
  then show ?thesis using op by simp
qed

lemma safe_activate:
  assumes "env_ok S" and "ingestion.stable P" and "\<And>d. P d \<Longrightarrow> attempt_stored key (it_attempt it) d"
  shows "ingestion.safe (sv_repo S) P (activate_clean_receipt S it q) (\<lambda>_. clean_scan key)"
  unfolding activate_clean_receipt_def
proof (rule safe_bnd0[OF safe_check0 safe_transaction[OF assms(1,2)] assms(2)])
  fix n d d' v
  assume inv: "ingest_inv (sv_repo S) d" and "P d"
    and run: "andthen (receipt_from_attempt (it_attempt it) (pc_receipt_id (it_pending it)) (pc_receipt_hash (it_pending it))
         (qo_quarantine_id q) (qo_quarantine_expires_at q) (sv_now S n)) (\<lambda>receipt.
       andthen (record_clean_receipt (sv_sha256_text S) receipt d) (\<lambda>(d', _). Inr (d', ()))) = Inr (d', v)"
  then show "ingest_inv (sv_repo S) d' \<and> keeps_scans d d' \<and> clean_scan key d'"
    using activate_op[OF inv assms(3)[OF \<open>P d\<close>]] by (auto simp: andthen_Inr_iff)
qed simp

lemma safe_cleanup_port: "ingestion.safe repo P (run_cleanup (port p)) (\<lambda>_ _. True)"
  by (rule safe_run_cleanup[OF safe_port])

lemma safe_choose:
  assumes "ingestion.stable P"
  shows "ingestion.safe repo P (choose_spool S it) (\<lambda>_ _. True)"
  unfolding choose_spool_def
  by (rule safe_bnd0[OF safe_vars _ assms])
    (auto simp: safe_steps split: option.split intro!: safe_bnd0 safe_cleanup_port safe_steps assms)

lemma safe_promote_and_activate:
  assumes "env_ok S" and "ingestion.stable P" and "\<And>d. P d \<Longrightarrow> attempt_stored key (it_attempt it) d"
  shows "ingestion.safe (sv_repo S) P (promote_and_activate S it) (\<lambda>_. clean_scan key)"
  unfolding promote_and_activate_def
proof (rule safe_bnd0[OF safe_choose safe_bnd0[OF safe_promote safe_bnd0[OF safe_assign
      ingestion.safe_bnd[OF ingestion.safe_catching[OF safe_activate]]]]])
  show "ingestion.safe (sv_repo S) P (case e of (f, b) \<Rightarrow> if is_exception f then throw Promotion_Pending else rethrow (f, b)) Q"
    for e and Q :: "unit \<Rightarrow> db \<Rightarrow> bool"
    by (simp add: safe_throw ingestion.safe_rethrow split: prod.split)
qed (use assms in \<open>auto intro: ingestion.safe_ret\<close>)

section \<open>Completing a reference\<close>

lemma safe_find_replay0: "env_ok S \<Longrightarrow> ingestion.stable P \<Longrightarrow> ingestion.safe (sv_repo S) P (find_replay S q) (\<lambda>_ _. True)"
  by (rule safe_any[OF safe_find_replay])

lemma safe_find_completed:
  "env_ok S \<Longrightarrow> ingestion.stable P \<Longrightarrow>
   ingestion.safe (sv_repo S) P (find_completed_reference_result S out q) (\<lambda>_ _. True)"
  unfolding find_completed_reference_result_def by (intro safe_bnd0 safe_find_replay0 safe_ret0)

lemma safe_mark_and_confirm:
  assumes "env_ok S" and "ingestion.stable P"
  shows "ingestion.safe (sv_repo S) P (mark_and_confirm S out q) (\<lambda>_ _. True)"
  unfolding mark_and_confirm_def
proof (rule ingestion.safe_catching[OF safe_bnd0[OF safe_port safe_confirm[OF assms] assms(2)] _ assms(2)])
  have "ingestion.safe (sv_repo S) P (bnd (find_completed_reference_result S out r) (\<lambda>completed.
      case completed of Some res \<Rightarrow> ret res | None \<Rightarrow> throw Post_Commit_Reference)) (\<lambda>_ _. True)" for r
    by (rule safe_bnd0[OF safe_find_completed[OF assms] _ assms(2)]) (simp add: safe_steps split: option.split)
  then show "ingestion.safe (sv_repo S) P (case e of (f, b) \<Rightarrow> if \<not> is_exception f then rethrow (f, b)
      else case q of None \<Rightarrow> throw Post_Commit_Reference
        | Some request \<Rightarrow> bnd (find_completed_reference_result S out request) (\<lambda>completed.
            case completed of Some res \<Rightarrow> ret res | None \<Rightarrow> throw Post_Commit_Reference)) (\<lambda>_ _. True)" for e
    by (simp add: safe_steps split: prod.split option.split)
qed

lemma safe_check_replay: "ingestion.safe repo P (check_replay_outcome out) (\<lambda>_ _. True)"
  by (simp add: check_replay_outcome_def Let_def safe_check0 split: reference_action.split)

lemma safe_check_fresh: "ingestion.safe repo P (check_fresh_outcome out staged) (\<lambda>_ _. True)"
  by (simp add: check_fresh_outcome_def Let_def safe_check0 split: reference_action.split)

lemma safe_complete_replay:
  assumes "env_ok S" and "ingestion.stable P"
  shows "ingestion.safe (sv_repo S) P (complete_replay_reference_intent S out q) (\<lambda>_ _. True)"
  unfolding complete_replay_reference_intent_def
  by (rule safe_bnd0[OF safe_check_replay _ assms(2)])
    (auto simp: safe_steps split: reference_action.split
      intro!: safe_mark_and_confirm safe_bnd0 safe_cleanup_port safe_steps assms)

lemma safe_reconcile:
  assumes "env_ok S" and "ingestion.stable P"
  shows "ingestion.safe (sv_repo S) P (reconcile_pending_reference S lease) (\<lambda>_ _. True)"
proof -
  have c: "ingestion.safe (sv_repo S) P (catching (complete_replay_reference_intent S out q)
      (\<lambda>(f, b). if f = Post_Commit_Reference then throw Reference_Pending else rethrow (f, b))) (\<lambda>_ _. True)" for out q
    by (rule ingestion.safe_catching[OF safe_complete_replay[OF assms] _ assms(2)])
      (simp add: safe_steps split: prod.split)
  show ?thesis
    unfolding reconcile_pending_reference_def Let_def
    by (rule safe_bnd0[OF safe_find_replay0[OF assms] _ assms(2)]) (simp add: safe_steps c split: option.split)
qed

lemma safe_complete_fresh:
  assumes "env_ok S" and "ingestion.stable P"
  shows "ingestion.safe (sv_repo S) P (complete_fresh_reference_intent S out staged lease) (\<lambda>_ _. True)"
  unfolding complete_fresh_reference_intent_def
  by (rule safe_bnd0[OF safe_check_fresh _ assms(2)])
    (auto simp: safe_steps split: reference_action.split
      intro!: safe_mark_and_confirm safe_reconcile safe_bnd0 safe_cleanup_port safe_steps assms)

section \<open>The whole call\<close>

lemma safe_replay_publication:
  assumes "env_ok S" and "ingestion.stable P"
  shows "ingestion.safe (sv_repo S) P (replay_publication S q out) (\<lambda>_ _. True)"
  unfolding replay_publication_def run_final_publication_def
  by (intro ingestion.safe_finally safe_bnd0 safe_gate_check safe_session_publication safe_gate_commit safe_complete_replay
      safe_publish_errors assms) simp_all

lemma safe_receive: "ingestion.stable P \<Longrightarrow> ingestion.safe repo P (receive S w chunks seen) (\<lambda>_ _. True)"
  by (induction S w chunks seen rule: receive.induct) (auto intro!: safe_bnd0 safe_steps)

lemma safe_receive_and_scan:
  assumes "env_ok S" and "ingestion.stable P"
  shows "ingestion.safe (sv_repo S) P (receive_and_scan S lease chunks declared)
    (\<lambda>(it, _) d. attempt_stored (lease_key lease) (it_attempt it) d)"
proof -
  have last: "ingestion.safe (sv_repo S) P (bnd (scan_and_record S lease spool sha n declared) (\<lambda>it. ret (it, sha, n)))
      (\<lambda>(it, _) d. attempt_stored (lease_key lease) (it_attempt it) d)" for spool sha n
    by (rule ingestion.safe_bnd[OF safe_scan_and_record[OF assms] _ assms(2)]) (rule ingestion.safe_ret, simp)
  show ?thesis
    unfolding receive_and_scan_def Let_def
    by (intro safe_bnd0 safe_steps safe_receive safe_cleanup_port last assms(2))
qed

lemma safe_obtain:
  assumes "env_ok S" and "ingestion.stable P"
    and "\<And>d. P d \<Longrightarrow> (\<forall>it. found = Some it \<longrightarrow> attempt_stored (lease_key lease) (it_attempt it) d)"
  shows "ingestion.safe (sv_repo S) P (obtain_intention S lease chunks declared found)
    (\<lambda>(it, _) d. attempt_stored (lease_key lease) (it_attempt it) d)"
proof (cases found)
  case None
  show ?thesis using safe_receive_and_scan[OF assms(1,2)] by (simp add: obtain_intention_def None)
next
  case (Some it)
  show ?thesis unfolding obtain_intention_def Some option.case
    by (rule ingestion.safe_ret) (use assms(3) Some in simp)
qed

lemma safe_publish_sequence:
  assumes "env_ok S" and "ingestion.stable P" and "\<And>d. P d \<Longrightarrow> clean_scan (lease_key (fr_lease q)) d"
  shows "ingestion.safe (sv_repo S) P (publish_sequence S lease staged q) (\<lambda>_ _. True)"
  unfolding publish_sequence_def
  by (intro safe_bnd0 safe_finalize safe_assign safe_complete_fresh assms)

lemma safe_commit_sequence:
  assumes "env_ok S" and "ingestion.stable P" and "\<And>d. P d \<Longrightarrow> clean_scan (lease_key lease) d"
  shows "ingestion.safe (sv_repo S) P (commit_sequence S i lease media m sha n explanation) (\<lambda>_ _. True)"
  unfolding commit_sequence_def
  by (intro safe_bnd0 safe_port safe_assign safe_session_publication safe_publish_sequence assms)
    (use assms(3) in \<open>simp_all add: finalize_request_of_def\<close>)

lemma safe_publish_quarantined:
  assumes "env_ok S" and "ingestion.stable P" and "\<And>d. P d \<Longrightarrow> clean_scan (lease_key lease) d"
  shows "ingestion.safe (sv_repo S) P (publish_quarantined S q lease object sha n declared explanation) (\<lambda>_ _. True)"
  unfolding publish_quarantined_def validate_media_def verify_normalized_def Let_def split_beta
  by (intro safe_bnd0 safe_steps safe_gate_commit safe_commit_sequence assms)

lemma safe_ingest_body:
  assumes "env_ok S" and "ingestion.stable P"
    and "\<And>d. P d \<Longrightarrow> (\<forall>it. found = Some it \<longrightarrow> attempt_stored (lease_key lease) (it_attempt it) d)"
  shows "ingestion.safe (sv_repo S) P (ingest_body S q lease chunks declared explanation found)
    (\<lambda>_. clean_scan (lease_key lease))"
proof -
  have published: "ingestion.safe (sv_repo S) (\<lambda>d. (P d \<and> attempt_stored key a d) \<and> clean_scan (lease_key lease) d)
      (publish_quarantined S q lease object sha n declared explanation) (\<lambda>_. clean_scan (lease_key lease))"
    for key a object sha n
    by (rule ingestion.safe_mono[OF safe_keep[OF safe_publish_quarantined[OF assms(1)]]]) (use assms(2) in auto)
  show ?thesis
    unfolding ingest_body_def
  proof (rule ingestion.safe_bnd[OF safe_obtain[OF assms] _ assms(2)])
    fix x :: "intention \<times> str \<times> int"
    obtain it sha n where x: "x = (it, sha, n)" by (cases x) auto
    let ?P = "\<lambda>d. P d \<and> attempt_stored (lease_key lease) (it_attempt it) d"
    have st: "ingestion.stable ?P" using assms(2) by simp
    show "ingestion.safe (sv_repo S) (\<lambda>d. P d \<and> (case x of (it, _) \<Rightarrow> \<lambda>d. attempt_stored (lease_key lease) (it_attempt it) d) d)
        (case x of (it, sha, nbytes) \<Rightarrow> bnd (gate_check S) (\<lambda>_. bnd (promote_and_activate S it)
          (\<lambda>object. publish_quarantined S q lease object sha nbytes declared explanation))) (\<lambda>_. clean_scan (lease_key lease))"
      unfolding x prod.case
      by (rule safe_bnd0[OF safe_gate_check ingestion.safe_bnd[OF safe_promote_and_activate[OF assms(1) st] published st] st]) simp
  qed
qed

lemma safe_handle_failure:
  assumes "env_ok S" and "ingestion.stable P"
  shows "ingestion.safe (sv_repo S) P (handle_failure S lease e) Q"
  unfolding handle_failure_def split_beta
  by (intro safe_bnd0 ingestion.safe_only_if ingestion.safe_option_do safe_steps safe_cleanup_port
      safe_run_cleanup[OF safe_reject] assms)

lemma safe_release:
  assumes "ingestion.stable P"
  shows "ingestion.safe repo P (release_resources S) (\<lambda>_ _. True)"
  unfolding release_resources_def
  by (intro safe_bnd0 ingestion.safe_only_if ingestion.safe_option_do safe_steps safe_cleanup_port assms)

lemma safe_ingest:
  assumes "env_ok S"
  shows "ingestion.safe (sv_repo S) (\<lambda>_. True) (ingest S q chunks declared explanation)
    (\<lambda>_. clean_scan (scan_idempotency_key q))"
proof -
  let ?key = "scan_idempotency_key q"
  have replay: "ingestion.safe (sv_repo S) (\<lambda>d. P d \<and> (Some out \<noteq> None \<longrightarrow> clean_scan ?key d))
      (replay_publication S q out) (\<lambda>_. clean_scan ?key)" if "ingestion.stable P" for out P
    by (rule ingestion.safe_mono[OF safe_keep[OF safe_replay_publication[OF assms]]]) (use that in auto)
  let ?found = "\<lambda>found d. \<forall>it. found = Some it \<longrightarrow> attempt_stored ?key (it_attempt it) d"
  have st: "ingestion.stable (?found found)" for found
    using stable_attempt_stored unfolding ingestion.stable_def by blast
  have again: "ingestion.safe (sv_repo S) P (case e of (f, b) \<Rightarrow> if f \<noteq> Reference_Pending then rethrow (f, b)
      else bnd (find_replay S q) (\<lambda>again. case again of
        None \<Rightarrow> rethrow (f, b)
      | Some out \<Rightarrow> bnd (replay_publication S q out) (\<lambda>res. ret (Inr res))))
      (\<lambda>step d. case step of Inl lease \<Rightarrow> lease_key lease = ?key | Inr _ \<Rightarrow> clean_scan ?key d)"
    if P: "ingestion.stable P" for P and e :: raised
  proof -
    have out: "ingestion.safe (sv_repo S) (\<lambda>d. P d \<and> (Some out \<noteq> None \<longrightarrow> clean_scan ?key d))
        (bnd (replay_publication S q out) (\<lambda>res. ret (Inr res)))
        (\<lambda>step d. case step of Inl lease \<Rightarrow> lease_key lease = ?key | Inr _ \<Rightarrow> clean_scan ?key d)" for out
      by (rule ingestion.safe_bnd[OF replay[OF P]]) (use P in \<open>auto intro: ingestion.safe_ret\<close>)
    have "ingestion.safe (sv_repo S) P (bnd (find_replay S q) (\<lambda>again. case again of
        None \<Rightarrow> rethrow x | Some out \<Rightarrow> bnd (replay_publication S q out) (\<lambda>res. ret (Inr res))))
      (\<lambda>step d. case step of Inl lease \<Rightarrow> lease_key lease = ?key | Inr _ \<Rightarrow> clean_scan ?key d)" for x
    proof (rule ingestion.safe_bnd[OF safe_find_replay[OF assms P] _ P])
      fix y
      show "ingestion.safe (sv_repo S) (\<lambda>d. P d \<and> (y \<noteq> None \<longrightarrow> clean_scan ?key d))
          (case y of None \<Rightarrow> rethrow x | Some out \<Rightarrow> bnd (replay_publication S q out) (\<lambda>res. ret (Inr res)))
          (\<lambda>step d. case step of Inl lease \<Rightarrow> lease_key lease = ?key | Inr _ \<Rightarrow> clean_scan ?key d)"
        using out by (cases y) (simp_all add: ingestion.safe_rethrow)
    qed
    then show ?thesis by (simp add: ingestion.safe_rethrow split: prod.split)
  qed
  have run: "ingestion.safe (sv_repo S) (\<lambda>d. ?found found d \<and> lease_key lease = ?key)
      (finally_do (catching (ingest_body S q lease chunks declared explanation found) (handle_failure S lease))
        (release_resources S)) (\<lambda>_. clean_scan ?key)" for found lease
  proof (cases "lease_key lease = ?key")
    case True
    note body = safe_ingest_body[OF assms st, where lease = lease, unfolded True]
    show ?thesis
      using ingestion.safe_finally[OF ingestion.safe_catching[OF body safe_handle_failure[OF assms st] st] safe_release[OF st] st] True
      by simp
  qed (simp add: ingestion.safe_def)
  have reserve: "ingestion.safe (sv_repo S) (?found found)
      (catching (bnd (reserve_media S q) (\<lambda>lease. ret (Inl lease)))
        (\<lambda>(f, b). if f \<noteq> Reference_Pending then rethrow (f, b)
          else bnd (find_replay S q) (\<lambda>again. case again of
            None \<Rightarrow> rethrow (f, b)
          | Some out \<Rightarrow> bnd (replay_publication S q out) (\<lambda>res. ret (Inr res)))))
      (\<lambda>step d. case step of Inl lease \<Rightarrow> lease_key lease = ?key | Inr _ \<Rightarrow> clean_scan ?key d)" for found
    by (rule ingestion.safe_catching[OF ingestion.safe_bnd[OF safe_reserve[OF assms st] _ st] again[OF st] st])
      (auto intro: ingestion.safe_ret)
  have fresh: "ingestion.safe (sv_repo S) (?found found)
      (bnd (catching (bnd (reserve_media S q) (\<lambda>lease. ret (Inl lease)))
        (\<lambda>(f, b). if f \<noteq> Reference_Pending then rethrow (f, b)
          else bnd (find_replay S q) (\<lambda>again. case again of
            None \<Rightarrow> rethrow (f, b)
          | Some out \<Rightarrow> bnd (replay_publication S q out) (\<lambda>res. ret (Inr res))))) (\<lambda>step. case step of
         Inr res \<Rightarrow> ret res
       | Inl lease \<Rightarrow> finally_do
           (catching (ingest_body S q lease chunks declared explanation found) (handle_failure S lease))
           (release_resources S))) (\<lambda>_. clean_scan ?key)" for found
  proof (rule ingestion.safe_bnd[OF reserve _ st])
    fix step
    show "ingestion.safe (sv_repo S)
        (\<lambda>d. ?found found d \<and> (case step of Inl lease \<Rightarrow> lease_key lease = ?key | Inr _ \<Rightarrow> clean_scan ?key d))
        (case step of Inr res \<Rightarrow> ret res
         | Inl lease \<Rightarrow> finally_do
             (catching (ingest_body S q lease chunks declared explanation found) (handle_failure S lease))
             (release_resources S)) (\<lambda>_. clean_scan ?key)"
      using run by (cases step) (auto intro: ingestion.safe_ret)
  qed
  show ?thesis
    unfolding ingest_def
  proof (rule safe_bnd0[OF safe_begin safe_bnd0[OF safe_gate_check ingestion.safe_bnd[OF safe_find_replay[OF assms]]]])
    fix r :: "finalize_outcome option"
    let ?P = "\<lambda>d. True \<and> (r \<noteq> None \<longrightarrow> clean_scan ?key d)"
    show "ingestion.safe (sv_repo S) ?P (case r of Some out \<Rightarrow> replay_publication S q out
      | None \<Rightarrow> bnd (find_pending_clean_intention S q) (\<lambda>found.
          bnd (catching (bnd (reserve_media S q) (\<lambda>lease. ret (Inl lease)))
            (\<lambda>(f, b). if f \<noteq> Reference_Pending then rethrow (f, b)
              else bnd (find_replay S q) (\<lambda>again. case again of
                None \<Rightarrow> rethrow (f, b)
              | Some out \<Rightarrow> bnd (replay_publication S q out) (\<lambda>res. ret (Inr res))))) (\<lambda>step. case step of
             Inr res \<Rightarrow> ret res
           | Inl lease \<Rightarrow> finally_do
               (catching (ingest_body S q lease chunks declared explanation found) (handle_failure S lease))
               (release_resources S)))) (\<lambda>_. clean_scan ?key)"
    proof (cases r)
      case None
      show ?thesis unfolding None option.case
        by (rule ingestion.safe_bnd[OF safe_find_pending[OF assms]])
          (auto intro: ingestion.safe_mono[OF fresh])
    next
      case (Some out)
      show ?thesis unfolding Some option.case using replay[of "\<lambda>_. True" out] by simp
    qed
  qed simp_all
qed

section \<open>Properties\<close>

text \<open>
  C1. Whatever the ports do and whatever other requests do between its transactions, a call of
  \<open>MediaIngestionService.ingest\<close> keeps the invariant of the media and scan tables: in particular every reservation that
  reached a pending or visible reference has a recorded clean scan of that very request with its receipt. Scan
  attempts and receipts are never lost, and a call that returns a result leaves the clean scan of its own request behind.
\<close>

theorem ingest_safe:
  assumes "env_ok S" and "ingest_inv (sv_repo S) (w_db w)"
    and "ingest S q chunks declared explanation w = (w', r)"
  shows "ingest_inv (sv_repo S) (w_db w') \<and> keeps_scans (w_db w) (w_db w')
    \<and> (\<not> isl r \<longrightarrow> clean_scan (scan_idempotency_key q) (w_db w'))"
proof -
  note a = ingestion.safeD[OF safe_ingest[OF assms(1)] assms(2) TrueI assms(3)]
  show ?thesis
  proof (cases r)
    case (Inr x)
    show ?thesis using a(1,2) a(3)[OF Inr] by simp
  qed (use a(1,2) in simp)
qed

text \<open>
  A completed reservation is replayed. The look-up reads the database as the other requests left it after the first check
  of the gate.
\<close>

definition replay_tick :: "'x service \<Rightarrow> 'x world \<Rightarrow> nat" where
  "replay_tick S w = w_tick w + (if sv_has_gate S then 1 else 0)"

definition replay_db :: "'x service \<Rightarrow> 'x world \<Rightarrow> db" where
  "replay_db S w = sv_other S (replay_tick S w) (w_db w)"

text \<open>The stored upload of a request, and the outcome that is replayed for it.\<close>

definition completed_upload :: "media_repo \<Rightarrow> media_reservation_request \<Rightarrow> reservation_row \<Rightarrow> db \<Rightarrow> bool" where
  "completed_upload repo q r d \<longleftrightarrow> media_inv repo d \<and> r \<in> set (t_reservations d) \<and> mr_status r = RsCompleted
     \<and> mr_owner_id r = rq_owner_id q \<and> mr_session_id r = rq_session_id q
     \<and> mr_idempotency_key r = rq_idempotency_key q \<and> mr_fingerprint r = rq_fingerprint q
     \<and> \<not> isl (lock_owned_session (rq_owner_id q) (rq_session_id q) d)"

definition direct_reuse :: "reservation_row \<Rightarrow> bool" where
  "direct_reuse r \<longleftrightarrow> mr_completion_mode r = Some Direct_Reuse"

lemma find_idempotent_completed:
  assumes "completed_upload repo q r d"
  shows "\<exists>out. find_idempotent_outcome (rq_owner_id q) (rq_session_id q) (rq_idempotency_key q) (rq_fingerprint q) now d
      = Inr (d, Some out) \<and> mr_result_json r = Some (fo_result out)
      \<and> in_action (fo_intent out) = (if direct_reuse r then ABORT_STAGED else NOOP)
      \<and> st_media_item_id (in_staged (fo_intent out)) = mr_media_item_id r \<and> fo_evidence_visible out"
proof -
  note a = assms[unfolded completed_upload_def]
  have inv: "media_inv repo d" and r: "r \<in> set (t_reservations d)" "mr_status r = RsCompleted" using a by auto
  obtain s where s: "lock_owned_session (rq_owner_id q) (rq_session_id q) d = Inr s"
    using a by (cases "lock_owned_session (rq_owner_id q) (rq_session_id q) d") auto
  have f: "find_reservation (rq_owner_id q) (rq_session_id q) (rq_idempotency_key q) d = Some r"
    unfolding find_reservation_def by (rule find_unique[OF media_invD(3)[OF inv] r(1)]) (use a in \<open>auto simp: key_of_def\<close>)
  let ?act = "if direct_reuse r then ABORT_STAGED else NOOP"
  obtain out where o: "outcome_of r (Some ?act) (Some True) = Inr out" "mr_result_json r = Some (fo_result out)"
    using outcome_present[OF media_invD(1)[OF inv r(1)], of "Some ?act" "Some True"] r(2) by auto
  moreover have "in_action (fo_intent out) = ?act" "fo_evidence_visible out"
      "st_media_item_id (in_staged (fo_intent out)) = mr_media_item_id r"
    using o(1) by (auto simp: outcome_of_def andthen_Inr_iff staged_of_def split: option.splits)
  ultimately show ?thesis
    using f s a by (simp add: find_idempotent_outcome_def replay_locked_def check_fingerprint_def direct_reuse_def)
qed

text \<open>What a replay keeps, what it may return, and when it returns.\<close>

definition holds :: "('s \<Rightarrow> bool) \<Rightarrow> ('s, 'e, 'a) action \<Rightarrow> bool" where
  "holds J m \<longleftrightarrow> (\<forall>w. J w \<longrightarrow> J (fst (m w)))"

definition answers :: "('s \<Rightarrow> bool) \<Rightarrow> ('s, 'e, 'a) action \<Rightarrow> bool" where
  "answers L m \<longleftrightarrow> (\<forall>w. L w \<longrightarrow> L (fst (m w)) \<and> \<not> isl (snd (m w)))"

definition yields :: "'a \<Rightarrow> ('s, 'e, 'a) action \<Rightarrow> bool" where
  "yields v m \<longleftrightarrow> (\<forall>w x. snd (m w) = Inr x \<longrightarrow> x = v)"

lemma holds_bnd: "holds J m \<Longrightarrow> (\<And>x. holds J (k x)) \<Longrightarrow> holds J (bnd m k)"
  by (fastforce simp: holds_def bnd_def split: prod.split sum.split)

lemma holds_finally: "holds J m \<Longrightarrow> holds J f \<Longrightarrow> holds J (finally_do m f)"
  by (fastforce simp: holds_def finally_do_def split: prod.split sum.split)

lemma holds_return: "holds J (ret x)" "holds J (throw f)" "holds J (check b f)"
  by (auto simp: holds_def throw_def check_def)

lemma answers_bnd: "answers L m \<Longrightarrow> (\<And>x. answers L (k x)) \<Longrightarrow> answers L (bnd m k)"
  by (fastforce simp: answers_def bnd_def split: prod.split sum.split)

lemma answers_finally: "answers L m \<Longrightarrow> answers L f \<Longrightarrow> answers L (finally_do m f)"
  by (fastforce simp: answers_def finally_do_def split: prod.split sum.split)

lemma answers_ret: "answers L (ret x)"
  by (simp add: answers_def)

lemma yields_bnd: "(\<And>x. yields v (k x)) \<Longrightarrow> yields v (bnd m k)"
  by (fastforce simp: yields_def bnd_def split: prod.split sum.split)

lemma yields_finally: "yields v m \<Longrightarrow> yields v (finally_do m f)"
  unfolding yields_def by (metis finally_result prod.collapse snd_conv)

lemma yields_return: "yields v (ret v)" "yields v (throw f)"
  by (auto simp: yields_def throw_def)

text \<open>The ports of a replay: the session lock and, after a direct reuse, the removal of the staged object and the
  report of its failure.\<close>

definition replay_ports_keep :: "'x service \<Rightarrow> str \<Rightarrow> reservation_row \<Rightarrow> ('x \<Rightarrow> bool) \<Rightarrow> bool" where
  "replay_ports_keep S i r J \<longleftrightarrow> (\<forall>x. J x \<longrightarrow>
     (sv_has_lock S \<longrightarrow> J (fst (sv_acquire S i x)) \<and> J (fst (sv_release S i x)))
     \<and> (direct_reuse r \<longrightarrow> (\<forall>st. J (fst (sv_abort_staged S st x))) \<and> (\<forall>es. J (sv_report S es x))))"

definition replay_ports_answer :: "'x service \<Rightarrow> str \<Rightarrow> reservation_row \<Rightarrow> bool" where
  "replay_ports_answer S i r \<longleftrightarrow> (\<forall>x.
     (sv_has_lock S \<longrightarrow> \<not> isl (snd (sv_acquire S i x)) \<and> \<not> isl (snd (sv_release S i x)))
     \<and> (direct_reuse r \<longrightarrow> (\<forall>st f. snd (sv_abort_staged S st x) = Inl f \<longrightarrow> is_exception f)))"

definition during_replay :: "reservation_row \<Rightarrow> ('x \<Rightarrow> bool) \<Rightarrow> db \<Rightarrow> 'x world \<Rightarrow> bool" where
  "during_replay r J d w \<longleftrightarrow> J (w_ext w) \<and> w_db w = d \<and> (direct_reuse r \<or> w_cleanup w = [])"

lemma holds_gate_check: "holds (during_replay r J d) (gate_check S)"
  by (auto simp: holds_def gate_check_def Let_def during_replay_def split: sum.split)

lemma holds_gate_commit:
  assumes "holds (during_replay r J d) m"
  shows "holds (during_replay r J d) (gate_commit S m)"
  unfolding holds_def
proof (intro allI impI)
  fix w :: "'a world"
  assume w: "during_replay r J d w"
  define w0 where "w0 = w\<lparr>w_gate := (if sv_cancel S (w_tick w) then fst (gate_cancel (w_gate w)) else w_gate w),
    w_tick := w_tick w + 1\<rparr>"
  have g: "gate_commit S m w = (if \<not> sv_has_gate S then m w
    else if gt_cancelled (w_gate w0) then (w0, Inl (Upload_Cancelled, False))
    else case m w0 of (w', Inl e) \<Rightarrow> (w', Inl e)
      | (w', Inr x) \<Rightarrow> (w'\<lparr>w_gate := fst (run_commit (Inr () :: unit + unit) (w_gate w'))\<rparr>, Inr x))"
    unfolding gate_commit_def Let_def w0_def by simp
  have w0: "during_replay r J d w0" using w by (simp add: w0_def during_replay_def)
  then have m: "during_replay r J d (fst (m w0))" "during_replay r J d (fst (m w))"
    using assms w by (simp_all add: holds_def)
  have u: "during_replay r J d (v\<lparr>w_gate := x\<rparr>) = during_replay r J d v" for v x by (simp add: during_replay_def)
  show "during_replay r J d (fst (gate_commit S m w))"
    unfolding g using w0 m by (cases "m w0"; cases "snd (m w0)") (simp_all add: u)
qed

lemma holds_port:
  assumes "\<And>x. J x \<Longrightarrow> J (fst (p x))"
  shows "holds (during_replay r J d) (port p)"
  using assms by (fastforce simp: holds_def port_def during_replay_def split: prod.split)

lemma holds_lock:
  assumes "replay_ports_keep S i r J" and "holds (during_replay r J d) m"
  shows "holds (during_replay r J d) (run_session_publication S i m)"
proof (cases "sv_has_lock S")
  case True
  then have "holds (during_replay r J d) (port (sv_acquire S i))" "holds (during_replay r J d) (port (sv_release S i))"
    using assms(1) by (auto simp: replay_ports_keep_def intro!: holds_port)
  then show ?thesis
    using True assms(2) by (auto simp: run_session_publication_def intro: holds_bnd holds_finally)
qed (simp add: run_session_publication_def assms(2))

lemma holds_cleanup:
  assumes "holds (during_replay r J d) m" and "direct_reuse r"
  shows "holds (during_replay r J d) (run_cleanup m)"
  unfolding holds_def
proof (intro allI impI)
  fix w :: "'a world"
  assume w: "during_replay r J d w"
  then have "during_replay r J d (fst (m w))" using assms(1) by (simp add: holds_def)
  then show "during_replay r J d (fst (run_cleanup m w))"
    using assms(2) by (auto simp: run_cleanup_def during_replay_def split: prod.split sum.split)
qed

lemma holds_publish:
  assumes "replay_ports_keep S i r J"
  shows "holds (during_replay r J d) (publish_cleanup_errors S)"
  using assms by (auto simp: holds_def publish_cleanup_errors_def during_replay_def replay_ports_keep_def)

lemma holds_complete:
  assumes keep: "replay_ports_keep S i r J"
    and out: "in_action (fo_intent out) = (if direct_reuse r then ABORT_STAGED else NOOP)"
  shows "holds (during_replay r J d) (complete_replay_reference_intent S out q)"
proof -
  have 0: "holds (during_replay r J d) (check_replay_outcome out)"
    using out by (auto simp: check_replay_outcome_def Let_def holds_return)
  show ?thesis
  proof (cases "direct_reuse r")
    case True
    have "holds (during_replay r J d) (port (sv_abort_staged S (in_staged (fo_intent out))))"
      using keep True by (auto simp: replay_ports_keep_def intro!: holds_port)
    then show ?thesis
      using 0 out True by (auto simp: complete_replay_reference_intent_def holds_return intro!: holds_bnd holds_cleanup)
  next
    case False
    then show ?thesis
      using 0 out by (auto simp: complete_replay_reference_intent_def holds_return intro!: holds_bnd)
  qed
qed

lemma yields_complete:
  assumes "in_action (fo_intent out) \<noteq> MARK_REFERENCED"
  shows "yields (fo_result out) (complete_replay_reference_intent S out q)"
proof -
  have "yields (fo_result out) (if b then throw f else ret (fo_result out))" for b f and S :: "'x service"
    by (simp add: yields_return)
  then show ?thesis
    using assms by (cases "in_action (fo_intent out)")
      (auto simp: complete_replay_reference_intent_def yields_return intro!: yields_bnd)
qed

lemma yields_gate_commit: "yields v m \<Longrightarrow> yields v (gate_commit S m)"
  unfolding yields_def gate_commit_def Let_def
  by (auto split: prod.splits sum.splits if_splits) (metis snd_conv)+

lemma yields_lock: "yields v m \<Longrightarrow> yields v (run_session_publication S i m)"
  by (auto simp: run_session_publication_def intro!: yields_bnd yields_finally)

text \<open>A replay answers when nothing cancels the upload and the ports answer.\<close>

definition open_gate :: "'x world \<Rightarrow> bool" where
  "open_gate w \<longleftrightarrow> \<not> gt_cancelled (w_gate w)"

lemma answers_gate:
  assumes "\<And>n. \<not> sv_cancel S n"
  shows "answers open_gate (gate_check S)" and "answers open_gate m \<Longrightarrow> answers open_gate (gate_commit S m)"
proof -
  show "answers open_gate (gate_check S)"
    using assms by (auto simp: answers_def open_gate_def gate_check_def Let_def check_active_def)
  assume m: "answers open_gate m"
  show "answers open_gate (gate_commit S m)"
    unfolding answers_def
  proof (intro allI impI)
    fix w :: "'a world"
    assume w: "open_gate w"
    define w0 where "w0 = w\<lparr>w_tick := w_tick w + 1\<rparr>"
    have "open_gate w0" using w by (simp add: w0_def open_gate_def)
    then have 1: "open_gate (fst (m w0))" "\<not> isl (snd (m w0))" "open_gate (fst (m w))" "\<not> isl (snd (m w))"
      using m w by (auto simp: answers_def)
    obtain w1 x1 where 2: "m w0 = (w1, Inr x1)" using 1(2) by (cases "m w0"; cases "snd (m w0)") auto
    show "open_gate (fst (gate_commit S m w)) \<and> \<not> isl (snd (gate_commit S m w))"
      using 1 2 w assms unfolding w0_def by (auto simp: gate_commit_def Let_def open_gate_def run_commit_def)
  qed
qed

lemma answers_lock:
  assumes "replay_ports_answer S i r" and "answers open_gate m"
  shows "answers open_gate (run_session_publication S i m)"
proof (cases "sv_has_lock S")
  case True
  then have "answers open_gate (port (sv_acquire S i))" "answers open_gate (port (sv_release S i))"
    using assms(1) by (auto simp: answers_def port_def open_gate_def replay_ports_answer_def split: prod.split sum.split)
      (metis isl_def snd_conv)+
  then show ?thesis
    using True assms(2) by (auto simp: run_session_publication_def intro: answers_bnd answers_finally)
qed (simp add: run_session_publication_def assms(2))

lemma answers_complete:
  assumes "replay_ports_answer S i r" and "in_action (fo_intent out) = (if direct_reuse r then ABORT_STAGED else NOOP)"
    and "fo_evidence_visible out" and "direct_reuse r \<Longrightarrow> ir_media_item_id (fo_result out) \<noteq> st_media_item_id (in_staged (fo_intent out))"
  shows "answers open_gate (complete_replay_reference_intent S out q)"
proof -
  have c: "check_replay_outcome out = ret ()"
    using assms(2-4) by (auto simp: check_replay_outcome_def Let_def check_def)
  show ?thesis
  proof (cases "direct_reuse r")
    case True
    have "answers open_gate (run_cleanup (port (sv_abort_staged S (in_staged (fo_intent out)))))"
      using assms(1) True
      by (auto simp: answers_def run_cleanup_def port_def open_gate_def replay_ports_answer_def split: prod.split sum.split)
        (metis snd_conv)
    then show ?thesis
      using True assms(2,3) by (auto simp: complete_replay_reference_intent_def c bnd_ret answers_ret intro!: answers_bnd)
  qed (use assms(2) in \<open>simp add: complete_replay_reference_intent_def c bnd_ret answers_ret del: ret_run\<close>)
qed

text \<open>The three facts of a replayed outcome.\<close>

lemma replay_publication_facts:
  assumes out: "in_action (fo_intent out) = (if direct_reuse r then ABORT_STAGED else NOOP)"
  shows "replay_ports_keep S (rq_session_id q) r J \<Longrightarrow> holds (during_replay r J d) (replay_publication S q out)"
    and "yields (fo_result out) (replay_publication S q out)"
    and "replay_ports_answer S (rq_session_id q) r \<Longrightarrow> (\<And>n. \<not> sv_cancel S n) \<Longrightarrow> fo_evidence_visible out
      \<Longrightarrow> (direct_reuse r \<Longrightarrow> ir_media_item_id (fo_result out) \<noteq> st_media_item_id (in_staged (fo_intent out)))
      \<Longrightarrow> answers open_gate (replay_publication S q out)"
proof -
  show "holds (during_replay r J d) (replay_publication S q out)" if "replay_ports_keep S (rq_session_id q) r J"
    unfolding replay_publication_def run_final_publication_def
    by (intro holds_finally holds_bnd holds_gate_check holds_publish[OF that] holds_lock[OF that] holds_gate_commit
        holds_complete[OF that out])
  have "in_action (fo_intent out) \<noteq> MARK_REFERENCED" using out by auto
  then show "yields (fo_result out) (replay_publication S q out)"
    unfolding replay_publication_def run_final_publication_def
    by (intro yields_finally yields_bnd yields_lock yields_gate_commit yields_complete)
  have "answers open_gate (publish_cleanup_errors S)"
    by (simp add: answers_def publish_cleanup_errors_def open_gate_def)
  then show "answers open_gate (replay_publication S q out)" if "replay_ports_answer S (rq_session_id q) r"
      "\<And>n. \<not> sv_cancel S n" "fo_evidence_visible out"
      "direct_reuse r \<Longrightarrow> ir_media_item_id (fo_result out) \<noteq> st_media_item_id (in_staged (fo_intent out))"
    unfolding replay_publication_def run_final_publication_def
    by (intro answers_finally answers_bnd answers_gate(1)[OF that(2)] answers_lock[OF that(1)] answers_gate(2)[OF that(2)]
        answers_complete[OF that(1) out that(3,4)])
qed

lemma ingest_start:
  "ingest S q chunks declared explanation w =
     bnd (gate_check S) (\<lambda>_. bnd (find_replay S q) (\<lambda>replay. case replay of
       Some out \<Rightarrow> replay_publication S q out
     | None \<Rightarrow> bnd (find_pending_clean_intention S q) (\<lambda>pending_replay.
       bnd (catching (bnd (reserve_media S q) (\<lambda>lease. ret (Inl lease)))
             (\<lambda>(f, b). if f \<noteq> Reference_Pending then rethrow (f, b)
               else bnd (find_replay S q) (\<lambda>again. case again of
                 None \<Rightarrow> rethrow (f, b)
               | Some out \<Rightarrow> bnd (replay_publication S q out) (\<lambda>res. ret (Inr res))))) (\<lambda>step. case step of
         Inr res \<Rightarrow> ret res
       | Inl lease \<Rightarrow>
         finally_do
           (catching (ingest_body S q lease chunks declared explanation pending_replay) (handle_failure S lease))
           (release_resources S))))) (w\<lparr>w_cleanup := [], w_vars := no_locals\<rparr>)"
  unfolding ingest_def by (subst bnd_run(1)) (simp_all add: begin_call_def)

lemma gate_check_run:
  "\<exists>w1 r1. gate_check S w = (w1, r1) \<and> w_db w1 = w_db w \<and> w_ext w1 = w_ext w \<and> w_cleanup w1 = w_cleanup w
    \<and> w_tick w1 = replay_tick S w \<and> ((\<forall>n. \<not> sv_cancel S n) \<longrightarrow> open_gate w \<longrightarrow> open_gate w1 \<and> r1 = Inr ())"
  by (auto simp: gate_check_def Let_def replay_tick_def check_active_def open_gate_def)

lemma replayed_upload:
  assumes stored: "completed_upload (sv_repo S) q r (replay_db S w)"
    and run: "ingest S q chunks declared explanation w = (w', res)"
    and keep: "replay_ports_keep S (rq_session_id q) r J" and J: "J (w_ext w)"
  shows "J (w_ext w') \<and> w_db w' \<in> {w_db w, replay_db S w} \<and> (\<forall>x. res = Inr x \<longrightarrow> mr_result_json r = Some x)
    \<and> (sv_fault S (replay_tick S w) = Commits \<and> (\<forall>n. \<not> sv_cancel S n) \<and> open_gate w
       \<and> replay_ports_answer S (rq_session_id q) r
       \<and> (direct_reuse r \<longrightarrow> (\<forall>x. mr_result_json r = Some x \<longrightarrow> ir_media_item_id x \<noteq> mr_media_item_id r))
       \<longrightarrow> \<not> isl res)"
proof -
  define w0 where "w0 = w\<lparr>w_cleanup := [], w_vars := no_locals\<rparr>"
  have t: "replay_tick S w0 = replay_tick S w" by (simp add: w0_def replay_tick_def)
  obtain w1 r1 where 1: "gate_check S w0 = (w1, r1)" "w_db w1 = w_db w" "w_ext w1 = w_ext w" "w_cleanup w1 = []"
      "w_tick w1 = replay_tick S w" "(\<forall>n. \<not> sv_cancel S n) \<longrightarrow> open_gate w \<longrightarrow> open_gate w1 \<and> r1 = Inr ()"
    using gate_check_run[of S w0] t by (auto simp: w0_def open_gate_def)
  note start = run[unfolded ingest_start, folded w0_def]
  show ?thesis
  proof (cases r1)
    case (Inl e)
    then show ?thesis using start 1 J by (auto simp: bnd_def)
  next
    case (Inr u)
    define d where "d = replay_db S w"
    define w2 where "w2 = w1\<lparr>w_db := d, w_tick := w_tick w1 + 1\<rparr>"
    obtain out where out: "find_idempotent_outcome (rq_owner_id q) (rq_session_id q) (rq_idempotency_key q)
        (rq_fingerprint q) (sv_now S (w_tick w1)) d = Inr (d, Some out)" "mr_result_json r = Some (fo_result out)"
        "in_action (fo_intent out) = (if direct_reuse r then ABORT_STAGED else NOOP)"
        "st_media_item_id (in_staged (fo_intent out)) = mr_media_item_id r" "fo_evidence_visible out"
      using find_idempotent_completed[OF stored] by (auto simp: d_def)
    have d: "sv_other S (w_tick w1) (w_db w1) = d" using 1 by (simp add: d_def replay_db_def)
    have look: "find_replay S q w1 = (w2, case sv_fault S (w_tick w1) of Commits \<Rightarrow> Inr (Some out)
        | Commit_Fails e \<Rightarrow> Inl (Db_Failure e, False) | Commit_Unknown e \<Rightarrow> Inl (Db_Failure e, False))"
      using out(1) d by (simp add: find_replay_def transaction_def unit_of_work_def Let_def w2_def split: tx_fault.split)
    show ?thesis
    proof (cases "sv_fault S (w_tick w1) = Commits")
      case False
      then show ?thesis
        using start 1 Inr look J by (auto simp: bnd_def w2_def d_def split: tx_fault.splits)
    next
      case True
      have "replay_publication S q out w2 = (w', res)"
        using start 1(1) Inr look True by (simp add: bnd_def)
      then have fin: "fst (replay_publication S q out w2) = w'" "snd (replay_publication S q out w2) = res" by simp_all
      have "during_replay r J d w2" using 1 J by (simp add: during_replay_def w2_def)
      then have "during_replay r J d w'"
        using replay_publication_facts(1)[OF out(3) keep, of d] fin by (auto simp: holds_def)
      moreover have "x = fo_result out" if "res = Inr x" for x
        using replay_publication_facts(2)[OF out(3), of S q] fin that by (auto simp: yields_def)
      moreover have "\<not> isl res" if *: "\<forall>n. \<not> sv_cancel S n" "open_gate w" "replay_ports_answer S (rq_session_id q) r"
          "direct_reuse r \<longrightarrow> (\<forall>x. mr_result_json r = Some x \<longrightarrow> ir_media_item_id x \<noteq> mr_media_item_id r)"
      proof -
        have "open_gate w2" using 1(6) *(1,2) by (simp add: w2_def open_gate_def)
        moreover have "direct_reuse r \<Longrightarrow> ir_media_item_id (fo_result out) \<noteq> st_media_item_id (in_staged (fo_intent out))"
          using *(4) out(2,4) by simp
        ultimately show ?thesis
          using replay_publication_facts(3)[OF out(3) *(3) _ out(5)] *(1) fin by (auto simp: answers_def)
      qed
      ultimately show ?thesis using out(2) by (simp add: during_replay_def d_def)
    qed
  qed
qed


lemma reject_inactive:
  assumes inv: "media_inv repo d" and rej: "reject lease reason now d = Inr d'"
    and x: "x \<in> set (t_reservations d')" "mr_reservation_id x = ml_reservation_id lease"
  shows "mr_status x \<noteq> RsActive"
proof (cases "reservation_by_id (ml_reservation_id lease) d")
  case None
  then have "x \<notin> set (t_reservations d)" using x(2) by (auto simp: reservation_by_id_def find_None_iff)
  then show ?thesis using rej x(1) None by (simp add: reject_def andthen_Inr_iff)
next
  case (Some r)
  note r = reservation_by_id_Some[OF Some]
  have same: "y = r" if "y \<in> set (t_reservations d)" "mr_reservation_id y = ml_reservation_id lease" for y
    using unique_keyD[OF media_invD(2)[OF inv]] r that by metis
  show ?thesis
  proof (cases "mr_status r = RsActive")
    case False
    then have "d' = d" using rej Some by (auto simp: reject_def andthen_Inr_iff)
    then show ?thesis using same[of x] x False by simp
  next
    case True
    define r' where "r' = r\<lparr>mr_status := (if mr_expires_at r \<le> now then RsExpired else RsRejected), mr_active := None,
      mr_updated_at := now, mr_rejection_reason := Some (take 128 reason)\<rparr>"
    have save: "save_reservation r' d = Inr d'"
      using rej Some True unfolding r'_def
      by (cases "mr_expires_at r \<le> now") (simp_all add: reject_def andthen_Inr_iff transition_reservation_Inr)
    have r': "mr_reservation_id r' = mr_reservation_id r" "mr_status r' \<in> {RsExpired, RsRejected}"
      by (simp_all add: r'_def)
    obtain xs ys where rows: "t_reservations d = xs @ r # ys" "t_reservations d' = xs @ r' # ys"
      using save_reservation_split[OF media_invD(2)[OF inv] _ r'(1) save] r by metis
    have "mr_reservation_id r \<notin> mr_reservation_id ` (set xs \<union> set ys)"
      using media_invD(2)[OF inv] by (auto simp: rows(1) unique_key_def)
    then have "r \<notin> set xs \<union> set ys" by blast
    moreover have "x = r" if "x \<in> set xs \<union> set ys" using same[of x] x(2) that rows(1) by auto
    ultimately have "x = r'" using x(1) rows(2) by auto
    then show ?thesis using r'(2) by auto
  qed
qed

text \<open>
  Recording a scan is one transaction. If it raises, the database is as it was or, for a commit whose outcome is not known,
  as if it had not raised. If it returns, the attempt is stored, and it has a pending receipt exactly when the scan was
  clean; when it was not, the reservation is not active any more.
\<close>

theorem scan_recorded:
  assumes "ingest_inv (sv_repo S) (sv_other S (w_tick w) (w_db w))" and "valid_scan_attempt a"
    and "record_scan S lease spool key sha a finished w = (w', r)"
  shows "case r of
      Inl _ \<Rightarrow> (case sv_fault S (w_tick w) of Commit_Unknown _ \<Rightarrow> True
        | _ \<Rightarrow> w_db w' = sv_other S (w_tick w) (w_db w))
    | Inr (stored, pending) \<Rightarrow> stored \<in> set (t_attempts (w_db w')) \<and> same_scan_attempt_identity stored a
        \<and> (pending = None \<longleftrightarrow> at_scan_result a \<noteq> Clean)
        \<and> (at_scan_result a \<noteq> Clean \<longrightarrow> list_all (\<lambda>x. mr_reservation_id x = ml_reservation_id lease \<longrightarrow>
             mr_status x \<noteq> RsActive) (t_reservations (w_db w')))"
proof -
  let ?n = "w_tick w" and ?repo = "sv_repo S"
  define d where "d = sv_other S ?n (w_db w)"
  have inv: "ingest_inv ?repo d" using assms(1) by (simp add: d_def)
  show ?thesis
  proof (cases r)
    case (Inl e)
    show ?thesis
      using assms(3) unfolding Inl record_scan_def unit_of_work_def Let_def
      by (auto split: prod.splits sum.splits tx_fault.splits)
  next
    case (Inr v)
    obtain stored pending where v: "v = (stored, pending)" by force
    have run: "\<exists>x'. (case record_attempt a d of
       Inl e \<Rightarrow> (w_ext w, Inl (Db_Failure e))
     | Inr (d1, stored) \<Rightarrow>
       if at_scan_result a = Clean then
         (case sv_pending_receipt S spool (sv_uuid5 S (lit ''focusproof:receipt:'' @ key)) (at_attempt_id stored) sha
                 (sv_sha256_text S (receipt_hash_text (at_attempt_id stored) sha)) finished (w_ext w) of
            (x', Inl f) \<Rightarrow> (x', Inl f)
          | (x', Inr pending) \<Rightarrow>
            (x', case andthen (make_pending_receipt (sv_sha256_text S) pending)
                        (\<lambda>p. record_pending_clean_receipt (sv_sha256_text S) p d1) of
               Inl e \<Rightarrow> Inl (Db_Failure e) | Inr (d2, p) \<Rightarrow> Inr (d2, (stored, Some p))))
       else (w_ext w, case reject lease (lit (scan_error_code (at_scan_result a))) (sv_now S ?n) d1 of
                  Inl e \<Rightarrow> Inl (Db_Failure e) | Inr d2 \<Rightarrow> Inr (d2, (stored, None)))) = (x', Inr (w_db w', v))"
      using assms(3) unfolding Inr record_scan_def unit_of_work_def Let_def d_def[symmetric]
      by (simp split: prod.splits sum.splits tx_fault.splits) auto
    obtain d1 b where r1: "record_attempt a d = Inr (d1, b)"
      using run by (cases "record_attempt a d") (auto split: prod.splits)
    note 1 = record_attempt_stored[OF r1] record_scan_op[OF inv assms(2) r1]
    show ?thesis
    proof (cases "at_scan_result a = Clean")
      case True
      obtain p0 p q where p: "make_pending_receipt (sv_sha256_text S) p0 = Inr p"
          "record_pending_clean_receipt (sv_sha256_text S) p d1 = Inr (w_db w', q)" "v = (b, Some q)"
        using run r1 True by (auto simp: andthen_def split: prod.splits sum.splits)
      have "keeps_scans d1 (w_db w')" using record_pending_op[OF _ p(1,2)] 1(3) by blast
      then show ?thesis using 1(1,2) True p(3) Inr by (auto simp: keeps_scans_def)
    next
      case False
      then have rej: "reject lease (lit (scan_error_code (at_scan_result a))) (sv_now S ?n) d1 = Inr (w_db w')"
          and "v = (b, None)"
        using run r1 by (auto split: prod.splits sum.splits)
      moreover have "stored \<in> set (t_attempts (w_db w'))" if "stored \<in> set (t_attempts d1)" for stored
        using that reject_same[OF rej] by (simp add: scan_same_def)
      moreover have "media_inv ?repo d1" using 1(3) by (simp add: ingest_inv_def)
      ultimately show ?thesis
        using 1(1,2) False Inr reject_inactive[OF _ rej] by (simp add: list_all_iff)
    qed
  qed
qed

section \<open>A sample service\<close>

text \<open>The external state counts the scans.\<close>

definition sample_quarantine :: "str \<Rightarrow> quarantine" where
  "sample_quarantine i = \<lparr>qo_quarantine_id = i, qo_receipt_id = [], qo_receipt_hash = [], qo_byte_size = 2,
     qo_streaming_sha256 = hash64, qo_quarantine_expires_at = 1000000000\<rparr>"

definition sample_service :: "scan_status \<Rightarrow> nat service" where
  "sample_service status = \<lparr>sv_repo = sample_media_repo, sv_source_limit = 10, sv_message_limit = 10,
     sv_sha256_text = (\<lambda>_. hash64), sv_sha256_bytes = (\<lambda>_. hash64), sv_uuid5 = (\<lambda>s. s),
     sv_now = (\<lambda>n. int n), sv_id = (\<lambda>n k. replicate (n + 1) 98 @ replicate k 99),
     sv_other = (\<lambda>_ d. d), sv_late = (\<lambda>_ _. []), sv_fault = (\<lambda>_. Commits), sv_cancel = (\<lambda>_. False),
     sv_has_gate = True, sv_has_lock = False,
     sv_acquire = (\<lambda>_ x. (x, Inr ())), sv_release = (\<lambda>_ x. (x, Inr ())),
     sv_snapshot = (\<lambda>_. \<lparr>sn_scanner_backend = lit ''clamd'', sn_definitions_version = lit ''1'', sn_definitions_fresh_at = 0,
        sn_definitions_age_seconds = 0, sn_max_bytes = 100, sn_max_concurrent_scans = 1, sn_deadline_ms = 1,
        sn_socket_timeout_ms = 1\<rparr>),
     sv_create_spool = (\<lambda>i x. (x, Inr i)), sv_write = (\<lambda>_ _ x. (x, Inr ())),
     sv_finalize_writer = (\<lambda>w x. (x, Inr (sample_quarantine w))),
     sv_abort_writer = (\<lambda>_ x. (x, Inr ())), sv_close_writer = (\<lambda>_ x. (x, Inr ())),
     sv_pending_receipt = (\<lambda>q i a sha h t x. (x, Inr \<lparr>pc_receipt_id = i, pc_attempt_id = a, pc_artifact_sha256 = sha,
        pc_receipt_hash = h, pc_spool_token = qo_quarantine_id q, pc_spool_byte_size = qo_byte_size q,
        pc_spool_sha256 = qo_streaming_sha256 q, pc_spool_expires_at = 1000000000,
        pc_quarantine_expires_at = 1000000000, pc_created_at = t, pc_formal_artifact_id = [],
        pc_publication_status = PsPending, pc_publication_owner = None, pc_publication_lease_expires_at = None,
        pc_publication_version = 0, pc_published_at = None, pc_publication_failure = None, pc_updated_at = None\<rparr>)),
     sv_open_pending_spool = (\<lambda>p x. (x, Inr (sample_quarantine (pc_spool_token p)))),
     sv_open_formal = (\<lambda>_ x. (x, Inr None)),
     sv_promote = (\<lambda>q i h f e x. (x, Inr (q\<lparr>qo_quarantine_id := f, qo_receipt_id := i, qo_receipt_hash := h\<rparr>))),
     sv_delete_object = (\<lambda>_ x. (x, Inr ())), sv_close_object = (\<lambda>_ x. (x, Inr ())),
     sv_scan = (\<lambda>_ _ _ x. (x + 1, Inr \<lparr>vd_status = status, vd_engine = lit ''clamd'', vd_signature_version = None\<rparr>)),
     sv_validate = (\<lambda>q n sha _ x. (x, Inr \<lparr>vm_media_type = lit ''image/png'', vm_byte_size = n, vm_source_sha256 = sha,
        vm_attributes = []\<rparr>)),
     sv_normalize = (\<lambda>_ _ x. (x, Inr \<lparr>no_handle = lit ''h'', no_byte_size = 3, no_normalized_sha256 = hash64\<rparr>)),
     sv_read_normalized = (\<lambda>_ x. (x, Inr [[1, 2], [3]])), sv_rewind = (\<lambda>_ x. (x, Inr ())),
     sv_close_normalized = (\<lambda>_ x. (x, Inr ())),
     sv_stage = (\<lambda>_ m r x. (x, Inr \<lparr>st_media_item_id = m, st_reservation_id = r, st_opaque_object_key = lit ''obj'',
        st_manifest_id = lit ''man''\<rparr>)),
     sv_mark_referenced = (\<lambda>_ x. (x, Inr ())), sv_abort_staged = (\<lambda>_ x. (x, Inr ())), sv_report = (\<lambda>_ x. x)\<rparr>"

definition sample_world :: "nat world" where
  "sample_world = \<lparr>w_db = media_db0, w_ext = 0, w_gate = new_gate, w_tick = 0, w_cleanup = [], w_vars = no_locals\<rparr>"

definition scanned_attempt :: scan_attempt where
  "scanned_attempt = sample_attempt\<lparr>at_idempotency_key := scan_idempotency_key sample_request\<rparr>"

definition scanned_db :: "db \<Rightarrow> db" where
  "scanned_db d = d\<lparr>t_attempts := [scanned_attempt], t_pending := [sample_pending], t_receipts := [sample_receipt]\<rparr>"

definition done_world :: "nat world" where
  "done_world = sample_world\<lparr>w_db := scanned_db media_db3\<rparr>"

lemma env_ok_sample: "env_ok (sample_service st)"
  by (simp add: env_ok_def sample_service_def ingest_inv_def media_inv_def)

lemma scanned_attempt_valid: "valid_scan_attempt scanned_attempt"
proof -
  have "\<not> blank (scan_idempotency_key sample_request)"
    by (simp add: blank_iff scan_idempotency_key_def sample_request_def lit_def py_isspace_def)
  then show ?thesis
    using sample_attempt_valid
    by (simp add: valid_scan_attempt_iff scan_attempt_checks_def scan_snapshot_checks_def non_blank_check_def scanned_attempt_def)
qed

lemma scanned_db_inv: "scan_inv (scanned_db d)"
proof -
  have "receipt_backed (scanned_db d) sample_receipt"
    by (simp add: receipt_backed_def scanned_db_def snapshot_matches_def)
      (simp add: scanned_attempt_def sample_attempt_def sample_pending_def sample_receipt_def)
  moreover have "pending_backed (scanned_db d) sample_pending"
    by (simp add: pending_backed_def scanned_db_def) (simp add: scanned_attempt_def sample_attempt_def sample_pending_def)
  ultimately show ?thesis
    using scanned_attempt_valid sample_pending_valid by (simp add: scan_inv_def scanned_db_def unique_key_def)
qed

lemma media_db_inv: "media_inv sample_media_repo media_db1" "media_inv sample_media_repo (scanned_db media_db3)"
  using media_reachable_inv[OF sample_media_reachable(2) sample_media_repo_nonneg]
    media_reachable_inv[OF sample_media_reachable(4) sample_media_repo_nonneg]
    media_inv_same[of media_db3 "scanned_db media_db3"]
  by (simp_all add: scanned_db_def media_same_def)

lemma done_world_inv: "ingest_inv (sv_repo (sample_service st)) (w_db done_world)"
proof -
  have "lease_key (lease_of_row sample_res3) = scan_idempotency_key sample_request"
    by (simp add: lease_key_def lease_of_row_def request_from_lease_def sample_res3_def sample_res2_def
        sample_res1_def store_pending_facts_def Let_def new_reservation_def sample_request_def)
  moreover have "clean_scan (scan_idempotency_key sample_request) (scanned_db media_db3)"
    by (simp add: clean_scan_def scanned_db_def) (simp add: scanned_attempt_def sample_attempt_def sample_receipt_def)
  ultimately have "all_scanned (scanned_db media_db3)"
    by (simp add: all_scanned_def scanned_db_def media_db3_def)
  then show ?thesis
    using media_db_inv(2) scanned_db_inv by (simp add: ingest_inv_def done_world_def sample_service_def)
qed

lemma done_world_stored:
  "completed_upload (sv_repo (sample_service st)) sample_request sample_res3 (scanned_db media_db3)"
proof -
  have "media_inv (sv_repo (sample_service st)) (scanned_db media_db3)"
    using done_world_inv by (simp add: ingest_inv_def done_world_def)
  moreover have "sample_res3 \<in> set (t_reservations (scanned_db media_db3))"
    by (simp add: scanned_db_def media_db3_def)
  moreover have "lock_owned_session (rq_owner_id sample_request) (rq_session_id sample_request) (scanned_db media_db3)
      = Inr sample_session"
    by (simp add: scanned_db_def media_db3_def media_db0_def lock_owned_session_def find_session_def)
      (simp add: sample_session_def sample_request_def)
  ultimately show ?thesis
    by (simp add: completed_upload_def)
      (simp add: sample_res3_def sample_res2_def sample_res1_def store_pending_facts_def Let_def new_reservation_def)
qed

lemma sample_res3_adopted: "\<not> direct_reuse sample_res3"
  by (simp add: direct_reuse_def sample_res3_def sample_res2_def sample_res1_def store_pending_facts_def Let_def
      new_reservation_def)

lemma sample_res3_result: "mr_result_json sample_res3 = Some sample_result"
  by (simp add: sample_res3_def sample_res2_def sample_res1_def store_pending_facts_def Let_def new_reservation_def
      sample_result_def)

lemma done_world_open: "open_gate done_world"
  by (simp add: open_gate_def done_world_def sample_world_def new_gate_def)



lemma ingest_safe_witness:
  "\<exists>w'. ingest (sample_service (Known Clean)) sample_request [] None [] done_world = (w', Inr sample_result)
    \<and> clean_scan (scan_idempotency_key sample_request) (w_db w') \<and> keeps_scans (scanned_db media_db3) (w_db w')"
proof -
  let ?S = "sample_service (Known Clean)"
  have stored: "completed_upload (sv_repo ?S) sample_request sample_res3 (replay_db ?S done_world)"
    using done_world_stored[of "Known Clean"] by (simp add: replay_db_def sample_service_def done_world_def)
  have ports: "replay_ports_keep ?S (rq_session_id sample_request) sample_res3 (\<lambda>_. True)"
      "replay_ports_answer ?S (rq_session_id sample_request) sample_res3"
    using sample_res3_adopted by (simp_all add: replay_ports_keep_def replay_ports_answer_def sample_service_def)
  obtain w' res where run: "ingest ?S sample_request [] None [] done_world = (w', res)" by force
  have quiet: "sv_fault ?S n = Commits" "\<not> sv_cancel ?S n" for n by (simp_all add: sample_service_def)
  note a = replayed_upload[OF stored run ports(1) TrueI]
  have "\<not> isl res" using a done_world_open ports(2) sample_res3_adopted quiet by blast
  then obtain x where x: "res = Inr x" by (cases res) auto
  then have "x = sample_result" using a sample_res3_result by simp
  then have run: "ingest ?S sample_request [] None [] done_world = (w', Inr sample_result)" using run x by simp
  then show ?thesis
    using ingest_safe[OF env_ok_sample done_world_inv run] by (auto simp: done_world_def)
qed

text \<open>A malicious verdict for an open reservation.\<close>

definition malicious_attempt :: scan_attempt where
  "malicious_attempt = sample_attempt\<lparr>at_scan_result := Malicious, at_rejection_code := Some Malware_Signature_Detected\<rparr>"

definition open_world :: "nat world" where
  "open_world = sample_world\<lparr>w_db := media_db1\<rparr>"

lemma malicious_attempt_valid: "valid_scan_attempt malicious_attempt"
  using sample_attempt_valid
  by (simp add: valid_scan_attempt_iff scan_attempt_checks_def scan_snapshot_checks_def non_blank_check_def malicious_attempt_def)

lemma open_world_inv: "ingest_inv (sv_repo (sample_service st)) (sv_other (sample_service st) n (w_db open_world))"
proof -
  have "\<not> finalised sample_res1" by (simp add: finalised_def sample_res1_def new_reservation_def)
  then have "all_scanned media_db1" by (simp add: all_scanned_def media_db1_def)
  moreover have "scan_inv media_db1"
    by (simp add: scan_inv_def media_db1_def media_db0_def empty_db_def unique_key_def)
  ultimately show ?thesis using media_db_inv(1) by (simp add: ingest_inv_def open_world_def sample_service_def)
qed

lemma malicious_recorded:
  "case snd (record_scan (sample_service (Known Malicious)) (lease_of_row sample_res1) (sample_quarantine []) [] hash64
     malicious_attempt 1 open_world) of Inr (_, None) \<Rightarrow> True | _ \<Rightarrow> False"
  by code_simp

lemma scan_recorded_witness:
  "\<exists>w' stored. record_scan (sample_service (Known Malicious)) (lease_of_row sample_res1) (sample_quarantine []) [] hash64
     malicious_attempt 1 open_world = (w', Inr (stored, None))
    \<and> stored \<in> set (t_attempts (w_db w')) \<and> list_all (\<lambda>x. mr_reservation_id x = mr_reservation_id sample_res1 \<longrightarrow>
             mr_status x \<noteq> RsActive) (t_reservations (w_db w'))"
proof -
  obtain w' stored where run: "record_scan (sample_service (Known Malicious)) (lease_of_row sample_res1) (sample_quarantine [])
      [] hash64 malicious_attempt 1 open_world = (w', Inr (stored, None))"
    using malicious_recorded by (auto split: sum.splits option.splits) (metis prod.collapse)
  then show ?thesis
    using scan_recorded[OF open_world_inv malicious_attempt_valid run] by (auto simp: malicious_attempt_def lease_of_row_def)
qed

end
