(* ===== verification/SpeechModels.thy ===== *)
theory SpeechModels
  imports SpeechRequests
begin

text \<open>
  \<^verbatim>\<open>speech_core/\<close>: the frozen values of the speech service with their validation (\<^verbatim>\<open>models.py\<close>), its error codes
  (\<^verbatim>\<open>errors.py\<close>) and the identity of a request (\<^verbatim>\<open>idempotency.py\<close>). SHA-256 is an argument; what is proved about the
  identity is that the bytes hashed determine the request.
\<close>

section \<open>Errors\<close>

datatype speech_error_code =
    Audio_Too_Large | Audio_Too_Long | Unsupported_Audio_Format | Invalid_Audio | No_Speech | Transcription_Timeout
  | Rate_Limited | Provider_Unavailable | Transcription_Ambiguous | Result_Unavailable | Transcription_Failed
  | Idempotency_Conflict | In_Progress

fun error_code_value :: "speech_error_code \<Rightarrow> string" where
  "error_code_value Audio_Too_Large = ''audio_too_large''"
| "error_code_value Audio_Too_Long = ''audio_too_long''"
| "error_code_value Unsupported_Audio_Format = ''unsupported_audio_format''"
| "error_code_value Invalid_Audio = ''invalid_audio''"
| "error_code_value No_Speech = ''transcription_no_speech''"
| "error_code_value Transcription_Timeout = ''transcription_timeout''"
| "error_code_value Rate_Limited = ''transcription_rate_limited''"
| "error_code_value Provider_Unavailable = ''transcription_provider_unavailable''"
| "error_code_value Transcription_Ambiguous = ''transcription_ambiguous''"
| "error_code_value Result_Unavailable = ''transcription_result_unavailable''"
| "error_code_value Transcription_Failed = ''transcription_failed''"
| "error_code_value Idempotency_Conflict = ''idempotency_conflict''"
| "error_code_value In_Progress = ''transcription_in_progress''"

fun safe_message :: "speech_error_code \<Rightarrow> string" where
  "safe_message Audio_Too_Large = ''The audio file is too large.''"
| "safe_message Audio_Too_Long = ''The audio recording is too long.''"
| "safe_message Unsupported_Audio_Format = ''The audio format is not supported.''"
| "safe_message Invalid_Audio = ''The audio file is invalid.''"
| "safe_message No_Speech = ''No speech was detected.''"
| "safe_message Transcription_Timeout = ''Transcription timed out.''"
| "safe_message Rate_Limited = ''Transcription is temporarily rate limited.''"
| "safe_message Provider_Unavailable = ''Transcription is temporarily unavailable.''"
| "safe_message Transcription_Ambiguous = ''The transcription outcome is unknown; start a new attempt.''"
| "safe_message Result_Unavailable = ''The earlier transcription result is no longer available.''"
| "safe_message Transcription_Failed = ''Transcription failed.''"
| "safe_message Idempotency_Conflict = ''The request key conflicts with another request.''"
| "safe_message In_Progress = ''Transcription is already in progress.''"

section \<open>Values\<close>

definition DASHSCOPE_ASR_BASE_URL :: string where
  "DASHSCOPE_ASR_BASE_URL = ''https://dashscope.aliyuncs.com/compatible-mode/v1''"

definition DASHSCOPE_ASR_MODEL :: string where "DASHSCOPE_ASR_MODEL = ''qwen3-asr-flash''"
definition MAX_AUDIO_BYTES :: int where "MAX_AUDIO_BYTES = 10 * 1024 * 1024"
definition MAX_AUDIO_DURATION_MS :: int where "MAX_AUDIO_DURATION_MS = 120000"

definition SPEECH_ACCEPTED_FORMATS :: "str list" where
  "SPEECH_ACCEPTED_FORMATS = [lit ''audio/webm;codecs=opus'', lit ''audio/wav'', lit ''audio/mpeg'']"

datatype audio_format = Webm_Opus | Wav_Pcm | Mp3
datatype language_hint = Hint_Auto | Hint_Zh | Hint_En

fun hint_value :: "language_hint \<Rightarrow> string" where
  "hint_value Hint_Auto = ''auto''"
| "hint_value Hint_Zh = ''zh''"
| "hint_value Hint_En = ''en''"

record speech_settings =
  ss_provider :: str
  ss_model :: str
  ss_base_url :: str
  ss_api_key :: str
  ss_active_version :: str
  ss_keyring :: "(str \<times> str) list"
  ss_e2e_timeout_seconds :: int
  ss_max_concurrency :: int

text \<open>\<open>dict(keyring)\<close>: a repeated version keeps the last key, so the dictionary is shorter than the keyring.\<close>

definition keyring_ok :: "speech_settings \<Rightarrow> bool" where
  "keyring_ok s \<longleftrightarrow> distinct (map fst (ss_keyring s)) \<and> ss_active_version s \<in> fst ` set (ss_keyring s)
     \<and> list_all (\<lambda>(version, key). \<not> blank version \<and> \<not> blank key) (ss_keyring s)"

definition speech_settings_checks :: "speech_settings \<Rightarrow> (bool \<times> exc) list" where
  "speech_settings_checks s =
     [(ss_provider s = lit ''dashscope'', ValueError ''provider must be dashscope''),
      (ss_model s = lit DASHSCOPE_ASR_MODEL, ValueError ''model must be qwen3-asr-flash''),
      (ss_base_url s = lit DASHSCOPE_ASR_BASE_URL,
         ValueError ''base_url must use the DashScope Beijing compatible endpoint''),
      (\<not> blank (ss_api_key s), ValueError ''api_key must not be blank''),
      (\<not> blank (ss_active_version s), ValueError ''idempotency_hmac_active_version must not be blank''),
      (keyring_ok s, ValueError ''idempotency HMAC keyring is invalid''),
      (ss_api_key s \<notin> snd ` set (ss_keyring s),
         ValueError ''idempotency HMAC key must be distinct from provider credentials''),
      (ss_e2e_timeout_seconds s = 120, ValueError ''e2e_timeout_seconds must be 120 for V1''),
      (0 < ss_max_concurrency s, ValueError ''max_concurrency must be positive'')]"

definition make_speech_settings :: "speech_settings \<Rightarrow> exc + speech_settings" where
  "make_speech_settings s = andthen (require_all (speech_settings_checks s)) (\<lambda>_. Inr s)"

definition business_timeout_seconds :: "speech_settings \<Rightarrow> int" where
  "business_timeout_seconds s = ss_e2e_timeout_seconds s - 5"

record audio_facts =
  af_audio_format :: audio_format
  af_media_type :: str
  af_codec :: str
  af_byte_size :: int
  af_duration_ms :: int

definition audio_facts_checks :: "audio_facts \<Rightarrow> (bool \<times> exc) list" where
  "audio_facts_checks f =
     [(\<not> blank (af_media_type f), ValueError ''media_type must not be blank''),
      (\<not> blank (af_codec f), ValueError ''codec must not be blank''),
      (af_media_type f \<in> set SPEECH_ACCEPTED_FORMATS, ValueError ''media_type is not supported''),
      (0 < af_byte_size f \<and> af_byte_size f \<le> MAX_AUDIO_BYTES, ValueError ''byte_size is outside the supported range''),
      (0 < af_duration_ms f \<and> af_duration_ms f \<le> MAX_AUDIO_DURATION_MS,
         ValueError ''duration_ms is outside the supported range'')]"

definition make_audio_facts :: "audio_facts \<Rightarrow> exc + audio_facts" where
  "make_audio_facts f = andthen (require_all (audio_facts_checks f)) (\<lambda>_. Inr f)"

record transcription_request =
  tr_request_id :: str
  tr_audio_path :: str
  tr_facts :: audio_facts
  tr_language_hint :: language_hint

text \<open>\<open>Path.is_absolute\<close> on POSIX.\<close>

definition is_absolute :: "str \<Rightarrow> bool" where
  "is_absolute path \<longleftrightarrow> path \<noteq> [] \<and> hd path = 47"

definition make_transcription_request :: "transcription_request \<Rightarrow> exc + transcription_request" where
  "make_transcription_request r =
     andthen (require (is_absolute (tr_audio_path r)) (ValueError ''audio_path must be absolute'')) (\<lambda>_. Inr r)"

record transcription_result =
  rs_request_id :: str
  rs_transcript :: str
  rs_provider :: str
  rs_model :: str

definition make_transcription_result :: "transcription_result \<Rightarrow> exc + transcription_result" where
  "make_transcription_result r = andthen (require_all
     [(\<not> blank (rs_transcript r), ValueError ''transcript must not be blank''),
      (rs_provider r = lit ''dashscope'', ValueError ''provider must be dashscope''),
      (rs_model r = lit DASHSCOPE_ASR_MODEL, ValueError ''model must be qwen3-asr-flash'')]) (\<lambda>_. Inr r)"

section \<open>The identity of a request\<close>

text \<open>\<open>str.encode("utf-8")\<close>: a lone surrogate cannot be encoded.\<close>

definition utf8_char :: "nat \<Rightarrow> nat list" where
  "utf8_char c =
     (if c < 128 then [c]
      else if c < 2048 then [192 + c div 64, 128 + c mod 64]
      else if c < 65536 then [224 + c div 4096, 128 + c div 64 mod 64, 128 + c mod 64]
      else [240 + c div 262144, 128 + c div 4096 mod 64, 128 + c div 64 mod 64, 128 + c mod 64])"

definition is_surrogate :: "nat \<Rightarrow> bool" where
  "is_surrogate c \<longleftrightarrow> 55296 \<le> c \<and> c \<le> 57343"

definition encode_utf8 :: "str \<Rightarrow> exc + nat list" where
  "encode_utf8 s = (if list_ex is_surrogate s then Inl (ValueError ''surrogates not allowed'')
     else Inr (concat (map utf8_char s)))"

definition hex_value :: "nat \<Rightarrow> nat" where
  "hex_value c = (if c \<le> 57 then c - 48 else if c \<le> 70 then c - 55 else c - 87)"

fun fromhex :: "str \<Rightarrow> nat list" where
  "fromhex (c # d # cs) = (16 * hex_value c + hex_value d) # fromhex cs"
| "fromhex _ = []"

definition be32 :: "nat \<Rightarrow> nat list" where
  "be32 n = [n div 16777216, n div 65536 mod 256, n div 256 mod 256, n mod 256]"

definition length_prefixed :: "nat list \<Rightarrow> exc + nat list" where
  "length_prefixed bs = (if length bs < 2 ^ 32 then Inr (be32 (length bs) @ bs)
     else Inl (OverflowError ''int too big to convert''))"

text \<open>Comparisons with large numbers are evaluated on integers.\<close>

lemma length_prefixed_code [code]:
  "length_prefixed bs = (if int (length bs) < 4294967296 then Inr (be32 (length bs) @ bs)
     else Inl (OverflowError ''int too big to convert''))"
  by (simp add: length_prefixed_def)

lemma be32_code [code]:
  "be32 n = (let i = int n in [nat (i div 16777216), nat (i div 65536 mod 256), nat (i div 256 mod 256), nat (i mod 256)])"
  by (simp add: be32_def Let_def nat_div_distrib nat_mod_distrib)

lemma is_surrogate_code [code]: "is_surrogate c \<longleftrightarrow> (let i = int c in 55296 \<le> i \<and> i \<le> 57343)"
  by (simp add: is_surrogate_def Let_def)

lemma utf8_char_code [code]:
  "utf8_char c = (let i = int c in
      if i < 128 then [c]
      else if i < 2048 then map nat [192 + i div 64, 128 + i mod 64]
      else if i < 65536 then map nat [224 + i div 4096, 128 + i div 64 mod 64, 128 + i mod 64]
      else map nat [240 + i div 262144, 128 + i div 4096 mod 64, 128 + i div 64 mod 64, 128 + i mod 64])"
  by (simp add: utf8_char_def Let_def nat_div_distrib nat_mod_distrib nat_add_distrib)

definition FINGERPRINT_DOMAIN :: string where
  "FINGERPRINT_DOMAIN = ''focusproof:speech-request-fingerprint:v1''"

text \<open>The bytes that are hashed.\<close>

definition fingerprint_input :: "str \<Rightarrow> language_hint \<Rightarrow> str \<Rightarrow> exc + nat list" where
  "fingerprint_input payload_sha256 hint media_type =
     andthen (require_all
       [(length payload_sha256 = 64 \<and> list_all is_hex payload_sha256,
           ValueError ''payload_sha256 must be a SHA-256 hex digest''),
        (\<not> blank media_type, ValueError ''media_type must not be blank'')]) (\<lambda>_.
     andthen (encode_utf8 (lit (hint_value hint))) (\<lambda>hint_bytes.
     andthen (encode_utf8 media_type) (\<lambda>media_bytes.
     andthen (length_prefixed (fromhex payload_sha256)) (\<lambda>a.
     andthen (length_prefixed hint_bytes) (\<lambda>b.
     andthen (length_prefixed media_bytes) (\<lambda>c. Inr (lit FINGERPRINT_DOMAIN @ a @ b @ c)))))))"

definition request_fingerprint :: "(nat list \<Rightarrow> str) \<Rightarrow> str \<Rightarrow> language_hint \<Rightarrow> str \<Rightarrow> exc + str" where
  "request_fingerprint sha256 payload_sha256 hint media_type =
     andthen (fingerprint_input payload_sha256 hint media_type) (\<lambda>bs. Inr (sha256 bs))"

section \<open>Decoding what was hashed\<close>

text \<open>\<open>bytes.decode("utf-8")\<close> of a well-formed text.\<close>

function decode_utf8 :: "nat list \<Rightarrow> str" where
  "decode_utf8 [] = []"
| "decode_utf8 (b # bs) =
     (if b < 128 then b # decode_utf8 bs
      else if b < 224 then ((b - 192) * 64 + (bs ! 0 - 128)) # decode_utf8 (drop 1 bs)
      else if b < 240 then ((b - 224) * 4096 + (bs ! 0 - 128) * 64 + (bs ! 1 - 128)) # decode_utf8 (drop 2 bs)
      else ((b - 240) * 262144 + (bs ! 0 - 128) * 4096 + (bs ! 1 - 128) * 64 + (bs ! 2 - 128))
        # decode_utf8 (drop 3 bs))"
  by pat_completeness auto
termination
  by (relation "measure length") auto

lemma base64_split: "c div 4096 * 4096 + c div 64 mod 64 * 64 + c mod 64 = (c :: nat)"
proof -
  have "c div 4096 = c div 64 div 64" by (simp add: div_mult2_eq[symmetric])
  then show ?thesis using div_mult_mod_eq[of "c div 64" 64] div_mult_mod_eq[of c 64] by linarith
qed

lemma base64_split3:
  "c div 262144 * 262144 + c div 4096 mod 64 * 4096 + c div 64 mod 64 * 64 + c mod 64 = (c :: nat)"
proof -
  have "c div 262144 = c div 4096 div 64" by (simp add: div_mult2_eq[symmetric])
  then show ?thesis using div_mult_mod_eq[of "c div 4096" 64] base64_split[of c] by linarith
qed

lemma decode_utf8_char:
  assumes "c < 1114112"
  shows "decode_utf8 (utf8_char c @ bs) = c # decode_utf8 bs"
proof -
  consider "c < 128" | "128 \<le> c" "c < 2048" | "2048 \<le> c" "c < 65536" | "65536 \<le> c" by linarith
  then show ?thesis
  proof cases
    case 2
    then have "c div 64 < 32" by simp
    then show ?thesis using 2 div_mult_mod_eq[of c 64] by (simp add: utf8_char_def)
  next
    case 3
    then have "c div 4096 < 16" by simp
    then show ?thesis using 3 base64_split[of c] by (simp add: utf8_char_def)
  next
    case 4
    then show ?thesis using assms base64_split3[of c] by (simp add: utf8_char_def)
  qed (simp add: utf8_char_def)
qed

lemma decode_encode_utf8:
  assumes "encode_utf8 s = Inr bs" and "list_all (\<lambda>c. c < 1114112) s"
  shows "decode_utf8 bs = s"
proof -
  have "decode_utf8 (concat (map utf8_char s)) = s" using assms(2)
    by (induction s) (simp_all add: decode_utf8_char)
  then show ?thesis using assms(1) by (simp add: encode_utf8_def split: if_splits)
qed

definition of_be32 :: "nat list \<Rightarrow> nat" where
  "of_be32 bs = bs ! 0 * 16777216 + bs ! 1 * 65536 + bs ! 2 * 256 + bs ! 3"

lemma of_be32_be32: "of_be32 (be32 n @ bs) = n"
proof -
  have a: "n div 256 * 256 + n mod 256 = n" by simp
  have b: "n div 65536 * 256 + n div 256 mod 256 = n div 256"
    using div_mult_mod_eq[of "n div 256" 256] by (simp add: div_mult2_eq[symmetric])
  have c: "n div 16777216 * 256 + n div 65536 mod 256 = n div 65536"
    using div_mult_mod_eq[of "n div 65536" 256] by (simp add: div_mult2_eq[symmetric])
  have "of_be32 (be32 n @ bs)
      = n div 16777216 * 16777216 + n div 65536 mod 256 * 65536 + n div 256 mod 256 * 256 + n mod 256"
    by (simp add: of_be32_def be32_def)
  then show ?thesis using a b c by linarith
qed

text \<open>The first component of a sequence of length-prefixed ones, and the rest.\<close>

definition next_component :: "nat list \<Rightarrow> nat list \<times> nat list" where
  "next_component bs = (let n = of_be32 bs in (take n (drop 4 bs), drop (4 + n) bs))"

lemma next_length_prefixed: "length_prefixed bs = Inr ps \<Longrightarrow> next_component (ps @ rest) = (bs, rest)"
proof -
  assume "length_prefixed bs = Inr ps"
  then have ps: "ps = be32 (length bs) @ bs" by (simp add: length_prefixed_def split: if_splits)
  have "of_be32 (ps @ rest) = length bs" unfolding ps append.assoc by (rule of_be32_be32)
  moreover have d: "drop 4 (ps @ rest) = bs @ rest" by (simp add: ps be32_def)
  moreover have "drop (4 + length bs) (ps @ rest) = rest"
  proof -
    have "drop (4 + length bs) (ps @ rest) = drop (length bs) (drop 4 (ps @ rest))" by (simp only: drop_drop add.commute)
    then show ?thesis unfolding d by simp
  qed
  ultimately show ?thesis by (simp add: next_component_def)
qed

definition parse_fingerprint_input :: "nat list \<Rightarrow> nat list \<times> str \<times> str" where
  "parse_fingerprint_input bs =
     (let (digest, r1) = next_component (drop (length FINGERPRINT_DOMAIN) bs);
          (hint, r2) = next_component r1; (media, _) = next_component r2
      in (digest, decode_utf8 hint, decode_utf8 media))"

lemma lit_codes: "list_all (\<lambda>c. c < 1114112) (lit s)"
proof -
  have "(of_char c :: nat) < 1114112" for c by (rule less_trans[OF nat_of_char_less_256]) simp
  then show ?thesis by (simp add: lit_def list_all_iff)
qed

text \<open>
  C39. The bytes that identify a speech request can be parsed back: they determine the digest of the audio, the language hint
  and the media type, so two requests with the same bytes agree on all three. Characters are code points below
  \<^verbatim>\<open>0x110000\<close>.
\<close>

theorem fingerprint_roundtrip:
  assumes "fingerprint_input payload hint media_type = Inr bs" and "list_all (\<lambda>c. c < 1114112) media_type"
  shows "parse_fingerprint_input bs = (fromhex payload, lit (hint_value hint), media_type)"
proof -
  obtain hb mb a b c where e: "encode_utf8 (lit (hint_value hint)) = Inr hb" "encode_utf8 media_type = Inr mb"
      "length_prefixed (fromhex payload) = Inr a" "length_prefixed hb = Inr b" "length_prefixed mb = Inr c"
    and bs: "bs = lit FINGERPRINT_DOMAIN @ a @ b @ c"
    using assms(1) by (auto simp: fingerprint_input_def andthen_Inr_iff)
  have 0: "drop (length FINGERPRINT_DOMAIN) bs = a @ b @ c" by (simp add: bs)
  have 1: "next_component (a @ b @ c) = (fromhex payload, b @ c)" by (rule next_length_prefixed[OF e(3)])
  have 2: "next_component (b @ c) = (hb, c)" by (rule next_length_prefixed[OF e(4)])
  have 3: "next_component c = (mb, [])" using next_length_prefixed[OF e(5), of "[]"] by simp
  show ?thesis
    using decode_encode_utf8[OF e(1) lit_codes] decode_encode_utf8[OF e(2) assms(2)]
    by (simp add: parse_fingerprint_input_def 0 1 2 3)
qed

lemma fingerprint_roundtrip_witness:
  "\<exists>bs. fingerprint_input (replicate 64 97) Hint_Zh (lit ''audio/wav'') = Inr bs
    \<and> parse_fingerprint_input bs = (replicate 32 170, lit ''zh'', lit ''audio/wav'')"
proof -
  have h: "fromhex (replicate 64 97) = replicate 32 170" by code_simp
  then have "\<not> isl (fingerprint_input (replicate 64 97) Hint_Zh (lit ''audio/wav''))"
    by (simp add: fingerprint_input_def require_all.simps encode_utf8_def length_prefixed_def blank_iff is_hex_def
        list_all_iff lit_def is_surrogate_def py_isspace_def utf8_char_def)
  then obtain bs where bs: "fingerprint_input (replicate 64 97) Hint_Zh (lit ''audio/wav'') = Inr bs"
    by (cases "fingerprint_input (replicate 64 97) Hint_Zh (lit ''audio/wav'')") auto
  then show ?thesis using h bs fingerprint_roundtrip[OF bs lit_codes] by simp
qed

end
