(* ===== verification/SpeechService.thy ===== *)
theory SpeechService
  imports Actions SpeechModels ResourceSlots ScanAudit
begin

text \<open>
  \<^verbatim>\<open>speech_application.py\<close>: \<open>TranscriptionService\<close>, which takes an admitted speech request through the upload, the scan,
  the inspection and the provider to a terminal state. Everything outside it is an argument of the service: the
  ports are functions on an external state that may raise, other requests change the database between the
  transactions of a call (\<open>ys_other\<close>), and an await may be cut short by its deadline or by a cancellation
  (\<open>ys_wait\<close>). A database operation that is abandoned in its thread may commit, at once or later, roll back, or raise
  (\<open>ys_thread\<close>); what it leaves to the background (\<open>yw_jobs\<close>) runs before a later transaction, when \<open>ys_job_runs\<close> says so,
  or never. Times are microseconds.
\<close>

section \<open>Exceptions\<close>

datatype speech_failure =
    Speech_Error speech_error_code
  | Provider_Error speech_error_code
  | Ambiguous_Error
  | Stage_Failure speech_error_code string
  | Db_Deadline
  | Result_Commit_Unavailable
  | Task_Cancelled
  | Timeout_Error
  | Db_Error exc
  | Other_Error
  | Base_Error

definition all_error_codes :: "speech_error_code list" where
  "all_error_codes = [Audio_Too_Large, Audio_Too_Long, Unsupported_Audio_Format, Invalid_Audio, No_Speech,
     Transcription_Timeout, Rate_Limited, Provider_Unavailable, Transcription_Ambiguous, Result_Unavailable,
     Transcription_Failed, Idempotency_Conflict, In_Progress]"

text \<open>The code of a \<open>SpeechError\<close>, and None for any other exception.\<close>

fun failure_code :: "speech_failure \<Rightarrow> speech_error_code option" where
  "failure_code (Speech_Error c) = Some c"
| "failure_code (Provider_Error c) = Some c"
| "failure_code Ambiguous_Error = Some Transcription_Ambiguous"
| "failure_code (Stage_Failure c _) = Some c"
| "failure_code Db_Deadline = Some Transcription_Timeout"
| "failure_code Result_Commit_Unavailable = Some Result_Unavailable"
| "failure_code (Db_Error (SpeechAdmissionError s)) = List.find (\<lambda>c. error_code_value c = s) all_error_codes"
| "failure_code _ = None"

fun is_provider_error :: "speech_failure \<Rightarrow> bool" where
  "is_provider_error (Provider_Error _) = True"
| "is_provider_error Ambiguous_Error = True"
| "is_provider_error (Stage_Failure _ _) = True"
| "is_provider_error Db_Deadline = True"
| "is_provider_error Result_Commit_Unavailable = True"
| "is_provider_error _ = False"

text \<open>\<open>except Exception\<close> catches everything but a cancellation and the other \<open>BaseException\<close>s.\<close>

definition is_plain_exception :: "speech_failure \<Rightarrow> bool" where
  "is_plain_exception f \<longleftrightarrow> f \<noteq> Task_Cancelled \<and> f \<noteq> Base_Error"

fun is_lease_state :: "speech_failure \<Rightarrow> bool" where
  "is_lease_state (Db_Error (SpeechLeaseStateError _)) = True"
| "is_lease_state _ = False"

section \<open>The service and its world\<close>

type_synonym ('x, 'a) speech_port = "'x \<Rightarrow> 'x \<times> (speech_failure + 'a)"

datatype wait = In_Time | Late | Interrupted
datatype thread_end = Thread_Commits | Thread_Commits_Later | Thread_Rolls_Back | Thread_Raises

record 'x speech_service =
  ys_clock :: "nat \<Rightarrow> int"
  ys_now :: "nat \<Rightarrow> datetime"
  ys_other :: "nat \<Rightarrow> db \<Rightarrow> db"
  ys_job_runs :: "nat \<Rightarrow> bool list"
  ys_fault :: "nat \<Rightarrow> tx_fault"
  ys_wait :: "nat \<Rightarrow> wait"
  ys_thread :: "nat \<Rightarrow> thread_end"
  ys_slot_token :: "nat \<Rightarrow> str"
  ys_sha256 :: "nat list \<Rightarrow> str"
  ys_uuid5 :: "str \<Rightarrow> str"
  ys_uuid_ok :: "str \<Rightarrow> bool"
  ys_temp_dir :: str
  ys_declared :: "str option"
  ys_prepare :: "('x, unit) speech_port"
  ys_probe :: "('x, bool) speech_port"
  ys_upload :: "str \<Rightarrow> int \<Rightarrow> ('x, int \<times> str) speech_port"
  ys_snapshot :: "'x \<Rightarrow> audit_snapshot"
  ys_scan :: "str \<Rightarrow> int \<Rightarrow> str \<Rightarrow> ('x, scan_status) speech_port"
  ys_inspect :: "str \<Rightarrow> str option \<Rightarrow> int \<Rightarrow> ('x, audio_facts) speech_port"
  ys_transcribe :: "transcription_request \<Rightarrow> int \<Rightarrow> ('x, transcription_result) speech_port"
  ys_remove :: "str \<Rightarrow> ('x, unit) speech_port"

definition make_transcription_service :: "'x speech_service \<Rightarrow> exc + 'x speech_service" where
  "make_transcription_service S =
     andthen (require (is_absolute (ys_temp_dir S)) (ValueError ''speech temp directory must be absolute'')) (\<lambda>_. Inr S)"

text \<open>The variables of \<open>execute\<close> that its handlers read.\<close>

record exec_vars =
  xv_token :: speech_token
  xv_lease :: "slot_lease option"
  xv_dispatched :: bool
  xv_received :: bool
  xv_committed :: bool
  xv_ambiguous :: bool

text \<open>\<open>yw_calls\<close> records the calls of the ports that act on the audio, latest last: that a port is called, and that it
  returned in time with an answer that the service accepts as one (for the scanner, with which verdict).\<close>

datatype port_call = Upload_Call | Upload_Done | Scan_Call | Scan_Done scan_status | Inspect_Call | Inspect_Done
  | Transcribe_Call | Transcribe_Done | Remove_Call | Remove_Done

record 'x speech_world =
  yw_db :: db
  yw_ext :: 'x
  yw_tick :: nat
  yw_jobs :: "(nat \<Rightarrow> db \<Rightarrow> db) list"
  yw_calls :: "port_call list"
  yw_vars :: exec_vars

type_synonym ('x, 'a) sact = "('x speech_world, speech_failure, 'a) action"

record execution_admission =
  xa_token :: speech_token
  xa_deadline :: int

definition CLEANUP_RESERVE :: int where "CLEANUP_RESERVE = 5000000"
definition SCAN_DEADLINE_MARGIN :: int where "SCAN_DEADLINE_MARGIN = 250000"

definition make_uploaded_file :: "int \<times> str \<Rightarrow> exc + int \<times> str" where
  "make_uploaded_file u = andthen (require_all
     [(0 < fst u, ValueError ''uploaded audio must not be empty''),
      (length (snd u) = 64, ValueError ''uploaded audio digest is invalid'')]) (\<lambda>_. Inr u)"

section \<open>Awaiting\<close>

definition now_clock :: "'x speech_service \<Rightarrow> ('x, int) sact" where
  "now_clock S w = (w\<lparr>yw_tick := yw_tick w + 1\<rparr>, Inr (ys_clock S (yw_tick w)))"

definition now_wall :: "'x speech_service \<Rightarrow> ('x, datetime) sact" where
  "now_wall S w = (w\<lparr>yw_tick := yw_tick w + 1\<rparr>, Inr (ys_now S (yw_tick w)))"

definition spure :: "exc + 'a \<Rightarrow> ('x, 'a) sact" where
  "spure r w = (w, case r of Inl e \<Rightarrow> Inl (Db_Error e) | Inr v \<Rightarrow> Inr v)"

definition set_vars :: "(exec_vars \<Rightarrow> exec_vars) \<Rightarrow> ('x, unit) sact" where
  "set_vars u w = (w\<lparr>yw_vars := u (yw_vars w)\<rparr>, Inr ())"

definition get_vars :: "('x, exec_vars) sact" where
  "get_vars w = (w, Inr (yw_vars w))"

definition note_call :: "port_call \<Rightarrow> ('x, unit) sact" where
  "note_call c w = (w\<lparr>yw_calls := yw_calls w @ [c]\<rparr>, Inr ())"

definition noted :: "port_call \<Rightarrow> ('a \<Rightarrow> port_call) \<Rightarrow> ('x, 'a) sact \<Rightarrow> ('x, 'a) sact" where
  "noted c finished m = bnd (note_call c) (\<lambda>_. bnd m (\<lambda>x. bnd (note_call (finished x)) (\<lambda>_. ret x)))"

text \<open>\<open>await p\<close>.\<close>

definition await_port :: "'x speech_service \<Rightarrow> ('x, 'a) speech_port \<Rightarrow> ('x, 'a) sact" where
  "await_port S p w = (case p (yw_ext w) of (x, r) \<Rightarrow>
     (w\<lparr>yw_ext := x, yw_tick := yw_tick w + 1\<rparr>,
      if ys_wait S (yw_tick w) = Interrupted then Inl Task_Cancelled else r))"

text \<open>\<open>_run_before_deadline\<close>.\<close>

definition run_before_deadline :: "'x speech_service \<Rightarrow> ('x, 'a) speech_port \<Rightarrow> ('x, 'a) sact" where
  "run_before_deadline S p w = (case p (yw_ext w) of (x, r) \<Rightarrow>
     (w\<lparr>yw_ext := x, yw_tick := yw_tick w + 1\<rparr>,
      case ys_wait S (yw_tick w) of
        Interrupted \<Rightarrow> Inl Task_Cancelled
      | Late \<Rightarrow> Inl (Provider_Error Transcription_Timeout)
      | In_Time \<Rightarrow> (if r = Inl Timeout_Error then Inl (Provider_Error Transcription_Timeout) else r)))"

definition check_disconnect :: "'x speech_service \<Rightarrow> ('x, unit) sact" where
  "check_disconnect S = bnd (await_port S (ys_probe S)) (\<lambda>gone. if gone then rethrow Task_Cancelled else ret ())"

definition ensure_business_time :: "'x speech_service \<Rightarrow> int \<Rightarrow> ('x, unit) sact" where
  "ensure_business_time S deadline =
     bnd (now_clock S) (\<lambda>t. if deadline \<le> t then rethrow (Provider_Error Transcription_Timeout) else ret ())"

section \<open>Database operations\<close>

fun run_jobs ::
  "bool list \<Rightarrow> nat \<Rightarrow> (nat \<Rightarrow> db \<Rightarrow> db) list \<Rightarrow> db \<Rightarrow> db \<times> (nat \<Rightarrow> db \<Rightarrow> db) list" where
  "run_jobs (True # bs) n (j # js) d = run_jobs bs n js (j n d)"
| "run_jobs (False # bs) n (j # js) d = (let (d', js') = run_jobs bs n js d in (d', j # js'))"
| "run_jobs _ n js d = (d, js)"

text \<open>What happens to the database before a transaction.\<close>

definition settled :: "'x speech_service \<Rightarrow> 'x speech_world \<Rightarrow> 'x speech_world" where
  "settled S w = (let n = yw_tick w; (d, js) = run_jobs (ys_job_runs S n) n (yw_jobs w) (ys_other S n (yw_db w))
     in w\<lparr>yw_db := d, yw_jobs := js, yw_tick := n + 1\<rparr>)"

definition add_job :: "(nat \<Rightarrow> db \<Rightarrow> db) \<Rightarrow> 'x speech_world \<Rightarrow> 'x speech_world" where
  "add_job j w = w\<lparr>yw_jobs := yw_jobs w @ [j]\<rparr>"

text \<open>A commit: what is stored, and what is raised.\<close>

definition commit_db :: "tx_fault \<Rightarrow> db \<Rightarrow> db \<Rightarrow> db \<times> exc option" where
  "commit_db fault d d' = (case fault of
     Commits \<Rightarrow> (d', None) | Commit_Fails e \<Rightarrow> (d, Some e) | Commit_Unknown e \<Rightarrow> (d', Some e))"

text \<open>\<open>_terminal_fallback\<close> inside \<open>_run_timeout_fallback\<close>, at the tick at which it runs; what it raises is dropped.\<close>

definition terminal_fallback ::
  "'x speech_service \<Rightarrow> speech_token \<Rightarrow> speech_state \<Rightarrow> string option \<Rightarrow> int option \<Rightarrow> slot_lease option \<Rightarrow> int
    \<Rightarrow> nat \<Rightarrow> db \<Rightarrow> db" where
  "terminal_fallback S token state outcome latency lease deadline n d =
     (if deadline \<le> ys_clock S n then d
      else case finalize token state outcome latency (ys_now S n) d of
        Inl _ \<Rightarrow> d
      | Inr (d', _) \<Rightarrow> fst (commit_db (ys_fault S n) d (case lease of None \<Rightarrow> d' | Some l \<Rightarrow> fst (release l d'))))"

definition commit_body :: "'x speech_service \<Rightarrow> (nat \<Rightarrow> db \<Rightarrow> exc + db \<times> 'a) \<Rightarrow> nat \<Rightarrow> db \<Rightarrow> db" where
  "commit_body S body n d = (case body n d of
     Inl _ \<Rightarrow> d | Inr (d', _) \<Rightarrow> fst (commit_db (ys_fault S n) d d'))"

definition run_db_operation ::
  "'x speech_service \<Rightarrow> (nat \<Rightarrow> db \<Rightarrow> exc + db \<times> 'a) \<Rightarrow> (int \<Rightarrow> nat \<Rightarrow> db \<Rightarrow> db) \<Rightarrow> int \<Rightarrow> int \<Rightarrow> ('x, 'a) sact" where
  "run_db_operation S body fallback deadline cleanup_deadline w =
     (let n = yw_tick w; w1 = settled S w; w2 = w1\<lparr>yw_db := commit_body S body n (yw_db w1)\<rparr> in
      if deadline \<le> ys_clock S n then (add_job (fallback cleanup_deadline) w1, Inl Db_Deadline)
      else case ys_wait S n of
          In_Time \<Rightarrow>
            (w2, case body n (yw_db w1) of
               Inl e \<Rightarrow> Inl (Db_Error e)
             | Inr (d', v) \<Rightarrow> (case snd (commit_db (ys_fault S n) (yw_db w1) d') of
                 None \<Rightarrow> Inr v | Some e \<Rightarrow> Inl (Db_Error e)))
        | Late \<Rightarrow>
            (case ys_thread S n of
               Thread_Commits \<Rightarrow> w2
             | Thread_Commits_Later \<Rightarrow> add_job (commit_body S body) w1
             | Thread_Rolls_Back \<Rightarrow> add_job (fallback cleanup_deadline) w1
             | Thread_Raises \<Rightarrow> w1, Inl Db_Deadline)
        | Interrupted \<Rightarrow>
            (case ys_thread S n of
               Thread_Commits \<Rightarrow> w2
             | Thread_Commits_Later \<Rightarrow> add_job (commit_body S body) w1
             | _ \<Rightarrow> w1, Inl Task_Cancelled))"

text \<open>A transaction of the event loop itself.\<close>

definition plain_transaction :: "'x speech_service \<Rightarrow> (nat \<Rightarrow> db \<Rightarrow> exc + db \<times> 'a) \<Rightarrow> ('x, 'a) sact" where
  "plain_transaction S body w =
     (let n = yw_tick w; w1 = settled S w in
      case body n (yw_db w1) of
        Inl e \<Rightarrow> (w1, Inl (Db_Error e))
      | Inr (d', v) \<Rightarrow> (case commit_db (ys_fault S n) (yw_db w1) d' of
          (d2, None) \<Rightarrow> (w1\<lparr>yw_db := d2\<rparr>, Inr v) | (d2, Some e) \<Rightarrow> (w1\<lparr>yw_db := d2\<rparr>, Inl (Db_Error e))))"

definition timeout_fallback :: "'x speech_service \<Rightarrow> speech_token \<Rightarrow> int \<Rightarrow> nat \<Rightarrow> db \<Rightarrow> db" where
  "timeout_fallback S token =
     terminal_fallback S token Failed_Terminal (Some (error_code_value Transcription_Timeout)) None None"

definition advance_request ::
  "'x speech_service \<Rightarrow> speech_token \<Rightarrow> speech_state \<Rightarrow> transition_args \<Rightarrow> int \<Rightarrow> ('x, speech_token) sact" where
  "advance_request S token state a deadline =
     run_db_operation S (\<lambda>n d. transition token state a (ys_now S n) d) (timeout_fallback S token)
       deadline (deadline + CLEANUP_RESERVE)"

definition dispatch_request :: "'x speech_service \<Rightarrow> speech_token \<Rightarrow> int \<Rightarrow> int \<Rightarrow> ('x, speech_token) sact" where
  "dispatch_request S token deadline cleanup_deadline =
     run_db_operation S (\<lambda>n d. mark_dispatching token 120 (ys_now S n) d) (timeout_fallback S token)
       deadline cleanup_deadline"

definition finalize_request_state ::
  "'x speech_service \<Rightarrow> speech_token \<Rightarrow> speech_state \<Rightarrow> string option \<Rightarrow> int option \<Rightarrow> int \<Rightarrow> int \<Rightarrow> slot_lease option
    \<Rightarrow> ('x, bool) sact" where
  "finalize_request_state S token state outcome latency deadline cleanup_deadline lease =
     (let fb_state = (if state = Succeeded then Ambiguous else state);
          fb_outcome = (if state = Succeeded then Some (error_code_value Transcription_Ambiguous) else outcome);
          fb_latency = (if fb_state = state then latency else None)
      in catching
        (run_db_operation S (\<lambda>n d. finalize token state outcome latency (ys_now S n) d)
          (terminal_fallback S token fb_state fb_outcome fb_latency lease) deadline cleanup_deadline)
        (\<lambda>f. if f = Db_Deadline \<or> is_lease_state f then ret False else rethrow f))"

section \<open>The scan\<close>

fun scan_failure :: "scan_status \<Rightarrow> speech_failure option" where
  "scan_failure (Known Clean) = None"
| "scan_failure (Known Oversize) = Some (Stage_Failure Audio_Too_Large (error_code_value Audio_Too_Large))"
| "scan_failure (Known Malicious) = Some (Stage_Failure Invalid_Audio ''malware_detected'')"
| "scan_failure (Known Timeout) = Some (Stage_Failure Transcription_Timeout ''scan_unavailable'')"
| "scan_failure _ = Some (Stage_Failure Transcription_Failed ''scan_unavailable'')"

definition speech_rejection_code :: "scan_status \<Rightarrow> exc + scan_rejection_code option" where
  "speech_rejection_code status =
     (if result_of_status status = Clean then Inr None
      else if status = Unknown then Inr (Some Legacy_Unknown_Unclassified)
      else andthen (default_scan_rejection_code (result_of_status status)) (\<lambda>c. Inr (Some c)))"

definition speech_audit_key :: "speech_token \<Rightarrow> str" where
  "speech_audit_key token = lit ''speech-scan:'' @ tk_request_id token"

definition speech_attempt ::
  "'x speech_service \<Rightarrow> audit_snapshot \<Rightarrow> speech_token \<Rightarrow> str \<Rightarrow> str \<Rightarrow> scan_status \<Rightarrow> scan_rejection_code option
    \<Rightarrow> datetime \<Rightarrow> datetime \<Rightarrow> scan_attempt" where
  "speech_attempt S snapshot token sha content_type status code started finished =
     \<lparr>at_attempt_id = ys_uuid5 S (lit ''focusproof:'' @ speech_audit_key token), at_artifact_sha256 = sha,
      at_content_type = take 255 content_type, at_scanner_backend = sn_scanner_backend snapshot,
      at_definitions_version = sn_definitions_version snapshot, at_definitions_fresh_at = sn_definitions_fresh_at snapshot,
      at_definitions_age_seconds = sn_definitions_age_seconds snapshot, at_max_bytes = sn_max_bytes snapshot,
      at_max_concurrent_scans = sn_max_concurrent_scans snapshot, at_deadline_ms = sn_deadline_ms snapshot,
      at_socket_timeout_ms = sn_socket_timeout_ms snapshot, at_scan_result = result_of_status status,
      at_rejection_code = code, at_rejection_detail = None, at_started_at = started, at_finished_at = finished,
      at_idempotency_key = speech_audit_key token\<rparr>"

text \<open>The verdict of the scanner: whatever it raises, apart from a deadline or a cancellation, is an error verdict.\<close>

definition scan_status_of :: "'x speech_service \<Rightarrow> str \<Rightarrow> int \<times> str \<Rightarrow> int \<Rightarrow> ('x, scan_status) sact" where
  "scan_status_of S path uploaded deadline =
     noted Scan_Call Scan_Done
       (catching (run_before_deadline S (ys_scan S path (fst uploaded) (snd uploaded)))
         (\<lambda>f. if is_plain_exception f \<and> \<not> is_provider_error f then ret (Known Error) else rethrow f))"

definition snapshot_of :: "'x speech_service \<Rightarrow> ('x, audit_snapshot) sact" where
  "snapshot_of S w = (w, Inr (ys_snapshot S (yw_ext w)))"

definition speech_scan ::
  "'x speech_service \<Rightarrow> speech_token \<Rightarrow> str \<Rightarrow> int \<times> str \<Rightarrow> str \<Rightarrow> int \<Rightarrow> int \<Rightarrow> ('x, unit) sact" where
  "speech_scan S token path uploaded content_type deadline cleanup_deadline =
     bnd (snapshot_of S) (\<lambda>snapshot.
     bnd (now_clock S) (\<lambda>t.
     if deadline \<le> t + max_duration_us snapshot + SCAN_DEADLINE_MARGIN
     then rethrow (Stage_Failure Transcription_Timeout ''scan_unavailable'')
     else
     bnd (now_wall S) (\<lambda>started.
     bnd (scan_status_of S path uploaded deadline) (\<lambda>status.
     bnd (now_wall S) (\<lambda>finished.
     bnd (spure (speech_rejection_code status)) (\<lambda>code.
     bnd (spure (make_scan_attempt
            (speech_attempt S snapshot token (snd uploaded) content_type status code started finished))) (\<lambda>attempt.
     bnd (run_db_operation S (\<lambda>n d. andthen (record_attempt attempt d) (\<lambda>(d', _). Inr (d', ())))
            (terminal_fallback S token Failed_Terminal (Some ''scan_unavailable'') None None)
            deadline cleanup_deadline) (\<lambda>_.
     case scan_failure status of None \<Rightarrow> ret () | Some f \<Rightarrow> rethrow f))))))))"

section \<open>The slot of the provider\<close>

definition ceil_seconds :: "int \<Rightarrow> int" where
  "ceil_seconds us = - ((- us) div 1000000)"

definition release_job :: "'x speech_service \<Rightarrow> slot_lease \<Rightarrow> nat \<Rightarrow> db \<Rightarrow> db" where
  "release_job S lease n d = fst (commit_db (ys_fault S n) d (fst (release lease d)))"

definition release_slot :: "'x speech_service \<Rightarrow> slot_lease \<Rightarrow> int \<Rightarrow> ('x, bool) sact" where
  "release_slot S lease deadline w =
     (let n = yw_tick w in
      if deadline \<le> ys_clock S n then (add_job (release_job S lease) (w\<lparr>yw_tick := n + 1\<rparr>), Inr False)
      else case ys_wait S n of
        In_Time \<Rightarrow> plain_transaction S (\<lambda>n d. Inr (release lease d)) w
      | Late \<Rightarrow> (add_job (release_job S lease) (w\<lparr>yw_tick := n + 1\<rparr>), Inr False)
      | Interrupted \<Rightarrow> (add_job (release_job S lease) (w\<lparr>yw_tick := n + 1\<rparr>), Inl Task_Cancelled))"

text \<open>The loop of \<open>_claim_asr_slot\<close>. It ends because the clock advances; \<open>fuel\<close> bounds the polls, and running out of it
  is None.\<close>

definition claim_once :: "'x speech_service \<Rightarrow> str \<Rightarrow> int \<Rightarrow> ('x, slot_lease option) sact" where
  "claim_once S request_id remaining = plain_transaction S (\<lambda>n d.
     claim ''asr'' ''speech'' request_id (max 1 (ceil_seconds (remaining + CLEANUP_RESERVE))) (ys_slot_token S n)
       (ys_now S n) d)"

definition poll_sleep :: "'x speech_service \<Rightarrow> ('x, unit) sact" where
  "poll_sleep S = await_port S (\<lambda>x. (x, Inr ()))"

fun claim_asr_slot ::
  "nat \<Rightarrow> 'x speech_service \<Rightarrow> str \<Rightarrow> int \<Rightarrow> int \<Rightarrow> ('x, slot_lease option option) sact" where
  "claim_asr_slot 0 S request_id deadline release_deadline = ret None"
| "claim_asr_slot (Suc fuel) S request_id deadline release_deadline =
     bnd (now_clock S) (\<lambda>t.
     if deadline \<le> t then ret (Some None)
     else
     bnd (now_clock S) (\<lambda>t2.
     bnd (claim_once S request_id (deadline - t2)) (\<lambda>lease. case lease of
       Some l \<Rightarrow>
         bnd (now_clock S) (\<lambda>t3.
         if deadline \<le> t3 then bnd (release_slot S l release_deadline) (\<lambda>_. ret (Some None))
         else ret (Some (Some l)))
     | None \<Rightarrow> bnd (poll_sleep S) (\<lambda>_. claim_asr_slot fuel S request_id deadline release_deadline))))"

section \<open>Cleanup\<close>

text \<open>\<open>_cleanup\<close> runs its actions in a task of their own. A cancellation does not reach them and is raised at the end; when the
  deadline passes, the task is cancelled where it is (\<open>ys_thread\<close> says how far it came), and when it has passed
  before, the task never starts.\<close>

definition cleanup_release :: "'x speech_service \<Rightarrow> slot_lease option \<Rightarrow> int \<Rightarrow> ('x, bool) sact" where
  "cleanup_release S lease deadline = (case lease of None \<Rightarrow> ret True | Some l \<Rightarrow> release_slot S l deadline)"

definition remove_file :: "'x speech_service \<Rightarrow> str \<Rightarrow> ('x, unit) sact" where
  "remove_file S path = noted Remove_Call (\<lambda>_. Remove_Done)
     (\<lambda>w. case ys_remove S path (yw_ext w) of (x, r) \<Rightarrow> (w\<lparr>yw_ext := x\<rparr>, r))"

definition cleanup_actions :: "'x speech_service \<Rightarrow> str \<Rightarrow> slot_lease option \<Rightarrow> int \<Rightarrow> ('x, unit) sact" where
  "cleanup_actions S path lease deadline =
     bnd (cleanup_release S lease deadline) (\<lambda>released.
     bnd (remove_file S path) (\<lambda>_. if released then ret () else rethrow Other_Error))"

definition cleanup :: "'x speech_service \<Rightarrow> str \<Rightarrow> slot_lease option \<Rightarrow> int \<Rightarrow> ('x, unit) sact" where
  "cleanup S path lease deadline w =
     (let n = yw_tick w; w0 = w\<lparr>yw_tick := n + 1\<rparr>; failed = Inl (Provider_Error Transcription_Failed);
          run = cleanup_actions S path lease deadline w0
      in if min deadline (ys_clock S n + CLEANUP_RESERVE) \<le> ys_clock S n then (w0, failed)
         else case ys_wait S n of
           Late \<Rightarrow>
             (case ys_thread S n of
                Thread_Raises \<Rightarrow> w0
              | Thread_Rolls_Back \<Rightarrow> fst (cleanup_release S lease deadline w0)
              | _ \<Rightarrow> fst run, failed)
         | wait \<Rightarrow>
             (case run of
                (w', Inl Base_Error) \<Rightarrow> (w', Inl Base_Error)
              | (w', Inl _) \<Rightarrow> (w', failed)
              | (w', Inr _) \<Rightarrow> (w', if wait = Interrupted then Inl Task_Cancelled else Inr ())))"

section \<open>Execution\<close>

definition request_path :: "'x speech_service \<Rightarrow> speech_token \<Rightarrow> str" where
  "request_path S token = ys_temp_dir S @ lit ''/'' @ tk_request_id token @ lit ''.audio''"

definition no_args :: transition_args where
  "no_args = \<lparr>ta_media_type = None, ta_byte_size = None, ta_duration_ms = None, ta_request_fingerprint = None,
     ta_lease_seconds = 120\<rparr>"

text \<open>\<open>try: m except SpeechError: raise except Exception: raise f\<close>.\<close>

definition wrap_stage :: "('x, 'a) sact \<Rightarrow> speech_failure \<Rightarrow> ('x, 'a) sact" where
  "wrap_stage m g = catching m (\<lambda>f. if failure_code f = None \<and> is_plain_exception f then rethrow g else rethrow f)"

definition upload_stage :: "'x speech_service \<Rightarrow> str \<Rightarrow> int \<Rightarrow> ('x, int \<times> str) sact" where
  "upload_stage S path deadline = wrap_stage
     (noted Upload_Call (\<lambda>_. Upload_Done)
       (bnd (run_before_deadline S (ys_upload S path deadline)) (\<lambda>u. spure (make_uploaded_file u))))
     (Stage_Failure Transcription_Failed ''upload_failed'')"

definition inspect_stage :: "'x speech_service \<Rightarrow> str \<Rightarrow> int \<Rightarrow> ('x, audio_facts) sact" where
  "inspect_stage S path deadline =
     catching
       (noted Inspect_Call (\<lambda>_. Inspect_Done)
         (bnd (run_before_deadline S (ys_inspect S path (ys_declared S) deadline)) (\<lambda>f. spure (make_audio_facts f))))
       (\<lambda>f. case failure_code f of
          Some c \<Rightarrow> rethrow (Stage_Failure c ''inspection_failed'')
        | None \<Rightarrow> if is_plain_exception f then rethrow (Stage_Failure Transcription_Failed ''inspection_failed'')
                 else rethrow f)"

definition keep_token :: "speech_token \<Rightarrow> ('x, unit) sact" where
  "keep_token t = set_vars (\<lambda>v. v\<lparr>xv_token := t\<rparr>)"

definition media_type_or_default :: "'x speech_service \<Rightarrow> str" where
  "media_type_or_default S = (case ys_declared S of
     None \<Rightarrow> lit ''application/octet-stream'' | Some t \<Rightarrow> if t = [] then lit ''application/octet-stream'' else t)"

text \<open>From the admission to the inspected audio.\<close>

definition receive_audio :: "'x speech_service \<Rightarrow> execution_admission \<Rightarrow> language_hint \<Rightarrow> ('x, speech_token \<times> audio_facts) sact" where
  "receive_audio S adm hint =
     (let path = request_path S (xa_token adm); deadline = xa_deadline adm - CLEANUP_RESERVE in
      bnd (await_port S (ys_prepare S)) (\<lambda>_.
      bnd (ensure_business_time S deadline) (\<lambda>_.
      bnd (check_disconnect S) (\<lambda>_.
      bnd (advance_request S (xa_token adm) Uploading no_args deadline) (\<lambda>t1.
      bnd (keep_token t1) (\<lambda>_.
      bnd (upload_stage S path deadline) (\<lambda>uploaded.
      bnd (ensure_business_time S deadline) (\<lambda>_.
      bnd (check_disconnect S) (\<lambda>_.
      bnd (spure (request_fingerprint (ys_sha256 S) (snd uploaded) hint (media_type_or_default S))) (\<lambda>fp.
      bnd (advance_request S t1 Scanning (no_args\<lparr>ta_media_type := ys_declared S, ta_byte_size := Some (fst uploaded),
             ta_request_fingerprint := Some fp\<rparr>) deadline) (\<lambda>t2.
      bnd (keep_token t2) (\<lambda>_.
      bnd (wrap_stage (speech_scan S t2 path uploaded (media_type_or_default S) deadline (xa_deadline adm))
             (Stage_Failure Transcription_Failed ''scan_unavailable'')) (\<lambda>_.
      bnd (ensure_business_time S deadline) (\<lambda>_.
      bnd (check_disconnect S) (\<lambda>_.
      bnd (inspect_stage S path deadline) (\<lambda>facts.
      bnd (advance_request S t2 Inspecting (no_args\<lparr>ta_media_type := Some (af_media_type facts),
             ta_byte_size := Some (af_byte_size facts), ta_duration_ms := Some (af_duration_ms facts)\<rparr>) deadline) (\<lambda>t3.
      bnd (keep_token t3) (\<lambda>_. ret (t3, facts)))))))))))))))))))"

definition provider_request ::
  "'x speech_service \<Rightarrow> speech_token \<Rightarrow> str \<Rightarrow> audio_facts \<Rightarrow> language_hint \<Rightarrow> exc + transcription_request" where
  "provider_request S token path facts hint =
     andthen (require (ys_uuid_ok S (tk_request_id token)) (ValueError ''badly formed hexadecimal UUID string'')) (\<lambda>_.
     make_transcription_request \<lparr>tr_request_id = tk_request_id token, tr_audio_path = path, tr_facts = facts,
       tr_language_hint = hint\<rparr>)"

definition provider_stage ::
  "'x speech_service \<Rightarrow> speech_token \<Rightarrow> str \<Rightarrow> audio_facts \<Rightarrow> language_hint \<Rightarrow> int \<Rightarrow> ('x, transcription_result) sact" where
  "provider_stage S token path facts hint deadline =
     catching
       (bnd (spure (provider_request S token path facts hint)) (\<lambda>q.
        noted Transcribe_Call (\<lambda>_. Transcribe_Done)
          (bnd (run_before_deadline S (ys_transcribe S q deadline)) (\<lambda>r. spure (make_transcription_result r)))))
       (\<lambda>f. if is_provider_error f \<and> failure_code f = Some Transcription_Timeout then rethrow Ambiguous_Error
            else rethrow f)"

text \<open>From the inspected audio to the committed result.\<close>

definition transcribe_audio ::
  "'x speech_service \<Rightarrow> execution_admission \<Rightarrow> language_hint \<Rightarrow> speech_token \<Rightarrow> audio_facts \<Rightarrow> slot_lease
    \<Rightarrow> ('x, transcription_result) sact" where
  "transcribe_audio S adm hint token facts lease =
     (let deadline = xa_deadline adm - CLEANUP_RESERVE; path = request_path S (xa_token adm) in
      bnd (ensure_business_time S deadline) (\<lambda>_.
      bnd (check_disconnect S) (\<lambda>_.
      bnd (dispatch_request S token deadline (xa_deadline adm)) (\<lambda>t4.
      bnd (set_vars (\<lambda>v. v\<lparr>xv_token := t4, xv_dispatched := True\<rparr>)) (\<lambda>_.
      bnd (now_clock S) (\<lambda>c.
      if deadline \<le> c then rethrow Ambiguous_Error
      else
      bnd (now_clock S) (\<lambda>started.
      bnd (provider_stage S t4 path facts hint deadline) (\<lambda>result.
      bnd (set_vars (\<lambda>v. v\<lparr>xv_received := True\<rparr>)) (\<lambda>_.
      bnd (now_clock S) (\<lambda>finished.
      bnd (finalize_request_state S t4 Succeeded None (Some (max 0 (round_ms (finished - started)))) deadline
             (xa_deadline adm) (Some lease)) (\<lambda>won.
      if \<not> won then rethrow Result_Commit_Unavailable
      else bnd (set_vars (\<lambda>v. v\<lparr>xv_committed := True\<rparr>)) (\<lambda>_. ret result))))))))))))"

definition execute_body ::
  "nat \<Rightarrow> 'x speech_service \<Rightarrow> execution_admission \<Rightarrow> language_hint \<Rightarrow> ('x, transcription_result option) sact" where
  "execute_body fuel S adm hint =
     bnd (receive_audio S adm hint) (\<lambda>(token, facts).
     bnd (ensure_business_time S (xa_deadline adm - CLEANUP_RESERVE)) (\<lambda>_.
     bnd (check_disconnect S) (\<lambda>_.
     bnd (claim_asr_slot fuel S (tk_request_id token) (xa_deadline adm - CLEANUP_RESERVE) (xa_deadline adm)) (\<lambda>claimed.
     case claimed of
       None \<Rightarrow> ret None
     | Some None \<Rightarrow> rethrow (Provider_Error Transcription_Timeout)
     | Some (Some lease) \<Rightarrow>
         bnd (set_vars (\<lambda>v. v\<lparr>xv_lease := Some lease\<rparr>)) (\<lambda>_.
         bnd (transcribe_audio S adm hint token facts lease) (\<lambda>r. ret (Some r)))))))"

text \<open>The handlers of \<open>execute\<close>: which terminal state is attempted, and what is raised.\<close>

definition finish_ambiguous :: "'x speech_service \<Rightarrow> execution_admission \<Rightarrow> ('x, 'a) sact" where
  "finish_ambiguous S adm =
     bnd (set_vars (\<lambda>v. v\<lparr>xv_ambiguous := True\<rparr>)) (\<lambda>_.
     bnd get_vars (\<lambda>v.
     bnd (finalize_request_state S (xv_token v) Ambiguous (Some (error_code_value Transcription_Ambiguous)) None
            (xa_deadline adm) (xa_deadline adm) None) (\<lambda>_. rethrow Ambiguous_Error)))"

definition finish_terminal ::
  "'x speech_service \<Rightarrow> execution_admission \<Rightarrow> speech_state \<Rightarrow> string \<Rightarrow> speech_failure \<Rightarrow> ('x, 'a) sact" where
  "finish_terminal S adm state outcome f =
     bnd get_vars (\<lambda>v.
     bnd (finalize_request_state S (xv_token v) state (Some outcome) None (xa_deadline adm) (xa_deadline adm) None) (\<lambda>_.
     rethrow f))"

definition outcome_code_of :: "speech_failure \<Rightarrow> speech_error_code \<Rightarrow> string" where
  "outcome_code_of f c = (case f of Stage_Failure _ s \<Rightarrow> s | _ \<Rightarrow> error_code_value c)"

definition handle_execution :: "'x speech_service \<Rightarrow> execution_admission \<Rightarrow> speech_failure \<Rightarrow> ('x, 'a) sact" where
  "handle_execution S adm f =
     bnd get_vars (\<lambda>v.
     if f = Task_Cancelled
     then (if xv_dispatched v then finish_ambiguous S adm
           else finish_terminal S adm Cancelled ''client_cancelled'' Task_Cancelled)
     else if f = Ambiguous_Error then finish_ambiguous S adm
     else case failure_code f of
       Some c \<Rightarrow> (if f = Db_Deadline \<or> f = Result_Commit_Unavailable then rethrow f
                 else finish_terminal S adm Failed_Terminal (outcome_code_of f c) f)
     | None \<Rightarrow>
       if \<not> is_plain_exception f then rethrow f
       else if xv_dispatched v then finish_ambiguous S adm
       else finish_terminal S adm Failed_Terminal (error_code_value Transcription_Failed)
              (Provider_Error Transcription_Failed))"

text \<open>What a failed cleanup raises in place of the outcome.\<close>

definition cleanup_failure :: "exec_vars \<Rightarrow> speech_failure \<Rightarrow> speech_failure" where
  "cleanup_failure v f =
     (if \<not> is_provider_error f then f
      else if xv_committed v \<or> xv_received v then Provider_Error Result_Unavailable
      else if xv_ambiguous v then Ambiguous_Error else f)"

definition final_cleanup :: "'x speech_service \<Rightarrow> execution_admission \<Rightarrow> ('x, unit) sact" where
  "final_cleanup S adm =
     bnd get_vars (\<lambda>v.
     catching (cleanup S (request_path S (xa_token adm)) (xv_lease v) (xa_deadline adm))
       (\<lambda>f. rethrow (cleanup_failure v f)))"

definition begin_execution :: "execution_admission \<Rightarrow> ('x, unit) sact" where
  "begin_execution adm w = (w\<lparr>yw_vars := \<lparr>xv_token = xa_token adm, xv_lease = None, xv_dispatched = False,
     xv_received = False, xv_committed = False, xv_ambiguous = False\<rparr>\<rparr>, Inr ())"

definition execute ::
  "nat \<Rightarrow> 'x speech_service \<Rightarrow> execution_admission \<Rightarrow> language_hint \<Rightarrow> ('x, transcription_result option) sact" where
  "execute fuel S adm hint =
     bnd (begin_execution adm) (\<lambda>_.
     finally_do (catching (execute_body fuel S adm hint) (handle_execution S adm)) (final_cleanup S adm))"

end
