(* ===== verification/SpeechServiceSafety.thy ===== *)
theory SpeechServiceSafety
  imports SpeechService "HOL-Library.Sublist"
begin

text \<open>
  What the speech service guarantees however its awaits end and whatever runs beside it: the provider is called at most once,
  only after a recorded clean scan and a committed dispatch; a result is returned only for a request that is stored as
  succeeded and whose audio file is gone; and the loop that waits for a slot ends.
\<close>

section \<open>What the other components leave alone\<close>

definition speech_keeps :: "db \<Rightarrow> db \<Rightarrow> bool" where
  "speech_keeps d d' \<longleftrightarrow> db_evolves d d' \<and> set (t_attempts d) \<subseteq> set (t_attempts d')"

definition speech_ok :: "db \<Rightarrow> db \<Rightarrow> bool" where
  "speech_ok d d' \<longleftrightarrow> speech_inv d \<longrightarrow> speech_inv d' \<and> speech_keeps d d'"

lemma speech_keeps_refl [simp]: "speech_keeps d d"
  by (simp add: speech_keeps_def)

lemma speech_keeps_trans: "speech_keeps a b \<Longrightarrow> speech_keeps b c \<Longrightarrow> speech_keeps a c"
  unfolding speech_keeps_def using db_evolves_trans by blast

lemma speech_ok_refl [simp]: "speech_ok d d"
  by (simp add: speech_ok_def)

lemma speech_ok_trans: "speech_ok a b \<Longrightarrow> speech_ok b c \<Longrightarrow> speech_ok a c"
  unfolding speech_ok_def using speech_keeps_trans by blast

lemma speech_ok_same: "t_speech d' = t_speech d \<Longrightarrow> set (t_attempts d) \<subseteq> set (t_attempts d') \<Longrightarrow> speech_ok d d'"
  by (simp add: speech_ok_def speech_keeps_def speech_inv_def db_evolves_def) (blast intro: evolves_refl)

lemma cas_attempts: "cas_update token f d = Inr (d', b) \<Longrightarrow> t_attempts d' = t_attempts d"
  by (drule cas_update_Inr(1)) simp

lemma speech_ok_step:
  "(speech_inv d \<Longrightarrow> speech_inv d') \<Longrightarrow> (speech_inv d \<Longrightarrow> db_evolves d d') \<Longrightarrow> t_attempts d' = t_attempts d \<Longrightarrow> speech_ok d d'"
  by (simp add: speech_ok_def speech_keeps_def)

lemma transition_ok: "transition token s a now d = Inr (d', t') \<Longrightarrow> speech_ok d d'"
  by (rule speech_ok_step; (rule transition_inv transition_evolves | erule transition_Inr)?)
    (auto dest: cas_attempts)

lemma dispatch_ok: "mark_dispatching token n now d = Inr (d', t') \<Longrightarrow> speech_ok d d'"
  by (rule speech_ok_step; (rule mark_dispatching_inv mark_dispatching_evolves | erule mark_dispatching_Inr)?)
    (auto dest: cas_attempts)

lemma finalize_ok: "finalize token s oc lat now d = Inr (d', b) \<Longrightarrow> speech_ok d d'"
  by (rule speech_ok_step; (rule finalize_inv finalize_evolves | erule finalize_Inr)?)
    (auto dest: cas_attempts)

lemma release_ok: "speech_ok d (fst (release lease d))"
  by (rule speech_ok_same) (simp_all add: release_def)

lemma claim_ok:
  assumes "claim k w i n t now d = Inr (d', out)"
  shows "speech_ok d d'"
proof -
  obtain kind work where k: "resource_kind_of k = Inr kind" "work_kind_of w = Some work"
    using assms by (cases "work_kind_of w") (auto simp: claim_def andthen_Inr_iff)
  have "\<exists>rows. flush_slots rows d = Inr d'"
    using assms k by (cases "first_free kind (expire_slots kind now (t_slots d))")
      (auto simp: claim_def andthen_Inr_iff Let_def)
  then obtain rows where "flush_slots rows d = Inr d'" by blast
  then show ?thesis by (intro speech_ok_same) (auto simp: flush_slots_def split: if_splits)
qed

lemma attempt_ok: "record_attempt a d = Inr (d', b) \<Longrightarrow> speech_ok d d'"
  by (rule speech_ok_same)
    (auto simp: record_attempt_def insert_attempt_def andthen_Inr_iff split: sum.splits option.splits if_splits)

lemma commit_db_ok: "speech_ok d d' \<Longrightarrow> speech_ok d (fst (commit_db f d d'))"
  by (simp add: commit_db_def split: tx_fault.split)

section \<open>Background jobs\<close>

definition good_job :: "(nat \<Rightarrow> db \<Rightarrow> db) \<Rightarrow> bool" where
  "good_job j \<longleftrightarrow> (\<forall>n d. speech_ok d (j n d))"

lemma good_fallback: "good_job (terminal_fallback S token state oc lat lease deadline)"
proof -
  have "speech_ok d (fst (commit_db f d (case lease of None \<Rightarrow> d' | Some l \<Rightarrow> fst (release l d'))))"
    if "finalize token state oc lat now d = Inr (d', b)" for d f d' b now
    using finalize_ok[OF that] release_ok speech_ok_trans by (intro commit_db_ok) (auto split: option.split)
  then show ?thesis
    by (simp add: good_job_def terminal_fallback_def split: sum.split prod.split)
qed

lemma good_timeout: "good_job (timeout_fallback S token deadline)"
  unfolding timeout_fallback_def by (rule good_fallback)

lemma good_release: "good_job (release_job S lease)"
  by (simp add: good_job_def release_job_def commit_db_ok release_ok)

lemma run_jobs_good:
  assumes "run_jobs bs n js d = (d', js')" and "list_all good_job js"
  shows "speech_ok d d' \<and> list_all good_job js'"
  using assms
  by (induction bs n js d arbitrary: d' js' rule: run_jobs.induct)
    (auto simp: Let_def good_job_def split: prod.splits intro: speech_ok_trans)

section \<open>The invariant of an execution\<close>

text \<open>The request has been dispatched, or has succeeded; its audio has a recorded clean scan.\<close>

definition was_dispatched :: "str \<Rightarrow> db \<Rightarrow> bool" where
  "was_dispatched i d \<longleftrightarrow> list_ex (\<lambda>r. sp_request_id r = i \<and> sp_provider_dispatched_at r \<noteq> None) (t_speech d)"

definition has_succeeded :: "str \<Rightarrow> db \<Rightarrow> bool" where
  "has_succeeded i d \<longleftrightarrow> list_ex (\<lambda>r. sp_request_id r = i \<and> sp_state r = Succeeded) (t_speech d)"

definition audio_clean :: "str \<Rightarrow> db \<Rightarrow> bool" where
  "audio_clean i d \<longleftrightarrow> list_ex (\<lambda>a. at_idempotency_key a = lit ''speech-scan:'' @ i \<and> at_scan_result a = Clean) (t_attempts d)"

lemma dispatched_kept: "was_dispatched i d \<Longrightarrow> speech_keeps d d' \<Longrightarrow> was_dispatched i d'"
  unfolding was_dispatched_def list_ex_iff speech_keeps_def db_evolves_def evolves_def by metis

lemma succeeded_kept: "has_succeeded i d \<Longrightarrow> speech_keeps d d' \<Longrightarrow> has_succeeded i d'"
  unfolding has_succeeded_def list_ex_iff speech_keeps_def db_evolves_def evolves_def terminal_speech_states_def
  by (metis list.set_intros(1))

lemma clean_kept: "audio_clean i d \<Longrightarrow> speech_keeps d d' \<Longrightarrow> audio_clean i d'"
  unfolding audio_clean_def list_ex_iff speech_keeps_def by blast

type_synonym speech_view = "db \<times> (nat \<Rightarrow> db \<Rightarrow> db) list \<times> port_call list"

definition speech_view :: "'x speech_world \<Rightarrow> speech_view" where
  "speech_view w = (yw_db w, yw_jobs w, yw_calls w)"

text \<open>The calls of this execution are those after the first \<open>n\<close>.\<close>

fun execution_inv :: "nat \<Rightarrow> str \<Rightarrow> speech_view \<Rightarrow> bool" where
  "execution_inv n i (d, js, cs) \<longleftrightarrow> speech_inv d \<and> list_all good_job js
     \<and> (Transcribe_Call \<in> set (drop n cs) \<longrightarrow> was_dispatched i d \<and> audio_clean i d)"

definition view_keeps :: "speech_view \<Rightarrow> speech_view \<Rightarrow> bool" where
  "view_keeps v v' \<longleftrightarrow> speech_keeps (fst v) (fst v')"

interpretation speech: guarded_actions "speech_view :: 'x speech_world \<Rightarrow> speech_view" "execution_inv n i" view_keeps for n i
  by unfold_locales (auto simp: view_keeps_def intro: speech_keeps_trans)

definition speech_env_ok :: "'x speech_service \<Rightarrow> bool" where
  "speech_env_ok S \<longleftrightarrow> (\<forall>n d. speech_ok d (ys_other S n d))"

lemma stable_facts [simp]:
  "speech.stable (\<lambda>v. was_dispatched i (fst v))" "speech.stable (\<lambda>v. has_succeeded i (fst v))"
  "speech.stable (\<lambda>v. audio_clean i (fst v))"
  unfolding speech.stable_def view_keeps_def using dispatched_kept succeeded_kept clean_kept by blast+

text \<open>A change of the database and of the jobs keeps the invariant.\<close>

lemma execution_inv_step:
  assumes "execution_inv n i (d, js, cs)" and "speech_ok d d'" and "list_all good_job js'"
  shows "execution_inv n i (d', js', cs) \<and> speech_keeps d d'"
  using assms dispatched_kept clean_kept by (auto simp: speech_ok_def)

lemma settled_ok:
  assumes "speech_env_ok S" and "execution_inv n i (speech_view w)"
  shows "execution_inv n i (speech_view (settled S w)) \<and> speech_keeps (yw_db w) (yw_db (settled S w))
    \<and> yw_calls (settled S w) = yw_calls w"
proof -
  obtain d js where r: "run_jobs (ys_job_runs S (yw_tick w)) (yw_tick w) (yw_jobs w) (ys_other S (yw_tick w) (yw_db w)) = (d, js)"
    by force
  have "list_all good_job (yw_jobs w)" using assms(2) by (simp add: speech_view_def)
  note jobs = run_jobs_good[OF r this]
  have "speech_ok (yw_db w) d" using assms(1) jobs speech_ok_trans unfolding speech_env_ok_def by blast
  then show ?thesis
    using execution_inv_step[OF assms(2)[unfolded speech_view_def], of d js] jobs
    by (simp add: settled_def Let_def r speech_view_def)
qed

section \<open>Safe actions\<close>

lemmas speech_bnd0 = speech.safe_bnd[where Q = "\<lambda>_ _. True", simplified]

lemma speech_any: "speech.safe n i P m Q \<Longrightarrow> speech.safe n i P m (\<lambda>_ _. True)"
  by (erule speech.safe_mono) simp_all

lemma speech_keep: "speech.safe n i P m (\<lambda>_ _. True) \<Longrightarrow> speech.stable P \<Longrightarrow> speech.safe n i P m (\<lambda>_. P)"
  unfolding speech.safe_def using speech.stableD by blast

text \<open>Actions that leave the database, the jobs and the calls alone.\<close>

lemma quiet_views [simp]:
  "speech_view (fst (now_clock S w)) = speech_view w" "speech_view (fst (now_wall S w)) = speech_view w"
  "speech_view (fst (spure r w)) = speech_view w" "speech_view (fst (set_vars u w)) = speech_view w"
  "speech_view (fst (get_vars w)) = speech_view w" "speech_view (fst (await_port S p w)) = speech_view w"
  "speech_view (fst (run_before_deadline S p w)) = speech_view w" "speech_view (fst (snapshot_of S w)) = speech_view w"
  "speech_view (fst (begin_execution adm w)) = speech_view w"
  by (simp_all add: speech_view_def now_clock_def now_wall_def spure_def set_vars_def get_vars_def await_port_def
      run_before_deadline_def snapshot_of_def begin_execution_def split: prod.split)

lemma speech_quiet:
  "speech.safe n i P (now_clock S) (\<lambda>_ _. True)" "speech.safe n i P (now_wall S) (\<lambda>_ _. True)"
  "speech.safe n i P (spure r) (\<lambda>_ _. True)" "speech.safe n i P (set_vars u) (\<lambda>_ _. True)"
  "speech.safe n i P get_vars (\<lambda>_ _. True)" "speech.safe n i P (await_port S p) (\<lambda>_ _. True)"
  "speech.safe n i P (run_before_deadline S p) (\<lambda>_ _. True)" "speech.safe n i P (snapshot_of S) (\<lambda>_ _. True)"
  "speech.safe n i P (begin_execution adm) (\<lambda>_ _. True)" "speech.safe n i P (poll_sleep S) (\<lambda>_ _. True)"
  unfolding poll_sleep_def by (rule speech.safe_view; simp)+

lemma speech_pure: "speech.safe n i P (spure r) (\<lambda>x _. r = Inr x)"
  by (rule speech.safe_view) (simp_all add: spure_def split: sum.splits)

lemma speech_ret0: "speech.safe n i P (ret x) (\<lambda>_ _. True)"
  by (rule speech.safe_ret) simp

lemma speech_note: "c \<noteq> Transcribe_Call \<Longrightarrow> speech.safe n i P (note_call c) (\<lambda>_ _. True)"
  by (rule speech.safeI) (auto simp: note_call_def speech_view_def view_keeps_def dest!: in_set_dropD[of _ _ "[c]"])

lemma speech_note_transcribe:
  assumes "\<And>v. P v \<Longrightarrow> was_dispatched i (fst v) \<and> audio_clean i (fst v)"
  shows "speech.safe n i P (note_call Transcribe_Call) (\<lambda>_ _. True)"
proof (rule speech.safeI)
  fix w w' r
  assume inv: "execution_inv n i (speech_view w)" and P: "P (speech_view w)" and run: "note_call Transcribe_Call w = (w', r)"
  then show "execution_inv n i (speech_view w') \<and> view_keeps (speech_view w) (speech_view w') \<and> (\<forall>x. r = Inr x \<longrightarrow> True)"
    using assms[OF P] by (auto simp: note_call_def speech_view_def view_keeps_def)
qed

lemma speech_noted:
  assumes "c \<noteq> Transcribe_Call" and "\<And>x. finished x \<noteq> Transcribe_Call"
    and "speech.safe n i P m (\<lambda>_ _. True)" and "speech.stable P"
  shows "speech.safe n i P (noted c finished m) (\<lambda>_ _. True)"
  unfolding noted_def by (intro speech_bnd0 speech_note speech_ret0 assms)

lemma speech_noted_transcribe:
  assumes "\<And>v. P v \<Longrightarrow> was_dispatched i (fst v) \<and> audio_clean i (fst v)" and "speech.safe n i P m (\<lambda>_ _. True)"
    and "speech.stable P"
  shows "speech.safe n i P (noted Transcribe_Call (\<lambda>_. Transcribe_Done) m) (\<lambda>_ _. True)"
  unfolding noted_def by (intro speech_bnd0 speech_note speech_note_transcribe speech_ret0 assms) simp_all

lemmas speech_steps = speech_quiet speech_ret0 speech.safe_rethrow

lemma speech_if: "speech.safe n i P m Q \<Longrightarrow> speech.safe n i P m' Q \<Longrightarrow> speech.safe n i P (if b then m else m') Q"
  by simp

lemma speech_check_disconnect: "speech.stable P \<Longrightarrow> speech.safe n i P (check_disconnect S) (\<lambda>_ _. True)"
  unfolding check_disconnect_def by (intro speech_bnd0 speech_steps speech_if)

lemma speech_business_time: "speech.stable P \<Longrightarrow> speech.safe n i P (ensure_business_time S deadline) (\<lambda>_ _. True)"
  unfolding ensure_business_time_def by (intro speech_bnd0 speech_steps speech_if)

text \<open>Database operations.\<close>

lemma execution_inv_db:
  assumes "execution_inv n i (speech_view w)" and "speech_ok (yw_db w) d'" and "good_job j"
  shows "execution_inv n i (speech_view (w\<lparr>yw_db := d'\<rparr>)) \<and> speech_keeps (yw_db w) d'"
    and "execution_inv n i (speech_view (add_job j w))"
  using execution_inv_step[OF assms(1)[unfolded speech_view_def] assms(2), of "yw_jobs w"] assms(1,3)
  by (simp_all add: speech_view_def add_job_def)

lemma commit_body_ok:
  "(\<And>d' v. body n d = Inr (d', v) \<Longrightarrow> speech_ok d d') \<Longrightarrow> speech_ok d (commit_body S body n d)"
  by (auto simp: commit_body_def intro: commit_db_ok split: sum.split)

lemma good_commit_body:
  "(\<And>n d d' v. body n d = Inr (d', v) \<Longrightarrow> speech_ok d d') \<Longrightarrow> good_job (commit_body S body)"
  by (simp add: good_job_def commit_body_ok)

lemma commit_db_None: "snd (commit_db f d d') = None \<Longrightarrow> fst (commit_db f d d') = d'"
  by (simp add: commit_db_def split: tx_fault.splits)

lemma run_db_operation_Inr:
  assumes "run_db_operation S body fallback deadline cleanup_deadline w = (w', Inr x)"
  shows "\<exists>d'. body (yw_tick w) (yw_db (settled S w)) = Inr (d', x)
    \<and> snd (commit_db (ys_fault S (yw_tick w)) (yw_db (settled S w)) d') = None
    \<and> w' = settled S w\<lparr>yw_db := commit_body S body (yw_tick w) (yw_db (settled S w))\<rparr>"
proof -
  have "\<not> deadline \<le> ys_clock S (yw_tick w)"
    using assms unfolding run_db_operation_def Let_def by (cases "deadline \<le> ys_clock S (yw_tick w)") simp_all
  moreover have "ys_wait S (yw_tick w) = In_Time"
    using assms calculation unfolding run_db_operation_def Let_def by (cases "ys_wait S (yw_tick w)") simp_all
  ultimately show ?thesis
    using assms unfolding run_db_operation_def Let_def
    by (cases "body (yw_tick w) (yw_db (settled S w))") (auto split: option.splits)
qed

lemma speech_db_operation:
  assumes env: "speech_env_ok S" and fb: "good_job (fallback cleanup_deadline)"
    and body: "\<And>n d d' v. body n d = Inr (d', v) \<Longrightarrow> speech_ok d d' \<and> (speech_inv d \<longrightarrow> Q v d')"
  shows "speech.safe n i P (run_db_operation S body fallback deadline cleanup_deadline) (\<lambda>v view. Q v (fst view))"
proof (rule speech.safeI)
  fix w w' r
  assume inv: "execution_inv n i (speech_view w)" and run: "run_db_operation S body fallback deadline cleanup_deadline w = (w', r)"
  let ?n = "yw_tick w" and ?w1 = "settled S w"
  note s = settled_ok[OF env inv]
  have ok: "speech_ok (yw_db ?w1) (commit_body S body ?n (yw_db ?w1))" using commit_body_ok body by blast
  have j: "good_job (commit_body S body)" using good_commit_body body by blast
  let ?I = "\<lambda>v. execution_inv n i (speech_view v) \<and> speech_keeps (yw_db w) (yw_db v)"
  let ?w2 = "?w1\<lparr>yw_db := commit_body S body ?n (yw_db ?w1)\<rparr>"
  have i1: "?I ?w1" using s by simp
  have i2: "?I ?w2" using execution_inv_db(1)[OF conjunct1[OF s] ok j] s speech_keeps_trans by auto
  have i3: "?I (add_job j ?w1)" if "good_job j" for j
    using execution_inv_db(2)[OF conjunct1[OF s] ok that] s by (simp add: add_job_def)
  have "w' \<in> {?w1, ?w2, add_job (commit_body S body) ?w1, add_job (fallback cleanup_deadline) ?w1}"
    using run unfolding run_db_operation_def Let_def
    by (cases "deadline \<le> ys_clock S ?n", simp, cases "ys_wait S ?n", simp)
      (cases "ys_thread S ?n"; simp)+
  then consider "w' = ?w1" | "w' = ?w2" | "w' = add_job (commit_body S body) ?w1" | "w' = add_job (fallback cleanup_deadline) ?w1"
    by blast
  then have "?I w'"
  proof cases
    case 1 show ?thesis unfolding 1 by (rule i1)
  next
    case 2 show ?thesis unfolding 2 by (rule i2)
  next
    case 3 show ?thesis unfolding 3 by (rule i3[OF j])
  next
    case 4 show ?thesis unfolding 4 by (rule i3[OF fb])
  qed
  moreover have "Q x (yw_db w')" if rx: "r = Inr x" for x
  proof -
    obtain d' where d': "body ?n (yw_db ?w1) = Inr (d', x)" "snd (commit_db (ys_fault S ?n) (yw_db ?w1) d') = None"
        "w' = ?w2"
      using run_db_operation_Inr[OF run[unfolded rx]] by blast
    have "speech_inv (yw_db ?w1)" using s by (simp add: speech_view_def)
    then show ?thesis using body[OF d'(1)] commit_db_None[OF d'(2)] d' by (simp add: commit_body_def)
  qed
  ultimately show "execution_inv n i (speech_view w') \<and> view_keeps (speech_view w) (speech_view w')
      \<and> (\<forall>x. r = Inr x \<longrightarrow> Q x (fst (speech_view w')))"
    by (simp add: view_keeps_def speech_view_def)
qed

lemma speech_transaction:
  assumes env: "speech_env_ok S" and body: "\<And>n d d' v. body n d = Inr (d', v) \<Longrightarrow> speech_ok d d'"
  shows "speech.safe n i P (plain_transaction S body) (\<lambda>_ _. True)"
proof (rule speech.safeI)
  fix w w' r
  assume inv: "execution_inv n i (speech_view w)" and run: "plain_transaction S body w = (w', r)"
  let ?n = "yw_tick w" and ?w1 = "settled S w"
  note s = settled_ok[OF env inv]
  have ok: "speech_ok (yw_db ?w1) (commit_body S body ?n (yw_db ?w1))" using commit_body_ok body by blast
  have j: "good_job (commit_body S body)" using good_commit_body body by blast
  note after = execution_inv_db[OF conjunct1[OF s] ok j]
  let ?w2 = "?w1\<lparr>yw_db := commit_body S body ?n (yw_db ?w1)\<rparr>"
  have "w' = ?w1 \<or> w' = ?w2"
  proof (cases "body ?n (yw_db ?w1)")
    case (Inl e)
    then show ?thesis using run by (simp add: plain_transaction_def Let_def)
  next
    case (Inr dv)
    then show ?thesis
      using run by (cases dv; cases "snd (commit_db (ys_fault S ?n) (yw_db ?w1) (fst dv))")
        (simp_all add: plain_transaction_def Let_def commit_body_def split_beta)
  qed
  moreover have "execution_inv n i (speech_view ?w1) \<and> speech_keeps (yw_db w) (yw_db ?w1)" using s by simp
  moreover have "execution_inv n i (speech_view ?w2) \<and> speech_keeps (yw_db w) (yw_db ?w2)"
    using after(1) s speech_keeps_trans by auto
  ultimately have "execution_inv n i (speech_view w') \<and> speech_keeps (yw_db w) (yw_db w')" by (elim disjE) simp_all
  then show "execution_inv n i (speech_view w') \<and> view_keeps (speech_view w) (speech_view w') \<and> (\<forall>x. r = Inr x \<longrightarrow> True)"
    by (simp add: view_keeps_def speech_view_def)
qed

section \<open>The operations of an execution\<close>

lemma cas_update_row:
  assumes "cas_row token d = Some row" and "cas_update token f d = Inr (d', b)" and "sp_request_id (f row) = sp_request_id row"
  shows "f row \<in> set (t_speech d')" "sp_request_id (f row) = tk_request_id token"
  using cas_row_SomeD[OF assms(1)] assms(3) by (auto simp: cas_update_Inr(1)[OF assms(2)] set_tupdate cas_match_def)

lemma safe_advance:
  assumes "speech_env_ok S"
  shows "speech.safe n i P (advance_request S token s a deadline) (\<lambda>t _. tk_request_id t = tk_request_id token)"
proof -
  have body: "speech_ok d d' \<and> (speech_inv d \<longrightarrow> tk_request_id t = tk_request_id token)"
    if "transition token s a (ys_now S n) d = Inr (d', t)" for n d d' t
    using transition_ok[OF that] that by (auto simp: next_token_def elim!: transition_Inr)
  show ?thesis
    unfolding advance_request_def
    by (rule speech_db_operation[OF assms good_timeout body])
qed

lemma safe_dispatch:
  assumes "speech_env_ok S"
  shows "speech.safe n i P (dispatch_request S token deadline cleanup_deadline)
    (\<lambda>t v. tk_request_id t = tk_request_id token \<and> was_dispatched (tk_request_id token) (fst v))"
proof -
  have body: "speech_ok d d' \<and> (speech_inv d \<longrightarrow> tk_request_id t = tk_request_id token \<and> was_dispatched (tk_request_id token) d')"
    if r: "mark_dispatching token 120 (ys_now S n) d = Inr (d', t)" for n d d' t
  proof -
    obtain row where row: "cas_row token d = Some row"
      and u: "cas_update token (dispatch_values token 120 (ys_now S n)) d = Inr (d', True)"
      and t: "t = next_token token (ys_now S n + seconds 120)"
      using r by (rule mark_dispatching_Inr)
    have "was_dispatched (tk_request_id token) d'"
      unfolding was_dispatched_def list_ex_iff
      by (rule bexI[of _ "dispatch_values token 120 (ys_now S n) row"])
        (use cas_update_row[OF row u] in \<open>simp_all add: dispatch_values_def\<close>)
    then show ?thesis using dispatch_ok[OF r] t by (simp add: next_token_def)
  qed
  show ?thesis
    unfolding dispatch_request_def
    by (rule speech_db_operation[OF assms good_timeout body])
qed

lemma safe_finalize_state:
  assumes "speech_env_ok S" and "speech.stable P"
  shows "speech.safe n i P (finalize_request_state S token s oc lat deadline cleanup_deadline lease)
    (\<lambda>won v. won \<and> s = Succeeded \<longrightarrow> has_succeeded (tk_request_id token) (fst v))"
proof -
  have body: "speech_ok d d' \<and> (speech_inv d \<longrightarrow> won \<and> s = Succeeded \<longrightarrow> has_succeeded (tk_request_id token) d')"
    if r: "finalize token s oc lat (ys_now S n) d = Inr (d', won)" for n d d' won
  proof -
    have "has_succeeded (tk_request_id token) d'" if "won" "s = Succeeded"
      using r
    proof (cases rule: finalize_Inr)
      case (found row)
      then show ?thesis
        unfolding has_succeeded_def list_ex_iff
        by (intro bexI[of _ "finalize_values token s oc lat (ys_now S n) row"])
          (use cas_update_row[OF found(1,4)] that(2) in \<open>simp_all add: finalize_values_def\<close>)
    qed (use that in simp)
    then show ?thesis using finalize_ok[OF r] by simp
  qed
  have op: "speech.safe n i P (run_db_operation S (\<lambda>n. finalize token s oc lat (ys_now S n)) (terminal_fallback S token s2 oc2 lat2 lease2)
      deadline cleanup_deadline) (\<lambda>won view. won \<and> s = Succeeded \<longrightarrow> has_succeeded (tk_request_id token) (fst view))" for s2 oc2 lat2 lease2
    by (rule speech_db_operation[OF assms(1) good_fallback body])
  show ?thesis
    unfolding finalize_request_state_def Let_def
    by (rule speech.safe_catching[OF op _ assms(2)]) (intro speech_if speech.safe_ret speech.safe_rethrow; simp)
qed

lemma safe_scan_status:
  assumes "speech.stable P"
  shows "speech.safe n i P (scan_status_of S path uploaded deadline) (\<lambda>_ _. True)"
proof -
  have "speech.safe n i P (catching (run_before_deadline S p)
      (\<lambda>f. if is_plain_exception f \<and> \<not> is_provider_error f then ret (Known Error) else rethrow f)) (\<lambda>_ _. True)" for p
    by (rule speech.safe_catching[OF _ _ assms]) (auto intro!: speech_steps)
  then show ?thesis
    unfolding scan_status_of_def by (intro speech_noted assms) simp_all
qed

text \<open>A scan that raises nothing leaves a clean attempt of the request.\<close>

lemma scan_failure_None: "scan_failure status = None \<longleftrightarrow> status = Known Clean"
  by (cases status rule: scan_failure.cases) simp_all

lemma attempt_recorded:
  assumes "record_attempt a d = Inr (d', b)" and "at_scan_result a = Clean"
    and "at_idempotency_key a = lit ''speech-scan:'' @ i"
  shows "audio_clean i d'"
  using record_attempt_stored[OF assms(1)] assms(2,3)
  unfolding audio_clean_def list_ex_iff same_scan_attempt_identity_def by auto

lemma safe_speech_scan:
  assumes "speech_env_ok S" and "speech.stable P"
  shows "speech.safe n i P (speech_scan S token path uploaded ct deadline cleanup_deadline)
    (\<lambda>_ v. audio_clean (tk_request_id token) (fst v))"
proof -
  have last: "speech.safe n i (\<lambda>v. P v \<and> make_scan_attempt
        (speech_attempt S snapshot token sha ct status code started finished) = Inr a)
      (bnd (run_db_operation S (\<lambda>n d. andthen (record_attempt a d) (\<lambda>(d', _). Inr (d', ())))
            (terminal_fallback S token Failed_Terminal (Some ''scan_unavailable'') None None) deadline cleanup_deadline)
        (\<lambda>_. case scan_failure status of None \<Rightarrow> ret () | Some f \<Rightarrow> rethrow f))
      (\<lambda>_ v. audio_clean (tk_request_id token) (fst v))" for snapshot sha status code started finished a
  proof (cases "make_scan_attempt (speech_attempt S snapshot token sha ct status code started finished) = Inr a")
    case True
    have a: "at_scan_result a = result_of_status status" "at_idempotency_key a = lit ''speech-scan:'' @ tk_request_id token"
      using make_scan_attempt_Inr[OF True] by (simp_all add: speech_attempt_def speech_audit_key_def)
    let ?Q = "\<lambda>_ d. status = Known Clean \<longrightarrow> audio_clean (tk_request_id token) d"
    have body: "speech_ok d d' \<and> (speech_inv d \<longrightarrow> ?Q v d')"
      if "andthen (record_attempt a d) (\<lambda>(d', _). Inr (d', ())) = Inr (d', v)" for n d d' and v :: unit
      using that attempt_ok attempt_recorded a by (auto simp: andthen_Inr_iff)
    have op: "speech.safe n i P (run_db_operation S (\<lambda>n d. andthen (record_attempt a d) (\<lambda>(d', _). Inr (d', ())))
        (terminal_fallback S token Failed_Terminal (Some ''scan_unavailable'') None None) deadline cleanup_deadline)
        (\<lambda>v view. ?Q v (fst view))"
      by (rule speech_db_operation[OF assms(1) good_fallback body])
    show ?thesis
      using True scan_failure_None[of status]
      by simp (rule speech.safe_bnd[OF op _ assms(2)];
        auto intro: speech.safe_ret speech.safe_rethrow split: option.split)
  qed (simp add: speech.safe_def)
  show ?thesis
    unfolding speech_scan_def
    by (intro speech_bnd0 speech_if speech_steps safe_scan_status speech.safe_bnd[OF speech_pure last] assms)
qed

lemma safe_release_slot:
  assumes "speech_env_ok S"
  shows "speech.safe n i P (release_slot S lease deadline) (\<lambda>_ _. True)"
proof (rule speech.safeI)
  fix w w' r
  assume inv: "execution_inv n i (speech_view w)" and P: "P (speech_view w)" and run: "release_slot S lease deadline w = (w', r)"
  have tx: "speech.safe n i P (plain_transaction S (\<lambda>n d. Inr (release lease d))) (\<lambda>_ _. True)"
    by (rule speech_transaction[OF assms]) (metis fst_conv release_ok sum.inject(2))
  let ?I = "execution_inv n i (speech_view w') \<and> view_keeps (speech_view w) (speech_view w')"
  have ?I
  proof (cases "plain_transaction S (\<lambda>n d. Inr (release lease d)) w = (w', r)")
    case True
    then show ?thesis using speech.safeD(1,2)[OF tx inv P] by simp
  next
    case False
    then have "w' = add_job (release_job S lease) (w\<lparr>yw_tick := yw_tick w + 1\<rparr>)"
      using run by (auto simp: release_slot_def Let_def split: if_splits wait.splits)
    then show ?thesis using inv good_release by (simp add: add_job_def speech_view_def view_keeps_def)
  qed
  then show "execution_inv n i (speech_view w') \<and> view_keeps (speech_view w) (speech_view w') \<and> (\<forall>x. r = Inr x \<longrightarrow> True)"
    by simp
qed

lemma safe_claim_slot:
  assumes "speech_env_ok S" and "speech.stable P"
  shows "speech.safe n i P (claim_asr_slot fuel S request_id deadline release_deadline) (\<lambda>_ _. True)"
proof (induction fuel)
  case 0
  show ?case unfolding claim_asr_slot.simps by (rule speech_ret0)
next
  case (Suc fuel)
  have once: "speech.safe n i P (claim_once S request_id remaining) (\<lambda>_ _. True)" for remaining
    unfolding claim_once_def by (rule speech_transaction[OF assms(1)]) (rule claim_ok)
  have "speech.safe n i P (case lease of
       Some l \<Rightarrow> bnd (now_clock S) (\<lambda>t3.
         if deadline \<le> t3 then bnd (release_slot S l release_deadline) (\<lambda>_. ret (Some None)) else ret (Some (Some l)))
     | None \<Rightarrow> bnd (poll_sleep S) (\<lambda>_. claim_asr_slot fuel S request_id deadline release_deadline)) (\<lambda>_ _. True)" for lease
    unfolding option.case_eq_if
    by (intro speech_if speech_bnd0 speech_quiet safe_release_slot speech_ret0 Suc assms)
  then show ?case unfolding claim_asr_slot.simps
    by (intro speech_bnd0 speech_if speech_quiet speech_ret0 once assms)
qed

lemma safe_cleanup:
  assumes "speech_env_ok S" and "speech.stable P"
  shows "speech.safe n i P (cleanup S path lease deadline) (\<lambda>_ _. True)"
proof -
  have rel: "speech.safe n i P (cleanup_release S lease deadline) (\<lambda>_ _. True)"
    by (simp add: cleanup_release_def speech_ret0 safe_release_slot assms split: option.split)
  have rm: "speech.safe n i P (remove_file S path) (\<lambda>_ _. True)"
    unfolding remove_file_def
    by (intro speech_noted assms(2) speech.safe_view) (auto simp: speech_view_def split: prod.splits)
  have act: "speech.safe n i P (cleanup_actions S path lease deadline) (\<lambda>_ _. True)"
    unfolding cleanup_actions_def by (intro speech_bnd0 speech_if speech_steps rel rm assms)
  show ?thesis
  proof (rule speech.safeI)
    fix w w' r
    assume inv: "execution_inv n i (speech_view w)" and P: "P (speech_view w)" and run: "cleanup S path lease deadline w = (w', r)"
    define w0 where "w0 = w\<lparr>yw_tick := yw_tick w + 1\<rparr>"
    have v: "speech_view w0 = speech_view w" by (simp add: speech_view_def w0_def)
    obtain w1 r1 where 1: "cleanup_actions S path lease deadline w0 = (w1, r1)" by force
    obtain w2 r2 where 2: "cleanup_release S lease deadline w0 = (w2, r2)" by force
    let ?I = "\<lambda>u. execution_inv n i (speech_view u) \<and> view_keeps (speech_view w) (speech_view u)"
    have i: "?I w0" "?I w1" "?I w2"
      using inv P speech.safeD(1,2)[OF act _ _ 1, unfolded v] speech.safeD(1,2)[OF rel _ _ 2, unfolded v]
      by (simp_all only: v) (simp_all add: view_keeps_def)
    have "w' = w0 \<or> w' = w1 \<or> w' = w2"
      using run unfolding cleanup_def Let_def w0_def[symmetric] 1 2
      by (cases "ys_wait S (yw_tick w)"; cases "ys_thread S (yw_tick w)"; cases r1; cases "projl r1")
        (auto split: if_splits)
    then have "?I w'" using i by (elim disjE) simp_all
    then show "execution_inv n i (speech_view w') \<and> view_keeps (speech_view w) (speech_view w') \<and> (\<forall>x. r = Inr x \<longrightarrow> True)"
      by simp
  qed
qed

section \<open>An execution\<close>

lemma safe_wrap_stage: "speech.safe n i P m Q \<Longrightarrow> speech.stable P \<Longrightarrow> speech.safe n i P (wrap_stage m f) Q"
  unfolding wrap_stage_def by (rule speech.safe_catching) (auto intro: speech.safe_rethrow)

lemma safe_upload: "speech.stable P \<Longrightarrow> speech.safe n i P (upload_stage S path deadline) (\<lambda>_ _. True)"
  unfolding upload_stage_def by (intro safe_wrap_stage speech_noted speech_bnd0 speech_steps) simp_all

lemma safe_inspect:
  assumes "speech.stable P"
  shows "speech.safe n i P (inspect_stage S path deadline) (\<lambda>_ _. True)"
  unfolding inspect_stage_def
  by (intro speech.safe_catching speech_noted speech_bnd0 speech_quiet assms)
    (auto intro: speech.safe_rethrow split: option.split)

text \<open>What a later action needs of an earlier one is carried along.\<close>

lemma safe_then:
  assumes "speech.safe n i P m (\<lambda>x v. Q x \<and> A v)" and "speech.stable P" and "speech.stable A"
    and "\<And>x. Q x \<Longrightarrow> speech.safe n i (\<lambda>v. P v \<and> A v) (k x) R"
  shows "speech.safe n i P (bnd m k) R"
proof (rule speech.safe_bnd[OF assms(1) _ assms(2)])
  fix x
  show "speech.safe n i (\<lambda>v. P v \<and> Q x \<and> A v) (k x) R"
  proof (cases "Q x")
    case True
    show ?thesis by (rule speech.safe_mono[OF assms(4)[OF True]]) simp_all
  qed (simp add: speech.safe_def)
qed

lemmas safe_then_fact = safe_then[where Q = "\<lambda>_. True", simplified]
lemmas safe_then_pure = safe_then[where A = "\<lambda>_. True", simplified]

lemma safe_receive_audio:
  assumes "speech_env_ok S" and "tk_request_id (xa_token adm) = i"
  shows "speech.safe n i (\<lambda>_. True) (receive_audio S adm hint) (\<lambda>r v. tk_request_id (fst r) = i \<and> audio_clean i (fst v))"
proof -
  note st = speech.stable_True
  have adv: "speech.safe n i P (advance_request S token s a deadline) (\<lambda>t _. tk_request_id t = i)"
    if "tk_request_id token = i" for P token s a deadline
    using safe_advance[OF assms(1), of n i P token] that by simp
  have scan: "speech.safe n i (\<lambda>_. True) (wrap_stage (speech_scan S t path u ct deadline cleanup) f) (\<lambda>_ v. audio_clean i (fst v))"
    if "tk_request_id t = i" for t path u ct deadline cleanup f
    using safe_wrap_stage[OF safe_speech_scan[OF assms(1) st, of n i t path u ct deadline cleanup] st, of f] that by simp
  show ?thesis
    unfolding receive_audio_def Let_def keep_token_def
    by (intro speech_bnd0 speech_quiet st speech_business_time speech_check_disconnect safe_upload
        safe_then_pure[OF adv] safe_then_fact[OF scan] stable_facts safe_inspect speech.stable_conj assms speech.safe_ret; simp add: assms)
qed

lemma safe_provider:
  assumes "\<And>v. P v \<Longrightarrow> was_dispatched i (fst v) \<and> audio_clean i (fst v)" and "speech.stable P"
  shows "speech.safe n i P (provider_stage S token path facts hint deadline) (\<lambda>_ _. True)"
  unfolding provider_stage_def
  by (intro speech.safe_catching speech_bnd0 speech_quiet speech_noted_transcribe speech_if speech.safe_rethrow assms) blast

lemma safe_transcribe:
  assumes "speech_env_ok S" and "tk_request_id token = i"
  shows "speech.safe n i (\<lambda>v. audio_clean i (fst v)) (transcribe_audio S adm hint token facts lease) (\<lambda>_ v. has_succeeded i (fst v))"
proof -
  have dis: "speech.safe n i P (dispatch_request S token deadline cleanup) (\<lambda>t v. tk_request_id t = i \<and> was_dispatched i (fst v))"
    for P deadline cleanup
    using safe_dispatch[OF assms(1), of n i P token] assms(2) by simp
  have won: "speech.safe n i P (bnd (finalize_request_state S t Succeeded None lat deadline cleanup lease')
      (\<lambda>won. if \<not> won then rethrow g else bnd (set_vars u) (\<lambda>_. ret result))) (\<lambda>_ v. has_succeeded i (fst v))"
    if "tk_request_id t = i" and st: "speech.stable P" for P t lat deadline cleanup lease' g u and result :: transcription_result
  proof -
    have fin: "speech.safe n i P (finalize_request_state S t Succeeded None lat deadline cleanup lease')
        (\<lambda>won v. won \<longrightarrow> has_succeeded i (fst v))"
      using safe_finalize_state[OF assms(1) st, of n i t Succeeded] that(1) by simp
    show ?thesis
    proof (rule speech.safe_bnd[OF fin _ st])
      fix won :: bool
      show "speech.safe n i (\<lambda>v. P v \<and> (won \<longrightarrow> has_succeeded i (fst v)))
          (if \<not> won then rethrow g else bnd (set_vars u) (\<lambda>_. ret result)) (\<lambda>_ v. has_succeeded i (fst v))"
        by (cases won) (auto intro!: speech_bnd0 speech_quiet speech.safe_ret speech.safe_rethrow speech.stable_conj st stable_facts)
    qed
  qed
  show ?thesis
    unfolding transcribe_audio_def Let_def
    by (intro speech_bnd0 speech_quiet speech_business_time speech_check_disconnect safe_then[OF dis] safe_provider won speech_if
        speech.safe_rethrow stable_facts speech.stable_conj) auto
qed

lemma safe_body:
  assumes "speech_env_ok S" and "tk_request_id (xa_token adm) = i"
  shows "speech.safe n i (\<lambda>_. True) (execute_body fuel S adm hint) (\<lambda>r v. r \<noteq> None \<longrightarrow> has_succeeded i (fst v))"
proof -
  note st = speech.stable_True
  have rest: "speech.safe n i (\<lambda>v. audio_clean i (fst v))
      (case claimed of
         None \<Rightarrow> ret None
       | Some None \<Rightarrow> rethrow (Provider_Error Transcription_Timeout)
       | Some (Some lease) \<Rightarrow>
           bnd (set_vars (\<lambda>v. v\<lparr>xv_lease := Some lease\<rparr>)) (\<lambda>_.
           bnd (transcribe_audio S adm hint token facts lease) (\<lambda>r. ret (Some r))))
      (\<lambda>r v. r \<noteq> None \<longrightarrow> has_succeeded i (fst v))"
    if token: "tk_request_id token = i" for claimed token facts
  proof (cases claimed)
    case (Some c)
    show ?thesis
    proof (cases c)
      case (Some lease)
      show ?thesis
        unfolding \<open>claimed = Some c\<close> Some option.case
        by (intro speech_bnd0 speech_quiet stable_facts safe_then_fact[OF safe_transcribe[OF assms(1) token]] speech.safe_ret)
          auto
    qed (simp add: \<open>claimed = Some c\<close> speech.safe_rethrow)
  qed (simp add: speech.safe_ret)
  have rcv: "speech.safe n i (\<lambda>_. True) (receive_audio S adm hint) (\<lambda>r v. tk_request_id (fst r) = i \<and> audio_clean i (fst v))"
    by (rule safe_receive_audio[OF assms])
  show ?thesis
    unfolding execute_body_def
  proof (rule safe_then[OF rcv st stable_facts(3)])
    fix r :: "speech_token \<times> audio_facts"
    assume t: "tk_request_id (fst r) = i"
    show "speech.safe n i (\<lambda>v. True \<and> audio_clean i (fst v))
        (case r of (token, facts) \<Rightarrow>
          bnd (ensure_business_time S (xa_deadline adm - CLEANUP_RESERVE)) (\<lambda>_.
          bnd (check_disconnect S) (\<lambda>_.
          bnd (claim_asr_slot fuel S (tk_request_id token) (xa_deadline adm - CLEANUP_RESERVE) (xa_deadline adm)) (\<lambda>claimed.
          case claimed of
            None \<Rightarrow> ret None
          | Some None \<Rightarrow> rethrow (Provider_Error Transcription_Timeout)
          | Some (Some lease) \<Rightarrow>
              bnd (set_vars (\<lambda>v. v\<lparr>xv_lease := Some lease\<rparr>)) (\<lambda>_.
              bnd (transcribe_audio S adm hint token facts lease) (\<lambda>r. ret (Some r)))))))
        (\<lambda>r v. r \<noteq> None \<longrightarrow> has_succeeded i (fst v))"
      unfolding simp_thms split_beta
      by (intro speech_bnd0 speech_business_time speech_check_disconnect safe_claim_slot stable_facts assms(1) rest t)
  qed
qed

lemma safe_handler:
  assumes "speech_env_ok S"
  shows "speech.safe n i (\<lambda>_. True) (handle_execution S adm f) Q"
proof -
  note st = speech.stable_True
  have fin: "speech.safe n i P (finalize_request_state S t s oc lat deadline cleanup lease) (\<lambda>_ _. True)"
    if "speech.stable P" for P t s oc lat deadline cleanup lease
    by (rule speech_any[OF safe_finalize_state[OF assms that]])
  have amb: "speech.safe n i (\<lambda>_. True) (finish_ambiguous S adm) Q"
    and trm: "speech.safe n i (\<lambda>_. True) (finish_terminal S adm s oc g) Q" for s oc g
    unfolding finish_ambiguous_def finish_terminal_def
    by (intro speech_bnd0 speech_quiet fin st speech.safe_rethrow)+
  show ?thesis
    unfolding handle_execution_def option.case_eq_if
    by (intro speech_bnd0 speech_quiet st speech_if amb trm speech.safe_rethrow)
qed

lemma safe_execute:
  assumes "speech_env_ok S" and "tk_request_id (xa_token adm) = i"
  shows "speech.safe n i (\<lambda>_. True) (execute fuel S adm hint) (\<lambda>r v. r \<noteq> None \<longrightarrow> has_succeeded i (fst v))"
proof -
  note st = speech.stable_True
  have "speech.stable (\<lambda>v. r \<noteq> None \<longrightarrow> has_succeeded i (fst v))" for r :: "transcription_result option"
    by (cases r) simp_all
  moreover have "speech.safe n i (\<lambda>_. True) (final_cleanup S adm) (\<lambda>_ _. True)"
    unfolding final_cleanup_def
    by (intro speech_bnd0 speech_quiet speech.safe_catching safe_cleanup speech.safe_rethrow st assms(1))
  ultimately show ?thesis
    unfolding execute_def
    by (intro speech_bnd0 speech_quiet speech.safe_finally speech.safe_catching safe_body safe_handler st assms) 
qed

section \<open>The calls of the ports\<close>

interpretation calls: traced_actions "yw_calls :: 'x speech_world \<Rightarrow> port_call list" .

lemma calls_settled: "yw_calls (settled S w) = yw_calls w"
  by (simp add: settled_def Let_def split_beta)

lemma quiet_calls:
  "calls.quiet (now_clock S)" "calls.quiet (now_wall S)" "calls.quiet (spure x)" "calls.quiet (set_vars u)"
  "calls.quiet get_vars" "calls.quiet (await_port S p)" "calls.quiet (run_before_deadline S p)"
  "calls.quiet (snapshot_of S)" "calls.quiet (begin_execution adm)" "calls.quiet (poll_sleep S)"
  by (simp_all add: calls.quiet_def now_clock_def now_wall_def spure_def set_vars_def get_vars_def await_port_def
      run_before_deadline_def snapshot_of_def begin_execution_def poll_sleep_def split: prod.split)

lemma quiet_db: "calls.quiet (run_db_operation S body fallback deadline cleanup_deadline)"
proof -
  have "yw_calls (fst (run_db_operation S body fallback deadline cleanup_deadline w)) = yw_calls w" for w
    unfolding run_db_operation_def Let_def
    by (cases "ys_wait S (yw_tick w)"; cases "ys_thread S (yw_tick w)") (simp_all add: calls_settled add_job_def)
  then show ?thesis by (simp add: calls.quiet_def)
qed

lemma quiet_transaction: "calls.quiet (plain_transaction S body)"
  by (simp add: calls.quiet_def plain_transaction_def Let_def calls_settled split: sum.split prod.split option.split)

lemmas quiet_ops = quiet_calls quiet_db quiet_transaction calls.quiet_ret calls.quiet_rethrow

lemma quiet_checks: "calls.quiet (ensure_business_time S deadline)" "calls.quiet (check_disconnect S)"
  "calls.quiet (advance_request S token s a deadline)" "calls.quiet (dispatch_request S token deadline c)"
  "calls.quiet (finalize_request_state S token s oc lat deadline c lease)"
  unfolding ensure_business_time_def check_disconnect_def advance_request_def dispatch_request_def
    finalize_request_state_def Let_def
  by (intro calls.quiet_bnd calls.quiet_catching calls.quiet_if quiet_ops)+

lemma quiet_release: "calls.quiet (release_slot S lease deadline)"
proof -
  have "yw_calls (fst (release_slot S lease deadline w)) = yw_calls w" for w
    using quiet_transaction[of S "\<lambda>n d. Inr (release lease d)"]
    by (simp add: release_slot_def Let_def add_job_def calls.quiet_def split: wait.split)
  then show ?thesis by (simp add: calls.quiet_def)
qed

lemma quiet_claim: "calls.quiet (claim_asr_slot fuel S i deadline release_deadline)"
proof (induction fuel)
  case 0
  show ?case unfolding claim_asr_slot.simps by (rule calls.quiet_ret)
next
  case (Suc fuel)
  then show ?case
    unfolding claim_asr_slot.simps claim_once_def option.case_eq_if
    by (intro calls.quiet_bnd calls.quiet_if quiet_ops quiet_release)
qed

text \<open>A run over a list of calls: a call that raises leaves a part of it, and nothing follows a verdict other than clean.\<close>

definition partial_run :: "port_call list \<Rightarrow> port_call list \<Rightarrow> bool" where
  "partial_run p cs \<longleftrightarrow> prefix cs p
     \<or> (\<exists>a b s. p = a @ Scan_Done (Known Clean) # b \<and> s \<noteq> Known Clean \<and> cs = a @ [Scan_Done s])"

definition runs :: "port_call list \<Rightarrow> 'e + 'a \<Rightarrow> port_call list \<Rightarrow> bool" where
  "runs p r cs \<longleftrightarrow> (case r of Inr _ \<Rightarrow> cs = p | Inl _ \<Rightarrow> partial_run p cs)"

lemma partial_run_start: "partial_run p cs \<Longrightarrow> partial_run (p @ q) cs"
  by (fastforce simp: partial_run_def prefix_def)

lemma partial_run_rest: "partial_run q cs \<Longrightarrow> partial_run (p @ q) (p @ cs)"
  unfolding partial_run_def by (metis append.assoc same_prefix_prefix)

lemma partial_run_refl [simp]: "partial_run p p" "partial_run p []"
  by (simp_all add: partial_run_def)

lemma runs_simps [simp]: "runs p (Inr x) cs \<longleftrightarrow> cs = p" "runs p (Inl e) cs \<longleftrightarrow> partial_run p cs"
  by (simp_all add: runs_def)

lemma emits_runs_bnd:
  assumes "calls.emits m (runs p)" and "\<And>x. calls.emits (k x) (runs q)"
  shows "calls.emits (bnd m k) (runs (p @ q))"
  by (rule calls.emits_bnd[OF assms]) (auto simp: runs_def partial_run_start partial_run_rest split: sum.splits)

lemmas emits_cons_bnd = emits_runs_bnd[where p = "[c]" for c, unfolded append.simps]

lemma emits_quiet_runs: "calls.quiet m \<Longrightarrow> calls.emits m (runs [])"
  by (rule calls.emits_quiet) (simp_all add: runs_def split: sum.split)

lemma emits_skip: "calls.quiet m \<Longrightarrow> (\<And>x. calls.emits (k x) (runs q)) \<Longrightarrow> calls.emits (bnd m k) (runs q)"
  by (rule calls.emits_quiet_bnd) simp_all

lemma emits_last: "calls.emits m (runs p) \<Longrightarrow> (\<And>x. calls.quiet (k x)) \<Longrightarrow> calls.emits (bnd m k) (runs p)"
  using emits_runs_bnd[of m p k "[]", OF _ emits_quiet_runs] by simp

lemma emits_stop: "calls.emits (rethrow e) (runs p)"
  by (rule calls.emits_rethrow) simp

lemma emits_note_runs: "calls.emits (note_call c) (runs [c])"
  by (simp add: calls.emits_def note_call_def)

lemma emits_noted:
  assumes "calls.quiet m"
  shows "calls.emits (noted c (\<lambda>_. d) m) (runs [c, d])"
  unfolding noted_def
  by (intro emits_cons_bnd[OF emits_note_runs] emits_skip assms emits_last[OF emits_note_runs] calls.quiet_ret)

text \<open>What only raises.\<close>

definition raised :: "'e + 'a \<Rightarrow> port_call list \<Rightarrow> bool" where
  "raised r cs \<longleftrightarrow> isl r \<and> cs = []"

lemma raised_simps [simp]: "raised (Inr x) cs \<longleftrightarrow> False" "raised (Inl e) cs \<longleftrightarrow> cs = []"
  by (simp_all add: raised_def)

lemma emits_raise: "calls.emits (rethrow e) raised"
  by (simp add: calls.emits_def)

lemma raise_after: "calls.quiet m \<Longrightarrow> (\<And>x. calls.emits (k x) raised) \<Longrightarrow> calls.emits (bnd m k) raised"
  by (rule calls.emits_quiet_bnd) simp_all

lemma emits_reraise:
  assumes "calls.emits m A" and "\<And>e. calls.emits (h e) raised"
    and "\<And>x cs. A (Inr x) cs \<Longrightarrow> C (Inr x) cs" and "\<And>e e' cs. A (Inl e) cs \<Longrightarrow> C (Inl e') cs"
  shows "calls.emits (catching m h) C"
  by (rule calls.emits_catching[OF assms(1,2)]) (auto simp: raised_def isl_def intro: assms(3,4))

lemma emits_runs_reraise:
  "calls.emits m (runs p) \<Longrightarrow> (\<And>e. calls.emits (h e) raised) \<Longrightarrow> calls.emits (catching m h) (runs p)"
  by (rule emits_reraise[where A = "runs p" and C = "runs p"]) simp_all

lemma emits_handler: "calls.emits (handle_execution S adm f) raised"
  unfolding handle_execution_def finish_ambiguous_def finish_terminal_def option.case_eq_if
  by (intro raise_after calls.emits_if emits_raise quiet_ops quiet_checks)

text \<open>The calls of the stages.\<close>

lemma emits_upload: "calls.emits (upload_stage S path deadline) (runs [Upload_Call, Upload_Done])"
  unfolding upload_stage_def wrap_stage_def
  by (intro emits_runs_reraise emits_noted calls.quiet_bnd quiet_ops calls.emits_if emits_raise)

lemma emits_inspect: "calls.emits (inspect_stage S path deadline) (runs [Inspect_Call, Inspect_Done])"
  unfolding inspect_stage_def option.case_eq_if
  by (intro emits_runs_reraise emits_noted calls.quiet_bnd quiet_ops calls.emits_if emits_raise)

lemma emits_scan_status:
  "calls.emits (scan_status_of S path u deadline)
     (\<lambda>r cs. case r of Inl _ \<Rightarrow> cs = [Scan_Call] | Inr s \<Rightarrow> cs = [Scan_Call, Scan_Done s])"
proof -
  have finish: "calls.emits (bnd (note_call (Scan_Done s)) (\<lambda>_. ret s)) (\<lambda>r cs. r = Inr s \<and> cs = [Scan_Done s])" for s
    by (simp add: calls.emits_def note_call_def bnd_def)
  have scan: "calls.quiet (catching (run_before_deadline S p)
      (\<lambda>f. if is_plain_exception f \<and> \<not> is_provider_error f then ret (Known Error) else rethrow f))" for p
    by (intro calls.quiet_catching calls.quiet_if quiet_ops)
  have rest: "calls.emits (bnd (catching (run_before_deadline S p)
      (\<lambda>f. if is_plain_exception f \<and> \<not> is_provider_error f then ret (Known Error) else rethrow f))
      (\<lambda>s. bnd (note_call (Scan_Done s)) (\<lambda>_. ret s)))
      (\<lambda>r cs. case r of Inl _ \<Rightarrow> cs = [] | Inr s \<Rightarrow> cs = [Scan_Done s])" for p
    by (rule calls.emits_quiet_bnd[OF scan calls.emits_mono[OF finish]]) auto
  show ?thesis
    unfolding scan_status_of_def noted_def
    by (rule calls.emits_bnd[where A = "\<lambda>r cs. r = Inr () \<and> cs = [Scan_Call]", OF _ rest])
      (auto simp: calls.emits_def note_call_def split: sum.splits)
qed

text \<open>Whatever follows the verdict without a call, the scan returns only for a clean one.\<close>

definition scanned :: "'e + 'a \<Rightarrow> port_call list \<Rightarrow> bool" where
  "scanned r cs \<longleftrightarrow> (case r of
     Inr _ \<Rightarrow> cs = [Scan_Call, Scan_Done (Known Clean)] | Inl _ \<Rightarrow> partial_run [Scan_Call, Scan_Done (Known Clean)] cs)"

lemma partial_scan:
  "partial_run [Scan_Call, Scan_Done (Known Clean)] [Scan_Call]"
  "partial_run [Scan_Call, Scan_Done (Known Clean)] [Scan_Call, Scan_Done s]"
  unfolding partial_run_def by (simp, cases "s = Known Clean") (auto intro!: exI[of _ "[Scan_Call]"] exI[of _ "[]"])

lemma emits_scan: "calls.emits (speech_scan S token path u ct deadline c) (runs [Scan_Call, Scan_Done (Known Clean)])"
proof -
  have last: "calls.emits (case scan_failure s of None \<Rightarrow> ret () | Some f \<Rightarrow> rethrow f)
      (\<lambda>r cs. cs = [] \<and> (r = Inr () \<longrightarrow> s = Known Clean))" for s
    by (cases "scan_failure s") (auto simp: scan_failure_None intro: calls.emits_ret calls.emits_rethrow)
  show ?thesis
    unfolding speech_scan_def
    by (intro calls.emits_quiet_bnd calls.emits_if quiet_ops emits_stop
        calls.emits_bnd[OF emits_scan_status, where B = "\<lambda>s r cs. cs = [] \<and> (r = Inr () \<longrightarrow> s = Known Clean)"] last)
      (auto simp: partial_scan runs_def split: sum.splits)
qed

definition received_run :: "port_call list" where
  "received_run = [Upload_Call, Upload_Done, Scan_Call, Scan_Done (Known Clean), Inspect_Call, Inspect_Done]"

lemma emits_receive: "calls.emits (receive_audio S adm hint) (runs received_run)"
proof -
  have scan: "calls.emits (wrap_stage (speech_scan S token path u ct deadline c) f)
      (runs [Scan_Call, Scan_Done (Known Clean)])" for token path u ct deadline c f
    unfolding wrap_stage_def by (intro emits_runs_reraise[OF emits_scan] calls.emits_if emits_raise)
  have "calls.emits (receive_audio S adm hint)
      (runs ([Upload_Call, Upload_Done] @ [Scan_Call, Scan_Done (Known Clean)] @ [Inspect_Call, Inspect_Done]))"
    unfolding receive_audio_def Let_def keep_token_def
    by ((rule emits_skip, rule quiet_checks quiet_ops)+, rule emits_runs_bnd[OF emits_upload],
        (rule emits_skip, rule quiet_checks quiet_ops)+, rule emits_runs_bnd[OF scan],
        (rule emits_skip, rule quiet_checks quiet_ops)+, rule emits_last[OF emits_inspect],
        intro calls.quiet_bnd quiet_checks quiet_ops)
  then show ?thesis by (simp add: received_run_def)
qed

lemma emits_transcribe:
  "calls.emits (transcribe_audio S adm hint token facts lease) (runs [Transcribe_Call, Transcribe_Done])"
proof -
  have provider: "calls.emits (provider_stage S token path facts hint deadline) (runs [Transcribe_Call, Transcribe_Done])"
    for token path deadline
    unfolding provider_stage_def
    by (intro emits_runs_reraise emits_skip emits_noted calls.quiet_bnd quiet_ops calls.emits_if emits_raise)
  show ?thesis
    unfolding transcribe_audio_def Let_def
    by (intro emits_skip calls.emits_if quiet_checks quiet_ops emits_stop emits_last[OF provider] calls.quiet_bnd
        calls.quiet_if)
qed

text \<open>
  The calls of an execution: the audio is received, scanned, inspected and transcribed, each at most once and the next only
  after the one before was done, the scan with a clean verdict. Whatever became of that, its file is removed at most once, after
  it; for an execution that returns a transcript everything is done and the file is removed.
\<close>

definition whole_run :: "port_call list" where
  "whole_run = received_run @ [Transcribe_Call, Transcribe_Done]"

definition removal :: "port_call list" where
  "removal = [Remove_Call, Remove_Done]"

definition execution_calls :: "speech_failure + transcription_result option \<Rightarrow> port_call list \<Rightarrow> bool" where
  "execution_calls r cs \<longleftrightarrow> (\<exists>a b. cs = a @ b \<and> partial_run whole_run a \<and> prefix b removal
     \<and> (\<not> isl r \<longrightarrow> b = removal) \<and> ((\<exists>x. r = Inr (Some x)) \<longrightarrow> a = whole_run))"

definition transcribed :: "port_call list \<Rightarrow> 'e + 'a option \<Rightarrow> port_call list \<Rightarrow> bool" where
  "transcribed p r cs \<longleftrightarrow> (case r of Inr (Some _) \<Rightarrow> cs = p | _ \<Rightarrow> partial_run p cs)"

lemma emits_body: "calls.emits (execute_body fuel S adm hint) (transcribed whole_run)"
proof -
  let ?q = "[Transcribe_Call, Transcribe_Done]"
  have some: "calls.emits (bnd (transcribe_audio S adm hint token facts lease) (\<lambda>r. ret (Some r))) (transcribed ?q)"
    for token facts lease
    by (rule calls.emits_bnd[OF emits_transcribe calls.emits_ret]) (auto simp: transcribed_def)
  have rest: "calls.emits (case claimed of
         None \<Rightarrow> ret None
       | Some None \<Rightarrow> rethrow (Provider_Error Transcription_Timeout)
       | Some (Some lease) \<Rightarrow>
           bnd (set_vars (u lease)) (\<lambda>_.
           bnd (transcribe_audio S adm hint token facts lease) (\<lambda>r. ret (Some r)))) (transcribed ?q)" for claimed token facts u
    by (auto intro!: calls.emits_quiet_bnd[OF quiet_calls(4) some] calls.emits_ret calls.emits_rethrow
        simp: transcribed_def[of _ "Inl _"] transcribed_def[of _ "Inr None"] split: option.split)
  have "calls.emits (case r of (token, facts) \<Rightarrow>
      bnd (ensure_business_time S (xa_deadline adm - CLEANUP_RESERVE)) (\<lambda>_.
      bnd (check_disconnect S) (\<lambda>_.
      bnd (claim_asr_slot fuel S (tk_request_id token) (xa_deadline adm - CLEANUP_RESERVE) (xa_deadline adm)) (\<lambda>claimed.
      case claimed of
         None \<Rightarrow> ret None
       | Some None \<Rightarrow> rethrow (Provider_Error Transcription_Timeout)
       | Some (Some lease) \<Rightarrow>
           bnd (set_vars (\<lambda>v. v\<lparr>xv_lease := Some lease\<rparr>)) (\<lambda>_.
           bnd (transcribe_audio S adm hint token facts lease) (\<lambda>r. ret (Some r))))))) (transcribed ?q)" for r
    unfolding split_beta by (intro calls.emits_quiet_bnd quiet_checks quiet_claim rest) (simp_all add: transcribed_def)
  then show ?thesis
    unfolding execute_body_def whole_run_def
    by (rule calls.emits_bnd[OF emits_receive])
      (auto simp: transcribed_def partial_run_start partial_run_rest split: sum.splits option.splits)
qed

text \<open>However the cleanup ends, the file is removed at most once.\<close>

lemma emits_cleanup: "calls.emits (cleanup S path lease deadline) (runs removal)"
proof -
  have rel: "calls.quiet (cleanup_release S lease deadline)"
    by (auto simp: cleanup_release_def calls.quiet_ret quiet_release split: option.split)
  have rm: "calls.emits (remove_file S path) (runs removal)"
    unfolding remove_file_def removal_def
    by (rule emits_noted) (auto simp: calls.quiet_def split: prod.split)
  have act: "calls.emits (cleanup_actions S path lease deadline) (runs removal)"
    unfolding cleanup_actions_def
    by (intro emits_skip rel emits_last[OF rm] calls.quiet_if quiet_ops)
  show ?thesis
    unfolding calls.emits_def
  proof (intro allI impI)
    fix w w' r
    assume run: "cleanup S path lease deadline w = (w', r)"
    define w0 where "w0 = w\<lparr>yw_tick := yw_tick w + 1\<rparr>"
    have v: "yw_calls w0 = yw_calls w" by (simp add: w0_def)
    obtain w1 r1 where 1: "cleanup_actions S path lease deadline w0 = (w1, r1)" by force
    obtain w2 r2 where 2: "cleanup_release S lease deadline w0 = (w2, r2)" by force
    obtain cs where cs: "yw_calls w1 = yw_calls w @ cs" "runs removal r1 cs"
      using calls.emitsD[OF act 1] v by auto
    have q: "yw_calls w2 = yw_calls w" using calls.quietD[OF rel 2] v by simp
    have "(w' = w0 \<or> w' = w2) \<and> (\<exists>e. r = Inl e) \<or> w' = w1 \<and> ((\<exists>e. r = Inl e) \<or> r1 = Inr ())"
      using run unfolding cleanup_def Let_def w0_def[symmetric] 1 2
      by (cases "ys_wait S (yw_tick w)"; cases "ys_thread S (yw_tick w)"; cases r1; cases "projl r1")
        (auto split: if_splits)
    then consider (none) e where "yw_calls w' = yw_calls w" "r = Inl e" | (act) "w' = w1" "(\<exists>e. r = Inl e) \<or> r1 = Inr ()"
      using v q by auto
    then show "\<exists>cs. yw_calls w' = yw_calls w @ cs \<and> runs removal r cs"
    proof cases
      case none then show ?thesis by simp
    next
      case act
      then show ?thesis using cs by (cases r1; cases r) auto
    qed
  qed
qed

lemma partial_removal: "partial_run removal b \<Longrightarrow> prefix b removal"
  by (auto simp: partial_run_def removal_def Cons_eq_append_conv)

lemma emits_execute: "calls.emits (execute fuel S adm hint) execution_calls"
proof -
  have h: "calls.emits (catching (execute_body fuel S adm hint) (handle_execution S adm)) (transcribed whole_run)"
    by (intro emits_reraise[OF emits_body emits_handler]) (auto simp: transcribed_def)
  have f: "calls.emits (final_cleanup S adm) (runs removal)"
    unfolding final_cleanup_def by (intro emits_skip quiet_ops emits_runs_reraise[OF emits_cleanup emits_raise])
  have start: "execution_calls (Inl e) []" for e unfolding execution_calls_def by (intro exI[of _ "[]"]) simp
  have part: "partial_run whole_run a" "\<forall>x. r = Inr (Some x) \<longrightarrow> a = whole_run" if "transcribed whole_run r a" for r a
    using that by (auto simp: transcribed_def split: sum.splits option.splits)
  have failed: "execution_calls (Inl e) (a @ b)" if "transcribed whole_run r a" "runs removal (Inl e' :: 'b + unit) b" for e e' r a b
    using part[OF that(1)] partial_removal that(2) unfolding execution_calls_def by (intro exI[of _ a] exI[of _ b]) simp
  have ended: "execution_calls r (a @ b)" if "transcribed whole_run r a" "runs removal (Inr () :: 'b + unit) b" for r a b
    using part[OF that(1)] that(2) unfolding execution_calls_def by (intro exI[of _ a] exI[of _ b]) auto
  show ?thesis
    unfolding execute_def
    by (intro calls.emits_quiet_bnd[where C = execution_calls] quiet_calls(9) start
        calls.emits_finally[where C = execution_calls, OF h f]) (rule failed ended; assumption)+
qed

section \<open>Termination\<close>

text \<open>A clock that never goes back and that moves by the length of a poll over the four ticks of one round of the loop.\<close>

definition clock_ok :: "'x speech_service \<Rightarrow> bool" where
  "clock_ok S \<longleftrightarrow> (\<forall>n. ys_clock S n \<le> ys_clock S (Suc n)) \<and> (\<forall>n. ys_clock S n + 10000 \<le> ys_clock S (n + 4))"

lemma clock_mono: "clock_ok S \<Longrightarrow> m \<le> n \<Longrightarrow> ys_clock S m \<le> ys_clock S n"
  unfolding clock_ok_def by (rule lift_Suc_mono_le) simp_all

lemma transaction_tick: "yw_tick (fst (plain_transaction S body w)) = Suc (yw_tick w)"
  by (simp add: plain_transaction_def Let_def settled_def split_beta split: sum.split prod.split option.split)

lemma claim_round:
  assumes "ys_clock S (yw_tick w) < deadline"
    and "\<And>w1. yw_tick w1 = yw_tick w + 4 \<Longrightarrow> snd (claim_asr_slot fuel S i deadline release_deadline w1) \<noteq> Inr None"
  shows "snd (claim_asr_slot (Suc fuel) S i deadline release_deadline w) \<noteq> Inr None"
proof -
  let ?w2 = "w\<lparr>yw_tick := Suc (Suc (yw_tick w))\<rparr>"
  obtain w3 r3 where 3: "claim_once S i (deadline - ys_clock S (Suc (yw_tick w))) ?w2 = (w3, r3)" by force
  have t3: "yw_tick w3 = yw_tick w + 3"
    using arg_cong[OF 3[unfolded claim_once_def], of "\<lambda>p. yw_tick (fst p)"] by (simp add: transaction_tick)
  show ?thesis
  proof (cases r3)
    case (Inl e)
    then show ?thesis using assms(1) 3 by (simp add: bnd_def now_clock_def)
  next
    case (Inr lease)
    show ?thesis
    proof (cases lease)
      case (Some l)
      obtain w5 r5 where 5: "release_slot S l release_deadline (w3\<lparr>yw_tick := Suc (yw_tick w3)\<rparr>) = (w5, r5)" by force
      then show ?thesis using assms(1) 3 5 Inr Some by (cases r5) (simp_all add: bnd_def now_clock_def)
    next
      case None
      obtain w4 r4 where 4: "poll_sleep S w3 = (w4, r4)" by force
      have t4: "yw_tick w4 = yw_tick w + 4" using 4 t3 by (auto simp: poll_sleep_def await_port_def)
      show ?thesis
        using assms(1) 3 4 Inr None assms(2)[OF t4] by (cases r4) (simp_all add: bnd_def now_clock_def)
    qed
  qed
qed

lemma claim_ends:
  assumes "clock_ok S" and "deadline - ys_clock S (yw_tick w) \<le> 10000 * int fuel"
  shows "snd (claim_asr_slot (Suc fuel) S i deadline release_deadline w) \<noteq> Inr None"
  using assms(2)
proof (induction fuel arbitrary: w)
  case 0
  then show ?case by (simp add: bnd_def now_clock_def)
next
  case (Suc fuel)
  show ?case
  proof (cases "ys_clock S (yw_tick w) < deadline")
    case True
    show ?thesis
    proof (rule claim_round[OF True])
      fix w1 :: "'a speech_world"
      assume "yw_tick w1 = yw_tick w + 4"
      then have "ys_clock S (yw_tick w) + 10000 \<le> ys_clock S (yw_tick w1)" using assms(1) by (simp add: clock_ok_def)
      then show "snd (claim_asr_slot (Suc fuel) S i deadline release_deadline w1) \<noteq> Inr None"
        using Suc.prems by (intro Suc.IH) simp
    qed
  qed (simp add: bnd_def now_clock_def)
qed

text \<open>How long the loop runs: its last round starts before the deadline, or the one before it did.\<close>

definition ends_in_time :: "'x speech_service \<Rightarrow> int \<Rightarrow> nat \<Rightarrow> nat \<Rightarrow> 'e + slot_lease option option \<Rightarrow> bool" where
  "ends_in_time S deadline n m r \<longleftrightarrow> (m = Suc n \<or> ys_clock S (m - 5) < deadline)
     \<and> (\<forall>l. r = Inr (Some (Some l)) \<longrightarrow> ys_clock S (m - 1) < deadline)
     \<and> (r = Inr (Some None) \<longrightarrow> deadline \<le> ys_clock S m)"

lemma release_tick: "yw_tick (fst (release_slot S l deadline w)) = Suc (yw_tick w)"
  by (simp add: release_slot_def Let_def add_job_def transaction_tick split: wait.split)

lemma claim_in_time:
  assumes "clock_ok S" and "claim_asr_slot fuel S i deadline c w = (w', r)" and "r \<noteq> Inr None"
  shows "ends_in_time S deadline (yw_tick w) (yw_tick w') r"
  using assms(2,3)
proof (induction fuel arbitrary: w)
  case (Suc fuel)
  let ?n = "yw_tick w"
  note mono = clock_mono[OF assms(1)]
  show ?case
  proof (cases "deadline \<le> ys_clock S ?n")
    case True
    then show ?thesis
      using Suc.prems mono[of ?n "Suc ?n"] by (auto simp: bnd_def now_clock_def ends_in_time_def)
  next
    case False
    then have early: "ys_clock S m < deadline" if "m \<le> ?n" for m using mono[OF that] by simp
    let ?w2 = "w\<lparr>yw_tick := Suc (Suc ?n)\<rparr>"
    obtain w3 r3 where 3: "claim_once S i (deadline - ys_clock S (Suc ?n)) ?w2 = (w3, r3)" by force
    have t3: "yw_tick w3 = ?n + 3"
      using arg_cong[OF 3[unfolded claim_once_def], of "\<lambda>p. yw_tick (fst p)"] by (simp add: transaction_tick)
    show ?thesis
    proof (cases r3)
      case (Inl e)
      then show ?thesis using Suc.prems 3 False t3 early by (auto simp: bnd_def now_clock_def ends_in_time_def)
    next
      case (Inr lease)
      show ?thesis
      proof (cases lease)
        case (Some l)
        obtain w5 r5 where 5: "release_slot S l c (w3\<lparr>yw_tick := Suc (yw_tick w3)\<rparr>) = (w5, r5)" by force
        have t5: "yw_tick w5 = ?n + 5"
          using arg_cong[OF 5, of "\<lambda>p. yw_tick (fst p)"] t3 by (simp add: release_tick)
        show ?thesis
        proof (cases "deadline \<le> ys_clock S (yw_tick w3)")
          case True
          then have "w' = w5" "\<forall>l. r \<noteq> Inr (Some (Some l))"
            using Suc.prems 3 5 False Inr Some by (auto simp: bnd_def now_clock_def split: sum.splits)
          then show ?thesis
            using True t3 t5 early[of ?n] mono[of "?n + 3" "?n + 5"] by (simp add: ends_in_time_def)
        next
          case late: False
          then have "w' = w3\<lparr>yw_tick := Suc (yw_tick w3)\<rparr>" "r = Inr (Some (Some l))"
            using Suc.prems 3 5 False Inr Some by (auto simp: bnd_def now_clock_def)
          then show ?thesis using late t3 early[of "?n - 1"] by (simp add: ends_in_time_def add.commute)
        qed
      next
        case None
        obtain w4 r4 where 4: "poll_sleep S w3 = (w4, r4)" by force
        have t4: "yw_tick w4 = ?n + 4" using 4 t3 by (auto simp: poll_sleep_def await_port_def)
        show ?thesis
        proof (cases r4)
          case (Inl e)
          then show ?thesis
            using Suc.prems 3 4 False t4 early[of "?n - 1"] Inr None by (auto simp: bnd_def now_clock_def ends_in_time_def)
        next
          case r4: (Inr u)
          then have "claim_asr_slot fuel S i deadline c w4 = (w', r)"
            using Suc.prems(1) 3 4 False Inr None by (simp add: bnd_def now_clock_def)
          then have "ends_in_time S deadline (?n + 4) (yw_tick w') r" using Suc.IH Suc.prems(2) t4 by metis
          then show ?thesis using early[of ?n] by (auto simp: ends_in_time_def)
        qed
      qed
    qed
  qed
qed simp

text \<open>Results that are not None, whatever the state.\<close>

interpretation run: guarded_actions "\<lambda>w :: 'x speech_world. ()" "\<lambda>_. True" "\<lambda>_ _. True"
  by unfold_locales simp_all

lemma run_any: "run.safe P m (\<lambda>_ _. True)"
  by (simp add: run.safe_def)

lemma run_bnd: "(\<And>x. run.safe (\<lambda>_. True) (k x) Q) \<Longrightarrow> run.safe (\<lambda>_. True) (bnd m k) Q"
  by (rule run.safe_bnd[OF run_any]) simp_all

lemma run_bnd_some:
  assumes "run.safe (\<lambda>_. True) m (\<lambda>r _. r \<noteq> None)" and "\<And>c. run.safe (\<lambda>_. True) (k (Some c)) Q"
  shows "run.safe (\<lambda>_. True) (bnd m k) Q"
proof (rule run.safe_bnd[OF assms(1) _ run.stable_True])
  fix r
  show "run.safe (\<lambda>d. True \<and> r \<noteq> None) (k r) Q"
    using assms(2) by (cases r) (simp_all add: run.safe_def)
qed

lemma body_ends:
  assumes "clock_ok S" and "xa_deadline adm - CLEANUP_RESERVE - ys_clock S 0 \<le> 10000 * int fuel"
  shows "run.safe (\<lambda>_. True) (execute_body (Suc fuel) S adm hint) (\<lambda>r _. r \<noteq> None)"
proof -
  have claim: "run.safe (\<lambda>_. True) (claim_asr_slot (Suc fuel) S i (xa_deadline adm - CLEANUP_RESERVE) c) (\<lambda>r _. r \<noteq> None)" for i c
  proof -
    have le: "xa_deadline adm - CLEANUP_RESERVE - ys_clock S (yw_tick w) \<le> 10000 * int fuel" for w :: "'a speech_world"
      using assms(2) clock_mono[OF assms(1), of 0 "yw_tick w"] by simp
    show ?thesis
    proof (rule run.safeI)
      fix w w' r
      assume "claim_asr_slot (Suc fuel) S i (xa_deadline adm - CLEANUP_RESERVE) c w = (w', r)"
      then have "r \<noteq> Inr None" using claim_ends[OF assms(1) le, of i c w] by (simp only: snd_conv not_False_eq_True)
      then show "True \<and> True \<and> (\<forall>x. r = Inr x \<longrightarrow> x \<noteq> None)" by auto
    qed
  qed
  have rest: "run.safe (\<lambda>_. True) (case Some c of
         None \<Rightarrow> ret None
       | Some None \<Rightarrow> rethrow (Provider_Error Transcription_Timeout)
       | Some (Some lease) \<Rightarrow>
           bnd (set_vars (u lease)) (\<lambda>_.
           bnd (transcribe_audio S adm hint token facts lease) (\<lambda>r. ret (Some r)))) (\<lambda>r _. r \<noteq> None)" for c u token facts
  proof (cases c)
    case (Some lease)
    show ?thesis unfolding Some option.case by (intro run_bnd run.safe_ret) simp
  qed (simp add: run.safe_rethrow)
  show ?thesis
    unfolding execute_body_def split_beta
    by (rule run_bnd, rule run_bnd, rule run_bnd, rule run_bnd_some[OF claim], rule rest)
qed

lemma handler_ends: "run.safe (\<lambda>_. True) (handle_execution S adm f) Q"
  unfolding handle_execution_def finish_ambiguous_def finish_terminal_def option.case_eq_if
  by (intro run_bnd) (simp add: run_bnd run.safe_rethrow)

lemma execute_some:
  assumes "clock_ok S" and "xa_deadline adm - CLEANUP_RESERVE - ys_clock S 0 \<le> 10000 * int fuel"
  shows "run.safe (\<lambda>_. True) (execute (Suc fuel) S adm hint) (\<lambda>r _. r \<noteq> None)"
  unfolding execute_def
  by (intro run_bnd run.safe_finally run.safe_catching body_ends handler_ends run_any assms) (simp_all add: run.stable_def)

section \<open>A sample run\<close>

text \<open>Every port answers in time, and the clock advances by a hundredth of a second at each tick.\<close>

definition sample_speech_service :: "nat speech_service" where
  "sample_speech_service = \<lparr>ys_clock = (\<lambda>n. 10000 * int n), ys_now = (\<lambda>n. 1 + int n), ys_other = (\<lambda>_ d. d),
     ys_job_runs = (\<lambda>_. []), ys_fault = (\<lambda>_. Commits), ys_wait = (\<lambda>_. In_Time), ys_thread = (\<lambda>_. Thread_Commits),
     ys_slot_token = (\<lambda>_. lit ''t1''), ys_sha256 = (\<lambda>_. replicate 64 48), ys_uuid5 = (\<lambda>_. lit ''a1''),
     ys_uuid_ok = (\<lambda>_. True), ys_temp_dir = lit ''/t'', ys_declared = None, ys_prepare = (\<lambda>x. (x, Inr ())),
     ys_probe = (\<lambda>x. (x, Inr False)), ys_upload = (\<lambda>_ _ x. (x, Inr (1000, replicate 64 48))),
     ys_snapshot = (\<lambda>_. sample_snapshot), ys_scan = (\<lambda>_ _ _ x. (x, Inr (Known Clean))),
     ys_inspect = (\<lambda>_ _ _ x. (x, Inr \<lparr>af_audio_format = Wav_Pcm, af_media_type = lit ''audio/wav'', af_codec = lit ''pcm'',
        af_byte_size = 1000, af_duration_ms = 2000\<rparr>)),
     ys_transcribe = (\<lambda>q _ x. (x, Inr \<lparr>rs_request_id = tr_request_id q, rs_transcript = lit ''hello'',
        rs_provider = lit ''dashscope'', rs_model = lit DASHSCOPE_ASR_MODEL\<rparr>)),
     ys_remove = (\<lambda>_ x. (x + 1, Inr ()))\<rparr>"

definition sample_admission :: execution_admission where
  "sample_admission = \<lparr>xa_token = sample_token 1 0, xa_deadline = 30000000\<rparr>"

definition sample_speech_world :: "nat speech_world" where
  "sample_speech_world = \<lparr>yw_db = sample_db\<lparr>t_speech := [sample_row1], t_slots := [new_slot Asr_Kind 1 0]\<rparr>, yw_ext = 0,
     yw_tick = 0, yw_jobs = [], yw_calls = [],
     yw_vars = \<lparr>xv_token = sample_token 1 0, xv_lease = None, xv_dispatched = False, xv_received = False,
       xv_committed = False, xv_ambiguous = False\<rparr>\<rparr>"

lemma sample_speech_env: "speech_env_ok sample_speech_service"
  by (simp add: speech_env_ok_def sample_speech_service_def)

lemma sample_speech_inv: "speech_inv (yw_db sample_speech_world)"
  using speech_reachable_inv[OF sample_reachable1]
  by (simp add: speech_inv_def sample_speech_world_def sample_with_def)

lemma sample_clock: "clock_ok sample_speech_service"
  by (simp add: clock_ok_def sample_speech_service_def)

section \<open>Properties\<close>

text \<open>
  C3. Whatever the ports answer or raise, however an await ends and whatever abandoned transactions do later, an execution
  keeps the invariant of the request table; the provider has been called only for a request whose dispatch is stored
  and whose audio has a stored clean scan; and a transcript is returned only for a request that is stored as succeeded.
\<close>

theorem execute_safe:
  assumes "speech_env_ok S" and "speech_inv (yw_db w)" and "list_all good_job (yw_jobs w)"
    and "execute fuel S adm hint w = (w', r)"
  shows "\<exists>cs. yw_calls w' = yw_calls w @ cs \<and> speech_inv (yw_db w') \<and> speech_keeps (yw_db w) (yw_db w')
    \<and> (Transcribe_Call \<in> set cs \<longrightarrow>
         was_dispatched (tk_request_id (xa_token adm)) (yw_db w') \<and> audio_clean (tk_request_id (xa_token adm)) (yw_db w'))
    \<and> (\<forall>result. r = Inr (Some result) \<longrightarrow> has_succeeded (tk_request_id (xa_token adm)) (yw_db w'))"
proof -
  let ?i = "tk_request_id (xa_token adm)" and ?n = "length (yw_calls w)"
  have "execution_inv ?n ?i (speech_view w)" using assms(2,3) by (simp add: speech_view_def)
  note safe = speech.safeD[OF safe_execute[OF assms(1) refl] this _ assms(4)]
  obtain cs where cs: "yw_calls w' = yw_calls w @ cs" using calls.emitsD[OF emits_execute assms(4)] by blast
  show ?thesis
    using safe cs by (intro exI[of _ cs]) (auto simp: speech_view_def view_keeps_def)
qed

lemma execute_safe_witness:
  "speech_inv (yw_db (fst (execute 5 sample_speech_service sample_admission Hint_Auto sample_speech_world)))"
proof -
  obtain w' r where run: "execute 5 sample_speech_service sample_admission Hint_Auto sample_speech_world = (w', r)" by force
  have "list_all good_job (yw_jobs sample_speech_world)" by (simp add: sample_speech_world_def)
  from execute_safe[OF sample_speech_env sample_speech_inv this run] show ?thesis using run by auto
qed

text \<open>
  C4. The ports are called in order, each at most once: the upload, the scan only after the upload was done, the inspection
  only after the scan answered clean, the provider only after the inspection was done; nothing follows another verdict. After
  that, whatever became of it, the audio file is removed at most once. A transcript is returned only when all four were done
  and the file has been removed.
\<close>

theorem execute_calls:
  "\<exists>cs. yw_calls (fst (execute fuel S adm hint w)) = yw_calls w @ cs
    \<and> execution_calls (snd (execute fuel S adm hint w)) cs"
  by (rule calls.emitsD[OF emits_execute]) simp

text \<open>
  C5. An execution ends. The clock is assumed never to go back and to move by the length of a poll (a hundredth of a second)
  over the four ticks of one round of the loop that waits for a slot; then a bound on the rounds that covers the time to the
  deadline is never used up. The loop itself ends within a round of the deadline: unless it gives up at its first look at the
  clock, the deadline had not passed five ticks before its end; a lease that it returns was in hand before the deadline, and
  it returns none only when the deadline has passed.
\<close>

theorem execute_ends:
  assumes "clock_ok S" and "deadline = xa_deadline adm - CLEANUP_RESERVE" and "deadline - ys_clock S 0 \<le> 10000 * int fuel"
  shows "snd (execute (Suc fuel) S adm hint w) \<noteq> Inr None
    \<and> (\<forall>i c v v' r. claim_asr_slot (Suc fuel) S i deadline c v = (v', r) \<longrightarrow>
         r \<noteq> Inr None \<and> (yw_tick v' = Suc (yw_tick v) \<or> ys_clock S (yw_tick v' - 5) < deadline)
         \<and> (\<forall>l. r = Inr (Some (Some l)) \<longrightarrow> ys_clock S (yw_tick v' - 1) < deadline)
         \<and> (r = Inr (Some None) \<longrightarrow> deadline \<le> ys_clock S (yw_tick v')))"
proof (intro conjI allI impI)
  obtain w' r where "execute (Suc fuel) S adm hint w = (w', r)" by force
  then show "snd (execute (Suc fuel) S adm hint w) \<noteq> Inr None"
    using run.safeD(3)[OF execute_some[OF assms(1) assms(3)[unfolded assms(2)]] TrueI TrueI, of hint w w' r None] by auto
next
  fix i c v v' r l
  assume run: "claim_asr_slot (Suc fuel) S i deadline c v = (v', r)"
  have "deadline - ys_clock S (yw_tick v) \<le> 10000 * int fuel"
    using assms(3) clock_mono[OF assms(1), of 0 "yw_tick v"] by simp
  from claim_ends[OF assms(1) this, of i c] show some: "r \<noteq> Inr None" unfolding run by simp
  note in_time = claim_in_time[OF assms(1) run some, unfolded ends_in_time_def]
  show "yw_tick v' = Suc (yw_tick v) \<or> ys_clock S (yw_tick v' - 5) < deadline" using in_time by blast
  show "r = Inr (Some (Some l)) \<Longrightarrow> ys_clock S (yw_tick v' - 1) < deadline" using in_time by blast
  show "r = Inr (Some None) \<Longrightarrow> deadline \<le> ys_clock S (yw_tick v')" using in_time by blast
qed

lemma execute_ends_witness:
  "snd (execute (Suc 2500) sample_speech_service sample_admission Hint_Auto sample_speech_world) \<noteq> Inr None"
  using execute_ends[OF sample_clock refl, of sample_admission 2500]
  by (simp add: sample_admission_def sample_speech_service_def CLEANUP_RESERVE_def)

end
