(* ===== verification/Urls.thy ===== *)
theory Urls
  imports SpeechModels Narratives
begin

text \<open>
  URLs: what the program uses of \<^verbatim>\<open>urllib.parse\<close> (Python 3.12), and \<^verbatim>\<open>openhands_runtime/url_redaction.py\<close>, which
  turns the URLs of evidence into the form that may leave the database. The checks of a network location that rest on
  the tables of \<^verbatim>\<open>ipaddress\<close> and \<^verbatim>\<open>unicodedata\<close>, \<open>str.lower\<close>, SHA-256 and the order in which a set is enumerated are
  arguments.
\<close>

record url_env =
  ue_brackets_ok :: "str \<Rightarrow> bool"
  ue_nfkc_ok :: "str \<Rightarrow> bool"
  ue_lower :: "str \<Rightarrow> str"
  ue_sha256 :: "nat list \<Rightarrow> str"
  ue_enumerate :: "str list \<Rightarrow> str list"

section \<open>Strings\<close>

text \<open>\<open>s.partition(c)\<close> and \<open>s.rpartition(c)\<close>, with the separator as a flag; \<open>s.split(c)\<close>; \<open>s.replace(t, u)\<close>.\<close>

definition partition_at :: "nat \<Rightarrow> str \<Rightarrow> str \<times> bool \<times> str" where
  "partition_at c s = (case dropWhile (\<lambda>x. x \<noteq> c) s of
     [] \<Rightarrow> (s, False, []) | _ # t \<Rightarrow> (takeWhile (\<lambda>x. x \<noteq> c) s, True, t))"

definition rpartition_at :: "nat \<Rightarrow> str \<Rightarrow> str \<times> bool \<times> str" where
  "rpartition_at c s = (case partition_at c (rev s) of
     (b, True, a) \<Rightarrow> (rev a, True, rev b) | (_, False, _) \<Rightarrow> ([], False, s))"

fun split_at :: "nat \<Rightarrow> str \<Rightarrow> str list" where
  "split_at c [] = [[]]"
| "split_at c (x # s) = (if x = c then [] # split_at c s
     else case split_at c s of [] \<Rightarrow> [[x]] | y # ys \<Rightarrow> (x # y) # ys)"

definition starts_with :: "str \<Rightarrow> str \<Rightarrow> bool" where
  "starts_with p s \<longleftrightarrow> take (length p) s = p"

definition ends_with :: "str \<Rightarrow> str \<Rightarrow> bool" where
  "ends_with t s \<longleftrightarrow> starts_with (rev t) (rev s)"

function replace_all :: "str \<Rightarrow> str \<Rightarrow> str \<Rightarrow> str" where
  "replace_all t u [] = []"
| "replace_all t u (c # s) = (if t \<noteq> [] \<and> starts_with t (c # s) then u @ replace_all t u (drop (length t) (c # s))
     else c # replace_all t u s)"
  by pat_completeness auto
termination
  by (relation "measure (\<lambda>(t, u, s). length s)") (auto simp: length_greater_0_conv)

definition ascii_letter_code :: "nat \<Rightarrow> bool" where
  "ascii_letter_code c \<longleftrightarrow> (65 \<le> c \<and> c \<le> 90) \<or> (97 \<le> c \<and> c \<le> 122)"

definition ascii_digit :: "nat \<Rightarrow> bool" where
  "ascii_digit c \<longleftrightarrow> 48 \<le> c \<and> c \<le> 57"

definition lower_code :: "nat \<Rightarrow> nat" where
  "lower_code c = (if 65 \<le> c \<and> c \<le> 90 then c + 32 else c)"

section \<open>\<^verbatim>\<open>urllib.parse\<close>\<close>

record split_url =
  su_scheme :: str
  su_netloc :: str
  su_path :: str
  su_query :: str
  su_fragment :: str

definition scheme_char :: "nat \<Rightarrow> bool" where
  "scheme_char c \<longleftrightarrow> ascii_letter_code c \<or> ascii_digit c \<or> c \<in> {43, 45, 46}"

definition split_scheme :: "str \<Rightarrow> str \<times> str" where
  "split_scheme url = (case partition_at 58 url of
     (a, found, rest) \<Rightarrow>
       if found \<and> a \<noteq> [] \<and> ascii_letter_code (hd a) \<and> list_all scheme_char a then (map lower_code a, rest) else ([], url))"

definition netloc_end :: "nat \<Rightarrow> bool" where
  "netloc_end c \<longleftrightarrow> c \<in> {47, 63, 35}"

definition split_netloc :: "str \<Rightarrow> str \<times> str" where
  "split_netloc url = (if take 2 url = lit ''//'' then (takeWhile (\<lambda>c. \<not> netloc_end c) (drop 2 url), dropWhile (\<lambda>c. \<not> netloc_end c) (drop 2 url))
     else ([], url))"

definition netloc_checks :: "url_env \<Rightarrow> str \<Rightarrow> (bool \<times> exc) list" where
  "netloc_checks E netloc =
     [(91 \<in> set netloc \<longleftrightarrow> 93 \<in> set netloc, ValueError ''Invalid IPv6 URL''),
      (91 \<in> set netloc \<longrightarrow> ue_brackets_ok E netloc, ValueError ''Invalid IPv6 URL''),
      (list_all (\<lambda>c. c < 128) netloc \<or> ue_nfkc_ok E netloc,
         ValueError ''netloc contains invalid characters under NFKC normalization'')]"

definition sanitize_url :: "str \<Rightarrow> str" where
  "sanitize_url url = filter (\<lambda>c. c \<notin> {9, 10, 13}) (dropWhile (\<lambda>c. c \<le> 32) url)"

definition urlsplit :: "url_env \<Rightarrow> str \<Rightarrow> exc + split_url" where
  "urlsplit E url =
     (let (scheme, url1) = split_scheme (sanitize_url url);
          (netloc, url2) = split_netloc url1;
          (url3, _, fragment) = partition_at 35 url2;
          (path, _, query) = partition_at 63 url3
      in andthen (require_all (netloc_checks E netloc)) (\<lambda>_.
         Inr \<lparr>su_scheme = scheme, su_netloc = netloc, su_path = path, su_query = query, su_fragment = fragment\<rparr>))"

definition userinfo :: "split_url \<Rightarrow> str option \<times> str option" where
  "userinfo p = (case rpartition_at 64 (su_netloc p) of
     (_, False, _) \<Rightarrow> (None, None)
   | (info, True, _) \<Rightarrow> (case partition_at 58 info of (u, have_password, pw) \<Rightarrow> (Some u, if have_password then Some pw else None)))"

definition hostinfo :: "split_url \<Rightarrow> str \<times> str option" where
  "hostinfo p = (case rpartition_at 64 (su_netloc p) of (_, _, info) \<Rightarrow>
     (case partition_at 91 info of
        (_, True, bracketed) \<Rightarrow> (case partition_at 93 bracketed of (h, _, rest) \<Rightarrow>
          (h, case partition_at 58 rest of (_, _, port) \<Rightarrow> if port = [] then None else Some port))
      | (_, False, _) \<Rightarrow> (case partition_at 58 info of (h, _, port) \<Rightarrow> (h, if port = [] then None else Some port))))"

definition hostname :: "url_env \<Rightarrow> split_url \<Rightarrow> str option" where
  "hostname E p = (let h = fst (hostinfo p) in
     if h = [] then None
     else case partition_at 37 h of (a, found, zone) \<Rightarrow> Some (ue_lower E a @ (if found then 37 # zone else [])))"

definition int_of_digits :: "str \<Rightarrow> int" where
  "int_of_digits s = foldl (\<lambda>n c. 10 * n + (int c - 48)) 0 s"

definition url_port :: "split_url \<Rightarrow> exc + int option" where
  "url_port p = (case snd (hostinfo p) of
     None \<Rightarrow> Inr None
   | Some s \<Rightarrow>
       andthen (require (list_all ascii_digit s) (ValueError ''Port could not be cast to integer value'')) (\<lambda>_.
       andthen (require (int_of_digits s \<le> 65535) (ValueError ''Port out of range 0-65535'')) (\<lambda>_.
       Inr (Some (int_of_digits s)))))"

definition uses_netloc :: "str list" where
  "uses_netloc = map lit ['''', ''ftp'', ''http'', ''gopher'', ''nntp'', ''telnet'', ''imap'', ''wais'', ''file'', ''mms'', ''https'',
     ''shttp'', ''snews'', ''prospero'', ''rtsp'', ''rtsps'', ''rtspu'', ''rsync'', ''svn'', ''svn+ssh'', ''sftp'', ''nfs'', ''git'',
     ''git+ssh'', ''ws'', ''wss'']"

definition urlunsplit :: "split_url \<Rightarrow> str" where
  "urlunsplit p =
     (let path = su_path p;
          u = (if su_netloc p \<noteq> [] then lit ''//'' @ su_netloc p @ (if path \<noteq> [] \<and> take 1 path \<noteq> lit ''/'' then lit ''/'' @ path else path)
               else if take 2 path = lit ''//'' then lit ''//'' @ path
               else if su_scheme p \<noteq> [] \<and> su_scheme p \<in> set uses_netloc \<and> (path = [] \<or> take 1 path = lit ''/'')
                 then lit ''//'' @ path
               else path);
          u = (if su_scheme p \<noteq> [] then su_scheme p @ lit '':'' @ u else u);
          u = (if su_query p \<noteq> [] then u @ lit ''?'' @ su_query p else u)
      in if su_fragment p \<noteq> [] then u @ lit ''#'' @ su_fragment p else u)"

text \<open>\<open>bytes.decode("utf-8", "replace")\<close>: an ill-formed sequence becomes U+FFFD, as much of it at once as could still have
  become a character.\<close>

definition continuation :: "nat \<Rightarrow> bool" where
  "continuation b \<longleftrightarrow> 128 \<le> b \<and> b < 192"

definition lead_length :: "nat \<Rightarrow> nat" where
  "lead_length b = (if 194 \<le> b \<and> b < 224 then 1 else if 224 \<le> b \<and> b < 240 then 2 else if 240 \<le> b \<and> b < 245 then 3 else 0)"

definition second_ok :: "nat \<Rightarrow> nat \<Rightarrow> bool" where
  "second_ok b x \<longleftrightarrow> continuation x \<and> (b = 224 \<longrightarrow> 160 \<le> x) \<and> (b = 237 \<longrightarrow> x < 160) \<and> (b = 240 \<longrightarrow> 144 \<le> x) \<and> (b = 244 \<longrightarrow> x < 144)"

definition matched :: "nat \<Rightarrow> nat list \<Rightarrow> nat" where
  "matched b xs = (case xs of [] \<Rightarrow> 0 | x # ys \<Rightarrow> if second_ok b x then 1 + length (takeWhile continuation ys) else 0)"

definition code_point :: "nat \<Rightarrow> nat list \<Rightarrow> nat" where
  "code_point b xs = foldl (\<lambda>v c. v * 64 + c mod 64) (b mod (if b < 224 then 32 else if b < 240 then 16 else 8)) xs"

function decode_replace :: "nat list \<Rightarrow> str" where
  "decode_replace [] = []"
| "decode_replace (b # bs) =
     (if b < 128 then b # decode_replace bs
      else let n = lead_length b; k = matched b (take n bs) in
        (if n \<noteq> 0 \<and> k = n then code_point b (take n bs) else 65533) # decode_replace (drop k bs))"
  by pat_completeness auto
termination
  by (relation "measure length") auto

text \<open>\<open>unquote\<close>: the escapes of each run of ASCII characters are decoded.\<close>

fun unquote_to_bytes :: "str \<Rightarrow> nat list" where
  "unquote_to_bytes (c # a # b # s) =
     (if c = 37 \<and> is_hex a \<and> is_hex b then (16 * hex_value a + hex_value b) # unquote_to_bytes s
      else c # unquote_to_bytes (a # b # s))"
| "unquote_to_bytes s = s"

function unquote_runs :: "str \<Rightarrow> str" where
  "unquote_runs [] = []"
| "unquote_runs (c # s) =
     (if c < 128 then decode_replace (unquote_to_bytes (c # takeWhile (\<lambda>x. x < 128) s)) @ unquote_runs (dropWhile (\<lambda>x. x < 128) s)
      else c # unquote_runs s)"
  by pat_completeness auto
termination
  by (relation "measure length") (auto simp: le_imp_less_Suc length_dropWhile_le)

definition unquote :: "str \<Rightarrow> str" where
  "unquote s = (if 37 \<in> set s then unquote_runs s else s)"

text \<open>\<open>parse_qsl(query, keep_blank_values=True)\<close>.\<close>

definition parse_qsl :: "str \<Rightarrow> (str \<times> str) list" where
  "parse_qsl query = (if query = [] then []
     else map (\<lambda>part. case partition_at 61 part of (k, _, v) \<Rightarrow>
            let plus = map (\<lambda>c. if c = 43 then 32 else c) in (unquote (plus k), unquote (plus v)))
          (filter (\<lambda>part. part \<noteq> []) (split_at 38 query)))"
section \<open>Redaction\<close>

record public_url =
  pu_scheme :: str
  pu_hostname :: str
  pu_origin :: str
  pu_path_redacted :: bool
  pu_url_sha256 :: str
  pu_port :: "int option"

text \<open>The dictionaries of the code, in their order.\<close>

definition url_json :: "public_url \<Rightarrow> (str \<times> json) list" where
  "url_json p =
     [(lit ''scheme'', Scalar (JStr (pu_scheme p))), (lit ''hostname'', Scalar (JStr (pu_hostname p))),
      (lit ''origin'', Scalar (JStr (pu_origin p))), (lit ''path_redacted'', Scalar (JBool (pu_path_redacted p))),
      (lit ''url_sha256'', Scalar (JStr (pu_url_sha256 p)))]
     @ (case pu_port p of None \<Rightarrow> [] | Some n \<Rightarrow> [(lit ''port'', Scalar (JInt n))])"

definition safe_port :: "split_url \<Rightarrow> int option" where
  "safe_port p = (case url_port p of Inl _ \<Rightarrow> None | Inr n \<Rightarrow> n)"

definition bracket_host :: "str \<Rightarrow> str" where
  "bracket_host h = (if 58 \<in> set h then lit ''['' @ h @ lit '']'' else h)"

definition authority :: "str \<Rightarrow> int option \<Rightarrow> str" where
  "authority h port = bracket_host h @ (case port of None \<Rightarrow> [] | Some n \<Rightarrow> lit '':'' @ dec (nat n))"

definition public_port :: "split_url \<Rightarrow> int option" where
  "public_port p = (let port = safe_port p; s = map lower_code (su_scheme p) in
     if s = lit ''http'' \<and> port = Some 80 \<or> s = lit ''https'' \<and> port = Some 443 then None else port)"

definition host_or_empty :: "url_env \<Rightarrow> split_url \<Rightarrow> str" where
  "host_or_empty E p = (case hostname E p of None \<Rightarrow> [] | Some h \<Rightarrow> ue_lower E h)"

definition canonical_authority :: "url_env \<Rightarrow> split_url \<Rightarrow> str" where
  "canonical_authority E p = (case userinfo p of
       (None, _) \<Rightarrow> []
     | (Some u, None) \<Rightarrow> u @ lit ''@''
     | (Some u, Some pw) \<Rightarrow> u @ lit '':'' @ pw @ lit ''@'')
     @ authority (host_or_empty E p) (public_port p)"

definition canonical_url :: "url_env \<Rightarrow> split_url \<Rightarrow> str" where
  "canonical_url E p = urlunsplit \<lparr>su_scheme = map lower_code (su_scheme p), su_netloc = canonical_authority E p,
     su_path = (if su_path p = [] then lit ''/'' else su_path p), su_query = su_query p, su_fragment = su_fragment p\<rparr>"

definition redact_url :: "url_env \<Rightarrow> str \<Rightarrow> exc + public_url" where
  "redact_url E url =
     andthen (urlsplit E (strip url)) (\<lambda>p.
     andthen (encode_utf8 (canonical_url E p)) (\<lambda>bytes.
     let scheme = map lower_code (su_scheme p); h = host_or_empty E p; port = public_port p in
     Inr \<lparr>pu_scheme = scheme, pu_hostname = h, pu_origin = scheme @ lit ''://'' @ authority h port,
       pu_path_redacted = (su_path p \<noteq> [] \<and> su_path p \<noteq> lit ''/''), pu_url_sha256 = ue_sha256 E bytes, pu_port = port\<rparr>))"

definition jget :: "string \<Rightarrow> (str \<times> json) list \<Rightarrow> json" where
  "jget k fs = (case map_of fs (lit k) of None \<Rightarrow> Scalar JNull | Some v \<Rightarrow> v)"

text \<open>\<open>bool(value)\<close>.\<close>

fun truthy :: "json \<Rightarrow> bool" where
  "truthy (Scalar (JStr s)) = (s \<noteq> [])"
| "truthy (Scalar (JInt n)) = (n \<noteq> 0)"
| "truthy (Scalar (JFloat x)) = (x \<noteq> 0)"
| "truthy (Scalar (JBool b)) = b"
| "truthy (Scalar JNull) = False"
| "truthy (Arr xs) = (xs \<noteq> [])"
| "truthy (Obj fs) = (fs \<noteq> [])"

definition lower_hex :: "nat \<Rightarrow> bool" where
  "lower_hex c \<longleftrightarrow> ascii_digit c \<or> (97 \<le> c \<and> c \<le> 102)"

text \<open>The port of the dictionary: None when it is not acceptable.\<close>

fun metadata_port :: "json \<Rightarrow> int option option" where
  "metadata_port (Scalar JNull) = Some None"
| "metadata_port (Scalar (JInt n)) = (if 1 \<le> n \<and> n \<le> 65535 then Some (Some n) else None)"
| "metadata_port _ = None"

definition safe_url_metadata :: "url_env \<Rightarrow> (str \<times> json) list \<Rightarrow> exc + public_url option" where
  "safe_url_metadata E fs = (case (jget ''scheme'' fs, jget ''hostname'' fs, jget ''url_sha256'' fs, metadata_port (jget ''port'' fs)) of
     (Arr _, _) \<Rightarrow> Inl (TypeError ''unhashable type: list'')
   | (Obj _, _) \<Rightarrow> Inl (TypeError ''unhashable type: dict'')
   | (Scalar (JStr s), Scalar (JStr h), Scalar (JStr d), Some port) \<Rightarrow>
       if (s = lit ''http'' \<or> s = lit ''https'') \<and> h \<noteq> [] \<and> length d = 64 \<and> list_all lower_hex (ue_lower E d)
       then Inr (Some \<lparr>pu_scheme = s, pu_hostname = h, pu_origin = s @ lit ''://'' @ authority h port,
              pu_path_redacted = truthy (jget ''path_redacted'' fs), pu_url_sha256 = ue_lower E d, pu_port = port\<rparr>)
       else Inr None
   | _ \<Rightarrow> Inr None)"

text \<open>The keys of \<open>evidence\<close> are read in either spelling, the first that is present.\<close>

definition jget2 :: "string \<Rightarrow> string \<Rightarrow> (str \<times> json) list \<Rightarrow> json" where
  "jget2 k l fs = (if lit k \<in> fst ` set fs then jget k fs else jget l fs)"

definition safe_evidence_payload :: "url_env \<Rightarrow> (str \<times> json) list \<Rightarrow> exc + (str \<times> json) list" where
  "safe_evidence_payload E ev =
     (let kind = jget2 ''evidenceType'' ''evidence_type'' ev;
          payload = [(lit ''evidenceId'', jget2 ''evidenceId'' ''evidence_id'' ev), (lit ''evidenceType'', kind),
            (lit ''contentHash'', jget2 ''contentHash'' ''content_hash'' ev)]
      in if kind \<noteq> Scalar (JStr (lit ''url'')) then Inr payload
         else case jget2 ''sourceUrl'' ''source_url'' ev of
           Scalar (JStr (c # s)) \<Rightarrow> andthen (redact_url E (c # s)) (\<lambda>p. Inr (payload @ [(lit ''source'', Obj (url_json p))]))
         | _ \<Rightarrow> (case jget ''source'' ev of
             Obj fs \<Rightarrow> andthen (safe_url_metadata E fs) (\<lambda>m. case m of
                 None \<Rightarrow> Inr payload | Some p \<Rightarrow> Inr (payload @ [(lit ''source'', Obj (url_json p))]))
           | _ \<Rightarrow> Inr payload))"

section \<open>Verification facts\<close>

fun decoded_variants :: "nat \<Rightarrow> str \<Rightarrow> str list" where
  "decoded_variants 0 s = []"
| "decoded_variants (Suc n) s = (if s = [] then [] else [s]) @ (if unquote s = s then [] else decoded_variants n (unquote s))"

definition url_tokens :: "url_env \<Rightarrow> str \<Rightarrow> exc + str list" where
  "url_tokens E url = andthen (urlsplit E url) (\<lambda>p.
     Inr (concat (map (\<lambda>v. if v = [] then [] else [v, unquote v])
            (List.map_filter id [fst (userinfo p), snd (userinfo p), Some (su_fragment p)]))
        @ filter (\<lambda>t. t \<noteq> []) (concat (map (\<lambda>s. [s, unquote s]) (split_at 47 (su_path p))))
        @ concat (map (\<lambda>part. case partition_at 61 part of
            (k, found, v) \<Rightarrow> decoded_variants 3 k @ (if found then decoded_variants 3 v else [])) (split_at 38 (su_query p)))
        @ concat (map (\<lambda>(k, v). decoded_variants 3 k @ decoded_variants 3 v) (parse_qsl (su_query p)))))"

fun all_tokens :: "url_env \<Rightarrow> str list \<Rightarrow> exc + str list" where
  "all_tokens E [] = Inr []"
| "all_tokens E (u # us) = andthen (url_tokens E u) (\<lambda>ts. andthen (all_tokens E us) (\<lambda>tss. Inr (ts @ tss)))"

text \<open>The tokens of a set are taken by falling length; tokens of the same length in the order of the enumeration.\<close>

definition redact_url_text :: "url_env \<Rightarrow> str option \<Rightarrow> str list \<Rightarrow> exc + str option" where
  "redact_url_text E text_opt urls = (case text_opt of
     None \<Rightarrow> Inr None
   | Some t \<Rightarrow> andthen (all_tokens E urls) (\<lambda>ts.
       Inr (Some (fold (\<lambda>tok s. replace_all tok (lit ''[redacted]'') s)
         (sort_key (\<lambda>tok. - int (length tok)) (ue_enumerate E (remdups ts))) t))))"

text \<open>The redirects: what is stored of them, and the texts whose parts are redacted later.\<close>

fun safe_redirects :: "url_env \<Rightarrow> json list \<Rightarrow> exc + json list \<times> str list" where
  "safe_redirects E [] = Inr ([], [])"
| "safe_redirects E (v # vs) = andthen
     (case v of
        Scalar (JStr s) \<Rightarrow> andthen (redact_url E s) (\<lambda>p. Inr ([Obj (url_json p)], [s]))
      | Obj fs \<Rightarrow> andthen (safe_url_metadata E fs) (\<lambda>m. Inr (case m of None \<Rightarrow> [] | Some p \<Rightarrow> [Obj (url_json p)], []))
      | _ \<Rightarrow> Inr ([], [])) (\<lambda>(js, us).
     andthen (safe_redirects E vs) (\<lambda>(js', us'). Inr (js @ js', us @ us')))"

definition safe_current :: "url_env \<Rightarrow> (str \<times> json) list \<Rightarrow> exc + public_url option \<times> str list" where
  "safe_current E facts =
     andthen (case jget ''url'' facts of Obj fs \<Rightarrow> safe_url_metadata E fs | _ \<Rightarrow> Inr None) (\<lambda>m.
     case (m, jget ''normalized_url'' facts) of
       (None, Scalar (JStr s)) \<Rightarrow> andthen (redact_url E s) (\<lambda>p. Inr (Some p, [s]))
     | _ \<Rightarrow> Inr (m, []))"

definition is_jint :: "json \<Rightarrow> bool" where
  "is_jint v = (case v of Scalar (JInt _) \<Rightarrow> True | Scalar (JBool _) \<Rightarrow> True | _ \<Rightarrow> False)"

definition is_jstr :: "json \<Rightarrow> bool" where
  "is_jstr v = (case v of Scalar (JStr _) \<Rightarrow> True | _ \<Rightarrow> False)"

definition keep_fact :: "string \<Rightarrow> (json \<Rightarrow> bool) \<Rightarrow> (str \<times> json) list \<Rightarrow> (str \<times> json) list" where
  "keep_fact k ok facts = (if ok (jget k facts) then [(lit k, jget k facts)] else [])"

definition safe_text_fact :: "url_env \<Rightarrow> string \<Rightarrow> str list \<Rightarrow> (str \<times> json) list \<Rightarrow> exc + (str \<times> json) list" where
  "safe_text_fact E k urls facts = (case jget k facts of
     Scalar JNull \<Rightarrow> Inr [(lit k, Scalar JNull)]
   | Scalar (JStr s) \<Rightarrow> andthen (redact_url_text E (Some s) urls) (\<lambda>t.
       Inr [(lit k, case t of None \<Rightarrow> Scalar JNull | Some u \<Rightarrow> Scalar (JStr u))])
   | _ \<Rightarrow> Inr [])"

definition sanitize_url_facts :: "url_env \<Rightarrow> (str \<times> json) list \<Rightarrow> exc + (str \<times> json) list" where
  "sanitize_url_facts E facts =
     andthen (safe_current E facts) (\<lambda>(current, urls).
     andthen (case jget ''redirect_chain'' facts of Arr vs \<Rightarrow> safe_redirects E vs | _ \<Rightarrow> Inr ([], [])) (\<lambda>(redirects, more).
     andthen (safe_text_fact E ''title'' (urls @ more) facts) (\<lambda>title.
     andthen (safe_text_fact E ''text_excerpt'' (urls @ more) facts) (\<lambda>excerpt.
     Inr ((case current of None \<Rightarrow> [] | Some p \<Rightarrow> [(lit ''url'', Obj (url_json p))])
       @ [(lit ''redirect_chain'', Arr redirects)]
       @ keep_fact ''status_code'' is_jint facts @ keep_fact ''content_type'' is_jstr facts
       @ keep_fact ''content_length'' is_jint facts @ title @ excerpt)))))"

definition sanitize_facts :: "url_env \<Rightarrow> str \<Rightarrow> (str \<times> json) list \<Rightarrow> exc + (str \<times> json) list" where
  "sanitize_facts E capability facts = (if capability = lit ''url'' then sanitize_url_facts E facts else Inr facts)"

definition looks_like_url :: "url_env \<Rightarrow> str \<Rightarrow> bool" where
  "looks_like_url E s = (case urlsplit E s of
     Inl _ \<Rightarrow> False
   | Inr p \<Rightarrow> (map lower_code (su_scheme p) = lit ''http'' \<or> map lower_code (su_scheme p) = lit ''https'') \<and> hostname E p \<noteq> None)"

definition sanitize_ref :: "url_env \<Rightarrow> str \<Rightarrow> exc + str" where
  "sanitize_ref E ref = (if looks_like_url E ref
     then andthen (redact_url E ref) (\<lambda>p. Inr (lit ''url-sha256:'' @ pu_url_sha256 p)) else Inr ref)"

fun sanitize_refs :: "url_env \<Rightarrow> str list \<Rightarrow> exc + str list" where
  "sanitize_refs E [] = Inr []"
| "sanitize_refs E (r # rs) = andthen (sanitize_ref E r) (\<lambda>x. andthen (sanitize_refs E rs) (\<lambda>xs. Inr (x # xs)))"

section \<open>Splitting\<close>

lemma partition_at_found: "c \<notin> set a \<Longrightarrow> partition_at c (a @ c # b) = (a, True, b)"
proof -
  assume "c \<notin> set a"
  then have "dropWhile (\<lambda>x. x \<noteq> c) (a @ c # b) = c # b" "takeWhile (\<lambda>x. x \<noteq> c) (a @ c # b) = a"
    by (induction a) auto
  then show ?thesis by (simp add: partition_at_def)
qed

lemma partition_at_none: "c \<notin> set a \<Longrightarrow> partition_at c a = (a, False, [])"
  unfolding partition_at_def by (subst dropWhile_eq_Nil_conv[THEN iffD2]) auto

lemma partition_at_D:
  assumes "partition_at c s = (a, found, r)"
  shows "c \<notin> set a" "s = (if found then a @ c # r else a)" "\<not> found \<Longrightarrow> r = []"
proof -
  have "c \<notin> set a \<and> s = (if found then a @ c # r else a) \<and> (\<not> found \<longrightarrow> r = [])"
  proof (cases "c \<in> set s")
    case True
    then obtain x y where "s = x @ c # y" "c \<notin> set x" by (metis split_list_first)
    then show ?thesis using assms partition_at_found by auto
  qed (use assms partition_at_none in auto)
  then show "c \<notin> set a" "s = (if found then a @ c # r else a)" "\<not> found \<Longrightarrow> r = []" by auto
qed

lemma partition_at_sub: "partition_at c s = (a, found, r) \<Longrightarrow> set a \<subseteq> set s \<and> set r \<subseteq> set s"
  using partition_at_D[of c s a found r] by (auto split: if_splits)

lemma rpartition_at_D:
  assumes "rpartition_at c s = (a, found, r)"
  shows "set a \<subseteq> set s" "set r \<subseteq> set s" "c \<notin> set r" "\<not> found \<Longrightarrow> c \<notin> set s"
proof -
  obtain x b y where p: "partition_at c (rev s) = (x, b, y)" by (metis prod_cases3)
  note d = partition_at_D[OF p] and sub = partition_at_sub[OF p]
  have "set a \<subseteq> set s \<and> set r \<subseteq> set s \<and> c \<notin> set r \<and> (\<not> found \<longrightarrow> c \<notin> set s)"
    using assms p d(1,2) sub[unfolded set_rev] by (cases b) (auto simp: rpartition_at_def)
  then show "set a \<subseteq> set s" "set r \<subseteq> set s" "c \<notin> set r" "\<not> found \<Longrightarrow> c \<notin> set s" by auto
qed

text \<open>\<open>str.lower\<close> makes no ASCII character but the small letters out of others.\<close>

definition lower_ok :: "url_env \<Rightarrow> bool" where
  "lower_ok E \<longleftrightarrow> (\<forall>s. \<forall>c \<in> set (ue_lower E s). c \<in> set s \<or> (97 \<le> c \<and> c \<le> 122) \<or> 128 \<le> c)
     \<and> (\<forall>s. list_all lower_hex s \<longrightarrow> ue_lower E s = s)"

definition plain_mark :: "nat \<Rightarrow> bool" where
  "plain_mark c \<longleftrightarrow> c < 97 \<or> 122 < c \<and> c < 128"

lemma lower_okD: "lower_ok E \<Longrightarrow> c \<in> set (ue_lower E s) \<Longrightarrow> plain_mark c \<Longrightarrow> c \<in> set s"
  unfolding lower_ok_def plain_mark_def by fastforce

lemma hostinfo_host:
  assumes "c \<in> set (fst (hostinfo p))"
  shows "c \<in> set (su_netloc p) \<and> c \<noteq> 64"
proof -
  obtain x b info where i: "rpartition_at 64 (su_netloc p) = (x, b, info)" by (metis prod_cases3)
  obtain y found br where br: "partition_at 91 info = (y, found, br)" by (metis prod_cases3)
  obtain h1 f1 r1 where h1: "partition_at 93 br = (h1, f1, r1)" by (metis prod_cases3)
  obtain h2 f2 r2 where h2: "partition_at 58 info = (h2, f2, r2)" by (metis prod_cases3)
  obtain h3 f3 r3 where h3: "partition_at 58 r1 = (h3, f3, r3)" by (metis prod_cases3)
  have "c \<in> set info"
    using assms partition_at_sub[OF br] partition_at_sub[OF h1] partition_at_sub[OF h2]
    by (cases found) (auto simp: hostinfo_def i br h1 h2 h3)
  then show ?thesis using rpartition_at_D[OF i] by auto
qed

lemma host_chars:
  assumes "lower_ok E" and "c \<in> set (host_or_empty E p)" and "plain_mark c"
  shows "c \<in> set (su_netloc p) \<and> c \<noteq> 64"
proof -
  obtain h where h: "hostname E p = Some h" "c \<in> set (ue_lower E h)"
    using assms(2) by (cases "hostname E p") (auto simp: host_or_empty_def)
  have c: "c \<in> set h" by (rule lower_okD[OF assms(1) h(2) assms(3)])
  obtain a f z where p: "partition_at 37 (fst (hostinfo p)) = (a, f, z)" by (metis prod_cases3)
  have "c \<in> set a \<or> c = 37 \<and> f \<or> c \<in> set z"
    using h(1) c lower_okD[OF assms(1) _ assms(3), of a] by (auto simp: hostname_def Let_def p split: if_splits)
  then have "c \<in> set (fst (hostinfo p))" using partition_at_sub[OF p] partition_at_D(2)[OF p] by auto
  then show ?thesis by (rule hostinfo_host)
qed

definition url_delimiters :: "nat set" where
  "url_delimiters = {9, 10, 13, 35, 47, 63, 64}"

lemma authority_chars:
  assumes "lower_ok E" and "c \<in> set (authority (host_or_empty E p) port)" and "c \<in> url_delimiters"
  shows "c \<in> set (su_netloc p) \<and> c \<noteq> 64"
proof -
  have "c \<notin> set (dec n)" for n using dec_digits[of c n] assms(3) by (auto simp: url_delimiters_def)
  moreover have "c \<notin> {58, 91, 93}" using assms(3) by (auto simp: url_delimiters_def)
  ultimately have "c \<in> set (host_or_empty E p)"
    using assms(2) by (auto simp: authority_def bracket_host_def lit_def split: if_splits option.splits)
  moreover have "plain_mark c" using assms(3) by (auto simp: url_delimiters_def plain_mark_def)
  ultimately show ?thesis using host_chars[OF assms(1)] by blast
qed

lemma canonical_authority_chars:
  assumes "lower_ok E" and "c \<in> set (canonical_authority E p)" and "c \<in> url_delimiters" "c \<noteq> 64"
  shows "c \<in> set (su_netloc p)"
proof -
  obtain info f rest where i: "rpartition_at 64 (su_netloc p) = (info, f, rest)" by (metis prod_cases3)
  obtain u g pw where u: "partition_at 58 info = (u, g, pw)" by (metis prod_cases3)
  have "c \<noteq> 58" using assms(3) by (auto simp: url_delimiters_def)
  then have "c \<in> set (authority (host_or_empty E p) (public_port p)) \<or> c \<in> set u \<or> c \<in> set pw"
    using assms(2,4) by (cases f; cases g) (auto simp: canonical_authority_def userinfo_def i u lit_def)
  then show ?thesis
    using authority_chars[OF assms(1) _ assms(3)] partition_at_sub[OF u] rpartition_at_D(1)[OF i] by auto
qed

section \<open>The canonical URL\<close>

lemma urlsplit_Inr:
  assumes "urlsplit E url = Inr p"
  shows "netloc_end c \<Longrightarrow> c \<notin> set (su_netloc p)" "c \<in> {9, 10, 13} \<Longrightarrow> c \<notin> set (su_netloc p) \<union> set (su_path p) \<union> set (su_query p) \<union> set (su_fragment p)"
    "c \<in> {35, 63} \<Longrightarrow> c \<notin> set (su_path p)" "35 \<notin> set (su_query p)"
    "su_netloc p \<noteq> [] \<Longrightarrow> su_path p = [] \<or> hd (su_path p) = 47"
proof -
  obtain scheme u1 where 1: "split_scheme (sanitize_url url) = (scheme, u1)" by force
  obtain net u2 where 2: "split_netloc u1 = (net, u2)" by force
  obtain u3 f3 frag where 3: "partition_at 35 u2 = (u3, f3, frag)" by (metis prod_cases3)
  obtain path f4 query where 4: "partition_at 63 u3 = (path, f4, query)" by (metis prod_cases3)
  have p: "p = \<lparr>su_scheme = scheme, su_netloc = net, su_path = path, su_query = query, su_fragment = frag\<rparr>"
    using assms by (auto simp: urlsplit_def 1 2 3 4 andthen_Inr_iff)
  obtain a f r where a: "partition_at 58 (sanitize_url url) = (a, f, r)" by (metis prod_cases3)
  have u1: "set u1 \<subseteq> set (sanitize_url url)"
    using 1 partition_at_sub[OF a] by (auto simp: split_scheme_def a split: if_splits)
  have u2: "set net \<subseteq> set u1" "set u2 \<subseteq> set u1"
    using 2 by (auto simp: split_netloc_def split: if_splits dest: set_takeWhileD set_dropWhileD in_set_dropD)
  note s3 = partition_at_sub[OF 3] and s4 = partition_at_sub[OF 4]
  have ctl: "c \<notin> set (sanitize_url url)" if "c \<in> {9, 10, 13}" for c
    using that by (auto simp: sanitize_url_def)
  show "netloc_end c \<Longrightarrow> c \<notin> set (su_netloc p)"
    using 2 by (auto simp: p split_netloc_def split: if_splits dest: set_takeWhileD)
  show "c \<in> {9, 10, 13} \<Longrightarrow> c \<notin> set (su_netloc p) \<union> set (su_path p) \<union> set (su_query p) \<union> set (su_fragment p)"
    using ctl[of c] u1 u2 s3 s4 unfolding p by (simp only: split_url.select_convs) blast
  show "c \<in> {35, 63} \<Longrightarrow> c \<notin> set (su_path p)"
    using partition_at_D(1)[OF 3] partition_at_D(1)[OF 4] s4 by (auto simp: p)
  show "35 \<notin> set (su_query p)" using partition_at_D(1)[OF 3] s4 by (auto simp: p)
  show "su_path p = [] \<or> hd (su_path p) = 47" if "su_netloc p \<noteq> []"
  proof (cases "path = []")
    case False
    have u2': "u2 = dropWhile (\<lambda>c. \<not> netloc_end c) (drop 2 u1)" using 2 that by (auto simp: p split_netloc_def split: if_splits)
    have "u3 \<noteq> []" using False partition_at_D(2)[OF 4] by auto
    then have ne: "u2 \<noteq> []" "hd u2 = hd u3" using partition_at_D(2)[OF 3] by (auto split: if_splits)
    have "netloc_end (hd u2)" using ne(1) unfolding u2' by (metis hd_dropWhile)
    moreover have "hd u3 = hd path" using False partition_at_D(2)[OF 4] by (auto split: if_splits)
    moreover have "hd path \<notin> {35, 63}"
      using False partition_at_D(1)[OF 3] partition_at_D(1)[OF 4] s4 by (metis hd_in_set insertE singletonD subsetD)
    ultimately show ?thesis using ne by (auto simp: p netloc_end_def)
  qed (simp add: p)
qed

lemma hostname_netloc: "hostname E p \<noteq> None \<Longrightarrow> su_netloc p \<noteq> []"
proof -
  have "hostname E p = None" if "su_netloc p = []"
  proof -
    have "fst (hostinfo p) = []" using hostinfo_host that by (metis empty_iff hd_in_set list.set(1))
    then show ?thesis by (simp add: hostname_def)
  qed
  then show "hostname E p \<noteq> None \<Longrightarrow> su_netloc p \<noteq> []" by auto
qed

text \<open>Splitting a URL that was put together from clean parts gives the parts back.\<close>

lemma split_joined:
  assumes scheme: "scheme = lit ''http'' \<or> scheme = lit ''https''"
    and net: "\<And>c. netloc_end c \<or> c \<in> {9, 10, 13} \<Longrightarrow> c \<notin> set net" and path: "hd path = 47" "path \<noteq> []"
    and marks: "35 \<notin> set path" "63 \<notin> set path" "35 \<notin> set query"
    and ctl: "\<And>c. c \<in> {9, 10, 13} \<Longrightarrow> c \<notin> set path \<union> set query \<union> set fragment"
    and checks: "require_all (netloc_checks E net) = Inr ()"
  shows "urlsplit E (scheme @ lit ''://'' @ net @ path @ (if query = [] then [] else lit ''?'' @ query)
      @ (if fragment = [] then [] else lit ''#'' @ fragment))
    = Inr \<lparr>su_scheme = scheme, su_netloc = net, su_path = path, su_query = query, su_fragment = fragment\<rparr>"
proof -
  define q where "q = (if query = [] then [] else lit ''?'' @ query)"
  define f where "f = (if fragment = [] then [] else lit ''#'' @ fragment)"
  define rest where "rest = lit ''//'' @ net @ path @ q @ f"
  let ?url = "scheme @ 58 # rest"
  have sc: "58 \<notin> set scheme" "scheme \<noteq> []" "hd scheme = 104" "list_all scheme_char scheme" "map lower_code scheme = scheme"
      "\<forall>c \<in> set scheme. 32 < c"
    using scheme by (auto simp: lit_def scheme_char_def ascii_letter_code_def lower_code_def)
  have chars: "c \<notin> set q \<union> set f" if "c \<in> {9, 10, 13}" for c
    using ctl[OF that] that by (auto simp: q_def f_def lit_def)
  have clean: "\<forall>c \<in> set ?url. c \<notin> {9, 10, 13}"
    using sc(6) net ctl chars by (auto simp: rest_def lit_def)
  have san: "sanitize_url ?url = ?url"
  proof -
    have "dropWhile (\<lambda>c. c \<le> 32) ?url = ?url" using sc(2,3) by (cases scheme) auto
    then show ?thesis using clean by (simp add: sanitize_url_def filter_id_conv)
  qed
  have s: "split_scheme ?url = (scheme, rest)"
    using sc by (simp add: split_scheme_def partition_at_found ascii_letter_code_def)
  obtain path' where p: "path = 47 # path'" using path by (cases path) auto
  have n: "split_netloc rest = (net, path @ q @ f)"
  proof -
    have "\<forall>c \<in> set net. \<not> netloc_end c" using net by blast
    then show ?thesis by (simp add: split_netloc_def rest_def lit_def p netloc_end_def takeWhile_append dropWhile_append)
  qed
  have qf: "35 \<notin> set (path @ q)" using marks by (simp add: q_def lit_def)
  have fr: "partition_at 35 (path @ q @ f) = (path @ q, fragment \<noteq> [], fragment)"
  proof (cases "fragment = []")
    case False
    then have "path @ q @ f = (path @ q) @ 35 # fragment" by (simp add: f_def lit_def)
    then show ?thesis using False partition_at_found[OF qf] by simp
  qed (use partition_at_none[OF qf] in \<open>simp add: f_def\<close>)
  have qu: "partition_at 63 (path @ q) = (path, query \<noteq> [], query)"
  proof (cases "query = []")
    case False
    then have "path @ q = path @ 63 # query" by (simp add: q_def lit_def)
    then show ?thesis using False partition_at_found[OF marks(2)] by simp
  qed (use partition_at_none[OF marks(2)] in \<open>simp add: q_def\<close>)
  have "scheme @ lit ''://'' @ net @ path @ q @ f = ?url" by (simp add: rest_def lit_def)
  then show ?thesis
    unfolding q_def[symmetric] f_def[symmetric]
    by (simp add: urlsplit_def san s n fr qu checks)
qed

lemma canonical_url_shape:
  assumes "map lower_code (su_scheme p) = lit ''http'' \<or> map lower_code (su_scheme p) = lit ''https''"
    and "canonical_authority E p \<noteq> []" and "su_path p = [] \<or> hd (su_path p) = 47"
  shows "canonical_url E p = map lower_code (su_scheme p) @ lit ''://'' @ canonical_authority E p
      @ (if su_path p = [] then lit ''/'' else su_path p)
      @ (if su_query p = [] then [] else lit ''?'' @ su_query p) @ (if su_fragment p = [] then [] else lit ''#'' @ su_fragment p)"
proof -
  let ?path = "if su_path p = [] then lit ''/'' else su_path p"
  have "?path \<noteq> [] \<and> take 1 ?path = lit ''/''" using assms(3) by (cases "su_path p") (auto simp: lit_def)
  moreover have "map lower_code (su_scheme p) \<noteq> []" using assms(1) by (auto simp: lit_def)
  ultimately show ?thesis
    using assms(2) by (simp add: canonical_url_def urlunsplit_def Let_def lit_def)
qed

lemma host_nonempty: "hostname E p \<noteq> None \<Longrightarrow> host_or_empty E p \<noteq> [] \<Longrightarrow> canonical_authority E p \<noteq> []"
  by (simp add: canonical_authority_def authority_def bracket_host_def)

lemma canonical_url_splits:
  assumes "lower_ok E" and "urlsplit E url = Inr p"
    and "map lower_code (su_scheme p) = lit ''http'' \<or> map lower_code (su_scheme p) = lit ''https''"
    and "hostname E p \<noteq> None" and "host_or_empty E p \<noteq> []"
    and "require_all (netloc_checks E (canonical_authority E p)) = Inr ()"
  shows "urlsplit E (canonical_url E p) = Inr \<lparr>su_scheme = map lower_code (su_scheme p), su_netloc = canonical_authority E p,
     su_path = (if su_path p = [] then lit ''/'' else su_path p), su_query = su_query p, su_fragment = su_fragment p\<rparr>"
proof -
  note u = urlsplit_Inr[OF assms(2)]
  let ?path = "if su_path p = [] then lit ''/'' else su_path p"
  have path: "su_path p = [] \<or> hd (su_path p) = 47" by (rule u(5)[OF hostname_netloc[OF assms(4)]])
  have auth: "c \<notin> set (canonical_authority E p)" if "netloc_end c \<or> c \<in> {9, 10, 13}" for c
  proof -
    have c: "c \<in> url_delimiters" "c \<noteq> 64" using that by (auto simp: url_delimiters_def netloc_end_def)
    show ?thesis using canonical_authority_chars[OF assms(1) _ c] u(1)[of c] u(2)[of c] that by blast
  qed
  have mark: "c \<notin> set ?path" if "c \<in> {35, 63}" for c using u(3)[OF that] that by (auto simp: lit_def)
  have ctl: "c \<notin> set ?path \<union> set (su_query p) \<union> set (su_fragment p)" if "c \<in> {9, 10, 13}" for c
    using u(2)[OF that] that by (auto simp: lit_def)
  have ne: "canonical_authority E p \<noteq> []" by (rule host_nonempty[OF assms(4,5)])
  show ?thesis
    unfolding canonical_url_shape[OF assms(3) ne path]
    by (rule split_joined[OF assms(3) auth _ _ mark mark u(4) ctl assms(6)]) (use path in \<open>auto simp: lit_def\<close>)
qed

lemma redact_url_Inr:
  assumes "redact_url E url = Inr q"
  obtains p bytes where "urlsplit E (strip url) = Inr p" "encode_utf8 (canonical_url E p) = Inr bytes"
    "q = \<lparr>pu_scheme = map lower_code (su_scheme p), pu_hostname = host_or_empty E p,
       pu_origin = map lower_code (su_scheme p) @ lit ''://'' @ authority (host_or_empty E p) (public_port p),
       pu_path_redacted = (su_path p \<noteq> [] \<and> su_path p \<noteq> lit ''/''), pu_url_sha256 = ue_sha256 E bytes,
       pu_port = public_port p\<rparr>"
  using assms by (auto simp: redact_url_def andthen_Inr_iff Let_def)

lemma hostinfo_location:
  assumes "su_netloc p = info @ location" and "64 \<notin> set location" and "info = [] \<or> last info = 64"
  shows "hostinfo p = hostinfo \<lparr>su_scheme = [], su_netloc = location, su_path = [], su_query = [], su_fragment = []\<rparr>"
proof -
  have none: "64 \<notin> set (rev location)" using assms(2) by simp
  have "snd (snd (rpartition_at 64 (info @ location))) = location"
  proof (cases "info = []")
    case True
    then show ?thesis using partition_at_none[OF none] by (simp add: rpartition_at_def)
  next
    case False
    then obtain u where u: "info = u @ [64]" using assms(3) by (metis append_butlast_last_id)
    then have "rev (info @ location) = rev location @ 64 # rev u" by simp
    then show ?thesis using partition_at_found[OF none] by (simp only: rpartition_at_def) simp
  qed
  moreover have "snd (snd (rpartition_at 64 location)) = location"
    using partition_at_none[OF none] by (simp add: rpartition_at_def)
  ultimately have "snd (snd (rpartition_at 64 (su_netloc p))) = snd (snd (rpartition_at 64 location))"
    using assms(1) by simp
  then show ?thesis unfolding hostinfo_def split_beta by (simp only: split_url.simps)
qed

lemma safe_port_range: "safe_port p = Some n \<Longrightarrow> 0 \<le> n \<and> n \<le> 65535"
proof -
  have "0 \<le> foldl (\<lambda>m c. 10 * m + (int c - 48)) a s" if "list_all ascii_digit s" "0 \<le> a" for s a
    using that by (induction s arbitrary: a) (auto simp: ascii_digit_def)
  then show "safe_port p = Some n \<Longrightarrow> 0 \<le> n \<and> n \<le> 65535"
    by (auto simp: safe_port_def url_port_def int_of_digits_def andthen_Inr_iff split: sum.splits option.splits)
qed

lemma url_json_get:
  "jget ''scheme'' (url_json p) = Scalar (JStr (pu_scheme p))" "jget ''hostname'' (url_json p) = Scalar (JStr (pu_hostname p))"
  "jget ''url_sha256'' (url_json p) = Scalar (JStr (pu_url_sha256 p))"
  "jget ''path_redacted'' (url_json p) = Scalar (JBool (pu_path_redacted p))"
  "jget ''port'' (url_json p) = (case pu_port p of None \<Rightarrow> Scalar JNull | Some n \<Rightarrow> Scalar (JInt n))"
  by (simp_all add: jget_def url_json_def split: option.split)

lemma looks_like_ref: "\<not> looks_like_url E (lit ''url-sha256:'' @ s)"
proof -
  have "sanitize_url (lit ''url-sha256:'' @ s) = lit ''url-sha256'' @ 58 # filter (\<lambda>c. c \<notin> {9, 10, 13}) s"
    by (simp add: sanitize_url_def lit_def)
  moreover have "58 \<notin> set (lit ''url-sha256'')" by (simp add: lit_def)
  ultimately have "fst (split_scheme (sanitize_url (lit ''url-sha256:'' @ s))) = lit ''url-sha256''"
    by (simp add: split_scheme_def partition_at_found)
      (simp add: lit_def ascii_letter_code_def scheme_char_def ascii_digit_def lower_code_def)
  moreover have "su_scheme p = fst (split_scheme (sanitize_url u))" if "urlsplit E u = Inr p" for u p
    using that by (auto simp: urlsplit_def andthen_Inr_iff split: prod.splits)
  ultimately have "su_scheme p = lit ''url-sha256''" if "urlsplit E (lit ''url-sha256:'' @ s) = Inr p" for p
    using that by metis
  moreover have "map lower_code (lit ''url-sha256'') = lit ''url-sha256''" by (simp add: lit_def lower_code_def)
  ultimately show ?thesis by (auto simp: looks_like_url_def split: sum.split)
qed

lemma sanitize_ref_again: "sanitize_ref E r = Inr x \<Longrightarrow> sanitize_ref E x = Inr x"
  using looks_like_ref by (auto simp: sanitize_ref_def andthen_Inr_iff split: if_splits)

section \<open>Sample URLs\<close>

definition sample_url_env :: url_env where
  "sample_url_env = \<lparr>ue_brackets_ok = (\<lambda>_. True), ue_nfkc_ok = (\<lambda>_. True), ue_lower = map lower_code,
     ue_sha256 = (\<lambda>_. replicate 64 97), ue_enumerate = (\<lambda>ts. ts)\<rparr>"

definition sample_url :: str where
  "sample_url = lit ''https://u:pw@Host.example:88/a?q=1#f''"

definition sample_split :: split_url where
  "sample_split = \<lparr>su_scheme = lit ''https'', su_netloc = lit ''u:pw@Host.example:88'', su_path = lit ''/a'',
     su_query = lit ''q=1'', su_fragment = lit ''f''\<rparr>"

definition sample_public :: public_url where
  "sample_public = \<lparr>pu_scheme = lit ''https'', pu_hostname = lit ''host.example'', pu_origin = lit ''https://host.example:88'',
     pu_path_redacted = True, pu_url_sha256 = replicate 64 97, pu_port = Some 88\<rparr>"

lemma sample_env_lower: "lower_ok sample_url_env"
proof -
  have "map lower_code s = s" if "list_all lower_hex s" for s
    using that by (induction s) (auto simp: lower_hex_def ascii_digit_def lower_code_def)
  then show ?thesis by (auto simp: lower_ok_def sample_url_env_def lower_code_def)
qed

lemma sample_url_split: "urlsplit sample_url_env sample_url = Inr sample_split"
  by code_simp

lemma sample_url_public: "redact_url sample_url_env sample_url = Inr sample_public"
  by code_simp

text \<open>The stored form of a web URL passes the check of stored URLs.\<close>

lemma redacted_again:
  assumes "lower_ok E" and "\<And>bs. length (ue_sha256 E bs) = 64 \<and> list_all lower_hex (ue_sha256 E bs)"
    and "redact_url E url = Inr q" and "pu_scheme q = lit ''http'' \<or> pu_scheme q = lit ''https''" and "pu_hostname q \<noteq> []"
    and "pu_port q \<noteq> Some 0"
  shows "safe_url_metadata E (url_json q) = Inr (Some q)"
proof -
  obtain p bytes where "urlsplit E (strip url) = Inr p" "encode_utf8 (canonical_url E p) = Inr bytes"
    and q: "q = \<lparr>pu_scheme = map lower_code (su_scheme p), pu_hostname = host_or_empty E p,
       pu_origin = map lower_code (su_scheme p) @ lit ''://'' @ authority (host_or_empty E p) (public_port p),
       pu_path_redacted = (su_path p \<noteq> [] \<and> su_path p \<noteq> lit ''/''), pu_url_sha256 = ue_sha256 E bytes,
       pu_port = public_port p\<rparr>"
    using assms(3) by (rule redact_url_Inr)
  have sha: "ue_lower E (pu_url_sha256 q) = pu_url_sha256 q" "length (pu_url_sha256 q) = 64" "list_all lower_hex (pu_url_sha256 q)"
    using assms(1,2) by (auto simp: q lower_ok_def)
  have "0 < n \<and> n \<le> 65535" if "pu_port q = Some n" for n
    using safe_port_range[of p n] assms(6) that by (auto simp: q public_port_def Let_def split: if_splits) 
  then have port: "metadata_port (jget ''port'' (url_json q)) = Some (pu_port q)"
    by (cases "pu_port q") (auto simp: url_json_get)
  have "pu_origin q = pu_scheme q @ lit ''://'' @ authority (pu_hostname q) (pu_port q)" by (simp add: q)
  then show ?thesis
    using assms(4,5) sha by (simp add: safe_url_metadata_def url_json_get(1-4) port)
qed

section \<open>Properties\<close>

text \<open>
  The canonical text of a web URL, which is what its stored digest is taken of, determines the URL up to the spelling of
  its host and its default port: two URLs with the same canonical text have the same scheme, authority, path, query and
  fragment.
\<close>

theorem canonical_determines:
  assumes "lower_ok E" and "urlsplit E url = Inr p" and "urlsplit E url' = Inr p'"
    and "looks_like_url E url" and "looks_like_url E url'" and "host_or_empty E p \<noteq> []" and "host_or_empty E p' \<noteq> []"
    and "require_all (netloc_checks E (canonical_authority E p)) = Inr ()"
    and "require_all (netloc_checks E (canonical_authority E p')) = Inr ()"
    and "canonical_url E p = canonical_url E p'"
  shows "map lower_code (su_scheme p) = map lower_code (su_scheme p') \<and> canonical_authority E p = canonical_authority E p'
    \<and> (if su_path p = [] then lit ''/'' else su_path p) = (if su_path p' = [] then lit ''/'' else su_path p')
    \<and> su_query p = su_query p' \<and> su_fragment p = su_fragment p'"
proof -
  have web: "(map lower_code (su_scheme p) = lit ''http'' \<or> map lower_code (su_scheme p) = lit ''https'') \<and> hostname E p \<noteq> None"
    "(map lower_code (su_scheme p') = lit ''http'' \<or> map lower_code (su_scheme p') = lit ''https'') \<and> hostname E p' \<noteq> None"
    using assms(2-5) by (simp_all add: looks_like_url_def)
  note a = canonical_url_splits[OF assms(1,2) conjunct1[OF web(1)] conjunct2[OF web(1)] assms(6,8)]
    and b = canonical_url_splits[OF assms(1,3) conjunct1[OF web(2)] conjunct2[OF web(2)] assms(7,9)]
  show ?thesis using a b unfolding assms(10) by (simp only: sum.inject split_url.iffs)
qed

lemma canonical_determines_witness:
  "canonical_url sample_url_env sample_split = canonical_url sample_url_env sample_split
    \<longrightarrow> su_query sample_split = lit ''q=1''"
proof -
  have "looks_like_url sample_url_env sample_url" by code_simp
  moreover have "host_or_empty sample_url_env sample_split \<noteq> []" by code_simp
  moreover have "require_all (netloc_checks sample_url_env (canonical_authority sample_url_env sample_split)) = Inr ()"
    by code_simp
  ultimately show ?thesis
    using canonical_determines[OF sample_env_lower sample_url_split sample_url_split] by (simp add: sample_split_def)
qed

text \<open>
  C14. The public form of a URL tells nothing of it but scheme, host and port, whether it has a path, and a digest of its
  canonical text: two URLs with the same scheme and the same host and port in their network locations, whatever their user
  information, path, query and fragment, have the same scheme, host name, origin and port in their public forms. The host
  name, and the origin after the scheme, contain no delimiter of user information, path, query or fragment and no line
  break. What depends on the rest is the flag \<open>path_redacted\<close>, which says whether there is a path beyond \<open>/\<close>, and the digest
  \<open>url_sha256\<close>.
\<close>

theorem origin_leaks_nothing:
  assumes "lower_ok E" and "redact_url E url = Inr q" and "redact_url E url' = Inr q'"
    and "urlsplit E (strip url) = Inr p" and "urlsplit E (strip url') = Inr p'"
    and "su_scheme p = su_scheme p'" and "su_netloc p = info @ location" and "su_netloc p' = info' @ location"
    and "64 \<notin> set location" and "info = [] \<or> last info = 64" and "info' = [] \<or> last info' = 64"
  shows "(pu_scheme q, pu_hostname q, pu_origin q, pu_port q) = (pu_scheme q', pu_hostname q', pu_origin q', pu_port q')
    \<and> set (pu_hostname q) \<inter> url_delimiters = {}
    \<and> (\<exists>rest. pu_origin q = pu_scheme q @ lit ''://'' @ rest \<and> set rest \<inter> url_delimiters = {})
    \<and> pu_path_redacted q = (su_path p \<notin> {[], lit ''/''})
    \<and> (\<exists>bytes. encode_utf8 (canonical_url E p) = Inr bytes \<and> pu_url_sha256 q = ue_sha256 E bytes)"
proof -
  obtain bytes where b: "encode_utf8 (canonical_url E p) = Inr bytes"
    and q: "q = \<lparr>pu_scheme = map lower_code (su_scheme p), pu_hostname = host_or_empty E p,
       pu_origin = map lower_code (su_scheme p) @ lit ''://'' @ authority (host_or_empty E p) (public_port p),
       pu_path_redacted = (su_path p \<noteq> [] \<and> su_path p \<noteq> lit ''/''), pu_url_sha256 = ue_sha256 E bytes,
       pu_port = public_port p\<rparr>"
    using assms(2,4) by (elim redact_url_Inr) simp
  obtain bytes' where q': "q' = \<lparr>pu_scheme = map lower_code (su_scheme p'), pu_hostname = host_or_empty E p',
       pu_origin = map lower_code (su_scheme p') @ lit ''://'' @ authority (host_or_empty E p') (public_port p'),
       pu_path_redacted = (su_path p' \<noteq> [] \<and> su_path p' \<noteq> lit ''/''), pu_url_sha256 = ue_sha256 E bytes',
       pu_port = public_port p'\<rparr>"
    using assms(3,5) by (elim redact_url_Inr) simp
  have same: "hostinfo p = hostinfo p'"
    using hostinfo_location[OF assms(7,9,10)] hostinfo_location[OF assms(8,9,11)] by simp
  have host: "host_or_empty E p = host_or_empty E p'" and port: "public_port p = public_port p'"
    using same assms(6) by (simp_all add: host_or_empty_def hostname_def public_port_def safe_port_def url_port_def)
  have clean: "c \<notin> url_delimiters" if "c \<in> set (authority (host_or_empty E p) (public_port p))" for c
    using authority_chars[OF assms(1) that] urlsplit_Inr(1,2)[OF assms(4), of c]
    by (auto simp: url_delimiters_def netloc_end_def)
  have "set (host_or_empty E p) \<subseteq> set (authority (host_or_empty E p) (public_port p))"
    by (auto simp: authority_def bracket_host_def)
  then have "set (host_or_empty E p) \<inter> url_delimiters = {}" using clean by blast
  moreover have "\<exists>rest. pu_origin q = pu_scheme q @ lit ''://'' @ rest \<and> set rest \<inter> url_delimiters = {}"
    using clean by (intro exI[of _ "authority (host_or_empty E p) (public_port p)"]) (auto simp: q)
  ultimately show ?thesis using b assms(6) host port by (simp add: q q')
qed

text \<open>The sample URL and the same location without its credentials, path, query and fragment.\<close>

definition sample_bare :: public_url where
  "sample_bare = sample_public\<lparr>pu_path_redacted := False\<rparr>"

lemma sample_bare_public: "redact_url sample_url_env (lit ''https://Host.example:88'') = Inr sample_bare"
  by code_simp

lemma sample_bare_split: "urlsplit sample_url_env (strip (lit ''https://Host.example:88''))
    = Inr \<lparr>su_scheme = lit ''https'', su_netloc = lit ''Host.example:88'', su_path = [], su_query = [], su_fragment = []\<rparr>"
  by code_simp

lemma sample_strip_split: "urlsplit sample_url_env (strip sample_url) = Inr sample_split"
  by code_simp

lemma origin_leaks_nothing_witness:
  "(pu_scheme sample_public, pu_hostname sample_public, pu_origin sample_public, pu_port sample_public)
     = (pu_scheme sample_bare, pu_hostname sample_bare, pu_origin sample_bare, pu_port sample_bare)
   \<and> set (pu_hostname sample_public) \<inter> url_delimiters = {} \<and> pu_path_redacted sample_public"
proof -
  have net: "su_netloc sample_split = lit ''u:pw@'' @ lit ''Host.example:88''" "su_scheme sample_split = lit ''https''"
      "su_path sample_split \<notin> {[], lit ''/''}"
    by (simp_all add: sample_split_def lit_def)
  have "64 \<notin> set (lit ''Host.example:88'')" "lit ''u:pw@'' = [] \<or> last (lit ''u:pw@'') = 64"
      "([] :: str) = [] \<or> last ([] :: str) = 64"
    by (simp_all add: lit_def)
  note leak = origin_leaks_nothing[OF sample_env_lower sample_url_public sample_bare_public sample_strip_split sample_bare_split
      _ net(1) _ this, unfolded split_url.simps, OF net(2) append_Nil[symmetric]]
  show ?thesis using leak net(3) by blast
qed

text \<open>
  Redacting again changes nothing: the stored form of a web URL with a port other than 0 passes the check of stored
  URLs and comes out as it was, and sanitized source references are left alone.
\<close>

theorem redaction_stable:
  assumes "lower_ok E" and "\<And>bs. length (ue_sha256 E bs) = 64 \<and> list_all lower_hex (ue_sha256 E bs)"
    and "redact_url E url = Inr q" and "pu_scheme q = lit ''http'' \<or> pu_scheme q = lit ''https''" and "pu_hostname q \<noteq> []"
    and "pu_port q \<noteq> Some 0"
  shows "safe_url_metadata E (url_json q) = Inr (Some q) \<and> (sanitize_refs E refs = Inr out \<longrightarrow> sanitize_refs E out = Inr out)"
proof
  show "safe_url_metadata E (url_json q) = Inr (Some q)" by (rule redacted_again[OF assms])
  show "sanitize_refs E refs = Inr out \<longrightarrow> sanitize_refs E out = Inr out"
  proof (induction refs arbitrary: out)
    case (Cons r rs)
    then show ?case using sanitize_ref_again by (fastforce simp: andthen_Inr_iff)
  qed simp
qed

lemma redaction_stable_witness:
  "safe_url_metadata sample_url_env (url_json sample_public) = Inr (Some sample_public)"
proof -
  have "length (ue_sha256 sample_url_env bs) = 64 \<and> list_all lower_hex (ue_sha256 sample_url_env bs)" for bs
    by (simp add: sample_url_env_def lower_hex_def list_all_iff)
  from redaction_stable[OF sample_env_lower this sample_url_public] show ?thesis
    by (simp add: sample_public_def lit_eq_Nil)
qed

end
