(* ===== verification/Clamd.thy ===== *)
theory Clamd
  imports Actions ScanContract Urls
begin

text \<open>
  \<^verbatim>\<open>media_adapters/clamd_malware_scanner.py\<close> and \<^verbatim>\<open>clamd_limits.py\<close>: the scanner that streams an artifact to clamd over its
  INSTREAM protocol and reads the verdict. The sockets, the stream of the artifact, the semaphore and the clocks are
  arguments, functions on an external state that may raise; \<open>cw_sent\<close> and \<open>cw_received\<close> record the bytes of the connection and
  \<open>cw_open\<close>, \<open>cw_held\<close> count the open sockets and the held places of the semaphore. Times are microseconds.
\<close>

section \<open>Limits\<close>

record clamd_limits =
  cl_max_bytes :: int
  cl_max_concurrent_scans :: int
  cl_deadline_ms :: int
  cl_socket_timeout_ms :: int
  cl_admission_timeout_ms :: int
  cl_definitions_version :: str
  cl_definitions_fresh_at :: datetime

definition clamd_limits_checks :: "clamd_limits \<Rightarrow> (bool \<times> exc) list" where
  "clamd_limits_checks l =
     [(\<not> blank (cl_definitions_version l), ValueError ''definitions_version must not be blank''),
      (0 < cl_max_bytes l, ValueError ''max_bytes must be a positive integer''),
      (0 < cl_max_concurrent_scans l, ValueError ''max_concurrent_scans must be a positive integer''),
      (0 < cl_deadline_ms l, ValueError ''deadline_ms must be a positive integer''),
      (0 < cl_socket_timeout_ms l, ValueError ''socket_timeout_ms must be a positive integer''),
      (0 < cl_admission_timeout_ms l, ValueError ''admission_timeout_ms must be a positive integer'')]"

definition make_clamd_limits :: "clamd_limits \<Rightarrow> exc + clamd_limits" where
  "make_clamd_limits l = andthen (require_all (clamd_limits_checks l)) (\<lambda>_. Inr l)"

definition limits_from_legacy_seconds ::
  "int \<Rightarrow> int \<Rightarrow> int \<Rightarrow> int \<Rightarrow> int \<Rightarrow> str \<Rightarrow> datetime option \<Rightarrow> datetime \<Rightarrow> exc + clamd_limits" where
  "limits_from_legacy_seconds connect_us total_us admission_us max_bytes max_scans version fresh_at now =
     andthen (require (0 < connect_us \<and> 0 < total_us \<and> 0 < admission_us) (ValueError ''clamd timeouts must be finite and positive'')) (\<lambda>_.
     make_clamd_limits \<lparr>cl_max_bytes = max_bytes, cl_max_concurrent_scans = max_scans, cl_deadline_ms = max 1 (round_ms total_us),
       cl_socket_timeout_ms = max 1 (round_ms connect_us), cl_admission_timeout_ms = max 1 (round_ms admission_us),
       cl_definitions_version = version, cl_definitions_fresh_at = (case fresh_at of None \<Rightarrow> now | Some t \<Rightarrow> t)\<rparr>)"

section \<open>Endpoint\<close>

definition optional_text :: "str option \<Rightarrow> bool" where
  "optional_text v \<longleftrightarrow> v \<noteq> None \<and> v \<noteq> Some []"

definition validate_endpoint :: "url_env \<Rightarrow> str \<Rightarrow> exc + unit" where
  "validate_endpoint E endpoint =
     (let bad = Inl (ValueError ''invalid clamd endpoint'') in
      case urlsplit E endpoint of
        Inl _ \<Rightarrow> bad
      | Inr p \<Rightarrow> (case url_port p of
          Inl _ \<Rightarrow> bad
        | Inr port \<Rightarrow>
          if su_query p \<noteq> [] \<or> su_fragment p \<noteq> [] \<or> optional_text (fst (userinfo p)) \<or> optional_text (snd (userinfo p)) then bad
          else if su_scheme p = lit ''tcp'' then
            (case (hostname E p, port) of
               (Some h, Some n) \<Rightarrow>
                 if h \<noteq> [] \<and> 1 \<le> n \<and> n \<le> 65535 \<and> su_path p = [] \<and> \<not> list_ex py_isspace h then Inr () else bad
             | _ \<Rightarrow> bad)
          else if su_scheme p = lit ''unix'' then
            (if su_netloc p = [] \<and> take 1 (su_path p) = lit ''/'' \<and> su_path p \<noteq> lit ''/'' then Inr () else bad)
          else bad))"

section \<open>Results\<close>

record clamd_result =
  rt_verdict :: scan_verdict
  rt_scan_result :: scan_result_kind
  rt_rejection_code :: "scan_rejection_code option"
  rt_rejection_detail :: "string option"
  rt_snapshot :: audit_snapshot

definition clamd_snapshot :: "clamd_limits \<Rightarrow> datetime \<Rightarrow> audit_snapshot" where
  "clamd_snapshot l now =
     \<lparr>sn_scanner_backend = lit ''clamd'', sn_definitions_version = cl_definitions_version l,
      sn_definitions_fresh_at = cl_definitions_fresh_at l,
      sn_definitions_age_seconds = max 0 ((now - cl_definitions_fresh_at l) div 1000000), sn_max_bytes = cl_max_bytes l,
      sn_max_concurrent_scans = cl_max_concurrent_scans l, sn_deadline_ms = cl_deadline_ms l,
      sn_socket_timeout_ms = cl_socket_timeout_ms l\<rparr>"

definition make_clamd_result :: "clamd_limits \<Rightarrow> datetime \<Rightarrow> scan_result_kind \<Rightarrow> string option \<Rightarrow> exc + clamd_result" where
  "make_clamd_result l now result detail =
     andthen (if result = Clean then Inr None else andthen (default_scan_rejection_code result) (\<lambda>c. Inr (Some c))) (\<lambda>code.
     andthen (make_audit_snapshot (clamd_snapshot l now)) (\<lambda>snapshot.
     andthen (make_scan_verdict \<lparr>vd_status = Known result, vd_engine = sn_scanner_backend snapshot,
         vd_signature_version = Some (sn_definitions_version snapshot)\<rparr>) (\<lambda>v.
     Inr \<lparr>rt_verdict = v, rt_scan_result = result, rt_rejection_code = code, rt_rejection_detail = detail,
         rt_snapshot = snapshot\<rparr>)))"

text \<open>\<open>bytes.decode("utf-8", "strict")\<close>.\<close>

function decode_strict :: "nat list \<Rightarrow> str option" where
  "decode_strict [] = Some []"
| "decode_strict (b # bs) =
     (if b < 128 then map_option ((#) b) (decode_strict bs)
      else let n = lead_length b in
        if n \<noteq> 0 \<and> matched b (take n bs) = n then map_option ((#) (code_point b (take n bs))) (decode_strict (drop n bs)) else None)"
  by pat_completeness auto
termination
  by (relation "measure length") auto

definition MAX_RESPONSE_BYTES :: nat where "MAX_RESPONSE_BYTES = 4096"
definition CHUNK_BYTES :: nat where "CHUNK_BYTES = 65536"

definition parse_response :: "nat list \<Rightarrow> scan_result_kind \<times> string option" where
  "parse_response raw =
     (if MAX_RESPONSE_BYTES < length raw then (Error, Some ''clamd response too large'')
      else if raw = [] \<or> last raw \<noteq> 0 \<or> count_list raw 0 \<noteq> 1 then (Error, Some ''invalid clamd framing'')
      else let line = butlast raw in
        if 10 \<in> set line \<or> 13 \<in> set line then (Error, Some ''invalid clamd response'')
        else case decode_strict line of
          None \<Rightarrow> (Error, Some ''invalid clamd encoding'')
        | Some s \<Rightarrow>
          if s = lit ''stream: OK'' then (Clean, None)
          else if starts_with (lit ''stream: '') s \<and> ends_with (lit '' FOUND'') s then (Malicious, None)
          else (Error, Some ''clamd daemon error''))"

section \<open>The connection\<close>

datatype sock_failure = Sock_Timeout | Sock_OSError | Sock_Exception | Sock_Base

type_synonym ('x, 'a) sock_port = "'x \<Rightarrow> 'x \<times> (sock_failure + 'a)"

text \<open>\<open>cs_connect_ex c\<close> starts a connection to a candidate and gives its error number, \<open>cs_wait_writable\<close> is the selector and
  \<open>cs_so_error\<close> the pending error of the socket.\<close>

record ('x, 'c) clamd_service =
  cs_limits :: clamd_limits
  cs_clock :: "nat \<Rightarrow> int"
  cs_now :: "nat \<Rightarrow> datetime"
  cs_resolution_error :: "string option"
  cs_candidates :: "'c list"
  cs_acquire :: "int \<Rightarrow> ('x, bool) sock_port"
  cs_socket :: "'c \<Rightarrow> ('x, unit) sock_port"
  cs_connect_ex :: "'c \<Rightarrow> ('x, int) sock_port"
  cs_wait_writable :: "int \<Rightarrow> ('x, bool) sock_port"
  cs_so_error :: "('x, int) sock_port"
  cs_send :: "nat list \<Rightarrow> ('x, unit) sock_port"
  cs_recv :: "nat \<Rightarrow> ('x, nat list) sock_port"
  cs_read :: "nat \<Rightarrow> ('x, nat list) sock_port"
  cs_sha256 :: "nat list \<Rightarrow> str"

record media_source =
  ms_byte_size :: int
  ms_streaming_sha256 :: str
  ms_trusted :: bool

record 'x clamd_world =
  cw_ext :: 'x
  cw_tick :: nat
  cw_sent :: "nat list"
  cw_received :: "nat list"
  cw_open :: nat
  cw_held :: nat

type_synonym ('x, 'a) cact = "('x clamd_world, sock_failure, 'a) action"

definition cport :: "('x, 'a) sock_port \<Rightarrow> ('x, 'a) cact" where
  "cport p w = (case p (cw_ext w) of (x, r) \<Rightarrow> (w\<lparr>cw_ext := x\<rparr>, r))"

definition cclock :: "('x, 'c) clamd_service \<Rightarrow> ('x, int) cact" where
  "cclock S w = (w\<lparr>cw_tick := cw_tick w + 1\<rparr>, Inr (cs_clock S (cw_tick w)))"

definition send_bytes :: "('x, 'c) clamd_service \<Rightarrow> nat list \<Rightarrow> ('x, unit) cact" where
  "send_bytes S bs = bnd (cport (cs_send S bs)) (\<lambda>_ w. (w\<lparr>cw_sent := cw_sent w @ bs\<rparr>, Inr ()))"

text \<open>\<open>struct.pack("!I", n)\<close>.\<close>

definition send_length :: "('x, 'c) clamd_service \<Rightarrow> nat \<Rightarrow> ('x, unit) cact" where
  "send_length S n = (if int n < 4294967296 then send_bytes S (be32 n) else rethrow Sock_Exception)"

definition recv_bytes :: "('x, 'c) clamd_service \<Rightarrow> nat \<Rightarrow> ('x, nat list) cact" where
  "recv_bytes S n = bnd (cport (cs_recv S n)) (\<lambda>bs w. (w\<lparr>cw_received := cw_received w @ bs\<rparr>, Inr bs))"

definition open_socket :: "('x, unit) cact" where
  "open_socket w = (w\<lparr>cw_open := cw_open w + 1\<rparr>, Inr ())"

definition close_socket :: "('x, unit) cact" where
  "close_socket w = (w\<lparr>cw_open := cw_open w - 1\<rparr>, Inr ())"

definition set_remaining_timeout :: "('x, 'c) clamd_service \<Rightarrow> int \<Rightarrow> ('x, unit) cact" where
  "set_remaining_timeout S deadline = bnd (cclock S) (\<lambda>t. if deadline \<le> t then rethrow Sock_Timeout else ret ())"

definition wait_until_connected :: "('x, 'c) clamd_service \<Rightarrow> int \<Rightarrow> ('x, unit) cact" where
  "wait_until_connected S deadline =
     bnd (cclock S) (\<lambda>t.
     if deadline \<le> t then rethrow Sock_Timeout
     else bnd (cport (cs_wait_writable S (min (cl_socket_timeout_ms (cs_limits S) * 1000) (deadline - t)))) (\<lambda>ready.
       if \<not> ready then rethrow Sock_Timeout
       else bnd (cport (cs_so_error S)) (\<lambda>e. if e \<noteq> 0 then rethrow Sock_OSError else ret ())))"

text \<open>\<open>EISCONN\<close>, and the error numbers of a connection under way.\<close>

definition EISCONN :: int where "EISCONN = 106"
definition connect_pending :: "int list" where "connect_pending = [115, 11, 114, 4]"

definition connect_one :: "('x, 'c) clamd_service \<Rightarrow> int \<Rightarrow> 'c \<Rightarrow> ('x, unit) cact" where
  "connect_one S deadline c =
     bnd (cport (cs_connect_ex S c)) (\<lambda>e.
     bnd (if e = 0 \<or> e = EISCONN then ret ()
          else if e \<notin> set connect_pending then rethrow Sock_OSError
          else wait_until_connected S deadline) (\<lambda>_.
     set_remaining_timeout S deadline))"

text \<open>The candidates are tried in turn; a timeout gives up, and any other error of a socket goes on to the next. An
  exception that is neither leaves the socket open.\<close>

fun connect_any :: "('x, 'c) clamd_service \<Rightarrow> int \<Rightarrow> 'c list \<Rightarrow> ('x, unit) cact" where
  "connect_any S deadline [] = rethrow Sock_OSError"
| "connect_any S deadline (c # cs) =
     bnd (cport (cs_socket S c)) (\<lambda>_.
     bnd open_socket (\<lambda>_ w. case connect_one S deadline c w of
       (w', Inl Sock_OSError) \<Rightarrow> bnd close_socket (\<lambda>_. connect_any S deadline cs) w'
     | (w', Inl Sock_Timeout) \<Rightarrow> bnd close_socket (\<lambda>_. rethrow Sock_Timeout) w'
     | (w', r) \<Rightarrow> (w', r)))"

section \<open>The scan\<close>

text \<open>The loop over the chunks of the artifact ends because a chunk that is not empty brings the count nearer to the limit.
  None: the artifact is larger than the limit.\<close>

function stream_loop :: "('x, 'c) clamd_service \<Rightarrow> int \<Rightarrow> nat list \<Rightarrow> ('x, nat list option) cact" where
  "stream_loop S deadline content w =
     (case cport (cs_read S CHUNK_BYTES) w of
        (w1, Inl f) \<Rightarrow> (w1, Inl f)
      | (w1, Inr chunk) \<Rightarrow>
        if chunk = [] then (w1, Inr (Some content))
        else if cl_max_bytes (cs_limits S) < int (length (content @ chunk)) then (w1, Inr None)
        else (case bnd (set_remaining_timeout S deadline) (\<lambda>_. bnd (send_length S (length chunk)) (\<lambda>_. send_bytes S chunk)) w1 of
            (w2, Inl f) \<Rightarrow> (w2, Inl f)
          | (w2, Inr _) \<Rightarrow> stream_loop S deadline (content @ chunk) w2))"
  by pat_completeness auto
termination
proof (relation "measure (\<lambda>(S, d, content, w). nat (cl_max_bytes (cs_limits S) - int (length content)))", simp, clarsimp)
  fix S :: "('x, 'c) clamd_service" and content chunk :: "nat list"
  assume "chunk \<noteq> []" and le: "\<not> cl_max_bytes (cs_limits S) < int (length content) + int (length chunk)"
  then have "0 < length chunk" by simp
  then show "int (length content) < cl_max_bytes (cs_limits S)" using le by linarith
qed

function receive_response :: "('x, 'c) clamd_service \<Rightarrow> int \<Rightarrow> nat list \<Rightarrow> ('x, nat list) cact" where
  "receive_response S deadline response w =
     (if MAX_RESPONSE_BYTES < length response then (w, Inr response)
      else case bnd (set_remaining_timeout S deadline)
          (\<lambda>_. recv_bytes S (min 1024 (MAX_RESPONSE_BYTES + 1 - length response))) w of
        (w1, Inl f) \<Rightarrow> (w1, Inl f)
      | (w1, Inr chunk) \<Rightarrow> if chunk = [] then (w1, Inr response) else receive_response S deadline (response @ chunk) w1)"
  by pat_completeness auto
termination
  by (relation "measure (\<lambda>(S, d, response, w). MAX_RESPONSE_BYTES + 1 - length response)") (auto simp: neq_Nil_conv)

declare stream_loop.simps [simp del] receive_response.simps [simp del]

text \<open>What the connection is used for: a verdict that needs no answer, or the answer of the daemon.\<close>

definition exchange ::
  "('x, 'c) clamd_service \<Rightarrow> media_source \<Rightarrow> int \<Rightarrow> ('x, (scan_result_kind \<times> string option) + nat list) cact" where
  "exchange S source deadline =
     bnd (set_remaining_timeout S deadline) (\<lambda>_.
     bnd (send_bytes S (lit ''zINSTREAM'' @ [0])) (\<lambda>_.
     bnd (stream_loop S deadline []) (\<lambda>streamed. case streamed of
       None \<Rightarrow> ret (Inl (Oversize, None))
     | Some content \<Rightarrow>
       if int (length content) \<noteq> ms_byte_size source \<or> cs_sha256 S content \<noteq> ms_streaming_sha256 source
       then ret (Inl (Error, Some ''source facts mismatch''))
       else bnd (set_remaining_timeout S deadline) (\<lambda>_.
            bnd (send_length S 0) (\<lambda>_.
            bnd (receive_response S deadline []) (\<lambda>raw. ret (Inr raw)))))))"

definition verdict_of_failure :: "sock_failure \<Rightarrow> ('x, scan_result_kind \<times> string option) cact" where
  "verdict_of_failure f = (case f of
     Sock_Timeout \<Rightarrow> ret (Timeout, None)
   | Sock_OSError \<Rightarrow> ret (Unavailable, None)
   | Sock_Exception \<Rightarrow> ret (Error, Some ''clamd adapter failure'')
   | Sock_Base \<Rightarrow> rethrow Sock_Base)"

definition scan_admitted :: "('x, 'c) clamd_service \<Rightarrow> media_source \<Rightarrow> int \<Rightarrow> ('x, scan_result_kind \<times> string option) cact" where
  "scan_admitted S source deadline =
     catching
       (bnd (connect_any S deadline (cs_candidates S)) (\<lambda>_.
        bnd (finally_do (exchange S source deadline) close_socket) (\<lambda>r.
        ret (case r of Inl v \<Rightarrow> v | Inr raw \<Rightarrow> parse_response raw))))
       verdict_of_failure"

definition hold_place :: "('x, unit) cact" where
  "hold_place w = (w\<lparr>cw_held := cw_held w + 1\<rparr>, Inr ())"

definition release_place :: "('x, unit) cact" where
  "release_place w = (w\<lparr>cw_held := cw_held w - 1\<rparr>, Inr ())"

definition scan_kind :: "('x, 'c) clamd_service \<Rightarrow> media_source \<Rightarrow> ('x, scan_result_kind \<times> string option) cact" where
  "scan_kind S source =
     bnd (cclock S) (\<lambda>t.
     let l = cs_limits S; deadline = t + cl_deadline_ms l * 1000 in
     if ms_byte_size source < 0 \<or> cl_max_bytes l < ms_byte_size source then ret (Oversize, None)
     else if \<not> ms_trusted source then ret (Error, Some ''untrusted scan source'')
     else case cs_resolution_error S of
       Some e \<Rightarrow> ret (Unavailable, Some e)
     | None \<Rightarrow>
       bnd (cclock S) (\<lambda>t2.
       if deadline \<le> t2 then ret (Timeout, None)
       else bnd (cport (cs_acquire S (min (cl_admission_timeout_ms l * 1000) (deadline - t2)))) (\<lambda>admitted.
         if \<not> admitted then ret (Timeout, None)
         else bnd hold_place (\<lambda>_. finally_do (scan_admitted S source deadline) release_place))))"

definition scan :: "('x, 'c) clamd_service \<Rightarrow> media_source \<Rightarrow> ('x, exc + clamd_result) cact" where
  "scan S source =
     bnd (scan_kind S source) (\<lambda>(kind, detail) w.
       (w\<lparr>cw_tick := cw_tick w + 1\<rparr>, Inr (make_clamd_result (cs_limits S) (cs_now S (cw_tick w)) kind detail)))"

section \<open>The answer of the daemon\<close>

lemma matched_le: "matched b xs \<le> length xs"
  by (cases xs) (simp_all add: matched_def length_takeWhile_le)

lemma mod_between:
  assumes "k * m \<le> b" and "b < k * m + m"
  shows "b mod m = b - k * (m :: nat)"
proof -
  obtain c where "b = k * m + c" using assms(1) by (auto simp: le_iff_add)
  then show ?thesis using assms(2) by simp
qed

lemma decode_strict_ascii: "decode_strict bs = Some s \<Longrightarrow> list_all (\<lambda>c. c < 128) s \<Longrightarrow> bs = s"
proof (induction bs arbitrary: s rule: decode_strict.induct)
  case (2 b bs)
  show ?case
  proof (cases "b < 128")
    case True
    then show ?thesis using 2 by auto
  next
    case False
    let ?n = "lead_length b"
    have "(if ?n \<noteq> 0 \<and> matched b (take ?n bs) = ?n then map_option ((#) (code_point b (take ?n bs))) (decode_strict (drop ?n bs))
        else None) = Some s"
      using 2(3) False unfolding decode_strict.simps(2) Let_def by simp
    then have n: "?n \<noteq> 0" "matched b (take ?n bs) = ?n"
      and m: "map_option ((#) (code_point b (take ?n bs))) (decode_strict (drop ?n bs)) = Some s"
      by (metis option.distinct(1))+
    obtain t where s: "s = code_point b (take ?n bs) # t" using m by (cases "decode_strict (drop ?n bs)") (simp_all only: option.map option.inject option.distinct, blast)
    obtain x ys where x: "take ?n bs = x # ys" "second_ok b x"
      using n by (auto simp: matched_def split: list.splits if_splits)
    have big: "v \<le> foldl (\<lambda>v c. v * 64 + c mod 64) v ys" for v :: nat and ys
    proof (induction ys arbitrary: v)
      case (Cons y ys)
      have "v \<le> v * 64 + y mod 64" by simp
      also have "\<dots> \<le> foldl (\<lambda>v c. v * 64 + c mod 64) (v * 64 + y mod 64) ys" by (rule Cons)
      finally show ?case by simp
    qed simp
    have second: "128 \<le> x" "x < 192" "b = 224 \<Longrightarrow> 160 \<le> x" "b = 240 \<Longrightarrow> 144 \<le> x"
      using x(2) by (auto simp: second_ok_def continuation_def)
    let ?v = "(b mod (if b < 224 then 32 else if b < 240 then 16 else 8)) * 64 + x mod 64"
    have cp: "code_point b (take ?n bs) = foldl (\<lambda>v c. v * 64 + c mod 64) ?v ys"
      unfolding code_point_def x(1) by simp
    have xm: "x mod 64 = x - 128" using mod_between[of 2 64 x] second(1,2) by simp
    have "128 \<le> code_point b (take ?n bs)"
    proof (cases "b < 224")
      case True
      then have "194 \<le> b" using n(1) by (auto simp: lead_length_def split: if_splits)
      then have "2 \<le> b mod 32" using True mod_between[of 6 32 b] by simp
      then show ?thesis using big[of ?v ys] True unfolding cp by simp
    next
      case ge: False
      have v: "2 \<le> ?v"
      proof (cases "b = 224 \<or> b = 240")
        case True
        then show ?thesis using second xm by auto
      next
        case False
        have "b < 245" using n(1) ge by (auto simp: lead_length_def split: if_splits)
        then have "1 \<le> b mod (if b < 240 then 16 else 8)"
          using False ge mod_between[of 14 16 b] mod_between[of 30 8 b] by (cases "b < 240") simp_all
        then show ?thesis using ge by simp
      qed
      have "length (take ?n bs) = ?n"
      proof -
        have "?n \<le> length (take ?n bs)" using matched_le[of b "take ?n bs"] n(2) by simp
        then show ?thesis by simp
      qed
      moreover have "2 \<le> ?n" using ge n(1) by (auto simp: lead_length_def split: if_splits)
      ultimately obtain y zs where "ys = y # zs" using x(1) by (cases ys) auto
      then have "?v * 64 + y mod 64 \<le> code_point b (take ?n bs)" using big[of "?v * 64 + y mod 64" zs] cp by simp
      moreover have "2 * 64 \<le> ?v * 64" by (rule mult_le_mono1[OF v])
      ultimately have "2 * 64 \<le> code_point b (take ?n bs)" by (meson le_add1 order_trans)
      then show ?thesis by simp
    qed
    then show ?thesis using 2(4) s by simp
  qed
qed simp

lemma parse_response_Clean: "fst (parse_response raw) = Clean \<longleftrightarrow> raw = lit ''stream: OK'' @ [0]"
proof
  assume c: "fst (parse_response raw) = Clean"
  then have raw: "raw \<noteq> []" "last raw = 0" by (auto simp: parse_response_def split: if_splits)
  obtain s where "decode_strict (butlast raw) = Some s" "s = lit ''stream: OK''"
    using c by (auto simp: parse_response_def Let_def split: if_splits option.splits)
  moreover have "list_all (\<lambda>c. c < 128) (lit ''stream: OK'')" by (simp add: lit_def)
  ultimately have "butlast raw = lit ''stream: OK''" using decode_strict_ascii by blast
  then show "raw = lit ''stream: OK'' @ [0]" using raw by (metis append_butlast_last_id)
next
  assume raw: "raw = lit ''stream: OK'' @ [0]"
  have "decode_strict (lit ''stream: OK'') = Some (lit ''stream: OK'')" by (simp add: lit_def)
  then show "fst (parse_response raw) = Clean"
    unfolding raw by (simp add: parse_response_def MAX_RESPONSE_BYTES_def butlast_append Let_def) (simp add: lit_def)
qed

text \<open>The other verdicts: malware is reported for a line \<open>stream: ... FOUND\<close>, and everything else is an error.\<close>

lemma parse_response_kinds: "fst (parse_response raw) \<in> {Clean, Malicious, Error}"
  by (auto simp: parse_response_def Let_def split: option.split)

section \<open>What was sent\<close>

text \<open>How the daemon reads the frames of an \<open>INSTREAM\<close> command, up to the empty one.\<close>

function read_frames :: "nat list \<Rightarrow> nat list option" where
  "read_frames bs =
     (if length bs < 4 then None
      else if of_be32 bs = 0 then (if length bs = 4 then Some [] else None)
      else if length bs < 4 + of_be32 bs then None
      else map_option ((@) (fst (next_component bs))) (read_frames (snd (next_component bs))))"
  by pat_completeness auto
termination
  by (relation "measure length") (auto simp: next_component_def Let_def)

declare read_frames.simps [simp del]

definition frame :: "nat list \<Rightarrow> nat list" where
  "frame chunk = be32 (length chunk) @ chunk"

lemma length_be32 [simp]: "length (be32 n) = 4"
  by (simp add: be32_def)

lemma read_frame: "chunk \<noteq> [] \<Longrightarrow> read_frames (frame chunk @ rest) = map_option ((@) chunk) (read_frames rest)"
  by (subst read_frames.simps) (simp add: frame_def of_be32_be32 next_component_def Let_def)

lemma read_frames_end: "read_frames (be32 0) = Some []"
  using of_be32_be32[of 0 "[]"] by (subst read_frames.simps) simp

lemma read_all_frames: "list_all (\<lambda>c. c \<noteq> []) chunks \<Longrightarrow> read_frames (concat (map frame chunks) @ be32 0) = Some (concat chunks)"
  by (induction chunks) (simp_all add: read_frames_end read_frame)

interpretation sent: traced_actions "cw_sent :: 'x clamd_world \<Rightarrow> nat list" .
interpretation received: traced_actions "cw_received :: 'x clamd_world \<Rightarrow> nat list" .

lemma quiet_ports:
  "sent.quiet (cport p)" "sent.quiet (cclock S)" "sent.quiet open_socket" "sent.quiet close_socket" "sent.quiet hold_place"
  "sent.quiet release_place" "received.quiet (cport p)" "received.quiet (cclock S)" "received.quiet open_socket"
  "received.quiet close_socket" "received.quiet hold_place" "received.quiet release_place"
  by (simp_all add: sent.quiet_def received.quiet_def cport_def cclock_def open_socket_def close_socket_def hold_place_def
      release_place_def split: prod.split)

lemmas quiet_rules = quiet_ports sent.quiet_ret sent.quiet_rethrow sent.quiet_bnd sent.quiet_if
  received.quiet_ret received.quiet_rethrow received.quiet_bnd received.quiet_if

lemma quiet_timeout: "sent.quiet (set_remaining_timeout S d)" "received.quiet (set_remaining_timeout S d)"
  unfolding set_remaining_timeout_def by (intro quiet_rules)+

lemma quiet_connect_one: "sent.quiet (connect_one S d c)" "received.quiet (connect_one S d c)"
  unfolding connect_one_def wait_until_connected_def by (intro quiet_rules quiet_timeout)+

lemma connect_any_same: "cw_sent (fst (connect_any S d cs w)) = cw_sent w \<and> cw_received (fst (connect_any S d cs w)) = cw_received w"
proof (induction cs arbitrary: w)
  case (Cons c cs)
  obtain w1 r1 where 1: "cport (cs_socket S c) w = (w1, r1)" by force
  have e1: "cw_sent w1 = cw_sent w" "cw_received w1 = cw_received w"
    using sent.quietD[OF quiet_ports(1) 1] received.quietD[OF quiet_ports(7) 1] by simp_all
  let ?o = "w1\<lparr>cw_open := cw_open w1 + 1\<rparr>"
  obtain w2 r2 where 2: "connect_one S d c ?o = (w2, r2)" by force
  have e2: "cw_sent w2 = cw_sent w1" "cw_received w2 = cw_received w1"
    using sent.quietD[OF quiet_connect_one(1) 2] received.quietD[OF quiet_connect_one(2) 2] by simp_all
  show ?case
  proof (cases r1)
    case (Inl f)
    then show ?thesis using 1 e1 by (simp add: bnd_def)
  next
    case ok: (Inr u)
    then have run: "connect_any S d (c # cs) w = (case (w2, r2) of
        (w', Inl Sock_OSError) \<Rightarrow> bnd close_socket (\<lambda>_. connect_any S d cs) w'
      | (w', Inl Sock_Timeout) \<Rightarrow> bnd close_socket (\<lambda>_. rethrow Sock_Timeout) w'
      | (w', r) \<Rightarrow> (w', r))"
      using 1 2 by (simp add: bnd_def[of "cport (cs_socket S c)"] bnd_def[of open_socket] open_socket_def)
    show ?thesis
    proof (cases r2)
      case (Inl f)
      then show ?thesis
        using e1 e2 Cons[of "w2\<lparr>cw_open := cw_open w2 - 1\<rparr>"] unfolding run
        by (cases f) (simp_all add: bnd_def close_socket_def)
    qed (use e1 e2 run in simp)
  qed
qed simp

lemma emits_send: "sent.emits (send_bytes S bs) (\<lambda>r cs. r = Inr () \<longrightarrow> cs = bs)"
  unfolding send_bytes_def
  by (rule sent.emits_quiet_bnd[OF quiet_ports(1)]) (simp_all add: sent.emits_def)

lemma emits_length: "sent.emits (send_length S n) (\<lambda>r cs. r = Inr () \<longrightarrow> cs = be32 n)"
  unfolding send_length_def by (intro sent.emits_if emits_send sent.emits_rethrow) simp

lemma received_send: "received.quiet (send_bytes S bs)" "received.quiet (send_length S n)"
proof -
  have "received.quiet (\<lambda>w. (w\<lparr>cw_sent := cw_sent w @ bs\<rparr>, Inr ()))" for bs by (simp add: received.quiet_def)
  then have "received.quiet (send_bytes S bs)" for bs unfolding send_bytes_def by (intro quiet_rules)
  then show "received.quiet (send_bytes S bs)" "received.quiet (send_length S n)"
    by (simp_all add: send_length_def received.quiet_rethrow)
qed

lemma emits_chunk:
  "sent.emits (bnd (set_remaining_timeout S d) (\<lambda>_. bnd (send_length S (length chunk)) (\<lambda>_. send_bytes S chunk)))
     (\<lambda>r cs. r = Inr () \<longrightarrow> cs = frame chunk)"
  by (intro sent.emits_quiet_bnd quiet_timeout sent.emits_bnd[OF emits_length emits_send]) (simp_all add: frame_def)

lemma stream_sent:
  assumes "stream_loop S d content w = (w', r)"
  shows "(\<forall>content'. r = Inr (Some content') \<longrightarrow> (\<exists>chunks. list_all (\<lambda>c. c \<noteq> []) chunks \<and> content' = content @ concat chunks
      \<and> cw_sent w' = cw_sent w @ concat (map frame chunks)
      \<and> (chunks \<noteq> [] \<longrightarrow> int (length content') \<le> cl_max_bytes (cs_limits S))))
    \<and> (\<exists>cs. cw_sent w' = cw_sent w @ cs) \<and> cw_received w' = cw_received w"
  using assms
proof (induction S d content w arbitrary: w' r rule: stream_loop.induct)
  case (1 S d content w)
  obtain w1 r1 where 1: "cport (cs_read S CHUNK_BYTES) w = (w1, r1)" by force
  have e1: "cw_sent w1 = cw_sent w" "cw_received w1 = cw_received w"
    using sent.quietD[OF quiet_ports(1) 1] received.quietD[OF quiet_ports(7) 1] by simp_all
  note run = "1.prems"[unfolded stream_loop.simps[of S d content w] 1]
  show ?case
  proof (cases r1)
    case (Inl f)
    then have "w' = w1" "r = Inl f" using run by simp_all
    then show ?thesis using e1 by simp
  next
    case (Inr chunk)
    show ?thesis
    proof (cases "chunk = [] \<or> cl_max_bytes (cs_limits S) < int (length (content @ chunk))")
      case True
      then have "w' = w1" "r = Inr (Some content) \<or> r = Inr None" using run Inr by (auto split: if_splits)
      then show ?thesis using e1 by (auto intro: exI[of _ "[]"])
    next
      case False
      let ?m = "bnd (set_remaining_timeout S d) (\<lambda>_. bnd (send_length S (length chunk)) (\<lambda>_. send_bytes S chunk))"
      obtain w2 r2 where 2: "?m w1 = (w2, r2)" by force
      obtain cs where cs: "cw_sent w2 = cw_sent w1 @ cs" "r2 = Inr () \<Longrightarrow> cs = frame chunk"
        using sent.emitsD[OF emits_chunk 2] by auto
      have q: "received.quiet ?m" by (intro quiet_rules quiet_timeout received_send)
      have e2: "cw_received w2 = cw_received w1" by (rule received.quietD[OF q 2])
      show ?thesis
      proof (cases r2)
        case (Inl f)
        then have "w' = w2" "r = Inl f" using run \<open>r1 = Inr chunk\<close> False 2 by simp_all
        then show ?thesis using e1 e2 cs(1) by simp
      next
        case r2: (Inr u)
        then have rec: "stream_loop S d (content @ chunk) w2 = (w', r)"
          using run \<open>r1 = Inr chunk\<close> False 2 by simp
        have ne: "chunk \<noteq> []" and le: "\<not> cl_max_bytes (cs_limits S) < int (length (content @ chunk))" using False by simp_all
        note ih = "1.IH"[OF 1[symmetric] Inr ne le 2[symmetric] r2 rec]
        have f: "cw_sent w2 = cw_sent w @ frame chunk" using cs e1 r2 by simp
        have "\<exists>chunks. list_all (\<lambda>c. c \<noteq> []) chunks \<and> content' = content @ concat chunks
            \<and> cw_sent w' = cw_sent w @ concat (map frame chunks)
            \<and> (chunks \<noteq> [] \<longrightarrow> int (length content') \<le> cl_max_bytes (cs_limits S))" if "r = Inr (Some content')" for content'
        proof -
          note rec_out = ih[THEN conjunct1, rule_format, OF that]
          then obtain chunks where c: "list_all (\<lambda>c. c \<noteq> []) chunks" "content' = (content @ chunk) @ concat chunks"
              "cw_sent w' = cw_sent w2 @ concat (map frame chunks)"
              "chunks \<noteq> [] \<Longrightarrow> int (length content') \<le> cl_max_bytes (cs_limits S)"
            by (elim exE conjE) blast
          then have "int (length content') \<le> cl_max_bytes (cs_limits S)" using le by (cases "chunks = []") auto
          then show ?thesis using c ne f by (intro exI[of _ "chunk # chunks"]) simp
        qed
        moreover have "\<exists>cs. cw_sent w' = cw_sent w @ cs" using ih f by auto
        moreover have "cw_received w' = cw_received w" using ih e1 e2 by simp
        ultimately show ?thesis by blast
      qed
    qed
  qed
qed

lemma response_received:
  assumes "receive_response S d response w = (w', r)"
  shows "(\<forall>raw. r = Inr raw \<longrightarrow> (\<exists>bs. raw = response @ bs \<and> cw_received w' = cw_received w @ bs))
    \<and> (\<exists>bs. cw_received w' = cw_received w @ bs) \<and> cw_sent w' = cw_sent w"
  using assms
proof (induction S d response w arbitrary: w' r rule: receive_response.induct)
  case (1 S d response w)
  let ?m = "bnd (set_remaining_timeout S d) (\<lambda>_. recv_bytes S (min 1024 (MAX_RESPONSE_BYTES + 1 - length response)))"
  show ?case
  proof (cases "MAX_RESPONSE_BYTES < length response")
    case True
    then have "w' = w" "r = Inr response" using "1.prems" by (simp_all add: receive_response.simps[of S d response w])
    then show ?thesis by simp
  next
    case False
    obtain w1 r1 where 1: "?m w = (w1, r1)" by force
    have recv: "received.emits (recv_bytes S n) (\<lambda>r cs. \<forall>x. r = Inr x \<longrightarrow> cs = x)" for n
      unfolding recv_bytes_def by (rule received.emits_quiet_bnd[OF quiet_ports(7)]) (simp_all add: received.emits_def)
    have em: "received.emits ?m (\<lambda>r cs. \<forall>x. r = Inr x \<longrightarrow> cs = x)"
      by (intro received.emits_quiet_bnd quiet_timeout recv) simp
    obtain bs where bs: "cw_received w1 = cw_received w @ bs" "\<And>x. r1 = Inr x \<Longrightarrow> bs = x"
      using received.emitsD[OF em 1] by auto
    have "sent.quiet (\<lambda>w. (w\<lparr>cw_received := cw_received w @ bs\<rparr>, Inr bs))" for bs by (simp add: sent.quiet_def)
    then have qs: "sent.quiet ?m" unfolding recv_bytes_def by (intro quiet_rules quiet_timeout)
    have s: "cw_sent w1 = cw_sent w" by (rule sent.quietD[OF qs 1])
    note run = "1.prems"[unfolded receive_response.simps[of S d response w] 1]
    show ?thesis
    proof (cases r1)
      case (Inl f)
      then have "w' = w1" "r = Inl f" using run False by simp_all
      then show ?thesis using bs(1) s by simp
    next
      case (Inr chunk)
      show ?thesis
      proof (cases "chunk = []")
        case True
        then have "w' = w1" "r = Inr response" using run False Inr by simp_all
        then show ?thesis using bs s Inr True by simp
      next
        case ne: False
        then have rec: "receive_response S d (response @ chunk) w1 = (w', r)" using run False Inr by simp
        note ih = "1.IH"[OF False 1[symmetric] Inr ne rec]
        then show ?thesis using bs s Inr by auto
      qed
    qed
  qed
qed


lemma emits_stream:
  "sent.emits (stream_loop S d []) (\<lambda>r cs. \<forall>content. r = Inr (Some content) \<longrightarrow>
     (\<exists>chunks. list_all (\<lambda>c. c \<noteq> []) chunks \<and> content = concat chunks \<and> cs = concat (map frame chunks)))"
  unfolding sent.emits_def
proof (intro allI impI)
  fix w w' r
  assume run: "stream_loop S d [] w = (w', r)"
  note out = stream_sent[OF run]
  obtain cs where cs: "cw_sent w' = cw_sent w @ cs" using out by blast
  have "\<exists>chunks. list_all (\<lambda>c. c \<noteq> []) chunks \<and> content = concat chunks \<and> cs = concat (map frame chunks)"
    if "r = Inr (Some content)" for content
    using out[THEN conjunct1, rule_format, OF that] cs by auto
  then show "\<exists>cs. cw_sent w' = cw_sent w @ cs \<and> (\<forall>content. r = Inr (Some content) \<longrightarrow>
     (\<exists>chunks. list_all (\<lambda>c. c \<noteq> []) chunks \<and> content = concat chunks \<and> cs = concat (map frame chunks)))"
    using cs by blast
qed

lemma quiet_stream: "received.quiet (stream_loop S d content)" and quiet_receive: "sent.quiet (receive_response S d response)"
  unfolding received.quiet_def sent.quiet_def
  using stream_sent[OF surjective_pairing] response_received[OF surjective_pairing] by blast+

lemma emits_response: "received.emits (receive_response S d []) (\<lambda>r bs. \<forall>raw. r = Inr raw \<longrightarrow> bs = raw)"
  unfolding received.emits_def
proof (intro allI impI)
  fix w w' r
  assume run: "receive_response S d [] w = (w', r)"
  note out = response_received[OF run]
  obtain bs where bs: "cw_received w' = cw_received w @ bs" using out by blast
  then have "\<forall>raw. r = Inr raw \<longrightarrow> bs = raw" using out by auto
  then show "\<exists>bs. cw_received w' = cw_received w @ bs \<and> (\<forall>raw. r = Inr raw \<longrightarrow> bs = raw)" using bs by blast
qed

text \<open>The bytes of a scan that reached the daemon's answer: the command, and the frames of the content that was checked.\<close>

definition scanned :: "('x, 'c) clamd_service \<Rightarrow> media_source \<Rightarrow> nat list \<Rightarrow> bool" where
  "scanned S source cs \<longleftrightarrow> (\<exists>content frames. cs = lit ''zINSTREAM'' @ [0] @ frames \<and> read_frames frames = Some content
     \<and> int (length content) = ms_byte_size source \<and> cs_sha256 S content = ms_streaming_sha256 source)"

lemma scannedI:
  assumes "list_all (\<lambda>c. c \<noteq> []) chunks" and "int (length (concat chunks)) = ms_byte_size source"
    and "cs_sha256 S (concat chunks) = ms_streaming_sha256 source"
  shows "scanned S source ((lit ''zINSTREAM'' @ [0]) @ concat (map frame chunks) @ be32 0)"
  unfolding scanned_def using assms read_all_frames[OF assms(1)] by (metis append_assoc)

lemma exchange_emits: "sent.emits (exchange S source d) (\<lambda>r cs. \<forall>raw. r = Inr (Inr raw) \<longrightarrow> scanned S source cs)"
proof -
  have tail: "sent.emits (bnd (set_remaining_timeout S d) (\<lambda>_. bnd (send_length S 0) (\<lambda>_.
        bnd (receive_response S d []) (\<lambda>raw. ret (Inr raw)))))
      (\<lambda>r cs. \<forall>raw :: nat list. r = Inr (Inr raw :: (scan_result_kind \<times> string option) + _) \<longrightarrow> cs = be32 0)"
    by (rule sent.emits_quiet_bnd[OF quiet_timeout(1)], rule sent.emits_bnd[OF emits_length],
        rule sent.emits_quiet[where A = "\<lambda>r cs. cs = []"])
      (simp_all add: sent.quiet_bnd quiet_receive sent.quiet_ret)
  show ?thesis unfolding exchange_def
  proof (rule sent.emits_quiet_bnd[OF quiet_timeout(1)], rule sent.emits_bnd[OF emits_send])
    fix u
    show "sent.emits (bnd (stream_loop S d []) (\<lambda>streamed. case streamed of
         None \<Rightarrow> ret (Inl (Oversize, None))
       | Some content \<Rightarrow>
         if int (length content) \<noteq> ms_byte_size source \<or> cs_sha256 S content \<noteq> ms_streaming_sha256 source
         then ret (Inl (Error, Some ''source facts mismatch''))
         else bnd (set_remaining_timeout S d) (\<lambda>_. bnd (send_length S 0) (\<lambda>_.
              bnd (receive_response S d []) (\<lambda>raw. ret (Inr raw))))))
      (\<lambda>r cs. \<forall>raw. r = Inr (Inr raw) \<longrightarrow> scanned S source ((lit ''zINSTREAM'' @ [0]) @ cs))"
    proof (rule sent.emits_bnd[OF emits_stream])
      fix streamed
      show "sent.emits (case streamed of
           None \<Rightarrow> ret (Inl (Oversize, None))
         | Some content \<Rightarrow>
           if int (length content) \<noteq> ms_byte_size source \<or> cs_sha256 S content \<noteq> ms_streaming_sha256 source
           then ret (Inl (Error, Some ''source facts mismatch''))
           else bnd (set_remaining_timeout S d) (\<lambda>_. bnd (send_length S 0) (\<lambda>_.
                bnd (receive_response S d []) (\<lambda>raw. ret (Inr raw)))))
        (\<lambda>r cs. \<forall>raw :: nat list. r = Inr (Inr raw) \<longrightarrow> cs = be32 0 \<and> (\<exists>content. streamed = Some content
          \<and> int (length content) = ms_byte_size source \<and> cs_sha256 S content = ms_streaming_sha256 source))"
        using sent.emits_mono[OF tail] by (cases streamed) (auto intro!: sent.emits_ret sent.emits_if)
    qed (use scannedI in \<open>auto\<close>)
  qed auto
qed

lemma exchange_receives: "received.emits (exchange S source d) (\<lambda>r bs. \<forall>raw. r = Inr (Inr raw) \<longrightarrow> bs = raw)"
proof -
  have tail: "received.emits (bnd (set_remaining_timeout S d) (\<lambda>_. bnd (send_length S 0) (\<lambda>_.
        bnd (receive_response S d []) (\<lambda>raw. ret (Inr raw)))))
      (\<lambda>r bs. \<forall>raw :: nat list. r = Inr (Inr raw :: (scan_result_kind \<times> string option) + _) \<longrightarrow> bs = raw)"
    by (rule received.emits_quiet_bnd[OF quiet_timeout(2)], rule received.emits_quiet_bnd[OF received_send(2)],
        rule received.emits_bnd[OF emits_response, where B = "\<lambda>x r cs. cs = [] \<and> r = Inr (Inr x)"])
      (auto intro: received.emits_ret)
  show ?thesis unfolding exchange_def
    by (rule received.emits_quiet_bnd[OF quiet_timeout(2)], rule received.emits_quiet_bnd[OF received_send(1)],
        rule received.emits_quiet_bnd[OF quiet_stream])
      (auto intro!: received.emits_ret received.emits_if tail split: option.split)
qed

lemma verdict_of_failure_quiet: "sent.quiet (verdict_of_failure f)" "received.quiet (verdict_of_failure f)"
  and verdict_of_failure_unclean: "verdict_of_failure f w = (w', Inr v) \<Longrightarrow> fst v \<noteq> Clean"
  by (auto simp: verdict_of_failure_def sent.quiet_ret sent.quiet_rethrow received.quiet_ret received.quiet_rethrow
      split: sock_failure.splits)


lemma exchange_unclean:
  assumes "exchange S source d w = (w', Inr (Inl v))"
  shows "fst v \<noteq> Clean"
  using assms unfolding exchange_def by (auto dest!: bnd_result split: option.splits if_splits)

lemma connect_quiet: "sent.quiet (connect_any S d cs)" "received.quiet (connect_any S d cs)"
  by (simp_all add: sent.quiet_def received.quiet_def connect_any_same)

lemma scan_admitted_clean:
  assumes run: "scan_admitted S source d w = (w', Inr v)" and clean: "fst v = Clean"
  shows "\<exists>cs. scanned S source cs \<and> cw_sent w' = cw_sent w @ cs \<and> cw_received w' = cw_received w @ lit ''stream: OK'' @ [0]"
proof -
  let ?k = "\<lambda>_. bnd (finally_do (exchange S source d) close_socket) (\<lambda>r. ret (case r of Inl v \<Rightarrow> v | Inr raw \<Rightarrow> parse_response raw))"
  obtain w1 r1 where 1: "connect_any S d (cs_candidates S) w = (w1, r1)" by force
  have e1: "cw_sent w1 = cw_sent w" "cw_received w1 = cw_received w"
    using sent.quietD[OF connect_quiet(1) 1] received.quietD[OF connect_quiet(2) 1] by simp_all
  have nofail: False if "verdict_of_failure f u = (w', Inr v)" for f and u :: "'a clamd_world"
    using verdict_of_failure_unclean[OF that] clean by simp
  obtain x where r1: "r1 = Inr x"
    using run 1 nofail unfolding scan_admitted_def by (cases r1) (auto simp: catching_def bnd_run(2)[where m = "connect_any S d (cs_candidates S)"])
  obtain w2 r2 where 2: "exchange S source d w1 = (w2, r2)" by force
  have run': "catching (?k x) verdict_of_failure w1 = (w', Inr v)"
    using run r1 1 unfolding scan_admitted_def catching_def by (simp add: bnd_run(1)[of _ w])
  have r2: "\<exists>raw. r2 = Inr (Inr raw) \<and> v = parse_response raw \<and> w' = w2\<lparr>cw_open := cw_open w2 - 1\<rparr>"
  proof (cases r2)
    case (Inl f)
    then show ?thesis using run' 2 nofail by (auto simp: catching_def bnd_def finally_do_def close_socket_def)
  next
    case (Inr a)
    show ?thesis
    proof (cases a)
      case (Inl u)
      then have "v = u" using run' 2 Inr by (simp add: catching_def bnd_def finally_do_def close_socket_def)
      then show ?thesis using exchange_unclean[OF 2[unfolded Inr Inl]] clean by simp
    next
      case raw: (Inr raw)
      then show ?thesis using run' 2 Inr by (simp add: catching_def bnd_def finally_do_def close_socket_def)
    qed
  qed
  then obtain raw where raw: "r2 = Inr (Inr raw)" "v = parse_response raw" "w' = w2\<lparr>cw_open := cw_open w2 - 1\<rparr>" by blast
  have "raw = lit ''stream: OK'' @ [0]" using clean raw(2) parse_response_Clean[of raw] by simp
  moreover obtain cs where "cw_sent w2 = cw_sent w1 @ cs" "scanned S source cs"
    using sent.emitsD[OF exchange_emits 2] raw(1) by auto
  moreover have "cw_received w2 = cw_received w1 @ raw"
    using received.emitsD[OF exchange_receives 2] raw(1) by auto
  ultimately show ?thesis using e1 raw(3) by auto
qed

lemma scan_kind_clean:
  assumes run: "scan_kind S source w = (w', Inr v)" and clean: "fst v = Clean"
  shows "\<exists>cs. scanned S source cs \<and> cw_sent w' = cw_sent w @ cs \<and> cw_received w' = cw_received w @ lit ''stream: OK'' @ [0]
    \<and> 0 \<le> ms_byte_size source \<and> ms_byte_size source \<le> cl_max_bytes (cs_limits S)"
proof -
  let ?l = "cs_limits S" and ?t = "cs_clock S (cw_tick w)" and ?w1 = "w\<lparr>cw_tick := cw_tick w + 1\<rparr>"
  let ?d = "?t + cl_deadline_ms ?l * 1000"
  have size: "0 \<le> ms_byte_size source \<and> ms_byte_size source \<le> cl_max_bytes ?l" and rest: "ms_trusted source"
      "cs_resolution_error S = None"
    using run clean by (auto simp: scan_kind_def bnd_def cclock_def Let_def split: if_splits option.splits)
  have "\<exists>t2 w2. w2 = ?w1\<lparr>cw_tick := cw_tick w + 2\<rparr> \<and> \<not> ?d \<le> t2 \<and>
     bnd (cport (cs_acquire S (min (cl_admission_timeout_ms ?l * 1000) (?d - t2)))) (\<lambda>admitted.
         if \<not> admitted then ret (Timeout, None)
         else bnd hold_place (\<lambda>_. finally_do (scan_admitted S source ?d) release_place)) w2 = (w', Inr v)"
    using run clean size rest
    by (auto simp: scan_kind_def bnd_def[of "cclock S"] cclock_def Let_def split: if_splits)
  then obtain t2 w2 where w2: "w2 = ?w1\<lparr>cw_tick := cw_tick w + 2\<rparr>" and run2:
     "bnd (cport (cs_acquire S (min (cl_admission_timeout_ms ?l * 1000) (?d - t2)))) (\<lambda>admitted.
         if \<not> admitted then ret (Timeout, None)
         else bnd hold_place (\<lambda>_. finally_do (scan_admitted S source ?d) release_place)) w2 = (w', Inr v)" by blast
  obtain w3 admitted where 3: "cport (cs_acquire S (min (cl_admission_timeout_ms ?l * 1000) (?d - t2))) w2 = (w3, Inr admitted)"
    and run3: "(if \<not> admitted then ret (Timeout, None)
         else bnd hold_place (\<lambda>_. finally_do (scan_admitted S source ?d) release_place)) w3 = (w', Inr v)"
    using bnd_result[OF run2] by blast
  have admitted using run3 clean by (auto split: if_splits)
  define w4 where "w4 = w3\<lparr>cw_held := cw_held w3 + 1\<rparr>"
  have "finally_do (scan_admitted S source ?d) release_place w4 = (w', Inr v)"
    using run3 \<open>admitted\<close> by (simp add: bnd_def hold_place_def w4_def)
  then obtain w5 where 5: "scan_admitted S source ?d w4 = (w5, Inr v)" "w' = w5\<lparr>cw_held := cw_held w5 - 1\<rparr>"
    by (auto simp: finally_do_def release_place_def split: prod.splits)
  have "cw_sent w4 = cw_sent w \<and> cw_received w4 = cw_received w"
    using sent.quietD[OF quiet_ports(1) 3] received.quietD[OF quiet_ports(7) 3] w2 by (simp add: w4_def)
  then show ?thesis using scan_admitted_clean[OF 5(1) clean] 5(2) size by auto
qed

section \<open>Places and sockets\<close>

text \<open>What keeps the counters of open sockets and held places.\<close>

interpretation balanced: guarded_actions "\<lambda>w :: 'x clamd_world. (cw_open w, cw_held w)" "\<lambda>_. True" "(=)"
  by unfold_locales auto

abbreviation balanced :: "('x, 'a) cact \<Rightarrow> bool" where
  "balanced m \<equiv> balanced.safe (\<lambda>_. True) m (\<lambda>_ _. True)"

lemma balancedD: "balanced m \<Longrightarrow> m w = (w', r) \<Longrightarrow> cw_open w' = cw_open w \<and> cw_held w' = cw_held w"
  using balanced.safeD(2)[of "\<lambda>_. True" m "\<lambda>_ _. True" w w' r] by simp


lemma balanced_view: "(\<And>w. cw_open (fst (m w)) = cw_open w \<and> cw_held (fst (m w)) = cw_held w) \<Longrightarrow> balanced m"
  by (rule balanced.safe_view) simp_all

lemma balanced_bnd: "balanced m \<Longrightarrow> (\<And>x. balanced (k x)) \<Longrightarrow> balanced (bnd m k)"
  by (rule balanced.safe_bnd) simp_all

lemma balanced_ports: "balanced (cport p)" "balanced (cclock S)"
  by (rule balanced_view, simp add: cport_def cclock_def split: prod.split)+

lemma balanced_ret: "balanced (ret x)" and balanced_rethrow: "balanced (rethrow f)"
  by (rule balanced_view, simp)+

lemma balanced_if: "balanced m \<Longrightarrow> balanced m' \<Longrightarrow> balanced (if b then m else m')"
  by simp

lemmas balanced_rules = balanced_ports balanced_ret balanced_rethrow balanced_bnd balanced_if

lemma balanced_timeout: "balanced (set_remaining_timeout S d)"
  unfolding set_remaining_timeout_def by (intro balanced_rules)

lemma balanced_connect_one: "balanced (connect_one S d c)"
  unfolding connect_one_def wait_until_connected_def by (intro balanced_rules balanced_timeout)

lemma balanced_send: "balanced (send_bytes S bs)" "balanced (send_length S n)" "balanced (recv_bytes S k)"
proof -
  have add: "balanced (\<lambda>w. (w\<lparr>cw_sent := cw_sent w @ bs\<rparr>, Inr ()))" "balanced (\<lambda>w. (w\<lparr>cw_received := cw_received w @ bs\<rparr>, Inr bs))"
    for bs by (rule balanced_view, simp)+
  then show "balanced (send_bytes S bs)" "balanced (send_length S n)" "balanced (recv_bytes S k)"
    unfolding send_length_def send_bytes_def recv_bytes_def by (intro balanced_rules add)+
qed

lemma balanced_stream_run:
  "stream_loop S d content w = (w', r) \<Longrightarrow> cw_open w' = cw_open w \<and> cw_held w' = cw_held w"
proof (induction S d content w arbitrary: w' r rule: stream_loop.induct)
  case (1 S d content w)
  obtain w1 r1 where 1: "cport (cs_read S CHUNK_BYTES) w = (w1, r1)" by force
  note e1 = balancedD[OF balanced_ports(1) 1]
  show ?case
  proof (cases r1)
    case (Inl f)
    then show ?thesis using "1.prems" 1 e1 by (simp add: stream_loop.simps[of S d content w])
  next
    case (Inr chunk)
    let ?m = "bnd (set_remaining_timeout S d) (\<lambda>_. bnd (send_length S (length chunk)) (\<lambda>_. send_bytes S chunk))"
    obtain w2 r2 where 2: "?m w1 = (w2, r2)" by force
    have "balanced ?m" by (intro balanced_rules balanced_timeout balanced_send)
    note e2 = balancedD[OF this 2]
    have run: "chunk = [] \<or> cl_max_bytes (cs_limits S) < int (length (content @ chunk)) \<longrightarrow> w' = w1"
      "chunk \<noteq> [] \<Longrightarrow> \<not> cl_max_bytes (cs_limits S) < int (length (content @ chunk)) \<Longrightarrow>
         (case r2 of Inl f \<Rightarrow> w' = w2 | Inr _ \<Rightarrow> stream_loop S d (content @ chunk) w2 = (w', r))"
      using "1.prems" 1 2 Inr by (auto simp: stream_loop.simps[of S d content w] split: if_splits sum.splits)
    show ?thesis
    proof (cases "chunk = [] \<or> cl_max_bytes (cs_limits S) < int (length (content @ chunk))")
      case True
      then show ?thesis using run(1) e1 by simp
    next
      case False
      then show ?thesis using run(2) "1.IH"[OF 1[symmetric] Inr _ _ 2[symmetric]] e1 e2 by (cases r2) simp_all
    qed
  qed
qed

lemma balanced_receive_run:
  "receive_response S d response w = (w', r) \<Longrightarrow> cw_open w' = cw_open w \<and> cw_held w' = cw_held w"
proof (induction S d response w arbitrary: w' r rule: receive_response.induct)
  case (1 S d response w)
  let ?m = "bnd (set_remaining_timeout S d) (\<lambda>_. recv_bytes S (min 1024 (MAX_RESPONSE_BYTES + 1 - length response)))"
  obtain w1 r1 where 1: "?m w = (w1, r1)" by force
  have "balanced ?m" by (intro balanced_rules balanced_timeout balanced_send)
  note e1 = balancedD[OF this 1]
  show ?case
  proof (cases "MAX_RESPONSE_BYTES < length response")
    case True
    then show ?thesis using "1.prems" by (simp add: receive_response.simps[of S d response w])
  next
    case False
    note run = "1.prems"[unfolded receive_response.simps[of S d response w] 1]
    show ?thesis
    proof (cases r1)
      case (Inl f)
      then show ?thesis using run False e1 by simp
    next
      case (Inr chunk)
      then show ?thesis using run False e1 "1.IH"[OF False 1[symmetric] Inr] by (cases "chunk = []") simp_all
    qed
  qed
qed

lemma balanced_exchange: "balanced (exchange S source d)"
proof -
  have "balanced (stream_loop S d content)" "balanced (receive_response S d response)" for content response
    by (rule balanced_view, rule balanced_stream_run balanced_receive_run, rule surjective_pairing)+
  then show ?thesis unfolding exchange_def
    by (intro balanced_bnd balanced_timeout balanced_send) (auto intro!: balanced_rules balanced_timeout balanced_send split: option.split)
qed

text \<open>The sockets raise timeouts and operating-system errors and nothing else.\<close>

definition tame :: "('x, 'a) sock_port \<Rightarrow> bool" where
  "tame p \<longleftrightarrow> (\<forall>x. snd (p x) \<noteq> Inl Sock_Exception \<and> snd (p x) \<noteq> Inl Sock_Base)"

definition tame_connection :: "('x, 'c) clamd_service \<Rightarrow> bool" where
  "tame_connection S \<longleftrightarrow> (\<forall>c. tame (cs_connect_ex S c)) \<and> (\<forall>t. tame (cs_wait_writable S t)) \<and> tame (cs_so_error S)"

definition io_only :: "('x, 'a) cact \<Rightarrow> bool" where
  "io_only m \<longleftrightarrow> (\<forall>w f. snd (m w) = Inl f \<longrightarrow> f = Sock_Timeout \<or> f = Sock_OSError)"

lemma io_only_bnd: "io_only m \<Longrightarrow> (\<And>x. io_only (k x)) \<Longrightarrow> io_only (bnd m k)"
  unfolding io_only_def bnd_def by (auto split: prod.splits sum.splits) (metis snd_conv)+

lemma io_only_port: "tame p \<Longrightarrow> io_only (cport p)"
  unfolding io_only_def tame_def cport_def by (auto split: prod.splits) (metis snd_conv sock_failure.exhaust)

lemma io_only_clock: "io_only (cclock S)" and io_only_ret: "io_only (ret x)"
  and io_only_timeout: "io_only (rethrow Sock_Timeout)" and io_only_error: "io_only (rethrow Sock_OSError)"
  and io_only_if: "io_only m \<Longrightarrow> io_only m' \<Longrightarrow> io_only (if b then m else m')"
  by (simp_all add: io_only_def cclock_def)

lemma tame_connect_one: "tame_connection S \<Longrightarrow> io_only (connect_one S d c)"
  unfolding tame_connection_def connect_one_def wait_until_connected_def set_remaining_timeout_def
  by (elim conjE, intro io_only_bnd io_only_clock io_only_ret io_only_timeout io_only_error io_only_if io_only_port)
    simp_all


text \<open>What may be left open: one socket, by an exception of connecting that is neither a timeout nor an operating-system error.\<close>

definition sockets_left :: "('x, 'c) clamd_service \<Rightarrow> 'x clamd_world \<Rightarrow> 'x clamd_world \<Rightarrow> bool" where
  "sockets_left S w w' \<longleftrightarrow> cw_held w' = cw_held w
     \<and> (cw_open w' = cw_open w \<or> cw_open w' = cw_open w + 1 \<and> \<not> tame_connection S)"

lemma connect_balance:
  "connect_any S d cs w = (w', r) \<Longrightarrow> (case r of
     Inl _ \<Rightarrow> sockets_left S w w' | Inr _ \<Rightarrow> cw_held w' = cw_held w \<and> cw_open w' = cw_open w + 1)"
proof (induction cs arbitrary: w)
  case (Cons c cs)
  obtain w1 r1 where 1: "cport (cs_socket S c) w = (w1, r1)" by force
  note e1 = balancedD[OF balanced_ports(1) 1]
  let ?o = "w1\<lparr>cw_open := cw_open w1 + 1\<rparr>"
  obtain w2 r2 where 2: "connect_one S d c ?o = (w2, r2)" by force
  have e2: "cw_open w2 = cw_open w1 + 1 \<and> cw_held w2 = cw_held w1" using balancedD[OF balanced_connect_one 2] by simp
  show ?case
  proof (cases r1)
    case (Inl f)
    then show ?thesis using Cons.prems 1 e1 by (auto simp: bnd_def sockets_left_def)
  next
    case ok: (Inr u)
    have run: "(case (w2, r2) of
        (w', Inl Sock_OSError) \<Rightarrow> bnd close_socket (\<lambda>_. connect_any S d cs) w'
      | (w', Inl Sock_Timeout) \<Rightarrow> bnd close_socket (\<lambda>_. rethrow Sock_Timeout) w'
      | (w', r) \<Rightarrow> (w', r)) = (w', r)"
      using Cons.prems 1 2 ok by (simp add: bnd_def[of "cport (cs_socket S c)"] bnd_def[of open_socket] open_socket_def)
    show ?thesis
    proof (cases r2)
      case (Inl f)
      consider "f = Sock_Timeout" | "f = Sock_OSError" | (other) "\<not> tame_connection S" "f \<in> {Sock_Exception, Sock_Base}"
      proof (cases "tame_connection S")
        case True
        then have "f = Sock_Timeout \<or> f = Sock_OSError"
          using tame_connect_one 2 Inl unfolding io_only_def by (metis snd_conv)
        then show ?thesis using that(1,2) by blast
      next
        case False
        then show ?thesis using that by (cases f) auto
      qed
      then show ?thesis
      proof cases
        case 1
        then show ?thesis using run Inl e1 e2 by (auto simp: bnd_def close_socket_def sockets_left_def)
      next
        case 2
        then have "connect_any S d cs (w2\<lparr>cw_open := cw_open w2 - 1\<rparr>) = (w', r)"
          using run Inl by (simp add: bnd_def close_socket_def)
        then show ?thesis using Cons.IH e1 e2 by (fastforce simp: sockets_left_def split: sum.splits)
      next
        case other
        then show ?thesis using run Inl e1 e2 by (auto simp: sockets_left_def)
      qed
    qed (use e1 e2 run in auto)
  qed
qed (auto simp: sockets_left_def)

lemma scan_admitted_balance:
  assumes run: "scan_admitted S source d w = (w', r)"
  shows "sockets_left S w w'"
proof -
  obtain w1 r1 where 1: "connect_any S d (cs_candidates S) w = (w1, r1)" by force
  note e1 = connect_balance[OF 1]
  have fail: "w' = u" if "verdict_of_failure f u = (w', r)" for f and u :: "'a clamd_world"
    using that by (auto simp: verdict_of_failure_def split: sock_failure.splits)
  show ?thesis
  proof (cases r1)
    case (Inl f)
    then have "w' = w1" using run 1 fail by (auto simp: scan_admitted_def catching_def bnd_def)
    then show ?thesis using e1 Inl by simp
  next
    case (Inr u)
    obtain w2 r2 where 2: "exchange S source d w1 = (w2, r2)" by force
    have "w' = w2\<lparr>cw_open := cw_open w2 - 1\<rparr>"
      using run 1 2 Inr fail
      by (cases r2) (auto simp: scan_admitted_def catching_def bnd_def finally_do_def close_socket_def)
    then show ?thesis using e1 Inr balancedD[OF balanced_exchange 2] by (simp add: sockets_left_def)
  qed
qed

lemma balanced_left: "balanced m \<Longrightarrow> m w = (w', r) \<Longrightarrow> sockets_left S w w'"
  using balancedD[of m w w' r] by (simp add: sockets_left_def)

definition leaves :: "('x, 'c) clamd_service \<Rightarrow> ('x, 'a) cact \<Rightarrow> bool" where
  "leaves S m \<longleftrightarrow> (\<forall>w w' r. m w = (w', r) \<longrightarrow> sockets_left S w w')"

text \<open>Only the last action of a scan may leave a socket open.\<close>

lemma leaves_balanced: "balanced m \<Longrightarrow> leaves S m"
  by (simp add: leaves_def balanced_left)

lemma leaves_bnd:
  assumes "balanced m" and "\<And>x. leaves S (k x)"
  shows "leaves S (bnd m k)"
  unfolding leaves_def
proof (intro allI impI)
  fix w w' r
  assume run: "bnd m k w = (w', r)"
  obtain w1 r1 where 1: "m w = (w1, r1)" by force
  note b = balancedD[OF assms(1) 1]
  show "sockets_left S w w'"
  proof (cases r1)
    case (Inl e)
    then show ?thesis using run 1 b by (auto simp: bnd_def sockets_left_def)
  next
    case (Inr x)
    then have "sockets_left S w1 w'" using run 1 assms(2) by (auto simp: bnd_def leaves_def)
    then show ?thesis using b by (simp add: sockets_left_def)
  qed
qed

lemma leaves_if: "leaves S m \<Longrightarrow> leaves S m' \<Longrightarrow> leaves S (if b then m else m')"
  by simp

lemma scan_balance:
  assumes run: "scan S source w = (w', r)"
  shows "sockets_left S w w'"
proof -
  have admitted: "leaves S (bnd hold_place (\<lambda>_. finally_do (scan_admitted S source d) release_place))" for d
    unfolding leaves_def
  proof (intro allI impI)
    fix w w' :: "'a clamd_world" and r
    assume run: "bnd hold_place (\<lambda>_. finally_do (scan_admitted S source d) release_place) w = (w', r)"
    obtain w1 r1 where 1: "scan_admitted S source d (w\<lparr>cw_held := cw_held w + 1\<rparr>) = (w1, r1)" by force
    have "w' = w1\<lparr>cw_held := cw_held w1 - 1\<rparr>"
      using run 1 by (auto simp: bnd_def hold_place_def finally_do_def release_place_def)
    then show "sockets_left S w w'" using scan_admitted_balance[OF 1] by (simp add: sockets_left_def)
  qed
  have plain: "leaves S (ret x)" for x :: "scan_result_kind \<times> string option"
    by (intro leaves_balanced balanced_rules)
  have kind: "leaves S (scan_kind S source)" unfolding scan_kind_def Let_def option.case_eq_if
    by (intro leaves_bnd[OF balanced_ports(1)] leaves_bnd[OF balanced_ports(2)] leaves_if plain admitted)
  obtain w1 r1 where 1: "scan_kind S source w = (w1, r1)" by force
  then have "sockets_left S w w1" using kind by (simp add: leaves_def)
  moreover have "cw_open w' = cw_open w1" "cw_held w' = cw_held w1"
    using run 1 by (cases r1; auto simp: scan_def bnd_def)+
  ultimately show ?thesis by (simp add: sockets_left_def)
qed

lemma clamd_visible: "\<not> blank (lit ''clamd'')"
  by code_simp

text \<open>With valid limits, a verdict of the scanner is always made into a result.\<close>

lemma clamd_result_valid:
  assumes "make_clamd_limits l = Inr l'"
  shows "\<exists>x. make_clamd_result l now kind detail = Inr x \<and> rt_scan_result x = kind
     \<and> rt_rejection_code x = (if kind = Clean then None else DEFAULT_SCAN_REJECTION_CODES kind)"
proof -
  have l: "\<forall>c \<in> set (clamd_limits_checks l). fst c"
    using assms by (auto simp: make_clamd_limits_def list_all_iff andthen_Inr_iff)
  have a: "require_all (audit_snapshot_checks (clamd_snapshot l now)) = Inr ()"
    using l by (simp add: clamd_visible audit_snapshot_checks_def clamd_snapshot_def clamd_limits_checks_def)
  have s: "make_audit_snapshot (clamd_snapshot l now) = Inr (clamd_snapshot l now)" unfolding make_audit_snapshot_def a by simp
  have v: "make_scan_verdict \<lparr>vd_status = st, vd_engine = sn_scanner_backend (clamd_snapshot l now),
      vd_signature_version = Some (sn_definitions_version (clamd_snapshot l now))\<rparr> = Inr
      \<lparr>vd_status = st, vd_engine = sn_scanner_backend (clamd_snapshot l now),
      vd_signature_version = Some (sn_definitions_version (clamd_snapshot l now))\<rparr>" for st
    using l by (simp add: clamd_visible require_all.simps(2) make_scan_verdict_def clamd_snapshot_def clamd_limits_checks_def)
  show ?thesis unfolding make_clamd_result_def s
    by (cases kind) (simp_all add: v default_scan_rejection_code_def)
qed


lemma scan_kind_raises:
  assumes acquire: "\<And>t x. \<exists>x' b. cs_acquire S t x = (x', Inr b)" and run: "scan_kind S source w = (w', Inl f)"
  shows "f = Sock_Base"
proof -
  have only: "f = Sock_Base" if "bnd m k w = (w', Inl f)" "\<And>w w' f. m w \<noteq> (w', Inl f)"
      "\<And>x w w' f. k x w = (w', Inl f) \<Longrightarrow> f = Sock_Base"
    for m :: "('a, 'd) cact" and k :: "'d \<Rightarrow> ('a, 'e) cact" and w w' f
    using that by (auto simp: bnd_def split: prod.splits sum.splits)
  have total: "cclock S w \<noteq> (w', Inl f)" "cport (cs_acquire S t) w \<noteq> (w', Inl f)" "hold_place w \<noteq> (w', Inl f)" for t w w' f
    using acquire[of t "cw_ext w"] by (auto simp: cclock_def cport_def hold_place_def split: prod.split)
  have admitted: "f = Sock_Base" if r: "finally_do (scan_admitted S source d) release_place w = (w', Inl f)" for d w w' f
  proof -
    obtain w1 where "scan_admitted S source d w = (w1, Inl f)"
      using r by (auto simp: finally_do_def release_place_def split: prod.splits)
    then show ?thesis
      by (auto simp: scan_admitted_def catching_def verdict_of_failure_def split: prod.splits sum.splits sock_failure.splits)
  qed
  show ?thesis using run unfolding scan_kind_def Let_def
    by (auto elim!: only[OF _ total(1)] only[OF _ total(2)] only[OF _ total(3)] admitted split: if_splits option.splits)
qed

section \<open>Properties\<close>

text \<open>C11. A scan is reported clean only if the connection carried the \<open>zINSTREAM\<close> command, then frames that the daemon reads
  as a content with the size and the digest that the source states, no larger than the limit, and the daemon answered
  exactly \<open>stream: OK\<close>, ended by a null byte.\<close>

theorem clean_means_scanned:
  assumes "scan S source w = (w', Inr (Inr result))" and "rt_scan_result result = Clean"
  shows "\<exists>content frames. cw_sent w' = cw_sent w @ lit ''zINSTREAM'' @ [0] @ frames \<and> read_frames frames = Some content
    \<and> cw_received w' = cw_received w @ lit ''stream: OK'' @ [0]
    \<and> int (length content) = ms_byte_size source \<and> cs_sha256 S content = ms_streaming_sha256 source
    \<and> int (length content) \<le> cl_max_bytes (cs_limits S)"
proof -
  obtain w1 kind detail where 1: "scan_kind S source w = (w1, Inr (kind, detail))"
    and w': "w' = w1\<lparr>cw_tick := cw_tick w1 + 1\<rparr>"
    and m: "make_clamd_result (cs_limits S) (cs_now S (cw_tick w1)) kind detail = Inr result"
    using assms(1) by (auto simp: scan_def dest!: bnd_result)
  have "rt_scan_result result = kind"
    using m by (auto simp: make_clamd_result_def andthen_Inr_iff)
  then have "fst (kind, detail) = Clean" using assms(2) by simp
  then show ?thesis using scan_kind_clean[OF 1] w' unfolding scanned_def by auto
qed

text \<open>C12. No failure of the connection or of the artifact's stream escapes from a scan: with valid limits, it gives a result, with
  a rejection code unless the verdict is clean, and the one thing it raises is an exception that is not an \<open>Exception\<close>. The
  hypothesis on \<open>cs_acquire\<close> is that taking a place of the semaphore raises nothing.\<close>

theorem scan_always_answers:
  assumes "make_clamd_limits (cs_limits S) = Inr l" and "\<And>t x. \<exists>x' b. cs_acquire S t x = (x', Inr b)"
    and "scan S source w = (w', r)"
  shows "r = Inl Sock_Base \<or> (\<exists>result. r = Inr (Inr result)
    \<and> rt_rejection_code result = (if rt_scan_result result = Clean then None else DEFAULT_SCAN_REJECTION_CODES (rt_scan_result result)))"
proof -
  obtain w1 k where 1: "scan_kind S source w = (w1, k)" by force
  show ?thesis
  proof (cases k)
    case (Inl f)
    then have "f = Sock_Base" using scan_kind_raises[OF assms(2)] 1 by blast
    then show ?thesis using assms(3) 1 Inl by (simp add: scan_def bnd_def)
  next
    case (Inr v)
    obtain kind detail where v: "v = (kind, detail)" by force
    have "r = Inr (make_clamd_result (cs_limits S) (cs_now S (cw_tick w1)) kind detail)"
      using assms(3) 1 Inr v by (auto simp: scan_def bnd_def)
    then show ?thesis using clamd_result_valid[OF assms(1)] by metis
  qed
qed

text \<open>C13. A scan always gives back the place of the semaphore that it took, whatever the outcome. It closes every socket
  that it opened, if connecting a socket raises timeouts and operating-system errors only; any other exception of connecting
  leaves one socket open at most.\<close>

theorem scan_releases:
  assumes "scan S source w = (w', r)"
  shows "cw_held w' = cw_held w \<and> cw_open w' \<in> {cw_open w, cw_open w + 1}
    \<and> (tame_connection S \<longrightarrow> cw_open w' = cw_open w)"
  using scan_balance[OF assms] by (auto simp: sockets_left_def)

text \<open>A daemon that reads the stream and answers: the external state is what is left of the artifact and of the answer.\<close>

definition sample_clamd :: "(nat list \<times> nat list, nat) clamd_service" where
  "sample_clamd = \<lparr>cs_limits = \<lparr>cl_max_bytes = 100, cl_max_concurrent_scans = 2, cl_deadline_ms = 1000, cl_socket_timeout_ms = 500,
       cl_admission_timeout_ms = 100, cl_definitions_version = lit ''27400'', cl_definitions_fresh_at = 0\<rparr>,
     cs_clock = (\<lambda>n. int n), cs_now = (\<lambda>n. int n), cs_resolution_error = None, cs_candidates = [1],
     cs_acquire = (\<lambda>t x. (x, Inr True)), cs_socket = (\<lambda>c x. (x, Inr ())), cs_connect_ex = (\<lambda>c x. (x, Inr 115)),
     cs_wait_writable = (\<lambda>t x. (x, Inr True)), cs_so_error = (\<lambda>x. (x, Inr 0)), cs_send = (\<lambda>bs x. (x, Inr ())),
     cs_recv = (\<lambda>n x. ((fst x, drop n (snd x)), Inr (take n (snd x)))),
     cs_read = (\<lambda>n x. ((drop n (fst x), snd x), Inr (take n (fst x)))), cs_sha256 = (\<lambda>bs. bs)\<rparr>"

definition sample_clamd_world :: "nat list \<Rightarrow> (nat list \<times> nat list) clamd_world" where
  "sample_clamd_world answer = \<lparr>cw_ext = ([80, 78, 71], answer), cw_tick = 0, cw_sent = [], cw_received = [], cw_open = 0, cw_held = 0\<rparr>"

definition sample_source :: media_source where
  "sample_source = \<lparr>ms_byte_size = 3, ms_streaming_sha256 = [80, 78, 71], ms_trusted = True\<rparr>"


definition sample_answer :: "nat list" where
  "sample_answer = lit ''stream: OK'' @ [0]"

text \<open>What a run gives, as far as it can be compared.\<close>

fun outcome_kind :: "sock_failure + (exc + clamd_result) \<Rightarrow> scan_result_kind option" where
  "outcome_kind (Inr (Inr r)) = Some (rt_scan_result r)"
| "outcome_kind _ = None"

lemma outcome_kind_Some: "outcome_kind r = Some k \<Longrightarrow> \<exists>x. r = Inr (Inr x) \<and> rt_scan_result x = k"
  by (cases r rule: outcome_kind.cases) auto

lemma sample_tame: "tame_connection sample_clamd"
  by (simp add: tame_connection_def tame_def sample_clamd_def)

lemma sample_limits: "\<exists>l. make_clamd_limits (cs_limits sample_clamd) = Inr l"
proof -
  have "list_all fst (clamd_limits_checks (cs_limits sample_clamd))" by code_simp
  then show ?thesis by (auto simp: make_clamd_limits_def andthen_Inr_iff)
qed

lemma sample_limits_of: "cs_limits sample_clamd = \<lparr>cl_max_bytes = 100, cl_max_concurrent_scans = 2, cl_deadline_ms = 1000,
     cl_socket_timeout_ms = 500, cl_admission_timeout_ms = 100, cl_definitions_version = lit ''27400'', cl_definitions_fresh_at = 0\<rparr>"
  "cs_clock sample_clamd = (\<lambda>n. int n)" "cs_resolution_error sample_clamd = None" "cs_acquire sample_clamd = (\<lambda>t x. (x, Inr True))"
  by (simp_all add: sample_clamd_def)

lemma parse_response_detail: "fst (parse_response raw) = Clean \<Longrightarrow> snd (parse_response raw) = None"
  by (auto simp: parse_response_def Let_def split: option.splits if_splits)

lemma sample_scan_clean: "outcome_kind (snd (scan sample_clamd sample_source (sample_clamd_world sample_answer))) = Some Clean"
proof -
  let ?w = "sample_clamd_world sample_answer"
  have parse: "parse_response sample_answer = (Clean, None)"
    using parse_response_Clean[of sample_answer] parse_response_detail[of sample_answer] by (simp add: sample_answer_def prod_eq_iff)
  have admitted: "\<exists>w1. scan_admitted sample_clamd sample_source 1000000 w = (w1, Inr (Clean, None))"
    if "cw_ext w = ([80, 78, 71], sample_answer)" "cw_tick w = Suc (Suc 0)" for w
    using that parse by (simp add: scan_admitted_def sample_clamd_def sample_source_def catching_def bnd_def finally_do_def cport_def
        connect_one_def EISCONN_def connect_pending_def wait_until_connected_def cclock_def set_remaining_timeout_def open_socket_def
        exchange_def send_bytes_def send_length_def stream_loop.simps receive_response.simps recv_bytes_def close_socket_def
        sample_answer_def MAX_RESPONSE_BYTES_def CHUNK_BYTES_def)
  let ?w2 = "?w\<lparr>cw_tick := Suc (Suc 0), cw_held := 1\<rparr>"
  obtain w1 where w1: "scan_admitted sample_clamd sample_source 1000000 ?w2 = (w1, Inr (Clean, None))"
    using admitted[of ?w2] by (auto simp: sample_clamd_world_def)
  have "scan_kind sample_clamd sample_source ?w = (w1\<lparr>cw_held := cw_held w1 - 1\<rparr>, Inr (Clean, None))"
    using w1 unfolding scan_kind_def Let_def
    by (simp add: bnd_def cclock_def cport_def hold_place_def finally_do_def release_place_def sample_clamd_world_def sample_limits_of
        sample_source_def)
  moreover obtain l where "make_clamd_limits (cs_limits sample_clamd) = Inr l" using sample_limits by blast
  ultimately show ?thesis
    using clamd_result_valid[of "cs_limits sample_clamd" l "cs_now sample_clamd (cw_tick w1)" Clean None]
    by (auto simp: scan_def bnd_def)
qed


theorem clean_means_scanned_witness:
  "\<exists>content frames. cw_sent (fst (scan sample_clamd sample_source (sample_clamd_world sample_answer))) = lit ''zINSTREAM'' @ [0] @ frames
     \<and> read_frames frames = Some content \<and> length content = 3"
proof -
  obtain x where x: "scan sample_clamd sample_source (sample_clamd_world sample_answer)
      = (fst (scan sample_clamd sample_source (sample_clamd_world sample_answer)), Inr (Inr x))" "rt_scan_result x = Clean"
    using outcome_kind_Some[OF sample_scan_clean] by (metis prod.collapse)
  have start: "cw_sent (sample_clamd_world sample_answer) = []" "ms_byte_size sample_source = 3"
    by (simp_all add: sample_clamd_world_def sample_source_def)
  show ?thesis using clean_means_scanned[OF x, unfolded start] by auto
qed

theorem scan_always_answers_witness:
  "\<exists>r. snd (scan sample_clamd sample_source (sample_clamd_world sample_answer)) = r \<and> r \<noteq> Inl Sock_OSError \<and> r \<noteq> Inl Sock_Timeout"
proof -
  obtain l where l: "make_clamd_limits (cs_limits sample_clamd) = Inr l" using sample_limits by blast
  have "\<exists>x' b. cs_acquire sample_clamd t x = (x', Inr b)" for t x by (auto simp: sample_limits_of)
  from scan_always_answers[OF l this surjective_pairing, of sample_source "sample_clamd_world sample_answer"]
  show ?thesis by auto
qed

theorem scan_releases_witness:
  "cw_open (fst (scan sample_clamd sample_source (sample_clamd_world sample_answer))) = 0
   \<and> cw_held (fst (scan sample_clamd sample_source (sample_clamd_world sample_answer))) = 0"
  using scan_releases[OF surjective_pairing, of sample_clamd sample_source "sample_clamd_world sample_answer"] sample_tame
  by (simp add: sample_clamd_world_def)

end
