(* ===== verification/Addresses.thy ===== *)
theory Addresses
  imports
    Urls
    "HOL-Library.Word"
begin

text \<open>
  Internet addresses: what the program uses of \<^verbatim>\<open>ipaddress\<close> (Python 3.12) and of \<open>socket.inet_aton\<close>, and the
  address part of \<^verbatim>\<open>openhands_runtime/tools/url_safety.py\<close>. An address is a machine word of 32 or 128 bits; the
  scope of an IPv6 address is kept as text.
\<close>

section \<open>Networks\<close>

datatype ip_address = V4 "32 word" | V6 "128 word" "str option"

text \<open>\<open>address in network\<close>: the first \<open>n\<close> bits agree.\<close>

definition in_net4 :: "32 word \<Rightarrow> int \<times> nat \<Rightarrow> bool" where
  "in_net4 a net = (drop_bit (32 - snd net) a = drop_bit (32 - snd net) (word_of_int (fst net)))"

definition in_net6 :: "128 word \<Rightarrow> int \<times> nat \<Rightarrow> bool" where
  "in_net6 a net = (drop_bit (128 - snd net) a = drop_bit (128 - snd net) (word_of_int (fst net)))"

definition dotted :: "int \<Rightarrow> int \<Rightarrow> int \<Rightarrow> int \<Rightarrow> int" where
  "dotted a b c d = ((a * 256 + b) * 256 + c) * 256 + d"

definition hextets :: "int list \<Rightarrow> int" where
  "hextets hs = foldl (\<lambda>v h. v * 65536 + h) 0 hs * 65536 ^ (8 - length hs)"

definition private4 :: "(int \<times> nat) list" where
  "private4 = [(dotted 0 0 0 0, 8), (dotted 10 0 0 0, 8), (dotted 127 0 0 0, 8), (dotted 169 254 0 0, 16),
     (dotted 172 16 0 0, 12), (dotted 192 0 0 0, 24), (dotted 192 0 0 170, 31), (dotted 192 0 2 0, 24),
     (dotted 192 168 0 0, 16), (dotted 198 18 0 0, 15), (dotted 198 51 100 0, 24), (dotted 203 0 113 0, 24),
     (dotted 240 0 0 0, 4), (dotted 255 255 255 255, 32)]"

definition private4_exceptions :: "(int \<times> nat) list" where
  "private4_exceptions = [(dotted 192 0 0 9, 32), (dotted 192 0 0 10, 32)]"

definition is_private4 :: "32 word \<Rightarrow> bool" where
  "is_private4 a \<longleftrightarrow> list_ex (in_net4 a) private4 \<and> \<not> list_ex (in_net4 a) private4_exceptions"

definition blocked4 :: "32 word \<Rightarrow> bool" where
  "blocked4 a \<longleftrightarrow> is_private4 a \<or> in_net4 a (dotted 127 0 0 0, 8) \<or> in_net4 a (dotted 169 254 0 0, 16)
     \<or> in_net4 a (dotted 224 0 0 0, 4) \<or> a = 0 \<or> in_net4 a (dotted 240 0 0 0, 4)"

definition private6 :: "(int \<times> nat) list" where
  "private6 = [(1, 128), (0, 128), (hextets [0, 0, 0, 0, 0, 65535], 96), (hextets [100, 65435, 1], 48), (hextets [256], 64),
     (hextets [8193], 23), (hextets [8193, 3512], 32), (hextets [8194], 16), (hextets [64512], 7), (hextets [65152], 10)]"

definition private6_exceptions :: "(int \<times> nat) list" where
  "private6_exceptions = [(hextets [8193, 1] + 1, 128), (hextets [8193, 1] + 2, 128), (hextets [8193, 3], 32),
     (hextets [8193, 4, 274], 48), (hextets [8193, 32], 28), (hextets [8193, 48], 28)]"

definition reserved6 :: "(int \<times> nat) list" where
  "reserved6 = [(0, 8), (hextets [256], 8), (hextets [512], 7), (hextets [1024], 6), (hextets [2048], 5), (hextets [4096], 4),
     (hextets [16384], 3), (hextets [24576], 3), (hextets [32768], 3), (hextets [40960], 3), (hextets [49152], 3),
     (hextets [57344], 4), (hextets [61440], 5), (hextets [63488], 6), (hextets [65024], 9)]"

text \<open>An IPv4-mapped address is as private as the address that it maps.\<close>

definition ipv4_mapped :: "128 word \<Rightarrow> 32 word option" where
  "ipv4_mapped a = (if drop_bit 32 a = 65535 then Some (ucast a) else None)"

definition is_private6 :: "128 word \<Rightarrow> bool" where
  "is_private6 a \<longleftrightarrow> (case ipv4_mapped a of
     Some b \<Rightarrow> is_private4 b
   | None \<Rightarrow> list_ex (in_net6 a) private6 \<and> \<not> list_ex (in_net6 a) private6_exceptions)"

definition blocked6 :: "128 word \<Rightarrow> bool" where
  "blocked6 a \<longleftrightarrow> is_private6 a \<or> a = 1 \<or> in_net6 a (hextets [65152], 10) \<or> in_net6 a (hextets [65280], 8) \<or> a = 0
     \<or> list_ex (in_net6 a) reserved6"

definition is_blocked :: "ip_address \<Rightarrow> bool" where
  "is_blocked address = (case address of V4 a \<Rightarrow> blocked4 a | V6 a _ \<Rightarrow> blocked6 a)"

section \<open>Texts\<close>

definition parse_octet :: "str \<Rightarrow> int option" where
  "parse_octet s =
     (if s = [] \<or> \<not> list_all ascii_digit s \<or> 3 < length s \<or> s \<noteq> lit ''0'' \<and> take 1 s = lit ''0'' \<or> 255 < int_of_digits s
      then None else Some (int_of_digits s))"

fun all_some :: "'a option list \<Rightarrow> 'a list option" where
  "all_some [] = Some []"
| "all_some (None # xs) = None"
| "all_some (Some x # xs) = map_option ((#) x) (all_some xs)"

definition parse_v4 :: "str \<Rightarrow> int option" where
  "parse_v4 s = (case all_some (map parse_octet (split_at 46 s)) of
     Some [a, b, c, d] \<Rightarrow> Some (dotted a b c d) | _ \<Rightarrow> None)"

definition parse_hextet :: "str \<Rightarrow> int option" where
  "parse_hextet s = (if s \<noteq> [] \<and> list_all is_hex s \<and> length s \<le> 4
     then Some (foldl (\<lambda>v c. 16 * v + int (hex_value c)) 0 s) else None)"

text \<open>The parts of an IPv6 text between the colons: empty, a number, or neither. A dotted last part stands for two.\<close>

datatype v6_part = Empty_Part | Num_Part int | Bad_Part

definition v6_part_of :: "str \<Rightarrow> v6_part" where
  "v6_part_of s = (if s = [] then Empty_Part else case parse_hextet s of None \<Rightarrow> Bad_Part | Some n \<Rightarrow> Num_Part n)"

definition v6_parts :: "str \<Rightarrow> v6_part list option" where
  "v6_parts s = (let parts = split_at 58 s; l = last parts in
     if length parts < 3 then None
     else if 46 \<notin> set l then Some (map v6_part_of parts)
     else map_option (\<lambda>n. map v6_part_of (butlast parts) @ [Num_Part (n div 65536), Num_Part (n mod 65536)]) (parse_v4 l))"

fun part_value :: "v6_part \<Rightarrow> int option" where
  "part_value (Num_Part n) = Some n"
| "part_value _ = None"

definition v6_value :: "v6_part list \<Rightarrow> int option" where
  "v6_value ps = map_option (\<lambda>hs. hextets hs) (all_some (map part_value ps))"

text \<open>The inner empty parts: one of them stands for the zeros that are left out, and then takes an empty end with it.\<close>

definition v6_of_parts :: "v6_part list \<Rightarrow> int option" where
  "v6_of_parts ps =
     (let inner = filter (\<lambda>i. ps ! i = Empty_Part) [1..<length ps - 1] in
      if 9 < length ps then None
      else case inner of
        [] \<Rightarrow> if length ps = 8 then v6_value ps else None
      | [i] \<Rightarrow>
          (let hi = (if hd ps = Empty_Part \<and> i = 1 then [] else take i ps);
               lo = (if last ps = Empty_Part \<and> length ps = i + 2 then [] else drop (i + 1) ps)
           in if length hi + length lo \<le> 7
              then v6_value (hi @ replicate (8 - (length hi + length lo)) (Num_Part 0) @ lo) else None)
      | _ \<Rightarrow> None)"

definition parse_v6 :: "str \<Rightarrow> (int \<times> str option) option" where
  "parse_v6 s = (case partition_at 37 s of (addr, found, scope) \<Rightarrow>
     if 47 \<in> set s \<or> found \<and> (scope = [] \<or> 37 \<in> set scope) then None
     else (case v6_parts addr of None \<Rightarrow> None
       | Some ps \<Rightarrow> map_option (\<lambda>n. (n, if found then Some scope else None)) (v6_of_parts ps)))"

text \<open>\<open>ipaddress.ip_address(s)\<close>.\<close>

definition parse_ip_address :: "str \<Rightarrow> ip_address option" where
  "parse_ip_address s = (case parse_v4 s of
     Some n \<Rightarrow> Some (V4 (word_of_int n))
   | None \<Rightarrow> map_option (\<lambda>(n, scope). V6 (word_of_int n) scope) (parse_v6 s))"

text \<open>The numbers of \<open>inet_aton\<close>: hexadecimal after \<open>0x\<close>, octal after \<open>0\<close>, else decimal.\<close>

definition legacy_number :: "str \<Rightarrow> bool" where
  "legacy_number s \<longleftrightarrow>
     (take 2 s = lit ''0x'' \<or> take 2 s = lit ''0X'') \<and> drop 2 s \<noteq> [] \<and> list_all is_hex (drop 2 s)
     \<or> s \<noteq> [] \<and> list_all ascii_digit s"

definition looks_legacy :: "str \<Rightarrow> bool" where
  "looks_legacy s \<longleftrightarrow> length (split_at 46 s) \<le> 4 \<and> list_all legacy_number (split_at 46 s)"

definition legacy_value :: "str \<Rightarrow> int option" where
  "legacy_value s =
     (if take 2 s = lit ''0x'' \<or> take 2 s = lit ''0X'' then Some (foldl (\<lambda>v c. 16 * v + int (hex_value c)) 0 (drop 2 s))
      else if take 1 s = lit ''0'' then
        (if list_all (\<lambda>c. 48 \<le> c \<and> c \<le> 55) s then Some (foldl (\<lambda>v c. 8 * v + (int c - 48)) 0 s) else None)
      else Some (int_of_digits s))"

definition inet_aton :: "str \<Rightarrow> int option" where
  "inet_aton s = (case all_some (map legacy_value (split_at 46 s)) of
     None \<Rightarrow> None
   | Some vs \<Rightarrow>
       if list_all (\<lambda>v. v \<le> 255) (butlast vs) \<and> last vs < 256 ^ (5 - length vs)
       then Some (foldl (\<lambda>n v. 256 * n + v) 0 (butlast vs) * 256 ^ (5 - length vs) + last vs) else None)"

text \<open>\<open>_parse_ip_literal\<close>: None when the text is a name.\<close>

definition parse_ip_literal :: "str \<Rightarrow> unit + ip_address option" where
  "parse_ip_literal s = (case parse_ip_address s of
     Some a \<Rightarrow> Inr (Some a)
   | None \<Rightarrow> if \<not> looks_legacy s then Inr None
       else (case inet_aton s of Some n \<Rightarrow> Inr (Some (V4 (word_of_int n))) | None \<Rightarrow> Inl ()))"

section \<open>What is blocked\<close>

lemma in_net4_iff:
  assumes "n \<le> 32" and "0 \<le> b" and "b < 2 ^ 32"
  shows "in_net4 a (b, n) \<longleftrightarrow> uint a div 2 ^ (32 - n) = b div 2 ^ (32 - n)"
proof -
  have "in_net4 a (b, n) \<longleftrightarrow> uint (drop_bit (32 - n) a) = uint (drop_bit (32 - n) (word_of_int b :: 32 word))"
    by (simp add: in_net4_def word_uint_eq_iff)
  also have "\<dots> \<longleftrightarrow> uint a div 2 ^ (32 - n) = b div 2 ^ (32 - n)"
    using assms take_bit_int_eq_self[OF _ uint_lt2p, of a] unfolding unsigned_drop_bit_eq
    by (simp add: drop_bit_eq_div uint_word_of_int take_bit_int_eq_self)
  finally show ?thesis .
qed

lemma in_net6_iff:
  assumes "n \<le> 128" and "0 \<le> b" and "b < 2 ^ 128"
  shows "in_net6 a (b, n) \<longleftrightarrow> uint a div 2 ^ (128 - n) = b div 2 ^ (128 - n)"
proof -
  have "in_net6 a (b, n) \<longleftrightarrow> uint (drop_bit (128 - n) a) = uint (drop_bit (128 - n) (word_of_int b :: 128 word))"
    by (simp add: in_net6_def word_uint_eq_iff)
  also have "\<dots> \<longleftrightarrow> uint a div 2 ^ (128 - n) = b div 2 ^ (128 - n)"
    using assms take_bit_int_eq_self[OF _ uint_lt2p, of a] unfolding unsigned_drop_bit_eq
    by (simp add: drop_bit_eq_div uint_word_of_int take_bit_int_eq_self)
  finally show ?thesis .
qed

lemma div_interval:
  assumes "0 < m"
  shows "x div m = c \<longleftrightarrow> c * m \<le> x \<and> x < c * m + (m :: int)"
proof
  assume "x div m = c"
  then show "c * m \<le> x \<and> x < c * m + m"
    using pos_mod_bound[OF assms, of x] pos_mod_sign[OF assms, of x] div_mult_mod_eq[of x m] by (simp only:) linarith
next
  assume "c * m \<le> x \<and> x < c * m + m"
  then show "x div m = c" using assms by (intro int_div_pos_eq[of x m c "x - c * m"]) (auto simp: mult.commute)
qed

text \<open>Of the IPv6 addresses, only global unicast ones and the old site-local ones are not blocked.\<close>

lemma unblocked6:
  assumes "\<not> blocked6 a"
  shows "in_net6 a (hextets [8192], 3) \<or> in_net6 a (hextets [65216], 10)"
proof -
  let ?x = "uint a"
  have r: "0 \<le> ?x" "?x < 2 ^ 128" using uint_lt2p[of a] by simp_all
  have no: "\<not> in_net6 a n" if "n \<in> set reserved6" for n
    using assms that by (auto simp: blocked6_def list_ex_iff)
  note conv = in_net6_iff div_interval hextets_def
  have "\<not> in_net6 a (0, 8)" by (rule no) (simp add: reserved6_def)
  then have 1: "2 ^ 120 \<le> ?x" using r by (simp add: conv)
  have "\<not> in_net6 a (hextets [256], 8)" by (rule no) (simp add: reserved6_def)
  then have 2: "2 ^ 121 \<le> ?x" using r 1 by (simp add: conv)
  have "\<not> in_net6 a (hextets [512], 7)" by (rule no) (simp add: reserved6_def)
  then have 3: "2 ^ 122 \<le> ?x" using r 2 by (simp add: conv)
  have "\<not> in_net6 a (hextets [1024], 6)" by (rule no) (simp add: reserved6_def)
  then have 4: "2 ^ 123 \<le> ?x" using r 3 by (simp add: conv)
  have "\<not> in_net6 a (hextets [2048], 5)" by (rule no) (simp add: reserved6_def)
  then have 5: "2 ^ 124 \<le> ?x" using r 4 by (simp add: conv)
  have "\<not> in_net6 a (hextets [4096], 4)" by (rule no) (simp add: reserved6_def)
  then have 6: "2 ^ 125 \<le> ?x" using r 5 by (simp add: conv)
  show ?thesis
  proof (rule ccontr)
    assume "\<not> ?thesis"
    then have site: "\<not> in_net6 a (hextets [65216], 10)" and "2 ^ 126 \<le> ?x" using r 6 by (simp_all add: conv)
    moreover have "\<not> in_net6 a (hextets [16384], 3)" by (rule no) (simp add: reserved6_def)
    ultimately have 7: "3 * 2 ^ 125 \<le> ?x" using r by (simp add: conv)
    have "\<not> in_net6 a (hextets [24576], 3)" by (rule no) (simp add: reserved6_def)
    then have 8: "2 ^ 127 \<le> ?x" using r 7 by (simp add: conv)
    have "\<not> in_net6 a (hextets [32768], 3)" by (rule no) (simp add: reserved6_def)
    then have 9: "40960 * 2 ^ 112 \<le> ?x" using r 8 by (simp add: conv)
    have "\<not> in_net6 a (hextets [40960], 3)" by (rule no) (simp add: reserved6_def)
    then have 10: "49152 * 2 ^ 112 \<le> ?x" using r 9 by (simp add: conv)
    have "\<not> in_net6 a (hextets [49152], 3)" by (rule no) (simp add: reserved6_def)
    then have 11: "57344 * 2 ^ 112 \<le> ?x" using r 10 by (simp add: conv)
    have "\<not> in_net6 a (hextets [57344], 4)" by (rule no) (simp add: reserved6_def)
    then have 12: "61440 * 2 ^ 112 \<le> ?x" using r 11 by (simp add: conv)
    have "\<not> in_net6 a (hextets [61440], 5)" by (rule no) (simp add: reserved6_def)
    then have 13: "63488 * 2 ^ 112 \<le> ?x" using r 12 by (simp add: conv)
    have "\<not> in_net6 a (hextets [63488], 6)" by (rule no) (simp add: reserved6_def)
    then have 14: "64512 * 2 ^ 112 \<le> ?x" using r 13 by (simp add: conv)
    have "ipv4_mapped a = None"
    proof -
      have "uint (drop_bit 32 a) \<noteq> 65535"
        using 14 take_bit_int_eq_self[OF _ uint_lt2p, of a] unfolding unsigned_drop_bit_eq
        by (simp add: drop_bit_eq_div div_interval)
      then show ?thesis by (auto simp: ipv4_mapped_def)
    qed
    moreover have "\<not> list_ex (in_net6 a) private6_exceptions" using 14 by (simp add: private6_exceptions_def conv)
    ultimately have "\<not> in_net6 a (hextets [64512], 7)"
      using assms by (auto simp: blocked6_def is_private6_def private6_def)
    then have 15: "65024 * 2 ^ 112 \<le> ?x" using r 14 by (simp add: conv)
    have "\<not> in_net6 a (hextets [65024], 9)" by (rule no) (simp add: reserved6_def)
    then have 16: "65152 * 2 ^ 112 \<le> ?x" using r 15 by (simp add: conv)
    have "\<not> in_net6 a (hextets [65152], 10)" using assms by (simp add: blocked6_def)
    then have "65216 * 2 ^ 112 \<le> ?x" using r 16 by (simp add: conv)
    then have 17: "65280 * 2 ^ 112 \<le> ?x" using r site by (simp add: conv)
    have "\<not> in_net6 a (hextets [65280], 8)" using assms by (simp add: blocked6_def)
    then show False using r 17 by (simp add: conv)
  qed
qed

text \<open>Every IPv4-mapped address is blocked, whatever it maps; of the IPv4 addresses, the shared address space is not.\<close>

lemma mapped_blocked: "ipv4_mapped a \<noteq> None \<Longrightarrow> blocked6 a"
proof -
  assume "ipv4_mapped a \<noteq> None"
  then have "drop_bit 32 a = 65535" by (auto simp: ipv4_mapped_def split: if_splits)
  then have "uint (drop_bit 32 a) = 65535" by simp
  then have "uint a div 2 ^ 32 = 65535"
    using take_bit_int_eq_self[OF _ uint_lt2p, of a] unfolding unsigned_drop_bit_eq by (simp add: drop_bit_eq_div)
  then have "uint a < 2 ^ 120" by (simp add: div_interval)
  then have "in_net6 a (0, 8)" by (simp add: in_net6_iff)
  then show ?thesis by (simp add: blocked6_def reserved6_def)
qed

lemma shared_space_not_blocked: "\<not> is_blocked (V4 (word_of_int (dotted 100 100 100 200)))"
  and site_local_not_blocked: "\<not> is_blocked (V6 (word_of_int (hextets [65216] + 1)) None)"
  by code_simp+

end
