(* ===== verification/UrlFetch.thy ===== *)
theory UrlFetch
  imports
    Actions
    Addresses
begin

text \<open>
  \<^verbatim>\<open>openhands_runtime/tools/url_safety.py\<close> and \<^verbatim>\<open>url_fetcher.py\<close>: which URLs of evidence may be fetched, and the fetch, which
  connects to an address that the policy has looked at and follows a bounded number of redirects, each checked again.
  The resolver, the HTTP client, the clock and the interrupt flag are arguments, functions on an external state or on the number
  of readings before; \<open>fw_lookups\<close> and \<open>fw_sent\<close> record the names that were resolved with the answers, and the requests, and
  \<open>fw_open\<close> counts the open responses. Where the code keeps the text of an address, the model keeps the address. Times are
  microseconds.
\<close>

section \<open>The policy\<close>

datatype fetch_error = Policy_Error string string | Fetch_Error string string | Escaped exc | Escaped_Other

record safe_url =
  sf_normalized :: str
  sf_hostname :: str
  sf_addresses :: "ip_address list"

text \<open>What \<open>socket.getaddrinfo\<close> does: an \<open>OSError\<close>, another exception, or the texts of addresses.\<close>

datatype lookup = Lookup_OSError | Lookup_Raises | Lookup_Records "str list"

text \<open>The request that is sent: the URL with its host replaced by the address, the \<open>Host\<close> header and the name for TLS.\<close>

record fetch_request =
  rq_url :: str
  rq_address :: ip_address
  rq_host_header :: str
  rq_sni_hostname :: str

datatype send_failure = Hx_Timeout | Hx_Request_Error | Hx_Other

text \<open>\<open>rs_chunks\<close>: the chunks of the body, up to a failure of the connection if there is one.\<close>

record fetch_response =
  rs_status :: int
  rs_location :: "str option"
  rs_content_type :: "str option"
  rs_content_length :: "str option"
  rs_chunks :: "(send_failure + nat list) list"

record 'x fetcher =
  ff_urls :: url_env
  ff_allow_http :: bool
  ff_getaddrinfo :: "str \<Rightarrow> 'x \<Rightarrow> 'x \<times> lookup"
  ff_parse_url :: "str \<Rightarrow> exc + str \<times> int option"
  ff_send :: "fetch_request \<Rightarrow> 'x \<Rightarrow> 'x \<times> (send_failure + fetch_response)"
  ff_clock :: "nat \<Rightarrow> int"
  ff_interrupted :: "nat \<Rightarrow> bool"
  ff_total_timeout :: int
  ff_max_redirects :: int
  ff_max_bytes :: int
  ff_unescape :: "str \<Rightarrow> str"
  ff_word_character :: "nat \<Rightarrow> bool"
  ff_digit :: "nat \<Rightarrow> int option"

record 'x fetch_world =
  fw_ext :: 'x
  fw_tick :: nat
  fw_lookups :: "(str \<times> ip_address list) list"
  fw_sent :: "fetch_request list"
  fw_open :: nat

type_synonym ('x, 'a) fact = "('x fetch_world, fetch_error, 'a) action"

definition make_fetcher :: "'x fetcher \<Rightarrow> bool \<Rightarrow> exc + 'x fetcher" where
  "make_fetcher F follow_redirects = andthen (require_all
     [(\<not> follow_redirects, ValueError ''URL verifier client must disable automatic redirects''),
      (0 \<le> ff_max_redirects F, ValueError ''max_redirects must not be negative''),
      (0 < ff_max_bytes F, ValueError ''max_bytes must be positive''),
      (0 < ff_total_timeout F, ValueError ''total_timeout_seconds must be positive'')]) (\<lambda>_. Inr F)"

definition dns_unavailable :: fetch_error where
  "dns_unavailable = Policy_Error ''dns_unavailable'' ''The URL hostname could not be resolved.''"

text \<open>\<open>dict.fromkeys\<close> keeps the first of equal keys.\<close>

definition first_occurrences :: "'a list \<Rightarrow> 'a list" where
  "first_occurrences xs = rev (remdups (rev xs))"

definition resolve_host :: "lookup \<Rightarrow> fetch_error + ip_address list" where
  "resolve_host l = (case l of
     Lookup_OSError \<Rightarrow> Inl dns_unavailable
   | Lookup_Raises \<Rightarrow> Inl Escaped_Other
   | Lookup_Records texts \<Rightarrow> (case all_some (map parse_ip_address texts) of
       None \<Rightarrow> Inl (Escaped (ValueError ''not an IPv4 or IPv6 address''))
     | Some addresses \<Rightarrow> if addresses = [] then Inl dns_unavailable else Inr (first_occurrences addresses)))"

text \<open>Whatever else the resolver raises becomes \<open>dns_unavailable\<close>.\<close>

definition resolve :: "'x fetcher \<Rightarrow> str \<Rightarrow> ('x, ip_address list) fact" where
  "resolve F host w = (case ff_getaddrinfo F host (fw_ext w) of (x, l) \<Rightarrow>
     (case resolve_host l of
        Inl (Policy_Error c m) \<Rightarrow> (w\<lparr>fw_ext := x\<rparr>, Inl (Policy_Error c m))
      | Inl _ \<Rightarrow> (w\<lparr>fw_ext := x\<rparr>, Inl dns_unavailable)
      | Inr addresses \<Rightarrow> (w\<lparr>fw_ext := x, fw_lookups := fw_lookups w @ [(host, addresses)]\<rparr>, Inr addresses)))"

definition allowed_schemes :: "'x fetcher \<Rightarrow> str list" where
  "allowed_schemes F = (if ff_allow_http F then [lit ''https'', lit ''http''] else [lit ''https''])"

definition rstrip_dots :: "str \<Rightarrow> str" where
  "rstrip_dots s = rev (dropWhile (\<lambda>c. c = 46) (rev s))"

definition policy_hostname :: "'x fetcher \<Rightarrow> split_url \<Rightarrow> str" where
  "policy_hostname F p = ue_lower (ff_urls F) (rstrip_dots (case hostname (ff_urls F) p of None \<Rightarrow> [] | Some h \<Rightarrow> h))"

definition policy_checks :: "'x fetcher \<Rightarrow> split_url \<Rightarrow> (bool \<times> fetch_error) list" where
  "policy_checks F p =
     (let host = policy_hostname F p in
      [(map lower_code (su_scheme p) \<in> set (allowed_schemes F), Policy_Error ''url_scheme_blocked'' ''The URL scheme is not allowed.''),
       (userinfo p = (None, None), Policy_Error ''url_credentials_blocked'' ''URLs with credentials are not allowed.''),
       (host \<noteq> [], Policy_Error ''url_host_missing'' ''The URL hostname is required.''),
       (host \<noteq> lit ''localhost'' \<and> \<not> ends_with (lit ''.localhost'') host,
        Policy_Error ''url_host_blocked'' ''The URL hostname is blocked.'')])"

definition normalized_url :: "'x fetcher \<Rightarrow> split_url \<Rightarrow> int option \<Rightarrow> str" where
  "normalized_url F p port =
     (let scheme = map lower_code (su_scheme p); default_port = (if scheme = lit ''https'' then 443 else 80)
      in urlunsplit \<lparr>su_scheme = scheme,
           su_netloc = authority (policy_hostname F p) (if port = Some default_port then None else port),
           su_path = (if su_path p = [] then lit ''/'' else su_path p), su_query = su_query p, su_fragment = []\<rparr>)"

definition split_for_policy :: "'x fetcher \<Rightarrow> str \<Rightarrow> exc + split_url \<times> int option" where
  "split_for_policy F url = andthen (urlsplit (ff_urls F) (strip url)) (\<lambda>p. andthen (url_port p) (\<lambda>port. Inr (p, port)))"

definition checked :: "'e + 'a \<Rightarrow> ('s, 'e, 'a) action" where
  "checked r = (case r of Inl e \<Rightarrow> rethrow e | Inr x \<Rightarrow> ret x)"

definition url_invalid :: fetch_error where
  "url_invalid = Policy_Error ''url_invalid'' ''The URL is invalid.''"

definition host_addresses :: "'x fetcher \<Rightarrow> str \<Rightarrow> ('x, ip_address list) fact" where
  "host_addresses F host = (case parse_ip_literal host of
     Inl _ \<Rightarrow> rethrow url_invalid
   | Inr (Some a) \<Rightarrow> ret [a]
   | Inr None \<Rightarrow> resolve F host)"

definition validate :: "'x fetcher \<Rightarrow> str \<Rightarrow> ('x, safe_url) fact" where
  "validate F url =
     (case split_for_policy F url of
        Inl _ \<Rightarrow> rethrow url_invalid
      | Inr (p, port) \<Rightarrow>
        bnd (checked (require_all (policy_checks F p))) (\<lambda>_.
        bnd (host_addresses F (policy_hostname F p)) (\<lambda>addresses.
        bnd (checked (require_all
          [(addresses \<noteq> [], dns_unavailable),
           (\<not> list_ex is_blocked addresses, Policy_Error ''url_address_blocked'' ''The URL resolves to a blocked address.'')])) (\<lambda>_.
        ret \<lparr>sf_normalized = normalized_url F p port, sf_hostname = policy_hostname F p, sf_addresses = addresses\<rparr>))))"


section \<open>\<^verbatim>\<open>urllib.parse.urljoin\<close>\<close>

definition uses_relative :: "str list" where
  "uses_relative = map lit ['''', ''ftp'', ''http'', ''gopher'', ''nntp'', ''imap'', ''wais'', ''file'', ''https'', ''shttp'', ''mms'',
     ''prospero'', ''rtsp'', ''rtsps'', ''rtspu'', ''sftp'', ''svn'', ''svn+ssh'', ''ws'', ''wss'']"

definition uses_params :: "str list" where
  "uses_params = map lit ['''', ''ftp'', ''hdl'', ''prospero'', ''http'', ''imap'', ''https'', ''shttp'', ''rtsp'', ''rtsps'', ''rtspu'',
     ''sip'', ''sips'', ''mms'', ''sftp'', ''tel'']"

text \<open>The parameters of the last segment of a path, after its first semicolon.\<close>

definition split_params :: "str \<Rightarrow> str \<times> str" where
  "split_params path = (case rpartition_at 47 path of
     (d, found, seg) \<Rightarrow> (case partition_at 59 seg of (s, _, params) \<Rightarrow> ((if found then d @ 47 # s else s), params)))"

definition url_params :: "split_url \<Rightarrow> str \<times> str" where
  "url_params p = (if su_scheme p \<in> set uses_params \<and> 59 \<in> set (su_path p) then split_params (su_path p) else (su_path p, []))"

definition urlunparse :: "str \<Rightarrow> str \<Rightarrow> str \<Rightarrow> str \<Rightarrow> str \<Rightarrow> str \<Rightarrow> str" where
  "urlunparse scheme netloc path params query fragment =
     urlunsplit \<lparr>su_scheme = scheme, su_netloc = netloc, su_path = (if params = [] then path else path @ lit '';'' @ params),
       su_query = query, su_fragment = fragment\<rparr>"

fun resolve_segments :: "str list \<Rightarrow> str list \<Rightarrow> str list" where
  "resolve_segments [] done_parts = done_parts"
| "resolve_segments (seg # segs) done_parts =
     resolve_segments segs
       (if seg = lit ''..'' then butlast done_parts else if seg = lit ''.'' then done_parts else done_parts @ [seg])"

text \<open>\<open>segments[1:-1] = filter(None, segments[1:-1])\<close>.\<close>

definition drop_inner_empty :: "str list \<Rightarrow> str list" where
  "drop_inner_empty segs = (if length segs < 2 then segs
     else hd segs # filter (\<lambda>s. s \<noteq> []) (butlast (tl segs)) @ [last segs])"

definition joined_path :: "str \<Rightarrow> str \<Rightarrow> str" where
  "joined_path bpath path =
     (let base = split_at 47 bpath; base_parts = (if last base \<noteq> [] then butlast base else base);
          segments = (if take 1 path = lit ''/'' then split_at 47 path else drop_inner_empty (base_parts @ split_at 47 path));
          resolved = resolve_segments segments [] @ (if last segments \<in> {lit ''.'', lit ''..''} then [[]] else []);
          joined = join_with (lit ''/'') resolved
      in if joined = [] then lit ''/'' else joined)"

definition urljoin :: "url_env \<Rightarrow> str \<Rightarrow> str \<Rightarrow> exc + str" where
  "urljoin E base url =
     (if base = [] then Inr url else if url = [] then Inr base
      else andthen (urlsplit E base) (\<lambda>b.
           andthen (urlsplit E url) (\<lambda>u0.
           let u = (if su_scheme u0 = [] then u0\<lparr>su_scheme := su_scheme b\<rparr> else u0);
               (bpath, bparams) = url_params b; (path, params) = url_params u; scheme = su_scheme u
           in Inr (
             if scheme \<noteq> su_scheme b \<or> scheme \<notin> set uses_relative then url
             else if scheme \<in> set uses_netloc \<and> su_netloc u \<noteq> []
               then urlunparse scheme (su_netloc u) path params (su_query u) (su_fragment u)
             else let netloc = (if scheme \<in> set uses_netloc then su_netloc b else su_netloc u) in
               if path = [] \<and> params = []
               then urlunparse scheme netloc bpath bparams (if su_query u = [] then su_query b else su_query u) (su_fragment u)
               else urlunparse scheme netloc (joined_path bpath path) params (su_query u) (su_fragment u)))))"

section \<open>Title and text\<close>

text \<open>\<open>_TAG_RE.sub(" ", s)\<close>: a tag is a \<open><\<close>, at least one character that is not \<open>>\<close>, and the next \<open>>\<close>.\<close>

function sub_tags :: "str \<Rightarrow> str" where
  "sub_tags [] = []"
| "sub_tags (c # s) =
     (if c = 60 \<and> takeWhile (\<lambda>x. x \<noteq> 62) s \<noteq> [] \<and> 62 \<in> set s then 32 # sub_tags (tl (dropWhile (\<lambda>x. x \<noteq> 62) s))
      else c # sub_tags s)"
  by pat_completeness auto
termination
proof (relation "measure length")
  fix c :: nat and s :: str
  have "length (tl (dropWhile (\<lambda>x. x \<noteq> 62) s)) \<le> length s" using length_dropWhile_le[of "\<lambda>x. x \<noteq> 62" s] by simp
  then show "(tl (dropWhile (\<lambda>x. x \<noteq> 62) s), c # s) \<in> measure length" by simp
qed simp_all

text \<open>\<open>_WHITESPACE_RE.sub(" ", s)\<close>.\<close>

fun collapse_space :: "str \<Rightarrow> str" where
  "collapse_space [] = []"
| "collapse_space [c] = (if py_isspace c then [32] else [c])"
| "collapse_space (c # d # s) =
     (if py_isspace c then (if py_isspace d then collapse_space (d # s) else 32 # collapse_space (d # s))
      else c # collapse_space (d # s))"

text \<open>A character against a small letter of a pattern that ignores case: the dotless and the dotted capital i match \<open>i\<close>.\<close>

definition same_letter :: "nat \<Rightarrow> nat \<Rightarrow> bool" where
  "same_letter l c \<longleftrightarrow> c = l \<or> c + 32 = l \<or> l = 105 \<and> c \<in> {304, 305}"

definition starts_with_word :: "string \<Rightarrow> str \<Rightarrow> bool" where
  "starts_with_word t s \<longleftrightarrow> length (lit t) \<le> length s \<and> list_all2 same_letter (lit t) (take (length (lit t)) s)"

definition at_open_title :: "'x fetcher \<Rightarrow> str \<Rightarrow> bool" where
  "at_open_title F s \<longleftrightarrow> take 1 s = lit ''<'' \<and> starts_with_word ''title'' (drop 1 s)
     \<and> (drop 6 s = [] \<or> \<not> ff_word_character F (hd (drop 6 s))) \<and> 62 \<in> set (drop 6 s)"

definition at_close_title :: "str \<Rightarrow> bool" where
  "at_close_title s \<longleftrightarrow> take 2 s = lit ''</'' \<and> starts_with_word ''title'' (drop 2 s)
     \<and> take 1 (dropWhile py_isspace (drop 7 s)) = lit ''>''"

text \<open>The shortest text up to a closing tag.\<close>

fun until_close :: "str \<Rightarrow> str option" where
  "until_close [] = None"
| "until_close (c # s) = (if at_close_title (c # s) then Some [] else map_option ((#) c) (until_close s))"

fun title_text :: "'x fetcher \<Rightarrow> str \<Rightarrow> str option" where
  "title_text F [] = None"
| "title_text F (c # s) =
     (if at_open_title F (c # s)
      then (case until_close (tl (dropWhile (\<lambda>x. x \<noteq> 62) (drop 6 (c # s)))) of None \<Rightarrow> title_text F s | Some t \<Rightarrow> Some t)
      else title_text F s)"

definition or_none :: "str \<Rightarrow> str option" where
  "or_none s = (if s = [] then None else Some s)"

definition extract_title :: "'x fetcher \<Rightarrow> str \<Rightarrow> str option" where
  "extract_title F s = (case title_text F s of
     None \<Rightarrow> None
   | Some t \<Rightarrow> or_none (take 512 (strip (collapse_space (ff_unescape F (sub_tags t))))))"

definition extract_text :: "'x fetcher \<Rightarrow> str \<Rightarrow> bool \<Rightarrow> str option" where
  "extract_text F s is_html = or_none (take 2000 (strip (collapse_space (ff_unescape F (if is_html then sub_tags s else s)))))"


section \<open>The fetch\<close>

record fetched_url =
  ft_final_url :: str
  ft_status_code :: int
  ft_content_type :: str
  ft_content_length :: int
  ft_redirect_chain :: "str list"
  ft_title :: "str option"
  ft_text_excerpt :: "str option"

definition network_timeout :: fetch_error where
  "network_timeout = Fetch_Error ''network_timeout'' ''The URL request timed out.''"

definition remaining :: "'x fetcher \<Rightarrow> int \<Rightarrow> ('x, int) fact" where
  "remaining F deadline w =
     (w\<lparr>fw_tick := fw_tick w + 1\<rparr>,
      if ff_interrupted F (fw_tick w) then Inl (Fetch_Error ''network_timeout'' ''The URL request was interrupted.'')
      else if deadline - ff_clock F (fw_tick w) \<le> 0 then Inl network_timeout
      else Inr (deadline - ff_clock F (fw_tick w)))"

definition read_clock :: "'x fetcher \<Rightarrow> ('x, int) fact" where
  "read_clock F w = (w\<lparr>fw_tick := fw_tick w + 1\<rparr>, Inr (ff_clock F (fw_tick w)))"

text \<open>The default port hides the port of the \<open>Host\<close> header.\<close>

definition pinned_request_target :: "'x fetcher \<Rightarrow> safe_url \<Rightarrow> fetch_error + fetch_request" where
  "pinned_request_target F safe = (case ff_parse_url F (sf_normalized safe) of
     Inl e \<Rightarrow> Inl (Escaped e)
   | Inr (scheme, port) \<Rightarrow>
       let default_port = (if scheme = lit ''https'' then 443 else 80)
       in Inr \<lparr>rq_url = sf_normalized safe, rq_address = hd (sf_addresses safe),
            rq_host_header = authority (sf_hostname safe) (if port = Some default_port then None else port),
            rq_sni_hostname = sf_hostname safe\<rparr>)"

definition send_error :: "send_failure \<Rightarrow> fetch_error" where
  "send_error f = (case f of
     Hx_Timeout \<Rightarrow> network_timeout
   | Hx_Request_Error \<Rightarrow> Fetch_Error ''network_unavailable'' ''The URL could not be retrieved.''
   | Hx_Other \<Rightarrow> Escaped_Other)"

definition send_request :: "'x fetcher \<Rightarrow> fetch_request \<Rightarrow> ('x, fetch_response) fact" where
  "send_request F rq w = (case ff_send F rq (fw_ext w) of (x, r) \<Rightarrow>
     (case r of
        Inl f \<Rightarrow> (w\<lparr>fw_ext := x, fw_sent := fw_sent w @ [rq]\<rparr>, Inl (send_error f))
      | Inr response \<Rightarrow> (w\<lparr>fw_ext := x, fw_sent := fw_sent w @ [rq], fw_open := fw_open w + 1\<rparr>, Inr response)))"

definition close_response :: "('x, unit) fact" where
  "close_response w = (w\<lparr>fw_open := fw_open w - 1\<rparr>, Inr ())"

definition supported_content_types :: "str list" where
  "supported_content_types = map lit [''text/'', ''application/json'', ''application/xhtml+xml'', ''application/xml'']"

text \<open>\<open>int(s)\<close>: digits of any script, single underscores between them, a sign, white space around, and at most 4300 digits.\<close>

fun py_digits :: "(nat \<Rightarrow> int option) \<Rightarrow> bool \<Rightarrow> str \<Rightarrow> int list option" where
  "py_digits digit after [] = (if after then Some [] else None)"
| "py_digits digit after (c # s) =
     (if c = 95 then (if after then py_digits digit False s else None)
      else (case digit c of None \<Rightarrow> None | Some d \<Rightarrow> map_option ((#) d) (py_digits digit True s)))"

definition py_int :: "(nat \<Rightarrow> int option) \<Rightarrow> str \<Rightarrow> int option" where
  "py_int digit text_in =
     (let s = strip text_in; neg = (take 1 s = lit ''-''); digits = (if take 1 s = lit ''-'' \<or> take 1 s = lit ''+'' then drop 1 s else s)
      in case py_digits digit False digits of
        None \<Rightarrow> None
      | Some ds \<Rightarrow> if 4300 < length ds then None
          else let n = foldl (\<lambda>v d. 10 * v + d) 0 ds in Some (if neg then - n else n))"

definition response_too_large :: fetch_error where
  "response_too_large = Fetch_Error ''response_too_large'' ''The URL response exceeded the size limit.''"

definition media_type_of :: "'x fetcher \<Rightarrow> fetch_response \<Rightarrow> str" where
  "media_type_of F response =
     ue_lower (ff_urls F) (hd (split_at 59 (case rs_content_type response of None \<Rightarrow> [] | Some s \<Rightarrow> s)))"

definition header_check :: "'x fetcher \<Rightarrow> fetch_response \<Rightarrow> fetch_error + unit" where
  "header_check F response =
     andthen (require (list_ex (\<lambda>p. starts_with p (media_type_of F response)) supported_content_types)
       (Fetch_Error ''content_type_unsupported'' ''The URL content type is not supported.'')) (\<lambda>_.
     case rs_content_length response of
       None \<Rightarrow> Inr ()
     | Some s \<Rightarrow> (case py_int (ff_digit F) s of
         None \<Rightarrow> Inl (Fetch_Error ''content_length_invalid'' ''The URL returned an invalid content length.'')
       | Some n \<Rightarrow> require (n \<le> ff_max_bytes F) response_too_large))"

fun read_body :: "'x fetcher \<Rightarrow> int \<Rightarrow> (send_failure + nat list) list \<Rightarrow> nat list \<Rightarrow> ('x, nat list) fact" where
  "read_body F deadline [] body = ret body"
| "read_body F deadline (Inl f # chunks) body = rethrow (send_error f)"
| "read_body F deadline (Inr chunk # chunks) body =
     bnd (remaining F deadline) (\<lambda>_.
     if ff_max_bytes F < int (length body + length chunk) then rethrow response_too_large
     else read_body F deadline chunks (body @ chunk))"

definition html_types :: "str list" where
  "html_types = [lit ''text/html'', lit ''application/xhtml+xml'']"

definition read_response :: "'x fetcher \<Rightarrow> fetch_response \<Rightarrow> str \<Rightarrow> str list \<Rightarrow> int \<Rightarrow> ('x, fetched_url) fact" where
  "read_response F response final_url redirects deadline =
     bnd (remaining F deadline) (\<lambda>_.
     bnd (checked (header_check F response)) (\<lambda>_.
     bnd (read_body F deadline (rs_chunks response) []) (\<lambda>body.
     bnd (remaining F deadline) (\<lambda>_.
     bnd (remaining F deadline) (\<lambda>_.
     bnd (remaining F deadline) (\<lambda>_.
     bnd (remaining F deadline) (\<lambda>_.
     let text_in = decode_replace body; ct = media_type_of F response; is_html = ct \<in> set html_types
     in ret \<lparr>ft_final_url = final_url, ft_status_code = rs_status response, ft_content_type = ct,
          ft_content_length = int (length body), ft_redirect_chain = redirects,
          ft_title = (if is_html then extract_title F text_in else None),
          ft_text_excerpt = extract_text F text_in is_html\<rparr>)))))))"

definition redirect_statuses :: "int list" where
  "redirect_statuses = [301, 302, 303, 307, 308]"

text \<open>The target of a redirect, checked again.\<close>

definition follow_redirect :: "'x fetcher \<Rightarrow> fetch_response \<Rightarrow> safe_url \<Rightarrow> str list \<Rightarrow> int \<Rightarrow> ('x, safe_url) fact" where
  "follow_redirect F response safe redirects deadline =
     (case rs_location response of
        None \<Rightarrow> rethrow (Fetch_Error ''redirect_location_missing'' ''The URL redirect did not include a target.'')
      | Some location \<Rightarrow>
        if location = [] then rethrow (Fetch_Error ''redirect_location_missing'' ''The URL redirect did not include a target.'')
        else if ff_max_redirects F \<le> int (length redirects)
        then rethrow (Fetch_Error ''too_many_redirects'' ''The URL exceeded the redirect limit.'')
        else (case urljoin (ff_urls F) (sf_normalized safe) location of
            Inl e \<Rightarrow> rethrow (Escaped e)
          | Inr target \<Rightarrow>
            bnd (remaining F deadline) (\<lambda>_.
            bnd (validate F target) (\<lambda>safe'.
            bnd (remaining F deadline) (\<lambda>_. ret safe')))))"

text \<open>One round: the next target, or the result.\<close>

definition use_response ::
  "'x fetcher \<Rightarrow> fetch_response \<Rightarrow> safe_url \<Rightarrow> str list \<Rightarrow> int \<Rightarrow> ('x, safe_url + fetched_url) fact" where
  "use_response F response safe redirects deadline =
     bnd (remaining F deadline) (\<lambda>_.
     if rs_status response \<in> set redirect_statuses
     then bnd (follow_redirect F response safe redirects deadline) (\<lambda>safe'. ret (Inl safe'))
     else bnd (read_response F response (sf_normalized safe) redirects deadline) (\<lambda>f. ret (Inr f)))"

definition fetch_round :: "'x fetcher \<Rightarrow> int \<Rightarrow> safe_url \<Rightarrow> str list \<Rightarrow> ('x, safe_url + fetched_url) fact" where
  "fetch_round F deadline safe redirects =
     bnd (remaining F deadline) (\<lambda>_.
     bnd (checked (pinned_request_target F safe)) (\<lambda>rq.
     bnd (send_request F rq) (\<lambda>response.
     finally_do (use_response F response safe redirects deadline) close_response)))"

lemma fetch_round_redirect:
  "fetch_round F deadline safe redirects w = (w', Inr (Inl safe')) \<Longrightarrow> int (length redirects) < ff_max_redirects F"
  unfolding fetch_round_def use_response_def
  by (auto simp: follow_redirect_def dest!: bnd_result finally_result split: if_splits option.splits)

function fetch_loop :: "'x fetcher \<Rightarrow> int \<Rightarrow> safe_url \<Rightarrow> str list \<Rightarrow> ('x, fetched_url) fact" where
  "fetch_loop F deadline safe redirects w =
     (case fetch_round F deadline safe redirects w of
        (w', Inl e) \<Rightarrow> (w', Inl e)
      | (w', Inr (Inr fetched)) \<Rightarrow> (w', Inr fetched)
      | (w', Inr (Inl safe')) \<Rightarrow> fetch_loop F deadline safe' (redirects @ [sf_normalized safe']) w')"
  by pat_completeness auto
termination
  by (relation "measure (\<lambda>(F, d, s, redirects, w). nat (ff_max_redirects F - int (length redirects)))")
    (auto dest!: fetch_round_redirect[OF sym])

declare fetch_loop.simps [simp del]

definition fetch :: "'x fetcher \<Rightarrow> str \<Rightarrow> ('x, fetched_url) fact" where
  "fetch F source_url =
     bnd (read_clock F) (\<lambda>t. let deadline = t + ff_total_timeout F in
     bnd (remaining F deadline) (\<lambda>_.
     bnd (validate F source_url) (\<lambda>safe.
     bnd (remaining F deadline) (\<lambda>_.
     fetch_loop F deadline safe []))))"


section \<open>What is connected to\<close>

text \<open>A target that the policy accepted: its name is not local, none of its addresses is blocked, and they are the address that the
  name spells or an answer of the resolver to that name.\<close>

definition accepted_target :: "(str \<times> ip_address list) list \<Rightarrow> str \<Rightarrow> ip_address list \<Rightarrow> bool" where
  "accepted_target lookups host addresses \<longleftrightarrow>
     host \<noteq> [] \<and> host \<noteq> lit ''localhost'' \<and> \<not> ends_with (lit ''.localhost'') host
     \<and> addresses \<noteq> [] \<and> \<not> list_ex is_blocked addresses
     \<and> (parse_ip_literal host = Inr (Some (hd addresses)) \<or> (host, addresses) \<in> set lookups)"

definition pinned_request :: "(str \<times> ip_address list) list \<Rightarrow> fetch_request \<Rightarrow> bool" where
  "pinned_request lookups rq \<longleftrightarrow> (\<exists>addresses. rq_address rq = hd addresses \<and> accepted_target lookups (rq_sni_hostname rq) addresses)"

abbreviation trace_of :: "'x fetch_world \<Rightarrow> (str \<times> ip_address list) list \<times> fetch_request list" where
  "trace_of w \<equiv> (fw_lookups w, fw_sent w)"

definition pinned_trace :: "(str \<times> ip_address list) list \<times> fetch_request list \<Rightarrow> bool" where
  "pinned_trace t \<longleftrightarrow> list_all (pinned_request (fst t)) (snd t)"

definition more_lookups :: "(str \<times> ip_address list) list \<times> fetch_request list \<Rightarrow> (str \<times> ip_address list) list \<times> fetch_request list \<Rightarrow> bool" where
  "more_lookups t t' \<longleftrightarrow> set (fst t) \<subseteq> set (fst t')"

interpretation pins: guarded_actions trace_of pinned_trace more_lookups
  by unfold_locales (auto simp: more_lookups_def)

lemma accepted_mono: "accepted_target l host addresses \<Longrightarrow> set l \<subseteq> set l' \<Longrightarrow> accepted_target l' host addresses"
  by (auto simp: accepted_target_def)

definition accepts :: "safe_url \<Rightarrow> (str \<times> ip_address list) list \<times> fetch_request list \<Rightarrow> bool" where
  "accepts safe t \<longleftrightarrow> accepted_target (fst t) (sf_hostname safe) (sf_addresses safe)"

lemma accepts_stable [simp]: "pins.stable (accepts safe)"
  using accepted_mono by (auto simp: pins.stable_def accepts_def more_lookups_def)

lemma pins_view: "(\<And>w. trace_of (fst (m w)) = trace_of w) \<Longrightarrow> pins.safe P m (\<lambda>_ _. True)"
  by (rule pins.safe_view) auto

lemma pins_any: "pins.safe P m Q \<Longrightarrow> pins.safe P m (\<lambda>_ _. True)"
  by (erule pins.safe_mono) simp_all

lemma pins_remaining: "pins.safe P (remaining F d) (\<lambda>_ _. True)" and pins_clock: "pins.safe P (read_clock F) (\<lambda>_ _. True)"
  and pins_close: "pins.safe P close_response (\<lambda>_ _. True)"
  by (rule pins_view, simp add: remaining_def read_clock_def close_response_def)+

lemma pins_ret: "pins.safe P (ret x) (\<lambda>_ _. True)"
  by (rule pins.safe_ret) simp

lemma pins_checked: "pins.safe P (checked r) (\<lambda>x _. r = Inr x)"
  by (cases r) (auto simp: checked_def intro: pins.safe_ret pins.safe_rethrow)

lemma pins_seq:
  "pins.safe P m (\<lambda>_ _. True) \<Longrightarrow> (\<And>x. pins.safe P (k x) Q) \<Longrightarrow> pins.stable P \<Longrightarrow> pins.safe P (bnd m k) Q"
  by (rule pins.safe_bnd[where Q = "\<lambda>_ _. True"]) simp_all

lemma pins_resolve:
  "pins.safe (\<lambda>_. True) (resolve F host) (\<lambda>addresses t. (host, addresses) \<in> set (fst t))"
proof (rule pins.safeI)
  fix w w' :: "'a fetch_world" and r
  assume inv: "pinned_trace (trace_of w)" and run: "resolve F host w = (w', r)"
  have sent: "fw_sent w' = fw_sent w" and l: "set (fw_lookups w) \<subseteq> set (fw_lookups w')"
    and res: "\<And>addresses. r = Inr addresses \<Longrightarrow> (host, addresses) \<in> set (fw_lookups w')"
    using run by (auto simp: resolve_def split: prod.splits sum.splits fetch_error.splits)
  have "pinned_request (fw_lookups w') rq" if "pinned_request (fw_lookups w) rq" for rq
    using that accepted_mono[OF _ l] by (auto simp: pinned_request_def)
  then have "pinned_trace (trace_of w')" using inv sent by (simp add: pinned_trace_def list_all_iff)
  then show "pinned_trace (trace_of w') \<and> more_lookups (trace_of w) (trace_of w')
      \<and> (\<forall>x. r = Inr x \<longrightarrow> (host, x) \<in> set (fst (trace_of w')))"
    using l res by (simp add: more_lookups_def)
qed

lemma pins_host_addresses:
  "pins.safe (\<lambda>_. True) (host_addresses F host)
     (\<lambda>addresses t. addresses \<noteq> [] \<longrightarrow> parse_ip_literal host = Inr (Some (hd addresses)) \<or> (host, addresses) \<in> set (fst t))"
proof (cases "parse_ip_literal host")
  case (Inr a)
  show ?thesis
  proof (cases a)
    case None
    have "pins.safe (\<lambda>_. True) (resolve F host)
       (\<lambda>addresses t. addresses \<noteq> [] \<longrightarrow> parse_ip_literal host = Inr (Some (hd addresses)) \<or> (host, addresses) \<in> set (fst t))"
      by (rule pins.safe_mono[OF pins_resolve]) simp_all
    then show ?thesis using Inr None by (simp add: host_addresses_def)
  qed (use Inr in \<open>simp add: host_addresses_def pins.safe_ret\<close>)
qed (simp add: host_addresses_def pins.safe_rethrow)

lemma pins_validate: "pins.safe (\<lambda>_. True) (validate F url) accepts"
proof (cases "split_for_policy F url")
  case (Inr x)
  obtain p port where x: "x = (p, port)" by force
  let ?host = "policy_hostname F p"
  let ?named = "?host \<noteq> [] \<and> ?host \<noteq> lit ''localhost'' \<and> \<not> ends_with (lit ''.localhost'') ?host"
  let ?from = "\<lambda>addresses t. addresses \<noteq> [] \<longrightarrow>
    parse_ip_literal ?host = Inr (Some (hd addresses)) \<or> (?host, addresses) \<in> set (fst t)"
  have st: "pins.stable (\<lambda>t. ?named \<and> ?from addresses t)" for addresses
    by (auto simp: pins.stable_def more_lookups_def)
  show ?thesis unfolding validate_def Inr x
  proof (simp, rule pins.safe_bnd[OF pins_checked _ pins.stable_True])
    fix u
    show "pins.safe (\<lambda>t. True \<and> require_all (policy_checks F p) = Inr u)
       (bnd (host_addresses F ?host) (\<lambda>addresses. bnd (checked (require_all
          [(addresses \<noteq> [], dns_unavailable),
           (\<not> list_ex is_blocked addresses, Policy_Error ''url_address_blocked'' ''The URL resolves to a blocked address.'')])) (\<lambda>_.
        ret \<lparr>sf_normalized = normalized_url F p port, sf_hostname = ?host, sf_addresses = addresses\<rparr>))) accepts"
    proof (rule pins.safe_mono[where P = "\<lambda>_. ?named"])
      show "pins.safe (\<lambda>_. ?named) (bnd (host_addresses F ?host) (\<lambda>addresses. bnd (checked (require_all
          [(addresses \<noteq> [], dns_unavailable),
           (\<not> list_ex is_blocked addresses, Policy_Error ''url_address_blocked'' ''The URL resolves to a blocked address.'')])) (\<lambda>_.
        ret \<lparr>sf_normalized = normalized_url F p port, sf_hostname = ?host, sf_addresses = addresses\<rparr>))) accepts"
      proof (rule pins.safe_bnd[where Q = ?from])
        show "pins.safe (\<lambda>_. ?named) (host_addresses F ?host) ?from"
          by (rule pins.safe_mono[OF pins_host_addresses]) simp_all
        fix addresses
        show "pins.safe (\<lambda>t. ?named \<and> ?from addresses t) (bnd (checked (require_all
          [(addresses \<noteq> [], dns_unavailable),
           (\<not> list_ex is_blocked addresses, Policy_Error ''url_address_blocked'' ''The URL resolves to a blocked address.'')])) (\<lambda>_.
        ret \<lparr>sf_normalized = normalized_url F p port, sf_hostname = ?host, sf_addresses = addresses\<rparr>)) accepts"
          by (rule pins.safe_bnd[OF pins_checked _ st], rule pins.safe_ret) (simp add: accepts_def accepted_target_def)
      qed (simp add: pins.stable_def)
    qed (auto simp: policy_checks_def Let_def)
  qed
qed (simp add: validate_def pins.safe_rethrow)


lemma pins_send: "pins.safe (\<lambda>t. pinned_request (fst t) rq) (send_request F rq) (\<lambda>_ _. True)"
proof (rule pins.safeI)
  fix w w' :: "'a fetch_world" and r
  assume "pinned_trace (trace_of w)" "pinned_request (fst (trace_of w)) rq" and run: "send_request F rq w = (w', r)"
  moreover have "fw_lookups w' = fw_lookups w \<and> fw_sent w' = fw_sent w @ [rq]"
    using run by (auto simp: send_request_def split: prod.splits sum.splits)
  ultimately show "pinned_trace (trace_of w') \<and> more_lookups (trace_of w) (trace_of w') \<and> (\<forall>x. r = Inr x \<longrightarrow> True)"
    by (simp add: pinned_trace_def more_lookups_def)
qed

lemma pins_body: "pins.safe (\<lambda>_. True) (read_body F d chunks body) (\<lambda>_ _. True)"
proof (induction F d chunks body rule: read_body.induct)
  case (3 F d chunk chunks body)
  then show ?case
    by (auto intro!: pins_seq pins_remaining pins.safe_rethrow split: if_splits)
qed (simp_all only: read_body.simps pins_ret pins.safe_rethrow)

lemma pins_read: "pins.safe (\<lambda>_. True) (read_response F response url redirects d) (\<lambda>_ _. True)"
  unfolding read_response_def Let_def
  by (intro pins_seq pins_remaining pins_body pins_ret pins_any[OF pins_checked] pins.stable_True)

lemma pins_follow: "pins.safe (\<lambda>_. True) (follow_redirect F response safe redirects d) accepts"
proof -
  have "pins.safe (\<lambda>_. True) (bnd (remaining F d) (\<lambda>_. bnd (validate F target) (\<lambda>safe'. bnd (remaining F d) (\<lambda>_. ret safe')))) accepts"
    for target
  proof (rule pins_seq[OF pins_remaining _ pins.stable_True])
    show "pins.safe (\<lambda>_. True) (bnd (validate F target) (\<lambda>safe'. bnd (remaining F d) (\<lambda>_. ret safe'))) accepts"
      by (rule pins.safe_bnd[OF pins_validate]) (auto intro!: pins_seq pins_remaining pins.safe_ret)
  qed
  then show ?thesis by (simp add: follow_redirect_def pins.safe_rethrow split: option.split sum.split)
qed

lemma pins_use:
  "pins.safe (\<lambda>_. True) (use_response F response safe redirects d) (\<lambda>x t. case x of Inl safe' \<Rightarrow> accepts safe' t | Inr _ \<Rightarrow> True)"
  unfolding use_response_def
proof (rule pins_seq[OF pins_remaining _ pins.stable_True])
  have "pins.safe (\<lambda>_. True) (bnd (follow_redirect F response safe redirects d) (\<lambda>safe'. ret (Inl safe')))
      (\<lambda>x t. case x of Inl safe' \<Rightarrow> accepts safe' t | Inr (_ :: fetched_url) \<Rightarrow> True)"
    by (rule pins.safe_bnd[OF pins_follow]) (simp_all add: pins.safe_ret)
  moreover have "pins.safe (\<lambda>_. True) (bnd (read_response F response (sf_normalized safe) redirects d) (\<lambda>f. ret (Inr f)))
      (\<lambda>x t. case x of Inl safe' \<Rightarrow> accepts safe' t | Inr _ \<Rightarrow> True)"
    by (rule pins_seq[OF pins_read]) (simp_all add: pins.safe_ret)
  ultimately show "pins.safe (\<lambda>_. True)
      (if rs_status response \<in> set redirect_statuses
       then bnd (follow_redirect F response safe redirects d) (\<lambda>safe'. ret (Inl safe'))
       else bnd (read_response F response (sf_normalized safe) redirects d) (\<lambda>f. ret (Inr f)))
      (\<lambda>x t. case x of Inl safe' \<Rightarrow> accepts safe' t | Inr _ \<Rightarrow> True)" by simp
qed

lemma pins_round:
  "pins.safe (accepts safe) (fetch_round F d safe redirects) (\<lambda>x t. case x of Inl safe' \<Rightarrow> accepts safe' t | Inr _ \<Rightarrow> True)"
  unfolding fetch_round_def
proof (rule pins_seq[OF pins_remaining _ accepts_stable])
  let ?Q = "\<lambda>x t. case x of Inl safe' \<Rightarrow> accepts safe' t | Inr (_ :: fetched_url) \<Rightarrow> True"
  have stq: "pins.stable (?Q x)" for x by (cases x) simp_all
  have fin: "pins.safe (\<lambda>_. True) (finally_do (use_response F response safe redirects d) close_response) ?Q" for response
    by (rule pins.safe_finally[OF pins_use pins_close pins.stable_True stq])
  have st: "pins.stable (\<lambda>t. pinned_request (fst t) rq)" for rq
    unfolding pins.stable_def pinned_request_def more_lookups_def using accepted_mono by blast
  have rest: "pins.safe (\<lambda>t. pinned_request (fst t) rq) (bnd (send_request F rq) (\<lambda>response.
      finally_do (use_response F response safe redirects d) close_response)) ?Q" for rq
    by (rule pins_seq[OF pins_send _ st], rule pins.safe_mono[OF fin]) simp_all
  show "pins.safe (accepts safe) (bnd (checked (pinned_request_target F safe)) (\<lambda>rq. bnd (send_request F rq) (\<lambda>response.
      finally_do (use_response F response safe redirects d) close_response))) ?Q"
  proof (rule pins.safe_bnd[OF pins_checked _ accepts_stable])
    fix rq
    show "pins.safe (\<lambda>t. accepts safe t \<and> pinned_request_target F safe = Inr rq) (bnd (send_request F rq) (\<lambda>response.
      finally_do (use_response F response safe redirects d) close_response)) ?Q"
      by (rule pins.safe_mono[OF rest])
        (auto simp: pinned_request_def accepts_def pinned_request_target_def Let_def split: sum.splits)
  qed
qed

lemma pins_loop_run:
  "fetch_loop F d safe redirects w = (w', r) \<Longrightarrow> pinned_trace (trace_of w) \<Longrightarrow> accepts safe (trace_of w) \<Longrightarrow>
     pinned_trace (trace_of w') \<and> more_lookups (trace_of w) (trace_of w')"
proof (induction F d safe redirects w arbitrary: w' r rule: fetch_loop.induct)
  case (1 F d safe redirects w)
  obtain w1 r1 where 1: "fetch_round F d safe redirects w = (w1, r1)" by force
  note a = pins.safeD[OF pins_round "1.prems"(2,3) 1]
  note run = "1.prems"(1)[unfolded fetch_loop.simps[of F d safe redirects w] 1]
  show ?case
  proof (cases r1)
    case (Inl e)
    then show ?thesis using run a(1,2) by simp
  next
    case (Inr x)
    show ?thesis
    proof (cases x)
      case next_safe: (Inl safe')
      then have "accepts safe' (trace_of w1)" using a(3)[OF Inr] by simp
      then show ?thesis using "1.IH"[OF 1[symmetric] Inr next_safe] run Inr next_safe a(1)
        pins.keeps_trans[OF a(2)] by simp
    next
      case (Inr f)
      then show ?thesis using run \<open>r1 = Inr x\<close> a(1,2) by simp
    qed
  qed
qed

lemma pins_fetch: "pins.safe (\<lambda>_. True) (fetch F url) (\<lambda>_ _. True)"
proof -
  have loop: "pins.safe (accepts safe) (fetch_loop F d safe []) (\<lambda>_ _. True)" for safe d
    by (rule pins.safeI) (simp add: pins_loop_run)
  have "pins.safe (\<lambda>_. True) (bnd (validate F url) (\<lambda>safe. bnd (remaining F d) (\<lambda>_. fetch_loop F d safe []))) (\<lambda>_ _. True)" for d
  proof (rule pins.safe_bnd[OF pins_validate])
    fix safe
    show "pins.safe (\<lambda>t. True \<and> accepts safe t) (bnd (remaining F d) (\<lambda>_. fetch_loop F d safe [])) (\<lambda>_ _. True)"
      by (rule pins_seq[OF pins_remaining]) (simp_all add: loop)
  qed simp
  then show ?thesis unfolding fetch_def Let_def
    by (intro pins_seq[OF pins_clock] pins_seq[OF pins_remaining] pins.stable_True)
qed


section \<open>How much is sent and kept\<close>

interpretation requests: traced_actions "fw_sent :: 'x fetch_world \<Rightarrow> fetch_request list" .

lemma quiet_parts:
  "requests.quiet (remaining F d)" "requests.quiet (read_clock F)" "requests.quiet close_response" "requests.quiet (resolve F host)"
  by (simp_all add: requests.quiet_def remaining_def read_clock_def close_response_def resolve_def
      split: prod.split sum.split fetch_error.split)

lemma quiet_checked: "requests.quiet (checked r)"
  by (simp add: checked_def requests.quiet_ret requests.quiet_rethrow split: sum.split)

lemmas quiet_steps = quiet_parts quiet_checked requests.quiet_ret requests.quiet_rethrow requests.quiet_bnd requests.quiet_if

lemma quiet_validate: "requests.quiet (validate F url)"
proof -
  have "requests.quiet (host_addresses F host)" for host
    by (simp add: host_addresses_def quiet_steps split: sum.split option.split)
  then show ?thesis unfolding validate_def by (auto intro!: quiet_steps split: sum.split)
qed

lemma quiet_use: "requests.quiet (use_response F response safe redirects d)"
proof -
  have body: "requests.quiet (read_body F d chunks b)" for chunks b
  proof (induction F d chunks b rule: read_body.induct)
    case (3 F d chunk chunks b)
    have "requests.quiet (if ff_max_bytes F < int (length b + length chunk) then rethrow response_too_large
        else read_body F d chunks (b @ chunk))"
      using 3 by (simp add: quiet_steps)
    then show ?case unfolding read_body.simps by (rule requests.quiet_bnd[OF quiet_parts(1)])
  qed (simp_all only: read_body.simps quiet_steps)
  have "requests.quiet (follow_redirect F response safe redirects d)"
    unfolding follow_redirect_def by (auto intro!: quiet_steps quiet_validate split: option.split sum.split)
  moreover have "requests.quiet (read_response F response url redirects d)" for url
    unfolding read_response_def Let_def by (intro quiet_steps body)
  ultimately show ?thesis unfolding use_response_def by (intro quiet_steps)
qed

lemma round_sends: "requests.emits (fetch_round F d safe redirects) (\<lambda>r cs. length cs \<le> 1 \<and> (\<forall>x. r = Inr x \<longrightarrow> length cs = 1))"
proof -
  have send: "requests.emits (send_request F rq) (\<lambda>r cs. length cs = 1)" for rq
    by (auto simp: requests.emits_def send_request_def split: prod.splits sum.splits)
  have fin: "requests.quiet (finally_do (use_response F response safe redirects d) close_response)" for response
    by (rule requests.quiet_finally[OF quiet_use quiet_parts(3)])
  have rest: "requests.emits (bnd (send_request F rq) (\<lambda>response. finally_do (use_response F response safe redirects d) close_response))
      (\<lambda>r cs. length cs = 1)" for rq
    by (rule requests.emits_bnd[OF send requests.emits_quiet[where A = "\<lambda>r cs. cs = []", OF fin]]) simp_all
  show ?thesis unfolding fetch_round_def
    by (rule requests.emits_quiet_bnd[OF quiet_parts(1)], rule requests.emits_quiet_bnd[OF quiet_checked],
        rule requests.emits_mono[OF rest]) simp_all
qed

text \<open>What a result is limited to.\<close>

definition bounded_result :: "'x fetcher \<Rightarrow> str list \<Rightarrow> fetched_url \<Rightarrow> bool" where
  "bounded_result F redirects f \<longleftrightarrow>
     ft_redirect_chain f = redirects \<and> 0 \<le> ft_content_length f \<and> (0 \<le> ff_max_bytes F \<longrightarrow> ft_content_length f \<le> ff_max_bytes F)
     \<and> (\<forall>t. ft_title f = Some t \<longrightarrow> t \<noteq> [] \<and> length t \<le> 512) \<and> (\<forall>t. ft_text_excerpt f = Some t \<longrightarrow> t \<noteq> [] \<and> length t \<le> 2000)"

lemma read_body_bound:
  "read_body F d chunks b w = (w', Inr body) \<Longrightarrow> int (length body) \<le> max (int (length b)) (ff_max_bytes F)"
proof (induction F d chunks b arbitrary: w rule: read_body.induct)
  case (3 F d chunk chunks b)
  then obtain w1 where "\<not> ff_max_bytes F < int (length b + length chunk)" "read_body F d chunks (b @ chunk) w1 = (w', Inr body)"
    by (auto dest!: bnd_result split: if_splits)
  then show ?case using "3.IH" by fastforce
qed simp_all

lemma or_none_Some: "or_none s = Some t \<longleftrightarrow> s = t \<and> t \<noteq> []"
  by (auto simp: or_none_def)

lemma round_result:
  assumes "fetch_round F d safe redirects w = (w', Inr (Inr f))"
  shows "bounded_result F redirects f"
proof -
  obtain response w1 w2 where "read_response F response (sf_normalized safe) redirects d w1 = (w2, Inr f)"
    using assms unfolding fetch_round_def use_response_def by (auto dest!: bnd_result finally_result split: if_splits)
  then obtain w3 w4 body where "read_body F d (rs_chunks response) [] w3 = (w4, Inr body)" and
    f: "f = \<lparr>ft_final_url = sf_normalized safe, ft_status_code = rs_status response, ft_content_type = media_type_of F response,
          ft_content_length = int (length body), ft_redirect_chain = redirects,
          ft_title = (if media_type_of F response \<in> set html_types then extract_title F (decode_replace body) else None),
          ft_text_excerpt = extract_text F (decode_replace body) (media_type_of F response \<in> set html_types)\<rparr>"
    by (auto simp: read_response_def Let_def dest!: bnd_result)
  then show ?thesis using read_body_bound[of F d "rs_chunks response" "[]" w3 w4 body]
    by (auto simp: bounded_result_def extract_title_def extract_text_def or_none_Some split: if_splits option.splits)
qed

lemma loop_bounds:
  assumes "fetch_loop F d safe redirects w = (w', r)"
  shows "(\<exists>cs. fw_sent w' = fw_sent w @ cs \<and> int (length cs) \<le> max 0 (ff_max_redirects F - int (length redirects)) + 1
      \<and> (\<forall>f. r = Inr f \<longrightarrow> (\<exists>more. bounded_result F (redirects @ more) f \<and> length cs = Suc (length more))))"
  using assms
proof (induction F d safe redirects w arbitrary: w' r rule: fetch_loop.induct)
  case (1 F d safe redirects w)
  obtain w1 r1 where 1: "fetch_round F d safe redirects w = (w1, r1)" by force
  obtain cs where cs: "fw_sent w1 = fw_sent w @ cs" "length cs \<le> 1" "\<And>x. r1 = Inr x \<Longrightarrow> length cs = 1"
    using requests.emitsD[OF round_sends 1] by blast
  note run = "1.prems"[unfolded fetch_loop.simps[of F d safe redirects w] 1]
  show ?case
  proof (cases r1)
    case (Inl e)
    then show ?thesis using run cs by auto
  next
    case (Inr x)
    show ?thesis
    proof (cases x)
      case next_safe: (Inl safe')
      have less: "int (length redirects) < ff_max_redirects F"
        by (rule fetch_round_redirect) (use 1 Inr next_safe in simp)
      have "fetch_loop F d safe' (redirects @ [sf_normalized safe']) w1 = (w', r)" using run Inr next_safe by simp
      from "1.IH"[OF 1[symmetric] Inr next_safe this] obtain ds where ds: "fw_sent w' = fw_sent w1 @ ds"
          "int (length ds) \<le> max 0 (ff_max_redirects F - int (length redirects) - 1) + 1"
          "\<And>f. r = Inr f \<Longrightarrow> \<exists>more. bounded_result F ((redirects @ [sf_normalized safe']) @ more) f \<and> length ds = Suc (length more)"
        by auto
      have "\<exists>more. bounded_result F (redirects @ more) f \<and> length (cs @ ds) = Suc (length more)" if "r = Inr f" for f
        using ds(3)[OF that] cs(3)[OF Inr] by (metis append_Cons append_Nil append_assoc length_Cons length_append plus_1_eq_Suc)
      then show ?thesis using ds(1,2) cs(1) cs(3)[OF Inr] less by (intro exI[of _ "cs @ ds"]) auto
    next
      case result: (Inr f)
      then have "w' = w1" "r = Inr f" using run Inr by simp_all
      moreover have "bounded_result F redirects f" by (rule round_result) (use 1 Inr result in simp)
      ultimately show ?thesis using cs(1) cs(3)[OF Inr] by (intro exI[of _ cs]) (auto intro: exI[of _ "[]"])
    qed
  qed
qed


text \<open>Every request is for a URL with an allowed scheme.\<close>

definition allowed_url :: "'x fetcher \<Rightarrow> str \<Rightarrow> bool" where
  "allowed_url F url \<longleftrightarrow> (\<exists>scheme \<in> set (allowed_schemes F). starts_with (scheme @ lit '':'') url)"

lemma normalized_allowed: "map lower_code (su_scheme p) \<in> set (allowed_schemes F) \<Longrightarrow> allowed_url F (normalized_url F p port)"
proof -
  assume s: "map lower_code (su_scheme p) \<in> set (allowed_schemes F)"
  have "starts_with (su_scheme q @ lit '':'') (urlunsplit q)" if "su_scheme q \<noteq> []" for q
    using that by (auto simp: urlunsplit_def Let_def starts_with_def)
  note text_starts = this
  have ne: "map lower_code (su_scheme p) \<noteq> []" using s by (auto simp: allowed_schemes_def split: if_splits)
  show ?thesis unfolding allowed_url_def normalized_url_def Let_def
    by (rule bexI[OF _ s]) (use text_starts[of "split_url.make (map lower_code (su_scheme p)) _ _ _ _"] ne in \<open>simp add: split_url.defs\<close>)
qed

lemma checked_result: "checked r w = (w', Inr x) \<Longrightarrow> w' = w \<and> r = Inr x"
  by (auto simp: checked_def split: sum.splits)

lemma validate_allowed: "validate F url w = (w', Inr safe) \<Longrightarrow> allowed_url F (sf_normalized safe)"
  by (auto simp: validate_def policy_checks_def Let_def intro!: normalized_allowed dest!: bnd_result checked_result split: sum.splits)

lemma round_allowed:
  assumes "fetch_round F d safe redirects w = (w', r)"
  shows "(\<exists>cs. fw_sent w' = fw_sent w @ cs \<and> list_all (\<lambda>rq. rq_url rq = sf_normalized safe) cs)
    \<and> (\<forall>safe'. r = Inr (Inl safe') \<longrightarrow> allowed_url F (sf_normalized safe'))"
proof -
  have send: "requests.emits (send_request F rq) (\<lambda>r cs. cs = [rq])" for rq
    by (auto simp: requests.emits_def send_request_def split: prod.splits sum.splits)
  have rest: "requests.emits (bnd (send_request F rq) (\<lambda>response. finally_do (use_response F response safe redirects d) close_response))
      (\<lambda>r cs. cs = [rq])" for rq
    by (rule requests.emits_bnd[OF send requests.emits_quiet[where A = "\<lambda>r cs. cs = []", OF requests.quiet_finally[OF quiet_use quiet_parts(3)]]])
      simp_all
  have "requests.emits (fetch_round F d safe redirects) (\<lambda>r cs. list_all (\<lambda>rq. rq_url rq = sf_normalized safe) cs)"
  proof (cases "pinned_request_target F safe")
    case (Inl e)
    have "requests.quiet (bnd (checked (pinned_request_target F safe)) (\<lambda>rq. bnd (send_request F rq) (\<lambda>response.
        finally_do (use_response F response safe redirects d) close_response)))"
      by (simp add: requests.quiet_def Inl checked_def bnd_def)
    then show ?thesis unfolding fetch_round_def
      by (intro requests.emits_quiet requests.quiet_bnd[OF quiet_parts(1)]) simp_all
  next
    case (Inr rq)
    then have url: "rq_url rq = sf_normalized safe" by (auto simp: pinned_request_target_def Let_def split: sum.splits)
    have "fetch_round F d safe redirects = bnd (remaining F d) (\<lambda>_. bnd (send_request F rq) (\<lambda>response.
        finally_do (use_response F response safe redirects d) close_response))"
      unfolding fetch_round_def Inr by (simp add: checked_def bnd_ret)
    then show ?thesis
      by (simp only:) (rule requests.emits_quiet_bnd[OF quiet_parts(1)], rule requests.emits_mono[OF rest], simp_all add: url)
  qed
  moreover have "allowed_url F (sf_normalized safe')" if "r = Inr (Inl safe')" for safe'
    using assms that unfolding fetch_round_def use_response_def follow_redirect_def
    by (auto dest!: bnd_result finally_result split: if_splits option.splits sum.splits) (erule validate_allowed)
  ultimately show ?thesis using requests.emitsD assms by blast
qed

lemma loop_allowed:
  assumes "fetch_loop F d safe redirects w = (w', r)" and "allowed_url F (sf_normalized safe)"
  shows "\<exists>cs. fw_sent w' = fw_sent w @ cs \<and> list_all (\<lambda>rq. allowed_url F (rq_url rq)) cs"
  using assms
proof (induction F d safe redirects w arbitrary: w' r rule: fetch_loop.induct)
  case (1 F d safe redirects w)
  obtain w1 r1 where 1: "fetch_round F d safe redirects w = (w1, r1)" by force
  obtain cs where cs: "fw_sent w1 = fw_sent w @ cs" "list_all (\<lambda>rq. allowed_url F (rq_url rq)) cs"
    using round_allowed[OF 1] "1.prems"(2) by (auto simp: list_all_iff)
  note run = "1.prems"(1)[unfolded fetch_loop.simps[of F d safe redirects w] 1]
  show ?case
  proof (cases "\<exists>safe'. r1 = Inr (Inl safe')")
    case True
    then obtain safe' where r1: "r1 = Inr (Inl safe')" by blast
    then have "fetch_loop F d safe' (redirects @ [sf_normalized safe']) w1 = (w', r)" using run by simp
    from "1.IH"[OF 1[symmetric] r1 refl this] round_allowed[OF 1] r1
    obtain ds where "fw_sent w' = fw_sent w1 @ ds" "list_all (\<lambda>rq. allowed_url F (rq_url rq)) ds" by auto
    then show ?thesis using cs by (intro exI[of _ "cs @ ds"]) simp
  next
    case False
    then have "w' = w1" using run by (auto split: sum.splits)
    then show ?thesis using cs by auto
  qed
qed

text \<open>Every response that is opened is closed.\<close>

interpretation opens: guarded_actions "fw_open :: 'x fetch_world \<Rightarrow> nat" "\<lambda>_. True" "(=)"
  by unfold_locales auto

abbreviation closes :: "('x, 'a) fact \<Rightarrow> bool" where
  "closes m \<equiv> opens.safe (\<lambda>_. True) m (\<lambda>_ _. True)"

lemma closes_view: "(\<And>w. fw_open (fst (m w)) = fw_open w) \<Longrightarrow> closes m"
  by (rule opens.safe_view) simp_all

lemma closesD: "closes m \<Longrightarrow> m w = (w', r) \<Longrightarrow> fw_open w' = fw_open w"
  using opens.safeD(2)[of "\<lambda>_. True" m "\<lambda>_ _. True" w w' r] by simp

lemma closes_bnd: "closes m \<Longrightarrow> (\<And>x. closes (k x)) \<Longrightarrow> closes (bnd m k)"
  by (rule opens.safe_bnd) simp_all

lemma closes_simple: "closes (remaining F d)" "closes (read_clock F)" "closes (checked r')" "closes (resolve F host)"
  "closes (ret x)" "closes (rethrow e)"
  by (rule closes_view, simp add: remaining_def read_clock_def checked_def resolve_def split: sum.split prod.split fetch_error.split)+

lemma closes_if: "closes m \<Longrightarrow> closes m' \<Longrightarrow> closes (if b then m else m')"
  by simp

lemmas closes_steps = closes_simple closes_bnd closes_if

lemma closes_validate: "closes (validate F url)"
proof -
  have "closes (host_addresses F host)" for host
    by (simp add: host_addresses_def closes_steps split: sum.split option.split)
  then show ?thesis unfolding validate_def by (auto intro!: closes_steps split: sum.split)
qed

lemma closes_use: "closes (use_response F response safe redirects d)"
proof -
  have body: "closes (read_body F d chunks b)" for chunks b
  proof (induction F d chunks b rule: read_body.induct)
    case (3 F d chunk chunks b)
    have "closes (if ff_max_bytes F < int (length b + length chunk) then rethrow response_too_large
        else read_body F d chunks (b @ chunk))"
      using 3 by (simp add: closes_steps)
    then show ?case unfolding read_body.simps by (rule closes_bnd[OF closes_simple(1)])
  qed (simp_all only: read_body.simps closes_simple)
  have "closes (follow_redirect F response safe redirects d)"
    unfolding follow_redirect_def by (auto intro!: closes_steps closes_validate split: option.split sum.split)
  moreover have "closes (read_response F response url redirects d)" for url
    unfolding read_response_def Let_def by (intro closes_steps body)
  ultimately show ?thesis unfolding use_response_def by (intro closes_steps)
qed

lemma closes_round: "closes (fetch_round F d safe redirects)"
proof -
  have "closes (bnd (send_request F rq) (\<lambda>response. finally_do (use_response F response safe redirects d) close_response))" for rq
  proof (rule closes_view)
    fix w :: "'a fetch_world"
    obtain w1 r1 where 1: "send_request F rq w = (w1, r1)" by force
    show "fw_open (fst (bnd (send_request F rq) (\<lambda>response. finally_do (use_response F response safe redirects d) close_response) w))
        = fw_open w"
    proof (cases r1)
      case (Inl e)
      then show ?thesis using 1 by (auto simp: bnd_def send_request_def split: prod.splits sum.splits)
    next
      case (Inr response)
      obtain w2 r2 where 2: "use_response F response safe redirects d w1 = (w2, r2)" by force
      have "fw_open w1 = fw_open w + 1" using 1 Inr by (auto simp: send_request_def split: prod.splits sum.splits)
      then show ?thesis using 1 2 Inr closesD[OF closes_use 2] by (simp add: bnd_def finally_do_def close_response_def)
    qed
  qed
  then show ?thesis unfolding fetch_round_def
    by (intro closes_bnd[OF closes_simple(1)] closes_bnd[OF closes_simple(3)])
qed

lemma closes_loop: "fetch_loop F d safe redirects w = (w', r) \<Longrightarrow> fw_open w' = fw_open w"
proof (induction F d safe redirects w arbitrary: w' r rule: fetch_loop.induct)
  case (1 F d safe redirects w)
  obtain w1 r1 where 1: "fetch_round F d safe redirects w = (w1, r1)" by force
  note run = "1.prems"[unfolded fetch_loop.simps[of F d safe redirects w] 1]
  show ?case
  proof (cases "\<exists>safe'. r1 = Inr (Inl safe')")
    case True
    then obtain safe' where r1: "r1 = Inr (Inl safe')" by blast
    then have "fetch_loop F d safe' (redirects @ [sf_normalized safe']) w1 = (w', r)" using run by simp
    then show ?thesis using "1.IH"[OF 1[symmetric] r1 refl] closesD[OF closes_round 1] by simp
  next
    case False
    then have "w' = w1" using run by (auto split: sum.splits)
    then show ?thesis using closesD[OF closes_round 1] by simp
  qed
qed


text \<open>A fetch is its loop from the policy's first answer, or ends before a request.\<close>

lemma fetch_loop_or_quiet:
  assumes "fetch F url w = (w', r)"
  shows "(\<exists>d safe w1. fw_sent w1 = fw_sent w \<and> allowed_url F (sf_normalized safe) \<and> fetch_loop F d safe [] w1 = (w', r))
    \<or> fw_sent w' = fw_sent w \<and> (\<exists>e. r = Inl e)"
proof -
  let ?d = "ff_clock F (fw_tick w) + ff_total_timeout F"
  let ?m = "\<lambda>_. bnd (remaining F ?d) (\<lambda>_. bnd (validate F url) (\<lambda>safe. bnd (remaining F ?d) (\<lambda>_. ret safe)))"
  obtain w1 r1 where 1: "bnd (read_clock F) ?m w = (w1, r1)" by force
  have q: "requests.quiet (bnd (read_clock F) ?m)" by (intro quiet_steps quiet_validate)
  have e: "fw_sent w1 = fw_sent w" by (rule requests.quietD[OF q 1])
  show ?thesis
  proof (cases r1)
    case (Inl x)
    then have "w' = w1" "r = Inl x" using assms 1
      by (auto simp: fetch_def Let_def bnd_def read_clock_def split: prod.splits sum.splits)
    then show ?thesis using e by blast
  next
    case (Inr safe)
    then have "allowed_url F (sf_normalized safe)" using 1 by (auto dest!: bnd_result dest: validate_allowed)
    moreover have "fetch_loop F ?d safe [] w1 = (w', r)" using assms 1 Inr
      by (auto simp: fetch_def Let_def bnd_def read_clock_def split: prod.splits sum.splits)
    ultimately show ?thesis using e by blast
  qed
qed

section \<open>A sample\<close>

definition sample_fetch_env :: url_env where
  "sample_fetch_env = \<lparr>ue_brackets_ok = (\<lambda>_. True), ue_nfkc_ok = (\<lambda>_. True), ue_lower = map lower_code, ue_sha256 = (\<lambda>bs. bs),
     ue_enumerate = (\<lambda>xs. xs)\<rparr>"

text \<open>A server that answers the first request with a redirect to the loopback address, or with a text.\<close>

definition sample_fetcher :: "bool \<Rightarrow> unit fetcher" where
  "sample_fetcher redirects = \<lparr>ff_urls = sample_fetch_env, ff_allow_http = True,
     ff_getaddrinfo = (\<lambda>h x. (x, Lookup_Records [lit ''93.184.216.34''])),
     ff_parse_url = (\<lambda>u. Inr (lit ''https'', None)),
     ff_send = (\<lambda>rq x. (x, Inr \<lparr>rs_status = (if redirects then 302 else 200), rs_location = Some (lit ''http://0x7f.1/''),
        rs_content_type = Some (lit ''text/plain''), rs_content_length = Some (lit ''2''), rs_chunks = [Inr [104, 105]]\<rparr>)),
     ff_clock = (\<lambda>n. int n), ff_interrupted = (\<lambda>n. False), ff_total_timeout = 100, ff_max_redirects = 3, ff_max_bytes = 64,
     ff_unescape = (\<lambda>s. s), ff_word_character = (\<lambda>c. True),
     ff_digit = (\<lambda>c. if ascii_digit c then Some (int c - 48) else None)\<rparr>"

definition sample_fetch_world :: "unit fetch_world" where
  "sample_fetch_world = \<lparr>fw_ext = (), fw_tick = 0, fw_lookups = [], fw_sent = [], fw_open = 0\<rparr>"

definition sample_source_url :: str where
  "sample_source_url = lit ''https://Example.org/a''"

lemma sample_redirect_blocked:
  "snd (fetch (sample_fetcher True) sample_source_url sample_fetch_world)
     = Inl (Policy_Error ''url_address_blocked'' ''The URL resolves to a blocked address.'')"
  "map rq_address (fw_sent (fst (fetch (sample_fetcher True) sample_source_url sample_fetch_world))) = [V4 1572395042]"
  by code_simp+

section \<open>Properties\<close>

text \<open>
  C15. Whatever the servers, the resolver and the clock do, every connection of a fetch is to an address that is not blocked, for a
  name that is not local; the address is the one that the name spells, or the first of an answer of the resolver, none of which is
  blocked, so that a later answer for the same name changes nothing. Every URL requested has an allowed scheme,
  and every response is closed.
\<close>

theorem fetch_connects_safely:
  assumes "fw_sent w = []" and "fetch F url w = (w', r)"
  shows "list_all (pinned_request (fw_lookups w')) (fw_sent w') \<and> list_all (\<lambda>rq. allowed_url F (rq_url rq)) (fw_sent w')
    \<and> fw_open w' = fw_open w"
proof (intro conjI)
  have "pinned_trace (trace_of w)" using assms(1) by (simp add: pinned_trace_def)
  then show "list_all (pinned_request (fw_lookups w')) (fw_sent w')"
    using pins.safeD(1)[OF pins_fetch _ TrueI assms(2)] by (simp add: pinned_trace_def)
  have "closes (fetch_loop F d safe [])" for d safe
    by (rule closes_view) (use closes_loop[OF surjective_pairing] in blast)
  then have "closes (fetch F url)" unfolding fetch_def Let_def
    by (intro closes_bnd[OF closes_simple(2)] closes_bnd[OF closes_simple(1)] closes_bnd[OF closes_validate])
  then show "fw_open w' = fw_open w" using assms(2) by (rule closesD)
  show "list_all (\<lambda>rq. allowed_url F (rq_url rq)) (fw_sent w')"
    using fetch_loop_or_quiet[OF assms(2)] assms(1) loop_allowed by fastforce
qed

text \<open>
  C16. A fetch sends at most one request more than the redirects that it may follow. A result says how many redirects were
  followed, one for each request after the first; its content, title and text are within their limits.
\<close>

theorem fetch_bounds:
  assumes "make_fetcher F False = Inr F" and "fetch F url w = (w', r)"
  shows "\<exists>cs. fw_sent w' = fw_sent w @ cs \<and> int (length cs) \<le> ff_max_redirects F + 1
    \<and> (\<forall>f. r = Inr f \<longrightarrow> bounded_result F (ft_redirect_chain f) f \<and> ft_content_length f \<le> ff_max_bytes F
        \<and> length cs = length (ft_redirect_chain f) + 1)"
proof -
  have lim: "0 \<le> ff_max_redirects F" "0 < ff_max_bytes F"
    using assms(1) by (auto simp: make_fetcher_def andthen_Inr_iff)
  from fetch_loop_or_quiet[OF assms(2)] show ?thesis
  proof
    assume "\<exists>d safe w1. fw_sent w1 = fw_sent w \<and> allowed_url F (sf_normalized safe) \<and> fetch_loop F d safe [] w1 = (w', r)"
    then obtain d safe w1 where 1: "fw_sent w1 = fw_sent w" "fetch_loop F d safe [] w1 = (w', r)" by blast
    obtain cs where cs: "fw_sent w' = fw_sent w @ cs" "int (length cs) \<le> max 0 (ff_max_redirects F) + 1"
        "\<And>f. r = Inr f \<Longrightarrow> \<exists>more. bounded_result F more f \<and> length cs = Suc (length more)"
      using loop_bounds[OF 1(2)] 1(1) by auto
    have "bounded_result F (ft_redirect_chain f) f \<and> ft_content_length f \<le> ff_max_bytes F \<and> length cs = length (ft_redirect_chain f) + 1"
      if "r = Inr f" for f
      using cs(3)[OF that] lim by (auto simp: bounded_result_def)
    then show ?thesis using cs(1,2) lim by (intro exI[of _ cs]) auto
  next
    assume "fw_sent w' = fw_sent w \<and> (\<exists>e. r = Inl e)"
    then show ?thesis using lim by auto
  qed
qed

theorem fetch_connects_safely_witness:
  "list_all (pinned_request (fw_lookups (fst (fetch (sample_fetcher True) sample_source_url sample_fetch_world))))
     (fw_sent (fst (fetch (sample_fetcher True) sample_source_url sample_fetch_world)))
   \<and> length (fw_sent (fst (fetch (sample_fetcher True) sample_source_url sample_fetch_world))) = 1"
proof -
  have "fw_sent sample_fetch_world = []" by (simp add: sample_fetch_world_def)
  from fetch_connects_safely[OF this surjective_pairing] show ?thesis
    using arg_cong[OF sample_redirect_blocked(2), of length] by simp
qed

theorem fetch_bounds_witness:
  "\<exists>cs. fw_sent (fst (fetch (sample_fetcher False) sample_source_url sample_fetch_world)) = cs \<and> length cs \<le> 4"
proof -
  have "make_fetcher (sample_fetcher False) False = Inr (sample_fetcher False)"
    by (simp add: make_fetcher_def sample_fetcher_def require_all.simps)
  from fetch_bounds[OF this surjective_pairing, of sample_source_url sample_fetch_world] show ?thesis
    by (auto simp: sample_fetch_world_def sample_fetcher_def)
qed

end
