(* ===== verification/UrlVerifier.thy ===== *)
theory UrlVerifier
  imports
    UrlFetch
    Interfaces
    ReviewExtraction
begin

text \<open>
  The tools that verify URL and text evidence: \<^verbatim>\<open>openhands_runtime/tools/verification.py\<close>, \<^verbatim>\<open>url_execution.py\<close>,
  \<^verbatim>\<open>url_evidence.py\<close> and \<^verbatim>\<open>text_evidence.py\<close>. The pool of workers is a state machine whose steps are the critical sections of its
  threads. The repository, the fetcher, what the polling thread sees of the future, and the clocks are arguments.
\<close>

section \<open>Observations\<close>

record tool_observation = verification_obs +
  to_error_code :: "str option"

definition reserved_verdict_fields :: "str list" where
  "reserved_verdict_fields = map lit [''score'', ''final_score'', ''learning_status'', ''verified_learning'', ''honest'', ''dishonest'',
     ''fake_learning'']"

text \<open>\<open>_reject_reserved_verdict_fields\<close>: no dictionary at any depth has such a key.\<close>

fun free_of_verdicts :: "json \<Rightarrow> bool" where
  "free_of_verdicts (Scalar v) = True"
| "free_of_verdicts (Arr vs) = list_all free_of_verdicts vs"
| "free_of_verdicts (Obj fs) = list_all (\<lambda>(k, v). k \<notin> set reserved_verdict_fields \<and> free_of_verdicts v) fs"

definition observation_checks :: "tool_observation \<Rightarrow> (bool \<times> exc) list" where
  "observation_checks x =
     [(free_of_verdicts (Obj (vo_facts x)), ValueError ''reserved verdict field is not allowed''),
      (\<not> blank (vo_evidence_id x) \<and> \<not> blank (vo_capability x) \<and> \<not> blank (vo_verifier_version x),
       ValueError ''verification identifiers must not be empty''),
      (vo_source_refs x \<noteq> [] \<and> list_all (\<lambda>r. \<not> blank r) (vo_source_refs x),
       ValueError ''source_refs must contain non-empty references'')]"

definition make_observation :: "tool_observation \<Rightarrow> exc + tool_observation" where
  "make_observation x = andthen (require_all (observation_checks x)) (\<lambda>_. Inr x)"

definition make_evidence_action :: "str \<Rightarrow> exc + str" where
  "make_evidence_action evidence_id =
     andthen (require (\<not> blank evidence_id) (ValueError ''evidence_id must not be empty'')) (\<lambda>_. Inr evidence_id)"

definition VERIFIER_VERSION :: str where "VERIFIER_VERSION = lit ''1''"

definition error_observation ::
  "string \<Rightarrow> str \<Rightarrow> verification_status \<Rightarrow> string \<Rightarrow> string \<Rightarrow> str list \<Rightarrow> (str \<times> json) list \<Rightarrow> exc + tool_observation" where
  "error_observation capability evidence_id status error_code msg source_refs facts =
     make_observation \<lparr>vo_evidence_id = evidence_id, vo_capability = lit capability, vo_status = status, vo_facts = facts,
       vo_weak_signals = [], vo_source_refs = source_refs, vo_verifier_version = VERIFIER_VERSION,
       vo_safe_error_message = Some (lit msg), to_error_code = Some (lit error_code)\<rparr>"

section \<open>The pool\<close>

text \<open>
  \<open>up_entering\<close> counts the threads that hold a place of the semaphore and wait for the lock, \<open>up_leaving\<close> those that have left
  \<open>_in_flight\<close> and not yet given the place back.
\<close>

record url_pool =
  up_max_in_flight :: int
  up_capacity :: int
  up_closed :: bool
  up_in_flight :: int
  up_submitted :: int
  up_entering :: int
  up_leaving :: int

definition make_pool :: "int \<Rightarrow> int \<Rightarrow> exc + url_pool" where
  "make_pool max_workers max_pending =
     andthen (require (0 < max_workers) (ValueError ''max_workers must be positive'')) (\<lambda>_.
     andthen (require (0 \<le> max_pending) (ValueError ''max_pending must not be negative'')) (\<lambda>_.
     Inr \<lparr>up_max_in_flight = max_workers + max_pending, up_capacity = max_workers + max_pending, up_closed = False,
       up_in_flight = 0, up_submitted = 0, up_entering = 0, up_leaving = 0\<rparr>))"

text \<open>\<open>BoundedSemaphore.release\<close>, which refuses to exceed its initial value.\<close>

definition give_place :: "url_pool \<Rightarrow> exc + url_pool" where
  "give_place p = (if up_capacity p < up_max_in_flight p then Inr (p\<lparr>up_capacity := up_capacity p + 1\<rparr>)
     else Inl (ValueError ''Semaphore released too many times''))"

datatype submit_failure = Url_Execution_Busy | Url_Execution_Pool_Closed | Executor_Failed | Pool_Bug exc

definition take_place :: "url_pool \<Rightarrow> submit_failure + url_pool" where
  "take_place p = (if up_capacity p \<le> 0 then Inl Url_Execution_Busy
     else Inr (p\<lparr>up_capacity := up_capacity p - 1, up_entering := up_entering p + 1\<rparr>))"

text \<open>The critical section of \<open>submit\<close>; \<open>accepted\<close> says whether the executor takes the work.\<close>

definition enter_pool :: "bool \<Rightarrow> url_pool \<Rightarrow> url_pool \<times> (submit_failure + unit)" where
  "enter_pool accepted p0 =
     (let p = p0\<lparr>up_entering := up_entering p0 - 1\<rparr> in
      if up_closed p then (case give_place p of Inl e \<Rightarrow> (p, Inl (Pool_Bug e)) | Inr p' \<Rightarrow> (p', Inl Url_Execution_Pool_Closed))
      else let q = p\<lparr>up_in_flight := up_in_flight p + 1, up_submitted := up_submitted p + 1\<rparr> in
        if accepted then (q, Inr ())
        else (case give_place (q\<lparr>up_in_flight := up_in_flight q - 1\<rparr>) of
            Inl e \<Rightarrow> (q\<lparr>up_in_flight := up_in_flight q - 1\<rparr>, Inl (Pool_Bug e)) | Inr p' \<Rightarrow> (p', Inl Executor_Failed)))"

definition submit_work :: "bool \<Rightarrow> url_pool \<Rightarrow> url_pool \<times> (submit_failure + unit)" where
  "submit_work accepted p = (case take_place p of Inl e \<Rightarrow> (p, Inl e) | Inr p' \<Rightarrow> enter_pool accepted p')"

text \<open>\<open>_release_capacity\<close>, called when a future is done: under the lock, and after it.\<close>

definition leave_flight :: "url_pool \<Rightarrow> url_pool" where
  "leave_flight p = p\<lparr>up_in_flight := up_in_flight p - 1, up_leaving := up_leaving p + 1\<rparr>"

definition finish_leaving :: "url_pool \<Rightarrow> exc + url_pool" where
  "finish_leaving p = give_place (p\<lparr>up_leaving := up_leaving p - 1\<rparr>)"

definition close_pool :: "url_pool \<Rightarrow> url_pool" where
  "close_pool p = p\<lparr>up_closed := True\<rparr>"

inductive pool_step :: "url_pool \<Rightarrow> url_pool \<Rightarrow> bool" where
  take: "take_place p = Inr p' \<Longrightarrow> pool_step p p'"
| enter: "0 < up_entering p \<Longrightarrow> pool_step p (fst (enter_pool accepted p))"
| leave: "0 < up_in_flight p \<Longrightarrow> pool_step p (leave_flight p)"
| finish: "0 < up_leaving p \<Longrightarrow> finish_leaving p = Inr p' \<Longrightarrow> pool_step p p'"
| close: "pool_step p (close_pool p)"

inductive_cases pool_stepE: "pool_step p p'"

definition pool_ok :: "url_pool \<Rightarrow> bool" where
  "pool_ok p \<longleftrightarrow> 0 \<le> up_capacity p \<and> 0 \<le> up_entering p \<and> 0 \<le> up_in_flight p \<and> 0 \<le> up_leaving p
     \<and> up_capacity p + up_entering p + up_in_flight p + up_leaving p = up_max_in_flight p"

lemma pool_step_ok: "pool_ok p \<Longrightarrow> pool_step p p' \<Longrightarrow> pool_ok p'"
  by (erule pool_stepE)
    (auto simp: pool_ok_def take_place_def enter_pool_def leave_flight_def finish_leaving_def close_pool_def give_place_def Let_def
      split: if_splits)

interpretation pool: invariant_system pool_ok pool_step
  by unfold_locales (rule pool_step_ok)

lemma pool_step_fixed: "pool_step p p' \<Longrightarrow> up_max_in_flight p' = up_max_in_flight p \<and> up_submitted p \<le> up_submitted p'
    \<and> (up_closed p \<longrightarrow> up_closed p' \<and> up_submitted p' = up_submitted p \<and> up_in_flight p' \<le> up_in_flight p)"
  by (erule pool_stepE)
    (auto simp: take_place_def enter_pool_def leave_flight_def finish_leaving_def close_pool_def give_place_def Let_def
      split: if_splits)

lemma pool_steps_fixed:
  "pool_step\<^sup>*\<^sup>* p p' \<Longrightarrow> up_max_in_flight p' = up_max_in_flight p \<and> up_submitted p \<le> up_submitted p'
    \<and> (up_closed p \<longrightarrow> up_closed p' \<and> up_submitted p' = up_submitted p \<and> up_in_flight p' \<le> up_in_flight p)"
  by (induction rule: rtranclp_induct) (use pool_step_fixed in \<open>fastforce+\<close>)

text \<open>
  However the threads interleave, a pool never has more work in flight than its bound, and the semaphore is never released too
  often; once it is closed, nothing is submitted any more and the work in flight only falls.
\<close>

theorem pool_bounded:
  assumes "make_pool workers pending = Inr p0" and "pool_step\<^sup>*\<^sup>* p0 p" and "pool_step\<^sup>*\<^sup>* p p'"
  shows "up_in_flight p \<le> workers + pending \<and> 0 \<le> up_in_flight p
    \<and> (\<forall>accepted e. 0 < up_entering p \<longrightarrow> snd (enter_pool accepted p) \<noteq> Inl (Pool_Bug e))
    \<and> (0 < up_leaving p \<longrightarrow> (\<exists>q. finish_leaving p = Inr q))
    \<and> (up_closed p \<longrightarrow> up_submitted p' = up_submitted p \<and> up_in_flight p' \<le> up_in_flight p)"
proof -
  have p0: "pool_ok p0" "up_max_in_flight p0 = workers + pending"
    using assms(1) by (auto simp: make_pool_def andthen_Inr_iff pool_ok_def)
  have ok: "pool_ok p" by (rule pool.steps_inv[OF assms(2) p0(1)])
  have m: "up_max_in_flight p = workers + pending" using pool_steps_fixed[OF assms(2)] p0(2) by simp
  have "snd (enter_pool accepted p) \<noteq> Inl (Pool_Bug e)" if "0 < up_entering p" for accepted e
    using ok that by (auto simp: enter_pool_def give_place_def Let_def pool_ok_def)
  moreover have "\<exists>q. finish_leaving p = Inr q" if "0 < up_leaving p"
    using ok that by (auto simp: finish_leaving_def give_place_def pool_ok_def)
  ultimately show ?thesis using ok m pool_steps_fixed[OF assms(3)] by (auto simp: pool_ok_def)
qed

lemma sample_pool_run: "\<exists>p0 p. make_pool 1 0 = Inr p0 \<and> pool_step\<^sup>*\<^sup>* p0 p \<and> up_in_flight p = 1"
proof -
  let ?p0 = "\<lparr>up_max_in_flight = 1, up_capacity = 1, up_closed = False, up_in_flight = 0, up_submitted = 0, up_entering = 0, up_leaving = 0\<rparr>"
  let ?p1 = "?p0\<lparr>up_capacity := 0, up_entering := 1\<rparr>"
  have "make_pool 1 0 = Inr ?p0" by (simp add: make_pool_def)
  moreover have "pool_step ?p0 ?p1" by (rule pool_step.take) (simp add: take_place_def)
  moreover have "pool_step ?p1 (fst (enter_pool True ?p1))" by (rule pool_step.enter) simp
  moreover have "up_in_flight (fst (enter_pool True ?p1)) = 1" by (simp add: enter_pool_def)
  ultimately show ?thesis by (meson converse_rtranclp_into_rtranclp rtranclp.rtrancl_refl)
qed

theorem pool_bounded_witness: "\<exists>p :: url_pool. up_in_flight p = 1 \<and> up_in_flight p \<le> 1 + (0 :: int)"
proof -
  obtain p0 p where "make_pool 1 0 = Inr p0" "pool_step\<^sup>*\<^sup>* p0 p" "up_in_flight p = 1" using sample_pool_run by blast
  then have "up_in_flight p \<le> 1 + 0" using pool_bounded[of 1 0 p0 p p] by simp
  then show ?thesis using \<open>up_in_flight p = 1\<close> by blast
qed


section \<open>URL evidence\<close>

text \<open>What \<open>future.result\<close> gives in one round of the loop: a timeout, with the future done or not, a cancelled future, or the
  outcome of the work that was submitted.\<close>

datatype poll = Poll_Timeout bool | Poll_Cancelled | Poll_Done

record url_tool =
  ut_urls :: url_env
  ut_session_id :: str
  ut_closed :: "nat \<Rightarrow> bool"
  ut_get_evidence :: "str \<Rightarrow> str \<Rightarrow> exc + evidence"
  ut_providers :: "exc + unit"
  ut_submit :: "submit_failure option"
  ut_timeout :: int
  ut_clock :: "nat \<Rightarrow> int"
  ut_interrupted :: "nat \<Rightarrow> bool"
  ut_poll :: "nat \<Rightarrow> poll"
  ut_fetch :: "str \<Rightarrow> fetch_error + fetched_url"

datatype tool_failure = Submit_Refused submit_failure | Fetch_Failed fetch_error

definition interrupted_error :: fetch_error where
  "interrupted_error = Fetch_Error ''network_timeout'' ''The URL request was interrupted.''"

text \<open>\<open>ut_interrupted\<close> is that the interrupt event of the call is set (by \<open>interrupt\<close> or \<open>close\<close>) or its conversation
  cancelled, at the start of a round; \<open>ut_fetch\<close> is \<open>fetcher.fetch\<close>, for which \<open>\<lambda>url. snd (fetch F url w)\<close> stands when it is the
  bounded fetcher.\<close>

text \<open>The loop of \<open>_fetch_with_deadline\<close>, waiting for the outcome of \<open>work\<close>; None: no answer within \<open>fuel\<close> rounds.\<close>

fun wait_result :: "url_tool \<Rightarrow> (fetch_error + fetched_url) \<Rightarrow> int \<Rightarrow> nat \<Rightarrow> nat \<Rightarrow> (fetch_error + fetched_url) option" where
  "wait_result T work deadline 0 n = None"
| "wait_result T work deadline (Suc fuel) n =
     (if ut_interrupted T n then Some (Inl interrupted_error)
      else if deadline - ut_clock T (n + 1) \<le> 0 then Some (Inl network_timeout)
      else (case ut_poll T n of
          Poll_Cancelled \<Rightarrow> Some (Inl interrupted_error)
        | Poll_Timeout is_done \<Rightarrow> if is_done then Some (Inl network_timeout) else wait_result T work deadline fuel (n + 1)
        | Poll_Done \<Rightarrow> Some work))"

text \<open>The work that is submitted to the pool is the fetch of the source URL.\<close>

definition fetch_with_deadline :: "url_tool \<Rightarrow> str \<Rightarrow> nat \<Rightarrow> (tool_failure + fetched_url) option" where
  "fetch_with_deadline T source_url fuel =
     (if ut_closed T 2 then Some (Inl (Submit_Refused Url_Execution_Pool_Closed))
      else case ut_submit T of
        Some f \<Rightarrow> Some (Inl (Submit_Refused f))
      | None \<Rightarrow> map_option (\<lambda>r. case r of Inl e \<Rightarrow> Inl (Fetch_Failed e) | Inr f \<Rightarrow> Inr f)
          (wait_result T (ut_fetch T source_url) (ut_clock T 0 + ut_timeout T) fuel 0))"

definition network_code :: "string \<Rightarrow> bool" where
  "network_code code \<longleftrightarrow> take (length ''network_'') code = ''network_''"

definition failure_status :: "string \<Rightarrow> verification_status" where
  "failure_status code = (if network_code code then Vs_Inconclusive
     else if code = ''content_type_unsupported'' then Vs_Unsupported else Vs_Failed)"

definition url_error :: "str \<Rightarrow> verification_status \<Rightarrow> string \<Rightarrow> string \<Rightarrow> str list \<Rightarrow> exc + tool_observation" where
  "url_error evidence_id status code msg refs = error_observation ''url'' evidence_id status code msg refs []"

definition failed_fetch :: "str \<Rightarrow> str list \<Rightarrow> tool_failure \<Rightarrow> exc + tool_observation" where
  "failed_fetch evidence_id refs failure = (case failure of
     Submit_Refused Url_Execution_Busy \<Rightarrow>
       url_error evidence_id Vs_Inconclusive ''verifier_busy'' ''URL verification capacity is temporarily unavailable.'' refs
   | Submit_Refused Url_Execution_Pool_Closed \<Rightarrow>
       url_error evidence_id Vs_Inconclusive ''verifier_closed'' ''URL verification is unavailable.'' refs
   | Submit_Refused Executor_Failed \<Rightarrow> Inl (RuntimeError ''cannot schedule new futures'')
   | Submit_Refused (Pool_Bug e) \<Rightarrow> Inl e
   | Fetch_Failed (Policy_Error code msg) \<Rightarrow>
       (if code = ''dns_unavailable'' then url_error evidence_id Vs_Inconclusive ''network_unavailable'' msg refs
        else url_error evidence_id Vs_Failed ''url_blocked'' msg refs)
   | Fetch_Failed (Fetch_Error code msg) \<Rightarrow> url_error evidence_id (failure_status code) code msg refs
   | Fetch_Failed (Escaped e) \<Rightarrow> Inl e
   | Fetch_Failed Escaped_Other \<Rightarrow> Inl (RuntimeError ''unexpected exception''))"

definition opt_text :: "str option \<Rightarrow> json" where
  "opt_text v = (case v of None \<Rightarrow> Scalar JNull | Some s \<Rightarrow> Scalar (JStr s))"

fun redact_all :: "url_env \<Rightarrow> str list \<Rightarrow> exc + json list" where
  "redact_all E [] = Inr []"
| "redact_all E (u # us) = andthen (redact_url E u) (\<lambda>p. andthen (redact_all E us) (\<lambda>ps. Inr (Obj (url_json p) # ps)))"

text \<open>What is recorded of a page: no URL but in its redacted form, and no part of one in the texts.\<close>

definition url_facts :: "url_env \<Rightarrow> str \<Rightarrow> fetched_url \<Rightarrow> public_url \<Rightarrow> exc + (str \<times> json) list" where
  "url_facts E source_url f safe_final =
     (let external = source_url # ft_final_url f # ft_redirect_chain f in
      andthen (redact_all E (ft_redirect_chain f)) (\<lambda>chain.
      andthen (redact_url_text E (ft_title f) external) (\<lambda>title.
      andthen (redact_url_text E (ft_text_excerpt f) external) (\<lambda>excerpt.
      Inr [(lit ''url'', Obj (url_json safe_final)), (lit ''status_code'', jint (ft_status_code f)),
           (lit ''content_type'', jstr (ft_content_type f)), (lit ''content_length'', jint (ft_content_length f)),
           (lit ''redirect_chain'', Arr chain), (lit ''title'', opt_text title), (lit ''text_excerpt'', opt_text excerpt)]))))"

definition url_success :: "url_env \<Rightarrow> str \<Rightarrow> str \<Rightarrow> str list \<Rightarrow> fetched_url \<Rightarrow> exc + tool_observation" where
  "url_success E source_url evidence_id refs f =
     andthen (redact_url E (ft_final_url f)) (\<lambda>safe_final.
     andthen (url_facts E source_url f safe_final) (\<lambda>facts.
     make_observation \<lparr>vo_evidence_id = evidence_id, vo_capability = lit ''url'', vo_status = Vs_Success, vo_facts = facts,
       vo_weak_signals = [], vo_source_refs = refs @ [lit ''url-sha256:'' @ pu_url_sha256 safe_final],
       vo_verifier_version = VERIFIER_VERSION, vo_safe_error_message = None, to_error_code = None\<rparr>))"

definition is_key_error :: "exc \<Rightarrow> bool" where
  "is_key_error e \<longleftrightarrow> (case e of KeyError _ \<Rightarrow> True | _ \<Rightarrow> False)"

definition not_found :: "string \<Rightarrow> str \<Rightarrow> exc + tool_observation" where
  "not_found capability evidence_id = error_observation capability evidence_id Vs_Failed ''evidence_not_found''
     ''Evidence was not found.'' [evidence_id] []"

definition verify_loaded_url :: "url_tool \<Rightarrow> nat \<Rightarrow> evidence \<Rightarrow> (exc + tool_observation) option" where
  "verify_loaded_url T fuel evidence =
     (let evidence_id = ei_evidenceId evidence; refs = [evidence_id, ei_contentHash evidence];
          source_url = strip (case ei_sourceUrl evidence of None \<Rightarrow> [] | Some s \<Rightarrow> s)
      in if ei_evidenceType evidence \<noteq> lit ''url'' then Some (url_error evidence_id Vs_Unsupported ''evidence_type_unsupported''
           ''The evidence type is not supported by this verifier.'' refs)
         else if source_url = [] then Some (url_error evidence_id Vs_Failed ''source_url_missing''
           ''URL evidence does not contain a source URL.'' refs)
         else case ut_providers T of
           Inl e \<Rightarrow> Some (Inl e)
         | Inr _ \<Rightarrow>
           if ut_closed T 1 then Some (url_error evidence_id Vs_Inconclusive ''verifier_closed'' ''URL verification is unavailable.'' refs)
           else map_option (\<lambda>r. case r of
               Inl failure \<Rightarrow> failed_fetch evidence_id refs failure
             | Inr f \<Rightarrow> url_success (ut_urls T) source_url evidence_id refs f) (fetch_with_deadline T source_url fuel))"

definition verify_url :: "url_tool \<Rightarrow> nat \<Rightarrow> str \<Rightarrow> (exc + tool_observation) option" where
  "verify_url T fuel evidence_id =
     (if ut_closed T 0 then Some (url_error evidence_id Vs_Inconclusive ''verifier_closed'' ''URL verification is unavailable.'' [evidence_id])
      else case ut_get_evidence T (ut_session_id T) evidence_id of
        Inl e \<Rightarrow> Some (if is_key_error e then not_found ''url'' evidence_id else Inl e)
      | Inr evidence \<Rightarrow> verify_loaded_url T fuel evidence)"

section \<open>Text evidence\<close>

definition GENERIC_LEARNING_CLAIMS :: "str list" where
  "GENERIC_LEARNING_CLAIMS = map lit [''i learned a lot'', ''learned many things'', ''studied a lot'', ''learned a lot'']"

definition EXAMPLE_MARKERS :: "str list" where
  "EXAMPLE_MARKERS = map lit [''for example'', ''concrete example'', ''example'', ''e.g.'', ''compared'']"

definition text_unit_count :: "unicode \<Rightarrow> str \<Rightarrow> int" where
  "text_unit_count U s =
     (let cjk_count = length (filter is_cjk s) in
      if cjk_count = 0 then int (length (split_ws s))
      else int cjk_count + int (length (runs_from (u_word U) [] (map (\<lambda>c. if is_cjk c then 32 else c) s))))"

text \<open>The line starts of \<open>_STRUCTURE_RE\<close>: a heading, a numbered item, a bullet; or a code fence anywhere.\<close>

definition heading_start :: "str \<Rightarrow> bool" where
  "heading_start s \<longleftrightarrow> (let n = length (takeWhile (\<lambda>c. c = 35) s) in 1 \<le> n \<and> n \<le> 6 \<and> drop n s \<noteq> [] \<and> py_isspace (hd (drop n s)))"

definition numbered_start :: "(nat \<Rightarrow> bool) \<Rightarrow> str \<Rightarrow> bool" where
  "numbered_start digit s \<longleftrightarrow> (case dropWhile digit s of
     c # d # _ \<Rightarrow> takeWhile digit s \<noteq> [] \<and> c \<in> {46, 41} \<and> py_isspace d | _ \<Rightarrow> False)"

definition bullet_start :: "str \<Rightarrow> bool" where
  "bullet_start s \<longleftrightarrow> (case s of c # d # _ \<Rightarrow> c \<in> {45, 42} \<and> py_isspace d | _ \<Rightarrow> False)"

definition structured_line :: "(nat \<Rightarrow> bool) \<Rightarrow> str \<Rightarrow> bool" where
  "structured_line digit s \<longleftrightarrow> heading_start s \<or> numbered_start digit s \<or> bullet_start s"

fun structured_after :: "(nat \<Rightarrow> bool) \<Rightarrow> str \<Rightarrow> bool" where
  "structured_after digit [] = False"
| "structured_after digit (c # s) = (c = 10 \<and> structured_line digit s \<or> structured_after digit s)"

definition structured :: "(nat \<Rightarrow> bool) \<Rightarrow> str \<Rightarrow> bool" where
  "structured digit s \<longleftrightarrow> structured_line digit s \<or> structured_after digit s \<or> contains (lit ''```'') s"

definition text_weak_signals :: "unicode \<Rightarrow> str \<Rightarrow> str list" where
  "text_weak_signals U s =
     (if text_unit_count U s < 9 then [lit ''text_too_short''] else [])
     @ (if list_ex (\<lambda>p. contains p (u_lower U s)) GENERIC_LEARNING_CLAIMS then [lit ''generic_learning_claim''] else [])"

definition text_facts :: "unicode \<Rightarrow> (nat \<Rightarrow> bool) \<Rightarrow> str \<Rightarrow> str \<Rightarrow> (str \<times> json) list" where
  "text_facts U digit s content_hash =
     [(lit ''has_text'', Scalar (JBool (s \<noteq> []))), (lit ''character_count'', jint (int (length s))),
      (lit ''word_count'', jint (text_unit_count U s)),
      (lit ''has_concrete_example'', Scalar (JBool (list_ex (\<lambda>m. contains m (u_lower U s)) EXAMPLE_MARKERS))),
      (lit ''has_structured_output'', Scalar (JBool (structured digit s))), (lit ''content_hash'', jstr content_hash)]"

definition verify_text :: "unicode \<Rightarrow> (nat \<Rightarrow> bool) \<Rightarrow> (str \<Rightarrow> str \<Rightarrow> exc + evidence) \<Rightarrow> str \<Rightarrow> str \<Rightarrow> exc + tool_observation" where
  "verify_text U digit get_evidence session_id evidence_id = (case get_evidence session_id evidence_id of
     Inl e \<Rightarrow> if is_key_error e then not_found ''text'' evidence_id else Inl e
   | Inr evidence \<Rightarrow>
       let refs = [ei_evidenceId evidence, ei_contentHash evidence];
           s = strip (case ei_textContent evidence of None \<Rightarrow> [] | Some t \<Rightarrow> t)
       in if ei_evidenceType evidence \<noteq> lit ''text''
          then error_observation ''text'' (ei_evidenceId evidence) Vs_Unsupported ''evidence_type_unsupported''
            ''The evidence type is not supported by this verifier.'' refs [(lit ''content_hash'', jstr (ei_contentHash evidence))]
          else make_observation \<lparr>vo_evidence_id = ei_evidenceId evidence, vo_capability = lit ''text'', vo_status = Vs_Success,
            vo_facts = text_facts U digit s (ei_contentHash evidence), vo_weak_signals = text_weak_signals U s,
            vo_source_refs = refs, vo_verifier_version = VERIFIER_VERSION, vo_safe_error_message = None, to_error_code = None\<rparr>)"

section \<open>Properties of the URL verifier\<close>

text \<open>
  The wait ends: once the clock of the polling thread is at the deadline, that many rounds of fuel are enough, and more fuel
  does not change the answer.
\<close>

lemma wait_result_ends:
  assumes "deadline \<le> ut_clock T (n + k + 1)" and "k < fuel"
  shows "\<exists>r. wait_result T work deadline fuel n = Some r"
  using assms
proof (induction k arbitrary: n fuel)
  case 0
  then obtain f where "fuel = Suc f" by (cases fuel) auto
  then show ?case using 0 by simp
next
  case (Suc k)
  then obtain f where f: "fuel = Suc f" by (cases fuel) auto
  have "\<exists>r. wait_result T work deadline f (n + 1) = Some r" using Suc f by (intro Suc.IH) simp_all
  then show ?case using f by (auto split: poll.split)
qed

text \<open>A verification of a URL returns or raises if the clock of the thread that waits reaches the deadline.\<close>

theorem verify_url_ends:
  assumes "ut_clock T 0 + ut_timeout T \<le> ut_clock T (k + 1)" and "k < fuel"
  shows "\<exists>r. verify_url T fuel evidence_id = Some r"
proof -
  have "\<exists>r. wait_result T work (ut_clock T 0 + ut_timeout T) fuel 0 = Some r" for work
    using wait_result_ends[of "ut_clock T 0 + ut_timeout T" T 0 k fuel] assms by auto
  then have "\<exists>r. fetch_with_deadline T url fuel = Some r" for url
    by (auto simp: fetch_with_deadline_def split: option.split)
  then show ?thesis
    by (fastforce simp: verify_url_def verify_loaded_url_def Let_def split: sum.split option.split)
qed

lemma make_observation_id: "make_observation x = Inr y \<Longrightarrow> y = x \<and> list_all fst (observation_checks x)"
  by (auto simp: make_observation_def andthen_Inr_iff)

lemma error_observation_shape:
  "error_observation c i st code msg refs facts = Inr x \<Longrightarrow> vo_status x = st \<and> vo_facts x = facts \<and> to_error_code x = Some (lit code)
     \<and> vo_evidence_id x = i"
  by (auto simp: error_observation_def dest!: make_observation_id)

text \<open>The outcome that is taken is that of the work, in a round before the deadline, and no round up to it is interrupted.\<close>

definition taken_in :: "url_tool \<Rightarrow> int \<Rightarrow> nat \<Rightarrow> nat \<Rightarrow> bool" where
  "taken_in T deadline m n \<longleftrightarrow> m \<le> n \<and> ut_poll T n = Poll_Done
     \<and> (\<forall>k. m \<le> k \<and> k \<le> n \<longrightarrow> \<not> ut_interrupted T k \<and> ut_clock T (k + 1) < deadline)"

lemma wait_result_outcome:
  "wait_result T work deadline fuel m = Some (Inr f) \<Longrightarrow> work = Inr f \<and> (\<exists>n. taken_in T deadline m n)"
proof (induction fuel arbitrary: m)
  case (Suc fuel)
  then have now: "\<not> ut_interrupted T m" "ut_clock T (m + 1) < deadline" by (auto split: if_splits)
  show ?case
  proof (cases "ut_poll T m")
    case Poll_Done
    have "k = m" if "m \<le> k" "k \<le> m" for k using that by simp
    then have "taken_in T deadline m m" using now Poll_Done by (auto simp: taken_in_def)
    then show ?thesis using Suc.prems now Poll_Done by auto
  next
    case (Poll_Timeout d)
    then have "wait_result T work deadline fuel (m + 1) = Some (Inr f)" using Suc.prems now by (auto split: if_splits)
    then obtain n where n: "work = Inr f" "taken_in T deadline (m + 1) n" using Suc.IH by blast
    have "\<not> ut_interrupted T k \<and> ut_clock T (k + 1) < deadline" if "m \<le> k" "k \<le> n" for k
      using that now n(2) by (cases "k = m") (auto simp: taken_in_def)
    then have "taken_in T deadline m n" using n(2) by (simp add: taken_in_def)
    then show ?thesis using n(1) by blast
  qed (use Suc.prems now in simp)
qed simp

lemma url_error_shape: "url_error i st code msg refs = Inr x \<Longrightarrow> st \<noteq> Vs_Success \<Longrightarrow> vo_status x \<noteq> Vs_Success \<and> vo_facts x = []"
  by (auto simp: url_error_def dest: error_observation_shape)

lemma failed_fetch_shape: "failed_fetch i refs failure = Inr x \<Longrightarrow> vo_status x \<noteq> Vs_Success \<and> vo_facts x = []"
  by (auto simp: failed_fetch_def failure_status_def dest!: url_error_shape split: tool_failure.splits submit_failure.splits fetch_error.splits if_splits)

lemma url_success_status: "url_success E source i refs f = Inr x \<Longrightarrow> vo_status x = Vs_Success"
  by (auto simp: url_success_def andthen_Inr_iff dest!: make_observation_id)

text \<open>
  C17. A URL verification succeeds only for URL evidence of the session with a source URL, and only when fetching exactly that
  URL gave the page: the verifier was open at each of its three checks, the pool took the fetch, and the call was neither
  interrupted (as closing the verifier does) nor cancelled nor past its deadline at any round of waiting up to the one that
  took the page. Its facts are those of the page, redacted, and it refers to the evidence, its hash and the digest of the final
  URL. Every other observation carries no facts.
\<close>

theorem verified_means_fetched:
  assumes "verify_url T fuel evidence_id = Some (Inr x)"
  shows "if vo_status x = Vs_Success
    then \<exists>evidence source f n safe_final. ut_get_evidence T (ut_session_id T) evidence_id = Inr evidence
      \<and> ei_evidenceType evidence = lit ''url'' \<and> source = strip (case ei_sourceUrl evidence of None \<Rightarrow> [] | Some s \<Rightarrow> s)
      \<and> source \<noteq> [] \<and> \<not> ut_closed T 0 \<and> \<not> ut_closed T 1 \<and> \<not> ut_closed T 2 \<and> ut_submit T = None
      \<and> ut_fetch T source = Inr f \<and> ut_poll T n = Poll_Done
      \<and> (\<forall>k \<le> n. \<not> ut_interrupted T k \<and> ut_clock T (k + 1) < ut_clock T 0 + ut_timeout T)
      \<and> redact_url (ut_urls T) (ft_final_url f) = Inr safe_final
      \<and> url_facts (ut_urls T) source f safe_final = Inr (vo_facts x)
      \<and> vo_evidence_id x = ei_evidenceId evidence
      \<and> vo_source_refs x = [ei_evidenceId evidence, ei_contentHash evidence, lit ''url-sha256:'' @ pu_url_sha256 safe_final]
    else vo_facts x = []"
proof (cases "vo_status x = Vs_Success")
  case False
  then show ?thesis using assms
    by (auto simp: verify_url_def verify_loaded_url_def not_found_def Let_def
        dest!: url_error_shape dest: error_observation_shape split: if_splits sum.splits option.splits)
      (metis failed_fetch_shape url_success_status sum.exhaust)
next
  case True
  have open0: "\<not> ut_closed T 0" using assms True by (auto simp: verify_url_def dest!: url_error_shape)
  obtain evidence where e: "ut_get_evidence T (ut_session_id T) evidence_id = Inr evidence"
      and loaded: "verify_loaded_url T fuel evidence = Some (Inr x)"
    using assms True open0
    by (cases "ut_get_evidence T (ut_session_id T) evidence_id")
      (auto simp: verify_url_def not_found_def dest!: error_observation_shape split: if_splits)
  let ?source = "strip (case ei_sourceUrl evidence of None \<Rightarrow> [] | Some s \<Rightarrow> s)"
  let ?refs = "[ei_evidenceId evidence, ei_contentHash evidence]"
  have guards: "ei_evidenceType evidence = lit ''url''" "?source \<noteq> []" "\<not> ut_closed T 1"
    using loaded True by (auto simp: verify_loaded_url_def Let_def dest!: url_error_shape split: if_splits sum.splits)
  obtain r where r: "fetch_with_deadline T ?source fuel = Some r"
      "(case r of Inl failure \<Rightarrow> failed_fetch (ei_evidenceId evidence) ?refs failure
        | Inr f \<Rightarrow> url_success (ut_urls T) ?source (ei_evidenceId evidence) ?refs f) = Inr x"
    using loaded guards by (cases "ut_providers T") (auto simp: verify_loaded_url_def Let_def)
  obtain f where f: "r = Inr f" using r(2) True by (cases r) (auto dest!: failed_fetch_shape)
  have sent: "\<not> ut_closed T 2" "ut_submit T = None"
    using r(1) f by (auto simp: fetch_with_deadline_def split: if_splits option.splits)
  then obtain y where y: "wait_result T (ut_fetch T ?source) (ut_clock T 0 + ut_timeout T) fuel 0 = Some y"
      "(case y of Inl e \<Rightarrow> Inl (Fetch_Failed e) | Inr f \<Rightarrow> Inr f) = r"
    using r(1) by (auto simp: fetch_with_deadline_def)
  then have "y = Inr f" using f by (auto split: sum.splits)
  from wait_result_outcome[OF y(1)[unfolded this]]
  obtain n where n: "ut_fetch T ?source = Inr f" "taken_in T (ut_clock T 0 + ut_timeout T) 0 n" by blast
  obtain safe_final facts where s: "redact_url (ut_urls T) (ft_final_url f) = Inr safe_final"
      "url_facts (ut_urls T) ?source f safe_final = Inr facts" "vo_facts x = facts" "vo_evidence_id x = ei_evidenceId evidence"
      "vo_source_refs x = ?refs @ [lit ''url-sha256:'' @ pu_url_sha256 safe_final]"
    using r(2) f by (auto simp: url_success_def andthen_Inr_iff dest!: make_observation_id)
  have "ut_poll T n = Poll_Done \<and> (\<forall>k \<le> n. \<not> ut_interrupted T k \<and> ut_clock T (k + 1) < ut_clock T 0 + ut_timeout T)"
    using n(2) by (simp add: taken_in_def)
  then show ?thesis using True e guards open0 sent n(1) s by auto
qed

text \<open>The part of a redaction that the projection of the audit log looks at again.\<close>

definition web_origin :: "public_url \<Rightarrow> bool" where
  "web_origin q \<longleftrightarrow> (pu_scheme q = lit ''http'' \<or> pu_scheme q = lit ''https'') \<and> pu_hostname q \<noteq> [] \<and> pu_port q \<noteq> Some 0"

lemma redact_all_stable:
  assumes "lower_ok E" and "\<And>bs. length (ue_sha256 E bs) = 64 \<and> list_all lower_hex (ue_sha256 E bs)"
  shows "redact_all E us = Inr vs \<Longrightarrow> (\<And>u q. u \<in> set us \<Longrightarrow> redact_url E u = Inr q \<Longrightarrow> web_origin q) \<Longrightarrow>
    safe_redirects E vs = Inr (vs, [])"
proof (induction us arbitrary: vs)
  case (Cons u us)
  obtain p ps where p: "redact_url E u = Inr p" "redact_all E us = Inr ps" "vs = Obj (url_json p) # ps"
    using Cons.prems(1) by (auto simp: andthen_Inr_iff)
  have "web_origin p" using Cons.prems(2)[of u p] p(1) by simp
  then have "safe_url_metadata E (url_json p) = Inr (Some p)"
    using redacted_again[OF assms p(1)] by (simp add: web_origin_def)
  moreover have "safe_redirects E ps = Inr (ps, [])" by (rule Cons.IH[OF p(2)], rule Cons.prems(2)) simp_all
  ultimately show ?case using p(3) by simp
qed simp

lemma redact_nothing: "ue_enumerate E [] = [] \<Longrightarrow> redact_url_text E t [] = Inr t"
  by (cases t) (simp_all add: redact_url_text_def)

text \<open>
  The facts of a verified page pass through the projection to the audit log unchanged: the log shows the same dictionary.
\<close>

theorem verified_facts_projected:
  assumes "lower_ok E" and "\<And>bs. length (ue_sha256 E bs) = 64 \<and> list_all lower_hex (ue_sha256 E bs)" and "ue_enumerate E [] = []"
    and "redact_url E (ft_final_url f) = Inr safe_final" and "url_facts E source f safe_final = Inr facts"
    and "\<And>u q. u \<in> set (ft_final_url f # ft_redirect_chain f) \<Longrightarrow> redact_url E u = Inr q \<Longrightarrow> web_origin q"
  shows "\<exists>projected. sanitize_facts E (lit ''url'') facts = Inr projected \<and> map_of projected = map_of facts"
proof -
  obtain chain title excerpt where c: "redact_all E (ft_redirect_chain f) = Inr chain" and
    facts: "facts = [(lit ''url'', Obj (url_json safe_final)), (lit ''status_code'', jint (ft_status_code f)),
           (lit ''content_type'', jstr (ft_content_type f)), (lit ''content_length'', jint (ft_content_length f)),
           (lit ''redirect_chain'', Arr chain), (lit ''title'', opt_text title), (lit ''text_excerpt'', opt_text excerpt)]"
    using assms(5) by (auto simp: url_facts_def Let_def andthen_Inr_iff)
  have get: "jget ''url'' facts = Obj (url_json safe_final)" "jget ''redirect_chain'' facts = Arr chain"
      "jget ''status_code'' facts = jint (ft_status_code f)" "jget ''content_type'' facts = jstr (ft_content_type f)"
      "jget ''content_length'' facts = jint (ft_content_length f)" "jget ''title'' facts = opt_text title"
      "jget ''text_excerpt'' facts = opt_text excerpt"
    by (simp_all add: facts jget_def)
  have "web_origin safe_final" using assms(6)[of "ft_final_url f" safe_final] assms(4) by simp
  then have "safe_url_metadata E (url_json safe_final) = Inr (Some safe_final)"
    using redacted_again[OF assms(1,2,4)] by (simp add: web_origin_def)
  then have current: "safe_current E facts = Inr (Some safe_final, [])" by (simp add: safe_current_def get)
  have texts: "safe_text_fact E k [] facts = Inr [(lit k, opt_text t)]" if "jget k facts = opt_text t" for k t
    using that redact_nothing[OF assms(3)] by (cases t) (simp_all add: safe_text_fact_def opt_text_def)
  have "safe_redirects E chain = Inr (chain, [])" by (rule redact_all_stable[OF assms(1,2) c]) (use assms(6) in auto)
  then show ?thesis
    by (simp add: sanitize_facts_def sanitize_url_facts_def current get texts keep_fact_def is_jint_def is_jstr_def jint_def jstr_def)
      (rule ext, simp add: facts jint_def jstr_def)
qed


section \<open>A sample\<close>

definition sample_evidence :: "string \<Rightarrow> evidence" where
  "sample_evidence kind = \<lparr>ei_evidenceId = lit ''ev1'', ei_evidenceType = lit kind, ei_contentHash = lit ''h1'',
     ei_textContent = Some (lit ''1. compared two lists''), ei_sourceUrl = Some (lit ''https://example.org/a''), ei_metadata = []\<rparr>"

definition sample_page :: fetched_url where
  "sample_page = \<lparr>ft_final_url = lit ''https://example.org/a'', ft_status_code = 200, ft_content_type = lit ''text/plain'',
     ft_content_length = 2, ft_redirect_chain = [], ft_title = None, ft_text_excerpt = Some (lit ''hi'')\<rparr>"

definition sample_sha_env :: url_env where
  "sample_sha_env = sample_fetch_env\<lparr>ue_sha256 := (\<lambda>bs. replicate 64 48)\<rparr>"

definition sample_tool :: url_tool where
  "sample_tool = \<lparr>ut_urls = sample_sha_env, ut_session_id = lit ''s'', ut_closed = (\<lambda>n. False),
     ut_get_evidence = (\<lambda>s i. Inr (sample_evidence ''url'')), ut_providers = Inr (), ut_submit = None, ut_timeout = 10,
     ut_clock = (\<lambda>n. int n), ut_interrupted = (\<lambda>n. False),
     ut_poll = (\<lambda>n. if n < 2 then Poll_Timeout False else Poll_Done), ut_fetch = (\<lambda>url. Inr sample_page)\<rparr>"

theorem verify_url_ends_witness: "\<exists>r. verify_url sample_tool 12 (lit ''ev1'') = Some r"
  by (rule verify_url_ends[of _ 9]) (simp_all add: sample_tool_def)

lemma sample_verified: "case verify_url sample_tool 12 (lit ''ev1'') of Some (Inr x) \<Rightarrow> vo_status x = Vs_Success | _ \<Rightarrow> False"
  by code_simp

theorem verified_means_fetched_witness:
  "\<exists>x. verify_url sample_tool 12 (lit ''ev1'') = Some (Inr x) \<and> length (vo_source_refs x) = 3"
proof -
  obtain x where x: "verify_url sample_tool 12 (lit ''ev1'') = Some (Inr x)" "vo_status x = Vs_Success"
    using sample_verified by (auto split: option.splits sum.splits)
  then show ?thesis using verified_means_fetched[OF x(1)] by auto
qed

lemma sample_page_facts:
  "case redact_url sample_sha_env (ft_final_url sample_page) of Inl _ \<Rightarrow> False
   | Inr q \<Rightarrow> pu_scheme q = lit ''https'' \<and> pu_hostname q = lit ''example.org'' \<and> pu_port q = None
     \<and> (case url_facts sample_sha_env (lit ''https://example.org/a'') sample_page q of Inl _ \<Rightarrow> False | Inr fs \<Rightarrow> length fs = 7)"
  by code_simp

theorem verified_facts_projected_witness:
  "\<exists>facts projected. sanitize_facts sample_sha_env (lit ''url'') facts = Inr projected \<and> map_of projected = map_of facts \<and> length facts = 7"
proof -
  obtain q facts where q: "redact_url sample_sha_env (ft_final_url sample_page) = Inr q" "web_origin q"
      and facts: "url_facts sample_sha_env (lit ''https://example.org/a'') sample_page q = Inr facts" "length facts = 7"
    using sample_page_facts by (auto simp: web_origin_def split: sum.splits)
  have "lower_ok sample_sha_env"
    using sample_env_lower by (simp add: lower_ok_def sample_sha_env_def sample_fetch_env_def sample_url_env_def)
  moreover have "length (ue_sha256 sample_sha_env bs) = 64 \<and> list_all lower_hex (ue_sha256 sample_sha_env bs)" for bs
    by (simp add: sample_sha_env_def list_all_iff lower_hex_def ascii_digit_def)
  moreover have "ue_enumerate sample_sha_env [] = []" by (simp add: sample_sha_env_def sample_fetch_env_def)
  moreover have "web_origin p" if "u \<in> set (ft_final_url sample_page # ft_redirect_chain sample_page)" "redact_url sample_sha_env u = Inr p"
    for u p using that q by (simp add: sample_page_def)
  ultimately have "\<exists>projected. sanitize_facts sample_sha_env (lit ''url'') facts = Inr projected \<and> map_of projected = map_of facts"
    using verified_facts_projected[OF _ _ _ q(1) facts(1)] by blast
  then show ?thesis using facts(2) by blast
qed

text \<open>The facts of a text never contain a verdict, whatever the text is, so that an observation is always built for evidence with an
  identifier and a hash.\<close>

lemma text_facts_free: "free_of_verdicts (Obj (text_facts U digit s h))"
  by (simp add: text_facts_def reserved_verdict_fields_def jint_def jstr_def)

text \<open>
  The text verifier answers for every evidence with a visible identifier and hash; it succeeds exactly for text evidence, calls a
  text short exactly below nine lexical units, and refers to the evidence and its hash.
\<close>

theorem verify_text_correct:
  assumes "get_evidence session_id evidence_id = Inr evidence" and "\<not> blank (ei_evidenceId evidence)" and "\<not> blank (ei_contentHash evidence)"
  shows "\<exists>x. verify_text U digit get_evidence session_id evidence_id = Inr x
    \<and> (vo_status x = Vs_Success \<longleftrightarrow> ei_evidenceType evidence = lit ''text'')
    \<and> (vo_status x = Vs_Success \<longrightarrow> (lit ''text_too_short'' \<in> set (vo_weak_signals x)
        \<longleftrightarrow> text_unit_count U (strip (case ei_textContent evidence of None \<Rightarrow> [] | Some t \<Rightarrow> t)) < 9))
    \<and> vo_source_refs x = [ei_evidenceId evidence, ei_contentHash evidence]"
proof -
  have names: "\<not> blank (lit ''text'')" "\<not> blank VERIFIER_VERSION" by code_simp+
  have free: "free_of_verdicts (Obj [(lit ''content_hash'', jstr h)])" for h
    by (simp add: reserved_verdict_fields_def jstr_def)
  show ?thesis
  proof (cases "ei_evidenceType evidence = lit ''text''")
    case True
    then show ?thesis using assms names text_facts_free
      by (simp add: verify_text_def Let_def make_observation_def observation_checks_def require_all.simps(2) text_weak_signals_def)
  next
    case False
    then show ?thesis using assms names free
      by (simp add: verify_text_def Let_def error_observation_def make_observation_def observation_checks_def require_all.simps(2))
  qed
qed

theorem verify_text_correct_witness:
  "\<exists>x. verify_text ascii ascii_digit (\<lambda>s i. Inr (sample_evidence ''text'')) (lit ''s'') (lit ''ev1'') = Inr x \<and> vo_status x = Vs_Success"
proof -
  have "\<not> blank (ei_evidenceId (sample_evidence ''text''))" "\<not> blank (ei_contentHash (sample_evidence ''text''))" by code_simp+
  from verify_text_correct[of "\<lambda>s i. Inr (sample_evidence ''text'')" "lit ''s''" "lit ''ev1''", OF refl this, of ascii ascii_digit] show ?thesis
    by (auto simp: sample_evidence_def)
qed

end
