(* ===== verification/Projector.thy ===== *)
theory Projector
  imports UrlVerifier Urls AuditLog "HOL-Library.AList" "HOL-Library.Sublist"
begin

text \<open>
  The projection of the agent's native events into the audit log: \<^verbatim>\<open>openhands_runtime/projector.py\<close>, over either of the two
  stores of \<^verbatim>\<open>AuditLog\<close>. The locale \<open>source_log\<close> is what the projector relies on; both stores are interpreted. The SDK's
  dumps of actions and observations, \<open>json.loads\<close> and \<open>uuid5\<close> are arguments.
\<close>

section \<open>Native events\<close>

datatype sdk_action =
    Sdk_Reference str | Sdk_Legacy_Reference str | Sdk_Learner_Input | Sdk_Finish | Sdk_Other_Action

datatype sdk_observation =
    Sdk_Verification tool_observation
  | Sdk_Legacy_Verification str str "str list" str "str list" "str list"
  | Sdk_Other_Observation

text \<open>A message has its source and its content, whose items are texts or something else; an action and an observation have
  the dump the SDK makes of them.\<close>

datatype sdk_body =
    Sdk_Message str "str option list"
  | Sdk_Action sdk_action payload str str
  | Sdk_Observation sdk_observation payload str
  | Sdk_Error str str
  | Sdk_Other_Event

record sdk_event =
  sx_id :: str
  sx_class :: str
  sx_body :: sdk_body

record projection_env =
  pn_urls :: url_env
  pn_loads :: "str \<Rightarrow> exc + json"
  pn_question_hash :: "payload \<Rightarrow> str"

record projector =
  pj_session_id :: str
  pj_conversation_id :: str
  pj_callback_index :: int

section \<open>Payloads\<close>

text \<open>\<open>dict.update\<close>: the keys that are there keep their place.\<close>

definition dict_update :: "payload \<Rightarrow> payload \<Rightarrow> payload" where
  "dict_update p q = fold (\<lambda>(k, v). AList.update k v) q p"

definition metadata :: "projector \<Rightarrow> sdk_event \<Rightarrow> int \<Rightarrow> str option \<Rightarrow> str list \<Rightarrow> payload" where
  "metadata P e index tool_call_id related =
     [(lit ''sourceRuntime'', jstr (lit ''openhands-local'')), (lit ''runtimeSource'', jstr (lit ''openhands-local'')),
      (lit ''sourceConversationId'', jstr (pj_conversation_id P)), (source_key, jstr (sx_id e)),
      (lit ''sourceOpenHandsEventType'', jstr (sx_class e)), (lit ''sourceOpenHandsEventIndex'', jint index),
      (lit ''relatedEvidenceIds'', Arr (map jstr related)), (lit ''sessionId'', jstr (pj_session_id P))]
     @ (case tool_call_id of None \<Rightarrow> [] | Some c \<Rightarrow> [(lit ''sourceToolCallId'', jstr c)])"

definition question_id_for :: "projection_env \<Rightarrow> payload \<Rightarrow> str" where
  "question_id_for E dump = lit ''q_'' @ pn_question_hash E dump"

text \<open>The text of a message read as a JSON object; text that is no JSON and JSON that is no object give None.\<close>

definition is_decode_error :: "exc \<Rightarrow> bool" where
  "is_decode_error e \<longleftrightarrow> e = ValueError ''JSONDecodeError''"

definition message_envelope :: "projection_env \<Rightarrow> str option list \<Rightarrow> exc + payload option" where
  "message_envelope E content = (case pn_loads E (concat (List.map_filter id content)) of
     Inl e \<Rightarrow> if is_decode_error e then Inr None else Inl e
   | Inr (Obj fs) \<Rightarrow> Inr (Some fs)
   | Inr _ \<Rightarrow> Inr None)"

definition is_obj :: "json \<Rightarrow> bool" where
  "is_obj v \<longleftrightarrow> (case v of Obj _ \<Rightarrow> True | _ \<Rightarrow> False)"

text \<open>\<open>dict(x)\<close> of a JSON value: the pairs of a list may be lists, texts or objects of length two. A key that is no text
  counts as an error.\<close>

fun dict_pair :: "json \<Rightarrow> exc + str \<times> json" where
  "dict_pair (Arr [Scalar (JStr k), v]) = Inr (k, v)"
| "dict_pair (Obj [(k, _), (l, _)]) = Inr (k, jstr l)"
| "dict_pair (Scalar (JStr [a, b])) = Inr ([a], jstr [b])"
| "dict_pair _ = Inl (TypeError ''dictionary update sequence'')"

fun dict_pairs :: "json list \<Rightarrow> exc + payload" where
  "dict_pairs [] = Inr []"
| "dict_pairs (v # vs) = andthen (dict_pair v) (\<lambda>p. andthen (dict_pairs vs) (\<lambda>ps. Inr (p # ps)))"

definition dict_of :: "json \<Rightarrow> exc + payload" where
  "dict_of v = (case v of
     Obj fs \<Rightarrow> Inr fs
   | Arr vs \<Rightarrow> andthen (dict_pairs vs) (\<lambda>ps. Inr (dict_update [] ps))
   | Scalar (JStr []) \<Rightarrow> Inr []
   | Scalar (JStr _) \<Rightarrow> Inl (ValueError ''dictionary update sequence element #0 has length 1; 2 is required'')
   | Scalar _ \<Rightarrow> Inl (TypeError ''object is not iterable''))"

text \<open>\<open>product_payload or envelope[key]\<close>, where the payload is None or an object and the empty object is false.\<close>

definition payload_or :: "payload option \<Rightarrow> payload \<Rightarrow> string \<Rightarrow> exc + json" where
  "payload_or product envelope key = (case product of
     Some (f # fs) \<Rightarrow> Inr (Obj (f # fs))
   | _ \<Rightarrow> (case map_of envelope (lit key) of None \<Rightarrow> Inl (KeyError key) | Some v \<Rightarrow> Inr v))"

definition carries :: "payload option \<Rightarrow> payload \<Rightarrow> string \<Rightarrow> bool" where
  "carries product envelope key \<longleftrightarrow> product \<noteq> None \<or> is_obj (jget key envelope)"

type_synonym description = "event_type \<times> actor \<times> payload \<times> str list"

definition describe_goal :: "payload option \<Rightarrow> payload \<Rightarrow> exc + description option" where
  "describe_goal product envelope =
     andthen (payload_or product envelope ''goal'') (\<lambda>v.
     andthen (dict_of v) (\<lambda>p. Inr (Some (Goal_Submitted, User, p, []))))"

definition describe_evidence :: "projection_env \<Rightarrow> payload option \<Rightarrow> payload \<Rightarrow> exc + description option" where
  "describe_evidence E product envelope =
     andthen (payload_or product envelope ''evidence'') (\<lambda>v. case v of
       Obj fs \<Rightarrow> andthen (safe_evidence_payload (pn_urls E) fs) (\<lambda>p.
         Inr (Some (Evidence_Submitted, User, p, case jget ''evidenceId'' p of Scalar (JStr i) \<Rightarrow> [i] | _ \<Rightarrow> [])))
     | _ \<Rightarrow> Inl (TypeError ''evidence has no attribute get''))"

definition describe_answer :: "payload option \<Rightarrow> payload \<Rightarrow> description option" where
  "describe_answer product envelope =
     (let answer = (case product of Some (f # fs) \<Rightarrow> f # fs | _ \<Rightarrow> envelope);
          question = (case map_of answer (lit ''questionId'') of Some v \<Rightarrow> v | None \<Rightarrow> jget ''question_id'' envelope)
      in case (question, jget ''answer'' answer) of
        (Scalar (JStr q), Scalar (JStr a)) \<Rightarrow>
          Some (Answer_Submitted, User, [(lit ''questionId'', jstr q), (lit ''answer'', jstr a)], [])
      | _ \<Rightarrow> None)"

definition describe_message ::
  "projection_env \<Rightarrow> projector \<Rightarrow> str \<Rightarrow> str option list \<Rightarrow> exc + description option" where
  "describe_message E P source content =
     (if source \<noteq> lit ''user'' then Inr None else
      andthen (message_envelope E content) (\<lambda>found. case found of
        None \<Rightarrow> Inr None
      | Some envelope \<Rightarrow>
        if jget ''session_id'' envelope \<noteq> jstr (pj_session_id P) then Inr None else
        let kind = jget ''kind'' envelope; product = (case jget ''payload'' envelope of Obj fs \<Rightarrow> Some fs | _ \<Rightarrow> None)
        in if kind = jstr (lit ''goal'') \<and> carries product envelope ''goal'' then describe_goal product envelope
           else if kind = jstr (lit ''evidence'') \<and> carries product envelope ''evidence'' then describe_evidence E product envelope
           else if kind = jstr (lit ''answer'') then Inr (describe_answer product envelope)
           else Inr None))"

definition describe_action :: "projection_env \<Rightarrow> sdk_action \<Rightarrow> payload \<Rightarrow> str \<Rightarrow> description option" where
  "describe_action E action dump tool_name =
     (let named = \<lambda>p. AList.update (lit ''toolName'') (jstr tool_name) p in case action of
        Sdk_Reference i \<Rightarrow> Some (Verification_Requested, Agent, named dump, [i])
      | Sdk_Legacy_Reference i \<Rightarrow> Some (Verification_Requested, Agent, named dump, [i])
      | Sdk_Learner_Input \<Rightarrow>
          Some (Question_Asked, Agent, named (AList.update (lit ''questionId'') (jstr (question_id_for E dump)) dump), [])
      | Sdk_Finish \<Rightarrow> Some (Session_Ended, Agent, named dump, [])
      | Sdk_Other_Action \<Rightarrow> None)"

definition describe_observation :: "projection_env \<Rightarrow> sdk_observation \<Rightarrow> payload \<Rightarrow> exc + description option" where
  "describe_observation E x dump = (case x of
     Sdk_Verification v \<Rightarrow>
       andthen (sanitize_refs (pn_urls E) (vo_source_refs v)) (\<lambda>refs.
       andthen (sanitize_facts (pn_urls E) (vo_capability v) (vo_facts v)) (\<lambda>facts.
       Inr (Some (Verification_Completed, Tool,
         AList.update (lit ''facts'') (Obj facts) (AList.update (lit ''source_refs'') (Arr (map jstr refs)) dump), [vo_evidence_id v]))))
   | Sdk_Legacy_Verification i kind findings verifier signals source_refs \<Rightarrow>
       andthen (sanitize_refs (pn_urls E) source_refs) (\<lambda>refs.
       Inr (Some (Verification_Completed, Tool,
         [(lit ''evidence_id'', jstr i), (lit ''capability'', jstr (lit ''legacy'')), (lit ''status'', jstr (lit ''inconclusive'')),
          (lit ''facts'', Obj [(lit ''evidence_type'', jstr kind), (lit ''findings'', Arr (map jstr findings)), (lit ''verifier'', jstr verifier)]),
          (lit ''weak_signals'', Arr (map jstr signals)), (lit ''source_refs'', Arr (map jstr refs)),
          (lit ''verifier_version'', jstr (lit ''legacy''))], [i])))
   | Sdk_Other_Observation \<Rightarrow> Inr None)"

text \<open>What an event becomes in the log, if anything: its type, its actor and its payload with the metadata.\<close>

definition with_metadata :: "projector \<Rightarrow> sdk_event \<Rightarrow> int \<Rightarrow> str option \<Rightarrow> description option \<Rightarrow> (event_type \<times> actor \<times> payload) option" where
  "with_metadata P e index tool_call_id described = map_option
     (\<lambda>(ty, actor, p, related). (ty, actor, dict_update p (metadata P e index tool_call_id related))) described"

definition describe :: "projection_env \<Rightarrow> projector \<Rightarrow> sdk_event \<Rightarrow> int \<Rightarrow> exc + (event_type \<times> actor \<times> payload) option" where
  "describe E P e index = (case sx_body e of
     Sdk_Message source content \<Rightarrow> andthen (describe_message E P source content) (\<lambda>x. Inr (with_metadata P e index None x))
   | Sdk_Action action dump tool_name call \<Rightarrow> Inr (with_metadata P e index (Some call) (describe_action E action dump tool_name))
   | Sdk_Observation x dump call \<Rightarrow>
       andthen (describe_observation E x dump) (\<lambda>d. Inr (with_metadata P e index (Some call) d))
   | Sdk_Error code detail \<Rightarrow> Inr (with_metadata P e index None
       (Some (Error_Occurred, System, [(lit ''code'', jstr code), (lit ''detail'', jstr detail)], [])))
   | Sdk_Other_Event \<Rightarrow> Inr None)"

section \<open>The projector\<close>

record 's audit_store =
  as_append :: "str \<Rightarrow> event_type \<Rightarrow> actor \<Rightarrow> payload \<Rightarrow> 's \<Rightarrow> 's \<times> (exc + event)"
  as_has :: "str \<Rightarrow> str \<Rightarrow> 's \<Rightarrow> bool"

definition project ::
  "projection_env \<Rightarrow> 's audit_store \<Rightarrow> projector \<Rightarrow> sdk_event \<Rightarrow> int \<Rightarrow> 's \<Rightarrow> 's \<times> (exc + event option)" where
  "project E S P e index s =
     (if as_has S (pj_session_id P) (sx_id e) s then (s, Inr None)
      else case describe E P e index of
        Inl x \<Rightarrow> (s, Inl x)
      | Inr None \<Rightarrow> (s, Inr None)
      | Inr (Some (ty, actor, p)) \<Rightarrow> (case as_append S (pj_session_id P) ty actor p s of
            (s', Inl x) \<Rightarrow> (s', Inl x) | (s', Inr v) \<Rightarrow> (s', Inr (Some v))))"

definition on_event ::
  "projection_env \<Rightarrow> 's audit_store \<Rightarrow> sdk_event \<Rightarrow> projector \<times> 's \<Rightarrow> (projector \<times> 's) \<times> (exc + event option)" where
  "on_event E S e st = (case st of (P, s) \<Rightarrow>
     let P' = P\<lparr>pj_callback_index := pj_callback_index P + 1\<rparr>; (s', r) = project E S P' e (pj_callback_index P) s
     in ((P', s'), r))"

fun reconcile_loop ::
  "projection_env \<Rightarrow> 's audit_store \<Rightarrow> projector \<Rightarrow> int \<Rightarrow> sdk_event list \<Rightarrow> int \<Rightarrow> 's \<Rightarrow> 's \<times> (exc + int)" where
  "reconcile_loop E S P index [] projected s = (s, Inr projected)"
| "reconcile_loop E S P index (e # es) projected s = (case project E S P e index s of
     (s', Inl x) \<Rightarrow> (s', Inl x)
   | (s', Inr r) \<Rightarrow> reconcile_loop E S P (index + 1) es (if r = None then projected else projected + 1) s')"

definition reconcile_events ::
  "projection_env \<Rightarrow> 's audit_store \<Rightarrow> sdk_event list \<Rightarrow> projector \<times> 's \<Rightarrow> (projector \<times> 's) \<times> (exc + int)" where
  "reconcile_events E S es st = (case st of (P, s) \<Rightarrow> case reconcile_loop E S P 0 es 0 s of
     (s', Inl x) \<Rightarrow> ((P, s'), Inl x)
   | (s', Inr n) \<Rightarrow> ((P\<lparr>pj_callback_index := max (pj_callback_index P) (int (length es))\<rparr>, s'), Inr n))"

text \<open>The two stores; each append takes the next identifier and the next reading of the clock.\<close>

definition memory_store :: "(nat \<Rightarrow> str) \<Rightarrow> (nat \<Rightarrow> datetime) \<Rightarrow> (memory_log \<times> nat) audit_store" where
  "memory_store fresh now =
     \<lparr>as_append = (\<lambda>i ty a p (st, n). let (st', x) = memory_append i ty a p None (fresh n) (now n) st in ((st', n + 1), Inr x)),
      as_has = (\<lambda>i x (st, n). memory_has_source_event i x st)\<rparr>"

definition sql_store :: "(nat \<Rightarrow> str) \<Rightarrow> (nat \<Rightarrow> datetime) \<Rightarrow> (db \<times> nat) audit_store" where
  "sql_store fresh now =
     \<lparr>as_append = (\<lambda>i ty a p (d, n). let (d', r) = persistent_append i ty a p None (fresh n) (now n) d in ((d', n + 1), r)),
      as_has = (\<lambda>i x (d, n). audit_has_source_event i x d)\<rparr>"

section \<open>Payloads carry their source\<close>

lemma dict_update_get:
  "distinct (map fst q) \<Longrightarrow>
    map_of (dict_update p q) k = (case map_of q k of None \<Rightarrow> map_of p k | Some v \<Rightarrow> Some v)"
proof (induction q arbitrary: p)
  case (Cons kv q)
  have "map_of q (fst kv) = None" using Cons.prems by (simp add: map_of_eq_None_iff)
  then show ?case
    using Cons.IH[of "AList.update (fst kv) (snd kv) p"] Cons.prems
    by (cases kv) (auto simp: dict_update_def update_conv' split: option.splits)
qed (simp add: dict_update_def)

lemma metadata_keys: "distinct (map fst (metadata P e index call related))"
  by (cases call) (simp_all add: metadata_def source_key_def)

lemma metadata_source: "payload_source (dict_update p (metadata P e index call related)) = Some (sx_id e)"
proof -
  have "map_of (metadata P e index call related) source_key = Some (jstr (sx_id e))"
    by (simp add: metadata_def source_key_def)
  then show ?thesis by (simp add: payload_source_def dict_update_get[OF metadata_keys] jstr_def)
qed

lemma described_source: "describe E P e index = Inr (Some (ty, actor, p)) \<Longrightarrow> payload_source p = Some (sx_id e)"
  by (auto simp: describe_def with_metadata_def andthen_Inr_iff metadata_source split: sdk_body.splits)

lemma describe_callback [simp]: "describe E (P\<lparr>pj_callback_index := n\<rparr>) e index = describe E P e index"
proof -
  have m: "metadata (P\<lparr>pj_callback_index := n\<rparr>) = metadata P"
    by (intro ext) (simp add: metadata_def)
  have "with_metadata (P\<lparr>pj_callback_index := n\<rparr>) = with_metadata P"
    by (intro ext) (simp add: with_metadata_def m)
  moreover have "describe_message E (P\<lparr>pj_callback_index := n\<rparr>) = describe_message E P"
    by (intro ext) (simp add: describe_message_def)
  ultimately show ?thesis by (simp add: describe_def split: sdk_body.split)
qed

section \<open>The interface of the stores\<close>

definition shape :: "event_type \<times> actor \<times> payload \<Rightarrow> str \<times> str \<times> json" where
  "shape x = (case x of (ty, actor, p) \<Rightarrow> (lit (event_type_value ty), lit (actor_value actor), Obj p))"

definition entry_source :: "str \<times> str \<times> json \<Rightarrow> str option" where
  "entry_source x = (case x of (_, _, Obj p) \<Rightarrow> payload_source p | _ \<Rightarrow> None)"

definition sources :: "(str \<times> str \<times> json) list \<Rightarrow> str list" where
  "sources xs = List.map_filter entry_source xs"

lemma sources_append [simp]: "sources (xs @ ys) = sources xs @ sources ys"
  by (simp add: sources_def List.map_filter_def)

lemma sources_Nil [simp]: "sources [] = []"
  by (simp add: sources_def List.map_filter_def)

lemma sources_shape [simp]: "payload_source p = Some x \<Longrightarrow> sources (shape (ty, actor, p) # ys) = x # sources ys"
  by (simp add: sources_def shape_def entry_source_def List.map_filter_def)

text \<open>What a run over native events should append to the log of the session.\<close>

fun projection :: "projection_env \<Rightarrow> projector \<Rightarrow> int \<Rightarrow> sdk_event list \<Rightarrow> str set \<Rightarrow> (str \<times> str \<times> json) list" where
  "projection E P index [] seen = []"
| "projection E P index (e # es) seen =
     (if sx_id e \<in> seen then projection E P (index + 1) es seen
      else case describe E P e index of
        Inr (Some x) \<Rightarrow> shape x # projection E P (index + 1) es (insert (sx_id e) seen)
      | _ \<Rightarrow> projection E P (index + 1) es seen)"

lemma projection_callback [simp]:
  "projection E (P\<lparr>pj_callback_index := n\<rparr>) index es seen = projection E P index es seen"
  by (induction es arbitrary: index seen) (auto split: sum.splits option.splits)

lemma projection_Cons:
  "projection E P index (e # es) seen =
     projection E P index [e] seen
     @ projection E P (index + 1) es (seen \<union> set (sources (projection E P index [e] seen)))"
proof (cases "describe E P e index")
  case (Inr found)
  then show ?thesis by (cases found) (auto dest: described_source)
qed simp

lemma projection_sources:
  "distinct (sources (projection E P index es seen)) \<and> seen \<inter> set (sources (projection E P index es seen)) = {}"
proof (induction es arbitrary: index seen)
  case (Cons e es)
  show ?case
  proof (cases "describe E P e index")
    case (Inl x)
    then show ?thesis using Cons.IH[of "index + 1" seen] by auto
  next
    case (Inr found)
    then show ?thesis
      using Cons.IH[of "index + 1" seen] Cons.IH[of "index + 1" "insert (sx_id e) seen"]
      by (cases found) (auto dest!: described_source)
  qed
qed simp

lemma projection_sourced: "list_all (\<lambda>x. entry_source x \<noteq> None) (projection E P index es seen)"
  by (induction es arbitrary: index seen)
    (auto simp: shape_def entry_source_def dest!: described_source split: sum.splits option.splits prod.splits)

text \<open>Nothing is left to project: every event is recorded or becomes nothing.\<close>

fun settled :: "projection_env \<Rightarrow> projector \<Rightarrow> int \<Rightarrow> sdk_event list \<Rightarrow> str set \<Rightarrow> bool" where
  "settled E P index [] seen = True"
| "settled E P index (e # es) seen =
     ((sx_id e \<in> seen \<or> describe E P e index = Inr None) \<and> settled E P (index + 1) es seen)"

lemma settled_callback [simp]: "settled E (P\<lparr>pj_callback_index := n\<rparr>) index es seen = settled E P index es seen"
  by (induction es arbitrary: index) auto

lemma settled_projection: "settled E P index es seen \<Longrightarrow> projection E P index es seen = []"
  by (induction es arbitrary: index) auto

inductive projector_step ::
  "projection_env \<Rightarrow> 's audit_store \<Rightarrow> projector \<times> 's \<Rightarrow> projector \<times> 's \<Rightarrow> bool" for E S where
  on: "on_event E S e st = (st', r) \<Longrightarrow> projector_step E S st st'"
| rec: "reconcile_events E S es st = (st', r) \<Longrightarrow> projector_step E S st st'"
| restart: "projector_step E S (P, s) (P\<lparr>pj_callback_index := 0\<rparr>, s)"

locale source_log =
  fixes S :: "'s audit_store" and inv :: "'s \<Rightarrow> bool" and entries :: "str \<Rightarrow> 's \<Rightarrow> (str \<times> str \<times> json) list"
  assumes has_iff: "inv s \<Longrightarrow> as_has S i x s \<longleftrightarrow> x \<in> set (sources (entries i s))"
    and append_inv: "inv s \<Longrightarrow> payload_source p = Some x \<Longrightarrow> x \<notin> set (sources (entries i s)) \<Longrightarrow>
      as_append S i ty actor p s = (s', r) \<Longrightarrow> inv s'"
    and append_ok: "inv s \<Longrightarrow> payload_source p = Some x \<Longrightarrow> x \<notin> set (sources (entries i s)) \<Longrightarrow>
      as_append S i ty actor p s = (s', Inr v) \<Longrightarrow>
      entries i s' = entries i s @ [shape (ty, actor, p)] \<and> (\<forall>j. j \<noteq> i \<longrightarrow> entries j s' = entries j s)"
    and append_failed: "inv s \<Longrightarrow> payload_source p = Some x \<Longrightarrow> x \<notin> set (sources (entries i s)) \<Longrightarrow>
      as_append S i ty actor p s = (s', Inl e) \<Longrightarrow> entries j s' = entries j s"
begin

definition log_step :: "str \<Rightarrow> (str \<times> str \<times> json) list \<Rightarrow> 's \<Rightarrow> 's \<Rightarrow> bool" where
  "log_step i new s s' \<longleftrightarrow> inv s' \<and> entries i s' = entries i s @ new \<and> (\<forall>j. j \<noteq> i \<longrightarrow> entries j s' = entries j s)"

lemma log_step_refl: "inv s \<Longrightarrow> log_step i [] s s"
  by (simp add: log_step_def)

lemma log_step_trans: "log_step i xs s s1 \<Longrightarrow> log_step i ys s1 s2 \<Longrightarrow> log_step i (xs @ ys) s s2"
  by (simp add: log_step_def)

text \<open>One event: what \<open>projection\<close> says, or nothing when it raises.\<close>

lemma project_effect:
  assumes "inv s" and "project E S P e index s = (s', r)"
  shows "case r of
     Inl x \<Rightarrow> log_step (pj_session_id P) [] s s'
   | Inr v \<Rightarrow> log_step (pj_session_id P) (projection E P index [e] (set (sources (entries (pj_session_id P) s)))) s s'
       \<and> (v = None \<longleftrightarrow> projection E P index [e] (set (sources (entries (pj_session_id P) s))) = [])"
proof (cases "as_has S (pj_session_id P) (sx_id e) s")
  case True
  then have "s' = s" "r = Inr None" using assms(2) by (simp_all add: project_def)
  then show ?thesis using True has_iff[OF assms(1)] log_step_refl[OF assms(1)] by simp
next
  case False
  note fresh = False[unfolded has_iff[OF assms(1)]]
  show ?thesis
  proof (cases "describe E P e index")
    case (Inl x)
    then have "s' = s" "r = Inl x" using assms(2) False by (simp_all add: project_def)
    then show ?thesis by (simp add: log_step_refl[OF assms(1)])
  next
    case (Inr found)
    show ?thesis
    proof (cases found)
      case None
      then have "s' = s" "r = Inr None" using assms(2) False Inr by (simp_all add: project_def)
      then show ?thesis using fresh Inr None by (simp add: log_step_refl[OF assms(1)])
    next
      case (Some d)
      obtain ty actor p where d: "d = (ty, actor, p)" by (cases d)
      have src: "payload_source p = Some (sx_id e)" using described_source Inr Some d by simp
      obtain v where a: "as_append S (pj_session_id P) ty actor p s = (s', v)"
        using assms(2) False Inr Some d by (simp add: project_def split: prod.splits sum.splits)
      note inv' = append_inv[OF assms(1) src fresh a]
      show ?thesis
      proof (cases v)
        case (Inl x)
        then have "r = Inl x" using assms(2) False \<open>describe E P e index = Inr found\<close> Some d a by (simp add: project_def)
        then show ?thesis using append_failed[OF assms(1) src fresh a[unfolded Inl]] inv' by (simp add: log_step_def)
      next
        case (Inr v')
        then have "r = Inr (Some v')" using assms(2) False \<open>describe E P e index = Inr found\<close> Some d a by (simp add: project_def)
        then show ?thesis
          using append_ok[OF assms(1) src fresh a[unfolded Inr]] inv' fresh \<open>describe E P e index = Inr found\<close> Some d
          by (simp add: log_step_def)
      qed
    qed
  qed
qed

abbreviation seen :: "projector \<Rightarrow> 's \<Rightarrow> str set" where
  "seen P s \<equiv> set (sources (entries (pj_session_id P) s))"

lemma settled_loop:
  "inv s \<Longrightarrow> settled E P index es (seen P s) \<Longrightarrow> reconcile_loop E S P index es n s = (s, Inr n)"
  by (induction es arbitrary: index) (auto simp: project_def has_iff)

lemma project_settles:
  assumes "inv s" and "project E S P e index s = (s', Inr v)"
  shows "sx_id e \<in> seen P s' \<or> describe E P e index = Inr None"
proof (cases "sx_id e \<in> seen P s")
  case True
  then show ?thesis using project_effect[OF assms] by (auto simp: log_step_def)
next
  case False
  show ?thesis
  proof (cases "describe E P e index")
    case (Inl x)
    then show ?thesis using assms False by (simp add: project_def has_iff)
  next
    case (Inr found)
    then show ?thesis
      using project_effect[OF assms] False by (cases found) (auto simp: log_step_def dest: described_source)
  qed
qed

lemma settled_mono: "settled E P index es a \<Longrightarrow> a \<subseteq> b \<Longrightarrow> settled E P index es b"
  by (induction es arbitrary: index) auto

lemma loop_effect:
  assumes "inv s" and "reconcile_loop E S P index es n s = (s', Inr m)"
  shows "log_step (pj_session_id P) (projection E P index es (seen P s)) s s'
    \<and> m = n + int (length (projection E P index es (seen P s))) \<and> settled E P index es (seen P s')"
  using assms
proof (induction es arbitrary: index n s)
  case (Cons e es)
  let ?new = "projection E P index [e] (seen P s)"
  obtain s1 v where p: "project E S P e index s = (s1, Inr v)"
    and rest: "reconcile_loop E S P (index + 1) es (if v = None then n else n + 1) s1 = (s', Inr m)"
    using Cons.prems(2) by (auto split: prod.splits sum.splits)
  have one: "log_step (pj_session_id P) ?new s s1" "v = None \<longleftrightarrow> ?new = []"
    using project_effect[OF Cons.prems(1) p] by simp_all
  have inv1: "inv s1" and seen1: "seen P s1 = seen P s \<union> set (sources ?new)"
    using one(1) by (simp_all add: log_step_def)
  note IH = Cons.IH[OF inv1 rest]
  have grow: "seen P s1 \<subseteq> seen P s'" using IH by (auto simp: log_step_def)
  have count: "length ?new = (if v = None then 0 else 1)"
    using one(2) by (auto split: sum.splits option.splits if_splits)
  have settle: "sx_id e \<in> seen P s' \<or> describe E P e index = Inr None"
    using project_settles[OF Cons.prems(1) p] grow by blast
  show ?case
    unfolding projection_Cons[of E P index e es] seen1[symmetric]
    using log_step_trans[OF one(1) IH[THEN conjunct1]] IH count settle by simp
qed (simp add: log_step_refl)

lemma loop_raises:
  assumes "inv s" and "reconcile_loop E S P index es n s = (s', Inl x)"
  shows "\<exists>done_events. prefix done_events es \<and> log_step (pj_session_id P) (projection E P index done_events (seen P s)) s s'"
  using assms
proof (induction es arbitrary: index n s)
  case (Cons e es)
  obtain s1 r where p: "project E S P e index s = (s1, r)" by (cases "project E S P e index s")
  show ?case
  proof (cases r)
    case (Inl y)
    then have "s' = s1" using Cons.prems(2) p by simp
    then show ?thesis using project_effect[OF Cons.prems(1) p] Inl by (intro exI[of _ "[]"]) simp
  next
    case (Inr v)
    let ?new = "projection E P index [e] (seen P s)"
    have one: "log_step (pj_session_id P) ?new s s1" using project_effect[OF Cons.prems(1) p] Inr by simp
    then have inv1: "inv s1" and seen1: "seen P s1 = seen P s \<union> set (sources ?new)" by (simp_all add: log_step_def)
    have "reconcile_loop E S P (index + 1) es (if v = None then n else n + 1) s1 = (s', Inl x)"
      using Cons.prems(2) p Inr by simp
    from Cons.IH[OF inv1 this] obtain ds where ds: "prefix ds es"
      "log_step (pj_session_id P) (projection E P (index + 1) ds (seen P s1)) s1 s'" by blast
    show ?thesis
      using log_step_trans[OF one ds(2)] ds(1) unfolding seen1 projection_Cons[of E P index e ds, symmetric]
      by (intro exI[of _ "e # ds"]) simp
  qed
qed simp

text \<open>Any call leaves the log of the session as it was, followed by the projection of some events.\<close>

definition grows :: "str \<Rightarrow> 's \<Rightarrow> 's \<Rightarrow> bool" where
  "grows i s s' \<longleftrightarrow> (\<exists>new. log_step i new s s' \<and> list_all (\<lambda>x. entry_source x \<noteq> None) new
     \<and> distinct (sources new) \<and> set (sources (entries i s)) \<inter> set (sources new) = {})"

lemma projection_grows: "log_step (pj_session_id P) (projection E P index es (seen P s)) s s' \<Longrightarrow> grows (pj_session_id P) s s'"
  unfolding grows_def
  using projection_sources[of E P index es "seen P s"] projection_sourced[of E P index es "seen P s"]
  by (intro exI[of _ "projection E P index es (seen P s)"]) simp

lemma grows_nil: "log_step i [] s s' \<Longrightarrow> grows i s s'"
  by (auto simp: grows_def intro!: exI[of _ "[]"])

lemma step_grows:
  assumes "projector_step E S (P, s) (P', s')" and "inv s"
  shows "grows (pj_session_id P) s s' \<and> pj_session_id P' = pj_session_id P"
  using assms(1)
proof (cases rule: projector_step.cases)
  case (on e r)
  then obtain v where "project E S (P\<lparr>pj_callback_index := pj_callback_index P + 1\<rparr>) e (pj_callback_index P) s = (s', v)"
    "P' = P\<lparr>pj_callback_index := pj_callback_index P + 1\<rparr>"
    by (auto simp: on_event_def Let_def split: prod.splits)
  moreover from project_effect[OF assms(2) this(1)]
  have "grows (pj_session_id P) s s'"
    by (cases v) (auto simp del: projection.simps intro: grows_nil projection_grows)
  ultimately show ?thesis by simp
next
  case (rec es r)
  obtain m where l: "reconcile_loop E S P 0 es 0 s = (s', m)" and P': "pj_session_id P' = pj_session_id P"
    using rec by (auto simp: reconcile_events_def split: prod.splits sum.splits)
  have "grows (pj_session_id P) s s'"
  proof (cases m)
    case (Inl x)
    then show ?thesis using loop_raises[OF assms(2)] l projection_grows by blast
  next
    case (Inr n)
    then show ?thesis using loop_effect[OF assms(2)] l projection_grows by blast
  qed
  then show ?thesis using P' by simp
next
  case restart
  then have "s' = s" "pj_session_id P' = pj_session_id P" by simp_all
  then show ?thesis using log_step_refl[OF assms(2)] grows_nil by simp
qed

lemma grows_trans:
  assumes "grows i s s1" and "grows i s1 s2"
  shows "grows i s s2"
proof -
  obtain a where a: "log_step i a s s1" "list_all (\<lambda>x. entry_source x \<noteq> None) a" "distinct (sources a)"
    "set (sources (entries i s)) \<inter> set (sources a) = {}" using assms(1) by (auto simp: grows_def)
  obtain b where b: "log_step i b s1 s2" "list_all (\<lambda>x. entry_source x \<noteq> None) b" "distinct (sources b)"
    "set (sources (entries i s1)) \<inter> set (sources b) = {}" using assms(2) by (auto simp: grows_def)
  show ?thesis
    unfolding grows_def using log_step_trans[OF a(1) b(1)] a b
    by (intro exI[of _ "a @ b"]) (auto simp: log_step_def)
qed

lemma steps_grow:
  assumes "(projector_step E S)\<^sup>*\<^sup>* (P, s) (P', s')" and "inv s"
  shows "grows (pj_session_id P) s s' \<and> pj_session_id P' = pj_session_id P"
  using assms(1)
proof (induction rule: rtranclp_induct2)
  case refl
  then show ?case using log_step_refl[OF assms(2)] grows_nil by simp
next
  case (step P1 s1 P2 s2)
  then have "inv s1" by (auto simp: grows_def log_step_def)
  from step_grows[OF step.hyps(2) this] step.IH show ?case by (auto intro: grows_trans)
qed

lemma reconcile_effect:
  assumes "inv s" and "reconcile_events E S es (P, s) = ((P', s'), Inr n)"
  shows "log_step (pj_session_id P) (projection E P 0 es (seen P s)) s s'
    \<and> n = int (length (projection E P 0 es (seen P s)))
    \<and> reconcile_events E S es (P', s') = ((P', s'), Inr 0)"
proof -
  have l: "reconcile_loop E S P 0 es 0 s = (s', Inr n)"
    and P': "P' = P\<lparr>pj_callback_index := max (pj_callback_index P) (int (length es))\<rparr>"
    using assms(2) by (auto simp: reconcile_events_def split: prod.splits sum.splits)
  note eff = loop_effect[OF assms(1) l]
  have "inv s'" using eff by (simp add: log_step_def)
  moreover have "settled E P' 0 es (seen P' s')" using eff unfolding P' by simp
  ultimately have "reconcile_loop E S P' 0 es 0 s' = (s', Inr 0)" by (rule settled_loop)
  then show ?thesis using eff by (simp add: reconcile_events_def P')
qed

end

section \<open>The two stores\<close>

definition memory_entries :: "str \<Rightarrow> memory_log \<times> nat \<Rightarrow> (str \<times> str \<times> json) list" where
  "memory_entries i s = map (\<lambda>e. shape (ve_type e, ve_actor e, ve_payload e)) (fst s i)"

lemma in_sources: "x \<in> set (sources es) \<longleftrightarrow> (\<exists>e \<in> set es. entry_source e = Some x)"
  by (induction es) (force simp: sources_def List.map_filter_def)+

lemma payload_source_iff: "payload_source p = Some x \<longleftrightarrow> map_of p source_key = Some (Scalar (JStr x))"
  by (auto simp: payload_source_def split: option.splits json.splits json_scalar.splits)

interpretation memory_log: source_log "memory_store fresh now" "\<lambda>_. True" memory_entries for fresh now
proof
  fix s s' :: "memory_log \<times> nat" and i x p ty a r and v :: event
  show "as_has (memory_store fresh now) i x s = (x \<in> set (sources (memory_entries i s)))"
    by (cases s) (auto simp: memory_store_def memory_has_source_event_def list_ex_iff memory_entries_def in_sources
        shape_def entry_source_def payload_source_iff)
  assume "as_append (memory_store fresh now) i ty a p s = (s', Inr v)"
  then show "memory_entries i s' = memory_entries i s @ [shape (ty, a, p)]
      \<and> (\<forall>j. j \<noteq> i \<longrightarrow> memory_entries j s' = memory_entries j s)"
    by (cases s) (auto simp: memory_store_def memory_append_def Let_def memory_entries_def)
qed (auto simp: memory_store_def split: prod.splits)

definition sql_entries :: "str \<Rightarrow> db \<times> nat \<Rightarrow> (str \<times> str \<times> json) list" where
  "sql_entries i s = map (\<lambda>e. (ae_type e, ae_actor e, ae_payload_json e)) (session_events i (fst s))"

text \<open>The source column of a row is the one its payload names.\<close>

definition sources_ok :: "db \<Rightarrow> bool" where
  "sources_ok d \<longleftrightarrow> list_all (\<lambda>e. \<exists>p. ae_payload_json e = Obj p \<and> ae_source_openhands_event_id e = payload_source p) (t_audit_events d)"

lemma in_sql_sources:
  assumes "sources_ok d"
  shows "x \<in> set (sources (sql_entries i (d, n)))
    \<longleftrightarrow> (\<exists>e \<in> set (session_events i d). ae_source_openhands_event_id e = Some x)"
proof -
  have "entry_source (ae_type e, ae_actor e, ae_payload_json e) = ae_source_openhands_event_id e"
    if "e \<in> set (session_events i d)" for e
    using assms that by (auto simp: sources_ok_def list_all_iff set_session_events entry_source_def)
  then show ?thesis by (auto simp: in_sources sql_entries_def)
qed

lemma has_source_iff: "audit_has_source_event i x d \<longleftrightarrow> (\<exists>e \<in> set (session_events i d). ae_source_openhands_event_id e = Some x)"
  by (auto simp: audit_has_source_event_def by_source_def set_session_events find_None_iff)

lemma persistent_append_new:
  assumes "audit_inv d" and "sources_ok d" and "payload_source p = Some x" and "x \<notin> set (sources (sql_entries i (d, n)))"
    and "persistent_append i ty actor p None fresh now d = (d', r)"
  shows "case r of
     Inl e \<Rightarrow> d' = d
   | Inr v \<Rightarrow> audit_inv d' \<and> sources_ok d' \<and> (\<exists>row. d' = d\<lparr>t_audit_events := t_audit_events d @ [row]\<rparr>
       \<and> ae_session_id row = i \<and> ae_event_id row = fresh
       \<and> (ae_type row, ae_actor row, ae_payload_json row) = shape (ty, actor, p))"
proof -
  let ?e = "new_event i (lit (event_type_value ty)) (lit (actor_value actor)) (Obj p) (payload_source p) None fresh now d"
  have "\<not> audit_has_source_event i x d"
    using assms(4) unfolding in_sql_sources[OF assms(2)] has_source_iff .
  then have fresh: "replayed i (payload_source p) None d = None"
    by (simp add: assms(3) replayed_def audit_has_source_event_def)
  show ?thesis
  proof (cases "insert_audit_event ?e d")
    case (Inl e)
    then have "persistent_append i ty actor p None fresh now d = (d, Inl e)"
      by (simp add: persistent_append_def audit_append_fresh[OF assms(1) fresh])
    then show ?thesis using assms(5) by simp
  next
    case (Inr d1)
    have seq: "ae_sequence ?e = int (length (session_events (ae_session_id ?e) d)) + 1" by simp
    note ins = insert_audit_event_inv[OF assms(1) Inr seq]
    have "persistent_append i ty actor p None fresh now d = (d1, runtime_event ?e)"
      by (simp add: persistent_append_def audit_append_fresh[OF assms(1) fresh] Inr)
    moreover have "runtime_event ?e = Inr \<lparr>ve_id = fresh, ve_sessionId = i, ve_type = ty,
        ve_sequence = int (length (session_events i d)) + 1, ve_createdAt = now, ve_actor = actor, ve_payload = p\<rparr>"
      by (simp add: runtime_event_def new_event_def payload_of_def event_id_or_def)
    moreover have "sources_ok d1" using assms(2) by (simp add: ins(2) sources_ok_def new_event_def)
    ultimately show ?thesis
      using assms(5) ins(1,2) by (auto simp: shape_def new_event_def event_id_or_def)
  qed
qed

interpretation sql_source_log: source_log "sql_store fresh now" "\<lambda>s. audit_inv (fst s) \<and> sources_ok (fst s)" sql_entries for fresh now
proof
  fix s s' :: "db \<times> nat" and i j x p ty a r e and v :: event
  assume inv: "audit_inv (fst s) \<and> sources_ok (fst s)"
  obtain d n where s: "s = (d, n)" by (cases s)
  show "as_has (sql_store fresh now) i x s = (x \<in> set (sources (sql_entries i s)))"
    using inv by (simp add: s sql_store_def has_source_iff in_sql_sources)
  assume new: "payload_source p = Some x" "x \<notin> set (sources (sql_entries i s))"
  have eff: "case r of
     Inl e \<Rightarrow> fst s' = d
   | Inr v \<Rightarrow> audit_inv (fst s') \<and> sources_ok (fst s') \<and> (\<exists>row. fst s' = d\<lparr>t_audit_events := t_audit_events d @ [row]\<rparr>
       \<and> ae_session_id row = i \<and> (ae_type row, ae_actor row, ae_payload_json row) = shape (ty, a, p))"
    if "as_append (sql_store fresh now) i ty a p s = (s', r)" for r
  proof -
    obtain d' r' where d': "persistent_append i ty a p None (fresh n) (now n) d = (d', r')" by (metis prod.exhaust)
    then have "persistent_append i ty a p None (fresh n) (now n) d = (d', r)" "s' = (d', n + 1)"
      using that by (simp_all add: s sql_store_def)
    then show ?thesis
      using persistent_append_new[OF _ _ new(1) new(2)[unfolded s], of ty a "fresh n" "now n" d' r] inv
      by (cases r) (auto simp: s)
  qed
  show "audit_inv (fst s') \<and> sources_ok (fst s')" if "as_append (sql_store fresh now) i ty a p s = (s', r)"
    using eff[OF that] inv by (cases r) (simp_all add: s)
  show "sql_entries i s' = sql_entries i s @ [shape (ty, a, p)] \<and> (\<forall>j. j \<noteq> i \<longrightarrow> sql_entries j s' = sql_entries j s)"
    if "as_append (sql_store fresh now) i ty a p s = (s', Inr v)"
    using eff[OF that] by (auto simp: s sql_entries_def session_events_insert)
  show "sql_entries j s' = sql_entries j s" if "as_append (sql_store fresh now) i ty a p s = (s', Inl e)"
    using eff[OF that] by (simp add: s sql_entries_def)
qed

section \<open>The SQL projection refines the one in memory\<close>

definition related :: "str \<Rightarrow> (nat \<Rightarrow> str) \<Rightarrow> db \<times> nat \<Rightarrow> memory_log \<times> nat \<Rightarrow> bool" where
  "related i fresh s t \<longleftrightarrow> snd s = snd t \<and> audit_inv (fst s) \<and> sources_ok (fst s) \<and> represents (fst s) (fst t)
     \<and> find_session i (fst s) \<noteq> None \<and> (\<forall>k \<ge> snd s. fresh k \<notin> ae_event_id ` set (t_audit_events (fst s)))"

lemma runtime_event_payload: "runtime_event e = Inr y \<Longrightarrow> ae_payload_json e = Obj (ve_payload y)"
  by (auto simp: runtime_event_def andthen_Inr_iff payload_of_def split: json.splits)

lemma related_has:
  assumes "related i fresh (d, n) (st, m)"
  shows "audit_has_source_event j x d = memory_has_source_event j x st"
proof -
  have all: "list_all2 (\<lambda>x y. runtime_event x = Inr y) (session_events j d) (st j)"
    using assms by (simp add: related_def represents_def persistent_list_def runtime_events_Inr flip: audit_list_inv)
  have src: "ae_source_openhands_event_id e = payload_source (ve_payload y)"
    if "e \<in> set (session_events j d)" "runtime_event e = Inr y" for e y
    using assms that runtime_event_payload[OF that(2)]
    by (auto simp: related_def sources_ok_def list_all_iff set_session_events)
  have "(\<exists>e \<in> set (session_events j d). ae_source_openhands_event_id e = Some x) \<longleftrightarrow> (\<exists>y \<in> set (st j). payload_source (ve_payload y) = Some x)"
    using all src by (induction rule: list_all2_induct) auto
  then show ?thesis by (simp add: has_source_iff memory_has_source_event_def list_ex_iff payload_source_iff)
qed

lemma project_related:
  assumes "related (pj_session_id P) fresh s t" and "inj fresh" and "project E (sql_store fresh now) P e k s = (s', r)"
  shows "\<exists>t'. project E (memory_store fresh now) P e k t = (t', r) \<and> related (pj_session_id P) fresh s' t'"
proof -
  let ?i = "pj_session_id P"
  obtain d n st where s: "s = (d, n)" and t: "t = (st, n)"
    using assms(1) by (cases s; cases t) (simp add: related_def)
  note rel = assms(1)[unfolded s t]
  have has: "as_has (memory_store fresh now) ?i (sx_id e) t = as_has (sql_store fresh now) ?i (sx_id e) s"
    by (simp add: s t memory_store_def sql_store_def related_has[OF rel])
  show ?thesis
  proof (cases "\<not> as_has (sql_store fresh now) ?i (sx_id e) s \<and> (\<exists>x. describe E P e k = Inr (Some x))")
    case False
    then have "s' = s \<and> project E (memory_store fresh now) P e k t = (t, r)"
      using assms(3) has by (auto simp: project_def split: if_splits sum.splits option.splits)
    then show ?thesis using assms(1) by auto
  next
    case True
    then obtain ty a p where dsc: "describe E P e k = Inr (Some (ty, a, p))" by (metis prod_cases3)
    have src: "payload_source p = Some (sx_id e)" by (rule described_source[OF dsc])
    have no: "\<not> audit_has_source_event ?i (sx_id e) d" using True by (simp add: s sql_store_def)
    have inv: "audit_inv d" "sources_ok d" "represents d st" "find_session ?i d \<noteq> None"
      and free: "\<And>k. n \<le> k \<Longrightarrow> fresh k \<notin> ae_event_id ` set (t_audit_events d)"
      using rel by (simp_all add: related_def)
    obtain d1 x where per: "persistent_append ?i ty a p None (fresh n) (now n) d = (d1, Inr x)"
      and rep: "audit_inv d1" "represents d1 (fst (memory_append ?i ty a p None (fresh n) (now n) st))"
      and mem: "snd (memory_append ?i ty a p None (fresh n) (now n) st) = x"
      using persistent_refines_memory[OF inv(1,3,4) free[OF order_refl], of None p ty a "now n"] no
      by (auto simp: src audit_has_source_event_def)
    have "sx_id e \<notin> set (sources (sql_entries ?i (d, n)))"
      using no unfolding in_sql_sources[OF inv(2)] has_source_iff .
    from persistent_append_new[OF inv(1,2) src this per]
    obtain row where row: "sources_ok d1" "d1 = d\<lparr>t_audit_events := t_audit_events d @ [row]\<rparr>" "ae_event_id row = fresh n"
      by auto
    have "related ?i fresh (d1, n + 1) (fst (memory_append ?i ty a p None (fresh n) (now n) st), n + 1)"
      using rep row(1) inv(4) free assms(2) by (auto simp: related_def row(2,3) inj_eq)
    moreover have "s' = (d1, n + 1) \<and> r = Inr (Some x)"
      using assms(3) True dsc per by (auto simp: project_def s sql_store_def)
    moreover have "project E (memory_store fresh now) P e k t
        = ((fst (memory_append ?i ty a p None (fresh n) (now n) st), n + 1), Inr (Some x))"
      using True has dsc mem by (auto simp: project_def t memory_store_def split: prod.splits)
    ultimately show ?thesis by blast
  qed
qed

lemma loop_related:
  assumes "related (pj_session_id P) fresh s t" and "inj fresh" and "reconcile_loop E (sql_store fresh now) P k es m s = (s', r)"
  shows "\<exists>t'. reconcile_loop E (memory_store fresh now) P k es m t = (t', r) \<and> related (pj_session_id P) fresh s' t'"
  using assms(1,3)
proof (induction es arbitrary: k m s t)
  case (Cons e es)
  obtain s1 v where p: "project E (sql_store fresh now) P e k s = (s1, v)" by (cases "project E (sql_store fresh now) P e k s")
  from project_related[OF Cons.prems(1) assms(2) p] obtain t1
    where t1: "project E (memory_store fresh now) P e k t = (t1, v)" "related (pj_session_id P) fresh s1 t1" by blast
  show ?case
  proof (cases v)
    case (Inl x)
    then show ?thesis using Cons.prems(2) p t1 by simp
  next
    case (Inr u)
    then show ?thesis using Cons.prems(2) p t1(1) Cons.IH[OF t1(2)] by simp
  qed
qed simp

section \<open>Properties\<close>

text \<open>
  C23. However callbacks, reconciliations and restarts of the projector follow each other, and whether they raise or not, the log of the
  session in memory only grows; every event that is added names the native event it comes from, and no native event is
  projected twice. The logs of other sessions are left alone.
\<close>

theorem projected_once:
  assumes "(projector_step E (memory_store fresh now))\<^sup>*\<^sup>* (P, s) (P', s')"
  shows "\<exists>new. memory_entries (pj_session_id P) s' = memory_entries (pj_session_id P) s @ new
    \<and> list_all (\<lambda>x. entry_source x \<noteq> None) new \<and> distinct (sources new)
    \<and> set (sources (memory_entries (pj_session_id P) s)) \<inter> set (sources new) = {}
    \<and> (\<forall>j. j \<noteq> pj_session_id P \<longrightarrow> memory_entries j s' = memory_entries j s)"
  using memory_log.steps_grow[OF assms] unfolding memory_log.grows_def memory_log.log_step_def by blast

text \<open>
  C24. A reconciliation that returns has appended exactly the projection of the native events that were not recorded yet, in their order, and
  returns their number; reconciling again finds nothing to do.
\<close>

theorem reconcile_complete:
  assumes "audit_inv d" and "sources_ok d"
    and "reconcile_events E (sql_store fresh now) es (P, (d, n)) = ((P', s'), Inr k)"
  shows "sql_entries (pj_session_id P) s' = sql_entries (pj_session_id P) (d, n)
      @ projection E P 0 es (set (sources (sql_entries (pj_session_id P) (d, n))))
    \<and> k = int (length (projection E P 0 es (set (sources (sql_entries (pj_session_id P) (d, n))))))
    \<and> reconcile_events E (sql_store fresh now) es (P', s') = ((P', s'), Inr 0)"
  using sql_source_log.reconcile_effect[OF _ assms(3)] assms(1,2) by (simp add: sql_source_log.log_step_def)

text \<open>
  C25. The projector over the SQL log refines the projector over the log in memory: in a session that exists, with unused event
  identifiers, each operation has the same result on both, and the SQL log keeps representing the one in memory.
\<close>

theorem projector_refines_memory:
  assumes "related (pj_session_id P) fresh s t" and "inj fresh"
  shows "(\<forall>e P1 s1 r. on_event E (sql_store fresh now) e (P, s) = ((P1, s1), r) \<longrightarrow>
      (\<exists>t1. on_event E (memory_store fresh now) e (P, t) = ((P1, t1), r) \<and> represents (fst s1) (fst t1)))
    \<and> (\<forall>es P1 s1 r. reconcile_events E (sql_store fresh now) es (P, s) = ((P1, s1), r) \<longrightarrow>
      (\<exists>t1. reconcile_events E (memory_store fresh now) es (P, t) = ((P1, t1), r) \<and> represents (fst s1) (fst t1)))"
proof (intro conjI allI impI)
  fix e P1 s1 r
  let ?P = "P\<lparr>pj_callback_index := pj_callback_index P + 1\<rparr>"
  assume "on_event E (sql_store fresh now) e (P, s) = ((P1, s1), r)"
  then have "P1 = ?P" and "project E (sql_store fresh now) ?P e (pj_callback_index P) s = (s1, r)"
    by (auto simp: on_event_def Let_def split: prod.splits)
  then show "\<exists>t1. on_event E (memory_store fresh now) e (P, t) = ((P1, t1), r) \<and> represents (fst s1) (fst t1)"
    using project_related[of ?P fresh s t E now e "pj_callback_index P" s1 r] assms
    by (auto simp: on_event_def Let_def related_def)
next
  fix es P1 s1 r
  assume rec: "reconcile_events E (sql_store fresh now) es (P, s) = ((P1, s1), r)"
  obtain v where l: "reconcile_loop E (sql_store fresh now) P 0 es 0 s = (s1, v)"
    using rec by (auto simp: reconcile_events_def split: prod.splits sum.splits)
  from loop_related[OF assms l] obtain t1
    where "reconcile_loop E (memory_store fresh now) P 0 es 0 t = (t1, v)" "related (pj_session_id P) fresh s1 t1" by blast
  then show "\<exists>t1. reconcile_events E (memory_store fresh now) es (P, t) = ((P1, t1), r) \<and> represents (fst s1) (fst t1)"
    using rec l by (intro exI[of _ t1], cases v) (auto simp: reconcile_events_def related_def)
qed

section \<open>Witnesses\<close>

definition sample_projection_env :: projection_env where
  "sample_projection_env = \<lparr>pn_urls = sample_url_env, pn_loads = (\<lambda>_. Inl (ValueError ''JSONDecodeError'')), pn_question_hash = (\<lambda>_. [])\<rparr>"

definition sample_projector :: projector where
  "sample_projector = \<lparr>pj_session_id = lit ''s1'', pj_conversation_id = lit ''c1'', pj_callback_index = 0\<rparr>"

definition sample_callbacks :: "sdk_event list" where
  "sample_callbacks = [\<lparr>sx_id = lit ''n1'', sx_class = lit ''ConversationErrorEvent'', sx_body = Sdk_Error (lit ''c'') (lit ''d'')\<rparr>,
     \<lparr>sx_id = lit ''n2'', sx_class = lit ''MessageEvent'', sx_body = Sdk_Message (lit ''agent'') []\<rparr>]"

definition sample_fresh :: "nat \<Rightarrow> str" where "sample_fresh n = replicate n 97"

lemma inj_sample_fresh: "inj sample_fresh"
  by (rule injI) (metis sample_fresh_def length_replicate)

lemma sample_audit_related: "related (lit ''s1'') sample_fresh (audit_db, 0) (\<lambda>_. [], 0)"
  using audit_db_inv audit_db_session
  by (auto simp: related_def sources_ok_def represents_def persistent_list_def audit_list_def session_events_def audit_db_def empty_db_def)

text \<open>One reconciliation of the two native events adds one event, in both logs.\<close>

lemma sample_reconcile:
  "\<exists>P' d'. reconcile_events sample_projection_env (sql_store sample_fresh int) sample_callbacks (sample_projector, (audit_db, 0))
    = ((P', (d', 1)), Inr 1)"
proof -
  have no: "as_has (sql_store sample_fresh int) (lit ''s1'') (lit ''n1'') (audit_db, 0) = False"
    by (simp add: sql_store_def has_source_iff session_events_def audit_db_def empty_db_def)
  have "describe sample_projection_env sample_projector (hd sample_callbacks) 0
      = Inr (with_metadata sample_projector (hd sample_callbacks) 0 None (Some (Error_Occurred, System, [(lit ''code'', jstr (lit ''c'')), (lit ''detail'', jstr (lit ''d''))], [])))"
    by (simp add: describe_def sample_callbacks_def)
  then obtain p where p: "describe sample_projection_env sample_projector (hd sample_callbacks) 0 = Inr (Some (Error_Occurred, System, p))"
    by (simp add: with_metadata_def)
  have "payload_source p = Some (lit ''n1'')" using described_source[OF p] by (simp add: sample_callbacks_def)
  then obtain d' x where d': "persistent_append (lit ''s1'') Error_Occurred System p None (sample_fresh 0) 0 audit_db = (d', Inr x)"
    using persistent_refines_memory[OF audit_db_inv _ audit_db_session, of "\<lambda>_. []" "sample_fresh 0" None p Error_Occurred System 0]
    by (auto simp: represents_def persistent_list_def audit_list_def session_events_def audit_db_def empty_db_def by_source_def)
  have one: "project sample_projection_env (sql_store sample_fresh int) sample_projector (hd sample_callbacks) 0 (audit_db, 0)
      = ((d', 1), Inr (Some x))"
    using no p d' by (simp add: project_def sample_projector_def sample_callbacks_def sql_store_def)
  have two: "project sample_projection_env (sql_store sample_fresh int) sample_projector (sample_callbacks ! 1) 1 (d', 1) = ((d', 1), Inr None)"
    by (simp add: project_def sample_callbacks_def describe_def describe_message_def with_metadata_def)
  have "sample_callbacks = [hd sample_callbacks, sample_callbacks ! 1]" by (simp add: sample_callbacks_def)
  moreover have "reconcile_loop sample_projection_env (sql_store sample_fresh int) sample_projector 0 [hd sample_callbacks, sample_callbacks ! 1] 0 (audit_db, 0) = ((d', 1), Inr 1)"
    unfolding reconcile_loop.simps one using two by simp
  ultimately have "reconcile_loop sample_projection_env (sql_store sample_fresh int) sample_projector 0 sample_callbacks 0 (audit_db, 0) = ((d', 1), Inr 1)"
    by (simp only:)
  then show ?thesis by (simp add: reconcile_events_def)
qed

lemma projected_once_witness:
  "\<exists>s' new. (projector_step sample_projection_env (memory_store sample_fresh int))\<^sup>*\<^sup>* (sample_projector, (\<lambda>_. [], 0)) (sample_projector\<lparr>pj_callback_index := 2\<rparr>, s')
    \<and> memory_entries (lit ''s1'') s' = new \<and> distinct (sources new)"
proof -
  obtain P' d' where sql: "reconcile_events sample_projection_env (sql_store sample_fresh int) sample_callbacks (sample_projector, (audit_db, 0))
    = ((P', (d', 1)), Inr 1)" using sample_reconcile by blast
  have rel: "related (pj_session_id sample_projector) sample_fresh (audit_db, 0) (\<lambda>_. [], 0)"
    using sample_audit_related by (simp add: sample_projector_def)
  obtain t where t: "reconcile_events sample_projection_env (memory_store sample_fresh int) sample_callbacks (sample_projector, (\<lambda>_. [], 0)) = ((P', t), Inr 1)"
    using projector_refines_memory[OF rel inj_sample_fresh, of sample_projection_env int] sql by blast
  have "P' = sample_projector\<lparr>pj_callback_index := 2\<rparr>"
    using sql by (auto simp: reconcile_events_def sample_projector_def sample_callbacks_def simp del: reconcile_loop.simps split: prod.splits sum.splits)
  then have run: "(projector_step sample_projection_env (memory_store sample_fresh int))\<^sup>*\<^sup>* (sample_projector, (\<lambda>_. [], 0)) (sample_projector\<lparr>pj_callback_index := 2\<rparr>, t)"
    using projector_step.rec[OF t] by auto
  show ?thesis
    using projected_once[OF run] run
    by (intro exI[of _ t] exI[of _ "memory_entries (lit ''s1'') t"] conjI) (auto simp: memory_entries_def sample_projector_def)
qed

lemma reconcile_complete_witness:
  "\<exists>P' s'. reconcile_events sample_projection_env (sql_store sample_fresh int) sample_callbacks (sample_projector, (audit_db, 0)) = ((P', s'), Inr 1)
    \<and> reconcile_events sample_projection_env (sql_store sample_fresh int) sample_callbacks (P', s') = ((P', s'), Inr 0)"
proof -
  obtain P' d' where r: "reconcile_events sample_projection_env (sql_store sample_fresh int) sample_callbacks (sample_projector, (audit_db, 0))
    = ((P', (d', 1)), Inr 1)" using sample_reconcile by blast
  have "sources_ok audit_db" by (simp add: sources_ok_def audit_db_def empty_db_def)
  then show ?thesis using reconcile_complete[OF audit_db_inv _ r] r by blast
qed

lemma projector_refines_memory_witness:
  "\<exists>P' d' t. reconcile_events sample_projection_env (sql_store sample_fresh int) sample_callbacks (sample_projector, (audit_db, 0)) = ((P', (d', 1)), Inr 1)
    \<and> reconcile_events sample_projection_env (memory_store sample_fresh int) sample_callbacks (sample_projector, (\<lambda>_. [], 0)) = ((P', t), Inr 1)
    \<and> represents d' (fst t)"
proof -
  obtain P' d' where sql: "reconcile_events sample_projection_env (sql_store sample_fresh int) sample_callbacks (sample_projector, (audit_db, 0))
    = ((P', (d', 1)), Inr 1)" using sample_reconcile by blast
  have rel: "related (pj_session_id sample_projector) sample_fresh (audit_db, 0) (\<lambda>_. [], 0)"
    using sample_audit_related by (simp add: sample_projector_def)
  show ?thesis
    using projector_refines_memory[OF rel inj_sample_fresh, of sample_projection_env int] sql by fastforce
qed

end
