(* ===== verification/Synchronizer.thy ===== *)
theory Synchronizer
  imports Projector SessionRepos Actions
begin

text \<open>
  The synchronizer: \<^verbatim>\<open>openhands_runtime/synchronizer.py\<close> with \<^verbatim>\<open>evidence_messages.py\<close> and
  \<^verbatim>\<open>runtime_evidence_message_factory.py\<close>. It sends the goal, the evidence and the answers of a session to the agent's
  conversation and marks them as synchronized. The wire text of an envelope is a type parameter; what other requests do to the
  database between the transactions, and whether a send or a commit fails, are functions of the step.
\<close>

section \<open>Envelopes\<close>

datatype message_kind = Kind_Goal | Kind_Evidence | Kind_Evidence_Context | Kind_Answer

record envelope =
  en_message_key :: str
  en_kind :: message_kind
  en_session_id :: str
  en_payload :: payload

datatype 't chat_event = Chat_Message str 't | Chat_Other

datatype send_fault = Sends | Send_Raises bool exc

record 't sync_env =
  sy_urls :: url_env
  sy_redact :: "str \<Rightarrow> str"
  sy_dump :: "envelope \<Rightarrow> 't"
  sy_parse :: "'t \<Rightarrow> envelope option"
  sy_media_facts :: "(nat \<Rightarrow> db \<Rightarrow> str \<Rightarrow> str \<Rightarrow> str \<Rightarrow> exc + media_message_facts) option"
  sy_others :: "nat \<Rightarrow> db \<Rightarrow> db"
  sy_send :: "nat \<Rightarrow> send_fault"
  sy_commit :: "nat \<Rightarrow> tx_fault"
  sy_now :: "nat \<Rightarrow> datetime"

record 't sync_world =
  sw_db :: db
  sw_conversation :: "'t chat_event list"
  sw_step :: nat

definition MAX_TEXT_EVIDENCE_CHARACTERS :: nat where "MAX_TEXT_EVIDENCE_CHARACTERS = 4000"

definition opt_json :: "str option \<Rightarrow> json" where
  "opt_json v = (case v of None \<Rightarrow> Scalar JNull | Some s \<Rightarrow> jstr s)"

text \<open>What of a piece of evidence goes into a message: text is redacted, cut and marked as untrusted.\<close>

definition text_context :: "(str \<Rightarrow> str) \<Rightarrow> str \<Rightarrow> payload" where
  "text_context redact t =
     [(lit ''contentTrust'', jstr (lit ''untrusted'')), (lit ''contextSchemaVersion'', jint 1),
      (lit ''textContent'', jstr (take MAX_TEXT_EVIDENCE_CHARACTERS (redact t))),
      (lit ''textTruncated'', Scalar (JBool (MAX_TEXT_EVIDENCE_CHARACTERS < length t \<or> MAX_TEXT_EVIDENCE_CHARACTERS < length (redact t)))),
      (lit ''originalCharacterCount'', jint (int (length t)))]"

definition runtime_evidence_payload :: "'t sync_env \<Rightarrow> payload \<Rightarrow> exc + payload" where
  "runtime_evidence_payload S ev =
     andthen (safe_evidence_payload (sy_urls S) ev) (\<lambda>p.
     if jget ''evidenceType'' p \<noteq> jstr (lit ''text'') then Inr p
     else Inr (dict_update p (text_context (sy_redact S)
       (case jget2 ''textContent'' ''text_content'' ev of Scalar (JStr t) \<Rightarrow> t | _ \<Rightarrow> []))))"

definition envelope_of :: "'t sync_env \<Rightarrow> 't chat_event \<Rightarrow> envelope option" where
  "envelope_of S e = (case e of
     Chat_Message source t \<Rightarrow> if source \<noteq> lit ''user'' then None else sy_parse S t
   | Chat_Other \<Rightarrow> None)"

definition sent_envelopes :: "'t sync_env \<Rightarrow> 't chat_event list \<Rightarrow> envelope list" where
  "sent_envelopes S conv = List.map_filter (envelope_of S) conv"

text \<open>A dictionary by key: the last envelope of a key wins.\<close>

definition existing_envelopes :: "'t sync_env \<Rightarrow> 't chat_event list \<Rightarrow> str \<rightharpoonup> envelope" where
  "existing_envelopes S conv = map_of (rev (map (\<lambda>e. (en_message_key e, e)) (sent_envelopes S conv)))"

section \<open>Pending messages\<close>

record pending_message =
  pm_key :: str
  pm_kind :: message_kind
  pm_payload :: payload
  pm_evidence_id :: "str option"
  pm_question_id :: "str option"
  pm_answer_version :: "int option"

definition goal_key :: "str \<Rightarrow> str" where
  "goal_key session_id = lit ''goal:'' @ session_id"

definition evidence_key :: "str \<Rightarrow> str" where
  "evidence_key evidence_id = lit ''evidence:'' @ evidence_id"

definition context_key :: "str \<Rightarrow> str" where
  "context_key evidence_id = lit ''evidence-context:'' @ evidence_id @ lit '':v1''"

definition int_text :: "int \<Rightarrow> str" where
  "int_text n = (if n < 0 then lit ''-'' @ dec (nat (- n)) else dec (nat n))"

definition answer_message_key :: "str \<Rightarrow> str \<Rightarrow> int \<Rightarrow> str" where
  "answer_message_key session_id question_id version =
     lit ''answer:'' @ session_id @ lit '':'' @ question_id @ lit '':'' @ int_text version"

definition evidence_fields :: "stored_evidence \<Rightarrow> payload" where
  "evidence_fields r =
     [(lit ''evidenceId'', jstr (se_evidence_id r)), (lit ''evidenceType'', jstr (se_evidence_type r)),
      (lit ''contentHash'', jstr (se_content_hash r)), (lit ''textContent'', opt_json (se_text_content r))]"

definition goal_message :: "session_row \<Rightarrow> pending_message" where
  "goal_message s =
     \<lparr>pm_key = goal_key (ls_session_id s), pm_kind = Kind_Goal,
      pm_payload = [(lit ''domain'', jstr (ls_domain s)), (lit ''title'', jstr (ls_title s)), (lit ''goal'', jstr (ls_goal s)),
        (lit ''expectedOutput'', opt_json (ls_expected_output s)),
        (lit ''plannedMinutes'', case ls_planned_minutes s of None \<Rightarrow> Scalar JNull | Some n \<Rightarrow> jint n)],
      pm_evidence_id = None, pm_question_id = None, pm_answer_version = None\<rparr>"

definition evidence_message :: "'t sync_env \<Rightarrow> stored_evidence \<Rightarrow> exc + pending_message" where
  "evidence_message S r =
     andthen (runtime_evidence_payload S (evidence_fields r @ [(lit ''sourceUrl'', opt_json (se_source_url r))])) (\<lambda>p.
     Inr \<lparr>pm_key = evidence_key (se_evidence_id r), pm_kind = Kind_Evidence, pm_payload = p,
       pm_evidence_id = Some (se_evidence_id r), pm_question_id = None, pm_answer_version = None\<rparr>)"

definition has_text_context :: "envelope \<Rightarrow> bool" where
  "has_text_context e \<longleftrightarrow> is_jstr (jget ''textContent'' (en_payload e)) \<and> jget ''contentTrust'' (en_payload e) = jstr (lit ''untrusted'')"

text \<open>Text evidence that was sent without its text is followed by a message with the text.\<close>

definition needs_context :: "(str \<rightharpoonup> envelope) \<Rightarrow> stored_evidence \<Rightarrow> bool" where
  "needs_context existing r \<longleftrightarrow> se_evidence_type r = lit ''text''
     \<and> (case existing (evidence_key (se_evidence_id r)) of None \<Rightarrow> False | Some e \<Rightarrow> \<not> has_text_context e)
     \<and> existing (context_key (se_evidence_id r)) = None"

definition context_message :: "'t sync_env \<Rightarrow> stored_evidence \<Rightarrow> exc + pending_message" where
  "context_message S r =
     andthen (runtime_evidence_payload S (evidence_fields r)) (\<lambda>p.
     Inr \<lparr>pm_key = context_key (se_evidence_id r), pm_kind = Kind_Evidence_Context, pm_payload = p,
       pm_evidence_id = None, pm_question_id = None, pm_answer_version = None\<rparr>)"

definition answer_message :: "answer_row \<Rightarrow> pending_message" where
  "answer_message a =
     \<lparr>pm_key = answer_message_key (an_session_id a) (an_question_id a) (an_version a), pm_kind = Kind_Answer,
      pm_payload = [(lit ''questionId'', jstr (an_question_id a)), (lit ''answer'', jstr (an_answer a)), (lit ''version'', jint (an_version a))],
      pm_evidence_id = None, pm_question_id = Some (an_question_id a), pm_answer_version = Some (an_version a)\<rparr>"

fun map_result :: "('a \<Rightarrow> 'e + 'b) \<Rightarrow> 'a list \<Rightarrow> 'e + 'b list" where
  "map_result f [] = Inr []"
| "map_result f (x # xs) = andthen (f x) (\<lambda>y. andthen (map_result f xs) (\<lambda>ys. Inr (y # ys)))"

definition pending_messages ::
  "'t sync_env \<Rightarrow> session_row \<Rightarrow> stored_evidence list \<Rightarrow> answer_row list \<Rightarrow> (str \<rightharpoonup> envelope) \<Rightarrow> exc + pending_message list" where
  "pending_messages S s evidence answers existing =
     andthen (map_result (evidence_message S) evidence) (\<lambda>es.
     andthen (map_result (context_message S) (filter (needs_context existing) evidence)) (\<lambda>cs.
     Inr (goal_message s # es @ cs @ map answer_message answers)))"

section \<open>Building a message\<close>

definition is_media_evidence_record :: "stored_evidence option \<Rightarrow> bool" where
  "is_media_evidence_record r = (case r of None \<Rightarrow> False | Some e \<Rightarrow> starts_with (lit ''image/'') (se_evidence_type e))"

definition media_payload :: "media_message_facts \<Rightarrow> payload" where
  "media_payload f =
     [(lit ''receipt_id'', jstr (mm_receipt_id f)), (lit ''attempt_id'', jstr (mm_attempt_id f)),
      (lit ''scan_result'', jstr (lit (mm_scan_result f))), (lit ''artifact_ref'', jstr (mm_artifact_ref f)),
      (lit ''artifact_sha256'', jstr (mm_artifact_sha256 f)), (lit ''media_type'', jstr (mm_media_type f)),
      (lit ''normalized_sha256'', jstr (mm_normalized_sha256 f)), (lit ''byte_size'', jint (mm_byte_size f)),
      (lit ''width'', jint (mm_width f)), (lit ''height'', jint (mm_height f))]"

definition build_runtime_evidence_message ::
  "'t sync_env \<Rightarrow> nat \<Rightarrow> db \<Rightarrow> str \<Rightarrow> str \<Rightarrow> str \<Rightarrow> message_kind \<Rightarrow> payload \<Rightarrow> stored_evidence option \<Rightarrow> exc + 't" where
  "build_runtime_evidence_message S n d user session_id key kind p item =
     (let envelope = (\<lambda>p. sy_dump S \<lparr>en_message_key = key, en_kind = kind, en_session_id = session_id, en_payload = p\<rparr>) in
      if \<not> is_media_evidence_record item then Inr (envelope p) else
      case sy_media_facts S of
        None \<Rightarrow> Inl (RuntimeError ''media message content provider is unavailable'')
      | Some get_facts \<Rightarrow>
        andthen (get_facts n d user session_id (se_evidence_id (the item))) (\<lambda>f.
        andthen (require (mm_scan_result f = ''clean'') (RuntimeError ''media message facts require a clean receipt'')) (\<lambda>_.
        Inr (envelope (dict_update p (media_payload f))))))"

section \<open>The synchronization\<close>

type_synonym ('t, 'a) sync_action = "('t sync_world, exc, 'a) action"

text \<open>A step of the world: other requests change the database.\<close>

definition tick :: "'t sync_env \<Rightarrow> ('t, nat \<times> db) sync_action" where
  "tick S w = (let d = sy_others S (sw_step w) (sw_db w) in
     (w\<lparr>sw_db := d, sw_step := sw_step w + 1\<rparr>, Inr (sw_step w, d)))"

definition load_product_facts ::
  "'t sync_env \<Rightarrow> str \<Rightarrow> ('t, session_row \<times> stored_evidence list \<times> answer_row list) sync_action" where
  "load_product_facts S session_id =
     bnd (tick S) (\<lambda>(n, d). case find_session session_id d of
       None \<Rightarrow> rethrow (KeyError ''Session does not exist'')
     | Some s \<Rightarrow> ret (s, evidence_list session_id d, answer_list session_id d))"

fun prepare ::
  "'t sync_env \<Rightarrow> str \<Rightarrow> session_row \<Rightarrow> (str \<rightharpoonup> stored_evidence) \<Rightarrow> (str \<rightharpoonup> envelope) \<Rightarrow> pending_message list
    \<Rightarrow> ('t, (pending_message \<times> 't option) list) sync_action" where
  "prepare S user s by_id existing [] = ret []"
| "prepare S user s by_id existing (p # ps) =
     (if existing (pm_key p) \<noteq> None
      then bnd (prepare S user s by_id existing ps) (\<lambda>r. ret ((p, None) # r))
      else
        let item = by_id (case pm_evidence_id p of None \<Rightarrow> [] | Some i \<Rightarrow> i) in
        bnd (tick S) (\<lambda>(n, d).
        case build_runtime_evidence_message S n d user (ls_session_id s) (pm_key p) (pm_kind p) (pm_payload p) item of
          Inl e \<Rightarrow> if \<not> is_media_evidence_record item then rethrow e else prepare S user s by_id existing ps
        | Inr m \<Rightarrow> bnd (prepare S user s by_id existing ps) (\<lambda>r. ret ((p, Some m) # r))))"

definition send_message :: "'t sync_env \<Rightarrow> 't \<Rightarrow> ('t, unit) sync_action" where
  "send_message S t w =
     (let sent = w\<lparr>sw_conversation := sw_conversation w @ [Chat_Message (lit ''user'') t], sw_step := sw_step w + 1\<rparr>
      in case sy_send S (sw_step w) of
        Sends \<Rightarrow> (sent, Inr ())
      | Send_Raises stored e \<Rightarrow> (if stored then sent else w\<lparr>sw_step := sw_step w + 1\<rparr>, Inl e))"

definition mark :: "'t sync_env \<Rightarrow> nat \<Rightarrow> str \<Rightarrow> pending_message \<Rightarrow> db \<Rightarrow> exc + db" where
  "mark S n session_id p d = (case pm_kind p of
     Kind_Goal \<Rightarrow> Inr (mark_goal_synced session_id (sy_now S n) d)
   | Kind_Evidence \<Rightarrow> (case pm_evidence_id p of
         None \<Rightarrow> Inl (RuntimeError ''assert'') | Some i \<Rightarrow> Inr (evidence_mark_synced session_id i (sy_now S n) d))
   | _ \<Rightarrow> (case (pm_question_id p, pm_answer_version p) of
         (Some q, Some v) \<Rightarrow> Inr (answer_mark_synced session_id q v (sy_now S n) (sy_now S (n + 1)) d)
       | _ \<Rightarrow> Inl (RuntimeError ''assert'')))"

definition mark_confirmed :: "'t sync_env \<Rightarrow> str \<Rightarrow> pending_message \<Rightarrow> ('t, unit) sync_action" where
  "mark_confirmed S session_id p =
     (if pm_kind p = Kind_Evidence_Context then ret () else
      bnd (tick S) (\<lambda>(n, d) w. case mark S n session_id p d of
        Inl e \<Rightarrow> (w, Inl e)
      | Inr d' \<Rightarrow> (case sy_commit S n of
            Commits \<Rightarrow> (w\<lparr>sw_db := d'\<rparr>, Inr ())
          | Commit_Fails e \<Rightarrow> (w, Inl e)
          | Commit_Unknown e \<Rightarrow> (w\<lparr>sw_db := d'\<rparr>, Inl e))))"

fun deliver :: "'t sync_env \<Rightarrow> str \<Rightarrow> (pending_message \<times> 't option) list \<Rightarrow> nat \<Rightarrow> nat \<Rightarrow> ('t, nat \<times> nat) sync_action" where
  "deliver S session_id [] sent confirmed = ret (sent, confirmed)"
| "deliver S session_id ((p, m) # ps) sent confirmed =
     bnd (option_do m (send_message S)) (\<lambda>_.
     bnd (mark_confirmed S session_id p) (\<lambda>_.
     deliver S session_id ps (if m = None then sent else sent + 1) (confirmed + 1)))"

definition read_conversation :: "('t, 't chat_event list) sync_action" where
  "read_conversation w = (w, Inr (sw_conversation w))"

definition evidence_by_id :: "stored_evidence list \<Rightarrow> str \<rightharpoonup> stored_evidence" where
  "evidence_by_id evidence = map_of (rev (map (\<lambda>e. (se_evidence_id e, e)) evidence))"

definition sync :: "'t sync_env \<Rightarrow> str \<Rightarrow> str \<Rightarrow> ('t, nat \<times> nat) sync_action" where
  "sync S session_id user =
     bnd (load_product_facts S session_id) (\<lambda>(s, evidence, answers).
     if ls_owner_user_id s \<noteq> user then rethrow (PermissionError ''Verified identity does not own this session'') else
     bnd read_conversation (\<lambda>conv. let existing = existing_envelopes S conv in
     bnd (checked (pending_messages S s evidence answers existing)) (\<lambda>pending.
     bnd (prepare S user s (evidence_by_id evidence) existing pending) (\<lambda>prepared.
     deliver S (ls_session_id s) prepared 0 0))))"

section \<open>Keys\<close>

definition sent_keys :: "'t sync_env \<Rightarrow> 't chat_event list \<Rightarrow> str list" where
  "sent_keys S conv = map en_message_key (sent_envelopes S conv)"

lemma sent_keys_append [simp]: "sent_keys S (a @ b) = sent_keys S a @ sent_keys S b"
  by (simp add: sent_keys_def sent_envelopes_def List.map_filter_def)

lemma sent_keys_single: "sent_keys S [e] = (case envelope_of S e of None \<Rightarrow> [] | Some x \<Rightarrow> [en_message_key x])"
  by (auto simp: sent_keys_def sent_envelopes_def List.map_filter_def split: option.splits)

lemma existing_iff: "existing_envelopes S conv k = None \<longleftrightarrow> k \<notin> set (sent_keys S conv)"
  by (simp add: existing_envelopes_def sent_keys_def map_of_eq_None_iff image_image)

lemma int_text_no_colon: "58 \<notin> set (int_text n)"
proof -
  have "58 \<notin> set (dec k)" for k using dec_digits[of 58 k] by auto
  then show ?thesis by (simp add: int_text_def lit_def)
qed

lemma int_text_sign: "int_text n \<noteq> [] \<and> (hd (int_text n) = 45 \<longleftrightarrow> n < 0)"
proof -
  have ne: "dec k \<noteq> []" for k by (subst dec.simps) simp
  have "hd (dec k) \<noteq> 45" for k using dec_digits[of "hd (dec k)" k] hd_in_set[OF ne, of k] by auto
  then show ?thesis using ne by (simp add: int_text_def lit_def)
qed

lemma int_text_inject:
  assumes "int_text m = int_text n"
  shows "m = n"
proof (cases "m < 0")
  case True
  moreover have "n < 0" using True assms int_text_sign[of m] int_text_sign[of n] by simp
  ultimately have "dec (nat (- m)) = dec (nat (- n))" using assms by (simp add: int_text_def)
  then show ?thesis using dec_inject[of "nat (- m)" "nat (- n)"] True \<open>n < 0\<close> by simp
next
  case False
  moreover have "\<not> n < 0" using False assms int_text_sign[of m] int_text_sign[of n] by simp
  ultimately have "dec (nat m) = dec (nat n)" using assms by (simp add: int_text_def)
  then show ?thesis using dec_inject[of "nat m" "nat n"] False \<open>\<not> n < 0\<close> by simp
qed

lemma answer_message_key_inject:
  assumes "answer_message_key i q v = answer_message_key i q' v'"
  shows "q = q' \<and> v = v'"
proof -
  have "q @ 58 # int_text v = q' @ 58 # int_text v'" using assms by (simp add: answer_message_key_def lit_def)
  then have "rev (q @ 58 # int_text v) = rev (q' @ 58 # int_text v')" by (rule arg_cong)
  then have "rev (int_text v) @ 58 # rev q = rev (int_text v') @ 58 # rev q'" by simp
  then have "rev (int_text v) = rev (int_text v') \<and> rev q = rev q'"
    by (intro append_sep_inject) (simp_all add: int_text_no_colon)
  then show ?thesis using int_text_inject by simp
qed

lemma key_kinds:
  "goal_key a \<noteq> evidence_key b" "goal_key a \<noteq> context_key b" "goal_key a \<noteq> answer_message_key c q v"
  "evidence_key a \<noteq> context_key b" "evidence_key a \<noteq> answer_message_key c q v" "context_key a \<noteq> answer_message_key c q v"
  by (simp_all add: goal_key_def evidence_key_def context_key_def answer_message_key_def lit_def)

lemma key_inject [simp]: "evidence_key a = evidence_key b \<longleftrightarrow> a = b" "context_key a = context_key b \<longleftrightarrow> a = b"
  by (simp_all add: evidence_key_def context_key_def)

lemma map_result_Inr: "map_result f xs = Inr ys \<Longrightarrow> list_all2 (\<lambda>x y. f x = Inr y) xs ys"
  by (induction xs arbitrary: ys) (auto simp: andthen_Inr_iff)

lemma map_result_keys:
  assumes "map_result f xs = Inr ys" and "\<And>x y. f x = Inr y \<Longrightarrow> k y = g x"
  shows "map k ys = map g xs"
  using map_result_Inr[OF assms(1)] by (induction rule: list_all2_induct) (simp_all add: assms(2))

lemma map_result_all: "map_result f xs = Inr ys \<Longrightarrow> (\<And>x y. f x = Inr y \<Longrightarrow> P y) \<Longrightarrow> list_all P ys"
  by (induction xs arbitrary: ys) (auto simp: andthen_Inr_iff)


lemma evidence_message_key: "evidence_message S r = Inr p \<Longrightarrow> pm_key p = evidence_key (se_evidence_id r)"
  by (auto simp: evidence_message_def andthen_Inr_iff)

lemma context_message_key: "context_message S r = Inr p \<Longrightarrow> pm_key p = context_key (se_evidence_id r)"
  by (auto simp: context_message_def andthen_Inr_iff)

lemma pending_keys:
  assumes "pending_messages S s evidence answers existing = Inr ps"
  shows "map pm_key ps = goal_key (ls_session_id s) # map (\<lambda>r. evidence_key (se_evidence_id r)) evidence
    @ map (\<lambda>r. context_key (se_evidence_id r)) (filter (needs_context existing) evidence)
    @ map (\<lambda>a. answer_message_key (an_session_id a) (an_question_id a) (an_version a)) answers"
proof -
  obtain es cs where e: "map_result (evidence_message S) evidence = Inr es"
    and c: "map_result (context_message S) (filter (needs_context existing) evidence) = Inr cs"
    and ps: "ps = goal_message s # es @ cs @ map answer_message answers"
    using assms by (auto simp: pending_messages_def andthen_Inr_iff)
  show ?thesis
    using map_result_keys[OF e, where k = pm_key, OF evidence_message_key[of S]] map_result_keys[OF c, where k = pm_key, OF context_message_key[of S]]
    by (simp add: ps goal_message_def answer_message_def comp_def)
qed

text \<open>The tables of the product facts: their primary keys.\<close>

definition product_keys :: "db \<Rightarrow> bool" where
  "product_keys d \<longleftrightarrow> unique_key ls_session_id (t_sessions d) \<and> unique_key ev_evidence_id (t_evidence d) \<and> unique_key answer_key (t_answers d)"

lemma evidence_list_ids: "product_keys d \<Longrightarrow> distinct (map se_evidence_id (evidence_list i d))"
  by (auto simp: product_keys_def unique_key_def evidence_list_def stored_evidence_of_def comp_def distinct_map inj_on_def)

lemma answer_list_keys:
  assumes "product_keys d"
  shows "distinct (map (\<lambda>a. answer_message_key (an_session_id a) (an_question_id a) (an_version a)) (answer_list i d))"
proof -
  have "distinct (t_answers d)" and inj: "inj_on answer_key (set (t_answers d))"
    using assms by (auto simp: product_keys_def unique_key_def distinct_map)
  then show ?thesis
    by (auto simp: answer_list_def distinct_map inj_on_def answer_key_def dest!: answer_message_key_inject)
qed

lemma pending_distinct:
  assumes "product_keys d" and "pending_messages S s (evidence_list i d) (answer_list i d) existing = Inr ps"
  shows "distinct (map pm_key ps)"
proof -
  have "distinct (map se_evidence_id (filter P (evidence_list i d)))" for P
    using evidence_list_ids[OF assms(1), of i] by (simp add: distinct_map_filter)
  from this[of "\<lambda>_. True"] this[of "needs_context existing"]
  have "distinct (map (\<lambda>r. evidence_key (se_evidence_id r)) (evidence_list i d))"
    "distinct (map (\<lambda>r. context_key (se_evidence_id r)) (filter (needs_context existing) (evidence_list i d)))"
    by (simp_all add: distinct_map inj_on_def)
  then show ?thesis
    unfolding pending_keys[OF assms(2)] using answer_list_keys[OF assms(1), of i] by (auto simp: key_kinds key_kinds[symmetric])
qed

section \<open>What is marked was sent\<close>

text \<open>The keys of the messages that the database holds as synchronized, for a session.\<close>

definition goal_marks :: "str \<Rightarrow> session_row list \<Rightarrow> str set" where
  "goal_marks i rows = (\<lambda>s. goal_key (ls_session_id s)) ` {s \<in> set rows. ls_session_id s = i \<and> ls_goal_conversation_synced_at s \<noteq> None}"

definition evidence_marks :: "str \<Rightarrow> evidence_row list \<Rightarrow> str set" where
  "evidence_marks i rows = (\<lambda>e. evidence_key (ev_evidence_id e)) ` {e \<in> set rows. ev_session_id e = i \<and> ev_conversation_synced_at e \<noteq> None}"

definition answer_marks :: "str \<Rightarrow> answer_row list \<Rightarrow> str set" where
  "answer_marks i rows = (\<lambda>a. answer_message_key i (an_question_id a) (an_version a))
     ` {a \<in> set rows. an_session_id a = i \<and> an_conversation_synced_at a \<noteq> None}"

definition marked_keys :: "str \<Rightarrow> db \<Rightarrow> str set" where
  "marked_keys i d = goal_marks i (t_sessions d) \<union> evidence_marks i (t_evidence d) \<union> answer_marks i (t_answers d)"

text \<open>Other requests keep the primary keys and mark nothing as synchronized.\<close>

definition others_ok :: "'t sync_env \<Rightarrow> str \<Rightarrow> bool" where
  "others_ok S i \<longleftrightarrow> (\<forall>n d. product_keys d \<longrightarrow> product_keys (sy_others S n d) \<and> marked_keys i (sy_others S n d) \<subseteq> marked_keys i d)"

definition wire_ok :: "'t sync_env \<Rightarrow> bool" where
  "wire_ok S \<longleftrightarrow> (\<forall>e. sy_parse S (sy_dump S e) = Some e)"

definition sync_inv :: "str \<Rightarrow> db \<times> str list \<Rightarrow> bool" where
  "sync_inv i v \<longleftrightarrow> product_keys (fst v) \<and> marked_keys i (fst v) \<subseteq> set (snd v)"

definition keys_kept :: "db \<times> str list \<Rightarrow> db \<times> str list \<Rightarrow> bool" where
  "keys_kept v v' \<longleftrightarrow> set (snd v) \<subseteq> set (snd v')"

interpretation syncing: guarded_actions "\<lambda>w :: 't sync_world. (sw_db w, sent_keys S (sw_conversation w))" "sync_inv i" keys_kept for S i
  by unfold_locales (auto simp: keys_kept_def)

interpretation sending: traced_actions "\<lambda>w :: 't sync_world. sent_keys S (sw_conversation w)" for S .

lemma stable_keys: "syncing.stable (\<lambda>(d, ks). K \<subseteq> set ks)"
  by (auto simp: syncing.stable_def keys_kept_def)

text \<open>A message that belongs to the session: its identifiers are those of its key.\<close>

definition pending_ok :: "str \<Rightarrow> pending_message \<Rightarrow> bool" where
  "pending_ok i p \<longleftrightarrow> (case pm_kind p of
     Kind_Goal \<Rightarrow> pm_key p = goal_key i
   | Kind_Evidence \<Rightarrow> \<exists>e. pm_evidence_id p = Some e \<and> pm_key p = evidence_key e
   | Kind_Evidence_Context \<Rightarrow> True
   | Kind_Answer \<Rightarrow> \<exists>q v. pm_question_id p = Some q \<and> pm_answer_version p = Some v \<and> pm_key p = answer_message_key i q v)"

lemma marked_tupdate:
  assumes "\<And>r. r \<in> set rows \<Longrightarrow> Q r \<Longrightarrow> k (f r) = key"
  shows "k ` {r \<in> set (tupdate Q f rows). P r} \<subseteq> insert key (k ` {r \<in> set rows. P r})"
proof
  fix x
  assume "x \<in> k ` {r \<in> set (tupdate Q f rows). P r}"
  then obtain r where "r \<in> set (tupdate Q f rows)" "P r" "x = k r" by blast
  then show "x \<in> insert key (k ` {r \<in> set rows. P r})" using assms by (auto simp: set_tupdate)
qed

lemma insert_Un:
  "A' \<subseteq> insert k A \<Longrightarrow> A' \<union> B \<union> C \<subseteq> insert k (A \<union> B \<union> C)" "B' \<subseteq> insert k B \<Longrightarrow> A \<union> B' \<union> C \<subseteq> insert k (A \<union> B \<union> C)"
  "C' \<subseteq> insert k C \<Longrightarrow> A \<union> B \<union> C' \<subseteq> insert k (A \<union> B \<union> C)"
  by blast+

lemma marked_tables:
  "marked_keys i (d\<lparr>t_sessions := rows\<rparr>) = goal_marks i rows \<union> evidence_marks i (t_evidence d) \<union> answer_marks i (t_answers d)"
  "marked_keys i (d\<lparr>t_evidence := es\<rparr>) = goal_marks i (t_sessions d) \<union> evidence_marks i es \<union> answer_marks i (t_answers d)"
  "marked_keys i (d\<lparr>t_answers := as\<rparr>) = goal_marks i (t_sessions d) \<union> evidence_marks i (t_evidence d) \<union> answer_marks i as"
  by (simp_all add: marked_keys_def)

lemma mark_effect:
  assumes "product_keys d" and "pending_ok i p" and "pm_kind p \<noteq> Kind_Evidence_Context"
  shows "\<exists>d'. mark S n i p d = Inr d' \<and> product_keys d' \<and> marked_keys i d' \<subseteq> insert (pm_key p) (marked_keys i d)"
proof (cases "pm_kind p")
  case Kind_Goal
  then have "mark S n i p d = Inr (mark_goal_synced i (sy_now S n) d)" and k: "pm_key p = goal_key i"
    using assms(2) by (simp_all add: mark_def pending_ok_def)
  moreover have "product_keys (mark_goal_synced i (sy_now S n) d)"
    using assms(1) by (simp add: product_keys_def mark_goal_synced_def unique_key_tupdate)
  moreover have "marked_keys i (mark_goal_synced i (sy_now S n) d) \<subseteq> insert (pm_key p) (marked_keys i d)"
    unfolding k mark_goal_synced_def marked_tables marked_keys_def[of i d] goal_marks_def
    by (rule insert_Un(1)[OF marked_tupdate]) simp
  ultimately show ?thesis by blast
next
  case Kind_Evidence
  then obtain e where m: "mark S n i p d = Inr (evidence_mark_synced i e (sy_now S n) d)" and k: "pm_key p = evidence_key e"
    using assms(2) by (auto simp: mark_def pending_ok_def)
  moreover have "product_keys (evidence_mark_synced i e (sy_now S n) d)"
    using assms(1) by (simp add: product_keys_def evidence_mark_synced_def unique_key_tupdate)
  moreover have "marked_keys i (evidence_mark_synced i e (sy_now S n) d) \<subseteq> insert (pm_key p) (marked_keys i d)"
    unfolding k evidence_mark_synced_def marked_tables marked_keys_def[of i d] evidence_marks_def
    by (rule insert_Un(2)[OF marked_tupdate]) simp
  ultimately show ?thesis by blast
next
  case Kind_Answer
  then obtain q v where m: "mark S n i p d = Inr (answer_mark_synced i q v (sy_now S n) (sy_now S (n + 1)) d)"
    and k: "pm_key p = answer_message_key i q v"
    using assms(2) by (auto simp: mark_def pending_ok_def)
  moreover have "product_keys (answer_mark_synced i q v (sy_now S n) (sy_now S (n + 1)) d)"
    using assms(1) by (simp add: product_keys_def answer_mark_synced_def unique_key_tupdate answer_key_def)
  moreover have "marked_keys i (answer_mark_synced i q v (sy_now S n) (sy_now S (n + 1)) d) \<subseteq> insert (pm_key p) (marked_keys i d)"
    unfolding k answer_mark_synced_def marked_tables marked_keys_def[of i d] answer_marks_def
    by (rule insert_Un(3)[OF marked_tupdate]) (simp add: answer_key_def)
  ultimately show ?thesis by blast
qed (use assms(3) in simp)

lemma tick_run: "tick S w = (w\<lparr>sw_db := sy_others S (sw_step w) (sw_db w), sw_step := sw_step w + 1\<rparr>,
    Inr (sw_step w, sy_others S (sw_step w) (sw_db w)))"
  by (simp add: tick_def Let_def)

lemma tick_safe:
  fixes S :: "'t sync_env"
  shows "others_ok S i \<Longrightarrow> syncing.safe S i P (tick S) (\<lambda>_ _. True)"
proof (rule syncing.safeI)
  fix w w' :: "'t sync_world" and r :: "exc + nat \<times> db"
  assume others: "others_ok S i" and inv: "sync_inv i (sw_db w, sent_keys S (sw_conversation w))" and run: "tick S w = (w', r)"
  have "product_keys (sw_db w)" and m: "marked_keys i (sw_db w) \<subseteq> set (sent_keys S (sw_conversation w))"
    using inv by (simp_all add: sync_inv_def)
  have w': "w' = w\<lparr>sw_db := sy_others S (sw_step w) (sw_db w), sw_step := sw_step w + 1\<rparr>" using run by (simp add: tick_run)
  have "product_keys (sw_db w') \<and> marked_keys i (sw_db w') \<subseteq> marked_keys i (sw_db w)" and "sw_conversation w' = sw_conversation w"
    using others[unfolded others_ok_def, rule_format, OF \<open>product_keys (sw_db w)\<close>, of "sw_step w"] by (simp_all add: w')
  then show "sync_inv i (sw_db w', sent_keys S (sw_conversation w'))
      \<and> keys_kept (sw_db w, sent_keys S (sw_conversation w)) (sw_db w', sent_keys S (sw_conversation w'))
      \<and> (\<forall>x. r = Inr x \<longrightarrow> True)"
    using m by (auto simp: sync_inv_def keys_kept_def)
qed

lemma mark_confirmed_safe:
  fixes S :: "'t sync_env"
  assumes "others_ok S i" and "pending_ok i p"
  shows "syncing.safe S i (\<lambda>(d, ks). {pm_key p} \<subseteq> set ks) (mark_confirmed S i p) (\<lambda>_ _. True)"
proof (cases "pm_kind p = Kind_Evidence_Context")
  case True
  then show ?thesis by (simp add: mark_confirmed_def syncing.safe_ret)
next
  case False
  show ?thesis
  proof (rule syncing.safeI)
    fix w w' :: "'t sync_world" and r :: "exc + unit"
    let ?n = "sw_step w" and ?ks = "set (sent_keys S (sw_conversation w))"
    let ?d = "sy_others S ?n (sw_db w)"
    assume inv: "sync_inv i (sw_db w, sent_keys S (sw_conversation w))"
      and key: "case (sw_db w, sent_keys S (sw_conversation w)) of (d, ks) \<Rightarrow> {pm_key p} \<subseteq> set ks"
      and run: "mark_confirmed S i p w = (w', r)"
    have d: "product_keys ?d" "marked_keys i ?d \<subseteq> ?ks"
      using assms(1) inv by (auto simp: others_ok_def sync_inv_def)
    obtain d' where d': "mark S ?n i p ?d = Inr d'" "product_keys d'" "marked_keys i d' \<subseteq> insert (pm_key p) (marked_keys i ?d)"
      using mark_effect[OF d(1) assms(2) False] by blast
    have "marked_keys i d' \<subseteq> ?ks" using d'(3) d(2) key by auto
    moreover have "sw_conversation w' = sw_conversation w \<and> (sw_db w' = d' \<or> sw_db w' = ?d)"
      using run False d'(1) by (auto simp: mark_confirmed_def bnd_def tick_run split: tx_fault.splits)
    ultimately show "sync_inv i (sw_db w', sent_keys S (sw_conversation w'))
        \<and> keys_kept (sw_db w, sent_keys S (sw_conversation w)) (sw_db w', sent_keys S (sw_conversation w'))
        \<and> (\<forall>x. r = Inr x \<longrightarrow> True)"
      using d d'(2) by (auto simp: sync_inv_def keys_kept_def)
  qed
qed

text \<open>A message that was prepared: it is in the conversation already, or its text carries its key.\<close>

definition prepared_ok :: "'t sync_env \<Rightarrow> str \<Rightarrow> str set \<Rightarrow> pending_message \<times> 't option \<Rightarrow> bool" where
  "prepared_ok S i K x \<longleftrightarrow> pending_ok i (fst x) \<and> (case snd x of
     None \<Rightarrow> pm_key (fst x) \<in> K
   | Some t \<Rightarrow> pm_key (fst x) \<notin> K \<and> (\<exists>e. sy_parse S t = Some e \<and> en_message_key e = pm_key (fst x)))"

lemma send_run:
  assumes "sy_parse S t = Some e"
  shows "\<exists>ks. sent_keys S (sw_conversation (fst (send_message S t w))) = sent_keys S (sw_conversation w) @ ks
    \<and> sw_db (fst (send_message S t w)) = sw_db w
    \<and> (case snd (send_message S t w) of Inr _ \<Rightarrow> ks = [en_message_key e] | Inl _ \<Rightarrow> ks = [] \<or> ks = [en_message_key e])"
  using assms by (auto simp: send_message_def Let_def sent_keys_single envelope_of_def split: send_fault.split)

lemma send_safe:
  fixes S :: "'t sync_env"
  assumes "case m of None \<Rightarrow> k \<in> K | Some t \<Rightarrow> \<exists>e. sy_parse S t = Some e \<and> en_message_key e = k"
  shows "syncing.safe S i (\<lambda>(d, ks). K \<subseteq> set ks) (option_do m (send_message S)) (\<lambda>_ (d, ks). {k} \<subseteq> set ks)"
proof (cases m)
  case None
  then show ?thesis using assms by (auto simp: option_do_def intro!: syncing.safe_ret)
next
  case (Some t)
  then obtain e where e: "sy_parse S t = Some e" "en_message_key e = k" using assms by auto
  show ?thesis
  proof (rule syncing.safeI)
    fix w w' :: "'t sync_world" and r :: "exc + unit"
    assume inv: "sync_inv i (sw_db w, sent_keys S (sw_conversation w))" and run: "option_do m (send_message S) w = (w', r)"
    have "send_message S t w = (w', r)" using run by (simp add: Some option_do_def)
    then obtain ks where "sent_keys S (sw_conversation w') = sent_keys S (sw_conversation w) @ ks" "sw_db w' = sw_db w"
      "case r of Inr _ \<Rightarrow> ks = [k] | Inl _ \<Rightarrow> ks = [] \<or> ks = [k]"
      using send_run[OF e(1), of w] e(2) by auto
    then show "sync_inv i (sw_db w', sent_keys S (sw_conversation w'))
        \<and> keys_kept (sw_db w, sent_keys S (sw_conversation w)) (sw_db w', sent_keys S (sw_conversation w'))
        \<and> (\<forall>x. r = Inr x \<longrightarrow> (case (sw_db w', sent_keys S (sw_conversation w')) of (d, ks) \<Rightarrow> {k} \<subseteq> set ks))"
      using inv by (auto simp: sync_inv_def keys_kept_def)
  qed
qed

lemma deliver_safe:
  assumes "others_ok S i" and "list_all (prepared_ok S i K) xs"
  shows "syncing.safe S i (\<lambda>(d, ks). K \<subseteq> set ks) (deliver S i xs sent confirmed) (\<lambda>_ _. True)"
  using assms(2)
proof (induction xs arbitrary: sent confirmed)
  case Nil
  show ?case unfolding deliver.simps by (rule syncing.safe_ret) simp
next
  case (Cons x xs)
  obtain p m where x: "x = (p, m)" by (cases x)
  have ok: "pending_ok i p" "case m of None \<Rightarrow> pm_key p \<in> K | Some t \<Rightarrow> \<exists>e. sy_parse S t = Some e \<and> en_message_key e = pm_key p"
    using Cons.prems by (auto simp: x prepared_ok_def split: option.splits)
  show ?case
    unfolding x deliver.simps
  proof (rule syncing.safe_bnd[OF send_safe[OF ok(2)] _ stable_keys])
    fix u :: unit
    show "syncing.safe S i (\<lambda>d. (case d of (d, ks) \<Rightarrow> K \<subseteq> set ks) \<and> (case d of (d, ks) \<Rightarrow> {pm_key p} \<subseteq> set ks))
      (bnd (mark_confirmed S i p) (\<lambda>_. deliver S i xs (if m = None then sent else sent + 1) (confirmed + 1))) (\<lambda>_ _. True)"
    proof (rule syncing.safe_bnd)
      show "syncing.safe S i (\<lambda>d. (case d of (d, ks) \<Rightarrow> K \<subseteq> set ks) \<and> (case d of (d, ks) \<Rightarrow> {pm_key p} \<subseteq> set ks))
          (mark_confirmed S i p) (\<lambda>_ _. True)"
        by (rule syncing.safe_mono[OF mark_confirmed_safe[OF assms(1) ok(1)]]) simp_all
      show "syncing.safe S i (\<lambda>d. ((case d of (d, ks) \<Rightarrow> K \<subseteq> set ks) \<and> (case d of (d, ks) \<Rightarrow> {pm_key p} \<subseteq> set ks)) \<and> True)
          (deliver S i xs (if m = None then sent else sent + 1) (confirmed + 1)) (\<lambda>_ _. True)" for v :: unit
        by (rule syncing.safe_mono[OF Cons.IH]) (use Cons.prems in simp_all)
      show "syncing.stable (\<lambda>d. (case d of (d, ks) \<Rightarrow> K \<subseteq> set ks) \<and> (case d of (d, ks) \<Rightarrow> {pm_key p} \<subseteq> set ks))"
        by (intro syncing.stable_conj stable_keys)
    qed
  qed
qed

section \<open>Preparing\<close>

lemma tick_quiet: "sending.quiet S (tick S)"
  by (simp add: sending.quiet_def tick_run)

lemma build_key:
  assumes "wire_ok S" and "build_runtime_evidence_message S n d user i key kind p item = Inr t"
  shows "\<exists>e. sy_parse S t = Some e \<and> en_message_key e = key"
  using assms by (auto simp: build_runtime_evidence_message_def wire_ok_def Let_def andthen_Inr_iff split: if_splits option.splits)

lemma prepare_conversation: "sw_conversation (fst (prepare S user s by_id existing ps w)) = sw_conversation w"
proof (induction ps arbitrary: w)
  case (Cons p ps)
  show ?case
  proof (cases "existing (pm_key p)")
    case (Some e)
    then show ?thesis using Cons.IH[of w] by (auto simp: bnd_def split: prod.splits sum.splits)
  next
    case None
    then show ?thesis
      using Cons.IH[of "w\<lparr>sw_db := sy_others S (sw_step w) (sw_db w), sw_step := sw_step w + 1\<rparr>"]
      by (auto simp: bnd_def tick_run Let_def split: prod.splits sum.splits)
  qed
qed simp

lemma prepare_safe:
  assumes "others_ok S i"
  shows "syncing.safe S i (\<lambda>_. True) (prepare S user s by_id existing ps) (\<lambda>_ _. True)"
proof (induction ps)
  case Nil
  show ?case unfolding prepare.simps by (rule syncing.safe_ret) simp
next
  case (Cons p ps)
  have more: "syncing.safe S i (\<lambda>_. True) (bnd (prepare S user s by_id existing ps) (\<lambda>r. ret (x # r))) (\<lambda>_ _. True)" for x
    by (rule syncing.safe_bnd[OF Cons.IH]) (auto intro: syncing.safe_ret)
  show ?case
  proof (cases "existing (pm_key p)")
    case (Some e)
    then show ?thesis using more by simp
  next
    case None
    let ?item = "by_id (case pm_evidence_id p of None \<Rightarrow> [] | Some i \<Rightarrow> i)"
    have "syncing.safe S i (\<lambda>_. True) (bnd (tick S) (\<lambda>(n, d).
        case build_runtime_evidence_message S n d user (ls_session_id s) (pm_key p) (pm_kind p) (pm_payload p) ?item of
          Inl e \<Rightarrow> if \<not> is_media_evidence_record ?item then rethrow e else prepare S user s by_id existing ps
        | Inr m \<Rightarrow> bnd (prepare S user s by_id existing ps) (\<lambda>r. ret ((p, Some m) # r)))) (\<lambda>_ _. True)"
    proof (rule syncing.safe_bnd[OF tick_safe[OF assms]])
      fix x :: "nat \<times> db"
      show "syncing.safe S i (\<lambda>d. True \<and> True) (case x of (n, d) \<Rightarrow>
        (case build_runtime_evidence_message S n d user (ls_session_id s) (pm_key p) (pm_kind p) (pm_payload p) ?item of
          Inl e \<Rightarrow> if \<not> is_media_evidence_record ?item then rethrow e else prepare S user s by_id existing ps
        | Inr m \<Rightarrow> bnd (prepare S user s by_id existing ps) (\<lambda>r. ret ((p, Some m) # r)))) (\<lambda>_ _. True)"
        using Cons.IH more by (auto split: sum.splits prod.splits intro: syncing.safe_rethrow)
    qed simp
    then show ?thesis using None by (simp add: Let_def)
  qed
qed

lemma prepare_result:
  assumes "wire_ok S" and "\<And>k. existing k = None \<longleftrightarrow> k \<notin> K" and "list_all (pending_ok i) ps"
    and "prepare S user s by_id existing ps w = (w', Inr xs)"
  shows "list_all (prepared_ok S i K) xs \<and> subseq (map (pm_key \<circ> fst) xs) (map pm_key ps)"
  using assms(3,4)
proof (induction ps arbitrary: w xs)
  case (Cons p ps)
  have p: "pending_ok i p" and ps: "list_all (pending_ok i) ps" using Cons.prems(1) by simp_all
  show ?case
  proof (cases "existing (pm_key p)")
    case (Some e)
    then obtain ys where "prepare S user s by_id existing ps w = (w', Inr ys)" "xs = (p, None) # ys"
      using Cons.prems(2) by (auto dest!: bnd_result)
    moreover have "pm_key p \<in> K" using Some assms(2)[of "pm_key p"] by simp
    ultimately show ?thesis using Cons.IH[OF ps] p by (simp add: prepared_ok_def)
  next
    case None
    let ?item = "by_id (case pm_evidence_id p of None \<Rightarrow> [] | Some i \<Rightarrow> i)"
    obtain n d w1 where run: "(case build_runtime_evidence_message S n d user (ls_session_id s) (pm_key p) (pm_kind p) (pm_payload p) ?item of
          Inl e \<Rightarrow> if \<not> is_media_evidence_record ?item then rethrow e else prepare S user s by_id existing ps
        | Inr m \<Rightarrow> bnd (prepare S user s by_id existing ps) (\<lambda>r. ret ((p, Some m) # r))) w1 = (w', Inr xs)"
      using Cons.prems(2) None by (auto simp: Let_def dest!: bnd_result)
    show ?thesis
    proof (cases "build_runtime_evidence_message S n d user (ls_session_id s) (pm_key p) (pm_kind p) (pm_payload p) ?item")
      case (Inl e)
      then have "prepare S user s by_id existing ps w1 = (w', Inr xs)" using run by (auto split: if_splits)
      then show ?thesis using Cons.IH[OF ps] by (auto intro: list_emb_Cons)
    next
      case (Inr m)
      then obtain ys where "prepare S user s by_id existing ps w1 = (w', Inr ys)" "xs = (p, Some m) # ys"
        using run by (auto dest!: bnd_result)
      moreover have "pm_key p \<notin> K" using None assms(2) by simp
      ultimately show ?thesis using Cons.IH[OF ps] p build_key[OF assms(1) Inr] by (simp add: prepared_ok_def)
    qed
  qed
qed simp

lemma pending_all_ok:
  assumes "pending_messages S s (evidence_list i d) (answer_list i d) existing = Inr ps" and "ls_session_id s = i"
  shows "list_all (pending_ok i) ps"
proof -
  obtain es cs where e: "map_result (evidence_message S) (evidence_list i d) = Inr es"
    and c: "map_result (context_message S) (filter (needs_context existing) (evidence_list i d)) = Inr cs"
    and ps: "ps = goal_message s # es @ cs @ map answer_message (answer_list i d)"
    using assms by (auto simp: pending_messages_def andthen_Inr_iff)
  have "list_all (pending_ok i) es"
    by (rule map_result_all[OF e]) (auto simp: evidence_message_def andthen_Inr_iff pending_ok_def)
  moreover have "list_all (pending_ok i) cs"
    by (rule map_result_all[OF c]) (auto simp: context_message_def andthen_Inr_iff pending_ok_def)
  moreover have "pending_ok i (goal_message s)" by (simp add: pending_ok_def goal_message_def assms(2))
  moreover have "list_all (pending_ok i) (map answer_message (answer_list i d))"
    by (auto simp: list_all_iff pending_ok_def answer_message_def answer_list_def)
  ultimately show ?thesis by (simp add: ps)
qed

section \<open>Delivering\<close>

text \<open>The keys of the messages that are to be sent.\<close>

definition new_keys :: "(pending_message \<times> 't option) list \<Rightarrow> str list" where
  "new_keys xs = map (pm_key \<circ> fst) (filter (\<lambda>x. snd x \<noteq> None) xs)"

lemma mark_confirmed_quiet: "sending.quiet S (mark_confirmed S i p)"
  by (auto simp: sending.quiet_def mark_confirmed_def bnd_def tick_run split: sum.splits tx_fault.splits)

lemma deliver_emits:
  assumes "list_all (prepared_ok S i K) xs"
  shows "sending.emits S (deliver S i xs sent confirmed) (\<lambda>r ks. prefix ks (new_keys xs)
    \<and> (\<forall>a b. r = Inr (a, b) \<longrightarrow> ks = new_keys xs \<and> a = sent + length ks \<and> b = confirmed + length xs))"
  using assms
proof (induction xs arbitrary: sent confirmed)
  case Nil
  show ?case unfolding deliver.simps by (rule sending.emits_ret) (simp add: new_keys_def)
next
  case (Cons x xs)
  obtain p m where x: "x = (p, m)" by (cases x)
  let ?mine = "if m = None then [] else [pm_key p]"
  have keys: "new_keys (x # xs) = ?mine @ new_keys xs" by (simp add: x new_keys_def)
  have send: "sending.emits S (option_do m (send_message S)) (\<lambda>r ks. case r of Inr _ \<Rightarrow> ks = ?mine | Inl _ \<Rightarrow> prefix ks ?mine)"
  proof (cases m)
    case None
    then show ?thesis by (simp add: option_do_def sending.emits_ret)
  next
    case (Some t)
    then obtain e where e: "sy_parse S t = Some e" "en_message_key e = pm_key p"
      using Cons.prems by (auto simp: x prepared_ok_def)
    show ?thesis
      unfolding sending.emits_def
    proof (intro allI impI)
      fix w w' r
      assume "option_do m (send_message S) w = (w', r)"
      then have "send_message S t w = (w', r)" by (simp add: Some option_do_def)
      then show "\<exists>ks. sent_keys S (sw_conversation w') = sent_keys S (sw_conversation w) @ ks
          \<and> (case r of Inr _ \<Rightarrow> ks = ?mine | Inl _ \<Rightarrow> prefix ks ?mine)"
        using send_run[OF e(1), of w] e(2) by (cases r) (auto simp: Some)
    qed
  qed
  show ?case
    unfolding x deliver.simps
  proof (rule sending.emits_bnd[OF send])
    fix u :: unit
    show "sending.emits S (bnd (mark_confirmed S i p) (\<lambda>_. deliver S i xs (if m = None then sent else sent + 1) (confirmed + 1)))
      (\<lambda>r ks. prefix ks (new_keys xs) \<and> (\<forall>a b. r = Inr (a, b) \<longrightarrow> ks = new_keys xs \<and> a = (if m = None then sent else sent + 1) + length ks
        \<and> b = confirmed + 1 + length xs))"
      using Cons.prems by (intro sending.emits_quiet_bnd mark_confirmed_quiet Cons.IH) simp_all
  next
    fix e cs
    assume "case Inl e of Inr _ \<Rightarrow> cs = ?mine | Inl _ \<Rightarrow> prefix cs ?mine"
    then show "prefix cs (new_keys ((p, m) # xs))
      \<and> (\<forall>a b. Inl e = Inr (a, b) \<longrightarrow> cs = new_keys ((p, m) # xs) \<and> a = sent + length cs \<and> b = confirmed + length ((p, m) # xs))"
      using keys by (simp add: x prefix_prefix)
  next
    fix u :: unit and a r b
    assume "case Inr u of Inr _ \<Rightarrow> a = ?mine | Inl _ \<Rightarrow> prefix a ?mine"
      and "prefix b (new_keys xs) \<and> (\<forall>aa ba. r = Inr (aa, ba) \<longrightarrow> b = new_keys xs \<and> aa = (if m = None then sent else sent + 1) + length b
        \<and> ba = confirmed + 1 + length xs)"
    then show "prefix (a @ b) (new_keys ((p, m) # xs))
      \<and> (\<forall>aa ba. r = Inr (aa, ba) \<longrightarrow> a @ b = new_keys ((p, m) # xs) \<and> aa = sent + length (a @ b) \<and> ba = confirmed + length ((p, m) # xs))"
      using keys by (auto simp: x)
  qed
qed

section \<open>A synchronization\<close>

lemma sync_cases:
  assumes "sync S i user w = (w', r)"
  obtains (tick) e where "r = Inl e" "w' = fst (tick S w)"
  | (prepare) s existing ps e where "r = Inl e"
      "prepare S user s (evidence_by_id (evidence_list i (sy_others S (sw_step w) (sw_db w)))) existing ps (fst (tick S w)) = (w', Inl e)"
  | (deliver) s ps xs w2 where "find_session i (sy_others S (sw_step w) (sw_db w)) = Some s" "ls_owner_user_id s = user" "ls_session_id s = i"
      "pending_messages S s (evidence_list i (sy_others S (sw_step w) (sw_db w))) (answer_list i (sy_others S (sw_step w) (sw_db w)))
        (existing_envelopes S (sw_conversation w)) = Inr ps"
      "prepare S user s (evidence_by_id (evidence_list i (sy_others S (sw_step w) (sw_db w)))) (existing_envelopes S (sw_conversation w)) ps
        (fst (tick S w)) = (w2, Inr xs)"
      "deliver S i xs 0 0 w2 = (w', r)"
proof -
  let ?d = "sy_others S (sw_step w) (sw_db w)" and ?w1 = "fst (tick S w)"
  let ?existing = "existing_envelopes S (sw_conversation w)"
  have conv: "sw_conversation ?w1 = sw_conversation w" by (simp add: tick_run)
  have load: "load_product_facts S i w = (case find_session i ?d of
      None \<Rightarrow> (?w1, Inl (KeyError ''Session does not exist'')) | Some s \<Rightarrow> (?w1, Inr (s, evidence_list i ?d, answer_list i ?d)))"
    by (auto simp: load_product_facts_def bnd_def tick_run split: option.splits)
  show thesis
  proof (cases "find_session i ?d")
    case None
    then show thesis using assms tick[of "KeyError ''Session does not exist''"] by (simp add: sync_def bnd_def load)
  next
    case (Some s)
    have sid: "ls_session_id s = i" using Some by (auto simp: find_session_def dest: find_SomeD)
    show thesis
    proof (cases "ls_owner_user_id s = user")
      case False
      then show thesis
        using assms tick[of "PermissionError ''Verified identity does not own this session''"] by (simp add: sync_def bnd_def load Some)
    next
      case True
      note run = assms[unfolded sync_def bnd_def load Some option.case prod.case sum.case, simplified True, simplified]
      show thesis
      proof (cases "pending_messages S s (evidence_list i ?d) (answer_list i ?d) ?existing")
        case (Inl e)
        then show thesis using run tick[of e] by (simp add: read_conversation_def conv checked_def Let_def)
      next
        case (Inr ps)
        obtain w2 v where p: "prepare S user s (evidence_by_id (evidence_list i ?d)) ?existing ps ?w1 = (w2, v)" by force
        show thesis
        proof (cases v)
          case (Inl e)
          then show thesis using run prepare[of e s ?existing ps] p Inr by (simp add: read_conversation_def conv checked_def Let_def)
        next
          case (Inr xs)
          then have "deliver S i xs 0 0 w2 = (w', r)"
            using run p \<open>pending_messages S s _ _ _ = Inr ps\<close> by (simp add: read_conversation_def conv checked_def Let_def sid)
          then show thesis using deliver Some True sid Inr p \<open>pending_messages S s _ _ _ = Inr ps\<close> by blast
        qed
      qed
    qed
  qed
qed

lemma tick_conversation [simp]: "sw_conversation (fst (tick S w)) = sw_conversation w"
  by (simp add: tick_run)

text \<open>What a synchronization does to the conversation, and that what is marked was sent.\<close>

lemma sync_step_ok:
  assumes "wire_ok S" and "others_ok S i" and "sync_inv i (sw_db w, sent_keys S (sw_conversation w))"
    and "distinct (sent_keys S (sw_conversation w))" and "sync S i user w = (w', r)"
  shows "sync_inv i (sw_db w', sent_keys S (sw_conversation w')) \<and> distinct (sent_keys S (sw_conversation w'))
    \<and> prefix (sent_keys S (sw_conversation w)) (sent_keys S (sw_conversation w'))"
  using assms(5)
proof (cases rule: sync_cases)
  case (tick e)
  then show ?thesis
    using syncing.safeD(1)[OF tick_safe[OF assms(2), of "\<lambda>_. True"] assms(3), of "fst (tick S w)" "snd (tick S w)"] assms(4) by simp
next
  case (prepare s existing ps e)
  have inv: "sync_inv i (sw_db (fst (tick S w)), sent_keys S (sw_conversation (fst (tick S w))))"
    using syncing.safeD(1)[OF tick_safe[OF assms(2), of "\<lambda>_. True"] assms(3), of "fst (tick S w)" "snd (tick S w)"] by simp
  have "sw_conversation w' = sw_conversation w"
    using prepare_conversation[of S user s "evidence_by_id (evidence_list i (sy_others S (sw_step w) (sw_db w)))" existing ps "fst (tick S w)"]
      prepare(2) by simp
  then show ?thesis using syncing.safeD(1)[OF prepare_safe[OF assms(2)] inv _ prepare(2)] assms(4) by simp
next
  case (deliver s ps xs w2)
  let ?K = "set (sent_keys S (sw_conversation w))" and ?d = "sy_others S (sw_step w) (sw_db w)"
  have inv1: "sync_inv i (sw_db (fst (tick S w)), sent_keys S (sw_conversation (fst (tick S w))))"
    using syncing.safeD(1)[OF tick_safe[OF assms(2), of "\<lambda>_. True"] assms(3), of "fst (tick S w)" "snd (tick S w)"] by simp
  have inv2: "sync_inv i (sw_db w2, sent_keys S (sw_conversation w2))"
    using syncing.safeD(1)[OF prepare_safe[OF assms(2)] inv1 _ deliver(5)] by simp
  have conv: "sw_conversation w2 = sw_conversation w"
    using prepare_conversation[of S user s "evidence_by_id (evidence_list i ?d)" "existing_envelopes S (sw_conversation w)" ps "fst (tick S w)"]
      deliver(5) by simp
  have ok: "list_all (prepared_ok S i ?K) xs" and sub: "subseq (map (pm_key \<circ> fst) xs) (map pm_key ps)"
    using prepare_result[OF assms(1) existing_iff pending_all_ok[OF deliver(4,3)] deliver(5)] by simp_all
  have "sync_inv i (sw_db w', sent_keys S (sw_conversation w'))"
    using syncing.safeD(1)[OF deliver_safe[OF assms(2) ok] inv2 _ deliver(6)] conv by simp
  moreover obtain ks where ks: "sent_keys S (sw_conversation w') = sent_keys S (sw_conversation w2) @ ks" "prefix ks (new_keys xs)"
    using sending.emitsD[OF deliver_emits[OF ok] deliver(6)] by blast
  have "product_keys ?d" using inv1 by (simp add: sync_inv_def tick_run)
  then have "distinct (map (pm_key \<circ> fst) xs)"
    using subseqs_distinctD[of "map (pm_key \<circ> fst) xs" "map pm_key ps"] sub pending_distinct[OF _ deliver(4)] by (simp add: set_subseqs_eq)
  then have "distinct (new_keys xs)" unfolding new_keys_def by (simp add: distinct_map_filter)
  then have "distinct ks" using ks(2) by (metis distinct_append prefix_def)
  moreover have "set (new_keys xs) \<inter> ?K = {}"
    using ok by (auto simp: new_keys_def list_all_iff prepared_ok_def split: option.splits)
  then have "set ks \<inter> ?K = {}" using set_mono_prefix[OF ks(2)] by blast
  ultimately show ?thesis using ks(1) conv assms(4) by auto
qed

section \<open>Properties\<close>

text \<open>The life of a conversation: synchronizations, events that carry no envelope, and what other requests do to the database.\<close>

inductive conversation_step :: "'t sync_env \<Rightarrow> str \<Rightarrow> 't sync_world \<Rightarrow> 't sync_world \<Rightarrow> bool" for S i where
  syncs: "sync S i user w = (w', r) \<Longrightarrow> conversation_step S i w w'"
| event: "envelope_of S e = None \<Longrightarrow> conversation_step S i w (w\<lparr>sw_conversation := sw_conversation w @ [e]\<rparr>)"
| other: "product_keys d \<Longrightarrow> marked_keys i d \<subseteq> marked_keys i (sw_db w) \<Longrightarrow> conversation_step S i w (w\<lparr>sw_db := d\<rparr>)"

definition delivered_once :: "'t sync_env \<Rightarrow> str \<Rightarrow> 't sync_world \<Rightarrow> bool" where
  "delivered_once S i w \<longleftrightarrow> product_keys (sw_db w) \<and> distinct (sent_keys S (sw_conversation w))
     \<and> marked_keys i (sw_db w) \<subseteq> set (sent_keys S (sw_conversation w))"

lemma conversation_step_ok:
  assumes "wire_ok S" and "others_ok S i" and "delivered_once S i w" and "conversation_step S i w w'"
  shows "delivered_once S i w'"
  using assms(4)
proof cases
  case (syncs user r)
  then show ?thesis using sync_step_ok[OF assms(1,2) _ _ syncs] assms(3) by (simp add: delivered_once_def sync_inv_def)
next
  case (event e)
  then show ?thesis using assms(3) by (simp add: delivered_once_def sent_keys_single)
next
  case (other d)
  then show ?thesis using assms(3) by (auto simp: delivered_once_def)
qed

interpretation conversation: invariant_system "\<lambda>w. wire_ok S \<and> others_ok S i \<and> delivered_once S i w" "conversation_step S i" for S i
  by unfold_locales (use conversation_step_ok in blast)

text \<open>
  C26. Over any synchronizations of a session, whichever sends and commits fail and whatever other requests do in between, a message
  enters the conversation at most once, and the goal, a piece of evidence or an answer is marked as synchronized only if
  its message (of this version) is in the conversation.
\<close>

theorem messages_delivered_once:
  assumes "wire_ok S" and "others_ok S i" and "delivered_once S i w" and "(conversation_step S i)\<^sup>*\<^sup>* w w'"
  shows "distinct (sent_keys S (sw_conversation w')) \<and> marked_keys i (sw_db w') \<subseteq> set (sent_keys S (sw_conversation w'))"
  using conversation.steps_inv[OF assms(4)] assms(1-3) by (simp add: delivered_once_def)






text \<open>
  The message of a piece of evidence holds its text only for text evidence, marked as untrusted, redacted and cut to the limit, and
  never the URL of the evidence.
\<close>

theorem evidence_message_bounded:
  assumes "runtime_evidence_payload S ev = Inr p"
  shows "jget ''sourceUrl'' p = Scalar JNull
    \<and> (if jget ''evidenceType'' p = jstr (lit ''text'')
       then jget ''contentTrust'' p = jstr (lit ''untrusted'') \<and> (\<exists>t u. jget ''textContent'' p = jstr t
         \<and> length t \<le> MAX_TEXT_EVIDENCE_CHARACTERS \<and> t = take MAX_TEXT_EVIDENCE_CHARACTERS (sy_redact S u))
       else jget ''textContent'' p = Scalar JNull)"
proof -
  obtain q where q: "safe_evidence_payload (sy_urls S) ev = Inr q"
    using assms by (cases "safe_evidence_payload (sy_urls S) ev") (simp_all add: runtime_evidence_payload_def)
  have p: "if jget ''evidenceType'' q = jstr (lit ''text'') then \<exists>u. p = dict_update q (text_context (sy_redact S) u) else p = q"
    using assms q by (auto simp: runtime_evidence_payload_def)
  have keys: "fst ` set q \<subseteq> {lit ''evidenceId'', lit ''evidenceType'', lit ''contentHash'', lit ''source''}"
    using q by (auto simp: safe_evidence_payload_def Let_def andthen_Inr_iff split: if_splits json.splits json_scalar.splits list.splits option.splits)
  have absent: "map_of q k = None" if "k \<notin> {lit ''evidenceId'', lit ''evidenceType'', lit ''contentHash'', lit ''source''}" for k
    using keys that by (auto simp: map_of_eq_None_iff)
  have dist: "distinct (map fst (text_context (sy_redact S) u))" for u by (simp add: text_context_def lit_def)
  have upd: "map_of (dict_update q (text_context (sy_redact S) u)) k
    = (case map_of (text_context (sy_redact S) u) k of None \<Rightarrow> map_of q k | Some v \<Rightarrow> Some v)" for u k
    by (rule dict_update_get[OF dist])
  show ?thesis
  proof (cases "jget ''evidenceType'' q = jstr (lit ''text'')")
    case True
    then obtain u where u: "p = dict_update q (text_context (sy_redact S) u)" using p by auto
    have "jget ''evidenceType'' p = jstr (lit ''text'')"
      using True by (simp add: u jget_def upd) (simp add: text_context_def lit_def)
    moreover have "map_of (text_context (sy_redact S) u) (lit ''sourceUrl'') = None" "map_of q (lit ''sourceUrl'') = None"
      by (simp_all add: absent) (simp_all add: text_context_def lit_def)
    then have "jget ''sourceUrl'' p = Scalar JNull" by (simp add: u jget_def upd)
    moreover have "jget ''contentTrust'' p = jstr (lit ''untrusted'')" "jget ''textContent'' p = jstr (take MAX_TEXT_EVIDENCE_CHARACTERS (sy_redact S u))"
      by (simp_all add: u jget_def upd) (simp_all add: text_context_def lit_def)
    ultimately show ?thesis by auto
  next
    case False
    then have "p = q" using p by simp
    then show ?thesis using False absent[of "lit ''sourceUrl''"] absent[of "lit ''textContent''"] by (simp add: jget_def lit_def)
  qed
qed

section \<open>Witnesses\<close>

definition sample_sync_env :: "envelope sync_env" where
  "sample_sync_env = \<lparr>sy_urls = sample_url_env, sy_redact = id, sy_dump = id, sy_parse = Some, sy_media_facts = None,
     sy_others = (\<lambda>_ d. d), sy_send = (\<lambda>_. Sends), sy_commit = (\<lambda>_. Commits), sy_now = (\<lambda>_. 5)\<rparr>"

definition sample_sync_world :: "envelope sync_world" where
  "sample_sync_world = \<lparr>sw_db = audit_db, sw_conversation = [], sw_step = 0\<rparr>"

lemma sample_sync_ok: "wire_ok sample_sync_env" "others_ok sample_sync_env i"
  by (simp_all add: wire_ok_def others_ok_def sample_sync_env_def)

lemma sample_sync_db: "product_keys audit_db" "evidence_list i audit_db = []" "answer_list i audit_db = []"
  "marked_keys i audit_db = {}" "find_session (lit ''s1'') audit_db = Some sample_session"
  by (auto simp: product_keys_def unique_key_def evidence_list_def answer_list_def marked_keys_def goal_marks_def
      evidence_marks_def answer_marks_def find_session_def audit_db_def empty_db_def sample_session_def)

lemma sample_sync_run:
  "\<exists>w'. sync sample_sync_env (lit ''s1'') (ls_owner_user_id sample_session) sample_sync_world = (w', Inr (1, 1))"
proof -
  let ?s = sample_session
  have pend: "pending_messages sample_sync_env ?s [] [] existing = Inr [goal_message ?s]" for existing
    by (simp add: pending_messages_def)
  have ex: "existing_envelopes sample_sync_env [] = (\<lambda>_. None)"
    by (simp add: existing_envelopes_def sent_envelopes_def List.map_filter_def)
  have id: "evidence_by_id [] = (\<lambda>_. None)" by (simp add: evidence_by_id_def)
  have build: "build_runtime_evidence_message sample_sync_env n d u i k kd p None = Inr (\<lparr>en_message_key = k, en_kind = kd, en_session_id = i, en_payload = p\<rparr>)"
    for n d u i k kd p by (simp add: build_runtime_evidence_message_def is_media_evidence_record_def sample_sync_env_def)
  show ?thesis
    by (simp add: sync_def load_product_facts_def bnd_def tick_run sample_sync_world_def sample_sync_db read_conversation_def checked_def
        ex pend id build option_do_def send_message_def mark_confirmed_def mark_def goal_message_def Let_def)
      (simp add: sample_sync_env_def sample_sync_db read_conversation_def checked_def
        ex[unfolded sample_sync_env_def] pend[unfolded sample_sync_env_def] id build[unfolded sample_sync_env_def]
        option_do_def send_message_def mark_confirmed_def mark_def goal_message_def Let_def bnd_def tick_run)
qed

lemma sample_sync_moves:
  assumes "sync sample_sync_env (lit ''s1'') (ls_owner_user_id sample_session) sample_sync_world = (w', Inr (1, 1))"
  shows "w' \<noteq> sample_sync_world"
  using assms
proof (cases rule: sync_cases)
  case (deliver s ps xs w2)
  have ok: "list_all (prepared_ok sample_sync_env (lit ''s1'') (set (sent_keys sample_sync_env (sw_conversation sample_sync_world)))) xs"
    using prepare_result[OF sample_sync_ok(1) existing_iff pending_all_ok[OF deliver(4,3)] deliver(5)] by simp
  have "sw_conversation w2 = sw_conversation sample_sync_world"
    using prepare_conversation[of sample_sync_env "ls_owner_user_id sample_session" s] deliver(5) by (metis fst_conv tick_conversation)
  then show ?thesis using sending.emitsD[OF deliver_emits[OF ok] deliver(6)] by (auto simp: sample_sync_world_def)
qed simp_all

lemma messages_delivered_once_witness:
  "\<exists>w'. (conversation_step sample_sync_env (lit ''s1''))\<^sup>*\<^sup>* sample_sync_world w' \<and> w' \<noteq> sample_sync_world
    \<and> marked_keys (lit ''s1'') (sw_db w') \<subseteq> set (sent_keys sample_sync_env (sw_conversation w'))"
proof -
  obtain w' where run: "sync sample_sync_env (lit ''s1'') (ls_owner_user_id sample_session) sample_sync_world = (w', Inr (1, 1))"
    using sample_sync_run by blast
  then have steps: "(conversation_step sample_sync_env (lit ''s1''))\<^sup>*\<^sup>* sample_sync_world w'" by (blast intro: conversation_step.syncs)
  have "delivered_once sample_sync_env (lit ''s1'') sample_sync_world"
    by (simp add: delivered_once_def sample_sync_world_def sample_sync_db sent_keys_def sent_envelopes_def List.map_filter_def)
  from messages_delivered_once[OF sample_sync_ok this steps]
  have "marked_keys (lit ''s1'') (sw_db w') \<subseteq> set (sent_keys sample_sync_env (sw_conversation w'))" by blast
  moreover have "w' \<noteq> sample_sync_world" using sample_sync_moves[OF run] by blast
  ultimately show ?thesis using steps by blast
qed


lemma evidence_message_bounded_witness:
  "\<exists>p. runtime_evidence_payload sample_sync_env [(lit ''evidenceType'', jstr (lit ''text'')), (lit ''textContent'', jstr (lit ''a''))] = Inr p
    \<and> jget ''contentTrust'' p = jstr (lit ''untrusted'')"
proof -
  let ?ev = "[(lit ''evidenceType'', jstr (lit ''text'')), (lit ''textContent'', jstr (lit ''a''))]"
  have safe: "safe_evidence_payload E ?ev
      = Inr [(lit ''evidenceId'', Scalar JNull), (lit ''evidenceType'', jstr (lit ''text'')), (lit ''contentHash'', Scalar JNull)]" for E
    by (simp add: safe_evidence_payload_def jget2_def jget_def Let_def jstr_def lit_def)
  have kind: "jget ''evidenceType'' [(lit ''evidenceId'', Scalar JNull), (lit ''evidenceType'', jstr (lit ''text'')), (lit ''contentHash'', Scalar JNull)]
      = jstr (lit ''text'')" by (simp add: jget_def lit_def)
  obtain p where p: "runtime_evidence_payload sample_sync_env ?ev = Inr p"
    using safe kind by (simp add: runtime_evidence_payload_def)
  have "jget ''evidenceType'' p = jstr (lit ''text'')"
  proof -
    have d: "distinct (map fst (text_context f u))" for f u by (simp add: text_context_def lit_def)
    obtain f u where "p = dict_update [(lit ''evidenceId'', Scalar JNull), (lit ''evidenceType'', jstr (lit ''text'')), (lit ''contentHash'', Scalar JNull)] (text_context f u)"
      using p safe kind by (auto simp: runtime_evidence_payload_def)
    then show ?thesis by (simp add: jget_def dict_update_get[OF d]) (simp add: text_context_def lit_def)
  qed
  then show ?thesis using evidence_message_bounded[OF p] p by auto
qed

end
