(* ===== verification/Recovery.thy ===== *)
theory Recovery
  imports Interfaces
begin

text \<open>
  The coordination of writers and maintenance: \<^verbatim>\<open>recovery.py\<close>. The state is the two marker files and the two file locks of the
  coordination directory, and where every process stands in \<open>writer_barrier\<close> or \<open>maintenance_window\<close>; a step is one
  file operation or one acquisition or release of a lock, and a process may crash at any time, which frees its locks and
  leaves its markers. The content of the markers and the creation of the directory are not modelled.
\<close>

section \<open>Markers\<close>

datatype marker = No_Marker | Regular_File | Symbolic_Link | Other_File

datatype recovery_error = Coordination_Error string | Writer_Blocked string

definition is_regular_marker :: "marker \<Rightarrow> recovery_error + bool" where
  "is_regular_marker m = (if m = Symbolic_Link then Inl (Coordination_Error ''recovery marker is a symlink'')
     else Inr (m = Regular_File))"

text \<open>\<open>os.open\<close> with \<open>O_EXCL\<close> fails whatever is there.\<close>

definition create_marker :: "bool \<Rightarrow> marker \<Rightarrow> recovery_error + marker" where
  "create_marker allow_existing m =
     (if m = No_Marker then Inr Regular_File
      else if allow_existing
      then andthen (is_regular_marker m) (\<lambda>regular.
        if regular then Inr m else Inl (Coordination_Error ''maintenance lock is already held''))
      else Inl (Coordination_Error ''maintenance lock is already held''))"

text \<open>\<open>unlink\<close> of anything but a file raises an operating-system error.\<close>

definition remove_marker :: "marker \<Rightarrow> recovery_error + marker" where
  "remove_marker m = (case m of
     Symbolic_Link \<Rightarrow> Inl (Coordination_Error ''recovery marker is a symlink'')
   | Other_File \<Rightarrow> Inl (Coordination_Error ''unlink'')
   | _ \<Rightarrow> Inr No_Marker)"

definition writer_block_code :: "marker \<Rightarrow> marker \<Rightarrow> recovery_error + string option" where
  "writer_block_code maintenance incomplete =
     andthen (is_regular_marker incomplete) (\<lambda>i.
     if i then Inr (Some ''recovery_incomplete'') else
     andthen (is_regular_marker maintenance) (\<lambda>m.
     if m then Inr (Some ''maintenance_mode'') else Inr None))"

definition raise_if_writes_blocked :: "marker \<Rightarrow> marker \<Rightarrow> recovery_error + unit" where
  "raise_if_writes_blocked maintenance incomplete =
     andthen (writer_block_code maintenance incomplete) (\<lambda>code.
     case code of None \<Rightarrow> Inr () | Some c \<Rightarrow> Inl (Writer_Blocked c))"

lemma not_blocked: "raise_if_writes_blocked m i = Inr () \<longleftrightarrow> i \<in> {No_Marker, Other_File} \<and> m \<in> {No_Marker, Other_File}"
  by (cases i; cases m) (simp_all add: raise_if_writes_blocked_def writer_block_code_def is_regular_marker_def)

section \<open>Processes\<close>

text \<open>
  Where a process stands. A writer holds the admission lock from \<open>W_Admitted\<close> to \<open>W_Drained\<close> and the barrier from \<open>W_Drained\<close> on.
  A window carries whether its recovery has started and whether it was verified, and in its \<open>finally\<close> whether it holds the barrier.
\<close>

datatype pc =
    Idle
  | W_Admitted | W_Passed | W_Drained | W_Recheck | W_Writing
  | M_Admitted | M_Marked | M_Draining
  | M_Window bool bool
  | M_Closing bool bool bool
  | M_Removing bool bool bool
  | M_Removed bool bool bool
  | M_Unlock bool
  | M_Release bool

record coordination =
  co_maintenance :: marker
  co_incomplete :: marker
  co_admission :: "nat option"
  co_barrier :: "nat option"
  co_pc :: "nat \<Rightarrow> pc"

abbreviation goto :: "nat \<Rightarrow> pc \<Rightarrow> coordination \<Rightarrow> coordination" where
  "goto p k s \<equiv> s\<lparr>co_pc := (co_pc s)(p := k)\<rparr>"

definition free_if :: "nat \<Rightarrow> nat option \<Rightarrow> nat option" where
  "free_if p holder = (if holder = Some p then None else holder)"

definition writes_allowed :: "coordination \<Rightarrow> bool" where
  "writes_allowed s \<longleftrightarrow> raise_if_writes_blocked (co_maintenance s) (co_incomplete s) = Inr ()"

text \<open>\<open>writer_barrier\<close>. A failed check, or a lock that is not granted in time, frees what is held.\<close>

inductive writer_step :: "nat \<Rightarrow> coordination \<Rightarrow> coordination \<Rightarrow> bool" for p where
  w_admit: "co_pc s p = Idle \<Longrightarrow> co_admission s = None \<Longrightarrow> writer_step p s (goto p W_Admitted (s\<lparr>co_admission := Some p\<rparr>))"
| w_pass: "co_pc s p = W_Admitted \<Longrightarrow> writes_allowed s \<Longrightarrow> writer_step p s (goto p W_Passed s)"
| w_refused: "co_pc s p = W_Admitted \<Longrightarrow> \<not> writes_allowed s \<Longrightarrow> writer_step p s (goto p Idle (s\<lparr>co_admission := None\<rparr>))"
| w_drain: "co_pc s p = W_Passed \<Longrightarrow> co_barrier s = None \<Longrightarrow> writer_step p s (goto p W_Drained (s\<lparr>co_barrier := Some p\<rparr>))"
| w_timeout: "co_pc s p = W_Passed \<Longrightarrow> writer_step p s (goto p Idle (s\<lparr>co_admission := None\<rparr>))"
| w_leave: "co_pc s p = W_Drained \<Longrightarrow> writer_step p s (goto p W_Recheck (s\<lparr>co_admission := None\<rparr>))"
| w_enter: "co_pc s p = W_Recheck \<Longrightarrow> writes_allowed s \<Longrightarrow> writer_step p s (goto p W_Writing s)"
| w_blocked: "co_pc s p = W_Recheck \<Longrightarrow> \<not> writes_allowed s \<Longrightarrow> writer_step p s (goto p Idle (s\<lparr>co_barrier := None\<rparr>))"
| w_done: "co_pc s p = W_Writing \<Longrightarrow> writer_step p s (goto p Idle (s\<lparr>co_barrier := None\<rparr>))"

text \<open>\<open>maintenance_window\<close> with the two operations of the window.\<close>

inductive window_step :: "nat \<Rightarrow> coordination \<Rightarrow> coordination \<Rightarrow> bool" for p where
  m_admit: "co_pc s p = Idle \<Longrightarrow> co_admission s = None \<Longrightarrow> window_step p s (goto p M_Admitted (s\<lparr>co_admission := Some p\<rparr>))"
| m_mark: "co_pc s p = M_Admitted \<Longrightarrow> create_marker False (co_maintenance s) = Inr m \<Longrightarrow>
    window_step p s (goto p M_Marked (s\<lparr>co_maintenance := m\<rparr>))"
| m_held: "co_pc s p = M_Admitted \<Longrightarrow> create_marker False (co_maintenance s) = Inl e \<Longrightarrow>
    window_step p s (goto p Idle (s\<lparr>co_admission := None\<rparr>))"
| m_leave: "co_pc s p = M_Marked \<Longrightarrow> window_step p s (goto p M_Draining (s\<lparr>co_admission := None\<rparr>))"
| m_drain: "co_pc s p = M_Draining \<Longrightarrow> co_barrier s = None \<Longrightarrow> window_step p s (goto p (M_Window False False) (s\<lparr>co_barrier := Some p\<rparr>))"
| m_timeout: "co_pc s p = M_Draining \<Longrightarrow> window_step p s (goto p (M_Closing False False False) s)"
| m_begin: "co_pc s p = M_Window started verified \<Longrightarrow> create_marker True (co_incomplete s) = Inr m \<Longrightarrow>
    window_step p s (goto p (M_Window True verified) (s\<lparr>co_incomplete := m\<rparr>))"
| m_complete: "co_pc s p = M_Window True verified \<Longrightarrow> window_step p s (goto p (M_Window True True) s)"
| m_end: "co_pc s p = M_Window started verified \<Longrightarrow> window_step p s (goto p (M_Closing started verified True) s)"
| m_close: "co_pc s p = M_Closing started verified barrier \<Longrightarrow> co_admission s = None \<Longrightarrow>
    window_step p s (goto p (M_Removing started verified barrier) (s\<lparr>co_admission := Some p\<rparr>))"
| m_stuck: "co_pc s p = M_Closing started verified barrier \<Longrightarrow> window_step p s (goto p (M_Release barrier) s)"
| m_remove: "co_pc s p = M_Removing started verified barrier \<Longrightarrow> remove_marker (co_maintenance s) = Inr m \<Longrightarrow>
    window_step p s (goto p (M_Removed started verified barrier) (s\<lparr>co_maintenance := m\<rparr>))"
| m_no_remove: "co_pc s p = M_Removing started verified barrier \<Longrightarrow> remove_marker (co_maintenance s) = Inl e \<Longrightarrow>
    window_step p s (goto p (M_Unlock barrier) s)"
| m_recovered: "co_pc s p = M_Removed started verified barrier \<Longrightarrow> started \<and> verified \<Longrightarrow> remove_marker (co_incomplete s) = Inr m \<Longrightarrow>
    window_step p s (goto p (M_Unlock barrier) (s\<lparr>co_incomplete := m\<rparr>))"
| m_kept: "co_pc s p = M_Removed started verified barrier \<Longrightarrow> \<not> (started \<and> verified) \<or> remove_marker (co_incomplete s) = Inl e \<Longrightarrow>
    window_step p s (goto p (M_Unlock barrier) s)"
| m_unlock: "co_pc s p = M_Unlock barrier \<Longrightarrow> window_step p s (goto p (M_Release barrier) (s\<lparr>co_admission := None\<rparr>))"
| m_release: "co_pc s p = M_Release barrier \<Longrightarrow>
    window_step p s (goto p Idle (s\<lparr>co_barrier := if barrier then None else co_barrier s\<rparr>))"

inductive recovery_step :: "coordination \<Rightarrow> coordination \<Rightarrow> bool" where
  writer: "writer_step p s s' \<Longrightarrow> recovery_step s s'"
| window: "window_step p s s' \<Longrightarrow> recovery_step s s'"
| crash: "recovery_step s (goto p Idle (s\<lparr>co_admission := free_if p (co_admission s), co_barrier := free_if p (co_barrier s)\<rparr>))"

section \<open>The invariant\<close>

fun holds_admission :: "pc \<Rightarrow> bool" where
  "holds_admission W_Admitted = True"
| "holds_admission W_Passed = True"
| "holds_admission W_Drained = True"
| "holds_admission M_Admitted = True"
| "holds_admission M_Marked = True"
| "holds_admission (M_Removing _ _ _) = True"
| "holds_admission (M_Removed _ _ _) = True"
| "holds_admission (M_Unlock _) = True"
| "holds_admission _ = False"

fun holds_barrier :: "pc \<Rightarrow> bool" where
  "holds_barrier W_Drained = True"
| "holds_barrier W_Recheck = True"
| "holds_barrier W_Writing = True"
| "holds_barrier (M_Window _ _) = True"
| "holds_barrier (M_Closing _ _ b) = b"
| "holds_barrier (M_Removing _ _ b) = b"
| "holds_barrier (M_Removed _ _ b) = b"
| "holds_barrier (M_Unlock b) = b"
| "holds_barrier (M_Release b) = b"
| "holds_barrier _ = False"

text \<open>The processes whose maintenance marker is in place.\<close>

fun owns_marker :: "pc \<Rightarrow> bool" where
  "owns_marker M_Marked = True"
| "owns_marker M_Draining = True"
| "owns_marker (M_Window _ _) = True"
| "owns_marker (M_Closing _ _ _) = True"
| "owns_marker (M_Removing _ _ _) = True"
| "owns_marker _ = False"

definition locks_ok :: "coordination \<Rightarrow> bool" where
  "locks_ok s \<longleftrightarrow> (\<forall>p. co_admission s = Some p \<longleftrightarrow> holds_admission (co_pc s p))
     \<and> (\<forall>p. co_barrier s = Some p \<longleftrightarrow> holds_barrier (co_pc s p))"

definition markers_ok :: "coordination \<Rightarrow> bool" where
  "markers_ok s \<longleftrightarrow> (\<forall>p. owns_marker (co_pc s p) \<longrightarrow> co_maintenance s = Regular_File)
     \<and> (\<forall>p q. owns_marker (co_pc s p) \<longrightarrow> owns_marker (co_pc s q) \<longrightarrow> p = q)"

definition writers_ok :: "coordination \<Rightarrow> bool" where
  "writers_ok s \<longleftrightarrow> (\<forall>p. co_pc s p = W_Writing \<longrightarrow> co_incomplete s \<noteq> Regular_File)
     \<and> (\<forall>p verified. co_pc s p = M_Window False verified \<longrightarrow> \<not> verified)
     \<and> (\<forall>p started. co_pc s p = M_Window started True \<longrightarrow> started)"

definition coordination_ok :: "coordination \<Rightarrow> bool" where
  "coordination_ok s \<longleftrightarrow> locks_ok s \<and> markers_ok s \<and> writers_ok s"

lemma locks_exclusive:
  assumes "locks_ok s"
  shows "holds_admission (co_pc s p) \<Longrightarrow> holds_admission (co_pc s q) \<Longrightarrow> p = q"
    and "holds_barrier (co_pc s p) \<Longrightarrow> holds_barrier (co_pc s q) \<Longrightarrow> p = q"
  using assms unfolding locks_ok_def by (metis option.inject)+

lemma created: "create_marker False m = Inr m' \<longleftrightarrow> m = No_Marker \<and> m' = Regular_File"
  by (auto simp: create_marker_def)

lemma created_again: "create_marker True m = Inr m' \<longleftrightarrow> m \<in> {No_Marker, Regular_File} \<and> m' = Regular_File"
  by (cases m) (auto simp: create_marker_def is_regular_marker_def)

lemma removed: "remove_marker m = Inr m' \<longleftrightarrow> m \<in> {No_Marker, Regular_File} \<and> m' = No_Marker"
  by (cases m) (auto simp: remove_marker_def)

text \<open>A step that moves one process: what becomes of a lock.\<close>

definition passed_on :: "(pc \<Rightarrow> bool) \<Rightarrow> nat \<Rightarrow> pc \<Rightarrow> pc \<Rightarrow> nat option \<Rightarrow> nat option \<Rightarrow> bool" where
  "passed_on h p old new holder holder' \<longleftrightarrow>
     (if h new then (h old \<or> holder = None) \<and> holder' = Some p else holder' = (if h old then None else holder))"

lemma lock_moved:
  assumes "\<forall>q. holder = Some q \<longleftrightarrow> h (k q)" and "passed_on h p (k p) new holder holder'"
  shows "\<forall>q. holder' = Some q \<longleftrightarrow> h ((k(p := new)) q)"
proof
  fix q
  show "holder' = Some q \<longleftrightarrow> h ((k(p := new)) q)"
    using assms(1)[rule_format, of p] assms(1)[rule_format, of q] assms(2) by (auto simp: passed_on_def split: if_splits)
qed

lemma locks_moved:
  assumes "locks_ok s" and "co_pc s' = (co_pc s)(p := new)"
    and "passed_on holds_admission p (co_pc s p) new (co_admission s) (co_admission s')"
    and "passed_on holds_barrier p (co_pc s p) new (co_barrier s) (co_barrier s')"
  shows "locks_ok s'"
  using lock_moved[where h = holds_admission and k = "co_pc s", OF _ assms(3)]
    lock_moved[where h = holds_barrier and k = "co_pc s", OF _ assms(4)] assms(1)
  unfolding locks_ok_def assms(2) by blast

lemma locks_held:
  "locks_ok s \<Longrightarrow> co_admission s = Some p \<longleftrightarrow> holds_admission (co_pc s p)"
  "locks_ok s \<Longrightarrow> co_barrier s = Some p \<longleftrightarrow> holds_barrier (co_pc s p)"
  by (simp_all add: locks_ok_def)

lemma writer_locks: "writer_step p s s' \<Longrightarrow> locks_ok s \<Longrightarrow> locks_ok s'"
  by (erule writer_step.cases; rule locks_moved[where p = p], assumption, simp, simp_all add: passed_on_def locks_held)

lemma window_locks: "window_step p s s' \<Longrightarrow> locks_ok s \<Longrightarrow> locks_ok s'"
  by (erule window_step.cases; rule locks_moved[where p = p], assumption, simp, simp_all add: passed_on_def locks_held)

lemma markers_moved:
  assumes "markers_ok s" and "\<And>q. q \<noteq> p \<Longrightarrow> co_pc s' q = co_pc s q" and "owns_marker (co_pc s' p) \<Longrightarrow> owns_marker (co_pc s p)"
    and "co_maintenance s' = co_maintenance s"
  shows "markers_ok s'"
proof -
  have own: "owns_marker (co_pc s q)" if "owns_marker (co_pc s' q)" for q
  proof (cases "q = p")
    case True
    then show ?thesis using that assms(3) by simp
  next
    case False
    then show ?thesis using that assms(2)[OF False] by simp
  qed
  have old: "\<And>q. owns_marker (co_pc s q) \<Longrightarrow> co_maintenance s = Regular_File"
    "\<And>q r. owns_marker (co_pc s q) \<Longrightarrow> owns_marker (co_pc s r) \<Longrightarrow> q = r"
    using assms(1) unfolding markers_ok_def by blast+
  show ?thesis
    unfolding markers_ok_def assms(4)
  proof (intro conjI allI impI)
    show "co_maintenance s = Regular_File" if "owns_marker (co_pc s' q)" for q by (rule old(1)[OF own[OF that]])
    show "q = r" if "owns_marker (co_pc s' q)" "owns_marker (co_pc s' r)" for q r
      by (rule old(2)[OF own[OF that(1)] own[OF that(2)]])
  qed
qed

lemma writer_markers:
  assumes "writer_step p s s'" and "markers_ok s"
  shows "markers_ok s'"
  using assms(1) by (intro markers_moved[OF assms(2), of p s']) (erule writer_step.cases; simp)+

lemma window_markers:
  assumes "window_step p s s'" and "markers_ok s"
  shows "markers_ok s'"
  using assms(1)
proof cases
  case (m_mark m)
  then have "\<not> owns_marker (co_pc s q)" for q using assms(2) by (auto simp: markers_ok_def created)
  then show ?thesis using m_mark by (simp add: markers_ok_def created)
next
  case (m_remove started verified barrier m)
  then have "\<not> owns_marker (co_pc s q)" if "q \<noteq> p" for q using assms(2) that by (force simp: markers_ok_def)
  then show ?thesis using m_remove by (simp add: markers_ok_def)
qed (rule markers_moved[OF assms(2), where p = p]; simp)+

lemma writer_writers: "writer_step p s s' \<Longrightarrow> writers_ok s \<Longrightarrow> writers_ok s'"
  by (erule writer_step.cases) (auto simp: writers_ok_def writes_allowed_def not_blocked)

lemma window_writers:
  assumes "window_step p s s'" and "writers_ok s" and "locks_ok s"
  shows "writers_ok s'"
  using assms(1)
proof cases
  case (m_begin started verified m)
  then have "co_pc s q \<noteq> W_Writing" for q using locks_exclusive(2)[OF assms(3), of p q] by auto
  then show ?thesis using m_begin assms(2) by (auto simp: writers_ok_def)
qed (use assms(2) in \<open>auto simp: writers_ok_def removed\<close>)

lemma crash_ok:
  assumes "coordination_ok s"
  shows "coordination_ok (goto p Idle (s\<lparr>co_admission := free_if p (co_admission s), co_barrier := free_if p (co_barrier s)\<rparr>))"
proof -
  have "locks_ok s" using assms by (simp add: coordination_ok_def)
  then have "locks_ok (goto p Idle (s\<lparr>co_admission := free_if p (co_admission s), co_barrier := free_if p (co_barrier s)\<rparr>))"
    by (rule locks_moved[where p = p]) (simp, simp_all add: passed_on_def free_if_def locks_held \<open>locks_ok s\<close>)
  then show ?thesis using assms by (auto simp: coordination_ok_def markers_ok_def writers_ok_def)
qed

lemma recovery_step_ok: "coordination_ok s \<Longrightarrow> recovery_step s s' \<Longrightarrow> coordination_ok s'"
  by (erule recovery_step.cases)
    (use crash_ok in \<open>simp_all add: coordination_ok_def writer_locks writer_markers writer_writers window_locks window_markers window_writers\<close>)

interpretation coordinated: invariant_system coordination_ok recovery_step
  by unfold_locales (rule recovery_step_ok)

section \<open>Properties\<close>

text \<open>What a data directory with no process may look like: any markers, no lock held.\<close>

definition at_rest :: "coordination \<Rightarrow> bool" where
  "at_rest s \<longleftrightarrow> co_admission s = None \<and> co_barrier s = None \<and> (\<forall>p. co_pc s p = Idle)"

lemma at_rest_ok: "at_rest s \<Longrightarrow> coordination_ok s"
  by (simp add: at_rest_def coordination_ok_def locks_ok_def markers_ok_def writers_ok_def)

text \<open>
  C33. Whatever the processes do and wherever they crash, a writer never writes while another one does, while a maintenance window is
  open, or while a recovery is incomplete; and no two windows are open at the same time, each with its marker in place.
\<close>

theorem writers_and_windows_excluded:
  assumes "at_rest s0" and "recovery_step\<^sup>*\<^sup>* s0 s"
  shows "(\<forall>p q. co_pc s p = W_Writing \<longrightarrow> co_incomplete s \<noteq> Regular_File
      \<and> (co_pc s q = W_Writing \<longrightarrow> q = p) \<and> (\<forall>started verified. co_pc s q \<noteq> M_Window started verified))
    \<and> (\<forall>p q a b c d. co_pc s p = M_Window a b \<longrightarrow> co_maintenance s = Regular_File \<and> (co_pc s q = M_Window c d \<longrightarrow> q = p))"
proof -
  have ok: "coordination_ok s" by (rule coordinated.steps_inv[OF assms(2) at_rest_ok[OF assms(1)]])
  then have locks: "locks_ok s" by (simp add: coordination_ok_def)
  show ?thesis
  proof (intro conjI allI impI)
    fix p q a b c d
    show "co_incomplete s \<noteq> Regular_File" if "co_pc s p = W_Writing"
      using ok that by (auto simp: coordination_ok_def writers_ok_def)
    show "q = p" if "co_pc s p = W_Writing" "co_pc s q = W_Writing"
      using locks_exclusive(2)[OF locks, of q p] that by simp
    show "co_pc s q \<noteq> M_Window a b" if "co_pc s p = W_Writing"
      using locks_exclusive(2)[OF locks, of q p] that by auto
    show "co_maintenance s = Regular_File" if "co_pc s p = M_Window a b"
      using ok that unfolding coordination_ok_def markers_ok_def by (metis owns_marker.simps(3))
    show "q = p" if "co_pc s p = M_Window a b" "co_pc s q = M_Window c d"
      using locks_exclusive(2)[OF locks, of q p] that by simp
  qed
qed

text \<open>The steps that end a verified recovery: the last file operation of its window.\<close>

definition completes_recovery :: "coordination \<Rightarrow> coordination \<Rightarrow> bool" where
  "completes_recovery s s' \<longleftrightarrow> (\<exists>p barrier. co_pc s p = M_Removed True True barrier \<and> co_pc s' p = M_Unlock barrier)"

text \<open>
  C34. An incomplete recovery outlives every crash: its marker stays, and no writer starts to write, until the window of a recovery that was
  begun and verified removes it.
\<close>

theorem incomplete_until_verified:
  assumes "(\<lambda>s s'. recovery_step s s' \<and> \<not> completes_recovery s s')\<^sup>*\<^sup>* s s'"
    and "at_rest s0" and "recovery_step\<^sup>*\<^sup>* s0 s" and "co_incomplete s = Regular_File"
  shows "co_incomplete s' = Regular_File \<and> (\<forall>p. co_pc s' p \<noteq> W_Writing) \<and> \<not> writes_allowed s'"
proof -
  have keep: "co_incomplete b = Regular_File" if "recovery_step a b" "\<not> completes_recovery a b" "co_incomplete a = Regular_File" for a b
    using that(1)
  proof cases
    case (writer p)
    then show ?thesis using that(3) by cases simp_all
  next
    case (window p)
    then show ?thesis
    proof cases
      case (m_recovered started verified barrier m)
      then have "completes_recovery a b" unfolding completes_recovery_def by (intro exI[of _ p] exI[of _ barrier]) simp
      then show ?thesis using that(2) by blast
    qed (use that(3) in \<open>simp_all add: created_again\<close>)
  qed (use that(3) in simp)
  have run: "co_incomplete s' = Regular_File \<and> recovery_step\<^sup>*\<^sup>* s s'"
    using assms(1) assms(4) by (induction rule: rtranclp_induct) (auto intro: keep rtranclp.rtrancl_into_rtrancl)
  then have "recovery_step\<^sup>*\<^sup>* s0 s'" using assms(3) by auto
  then have "coordination_ok s'" by (rule coordinated.steps_inv[OF _ at_rest_ok[OF assms(2)]])
  then show ?thesis using run by (auto simp: coordination_ok_def writers_ok_def writes_allowed_def not_blocked)
qed

text \<open>A window that cannot take the admission lock again leaves its marker behind, and then no writer and no other window starts.\<close>

lemma stuck_marker:
  assumes "co_maintenance s = Regular_File" and "co_pc s p = M_Closing a b c"
  shows "\<exists>s'. window_step p s s' \<and> co_maintenance s' = Regular_File \<and> \<not> writes_allowed s' \<and> (\<forall>m. create_marker False (co_maintenance s') \<noteq> Inr m)"
  using window_step.m_stuck[OF assms(2)] assms(1)
  by (intro exI[of _ "goto p (M_Release c) s"]) (auto simp: writes_allowed_def not_blocked created)

section \<open>Witnesses\<close>

definition quiet_coordination :: coordination where
  "quiet_coordination = \<lparr>co_maintenance = No_Marker, co_incomplete = No_Marker, co_admission = None, co_barrier = None, co_pc = (\<lambda>_. Idle)\<rparr>"

definition writing_coordination :: coordination where
  "writing_coordination = quiet_coordination\<lparr>co_barrier := Some 0, co_pc := (\<lambda>_. Idle)(0 := W_Writing)\<rparr>"

lemma quiet_writes: "recovery_step\<^sup>*\<^sup>* quiet_coordination writing_coordination"
proof -
  let ?s0 = quiet_coordination
  let ?s1 = "goto 0 W_Admitted (?s0\<lparr>co_admission := Some 0\<rparr>)"
  let ?s2 = "goto 0 W_Passed ?s1"
  let ?s3 = "goto 0 W_Drained (?s2\<lparr>co_barrier := Some 0\<rparr>)"
  let ?s4 = "goto 0 W_Recheck (?s3\<lparr>co_admission := None\<rparr>)"
  have "recovery_step ?s0 ?s1" by (rule writer[OF w_admit]) (simp_all add: quiet_coordination_def)
  moreover have "recovery_step ?s1 ?s2" by (rule writer[OF w_pass]) (simp_all add: quiet_coordination_def writes_allowed_def not_blocked)
  moreover have "recovery_step ?s2 ?s3" by (rule writer[OF w_drain]) (simp_all add: quiet_coordination_def)
  moreover have "recovery_step ?s3 ?s4" by (rule writer[OF w_leave]) simp
  moreover have "recovery_step ?s4 (goto 0 W_Writing ?s4)"
    by (rule writer[OF w_enter]) (simp_all add: quiet_coordination_def writes_allowed_def not_blocked)
  moreover have "goto 0 W_Writing ?s4 = writing_coordination"
    by (simp add: writing_coordination_def quiet_coordination_def fun_eq_iff)
  ultimately show ?thesis by (metis (no_types, lifting) converse_rtranclp_into_rtranclp rtranclp.rtrancl_refl)
qed

lemma writers_and_windows_excluded_witness:
  "co_pc writing_coordination 0 = W_Writing \<and> co_pc writing_coordination 1 \<noteq> M_Window True False"
proof -
  have "at_rest quiet_coordination" by (simp add: at_rest_def quiet_coordination_def)
  from writers_and_windows_excluded[OF this quiet_writes]
  have "\<forall>p q. co_pc writing_coordination p = W_Writing \<longrightarrow> (\<forall>a b. co_pc writing_coordination q \<noteq> M_Window a b)" by blast
  then show ?thesis by (simp add: writing_coordination_def)
qed

lemma incomplete_until_verified_witness:
  "\<not> writes_allowed (quiet_coordination\<lparr>co_incomplete := Regular_File\<rparr>)"
proof -
  have "at_rest (quiet_coordination\<lparr>co_incomplete := Regular_File\<rparr>)" by (simp add: at_rest_def quiet_coordination_def)
  then show ?thesis using incomplete_until_verified[OF rtranclp.rtrancl_refl _ rtranclp.rtrancl_refl] by simp
qed

end
