(* ===== verification/Providers.thy ===== *)
theory Providers
  imports SessionRepos Narratives Ingestion
begin

text \<open>
  What the application reads through units of work: \<^verbatim>\<open>persistence/providers.py\<close> (the resolution of verified principals, the evidence
  providers, the choice of the storage of an identity) and \<^verbatim>\<open>media_adapters/media_message_content.py\<close> (the content of a media
  message). Every transaction sees its own database, or fails: \<open>reads\<close> gives the database of the n-th one.
\<close>

section \<open>Storage of an identity\<close>

record storage_paths =
  sp_database_url :: str
  sp_conversation_root :: str

datatype identity_failure =
    Storage_Isolation string | Invalid_Principal_Identity | Principal_Disabled | Identity_Raised exc

text \<open>\<open>database_key\<close> and \<open>resolve_path\<close> stand for \<open>make_url\<close> and \<open>Path.resolve\<close>.\<close>

definition select_identity_storage_paths ::
  "(str \<Rightarrow> 'k) \<Rightarrow> (str \<Rightarrow> str) \<Rightarrow> str \<Rightarrow> storage_paths \<Rightarrow> storage_paths \<Rightarrow> identity_failure + storage_paths" where
  "select_identity_storage_paths database_key resolve_path profile anonymous_local_dev verified =
     (if database_key (sp_database_url anonymous_local_dev) = database_key (sp_database_url verified)
      then Inl (Storage_Isolation ''anonymous and verified databases overlap'')
      else if resolve_path (sp_conversation_root anonymous_local_dev) = resolve_path (sp_conversation_root verified)
      then Inl (Storage_Isolation ''anonymous and verified conversation roots overlap'')
      else if profile = lit ''local-dev'' then Inr anonymous_local_dev
      else if profile \<in> {lit ''staging'', lit ''production''} then Inr verified
      else Inl (Storage_Isolation ''anonymous storage is available only to the explicit local-dev profile''))"

section \<open>Principals\<close>

definition exact_identity_value :: "str \<Rightarrow> bool" where
  "exact_identity_value v \<longleftrightarrow> v \<noteq> [] \<and> \<not> blank v \<and> v = strip v"

definition active_principal_id :: "principal_row \<Rightarrow> identity_failure + str" where
  "active_principal_id p = (if vp_active p then Inr (vp_principal_id p) else Inl Principal_Disabled)"

definition identity_conflict :: "exc \<Rightarrow> bool" where
  "identity_conflict e \<longleftrightarrow> e = IntegrityError ''UNIQUE issuer subject''"

text \<open>The insertion with its commit: the database afterwards, and what is raised.\<close>

definition add_principal :: "tx_fault \<Rightarrow> principal_row \<Rightarrow> db \<Rightarrow> db \<times> (exc + unit)" where
  "add_principal fault p d = (case principal_add p d of
     Inl e \<Rightarrow> (d, Inl e)
   | Inr (d', _) \<Rightarrow> (case fault of Commits \<Rightarrow> (d', Inr ()) | Commit_Fails e \<Rightarrow> (d, Inl e) | Commit_Unknown e \<Rightarrow> (d', Inl e)))"

text \<open>
  \<open>resolve\<close>: the lookup sees \<open>d0\<close>, the insertion \<open>d1\<close>, and the lookup after a lost race what other requests make of the database
  by then. The result comes with the database the call leaves behind, or None where it wrote nothing.
\<close>

definition resolve_principal ::
  "str \<Rightarrow> datetime \<Rightarrow> tx_fault \<Rightarrow> str \<Rightarrow> str \<Rightarrow> db \<Rightarrow> db \<Rightarrow> (db \<Rightarrow> db) \<Rightarrow> db option \<times> (identity_failure + str)" where
  "resolve_principal principal_id now fault issuer subject d0 d1 later =
     (if \<not> exact_identity_value issuer \<or> \<not> exact_identity_value subject then (None, Inl Invalid_Principal_Identity) else
      let candidate = \<lparr>vp_principal_id = principal_id, vp_issuer = issuer, vp_subject = subject, vp_active = True,
        vp_created_at = now, vp_state_changed_at = now\<rparr>
      in case principal_get_exact issuer subject d0 of
        Some existing \<Rightarrow> (None, active_principal_id existing)
      | None \<Rightarrow> (case add_principal fault candidate d1 of
          (d2, Inr _) \<Rightarrow> (Some d2, Inr principal_id)
        | (d2, Inl e) \<Rightarrow>
            if \<not> identity_conflict e then (Some d2, Inl (Identity_Raised e))
            else (case principal_get_exact issuer subject (later d2) of
                None \<Rightarrow> (Some d2, Inl (Identity_Raised e))
              | Some winner \<Rightarrow> (Some d2, active_principal_id winner))))"

section \<open>The content of a media message\<close>

datatype media_failure =
    Media_Not_Ready string | Media_Access_Denied | Media_Content string | Media_Raised exc | Media_Other

datatype store_failure = Store_OSError | Store_ValueError | Store_Other

record media_message_content =
  mc_facts :: media_message_facts
  mc_payload :: "nat list"
  mc_width :: int
  mc_height :: int

text \<open>
  \<open>cp_read key n\<close> is the stream of the object store: what \<open>read(n)\<close> and then \<open>read(1)\<close> return, or how opening or reading it fails.
  \<open>cp_validate\<close> is the decoder, \<open>cp_sha256\<close> the digest in hexadecimal.
\<close>

record content_provider =
  cp_max_image_bytes :: int
  cp_read :: "str \<Rightarrow> int \<Rightarrow> store_failure + nat list \<times> nat list"
  cp_sha256 :: "nat list \<Rightarrow> str"
  cp_validate :: "nat list \<Rightarrow> str \<Rightarrow> str \<Rightarrow> media_failure + validated"

definition ALLOWED_IMAGE_MEDIA_TYPES :: "str list" where
  "ALLOWED_IMAGE_MEDIA_TYPES = map lit [''image/png'', ''image/jpeg'', ''image/webp'']"

text \<open>The checks of a unit of work that only reads: a failed transaction raises.\<close>

definition get_facts :: "(nat \<Rightarrow> exc + db) \<Rightarrow> nat \<Rightarrow> str \<Rightarrow> str \<Rightarrow> str \<Rightarrow> media_failure + media_message_facts" where
  "get_facts reads n verified_user_id session_id evidence_id =
     (case reads n of Inl e \<Rightarrow> Inl (Media_Raised e)
      | Inr d \<Rightarrow> (case get_media_message_artifact verified_user_id session_id evidence_id d of
          Inl e \<Rightarrow> Inl (Media_Raised e) | Inr f \<Rightarrow> Inr f))"

text \<open>\<open>_positive_dimension\<close> of the content and \<open>_positive_int\<close>, which raise \<open>ValueError\<close>.\<close>

definition positive_number :: "json_scalar option \<Rightarrow> exc + int" where
  "positive_number v = (case v of
     Some (JInt n) \<Rightarrow> if 0 < n then Inr n else Inl (ValueError ''dimension must be a positive integer'')
   | Some (JFloat x) \<Rightarrow>
       (let n = (if 0 \<le> x then \<lfloor>x\<rfloor> else \<lceil>x\<rceil>)
        in if of_int n = x \<and> 0 < n then Inr n else Inl (ValueError ''dimension must be a positive integer''))
   | Some (JBool b) \<Rightarrow> Inl (ValueError ''boolean is not a dimension'')
   | _ \<Rightarrow> Inl (ValueError ''dimension must be a positive integer''))"

text \<open>The reading of the object, with its size and digest.\<close>

definition read_object :: "content_provider \<Rightarrow> media_message_facts \<Rightarrow> media_failure + nat list" where
  "read_object C f =
     (case cp_read C (mm_opaque_object_key f) (cp_max_image_bytes C + 1) of
        Inl Store_Other \<Rightarrow> Inl Media_Other
      | Inl _ \<Rightarrow> Inl (Media_Content ''media message object is unavailable'')
      | Inr (payload, trailing) \<Rightarrow>
          andthen (require_all
            [(trailing = [] \<and> int (length payload) = mm_byte_size f \<and> int (length payload) \<le> cp_max_image_bytes C,
              Media_Content ''media message size differs''),
             (cp_sha256 C payload = mm_normalized_sha256 f, Media_Content ''media message digest differs'')])
          (\<lambda>_. Inr payload))"

text \<open>The validation, whose \<open>ValueError\<close>s and those of the dimensions are one error.\<close>

definition invalid_dimensions :: media_failure where
  "invalid_dimensions = Media_Content ''media message dimensions are invalid''"

definition dimension_of :: "validated \<Rightarrow> string \<Rightarrow> media_failure + int" where
  "dimension_of m key = (case positive_number (map_of (vm_attributes m) (lit key)) of
     Inl _ \<Rightarrow> Inl invalid_dimensions | Inr n \<Rightarrow> Inr n)"

definition validate_object :: "content_provider \<Rightarrow> media_message_facts \<Rightarrow> nat list \<Rightarrow> media_failure + validated" where
  "validate_object C f payload = (case cp_validate C payload (cp_sha256 C payload) (mm_media_type f) of
     Inl (Media_Raised e) \<Rightarrow> Inl (if exc_is_value_error e then invalid_dimensions else Media_Raised e) | r \<Rightarrow> r)"

definition validated_content :: "content_provider \<Rightarrow> media_message_facts \<Rightarrow> nat list \<Rightarrow> media_failure + media_message_content" where
  "validated_content C f payload =
     andthen (validate_object C f payload) (\<lambda>m.
     andthen (dimension_of m ''width'') (\<lambda>width.
     andthen (dimension_of m ''height'') (\<lambda>height.
     andthen (require (vm_media_type m = mm_media_type f \<and> vm_byte_size m = mm_byte_size f
         \<and> vm_source_sha256 m = mm_normalized_sha256 f) (Media_Content ''media message validated facts differ'')) (\<lambda>_.
     Inr \<lparr>mc_facts = f, mc_payload = payload, mc_width = width, mc_height = height\<rparr>))))"

definition get_content ::
  "content_provider \<Rightarrow> (nat \<Rightarrow> exc + db) \<Rightarrow> nat \<Rightarrow> str \<Rightarrow> str \<Rightarrow> str \<Rightarrow> media_failure + media_message_content" where
  "get_content C reads n verified_user_id session_id evidence_id =
     andthen (get_facts reads n verified_user_id session_id evidence_id) (\<lambda>f.
     andthen (require_all
       [(mm_media_type f \<in> set ALLOWED_IMAGE_MEDIA_TYPES, Media_Content ''media message MIME is unsupported''),
        (0 < mm_byte_size f \<and> mm_byte_size f \<le> cp_max_image_bytes C, Media_Content ''media message size is invalid'')]) (\<lambda>_.
     andthen (read_object C f) (validated_content C f)))"

section \<open>The evidence of one session\<close>

record evidence_repository =
  er_session_id :: str
  er_principal_id :: str
  er_provider :: "content_provider option"

definition evidence_of_stored :: "stored_evidence \<Rightarrow> evidence" where
  "evidence_of_stored s = \<lparr>ei_evidenceId = se_evidence_id s, ei_evidenceType = se_evidence_type s,
     ei_contentHash = se_content_hash s, ei_textContent = se_text_content s, ei_sourceUrl = se_source_url s,
     ei_metadata = map (\<lambda>(k, v). (k, Scalar v)) (se_metadata s)\<rparr>"

definition evidence_missing :: exc where
  "evidence_missing = KeyError ''Evidence does not exist''"

text \<open>\<open>UowEvidenceProvider.get_evidence\<close>, which knows no owner.\<close>

definition unscoped_evidence :: "(nat \<Rightarrow> exc + db) \<Rightarrow> nat \<Rightarrow> str \<Rightarrow> str \<Rightarrow> exc + evidence" where
  "unscoped_evidence reads n session_id evidence_id =
     andthen (reads n) (\<lambda>d. case evidence_get session_id evidence_id d of
       None \<Rightarrow> Inl evidence_missing | Some s \<Rightarrow> Inr (evidence_of_stored s))"

definition scope_evidence :: "content_provider option \<Rightarrow> str \<Rightarrow> str \<Rightarrow> evidence_repository" where
  "scope_evidence provider session_id principal_id =
     \<lparr>er_session_id = session_id, er_principal_id = principal_id, er_provider = provider\<rparr>"

definition scoped_evidence :: "evidence_repository \<Rightarrow> (nat \<Rightarrow> exc + db) \<Rightarrow> nat \<Rightarrow> str \<Rightarrow> str \<Rightarrow> exc + evidence" where
  "scoped_evidence R reads n session_id evidence_id =
     (if session_id \<noteq> er_session_id R then Inl evidence_missing else
      andthen (reads n) (\<lambda>d.
        case (if get_owned (er_session_id R) (er_principal_id R) d \<noteq> None
              then evidence_get (er_session_id R) evidence_id d else None) of
          None \<Rightarrow> Inl evidence_missing | Some s \<Rightarrow> Inr (evidence_of_stored s)))"

definition media_content :: "evidence_repository \<Rightarrow> (nat \<Rightarrow> exc + db) \<Rightarrow> nat \<Rightarrow> str \<Rightarrow> str \<Rightarrow> media_failure + media_message_content" where
  "media_content R reads n session_id evidence_id =
     (if session_id \<noteq> er_session_id R then Inl (Media_Raised evidence_missing) else
      case er_provider R of
        None \<Rightarrow> Inl (Media_Not_Ready ''media content provider is unavailable'')
      | Some C \<Rightarrow> get_content C reads n (er_principal_id R) session_id evidence_id)"

definition is_key_error_failure :: "media_failure \<Rightarrow> bool" where
  "is_key_error_failure e \<longleftrightarrow> (case e of Media_Raised (KeyError _) \<Rightarrow> True | _ \<Rightarrow> False)"

definition facts_of_artifact :: "unicode \<Rightarrow> evidence \<Rightarrow> media_message_facts \<Rightarrow> str \<Rightarrow> exc + media_facts" where
  "facts_of_artifact U e f explanation =
     andthen (positive_number (Some (JInt (mm_width f)))) (\<lambda>width.
     andthen (positive_number (Some (JInt (mm_height f)))) (\<lambda>height.
     make_media_facts U \<lparr>mf_evidence_id = ei_evidenceId e, mf_receipt_id = mm_receipt_id f, mf_attempt_id = mm_attempt_id f,
       mf_scan_result = lit (mm_scan_result f), mf_artifact_ref = mm_artifact_ref f, mf_artifact_sha256 = mm_artifact_sha256 f,
       mf_media_type = mm_media_type f, mf_normalized_sha256 = mm_normalized_sha256 f, mf_byte_size = mm_byte_size f,
       mf_width = width, mf_height = height, mf_learner_explanation = explanation\<rparr>))"

text \<open>\<open>get_media_evidence_facts\<close>: two transactions, the \<open>n\<close>-th and the next one.\<close>

definition media_evidence_facts ::
  "unicode \<Rightarrow> evidence_repository \<Rightarrow> (nat \<Rightarrow> exc + db) \<Rightarrow> nat \<Rightarrow> str \<Rightarrow> str \<Rightarrow> media_failure + media_facts" where
  "media_evidence_facts U R reads n session_id evidence_id =
     (case scoped_evidence R reads n session_id evidence_id of Inl e \<Rightarrow> Inl (Media_Raised e) | Inr e \<Rightarrow>
      if er_provider R = None then Inl (Media_Not_Ready ''media content provider is unavailable'') else
      case get_facts reads (n + 1) (er_principal_id R) session_id evidence_id of
        Inl failure \<Rightarrow> Inl (if is_key_error_failure failure then Media_Not_Ready ''clean media facts are not available'' else failure)
      | Inr f \<Rightarrow>
        let explanation = strip (case ei_textContent e of None \<Rightarrow> [] | Some t \<Rightarrow> t) in
        if explanation = [] then Inl (Media_Not_Ready ''media learner explanation is not available'') else
        case facts_of_artifact U e f explanation of
          Inr m \<Rightarrow> Inr m
        | Inl x \<Rightarrow> Inl (if exc_is_value_error x then Media_Not_Ready ''media safe facts are not complete'' else Media_Raised x))"


section \<open>Principals over time\<close>

abbreviation identity_of :: "principal_row \<Rightarrow> str \<times> str" where
  "identity_of p \<equiv> (vp_issuer p, vp_subject p)"

inductive principal_step :: "db \<Rightarrow> db \<Rightarrow> bool" where
  resolving: "resolve_principal p now fault issuer subject d0 d later = (Some d', r) \<Longrightarrow> principal_step d d'"
| switching: "principal_step d (fst (principal_set_active p active now d))"

inductive_cases principal_stepE: "principal_step d d'"

definition principals_ok :: "db \<Rightarrow> bool" where
  "principals_ok d \<longleftrightarrow> unique_key vp_principal_id (t_principals d) \<and> unique_key identity_of (t_principals d)"

definition assigned :: "str \<Rightarrow> str \<Rightarrow> str \<Rightarrow> db \<Rightarrow> bool" where
  "assigned issuer subject p d \<longleftrightarrow>
     (p, issuer, subject) \<in> (\<lambda>x. (vp_principal_id x, vp_issuer x, vp_subject x)) ` set (t_principals d)"

lemma added: "add_principal fault p d = (d', r) \<Longrightarrow> d' = d \<or> principal_add p d = Inr (d', p)"
  by (auto simp: add_principal_def principal_add_def andthen_Inr_iff split: sum.splits tx_fault.splits)

lemma added_rows: "principal_add p d = Inr (d', q) \<Longrightarrow> t_principals d' = t_principals d @ [p]
    \<and> vp_principal_id p \<notin> vp_principal_id ` set (t_principals d) \<and> identity_of p \<notin> identity_of ` set (t_principals d)"
  by (auto simp: principal_add_def andthen_Inr_iff)

lemma added_result: "add_principal fault p d = (d', Inr u) \<Longrightarrow> principal_add p d = Inr (d', p)"
  by (auto simp: add_principal_def principal_add_def andthen_Inr_iff split: sum.splits tx_fault.splits)

lemma resolve_writes:
  assumes "resolve_principal p now fault issuer subject d0 d later = (Some d', r)"
  shows "d' = d \<or> (\<exists>x. principal_add x d = Inr (d', x))"
proof -
  let ?x = "\<lparr>vp_principal_id = p, vp_issuer = issuer, vp_subject = subject, vp_active = True, vp_created_at = now, vp_state_changed_at = now\<rparr>"
  obtain d2 o' where run: "add_principal fault ?x d = (d2, o')" by (cases "add_principal fault ?x d")
  then have "d' = d2" using assms by (auto simp: resolve_principal_def Let_def split: if_splits option.splits sum.splits)
  then show ?thesis using added[OF run] by blast
qed

lemma switched_rows: "t_principals (fst (principal_set_active p active now d))
    = tupdate (\<lambda>x. vp_principal_id x = p \<and> vp_active x \<noteq> active) (\<lambda>x. x\<lparr>vp_active := active, vp_state_changed_at := now\<rparr>) (t_principals d)"
  by (simp add: principal_set_active_def Let_def)

lemma principal_step_ok: "principals_ok d \<Longrightarrow> principal_step d d' \<Longrightarrow> principals_ok d'"
proof (erule principal_stepE)
  assume ok: "principals_ok d"
  show "principals_ok d'" if "resolve_principal p now fault issuer subject d0 d later = (Some d', r)" for p now fault issuer subject d0 later r
    using resolve_writes[OF that] ok by (auto simp: principals_ok_def unique_key_append1 dest!: added_rows)
  show "principals_ok d'" if "d' = fst (principal_set_active p active now d)" for p active now
    unfolding that principals_ok_def switched_rows using ok by (simp add: principals_ok_def unique_key_tupdate)
qed

interpretation principals: invariant_system principals_ok principal_step
  by unfold_locales (rule principal_step_ok)

lemma same_identities: "(\<lambda>x. (vp_principal_id x, identity_of x)) ` set (tupdate P (\<lambda>x. x\<lparr>vp_active := a, vp_state_changed_at := t\<rparr>) rows)
    = (\<lambda>x. (vp_principal_id x, identity_of x)) ` set rows"
  unfolding set_map[symmetric] by (subst map_tupdate_key) simp_all

lemma step_assigned: "principal_step d d' \<Longrightarrow> assigned issuer subject p d \<Longrightarrow> assigned issuer subject p d'"
proof (erule principal_stepE)
  assume a: "assigned issuer subject p d"
  show "assigned issuer subject p d'" if "resolve_principal p' now fault issuer' subject' d0 d later = (Some d', r)"
    for p' now fault issuer' subject' d0 later r
    using resolve_writes[OF that] a by (auto simp: assigned_def dest!: added_rows)
  show "assigned issuer subject p d'" if "d' = fst (principal_set_active p' active now d)" for p' active now
    using a by (simp add: that assigned_def switched_rows same_identities)
qed

lemma steps_assigned: "principal_step\<^sup>*\<^sup>* d d' \<Longrightarrow> assigned issuer subject p d \<Longrightarrow> assigned issuer subject p d'"
  by (induction rule: rtranclp_induct) (auto intro: step_assigned)

lemma looked_up: "principal_get_exact issuer subject d = Some x \<Longrightarrow> active_principal_id x = Inr p \<Longrightarrow> assigned issuer subject p d"
  by (force simp: principal_get_exact_def active_principal_id_def assigned_def dest!: find_SomeD split: if_splits)

lemma assigned_unique:
  assumes "principals_ok d" and "assigned issuer subject p d" and "assigned issuer' subject' q d"
  shows "q = p \<longleftrightarrow> issuer' = issuer \<and> subject' = subject"
proof -
  obtain x y where x: "x \<in> set (t_principals d)" and y: "y \<in> set (t_principals d)" and xy: "vp_principal_id x = p"
    "identity_of x = (issuer, subject)" "vp_principal_id y = q" "identity_of y = (issuer', subject')"
    using assms(2,3) by (auto simp: assigned_def)
  have ok: "unique_key vp_principal_id (t_principals d)" "unique_key identity_of (t_principals d)"
    using assms(1) by (simp_all add: principals_ok_def)
  have "x = y" if "q = p" by (rule unique_keyD[OF ok(1) x y]) (simp add: xy that)
  moreover have "x = y" if "issuer' = issuer \<and> subject' = subject" by (rule unique_keyD[OF ok(2) x y]) (simp only: xy that)
  ultimately show ?thesis using xy by auto
qed

text \<open>The database after a resolution.\<close>

definition after_resolve :: "(db \<Rightarrow> db) \<Rightarrow> db option \<Rightarrow> db \<Rightarrow> db" where
  "after_resolve later written d1 = (case written of None \<Rightarrow> d1 | Some d \<Rightarrow> later d)"

lemma resolve_assigned:
  assumes "resolve_principal pid now fault issuer subject d0 d1 later = (w, Inr p)" and "principal_step\<^sup>*\<^sup>* d0 d1"
    and "\<And>x. principal_step\<^sup>*\<^sup>* x (later x)"
  shows "assigned issuer subject p (after_resolve later w d1)"
proof -
  let ?x = "\<lparr>vp_principal_id = pid, vp_issuer = issuer, vp_subject = subject, vp_active = True, vp_created_at = now, vp_state_changed_at = now\<rparr>"
  obtain d2 o' where run: "add_principal fault ?x d1 = (d2, o')" by (cases "add_principal fault ?x d1")
  consider (found) y where "w = None" "principal_get_exact issuer subject d0 = Some y" "active_principal_id y = Inr p"
    | (added) u where "w = Some d2" "o' = Inr u" "p = pid"
    | (winner) y where "w = Some d2" "principal_get_exact issuer subject (later d2) = Some y" "active_principal_id y = Inr p"
    using assms(1) run by (auto simp: resolve_principal_def Let_def split: if_splits option.splits sum.splits)
  then show ?thesis
  proof cases
    case found
    then show ?thesis using steps_assigned[OF assms(2) looked_up] by (simp add: after_resolve_def)
  next
    case added
    then have "assigned issuer subject p d2" using added_rows[OF added_result] run by (fastforce simp: assigned_def)
    then show ?thesis using steps_assigned[OF assms(3)] added(1) by (simp add: after_resolve_def)
  next
    case winner
    then show ?thesis using looked_up by (simp add: after_resolve_def)
  qed
qed

text \<open>
  C32. Whatever other requests do, also between the lookup and the insertion: an identity that was resolved once resolves to the same
  principal for ever, or not at all, and no other identity ever resolves to that principal.
\<close>

theorem identity_resolved_once:
  assumes "principals_ok s" and "principal_step\<^sup>*\<^sup>* s d0" and "principal_step\<^sup>*\<^sup>* d0 d1" and "\<And>x. principal_step\<^sup>*\<^sup>* x (later x)"
    and "resolve_principal pid now fault issuer subject d0 d1 later = (w, Inr p)"
    and "principal_step\<^sup>*\<^sup>* (after_resolve later w d1) e0" and "principal_step\<^sup>*\<^sup>* e0 e1" and "\<And>x. principal_step\<^sup>*\<^sup>* x (later' x)"
    and "resolve_principal pid' now' fault' issuer' subject' e0 e1 later' = (w', Inr q)"
  shows "q = p \<longleftrightarrow> issuer' = issuer \<and> subject' = subject"
proof -
  have after: "principal_step\<^sup>*\<^sup>* x (after_resolve l v x')" if "resolve_principal a b c i j x x' l = (v, r)" "principal_step\<^sup>*\<^sup>* x x'"
      "\<And>x. principal_step\<^sup>*\<^sup>* x (l x)" for a b c i j x x' l v r
  proof (cases v)
    case (Some d)
    then have "principal_step x' d" using that(1) principal_step.resolving by blast
    then have "principal_step\<^sup>*\<^sup>* x (l d)" using that(2) that(3)[of d] by auto
    then show ?thesis using Some by (simp add: after_resolve_def)
  qed (use that(2) in \<open>simp add: after_resolve_def\<close>)
  have "principal_step\<^sup>*\<^sup>* (after_resolve later w d1) (after_resolve later' w' e1)"
    using assms(6) after[OF assms(9,7,8)] by auto
  then have "assigned issuer subject p (after_resolve later' w' e1)"
    by (rule steps_assigned[OF _ resolve_assigned[OF assms(5,3,4)]])
  moreover have "assigned issuer' subject' q (after_resolve later' w' e1)" by (rule resolve_assigned[OF assms(9,7,8)])
  moreover have "principals_ok (after_resolve later' w' e1)"
    by (rule principals.steps_inv[OF after[OF assms(9,7,8)] principals.steps_inv[OF assms(6)
          principals.steps_inv[OF after[OF assms(5,3,4)] principals.steps_inv[OF assms(2,1)]]]])
  ultimately show ?thesis by (rule assigned_unique[rotated])
qed

text \<open>A resolution answers only a well-formed identity, and raises nothing but its own errors unless the database does.\<close>

lemma resolve_refuses: "snd (resolve_principal pid now fault issuer subject d0 d1 later) = Inl Invalid_Principal_Identity
    \<longleftrightarrow> \<not> exact_identity_value issuer \<or> \<not> exact_identity_value subject"
  by (auto simp: resolve_principal_def active_principal_id_def Let_def split: option.splits prod.splits sum.splits)

lemma resolve_disabled:
  assumes "principal_get_exact issuer subject d0 = Some x" and "\<not> vp_active x"
  shows "\<forall>p. snd (resolve_principal pid now fault issuer subject d0 d1 later) \<noteq> Inr p"
  using assms by (simp add: resolve_principal_def active_principal_id_def)

section \<open>What content is given out\<close>

lemma read_object_Inr: "read_object C f = Inr payload \<Longrightarrow> int (length payload) = mm_byte_size f \<and> mm_byte_size f \<le> cp_max_image_bytes C
    \<and> cp_sha256 C payload = mm_normalized_sha256 f"
  by (auto simp: read_object_def andthen_Inr_iff split: sum.splits store_failure.splits)

lemma positive_number_Inr: "positive_number v = Inr n \<Longrightarrow> 0 < n"
  by (auto simp: positive_number_def Let_def split: option.splits json_scalar.splits if_splits)

lemma dimension_of_Inr: "dimension_of m key = Inr n \<Longrightarrow> 0 < n"
  by (auto simp: dimension_of_def positive_number_Inr split: sum.splits)

lemma validated_content_Inr: "validated_content C f payload = Inr c \<Longrightarrow> mc_facts c = f \<and> mc_payload c = payload \<and> 0 < mc_width c \<and> 0 < mc_height c"
  by (auto simp: validated_content_def andthen_Inr_iff dest: dimension_of_Inr)

lemma content_source:
  assumes "get_content C reads n user session_id evidence_id = Inr c"
  shows "\<exists>d. reads n = Inr d \<and> get_media_message_artifact user session_id evidence_id d = Inr (mc_facts c)
    \<and> mm_media_type (mc_facts c) \<in> set ALLOWED_IMAGE_MEDIA_TYPES
    \<and> int (length (mc_payload c)) = mm_byte_size (mc_facts c) \<and> mc_payload c \<noteq> [] \<and> int (length (mc_payload c)) \<le> cp_max_image_bytes C
    \<and> cp_sha256 C (mc_payload c) = mm_normalized_sha256 (mc_facts c) \<and> 0 < mc_width c \<and> 0 < mc_height c"
proof -
  obtain f where f: "get_facts reads n user session_id evidence_id = Inr f" and ok: "mm_media_type f \<in> set ALLOWED_IMAGE_MEDIA_TYPES"
      "0 < mm_byte_size f" and rest: "andthen (read_object C f) (validated_content C f) = Inr c"
    using assms by (auto simp: get_content_def andthen_Inr_iff)
  obtain payload where payload: "read_object C f = Inr payload" "validated_content C f payload = Inr c"
    using rest by (auto simp: andthen_Inr_iff)
  obtain d where "reads n = Inr d" "get_media_message_artifact user session_id evidence_id d = Inr f"
    using f by (auto simp: get_facts_def split: sum.splits)
  then show ?thesis using ok read_object_Inr[OF payload(1)] validated_content_Inr[OF payload(2)] by auto
qed

text \<open>
  Content is given out only with the facts the database has of it, for an allowed media type, within the size limit, and it is
  exactly the stored size and has the stored digest.
\<close>

theorem content_authentic:
  assumes "get_content C reads n user session_id evidence_id = Inr c"
  shows "\<exists>d. reads n = Inr d \<and> get_media_message_artifact user session_id evidence_id d = Inr (mc_facts c)
    \<and> mm_media_type (mc_facts c) \<in> set ALLOWED_IMAGE_MEDIA_TYPES
    \<and> int (length (mc_payload c)) = mm_byte_size (mc_facts c) \<and> mc_payload c \<noteq> [] \<and> int (length (mc_payload c)) \<le> cp_max_image_bytes C
    \<and> cp_sha256 C (mc_payload c) = mm_normalized_sha256 (mc_facts c) \<and> 0 < mc_width c \<and> 0 < mc_height c"
  by (rule content_source[OF assms])

lemma scoped_evidence_Inr: "scoped_evidence R reads n session_id evidence_id = Inr e \<Longrightarrow> session_id = er_session_id R
    \<and> (\<exists>d s. reads n = Inr d \<and> get_owned session_id (er_principal_id R) d \<noteq> None \<and> evidence_get session_id evidence_id d = Some s
      \<and> e = evidence_of_stored s)"
  by (auto simp: scoped_evidence_def andthen_Inr_iff split: if_splits option.splits)

lemma made_media_facts: "make_media_facts U f = Inr m \<Longrightarrow> m = clean_media_facts U f \<and> list_all fst (media_facts_checks m)"
  by (auto simp: make_media_facts_def andthen_Inr_iff)

lemma media_evidence_facts_Inr:
  assumes "media_evidence_facts U R reads n session_id evidence_id = Inr m"
  obtains e f d where "scoped_evidence R reads n session_id evidence_id = Inr e" "reads (n + 1) = Inr d"
    "get_media_message_artifact (er_principal_id R) session_id evidence_id d = Inr f"
    "mf_evidence_id m = strip (ei_evidenceId e)" "mf_scan_result m = lit ''clean''" "mf_learner_explanation m \<noteq> []"
proof -
  obtain e f where e: "scoped_evidence R reads n session_id evidence_id = Inr e"
    and f: "get_facts reads (n + 1) (er_principal_id R) session_id evidence_id = Inr f"
    and m: "\<exists>x. facts_of_artifact U e f x = Inr m"
    using assms by (auto simp: media_evidence_facts_def Let_def split: sum.splits if_splits option.splits)
  obtain d where d: "reads (n + 1) = Inr d" "get_media_message_artifact (er_principal_id R) session_id evidence_id d = Inr f"
    using f by (auto simp: get_facts_def split: sum.splits)
  show ?thesis
    using m made_media_facts by (intro that[OF e d]) (fastforce simp: facts_of_artifact_def andthen_Inr_iff media_facts_checks_def clean_media_facts_def)+
qed

section \<open>Witnesses\<close>

lemma identity_resolved_once_witness:
  "\<exists>d. resolve_principal (lit ''p1'') 0 Commits (lit ''i'') (lit ''s'') empty_db empty_db id = (Some d, Inr (lit ''p1''))
    \<and> resolve_principal (lit ''p2'') 1 Commits (lit ''i'') (lit ''s'') d d id = (None, Inr (lit ''p1''))"
proof -
  let ?row = "\<lparr>vp_principal_id = lit ''p1'', vp_issuer = lit ''i'', vp_subject = lit ''s'', vp_active = True, vp_created_at = 0, vp_state_changed_at = 0\<rparr>"
  let ?d = "empty_db\<lparr>t_principals := [?row]\<rparr>"
  have exact: "exact_identity_value (lit ''i'')" "exact_identity_value (lit ''s'')"
    by (simp_all add: exact_identity_value_def lit_def blank_iff strip_def py_isspace_def)
  have first: "resolve_principal (lit ''p1'') 0 Commits (lit ''i'') (lit ''s'') empty_db empty_db id = (Some ?d, Inr (lit ''p1''))"
    using exact by (simp add: resolve_principal_def principal_get_exact_def add_principal_def principal_add_def empty_db_def Let_def require_all.simps)
  have second: "resolve_principal (lit ''p2'') 1 Commits (lit ''i'') (lit ''s'') ?d ?d id = (None, Inr (lit ''p1''))"
    using exact by (simp add: resolve_principal_def principal_get_exact_def active_principal_id_def)
  have "principals_ok empty_db" by (simp add: principals_ok_def empty_db_def unique_key_def)
  from identity_resolved_once[OF this rtranclp.rtrancl_refl rtranclp.rtrancl_refl _ first _ rtranclp.rtrancl_refl _ second]
  have "lit ''p1'' = lit ''p1'' \<longleftrightarrow> lit ''i'' = lit ''i'' \<and> lit ''s'' = lit ''s''" by (simp add: after_resolve_def)
  with first second show ?thesis by blast
qed

definition sample_provider :: content_provider where
  "sample_provider = \<lparr>cp_max_image_bytes = 10, cp_read = (\<lambda>_ _. Inr ([1, 2, 3], [])), cp_sha256 = (\<lambda>_. lit ''h''),
     cp_validate = (\<lambda>_ h t. Inr \<lparr>vm_media_type = t, vm_byte_size = 3, vm_source_sha256 = h,
       vm_attributes = [(lit ''width'', JInt 2), (lit ''height'', JInt 3)]\<rparr>)\<rparr>"

lemma media_db_artifact: "\<exists>f. get_media_message_artifact (lit ''u1'') (lit ''s1'') (lit ''e1'') media_db = Inr f
    \<and> mm_media_type f = lit ''image/png'' \<and> mm_byte_size f = 3 \<and> mm_normalized_sha256 f = lit ''h''"
  by (simp add: get_media_message_artifact_def media_join_rows_def media_db_def empty_db_def sample_session_def
      matches_def joined_def stable_scan_key_def media_facts_of_def positive_dimension_def flip: lit_append)

lemma sample_content:
  "\<exists>c. get_content sample_provider (\<lambda>_. Inr media_db) 0 (lit ''u1'') (lit ''s1'') (lit ''e1'') = Inr c \<and> mc_payload c = [1, 2, 3]"
  using media_db_artifact
  by (auto simp: get_content_def get_facts_def ALLOWED_IMAGE_MEDIA_TYPES_def sample_provider_def read_object_def
      validated_content_def validate_object_def dimension_of_def positive_number_def require_all.simps)

lemma content_authentic_witness:
  "\<exists>c. get_content sample_provider (\<lambda>_. Inr media_db) 0 (lit ''u1'') (lit ''s1'') (lit ''e1'') = Inr c
    \<and> int (length (mc_payload c)) = mm_byte_size (mc_facts c)"
  using sample_content content_authentic by blast

end
