(* ===== verification/MediaVerifier.thy ===== *)
theory MediaVerifier
  imports Providers Projector Actions
begin

text \<open>
  The tool that verifies media evidence: \<^verbatim>\<open>openhands_runtime/tools/media_evidence.py\<close>. The visual provider is asked for concrete facts
  about the image, once or twice. The repository and the provider's replies are arguments, as are \<open>json.loads\<close> and the case folding of
  Unicode; the timestamps and the text of an observation are not modelled.
\<close>

section \<open>The reply of the visual provider\<close>

definition MIN_VISUAL_FACTS :: nat where "MIN_VISUAL_FACTS = 3"
definition MAX_VISUAL_FACTS :: nat where "MAX_VISUAL_FACTS = 8"
definition MAX_VISUAL_FACT_CHARS :: nat where "MAX_VISUAL_FACT_CHARS = 500"

text \<open>\<open>_SINGLE_JSON_FENCE\<close>: the body ends at the first fence that only white space follows.\<close>

definition skip_cr :: "str \<Rightarrow> str" where
  "skip_cr s = (case s of c # cs \<Rightarrow> if c = 13 then cs else s | [] \<Rightarrow> [])"

definition closes_fence :: "str \<Rightarrow> bool" where
  "closes_fence s \<longleftrightarrow> is_prefix (10 # lit ''```'') (skip_cr s) \<and> blank (drop 4 (skip_cr s))"

fun fence_body :: "str \<Rightarrow> str option" where
  "fence_body [] = None"
| "fence_body (c # cs) = (if closes_fence (c # cs) then Some [] else map_option (\<lambda>b. c # b) (fence_body cs))"

definition skip_newline :: "str \<Rightarrow> str option" where
  "skip_newline s = (case skip_cr (dropWhile (\<lambda>c. c = 32 \<or> c = 9) s) of
     c # cs \<Rightarrow> if c = 10 then Some cs else None | [] \<Rightarrow> None)"

definition single_json_fence :: "str \<Rightarrow> str option" where
  "single_json_fence raw =
     (let s = dropWhile py_isspace raw in
      if \<not> is_prefix (lit ''```'') s then None
      else Option.bind (skip_newline (remove_prefix (lit ''json'') (drop 3 s))) fence_body)"

datatype visual_error = Visual_Parse string string string | Visual_Other

definition invalid_schema :: visual_error where
  "invalid_schema = Visual_Parse ''invalid_schema'' ''schema_validation'' ''response_invalid_schema''"

fun json_texts :: "json list \<Rightarrow> str list option" where
  "json_texts [] = Some []"
| "json_texts (Scalar (JStr s) # vs) = map_option (\<lambda>ss. s # ss) (json_texts vs)"
| "json_texts (_ # _) = None"

text \<open>The facts that are not blank and new up to case, in their order; \<open>seen\<close> has the folded ones so far.\<close>

fun distinct_facts :: "unicode \<Rightarrow> str list \<Rightarrow> str list \<Rightarrow> str list" where
  "distinct_facts U seen [] = []"
| "distinct_facts U seen (item # items) =
     (let v = take MAX_VISUAL_FACT_CHARS (squeeze item); key = u_casefold U v in
      if v = [] \<or> key \<in> set seen then distinct_facts U seen items
      else v # distinct_facts U (key # seen) items)"

definition parse_visual_response :: "unicode \<Rightarrow> (str \<Rightarrow> exc + json) \<Rightarrow> str \<Rightarrow> visual_error + str list \<times> string" where
  "parse_visual_response U loads raw =
     (if strip raw = [] then Inl (Visual_Parse ''empty'' ''response_text'' ''empty_response'') else
      let (document, response_format) = (case single_json_fence raw of
            Some body \<Rightarrow> (body, ''fenced_json'') | None \<Rightarrow> (strip raw, ''plain_json''))
      in case loads document of
        Inl e \<Rightarrow> Inl (if is_decode_error e then Visual_Parse ''non_json'' ''json_decode'' ''response_non_json'' else Visual_Other)
      | Inr (Obj fs) \<Rightarrow> (case map_of fs (lit ''visual_facts'') of
            Some (Arr vs) \<Rightarrow> (case json_texts vs of
                Some items \<Rightarrow> Inr (distinct_facts U [] (take MAX_VISUAL_FACTS items), response_format)
              | None \<Rightarrow> Inl invalid_schema)
          | _ \<Rightarrow> Inl invalid_schema)
      | Inr _ \<Rightarrow> Inl invalid_schema)"

section \<open>Prompts and completions\<close>

text \<open>\<open>base64.b64encode\<close>.\<close>

definition b64_char :: "nat \<Rightarrow> nat" where
  "b64_char n = (if n < 26 then 65 + n else if n < 52 then 71 + n else if n < 62 then n - 4 else if n = 62 then 43 else 47)"

fun b64encode :: "nat list \<Rightarrow> str" where
  "b64encode (a # b # c # rest) = b64_char (a div 4) # b64_char (a mod 4 * 16 + b div 16) # b64_char (b mod 16 * 4 + c div 64)
     # b64_char (c mod 64) # b64encode rest"
| "b64encode [a, b] = [b64_char (a div 4), b64_char (a mod 4 * 16 + b div 16), b64_char (b mod 16 * 4), 61]"
| "b64encode [a] = [b64_char (a div 4), b64_char (a mod 4 * 16), 61, 61]"
| "b64encode [] = []"

definition PRIMARY_VISUAL_FACT_PROMPT :: str where
  "PRIMARY_VISUAL_FACT_PROMPT = lit (''Inspect this learning-evidence image. Return strict JSON only: '' @
     ''{\"visual_facts\":[\"fact 1\",\"fact 2\",\"fact 3\"]}. '' @
     ''Provide 3 to 8 independently observable, concrete pixel-grounded facts. '' @
     ''Do not score learning, infer identity, or repeat the learner explanation.'')"

definition CORRECTIVE_VISUAL_FACT_PROMPT :: str where
  "CORRECTIVE_VISUAL_FACT_PROMPT = lit (''Your previous response was valid JSON but contained fewer than 3 distinct '' @
     ''visual facts. Return strict JSON only: {\"visual_facts\":[\"fact 1\",\"fact 2\",\"fact 3\"]}. '' @
     ''Return 3 to 5 mutually independent, content-specific, concrete pixel-grounded '' @
     ''facts visible in this image. Do not score learning, infer identity, or repeat '' @
     ''the learner explanation.'')"

record visual_prompt =
  vp_text :: str
  vp_image_url :: str

definition image_url :: "str \<Rightarrow> nat list \<Rightarrow> str" where
  "image_url media_type payload = lit ''data:'' @ media_type @ lit '';base64,'' @ b64encode payload"

definition make_prompt :: "str \<Rightarrow> nat list \<Rightarrow> bool \<Rightarrow> visual_prompt" where
  "make_prompt media_type payload corrective =
     \<lparr>vp_text = if corrective then CORRECTIVE_VISUAL_FACT_PROMPT else PRIMARY_VISUAL_FACT_PROMPT,
      vp_image_url = image_url media_type payload\<rparr>"

text \<open>A completion raises, gives nothing, something without a message, or a message, whose items are texts or not.\<close>

datatype llm_reply = Llm_Raises | Llm_None | Llm_No_Message | Llm_Message "str option list"

record visual_diagnostics =
  vd_attempted :: bool
  vd_received :: bool
  vd_succeeded :: bool
  vd_calls :: int
  vd_format :: string
  vd_stage :: string
  vd_category :: string
  vd_text_length :: "int option"

definition not_run_visual_diagnostics :: visual_diagnostics where
  "not_run_visual_diagnostics = \<lparr>vd_attempted = False, vd_received = False, vd_succeeded = False, vd_calls = 0,
     vd_format = ''not_run'', vd_stage = ''not_started'', vd_category = ''not_run'', vd_text_length = None\<rparr>"

definition diagnostics_json :: "visual_diagnostics \<Rightarrow> json" where
  "diagnostics_json v = Obj
     [(lit ''visualProviderAttempted'', Scalar (JBool (vd_attempted v))),
      (lit ''visualProviderResponseReceived'', Scalar (JBool (vd_received v))),
      (lit ''visualProviderCompletionSucceeded'', Scalar (JBool (vd_succeeded v))),
      (lit ''visualProviderCompletionCalls'', jint (vd_calls v)),
      (lit ''visualResponseFormat'', jstr (lit (vd_format v))),
      (lit ''visualResponseParseStage'', jstr (lit (vd_stage v))),
      (lit ''visualProviderErrorCategory'', jstr (lit (vd_category v))),
      (lit ''responseTextLength'', (case vd_text_length v of None \<Rightarrow> Scalar JNull | Some n \<Rightarrow> jint n))]"

text \<open>The diagnostics, which the failures leave behind, and the prompts sent so far.\<close>

record visual_run =
  vr_diagnostics :: visual_diagnostics
  vr_sent :: "visual_prompt list"

type_synonym 'a visual_action = "(visual_run, visual_error, 'a) action"

definition update_diagnostics :: "(visual_diagnostics \<Rightarrow> visual_diagnostics) \<Rightarrow> unit visual_action" where
  "update_diagnostics f w = (w\<lparr>vr_diagnostics := f (vr_diagnostics w)\<rparr>, Inr ())"

definition send_prompt :: "visual_prompt \<Rightarrow> unit visual_action" where
  "send_prompt prompt w = (w\<lparr>vr_sent := vr_sent w @ [prompt]\<rparr>, Inr ())"

definition reply_text :: "str option list \<Rightarrow> str" where
  "reply_text content = concat (List.map_filter id content)"

definition request_visual_completion :: "(visual_prompt \<Rightarrow> llm_reply) \<Rightarrow> visual_prompt \<Rightarrow> str visual_action" where
  "request_visual_completion reply prompt =
     bnd (update_diagnostics (\<lambda>v. v\<lparr>vd_attempted := True, vd_calls := vd_calls v + 1\<rparr>)) (\<lambda>_.
     bnd (send_prompt prompt) (\<lambda>_.
     case reply prompt of
       Llm_Raises \<Rightarrow> bnd (update_diagnostics (\<lambda>v. v\<lparr>vd_succeeded := False\<rparr>)) (\<lambda>_. rethrow Visual_Other)
     | Llm_None \<Rightarrow> rethrow Visual_Other
     | Llm_No_Message \<Rightarrow> bnd (update_diagnostics (\<lambda>v. v\<lparr>vd_received := True\<rparr>)) (\<lambda>_. rethrow Visual_Other)
     | Llm_Message content \<Rightarrow>
         bnd (update_diagnostics (\<lambda>v. v\<lparr>vd_received := True, vd_succeeded := \<not> blank (reply_text content),
           vd_text_length := Some (int (length (reply_text content)))\<rparr>)) (\<lambda>_. ret (reply_text content))))"

definition outcome :: "string \<Rightarrow> string \<Rightarrow> string \<Rightarrow> visual_diagnostics \<Rightarrow> visual_diagnostics" where
  "outcome fmt stage category v = v\<lparr>vd_format := fmt, vd_stage := stage, vd_category := category\<rparr>"

text \<open>A completion and its parse, which notes the failures of the parse.\<close>

definition ask :: "unicode \<Rightarrow> (str \<Rightarrow> exc + json) \<Rightarrow> (visual_prompt \<Rightarrow> llm_reply) \<Rightarrow> visual_prompt \<Rightarrow> (str list \<times> string) visual_action" where
  "ask U loads reply prompt =
     bnd (request_visual_completion reply prompt) (\<lambda>raw.
     case parse_visual_response U loads raw of
       Inr r \<Rightarrow> ret r
     | Inl (Visual_Parse fmt stage category) \<Rightarrow>
         bnd (update_diagnostics (outcome fmt stage category)) (\<lambda>_. rethrow (Visual_Parse fmt stage category))
     | Inl Visual_Other \<Rightarrow> rethrow Visual_Other)"

definition inspect_visual_content ::
  "unicode \<Rightarrow> (str \<Rightarrow> exc + json) \<Rightarrow> (visual_prompt \<Rightarrow> llm_reply) \<Rightarrow> str \<Rightarrow> nat list \<Rightarrow> str list visual_action" where
  "inspect_visual_content U loads reply media_type payload =
     bnd (ask U loads reply (make_prompt media_type payload False)) (\<lambda>first.
     bnd (if MIN_VISUAL_FACTS \<le> length (fst first) then ret first
          else bnd (ask U loads reply (make_prompt media_type payload True)) (\<lambda>second.
            if MIN_VISUAL_FACTS \<le> length (fst second) then ret second
            else bnd (update_diagnostics (outcome (snd second) ''schema_validation'' ''response_invalid_schema''))
              (\<lambda>_. rethrow invalid_schema))) (\<lambda>r.
     bnd (update_diagnostics (outcome (snd r) ''complete'' ''none'')) (\<lambda>_. ret (fst r))))"

section \<open>The tool\<close>

text \<open>
  \<open>mt_provider\<close> is the error of \<open>get_repository_provider()\<close> where the tool was made without a repository and none is registered; otherwise
  the tool has a repository. \<open>mt_content\<close> is None where that repository has no reader of contents.
\<close>

record media_tool =
  mt_unicode :: unicode
  mt_session_id :: str
  mt_provider :: "exc + unit"
  mt_facts :: "str \<Rightarrow> str \<Rightarrow> media_failure + media_facts"
  mt_content :: "(str \<Rightarrow> str \<Rightarrow> media_failure + media_message_content) option"
  mt_loads :: "str \<Rightarrow> exc + json"

definition MEDIA_VERIFIER_VERSION :: str where "MEDIA_VERIFIER_VERSION = lit ''2''"

definition same_artifact :: "media_facts \<Rightarrow> media_message_content \<Rightarrow> bool" where
  "same_artifact f c \<longleftrightarrow>
     (mm_evidence_id (mc_facts c), mm_artifact_ref (mc_facts c), mm_media_type (mc_facts c), mm_normalized_sha256 (mc_facts c),
       mm_byte_size (mc_facts c))
     = (mf_evidence_id f, mf_artifact_ref f, mf_media_type f, mf_normalized_sha256 f, mf_byte_size f)"

definition load_artifact :: "media_tool \<Rightarrow> str \<Rightarrow> media_failure + media_facts \<times> media_message_content" where
  "load_artifact T evidence_id =
     andthen (mt_facts T (mt_session_id T) evidence_id) (\<lambda>f.
     case mt_content T of
       None \<Rightarrow> Inl (Media_Not_Ready ''media content reader is unavailable'')
     | Some getter \<Rightarrow>
         andthen (getter (mt_session_id T) evidence_id) (\<lambda>c.
         andthen (require (same_artifact f c)
           (Media_Raised (ValueError ''media artifact identity changed during verification''))) (\<lambda>_. Inr (f, c))))"

definition media_failure_observation ::
  "str \<Rightarrow> verification_status \<Rightarrow> string \<Rightarrow> string \<Rightarrow> string \<Rightarrow> visual_diagnostics option \<Rightarrow> exc + tool_observation" where
  "media_failure_observation evidence_id status media_status code msg diagnostics =
     make_observation \<lparr>vo_evidence_id = evidence_id, vo_capability = lit ''image'', vo_status = status,
       vo_facts = (lit ''media_status'', jstr (lit media_status))
         # (case diagnostics of None \<Rightarrow> [] | Some v \<Rightarrow> [(lit ''visual_diagnostics'', diagnostics_json v)]),
       vo_weak_signals = [], vo_source_refs = [evidence_id], vo_verifier_version = MEDIA_VERIFIER_VERSION,
       vo_safe_error_message = Some (lit msg), to_error_code = Some (lit code)\<rparr>"

definition load_failure :: "str \<Rightarrow> media_failure \<Rightarrow> exc + tool_observation" where
  "load_failure evidence_id failure =
     (let rejected = media_failure_observation evidence_id Vs_Failed ''rejected'' ''media_evidence_rejected''
            ''Media evidence failed integrity verification.'' None
      in case failure of
        Media_Access_Denied \<Rightarrow> media_failure_observation evidence_id Vs_Failed ''rejected'' ''media_evidence_access_denied''
          ''Media evidence is not available to this Session.'' None
      | Media_Not_Ready _ \<Rightarrow> media_failure_observation evidence_id Vs_Inconclusive ''not_ready'' ''media_evidence_not_ready''
          ''Media evidence is not ready for verification.'' None
      | Media_Content _ \<Rightarrow> rejected
      | Media_Raised e \<Rightarrow>
          (if is_key_error e then media_failure_observation evidence_id Vs_Failed ''not_ready'' ''evidence_not_found''
             ''Evidence was not found.'' None
           else if exc_is_value_error e then rejected
           else media_failure_observation evidence_id Vs_Inconclusive ''error'' ''media_evidence_unavailable''
             ''Media evidence could not be inspected safely.'' None)
      | Media_Other \<Rightarrow> media_failure_observation evidence_id Vs_Inconclusive ''error'' ''media_evidence_unavailable''
          ''Media evidence could not be inspected safely.'' None)"

definition visual_failure :: "str \<Rightarrow> visual_error \<Rightarrow> visual_diagnostics \<Rightarrow> exc + tool_observation" where
  "visual_failure evidence_id failure v = (case failure of
     Visual_Parse fmt stage category \<Rightarrow>
       andthen (case map_of [(''empty_response'', ''media_visual_response_empty''), (''response_non_json'', ''media_visual_response_non_json''),
           (''response_invalid_schema'', ''media_visual_response_invalid_schema'')] category of
         None \<Rightarrow> Inl (KeyError category) | Some code \<Rightarrow> Inr code) (\<lambda>code.
       media_failure_observation evidence_id Vs_Inconclusive ''not_ready'' code ''Visual verification produced insufficient facts.'' (Some v))
   | Visual_Other \<Rightarrow> media_failure_observation evidence_id Vs_Inconclusive ''error'' ''media_visual_provider_error''
       ''Visual verification could not be completed safely.''
       (Some (v\<lparr>vd_stage := ''provider_completion'', vd_category := ''provider_transport_error''\<rparr>)))"

definition safe_media_facts :: "media_facts \<Rightarrow> str list \<Rightarrow> visual_diagnostics \<Rightarrow> payload" where
  "safe_media_facts f visual_facts v =
     [(lit ''artifact_ref'', jstr (mf_artifact_ref f)), (lit ''media_type'', jstr (mf_media_type f)),
      (lit ''normalized_sha256'', jstr (mf_normalized_sha256 f)), (lit ''byte_size'', jint (mf_byte_size f)),
      (lit ''width'', jint (mf_width f)), (lit ''height'', jint (mf_height f)),
      (lit ''learner_explanation'', jstr (mf_learner_explanation f)), (lit ''visual_facts'', jstrs visual_facts),
      (lit ''media_status'', jstr (lit ''ready'')), (lit ''visual_diagnostics'', diagnostics_json v)]"

definition media_success :: "media_facts \<Rightarrow> str list \<Rightarrow> visual_diagnostics \<Rightarrow> exc + tool_observation" where
  "media_success f visual_facts v =
     make_observation \<lparr>vo_evidence_id = mf_evidence_id f, vo_capability = lit ''image'', vo_status = Vs_Success,
       vo_facts = safe_media_facts f visual_facts v, vo_weak_signals = [],
       vo_source_refs = [mf_evidence_id f, mf_artifact_ref f, lit ''sha256:'' @ mf_normalized_sha256 f],
       vo_verifier_version = MEDIA_VERIFIER_VERSION, vo_safe_error_message = None, to_error_code = None\<rparr>"

text \<open>The call, with the prompts it sent. The conversation has a model to ask, or none.\<close>

definition verify_media :: "media_tool \<Rightarrow> (visual_prompt \<Rightarrow> llm_reply) option \<Rightarrow> str \<Rightarrow> visual_prompt list \<times> (exc + tool_observation)" where
  "verify_media T llm evidence_id = (case mt_provider T of Inl e \<Rightarrow> ([], Inl e) | Inr _ \<Rightarrow>
   (case load_artifact T evidence_id of
     Inl failure \<Rightarrow> ([], load_failure evidence_id failure)
   | Inr (f, c) \<Rightarrow> (case llm of
       None \<Rightarrow> ([], media_failure_observation evidence_id Vs_Inconclusive ''not_ready'' ''media_visual_provider_not_ready''
         ''Visual verification is not ready.'' (Some not_run_visual_diagnostics))
     | Some reply \<Rightarrow>
         (case inspect_visual_content (mt_unicode T) (mt_loads T) reply (mf_media_type f) (mc_payload c)
             \<lparr>vr_diagnostics = not_run_visual_diagnostics, vr_sent = []\<rparr> of
            (w, Inl e) \<Rightarrow> (vr_sent w, visual_failure evidence_id e (vr_diagnostics w))
          | (w, Inr visual_facts) \<Rightarrow> (vr_sent w, media_success f visual_facts (vr_diagnostics w))))))"

section \<open>The facts\<close>

lemma squeeze_start: "squeeze s = c # cs \<Longrightarrow> \<not> py_isspace c"
proof -
  assume *: "squeeze s = c # cs"
  obtain w ws where w: "split_ws s = w # ws" using * by (cases "split_ws s") (auto simp: squeeze_def)
  then have "w \<noteq> []" "list_all (\<lambda>c. \<not> py_isspace c) w" using split_ws_wordy[of s] by (simp_all add: wordy_def)
  moreover have "\<exists>rest. join_sp (w # ws) = w @ rest" by (cases ws) auto
  ultimately show ?thesis using * w by (cases w) (auto simp: squeeze_def)
qed

lemma cut_squeezed: "take (Suc n) (squeeze s) \<noteq> [] \<Longrightarrow> \<not> blank (take (Suc n) (squeeze s))"
  using squeeze_start[of s] by (cases "squeeze s") (auto simp: blank_iff)

lemma distinct_facts_ok:
  "length (distinct_facts U seen items) \<le> length items
   \<and> distinct (map (u_casefold U) (distinct_facts U seen items))
   \<and> set (map (u_casefold U) (distinct_facts U seen items)) \<inter> set seen = {}
   \<and> list_all (\<lambda>v. \<not> blank v \<and> length v \<le> MAX_VISUAL_FACT_CHARS) (distinct_facts U seen items)"
proof (induction U seen items rule: distinct_facts.induct)
  case (2 U seen item items)
  let ?v = "take MAX_VISUAL_FACT_CHARS (squeeze item)"
  show ?case
  proof (cases "?v = [] \<or> u_casefold U ?v \<in> set seen")
    case True
    then show ?thesis using 2(1)[OF refl refl True] by auto
  next
    case False
    have "\<not> blank ?v" using False cut_squeezed[of 499 item] by (simp add: MAX_VISUAL_FACT_CHARS_def)
    then show ?thesis using 2(2)[OF refl refl False] False by (auto simp: Let_def)
  qed
qed simp

definition concrete_visual_facts :: "unicode \<Rightarrow> str list \<Rightarrow> bool" where
  "concrete_visual_facts U vs \<longleftrightarrow> length vs \<le> MAX_VISUAL_FACTS \<and> distinct (map (u_casefold U) vs)
     \<and> list_all (\<lambda>v. \<not> blank v \<and> length v \<le> MAX_VISUAL_FACT_CHARS) vs"

lemma parsed_facts: "parse_visual_response U loads raw = Inr (vs, fmt) \<Longrightarrow> concrete_visual_facts U vs"
proof -
  assume "parse_visual_response U loads raw = Inr (vs, fmt)"
  then obtain items where "vs = distinct_facts U [] (take MAX_VISUAL_FACTS items)"
    by (auto simp: parse_visual_response_def Let_def split: if_splits option.splits sum.splits json.splits prod.splits)
  then show ?thesis using distinct_facts_ok[of U "[]" "take MAX_VISUAL_FACTS items"] by (simp add: concrete_visual_facts_def)
qed

definition parse_categories :: "string list" where
  "parse_categories = [''empty_response'', ''response_non_json'', ''response_invalid_schema'']"

lemma parse_failed: "parse_visual_response U loads raw = Inl (Visual_Parse fmt stage category) \<Longrightarrow> category \<in> set parse_categories"
  by (auto simp: parse_visual_response_def parse_categories_def invalid_schema_def Let_def
      split: if_splits option.splits sum.splits json.splits prod.splits)

section \<open>What is sent\<close>

lemma update_bnd [simp]: "bnd (update_diagnostics f) k w = k () (w\<lparr>vr_diagnostics := f (vr_diagnostics w)\<rparr>)"
  by (simp add: bnd_def update_diagnostics_def)

lemma send_bnd [simp]: "bnd (send_prompt prompt) k w = k () (w\<lparr>vr_sent := vr_sent w @ [prompt]\<rparr>)"
  by (simp add: bnd_def send_prompt_def)

lemma bnd_assoc: "bnd (bnd m f) k = bnd m (\<lambda>x. bnd (f x) k)"
  by (rule ext) (simp add: bnd_def split: prod.splits sum.splits)

lemma bnd_branch: "bnd (if b then m else m') k = (if b then bnd m k else bnd m' k)" "bnd (rethrow e) k = rethrow e"
  by (simp_all add: bnd_def fun_eq_iff)

definition understood :: "unicode \<Rightarrow> (str \<Rightarrow> exc + json) \<Rightarrow> llm_reply \<Rightarrow> str list \<times> string \<Rightarrow> bool" where
  "understood U loads answer r \<longleftrightarrow> (\<exists>content. answer = Llm_Message content \<and> parse_visual_response U loads (reply_text content) = Inr r)"

definition known_failure :: "visual_error + 'a \<Rightarrow> bool" where
  "known_failure r \<longleftrightarrow> (\<forall>fmt stage category. r = Inl (Visual_Parse fmt stage category) \<longrightarrow> category \<in> set parse_categories)"

lemma request_run:
  assumes "request_visual_completion reply prompt w = (w', r)"
  shows "vr_sent w' = vr_sent w @ [prompt] \<and> (case r of Inl e \<Rightarrow> e = Visual_Other
    | Inr raw \<Rightarrow> \<exists>content. reply prompt = Llm_Message content \<and> raw = reply_text content)"
  using assms by (auto simp: request_visual_completion_def split: llm_reply.splits)

lemma ask_run:
  assumes "ask U loads reply prompt w = (w', r)"
  shows "vr_sent w' = vr_sent w @ [prompt] \<and> known_failure r \<and> (\<forall>x. r = Inr x \<longrightarrow> understood U loads (reply prompt) x)"
proof -
  obtain w1 r1 where run: "request_visual_completion reply prompt w = (w1, r1)" by (cases "request_visual_completion reply prompt w")
  note request = request_run[OF run]
  show ?thesis
  proof (cases r1)
    case (Inl e)
    then show ?thesis using assms run request by (auto simp: ask_def bnd_run known_failure_def)
  next
    case (Inr raw)
    then show ?thesis using assms run request parse_failed[of U loads raw]
      by (auto simp: ask_def bnd_run known_failure_def understood_def split: sum.splits visual_error.splits)
  qed
qed

text \<open>The prompts of an inspection: the second one only after a reply with too few facts.\<close>

definition inspection_prompts ::
  "unicode \<Rightarrow> (str \<Rightarrow> exc + json) \<Rightarrow> (visual_prompt \<Rightarrow> llm_reply) \<Rightarrow> str \<Rightarrow> nat list \<Rightarrow> visual_prompt list \<Rightarrow> bool" where
  "inspection_prompts U loads reply media_type payload sent \<longleftrightarrow>
     sent = [make_prompt media_type payload False]
     \<or> sent = [make_prompt media_type payload False, make_prompt media_type payload True]
       \<and> (\<exists>r. understood U loads (reply (make_prompt media_type payload False)) r \<and> length (fst r) < MIN_VISUAL_FACTS)"

lemma inspect_run:
  assumes "inspect_visual_content U loads reply media_type payload w = (w', r)" and "vr_sent w = []"
  shows "inspection_prompts U loads reply media_type payload (vr_sent w') \<and> known_failure r
    \<and> (\<forall>vs. r = Inr vs \<longrightarrow> MIN_VISUAL_FACTS \<le> length vs \<and> (\<exists>fmt. understood U loads (reply (last (vr_sent w'))) (vs, fmt)))"
proof -
  let ?p = "make_prompt media_type payload False" and ?q = "make_prompt media_type payload True"
  obtain w1 r1 where first: "ask U loads reply ?p w = (w1, r1)" by (cases "ask U loads reply ?p w")
  note f = ask_run[OF first]
  show ?thesis
  proof (cases r1)
    case (Inl e)
    then show ?thesis using assms first f by (auto simp: inspect_visual_content_def bnd_run inspection_prompts_def known_failure_def)
  next
    case (Inr x)
    show ?thesis
    proof (cases "MIN_VISUAL_FACTS \<le> length (fst x)")
      case True
      then show ?thesis using assms first f Inr
        by (cases x) (auto simp: inspect_visual_content_def bnd_run inspection_prompts_def known_failure_def)
    next
      case False
      obtain w2 r2 where second: "ask U loads reply ?q w1 = (w2, r2)" by (cases "ask U loads reply ?q w1")
      have prompts: "inspection_prompts U loads reply media_type payload (vr_sent w2)" "vr_sent w2 \<noteq> []" "last (vr_sent w2) = ?q"
      proof -
        have "vr_sent w2 = [?p, ?q]" using f ask_run[OF second] assms(2) by simp
        moreover have "understood U loads (reply ?p) x \<and> length (fst x) < MIN_VISUAL_FACTS" using f Inr False by simp
        ultimately show "inspection_prompts U loads reply media_type payload (vr_sent w2)" "vr_sent w2 \<noteq> []" "last (vr_sent w2) = ?q"
          unfolding inspection_prompts_def by (blast, simp_all)
      qed
      show ?thesis using assms first False second f ask_run[OF second] prompts Inr
        by (cases r2) (auto simp: inspect_visual_content_def bnd_run bnd_assoc bnd_branch bnd_ret known_failure_def parse_categories_def invalid_schema_def split: if_splits)
    qed
  qed
qed

section \<open>What an observation says\<close>

lemma failure_shape: "media_failure_observation evidence_id status media_status code msg diagnostics = Inr x \<Longrightarrow>
    vo_status x = status \<and> vo_evidence_id x = evidence_id \<and> vo_capability x = lit ''image''
    \<and> map_of (vo_facts x) (lit ''visual_facts'') = None"
  by (auto simp: media_failure_observation_def dest!: make_observation_id split: option.splits)

lemma load_failure_shape: "load_failure evidence_id failure = Inr x \<Longrightarrow>
    vo_status x \<noteq> Vs_Success \<and> vo_evidence_id x = evidence_id \<and> vo_capability x = lit ''image''
    \<and> map_of (vo_facts x) (lit ''visual_facts'') = None"
  by (auto simp: load_failure_def Let_def dest!: failure_shape split: media_failure.splits if_splits)

lemma visual_failure_shape: "visual_failure evidence_id failure v = Inr x \<Longrightarrow>
    vo_status x \<noteq> Vs_Success \<and> vo_evidence_id x = evidence_id \<and> vo_capability x = lit ''image''
    \<and> map_of (vo_facts x) (lit ''visual_facts'') = None"
  by (auto simp: visual_failure_def andthen_Inr_iff dest!: failure_shape split: visual_error.splits)

lemma success_shape: "media_success f visual_facts v = Inr x \<Longrightarrow>
    vo_status x = Vs_Success \<and> vo_evidence_id x = mf_evidence_id f \<and> vo_capability x = lit ''image''
    \<and> vo_facts x = safe_media_facts f visual_facts v
    \<and> vo_source_refs x = [mf_evidence_id f, mf_artifact_ref f, lit ''sha256:'' @ mf_normalized_sha256 f]"
  by (auto simp: media_success_def dest!: make_observation_id)

lemma loaded_same: "load_artifact T evidence_id = Inr (f, c) \<Longrightarrow> mt_facts T (mt_session_id T) evidence_id = Inr f
    \<and> (\<exists>getter. mt_content T = Some getter \<and> getter (mt_session_id T) evidence_id = Inr c) \<and> same_artifact f c"
  by (auto simp: load_artifact_def andthen_Inr_iff split: option.splits)

text \<open>The cases of a call.\<close>

lemma verify_media_cases:
  assumes "verify_media T llm evidence_id = (sent, r)"
  obtains (no_repository) e where "mt_provider T = Inl e" "sent = []" "r = Inl e"
  | (not_loaded) failure where "mt_provider T = Inr ()" "load_artifact T evidence_id = Inl failure" "sent = []" "r = load_failure evidence_id failure"
  | (no_model) f c where "mt_provider T = Inr ()" "load_artifact T evidence_id = Inr (f, c)" "llm = None" "sent = []"
      "r = media_failure_observation evidence_id Vs_Inconclusive ''not_ready'' ''media_visual_provider_not_ready''
         ''Visual verification is not ready.'' (Some not_run_visual_diagnostics)"
  | (failed) f c reply e v where "mt_provider T = Inr ()" "load_artifact T evidence_id = Inr (f, c)" "llm = Some reply"
      "inspection_prompts (mt_unicode T) (mt_loads T) reply (mf_media_type f) (mc_payload c) sent"
      "known_failure (Inl e :: visual_error + unit)" "r = visual_failure evidence_id e v"
  | (seen) f c reply vs v fmt where "mt_provider T = Inr ()" "load_artifact T evidence_id = Inr (f, c)" "llm = Some reply"
      "inspection_prompts (mt_unicode T) (mt_loads T) reply (mf_media_type f) (mc_payload c) sent"
      "MIN_VISUAL_FACTS \<le> length vs" "understood (mt_unicode T) (mt_loads T) (reply (last sent)) (vs, fmt)" "r = media_success f vs v"
proof (cases "mt_provider T")
  case (Inl e)
  then show thesis using assms by (intro that(1)) (auto simp: verify_media_def)
next
  case (Inr u)
  then have has: "mt_provider T = Inr ()" by simp
  show thesis
proof (cases "load_artifact T evidence_id")
  case (Inl failure)
  then show thesis using assms has by (intro that(2)) (auto simp: verify_media_def)
next
  case (Inr fc)
  obtain f c where fc: "fc = (f, c)" by (cases fc)
  show thesis
  proof (cases llm)
    case None
    then show thesis using assms has Inr fc by (intro that(3)) (auto simp: verify_media_def)
  next
    case (Some reply)
    obtain w o' where run: "inspect_visual_content (mt_unicode T) (mt_loads T) reply (mf_media_type f) (mc_payload c)
        \<lparr>vr_diagnostics = not_run_visual_diagnostics, vr_sent = []\<rparr> = (w, o')"
      by (cases "inspect_visual_content (mt_unicode T) (mt_loads T) reply (mf_media_type f) (mc_payload c)
        \<lparr>vr_diagnostics = not_run_visual_diagnostics, vr_sent = []\<rparr>")
    note i = inspect_run[OF run]
    show thesis
    proof (cases o')
      case (Inl e)
      then show thesis using assms has \<open>load_artifact T evidence_id = Inr fc\<close> fc Some run i
        by (intro that(4)[of f c reply e "vr_diagnostics w"]) (auto simp: verify_media_def known_failure_def)
    next
      case (Inr vs)
      then obtain fmt where "understood (mt_unicode T) (mt_loads T) (reply (last (vr_sent w))) (vs, fmt)" using i by auto
      then show thesis using assms has \<open>load_artifact T evidence_id = Inr fc\<close> fc Some run i Inr
        by (intro that(5)[of f c reply vs fmt "vr_diagnostics w"]) (auto simp: verify_media_def)
    qed
  qed
qed
qed

text \<open>
  C29. A media verification succeeds only where the repository has the facts and the same artifact's content, and the provider,
  asked about this very image at most twice, the second time only after a readable reply with too few facts, named three to eight facts:
  none blank, none too long, no two equal up to case. The observation carries these facts and those of the artifact; any other
  observation carries no visual facts.
\<close>

theorem verified_means_seen:
  assumes "verify_media T llm evidence_id = (sent, Inr x)"
  shows "if vo_status x = Vs_Success
    then \<exists>f c reply vs fmt v. mt_facts T (mt_session_id T) evidence_id = Inr f \<and> same_artifact f c
      \<and> (\<exists>getter. mt_content T = Some getter \<and> getter (mt_session_id T) evidence_id = Inr c)
      \<and> llm = Some reply \<and> inspection_prompts (mt_unicode T) (mt_loads T) reply (mf_media_type f) (mc_payload c) sent
      \<and> understood (mt_unicode T) (mt_loads T) (reply (last sent)) (vs, fmt)
      \<and> MIN_VISUAL_FACTS \<le> length vs \<and> concrete_visual_facts (mt_unicode T) vs
      \<and> vo_evidence_id x = mf_evidence_id f \<and> vo_facts x = safe_media_facts f vs v
    else map_of (vo_facts x) (lit ''visual_facts'') = None"
  using assms
proof (cases rule: verify_media_cases)
  case (seen f c reply vs v fmt)
  then have "concrete_visual_facts (mt_unicode T) vs" using parsed_facts by (auto simp: understood_def)
  with seen loaded_same[OF seen(2)] success_shape[of f vs v x] show ?thesis by auto
qed (auto dest!: sym[of "Inr x"] load_failure_shape failure_shape visual_failure_shape)

section \<open>An answer is always given\<close>

lemma diagnostics_free: "free_of_verdicts (diagnostics_json v)"
  by (simp add: diagnostics_json_def reserved_verdict_fields_def jint_def jstr_def split: option.splits)

lemma image_not_blank: "\<not> blank (lit ''image'')" "\<not> blank MEDIA_VERIFIER_VERSION" "\<not> blank (lit ''sha256:'' @ s)"
  by (simp_all add: MEDIA_VERIFIER_VERSION_def blank_iff lit_def py_isspace_def)

lemma failure_observed:
  "\<not> blank evidence_id \<Longrightarrow> \<exists>x. media_failure_observation evidence_id status media_status code msg diagnostics = Inr x"
  using diagnostics_free image_not_blank
  by (auto simp: media_failure_observation_def make_observation_def observation_checks_def reserved_verdict_fields_def jstr_def
      andthen_Inr_iff split: option.splits)

lemma failure_answers: "\<not> blank evidence_id \<Longrightarrow>
    \<exists>x. media_failure_observation evidence_id status media_status code msg diagnostics = Inr x \<and> vo_capability x = lit ''image''
      \<and> vo_evidence_id x = evidence_id"
  using failure_observed failure_shape by blast

lemma load_failure_observed: "\<not> blank evidence_id \<Longrightarrow> \<exists>x. load_failure evidence_id failure = Inr x"
  using failure_observed by (auto simp: load_failure_def Let_def split: media_failure.splits)

lemma visual_failure_observed:
  "\<not> blank evidence_id \<Longrightarrow> known_failure (Inl e :: visual_error + unit) \<Longrightarrow> \<exists>x. visual_failure evidence_id e v = Inr x"
  using failure_observed by (auto simp: visual_failure_def known_failure_def parse_categories_def split: visual_error.splits)

lemma texts_free: "list_all free_of_verdicts (map jstr vs)"
  by (simp add: list_all_iff jstr_def)

lemma made_facts_ids: "make_media_facts U g = Inr f \<Longrightarrow> \<not> blank (mf_evidence_id f) \<and> \<not> blank (mf_artifact_ref f)"
  by (auto simp: make_media_facts_def andthen_Inr_iff media_facts_checks_def clean_media_facts_def blank_def)

lemma success_observed: "make_media_facts U g = Inr f \<Longrightarrow> \<exists>x. media_success f vs v = Inr x"
  using diagnostics_free image_not_blank texts_free made_facts_ids
  by (auto simp: media_success_def make_observation_def observation_checks_def safe_media_facts_def reserved_verdict_fields_def
      jstr_def[symmetric] jint_def jstrs_def andthen_Inr_iff) (auto simp: jstr_def)

text \<open>
  C31. Without a repository the tool raises what the look-up of the registered one raised, and asks nothing. With one, whatever the
  repository and the visual provider do, it answers with an observation of the image capability and raises nothing; the provider is asked
  at most twice, and not at all unless the artifact could be loaded. This is for an evidence id that is not blank, as the type of the
  action demands, and a repository whose media facts, where it gives some, were made by the constructor that validates them.
\<close>

theorem media_always_answers:
  assumes "\<not> blank evidence_id" and "\<And>f. mt_facts T (mt_session_id T) evidence_id = Inr f \<Longrightarrow> \<exists>U g. make_media_facts U g = Inr f"
    and "verify_media T llm evidence_id = (sent, r)"
  shows "case mt_provider T of Inl e \<Rightarrow> r = Inl e \<and> sent = []
    | Inr _ \<Rightarrow> (\<exists>x. r = Inr x \<and> vo_capability x = lit ''image'' \<and> (vo_status x \<noteq> Vs_Success \<longrightarrow> vo_evidence_id x = evidence_id))
        \<and> length sent \<le> 2 \<and> (sent \<noteq> [] \<longrightarrow> llm \<noteq> None \<and> (\<exists>f c. load_artifact T evidence_id = Inr (f, c)))"
  using assms(3)
proof (cases rule: verify_media_cases)
  case no_repository
  then show ?thesis by simp
next
  case (not_loaded failure)
  then show ?thesis using load_failure_observed[OF assms(1), of failure] load_failure_shape by auto
next
  case no_model
  then show ?thesis using failure_answers[OF assms(1)] by fastforce
next
  case (failed f c reply e v)
  then show ?thesis using visual_failure_observed[OF assms(1) failed(5), of v] visual_failure_shape by (auto simp: inspection_prompts_def)
next
  case (seen f c reply vs v fmt)
  then show ?thesis using assms(2) loaded_same[OF seen(2)] success_observed success_shape
    by (auto simp: inspection_prompts_def) (metis success_observed success_shape)+
qed

section \<open>The completion policy\<close>

lemma failure_reason_eqI:
  "(failure_reason V es obs = None \<longleftrightarrow> failure_reason V es' obs' = None) \<Longrightarrow> failure_reason V es obs = failure_reason V es' obs'"
  by (auto simp: failure_reason_def split: if_splits)

lemma concrete_texts: "list_all (\<lambda>v. \<not> blank v) vs \<Longrightarrow> concrete_facts (Some (jstrs vs)) = length vs"
  by (induction vs) (simp_all add: concrete_facts_def jstrs_def jstr_def)

lemma success_verifies:
  assumes "verify_media T llm evidence_id = (sent, Inr x)"
  shows "verifies_image (verification_observation R ev (verification_obs.truncate x)) \<longleftrightarrow> vo_status x = Vs_Success"
  using assms
proof (cases rule: verify_media_cases)
  case (seen f c reply vs v fmt)
  then have "concrete_visual_facts (mt_unicode T) vs" using parsed_facts by (auto simp: understood_def)
  then have "concrete_facts (Some (jstrs vs)) = length vs"
    by (intro concrete_texts) (auto simp: concrete_visual_facts_def list_all_iff)
  then show ?thesis using seen(5) success_shape[of f vs v x] seen(7)
    by (auto simp: verifies_image_def verification_observation_def sanitize_verification_facts_def verification_obs.truncate_def
        safe_media_facts_def MIN_VISUAL_FACTS_def jstr_def)
qed (auto simp: verifies_image_def verification_observation_def verification_obs.truncate_def
    dest!: sym[of "Inr x"] load_failure_shape failure_shape visual_failure_shape split: verification_status.splits)


section \<open>The image that is sent\<close>

definition b64_value :: "nat \<Rightarrow> nat" where
  "b64_value c = (if c = 43 then 62 else if c = 47 then 63 else if c < 58 then c + 4 else if c < 91 then c - 65 else c - 71)"

fun b64decode :: "str \<Rightarrow> nat list" where
  "b64decode (a # b # c # d # rest) =
     (let x = b64_value a * 4 + b64_value b div 16; y = b64_value b mod 16 * 16 + b64_value c div 4 in
      if c = 61 then [x] else if d = 61 then [x, y] else x # y # (b64_value c mod 4 * 64 + b64_value d) # b64decode rest)"
| "b64decode _ = []"

lemma b64_value_char [simp]: "n < 64 \<Longrightarrow> b64_value (b64_char n) = n" "n < 64 \<Longrightarrow> b64_char n \<noteq> 61"
  by (auto simp: b64_value_def b64_char_def)

lemma sextets:
  fixes a b c :: nat
  assumes "a < 256" and "b < 256" and "c < 256"
  shows "a div 4 < 64" "a mod 4 * 16 + b div 16 < 64" "b mod 16 * 4 + c div 64 < 64" "c mod 64 < 64"
    "(a mod 4 * 16 + b div 16) div 16 = a mod 4" "(a mod 4 * 16 + b div 16) mod 16 = b div 16"
    "(b mod 16 * 4 + c div 64) div 4 = b mod 16" "(b mod 16 * 4 + c div 64) mod 4 = c div 64"
    "a div 4 * 4 + a mod 4 = a" "b div 16 mod 16 = b div 16" "b div 16 * 16 + b mod 16 = b" "c div 64 * 64 + c mod 64 = c"
proof -
  have "b div 16 < 16" "c div 64 < 4" "a mod 4 < 4" "b mod 16 < 16" using assms by auto
  then show "a div 4 < 64" "a mod 4 * 16 + b div 16 < 64" "b mod 16 * 4 + c div 64 < 64" "c mod 64 < 64"
    "(a mod 4 * 16 + b div 16) div 16 = a mod 4" "(a mod 4 * 16 + b div 16) mod 16 = b div 16"
    "(b mod 16 * 4 + c div 64) div 4 = b mod 16" "(b mod 16 * 4 + c div 64) mod 4 = c div 64"
    "a div 4 * 4 + a mod 4 = a" "b div 16 mod 16 = b div 16" "b div 16 * 16 + b mod 16 = b" "c div 64 * 64 + c mod 64 = c"
    using assms by auto
qed

lemma b64_roundtrip: "list_all (\<lambda>b. b < 256) payload \<Longrightarrow> b64decode (b64encode payload) = payload"
proof (induction payload rule: b64encode.induct)
  case (1 a b c rest)
  then show ?case using sextets[of a b c] by simp
next
  case (2 a b)
  then show ?case using sextets[of a b 0] by simp
next
  case (3 a)
  then show ?case using sextets[of a 0 0] by simp
qed simp

lemma image_urls: "inspection_prompts U loads reply media_type payload sent \<Longrightarrow>
    \<forall>p \<in> set sent. vp_image_url p = image_url media_type payload"
  by (auto simp: inspection_prompts_def make_prompt_def)

text \<open>The tool over the repository of one session.\<close>

definition scoped_media_tool :: "unicode \<Rightarrow> (str \<Rightarrow> exc + json) \<Rightarrow> evidence_repository \<Rightarrow> (nat \<Rightarrow> exc + db) \<Rightarrow> str \<Rightarrow> media_tool" where
  "scoped_media_tool U loads R reads session_id =
     \<lparr>mt_unicode = U, mt_session_id = session_id, mt_provider = Inr (), mt_facts = media_evidence_facts U R reads 0,
      mt_content = Some (media_content R reads 2), mt_loads = loads\<rparr>"

lemma scoped_loaded:
  assumes "load_artifact (scoped_media_tool U loads R reads session_id) evidence_id = Inr (f, c)"
  obtains C d where "session_id = er_session_id R" "er_provider R = Some C"
    "get_content C reads 2 (er_principal_id R) session_id evidence_id = Inr c"
    "reads 2 = Inr d" "get_media_message_artifact (er_principal_id R) session_id evidence_id d = Inr (mc_facts c)"
    "same_artifact f c" "mf_evidence_id f = evidence_id"
proof -
  have same: "same_artifact f c" and "media_content R reads 2 session_id evidence_id = Inr c"
    using loaded_same[OF assms] by (auto simp: scoped_media_tool_def)
  then obtain C where C: "session_id = er_session_id R" "er_provider R = Some C"
      and content: "get_content C reads 2 (er_principal_id R) session_id evidence_id = Inr c"
    by (auto simp: media_content_def split: if_splits option.splits)
  obtain d where d: "reads 2 = Inr d" "get_media_message_artifact (er_principal_id R) session_id evidence_id d = Inr (mc_facts c)"
    using content_source[OF content] by blast
  have "mm_evidence_id (mc_facts c) = evidence_id" using media_facts_source[OF d(2)] by blast
  then have "mf_evidence_id f = evidence_id" using same by (simp add: same_artifact_def)
  with C content d same show ?thesis by (rule that)
qed

text \<open>
  C30. Take an image among the evidence and an observation of the tool about it, over the product's own repository and read back from
  the native event by a redaction that leaves the evidence id as it is, since it is no URL. The observation settles this image for
  the completion policy exactly if it is a success: alone it completes a review of this image just in that case; a success leaves only
  the other evidence to be verified, whatever other observations there are; anything else changes no answer of the policy.
\<close>

theorem success_completes:
  assumes "verify_media (scoped_media_tool U loads R reads session_id) llm evidence_id = (sent, Inr x)"
    and "is_image V e" and "ei_evidenceId e = evidence_id" and "rd_source_ref D evidence_id = evidence_id"
  shows "let ob = verification_observation D ev (verification_obs.truncate x) in
    (failure_reason V [e] [ob] = None \<longleftrightarrow> vo_status x = Vs_Success)
    \<and> (vo_status x = Vs_Success \<longrightarrow> (\<forall>es obs. failure_reason V (e # es) (obs @ [ob]) = failure_reason V es (obs @ [ob])))
    \<and> (vo_status x \<noteq> Vs_Success \<longrightarrow> (\<forall>es obs. failure_reason V es (obs @ [ob]) = failure_reason V es obs))"
proof -
  let ?ob = "verification_observation D ev (verification_obs.truncate x)"
  have counts: "verifies_image ?ob \<longleftrightarrow> vo_status x = Vs_Success" by (rule success_verifies[OF assms(1)])
  have named: "evidence_id \<in> set (ob_sourceRefs ?ob)" if success: "vo_status x = Vs_Success"
  proof -
    obtain f c vs v where loaded: "load_artifact (scoped_media_tool U loads R reads session_id) evidence_id = Inr (f, c)"
        and x: "Inr x = media_success f vs v"
      using success by (cases rule: verify_media_cases[OF assms(1)])
        (auto dest!: sym[of "Inr x"] load_failure_shape failure_shape visual_failure_shape)
    have "mf_evidence_id f = evidence_id" using loaded by (rule scoped_loaded)
    then have "evidence_id \<in> set (vo_source_refs x)" using success_shape[OF x[symmetric]] by simp
    then show ?thesis using assms(4)
      by (force simp: verification_observation_def sanitize_source_refs_def verification_obs.truncate_def)
  qed
  have settled: "failure_reason V (e # es) (obs @ [?ob]) = None \<longleftrightarrow> failure_reason V es (obs @ [?ob]) = None"
    if "vo_status x = Vs_Success" for es obs
    using counts named that assms(2,3) by (auto simp: completion_policy_iff)
  have ignored: "failure_reason V es (obs @ [?ob]) = None \<longleftrightarrow> failure_reason V es obs = None"
    if "vo_status x \<noteq> Vs_Success" for es obs
    using counts that by (auto simp: completion_policy_iff)
  have "failure_reason V [e] [?ob] = None \<longleftrightarrow> vo_status x = Vs_Success"
    using counts named assms(2,3) by (auto simp: completion_policy_iff)
  then show ?thesis using failure_reason_eqI[OF settled] failure_reason_eqI[OF ignored] by (simp add: Let_def)
qed

text \<open>
  C28. Over the product's own repository: the provider only ever sees an image of the repository's session whose owner is its principal,
  of an allowed type and size, and byte for byte the one whose digest is stored. The facts, the object key and the digest are those of the
  referenced artifact that the evidence row of this very id and session names, behind the completed reservation of this evidence, the
  clean scan attempt under the stable key of session and reservation, and the receipt of that attempt.
\<close>

theorem sent_images_scanned:
  assumes "verify_media (scoped_media_tool U loads R reads session_id) llm evidence_id = (sent, r)" and "p \<in> set sent"
  shows "session_id = er_session_id R \<and> (\<exists>C d f payload. er_provider R = Some C \<and> reads 2 = Inr d
    \<and> get_media_message_artifact (er_principal_id R) session_id evidence_id d = Inr f
    \<and> mm_media_type f \<in> set ALLOWED_IMAGE_MEDIA_TYPES
    \<and> vp_image_url p = lit ''data:'' @ mm_media_type f @ lit '';base64,'' @ b64encode payload
    \<and> int (length payload) = mm_byte_size f \<and> int (length payload) \<le> cp_max_image_bytes C \<and> cp_sha256 C payload = mm_normalized_sha256 f
    \<and> (list_all (\<lambda>b. b < 256) payload \<longrightarrow> b64decode (b64encode payload) = payload)
    \<and> (\<exists>s e a r t c. s \<in> set (t_sessions d) \<and> ls_session_id s = session_id \<and> ls_owner_user_id s = er_principal_id R
      \<and> e \<in> set (t_evidence d) \<and> ev_session_id e = session_id \<and> ev_evidence_id e = evidence_id
      \<and> a \<in> set (t_artifacts d) \<and> ev_artifact_id e = Some (ma_media_item_id a) \<and> ma_state a = ArReferenced
      \<and> r \<in> set (t_reservations d) \<and> mr_session_id r = session_id \<and> mr_evidence_id r = Some evidence_id \<and> mr_status r = RsCompleted
      \<and> t \<in> set (t_attempts d) \<and> at_scan_result t = Clean \<and> at_idempotency_key t = stable_scan_key s r
      \<and> c \<in> set (t_receipts d) \<and> rc_attempt_id c = at_attempt_id t
      \<and> mm_evidence_id f = evidence_id \<and> mm_receipt_id f = rc_receipt_id c \<and> mm_attempt_id f = at_attempt_id t
      \<and> mm_opaque_object_key f = ma_opaque_object_key a \<and> mm_byte_size f = ma_normalized_byte_size a
      \<and> mm_media_type f = ma_media_type a \<and> mm_normalized_sha256 f = ma_normalized_sha256 a
      \<and> mm_artifact_ref f = lit ''focusproof-artifact://'' @ ma_media_item_id a
      \<and> 0 < mm_width f \<and> 0 < mm_height f))"
proof -
  let ?T = "scoped_media_tool U loads R reads session_id"
  obtain f c reply where loaded: "load_artifact ?T evidence_id = Inr (f, c)"
      and prompts: "inspection_prompts U loads reply (mf_media_type f) (mc_payload c) sent"
    using assms by (cases rule: verify_media_cases[OF assms(1)]) (auto simp: scoped_media_tool_def)
  from loaded show ?thesis
  proof (rule scoped_loaded)
    fix C d
    assume C: "session_id = er_session_id R" "er_provider R = Some C"
      and content: "get_content C reads 2 (er_principal_id R) session_id evidence_id = Inr c"
      and d: "reads 2 = Inr d" "get_media_message_artifact (er_principal_id R) session_id evidence_id d = Inr (mc_facts c)"
      and same: "same_artifact f c"
    have url: "vp_image_url p = lit ''data:'' @ mm_media_type (mc_facts c) @ lit '';base64,'' @ b64encode (mc_payload c)"
      using image_urls[OF prompts] assms(2) same by (simp add: image_url_def same_artifact_def)
    have parts: "mm_media_type (mc_facts c) \<in> set ALLOWED_IMAGE_MEDIA_TYPES"
      "int (length (mc_payload c)) = mm_byte_size (mc_facts c)" "int (length (mc_payload c)) \<le> cp_max_image_bytes C"
      "cp_sha256 C (mc_payload c) = mm_normalized_sha256 (mc_facts c)"
      using content_source[OF content] by auto
    show ?thesis
      by (intro conjI C(1) exI[of _ C] exI[of _ d] exI[of _ "mc_facts c"] exI[of _ "mc_payload c"])
        (rule C d url parts impI b64_roundtrip media_facts_source[OF d(2)] | assumption)+
  qed
qed

section \<open>Witnesses\<close>

text \<open>The image of \<open>media_db\<close> with an explanation and digests.\<close>

definition sample_digest :: str where "sample_digest = replicate 64 97"

definition image_db :: db where
  "image_db = media_db\<lparr>t_evidence := map (\<lambda>e. e\<lparr>ev_text_content := Some (lit ''leaf'')\<rparr>) (t_evidence media_db),
     t_artifacts := map (\<lambda>a. a\<lparr>ma_normalized_sha256 := sample_digest\<rparr>) (t_artifacts media_db),
     t_attempts := map (\<lambda>t. t\<lparr>at_artifact_sha256 := sample_digest\<rparr>) (t_attempts media_db)\<rparr>"

definition sample_reply_json :: json where
  "sample_reply_json = Obj [(lit ''visual_facts'', Arr [jstr (lit ''tree''), jstr (lit ''lake''), jstr (lit ''bird'')])]"

definition sample_repository :: evidence_repository where
  "sample_repository = scope_evidence (Some (sample_provider\<lparr>cp_sha256 := \<lambda>_. sample_digest\<rparr>)) (lit ''s1'') (lit ''u1'')"

definition sample_media_tool :: media_tool where
  "sample_media_tool = scoped_media_tool ascii (\<lambda>_. Inr sample_reply_json) sample_repository (\<lambda>_. Inr image_db) (lit ''s1'')"

lemma image_db_artifact: "get_media_message_artifact (lit ''u1'') (lit ''s1'') (lit ''e1'') image_db = Inr
    \<lparr>mm_evidence_id = lit ''e1'', mm_receipt_id = lit ''r1'', mm_attempt_id = lit ''a1'', mm_scan_result = ''clean'',
      mm_artifact_ref = lit ''focusproof-artifact://m1'', mm_artifact_sha256 = sample_digest, mm_opaque_object_key = lit ''o1'',
      mm_media_type = lit ''image/png'', mm_normalized_sha256 = sample_digest, mm_byte_size = 3, mm_width = 2, mm_height = 3\<rparr>"
  by (simp add: get_media_message_artifact_def media_join_rows_def image_db_def media_db_def empty_db_def sample_session_def
      matches_def joined_def stable_scan_key_def media_facts_of_def positive_dimension_def flip: lit_append)

lemma image_db_evidence: "\<exists>e. scoped_evidence sample_repository (\<lambda>_. Inr image_db) n (lit ''s1'') (lit ''e1'') = Inr e
    \<and> ei_evidenceId e = lit ''e1'' \<and> ei_textContent e = Some (lit ''leaf'')"
  by (simp add: scoped_evidence_def sample_repository_def scope_evidence_def get_owned_def evidence_get_def image_db_def media_db_def
      empty_db_def sample_session_def evidence_of_stored_def stored_evidence_of_def)

lemma sample_strips: "strip (lit ''e1'') = lit ''e1''" "strip (lit ''r1'') = lit ''r1''" "strip (lit ''a1'') = lit ''a1''"
    "strip (lit ''clean'') = lit ''clean''" "strip (lit ''leaf'') = lit ''leaf''" "strip (lit ''image/png'') = lit ''image/png''"
    "strip (lit ''focusproof-artifact://m1'') = lit ''focusproof-artifact://m1''"
  by (simp_all add: strip_def lit_def py_isspace_def)

lemma sample_words: "squeeze (lit ''leaf'') = lit ''leaf''" "squeeze (lit ''tree'') = lit ''tree''"
    "squeeze (lit ''lake'') = lit ''lake''" "squeeze (lit ''bird'') = lit ''bird''"
  using split_join[of "[lit ''leaf'']"] split_join[of "[lit ''tree'']"] split_join[of "[lit ''lake'']"] split_join[of "[lit ''bird'']"]
  by (simp_all add: squeeze_def wordy_def lit_def py_isspace_def)

lemma sample_lower: "u_lower ascii (lit ''clean'') = lit ''clean''" "u_lower ascii (lit ''image/png'') = lit ''image/png''"
    "u_lower ascii sample_digest = sample_digest" "strip sample_digest = sample_digest" "length sample_digest = 64"
    "list_all is_lower_hex sample_digest" "remove_prefix (lit ''sha256:'') sample_digest = sample_digest"
  by (simp_all add: ascii_def ascii_lower_def lit_def sample_digest_def strip_def py_isspace_def is_lower_hex_def remove_prefix_def
      list_all_iff numeral_eq_Suc)

lemma sample_media_facts: "\<exists>f. media_evidence_facts ascii sample_repository (\<lambda>_. Inr image_db) 0 (lit ''s1'') (lit ''e1'') = Inr f
    \<and> mf_evidence_id f = lit ''e1'' \<and> mf_artifact_ref f = lit ''focusproof-artifact://m1'' \<and> mf_media_type f = lit ''image/png''
    \<and> mf_normalized_sha256 f = sample_digest \<and> mf_byte_size f = 3 \<and> make_media_facts ascii f = Inr f"
proof -
  have slash: "47 \<in> set (lit ''image/png'')" "\<not> blank (lit ''leaf'')" by (simp_all add: lit_def blank_iff py_isspace_def)
  obtain e where e: "scoped_evidence sample_repository (\<lambda>_. Inr image_db) 0 (lit ''s1'') (lit ''e1'') = Inr e"
    "ei_evidenceId e = lit ''e1''" "ei_textContent e = Some (lit ''leaf'')" using image_db_evidence by blast
  have provider: "er_provider sample_repository \<noteq> None" "er_principal_id sample_repository = lit ''u1''"
    by (simp_all add: sample_repository_def scope_evidence_def)
  show ?thesis
    using e slash provider
    by (simp add: media_evidence_facts_def get_facts_def image_db_artifact facts_of_artifact_def positive_number_def make_media_facts_def
        clean_media_facts_def media_facts_checks_def sha256_check_def sample_strips sample_words sample_lower require_all.simps)
qed

lemma sample_image: "\<exists>c. media_content sample_repository (\<lambda>_. Inr image_db) 2 (lit ''s1'') (lit ''e1'') = Inr c
    \<and> mm_evidence_id (mc_facts c) = lit ''e1'' \<and> mm_artifact_ref (mc_facts c) = lit ''focusproof-artifact://m1''
    \<and> mm_media_type (mc_facts c) = lit ''image/png'' \<and> mm_normalized_sha256 (mc_facts c) = sample_digest \<and> mm_byte_size (mc_facts c) = 3"
  by (simp add: media_content_def sample_repository_def scope_evidence_def get_content_def get_facts_def image_db_artifact
      ALLOWED_IMAGE_MEDIA_TYPES_def sample_provider_def read_object_def validated_content_def validate_object_def dimension_of_def
      positive_number_def require_all.simps)

lemma sample_loaded: "\<exists>f c. load_artifact sample_media_tool (lit ''e1'') = Inr (f, c) \<and> make_media_facts ascii f = Inr f"
  using sample_media_facts sample_image
  by (auto simp: load_artifact_def sample_media_tool_def scoped_media_tool_def same_artifact_def)

lemma sample_parse: "strip (lit ''x'') = lit ''x''" "single_json_fence (lit ''x'') = None"
  by (simp_all add: strip_def single_json_fence_def lit_def py_isspace_def)

lemma sample_understood: "parse_visual_response ascii (\<lambda>_. Inr sample_reply_json) (lit ''x'')
    = Inr ([lit ''tree'', lit ''lake'', lit ''bird''], ''plain_json'')"
  by (simp add: parse_visual_response_def sample_parse sample_reply_json_def jstr_def MAX_VISUAL_FACTS_def MAX_VISUAL_FACT_CHARS_def
      Let_def sample_words numeral_eq_Suc) (simp add: lit_def ascii_def ascii_lower_def)

lemma sample_success: "\<exists>x sent. verify_media sample_media_tool (Some (\<lambda>_. Llm_Message [Some (lit ''x'')])) (lit ''e1'') = (sent, Inr x)
    \<and> vo_status x = Vs_Success \<and> sent \<noteq> []"
proof -
  obtain f c where load: "load_artifact sample_media_tool (lit ''e1'') = Inr (f, c)" and made: "make_media_facts ascii f = Inr f"
    using sample_loaded by blast
  have fields: "mt_unicode sample_media_tool = ascii" "mt_loads sample_media_tool = (\<lambda>_. Inr sample_reply_json)"
    "mt_provider sample_media_tool = Inr ()"
    by (simp_all add: sample_media_tool_def scoped_media_tool_def)
  have run: "ask ascii (\<lambda>_. Inr sample_reply_json) (\<lambda>_. Llm_Message [Some (lit ''x'')]) p w = (w', r) \<Longrightarrow>
      r = Inr ([lit ''tree'', lit ''lake'', lit ''bird''], ''plain_json'')" for p w w' r
    by (simp add: ask_def request_visual_completion_def bnd_def[of "request_visual_completion _ _"] bnd_def update_diagnostics_def send_prompt_def
        reply_text_def List.map_filter_def sample_understood)
  obtain w1 r1 where first: "ask ascii (\<lambda>_. Inr sample_reply_json) (\<lambda>_. Llm_Message [Some (lit ''x'')])
      (make_prompt (mf_media_type f) (mc_payload c) False) \<lparr>vr_diagnostics = not_run_visual_diagnostics, vr_sent = []\<rparr> = (w1, r1)"
    by (cases "ask ascii (\<lambda>_. Inr sample_reply_json) (\<lambda>_. Llm_Message [Some (lit ''x'')])
      (make_prompt (mf_media_type f) (mc_payload c) False) \<lparr>vr_diagnostics = not_run_visual_diagnostics, vr_sent = []\<rparr>")
  let ?vs = "[lit ''tree'', lit ''lake'', lit ''bird'']"
  let ?v = "outcome ''plain_json'' ''complete'' ''none'' (vr_diagnostics w1)"
  obtain x where x: "media_success f ?vs ?v = Inr x" using success_observed[OF made] by blast
  have "verify_media sample_media_tool (Some (\<lambda>_. Llm_Message [Some (lit ''x'')])) (lit ''e1'') = (vr_sent w1, Inr x)"
    using load x run[OF first] first by (simp add: verify_media_def fields inspect_visual_content_def bnd_run bnd_ret MIN_VISUAL_FACTS_def)
  then show ?thesis using success_shape[OF x] ask_run[OF first] by auto
qed

lemma verified_means_seen_witness:
  "\<exists>x sent. verify_media sample_media_tool (Some (\<lambda>_. Llm_Message [Some (lit ''x'')])) (lit ''e1'') = (sent, Inr x)
    \<and> (\<exists>f vs v. vo_facts x = safe_media_facts f vs v \<and> MIN_VISUAL_FACTS \<le> length vs)"
proof -
  obtain x sent where x: "verify_media sample_media_tool (Some (\<lambda>_. Llm_Message [Some (lit ''x'')])) (lit ''e1'') = (sent, Inr x)"
    "vo_status x = Vs_Success" using sample_success by blast
  then show ?thesis using verified_means_seen[OF x(1)] by auto
qed

lemma media_always_answers_witness: "\<exists>x. snd (verify_media sample_media_tool None (lit ''e1'')) = Inr x"
proof -
  have "\<exists>U g. make_media_facts U g = Inr f" if "mt_facts sample_media_tool (mt_session_id sample_media_tool) (lit ''e1'') = Inr f" for f
    using sample_media_facts that by (auto simp: sample_media_tool_def scoped_media_tool_def)
  moreover have "\<not> blank (lit ''e1'')" by (simp add: blank_iff lit_def py_isspace_def)
  moreover obtain sent r where run: "verify_media sample_media_tool None (lit ''e1'') = (sent, r)"
    by (cases "verify_media sample_media_tool None (lit ''e1'')")
  ultimately show ?thesis using media_always_answers[of "lit ''e1''" sample_media_tool None sent r]
    by (auto simp: sample_media_tool_def scoped_media_tool_def)
qed

lemma success_completes_witness:
  "\<exists>x sent. verify_media sample_media_tool (Some (\<lambda>_. Llm_Message [Some (lit ''x'')])) (lit ''e1'') = (sent, Inr x)
    \<and> (\<forall>ev. failure_reason ascii [sample_image\<lparr>ei_evidenceId := lit ''e1''\<rparr>]
        [verification_observation \<lparr>rd_source_ref = (\<lambda>r. r), rd_url_facts = (\<lambda>f. f)\<rparr> ev (verification_obs.truncate x)] = None)"
proof -
  obtain x sent where x: "verify_media sample_media_tool (Some (\<lambda>_. Llm_Message [Some (lit ''x'')])) (lit ''e1'') = (sent, Inr x)"
    "vo_status x = Vs_Success" using sample_success by blast
  have "is_image ascii (sample_image\<lparr>ei_evidenceId := lit ''e1''\<rparr>)"
    by (simp add: is_image_def sample_image_def ascii_def ascii_lower_def lit_def strip_def py_isspace_def)
  then show ?thesis
    using success_completes[OF x(1)[unfolded sample_media_tool_def], of ascii "sample_image\<lparr>ei_evidenceId := lit ''e1''\<rparr>"
        "\<lparr>rd_source_ref = (\<lambda>r. r), rd_url_facts = (\<lambda>f. f)\<rparr>"] x by (auto simp: Let_def)
qed

lemma sent_images_scanned_witness:
  "\<exists>p. p \<in> set (fst (verify_media sample_media_tool (Some (\<lambda>_. Llm_Message [Some (lit ''x'')])) (lit ''e1'')))
    \<and> (\<exists>t \<in> set (t_attempts image_db). at_scan_result t = Clean
        \<and> (\<exists>s \<in> set (t_sessions image_db). \<exists>r \<in> set (t_reservations image_db). at_idempotency_key t = stable_scan_key s r))"
proof -
  obtain x sent where x: "verify_media sample_media_tool (Some (\<lambda>_. Llm_Message [Some (lit ''x'')])) (lit ''e1'') = (sent, Inr x)"
    "sent \<noteq> []" using sample_success by blast
  then obtain p where p: "p \<in> set sent" by (cases sent) auto
  then have "\<exists>t \<in> set (t_attempts image_db). at_scan_result t = Clean
      \<and> (\<exists>s \<in> set (t_sessions image_db). \<exists>r \<in> set (t_reservations image_db). at_idempotency_key t = stable_scan_key s r)"
    using sent_images_scanned[OF x(1)[unfolded sample_media_tool_def] p] by auto
  then show ?thesis using p x(1) by auto
qed

end
