(* ===== verification/Spec2Isabelle.thy ===== *)
theory Spec2Isabelle
  imports Prelude Interfaces ScanContract MediaModels Schema SpeechRequests ResourceSlots AuditLog ScanAudit
    SessionRepos MediaTransactions Scoring Narratives ReviewExtraction ReviewLineage
    Actions Ingestion IngestionSafety SpeechModels SpeechService SpeechServiceSafety Urls Clamd
    Addresses UrlFetch UrlVerifier Projector Synchronizer Recovery Providers
    MediaVerifier
begin

text \<open>
  Verification of FocusProof, the agent server that keeps learning sessions, the evidence and the
  media a learner submits, speech transcriptions and the agent's reviews. All paths
  below are relative to \<^verbatim>\<open>src/agent-server/focusproof\<close>.

  \<^bold>\<open>The program.\<close> A request enters through \<^verbatim>\<open>api/\<close>, is turned into calls of the application services
  (\<^verbatim>\<open>media_application.py\<close>, \<^verbatim>\<open>media_core/ingestion.py\<close>, \<^verbatim>\<open>speech_application.py\<close>) and ends in the SQL
  repositories of \<^verbatim>\<open>persistence/\<close>, which hold all durable state. A media upload is scanned for
  malware under a shared scanner slot, its clean receipt is published under a lease, its normalised form is
  deduplicated per owner, and only then does evidence become visible. A speech request is admitted
  under quotas, scanned, inspected, dispatched to the provider at most once, and settled or recovered.
  The synchronizer brings goal, answers and evidence into the agent's conversation; the agent's tools verify
  texts, URLs and images; its native events are projected into a numbered audit log; and the extraction of a
  review scores what was verified and ends the session.

  \<^bold>\<open>The model.\<close> One theory per component. The foundations:

  \<^item> \<open>Prelude\<close>: Python strings as code point lists, exceptions as sums (\<open>Inl\<close> the exception), tables as
    row lists with \<open>tupdate\<close> (UPDATE) and \<open>rowcount\<close>, SQL's three-valued logic for CHECK constraints.
  \<^item> \<open>Interfaces\<close>: the locales \<open>invariant_system\<close>, \<open>fenced_operation\<close> (a token that works once) and
    \<open>event_log\<close> (an append-only numbered log), interpreted below on the model's own operations.
  \<^item> \<open>Actions\<close>: programs that change a state and may raise, and the locale \<open>guarded_actions\<close> of their rely and
    guarantee reasoning, interpreted on ingestion, the speech service, the scanner, the fetch and the synchronizer.

  The data and the repositories:

  \<^item> \<open>ScanContract\<close>: \<^verbatim>\<open>contracts/media_scan.py\<close>, the verdicts of \<^verbatim>\<open>media_core/ports.py\<close> and the legacy
    projection of \<^verbatim>\<open>domain/evidence_facts.py\<close>.
  \<^item> \<open>MediaModels\<close>: the validated dataclasses of \<^verbatim>\<open>media_core/models.py\<close> and \<^verbatim>\<open>media_core/limits.py\<close>.
  \<^item> \<open>Schema\<close>: \<^verbatim>\<open>persistence/models.py\<close>: a record per table, its CHECK constraints, the database \<open>db\<close>.
  \<^item> \<open>SpeechRequests\<close>: \<open>SqlSpeechRequestRepository\<close>: the speech request state machine.
  \<^item> \<open>ResourceSlots\<close>: \<open>SqlResourceSlotRepository\<close>, and the slot controller, slot-bound scanner and
    cancellation gate of \<^verbatim>\<open>media_application.py\<close>.
  \<^item> \<open>AuditLog\<close>: \<^verbatim>\<open>runtime/events.py\<close>, \<^verbatim>\<open>runtime/audit_projection.py\<close>, \<open>SqlAuditEventRepository\<close> and the
    persistent audit store.
  \<^item> \<open>ScanAudit\<close>: \<open>MediaScanAuditRepository\<close>: scan attempts, receipts and the publication lease.
  \<^item> \<open>SessionRepos\<close>: the session, evidence, answer, review, principal and security audit repositories.
  \<^item> \<open>MediaTransactions\<close>: \<open>SqlMediaTransactionRepository\<close>: reservations, artifacts, reference intents.
  \<^item> \<open>Providers\<close>: \<^verbatim>\<open>persistence/providers.py\<close> and \<^verbatim>\<open>media_adapters/media_message_content.py\<close>: the resolution of
    principals and what a session's tools may read of its evidence and images.

  The services and adapters over them:

  \<^item> \<open>Ingestion\<close>, \<open>IngestionSafety\<close>: \<^verbatim>\<open>media_core/ingestion.py\<close>, and what it guarantees beside other requests.
  \<^item> \<open>SpeechModels\<close>, \<open>SpeechService\<close>, \<open>SpeechServiceSafety\<close>: the values of \<^verbatim>\<open>speech_core/\<close> with the request
    fingerprint, \<^verbatim>\<open>speech_application.py\<close>, and what it guarantees.
  \<^item> \<open>Clamd\<close>: \<^verbatim>\<open>media_adapters/clamd_malware_scanner.py\<close> and \<^verbatim>\<open>clamd_limits.py\<close>.
  \<^item> \<open>Recovery\<close>: \<^verbatim>\<open>recovery.py\<close>: writers, maintenance windows and crashes as step relations over two marker files
    and two locks.

  The agent's side, \<^verbatim>\<open>openhands_runtime/\<close> with \<^verbatim>\<open>domain/\<close> and \<^verbatim>\<open>media_projection/\<close>:

  \<^item> \<open>Synchronizer\<close>: \<^verbatim>\<open>synchronizer.py\<close>, \<^verbatim>\<open>evidence_messages.py\<close>, \<^verbatim>\<open>runtime_evidence_message_factory.py\<close>.
  \<^item> \<open>Projector\<close>: \<^verbatim>\<open>projector.py\<close>, over the SQL log and over the log in memory.
  \<^item> \<open>Addresses\<close>, \<open>Urls\<close>, \<open>UrlFetch\<close>, \<open>UrlVerifier\<close>: what the code uses of \<^verbatim>\<open>ipaddress\<close> and \<^verbatim>\<open>urllib.parse\<close>,
    \<^verbatim>\<open>url_redaction.py\<close>, and the tools \<^verbatim>\<open>url_safety.py\<close>, \<^verbatim>\<open>url_fetcher.py\<close>, \<^verbatim>\<open>url_execution.py\<close>, \<^verbatim>\<open>url_evidence.py\<close>,
    \<^verbatim>\<open>text_evidence.py\<close> and \<^verbatim>\<open>verification.py\<close>.
  \<^item> \<open>MediaVerifier\<close>: the tool \<^verbatim>\<open>media_evidence.py\<close>, over any repository and over that of \<open>Providers\<close>.
  \<^item> \<open>Scoring\<close>, \<open>Narratives\<close>: \<^verbatim>\<open>domain/scoring.py\<close>, \<^verbatim>\<open>domain/scoring_inputs.py\<close>, the image narratives, the identities of
    visual facts and the completion policy of \<^verbatim>\<open>media_projection/\<close>.
  \<^item> \<open>ReviewExtraction\<close>, \<open>ReviewLineage\<close>: \<^verbatim>\<open>result_extractor.py\<close>, and the lineage it writes and checks.

  Each repository operation is a function from its arguments, the clock and fresh ids it draws (parameters), and the
  database to its result and the new database; a raised exception leaves the database as it was, which
  is the unit of work's rollback. A transaction is one step: the code serialises writers by row locks or
  \<open>BEGIN IMMEDIATE\<close>, and \<open>MediaTransactions\<close> models separately the one insertion race it handles. Each
  repository has a step relation over its operations, an invariant kept by every step, and theorems over
  all reachable states. The services are actions: every transaction, await and port call is numbered, and functions of
  that number say what the port answers, whether the commit or the await fails, and what other requests did to the database in
  between, so that a theorem about any such functions holds for every interleaving and every failure.

  \<^bold>\<open>What the theorems show.\<close> Constraints and well-formedness hold in every reachable state; requests, reservations,
  receipts and reviews only move forward and their terminal states are final; single-use tokens (lease
  generations, owner tokens, versions) are refused once spent; quotas hold; operations are replay safe; the
  SQL audit log refines the in-memory one, and the projector over the one the projector over the other. Ingestion keeps the
  invariants and publishes nothing without a recorded clean scan; a retry of a completed upload returns the stored result. A
  speech execution calls its ports in order, its provider only after a clean scan and a stored dispatch, returns only a
  stored success, and ends in time. The scanner says clean only of what it sent. A fetch connects only to accepted addresses and
  keeps its bounds; a public URL tells nothing but scheme, host and port, a digest and whether there is a path. A verification succeeds only
  on what was fetched or seen, images leave only behind their own clean scan, and a successful image verification is what the
  completion policy asks for. Messages and native events are delivered and projected once. Writers and maintenance windows
  exclude each other over crashes. A review completes only from an accepted draft with its policies met, and the lineage
  it writes is accepted by the product's own check under stated conditions.

  \<^bold>\<open>Bounds.\<close> Fuel stands for loops that end with the clock: the slot controller's claim loop (\<open>ResourceSlots\<close>), the wait
  for a transcription slot (\<open>SpeechService\<close>) and the wait for a fetched page (\<open>UrlVerifier\<close>). Each has a theorem that the rounds that fit
  before the deadline are enough, from the clock it reads alone; what is proved of their results needs no bound. A fetch recurses on
  the redirects that are left, its lists of lookups and chunks are finite data; everything else is structurally recursive, or a definition.

  \<^bold>\<open>Not modelled.\<close> Database engine behaviour below transactions, string length limits of columns (PostgreSQL
  would refuse longer values), indexes, and time zones (instants are integers). Hash functions and HMAC are parameters,
  total on code points: text with a lone surrogate, which raises when it is encoded, is an error only where a theory encodes it
  itself (\<open>Urls\<close>, \<open>SpeechModels\<close>), not in the identities of visual facts. In \<open>ReviewExtraction\<close> the redaction of source references and
  of the facts of URLs is a total parameter, although \<^verbatim>\<open>redact_url\<close> can raise (\<open>Urls\<close> has these errors); and \<open>extract_managed\<close> is the
  extraction with a unit of work: what the one without writes is modelled as \<open>persist_in_memory\<close> and not composed with it.
  The HTTP layer with its authentication and admission (\<^verbatim>\<open>api/\<close>), the conversation manager and the assembly of tools
  and runtimes, the older adapter \<^verbatim>\<open>openhands_adapter/\<close>, the stores on the file system with their janitor, the Pillow codec and
  its worker process, the speech adapters (mediainfo, DashScope), configuration and composition, migrations, scripts,
  deployment and the front end are not modelled: they are glue over the components above, or drive code
  outside the repository; where a component uses one of them, what it answers is an argument.
\<close>

end
